(* ===== verification/Knx_Base.thy ===== *)
theory Knx_Base
  imports Main "HOL-Library.Word"
begin

text \<open>
  The prelude of the KNstaX development: machine-integer types, the error codes and the
  result type of \<open>util/result.hpp\<close>, the address types of \<open>types.hpp\<close>, the bounded vector of
  \<open>util/fixed_vector.hpp\<close>, the progress states of \<open>util/operation_progress.hpp\<close>, and the
  lemmas on bytes and bits that every codec proof uses.
\<close>

unbundle bit_operations_syntax

section \<open>Machine integers and automation\<close>

type_synonym u8 = "8 word"
type_synonym u16 = "16 word"
type_synonym u32 = "32 word"
type_synonym u64 = "64 word"
type_synonym bytes = "8 word list"

named_theorems knx_defs \<open>definitions of the small accessors of the model\<close>
named_theorems knx_bits \<open>rewriting of bits, bytes and masks\<close>

section \<open>Results (util/result.hpp, util/operation_progress.hpp)\<close>

datatype error_code =
    InvalidParameter
  | InvalidAddress
  | InvalidFrameSize
  | BufferTooSmall
  | OutOfRange
  | AccessDenied
  | ChecksumError
  | ETimeout
  | EBusy
  | QueueFull
  | NotInitialized
  | AlreadyInitialized
  | ETransmissionFailed
  | DecodeFailed
  | EncodeFailed
  | ResourceUnavailable
  | OperationFailed
  | OperationNotReady
  | OperationNotSupported
  | FrameConsumed
  | UnknownError

type_synonym 'a result = "error_code + 'a"

fun isOk :: "'a result \<Rightarrow> bool" where
  "isOk (Inr _) = True"
| "isOk (Inl _) = False"

datatype progress = Pending | Success | Busy | TransmissionFailed | Timeout

definition isTerminal :: "progress \<Rightarrow> bool" where
  "isTerminal p \<longleftrightarrow> p \<noteq> Pending"

definition progressStateFromError :: "error_code \<Rightarrow> progress" where
  "progressStateFromError e =
     (if e = EBusy then Busy else if e = ETimeout then Timeout else TransmissionFailed)"

section \<open>Bytes of a 16-bit value (util/bit_ops.hpp)\<close>

definition getHighByte :: "u16 \<Rightarrow> u8" where
  "getHighByte v = ucast (drop_bit 8 v AND 0xFF)"

definition getLowByte :: "u16 \<Rightarrow> u8" where
  "getLowByte v = ucast (v AND 0xFF)"

text \<open>\<open>(uint16_t(hi) << 8) | lo\<close>, the pattern every decoder uses.\<close>

definition word_be :: "u8 \<Rightarrow> u8 \<Rightarrow> u16" where
  "word_be hi lo = push_bit 8 (ucast hi) OR ucast lo"

section \<open>Addresses (types.hpp)\<close>

datatype address_type = Individual | Group

definition isGroupAddress :: "address_type \<Rightarrow> bool" where
  "isGroupAddress t \<longleftrightarrow> t = Group"

type_synonym individual_address = "16 word"
type_synonym group_address = "16 word"

definition ia_isValid :: "individual_address \<Rightarrow> bool" where
  "ia_isValid a \<longleftrightarrow> a \<noteq> 0 \<and> a \<noteq> 0xFFFF"

definition ia_area :: "individual_address \<Rightarrow> u8" where
  "ia_area a = ucast (drop_bit 12 a AND 0x0F)"

definition ia_line :: "individual_address \<Rightarrow> u8" where
  "ia_line a = ucast (drop_bit 8 a AND 0x0F)"

definition ia_device :: "individual_address \<Rightarrow> u8" where
  "ia_device a = ucast (a AND 0xFF)"

definition ia_validateParts3 :: "u8 \<Rightarrow> u8 \<Rightarrow> u8 \<Rightarrow> bool" where
  "ia_validateParts3 p0 p1 p2 \<longleftrightarrow> p0 \<le> 0x0F \<and> p1 \<le> 0x0F"

definition ia_encode3Parts :: "u8 \<Rightarrow> u8 \<Rightarrow> u8 \<Rightarrow> individual_address" where
  "ia_encode3Parts p0 p1 p2 =
     push_bit 12 (ucast (p0 AND 0x0F)) OR push_bit 8 (ucast (p1 AND 0x0F)) OR ucast p2"

definition ia_encode2Parts :: "u8 \<Rightarrow> u8 \<Rightarrow> individual_address" where
  "ia_encode2Parts p0 p2 = push_bit 8 (ucast p0) OR ucast p2"

definition isInitialIndividualAddress :: "individual_address \<Rightarrow> bool" where
  "isInitialIndividualAddress a \<longleftrightarrow> a = 0xFFFF"

definition isIndividualBroadcastAddress :: "individual_address \<Rightarrow> bool" where
  "isIndividualBroadcastAddress a \<longleftrightarrow> a = 0"

datatype individual_address_kind = KindInvalid | KindInitial | KindOperational

definition classifyIndividualAddress :: "individual_address \<Rightarrow> individual_address_kind" where
  "classifyIndividualAddress a =
     (if isInitialIndividualAddress a then KindInitial
      else if a = 0 then KindInvalid
      else KindOperational)"

definition ga_isValid :: "group_address \<Rightarrow> bool" where
  "ga_isValid a \<longleftrightarrow> a \<noteq> 0"

definition ga_main :: "group_address \<Rightarrow> u8" where
  "ga_main a = ucast (drop_bit 11 a AND 0x1F)"

definition ga_middle :: "group_address \<Rightarrow> u8" where
  "ga_middle a = ucast (drop_bit 8 a AND 0x07)"

definition ga_sub :: "group_address \<Rightarrow> u8" where
  "ga_sub a = ucast (a AND 0xFF)"

definition ga_validateParts3 :: "u8 \<Rightarrow> u8 \<Rightarrow> u8 \<Rightarrow> bool" where
  "ga_validateParts3 p0 p1 p2 \<longleftrightarrow> p0 \<le> 0x1F \<and> p1 \<le> 0x07"

definition ga_encode3Parts :: "u8 \<Rightarrow> u8 \<Rightarrow> u8 \<Rightarrow> group_address" where
  "ga_encode3Parts p0 p1 p2 =
     push_bit 11 (ucast (p0 AND 0x1F)) OR push_bit 8 (ucast (p1 AND 0x07)) OR ucast p2"

definition isGroupBroadcastAddress :: "group_address \<Rightarrow> bool" where
  "isGroupBroadcastAddress a \<longleftrightarrow> a = 0"

text \<open>\<open>Address16Base::setAddress(part0, part1, part2)\<close>: the parts are checked first, the
  composed value second; an error leaves the stored address as it was.\<close>

definition ia_setAddress3 :: "u8 \<Rightarrow> u8 \<Rightarrow> u8 \<Rightarrow> individual_address result" where
  "ia_setAddress3 p0 p1 p2 =
     (if \<not> ia_validateParts3 p0 p1 p2 then Inl InvalidParameter
      else if \<not> ia_isValid (ia_encode3Parts p0 p1 p2) then Inl InvalidParameter
      else Inr (ia_encode3Parts p0 p1 p2))"

definition ga_setAddress3 :: "u8 \<Rightarrow> u8 \<Rightarrow> u8 \<Rightarrow> group_address result" where
  "ga_setAddress3 p0 p1 p2 =
     (if \<not> ga_validateParts3 p0 p1 p2 then Inl InvalidParameter
      else if \<not> ga_isValid (ga_encode3Parts p0 p1 p2) then Inl InvalidParameter
      else Inr (ga_encode3Parts p0 p1 p2))"

section \<open>Priority (types.hpp)\<close>

datatype priority = System | Normal | Urgent | Low

fun priority_code :: "priority \<Rightarrow> u8" where
  "priority_code System = 0"
| "priority_code Normal = 1"
| "priority_code Urgent = 2"
| "priority_code Low = 3"

text \<open>\<open>static_cast<Priority>\<close> of a two-bit field: only the values 0 to 3 occur.\<close>

definition priority_of_code :: "u8 \<Rightarrow> priority" where
  "priority_of_code c =
     (if c = 0 then System else if c = 1 then Normal else if c = 2 then Urgent else Low)"

section \<open>Bounded vectors (util/fixed_vector.hpp)\<close>

text \<open>A \<open>FixedVector<T, Capacity>\<close> is the list of its live elements; the capacity is an
  argument of the operations that check it.\<close>

definition fv_assign :: "nat \<Rightarrow> 'a list \<Rightarrow> 'a list \<Rightarrow> 'a list \<times> bool" where
  "fv_assign cap old vs = (if length vs > cap then (old, False) else (vs, True))"

definition fv_push_back :: "nat \<Rightarrow> 'a list \<Rightarrow> 'a \<Rightarrow> 'a list \<times> bool" where
  "fv_push_back cap xs x = (if length xs \<ge> cap then (xs, False) else (xs @ [x], True))"

definition fv_erase :: "'a list \<Rightarrow> nat \<Rightarrow> 'a list" where
  "fv_erase xs i = (if i \<ge> length xs then xs else take i xs @ drop (Suc i) xs)"

definition fv_resize :: "nat \<Rightarrow> 'a \<Rightarrow> 'a list \<Rightarrow> nat \<Rightarrow> 'a list" where
  "fv_resize cap z xs n =
     (let m = min n cap in take m xs @ replicate (m - length xs) z)"

lemmas [knx_defs] =
  isGroupAddress_def ia_isValid_def ga_isValid_def isInitialIndividualAddress_def
  isIndividualBroadcastAddress_def isGroupBroadcastAddress_def isTerminal_def

section \<open>Bits and bytes\<close>

text \<open>Equality of small words, bit by bit: the codecs' round trips are proved with these.\<close>

lemma bit_u8_ge [simp]: "8 \<le> n \<Longrightarrow> \<not> bit (w :: u8) n"
  using bit_imp_le_length [of w n] by auto

lemma bit_u16_ge [simp]: "16 \<le> n \<Longrightarrow> \<not> bit (w :: u16) n"
  using bit_imp_le_length [of w n] by auto

lemma word8_eqI:
  fixes a b :: u8
  assumes "bit a 0 = bit b 0" "bit a 1 = bit b 1" "bit a 2 = bit b 2" "bit a 3 = bit b 3"
    and "bit a 4 = bit b 4" "bit a 5 = bit b 5" "bit a 6 = bit b 6" "bit a 7 = bit b 7"
  shows "a = b"
proof (rule bit_word_eqI)
  fix n assume "n < LENGTH(8)"
  then have "n \<in> {0, 1, 2, 3, 4, 5, 6, 7}" by auto
  then show "bit a n = bit b n" using assms by auto
qed

lemma word16_eqI:
  fixes a b :: u16
  assumes "bit a 0 = bit b 0" "bit a 1 = bit b 1" "bit a 2 = bit b 2" "bit a 3 = bit b 3"
    and "bit a 4 = bit b 4" "bit a 5 = bit b 5" "bit a 6 = bit b 6" "bit a 7 = bit b 7"
    and "bit a 8 = bit b 8" "bit a 9 = bit b 9" "bit a 10 = bit b 10" "bit a 11 = bit b 11"
    and "bit a 12 = bit b 12" "bit a 13 = bit b 13" "bit a 14 = bit b 14" "bit a 15 = bit b 15"
  shows "a = b"
proof (rule bit_word_eqI)
  fix n assume "n < LENGTH(16)"
  then have "n \<in> set [0..<16]" by simp
  moreover have "\<forall>n \<in> set [0..<16]. bit a n = bit b n"
    using assms by (simp add: upt_rec numeral_eq_Suc)
  ultimately show "bit a n = bit b n" by blast
qed

lemma getHighByte_word_be [simp]: "getHighByte (word_be h l) = h"
  by (rule word8_eqI) (simp_all add: getHighByte_def word_be_def bit_simps)

lemma getLowByte_word_be [simp]: "getLowByte (word_be h l) = l"
  by (rule word8_eqI) (simp_all add: getLowByte_def word_be_def bit_simps)

lemma word_be_bytes [simp]: "word_be (getHighByte w) (getLowByte w) = w"
  by (rule word16_eqI) (simp_all add: getHighByte_def getLowByte_def word_be_def bit_simps)

lemma word_be_eq_iff: "word_be h l = word_be h' l' \<longleftrightarrow> h = h' \<and> l = l'"
  by (metis getHighByte_word_be getLowByte_word_be)

lemma ia_parts_roundtrip: "ia_encode3Parts (ia_area a) (ia_line a) (ia_device a) = a"
  by (rule word16_eqI)
    (simp_all add: ia_encode3Parts_def ia_area_def ia_line_def ia_device_def bit_simps)

lemma ga_parts_roundtrip: "ga_encode3Parts (ga_main a) (ga_middle a) (ga_sub a) = a"
  by (rule word16_eqI)
    (simp_all add: ga_encode3Parts_def ga_main_def ga_middle_def ga_sub_def bit_simps)

lemma ia_area_encode: "ia_area (ia_encode3Parts x y z) = x AND 0x0F"
  by (rule word8_eqI) (simp_all add: ia_encode3Parts_def ia_area_def bit_simps)

lemma ia_line_encode: "ia_line (ia_encode3Parts x y z) = y AND 0x0F"
  by (rule word8_eqI) (simp_all add: ia_encode3Parts_def ia_line_def bit_simps)

lemma ia_device_encode: "ia_device (ia_encode3Parts x y z) = z"
  by (rule word8_eqI) (simp_all add: ia_encode3Parts_def ia_device_def bit_simps)

lemma and_0F_id: "(p :: u8) \<le> 0x0F \<Longrightarrow> p AND 0x0F = p"
  using less_mask_eq [of p 4] by (simp add: mask_eq_exp_minus_1 word_le_nat_alt word_less_nat_alt)

lemma and_1F_id: "(p :: u8) \<le> 0x1F \<Longrightarrow> p AND 0x1F = p"
  using less_mask_eq [of p 5] by (simp add: mask_eq_exp_minus_1 word_le_nat_alt word_less_nat_alt)

lemma and_07_id: "(p :: u8) \<le> 0x07 \<Longrightarrow> p AND 0x07 = p"
  using less_mask_eq [of p 3] by (simp add: mask_eq_exp_minus_1 word_le_nat_alt word_less_nat_alt)

lemma unat_u8_lt [simp]: "unat (w :: u8) < 256"
  using unsigned_less [of w, where ?'a = nat] by simp

lemma unat_u16_lt [simp]: "unat (w :: u16) < 65536"
  using unsigned_less [of w, where ?'a = nat] by simp

lemma unat_of_nat_u8: "n < 256 \<Longrightarrow> unat (of_nat n :: u8) = n"
  by (simp add: unat_of_nat)

lemma unat_of_nat_u16: "n < 65536 \<Longrightarrow> unat (of_nat n :: u16) = n"
  by (simp add: unat_of_nat)

lemma xor_eq_0_iff_eq [simp]: "(a :: u8) XOR b = 0 \<longleftrightarrow> a = b"
  by (auto simp: bit_eq_iff bit_simps)

lemma priority_of_code_inverse [simp]: "priority_of_code (priority_code p) = p"
  by (cases p) (simp_all add: priority_of_code_def)

lemma priority_code_le [simp]: "priority_code p \<le> 3"
  by (cases p) simp_all

lemma fv_assign_fits [simp]: "length vs \<le> cap \<Longrightarrow> fv_assign cap old vs = (vs, True)"
  by (simp add: fv_assign_def)

lemma fv_push_back_length: "length xs \<le> cap \<Longrightarrow> length (fst (fv_push_back cap xs x)) \<le> cap"
  by (simp add: fv_push_back_def)

lemma fv_resize_length [simp]: "length (fv_resize cap z xs n) = min n cap"
  by (auto simp: fv_resize_def Let_def min_def)

lemma fv_erase_length: "i < length xs \<Longrightarrow> Suc (length (fv_erase xs i)) = length xs"
  by (simp add: fv_erase_def)

section \<open>Searching a list by index\<close>

text \<open>\<open>for (auto& x : xs) if (P(x)) return &x;\<close>: the position of the first match.\<close>

fun find_index :: "('a \<Rightarrow> bool) \<Rightarrow> 'a list \<Rightarrow> nat option" where
  "find_index P [] = None"
| "find_index P (x # xs) = (if P x then Some 0 else map_option Suc (find_index P xs))"

lemma find_index_Some:
  "find_index P xs = Some i \<Longrightarrow> i < length xs \<and> P (xs ! i) \<and> (\<forall>j < i. \<not> P (xs ! j))"
proof (induction xs arbitrary: i)
  case (Cons x xs)
  then show ?case
    by (fastforce split: if_splits simp: nth_Cons split: nat.splits)
qed simp

lemma find_index_None: "find_index P xs = None \<longleftrightarrow> (\<forall>x \<in> set xs. \<not> P x)"
  by (induction xs) auto

lemma find_index_SomeI:
  "i < length xs \<Longrightarrow> P (xs ! i) \<Longrightarrow> (\<And>j. j < i \<Longrightarrow> \<not> P (xs ! j)) \<Longrightarrow> find_index P xs = Some i"
proof (induction xs arbitrary: i)
  case (Cons x xs)
  show ?case
  proof (cases i)
    case 0
    with Cons.prems show ?thesis by simp
  next
    case (Suc k)
    have "\<not> P (xs ! j)" if "j < k" for j using Cons.prems(3) [of "Suc j"] Suc that by simp
    then have "find_index P xs = Some k"
      using Cons.prems(1,2) Suc by (intro Cons.IH) simp_all
    moreover have "\<not> P x" using Cons.prems(3) [of 0] Suc by simp
    ultimately show ?thesis using Suc by simp
  qed
qed simp

end
