(* ===== verification/Tpdu_Codec.thy ===== *)
theory Tpdu_Codec
  imports Knx_Base
begin

text \<open>
  The transport protocol control information and the TPDU codec:
  \<open>include/knx/protocol/tpci.hpp\<close> and \<open>include/knx/protocol/tpdu_codec.hpp\<close>.
  A TPCI field is its raw octet, an APCI field its raw 16-bit value (10 bits used), as in the
  code. The round trips at the end say that a receiver reads back what a sender packed.
\<close>

section \<open>TPCI (tpci.hpp)\<close>

datatype tpci = UnnumberedData | NumberedData | UnnumberedControl | NumberedControl

datatype tpci_control = Connect | Disconnect | Ack | Nak

fun tpci_code :: "tpci \<Rightarrow> u8" where
  "tpci_code UnnumberedData = 0x00"
| "tpci_code NumberedData = 0x40"
| "tpci_code UnnumberedControl = 0x80"
| "tpci_code NumberedControl = 0xC0"

fun tpci_control_code :: "tpci_control \<Rightarrow> u8" where
  "tpci_control_code Connect = 0x80"
| "tpci_control_code Disconnect = 0x81"
| "tpci_control_code Ack = 0xC2"
| "tpci_control_code Nak = 0xC3"

text \<open>\<open>TPCIField::type()\<close>: the two top bits select one of the four enumerators.\<close>

definition tpci_type :: "u8 \<Rightarrow> tpci" where
  "tpci_type raw =
     (let t = raw AND 0xC0 in
      if t = 0x00 then UnnumberedData
      else if t = 0x40 then NumberedData
      else if t = 0x80 then UnnumberedControl
      else NumberedControl)"

definition tpci_seqNum :: "u8 \<Rightarrow> u8" where
  "tpci_seqNum raw = drop_bit 2 raw AND 0x0F"

definition tpci_isControl :: "u8 \<Rightarrow> tpci_control \<Rightarrow> bool" where
  "tpci_isControl raw c \<longleftrightarrow> raw = tpci_control_code c"

definition tpci_isAck :: "u8 \<Rightarrow> bool" where
  "tpci_isAck raw \<longleftrightarrow> tpci_type raw = NumberedControl \<and> raw AND 0x03 = 0x02"

definition tpci_isNak :: "u8 \<Rightarrow> bool" where
  "tpci_isNak raw \<longleftrightarrow> tpci_type raw = NumberedControl \<and> raw AND 0x03 = 0x03"

definition tpci_create :: "tpci \<Rightarrow> u8 \<Rightarrow> u8" where
  "tpci_create t s = tpci_code t OR push_bit 2 (s AND 0x0F)"

definition tpci_create_control :: "tpci_control \<Rightarrow> u8" where
  "tpci_create_control c = tpci_control_code c"

definition tpci_ack :: "u8 \<Rightarrow> u8" where
  "tpci_ack s = tpci_code NumberedControl OR push_bit 2 (s AND 0x0F) OR 0x02"

definition tpci_nak :: "u8 \<Rightarrow> u8" where
  "tpci_nak s = tpci_code NumberedControl OR push_bit 2 (s AND 0x0F) OR 0x03"

section \<open>TPDU header and body (tpdu_codec.hpp)\<close>

record tpdu_header =
  h_tpci :: u8
  h_apci :: u16

text \<open>The test \<open>tpciType == 0x80 || tpciType == 0xC0\<close> that the codec repeats: a transport
  control frame has no APCI and its two low bits belong to the TPCI.\<close>

definition is_control_octet :: "u8 \<Rightarrow> bool" where
  "is_control_octet raw \<longleftrightarrow> raw AND 0xC0 = 0x80 \<or> raw AND 0xC0 = 0xC0"

definition tpduLengthFromTpci :: "u8 \<Rightarrow> nat \<Rightarrow> nat" where
  "tpduLengthFromTpci t n = (if is_control_octet t then 1 else 2 + n)"

definition payloadLengthFromTpdu :: "nat \<Rightarrow> nat" where
  "payloadLengthFromTpdu n = (if n \<ge> 2 then n - 2 else 0)"

definition packTpduHeader :: "u8 \<Rightarrow> u16 \<Rightarrow> u8 \<times> u8" where
  "packTpduHeader t a =
     (if is_control_octet t then (t, 0)
      else (let tpci6 = t AND 0xFC; apci10 = a AND 0x03FF in
            (tpci6 OR ucast (drop_bit 8 apci10 AND 0x03), ucast (apci10 AND 0xFF))))"

definition unpackTpduHeader :: "u8 \<Rightarrow> u8 \<Rightarrow> tpdu_header" where
  "unpackTpduHeader t0 t1 =
     (if is_control_octet t0 then \<lparr>h_tpci = t0, h_apci = 0\<rparr>
      else \<lparr>h_tpci = t0 AND 0xFC,
            h_apci = push_bit 8 (ucast t0 AND 0x03) OR ucast t1\<rparr>)"

text \<open>\<open>buildTpdu\<close> over an output span of the given size: the octets it writes, which are the
  first \<open>totalLength\<close> octets of the span.\<close>

definition buildTpdu :: "u8 \<Rightarrow> u16 \<Rightarrow> bytes \<Rightarrow> nat \<Rightarrow> bytes result" where
  "buildTpdu t a payload outSize =
     (let total = tpduLengthFromTpci t (length payload) in
      if outSize < total then Inl BufferTooSmall
      else if total = 1 then Inr [t]
      else (let (b0, b1) = packTpduHeader t a in Inr (b0 # b1 # payload)))"

text \<open>\<open>buildTpduInPlace\<close> on a \<open>FixedVector<uint8_t, N>\<close> resizes the vector (which clamps to
  \<open>N\<close>) and then writes through a span of \<open>needed\<close> octets, so the size check inside
  \<open>buildTpdu\<close> cannot fail. The model covers the executions that stay inside the vector,
  \<open>tpdu_fits N\<close>; beyond it the code writes past its storage.\<close>

definition tpdu_fits :: "nat \<Rightarrow> u8 \<Rightarrow> bytes \<Rightarrow> bool" where
  "tpdu_fits cap t payload \<longleftrightarrow> tpduLengthFromTpci t (length payload) \<le> cap"

definition buildTpduInPlace :: "u8 \<Rightarrow> u16 \<Rightarrow> bytes \<Rightarrow> bytes result" where
  "buildTpduInPlace t a payload =
     buildTpdu t a payload (tpduLengthFromTpci t (length payload))"

definition tpduPayloadLength :: "bytes \<Rightarrow> nat" where
  "tpduPayloadLength tpdu = (if length tpdu \<ge> 2 then length tpdu - 2 else 0)"

section \<open>Lemmas\<close>

lemmas tpci_ops [knx_defs] =
  tpci_type_def tpci_seqNum_def tpci_isControl_def tpci_isAck_def tpci_isNak_def
  tpci_create_def tpci_create_control_def tpci_ack_def tpci_nak_def is_control_octet_def

lemma tpci_type_create [simp]: "tpci_type (tpci_create t s) = t"
proof -
  have "tpci_create t s AND 0xC0 = tpci_code t"
    by (cases t; rule word8_eqI) (simp_all add: tpci_create_def bit_simps)
  then show ?thesis by (cases t) (simp_all add: tpci_type_def)
qed

lemma tpci_seqNum_create [simp]: "tpci_seqNum (tpci_create t s) = s AND 0x0F"
  by (cases t; rule word8_eqI) (simp_all add: tpci_create_def tpci_seqNum_def bit_simps)

lemma tpci_seqNum_ack [simp]: "tpci_seqNum (tpci_ack s) = s AND 0x0F"
  by (rule word8_eqI) (simp_all add: tpci_ack_def tpci_seqNum_def bit_simps)

lemma tpci_seqNum_nak [simp]: "tpci_seqNum (tpci_nak s) = s AND 0x0F"
  by (rule word8_eqI) (simp_all add: tpci_nak_def tpci_seqNum_def bit_simps)

lemma tpci_ack_masks: "tpci_ack s AND 0xC0 = 0xC0" "tpci_ack s AND 0x03 = 0x02"
  by (rule word8_eqI; simp add: tpci_ack_def bit_simps)+

lemma tpci_nak_masks: "tpci_nak s AND 0xC0 = 0xC0" "tpci_nak s AND 0x03 = 0x03"
  by (rule word8_eqI; simp add: tpci_nak_def bit_simps)+

lemma tpci_isAck_ack [simp]: "tpci_isAck (tpci_ack s)" "\<not> tpci_isNak (tpci_ack s)"
  by (simp_all add: tpci_isAck_def tpci_isNak_def tpci_type_def tpci_ack_masks)

lemma tpci_isNak_nak [simp]: "tpci_isNak (tpci_nak s)" "\<not> tpci_isAck (tpci_nak s)"
  by (simp_all add: tpci_isAck_def tpci_isNak_def tpci_type_def tpci_nak_masks)

lemma is_control_ack [simp]: "is_control_octet (tpci_ack s)" "is_control_octet (tpci_nak s)"
  by (simp_all add: is_control_octet_def tpci_ack_masks tpci_nak_masks)

lemma is_control_create [simp]:
  "is_control_octet (tpci_create t s) \<longleftrightarrow> t = UnnumberedControl \<or> t = NumberedControl"
proof -
  have "tpci_create t s AND 0xC0 = tpci_code t"
    by (cases t; rule word8_eqI) (simp_all add: tpci_create_def bit_simps)
  then show ?thesis by (cases t) (simp_all add: is_control_octet_def)
qed

lemma tpci_create_low_bits [simp]: "tpci_create NumberedData s AND 0xFC = tpci_create NumberedData s"
  by (rule word8_eqI) (simp_all add: tpci_create_def bit_simps)

lemma pack_not_control:
  assumes "\<not> is_control_octet t"
  shows "\<not> is_control_octet (fst (packTpduHeader t a))"
proof -
  have "fst (packTpduHeader t a) AND 0xC0 = t AND 0xC0"
    using assms by (intro word8_eqI) (simp_all add: packTpduHeader_def Let_def bit_simps)
  with assms show ?thesis by (simp add: is_control_octet_def)
qed

lemma unpack_pack_data:
  assumes "\<not> is_control_octet t" and "packTpduHeader t a = (b0, b1)"
  shows "unpackTpduHeader b0 b1 = \<lparr>h_tpci = t AND 0xFC, h_apci = a AND 0x03FF\<rparr>"
proof -
  have nc: "\<not> is_control_octet b0"
    using pack_not_control [OF assms(1), of a] assms(2) by simp
  have b0: "b0 = (t AND 0xFC) OR ucast (drop_bit 8 (a AND 0x03FF) AND 0x03)"
    and b1: "b1 = ucast ((a AND 0x03FF) AND 0xFF)"
    using assms by (simp_all add: packTpduHeader_def Let_def)
  have "b0 AND 0xFC = t AND 0xFC"
    by (rule word8_eqI) (simp_all add: b0 bit_simps)
  moreover have "push_bit 8 (ucast b0 AND 0x03) OR ucast b1 = (a AND 0x03FF :: u16)"
    by (rule word16_eqI) (simp_all add: b0 b1 bit_simps)
  ultimately show ?thesis using nc by (simp add: unpackTpduHeader_def)
qed

lemma pack_unpack:
  "packTpduHeader (h_tpci (unpackTpduHeader b0 b1)) (h_apci (unpackTpduHeader b0 b1)) =
     (b0, if is_control_octet b0 then 0 else b1)"
proof (cases "is_control_octet b0")
  case True
  then show ?thesis by (simp add: unpackTpduHeader_def packTpduHeader_def)
next
  case False
  have "(b0 AND 0xFC) AND 0xC0 = b0 AND 0xC0"
    by (rule word8_eqI) (simp_all add: bit_simps)
  with False have nc: "\<not> is_control_octet (b0 AND 0xFC)" by (simp add: is_control_octet_def)
  let ?a = "push_bit 8 (ucast b0 AND 0x03) OR ucast b1 :: u16"
  have hi: "(b0 AND 0xFC) AND 0xFC OR ucast (drop_bit 8 (?a AND 0x03FF) AND 0x03) = b0"
    by (rule word8_eqI) (auto simp: bit_simps)
  have lo: "ucast ((?a AND 0x03FF) AND 0xFF) = b1"
    by (rule word8_eqI) (simp_all add: bit_simps)
  from False nc hi lo show ?thesis
    by (simp add: unpackTpduHeader_def packTpduHeader_def Let_def)
qed

lemma buildTpdu_control [simp]: "is_control_octet t \<Longrightarrow> buildTpduInPlace t a p = Inr [t]"
  by (simp add: buildTpduInPlace_def buildTpdu_def tpduLengthFromTpci_def)

lemma buildTpdu_data:
  assumes "\<not> is_control_octet t"
  shows "buildTpduInPlace t a p =
           Inr (fst (packTpduHeader t a) # snd (packTpduHeader t a) # p)"
  using assms by (simp add: buildTpduInPlace_def buildTpdu_def tpduLengthFromTpci_def split_beta)

lemma buildTpduInPlace_ok: "\<exists>bs. buildTpduInPlace t a p = Inr bs"
  by (cases "is_control_octet t") (simp_all add: buildTpdu_data)

lemma buildTpduInPlace_length:
  "buildTpduInPlace t a p = Inr bs \<Longrightarrow> length bs = tpduLengthFromTpci t (length p)"
  by (cases "is_control_octet t") (auto simp: buildTpdu_data tpduLengthFromTpci_def)

text \<open>
  A TPDU built by \<open>buildTpduInPlace\<close> is read back exactly by \<open>unpackTpduHeader\<close>: a transport
  control frame is the single TPCI octet; a data frame is two header octets, from which the six
  TPCI bits and the ten APCI bits are recovered, followed by the payload unchanged.
\<close>

theorem tpdu_roundtrip:
  "if is_control_octet t
   then buildTpduInPlace t a p = Inr [t] \<and> unpackTpduHeader t b = \<lparr>h_tpci = t, h_apci = 0\<rparr>
   else \<exists>b0 b1. buildTpduInPlace t a p = Inr (b0 # b1 # p) \<and>
          unpackTpduHeader b0 b1 = \<lparr>h_tpci = t AND 0xFC, h_apci = a AND 0x03FF\<rparr>"
proof (cases "is_control_octet t")
  case True
  then show ?thesis by (simp add: unpackTpduHeader_def)
next
  case False
  then show ?thesis
    by (auto simp: buildTpdu_data intro!: unpack_pack_data [OF False, of a])
qed

end
