(* ===== verification/Frame_Codec.thy ===== *)
theory Frame_Codec
  imports Tpdu_Codec
begin

text \<open>
  The L_Data frame (\<open>include/knx/datalink/tp1_data_link_layer.hpp\<close>, struct \<open>LDataFrame\<close>) and the
  TP1 codec of \<open>src/datalink/frame_codec.cpp\<close>: standard and extended frames, the inverted repeat
  bit, the length fields and the XOR frame check octet. The main results are the round trip of
  \<open>encodeFrame\<close> and \<open>decodeFrame\<close> and that one corrupted octet is always detected.
\<close>

section \<open>The frame\<close>

record ldata_frame =
  standardFrame :: bool
  repeated :: bool
  priority :: priority
  ackRequested :: bool
  confirmation :: bool
  source :: individual_address
  destination :: group_address
  destinationType :: address_type
  hopCount :: u8
  tpdu :: bytes

definition ldata_frame_init :: ldata_frame where
  "ldata_frame_init =
     \<lparr>standardFrame = True, repeated = False, priority = Low, ackRequested = True,
      confirmation = False, source = 0, destination = 0, destinationType = Group,
      hopCount = 6, tpdu = []\<rparr>"

definition MAX_APDU_SIZE :: nat where "MAX_APDU_SIZE = 254"
definition MAX_FRAME_SIZE :: nat where "MAX_FRAME_SIZE = 256"

definition ldata_isValid :: "ldata_frame \<Rightarrow> bool" where
  "ldata_isValid f =
     (if \<not> ia_isValid (source f) \<and> \<not> isInitialIndividualAddress (source f) then False
      else if destinationType f = Group \<and> \<not> ga_isValid (destination f)
              \<and> \<not> isGroupBroadcastAddress (destination f) then False
      else if destinationType f = Individual \<and> \<not> ia_isValid (destination f)
              \<and> \<not> isInitialIndividualAddress (destination f)
              \<and> \<not> isIndividualBroadcastAddress (destination f) then False
      else if tpdu f = [] then False
      else if tpduPayloadLength (tpdu f) > MAX_APDU_SIZE then False
      else if hopCount f > 7 then False
      else True)"

section \<open>Checksum\<close>

text \<open>\<open>calculateChecksum\<close>: start from \<open>0xFF\<close> and XOR every octet.\<close>

definition calculateChecksum :: "bytes \<Rightarrow> u8" where
  "calculateChecksum data = fold (\<lambda>byte checksum. checksum XOR byte) data 0xFF"

definition verifyChecksum :: "bytes \<Rightarrow> unit result" where
  "verifyChecksum data =
     (if length data < 1 then Inl InvalidFrameSize
      else if calculateChecksum (butlast data) \<noteq> last data then Inl ChecksumError
      else Inr ())"

section \<open>Encoding\<close>

definition encode_ctrl :: "bool \<Rightarrow> ldata_frame \<Rightarrow> u8" where
  "encode_ctrl extended f =
     (if extended then 0 else 0x80)
     OR (if repeated f then 0 else 0x20)
     OR 0x10
     OR (push_bit 2 (priority_code (priority f)) AND 0x0C)
     OR (if ackRequested f then 0x02 else 0)
     OR (if confirmation f then 0x01 else 0)"

definition encode_body :: "ldata_frame \<Rightarrow> bytes" where
  "encode_body f =
     (let n = length (tpdu f);
          extended = n > 16;
          grp = (if isGroupAddress (destinationType f) then 0x80 else 0 :: u8);
          addrs = [getHighByte (source f), getLowByte (source f),
                   getHighByte (destination f), getLowByte (destination f)]
      in if extended
         then encode_ctrl True f # (push_bit 4 (hopCount f AND 0x07) OR grp) # addrs
              @ of_nat (n - 1) # tpdu f
         else encode_ctrl False f # addrs
              @ ((push_bit 4 (hopCount f) OR (of_nat (n - 1) AND 0x0F)) OR grp) # tpdu f)"

definition encodeFrame :: "ldata_frame \<Rightarrow> nat \<Rightarrow> bytes result" where
  "encodeFrame f bufferSize =
     (if \<not> ldata_isValid f then Inl InvalidParameter
      else let n = length (tpdu f) in
      if n = 0 \<or> n > 256 then Inl InvalidFrameSize
      else if bufferSize < (if n > 16 then 8 else 7) + n then Inl BufferTooSmall
      else Inr (encode_body f @ [calculateChecksum (encode_body f)]))"

section \<open>Decoding\<close>

text \<open>\<open>decodeFrame\<close> writes into its output parameter field by field; the model returns the frame
  only when the whole decode succeeds, and starts from the frame \<open>f0\<close> passed in (its TPDU is
  kept when \<open>assign\<close> would exceed the vector's capacity, which the length fields exclude).\<close>

definition decode_tail ::
    "bytes \<Rightarrow> ldata_frame \<Rightarrow> u8 \<Rightarrow> nat \<Rightarrow> nat \<Rightarrow> ldata_frame result" where
  "decode_tail buf f hops idx n =
     (if length buf \<noteq> idx + n + 1 then Inl InvalidFrameSize
      else if hops > 7 then Inl InvalidFrameSize
      else if n < 1 then Inl InvalidFrameSize
      else let f' = f\<lparr>hopCount := hops,
                      tpdu := fst (fv_assign MAX_FRAME_SIZE (tpdu f) (take n (drop idx buf)))\<rparr> in
      if \<not> ldata_isValid f' then Inl DecodeFailed else Inr f')"

definition decode_ctrl :: "u8 \<Rightarrow> ldata_frame \<Rightarrow> ldata_frame" where
  "decode_ctrl ctrl f =
     f\<lparr>standardFrame := (ctrl AND 0x80 \<noteq> 0),
       repeated := (ctrl AND 0x20 = 0),
       priority := priority_of_code (drop_bit 2 (ctrl AND 0x0C)),
       ackRequested := (ctrl AND 0x02 \<noteq> 0),
       confirmation := (ctrl AND 0x01 \<noteq> 0)\<rparr>"

definition decodeFrame :: "bytes \<Rightarrow> ldata_frame \<Rightarrow> ldata_frame result" where
  "decodeFrame buf f0 =
     (if length buf < 7 then Inl InvalidFrameSize
      else case verifyChecksum buf of Inl e \<Rightarrow> Inl e | Inr _ \<Rightarrow>
      let ctrl = buf ! 0 in
      if ctrl AND 0x40 \<noteq> 0 then Inl InvalidFrameSize
      else let f1 = decode_ctrl ctrl f0 in
      if \<not> standardFrame f1 then
        (if length buf < 9 then Inl InvalidFrameSize
         else let ctrle = buf ! 1 in
         if ctrle AND 0x0F \<noteq> 0 then Inl InvalidFrameSize
         else decode_tail buf
                (f1\<lparr>source := word_be (buf ! 2) (buf ! 3),
                    destination := word_be (buf ! 4) (buf ! 5),
                    destinationType := (if ctrle AND 0x80 \<noteq> 0 then Group else Individual)\<rparr>)
                (drop_bit 4 ctrle AND 0x07) 7 (unat (buf ! 6) + 1))
      else
        (let lengthField = buf ! 5 in
         decode_tail buf
           (f1\<lparr>source := word_be (buf ! 1) (buf ! 2),
               destination := word_be (buf ! 3) (buf ! 4),
               destinationType := (if lengthField AND 0x80 \<noteq> 0 then Group else Individual)\<rparr>)
           (drop_bit 4 lengthField AND 0x07) 6 (unat (lengthField AND 0x0F) + 1)))"

section \<open>Checksum lemmas\<close>

lemma calculateChecksum_snoc [simp]:
  "calculateChecksum (xs @ [b]) = calculateChecksum xs XOR b"
  by (simp add: calculateChecksum_def)

lemma fold_xor_shift:
  "fold (\<lambda>byte checksum. checksum XOR byte) xs (a XOR c) =
   fold (\<lambda>byte checksum. checksum XOR byte) xs (a :: u8) XOR c"
  by (induction xs arbitrary: a) (simp_all, metis xor.assoc xor.commute)

lemma calculateChecksum_append:
  "calculateChecksum (xs @ ys) = calculateChecksum xs XOR calculateChecksum ys XOR 0xFF"
proof -
  let ?x = "\<lambda>byte checksum :: u8. checksum XOR byte"
  have "fold ?x ys (fold ?x xs 0xFF) = fold ?x ys (0xFF XOR (0xFF XOR fold ?x xs 0xFF))"
    by (simp flip: xor.assoc)
  also have "\<dots> = fold ?x ys 0xFF XOR (0xFF XOR fold ?x xs 0xFF)"
    by (rule fold_xor_shift)
  finally show ?thesis
    by (simp add: calculateChecksum_def ac_simps)
qed

lemma calculateChecksum_Cons:
  "calculateChecksum (b # xs) = b XOR calculateChecksum xs"
  using calculateChecksum_append [of "[b]" xs]
  by (simp add: calculateChecksum_def ac_simps flip: xor.assoc)

lemma calculateChecksum_update:
  "i < length xs \<Longrightarrow> calculateChecksum (xs[i := b]) = calculateChecksum xs XOR (xs ! i) XOR b"
proof (induction xs arbitrary: i)
  case (Cons a xs)
  have cancel: "b XOR c = (a XOR c) XOR a XOR b" for c :: u8
    by (rule bit_word_eqI) (auto simp: bit_simps)
  from Cons show ?case
    by (cases i) (simp_all add: calculateChecksum_Cons xor.assoc, use cancel xor.assoc in metis)
qed simp

lemma verifyChecksum_iff:
  "verifyChecksum xs = Inr () \<longleftrightarrow> xs \<noteq> [] \<and> calculateChecksum xs = 0"
proof (cases xs rule: rev_cases)
  case (snoc ys y)
  then show ?thesis by (simp add: verifyChecksum_def)
qed (simp add: verifyChecksum_def)

lemma verifyChecksum_encoded [simp]: "verifyChecksum (xs @ [calculateChecksum xs]) = Inr ()"
  by (simp add: verifyChecksum_def)

section \<open>Round trip\<close>

lemma encode_ctrl_fields [simp]:
  "encode_ctrl ext f AND 0x40 = 0"
  "encode_ctrl ext f AND 0x80 = (if ext then 0 else 0x80)"
  "encode_ctrl ext f AND 0x20 = (if repeated f then 0 else 0x20)"
  "encode_ctrl ext f AND 0x02 = (if ackRequested f then 0x02 else 0)"
  "encode_ctrl ext f AND 0x01 = (if confirmation f then 0x01 else 0)"
  by (rule word8_eqI; simp add: encode_ctrl_def bit_simps)+

lemma encode_ctrl_priority [simp]:
  "drop_bit 2 (encode_ctrl ext f) AND 3 = priority_code (priority f)"
  by (rule word8_eqI; cases "priority f"; simp add: encode_ctrl_def bit_simps)

lemma decode_ctrl_encode:
  "decode_ctrl (encode_ctrl ext f) f0 =
     f0\<lparr>standardFrame := \<not> ext, repeated := repeated f, priority := priority f,
        ackRequested := ackRequested f, confirmation := confirmation f\<rparr>"
  by (simp add: decode_ctrl_def)

lemma le7_bits: "(h :: u8) \<le> 7 \<Longrightarrow> 3 \<le> n \<Longrightarrow> \<not> bit h n"
proof -
  assume "h \<le> 7" and n: "3 \<le> n"
  then have "h = h AND mask 3" using and_07_id [of h] by (simp add: mask_eq_exp_minus_1)
  then have "bit h n = bit (h AND mask 3) n" by simp
  with n show "\<not> bit h n" by (simp add: bit_simps)
qed

lemma hop_field:
  assumes "(h :: u8) \<le> 7" and "g = 0 \<or> g = 0x80"
  shows "drop_bit 4 ((push_bit 4 h OR (m AND 0x0F)) OR g) AND 0x07 = h"
    and "drop_bit 4 (push_bit 4 (h AND 0x07) OR g) AND 0x07 = h"
    and "(push_bit 4 (h AND 0x07) OR g) AND 0x0F = 0"
    and "((push_bit 4 h OR (m AND 0x0F)) OR g) AND 0x0F = m AND 0x0F"
    and "((push_bit 4 h OR (m AND 0x0F)) OR g) AND 0x80 = g"
    and "(push_bit 4 (h AND 0x07) OR g) AND 0x80 = g"
  using assms le7_bits [OF assms(1)]
  by (auto intro!: word8_eqI simp: bit_simps)

lemma low_nibble_of_nat: "n < 16 \<Longrightarrow> unat ((of_nat n :: u8) AND 0x0F) = n"
  by (subst and_0F_id) (simp_all add: word_le_nat_alt unat_of_nat)

lemma valid_length: "ldata_isValid f \<Longrightarrow> 1 \<le> length (tpdu f) \<and> length (tpdu f) \<le> 256"
  by (cases "tpdu f")
    (auto simp: ldata_isValid_def tpduPayloadLength_def MAX_APDU_SIZE_def split: if_splits)

lemma valid_hops: "ldata_isValid f \<Longrightarrow> hopCount f \<le> 7"
  by (auto simp: ldata_isValid_def split: if_splits)

lemma valid_standardFrame [simp]:
  "ldata_isValid (f\<lparr>standardFrame := b\<rparr>) = ldata_isValid f"
  by (simp add: ldata_isValid_def)

lemma decode_tail_ok:
  assumes "length buf = idx + n + 1" "1 \<le> n" "n \<le> 256" "hops \<le> 7"
    and "ldata_isValid (f\<lparr>hopCount := hops, tpdu := take n (drop idx buf)\<rparr>)"
  shows "decode_tail buf f hops idx n = Inr (f\<lparr>hopCount := hops, tpdu := take n (drop idx buf)\<rparr>)"
  using assms by (auto simp: decode_tail_def MAX_FRAME_SIZE_def not_less)

text \<open>The two shapes of a decode, with the header octets as variables.\<close>

lemma decodeFrame_standard:
  assumes "verifyChecksum (c # s1 # s0 # d1 # d0 # l # rest) = Inr ()"
    and "c AND 0x40 = 0" "c AND 0x80 \<noteq> 0" "rest \<noteq> []"
  shows "decodeFrame (c # s1 # s0 # d1 # d0 # l # rest) f0 =
           decode_tail (c # s1 # s0 # d1 # d0 # l # rest)
             ((decode_ctrl c f0)\<lparr>source := word_be s1 s0, destination := word_be d1 d0,
                destinationType := (if l AND 0x80 \<noteq> 0 then Group else Individual)\<rparr>)
             (drop_bit 4 l AND 0x07) 6 (unat (l AND 0x0F) + 1)"
proof -
  have "standardFrame (decode_ctrl c f0)" using assms(3) by (simp add: decode_ctrl_def)
  then show ?thesis using assms(1,2,4) by (simp add: decodeFrame_def Let_def)
qed

lemma decodeFrame_extended:
  assumes "verifyChecksum (c # e # s1 # s0 # d1 # d0 # l # rest) = Inr ()"
    and "c AND 0x40 = 0" "c AND 0x80 = 0" "e AND 0x0F = 0" "2 \<le> length rest"
  shows "decodeFrame (c # e # s1 # s0 # d1 # d0 # l # rest) f0 =
           decode_tail (c # e # s1 # s0 # d1 # d0 # l # rest)
             ((decode_ctrl c f0)\<lparr>source := word_be s1 s0, destination := word_be d1 d0,
                destinationType := (if e AND 0x80 \<noteq> 0 then Group else Individual)\<rparr>)
             (drop_bit 4 e AND 0x07) 7 (unat l + 1)"
proof -
  have "\<not> standardFrame (decode_ctrl c f0)" using assms(3) by (simp add: decode_ctrl_def)
  then show ?thesis using assms(1,2,4,5) by (simp add: decodeFrame_def Let_def)
qed

lemma frame_rebuild:
  fixes f f0 :: ldata_frame
  shows "t = destinationType f \<Longrightarrow>
   f0\<lparr>standardFrame := b, repeated := repeated f, priority := priority f,
      ackRequested := ackRequested f, confirmation := confirmation f, source := source f,
      destination := destination f, destinationType := t\<rparr>
   = f\<lparr>standardFrame := b, hopCount := hopCount f0, tpdu := tpdu f0\<rparr>"
  by (rule ldata_frame.equality) simp_all

lemma decodeFrame_encode_standard:
  assumes v: "ldata_isValid f" and n: "length (tpdu f) \<le> 16"
  shows "decodeFrame (encode_body f @ [calculateChecksum (encode_body f)]) f0 =
           Inr (f\<lparr>standardFrame := True\<rparr>)"
proof -
  define g where "g = (if isGroupAddress (destinationType f) then 0x80 else 0 :: u8)"
  define l where
    "l = (push_bit 4 (hopCount f) OR (of_nat (length (tpdu f) - 1) AND 0x0F)) OR g"
  define c where "c = encode_ctrl False f"
  let ?h = "[c, getHighByte (source f), getLowByte (source f),
             getHighByte (destination f), getLowByte (destination f), l]"
  define chk where "chk = calculateChecksum (?h @ tpdu f)"
  note len = valid_length [OF v] and hops = valid_hops [OF v]
  have g: "g = 0 \<or> g = 0x80" by (simp add: g_def)
  have body: "encode_body f = ?h @ tpdu f"
    using n by (simp add: encode_body_def Let_def c_def l_def g_def)
  have l: "drop_bit 4 l AND 0x07 = hopCount f" "l AND 0x80 = g"
    "Suc (unat (l AND 0x0F)) = length (tpdu f)"
    using len n low_nibble_of_nat [of "length (tpdu f) - 1"]
    unfolding l_def hop_field [OF hops g] by auto
  have vc: "verifyChecksum (?h @ tpdu f @ [chk]) = Inr ()"
    using verifyChecksum_encoded [of "?h @ tpdu f"] by (simp add: chk_def)
  have c: "c AND 0x40 = 0" "c AND 0x80 \<noteq> 0" by (simp_all add: c_def)
  have "decodeFrame (?h @ tpdu f @ [chk]) f0 = decode_tail (?h @ tpdu f @ [chk])
      (f\<lparr>standardFrame := True, hopCount := hopCount f0, tpdu := tpdu f0\<rparr>)
      (hopCount f) 6 (length (tpdu f))"
    using vc c l
    by (cases "destinationType f")
       (simp_all add: decodeFrame_standard c_def decode_ctrl_encode g_def isGroupAddress_def frame_rebuild)
  also have "\<dots> = Inr (f\<lparr>standardFrame := True\<rparr>)"
    using len hops v by (subst decode_tail_ok) simp_all
  finally show ?thesis by (simp add: body chk_def)
qed

lemma decodeFrame_encode_extended:
  assumes v: "ldata_isValid f" and n: "16 < length (tpdu f)"
  shows "decodeFrame (encode_body f @ [calculateChecksum (encode_body f)]) f0 =
           Inr (f\<lparr>standardFrame := False\<rparr>)"
proof -
  define g where "g = (if isGroupAddress (destinationType f) then 0x80 else 0 :: u8)"
  define e where "e = push_bit 4 (hopCount f AND 0x07) OR g"
  define l where "l = (of_nat (length (tpdu f) - 1) :: u8)"
  define c where "c = encode_ctrl True f"
  let ?h = "[c, e, getHighByte (source f), getLowByte (source f),
             getHighByte (destination f), getLowByte (destination f), l]"
  define chk where "chk = calculateChecksum (?h @ tpdu f)"
  note len = valid_length [OF v] and hops = valid_hops [OF v]
  have g: "g = 0 \<or> g = 0x80" by (simp add: g_def)
  have body: "encode_body f = ?h @ tpdu f"
    using n by (simp add: encode_body_def Let_def c_def e_def l_def g_def)
  have e: "drop_bit 4 e AND 0x07 = hopCount f" "e AND 0x80 = g" "e AND 0x0F = 0"
    unfolding e_def hop_field [OF hops g] by simp_all
  have l: "Suc (unat l) = length (tpdu f)"
    unfolding l_def using len by (subst unat_of_nat_u8) auto
  have vc: "verifyChecksum (?h @ tpdu f @ [chk]) = Inr ()"
    using verifyChecksum_encoded [of "?h @ tpdu f"] by (simp add: chk_def)
  have c: "c AND 0x40 = 0" "c AND 0x80 = 0" by (simp_all add: c_def)
  have "decodeFrame (?h @ tpdu f @ [chk]) f0 = decode_tail (?h @ tpdu f @ [chk])
      (f\<lparr>standardFrame := False, hopCount := hopCount f0, tpdu := tpdu f0\<rparr>)
      (hopCount f) 7 (length (tpdu f))"
    using vc c e l n
    by (cases "destinationType f")
       (simp_all add: decodeFrame_extended c_def decode_ctrl_encode g_def isGroupAddress_def frame_rebuild)
  also have "\<dots> = Inr (f\<lparr>standardFrame := False\<rparr>)"
    using len hops v by (subst decode_tail_ok) simp_all
  finally show ?thesis by (simp add: body chk_def)
qed

lemma encodeFrame_Inr:
  "encodeFrame f sz = Inr bs \<Longrightarrow>
     ldata_isValid f \<and> bs = encode_body f @ [calculateChecksum (encode_body f)]"
  by (auto simp: encodeFrame_def Let_def split: if_splits)

lemma encodeFrame_length:
  "encodeFrame f sz = Inr bs \<Longrightarrow>
     length bs = (if length (tpdu f) > 16 then 8 else 7) + length (tpdu f) \<and> length bs \<le> sz"
  by (auto simp: encodeFrame_def encode_body_def Let_def split: if_splits)

lemma encodeFrame_ok_iff:
  "isOk (encodeFrame f sz) \<longleftrightarrow>
     ldata_isValid f \<and> (if length (tpdu f) > 16 then 8 else 7) + length (tpdu f) \<le> sz"
  using valid_length [of f] by (auto simp: encodeFrame_def Let_def)

lemma decodeFrame_Inr_valid: "decodeFrame bs f0 = Inr f \<Longrightarrow> ldata_isValid f"
  by (auto simp: decodeFrame_def decode_tail_def Let_def split: if_splits sum.splits)

lemma decodeFrame_Inr_checksum: "decodeFrame bs f0 = Inr f \<Longrightarrow> verifyChecksum bs = Inr ()"
  by (auto simp: decodeFrame_def split: if_splits sum.splits)

lemma encode_decode:
  assumes "encodeFrame f sz = Inr bs"
  shows "decodeFrame bs f0 = Inr (f\<lparr>standardFrame := length (tpdu f) \<le> 16\<rparr>)"
proof -
  have v: "ldata_isValid f" and bs: "bs = encode_body f @ [calculateChecksum (encode_body f)]"
    using encodeFrame_Inr [OF assms] by auto
  show ?thesis
  proof (cases "length (tpdu f) \<le> 16")
    case True
    with decodeFrame_encode_standard [OF v True, of f0] bs show ?thesis by simp
  next
    case False
    with decodeFrame_encode_extended [OF v, of f0] bs show ?thesis by simp
  qed
qed

section \<open>Properties\<close>

text \<open>
  C5. Whatever \<open>encodeFrame\<close> puts into a buffer, \<open>decodeFrame\<close> reads back as the same frame, for
  standard and extended frames alike; only the \<open>standardFrame\<close> flag is not transported but
  recomputed from the TPDU length (at most 16 octets means a standard frame).
\<close>

theorem frame_roundtrip:
  assumes "encodeFrame f sz = Inr bs"
  shows "decodeFrame bs f0 = Inr (f\<lparr>standardFrame := length (tpdu f) \<le> 16\<rparr>)"
  using assms by (rule encode_decode)

text \<open>A group telegram (switch on, 1/0/1 from 1.1.5) through the codec.\<close>

definition sample_frame :: ldata_frame where
  "sample_frame = ldata_frame_init\<lparr>source := 0x1105, destination := 0x0801, tpdu := [0x00, 0x81]\<rparr>"

definition sample_octets :: bytes where
  "sample_octets = [0xBE, 0x11, 0x05, 0x08, 0x01, 0xE1, 0x00, 0x81, 0x3C]"

lemma sample_encode: "encodeFrame sample_frame 263 = Inr sample_octets"
  by code_simp

theorem frame_roundtrip_witness:
  "encodeFrame sample_frame 263 = Inr sample_octets \<and>
   decodeFrame sample_octets ldata_frame_init = Inr (sample_frame\<lparr>standardFrame := True\<rparr>)"
  using sample_encode frame_roundtrip [OF sample_encode, of ldata_frame_init]
  by (simp add: sample_frame_def)

text \<open>
  C34. The frame check octet detects every change of a single octet: a received octet string that
  differs from an encoded frame in exactly one position is rejected by \<open>decodeFrame\<close> with
  \<open>ChecksumError\<close>, wherever the change is.
\<close>

theorem single_octet_error_detected:
  assumes "encodeFrame f sz = Inr bs" and "i < length bs" and "b \<noteq> bs ! i"
  shows "decodeFrame (bs[i := b]) f0 = Inl ChecksumError"
proof -
  have v: "ldata_isValid f" using encodeFrame_Inr [OF assms(1)] by simp
  have len: "8 \<le> length bs"
    using encodeFrame_length [OF assms(1)] valid_length [OF v] by (auto split: if_splits)
  have "verifyChecksum bs = Inr ()"
    by (rule decodeFrame_Inr_checksum [OF encode_decode [OF assms(1), of f0]])
  then have z: "calculateChecksum bs = 0" by (simp add: verifyChecksum_iff)
  have "calculateChecksum (bs[i := b]) = (bs ! i) XOR b"
    using calculateChecksum_update [OF assms(2), of b] z by simp
  moreover have "(bs ! i) XOR b \<noteq> 0"
    using assms(3) by simp
  ultimately have "verifyChecksum (bs[i := b]) \<noteq> Inr ()"
    by (simp add: verifyChecksum_iff)
  moreover have "verifyChecksum (bs[i := b]) \<in> {Inr (), Inl ChecksumError}"
    using len by (auto simp: verifyChecksum_def)
  ultimately show ?thesis using len by (auto simp: decodeFrame_def)
qed

theorem single_octet_error_detected_witness:
  "decodeFrame (sample_octets[7 := 0x80]) ldata_frame_init = Inl ChecksumError"
  by (rule single_octet_error_detected [OF sample_encode]) (simp_all add: sample_octets_def)

end
