(* ===== verification/Interfaces.thy ===== *)
theory Interfaces
  imports Knx_Base
begin

text \<open>
  The contracts that several components of the stack share, as locales: the bounded FIFO behind
  the forward queue of the network layer and the receive queue of the transport layer, and the
  single-flight transmit engine (\<open>beginTransmit\<close> / \<open>pollTransmit\<close>) that the data link, network
  and transport layers each offer to the layer above. Each layer's theory interprets them on its
  own operations. A queue that keeps the newest entries, a codec whose decoder undoes its encoder and a
  receiver that accepts only the next sequence number are three more. The ring buffer that both queues use in the code is modelled here as well.
\<close>

section \<open>Bounded FIFO\<close>

locale bounded_fifo =
  fixes enq :: "'q \<Rightarrow> 'a \<Rightarrow> 'q"
    and deq :: "'q \<Rightarrow> ('a \<times> 'q) option"
    and contents :: "'q \<Rightarrow> 'a list"
    and cap :: nat
    and invar :: "'q \<Rightarrow> bool"
  assumes contents_le: "invar q \<Longrightarrow> length (contents q) \<le> cap"
    and contents_enq: "invar q \<Longrightarrow> contents (enq q x) =
      (if length (contents q) < cap then contents q @ [x] else contents q)"
    and invar_enq: "invar q \<Longrightarrow> invar (enq q x)"
    and deq_None: "invar q \<Longrightarrow> deq q = None \<longleftrightarrow> contents q = []"
    and deq_Some: "invar q \<Longrightarrow> deq q = Some (x, q') \<Longrightarrow> contents q = x # contents q' \<and> invar q'"
begin

fun enq_all :: "'q \<Rightarrow> 'a list \<Rightarrow> 'q" where
  "enq_all q [] = q"
| "enq_all q (x # xs) = enq_all (enq q x) xs"

fun deq_upto :: "nat \<Rightarrow> 'q \<Rightarrow> 'a list" where
  "deq_upto 0 q = []"
| "deq_upto (Suc n) q = (case deq q of None \<Rightarrow> [] | Some (x, q') \<Rightarrow> x # deq_upto n q')"

lemma invar_enq_all: "invar q \<Longrightarrow> invar (enq_all q xs)"
  by (induction xs arbitrary: q) (simp_all add: invar_enq)

lemma contents_enq_all:
  "invar q \<Longrightarrow> contents (enq_all q xs) = contents q @ take (cap - length (contents q)) xs"
proof (induction xs arbitrary: q)
  case (Cons x xs)
  show ?case
  proof (cases "length (contents q) < cap")
    case True
    with Cons.prems show ?thesis
      by (simp add: Cons.IH [OF invar_enq] contents_enq take_Cons' Suc_diff_Suc)
  next
    case False
    with Cons.prems contents_le [OF Cons.prems] show ?thesis
      by (simp add: Cons.IH [OF invar_enq] contents_enq)
  qed
qed simp

lemma deq_upto_contents: "invar q \<Longrightarrow> deq_upto n q = take n (contents q)"
proof (induction n arbitrary: q)
  case (Suc n)
  show ?case
  proof (cases "deq q")
    case None
    with Suc.prems deq_None [of q] show ?thesis by simp
  next
    case (Some p)
    obtain x q' where p: "p = (x, q')" by force
    with Some Suc.prems have "contents q = x # contents q'" "invar q'"
      using deq_Some by auto
    with Some p Suc.IH show ?thesis by simp
  qed
qed simp

text \<open>What was queued comes out in order, and only what exceeded the capacity is lost.\<close>

lemma fifo_order:
  "invar q \<Longrightarrow> deq_upto n (enq_all q xs) =
     take n (contents q @ take (cap - length (contents q)) xs)"
  by (simp add: deq_upto_contents invar_enq_all contents_enq_all)

end

section \<open>The ring buffer of the two queues\<close>

text \<open>\<open>std::array<Frame, N> queue; size_t head; size_t count\<close>, as in
  \<open>NetworkLayer\<close> and \<open>TransportLayer\<close>. The array always has length \<open>N\<close>.\<close>

record 'a ring =
  ring_slots :: "'a list"
  ring_head :: nat
  ring_count :: nat

definition ring_push :: "'a ring \<Rightarrow> 'a \<Rightarrow> 'a ring" where
  "ring_push r x =
     (let index = (ring_head r + ring_count r) mod length (ring_slots r) in
      r\<lparr>ring_slots := (ring_slots r)[index := x], ring_count := ring_count r + 1\<rparr>)"

definition ring_pop :: "'a ring \<Rightarrow> 'a \<times> 'a ring" where
  "ring_pop r =
     (ring_slots r ! ring_head r,
      r\<lparr>ring_head := (ring_head r + 1) mod length (ring_slots r),
        ring_count := ring_count r - 1\<rparr>)"

definition ring_contents :: "'a ring \<Rightarrow> 'a list" where
  "ring_contents r =
     map (\<lambda>i. ring_slots r ! ((ring_head r + i) mod length (ring_slots r))) [0..<ring_count r]"

definition ring_ok :: "nat \<Rightarrow> 'a ring \<Rightarrow> bool" where
  "ring_ok n r \<longleftrightarrow> length (ring_slots r) = n \<and> ring_head r < n \<and> ring_count r \<le> n"

lemma ring_contents_length [simp]: "length (ring_contents r) = ring_count r"
  by (simp add: ring_contents_def)

lemma ring_push_ok: "ring_ok n r \<Longrightarrow> ring_count r < n \<Longrightarrow> ring_ok n (ring_push r x)"
  by (simp add: ring_ok_def ring_push_def Let_def)

lemma ring_push_contents:
  assumes "ring_ok n r" "ring_count r < n"
  shows "ring_contents (ring_push r x) = ring_contents r @ [x]"
proof -
  have n: "length (ring_slots r) = n" "ring_head r < n" using assms by (auto simp: ring_ok_def)
  have "(ring_head r + i) mod n \<noteq> (ring_head r + ring_count r) mod n" if "i < ring_count r" for i
  proof
    assume "(ring_head r + i) mod n = (ring_head r + ring_count r) mod n"
    then have "n dvd ring_count r - i"
      using that by (metis add_diff_cancel_left le_add1 less_imp_le_nat mod_eq_dvd_iff_nat nat_add_left_cancel_le)
    with that assms(2) show False by (auto dest: dvd_imp_le)
  qed
  moreover have "(ring_head r + ring_count r) mod n < n" using n by auto
  ultimately show ?thesis
    using n by (simp add: ring_contents_def ring_push_def Let_def) (metis atLeastLessThan_iff nth_list_update_neq)
qed

lemma ring_pop_ok:
  "ring_ok n r \<Longrightarrow> 0 < ring_count r \<Longrightarrow> ring_ok n (snd (ring_pop r))"
  by (auto simp: ring_ok_def ring_pop_def)

lemma ring_pop_contents:
  assumes "ring_ok n r" "0 < ring_count r"
  shows "ring_contents r = fst (ring_pop r) # ring_contents (snd (ring_pop r))"
proof -
  have n: "length (ring_slots r) = n" "ring_head r < n" using assms by (auto simp: ring_ok_def)
  obtain k where k: "ring_count r = Suc k" using assms(2) by (cases "ring_count r") auto
  have "[0..<Suc k] = 0 # map Suc [0..<k]" by (simp add: map_Suc_upt upt_conv_Cons)
  with k n show ?thesis
    by (simp add: ring_contents_def ring_pop_def mod_simps del: upt_Suc)
qed

section \<open>A queue that keeps the newest entries\<close>

definition latest :: "nat \<Rightarrow> 'a list \<Rightarrow> 'a list" where
  "latest n xs = drop (length xs - n) xs"

lemma latest_append: "latest n (latest n xs @ ys) = latest n (xs @ ys)"
  by (cases "length xs \<le> n") (simp_all add: latest_def add.commute)

lemma latest_short: "length xs \<le> n \<Longrightarrow> latest n xs = xs"
  by (simp add: latest_def)

text \<open>Adding to a ring that drops its oldest entry when it is full.\<close>

definition ring_add :: "nat \<Rightarrow> 'a ring \<Rightarrow> 'a \<Rightarrow> 'a ring" where
  "ring_add n r x = (if ring_count r \<ge> n then ring_push (snd (ring_pop r)) x else ring_push r x)"

lemma ring_add_latest:
  assumes ok: "ring_ok n r" and n: "0 < n"
  shows "ring_ok n (ring_add n r x)" "ring_contents (ring_add n r x) = latest n (ring_contents r @ [x])"
proof -
  have "ring_ok n (ring_add n r x) \<and> ring_contents (ring_add n r x) = latest n (ring_contents r @ [x])"
  proof (cases "ring_count r < n")
    case True
    then show ?thesis using ok by (simp add: ring_add_def latest_def ring_push_ok ring_push_contents)
  next
    case False
    then have full: "ring_count r = n" using ok by (simp add: ring_ok_def)
    have p: "ring_ok n (snd (ring_pop r))" "ring_count (snd (ring_pop r)) < n"
      using ring_pop_ok [OF ok] full n by (simp_all add: ring_pop_def)
    have "ring_contents r = fst (ring_pop r) # ring_contents (snd (ring_pop r))"
      using ring_pop_contents [OF ok] full n by simp
    moreover have "Suc (ring_count (snd (ring_pop r))) = n" using full n by (simp add: ring_pop_def)
    ultimately show ?thesis
      using full ring_push_ok [OF p] ring_push_contents [OF p] by (simp add: ring_add_def latest_def)
  qed
  then show "ring_ok n (ring_add n r x)" "ring_contents (ring_add n r x) = latest n (ring_contents r @ [x])" by simp_all
qed

locale latest_fifo =
  fixes push :: "'a \<Rightarrow> 'q \<Rightarrow> 'q"
    and contents :: "'q \<Rightarrow> 'a list"
    and cap :: nat
    and invar :: "'q \<Rightarrow> bool"
  assumes contents_push: "invar q \<Longrightarrow> contents (push x q) = latest cap (contents q @ [x])"
    and invar_push: "invar q \<Longrightarrow> invar (push x q)"
    and contents_max: "invar q \<Longrightarrow> length (contents q) \<le> cap"
begin

lemma push_all: "invar q \<Longrightarrow> contents (fold push xs q) = latest cap (contents q @ xs) \<and> invar (fold push xs q)"
proof (induction xs arbitrary: q)
  case Nil
  then show ?case using contents_max [of q] by (simp add: latest_short)
next
  case (Cons x xs)
  then show ?case
    using contents_push [of q x] invar_push [of q x] latest_append [of cap "contents q @ [x]" xs] by simp
qed

lemma oldest_lost: "invar q \<Longrightarrow> length xs \<ge> cap \<Longrightarrow> contents (fold push xs q) = latest cap xs"
  using push_all [of q xs] by (simp add: latest_def)

end

section \<open>Keyed table\<close>

text \<open>The look-up contract of a table whose entries are found by a key and changed in place: the
  connection table offers it twice, by connection index and by peer address.\<close>

locale keyed_table =
  fixes look :: "'t \<Rightarrow> 'k \<Rightarrow> 'e option"
    and upd :: "'k \<Rightarrow> ('e \<Rightarrow> 'e) \<Rightarrow> 't \<Rightarrow> 't"
    and key :: "'e \<Rightarrow> 'k"
  assumes look_key: "look t k = Some e \<Longrightarrow> key e = k"
    and look_upd: "(\<And>e. key (f e) = key e) \<Longrightarrow>
      look (upd k f t) k' = (if k' = k then map_option f (look t k) else look t k')"
begin

lemma look_upd_same: "(\<And>e. key (f e) = key e) \<Longrightarrow> look (upd k f t) k = map_option f (look t k)"
  by (simp add: look_upd)

lemma look_upd_twice:
  assumes "\<And>e. key (f e) = key e" "\<And>e. key (g e) = key e"
  shows "look (upd k g (upd k f t)) k' = look (upd k (g \<circ> f) t) k'"
  using assms by (simp add: look_upd option.map_comp)

lemma look_upd_None: "(\<And>e. key (f e) = key e) \<Longrightarrow> look t k = None \<Longrightarrow> look (upd k f t) k' = look t k'"
  by (simp add: look_upd)

end

section \<open>Single-flight transmit engine\<close>

text \<open>The asynchronous transmit interface of the data link, network and transport layers:
  \<open>start\<close> accepts a frame only while no operation is active, \<open>poll\<close> advances the active one and
  ends it with exactly one terminal outcome.\<close>

locale single_flight =
  fixes start :: "'s \<Rightarrow> 'f \<Rightarrow> 's \<times> unit result"
    and poll :: "'s \<Rightarrow> 's \<times> progress result"
    and ready :: "'s \<Rightarrow> bool"
    and active :: "'s \<Rightarrow> bool"
  assumes start_ok: "start s f = (s', Inr ()) \<Longrightarrow> \<not> active s \<and> active s' \<and> ready s'"
    and start_err: "ready s \<Longrightarrow> start s f = (s', Inl e) \<Longrightarrow> active s' = active s \<and> ready s'"
    and start_busy: "ready s \<Longrightarrow> active s \<Longrightarrow> snd (start s f) = Inl EBusy"
    and poll_pending: "ready s \<Longrightarrow> poll s = (s', Inr Pending) \<Longrightarrow> active s \<and> active s' \<and> ready s'"
    and poll_done: "ready s \<Longrightarrow> poll s = (s', r) \<Longrightarrow> r \<noteq> Inr Pending \<Longrightarrow> \<not> active s' \<and> ready s'"
    and poll_idle: "ready s \<Longrightarrow> \<not> active s \<Longrightarrow> snd (poll s) = Inl OperationNotReady"
begin

text \<open>A client's schedule: \<open>Some f\<close> begins a frame, \<open>None\<close> polls. The run counts the frames that
  were accepted and the operations that ended.\<close>

fun run :: "'s \<Rightarrow> 'f option list \<Rightarrow> nat \<Rightarrow> nat \<Rightarrow> 's \<times> nat \<times> nat" where
  "run s [] acc fin = (s, acc, fin)"
| "run s (Some f # es) acc fin =
     (case start s f of (s', r) \<Rightarrow> run s' es (if isOk r then Suc acc else acc) fin)"
| "run s (None # es) acc fin =
     (case poll s of (s', r) \<Rightarrow>
        run s' es acc (if active s \<and> r \<noteq> Inr Pending then Suc fin else fin))"

lemma run_accounting:
  assumes "ready s" and "run s es acc fin = (s', acc', fin')"
  shows "acc' + fin + of_bool (active s) = acc + fin' + of_bool (active s')"
  using assms
proof (induction s es acc fin rule: run.induct)
  case (2 s f es acc fin)
  obtain t r where b: "start s f = (t, r)" by force
  show ?case
  proof (cases r)
    case (Inl e)
    then show ?thesis using 2 b start_err [of s f t e] by simp
  next
    case (Inr u)
    then show ?thesis using 2 b start_ok [of s f t] by simp
  qed
next
  case (3 s es acc fin)
  obtain t r where p: "poll s = (t, r)" by force
  show ?case
  proof (cases "r = Inr Pending")
    case True
    then show ?thesis using 3 p poll_pending [of s t] by simp
  next
    case False
    then show ?thesis using 3 p poll_done [of s t r] by (cases "active s") simp_all
  qed
qed simp

text \<open>From an idle engine: at most one accepted frame is ever unfinished, and an idle engine has
  finished every frame it accepted.\<close>

lemma exactly_one_outcome:
  assumes "ready s" "\<not> active s" "run s es 0 0 = (s', a, n)"
  shows "a = n + of_bool (active s')"
  using run_accounting [OF assms(1,3)] assms(2) by simp

end

section \<open>Codecs\<close>

text \<open>An encoder and a decoder that may both fail; on the valid values the decoder undoes the
  encoder.\<close>

locale result_codec =
  fixes enc :: "'a \<Rightarrow> 'b result"
    and dec :: "'b \<Rightarrow> 'a result"
    and valid :: "'a \<Rightarrow> bool"
  assumes dec_enc: "valid x \<Longrightarrow> enc x = Inr b \<Longrightarrow> dec b = Inr x"
begin

lemma enc_inj: "valid x \<Longrightarrow> valid y \<Longrightarrow> enc x = Inr b \<Longrightarrow> enc y = Inr b \<Longrightarrow> x = y"
  using dec_enc [of x b] dec_enc [of y b] by simp

lemma enc_not_rejected: "valid x \<Longrightarrow> enc x = Inr b \<Longrightarrow> isOk (dec b)"
  by (simp add: dec_enc)

end

section \<open>Sequence-checked receivers\<close>

text \<open>A receiver that accepts a numbered message exactly when it has the number it expects next;
  \<open>number m = None\<close> is a message that is none of this receiver's business.\<close>

locale sequenced_receiver =
  fixes recv :: "'s \<Rightarrow> 'm \<Rightarrow> 's \<times> 'd list"
    and expected :: "'s \<Rightarrow> 'n"
    and number :: "'m \<Rightarrow> 'n option"
    and payload :: "'m \<Rightarrow> 'd"
    and succ :: "'n \<Rightarrow> 'n"
    and invar :: "'s \<Rightarrow> bool"
    and admissible :: "'m \<Rightarrow> bool"
  assumes recv_invar: "invar s \<Longrightarrow> admissible m \<Longrightarrow> invar (fst (recv s m))"
    and accept: "invar s \<Longrightarrow> admissible m \<Longrightarrow> number m = Some (expected s) \<Longrightarrow>
      snd (recv s m) = [payload m] \<and> expected (fst (recv s m)) = succ (expected s)"
    and refuse: "invar s \<Longrightarrow> admissible m \<Longrightarrow> number m \<noteq> Some (expected s) \<Longrightarrow>
      snd (recv s m) = [] \<and> expected (fst (recv s m)) = expected s"
begin

fun recv_all :: "'s \<Rightarrow> 'm list \<Rightarrow> 's \<times> 'd list" where
  "recv_all s [] = (s, [])"
| "recv_all s (m # ms) =
     (case recv s m of (s1, d) \<Rightarrow> case recv_all s1 ms of (s2, ds) \<Rightarrow> (s2, d @ ds))"

fun in_sequence :: "'n \<Rightarrow> 'm list \<Rightarrow> 'd list" where
  "in_sequence n [] = []"
| "in_sequence n (m # ms) =
     (if number m = Some n then payload m # in_sequence (succ n) ms else in_sequence n ms)"

lemma recv_all_in_sequence:
  "invar s \<Longrightarrow> list_all admissible ms \<Longrightarrow> snd (recv_all s ms) = in_sequence (expected s) ms"
proof (induction ms arbitrary: s)
  case (Cons m ms)
  then have "invar (fst (recv s m))" "admissible m" by (simp_all add: recv_invar)
  with Cons show ?case
    using accept [of s m] refuse [of s m]
    by (cases "number m = Some (expected s)") (simp_all add: case_prod_beta)
qed simp

lemma recv_all_invar: "invar s \<Longrightarrow> list_all admissible ms \<Longrightarrow> invar (fst (recv_all s ms))"
  by (induction ms arbitrary: s) (simp_all add: case_prod_beta recv_invar)

lemma expected_recv_all:
  "invar s \<Longrightarrow> list_all admissible ms \<Longrightarrow>
   expected (fst (recv_all s ms)) = (succ ^^ length (snd (recv_all s ms))) (expected s)"
proof (induction ms arbitrary: s)
  case (Cons m ms)
  then have "invar (fst (recv s m))" "admissible m" by (simp_all add: recv_invar)
  with Cons show ?case
    using accept [of s m] refuse [of s m]
    by (cases "number m = Some (expected s)") (simp_all add: case_prod_beta funpow_swap1)
qed simp

end

end
