(* ===== verification/Filter_Table.thy ===== *)
theory Filter_Table
  imports Interfaces
begin

text \<open>
  The group-address filter table (\<open>src/network/filter_table.cpp\<close>), the individual-address
  routing table (\<open>src/network/routing_table.cpp\<close>) and the Function Property service that edits
  the filter table (\<open>src/network/routing_table_control.cpp\<close>).
\<close>

section \<open>Filter table\<close>

datatype filter_action = Allow | Block

record filter_entry =
  fe_address :: group_address
  fe_mask :: group_address
  fe_action :: filter_action
  fe_enabled :: bool

record filter_table =
  ft_entries :: "filter_entry list"
  ft_default :: filter_action

definition FILTER_MAX_ENTRIES :: nat where "FILTER_MAX_ENTRIES = 64"

definition filter_table_init :: filter_table where
  "filter_table_init = \<lparr>ft_entries = [], ft_default = Allow\<rparr>"

definition fe_matches :: "filter_entry \<Rightarrow> group_address \<Rightarrow> bool" where
  "fe_matches e a \<longleftrightarrow> a AND fe_mask e = fe_address e AND fe_mask e"

text \<open>\<open>addEntry\<close> returns the new index, or \<open>-1\<close> when the table is full.\<close>

definition ft_addEntry :: "filter_table \<Rightarrow> filter_entry \<Rightarrow> filter_table \<times> int" where
  "ft_addEntry t e =
     (if length (ft_entries t) \<ge> FILTER_MAX_ENTRIES then (t, -1)
      else (t\<lparr>ft_entries := ft_entries t @ [e]\<rparr>, int (length (ft_entries t))))"

definition ft_addEntry4 ::
    "filter_table \<Rightarrow> group_address \<Rightarrow> group_address \<Rightarrow> filter_action \<Rightarrow> bool
     \<Rightarrow> filter_table \<times> unit result" where
  "ft_addEntry4 t a m act en =
     (case ft_addEntry t \<lparr>fe_address = a, fe_mask = m, fe_action = act, fe_enabled = en\<rparr> of
        (t', i) \<Rightarrow> (t', if i \<ge> 0 then Inr () else Inl QueueFull))"

definition ft_removeEntry :: "filter_table \<Rightarrow> nat \<Rightarrow> filter_table \<times> unit result" where
  "ft_removeEntry t i =
     (if i \<ge> length (ft_entries t) then (t, Inl InvalidParameter)
      else (t\<lparr>ft_entries := take i (ft_entries t) @ drop (Suc i) (ft_entries t)\<rparr>, Inr ()))"

definition ft_getEntry :: "filter_table \<Rightarrow> nat \<Rightarrow> filter_entry option" where
  "ft_getEntry t i = (if i \<ge> length (ft_entries t) then None else Some (ft_entries t ! i))"

definition ft_updateEntry :: "filter_table \<Rightarrow> nat \<Rightarrow> filter_entry \<Rightarrow> filter_table \<times> unit result" where
  "ft_updateEntry t i e =
     (if i \<ge> length (ft_entries t) then (t, Inl InvalidParameter)
      else (t\<lparr>ft_entries := (ft_entries t)[i := e]\<rparr>, Inr ()))"

definition ft_clear :: "filter_table \<Rightarrow> filter_table" where
  "ft_clear t = t\<lparr>ft_entries := []\<rparr>"

definition ft_setDefaultAction :: "filter_table \<Rightarrow> filter_action \<Rightarrow> filter_table" where
  "ft_setDefaultAction t a = t\<lparr>ft_default := a\<rparr>"

fun checkEntries :: "filter_entry list \<Rightarrow> group_address \<Rightarrow> filter_action \<Rightarrow> filter_action" where
  "checkEntries [] a d = d"
| "checkEntries (e # es) a d =
     (if fe_enabled e \<and> fe_matches e a then fe_action e else checkEntries es a d)"

definition checkFilter :: "filter_table \<Rightarrow> group_address \<Rightarrow> filter_action" where
  "checkFilter t a = checkEntries (ft_entries t) a (ft_default t)"

subsection \<open>Persistence\<close>

definition action_of_byte :: "u8 \<Rightarrow> filter_action" where
  "action_of_byte b = (if b \<noteq> 0 then Block else Allow)"

definition byte_of_action :: "filter_action \<Rightarrow> u8" where
  "byte_of_action a = (if a = Block then 1 else 0)"

text \<open>The loop of \<open>loadTable\<close>: \<open>count\<close> entries of five octets; \<open>addEntry\<close> drops what does not
  fit without reporting it.\<close>

fun ft_load_loop :: "nat \<Rightarrow> bytes \<Rightarrow> filter_table \<Rightarrow> filter_table" where
  "ft_load_loop (Suc n) (a1 # a0 # m1 # m0 # act # rest) t =
     ft_load_loop n rest
       (fst (ft_addEntry t \<lparr>fe_address = word_be a1 a0, fe_mask = word_be m1 m0,
                            fe_action = action_of_byte act, fe_enabled = True\<rparr>))"
| "ft_load_loop _ _ t = t"

definition ft_loadTable :: "filter_table \<Rightarrow> bytes \<Rightarrow> filter_table \<times> unit result" where
  "ft_loadTable t data =
     (if length data < 3 then (t, Inl InvalidParameter)
      else let t1 = t\<lparr>ft_default := action_of_byte (data ! 0)\<rparr>;
               count = unat (word_be (data ! 1) (data ! 2)) in
      if length data \<noteq> 3 + count * 5 then (t1, Inl InvalidFrameSize)
      else (ft_load_loop count (drop 3 data) (ft_clear t1), Inr ()))"

definition fe_bytes :: "filter_entry \<Rightarrow> bytes" where
  "fe_bytes e = [getHighByte (fe_address e), getLowByte (fe_address e),
                 getHighByte (fe_mask e), getLowByte (fe_mask e), byte_of_action (fe_action e)]"

definition ft_saveTable :: "filter_table \<Rightarrow> nat \<Rightarrow> bytes result" where
  "ft_saveTable t outSize =
     (if outSize < 3 + length (ft_entries t) * 5 then Inl BufferTooSmall
      else let count = of_nat (length (ft_entries t)) :: u16 in
      Inr ([byte_of_action (ft_default t), getHighByte count, getLowByte count]
           @ concat (map fe_bytes (ft_entries t))))"

section \<open>Routing table\<close>

datatype routing_decision = Forward | ForwardLocal | RBlock | Drop

record routing_entry =
  re_destination :: individual_address
  re_mask :: individual_address
  re_hopCount :: u8
  re_enabled :: bool

type_synonym routing_table = "routing_entry list"

definition ROUTING_MAX_ENTRIES :: nat where "ROUTING_MAX_ENTRIES = 32"

definition re_matches :: "routing_entry \<Rightarrow> individual_address \<Rightarrow> bool" where
  "re_matches e a \<longleftrightarrow> a AND re_mask e = re_destination e AND re_mask e"

definition rt_addEntry :: "routing_table \<Rightarrow> routing_entry \<Rightarrow> routing_table \<times> int" where
  "rt_addEntry t e =
     (if length t \<ge> ROUTING_MAX_ENTRIES then (t, -1) else (t @ [e], int (length t)))"

definition rt_removeEntry :: "routing_table \<Rightarrow> nat \<Rightarrow> routing_table \<times> unit result" where
  "rt_removeEntry t i =
     (if i \<ge> length t then (t, Inl InvalidParameter)
      else (take i t @ drop (Suc i) t, Inr ()))"

definition rt_updateEntry :: "routing_table \<Rightarrow> nat \<Rightarrow> routing_entry \<Rightarrow> routing_table \<times> unit result" where
  "rt_updateEntry t i e =
     (if i \<ge> length t then (t, Inl InvalidParameter) else (t[i := e], Inr ()))"

definition rt_findEntry :: "routing_table \<Rightarrow> individual_address \<Rightarrow> routing_entry option" where
  "rt_findEntry t a = find (\<lambda>e. re_matches e a \<and> re_enabled e) t"

definition rt_isOnSameLine :: "individual_address \<Rightarrow> individual_address \<Rightarrow> bool" where
  "rt_isOnSameLine d own \<longleftrightarrow> ia_area d = ia_area own \<and> ia_line d = ia_line own"

definition rt_isOnSameArea :: "individual_address \<Rightarrow> individual_address \<Rightarrow> bool" where
  "rt_isOnSameArea d own \<longleftrightarrow> ia_area d = ia_area own"

definition route ::
    "routing_table \<Rightarrow> individual_address \<Rightarrow> group_address \<Rightarrow> address_type \<Rightarrow> u8
     \<Rightarrow> individual_address \<Rightarrow> routing_decision" where
  "route t src dest dtype hops own =
     (if hops = 0 then Drop
      else if dtype = Group then Forward
      else if dest = own then Drop
      else if dest = src then Drop
      else if rt_isOnSameLine dest own then ForwardLocal
      else if rt_isOnSameArea dest own then Forward
      else case rt_findEntry t dest of
        Some e \<Rightarrow> (if re_enabled e then (if hops > re_hopCount e then Drop else Forward) else RBlock)
      | None \<Rightarrow> RBlock)"

fun rt_load_loop :: "nat \<Rightarrow> bytes \<Rightarrow> routing_table \<Rightarrow> routing_table" where
  "rt_load_loop (Suc n) (d1 # d0 # m1 # m0 # h # en # rest) t =
     rt_load_loop n rest
       (fst (rt_addEntry t \<lparr>re_destination = word_be d1 d0, re_mask = word_be m1 m0,
                            re_hopCount = h, re_enabled = (en \<noteq> 0)\<rparr>))"
| "rt_load_loop _ _ t = t"

definition rt_loadTable :: "routing_table \<Rightarrow> bytes \<Rightarrow> routing_table \<times> unit result" where
  "rt_loadTable t data =
     (if length data < 2 then (t, Inl InvalidParameter)
      else let count = unat (word_be (data ! 0) (data ! 1)) in
      if length data \<noteq> 2 + count * 6 then (t, Inl InvalidFrameSize)
      else (rt_load_loop count (drop 2 data) [], Inr ()))"

definition re_bytes :: "routing_entry \<Rightarrow> bytes" where
  "re_bytes e = [getHighByte (re_destination e), getLowByte (re_destination e),
                 getHighByte (re_mask e), getLowByte (re_mask e), re_hopCount e,
                 (if re_enabled e then 1 else 0)]"

definition rt_saveTable :: "routing_table \<Rightarrow> nat \<Rightarrow> bytes result" where
  "rt_saveTable t outSize =
     (if outSize < 2 + length t * 6 then Inl BufferTooSmall
      else let count = of_nat (length t) :: u16 in
      Inr ([getHighByte count, getLowByte count] @ concat (map re_bytes t)))"

section \<open>PID_ROUTETABLE_CONTROL\<close>

datatype invocation = Command | StateRead

record route_control =
  rc_table :: filter_table
  rc_lastAffected :: nat

text \<open>\<open>makeResponse\<close>: return code (\<open>0x00\<close> success, \<open>0xFF\<close> error) and the echoed service id.\<close>

type_synonym route_response = "u8 \<times> bytes"

definition makeResponse :: "bool \<Rightarrow> u8 \<Rightarrow> route_response" where
  "makeResponse ok sid = (if ok then 0x00 else 0xFF, [sid])"

definition clearRoutingTable :: "route_control \<Rightarrow> route_control \<times> unit result" where
  "clearRoutingTable rc =
     (rc\<lparr>rc_table := ft_setDefaultAction (ft_clear (rc_table rc)) Block, rc_lastAffected := 0\<rparr>, Inr ())"

definition setRoutingTable :: "route_control \<Rightarrow> route_control \<times> unit result" where
  "setRoutingTable rc =
     (rc\<lparr>rc_table := ft_setDefaultAction (ft_clear (rc_table rc)) Allow, rc_lastAffected := 0\<rparr>, Inr ())"

fun add_range :: "filter_table \<Rightarrow> nat list \<Rightarrow> filter_action \<Rightarrow> filter_table \<times> unit result" where
  "add_range t [] act = (t, Inr ())"
| "add_range t (a # as) act =
     (case ft_addEntry4 t (of_nat a) 0xFFFF act True of
        (t', Inl e) \<Rightarrow> (t', Inl e)
      | (t', Inr _) \<Rightarrow> add_range t' as act)"

text \<open>The service is \<open>SetGroupAddress\<close> (\<open>0x04\<close>) or \<open>ClearGroupAddress\<close> (\<open>0x03\<close>).\<close>

definition applyRange :: "route_control \<Rightarrow> u8 \<Rightarrow> bytes \<Rightarrow> route_control \<times> unit result" where
  "applyRange rc sid info =
     (if length info < 4 then (rc, Inl DecodeFailed)
      else let start = word_be (info ! 0) (info ! 1);
               end = word_be (info ! 2) (info ! 3) in
      if start > end then (rc, Inl InvalidParameter)
      else if start > 0x6FFF then (rc, Inl OutOfRange)
      else let clampedEnd = (if end > 0x6FFF then 0x6FFF else end);
               act = (if sid = 0x04 then Allow else Block);
               requested = unat clampedEnd - unat start + 1;
               free = FILTER_MAX_ENTRIES - length (ft_entries (rc_table rc)) in
      if requested > free then (rc, Inl QueueFull)
      else case add_range (rc_table rc) [unat start ..< unat clampedEnd + 1] act of
             (t', Inl e) \<Rightarrow> (rc\<lparr>rc_table := t'\<rparr>, Inl e)
           | (t', Inr _) \<Rightarrow> (rc\<lparr>rc_table := t', rc_lastAffected := requested\<rparr>, Inr ()))"

definition rc_invoke :: "route_control \<Rightarrow> invocation \<Rightarrow> bytes \<Rightarrow> route_control \<times> route_response result" where
  "rc_invoke rc how payload =
     (if length payload < 2 then (rc, Inl DecodeFailed)
      else let sid = payload ! 1; info = drop 2 payload in
      case how of
        StateRead \<Rightarrow> (rc, Inr (makeResponse (sid \<in> {1, 2, 3, 4}) sid))
      | Command \<Rightarrow>
          (if sid = 1 then (case clearRoutingTable rc of (rc', r) \<Rightarrow> (rc', Inr (makeResponse (isOk r) sid)))
           else if sid = 2 then (case setRoutingTable rc of (rc', r) \<Rightarrow> (rc', Inr (makeResponse (isOk r) sid)))
           else if sid = 3 \<or> sid = 4
             then (case applyRange rc sid info of (rc', r) \<Rightarrow> (rc', Inr (makeResponse (isOk r) sid)))
           else (rc, Inr (makeResponse False sid))))"

section \<open>Lemmas: filter table\<close>

definition ft_ok :: "filter_table \<Rightarrow> bool" where
  "ft_ok t \<longleftrightarrow> length (ft_entries t) \<le> FILTER_MAX_ENTRIES"

definition ft_decided :: "filter_table \<Rightarrow> group_address \<Rightarrow> bool" where
  "ft_decided t a \<longleftrightarrow> (\<exists>e \<in> set (ft_entries t). fe_enabled e \<and> fe_matches e a)"

lemmas ft_ops = ft_addEntry_def ft_addEntry4_def ft_removeEntry_def ft_updateEntry_def
  ft_clear_def ft_setDefaultAction_def

lemma ft_ops_ok [simp]:
  "ft_ok t \<Longrightarrow> ft_ok (fst (ft_addEntry t e))"
  "ft_ok t \<Longrightarrow> ft_ok (fst (ft_removeEntry t i))"
  "ft_ok t \<Longrightarrow> ft_ok (fst (ft_updateEntry t i e))"
  "ft_ok (ft_clear t)"
  "ft_ok t \<Longrightarrow> ft_ok (ft_setDefaultAction t d)"
  by (auto simp: ft_ok_def ft_ops)

lemma ft_load_loop_ok: "ft_ok t \<Longrightarrow> ft_ok (ft_load_loop n bs t)"
  by (induction n bs t rule: ft_load_loop.induct) simp_all

lemma checkEntries_append:
  "checkEntries (es @ es') a d = checkEntries es a (checkEntries es' a d)"
  by (induction es) auto

lemma checkEntries_undecided:
  "\<not> (\<exists>e \<in> set es. fe_enabled e \<and> fe_matches e a) \<Longrightarrow> checkEntries es a d = d"
  by (induction es) auto

lemma checkEntries_decided:
  "\<exists>e \<in> set es. fe_enabled e \<and> fe_matches e a \<Longrightarrow> checkEntries es a d = checkEntries es a d'"
  by (induction es) auto

lemma and_FFFF [simp]: "(a :: u16) AND 0xFFFF = a"
  by (rule word16_eqI) (simp_all add: bit_simps)

lemma ft_load_loop_entries:
  assumes "length (ft_entries t) + length es \<le> FILTER_MAX_ENTRIES"
  shows "ft_load_loop (length es) (concat (map fe_bytes es)) t =
           t\<lparr>ft_entries := ft_entries t @ map (\<lambda>e. e\<lparr>fe_enabled := True\<rparr>) es\<rparr>"
  using assms
proof (induction es arbitrary: t)
  case (Cons e es)
  have act: "action_of_byte (byte_of_action x) = x" for x
    by (cases x) (simp_all add: action_of_byte_def byte_of_action_def)
  have e: "\<lparr>fe_address = fe_address e, fe_mask = fe_mask e, fe_action = fe_action e,
            fe_enabled = True\<rparr> = e\<lparr>fe_enabled := True\<rparr>"
    by (rule filter_entry.equality) simp_all
  have "ft_load_loop (length (e # es)) (concat (map fe_bytes (e # es))) t =
      ft_load_loop (length es) (concat (map fe_bytes es))
        (t\<lparr>ft_entries := ft_entries t @ [e\<lparr>fe_enabled := True\<rparr>]\<rparr>)"
    using Cons.prems by (simp add: fe_bytes_def act e ft_addEntry_def)
  also have "\<dots> = t\<lparr>ft_entries := ft_entries t @ map (\<lambda>e. e\<lparr>fe_enabled := True\<rparr>) (e # es)\<rparr>"
    using Cons.prems by (subst Cons.IH) simp_all
  finally show ?case .
qed simp

lemma concat_fe_bytes_length: "length (concat (map fe_bytes es)) = 5 * length es"
  by (induction es) (simp_all add: fe_bytes_def)

lemma rt_load_loop_entries:
  assumes "length t + length es \<le> ROUTING_MAX_ENTRIES"
  shows "rt_load_loop (length es) (concat (map re_bytes es)) t = t @ es"
  using assms
proof (induction es arbitrary: t)
  case (Cons e es)
  have e: "\<lparr>re_destination = re_destination e, re_mask = re_mask e, re_hopCount = re_hopCount e,
            re_enabled = b\<rparr> = e" if "re_enabled e = b" for b
    using that by (intro routing_entry.equality) simp_all
  have "rt_load_loop (length (e # es)) (concat (map re_bytes (e # es))) t =
      rt_load_loop (length es) (concat (map re_bytes es)) (t @ [e])"
    using Cons.prems by (cases "re_enabled e") (simp_all add: re_bytes_def e rt_addEntry_def)
  also have "\<dots> = t @ e # es" using Cons.prems by (subst Cons.IH) simp_all
  finally show ?case .
qed simp

lemma concat_re_bytes_length: "length (concat (map re_bytes es)) = 6 * length es"
  by (induction es) (simp_all add: re_bytes_def)

section \<open>Lemmas: range service\<close>

lemma add_range_ok:
  assumes "length (ft_entries t) + length as \<le> FILTER_MAX_ENTRIES"
  shows "add_range t as act =
    (t\<lparr>ft_entries := ft_entries t @ map (\<lambda>a. \<lparr>fe_address = of_nat a, fe_mask = 0xFFFF,
        fe_action = act, fe_enabled = True\<rparr>) as\<rparr>, Inr ())"
  using assms
proof (induction as arbitrary: t)
  case (Cons a as)
  then show ?case by (simp add: ft_addEntry4_def ft_addEntry_def)
qed simp

lemma checkEntries_exact:
  "checkEntries (map (\<lambda>a. \<lparr>fe_address = of_nat a, fe_mask = 0xFFFF, fe_action = act,
      fe_enabled = True\<rparr>) as) g d = (if g \<in> of_nat ` set as then act else d)"
  by (induction as) (auto simp: fe_matches_def)

lemma of_nat_range: "(g :: u16) \<in> of_nat ` {unat s ..< unat e + 1} \<longleftrightarrow> s \<le> g \<and> g \<le> e"
proof
  assume "g \<in> of_nat ` {unat s ..< unat e + 1}"
  then obtain n where n: "g = of_nat n" "unat s \<le> n" "n \<le> unat e" by auto
  have "n < 65536" using n(3) unat_u16_lt [of e] by linarith
  with n(1) have "unat g = n" by (simp add: unat_of_nat_u16)
  with n show "s \<le> g \<and> g \<le> e" by (simp add: word_le_nat_alt)
next
  assume "s \<le> g \<and> g \<le> e"
  then have "g = of_nat (unat g)" "unat g \<in> {unat s ..< unat e + 1}"
    by (auto simp: word_le_nat_alt)
  then show "g \<in> of_nat ` {unat s ..< unat e + 1}" by blast
qed

lemma range_fits: "c - s + 1 \<le> M - n \<Longrightarrow> n + length [s ..< c + 1] \<le> (M :: nat)"
  by (cases "s \<le> c") auto

lemma applyRange_error: "applyRange rc sid info = (rc', Inl e) \<Longrightarrow> rc' = rc"
proof -
  assume a: "applyRange rc sid info = (rc', Inl e)"
  let ?s = "word_be (info ! 0) (info ! 1)" and ?e = "word_be (info ! 2) (info ! 3)"
  let ?c = "if ?e > 0x6FFF then 0x6FFF else ?e"
  show "rc' = rc"
  proof (rule ccontr)
    assume "rc' \<noteq> rc"
    with a have fits: "unat ?c - unat ?s + 1 \<le> FILTER_MAX_ENTRIES - length (ft_entries (rc_table rc))"
      and r: "add_range (rc_table rc) [unat ?s ..< unat ?c + 1]
                (if sid = 4 then Allow else Block) = (rc_table rc', Inl e)"
      by (auto simp: applyRange_def Let_def not_less split: if_splits prod.splits sum.splits)
    from add_range_ok [OF range_fits [OF fits]] r show False by simp
  qed
qed

lemma applyRange_ok:
  assumes "applyRange rc sid info = (rc', Inr ())"
  defines "s \<equiv> word_be (info ! 0) (info ! 1)"
    and "c \<equiv> (if word_be (info ! 2) (info ! 3) > 0x6FFF then 0x6FFF else word_be (info ! 2) (info ! 3))"
  shows "rc_table rc' = (rc_table rc)\<lparr>ft_entries := ft_entries (rc_table rc) @
           map (\<lambda>a. \<lparr>fe_address = of_nat a, fe_mask = 0xFFFF,
                     fe_action = (if sid = 4 then Allow else Block), fe_enabled = True\<rparr>)
             [unat s ..< unat c + 1]\<rparr>"
proof -
  from assms(1) have fits: "unat c - unat s + 1 \<le> FILTER_MAX_ENTRIES - length (ft_entries (rc_table rc))"
    and r: "add_range (rc_table rc) [unat s ..< unat c + 1]
              (if sid = 4 then Allow else Block) = (rc_table rc', Inr ())"
    by (auto simp: applyRange_def Let_def not_less s_def c_def split: if_splits prod.splits sum.splits)
  from add_range_ok [OF range_fits [OF fits]] r show ?thesis by simp
qed

lemma applyRange_effect:
  assumes "applyRange rc sid info = (rc', Inr ())"
  shows "checkFilter (rc_table rc') a =
    (if ft_decided (rc_table rc) a then checkFilter (rc_table rc) a
     else if word_be (info ! 0) (info ! 1) \<le> a \<and> a \<le> word_be (info ! 2) (info ! 3) \<and> a \<le> 0x6FFF
     then (if sid = 4 then Allow else Block) else ft_default (rc_table rc))"
proof -
  let ?s = "word_be (info ! 0) (info ! 1)" and ?e = "word_be (info ! 2) (info ! 3)"
  let ?c = "if ?e > 0x6FFF then 0x6FFF else ?e"
  have rng: "a \<in> of_nat ` set [unat ?s ..< unat ?c + 1] \<longleftrightarrow> ?s \<le> a \<and> a \<le> ?e \<and> a \<le> 0x6FFF"
    unfolding set_upt of_nat_range by auto
  show ?thesis
    unfolding applyRange_ok [OF assms] checkFilter_def ft_decided_def
    using rng checkEntries_decided [of "ft_entries (rc_table rc)" a]
    by (auto simp: checkEntries_append checkEntries_exact checkEntries_undecided)
qed

section \<open>Properties\<close>

text \<open>
  Loading what \<open>saveTable\<close> wrote restores the filter table: the default action, and every
  entry in order with its address, mask and action. The enabled flag is not in the format, so
  every restored entry is enabled.
\<close>

theorem filter_save_load:
  assumes "ft_ok t" and "ft_saveTable t n = Inr bs"
  shows "ft_loadTable t0 bs =
    (t\<lparr>ft_entries := map (\<lambda>e. e\<lparr>fe_enabled := True\<rparr>) (ft_entries t)\<rparr>, Inr ())"
proof -
  let ?n = "length (ft_entries t)"
  have n: "?n < 65536" using assms(1) by (simp add: ft_ok_def FILTER_MAX_ENTRIES_def)
  have bs: "bs = [byte_of_action (ft_default t), getHighByte (of_nat ?n), getLowByte (of_nat ?n)]
      @ concat (map fe_bytes (ft_entries t))"
    using assms(2) by (simp add: ft_saveTable_def Let_def split: if_splits)
  have act: "action_of_byte (byte_of_action x) = x" for x
    by (cases x) (simp_all add: action_of_byte_def byte_of_action_def)
  have "ft_loadTable t0 bs = (ft_load_loop ?n (concat (map fe_bytes (ft_entries t)))
      (ft_clear (t0\<lparr>ft_default := ft_default t\<rparr>)), Inr ())"
    using n by (simp add: ft_loadTable_def bs act unat_of_nat_u16 concat_fe_bytes_length)
  also have "ft_load_loop ?n (concat (map fe_bytes (ft_entries t)))
      (ft_clear (t0\<lparr>ft_default := ft_default t\<rparr>)) =
      t\<lparr>ft_entries := map (\<lambda>e. e\<lparr>fe_enabled := True\<rparr>) (ft_entries t)\<rparr>"
    using assms(1) by (subst ft_load_loop_entries) (simp_all add: ft_clear_def ft_ok_def)
  finally show ?thesis .
qed

definition sample_filter :: filter_table where
  "sample_filter = \<lparr>ft_entries = [\<lparr>fe_address = 0x0801, fe_mask = 0xFFFF, fe_action = Allow,
     fe_enabled = False\<rparr>], ft_default = Block\<rparr>"

theorem filter_save_load_witness:
  "ft_ok sample_filter \<and>
   ft_loadTable filter_table_init [1, 0, 1, 8, 1, 255, 255, 0] =
     (sample_filter\<lparr>ft_entries := map (\<lambda>e. e\<lparr>fe_enabled := True\<rparr>) (ft_entries sample_filter)\<rparr>, Inr ())"
proof -
  have "ft_ok sample_filter" "ft_saveTable sample_filter 100 = Inr [1, 0, 1, 8, 1, 255, 255, 0]"
    by code_simp+
  then show ?thesis using filter_save_load [of sample_filter 100] by blast
qed

text \<open>
  A disabled filter entry does not survive a save and a reload as disabled: there is a table
  whose blocked address is let through after it was saved and loaded back (the format has no
  enabled field and \<open>loadTable\<close> enables every entry).
\<close>

theorem filter_reload_enables_disabled_entry:
  "\<exists>t bs a. ft_ok t \<and> ft_saveTable t 100 = Inr bs \<and> checkFilter t a = Block \<and>
     checkFilter (fst (ft_loadTable t bs)) a = Allow"
proof -
  have "ft_ok sample_filter" "ft_saveTable sample_filter 100 = Inr [1, 0, 1, 8, 1, 255, 255, 0]"
    "checkFilter sample_filter 0x0801 = Block"
    "checkFilter (fst (ft_loadTable sample_filter [1, 0, 1, 8, 1, 255, 255, 0])) 0x0801 = Allow"
    by code_simp+
  then show ?thesis by blast
qed

text \<open>
  The routing table is restored exactly by \<open>loadTable\<close> from what \<open>saveTable\<close> wrote, whatever
  was in the table before.
\<close>

theorem routing_save_load:
  assumes "length t \<le> ROUTING_MAX_ENTRIES" and "rt_saveTable t n = Inr bs"
  shows "rt_loadTable t0 bs = (t, Inr ())"
proof -
  have len: "length t < 65536" using assms(1) by (simp add: ROUTING_MAX_ENTRIES_def)
  have bs: "bs = [getHighByte (of_nat (length t)), getLowByte (of_nat (length t))]
      @ concat (map re_bytes t)"
    using assms(2) by (simp add: rt_saveTable_def Let_def split: if_splits)
  show ?thesis
    using len assms(1) rt_load_loop_entries [of "[]" t]
    by (simp add: rt_loadTable_def bs unat_of_nat_u16 concat_re_bytes_length)
qed

theorem routing_save_load_witness:
  "rt_loadTable [] [0, 1, 0x12, 0, 0xFF, 0, 6, 1] =
     ([\<lparr>re_destination = 0x1200, re_mask = 0xFF00, re_hopCount = 6, re_enabled = True\<rparr>], Inr ())"
proof -
  have "rt_saveTable [\<lparr>re_destination = 0x1200, re_mask = 0xFF00, re_hopCount = 6,
      re_enabled = True\<rparr>] 8 = Inr [0, 1, 0x12, 0, 0xFF, 0, 6, 1]" by code_simp
  from routing_save_load [OF _ this] show ?thesis by (simp add: ROUTING_MAX_ENTRIES_def)
qed

text \<open>
  \<open>PID_ROUTETABLE_CONTROL\<close> is all or nothing: an invocation that is refused or answered with
  the error code (unknown service, short service info, inverted range, range outside the standard
  space, too few free entries), and every \<open>State_Read\<close>, leaves the filter table and the counter
  exactly as they were.
\<close>

theorem route_control_all_or_nothing:
  assumes "rc_invoke rc how payload = (rc', r)"
    and "how = StateRead \<or> (\<forall>data. r \<noteq> Inr (0x00, data))"
  shows "rc' = rc"
proof (cases how)
  case StateRead
  with assms(1) show ?thesis by (auto simp: rc_invoke_def Let_def split: if_splits)
next
  case Command
  obtain rc2 r2 where ar: "applyRange rc (payload ! 1) (drop 2 payload) = (rc2, r2)" by force
  have "rc2 = rc" if "\<not> isOk r2" using that applyRange_error [of rc _ _ rc2] ar by (cases r2) auto
  with assms Command ar show ?thesis
    by (auto simp: rc_invoke_def Let_def makeResponse_def clearRoutingTable_def setRoutingTable_def
        split: if_splits)
qed

theorem route_control_all_or_nothing_witness:
  "fst (rc_invoke \<lparr>rc_table = filter_table_init, rc_lastAffected = 3\<rparr> Command [0, 4, 0, 9, 0, 5]) =
     \<lparr>rc_table = filter_table_init, rc_lastAffected = 3\<rparr>"
proof -
  let ?r = "rc_invoke \<lparr>rc_table = filter_table_init, rc_lastAffected = 3\<rparr> Command [0, 4, 0, 9, 0, 5]"
  have "snd ?r = Inr (0xFF, [4])" by code_simp
  then show ?thesis by (intro route_control_all_or_nothing [OF prod.collapse [symmetric]]) simp
qed

text \<open>
  A successful range command gives every address of the (clamped) range the requested action,
  unless an entry that was already in the table matches the address: the table is searched first
  match first and new entries go to the end, so an older decision keeps its effect. Addresses
  outside the range keep their decision.
\<close>

theorem route_range_effect:
  assumes "applyRange rc sid info = (rc', Inr ())"
  shows "checkFilter (rc_table rc') a =
    (if ft_decided (rc_table rc) a then checkFilter (rc_table rc) a
     else if word_be (info ! 0) (info ! 1) \<le> a \<and> a \<le> word_be (info ! 2) (info ! 3) \<and> a \<le> 0x6FFF
     then (if sid = 4 then Allow else Block) else ft_default (rc_table rc))"
  using assms by (rule applyRange_effect)

theorem route_range_effect_witness:
  "checkFilter (rc_table (fst (applyRange \<lparr>rc_table = filter_table_init, rc_lastAffected = 0\<rparr>
      3 [8, 1, 8, 3]))) 0x0802 = Block"
proof -
  let ?rc = "\<lparr>rc_table = filter_table_init, rc_lastAffected = 0\<rparr> :: route_control"
  let ?r = "applyRange ?rc 3 [8, 1, 8, 3]"
  have "snd ?r = Inr ()" by code_simp
  then have "?r = (fst ?r, Inr ())" by (metis prod.collapse)
  from route_range_effect [OF this, of "0x0802"] show ?thesis
    by (simp add: ft_decided_def filter_table_init_def word_be_def)
qed

text \<open>
  Setting a group address after clearing it has no effect although both commands answer
  success: on a fresh table, \<open>ClearGroupAddress\<close> followed by \<open>SetGroupAddress\<close> for the same
  address leaves the address blocked, because the older block entry is found first.
\<close>

theorem set_after_clear_still_blocked:
  "\<exists>rc1 rc2. rc_invoke \<lparr>rc_table = filter_table_init, rc_lastAffected = 0\<rparr> Command
       [0, 3, 8, 1, 8, 1] = (rc1, Inr (0, [3])) \<and>
     rc_invoke rc1 Command [0, 4, 8, 1, 8, 1] = (rc2, Inr (0, [4])) \<and>
     checkFilter (rc_table rc2) 0x0801 = Block"
proof -
  let ?r1 = "rc_invoke \<lparr>rc_table = filter_table_init, rc_lastAffected = 0\<rparr> Command [0, 3, 8, 1, 8, 1]"
  let ?r2 = "rc_invoke (fst ?r1) Command [0, 4, 8, 1, 8, 1]"
  have "snd ?r1 = Inr (0, [3])" "snd ?r2 = Inr (0, [4])" "checkFilter (rc_table (fst ?r2)) 0x0801 = Block"
    by code_simp+
  then show ?thesis by (metis prod.collapse)
qed

end
