(* ===== verification/Coupler_Routing.thy ===== *)
theory Coupler_Routing
  imports Frame_Codec Filter_Table
begin

text \<open>
  The routing algorithm of a line or backbone coupler (\<open>src/network/coupler_routing.cpp\<close>,
  \<open>include/knx/network/coupler_routing.hpp\<close>): the two configuration octets, the role derived from
  the coupler's own address, the routing decision for each class of frame, hop-count ageing, and
  the acknowledge and repetition policies. The filter table is the one of \<open>Filter_Table\<close>.
\<close>

section \<open>Data\<close>

datatype routing_action =
  RouteUnmodified | RouteDecremented | RouteLast | ForwardLocally | IgnoreTotally | IgnoreAcked

definition isForwardingAction :: "routing_action \<Rightarrow> bool" where
  "isForwardingAction a \<longleftrightarrow> a = RouteUnmodified \<or> a = RouteDecremented \<or> a = RouteLast"

datatype coupler_role = Repeater | LineCoupler | BackboneCoupler

datatype coupler_port = Primary | Secondary

definition otherPort :: "coupler_port \<Rightarrow> coupler_port" where
  "otherPort p = (if p = Primary then Secondary else Primary)"

datatype frame_class = PointToPoint | Multicast | Broadcast | SystemBroadcast

datatype phys_frame_handling = PhysUnlock | PhysLock | PhysRoute
datatype phys_ack_handling = AckNormal | AckAll | AckNack
datatype group_handling = GroupUnlock | GroupLock | GroupRoute

record line_coupler_config =
  physFrame :: phys_frame_handling
  physRepeat :: bool
  broadcastLock :: bool
  broadcastRepeat :: bool
  groupAckRoutedOnly :: bool
  physAck :: phys_ack_handling

record group_coupler_config =
  group6FFF :: group_handling
  group7000 :: group_handling
  groupRepeat :: bool

datatype ack_policy = Acknowledge | NoAcknowledge | NegativeAcknowledge

text \<open>The policy object. \<open>cp_filter\<close> is the referenced filter table, \<open>None\<close> for the null pointer;
  the two configuration arrays are indexed by the port a frame arrived on.\<close>

record coupler_policy =
  cp_ownAddress :: individual_address
  cp_role :: coupler_role
  cp_filter :: "filter_table option"
  cp_filterInUse :: bool
  cp_line :: "coupler_port \<Rightarrow> line_coupler_config"
  cp_group :: "coupler_port \<Rightarrow> group_coupler_config"

section \<open>Configuration octets\<close>

definition line_config_default :: line_coupler_config where
  "line_config_default = \<lparr>physFrame = PhysRoute, physRepeat = True, broadcastLock = False,
     broadcastRepeat = True, groupAckRoutedOnly = True, physAck = AckNormal\<rparr>"

definition group_config_default :: group_coupler_config where
  "group_config_default =
     \<lparr>group6FFF = GroupRoute, group7000 = GroupUnlock, groupRepeat = True\<rparr>"

definition policy_init :: coupler_policy where
  "policy_init = \<lparr>cp_ownAddress = 0, cp_role = Repeater, cp_filter = None, cp_filterInUse = True,
     cp_line = (\<lambda>_. line_config_default), cp_group = (\<lambda>_. group_config_default)\<rparr>"

fun phys_frame_code :: "phys_frame_handling \<Rightarrow> u8" where
  "phys_frame_code PhysUnlock = 1"
| "phys_frame_code PhysLock = 2"
| "phys_frame_code PhysRoute = 3"

fun phys_ack_code :: "phys_ack_handling \<Rightarrow> u8" where
  "phys_ack_code AckNormal = 1"
| "phys_ack_code AckAll = 2"
| "phys_ack_code AckNack = 3"

fun group_code :: "group_handling \<Rightarrow> u8" where
  "group_code GroupUnlock = 1"
| "group_code GroupLock = 2"
| "group_code GroupRoute = 3"

text \<open>\<open>static_cast\<close> of a non-zero two-bit field.\<close>

definition phys_frame_of :: "u8 \<Rightarrow> phys_frame_handling" where
  "phys_frame_of c = (if c = 1 then PhysUnlock else if c = 2 then PhysLock else PhysRoute)"

definition phys_ack_of :: "u8 \<Rightarrow> phys_ack_handling" where
  "phys_ack_of c = (if c = 1 then AckNormal else if c = 2 then AckAll else AckNack)"

definition group_of :: "u8 \<Rightarrow> group_handling" where
  "group_of c = (if c = 1 then GroupUnlock else if c = 2 then GroupLock else GroupRoute)"

definition lc_decode :: "u8 \<Rightarrow> line_coupler_config" where
  "lc_decode raw =
     (let pf = raw AND 0x03; pa = drop_bit 6 raw AND 0x03 in
      \<lparr>physFrame = (if pf = 0 then PhysRoute else phys_frame_of pf),
       physRepeat = (raw AND 0x04 \<noteq> 0),
       broadcastLock = (raw AND 0x08 \<noteq> 0),
       broadcastRepeat = (raw AND 0x10 \<noteq> 0),
       groupAckRoutedOnly = (raw AND 0x20 \<noteq> 0),
       physAck = (if pa = 0 then AckNormal else phys_ack_of pa)\<rparr>)"

definition lc_encode :: "line_coupler_config \<Rightarrow> u8" where
  "lc_encode c =
     (phys_frame_code (physFrame c) AND 0x03)
     OR (if physRepeat c then 0x04 else 0)
     OR (if broadcastLock c then 0x08 else 0)
     OR (if broadcastRepeat c then 0x10 else 0)
     OR (if groupAckRoutedOnly c then 0x20 else 0)
     OR push_bit 6 (phys_ack_code (physAck c) AND 0x03)"

definition gc_decode :: "u8 \<Rightarrow> group_coupler_config" where
  "gc_decode raw =
     (let lo = raw AND 0x03; hi = drop_bit 2 raw AND 0x03 in
      \<lparr>group6FFF = (if lo = 0 then GroupRoute else group_of lo),
       group7000 = (if hi = 0 then GroupUnlock else group_of hi),
       groupRepeat = (raw AND 0x10 \<noteq> 0)\<rparr>)"

definition gc_encode :: "group_coupler_config \<Rightarrow> u8" where
  "gc_encode c =
     (group_code (group6FFF c) AND 0x03)
     OR push_bit 2 (group_code (group7000 c) AND 0x03)
     OR (if groupRepeat c then 0x10 else 0)"

section \<open>Role and address\<close>

definition subnetworkOf :: "individual_address \<Rightarrow> u8" where
  "subnetworkOf a = ucast (drop_bit 8 a)"

definition lineAndDeviceOf :: "individual_address \<Rightarrow> u16" where
  "lineAndDeviceOf a = a AND 0x0FFF"

definition roleFor :: "individual_address \<Rightarrow> coupler_role" where
  "roleFor a =
     (if ia_device a \<noteq> 0 \<or> ia_area a = 0 then Repeater
      else if ia_line a = 0 then BackboneCoupler else LineCoupler)"

definition cp_setOwnAddress :: "coupler_policy \<Rightarrow> individual_address \<Rightarrow> coupler_policy" where
  "cp_setOwnAddress p a = p\<lparr>cp_ownAddress := a, cp_role := roleFor a\<rparr>"

section \<open>Routing decision\<close>

definition classify :: "ldata_frame \<Rightarrow> frame_class" where
  "classify f =
     (if \<not> isGroupAddress (destinationType f) then PointToPoint
      else if isGroupBroadcastAddress (destination f) then Broadcast else Multicast)"

definition hopAction :: "u8 \<Rightarrow> routing_action" where
  "hopAction h =
     (if h \<ge> 7 then RouteUnmodified else if h > 0 then RouteDecremented else IgnoreAcked)"

fun applyHopCount :: "routing_action \<Rightarrow> u8 \<Rightarrow> u8" where
  "applyHopCount RouteUnmodified h = h"
| "applyHopCount RouteDecremented h = (if h > 0 then h - 1 else 0)"
| "applyHopCount RouteLast h = 0"
| "applyHopCount _ h = h"

definition routePointToPointAsLineCoupler ::
    "coupler_policy \<Rightarrow> coupler_port \<Rightarrow> individual_address \<Rightarrow> u8 \<Rightarrow> routing_action" where
  "routePointToPointAsLineCoupler p origin d h =
     (if origin = Primary then
        (if subnetworkOf d \<noteq> subnetworkOf (cp_ownAddress p) then IgnoreTotally
         else if ia_device d = 0 then ForwardLocally
         else hopAction h)
      else if subnetworkOf d \<noteq> subnetworkOf (cp_ownAddress p) then hopAction h
      else if ia_device d = 0 then ForwardLocally
      else IgnoreTotally)"

definition routePointToPointAsBackboneCoupler ::
    "coupler_policy \<Rightarrow> coupler_port \<Rightarrow> individual_address \<Rightarrow> u8 \<Rightarrow> routing_action" where
  "routePointToPointAsBackboneCoupler p origin d h =
     (if origin = Primary then
        (if ia_area d \<noteq> ia_area (cp_ownAddress p) then IgnoreTotally
         else if lineAndDeviceOf d = 0 then ForwardLocally
         else hopAction h)
      else if ia_area d \<noteq> ia_area (cp_ownAddress p) then hopAction h
      else if lineAndDeviceOf d = 0 then ForwardLocally
      else IgnoreTotally)"

definition decidePointToPoint ::
    "coupler_policy \<Rightarrow> coupler_port \<Rightarrow> ldata_frame \<Rightarrow> routing_action" where
  "decidePointToPoint p origin f =
     (if ia_isValid (cp_ownAddress p) \<and> destination f = cp_ownAddress p then ForwardLocally
      else case physFrame (cp_line p origin) of
        PhysUnlock \<Rightarrow> hopAction (hopCount f)
      | PhysLock \<Rightarrow> IgnoreTotally
      | PhysRoute \<Rightarrow>
          (case cp_role p of
             LineCoupler \<Rightarrow> routePointToPointAsLineCoupler p origin (destination f) (hopCount f)
           | BackboneCoupler \<Rightarrow>
               routePointToPointAsBackboneCoupler p origin (destination f) (hopCount f)
           | Repeater \<Rightarrow> hopAction (hopCount f)))"

definition groupRoutingCondition ::
    "coupler_policy \<Rightarrow> coupler_port \<Rightarrow> group_address \<Rightarrow> bool" where
  "groupRoutingCondition p origin d =
     (case (if d \<le> 0x6FFF then group6FFF (cp_group p origin) else group7000 (cp_group p origin)) of
        GroupUnlock \<Rightarrow> True
      | GroupLock \<Rightarrow> False
      | GroupRoute \<Rightarrow>
          (if \<not> cp_filterInUse p then True
           else case cp_filter p of None \<Rightarrow> True | Some t \<Rightarrow> checkFilter t d = Allow))"

definition decideMulticast ::
    "coupler_policy \<Rightarrow> coupler_port \<Rightarrow> ldata_frame \<Rightarrow> routing_action" where
  "decideMulticast p origin f =
     (if \<not> groupRoutingCondition p origin (destination f) then IgnoreTotally
      else hopAction (hopCount f))"

definition decideBroadcast ::
    "coupler_policy \<Rightarrow> coupler_port \<Rightarrow> ldata_frame \<Rightarrow> routing_action" where
  "decideBroadcast p origin f =
     (if broadcastLock (cp_line p origin) then IgnoreTotally else hopAction (hopCount f))"

definition decideSystemBroadcast :: "ldata_frame \<Rightarrow> routing_action" where
  "decideSystemBroadcast f =
     (if hopCount f \<ge> 7 then RouteUnmodified
      else if hopCount f > 0 then RouteLast else IgnoreAcked)"

fun decideClass ::
    "coupler_policy \<Rightarrow> coupler_port \<Rightarrow> ldata_frame \<Rightarrow> frame_class \<Rightarrow> routing_action" where
  "decideClass p origin f PointToPoint = decidePointToPoint p origin f"
| "decideClass p origin f Multicast = decideMulticast p origin f"
| "decideClass p origin f Broadcast = decideBroadcast p origin f"
| "decideClass p origin f SystemBroadcast = decideSystemBroadcast f"

definition decide :: "coupler_policy \<Rightarrow> coupler_port \<Rightarrow> ldata_frame \<Rightarrow> routing_action" where
  "decide p origin f = decideClass p origin f (classify f)"

section \<open>Acknowledge and repetition\<close>

definition ackPolicy ::
    "coupler_policy \<Rightarrow> coupler_port \<Rightarrow> ldata_frame \<Rightarrow> routing_action \<Rightarrow> ack_policy" where
  "ackPolicy p origin f a =
     (let c = cp_line p origin in
      if classify f = PointToPoint then
        (case physAck c of
           AckNack \<Rightarrow> NegativeAcknowledge
         | AckAll \<Rightarrow> Acknowledge
         | AckNormal \<Rightarrow>
             (if isForwardingAction a \<or> a = ForwardLocally \<or> a = IgnoreAcked
              then Acknowledge else NoAcknowledge))
      else if \<not> groupAckRoutedOnly c then Acknowledge
      else if isForwardingAction a \<or> a = IgnoreAcked then Acknowledge
      else NoAcknowledge)"

definition shouldRepeat :: "coupler_policy \<Rightarrow> coupler_port \<Rightarrow> ldata_frame \<Rightarrow> bool" where
  "shouldRepeat p origin f =
     (case classify f of
        PointToPoint \<Rightarrow> physRepeat (cp_line p origin)
      | Multicast \<Rightarrow> groupRepeat (cp_group p origin)
      | Broadcast \<Rightarrow> broadcastRepeat (cp_line p origin)
      | SystemBroadcast \<Rightarrow> broadcastRepeat (cp_line p origin))"

section \<open>Lemmas\<close>

lemmas decide_defs = decide_def classify_def decidePointToPoint_def decideMulticast_def
  decideBroadcast_def decideSystemBroadcast_def

lemma otherPort_other [simp]: "otherPort (otherPort p) = p" "otherPort p \<noteq> p"
  by (cases p; simp add: otherPort_def)+

lemma hopAction_cases:
  "hopAction h = RouteUnmodified \<or> hopAction h = RouteDecremented \<or> hopAction h = IgnoreAcked"
  by (simp add: hopAction_def)

lemma hopAction_forwards: "isForwardingAction (hopAction h) \<longleftrightarrow> h \<noteq> 0"
  by (auto simp: hopAction_def isForwardingAction_def word_gt_0)

lemma hopAction_not_local [simp]: "hopAction h \<noteq> ForwardLocally" "hopAction h \<noteq> RouteLast"
    "hopAction h \<noteq> IgnoreTotally"
  by (simp_all add: hopAction_def)

lemma word_dec_less: "0 < (h :: 'a :: len word) \<Longrightarrow> h - 1 < h"
  by (metis less_numeral_extra(3) measure_unat unat_minus_one word_less_nat_alt diff_Suc_less word_gt_0 unat_gt_0)

lemma ackPolicy_NegativeAcknowledge:
  "ackPolicy p origin f a = NegativeAcknowledge \<longleftrightarrow>
     classify f = PointToPoint \<and> physAck (cp_line p origin) = AckNack"
  by (simp add: ackPolicy_def Let_def split: phys_ack_handling.split)

text \<open>An address is determined by its subnetwork and device parts, and by its area and the
  combined line and device part.\<close>

lemma ia_area_subnetwork: "ia_area a = drop_bit 4 (subnetworkOf a)"
  by (rule word8_eqI) (simp_all add: ia_area_def subnetworkOf_def bit_simps)

lemma ia_line_subnetwork: "ia_line a = subnetworkOf a AND 0x0F"
  by (rule word8_eqI) (simp_all add: ia_line_def subnetworkOf_def bit_simps)

lemma ia_line_lineAndDevice: "ia_line a = ucast (drop_bit 8 (lineAndDeviceOf a))"
  by (rule word8_eqI) (simp_all add: ia_line_def lineAndDeviceOf_def bit_simps)

lemma ia_device_lineAndDevice: "ia_device a = ucast (lineAndDeviceOf a)"
  by (rule word8_eqI) (simp_all add: ia_device_def lineAndDeviceOf_def bit_simps)

lemma ia_eqI: "ia_area a = ia_area b \<Longrightarrow> ia_line a = ia_line b \<Longrightarrow> ia_device a = ia_device b \<Longrightarrow> a = b"
  by (metis ia_parts_roundtrip)

lemma line_coupler_own:
  "roleFor a = LineCoupler \<Longrightarrow> subnetworkOf d = subnetworkOf a \<Longrightarrow> ia_device d = 0 \<Longrightarrow> d = a"
  by (rule ia_eqI) (auto simp: ia_area_subnetwork ia_line_subnetwork roleFor_def split: if_splits)

lemma backbone_coupler_own:
  "roleFor a = BackboneCoupler \<Longrightarrow> ia_area d = ia_area a \<Longrightarrow> lineAndDeviceOf d = 0 \<Longrightarrow> d = a"
  by (rule ia_eqI)
    (auto simp: ia_line_lineAndDevice [of d] ia_device_lineAndDevice [of d] roleFor_def split: if_splits)

text \<open>The subnetwork below the coupler: the own line of a line coupler, the own area of a
  backbone coupler.\<close>

definition below_coupler :: "individual_address \<Rightarrow> individual_address \<Rightarrow> bool" where
  "below_coupler own d =
     (case roleFor own of
        LineCoupler \<Rightarrow> ia_area d = ia_area own \<and> ia_line d = ia_line own
      | BackboneCoupler \<Rightarrow> ia_area d = ia_area own
      | Repeater \<Rightarrow> False)"

lemma subnetwork_eq_iff:
  "subnetworkOf a = subnetworkOf b \<longleftrightarrow> ia_area a = ia_area b \<and> ia_line a = ia_line b"
proof
  assume h: "ia_area a = ia_area b \<and> ia_line a = ia_line b"
  have "push_bit 4 (ia_area x) OR ia_line x = subnetworkOf x" for x
    by (rule word8_eqI) (simp_all add: ia_area_def ia_line_def subnetworkOf_def bit_simps)
  with h show "subnetworkOf a = subnetworkOf b" by metis
qed (simp add: ia_area_subnetwork ia_line_subnetwork)

lemma role_ownAddress_valid: "roleFor a \<noteq> Repeater \<Longrightarrow> ia_isValid a"
proof -
  assume r: "roleFor a \<noteq> Repeater"
  have "a \<noteq> 0" "a \<noteq> 0xFFFF"
    using r by (auto simp: roleFor_def ia_area_def ia_device_def)
  then show ?thesis by (simp add: ia_isValid_def)
qed

lemma decide_routed:
  assumes "roleFor own \<noteq> Repeater" "classify f = PointToPoint" "destination f \<noteq> own"
    and "physFrame (cp_line p origin) = PhysRoute"
  shows "decide (cp_setOwnAddress p own) origin f =
    (if (origin = Primary) = below_coupler own (destination f) then hopAction (hopCount f)
     else IgnoreTotally)"
  using assms line_coupler_own [of own "destination f"] backbone_coupler_own [of own "destination f"]
  by (cases "roleFor own"; cases origin)
    (auto simp: decide_def decidePointToPoint_def cp_setOwnAddress_def below_coupler_def
      routePointToPointAsLineCoupler_def routePointToPointAsBackboneCoupler_def subnetwork_eq_iff)

section \<open>Properties\<close>

text \<open>
  The configuration octets of a coupler survive encoding and decoding: \<open>decode\<close> of \<open>encode\<close>
  is the configuration, for both the line and the group configuration, and the octets the header
  documents as defaults decode to the default configurations.
\<close>

theorem coupler_config_roundtrip:
  "lc_decode (lc_encode c) = c \<and> gc_decode (gc_encode g) = g \<and>
   lc_decode 0x77 = line_config_default \<and> gc_decode 0x17 = group_config_default"
proof (intro conjI)
  obtain pf r l br ga pa where c: "c = \<lparr>physFrame = pf, physRepeat = r, broadcastLock = l,
      broadcastRepeat = br, groupAckRoutedOnly = ga, physAck = pa\<rparr>" by (cases c)
  show "lc_decode (lc_encode c) = c"
    unfolding c by (cases pf; cases pa; cases r; cases l; cases br; cases ga)
      (simp_all add: lc_decode_def lc_encode_def phys_frame_of_def phys_ack_of_def Let_def)
  obtain lo hi rp where g: "g = \<lparr>group6FFF = lo, group7000 = hi, groupRepeat = rp\<rparr>" by (cases g)
  show "gc_decode (gc_encode g) = g"
    unfolding g by (cases lo; cases hi; cases rp)
      (simp_all add: gc_decode_def gc_encode_def group_of_def Let_def)
qed code_simp+

text \<open>
  C14. Loop freedom between the two sides of a line or backbone coupler: with the role derived from
  its own address and both sides set to route, an individually addressed frame that is not for the
  coupler itself and still has a hop count crosses in exactly one direction. It crosses from the
  primary side exactly when its destination lies below the coupler, so what was forwarded is never
  forwarded back.
\<close>

theorem coupler_one_direction:
  assumes "roleFor own \<noteq> Repeater"
    and "physFrame (cp_line p Primary) = PhysRoute" "physFrame (cp_line p Secondary) = PhysRoute"
    and "classify f = PointToPoint" "destination f \<noteq> own" "hopCount f \<noteq> 0"
  shows "(isForwardingAction (decide (cp_setOwnAddress p own) origin f) \<longleftrightarrow>
            (origin = Primary) = below_coupler own (destination f)) \<and>
         (isForwardingAction (decide (cp_setOwnAddress p own) origin f) \<longleftrightarrow>
            \<not> isForwardingAction (decide (cp_setOwnAddress p own) (otherPort origin) f))"
proof -
  have r: "physFrame (cp_line p o') = PhysRoute" for o' using assms(2, 3) by (cases o') simp_all
  note d = decide_routed [OF assms(1, 4, 5) r]
  have fw: "isForwardingAction (hopAction (hopCount f))" using assms(6) by (simp add: hopAction_forwards)
  have it: "\<not> isForwardingAction IgnoreTotally" by (simp add: isForwardingAction_def)
  show ?thesis using fw it by (cases origin) (simp_all add: d otherPort_def)
qed

theorem coupler_one_direction_witness:
  "isForwardingAction (decide (cp_setOwnAddress policy_init 0x1100) Primary
      (ldata_frame_init\<lparr>destination := 0x1105, destinationType := Individual\<rparr>)) \<and>
   \<not> isForwardingAction (decide (cp_setOwnAddress policy_init 0x1100) Secondary
      (ldata_frame_init\<lparr>destination := 0x1105, destinationType := Individual\<rparr>))"
proof -
  let ?f = "ldata_frame_init\<lparr>destination := 0x1105, destinationType := Individual\<rparr>"
  have h: "roleFor 0x1100 \<noteq> Repeater" "classify ?f = PointToPoint" "destination ?f \<noteq> 0x1100"
    "hopCount ?f \<noteq> 0" "below_coupler 0x1100 (destination ?f)"
    by code_simp+
  have c: "physFrame (cp_line policy_init o') = PhysRoute" for o'
    by (simp add: policy_init_def line_config_default_def)
  show ?thesis
    using coupler_one_direction [OF h(1) c c h(2, 3, 4), of Primary] h(5) by (auto simp: otherPort_def)
qed

text \<open>
  A locked coupler stays reachable and closed: a frame to the coupler's own valid address is
  delivered locally on either side under every configuration and role, and while \<open>PHYS_LOCK\<close> is
  set on a side no other individually addressed frame from that side is forwarded or delivered.
\<close>

theorem locked_coupler_reachable:
  assumes "ia_isValid (cp_ownAddress p)" "classify f = PointToPoint"
  shows "(destination f = cp_ownAddress p \<longrightarrow> decide p origin f = ForwardLocally) \<and>
    (destination f \<noteq> cp_ownAddress p \<longrightarrow> physFrame (cp_line p origin) = PhysLock \<longrightarrow>
       decide p origin f = IgnoreTotally)"
  using assms by (simp add: decide_def decidePointToPoint_def)

definition locked_policy :: coupler_policy where
  "locked_policy = (cp_setOwnAddress policy_init 0x1100)
     \<lparr>cp_line := (\<lambda>_. line_config_default\<lparr>physFrame := PhysLock\<rparr>)\<rparr>"

theorem locked_coupler_reachable_witness:
  "decide locked_policy Primary
     (ldata_frame_init\<lparr>destination := 0x1100, destinationType := Individual\<rparr>) = ForwardLocally \<and>
   decide locked_policy Primary
     (ldata_frame_init\<lparr>destination := 0x1105, destinationType := Individual\<rparr>) = IgnoreTotally"
proof -
  let ?f = "\<lambda>d. ldata_frame_init\<lparr>destination := d, destinationType := Individual\<rparr>"
  have v: "ia_isValid (cp_ownAddress locked_policy)" by code_simp
  have c: "classify (?f d) = PointToPoint" for d by (simp add: classify_def isGroupAddress_def)
  have o: "cp_ownAddress locked_policy = 0x1100" "physFrame (cp_line locked_policy Primary) = PhysLock"
    by (simp_all add: locked_policy_def cp_setOwnAddress_def)
  show ?thesis
    using locked_coupler_reachable [OF v c, of "0x1100" Primary]
      locked_coupler_reachable [OF v c, of "0x1105" Primary] o by simp
qed

text \<open>
  What is forwarded is acknowledged: a frame the decision forwards (or that only its spent
  hop count stopped) gets a positive acknowledge, unless the side is configured to refuse
  individually addressed frames with NACK.
\<close>

theorem forwarded_is_acknowledged:
  assumes "isForwardingAction (decide p origin f) \<or> decide p origin f = IgnoreAcked"
  shows "ackPolicy p origin f (decide p origin f) =
    (if classify f = PointToPoint \<and> physAck (cp_line p origin) = AckNack
     then NegativeAcknowledge else Acknowledge)"
  using assms by (cases "physAck (cp_line p origin)") (auto simp: ackPolicy_def Let_def)

theorem forwarded_is_acknowledged_witness:
  "ackPolicy policy_init Secondary (ldata_frame_init\<lparr>destination := 0x0901\<rparr>)
     (decide policy_init Secondary (ldata_frame_init\<lparr>destination := 0x0901\<rparr>)) = Acknowledge"
proof -
  let ?f = "ldata_frame_init\<lparr>destination := 0x0901\<rparr>"
  have "isForwardingAction (decide policy_init Secondary ?f)" "classify ?f \<noteq> PointToPoint"
    by code_simp+
  then show ?thesis using forwarded_is_acknowledged [of policy_init Secondary ?f] by simp
qed

end
