(* ===== verification/Two_Port_Coupler.thy ===== *)
theory Two_Port_Coupler
  imports Coupler_Routing
begin

text \<open>
  The two-port coupler (\<open>src/network/two_port_coupler.cpp\<close>): reception on either port, echo
  suppression by a ring of the last sixteen frame hashes per port, local delivery, and forwarding
  with an aged hop count. The two data links and the observer callbacks are outputs: a reception
  returns the new coupler and the list of what it did, in the order the code does it.
\<close>

section \<open>State\<close>

definition kRecentHashCapacity :: nat where "kRecentHashCapacity = 16"

record recent_hashes =
  rh_values :: "u64 list"
  rh_count :: nat
  rh_next :: nat

definition recent_init :: recent_hashes where
  "recent_init = \<lparr>rh_values = replicate kRecentHashCapacity 0, rh_count = 0, rh_next = 0\<rparr>"

definition rh_contains :: "recent_hashes \<Rightarrow> u64 \<Rightarrow> bool" where
  "rh_contains r h = list_ex (\<lambda>v. v = h) (take (rh_count r) (rh_values r))"

definition rh_remember :: "recent_hashes \<Rightarrow> u64 \<Rightarrow> recent_hashes" where
  "rh_remember r h =
     r\<lparr>rh_values := (rh_values r)[rh_next r := h],
       rh_next := (rh_next r + 1) mod kRecentHashCapacity,
       rh_count := (if rh_count r < kRecentHashCapacity then rh_count r + 1 else rh_count r)\<rparr>"

text \<open>The policy's filter pointer is the coupler's own table, so the table lives in
  \<open>cp_filter\<close>. The callback fields say which observers are installed.\<close>

record two_port =
  tp_initialized :: bool
  tp_routingEnabled :: bool
  tp_policy :: coupler_policy
  tp_routingTable :: routing_table
  tp_recentPrimary :: recent_hashes
  tp_recentSecondary :: recent_hashes
  tp_onForwarded :: bool
  tp_onFiltered :: bool
  tp_onDropped :: bool
  tp_onLocalDelivery :: bool
  tp_onAckPolicy :: bool

datatype coupler_event =
    SendFrame coupler_port ldata_frame
  | AckPolicyReported coupler_port ack_policy
  | LocalDelivery coupler_port ldata_frame
  | FrameForwarded coupler_port
  | FrameFiltered coupler_port
  | FrameDropped coupler_port
  | SetPromiscuous coupler_port
  | SetLinkAddress coupler_port individual_address

definition two_port_init :: two_port where
  "two_port_init =
     \<lparr>tp_initialized = False, tp_routingEnabled = True,
      tp_policy = policy_init\<lparr>cp_filter := Some filter_table_init\<rparr>, tp_routingTable = [],
      tp_recentPrimary = recent_init, tp_recentSecondary = recent_init,
      tp_onForwarded = False, tp_onFiltered = False, tp_onDropped = False,
      tp_onLocalDelivery = False, tp_onAckPolicy = False\<rparr>"

section \<open>Operations\<close>

definition tp_init :: "two_port \<Rightarrow> two_port \<times> coupler_event list" where
  "tp_init c =
     (if tp_initialized c then (c, [])
      else (c\<lparr>tp_initialized := True\<rparr>, [SetPromiscuous Primary, SetPromiscuous Secondary]))"

definition tp_close :: "two_port \<Rightarrow> two_port" where
  "tp_close c = (if \<not> tp_initialized c then c else c\<lparr>tp_initialized := False\<rparr>)"

definition tp_setOwnAddress ::
    "two_port \<Rightarrow> individual_address \<Rightarrow> two_port \<times> coupler_event list" where
  "tp_setOwnAddress c a =
     (c\<lparr>tp_policy := cp_setOwnAddress (tp_policy c) a\<rparr>,
      [SetLinkAddress Primary a, SetLinkAddress Secondary a])"

definition recentFor :: "two_port \<Rightarrow> coupler_port \<Rightarrow> recent_hashes" where
  "recentFor c p = (if p = Primary then tp_recentPrimary c else tp_recentSecondary c)"

definition fnv_mix :: "u8 \<Rightarrow> u64 \<Rightarrow> u64" where
  "fnv_mix b h = (h XOR ucast b) * 1099511628211"

definition hashFrame :: "ldata_frame \<Rightarrow> u64" where
  "hashFrame f =
     (case encodeFrame f 32 of
        Inr bs \<Rightarrow> fold fnv_mix bs 14695981039346656037
      | Inl _ \<Rightarrow>
          fold fnv_mix
            ([ucast (drop_bit 8 (source f) AND 0xFF), ucast (source f AND 0xFF),
              ucast (drop_bit 8 (destination f) AND 0xFF), ucast (destination f AND 0xFF),
              (if isGroupAddress (destinationType f) then 1 else 0), hopCount f] @ tpdu f)
            14695981039346656037)"

definition shouldDropDueToRecent :: "two_port \<Rightarrow> coupler_port \<Rightarrow> u64 \<Rightarrow> bool" where
  "shouldDropDueToRecent c p h = rh_contains (recentFor c p) h"

definition rememberSentTo :: "two_port \<Rightarrow> coupler_port \<Rightarrow> u64 \<Rightarrow> two_port" where
  "rememberSentTo c p h =
     (if p = Primary then c\<lparr>tp_recentPrimary := rh_remember (tp_recentPrimary c) h\<rparr>
      else c\<lparr>tp_recentSecondary := rh_remember (tp_recentSecondary c) h\<rparr>)"

definition forwarded_frame :: "routing_action \<Rightarrow> ldata_frame \<Rightarrow> ldata_frame" where
  "forwarded_frame a f = f\<lparr>hopCount := applyHopCount a (hopCount f), repeated := False\<rparr>"

definition tp_forward ::
    "two_port \<Rightarrow> coupler_port \<Rightarrow> ldata_frame \<Rightarrow> routing_action \<Rightarrow> two_port \<times> coupler_event list" where
  "tp_forward c origin f a =
     (if \<not> tp_routingEnabled c then (c, [])
      else let fwd = forwarded_frame a f; out = otherPort origin in
        (rememberSentTo c out (hashFrame fwd),
         SendFrame out fwd # (if tp_onForwarded c then [FrameForwarded origin] else [])))"

definition applyAction ::
    "two_port \<Rightarrow> coupler_port \<Rightarrow> ldata_frame \<Rightarrow> routing_action \<Rightarrow> two_port \<times> coupler_event list" where
  "applyAction c origin f a =
     (case a of
        ForwardLocally \<Rightarrow> (c, [])
      | IgnoreTotally \<Rightarrow> (c, if tp_onFiltered c then [FrameFiltered origin] else [])
      | IgnoreAcked \<Rightarrow> (c, if tp_onDropped c then [FrameDropped origin] else [])
      | RouteUnmodified \<Rightarrow> tp_forward c origin f a
      | RouteDecremented \<Rightarrow> tp_forward c origin f a
      | RouteLast \<Rightarrow> tp_forward c origin f a)"

definition tp_handleRx ::
    "two_port \<Rightarrow> coupler_port \<Rightarrow> ldata_frame \<Rightarrow> two_port \<times> coupler_event list" where
  "tp_handleRx c origin f =
     (if \<not> tp_initialized c then (c, [])
      else if shouldDropDueToRecent c origin (hashFrame f) then (c, [])
      else let a = decide (tp_policy c) origin f;
               ack = (if tp_onAckPolicy c
                      then [AckPolicyReported origin (ackPolicy (tp_policy c) origin f a)] else []);
               loc = (if tp_onLocalDelivery c
                          \<and> (a = ForwardLocally \<or> isGroupAddress (destinationType f))
                      then [LocalDelivery origin f] else []) in
        (case applyAction c origin f a of (c', evs) \<Rightarrow> (c', ack @ loc @ evs)))"

section \<open>Lemmas\<close>

definition rh_ok :: "recent_hashes \<Rightarrow> bool" where
  "rh_ok r \<longleftrightarrow> length (rh_values r) = kRecentHashCapacity \<and> rh_next r < kRecentHashCapacity \<and>
     rh_count r \<le> kRecentHashCapacity \<and>
     (rh_count r < kRecentHashCapacity \<longrightarrow> rh_next r = rh_count r)"

definition tp_ok :: "two_port \<Rightarrow> bool" where
  "tp_ok c \<longleftrightarrow> rh_ok (tp_recentPrimary c) \<and> rh_ok (tp_recentSecondary c)"

lemma rh_init_ok [simp]: "rh_ok recent_init"
  by (simp add: rh_ok_def recent_init_def kRecentHashCapacity_def)

lemma rh_remember_ok [simp]: "rh_ok r \<Longrightarrow> rh_ok (rh_remember r h)"
  by (auto simp: rh_ok_def rh_remember_def kRecentHashCapacity_def mod_Suc)

lemma rh_remember_contains: "rh_ok r \<Longrightarrow> rh_contains (rh_remember r h) h"
  unfolding rh_ok_def rh_contains_def list_ex_iff in_set_conv_nth Bex_def
  by (rule exI [of _ h], rule conjI [OF exI [of _ "rh_next r"]])
    (auto simp: rh_remember_def kRecentHashCapacity_def)

lemma tp_forward_ok: "tp_ok c \<Longrightarrow> tp_ok (fst (tp_forward c p f a))"
  by (simp add: tp_forward_def tp_ok_def rememberSentTo_def Let_def)

lemma applyAction_ok: "tp_ok c \<Longrightarrow> tp_ok (fst (applyAction c p f a))"
  by (cases a) (simp_all add: applyAction_def tp_forward_ok)

lemma tp_handleRx_ok: "tp_ok c \<Longrightarrow> tp_ok (fst (tp_handleRx c p f))"
  by (simp add: tp_handleRx_def Let_def applyAction_ok case_prod_beta)

lemma tp_forward_keeps:
  "tp_initialized (fst (tp_forward c p f a)) = tp_initialized c"
  "tp_policy (fst (tp_forward c p f a)) = tp_policy c"
  "tp_routingEnabled (fst (tp_forward c p f a)) = tp_routingEnabled c"
  by (simp_all add: tp_forward_def rememberSentTo_def Let_def)

lemma handleRx_sends:
  "SendFrame out g \<in> set (snd (tp_handleRx c origin f)) \<longleftrightarrow>
     tp_initialized c \<and> tp_routingEnabled c \<and> \<not> rh_contains (recentFor c origin) (hashFrame f) \<and>
     out = otherPort origin \<and> isForwardingAction (decide (tp_policy c) origin f) \<and>
     g = forwarded_frame (decide (tp_policy c) origin f) f"
  by (cases "decide (tp_policy c) origin f")
    (auto simp: tp_handleRx_def Let_def applyAction_def tp_forward_def shouldDropDueToRecent_def
      isForwardingAction_def split: if_splits)

lemma forwarding_hop:
  assumes "isForwardingAction (decide p origin f)" "hopCount f \<le> 7"
  shows "hopCount f < 7 \<Longrightarrow> unat (hopCount (forwarded_frame (decide p origin f) f)) + 1 = unat (hopCount f)"
    and "hopCount f = 7 \<Longrightarrow> hopCount (forwarded_frame (decide p origin f) f) = 7"
proof -
  have h: "decide p origin f = hopAction (hopCount f)"
    using assms(1)
    by (auto simp: decide_def classify_def decidePointToPoint_def decideMulticast_def
        decideBroadcast_def routePointToPointAsLineCoupler_def
        routePointToPointAsBackboneCoupler_def isForwardingAction_def
        split: if_splits phys_frame_handling.splits coupler_role.splits)
  have "hopCount f \<noteq> 0" using assms(1) by (simp add: h hopAction_forwards)
  then show "hopCount f < 7 \<Longrightarrow> unat (hopCount (forwarded_frame (decide p origin f) f)) + 1 = unat (hopCount f)"
    by (auto simp: forwarded_frame_def h hopAction_def word_gt_0 unat_minus_one unat_gt_0)
  show "hopCount f = 7 \<Longrightarrow> hopCount (forwarded_frame (decide p origin f) f) = 7"
    by (simp add: forwarded_frame_def h hopAction_def)
qed

text \<open>A frame carried through a chain of couplers, each receiving on one port what the previous one
  sent.\<close>

inductive carried :: "(two_port \<times> coupler_port) list \<Rightarrow> ldata_frame \<Rightarrow> ldata_frame \<Rightarrow> bool" where
  carried_none: "carried [] f f"
| carried_hop: "SendFrame out g \<in> set (snd (tp_handleRx c origin f)) \<Longrightarrow> carried cs g h \<Longrightarrow>
    carried ((c, origin) # cs) f h"

inductive_simps carried_Nil: "carried [] f h"
inductive_simps carried_Cons: "carried ((c, origin) # cs) f h"

section \<open>Properties\<close>

text \<open>
  C18. Echo suppression: when the coupler forwards a frame onto a port and that same frame is then
  received on that port (its own transmission coming back off the bus), the coupler does nothing:
  no delivery, no acknowledge report, no forwarding, no change of state.
\<close>

theorem echo_suppressed:
  assumes "tp_ok c" and "tp_handleRx c origin f = (c', evs)" and "SendFrame out g \<in> set evs"
  shows "tp_handleRx c' out g = (c', []) \<and> tp_ok c'"
proof -
  let ?a = "decide (tp_policy c) origin f"
  have sent: "tp_routingEnabled c" "out = otherPort origin" "isForwardingAction ?a"
    "g = forwarded_frame ?a f" "tp_initialized c" "\<not> rh_contains (recentFor c origin) (hashFrame f)"
    using handleRx_sends [of out g c origin f] assms(2, 3) by auto
  then have c': "c' = rememberSentTo c out (hashFrame g)"
    using assms(2) by (cases ?a) (auto simp: tp_handleRx_def Let_def shouldDropDueToRecent_def
        applyAction_def tp_forward_def isForwardingAction_def)
  have "rh_contains (recentFor c' out) (hashFrame g)"
    using assms(1) by (auto simp: c' rememberSentTo_def recentFor_def tp_ok_def rh_remember_contains)
  moreover have "tp_ok c'" using tp_handleRx_ok [OF assms(1), of origin f] assms(2) by simp
  ultimately show ?thesis by (simp add: tp_handleRx_def shouldDropDueToRecent_def)
qed

definition sample_coupler :: two_port where
  "sample_coupler = two_port_init\<lparr>tp_initialized := True,
     tp_policy := cp_setOwnAddress (tp_policy two_port_init) 0x1100\<rparr>"

definition sample_group_frame :: ldata_frame where
  "sample_group_frame = ldata_frame_init\<lparr>source := 0x1105, destination := 0x0901, tpdu := [0, 0x81]\<rparr>"

definition sample_forwarded :: ldata_frame where
  "sample_forwarded = sample_group_frame\<lparr>hopCount := 5\<rparr>"

lemma sample_coupler_sends:
  "SendFrame Primary sample_forwarded \<in> set (snd (tp_handleRx sample_coupler Secondary sample_group_frame))"
  by code_simp

theorem echo_suppressed_witness:
  "snd (tp_handleRx (fst (tp_handleRx sample_coupler Secondary sample_group_frame))
     Primary sample_forwarded) = []"
proof -
  have "tp_ok sample_coupler" by code_simp
  from echo_suppressed [OF this prod.collapse [symmetric] sample_coupler_sends]
  show ?thesis by simp
qed

text \<open>
  C24. Hop budget: however many couplers carry a frame, one with a hop count below 7 loses exactly
  one per coupler, so it is carried by at most as many couplers as its hop count says; a frame with
  the unlimited value 7 keeps it. The addresses, the priority and the TPDU arrive unchanged.
\<close>

theorem hop_budget:
  assumes "carried cs f h" "hopCount f \<le> 7"
  shows "(if hopCount f = 7 then hopCount h = 7 else unat (hopCount h) + length cs = unat (hopCount f)) \<and>
    source h = source f \<and> destination h = destination f \<and> destinationType h = destinationType f \<and>
    ldata_frame.priority h = ldata_frame.priority f \<and> tpdu h = tpdu f"
  using assms
proof (induction rule: carried.induct)
  case (carried_hop out g c origin f cs h)
  then have s: "isForwardingAction (decide (tp_policy c) origin f)"
    "g = forwarded_frame (decide (tp_policy c) origin f) f"
    using handleRx_sends [of out g c origin f] by auto
  note fh = forwarding_hop [OF s(1) carried_hop.prems]
  show ?case
  proof (cases "hopCount f = 7")
    case True
    with fh(2) carried_hop.IH s(2) show ?thesis by (simp add: forwarded_frame_def)
  next
    case False
    then have "hopCount f < 7" using carried_hop.prems by simp
    from fh(1) [OF this] this have "unat (hopCount g) + 1 = unat (hopCount f)" "hopCount g < 7"
      by (auto simp: s(2) word_less_nat_alt)
    with False carried_hop.IH s(2) show ?thesis by (auto simp: forwarded_frame_def)
  qed
qed simp

theorem hop_budget_witness:
  "unat (hopCount sample_forwarded) + 1 = unat (hopCount sample_group_frame) \<and>
   tpdu sample_forwarded = tpdu sample_group_frame"
proof -
  have "carried [(sample_coupler, Secondary)] sample_group_frame sample_forwarded"
    using sample_coupler_sends by (auto intro: carried.intros)
  from hop_budget [OF this] show ?thesis
    by (simp add: sample_group_frame_def ldata_frame_init_def)
qed

text \<open>
  The suppression does not cover a repetition: the hash covers the control octet with its
  repeat flag, so when the link repeats a forwarded group frame the coupler does not recognise the
  repetition on that port as its own and sends the frame back to the side it came from.
\<close>

theorem repeated_echo_forwarded_back:
  "\<exists>c f g h. tp_ok c \<and> SendFrame Primary g \<in> set (snd (tp_handleRx c Secondary f)) \<and>
     SendFrame Secondary h \<in>
       set (snd (tp_handleRx (fst (tp_handleRx c Secondary f)) Primary (g\<lparr>repeated := True\<rparr>)))"
proof -
  have "tp_ok sample_coupler" by code_simp
  moreover have "SendFrame Secondary (sample_forwarded\<lparr>hopCount := 4\<rparr>) \<in>
      set (snd (tp_handleRx (fst (tp_handleRx sample_coupler Secondary sample_group_frame)) Primary
        (sample_forwarded\<lparr>repeated := True\<rparr>)))" by code_simp
  ultimately show ?thesis using sample_coupler_sends by blast
qed

text \<open>
  The filter download decides what crosses: after \<open>ClearRoutingTable\<close> and one successful
  \<open>SetGroupAddress\<close> range, a coupler that routes standard group addresses by its filter table
  forwards a group frame with hop count left exactly when its address lies in the range.
\<close>

theorem filter_download_decides:
  assumes "applyRange (fst (clearRoutingTable rc)) 4 info = (rc', Inr ())"
    and "cp_filter p = Some (rc_table rc')" "cp_filterInUse p"
    and "group6FFF (cp_group p origin) = GroupRoute"
    and "destinationType f = Group" "destination f \<noteq> 0" "destination f \<le> 0x6FFF" "hopCount f \<noteq> 0"
  shows "isForwardingAction (decide p origin f) \<longleftrightarrow>
    word_be (info ! 0) (info ! 1) \<le> destination f \<and> destination f \<le> word_be (info ! 2) (info ! 3)"
proof -
  have "classify f = Multicast"
    using assms(5, 6) by (simp add: classify_def isGroupAddress_def isGroupBroadcastAddress_def)
  moreover have "checkFilter (rc_table rc') (destination f) = Allow \<longleftrightarrow>
      word_be (info ! 0) (info ! 1) \<le> destination f \<and> destination f \<le> word_be (info ! 2) (info ! 3)"
    using applyRange_effect [OF assms(1), of "destination f"] assms(7)
    by (simp add: clearRoutingTable_def ft_decided_def ft_clear_def ft_setDefaultAction_def)
  moreover have "\<not> isForwardingAction IgnoreTotally" by (simp add: isForwardingAction_def)
  ultimately show ?thesis
    using assms hopAction_forwards [of "hopCount f"]
    by (simp add: decide_def decideMulticast_def groupRoutingCondition_def)
qed

theorem filter_download_decides_witness:
  "isForwardingAction (decide (policy_init\<lparr>cp_filter := Some (rc_table (fst (applyRange
       (fst (clearRoutingTable \<lparr>rc_table = filter_table_init, rc_lastAffected = 0\<rparr>)) 4 [9, 0, 9, 3])))\<rparr>)
     Primary sample_group_frame)"
proof -
  let ?r = "applyRange (fst (clearRoutingTable \<lparr>rc_table = filter_table_init, rc_lastAffected = 0\<rparr>))
    4 [9, 0, 9, 3]"
  have "snd ?r = Inr ()" by code_simp
  then have r: "?r = (fst ?r, Inr ())" by (metis prod.collapse)
  show ?thesis
    using filter_download_decides [OF r, of "policy_init\<lparr>cp_filter := Some (rc_table (fst ?r))\<rparr>"
        Primary sample_group_frame]
    by (simp add: policy_init_def group_config_default_def sample_group_frame_def
        ldata_frame_init_def word_be_def)
qed

end
