(* ===== verification/Netip_Codec.thy ===== *)
theory Netip_Codec
  imports Frame_Codec Interfaces
begin

text \<open>
  The KNXnet/IP packet formats: IPv4 addresses (\<open>IpAddress\<close> of \<open>types.hpp\<close>), the packet writer of
  \<open>netip/datagram_scratch.hpp\<close>, the common header (\<open>src/netip/header_codec.cpp\<close>), the control and
  tunnelling packets (\<open>netip/control_packet_codec.hpp\<close>, \<open>netip/tunneling_control_builder.hpp\<close>)
  and the cEMI form of an L_Data frame (\<open>src/netip/cemi.cpp\<close>). Every encoder is shown to be undone
  by its decoder, whatever the scratch buffer held before, and the cEMI decoder's reads are
  characterised exactly.
\<close>

section \<open>IPv4 addresses (types.hpp)\<close>

text \<open>\<open>IpAddress\<close> keeps its four octets in memory order; the code compares the value, tests it for
  zero and copies the octets, so the model is the octets.\<close>

type_synonym ip_address = "u8 \<times> u8 \<times> u8 \<times> u8"

definition ip_zero :: ip_address where "ip_zero = (0, 0, 0, 0)"

definition ip_isZero :: "ip_address \<Rightarrow> bool" where "ip_isZero a \<longleftrightarrow> a = (0, 0, 0, 0)"

definition ip_fromOctets :: "u8 \<Rightarrow> u8 \<Rightarrow> u8 \<Rightarrow> u8 \<Rightarrow> ip_address" where
  "ip_fromOctets a b c d = (a, b, c, d)"

fun ip_toOctets :: "ip_address \<Rightarrow> bytes" where
  "ip_toOctets (a, b, c, d) = [a, b, c, d]"

definition ip_isLoopback :: "ip_address \<Rightarrow> bool" where
  "ip_isLoopback a \<longleftrightarrow> ip_toOctets a ! 0 = 127"

text \<open>The characters \<open>'0'\<close> to \<open>'9'\<close> have the codes 48 to 57.\<close>

definition is_digit :: "char \<Rightarrow> bool" where
  "is_digit ch \<longleftrightarrow> 48 \<le> (of_char ch :: nat) \<and> (of_char ch :: nat) \<le> 57"

definition digit_value :: "char \<Rightarrow> nat" where
  "digit_value ch = of_char ch - 48"

text \<open>The inner loop of \<open>fromString\<close> over the digits of one part; \<open>None\<close> is its early return.\<close>

fun ip_digits :: "string \<Rightarrow> nat \<Rightarrow> nat \<Rightarrow> (nat \<times> string) option" where
  "ip_digits [] v n = Some (v, [])"
| "ip_digits (ch # p) v n =
     (if \<not> is_digit ch then Some (v, ch # p)
      else if v * 10 + digit_value ch > 255 then None
      else if n + 1 > 3 then None
      else ip_digits p (v * 10 + digit_value ch) (n + 1))"

lemma ip_digits_length: "ip_digits p v n = Some (w, q) \<Longrightarrow> length q \<le> length p"
  by (induction p v n rule: ip_digits.induct) (auto split: if_splits)

lemma ip_digits_shorter:
  "is_digit ch \<Longrightarrow> ip_digits (ch # p) v n = Some (w, q) \<Longrightarrow> length q < Suc (length p)"
  by (auto split: if_splits dest: ip_digits_length)

text \<open>The outer loop, on the parts read so far.\<close>

function ip_parts :: "string \<Rightarrow> nat list \<Rightarrow> nat list option" where
  "ip_parts [] parts = Some parts"
| "ip_parts (ch # p) parts =
     (if length parts \<ge> 4 then None
      else if \<not> is_digit ch then None
      else case ip_digits (ch # p) 0 0 of
             None \<Rightarrow> None
           | Some (v, []) \<Rightarrow> Some (parts @ [v])
           | Some (v, c # q) \<Rightarrow> if c \<noteq> CHR ''.'' then None else ip_parts q (parts @ [v]))"
  by pat_completeness auto
termination
  by (relation "measure (\<lambda>(p, _). length p)")
    (auto simp del: ip_digits.simps dest!: ip_digits_shorter)

definition ip_fromString :: "string \<Rightarrow> ip_address" where
  "ip_fromString p =
     (case ip_parts p [] of
        Some [a, b, c, d] \<Rightarrow> ip_fromOctets (of_nat a) (of_nat b) (of_nat c) (of_nat d)
      | _ \<Rightarrow> ip_zero)"

text \<open>The \<open>string_view\<close> overload hands the start of the view to the parser, which stops at a zero
  octet: \<open>rest\<close> is what follows the view in memory up to that octet.\<close>

definition ip_fromString_view :: "string \<Rightarrow> string \<Rightarrow> ip_address" where
  "ip_fromString_view ip rest = (if ip = [] then ip_zero else ip_fromString (ip @ rest))"

definition digit_char :: "nat \<Rightarrow> char" where
  "digit_char n = char_of (48 + n)"

definition show_octet :: "u8 \<Rightarrow> string" where
  "show_octet w =
     (let n = unat w in
      if n < 10 then [digit_char n]
      else if n < 100 then [digit_char (n div 10), digit_char (n mod 10)]
      else [digit_char (n div 100), digit_char (n div 10 mod 10), digit_char (n mod 10)])"

fun ip_toString :: "ip_address \<Rightarrow> string" where
  "ip_toString (a, b, c, d) =
     show_octet a @ ''.'' @ show_octet b @ ''.'' @ show_octet c @ ''.'' @ show_octet d"

section \<open>The packet writer (netip/datagram\_scratch.hpp)\<close>

text \<open>The caller's buffer and the number of octets in use; an operation that fails leaves both.\<close>

record packet_writer =
  pw_buffer :: bytes
  pw_size :: nat

type_synonym pw_op = "packet_writer \<Rightarrow> packet_writer \<times> unit result"

definition pw_new :: "bytes \<Rightarrow> packet_writer" where
  "pw_new buf = \<lparr>pw_buffer = buf, pw_size = 0\<rparr>"

definition pw_reset :: "nat \<Rightarrow> pw_op" where
  "pw_reset n w =
     (if n > length (pw_buffer w) then (w, Inl BufferTooSmall) else (w\<lparr>pw_size := n\<rparr>, Inr ()))"

definition pw_push :: "u8 \<Rightarrow> pw_op" where
  "pw_push b w =
     (if pw_size w \<ge> length (pw_buffer w) then (w, Inl BufferTooSmall)
      else (w\<lparr>pw_buffer := (pw_buffer w)[pw_size w := b], pw_size := pw_size w + 1\<rparr>, Inr ()))"

definition pw_write :: "bytes \<Rightarrow> pw_op" where
  "pw_write bs w =
     (if pw_size w + length bs > length (pw_buffer w) then (w, Inl BufferTooSmall)
      else (w\<lparr>pw_buffer := take (pw_size w) (pw_buffer w) @ bs @ drop (pw_size w + length bs) (pw_buffer w),
              pw_size := pw_size w + length bs\<rparr>, Inr ()))"

definition pw_span :: "packet_writer \<Rightarrow> bytes" where
  "pw_span w = take (pw_size w) (pw_buffer w)"

text \<open>\<open>auto r = op(writer); if (r.isError()) return r.error();\<close>\<close>

definition pw_then :: "pw_op \<Rightarrow> pw_op \<Rightarrow> pw_op" where
  "pw_then f g w = (case f w of (w1, Inl e) \<Rightarrow> (w1, Inl e) | (w1, Inr _) \<Rightarrow> g w1)"

section \<open>The common header (netip/header\_codec.cpp)\<close>

record knxnetip_header =
  serviceType :: u16
  totalLength :: u16

definition kHeaderLen :: nat where "kHeaderLen = 6"
definition kVersion :: u8 where "kVersion = 0x10"

definition decodeHeader :: "bytes \<Rightarrow> knxnetip_header result" where
  "decodeHeader data =
     (if length data < kHeaderLen then Inl InvalidFrameSize
      else if data ! 0 \<noteq> of_nat kHeaderLen \<or> data ! 1 \<noteq> kVersion then Inl DecodeFailed
      else let header = \<lparr>serviceType = word_be (data ! 2) (data ! 3),
                         totalLength = word_be (data ! 4) (data ! 5)\<rparr>
           in if unat (totalLength header) < kHeaderLen then Inl DecodeFailed
              else if unat (totalLength header) > length data then Inl InvalidFrameSize
              else Inr header)"

text \<open>The octets of the header and the total length.\<close>

definition encodeHeader :: "u16 \<Rightarrow> nat \<Rightarrow> (bytes \<times> u16) result" where
  "encodeHeader service payloadLength =
     (if payloadLength > 65535 - kHeaderLen then Inl InvalidFrameSize
      else let total = of_nat (kHeaderLen + payloadLength) :: u16
           in Inr ([of_nat kHeaderLen, kVersion, getHighByte service, getLowByte service,
                    getHighByte total, getLowByte total], total))"

definition payloadSpan :: "bytes \<Rightarrow> u16 \<Rightarrow> bytes result" where
  "payloadSpan data expected =
     (case decodeHeader data of
        Inl e \<Rightarrow> Inl e
      | Inr header \<Rightarrow>
          if serviceType header \<noteq> expected then Inl DecodeFailed
          else Inr (take (unat (totalLength header) - kHeaderLen) (drop kHeaderLen data)))"

section \<open>Control and tunnelling packets (netip/control\_packet\_codec.hpp)\<close>

definition kServiceSearchRequest :: u16 where "kServiceSearchRequest = 0x0201"
definition kServiceSearchResponse :: u16 where "kServiceSearchResponse = 0x0202"
definition kServiceDescriptionRequest :: u16 where "kServiceDescriptionRequest = 0x0203"
definition kServiceConnectionRequest :: u16 where "kServiceConnectionRequest = 0x0205"
definition kServiceConnectionResponse :: u16 where "kServiceConnectionResponse = 0x0206"
definition kServiceConnectionStateRequest :: u16 where "kServiceConnectionStateRequest = 0x0207"
definition kServiceConnectionStateResponse :: u16 where "kServiceConnectionStateResponse = 0x0208"
definition kServiceDisconnectRequest :: u16 where "kServiceDisconnectRequest = 0x0209"
definition kServiceDisconnectResponse :: u16 where "kServiceDisconnectResponse = 0x020A"
definition kServiceTunnelingRequest :: u16 where "kServiceTunnelingRequest = 0x0420"
definition kServiceTunnelingAck :: u16 where "kServiceTunnelingAck = 0x0421"

lemmas service_defs =
  kServiceSearchRequest_def kServiceSearchResponse_def kServiceDescriptionRequest_def
  kServiceConnectionRequest_def kServiceConnectionResponse_def kServiceConnectionStateRequest_def
  kServiceConnectionStateResponse_def kServiceDisconnectRequest_def kServiceDisconnectResponse_def
  kServiceTunnelingRequest_def kServiceTunnelingAck_def

datatype hpai_protocol = Udp | Tcp

fun hpai_protocol_code :: "hpai_protocol \<Rightarrow> u8" where
  "hpai_protocol_code Udp = 0x01"
| "hpai_protocol_code Tcp = 0x02"

record hpai_endpoint =
  hpai_protocol :: hpai_protocol
  hpai_address :: ip_address
  hpai_port :: u16

record channel_status =
  cs_channelId :: u8
  cs_status :: u8

record tunneling_ack =
  ta_channelId :: u8
  ta_sequence :: u8
  ta_status :: u8

record tunneling_request =
  tr_channelId :: u8
  tr_sequence :: u8
  tr_cemi :: bytes

text \<open>\<open>encodeHeader\<close> into the first octets of what was written.\<close>

definition pw_header :: "u16 \<Rightarrow> pw_op" where
  "pw_header service w =
     (case encodeHeader service (pw_size w - kHeaderLen) of
        Inl e \<Rightarrow> (w, Inl e)
      | Inr (h, _) \<Rightarrow> (w\<lparr>pw_buffer := h @ drop kHeaderLen (pw_buffer w)\<rparr>, Inr ()))"

definition encodePacketHeader :: "u16 \<Rightarrow> pw_op" where
  "encodePacketHeader service w =
     (if pw_size w < kHeaderLen then (w, Inl InvalidFrameSize) else pw_header service w)"

definition hpai_octets :: "hpai_endpoint \<Rightarrow> bytes" where
  "hpai_octets e =
     [0x08, hpai_protocol_code (hpai_protocol e)] @ ip_toOctets (hpai_address e)
     @ [getHighByte (hpai_port e), getLowByte (hpai_port e)]"

definition appendHpai :: "hpai_endpoint \<Rightarrow> pw_op" where
  "appendHpai e = pw_write (hpai_octets e)"

definition encodeSearchRequest :: "hpai_endpoint \<Rightarrow> pw_op" where
  "encodeSearchRequest e =
     pw_then (pw_reset kHeaderLen) (pw_then (appendHpai e) (encodePacketHeader kServiceSearchRequest))"

definition encodeDescriptionRequest :: "hpai_endpoint \<Rightarrow> pw_op" where
  "encodeDescriptionRequest e =
     pw_then (pw_reset kHeaderLen) (pw_then (appendHpai e) (encodePacketHeader kServiceDescriptionRequest))"

definition kTunnelLayerTp1 :: u8 where "kTunnelLayerTp1 = 0x02"

definition cri_octets :: "u8 \<Rightarrow> bytes" where
  "cri_octets knxLayer = [0x04, 0x04, knxLayer, 0x00]"

definition encodeConnectionRequest :: "hpai_endpoint \<Rightarrow> hpai_endpoint \<Rightarrow> u8 \<Rightarrow> pw_op" where
  "encodeConnectionRequest control data knxLayer =
     pw_then (pw_reset kHeaderLen)
       (pw_then (appendHpai control)
         (pw_then (appendHpai data)
           (pw_then (pw_write (cri_octets knxLayer)) (encodePacketHeader kServiceConnectionRequest))))"

definition encodeChannelEndpointRequest :: "u16 \<Rightarrow> u8 \<Rightarrow> hpai_endpoint \<Rightarrow> pw_op" where
  "encodeChannelEndpointRequest service channelId control =
     pw_then (pw_reset kHeaderLen)
       (pw_then (pw_write [channelId, 0x00])
         (pw_then (appendHpai control) (encodePacketHeader service)))"

definition encodeConnectionStateRequest :: "u8 \<Rightarrow> hpai_endpoint \<Rightarrow> pw_op" where
  "encodeConnectionStateRequest = encodeChannelEndpointRequest kServiceConnectionStateRequest"

definition encodeDisconnectRequest :: "u8 \<Rightarrow> hpai_endpoint \<Rightarrow> pw_op" where
  "encodeDisconnectRequest = encodeChannelEndpointRequest kServiceDisconnectRequest"

definition kTunnelingHeaderLength :: u8 where "kTunnelingHeaderLength = 0x04"

definition encodeTunnelingRequest :: "u8 \<Rightarrow> u8 \<Rightarrow> bytes \<Rightarrow> pw_op" where
  "encodeTunnelingRequest channelId sequence cemi =
     pw_then (pw_reset kHeaderLen)
       (pw_then (pw_write [kTunnelingHeaderLength, channelId, sequence, 0x00])
         (pw_then (pw_write cemi) (encodePacketHeader kServiceTunnelingRequest)))"

definition encodeTunnelingAck :: "u8 \<Rightarrow> u8 \<Rightarrow> u8 \<Rightarrow> pw_op" where
  "encodeTunnelingAck channelId sequence status =
     pw_then (pw_reset kHeaderLen)
       (pw_then (pw_write [kTunnelingHeaderLength, channelId, sequence, status])
         (encodePacketHeader kServiceTunnelingAck))"

definition decodeChannelStatusResponse :: "bytes \<Rightarrow> u16 \<Rightarrow> channel_status result" where
  "decodeChannelStatusResponse data expected =
     (if length data < 8 then Inl InvalidFrameSize
      else case decodeHeader data of
             Inl e \<Rightarrow> Inl e
           | Inr header \<Rightarrow>
               if serviceType header \<noteq> expected then Inl DecodeFailed
               else if unat (totalLength header) < 8 \<or> unat (totalLength header) > length data
               then Inl InvalidFrameSize
               else Inr \<lparr>cs_channelId = data ! 6, cs_status = data ! 7\<rparr>)"

definition decodeTunnelingControl :: "bytes \<Rightarrow> u16 \<Rightarrow> (bytes \<Rightarrow> 't) \<Rightarrow> 't result" where
  "decodeTunnelingControl data expected builder =
     (if length data < 10 then Inl InvalidFrameSize
      else case decodeHeader data of
             Inl e \<Rightarrow> Inl e
           | Inr header \<Rightarrow>
               if serviceType header \<noteq> expected then Inl DecodeFailed
               else if unat (totalLength header) < 10 \<or> unat (totalLength header) > length data
               then Inl InvalidFrameSize
               else let frame = take (unat (totalLength header)) data in
                 if frame ! 6 \<noteq> kTunnelingHeaderLength then Inl DecodeFailed
                 else Inr (builder frame))"

definition decodeTunnelingAck :: "bytes \<Rightarrow> tunneling_ack result" where
  "decodeTunnelingAck data =
     decodeTunnelingControl data kServiceTunnelingAck
       (\<lambda>frame. \<lparr>ta_channelId = frame ! 7, ta_sequence = frame ! 8, ta_status = frame ! 9\<rparr>)"

definition decodeTunnelingRequest :: "bytes \<Rightarrow> tunneling_request result" where
  "decodeTunnelingRequest data =
     decodeTunnelingControl data kServiceTunnelingRequest
       (\<lambda>frame. \<lparr>tr_channelId = frame ! 7, tr_sequence = frame ! 8, tr_cemi = drop 10 frame\<rparr>)"

section \<open>Building the tunnelling control packets (netip/tunneling\_control\_builder.hpp)\<close>

definition selectUdpAdvertisedLocalAddr :: "ip_address \<Rightarrow> ip_address \<Rightarrow> ip_address" where
  "selectUdpAdvertisedLocalAddr local remote =
     (if ip_isZero local then ip_zero
      else if ip_isLoopback remote \<and> \<not> ip_isLoopback local then ip_zero
      else local)"

definition makeUdpControlEndpoint :: "ip_address \<Rightarrow> ip_address \<Rightarrow> u16 \<Rightarrow> hpai_endpoint" where
  "makeUdpControlEndpoint local remote localPort =
     \<lparr>hpai_protocol = Udp, hpai_address = selectUdpAdvertisedLocalAddr local remote,
      hpai_port = localPort\<rparr>"

definition makeTcpControlEndpoint :: "ip_address \<Rightarrow> u16 \<Rightarrow> hpai_endpoint" where
  "makeTcpControlEndpoint local localPort =
     \<lparr>hpai_protocol = Tcp, hpai_address = local, hpai_port = localPort\<rparr>"

section \<open>cEMI L\_Data (netip/cemi.cpp)\<close>

definition isSupportedLDataMessageCode :: "u8 \<Rightarrow> bool" where
  "isSupportedLDataMessageCode mc \<longleftrightarrow> mc = 0x11 \<or> mc = 0x29 \<or> mc = 0x2E"

definition encodedCemiLDataSize :: "ldata_frame \<Rightarrow> nat" where
  "encodedCemiLDataSize f = 9 + length (tpdu f)"

definition kMaxCemiLDataSize :: nat where "kMaxCemiLDataSize = 9 + 256"

definition cemi_cf1 :: "ldata_frame \<Rightarrow> u8" where
  "cemi_cf1 f =
     (let systemBroadcast = isGroupAddress (destinationType f) \<and> destination f = 0 in
      (if standardFrame f then 0x80 else 0)
      OR (if \<not> repeated f then 0x20 else 0)
      OR (if \<not> systemBroadcast then 0x10 else 0)
      OR (push_bit 2 (priority_code (ldata_frame.priority f)) AND 0x0C)
      OR (if ackRequested f then 0x02 else 0)
      OR (if confirmation f then 0x01 else 0))"

definition cemi_cf2 :: "ldata_frame \<Rightarrow> u8" where
  "cemi_cf2 f = (if isGroupAddress (destinationType f) then 0x80 else 0)
                OR push_bit 4 (hopCount f AND 0x07)"

text \<open>\<open>cap\<close> is the size of the caller's buffer.\<close>

definition encodeCemiLData :: "ldata_frame \<Rightarrow> u8 \<Rightarrow> nat \<Rightarrow> bytes result" where
  "encodeCemiLData f mc cap =
     (if \<not> isSupportedLDataMessageCode mc then Inl InvalidParameter
      else if length (tpdu f) < 2 \<or> length (tpdu f) > 256 then Inl InvalidParameter
      else if cap < encodedCemiLDataSize f then Inl BufferTooSmall
      else Inr ([mc, 0, cemi_cf1 f, cemi_cf2 f,
                 getHighByte (source f), getLowByte (source f),
                 getHighByte (destination f), getLowByte (destination f),
                 of_nat (length (tpdu f) - 1)] @ tpdu f))"

definition byte_at :: "bytes \<Rightarrow> nat \<Rightarrow> u8 option" where
  "byte_at b i = (if i < length b then Some (b ! i) else None)"

definition cemi_ctrl :: "u8 \<Rightarrow> u8 \<Rightarrow> ldata_frame \<Rightarrow> ldata_frame" where
  "cemi_ctrl cf1 cf2 f = f\<lparr>standardFrame := cf1 AND 0x80 \<noteq> 0, repeated := cf1 AND 0x20 = 0,
     priority := priority_of_code (drop_bit 2 (cf1 AND 0x0C)), ackRequested := cf1 AND 0x02 \<noteq> 0,
     confirmation := cf1 AND 0x01 \<noteq> 0,
     destinationType := (if cf2 AND 0x80 \<noteq> 0 then Group else Individual),
     hopCount := drop_bit 4 (cf2 AND 0x70)\<rparr>"

text \<open>The part of \<open>decodeCemiLData\<close> from the source address on, which starts at \<open>idx\<close>.\<close>

definition cemi_body :: "bytes \<Rightarrow> nat \<Rightarrow> ldata_frame \<Rightarrow> ldata_frame result" where
  "cemi_body b idx f =
     (if length b < idx + 6 then Inl InvalidFrameSize
      else let f1 = f\<lparr>source := word_be (b ! idx) (b ! (idx + 1)),
                      destination := word_be (b ! (idx + 2)) (b ! (idx + 3))\<rparr>;
               tpduLen = unat (b ! (idx + 4)) + 1
           in if tpduLen < 2 then Inl DecodeFailed
              else if length b < idx + 5 + tpduLen then Inl InvalidFrameSize
              else case fv_assign MAX_FRAME_SIZE (tpdu f1) (take tpduLen (drop (idx + 5) b)) of
                     (_, False) \<Rightarrow> Inl BufferTooSmall
                   | (t, True) \<Rightarrow>
                       if idx + 5 + tpduLen \<noteq> length b then Inl InvalidFrameSize
                       else Inr (f1\<lparr>tpdu := t\<rparr>))"

text \<open>\<open>None\<close> is a read outside the buffer, which C++ leaves undefined.\<close>

definition decodeCemiLData :: "bytes \<Rightarrow> ldata_frame \<Rightarrow> (ldata_frame \<times> u8) result option" where
  "decodeCemiLData b f =
     (if length b < 11 then Some (Inl InvalidFrameSize)
      else if \<not> isSupportedLDataMessageCode (b ! 0) then Some (Inl DecodeFailed)
      else let idx = 2 + unat (b ! 1) in
        if length b < idx + 1 then Some (Inl InvalidFrameSize)
        else case (byte_at b idx, byte_at b (idx + 1)) of
               (Some cf1, Some cf2) \<Rightarrow>
                 (let f1 = cemi_ctrl cf1 cf2 f in
                  if standardFrame f1 \<and> cf2 AND 0x0F \<noteq> 0 then Some (Inl DecodeFailed)
                  else Some (case cemi_body b (idx + 2) f1 of
                               Inl e \<Rightarrow> Inl e
                             | Inr f2 \<Rightarrow> Inr (f2, b ! 0)))
             | _ \<Rightarrow> None)"

section \<open>The packet writer and the encoders\<close>

text \<open>What an encoder leaves in the buffer: the packet, then what was there. The packet does not
  depend on the old content.\<close>

lemma encodeHeader_ok [simp]:
  "n \<le> 65529 \<Longrightarrow> encodeHeader service n =
     Inr ([6, 0x10, getHighByte service, getLowByte service,
           getHighByte (of_nat (6 + n)), getLowByte (of_nat (6 + n))], of_nat (6 + n))"
  by (simp add: encodeHeader_def kHeaderLen_def kVersion_def Let_def)

lemma encodeHeader_too_long: "n > 65529 \<Longrightarrow> encodeHeader service n = Inl InvalidFrameSize"
  by (simp add: encodeHeader_def kHeaderLen_def)

definition packet :: "u16 \<Rightarrow> bytes \<Rightarrow> bytes" where
  "packet service body =
     [6, 0x10, getHighByte service, getLowByte service,
      getHighByte (of_nat (6 + length body)), getLowByte (of_nat (6 + length body))] @ body"

lemma packet_length [simp]: "length (packet service body) = 6 + length body"
  by (simp add: packet_def)

text \<open>A writer that has been reset and has then taken the octets \<open>body\<close>.\<close>

definition pw_holds :: "bytes \<Rightarrow> bytes \<Rightarrow> packet_writer \<Rightarrow> bool" where
  "pw_holds buf body w \<longleftrightarrow> 6 + length body \<le> length buf \<and> pw_size w = 6 + length body
     \<and> pw_buffer w = take 6 buf @ body @ drop (6 + length body) buf"

lemma pw_reset_holds:
  "6 \<le> length (pw_buffer w) \<Longrightarrow>
   pw_reset kHeaderLen w = (w\<lparr>pw_size := 6\<rparr>, Inr ()) \<and> pw_holds (pw_buffer w) [] (w\<lparr>pw_size := 6\<rparr>)"
  by (simp add: pw_reset_def pw_holds_def kHeaderLen_def)

lemma pw_write_holds:
  assumes "pw_holds buf body w" "6 + length body + length bs \<le> length buf"
  shows "\<exists>w'. pw_write bs w = (w', Inr ()) \<and> pw_holds buf (body @ bs) w'"
  using assms
  by (auto simp: pw_write_def pw_holds_def add.assoc) (metis add.commute add.left_commute)

lemma encodePacketHeader_holds:
  assumes "pw_holds buf body w" "length body \<le> 65529"
  shows "encodePacketHeader service w =
    (w\<lparr>pw_buffer := packet service body @ drop (6 + length body) buf\<rparr>, Inr ())"
  using assms by (simp add: encodePacketHeader_def pw_header_def pw_holds_def packet_def kHeaderLen_def)

text \<open>The encoders are all of one shape: reset, then writes, then the header.\<close>

fun pw_writes :: "bytes list \<Rightarrow> pw_op \<Rightarrow> pw_op" where
  "pw_writes [] fin = fin"
| "pw_writes (bs # bss) fin = pw_then (pw_write bs) (pw_writes bss fin)"

lemma pw_writes_ok:
  assumes "pw_holds buf body w" "6 + length (body @ concat bss) \<le> length buf"
    and "length (body @ concat bss) \<le> 65529"
  shows "\<exists>w'. pw_writes bss (encodePacketHeader service) w = (w', Inr ())
    \<and> pw_buffer w' = packet service (body @ concat bss) @ drop (6 + length (body @ concat bss)) buf
    \<and> pw_size w' = 6 + length (body @ concat bss)"
  using assms
proof (induction bss arbitrary: body w)
  case Nil
  then show ?case using encodePacketHeader_holds [of buf body w service] by (simp add: pw_holds_def)
next
  case (Cons bs bss)
  then obtain w1 where "pw_write bs w = (w1, Inr ())" "pw_holds buf (body @ bs) w1"
    using pw_write_holds [of buf body w bs] by auto
  with Cons.IH [of "body @ bs" w1] Cons.prems show ?case by (simp add: pw_then_def)
qed

definition pw_packet :: "u16 \<Rightarrow> bytes list \<Rightarrow> pw_op" where
  "pw_packet service bss = pw_then (pw_reset kHeaderLen) (pw_writes bss (encodePacketHeader service))"

lemma pw_packet_ok:
  assumes "6 + length (concat bss) \<le> length buf" "length (concat bss) \<le> 65529"
  shows "\<exists>w. pw_packet service bss (pw_new buf) = (w, Inr ()) \<and> pw_span w = packet service (concat bss)
    \<and> length (pw_buffer w) = length buf \<and> pw_size w = 6 + length (concat bss)"
  using pw_reset_holds [of "pw_new buf"] assms
    pw_writes_ok [of buf "[]" "(pw_new buf)\<lparr>pw_size := 6\<rparr>" bss service]
  by (auto simp: pw_packet_def pw_then_def pw_new_def pw_span_def)

lemma encodePacketHeader_length:
  "pw_size w \<le> length (pw_buffer w) \<Longrightarrow>
   length (pw_buffer (fst (encodePacketHeader service w))) = length (pw_buffer w)"
  by (auto simp: encodePacketHeader_def pw_header_def kHeaderLen_def encodeHeader_def Let_def)

lemma pw_writes_length:
  "pw_size w \<le> length (pw_buffer w) \<Longrightarrow>
   length (pw_buffer (fst (pw_writes bss (encodePacketHeader service) w))) = length (pw_buffer w)"
proof (induction bss arbitrary: w)
  case (Cons bs bss)
  show ?case
  proof (cases "pw_size w + length bs \<le> length (pw_buffer w)")
    case True
    with Cons.IH [of "fst (pw_write bs w)"] show ?thesis by (simp add: pw_then_def pw_write_def)
  qed (simp add: pw_then_def pw_write_def)
qed (simp add: encodePacketHeader_length)

lemma pw_packet_length [simp]:
  "length (pw_buffer (fst (pw_packet service bss (pw_new buf)))) = length buf"
  using pw_writes_length [of "(pw_new buf)\<lparr>pw_size := kHeaderLen\<rparr>" bss service]
  by (simp add: pw_packet_def pw_then_def pw_reset_def pw_new_def)

lemma pw_packet_too_big:
  assumes "6 + length (concat bss) > length buf"
  shows "\<exists>w. pw_packet service bss (pw_new buf) = (w, Inl BufferTooSmall)"
proof -
  have writes: "pw_size w \<ge> 6 \<Longrightarrow> pw_size w + length (concat bss) > length (pw_buffer w) \<Longrightarrow>
      pw_size w \<le> length (pw_buffer w) \<Longrightarrow>
      snd (pw_writes bss (encodePacketHeader service) w) = Inl BufferTooSmall" for w
  proof (induction bss arbitrary: w)
    case (Cons bs bss)
    show ?case
    proof (cases "pw_size w + length bs \<le> length (pw_buffer w)")
      case True
      with Cons.IH [of "fst (pw_write bs w)"] Cons.prems show ?thesis
        by (simp add: pw_then_def pw_write_def)
    qed (simp add: pw_then_def pw_write_def)
  qed simp
  show ?thesis
    using writes [of "(pw_new buf)\<lparr>pw_size := 6\<rparr>"] assms
    by (cases "6 \<le> length buf")
      (auto simp: pw_packet_def pw_then_def pw_reset_def pw_new_def kHeaderLen_def prod_eq_iff)
qed

lemmas encoder_defs =
  encodeSearchRequest_def encodeDescriptionRequest_def encodeConnectionRequest_def
  encodeChannelEndpointRequest_def encodeConnectionStateRequest_def encodeDisconnectRequest_def
  encodeTunnelingRequest_def encodeTunnelingAck_def appendHpai_def

lemma encoders_as_packets:
  "encodeSearchRequest e = pw_packet kServiceSearchRequest [hpai_octets e]"
  "encodeDescriptionRequest e = pw_packet kServiceDescriptionRequest [hpai_octets e]"
  "encodeConnectionRequest e d l =
     pw_packet kServiceConnectionRequest [hpai_octets e, hpai_octets d, cri_octets l]"
  "encodeConnectionStateRequest ch e = pw_packet kServiceConnectionStateRequest [[ch, 0], hpai_octets e]"
  "encodeDisconnectRequest ch e = pw_packet kServiceDisconnectRequest [[ch, 0], hpai_octets e]"
  "encodeTunnelingRequest ch sq cemi = pw_packet kServiceTunnelingRequest [[kTunnelingHeaderLength, ch, sq, 0], cemi]"
  "encodeTunnelingAck ch sq st = pw_packet kServiceTunnelingAck [[kTunnelingHeaderLength, ch, sq, st]]"
  by (simp_all add: encoder_defs pw_packet_def)

section \<open>Decoding what was encoded\<close>

lemma decodeHeader_packet:
  assumes "length body \<le> 65529"
  shows "decodeHeader (packet service body @ rest) =
    Inr \<lparr>serviceType = service, totalLength = of_nat (6 + length body)\<rparr>"
proof -
  have "unat (of_nat (6 + length body) :: u16) = 6 + length body"
    using assms by (intro unat_of_nat_u16) simp
  then show ?thesis
    by (simp add: decodeHeader_def packet_def kHeaderLen_def kVersion_def Let_def del: of_nat_add)
qed

lemma unat_total: "n \<le> 65529 \<Longrightarrow> unat (of_nat (6 + n) :: u16) = 6 + n"
  by (intro unat_of_nat_u16) simp

text \<open>
  The common KNXnet/IP header: whatever payload of up to 65529 octets follows, and whatever
  comes after the packet in the receive buffer, \<open>payloadSpan\<close> finds exactly the payload behind a
  header \<open>encodeHeader\<close> wrote, and refuses it for any other service; a longer payload has no header.
\<close>

theorem knxnetip_header_roundtrip:
  "case encodeHeader service (length body) of
     Inr (h, n) \<Rightarrow>
       length body \<le> 65529 \<and> unat n = 6 + length body
       \<and> (\<forall>expected. payloadSpan (h @ body @ rest) expected =
             (if expected = service then Inr body else Inl DecodeFailed))
   | Inl e \<Rightarrow> length body > 65529 \<and> e = InvalidFrameSize"
proof (cases "length body \<le> 65529")
  case True
  then show ?thesis
    using decodeHeader_packet [OF True, of service rest]
    by (simp add: payloadSpan_def packet_def unat_total kHeaderLen_def del: of_nat_add)
qed (simp add: encodeHeader_too_long)

lemma decodeTunnelingControl_packet:
  assumes "length body \<le> 65529" "4 \<le> length body" "body ! 0 = kTunnelingHeaderLength"
  shows "decodeTunnelingControl (packet service body) service builder =
    Inr (builder (packet service body))"
  using decodeHeader_packet [OF assms(1), of service "[]"] assms
  by (simp add: decodeTunnelingControl_def unat_total Let_def del: of_nat_add)
    (simp add: packet_def nth_append)

lemma decodeTunnelingRequest_packet:
  "length cemi \<le> 65525 \<Longrightarrow>
   decodeTunnelingRequest (packet kServiceTunnelingRequest ([kTunnelingHeaderLength, ch, sq, 0] @ cemi)) =
     Inr \<lparr>tr_channelId = ch, tr_sequence = sq, tr_cemi = cemi\<rparr>"
  unfolding decodeTunnelingRequest_def
  by (subst decodeTunnelingControl_packet) (simp_all add: packet_def)

lemma decodeTunnelingAck_packet:
  "decodeTunnelingAck (packet kServiceTunnelingAck [kTunnelingHeaderLength, ch, sq, st]) =
     Inr \<lparr>ta_channelId = ch, ta_sequence = sq, ta_status = st\<rparr>"
  unfolding decodeTunnelingAck_def
  by (subst decodeTunnelingControl_packet) (simp_all add: packet_def)

lemma decodeChannelStatusResponse_packet:
  "decodeChannelStatusResponse (packet service [ch, st]) service =
     Inr \<lparr>cs_channelId = ch, cs_status = st\<rparr>"
  using decodeHeader_packet [of "[ch, st]" service "[]"]
  by (simp add: decodeChannelStatusResponse_def unat_total del: of_nat_add)
    (simp add: packet_def)

section \<open>cEMI\<close>

lemma cemi_cf1_standard: "cemi_cf1 f AND 0x80 \<noteq> 0 \<longleftrightarrow> standardFrame f"
  by (cases "ldata_frame.priority f") (simp_all add: cemi_cf1_def Let_def)

lemma cemi_cf1_repeated: "cemi_cf1 f AND 0x20 = 0 \<longleftrightarrow> repeated f"
  by (cases "ldata_frame.priority f") (simp_all add: cemi_cf1_def Let_def)

lemma cemi_cf1_priority:
  "priority_of_code (drop_bit 2 (cemi_cf1 f AND 0x0C)) = ldata_frame.priority f"
  by (cases "ldata_frame.priority f") (simp_all add: cemi_cf1_def Let_def priority_of_code_def)

lemma cemi_cf1_ack: "cemi_cf1 f AND 0x02 \<noteq> 0 \<longleftrightarrow> ackRequested f"
  by (cases "ldata_frame.priority f") (simp_all add: cemi_cf1_def Let_def)

lemma cemi_cf1_confirm: "cemi_cf1 f AND 0x01 \<noteq> 0 \<longleftrightarrow> confirmation f"
  by (cases "ldata_frame.priority f") (simp_all add: cemi_cf1_def Let_def)

lemma cemi_cf2_group: "cemi_cf2 f AND 0x80 \<noteq> 0 \<longleftrightarrow> destinationType f = Group"
proof -
  have "(push_bit 4 (hopCount f AND 0x07) AND 0x80 :: u8) = 0"
    by (rule word8_eqI) (simp_all add: bit_simps)
  then show ?thesis by (simp add: cemi_cf2_def isGroupAddress_def bit.conj_disj_distrib2)
qed

lemma cemi_cf2_hops: "drop_bit 4 (cemi_cf2 f AND 0x70) = hopCount f AND 0x07"
  by (rule word8_eqI) (simp_all add: cemi_cf2_def bit_simps)

lemma cemi_cf2_low: "cemi_cf2 f AND 0x0F = 0"
  by (rule word8_eqI) (simp_all add: cemi_cf2_def bit_simps)

lemmas cemi_fields = cemi_cf1_standard cemi_cf1_repeated cemi_cf1_priority cemi_cf1_ack
  cemi_cf1_confirm cemi_cf2_group cemi_cf2_hops cemi_cf2_low

lemma cemi_ctrl_fields:
  "cemi_ctrl (cemi_cf1 f) (cemi_cf2 f) g =
     g\<lparr>standardFrame := standardFrame f, repeated := repeated f, priority := ldata_frame.priority f,
       ackRequested := ackRequested f, confirmation := confirmation f,
       destinationType := destinationType f, hopCount := hopCount f AND 0x07\<rparr>"
  unfolding cemi_ctrl_def cemi_fields by (cases "destinationType f") simp_all

text \<open>The octets \<open>encodeCemiLData\<close> writes when it succeeds.\<close>

definition cemi_octets :: "ldata_frame \<Rightarrow> u8 \<Rightarrow> bytes" where
  "cemi_octets f mc =
     [mc, 0, cemi_cf1 f, cemi_cf2 f, getHighByte (source f), getLowByte (source f),
      getHighByte (destination f), getLowByte (destination f), of_nat (length (tpdu f) - 1)] @ tpdu f"

lemma cemi_octets_length [simp]: "length (cemi_octets f mc) = 9 + length (tpdu f)"
  by (simp add: cemi_octets_def)

lemma encodeCemi_iff:
  "encodeCemiLData f mc cap = Inr b \<longleftrightarrow>
     isSupportedLDataMessageCode mc \<and> 2 \<le> length (tpdu f) \<and> length (tpdu f) \<le> 256
     \<and> 9 + length (tpdu f) \<le> cap \<and> b = cemi_octets f mc"
  by (auto simp: encodeCemiLData_def cemi_octets_def encodedCemiLDataSize_def)

lemma cemi_body_octets:
  assumes "2 \<le> length (tpdu f)" "length (tpdu f) \<le> 256"
  shows "cemi_body (cemi_octets f mc) 4 g =
    Inr (g\<lparr>source := source f, destination := destination f, tpdu := tpdu f\<rparr>)"
proof -
  have "unat (of_nat (length (tpdu f) - 1) :: u8) = length (tpdu f) - 1"
    using assms by (intro unat_of_nat_u8) simp
  moreover have "tpdu f \<noteq> []" using assms by auto
  ultimately show ?thesis using assms
    by (simp add: cemi_body_def cemi_octets_def Let_def MAX_FRAME_SIZE_def del: of_nat_diff)
qed

lemma decodeCemi_octets:
  assumes "isSupportedLDataMessageCode mc" "2 \<le> length (tpdu f)" "length (tpdu f) \<le> 256" "hopCount f \<le> 7"
  shows "decodeCemiLData (cemi_octets f mc) g = Some (Inr (f, mc))"
proof -
  have "hopCount f AND 0x07 = hopCount f" using assms(4) by (rule and_07_id)
  moreover have at: "cemi_octets f mc ! 0 = mc" "cemi_octets f mc ! 1 = 0"
      "byte_at (cemi_octets f mc) 2 = Some (cemi_cf1 f)"
      "byte_at (cemi_octets f mc) 3 = Some (cemi_cf2 f)"
      "\<not> length (cemi_octets f mc) < 11"
    using assms(2) by (simp_all add: cemi_octets_def byte_at_def)
  ultimately show ?thesis
    using cemi_body_octets [OF assms(2,3), of mc "cemi_ctrl (cemi_cf1 f) (cemi_cf2 f) g"] assms(1)
    by (simp add: decodeCemiLData_def cemi_ctrl_fields cemi_fields)
qed

interpretation cemi: result_codec
  "\<lambda>(f, mc). encodeCemiLData f mc kMaxCemiLDataSize"
  "\<lambda>b. case decodeCemiLData b ldata_frame_init of Some r \<Rightarrow> r | None \<Rightarrow> Inl UnknownError"
  "\<lambda>(f, mc). hopCount f \<le> 7"
  by unfold_locales (auto simp: encodeCemi_iff decodeCemi_octets)

text \<open>
  A frame with at least two TPDU octets and a hop count of three bits, encoded as cEMI
  L_Data with one of the three message codes, is decoded to the same frame and message code,
  field for field, into whatever frame object the caller passed.
\<close>

theorem cemi_roundtrip:
  assumes "encodeCemiLData f mc cap = Inr b" "hopCount f \<le> 7"
  shows "length b = encodedCemiLDataSize f \<and> decodeCemiLData b g = Some (Inr (f, mc))"
  using assms by (auto simp: encodeCemi_iff decodeCemi_octets encodedCemiLDataSize_def)

theorem cemi_roundtrip_witness:
  "encodeCemiLData (ldata_frame_init\<lparr>source := 0x1101, destination := 0x0A03, tpdu := [0x00, 0x81]\<rparr>) 0x29 265
     = Inr [0x29, 0, 0xBE, 0xE0, 0x11, 0x01, 0x0A, 0x03, 1, 0x00, 0x81]
   \<and> decodeCemiLData [0x29, 0, 0xBE, 0xE0, 0x11, 0x01, 0x0A, 0x03, 1, 0x00, 0x81] ldata_frame_init
     = Some (Inr (ldata_frame_init\<lparr>source := 0x1101, destination := 0x0A03, tpdu := [0x00, 0x81]\<rparr>, 0x29))"
proof -
  let ?f = "ldata_frame_init\<lparr>source := 0x1101, destination := 0x0A03, tpdu := [0x00, 0x81]\<rparr>"
  let ?b = "[0x29, 0, 0xBE, 0xE0, 0x11, 0x01, 0x0A, 0x03, 1, 0x00, 0x81]"
  have e: "encodeCemiLData ?f 0x29 265 = Inr ?b" by code_simp
  have "hopCount ?f \<le> 7" by code_simp
  from cemi_roundtrip [OF e this] e show ?thesis by simp
qed

text \<open>
  \<open>decodeCemiLData\<close> reads outside its buffer exactly when the additional information ends one
  octet before the buffer does: the check before the two control octets asks for one octet only.
  On every other input all reads stay inside, and an input it accepts has no trailing octets.
\<close>

theorem cemi_decode_reads:
  "decodeCemiLData b f = None \<longleftrightarrow>
     length b \<ge> 11 \<and> isSupportedLDataMessageCode (b ! 0) \<and> length b = unat (b ! 1) + 3"
  by (auto simp: decodeCemiLData_def byte_at_def Let_def split: if_splits option.splits)

section \<open>Dotted addresses\<close>

lemma of_char_digit: "d < 10 \<Longrightarrow> (of_char (digit_char d) :: nat) = 48 + d"
  by (simp add: digit_char_def)

lemma is_digit_char [simp]: "d < 10 \<Longrightarrow> is_digit (digit_char d)"
  by (simp add: is_digit_def of_char_digit)

lemma digit_value_char [simp]: "d < 10 \<Longrightarrow> digit_value (digit_char d) = d"
  by (simp add: digit_value_def of_char_digit)

lemma ip_digits_show:
  assumes "rest = [] \<or> \<not> is_digit (hd rest)"
  shows "ip_digits (show_octet w @ rest) 0 0 = Some (unat w, rest)"
proof -
  have stop: "ip_digits rest v n = Some (v, rest)" for v n
    using assms by (cases rest) auto
  define n where "n = unat w"
  then have "n < 256" by simp
  have "n div 100 = n div 10 div 10" by (simp add: div_mult2_eq [symmetric])
  then have hundreds: "n div 100 * 10 + n div 10 mod 10 = n div 10" by simp
  have small: "n div 100 < 10" "n div 10 mod 10 < 10" "n mod 10 < 10" "n < 100 \<Longrightarrow> n div 10 < 10"
    using \<open>n < 256\<close> by simp_all
  have two: "n div 10 * 10 + n mod 10 = n" by simp
  have bound: "n div 10 \<le> 255" using \<open>n < 256\<close> by simp
  from \<open>n < 256\<close> small hundreds two bound have "ip_digits (show_octet w @ rest) 0 0 = Some (n, rest)"
    unfolding show_octet_def Let_def n_def [symmetric] by (simp add: stop)
  then show ?thesis by (simp add: n_def)
qed

lemma show_octet_Cons: "\<exists>ch p. show_octet w = ch # p \<and> is_digit ch"
proof -
  define n where "n = unat w"
  have "n < 256" by (simp add: n_def)
  then have "n div 100 < 10" "n < 100 \<Longrightarrow> n div 10 < 10" by simp_all
  then show ?thesis unfolding show_octet_def Let_def n_def [symmetric] by simp
qed

lemma ip_parts_dot:
  assumes "length parts < 4"
  shows "ip_parts (show_octet w @ ''.'' @ rest) parts = ip_parts rest (parts @ [unat w])"
proof -
  obtain ch p where c: "show_octet w = ch # p" "is_digit ch" using show_octet_Cons by blast
  have "ip_digits (show_octet w @ ''.'' @ rest) 0 0 = Some (unat w, ''.'' @ rest)"
    by (rule ip_digits_show) (simp add: is_digit_def)
  with c assms show ?thesis by (simp del: ip_digits.simps)
qed

lemma ip_parts_end:
  assumes "length parts < 4"
  shows "ip_parts (show_octet w) parts = Some (parts @ [unat w])"
proof -
  obtain ch p where c: "show_octet w = ch # p" "is_digit ch" using show_octet_Cons by blast
  have "ip_digits (show_octet w @ []) 0 0 = Some (unat w, [])"
    by (rule ip_digits_show) simp
  with c assms show ?thesis by (simp del: ip_digits.simps)
qed

text \<open>
  An IPv4 address printed by \<open>toString\<close> is read back by \<open>fromString\<close>. The parser also takes
  the same text with a dot behind it, which no dotted-quad has.
\<close>

theorem ip_string_roundtrip:
  "ip_fromString (ip_toString a) = a \<and> ip_fromString (ip_toString a @ ''.'') = a"
proof (cases a)
  case (fields w x y z)
  have "ip_parts (ip_toString a) [] = Some [unat w, unat x, unat y, unat z]"
    using ip_parts_dot [of "[]"] ip_parts_dot [of "[unat w]"] ip_parts_dot [of "[unat w, unat x]"]
      ip_parts_end [of "[unat w, unat x, unat y]" z]
    by (simp add: fields del: ip_parts.simps)
  moreover have "ip_parts (ip_toString a @ ''.'') [] = Some [unat w, unat x, unat y, unat z]"
    using ip_parts_dot [of "[]"] ip_parts_dot [of "[unat w]"] ip_parts_dot [of "[unat w, unat x]"]
      ip_parts_dot [of "[unat w, unat x, unat y]" z "[]"]
    by (simp add: fields del: ip_parts.simps(2))
  ultimately show ?thesis by (simp add: ip_fromString_def ip_fromOctets_def fields)
qed

lemma string_view_reads_on:
  "ip_fromString_view ''10.0.0.1'' ''2'' = (10, 0, 0, 12) \<and> ip_fromString ''10.0.0.1'' = (10, 0, 0, 1)"
  by code_simp

end
