(* ===== verification/Secure_Primitives.thy ===== *)
theory Secure_Primitives
  imports Knx_Base
begin

text \<open>
  The building blocks of KNX Data Secure: the 48-bit sequence numbers and the CCM blocks of
  \<open>src/security/data_secure.cpp\<close>, the replay window (\<open>security/replay_window.hpp\<close>), the streaming
  CBC-MAC (\<open>src/security/aes128_cbc_mac.cpp\<close>) and the counter mode (\<open>src/security/aes128_ctr.cpp\<close>).
  The AES block cipher is a library and stays a parameter. The streaming MAC is shown equal to the
  textbook CBC-MAC of the padded message, the counter to a 128-bit number, the replay window to the
  set of accepted numbers.
\<close>

section \<open>48-bit numbers (security/data\_secure.cpp)\<close>

definition mask48 :: "u64 \<Rightarrow> u64" where "mask48 v = v AND 0xFFFFFFFFFFFF"

definition writeSecureU48BE :: "u64 \<Rightarrow> bytes" where
  "writeSecureU48BE v =
     (let x = mask48 v in
      [ucast (drop_bit 40 x AND 0xFF), ucast (drop_bit 32 x AND 0xFF), ucast (drop_bit 24 x AND 0xFF),
       ucast (drop_bit 16 x AND 0xFF), ucast (drop_bit 8 x AND 0xFF), ucast (x AND 0xFF)])"

definition readSecureU48BE :: "bytes \<Rightarrow> u64" where
  "readSecureU48BE bs = fold (\<lambda>b v. push_bit 8 v OR ucast b) (take 6 bs) 0"

lemma writeSecureU48BE_length [simp]: "length (writeSecureU48BE v) = 6"
  by (simp add: writeSecureU48BE_def Let_def)

lemma bit_u64_ge: "64 \<le> n \<Longrightarrow> \<not> bit (w :: u64) n"
  using bit_imp_le_length [of w n] by auto

lemma bit_mask48: "bit (mask48 v) n \<longleftrightarrow> n < 48 \<and> bit v n"
proof -
  have "mask48 v = v AND mask 48" by (simp add: mask48_def mask_eq_exp_minus_1)
  then show ?thesis by (auto simp: bit_simps)
qed

lemma mask48_idem [simp]: "mask48 (mask48 v) = mask48 v"
  by (rule bit_eqI) (simp add: bit_mask48)

lemma mask48_take_bit: "mask48 v = take_bit 48 v"
  by (rule bit_word_eqI) (auto simp: bit_mask48 bit_simps)

lemma mask48_small:
  assumes "v < 2 ^ 48" shows "mask48 v = v"
proof -
  have "uint v < 2 ^ 48" using assms by (simp add: word_less_def)
  then show ?thesis
    by (simp add: mask48_take_bit word_uint_eq_iff unsigned_take_bit_eq take_bit_int_eq_self)
qed

lemma readSecureU48BE_write [simp]: "readSecureU48BE (writeSecureU48BE v @ rest) = mask48 v"
proof -
  have ff: "(0xFF :: u64) = mask 8" by (simp add: mask_eq_exp_minus_1)
  show ?thesis
  proof (rule bit_word_eqI)
    fix n assume "n < LENGTH(64)"
    then have "n \<in> set [0..<64]" by simp
    moreover have "\<forall>n \<in> set [0..<64]. bit (readSecureU48BE (writeSecureU48BE v @ rest)) n = bit (mask48 v) n"
      by (simp add: readSecureU48BE_def writeSecureU48BE_def Let_def ff bit_simps bit_mask48 upt_rec)
        (simp add: eval_nat_numeral)
    ultimately show "bit (readSecureU48BE (writeSecureU48BE v @ rest)) n = bit (mask48 v) n" by blast
  qed
qed

section \<open>Replay window (security/replay\_window.hpp)\<close>

record replay_window =
  rw_highestSeq :: u64
  rw_bitmap :: u64

definition replay_window_init :: replay_window where
  "replay_window_init = \<lparr>rw_highestSeq = 0, rw_bitmap = 0\<rparr>"

definition WINDOW_SIZE :: u64 where "WINDOW_SIZE = 64"

definition rw_wouldAccept :: "replay_window \<Rightarrow> u64 \<Rightarrow> bool" where
  "rw_wouldAccept w seq =
     (if seq > rw_highestSeq w then True
      else if seq = rw_highestSeq w then False
      else let diff = rw_highestSeq w - seq in
        if diff \<ge> WINDOW_SIZE then False
        else rw_bitmap w AND push_bit (unat diff) 1 = 0)"

definition rw_accept :: "replay_window \<Rightarrow> u64 \<Rightarrow> replay_window" where
  "rw_accept w seq =
     (if seq > rw_highestSeq w
      then let diff = seq - rw_highestSeq w in
        w\<lparr>rw_bitmap := (if diff < WINDOW_SIZE then push_bit (unat diff) (rw_bitmap w) OR 1 else 1),
          rw_highestSeq := seq\<rparr>
      else let diff = rw_highestSeq w - seq in
        if diff < WINDOW_SIZE then w\<lparr>rw_bitmap := rw_bitmap w OR push_bit (unat diff) 1\<rparr> else w)"

section \<open>The block cipher (security/aes\_block.hpp)\<close>

text \<open>The backend behind \<open>Aes128BlockCipher\<close>: key set-up and the encryption of one block.\<close>

record aes_backend =
  aes_setKey :: "bytes \<Rightarrow> unit result"
  aes_encryptBlock :: "bytes \<Rightarrow> bytes \<Rightarrow> bytes result"

definition xor_bytes :: "bytes \<Rightarrow> bytes \<Rightarrow> bytes" where
  "xor_bytes xs ys = map2 (\<lambda>x y. x XOR y) xs ys"

section \<open>CBC-MAC (src/security/aes128\_cbc\_mac.cpp)\<close>

text \<open>The local variables of \<open>compute\<close>: \<open>chain\<close>, \<open>block\<close> and \<open>blockFill\<close>.\<close>

record cbc_state =
  cbc_chain :: bytes
  cbc_block :: bytes
  cbc_fill :: nat

definition cbc_process :: "aes_backend \<Rightarrow> bytes \<Rightarrow> bytes \<Rightarrow> cbc_state \<Rightarrow> cbc_state result" where
  "cbc_process B key input s =
     (let block = xor_bytes input (cbc_chain s) in
      case aes_encryptBlock B key block of
        Inl e \<Rightarrow> Inl e
      | Inr c \<Rightarrow> Inr (s\<lparr>cbc_block := block, cbc_chain := c\<rparr>))"

definition cbc_appendByte :: "aes_backend \<Rightarrow> bytes \<Rightarrow> u8 \<Rightarrow> cbc_state \<Rightarrow> cbc_state result" where
  "cbc_appendByte B key x s =
     (let s1 = s\<lparr>cbc_block := (cbc_block s)[cbc_fill s := x], cbc_fill := cbc_fill s + 1\<rparr> in
      if cbc_fill s1 \<noteq> 16 then Inr s1
      else case cbc_process B key (cbc_block s1) s1 of
             Inl e \<Rightarrow> Inl e
           | Inr s2 \<Rightarrow> Inr (s2\<lparr>cbc_fill := 0\<rparr>))"

fun cbc_appendBytes :: "aes_backend \<Rightarrow> bytes \<Rightarrow> bytes \<Rightarrow> cbc_state \<Rightarrow> cbc_state result" where
  "cbc_appendBytes B key [] s = Inr s"
| "cbc_appendBytes B key (x # xs) s =
     (case cbc_appendByte B key x s of Inl e \<Rightarrow> Inl e | Inr s1 \<Rightarrow> cbc_appendBytes B key xs s1)"

definition cbc_finish :: "aes_backend \<Rightarrow> bytes \<Rightarrow> cbc_state \<Rightarrow> bytes result" where
  "cbc_finish B key s =
     (if cbc_fill s \<noteq> 0
      then map_sum id cbc_chain
             (cbc_process B key (take (cbc_fill s) (cbc_block s) @ replicate (16 - cbc_fill s) 0) s)
      else Inr (cbc_chain s))"

definition cbc_compute :: "aes_backend \<Rightarrow> bytes \<Rightarrow> bytes \<Rightarrow> bytes \<Rightarrow> bytes \<Rightarrow> bytes result" where
  "cbc_compute B key block0 additionalData payload =
     (case aes_setKey B key of
        Inl e \<Rightarrow> Inl e
      | Inr _ \<Rightarrow>
          (case cbc_process B key block0
                  \<lparr>cbc_chain = replicate 16 0, cbc_block = replicate 16 0, cbc_fill = 0\<rparr> of
             Inl e \<Rightarrow> Inl e
           | Inr s \<Rightarrow>
               (let n = of_nat (length additionalData) :: u64 in
                case cbc_appendBytes B key
                       ([ucast (drop_bit 8 n AND 0xFF), ucast (n AND 0xFF)] @ additionalData @ payload) s of
                  Inl e \<Rightarrow> Inl e
                | Inr s1 \<Rightarrow> cbc_finish B key s1)))"

section \<open>Counter mode (src/security/aes128\_ctr.cpp)\<close>

text \<open>\<open>for (i = 16; i-- > 0;) if (++counter[i] != 0) break;\<close>, from the last octet.\<close>

fun inc_rev :: "bytes \<Rightarrow> bytes" where
  "inc_rev [] = []"
| "inc_rev (c # cs) = (if c + 1 \<noteq> 0 then (c + 1) # cs else 0 # inc_rev cs)"

definition inc_counter :: "bytes \<Rightarrow> bytes" where
  "inc_counter c = rev (inc_rev (rev c))"

function ctr_loop :: "aes_backend \<Rightarrow> bytes \<Rightarrow> bytes \<Rightarrow> bytes \<Rightarrow> bytes result" where
  "ctr_loop B key counter [] = Inr []"
| "ctr_loop B key counter (x # xs) =
     (case aes_encryptBlock B key counter of
        Inl e \<Rightarrow> Inl e
      | Inr keyStream \<Rightarrow>
          (case ctr_loop B key (inc_counter counter) (drop 16 (x # xs)) of
             Inl e \<Rightarrow> Inl e
           | Inr out \<Rightarrow> Inr (xor_bytes (take 16 (x # xs)) keyStream @ out)))"
  by pat_completeness auto
termination by (relation "measure (\<lambda>(B, key, counter, input). length input)") auto

definition ctr_crypt :: "aes_backend \<Rightarrow> bytes \<Rightarrow> bytes \<Rightarrow> bytes \<Rightarrow> bytes result" where
  "ctr_crypt B key counter0 input =
     (case aes_setKey B key of Inl e \<Rightarrow> Inl e | Inr _ \<Rightarrow> ctr_loop B key counter0 input)"

section \<open>CCM blocks (security/data\_secure.cpp)\<close>

record secure_block_context =
  sb_srcIa :: individual_address
  sb_dstRaw :: u16
  sb_atOctet :: u8
  sb_tpci6 :: u8

definition kMaxPlainApduSize :: nat where "kMaxPlainApduSize = 0xFF"
definition kMacSize :: nat where "kMacSize = 4"

definition isUsableSecureSource :: "individual_address \<Rightarrow> bool" where
  "isUsableSecureSource a \<longleftrightarrow> \<not> isIndividualBroadcastAddress a"

definition buildSecureBlock0 :: "secure_block_context \<Rightarrow> bytes \<Rightarrow> nat \<Rightarrow> bytes result" where
  "buildSecureBlock0 ctx nonce payloadLen =
     (if \<not> isUsableSecureSource (sb_srcIa ctx) then Inl InvalidAddress
      else if payloadLen > kMaxPlainApduSize then Inl InvalidParameter
      else Inr (nonce @ [getHighByte (sb_srcIa ctx), getLowByte (sb_srcIa ctx),
                getHighByte (sb_dstRaw ctx), getLowByte (sb_dstRaw ctx), 0x00, sb_atOctet ctx,
                push_bit 2 (sb_tpci6 ctx AND 0x3F) OR 0x03, 0xF1, 0x00, of_nat payloadLen]))"

definition buildSecureCounter0 :: "secure_block_context \<Rightarrow> bytes \<Rightarrow> bytes result" where
  "buildSecureCounter0 ctx nonce =
     (if \<not> isUsableSecureSource (sb_srcIa ctx) then Inl InvalidAddress
      else Inr (nonce @ [getHighByte (sb_srcIa ctx), getLowByte (sb_srcIa ctx),
                getHighByte (sb_dstRaw ctx), getLowByte (sb_dstRaw ctx), 0, 0, 0, 0, 1, 0]))"

section \<open>The replay window as a set\<close>

text \<open>\<open>A\<close> is the set of the numbers accepted so far.\<close>

definition rw_inv :: "replay_window \<Rightarrow> nat set \<Rightarrow> bool" where
  "rw_inv w A \<longleftrightarrow>
     (\<forall>a \<in> A. a \<le> unat (rw_highestSeq w)) \<and> (rw_highestSeq w = 0 \<or> unat (rw_highestSeq w) \<in> A)
     \<and> (\<forall>d < 64. d \<le> unat (rw_highestSeq w) \<longrightarrow> (bit (rw_bitmap w) d \<longleftrightarrow> unat (rw_highestSeq w) - d \<in> A))"

lemma rw_inv_init: "rw_inv replay_window_init {}"
  by (simp add: rw_inv_def replay_window_init_def)

lemma unat_sub_u64: "(b :: u64) \<le> a \<Longrightarrow> unat (a - b) = unat a - unat b"
  by (rule unat_sub)

lemma window_le: "(d :: u64) \<ge> WINDOW_SIZE \<longleftrightarrow> 64 \<le> unat d" "d < WINDOW_SIZE \<longleftrightarrow> unat d < 64"
  by (simp_all add: WINDOW_SIZE_def word_le_nat_alt word_less_nat_alt)

lemma rw_wouldAccept_iff:
  assumes "rw_inv w A" "seq \<noteq> 0"
  shows "rw_wouldAccept w seq \<longleftrightarrow> unat seq \<notin> A \<and> unat (rw_highestSeq w) < unat seq + 64"
proof -
  let ?h = "unat (rw_highestSeq w)"
  note inv = assms(1) [unfolded rw_inv_def]
  consider "?h < unat seq" | "seq = rw_highestSeq w" | "unat seq < ?h"
    using word_unat_eq_iff nat_neq_iff by blast
  then show ?thesis
  proof cases
    case 1
    then show ?thesis using inv by (auto simp: rw_wouldAccept_def word_less_nat_alt)
  next
    case 2
    then show ?thesis using inv assms(2) by (auto simp: rw_wouldAccept_def)
  next
    case 3
    then have d: "unat (rw_highestSeq w - seq) = ?h - unat seq"
      by (intro unat_sub_u64) (simp add: word_le_nat_alt)
    have ne: "seq \<noteq> rw_highestSeq w" "\<not> rw_highestSeq w < seq" using 3 by (auto simp: word_less_nat_alt)
    show ?thesis
    proof (cases "?h - unat seq < 64")
      case True
      then have "bit (rw_bitmap w) (?h - unat seq) \<longleftrightarrow> unat seq \<in> A" using inv 3 by auto
      with True ne 3 show ?thesis
        by (simp add: rw_wouldAccept_def Let_def window_le d and_exp_eq_0_iff_not_bit) linarith
    next
      case False
      with ne 3 show ?thesis by (simp add: rw_wouldAccept_def Let_def window_le d) linarith
    qed
  qed
qed

lemma rw_accept_inv:
  assumes "rw_inv w A" shows "rw_inv (rw_accept w seq) (insert (unat seq) A)"
proof -
  let ?h = "unat (rw_highestSeq w)"
  note inv = assms [unfolded rw_inv_def]
  have le: "a \<in> A \<Longrightarrow> a \<le> ?h" for a using inv by blast
  have bits: "d < 64 \<Longrightarrow> d \<le> ?h \<Longrightarrow> bit (rw_bitmap w) d \<longleftrightarrow> ?h - d \<in> A" for d using inv by blast
  show ?thesis
  proof (cases "seq > rw_highestSeq w")
    case True
    then have gt: "?h < unat seq" by (simp add: word_less_nat_alt)
    have d: "unat (seq - rw_highestSeq w) = unat seq - ?h"
      using True by (intro unat_sub_u64) simp
    have "bit (rw_bitmap (rw_accept w seq)) k \<longleftrightarrow> unat seq - k \<in> insert (unat seq) A"
      if k: "k < 64" "k \<le> unat seq" for k
    proof (cases "unat seq - ?h < 64")
      case near: True
      have bm: "rw_bitmap (rw_accept w seq) = push_bit (unat seq - ?h) (rw_bitmap w) OR 1"
        using True near by (simp add: rw_accept_def Let_def window_le d)
      show ?thesis
      proof (cases "k \<ge> unat seq - ?h")
        case True
        then have "unat seq - k = ?h - (k - (unat seq - ?h))" using gt k by simp
        moreover have "bit (rw_bitmap w) (k - (unat seq - ?h)) \<longleftrightarrow> ?h - (k - (unat seq - ?h)) \<in> A"
          using k True gt by (intro bits) auto
        ultimately show ?thesis using True k gt by (auto simp: bm bit_simps)
      next
        case False
        then have "unat seq - k \<in> A \<Longrightarrow> False" using le [of "unat seq - k"] k gt by linarith
        then show ?thesis using False k gt by (auto simp: bm bit_simps)
      qed
    next
      case far: False
      then have "rw_bitmap (rw_accept w seq) = 1" using True by (simp add: rw_accept_def Let_def window_le d)
      moreover have "unat seq - k \<notin> A" using le [of "unat seq - k"] far k gt by linarith
      ultimately show ?thesis using k gt by (auto simp: bit_simps)
    qed
    moreover have "rw_highestSeq (rw_accept w seq) = seq" using True by (simp add: rw_accept_def Let_def)
    ultimately show ?thesis using gt le by (auto simp: rw_inv_def dest!: le)
  next
    case False
    then have ge: "unat seq \<le> ?h" by (simp add: word_less_nat_alt not_less)
    have d: "unat (rw_highestSeq w - seq) = ?h - unat seq"
      using False by (intro unat_sub_u64) simp
    have h: "rw_highestSeq (rw_accept w seq) = rw_highestSeq w" using False by (simp add: rw_accept_def Let_def)
    have "bit (rw_bitmap (rw_accept w seq)) k \<longleftrightarrow> ?h - k \<in> insert (unat seq) A" if k: "k < 64" "k \<le> ?h" for k
      using False k ge bits [OF k]
      by (auto simp: rw_accept_def Let_def window_le d bit_simps)
    then show ?thesis using inv ge h by (auto simp: rw_inv_def)
  qed
qed

text \<open>A receiver that accepts what the window lets through, as \<open>unprotect\<close> does.\<close>

fun rw_run :: "replay_window \<Rightarrow> u64 list \<Rightarrow> u64 list" where
  "rw_run w [] = []"
| "rw_run w (seq # seqs) =
     (if seq \<noteq> 0 \<and> rw_wouldAccept w seq then seq # rw_run (rw_accept w seq) seqs else rw_run w seqs)"

lemma rw_run_fresh: "rw_inv w A \<Longrightarrow> distinct (rw_run w seqs) \<and> (\<forall>s \<in> set (rw_run w seqs). unat s \<notin> A)"
proof (induction seqs arbitrary: w A)
  case (Cons seq seqs)
  show ?case
  proof (cases "seq \<noteq> 0 \<and> rw_wouldAccept w seq")
    case True
    then have "unat seq \<notin> A" using rw_wouldAccept_iff [OF Cons.prems] by blast
    with True Cons.IH [OF rw_accept_inv [OF Cons.prems], of seq] show ?thesis by auto
  qed (use Cons in auto)
qed simp

text \<open>
  The replay window implements the set of accepted numbers: after any sequence of received
  numbers, a number is let through exactly when it has not been accepted before and is less than 64
  behind the highest; so no number is ever accepted twice.
\<close>

theorem replay_window_no_repeats:
  "distinct (rw_run replay_window_init seqs)
   \<and> (\<forall>w A seq. rw_inv w A \<longrightarrow> seq \<noteq> 0 \<longrightarrow>
        (rw_wouldAccept w seq \<longleftrightarrow> unat seq \<notin> A \<and> unat (rw_highestSeq w) < unat seq + 64)
        \<and> rw_inv (rw_accept w seq) (insert (unat seq) A))"
  using rw_run_fresh [OF rw_inv_init] rw_wouldAccept_iff rw_accept_inv by blast

theorem replay_window_no_repeats_witness:
  "rw_run replay_window_init [5, 3, 5, 100, 36, 37, 37] = [5, 3, 100, 37]
   \<and> distinct (rw_run replay_window_init [5, 3, 5, 100, 36, 37, 37])"
proof -
  have "rw_run replay_window_init [5, 3, 5, 100, 36, 37, 37] = [5, 3, 100, 37]" by code_simp
  then show ?thesis using replay_window_no_repeats [of "[5, 3, 5, 100, 36, 37, 37]"] by blast
qed

section \<open>The streaming MAC is CBC-MAC\<close>

text \<open>What the documentation of the backend promises: the key is taken, and a block of 16 octets is
  encrypted to a block of 16 octets.\<close>

definition aes_works :: "aes_backend \<Rightarrow> (bytes \<Rightarrow> bytes \<Rightarrow> bytes) \<Rightarrow> bool" where
  "aes_works B enc \<longleftrightarrow> (\<forall>key. aes_setKey B key = Inr ())
     \<and> (\<forall>key b. length b = 16 \<longrightarrow> aes_encryptBlock B key b = Inr (enc key b) \<and> length (enc key b) = 16)"

text \<open>The textbook definition: the message in blocks of 16 octets, the last one filled up with
  zeros, chained through the cipher.\<close>

function blocks16 :: "bytes \<Rightarrow> bytes list" where
  "blocks16 [] = []"
| "blocks16 (x # xs) = (take 16 (x # xs) @ replicate (16 - length (x # xs)) 0) # blocks16 (drop 16 (x # xs))"
  by pat_completeness auto
termination by (relation "measure length") auto

definition cbc_chain_ref :: "(bytes \<Rightarrow> bytes) \<Rightarrow> bytes list \<Rightarrow> bytes \<Rightarrow> bytes" where
  "cbc_chain_ref enc bs c = fold (\<lambda>b chain. enc (xor_bytes b chain)) bs c"

definition cbc_mac_ref :: "(bytes \<Rightarrow> bytes) \<Rightarrow> bytes list \<Rightarrow> bytes" where
  "cbc_mac_ref enc bs = cbc_chain_ref enc bs (replicate 16 0)"

lemma xor_bytes_length [simp]: "length (xor_bytes xs ys) = min (length xs) (length ys)"
  by (simp add: xor_bytes_def)

lemma cbc_process_works:
  assumes "aes_works B enc" "length input = 16" "length (cbc_chain s) = 16"
  shows "cbc_process B key input s =
    Inr (s\<lparr>cbc_block := xor_bytes input (cbc_chain s), cbc_chain := enc key (xor_bytes input (cbc_chain s))\<rparr>)"
    "length (enc key (xor_bytes input (cbc_chain s))) = 16"
  using assms by (simp_all add: cbc_process_def aes_works_def Let_def)

text \<open>The state after any octets: the blocks that are complete are in the chain, the rest is in the
  block buffer.\<close>

definition cbc_holds :: "(bytes \<Rightarrow> bytes) \<Rightarrow> bytes \<Rightarrow> bytes \<Rightarrow> cbc_state \<Rightarrow> bool" where
  "cbc_holds enc c0 msg s \<longleftrightarrow>
     (\<exists>done rest. msg = concat done @ rest \<and> (\<forall>b \<in> set done. length b = 16) \<and> length rest < 16
        \<and> cbc_chain s = cbc_chain_ref enc done c0 \<and> length (cbc_chain s) = 16
        \<and> cbc_fill s = length rest \<and> length (cbc_block s) = 16 \<and> take (length rest) (cbc_block s) = rest)"

lemma cbc_append_holds:
  assumes "aes_works B enc" "cbc_holds (enc key) c0 msg s"
  shows "\<exists>s1. cbc_appendByte B key x s = Inr s1 \<and> cbc_holds (enc key) c0 (msg @ [x]) s1"
proof -
  obtain full rest where m: "msg = concat full @ rest" "\<forall>b \<in> set full. length b = 16" "length rest < 16"
      "cbc_chain s = cbc_chain_ref (enc key) full c0" "length (cbc_chain s) = 16"
      "cbc_fill s = length rest" "length (cbc_block s) = 16" "take (length rest) (cbc_block s) = rest"
    using assms(2) unfolding cbc_holds_def by blast
  let ?blk = "(cbc_block s)[length rest := x]"
  have tk: "take (Suc (length rest)) ?blk = rest @ [x]"
    using m(3,7,8) by (simp add: take_Suc_conv_app_nth)
  show ?thesis
  proof (cases "length rest = 15")
    case False
    then have "cbc_appendByte B key x s = Inr (s\<lparr>cbc_block := ?blk, cbc_fill := Suc (length rest)\<rparr>)"
      using m by (simp add: cbc_appendByte_def Let_def)
    moreover have "cbc_holds (enc key) c0 (msg @ [x]) (s\<lparr>cbc_block := ?blk, cbc_fill := Suc (length rest)\<rparr>)"
      unfolding cbc_holds_def using m tk False
      by (intro exI [of _ full] exI [of _ "rest @ [x]"]) simp
    ultimately show ?thesis by blast
  next
    case True
    then have blk: "?blk = rest @ [x]" using tk m(7) by simp
    let ?s1 = "s\<lparr>cbc_block := rest @ [x], cbc_fill := 16\<rparr>"
    let ?in = "xor_bytes (rest @ [x]) (cbc_chain s)"
    have p: "cbc_process B key (rest @ [x]) ?s1 = Inr (?s1\<lparr>cbc_block := ?in, cbc_chain := enc key ?in\<rparr>)"
      "length (enc key ?in) = 16"
      using cbc_process_works [OF assms(1), of "rest @ [x]" ?s1 key] True m(5) by simp_all
    then have "cbc_appendByte B key x s = Inr (s\<lparr>cbc_block := ?in, cbc_chain := enc key ?in, cbc_fill := 0\<rparr>)"
      using m(6) True blk by (simp add: cbc_appendByte_def Let_def)
    moreover have "cbc_holds (enc key) c0 (msg @ [x]) (s\<lparr>cbc_block := ?in, cbc_chain := enc key ?in, cbc_fill := 0\<rparr>)"
      unfolding cbc_holds_def using m p(2) True
      by (intro exI [of _ "full @ [rest @ [x]]"] exI [of _ "[]"]) (auto simp: cbc_chain_ref_def)
    ultimately show ?thesis by blast
  qed
qed

lemma cbc_appendBytes_holds:
  assumes "aes_works B enc" "cbc_holds (enc key) c0 msg s"
  shows "\<exists>s1. cbc_appendBytes B key xs s = Inr s1 \<and> cbc_holds (enc key) c0 (msg @ xs) s1"
  using assms(2)
proof (induction xs arbitrary: s msg)
  case (Cons x xs)
  obtain s1 where "cbc_appendByte B key x s = Inr s1" "cbc_holds (enc key) c0 (msg @ [x]) s1"
    using cbc_append_holds [OF assms(1) Cons.prems] by blast
  with Cons.IH [of "msg @ [x]" s1] show ?case by simp
qed simp

lemma blocks16_append: "length b = 16 \<Longrightarrow> blocks16 (b @ xs) = b # blocks16 xs"
  by (cases b) auto

lemma blocks16_concat: "\<forall>b \<in> set full. length b = 16 \<Longrightarrow> blocks16 (concat full @ rest) = full @ blocks16 rest"
  by (induction full) (simp_all add: blocks16_append)

lemma blocks16_short: "rest \<noteq> [] \<Longrightarrow> length rest < 16 \<Longrightarrow> blocks16 rest = [rest @ replicate (16 - length rest) 0]"
  by (cases rest) auto

lemma cbc_finish_holds:
  assumes "aes_works B enc" "cbc_holds (enc key) c0 msg s"
  shows "cbc_finish B key s = Inr (cbc_chain_ref (enc key) (blocks16 msg) c0)"
proof -
  obtain full rest where m: "msg = concat full @ rest" "\<forall>b \<in> set full. length b = 16" "length rest < 16"
      "cbc_chain s = cbc_chain_ref (enc key) full c0" "length (cbc_chain s) = 16"
      "cbc_fill s = length rest" "length (cbc_block s) = 16" "take (length rest) (cbc_block s) = rest"
    using assms(2) unfolding cbc_holds_def by blast
  show ?thesis
  proof (cases "rest = []")
    case True
    then show ?thesis using m blocks16_concat [of full "[]"] by (simp add: cbc_finish_def)
  next
    case False
    have "length (rest @ replicate (16 - length rest) 0) = 16" using m(3) by simp
    from cbc_process_works(1) [OF assms(1) this m(5), of key] False m show ?thesis
      by (simp add: cbc_finish_def blocks16_concat blocks16_short cbc_chain_ref_def)
  qed
qed

lemma div_256_drop_bit: "n div 256 = drop_bit 8 (n :: nat)"
  by (simp add: drop_bit_eq_div)

lemma cbc_mac_computed:
  assumes "aes_works B enc" "length block0 = 16"
  shows "cbc_compute B key block0 A P =
    Inr (cbc_mac_ref (enc key)
      (block0 # blocks16 ([of_nat (length A div 256), of_nat (length A)] @ A @ P)))"
proof -
  let ?n = "of_nat (length A) :: u64"
  have two: "ucast (drop_bit 8 ?n AND 0xFF) = (of_nat (length A div 256) :: u8)"
      "ucast (?n AND 0xFF) = (of_nat (length A) :: u8)"
    by (rule word8_eqI; simp add: bit_simps div_256_drop_bit)+
  let ?init = "\<lparr>cbc_chain = replicate 16 0, cbc_block = replicate 16 0, cbc_fill = 0\<rparr>"
  let ?in = "xor_bytes block0 (replicate 16 0)"
  let ?s = "?init\<lparr>cbc_block := ?in, cbc_chain := enc key ?in\<rparr>"
  have p: "cbc_process B key block0 ?init = Inr ?s" "length (enc key ?in) = 16"
    using cbc_process_works [OF assms, of ?init key] by simp_all
  have "cbc_holds (enc key) (enc key ?in) [] ?s"
    unfolding cbc_holds_def using p(2) assms(2)
    by (intro exI [of _ "[]"]) (simp add: cbc_chain_ref_def)
  from cbc_appendBytes_holds [OF assms(1) this, of "[of_nat (length A div 256), of_nat (length A)] @ A @ P"]
  obtain s1 where s1: "cbc_appendBytes B key ([of_nat (length A div 256), of_nat (length A)] @ A @ P) ?s = Inr s1"
      "cbc_holds (enc key) (enc key ?in) ([of_nat (length A div 256), of_nat (length A)] @ A @ P) s1"
    by auto
  have "aes_setKey B key = Inr ()" using assms(1) by (simp add: aes_works_def)
  with p s1(1) cbc_finish_holds [OF assms(1) s1(2)] show ?thesis
    unfolding cbc_compute_def Let_def two
    by (simp add: cbc_mac_ref_def cbc_chain_ref_def del: append_Cons append_Nil)
qed

lemma blocks16_length: "b \<in> set (blocks16 xs) \<Longrightarrow> length b = 16"
  by (induction xs rule: blocks16.induct) auto

lemma cbc_chain_ref_length:
  "aes_works B enc \<Longrightarrow> \<forall>b \<in> set bs. length b = 16 \<Longrightarrow> length c = 16 \<Longrightarrow> length (cbc_chain_ref (enc key) bs c) = 16"
  by (induction bs arbitrary: c) (simp_all add: cbc_chain_ref_def aes_works_def)

lemma cbc_mac_ref_length:
  "aes_works B enc \<Longrightarrow> length block0 = 16 \<Longrightarrow> length (cbc_mac_ref (enc key) (block0 # blocks16 xs)) = 16"
  unfolding cbc_mac_ref_def by (rule cbc_chain_ref_length) (auto simp: blocks16_length)

text \<open>
  C29. The MAC the streaming implementation computes octet by octet is the textbook CBC-MAC over the
  block \<open>B0\<close> followed by the length of the additional data in two octets, the additional data and
  the payload, cut into blocks of 16 octets with zeros at the end, for every key, message and block
  cipher. The length is taken modulo 65536.
\<close>

theorem cbc_mac_equivalent:
  assumes "aes_works B enc" "length block0 = 16"
  shows "cbc_compute B key block0 A P =
    Inr (cbc_mac_ref (enc key)
      (block0 # blocks16 ([of_nat (length A div 256), of_nat (length A)] @ A @ P)))"
  by (rule cbc_mac_computed [OF assms])

definition toy_aes :: aes_backend where
  "toy_aes = \<lparr>aes_setKey = \<lambda>_. Inr (), aes_encryptBlock = \<lambda>key b. Inr (xor_bytes b (replicate 16 0x5A))\<rparr>"

lemma toy_aes_works: "aes_works toy_aes (\<lambda>key b. xor_bytes b (replicate 16 0x5A))"
  by (simp add: aes_works_def toy_aes_def)

theorem cbc_mac_equivalent_witness:
  "cbc_compute toy_aes (replicate 16 7) (replicate 16 1) [2] [3, 4] =
     Inr (cbc_mac_ref (\<lambda>b. xor_bytes b (replicate 16 0x5A))
       (replicate 16 1 # blocks16 ([0, 1] @ [2] @ [3, 4])))"
  using cbc_mac_equivalent [OF toy_aes_works, of "replicate 16 1" "replicate 16 7" "[2]" "[3, 4]"] by simp

section \<open>The counter is a number\<close>

fun le_value :: "bytes \<Rightarrow> nat" where
  "le_value [] = 0"
| "le_value (c # cs) = unat c + 256 * le_value cs"

fun le_bytes :: "nat \<Rightarrow> nat \<Rightarrow> bytes" where
  "le_bytes 0 v = []"
| "le_bytes (Suc n) v = of_nat v # le_bytes n (v div 256)"

definition be_value :: "bytes \<Rightarrow> nat" where "be_value bs = le_value (rev bs)"
definition be_bytes :: "nat \<Rightarrow> nat \<Rightarrow> bytes" where "be_bytes n v = rev (le_bytes n v)"

lemma le_bytes_length [simp]: "length (le_bytes n v) = n"
  by (induction n arbitrary: v) simp_all

lemma of_nat_256_mult: "(of_nat (256 * k) :: u8) = 0"
proof -
  have "(256 :: u8) = 0" by simp
  then show ?thesis by (simp only: of_nat_mult of_nat_numeral mult_zero_left)
qed

lemma of_nat_u8_mod: "(of_nat (unat (c :: u8) + 256 * k) :: u8) = c"
proof -
  have "(of_nat (256 * k) :: u8) = 0" by (rule of_nat_256_mult)
  then show ?thesis by (simp del: of_nat_mult)
qed

lemma le_bytes_value [simp]: "le_bytes (length cs) (le_value cs) = cs"
proof (induction cs)
  case (Cons c cs)
  have "(unat c + 256 * le_value cs) div 256 = le_value cs" using unat_u8_lt [of c] by simp
  with Cons show ?case by (simp add: of_nat_u8_mod del: of_nat_add of_nat_mult)
qed simp

lemma inc_rev_value: "inc_rev cs = le_bytes (length cs) (le_value cs + 1)"
proof (induction cs)
  case (Cons c cs)
  show ?case
  proof (cases "c + 1 = 0")
    case False
    then have "unat (c + 1) = unat c + 1" by (simp add: unatSuc add.commute)
    then have lt: "unat c + 1 < 256" using unat_u8_lt [of "c + 1"] by simp
    have "(unat c + 256 * le_value cs + 1) div 256 = le_value cs" using lt by simp
    moreover have "(of_nat (unat c + 256 * le_value cs + 1) :: u8) = c + 1"
      using of_nat_u8_mod [of c "le_value cs"] by simp
    ultimately show ?thesis using False by (simp del: of_nat_add of_nat_mult of_nat_Suc)
  next
    case True
    then have "c = 255" by (simp add: eq_neg_iff_add_eq_0 [symmetric])
    then have c: "unat c = 255" by simp
    have "(255 + 256 * le_value cs + 1) div 256 = le_value cs + 1" by simp
    moreover have "(of_nat (255 + 256 * le_value cs + 1) :: u8) = 0"
      using of_nat_256_mult [of "le_value cs + 1"] by (simp add: ac_simps)
    ultimately show ?thesis using True c Cons.IH by (simp del: of_nat_add of_nat_mult of_nat_Suc)
  qed
qed simp

lemma inc_rev_length [simp]: "length (inc_rev cs) = length cs"
  by (simp add: inc_rev_value)

lemma le_value_bytes: "le_value (le_bytes n v) = v mod 256 ^ n"
proof (induction n arbitrary: v)
  case (Suc n)
  have "unat (of_nat v :: u8) = v mod 256" by (simp add: unat_of_nat)
  with Suc show ?case by (simp add: mod_mult2_eq)
qed simp

lemma le_bytes_mod: "le_bytes n (v mod 256 ^ n) = le_bytes n v"
  by (metis le_bytes_length le_bytes_value le_value_bytes)

lemma le_bytes_add: "le_bytes n (v mod 256 ^ n + k) = le_bytes n (v + k)"
  by (metis le_bytes_mod mod_add_left_eq)

lemma inc_counter_number: "inc_counter (be_bytes n v) = be_bytes n (v + 1)"
  by (simp add: inc_counter_def be_bytes_def inc_rev_value le_value_bytes le_bytes_add
      del: Suc_eq_plus1 add_Suc_right One_nat_def) 

lemma be_bytes_value [simp]: "length cs = n \<Longrightarrow> be_bytes n (be_value cs) = cs"
  using le_bytes_value [of "rev cs"] by (simp add: be_bytes_def be_value_def)

lemma be_bytes_length [simp]: "length (be_bytes n v) = n"
  by (simp add: be_bytes_def)

section \<open>Counter mode\<close>

text \<open>The reference: octet \<open>i\<close> is masked with octet \<open>i mod 16\<close> of the encryption of the counter
  plus \<open>i div 16\<close>, the counter being a 128-bit number.\<close>

definition ctr_ref :: "(bytes \<Rightarrow> bytes) \<Rightarrow> nat \<Rightarrow> bytes \<Rightarrow> bytes" where
  "ctr_ref enc v input =
     map (\<lambda>i. input ! i XOR enc (be_bytes 16 (v + i div 16)) ! (i mod 16)) [0..<length input]"

lemma ctr_ref_length [simp]: "length (ctr_ref enc v input) = length input"
  by (simp add: ctr_ref_def)

lemma ctr_ref_step:
  assumes "length (enc (be_bytes 16 v)) = 16" "input \<noteq> []"
  shows "ctr_ref enc v input = xor_bytes (take 16 input) (enc (be_bytes 16 v)) @ ctr_ref enc (v + 1) (drop 16 input)"
proof (rule nth_equalityI)
  show "length (ctr_ref enc v input) =
      length (xor_bytes (take 16 input) (enc (be_bytes 16 v)) @ ctr_ref enc (v + 1) (drop 16 input))"
    using assms(1) by simp
next
  fix i assume "i < length (ctr_ref enc v input)"
  then have i: "i < length input" by simp
  show "ctr_ref enc v input ! i =
      (xor_bytes (take 16 input) (enc (be_bytes 16 v)) @ ctr_ref enc (v + 1) (drop 16 input)) ! i"
  proof (cases "i < 16")
    case True
    then show ?thesis using i assms(1) by (simp add: ctr_ref_def xor_bytes_def nth_append)
  next
    case False
    then have "i div 16 = Suc ((i - 16) div 16)" "i mod 16 = (i - 16) mod 16"
      by (simp_all add: le_div_geq le_mod_geq)
    moreover have "i - 16 < length input - 16" using False i by linarith
    ultimately show ?thesis using False i assms(1) by (simp add: ctr_ref_def xor_bytes_def nth_append)
  qed
qed

lemma ctr_loop_ref:
  assumes "aes_works B enc"
  shows "ctr_loop B key (be_bytes 16 v) input = Inr (ctr_ref (enc key) v input)"
proof (induction "length input" arbitrary: input v rule: less_induct)
  case less
  show ?case
  proof (cases input)
    case Nil
    then show ?thesis by (simp add: ctr_ref_def)
  next
    case (Cons x xs)
    have e: "aes_encryptBlock B key (be_bytes 16 v) = Inr (enc key (be_bytes 16 v))"
      "length (enc key (be_bytes 16 v)) = 16"
      using assms by (simp_all add: aes_works_def)
    have "ctr_loop B key (be_bytes 16 (v + 1)) (drop 16 input) = Inr (ctr_ref (enc key) (v + 1) (drop 16 input))"
      by (rule less) (simp add: Cons)
    with e ctr_ref_step [of "enc key" v input] show ?thesis
      by (simp add: Cons inc_counter_number del: drop_Suc_Cons take_Suc_Cons)
  qed
qed

lemma ctr_crypt_ref:
  "aes_works B enc \<Longrightarrow> length counter0 = 16 \<Longrightarrow>
   ctr_crypt B key counter0 input = Inr (ctr_ref (enc key) (be_value counter0) input)"
  using ctr_loop_ref [of B enc key "be_value counter0" input] by (simp add: ctr_crypt_def aes_works_def)

lemma ctr_ref_twice: "ctr_ref enc v (ctr_ref enc v input) = input"
  by (rule nth_equalityI) (simp_all add: ctr_ref_def xor.assoc)

text \<open>
  Counter mode as implemented, with its octet-wise carry and its last partial block, is the
  reference counter mode with a 128-bit counter, for every key, start value and input; in
  particular it never fails and applying it twice gives the input back.
\<close>

theorem ctr_equivalent:
  assumes "aes_works B enc" "length counter0 = 16"
  shows "ctr_crypt B key counter0 input = Inr (ctr_ref (enc key) (be_value counter0) input)
    \<and> ctr_ref (enc key) (be_value counter0) (ctr_ref (enc key) (be_value counter0) input) = input"
  using ctr_crypt_ref [OF assms] ctr_ref_twice by blast

theorem ctr_equivalent_witness:
  "ctr_crypt toy_aes (replicate 16 7) (replicate 15 0 @ [0xFF]) (replicate 17 1) =
     Inr (ctr_ref (\<lambda>b. xor_bytes b (replicate 16 0x5A)) 255 (replicate 17 1))"
proof -
  have "be_value (replicate 15 0 @ [0xFF]) = 255" by code_simp
  then show ?thesis
    using ctr_equivalent [OF toy_aes_works, of "replicate 15 0 @ [0xFF]" "replicate 16 7" "replicate 17 1"] by simp
qed

end
