(* ===== verification/Netip_Secure.thy ===== *)
theory Netip_Secure
  imports Netip_Codec Secure_Primitives
begin

text \<open>
  KNXnet/IP Secure. The secure wrapper (\<open>src/netip/secure_wrapper.cpp\<close>) over the CBC-MAC and counter mode of
  \<open>Secure_Primitives\<close>; the key derivations (\<open>src/security/x25519.cpp\<close>, \<open>sha256.cpp\<close>,
  \<open>key_derivation.cpp\<close>) over the functions of the cryptographic library they call; the session packets
  (\<open>secure_session.cpp\<close>) and the handshake (\<open>secure_session_bootstrap.cpp\<close>).

  Shown: \<open>unwrapAndVerify\<close> accepts exactly what \<open>wrap\<close> makes with the same key and session, and returns what
  was wrapped; both ends of a handshake derive the same key and the server can open the client's
  authentication.
\<close>

section \<open>Writing into a caller's buffer\<close>

definition put_at :: "nat \<Rightarrow> bytes \<Rightarrow> bytes \<Rightarrow> bytes" where
  "put_at k xs buf = take k buf @ xs @ drop (k + length xs) buf"

lemma put_at_length [simp]: "k + length xs \<le> length buf \<Longrightarrow> length (put_at k xs buf) = length buf"
  by (simp add: put_at_def)

lemma put_at_append: "length as = k \<Longrightarrow> length bs = length xs \<Longrightarrow> put_at k xs (as @ bs @ cs) = as @ xs @ cs"
  by (simp add: put_at_def)

lemma put_at_take:
  "k + length xs \<le> length buf \<Longrightarrow> take k buf = as \<Longrightarrow> take (k + length xs) (put_at k xs buf) = as @ xs"
  by (auto simp: put_at_def)

section \<open>The secure wrapper (src/netip/secure\_wrapper.cpp)\<close>

definition kServiceTypeSecureWrapper :: u16 where "kServiceTypeSecureWrapper = 0x0950"
definition sw_kOverhead :: nat where "sw_kOverhead = 38"
definition sw_kMacLen :: nat where "sw_kMacLen = 16"
definition kWrapperBodyOffset :: nat where "kWrapperBodyOffset = 22"

text \<open>\<open>writeHeader\<close> ignores the error of \<open>encodeHeader\<close>. A total length below the length of the header
  makes the payload length wrap around to one that \<open>encodeHeader\<close> refuses.\<close>

definition sw_writeHeader :: "u16 \<Rightarrow> bytes \<Rightarrow> bytes" where
  "sw_writeHeader tlen out =
     (if unat tlen < kHeaderLen then out
      else case encodeHeader kServiceTypeSecureWrapper (unat tlen - kHeaderLen) of
             Inl e \<Rightarrow> out
           | Inr (h, _) \<Rightarrow> put_at 0 h out)"

definition writeSessionId :: "u16 \<Rightarrow> bytes" where
  "writeSessionId sid = [getHighByte sid, getLowByte sid]"

definition makeAdditionalData :: "bytes \<Rightarrow> u16 \<Rightarrow> bytes" where
  "makeAdditionalData header sid = header @ writeSessionId sid"

definition makeBlock0 :: "bytes \<Rightarrow> bytes \<Rightarrow> bytes \<Rightarrow> nat \<Rightarrow> bytes" where
  "makeBlock0 sq serial tag payloadLen =
     sq @ serial @ [tag ! 0, tag ! 1, of_nat (drop_bit 8 payloadLen), of_nat payloadLen]"

definition incrementCounter :: "bytes \<Rightarrow> bytes" where "incrementCounter counter = inc_counter counter"

definition makeCounter :: "bytes \<Rightarrow> bytes \<Rightarrow> bytes \<Rightarrow> bytes" where
  "makeCounter sq serial suffix = sq @ serial @ suffix"

definition sw_decodeHeader :: "bytes \<Rightarrow> knxnetip_header result" where
  "sw_decodeHeader bs =
     (case decodeHeader bs of
        Inl e \<Rightarrow> Inl e
      | Inr h \<Rightarrow> if unat (totalLength h) > length bs then Inl InvalidFrameSize else Inr h)"

text \<open>The state of the caller's buffer and the result. The arrays have the lengths of their types: the
  sequence and the serial number six octets, the tag two, the counter suffix four. What a failing cipher leaves
  in the buffer behind the header is not modelled. The total length has 16 bits: for an inner frame of more
  than 65497 octets it wraps around, and the code may write behind the end of the buffer.\<close>

definition sw_wrap ::
  "aes_backend \<Rightarrow> bytes \<Rightarrow> u16 \<Rightarrow> bytes \<Rightarrow> bytes \<Rightarrow> bytes \<Rightarrow> bytes \<Rightarrow> bytes \<Rightarrow> bytes \<Rightarrow> bytes \<times> nat result" where
  "sw_wrap B key sid sq serial tag suffix inner out =
     (let tlen = of_nat (sw_kOverhead + length inner) :: u16 in
      if length out < unat tlen then (out, Inl BufferTooSmall)
      else
        let o1 = sw_writeHeader tlen out;
            o2 = put_at 6 (writeSessionId sid) o1;
            o3 = put_at 20 tag (put_at 14 serial (put_at 8 sq o2));
            additionalData = makeAdditionalData (take 6 o3) sid;
            ctr0 = makeCounter sq serial suffix
        in case cbc_compute B key (makeBlock0 sq serial tag (length inner)) additionalData inner of
             Inl e \<Rightarrow> (o3, Inl e)
           | Inr mac \<Rightarrow>
               (case ctr_crypt B key ctr0 mac of
                  Inl e \<Rightarrow> (o3, Inl e)
                | Inr encMac \<Rightarrow>
                    (case (if inner = [] then Inr [] else ctr_crypt B key (incrementCounter ctr0) inner) of
                       Inl e \<Rightarrow> (o3, Inl e)
                     | Inr c \<Rightarrow> (put_at (kWrapperBodyOffset + length inner) encMac (put_at kWrapperBodyOffset c o3),
                                 Inr (unat tlen)))))"

definition unwrap_suffix :: "u16 \<Rightarrow> bytes \<Rightarrow> bytes" where
  "unwrap_suffix sid tag =
     (if tag ! 0 = 0 \<and> tag ! 1 = 0 \<and> sid \<noteq> 0 then [0x00, 0x00, 0xFF, 0x00] else [tag ! 0, tag ! 1, 0xFF, 0x00])"

definition sw_unwrapAndVerify ::
  "aes_backend \<Rightarrow> bytes \<Rightarrow> u16 \<Rightarrow> bytes \<Rightarrow> bytes \<Rightarrow> bytes \<times> nat result" where
  "sw_unwrapAndVerify B key expected wrapper out =
     (case sw_decodeHeader wrapper of
        Inl e \<Rightarrow> (out, Inl e)
      | Inr h \<Rightarrow>
          if serviceType h \<noteq> kServiceTypeSecureWrapper then (out, Inl DecodeFailed)
          else if unat (totalLength h) < sw_kOverhead then (out, Inl DecodeFailed)
          else if length wrapper < sw_kOverhead then (out, Inl InvalidFrameSize)
          else let encLen = unat (totalLength h) - kWrapperBodyOffset in
          if encLen < sw_kMacLen then (out, Inl DecodeFailed)
          else let innerLen = encLen - sw_kMacLen in
          if length out < innerLen then (out, Inl BufferTooSmall)
          else let sid = word_be (wrapper ! 6) (wrapper ! 7) in
          if sid \<noteq> expected then (out, Inl InvalidParameter)
          else let sq = take 6 (drop 8 wrapper); serial = take 6 (drop 14 wrapper); tag = take 2 (drop 20 wrapper);
                   ctr0 = makeCounter sq serial (unwrap_suffix sid tag)
          in case ctr_crypt B key ctr0 (take sw_kMacLen (drop (kWrapperBodyOffset + innerLen) wrapper)) of
               Inl e \<Rightarrow> (out, Inl e)
             | Inr macTr \<Rightarrow>
                 (case (if innerLen > 0
                        then ctr_crypt B key (incrementCounter ctr0) (take innerLen (drop kWrapperBodyOffset wrapper))
                        else Inr []) of
                    Inl e \<Rightarrow> (out, Inl e)
                  | Inr plain \<Rightarrow>
                      (let out1 = put_at 0 plain out in
                       case cbc_compute B key (makeBlock0 sq serial tag innerLen)
                              (makeAdditionalData (take 6 wrapper) sid) (take innerLen out1) of
                         Inl e \<Rightarrow> (out1, Inl e)
                       | Inr mac \<Rightarrow> if mac \<noteq> macTr then (out1, Inl DecodeFailed) else (out1, Inr innerLen))))"

section \<open>The wrapped frame\<close>

text \<open>What a wrapped frame is: header, session, sequence number, serial number, tag, encrypted frame and
  encrypted authentication code.\<close>

definition wrapper_header :: "nat \<Rightarrow> bytes" where
  "wrapper_header n =
     [6, 0x10, 0x09, 0x50, getHighByte (of_nat (38 + n) :: u16), getLowByte (of_nat (38 + n) :: u16)]"

definition wrapper_fields :: "u16 \<Rightarrow> bytes \<Rightarrow> bytes \<Rightarrow> bytes \<Rightarrow> bytes" where
  "wrapper_fields sid sq serial tag = writeSessionId sid @ sq @ serial @ tag"

definition wrapper_counter :: "bytes \<Rightarrow> bytes \<Rightarrow> bytes \<Rightarrow> bytes" where
  "wrapper_counter sq serial tag = makeCounter sq serial [tag ! 0, tag ! 1, 0xFF, 0x00]"

definition wrapper_mac :: "(bytes \<Rightarrow> bytes) \<Rightarrow> u16 \<Rightarrow> bytes \<Rightarrow> bytes \<Rightarrow> bytes \<Rightarrow> bytes \<Rightarrow> bytes" where
  "wrapper_mac enc sid sq serial tag inner =
     cbc_mac_ref enc (makeBlock0 sq serial tag (length inner)
       # blocks16 ([0, 8] @ (wrapper_header (length inner) @ writeSessionId sid) @ inner))"

definition wrapped :: "(bytes \<Rightarrow> bytes) \<Rightarrow> u16 \<Rightarrow> bytes \<Rightarrow> bytes \<Rightarrow> bytes \<Rightarrow> bytes \<Rightarrow> bytes" where
  "wrapped enc sid sq serial tag inner =
     wrapper_header (length inner) @ wrapper_fields sid sq serial tag
     @ ctr_ref enc (be_value (incrementCounter (wrapper_counter sq serial tag))) inner
     @ ctr_ref enc (be_value (wrapper_counter sq serial tag)) (wrapper_mac enc sid sq serial tag inner)"

lemma unwrap_suffix_tag: "unwrap_suffix sid tag = [tag ! 0, tag ! 1, 0xFF, 0x00]"
  by (auto simp: unwrap_suffix_def)

lemma wrapper_lengths [simp]:
  "length (wrapper_header n) = 6" "length (writeSessionId sid) = 2"
  "length sq = 6 \<Longrightarrow> length serial = 6 \<Longrightarrow> length tag = 2 \<Longrightarrow> length (wrapper_fields sid sq serial tag) = 16"
  "length sq = 6 \<Longrightarrow> length serial = 6 \<Longrightarrow> length (wrapper_counter sq serial tag) = 16"
  "length sq = 6 \<Longrightarrow> length serial = 6 \<Longrightarrow> length (makeBlock0 sq serial tag n) = 16"
  "length (incrementCounter c) = length c"
  by (simp_all add: wrapper_header_def wrapper_fields_def writeSessionId_def wrapper_counter_def makeCounter_def
      makeBlock0_def incrementCounter_def inc_counter_def)

lemma wrapper_mac_length [simp]:
  "aes_works B enc \<Longrightarrow> length sq = 6 \<Longrightarrow> length serial = 6 \<Longrightarrow>
   length (wrapper_mac (enc key) sid sq serial tag inner) = 16"
  unfolding wrapper_mac_def by (rule cbc_mac_ref_length) simp_all

lemma wrapped_length [simp]:
  assumes "aes_works B enc" "length sq = 6" "length serial = 6" "length tag = 2"
  shows "length (wrapped (enc key) sid sq serial tag inner) = 38 + length inner"
  using assms wrapper_mac_length [OF assms(1-3)] by (simp add: wrapped_def)

lemma wrapper_mac_computed:
  assumes "aes_works B enc" "length sq = 6" "length serial = 6"
  shows "cbc_compute B key (makeBlock0 sq serial tag (length inner))
     (makeAdditionalData (wrapper_header (length inner)) sid) inner = Inr (wrapper_mac (enc key) sid sq serial tag inner)"
  using cbc_mac_computed [OF assms(1), of "makeBlock0 sq serial tag (length inner)" key
      "makeAdditionalData (wrapper_header (length inner)) sid" inner] assms(2,3)
  by (simp add: wrapper_mac_def makeAdditionalData_def)

lemma ctr_ref_Nil [simp]: "ctr_ref enc v [] = []"
  by (simp add: ctr_ref_def)

lemma ctr_crypt_guarded:
  "aes_works B enc \<Longrightarrow> length c = 16 \<Longrightarrow> length xs = n \<Longrightarrow>
   (if n > 0 then ctr_crypt B key c xs else Inr []) = Inr (ctr_ref (enc key) (be_value c) xs)"
  by (auto simp: ctr_crypt_ref ctr_ref_def)

lemma put_at_prefix: "length as = k \<Longrightarrow> put_at k xs (as @ drop k buf) = (as @ xs) @ drop (k + length xs) buf"
  by (simp add: put_at_def add.commute)

lemma unat_wrapper_total: "38 + n \<le> 65535 \<Longrightarrow> unat (of_nat (38 + n) :: u16) = 38 + n"
  by (intro unat_of_nat_u16) simp

lemma sw_writeHeader_ok:
  assumes "38 + n \<le> 65535"
  shows "sw_writeHeader (of_nat (38 + n)) out = wrapper_header n @ drop 6 out"
proof -
  have "n + 32 \<le> 65529" "6 + (n + 32) = 38 + n" using assms by simp_all
  then have "encodeHeader kServiceTypeSecureWrapper (38 + n - 6) = Inr (wrapper_header n, of_nat (38 + n))"
    by (simp add: wrapper_header_def kServiceTypeSecureWrapper_def getHighByte_def getLowByte_def del: of_nat_add)
  then show ?thesis using unat_wrapper_total [OF assms]
    by (simp add: sw_writeHeader_def kHeaderLen_def put_at_def del: of_nat_add)
qed

text \<open>\<open>wrap\<close> writes this frame and nothing behind it.\<close>

lemma sw_wrap_wrapped:
  assumes "aes_works B enc" "length sq = 6" "length serial = 6" "length tag = 2"
    and "38 + length inner \<le> 65535" "38 + length inner \<le> length out"
  shows "sw_wrap B key sid sq serial tag [tag ! 0, tag ! 1, 0xFF, 0x00] inner out =
    (wrapped (enc key) sid sq serial tag inner @ drop (38 + length inner) out, Inr (38 + length inner))"
proof -
  let ?h = "wrapper_header (length inner)" and ?c = "wrapper_counter sq serial tag"
  let ?m = "wrapper_mac (enc key) sid sq serial tag inner"
  let ?o3 = "(?h @ wrapper_fields sid sq serial tag) @ drop 22 out"
  have o3: "put_at 20 tag (put_at 14 serial (put_at 8 sq (put_at 6 (writeSessionId sid) (?h @ drop 6 out)))) = ?o3"
    using assms(2-4) by (simp add: put_at_prefix wrapper_fields_def del: append_assoc)
  have c: "makeCounter sq serial [tag ! 0, tag ! 1, 0xFF, 0x00] = ?c" by (simp add: wrapper_counter_def)
  have mac: "cbc_compute B key (makeBlock0 sq serial tag (length inner)) (makeAdditionalData (take 6 ?o3) sid) inner = Inr ?m"
    using wrapper_mac_computed [OF assms(1-3)] by simp
  have e: "ctr_crypt B key ?c ?m = Inr (ctr_ref (enc key) (be_value ?c) ?m)"
    "(if inner = [] then Inr [] else ctr_crypt B key (incrementCounter ?c) inner) =
       Inr (ctr_ref (enc key) (be_value (incrementCounter ?c)) inner)"
    using ctr_crypt_guarded [OF assms(1), of "incrementCounter ?c" inner "length inner"] assms(2,3)
    by (simp_all add: ctr_crypt_ref [OF assms(1)] split: if_splits)
  have "put_at (22 + length inner) (ctr_ref (enc key) (be_value ?c) ?m)
      (put_at 22 (ctr_ref (enc key) (be_value (incrementCounter ?c)) inner) ?o3) =
      wrapped (enc key) sid sq serial tag inner @ drop (38 + length inner) out"
    using assms(2-4) wrapper_mac_length [OF assms(1-3)]
    by (simp add: put_at_prefix wrapped_def del: append_assoc)
  then show ?thesis
    unfolding sw_wrap_def sw_kOverhead_def kWrapperBodyOffset_def Let_def sw_writeHeader_ok [OF assms(5)] o3 c mac sum.case(2) e
    using assms(6) unat_wrapper_total [OF assms(5)] by (simp del: of_nat_add)
qed

text \<open>A received frame that passes the header checks has the form of a wrapped frame.\<close>

lemma take_drop_parts:
  "a + b \<le> length xs \<Longrightarrow> take (a + b) xs = take a xs @ take b (drop a xs)"
  by (simp add: take_add)

lemma header_octets:
  assumes "sw_decodeHeader w = Inr h" "serviceType h = kServiceTypeSecureWrapper" "unat (totalLength h) = 38 + n"
  shows "38 + n \<le> length w" "38 + n \<le> 65535" "take 6 w = wrapper_header n"
proof -
  have d: "6 \<le> length w" "w ! 0 = 6" "w ! 1 = 0x10" "word_be (w ! 2) (w ! 3) = 0x0950"
    "word_be (w ! 4) (w ! 5) = totalLength h" "unat (totalLength h) \<le> length w"
    using assms(1,2) by (auto simp: sw_decodeHeader_def decodeHeader_def kHeaderLen_def kVersion_def Let_def
        kServiceTypeSecureWrapper_def not_less split: sum.splits if_splits)
  show "38 + n \<le> length w" using d(6) assms(3) by simp
  have "unat (totalLength h) < 2 ^ 16" using unsigned_less [of "totalLength h"] by simp
  then show "38 + n \<le> 65535" using assms(3) by simp
  have t: "totalLength h = of_nat (38 + n)" using assms(3) by (metis of_nat_unat ucast_id)
  have b: "w ! 2 = 0x09" "w ! 3 = 0x50" "w ! 4 = getHighByte (of_nat (38 + n))" "w ! 5 = getLowByte (of_nat (38 + n))"
    using d(4,5) getHighByte_word_be [of "w ! 2" "w ! 3"] getLowByte_word_be [of "w ! 2" "w ! 3"]
      getHighByte_word_be [of "w ! 4" "w ! 5"] getLowByte_word_be [of "w ! 4" "w ! 5"]
    unfolding t by (simp_all add: getHighByte_def getLowByte_def del: of_nat_add)
  show "take 6 w = wrapper_header n"
    by (rule nth_equalityI) (use d(1-3) b in \<open>auto simp: wrapper_header_def less_Suc_eq numeral_eq_Suc simp del: of_nat_add of_nat_Suc\<close>)
qed

lemma sw_decodeHeader_wrapper:
  assumes "38 + n \<le> 65535" "n + 32 \<le> length body"
  shows "sw_decodeHeader (wrapper_header n @ body) = Inr \<lparr>serviceType = kServiceTypeSecureWrapper, totalLength = of_nat (38 + n)\<rparr>"
proof -
  have w: "word_be 9 0x50 = kServiceTypeSecureWrapper" by (simp add: word_be_def kServiceTypeSecureWrapper_def)
  show ?thesis using assms(2) unat_wrapper_total [OF assms(1)]
    by (simp add: sw_decodeHeader_def decodeHeader_def wrapper_header_def kHeaderLen_def kVersion_def w Let_def
        del: of_nat_add)
qed

text \<open>What \<open>unwrapAndVerify\<close> does with a frame of that form.\<close>

lemma sw_unwrap_form:
  fixes sid key sq serial tag c m rest
  defines "v \<equiv> be_value (wrapper_counter sq serial tag)"
    and "v1 \<equiv> be_value (incrementCounter (wrapper_counter sq serial tag))"
  assumes "aes_works B enc" "length sq = 6" "length serial = 6" "length tag = 2"
    and "length c = n" "length m = 16" "38 + n \<le> 65535" "n \<le> length out"
  shows "sw_unwrapAndVerify B key expected (wrapper_header n @ wrapper_fields sid sq serial tag @ c @ m @ rest) out =
    (if sid \<noteq> expected then (out, Inl InvalidParameter)
     else (ctr_ref (enc key) v1 c @ drop n out,
           if wrapper_mac (enc key) sid sq serial tag (ctr_ref (enc key) v1 c) = ctr_ref (enc key) v m
           then Inr n else Inl DecodeFailed))"
proof -
  define w where "w = wrapper_header n @ wrapper_fields sid sq serial tag @ c @ m @ rest"
  have l: "length (wrapper_fields sid sq serial tag) = 16" using assms(4-6) by simp
  have parts: "take 6 (drop 8 w) = sq" "take 6 (drop 14 w) = serial" "take 2 (drop 20 w) = tag"
    "take 6 w = wrapper_header n"
    "w ! 6 = getHighByte sid" "w ! 7 = getLowByte sid" "38 \<le> length w"
    using assms(4-8) by (simp_all add: w_def wrapper_fields_def writeSessionId_def nth_append)
  have body: "take n (drop 22 w) = c" "take 16 (drop (22 + n) w) = m" using l assms(7,8) by (simp_all add: w_def)
  have h: "sw_decodeHeader w = Inr \<lparr>serviceType = kServiceTypeSecureWrapper, totalLength = of_nat (38 + n)\<rparr>"
    unfolding w_def by (rule sw_decodeHeader_wrapper) (use assms l in simp_all)
  have cnt: "makeCounter sq serial (unwrap_suffix sid tag) = wrapper_counter sq serial tag"
    by (simp add: unwrap_suffix_tag wrapper_counter_def)
  have l16: "length (wrapper_counter sq serial tag) = 16" using assms(4,5) by simp
  have mac: "cbc_compute B key (makeBlock0 sq serial tag n) (makeAdditionalData (wrapper_header n) sid)
      (take n (put_at 0 (ctr_ref (enc key) v1 c) out)) = Inr (wrapper_mac (enc key) sid sq serial tag (ctr_ref (enc key) v1 c))"
    using wrapper_mac_computed [OF assms(3-5), of key tag "ctr_ref (enc key) v1 c" sid] assms(7) by (simp add: put_at_def)
  have e: "ctr_crypt B key (wrapper_counter sq serial tag) m = Inr (ctr_ref (enc key) v m)"
    "(if n > 0 then ctr_crypt B key (incrementCounter (wrapper_counter sq serial tag)) c else Inr []) =
       Inr (ctr_ref (enc key) v1 c)"
    using ctr_crypt_ref [OF assms(3) l16] ctr_crypt_guarded [OF assms(3), of "incrementCounter (wrapper_counter sq serial tag)" c n]
      l16 assms(7) by (simp_all add: v_def v1_def)
  have len: "38 + n - 22 - 16 = n" by simp
  show ?thesis
    unfolding w_def [symmetric] sw_unwrapAndVerify_def h sum.case knxnetip_header.simps sw_kOverhead_def
      kWrapperBodyOffset_def sw_kMacLen_def unat_wrapper_total [OF assms(9)] Let_def len parts word_be_bytes cnt body e mac
    using assms(7,10) parts(7) by (auto simp: put_at_def)
qed

lemma sw_unwrap_inv:
  assumes "sw_unwrapAndVerify B key sid w out = (out', Inr n)"
  shows "\<exists>sq serial tag c m rest. length sq = 6 \<and> length serial = 6 \<and> length tag = 2 \<and> length c = n \<and> length m = 16 \<and>
    38 + n \<le> 65535 \<and> n \<le> length out \<and> w = wrapper_header n @ wrapper_fields sid sq serial tag @ c @ m @ rest"
proof -
  obtain h where h: "sw_decodeHeader w = Inr h" "serviceType h = kServiceTypeSecureWrapper"
    "38 \<le> unat (totalLength h)" "n = unat (totalLength h) - 22 - 16" "n \<le> length out"
    "word_be (w ! 6) (w ! 7) = sid"
    using assms by (auto simp: sw_unwrapAndVerify_def Let_def sw_kOverhead_def kWrapperBodyOffset_def sw_kMacLen_def
        split: sum.splits if_splits)
  then have t: "unat (totalLength h) = 38 + n" by simp
  note o1 = header_octets [OF h(1,2) t]
  have sid: "take 2 (drop 6 w) = writeSessionId sid"
    by (rule nth_equalityI) (use h(6) o1(1) in \<open>auto simp: writeSessionId_def less_Suc_eq numeral_2_eq_2\<close>)
  have f: "take 16 (drop 6 w) = wrapper_fields sid (take 6 (drop 8 w)) (take 6 (drop 14 w)) (take 2 (drop 20 w))"
    using take_add [of 2 14 "drop 6 w"] take_add [of 6 8 "drop 8 w"] take_add [of 6 2 "drop 14 w"]
    by (simp add: wrapper_fields_def sid)
  have "w = take 6 w @ take 16 (drop 6 w) @ take n (drop 22 w) @ take 16 (drop (22 + n) w) @ drop (38 + n) w"
    using append_take_drop_id [of 6 w] append_take_drop_id [of 16 "drop 6 w"] append_take_drop_id [of n "drop 22 w"]
      append_take_drop_id [of 16 "drop (22 + n) w"] by (simp add: add.commute add.left_commute)
  then have w: "w = wrapper_header n @ wrapper_fields sid (take 6 (drop 8 w)) (take 6 (drop 14 w)) (take 2 (drop 20 w)) @
      take n (drop 22 w) @ take 16 (drop (22 + n) w) @ drop (38 + n) w"
    unfolding f o1(3) .
  have "length (take 6 (drop 8 w)) = 6" "length (take 6 (drop 14 w)) = 6" "length (take 2 (drop 20 w)) = 2"
    "length (take n (drop 22 w)) = n" "length (take 16 (drop (22 + n) w)) = 16" using o1(1) by simp_all
  with w o1(2) h(5) show ?thesis by blast
qed

lemma sw_unwrap_wrapped:
  assumes "aes_works B enc"
  shows "sw_unwrapAndVerify B key sid w out = (out', Inr n) \<longleftrightarrow>
    (\<exists>sq serial tag inner rest. length sq = 6 \<and> length serial = 6 \<and> length tag = 2 \<and> length inner = n \<and>
       38 + n \<le> 65535 \<and> n \<le> length out \<and> w = wrapped (enc key) sid sq serial tag inner @ rest \<and> out' = inner @ drop n out)"
    (is "?L \<longleftrightarrow> ?R")
proof
  assume L: ?L
  from sw_unwrap_inv [OF L] obtain sq serial tag c m rest where
    l: "length sq = 6" "length serial = 6" "length tag = 2" "length c = n" "length m = 16" "38 + n \<le> 65535" "n \<le> length out"
    and w: "w = wrapper_header n @ wrapper_fields sid sq serial tag @ c @ m @ rest" by blast
  let ?v = "be_value (wrapper_counter sq serial tag)" and ?v1 = "be_value (incrementCounter (wrapper_counter sq serial tag))"
  let ?p = "ctr_ref (enc key) ?v1 c"
  have "wrapper_mac (enc key) sid sq serial tag ?p = ctr_ref (enc key) ?v m" "out' = ?p @ drop n out"
    using L unfolding w sw_unwrap_form [OF assms l] by (simp_all split: if_splits)
  then have "w = wrapped (enc key) sid sq serial tag ?p @ rest" "out' = ?p @ drop n out"
    using l(4) by (simp_all add: w wrapped_def ctr_ref_twice)
  with l show ?R by (intro exI [of _ sq] exI [of _ serial] exI [of _ tag] exI [of _ ?p] exI [of _ rest]) simp
next
  assume ?R
  then obtain sq serial tag inner rest where
    l: "length sq = 6" "length serial = 6" "length tag = 2" "length inner = n" "38 + n \<le> 65535" "n \<le> length out"
    and w: "w = wrapped (enc key) sid sq serial tag inner @ rest" "out' = inner @ drop n out" by blast
  let ?v = "be_value (wrapper_counter sq serial tag)" and ?v1 = "be_value (incrementCounter (wrapper_counter sq serial tag))"
  have "length (ctr_ref (enc key) ?v1 inner) = n" "length (ctr_ref (enc key) ?v (wrapper_mac (enc key) sid sq serial tag inner)) = 16"
    using l wrapper_mac_length [OF assms l(1,2)] by simp_all
  from sw_unwrap_form [OF assms l(1-3) this l(5,6)] show ?L
    using l(4) by (simp add: w wrapped_def ctr_ref_twice)
qed

text \<open>
  C12. The secure wrapper is sound and complete. A frame is accepted by \<open>unwrapAndVerify\<close> under a key and
  session, with a plain frame of \<open>n\<close> octets, exactly if the received octets are what \<open>wrap\<close> writes for this
  plain frame under this key and session with some sequence number, serial number and tag, possibly followed by
  other octets; the plain frame that comes out is the one that was wrapped. So every frame that was wrapped
  can be opened, and no octet of it can be changed unless the result is itself a frame \<open>wrap\<close> makes with that key.
  The counter suffix given to \<open>wrap\<close> is the tag followed by FF 00, the whole wrapper has at most 65535 octets, the
  plain frame fits the caller's buffer, and the block cipher encrypts as its interface says. Whether a sequence number
  was seen before is not looked at.
\<close>

theorem wrapper_accepts_exactly_wrapped:
  assumes "aes_works B enc"
  shows "sw_unwrapAndVerify B key sid w out = (out', Inr n) \<longleftrightarrow>
    (\<exists>sq serial tag inner w0 rest. length sq = 6 \<and> length serial = 6 \<and> length tag = 2 \<and> length inner = n \<and>
       38 + n \<le> 65535 \<and> n \<le> length out \<and>
       sw_wrap B key sid sq serial tag [tag ! 0, tag ! 1, 0xFF, 0x00] inner (replicate (38 + n) 0) = (w0, Inr (38 + n)) \<and>
       w = w0 @ rest \<and> out' = inner @ drop n out)"
proof -
  have w: "(\<exists>w0 rest. length sq = 6 \<and> length serial = 6 \<and> length tag = 2 \<and> length inner = n \<and> 38 + n \<le> 65535 \<and> n \<le> length out \<and>
        sw_wrap B key sid sq serial tag [tag ! 0, tag ! 1, 0xFF, 0x00] inner (replicate (38 + n) 0) = (w0, Inr (38 + n)) \<and>
        w = w0 @ rest \<and> out' = inner @ drop n out) \<longleftrightarrow>
      (\<exists>rest. length sq = 6 \<and> length serial = 6 \<and> length tag = 2 \<and> length inner = n \<and> 38 + n \<le> 65535 \<and> n \<le> length out \<and>
        w = wrapped (enc key) sid sq serial tag inner @ rest \<and> out' = inner @ drop n out)" (is "?A = ?B") for sq serial tag inner
  proof (cases "length sq = 6 \<and> length serial = 6 \<and> length tag = 2 \<and> length inner = n \<and> 38 + n \<le> 65535")
    case True
    then have "sw_wrap B key sid sq serial tag [tag ! 0, tag ! 1, 0xFF, 0x00] inner (replicate (38 + n) 0) =
        (wrapped (enc key) sid sq serial tag inner, Inr (38 + n))"
      using sw_wrap_wrapped [OF assms, of sq serial tag inner "replicate (38 + n) 0" key sid] by simp
    then show ?thesis by auto
  qed auto
  show ?thesis unfolding sw_unwrap_wrapped [OF assms] w ..
qed

definition sample_wrapper :: bytes where
  "sample_wrapper = wrapped (\<lambda>b. xor_bytes b (replicate 16 0x5A)) 5 [0, 0, 0, 0, 0, 1] [1, 2, 3, 4, 5, 6] [0, 0]
     [6, 0x10, 0x09, 0x54, 0, 8, 0, 0]"

theorem wrapper_accepts_exactly_wrapped_witness:
  "sw_unwrapAndVerify toy_aes (replicate 16 7) 5 (sample_wrapper @ [9]) (replicate 10 1) =
     ([6, 0x10, 0x09, 0x54, 0, 8, 0, 0, 1, 1], Inr 8)"
proof -
  have "sw_wrap toy_aes (replicate 16 7) 5 [0, 0, 0, 0, 0, 1] [1, 2, 3, 4, 5, 6] [0, 0] [[0, 0] ! 0, [0, 0] ! 1, 0xFF, 0x00]
      [6, 0x10, 0x09, 0x54, 0, 8, 0, 0] (replicate (38 + 8) 0) = (sample_wrapper, Inr (38 + 8))"
    using sw_wrap_wrapped [OF toy_aes_works, of "[0, 0, 0, 0, 0, 1]" "[1, 2, 3, 4, 5, 6]" "[0, 0]" "[6, 0x10, 0x09, 0x54, 0, 8, 0, 0]"
        "replicate 46 0" "replicate 16 7" 5] by (simp add: sample_wrapper_def)
  moreover have "drop 8 (replicate 10 1) = [1, 1 :: u8]" by (simp add: numeral_eq_Suc)
  ultimately show ?thesis
    unfolding wrapper_accepts_exactly_wrapped [OF toy_aes_works]
    by (intro exI [of _ "[0, 0, 0, 0, 0, 1]"] exI [of _ "[1, 2, 3, 4, 5, 6]"] exI [of _ "[0, 0]"]
        exI [of _ "[6, 0x10, 0x09, 0x54, 0, 8, 0, 0]"] exI [of _ sample_wrapper] exI [of _ "[9]"] conjI) simp_all
qed

section \<open>Keys (src/security/x25519.cpp, sha256.cpp, key\_derivation.cpp)\<close>

text \<open>The functions of the cryptographic library: multiplication of the base point and of a given point by a
  scalar in little-endian octets, with the octets the library writes for the product; SHA-256; PBKDF2 with
  HMAC-SHA-256 for a number of octets. \<open>None\<close> is a failure code.\<close>

record crypto_library =
  cl_mulBase :: "bytes \<Rightarrow> bytes option"
  cl_mulPoint :: "bytes \<Rightarrow> bytes \<Rightarrow> bytes option"
  cl_hasSha256 :: bool
  cl_sha256 :: "bytes \<Rightarrow> bytes option"
  cl_setup :: bool
  cl_pbkdf2 :: "bytes \<Rightarrow> bytes \<Rightarrow> u32 \<Rightarrow> nat \<Rightarrow> bytes option"

definition clamp_scalar :: "bytes \<Rightarrow> bytes" where
  "clamp_scalar priv = (priv[0 := priv ! 0 AND 248])[31 := (priv ! 31 AND 127) OR 64]"

definition point_to_u32 :: "bytes \<Rightarrow> bytes option" where
  "point_to_u32 written =
     (if length written = 32 then Some written
      else if length written = 33 \<and> written ! 0 = 0x04 then Some (take 32 (drop 1 written))
      else if length written = 65 \<and> written ! 0 = 0x04 then Some (take 32 (drop 1 written))
      else None)"

definition publicFromPrivate :: "crypto_library \<Rightarrow> bytes \<Rightarrow> bytes result" where
  "publicFromPrivate L priv =
     (case Option.bind (cl_mulBase L (clamp_scalar priv)) point_to_u32 of None \<Rightarrow> Inl OperationFailed | Some u \<Rightarrow> Inr u)"

definition sharedSecret :: "crypto_library \<Rightarrow> bytes \<Rightarrow> bytes \<Rightarrow> bytes result" where
  "sharedSecret L priv peer =
     (case Option.bind (cl_mulPoint L (clamp_scalar priv) peer) point_to_u32 of None \<Rightarrow> Inl OperationFailed | Some u \<Rightarrow> Inr u)"

definition sha256_hash :: "crypto_library \<Rightarrow> bytes \<Rightarrow> bytes result" where
  "sha256_hash L data =
     (if data = [] then Inl InvalidParameter
      else if \<not> cl_hasSha256 L then Inl OperationNotSupported
      else case cl_sha256 L data of None \<Rightarrow> Inl OperationFailed | Some d \<Rightarrow> Inr d)"

definition pbkdf2 :: "crypto_library \<Rightarrow> bytes \<Rightarrow> bytes \<Rightarrow> u32 \<Rightarrow> nat \<Rightarrow> bytes result" where
  "pbkdf2 L password salt iterations outLen =
     (if outLen > 2 ^ 32 - 1 then Inl InvalidParameter
      else if \<not> cl_hasSha256 L then Inl OperationNotSupported
      else if \<not> cl_setup L then Inl OperationFailed
      else case cl_pbkdf2 L password salt iterations outLen of None \<Rightarrow> Inl OperationFailed | Some k \<Rightarrow> Inr k)"

definition kKnxPbkdf2Iterations :: u32 where "kKnxPbkdf2Iterations = 10000"

definition kd_deriveSessionKey :: "crypto_library \<Rightarrow> bytes \<Rightarrow> bytes \<Rightarrow> bytes result" where
  "kd_deriveSessionKey L masterKey deviceId =
     pbkdf2 L masterKey [deviceId ! 1, deviceId ! 0] kKnxPbkdf2Iterations 16"

text \<open>The keys for sending and for receiving.\<close>

definition deriveBilateralKeys :: "crypto_library \<Rightarrow> bytes \<Rightarrow> bytes \<Rightarrow> bytes \<Rightarrow> (bytes \<times> bytes) result" where
  "deriveBilateralKeys L masterKey deviceId couplerId =
     (case pbkdf2 L masterKey [deviceId ! 1, deviceId ! 0, couplerId ! 1, couplerId ! 0] kKnxPbkdf2Iterations 16 of
        Inl e \<Rightarrow> Inl e
      | Inr tx \<Rightarrow>
          (case pbkdf2 L masterKey [couplerId ! 1, couplerId ! 0, deviceId ! 1, deviceId ! 0] kKnxPbkdf2Iterations 16 of
             Inl e \<Rightarrow> Inl e
           | Inr rx \<Rightarrow> Inr (tx, rx)))"

lemma bilateral_keys_match:
  "deriveBilateralKeys L k a b = Inr (tx, rx) \<Longrightarrow> deriveBilateralKeys L k b a = Inr (rx, tx)"
  by (auto simp: deriveBilateralKeys_def split: sum.splits)

section \<open>The session packets (src/netip/secure\_session.cpp)\<close>

definition kServiceTypeSessionRequest :: u16 where "kServiceTypeSessionRequest = 0x0951"
definition kServiceTypeSessionResponse :: u16 where "kServiceTypeSessionResponse = 0x0952"
definition kServiceTypeSessionAuthenticate :: u16 where "kServiceTypeSessionAuthenticate = 0x0953"
definition kServiceTypeSessionStatus :: u16 where "kServiceTypeSessionStatus = 0x0954"

definition kPublicKeyLen :: nat where "kPublicKeyLen = 32"
definition kSessionRequestFrameLen :: nat where "kSessionRequestFrameLen = 46"
definition kSessionResponseFrameLen :: nat where "kSessionResponseFrameLen = 56"
definition kSessionAuthenticateFrameLen :: nat where "kSessionAuthenticateFrameLen = 24"
definition kSessionStatusFrameLen :: nat where "kSessionStatusFrameLen = 8"

definition kHpaiControlEndpointEmpty :: bytes where "kHpaiControlEndpointEmpty = [0x08, 0x02, 0, 0, 0, 0, 0, 0]"
definition kAuthCtrIvBytes :: bytes where "kAuthCtrIvBytes = replicate 14 0 @ [0xFF, 0x00]"

text \<open>The characters of \<open>user-password.1.secure.ip.knx.org\<close>.\<close>

definition kUserPasswordSalt :: bytes where
  "kUserPasswordSalt = map of_char ''user-password.1.secure.ip.knx.org''"

record session_response =
  sr_sessionId :: u16
  sr_serverPublicKey :: bytes
  sr_messageAuthenticationCode :: bytes

text \<open>The four octets every encoder begins with, and the length.\<close>

definition session_header :: "u16 \<Rightarrow> nat \<Rightarrow> bytes" where
  "session_header service len =
     [6, 0x10, getHighByte service, getLowByte service, getHighByte (of_nat len), getLowByte (of_nat len)]"

definition ss_decodeHeader :: "bytes \<Rightarrow> knxnetip_header result" where
  "ss_decodeHeader bs =
     (case decodeHeader bs of
        Inl e \<Rightarrow> Inl e
      | Inr h \<Rightarrow> if unat (totalLength h) \<noteq> length bs then Inl InvalidFrameSize else Inr h)"

definition deriveUserPasswordKeyLatin1 :: "crypto_library \<Rightarrow> bytes \<Rightarrow> bytes result" where
  "deriveUserPasswordKeyLatin1 L password = pbkdf2 L password kUserPasswordSalt 65536 16"

definition encodeSessionRequest :: "bytes \<Rightarrow> bytes" where
  "encodeSessionRequest clientPublicKey =
     session_header kServiceTypeSessionRequest kSessionRequestFrameLen @ kHpaiControlEndpointEmpty @ clientPublicKey"

definition encodeSessionResponse :: "u16 \<Rightarrow> bytes \<Rightarrow> bytes \<Rightarrow> bytes" where
  "encodeSessionResponse sid serverPublicKey mac =
     session_header kServiceTypeSessionResponse kSessionResponseFrameLen @ writeSessionId sid @ serverPublicKey @ mac"

definition decodeSessionResponse :: "bytes \<Rightarrow> session_response result" where
  "decodeSessionResponse frame =
     (case ss_decodeHeader frame of
        Inl e \<Rightarrow> Inl e
      | Inr h \<Rightarrow>
          if serviceType h \<noteq> kServiceTypeSessionResponse then Inl DecodeFailed
          else if length frame \<noteq> 6 + 2 + kPublicKeyLen + 16 then Inl InvalidFrameSize
          else Inr \<lparr>sr_sessionId = word_be (frame ! 6) (frame ! 7),
                    sr_serverPublicKey = take kPublicKeyLen (drop 8 frame),
                    sr_messageAuthenticationCode = take 16 (drop (8 + kPublicKeyLen) frame)\<rparr>)"

definition encodeSessionAuthenticate :: "aes_backend \<Rightarrow> bytes \<Rightarrow> u8 \<Rightarrow> bytes \<Rightarrow> bytes \<Rightarrow> bytes result" where
  "encodeSessionAuthenticate B userPasswordKey userId clientPublicKey serverPublicKey =
     (let x = xor_bytes clientPublicKey serverPublicKey;
          additionalData = session_header kServiceTypeSessionAuthenticate kSessionAuthenticateFrameLen @ [0x00, userId] @ x
      in case cbc_compute B userPasswordKey (replicate 16 0) additionalData [] of
           Inl e \<Rightarrow> Inl e
         | Inr mac \<Rightarrow>
             (case ctr_crypt B userPasswordKey kAuthCtrIvBytes mac of
                Inl e \<Rightarrow> Inl e
              | Inr macEnc \<Rightarrow>
                  Inr (session_header kServiceTypeSessionAuthenticate kSessionAuthenticateFrameLen @ [0x00, userId] @ macEnc)))"

definition encodeSessionStatus :: "u8 \<Rightarrow> bytes" where
  "encodeSessionStatus status = session_header kServiceTypeSessionStatus kSessionStatusFrameLen @ [status, 0x00]"

definition ss_decodeSessionStatus :: "bytes \<Rightarrow> u8 result" where
  "ss_decodeSessionStatus frame =
     (case ss_decodeHeader frame of
        Inl e \<Rightarrow> Inl e
      | Inr h \<Rightarrow>
          if serviceType h \<noteq> kServiceTypeSessionStatus then Inl DecodeFailed
          else if length frame \<noteq> kSessionStatusFrameLen then Inl InvalidFrameSize
          else Inr (frame ! 6))"

definition ss_deriveSessionKey :: "crypto_library \<Rightarrow> bytes \<Rightarrow> bytes \<Rightarrow> bytes result" where
  "ss_deriveSessionKey L clientPrivateKey serverPublicKey =
     (case sharedSecret L clientPrivateKey serverPublicKey of
        Inl e \<Rightarrow> Inl e
      | Inr secret \<Rightarrow> (case sha256_hash L secret of Inl e \<Rightarrow> Inl e | Inr digest \<Rightarrow> Inr (take 16 digest)))"

section \<open>The handshake (src/netip/secure\_session\_bootstrap.cpp)\<close>

record negotiated_session =
  ng_wrapperKey :: bytes
  ng_sessionId :: u16
  ng_nextSequence :: u64

record authenticate_request =
  ar_session :: negotiated_session
  ar_wrappedFrameLength :: nat

definition encodeSeq48BE :: "u64 \<Rightarrow> bytes" where
  "encodeSeq48BE v =
     (let s = mask48 v in
      [ucast (drop_bit 40 s AND 0xFF), ucast (drop_bit 32 s AND 0xFF), ucast (drop_bit 24 s AND 0xFF),
       ucast (drop_bit 16 s AND 0xFF), ucast (drop_bit 8 s AND 0xFF), ucast (s AND 0xFF)])"

definition deriveClientPublicKey :: "crypto_library \<Rightarrow> bytes \<Rightarrow> bytes result" where
  "deriveClientPublicKey L priv = publicFromPrivate L priv"

definition buildAuthenticateRequest ::
  "crypto_library \<Rightarrow> aes_backend \<Rightarrow> bytes \<Rightarrow> bytes \<Rightarrow> u8 \<Rightarrow> bytes \<Rightarrow> u64 \<Rightarrow> bytes \<Rightarrow> bytes \<Rightarrow> bytes \<Rightarrow>
   bytes \<times> authenticate_request result" where
  "buildAuthenticateRequest L B clientPrivateKey password userId clientSerial initialSequence clientPublicKey response out =
     (case decodeSessionResponse response of
        Inl _ \<Rightarrow> (out, Inl DecodeFailed)
      | Inr parsed \<Rightarrow>
      (case ss_deriveSessionKey L clientPrivateKey (sr_serverPublicKey parsed) of
        Inl _ \<Rightarrow> (out, Inl OperationFailed)
      | Inr key \<Rightarrow>
      (case deriveUserPasswordKeyLatin1 L password of
        Inl _ \<Rightarrow> (out, Inl OperationFailed)
      | Inr userKey \<Rightarrow>
      (case encodeSessionAuthenticate B userKey userId clientPublicKey (sr_serverPublicKey parsed) of
        Inl _ \<Rightarrow> (out, Inl EncodeFailed)
      | Inr authPlain \<Rightarrow>
          (let seq48 = mask48 initialSequence in
           case sw_wrap B key (sr_sessionId parsed) (encodeSeq48BE seq48) clientSerial [0, 0] [0x00, 0x00, 0xFF, 0x00] authPlain out of
             (out1, Inl _) \<Rightarrow> (out1, Inl OperationFailed)
           | (out1, Inr n) \<Rightarrow>
               (out1, Inr \<lparr>ar_session = \<lparr>ng_wrapperKey = key, ng_sessionId = sr_sessionId parsed,
                                           ng_nextSequence = mask48 (seq48 + 1)\<rparr>,
                           ar_wrappedFrameLength = n\<rparr>))))))"

definition sb_decodeSessionStatus :: "aes_backend \<Rightarrow> bytes \<Rightarrow> u16 \<Rightarrow> bytes \<Rightarrow> bytes \<Rightarrow> bytes \<times> u8 result" where
  "sb_decodeSessionStatus B key sid frame scratch =
     (case decodeHeader frame of
        Inl _ \<Rightarrow> (scratch, Inl DecodeFailed)
      | Inr h \<Rightarrow>
          if serviceType h = kServiceTypeSecureWrapper
          then (case sw_unwrapAndVerify B key sid frame scratch of
                  (s1, Inl _) \<Rightarrow> (s1, Inl DecodeFailed)
                | (s1, Inr n) \<Rightarrow>
                    (s1, case ss_decodeSessionStatus (take n s1) of Inl _ \<Rightarrow> Inl DecodeFailed | Inr st \<Rightarrow> Inr st))
          else (scratch, case ss_decodeSessionStatus frame of Inl _ \<Rightarrow> Inl DecodeFailed | Inr st \<Rightarrow> Inr st))"

section \<open>The handshake succeeds\<close>

lemma session_header_packet: "6 + length body = len \<Longrightarrow> session_header service len @ body = packet service body"
  by (auto simp: session_header_def packet_def)

lemma ss_decodeHeader_packet:
  "length body \<le> 65529 \<Longrightarrow>
   ss_decodeHeader (packet service body) = Inr \<lparr>serviceType = service, totalLength = of_nat (6 + length body)\<rparr>"
  using decodeHeader_packet [of body service "[]"] unat_total [of "length body"]
  by (simp add: ss_decodeHeader_def del: of_nat_add)

lemma packet_body: "drop 6 (packet service body) = body" "length (packet service body) = 6 + length body"
  "packet service body ! (6 + i) = body ! i"
  by (simp_all add: packet_def eval_nat_numeral)

lemma session_response_packet:
  "length pk = 32 \<Longrightarrow> length mac = 16 \<Longrightarrow>
   encodeSessionResponse sid pk mac = packet kServiceTypeSessionResponse (writeSessionId sid @ pk @ mac)"
  unfolding encodeSessionResponse_def by (rule session_header_packet) (simp add: kSessionResponseFrameLen_def)

lemma session_response_decoded:
  assumes "length pk = 32" "length mac = 16"
  shows "decodeSessionResponse (encodeSessionResponse sid pk mac) =
    Inr \<lparr>sr_sessionId = sid, sr_serverPublicKey = pk, sr_messageAuthenticationCode = mac\<rparr>"
proof -
  let ?b = "writeSessionId sid @ pk @ mac"
  note e = session_response_packet [OF assms, of sid]
  have d: "drop 8 (packet kServiceTypeSessionResponse ?b) = pk @ mac" "drop 40 (packet kServiceTypeSessionResponse ?b) = mac"
    using packet_body(1) [of kServiceTypeSessionResponse ?b] drop_drop [of 2 6 "packet kServiceTypeSessionResponse ?b"]
      drop_drop [of 34 6 "packet kServiceTypeSessionResponse ?b"] assms by simp_all
  have n: "packet kServiceTypeSessionResponse ?b ! 6 = getHighByte sid" "packet kServiceTypeSessionResponse ?b ! 7 = getLowByte sid"
    using packet_body(3) [of kServiceTypeSessionResponse ?b 0] packet_body(3) [of kServiceTypeSessionResponse ?b 1]
    by (simp_all add: writeSessionId_def)
  show ?thesis unfolding e using assms d n
    by (simp add: decodeSessionResponse_def ss_decodeHeader_packet kPublicKeyLen_def)
qed

lemma session_status_decoded: "ss_decodeSessionStatus (encodeSessionStatus st) = Inr st"
proof -
  have e: "encodeSessionStatus st = packet kServiceTypeSessionStatus [st, 0]"
    unfolding encodeSessionStatus_def by (rule session_header_packet) (simp add: kSessionStatusFrameLen_def)
  have "ss_decodeHeader (packet kServiceTypeSessionStatus [st, 0]) = Inr \<lparr>serviceType = kServiceTypeSessionStatus, totalLength = 8\<rparr>"
    using ss_decodeHeader_packet [of "[st, 0]" kServiceTypeSessionStatus] by simp
  then show ?thesis unfolding e using packet_body(3) [of kServiceTypeSessionStatus "[st, 0]" 0]
    by (simp add: ss_decodeSessionStatus_def kSessionStatusFrameLen_def)
qed

lemma authenticate_encoded:
  assumes "aes_works B enc"
  shows "\<exists>auth. encodeSessionAuthenticate B userKey uid ca sb = Inr auth \<and> length auth = 24"
proof -
  let ?ad = "session_header kServiceTypeSessionAuthenticate kSessionAuthenticateFrameLen @ [0x00, uid] @ xor_bytes ca sb"
  have "\<exists>mac. cbc_compute B userKey (replicate 16 0) ?ad [] = Inr mac \<and> length mac = 16"
    by (intro exI conjI, rule cbc_mac_computed [OF assms], simp, rule cbc_mac_ref_length [OF assms], simp)
  then obtain mac where m: "cbc_compute B userKey (replicate 16 0) ?ad [] = Inr mac" "length mac = 16" by blast
  have "length kAuthCtrIvBytes = 16" by (simp add: kAuthCtrIvBytes_def)
  from ctr_crypt_ref [OF assms this, of userKey mac] m show ?thesis
    by (simp add: encodeSessionAuthenticate_def Let_def session_header_def)
qed

text \<open>What the handshake relies on in the cryptographic library: every scalar has a public point of 32 octets,
  the product of one side's scalar with the other's public point is the same for both sides, SHA-256 gives 32
  octets, and PBKDF2 as many as asked for.\<close>

definition library_works :: "crypto_library \<Rightarrow> (bytes \<Rightarrow> bytes) \<Rightarrow> bool" where
  "library_works L pub \<longleftrightarrow>
     (\<forall>a. cl_mulBase L a = Some (pub a) \<and> length (pub a) = 32) \<and>
     (\<forall>a b. \<exists>x. length x = 32 \<and> cl_mulPoint L a (pub b) = Some x \<and> cl_mulPoint L b (pub a) = Some x) \<and>
     cl_hasSha256 L \<and> (\<forall>d. \<exists>h. cl_sha256 L d = Some h \<and> length h = 32) \<and>
     cl_setup L \<and> (\<forall>pw salt i n. \<exists>k. cl_pbkdf2 L pw salt i n = Some k \<and> length k = n)"

lemma session_keys_agree:
  assumes "library_works L pub" "publicFromPrivate L a = Inr ca" "publicFromPrivate L b = Inr sb"
  shows "\<exists>key. ss_deriveSessionKey L a sb = Inr key \<and> ss_deriveSessionKey L b ca = Inr key \<and> length key = 16"
proof -
  have p: "ca = pub (clamp_scalar a)" "sb = pub (clamp_scalar b)"
    using assms by (auto simp: publicFromPrivate_def library_works_def point_to_u32_def)
  obtain x where x: "length x = 32" "cl_mulPoint L (clamp_scalar a) sb = Some x" "cl_mulPoint L (clamp_scalar b) ca = Some x"
    using assms(1) unfolding p library_works_def by blast
  have "cl_hasSha256 L" "\<forall>d. \<exists>h. cl_sha256 L d = Some h \<and> length h = 32" using assms(1) by (simp_all add: library_works_def)
  then obtain h where h: "cl_sha256 L x = Some h" "length h = 32" "cl_hasSha256 L" by blast
  have "x \<noteq> []" using x(1) by auto
  with x h show ?thesis by (simp add: ss_deriveSessionKey_def sharedSecret_def sha256_hash_def point_to_u32_def)
qed

lemma password_key:
  assumes "library_works L pub"
  shows "\<exists>k. deriveUserPasswordKeyLatin1 L pw = Inr k"
proof -
  obtain k where "cl_pbkdf2 L pw kUserPasswordSalt 65536 16 = Some k" "cl_hasSha256 L" "cl_setup L"
    using assms unfolding library_works_def by blast
  then show ?thesis by (simp add: deriveUserPasswordKeyLatin1_def pbkdf2_def)
qed

lemma encodeSeq48BE_length [simp]: "length (encodeSeq48BE v) = 6"
  by (simp add: encodeSeq48BE_def Let_def)

lemma wrapped_is_secure: "decodeHeader (wrapped enc sid sq serial tag inner @ rest) = Inr h \<Longrightarrow> serviceType h = kServiceTypeSecureWrapper"
  by (auto simp: decodeHeader_def wrapped_def wrapper_header_def Let_def word_be_def kServiceTypeSecureWrapper_def split: if_splits)

lemma status_answer:
  assumes "aes_works B enc" "length sq = 6" "length serial = 6" "8 \<le> length scratch"
    and "sw_wrap B key sid sq serial [0, 0] [0x00, 0x00, 0xFF, 0x00] (encodeSessionStatus st) (replicate 46 0) = (w, r)"
  shows "snd (sb_decodeSessionStatus B key sid w scratch) = Inr st"
proof -
  have l: "length (encodeSessionStatus st) = 8" by (simp add: encodeSessionStatus_def session_header_def)
  have w: "w = wrapped (enc key) sid sq serial [0, 0] (encodeSessionStatus st)"
    using sw_wrap_wrapped [OF assms(1-3), of "[0, 0]" "encodeSessionStatus st" "replicate 46 0" key sid] assms(5) l by simp
  have u: "sw_unwrapAndVerify B key sid w scratch = (encodeSessionStatus st @ drop 8 scratch, Inr 8)"
    unfolding sw_unwrap_wrapped [OF assms(1)] w using assms(2-4) l
    by (intro exI [of _ sq] exI [of _ serial] exI [of _ "[0, 0]"] exI [of _ "encodeSessionStatus st"] exI [of _ "[]"]) simp
  then obtain h where h: "decodeHeader w = Inr h"
    by (auto simp: sw_unwrapAndVerify_def sw_decodeHeader_def split: sum.splits)
  moreover from h w wrapped_is_secure [of "enc key" sid sq serial "[0, 0]" "encodeSessionStatus st" "[]"]
  have "serviceType h = kServiceTypeSecureWrapper" by simp
  ultimately show ?thesis using u l session_status_decoded by (simp add: sb_decodeSessionStatus_def)
qed

text \<open>When the client gets a session response with the server's public key, it builds an authentication request of 62
  octets; the session key it keeps is the one the server derives; the server opens the request with that key
  and finds the authentication frame that belongs to the password, the user and the two public keys; and
  whatever status the server then wraps with that key is the status the client reads.\<close>

lemma session_handshake:
  assumes "library_works L pub" "aes_works B enc" "publicFromPrivate L a = Inr ca" "publicFromPrivate L b = Inr sb"
    and "length serial = 6" "length mac = 16" "62 \<le> length out" "24 \<le> length buf"
  shows "\<exists>key out1 r userKey auth.
    buildAuthenticateRequest L B a password uid serial n0 ca (encodeSessionResponse sid sb mac) out = (out1, Inr r) \<and>
    ar_wrappedFrameLength r = 62 \<and> ar_session r = \<lparr>ng_wrapperKey = key, ng_sessionId = sid, ng_nextSequence = mask48 (mask48 n0 + 1)\<rparr> \<and>
    ss_deriveSessionKey L b ca = Inr key \<and>
    deriveUserPasswordKeyLatin1 L password = Inr userKey \<and> encodeSessionAuthenticate B userKey uid ca sb = Inr auth \<and>
    sw_unwrapAndVerify B key sid (take 62 out1) buf = (auth @ drop 24 buf, Inr 24) \<and> length out1 = length out \<and>
    (\<forall>st sq serial' w r' scratch. length sq = 6 \<and> length serial' = 6 \<and> 8 \<le> length scratch \<and>
       sw_wrap B key sid sq serial' [0, 0] [0x00, 0x00, 0xFF, 0x00] (encodeSessionStatus st) (replicate 46 0) = (w, r') \<longrightarrow>
       snd (sb_decodeSessionStatus B key sid w scratch) = Inr st)"
proof -
  obtain key where k: "ss_deriveSessionKey L a sb = Inr key" "ss_deriveSessionKey L b ca = Inr key"
    using session_keys_agree [OF assms(1,3,4)] by blast
  obtain userKey where u: "deriveUserPasswordKeyLatin1 L password = Inr userKey" using password_key [OF assms(1)] by blast
  obtain auth where au: "encodeSessionAuthenticate B userKey uid ca sb = Inr auth" "length auth = 24"
    using authenticate_encoded [OF assms(2)] by blast
  have lsb: "length sb = 32" using assms(1,4) by (auto simp: publicFromPrivate_def library_works_def point_to_u32_def)
  let ?sq = "encodeSeq48BE (mask48 n0)" and ?w = "wrapped (enc key) sid (encodeSeq48BE (mask48 n0)) serial [0, 0] auth"
  have w: "sw_wrap B key sid ?sq serial [0, 0] [0x00, 0x00, 0xFF, 0x00] auth out = (?w @ drop 62 out, Inr 62)"
    using sw_wrap_wrapped [OF assms(2) encodeSeq48BE_length assms(5), of "[0, 0]" auth out key sid] au(2) assms(7) by simp
  have lw: "length ?w = 62" using wrapped_length [OF assms(2) encodeSeq48BE_length assms(5)] au(2) by simp
  have "sw_unwrapAndVerify B key sid ?w buf = (auth @ drop 24 buf, Inr 24)"
    unfolding sw_unwrap_wrapped [OF assms(2)] using assms(5,8) au(2)
    by (intro exI [of _ ?sq] exI [of _ serial] exI [of _ "[0, 0]"] exI [of _ auth] exI [of _ "[]"]) simp
  moreover have "\<forall>st sq serial' w r' scratch. length sq = 6 \<and> length serial' = 6 \<and> 8 \<le> length scratch \<and>
       sw_wrap B key sid sq serial' [0, 0] [0x00, 0x00, 0xFF, 0x00] (encodeSessionStatus st) (replicate 46 0) = (w, r') \<longrightarrow>
       snd (sb_decodeSessionStatus B key sid w scratch) = Inr st"
    using status_answer [OF assms(2)] by blast
  ultimately show ?thesis using k u au w lw session_response_decoded [OF lsb assms(6), of sid] assms(7)
    by (simp add: buildAuthenticateRequest_def Let_def)
qed

definition toy_library :: crypto_library where
  "toy_library = \<lparr>cl_mulBase = \<lambda>a. Some (take 32 (a @ replicate 32 0)),
     cl_mulPoint = \<lambda>a p. Some (xor_bytes (take 32 (a @ replicate 32 0)) p), cl_hasSha256 = True,
     cl_sha256 = \<lambda>d. Some (take 32 (d @ replicate 32 0)), cl_setup = True, cl_pbkdf2 = \<lambda>pw salt i n. Some (take n (pw @ replicate n 0))\<rparr>"

lemma toy_library_works: "library_works toy_library (\<lambda>a. take 32 (a @ replicate 32 0))"
proof -
  have "xor_bytes xs ys = xor_bytes ys xs" for xs ys
    by (rule nth_equalityI) (simp_all add: xor_bytes_def xor.commute)
  then show ?thesis unfolding library_works_def toy_library_def by (auto simp: min_def)
qed

text \<open>The status need not be wrapped: the client takes a plain one from anybody, and it never looks at the
  authentication code of the session response.\<close>

lemma plain_status_accepted: "snd (sb_decodeSessionStatus B key sid (encodeSessionStatus st) scratch) = Inr st"
proof -
  have e: "encodeSessionStatus st = packet kServiceTypeSessionStatus [st, 0]"
    unfolding encodeSessionStatus_def by (rule session_header_packet) (simp add: kSessionStatusFrameLen_def)
  have "decodeHeader (encodeSessionStatus st) = Inr \<lparr>serviceType = kServiceTypeSessionStatus, totalLength = 8\<rparr>"
    using decodeHeader_packet [of "[st, 0]" kServiceTypeSessionStatus "[]"] by (simp add: e)
  then show ?thesis using session_status_decoded [of st]
    by (simp add: sb_decodeSessionStatus_def kServiceTypeSessionStatus_def kServiceTypeSecureWrapper_def)
qed

end
