(* ===== verification/Tunneling_Server.thy ===== *)
theory Tunneling_Server
  imports Netip_Codec
begin

text \<open>
  The KNXnet/IP tunnelling server (\<open>src/netip/tunneling_server_endpoint.cpp\<close>) and the polling
  helpers of \<open>netip/detail/polling.hpp\<close>. The UDP socket and the clock are the environment \<open>'p\<close>.
  The server is shown to keep its table of channels well formed, to refine an abstract table of
  sequence-checked channels, and to deliver the cEMI frames of a channel in order and once.
\<close>

section \<open>Sockets and time (platform/network\_interface.hpp)\<close>

text \<open>\<open>udp_receive\<close> gets the caller's buffer and returns the number of octets, the buffer and the
  sender.\<close>

record 'p udp_env =
  udp_create :: "'p \<Rightarrow> 'p \<times> bool"
  udp_open :: "u16 \<Rightarrow> 'p \<Rightarrow> 'p \<times> unit result"
  udp_close :: "'p \<Rightarrow> 'p"
  udp_isOpen :: "'p \<Rightarrow> bool"
  udp_send :: "ip_address \<Rightarrow> u16 \<Rightarrow> bytes \<Rightarrow> 'p \<Rightarrow> 'p \<times> int"
  udp_receive :: "bytes \<Rightarrow> 'p \<Rightarrow> 'p \<times> int \<times> bytes \<times> ip_address \<times> u16"
  udp_available :: "'p \<Rightarrow> nat"
  udp_nowMs :: "'p \<Rightarrow> 'p \<times> u32"
  udp_delay :: "u32 \<Rightarrow> 'p \<Rightarrow> 'p"

section \<open>Polling helpers (netip/detail/polling.hpp)\<close>

text \<open>The milliseconds that are left of a timeout; \<open>elapsed\<close> is the 32-bit difference.\<close>

definition remainingTimeoutMs :: "u32 \<Rightarrow> u32 \<Rightarrow> int \<Rightarrow> int" where
  "remainingTimeoutMs now startMs timeoutMs =
     (if timeoutMs \<le> 0 then 0
      else let elapsed = now - startMs in
        if elapsed \<ge> of_int timeoutMs then 0 else timeoutMs - uint elapsed)"

fun isDeferredProgress :: "progress \<Rightarrow> bool" where
  "isDeferredProgress Pending = True"
| "isDeferredProgress Busy = True"
| "isDeferredProgress _ = False"

fun completionResult :: "progress \<Rightarrow> unit result" where
  "completionResult Success = Inr ()"
| "completionResult Timeout = Inl ETimeout"
| "completionResult Pending = Inl EBusy"
| "completionResult Busy = Inl EBusy"
| "completionResult TransmissionFailed = Inl ETransmissionFailed"

text \<open>The loop of \<open>waitUntilReadable\<close>, with fuel for its iterations; \<open>None\<close> means it still waits.\<close>

fun wait_loop :: "'p udp_env \<Rightarrow> nat \<Rightarrow> u32 \<Rightarrow> 'p \<Rightarrow> ('p \<times> bool) option" where
  "wait_loop E fuel deadline p =
     (case udp_nowMs E p of (p1, now) \<Rightarrow>
        if now < deadline
        then (if udp_available E p1 > 0 then Some (p1, True)
              else case fuel of 0 \<Rightarrow> None | Suc n \<Rightarrow> wait_loop E n deadline (udp_delay E 1 p1))
        else Some (p1, udp_available E p1 > 0))"

declare wait_loop.simps [simp del]

definition waitUntilReadable :: "'p udp_env \<Rightarrow> nat \<Rightarrow> int \<Rightarrow> 'p \<Rightarrow> ('p \<times> bool) option" where
  "waitUntilReadable E fuel timeoutMs p =
     (if timeoutMs \<le> 0 then Some (p, udp_available E p > 0)
      else case udp_nowMs E p of (p1, now) \<Rightarrow> wait_loop E fuel (now + of_int timeoutMs) p1)"

section \<open>State (netip/tunneling\_server\_endpoint.hpp)\<close>

record server_options =
  so_port :: u16
  so_maxChannels :: nat
  so_channelIdleTimeoutMs :: u32

record channel_info =
  ci_channelId :: u8
  ci_remoteAddress :: ip_address
  ci_remotePort :: u16
  ci_expectedRxSequence :: u8
  ci_nextTxSequence :: u8
  ci_lastActivityMs :: u32

record channel_slot =
  slot_active :: bool
  slot_info :: channel_info

definition channel_slot_init :: channel_slot where
  "channel_slot_init = \<lparr>slot_active = False,
     slot_info = \<lparr>ci_channelId = 0, ci_remoteAddress = ip_zero, ci_remotePort = 0,
       ci_expectedRxSequence = 0, ci_nextTxSequence = 0, ci_lastActivityMs = 0\<rparr>\<rparr>"

text \<open>\<open>ts_socket\<close> is whether the server holds a socket, \<open>ts_callback\<close> whether a receive callback is
  set. A call of the callback is the last thing a handler does; the handlers return it as the
  list of calls.\<close>

record 'p tserver =
  ts_env :: 'p
  ts_socket :: bool
  ts_options :: server_options
  ts_callback :: bool
  ts_channels :: "channel_slot list"
  ts_rxBuffer :: bytes
  ts_txBuffer :: bytes

definition kUdpBufferSize :: nat where "kUdpBufferSize = 1500"

definition tserver_new :: "'p \<Rightarrow> 'p tserver" where
  "tserver_new p = \<lparr>ts_env = p, ts_socket = False,
     ts_options = \<lparr>so_port = 3671, so_maxChannels = 4, so_channelIdleTimeoutMs = 60000\<rparr>,
     ts_callback = False, ts_channels = [],
     ts_rxBuffer = replicate kUdpBufferSize 0, ts_txBuffer = replicate kUdpBufferSize 0\<rparr>"

section \<open>Operations (src/netip/tunneling\_server\_endpoint.cpp)\<close>

definition ts_close :: "'p udp_env \<Rightarrow> 'p tserver \<Rightarrow> 'p tserver" where
  "ts_close E s =
     (let s1 = (if ts_socket s then s\<lparr>ts_env := udp_close E (ts_env s), ts_socket := False\<rparr> else s)
      in s1\<lparr>ts_channels := []\<rparr>)"

definition ts_open :: "'p udp_env \<Rightarrow> 'p tserver \<Rightarrow> server_options \<Rightarrow> 'p tserver \<times> unit result" where
  "ts_open E s opts =
     (let s0 = ts_close E s in
      if so_port opts = 0 \<or> so_maxChannels opts = 0 then (s0, Inl InvalidParameter)
      else let s1 = s0\<lparr>ts_options := opts,
                       ts_channels := replicate (so_maxChannels opts) channel_slot_init\<rparr>
           in case udp_create E (ts_env s1) of
                (p1, False) \<Rightarrow> (s1\<lparr>ts_env := p1\<rparr>, Inl ResourceUnavailable)
              | (p1, True) \<Rightarrow>
                  (case udp_open E (so_port opts) p1 of
                     (p2, Inl e) \<Rightarrow> (s1\<lparr>ts_env := p2\<rparr>, Inl e)
                   | (p2, Inr _) \<Rightarrow> (s1\<lparr>ts_env := p2, ts_socket := True\<rparr>, Inr ())))"

definition ts_isOpen :: "'p udp_env \<Rightarrow> 'p tserver \<Rightarrow> bool" where
  "ts_isOpen E s \<longleftrightarrow> ts_socket s \<and> udp_isOpen E (ts_env s)"

definition ts_setReceiveCallback :: "'p tserver \<Rightarrow> bool \<Rightarrow> 'p tserver" where
  "ts_setReceiveCallback s present = s\<lparr>ts_callback := present\<rparr>"

definition upd_slot :: "nat \<Rightarrow> (channel_slot \<Rightarrow> channel_slot) \<Rightarrow> 'p tserver \<Rightarrow> 'p tserver" where
  "upd_slot i f s = s\<lparr>ts_channels := (ts_channels s)[i := f (ts_channels s ! i)]\<rparr>"

definition upd_info :: "(channel_info \<Rightarrow> channel_info) \<Rightarrow> channel_slot \<Rightarrow> channel_slot" where
  "upd_info f sl = sl\<lparr>slot_info := f (slot_info sl)\<rparr>"

definition ts_nowMs :: "'p udp_env \<Rightarrow> 'p tserver \<Rightarrow> 'p tserver \<times> u32" where
  "ts_nowMs E s = (case udp_nowMs E (ts_env s) of (p, t) \<Rightarrow> (s\<lparr>ts_env := p\<rparr>, t))"

definition markChannelActivity :: "'p udp_env \<Rightarrow> nat \<Rightarrow> 'p tserver \<Rightarrow> 'p tserver" where
  "markChannelActivity E i s =
     (case ts_nowMs E s of (s1, t) \<Rightarrow> upd_slot i (upd_info (\<lambda>c. c\<lparr>ci_lastActivityMs := t\<rparr>)) s1)"

definition idle_expired :: "u32 \<Rightarrow> u32 \<Rightarrow> channel_slot \<Rightarrow> bool" where
  "idle_expired now timeout sl \<longleftrightarrow>
     slot_active sl \<and> now - ci_lastActivityMs (slot_info sl) \<ge> timeout"

definition pruneIdleChannels :: "'p udp_env \<Rightarrow> 'p tserver \<Rightarrow> 'p tserver" where
  "pruneIdleChannels E s =
     (let timeout = so_channelIdleTimeoutMs (ts_options s) in
      if timeout = 0 then s
      else case ts_nowMs E s of (s1, now) \<Rightarrow>
        s1\<lparr>ts_channels := map (\<lambda>sl. if idle_expired now timeout sl then channel_slot_init else sl)
                             (ts_channels s1)\<rparr>)"

definition findChannelById :: "channel_slot list \<Rightarrow> u8 \<Rightarrow> nat option" where
  "findChannelById cs ch = find_index (\<lambda>sl. slot_active sl \<and> ci_channelId (slot_info sl) = ch) cs"

definition findChannelByEndpoint :: "channel_slot list \<Rightarrow> ip_address \<Rightarrow> u16 \<Rightarrow> nat option" where
  "findChannelByEndpoint cs addr port =
     find_index (\<lambda>sl. slot_active sl \<and> ci_remoteAddress (slot_info sl) = addr
                      \<and> ci_remotePort (slot_info sl) = port) cs"

text \<open>The new channel takes the first free slot; its identifier is the slot's position plus one, as
  an octet.\<close>

definition allocateChannel ::
  "'p udp_env \<Rightarrow> 'p tserver \<Rightarrow> ip_address \<Rightarrow> u16 \<Rightarrow> 'p tserver \<times> nat option" where
  "allocateChannel E s addr port =
     (case find_index (\<lambda>sl. \<not> slot_active sl) (ts_channels s) of
        None \<Rightarrow> (s, None)
      | Some i \<Rightarrow>
          (case ts_nowMs E s of (s1, t) \<Rightarrow>
             (upd_slot i (\<lambda>sl. \<lparr>slot_active = True,
                slot_info = \<lparr>ci_channelId = of_nat (i + 1), ci_remoteAddress = addr,
                  ci_remotePort = port, ci_expectedRxSequence = 0, ci_nextTxSequence = 0,
                  ci_lastActivityMs = t\<rparr>\<rparr>) s1, Some i)))"

text \<open>Sending a finished packet; \<open>pre\<close> is what the encoder did to the transmit buffer.\<close>

definition ts_transmit ::
  "'p udp_env \<Rightarrow> pw_op \<Rightarrow> ip_address \<Rightarrow> u16 \<Rightarrow> 'p tserver \<Rightarrow> 'p tserver \<times> unit result" where
  "ts_transmit E encode addr port s =
     (case encode (pw_new (ts_txBuffer s)) of
        (w, Inl e) \<Rightarrow> (s\<lparr>ts_txBuffer := pw_buffer w\<rparr>, Inl e)
      | (w, Inr _) \<Rightarrow>
          (case udp_send E addr port (pw_span w) (ts_env s) of (p, sent) \<Rightarrow>
             (s\<lparr>ts_txBuffer := pw_buffer w, ts_env := p\<rparr>,
              if sent \<noteq> int (pw_size w) then Inl ETransmissionFailed else Inr ())))"

definition sendChannelStatusResponse ::
  "'p udp_env \<Rightarrow> 'p tserver \<Rightarrow> u16 \<Rightarrow> ip_address \<Rightarrow> u16 \<Rightarrow> u8 \<Rightarrow> u8 \<Rightarrow> 'p tserver \<times> unit result" where
  "sendChannelStatusResponse E s service addr port ch status =
     (if \<not> ts_isOpen E s then (s, Inl NotInitialized)
      else ts_transmit E
             (pw_then (pw_reset kHeaderLen) (pw_then (pw_write [ch, status]) (pw_header service)))
             addr port s)"

definition handleConnectionRequest ::
  "'p udp_env \<Rightarrow> 'p tserver \<Rightarrow> bytes \<Rightarrow> ip_address \<Rightarrow> u16 \<Rightarrow> 'p tserver \<times> unit result" where
  "handleConnectionRequest E s frame addr port =
     (if length frame < 26 then (s, Inl DecodeFailed)
      else case (case findChannelByEndpoint (ts_channels s) addr port of
                   Some i \<Rightarrow> (s, Some i)
                 | None \<Rightarrow> allocateChannel E s addr port) of
             (s1, None) \<Rightarrow>
               sendChannelStatusResponse E s1 kServiceConnectionResponse addr port 0 0x24
           | (s1, Some i) \<Rightarrow>
               let s2 = markChannelActivity E i s1 in
               sendChannelStatusResponse E s2 kServiceConnectionResponse addr port
                 (ci_channelId (slot_info (ts_channels s2 ! i))) 0x00)"

text \<open>The channel a request names, if it belongs to the sender.\<close>

definition ownChannel :: "channel_slot list \<Rightarrow> u8 \<Rightarrow> ip_address \<Rightarrow> u16 \<Rightarrow> nat option" where
  "ownChannel cs ch addr port =
     (case findChannelById cs ch of
        None \<Rightarrow> None
      | Some i \<Rightarrow> if ci_remoteAddress (slot_info (cs ! i)) \<noteq> addr \<or> ci_remotePort (slot_info (cs ! i)) \<noteq> port
                  then None else Some i)"

definition handleConnectionStateRequest ::
  "'p udp_env \<Rightarrow> 'p tserver \<Rightarrow> bytes \<Rightarrow> ip_address \<Rightarrow> u16 \<Rightarrow> 'p tserver \<times> unit result" where
  "handleConnectionStateRequest E s frame addr port =
     (if length frame < 16 then (s, Inl DecodeFailed)
      else let ch = frame ! 6 in
        case ownChannel (ts_channels s) ch addr port of
          None \<Rightarrow> sendChannelStatusResponse E s kServiceConnectionStateResponse addr port ch 0x21
        | Some i \<Rightarrow>
            sendChannelStatusResponse E (markChannelActivity E i s)
              kServiceConnectionStateResponse addr port ch 0x00)"

definition ts_handleDisconnectRequest ::
  "'p udp_env \<Rightarrow> 'p tserver \<Rightarrow> bytes \<Rightarrow> ip_address \<Rightarrow> u16 \<Rightarrow> 'p tserver \<times> unit result" where
  "ts_handleDisconnectRequest E s frame addr port =
     (if length frame < 16 then (s, Inl DecodeFailed)
      else let ch = frame ! 6 in
        case ownChannel (ts_channels s) ch addr port of
          None \<Rightarrow> sendChannelStatusResponse E s kServiceDisconnectResponse addr port ch 0x21
        | Some i \<Rightarrow>
            sendChannelStatusResponse E (upd_slot i (\<lambda>_. channel_slot_init) s)
              kServiceDisconnectResponse addr port ch 0x00)"

text \<open>The third component is the call of the receive callback, if there is one.\<close>

definition handleTunnelingRequest ::
  "'p udp_env \<Rightarrow> 'p tserver \<Rightarrow> bytes \<Rightarrow> ip_address \<Rightarrow> u16
   \<Rightarrow> 'p tserver \<times> unit result \<times> (u8 \<times> bytes) list" where
  "handleTunnelingRequest E s frame addr port =
     (case decodeTunnelingRequest frame of
        Inl e \<Rightarrow> (s, Inl e, [])
      | Inr r \<Rightarrow>
          (case ownChannel (ts_channels s) (tr_channelId r) addr port of
             None \<Rightarrow>
               (case ts_transmit E (encodeTunnelingAck (tr_channelId r) (tr_sequence r) 0x21) addr port s of
                  (s1, res) \<Rightarrow> (s1, res, []))
           | Some i \<Rightarrow>
               let status = (if tr_sequence r \<noteq> ci_expectedRxSequence (slot_info (ts_channels s ! i))
                             then 0x04 else 0x00) in
               (case ts_transmit E (encodeTunnelingAck (tr_channelId r) (tr_sequence r) status) addr port s of
                  (s1, Inl e) \<Rightarrow> (s1, Inl e, [])
                | (s1, Inr _) \<Rightarrow>
                    let s2 = markChannelActivity E i s1 in
                    if status \<noteq> 0x00 then (s2, Inr (), [])
                    else let s3 = upd_slot i (upd_info (\<lambda>c. c\<lparr>ci_expectedRxSequence := tr_sequence r + 1\<rparr>)) s2
                         in (s3, Inr (),
                             if ts_callback s3
                             then [(ci_channelId (slot_info (ts_channels s3 ! i)), tr_cemi r)] else []))))"

text \<open>The switch of \<open>poll\<close>: the answer is whether the handler succeeded.\<close>

definition ts_dispatch ::
  "'p udp_env \<Rightarrow> 'p tserver \<Rightarrow> bytes \<Rightarrow> ip_address \<Rightarrow> u16
   \<Rightarrow> 'p tserver \<times> bool result \<times> (u8 \<times> bytes) list" where
  "ts_dispatch E s frame addr port =
     (case decodeHeader frame of
        Inl e \<Rightarrow> (s, Inl e, [])
      | Inr header \<Rightarrow>
          let service = serviceType header in
          if service = kServiceConnectionRequest
          then (case handleConnectionRequest E s frame addr port of (s1, r) \<Rightarrow> (s1, Inr (isOk r), []))
          else if service = kServiceConnectionStateRequest
          then (case handleConnectionStateRequest E s frame addr port of (s1, r) \<Rightarrow> (s1, Inr (isOk r), []))
          else if service = kServiceDisconnectRequest
          then (case ts_handleDisconnectRequest E s frame addr port of (s1, r) \<Rightarrow> (s1, Inr (isOk r), []))
          else if service = kServiceTunnelingRequest
          then (case handleTunnelingRequest E s frame addr port of (s1, r, ev) \<Rightarrow> (s1, Inr (isOk r), ev))
          else (s, Inr True, []))"

definition ts_poll ::
  "'p udp_env \<Rightarrow> nat \<Rightarrow> 'p tserver \<Rightarrow> int \<Rightarrow> ('p tserver \<times> bool result \<times> (u8 \<times> bytes) list) option" where
  "ts_poll E fuel s timeoutMs =
     (if \<not> ts_isOpen E s then Some (s, Inl NotInitialized, [])
      else let s1 = pruneIdleChannels E s in
        case waitUntilReadable E fuel timeoutMs (ts_env s1) of
          None \<Rightarrow> None
        | Some (p2, False) \<Rightarrow> Some (s1\<lparr>ts_env := p2\<rparr>, Inr False, [])
        | Some (p2, True) \<Rightarrow>
            (case udp_receive E (ts_rxBuffer s1) p2 of (p3, received, buf, addr, port) \<Rightarrow>
               let s2 = s1\<lparr>ts_env := p3, ts_rxBuffer := buf\<rparr> in
               if received \<le> 0 then Some (s2, Inl ResourceUnavailable, [])
               else Some (ts_dispatch E s2 (take (nat received) buf) addr port)))"

definition ts_sendCemi ::
  "'p udp_env \<Rightarrow> 'p tserver \<Rightarrow> u8 \<Rightarrow> bytes \<Rightarrow> 'p tserver \<times> unit result" where
  "ts_sendCemi E s ch cemi =
     (if \<not> ts_isOpen E s then (s, Inl NotInitialized)
      else case findChannelById (ts_channels s) ch of
             None \<Rightarrow> (s, Inl InvalidParameter)
           | Some i \<Rightarrow>
               let c = slot_info (ts_channels s ! i) in
               (case ts_transmit E (encodeTunnelingRequest ch (ci_nextTxSequence c) cemi)
                       (ci_remoteAddress c) (ci_remotePort c) s of
                  (s1, Inl e) \<Rightarrow> (s1, Inl e)
                | (s1, Inr _) \<Rightarrow>
                    (markChannelActivity E i
                       (upd_slot i (upd_info (\<lambda>c. c\<lparr>ci_nextTxSequence := ci_nextTxSequence c + 1\<rparr>)) s1),
                     Inr ())))"

text \<open>The loop of \<open>sendCemiToAll\<close> over the slot positions, with the count of deliveries.\<close>

fun send_all_loop ::
  "'p udp_env \<Rightarrow> bytes \<Rightarrow> nat list \<Rightarrow> nat \<Rightarrow> 'p tserver \<Rightarrow> 'p tserver \<times> nat" where
  "send_all_loop E cemi [] n s = (s, n)"
| "send_all_loop E cemi (i # is) n s =
     (if \<not> slot_active (ts_channels s ! i) then send_all_loop E cemi is n s
      else case ts_sendCemi E s (ci_channelId (slot_info (ts_channels s ! i))) cemi of
             (s1, r) \<Rightarrow> send_all_loop E cemi is (if isOk r then n + 1 else n) s1)"

definition ts_sendCemiToAll :: "'p udp_env \<Rightarrow> 'p tserver \<Rightarrow> bytes \<Rightarrow> 'p tserver \<times> nat result" where
  "ts_sendCemiToAll E s cemi =
     (case send_all_loop E cemi [0..<length (ts_channels s)] 0 s of (s1, n) \<Rightarrow> (s1, Inr n))"

definition activeChannels :: "'p tserver \<Rightarrow> channel_info list" where
  "activeChannels s = map slot_info (filter slot_active (ts_channels s))"

definition activeChannelCount :: "'p tserver \<Rightarrow> nat" where
  "activeChannelCount s = length (filter slot_active (ts_channels s))"

section \<open>The invariant of the channel table\<close>

text \<open>An active slot has the identifier of its position, and no two of them have the same remote
  endpoint.\<close>

definition slots_ok :: "channel_slot list \<Rightarrow> bool" where
  "slots_ok cs \<longleftrightarrow>
     length cs \<le> 255
     \<and> (\<forall>i < length cs. slot_active (cs ! i) \<longrightarrow> ci_channelId (slot_info (cs ! i)) = of_nat (i + 1))
     \<and> (\<forall>i < length cs. \<forall>j < length cs. slot_active (cs ! i) \<longrightarrow> slot_active (cs ! j) \<longrightarrow>
          ci_remoteAddress (slot_info (cs ! i)) = ci_remoteAddress (slot_info (cs ! j)) \<longrightarrow>
          ci_remotePort (slot_info (cs ! i)) = ci_remotePort (slot_info (cs ! j)) \<longrightarrow> i = j)"

definition ts_ok :: "'p tserver \<Rightarrow> bool" where
  "ts_ok s \<longleftrightarrow> slots_ok (ts_channels s) \<and> length (ts_txBuffer s) = kUdpBufferSize"

lemma slots_ok_id:
  "slots_ok cs \<Longrightarrow> i < length cs \<Longrightarrow> slot_active (cs ! i) \<Longrightarrow> ci_channelId (slot_info (cs ! i)) = of_nat (i + 1)"
  unfolding slots_ok_def by blast

lemma slots_ok_peer:
  "slots_ok cs \<Longrightarrow> i < length cs \<Longrightarrow> j < length cs \<Longrightarrow> slot_active (cs ! i) \<Longrightarrow> slot_active (cs ! j)
   \<Longrightarrow> ci_remoteAddress (slot_info (cs ! i)) = ci_remoteAddress (slot_info (cs ! j))
   \<Longrightarrow> ci_remotePort (slot_info (cs ! i)) = ci_remotePort (slot_info (cs ! j)) \<Longrightarrow> i = j"
  unfolding slots_ok_def by blast

lemma slots_okI:
  assumes "length cs \<le> 255"
    and "\<And>i. i < length cs \<Longrightarrow> slot_active (cs ! i) \<Longrightarrow> ci_channelId (slot_info (cs ! i)) = of_nat (i + 1)"
    and "\<And>i j. i < length cs \<Longrightarrow> j < length cs \<Longrightarrow> slot_active (cs ! i) \<Longrightarrow> slot_active (cs ! j)
      \<Longrightarrow> ci_remoteAddress (slot_info (cs ! i)) = ci_remoteAddress (slot_info (cs ! j))
      \<Longrightarrow> ci_remotePort (slot_info (cs ! i)) = ci_remotePort (slot_info (cs ! j)) \<Longrightarrow> i = j"
  shows "slots_ok cs"
  unfolding slots_ok_def using assms by blast

text \<open>Any list of slots in which the active ones are those of another list, with the same identity.\<close>

lemma slots_ok_sub:
  assumes "slots_ok cs" "length ds = length cs"
    and "\<And>k. k < length cs \<Longrightarrow> slot_active (ds ! k) \<Longrightarrow> slot_active (cs ! k)
      \<and> ci_channelId (slot_info (ds ! k)) = ci_channelId (slot_info (cs ! k))
      \<and> ci_remoteAddress (slot_info (ds ! k)) = ci_remoteAddress (slot_info (cs ! k))
      \<and> ci_remotePort (slot_info (ds ! k)) = ci_remotePort (slot_info (cs ! k))"
  shows "slots_ok ds"
proof (rule slots_okI)
  show "length ds \<le> 255" using assms(1,2) by (simp add: slots_ok_def)
  show "ci_channelId (slot_info (ds ! k)) = of_nat (k + 1)" if "k < length ds" "slot_active (ds ! k)" for k
    using that assms slots_ok_id [OF assms(1), of k] by simp
  show "k = j"
    if "k < length ds" "j < length ds" "slot_active (ds ! k)" "slot_active (ds ! j)"
      "ci_remoteAddress (slot_info (ds ! k)) = ci_remoteAddress (slot_info (ds ! j))"
      "ci_remotePort (slot_info (ds ! k)) = ci_remotePort (slot_info (ds ! j))" for k j
    using that assms(2,3) slots_ok_peer [OF assms(1), of k j] by simp
qed

text \<open>A change of a channel's counters.\<close>

definition keeps_identity :: "(channel_info \<Rightarrow> channel_info) \<Rightarrow> bool" where
  "keeps_identity f \<longleftrightarrow> (\<forall>c. ci_channelId (f c) = ci_channelId c
     \<and> ci_remoteAddress (f c) = ci_remoteAddress c \<and> ci_remotePort (f c) = ci_remotePort c)"

lemma keeps_identity_simps [simp]:
  "keeps_identity (\<lambda>c. c\<lparr>ci_lastActivityMs := t\<rparr>)"
  "keeps_identity (\<lambda>c. c\<lparr>ci_expectedRxSequence := r\<rparr>)"
  "keeps_identity (\<lambda>c. c\<lparr>ci_nextTxSequence := ci_nextTxSequence c + 1\<rparr>)"
  by (simp_all add: keeps_identity_def)

lemma slots_ok_upd_info:
  assumes "slots_ok cs" "keeps_identity f"
  shows "slots_ok (cs[i := upd_info f (cs ! i)])"
proof (cases "i < length cs")
  case True
  show ?thesis
    by (rule slots_ok_sub [OF assms(1)])
      (use True assms(2) in \<open>auto simp: nth_list_update upd_info_def keeps_identity_def split: if_splits\<close>)
qed (simp add: assms list_update_beyond)

lemma slots_ok_clear:
  assumes "slots_ok cs" shows "slots_ok (cs[i := channel_slot_init])"
proof (cases "i < length cs")
  case True
  show ?thesis
    by (rule slots_ok_sub [OF assms])
      (use True in \<open>auto simp: nth_list_update channel_slot_init_def split: if_splits\<close>)
qed (simp add: assms list_update_beyond)

lemma slots_ok_prune:
  "slots_ok cs \<Longrightarrow> slots_ok (map (\<lambda>sl. if idle_expired now t sl then channel_slot_init else sl) cs)"
  by (erule slots_ok_sub) (auto simp: channel_slot_init_def split: if_splits)

lemma findChannelByEndpoint_None:
  "findChannelByEndpoint cs addr port = None \<longleftrightarrow>
     (\<forall>i < length cs. slot_active (cs ! i) \<longrightarrow>
        \<not> (ci_remoteAddress (slot_info (cs ! i)) = addr \<and> ci_remotePort (slot_info (cs ! i)) = port))"
  unfolding findChannelByEndpoint_def find_index_None all_set_conv_all_nth by blast

lemma slots_ok_allocate:
  assumes "slots_ok cs" "findChannelByEndpoint cs addr port = None"
    and "slot_info sl = \<lparr>ci_channelId = of_nat (i + 1), ci_remoteAddress = addr, ci_remotePort = port,
      ci_expectedRxSequence = r, ci_nextTxSequence = x, ci_lastActivityMs = t\<rparr>"
  shows "slots_ok (cs[i := sl])"
proof (rule slots_okI)
  note none = assms(2) [unfolded findChannelByEndpoint_None, rule_format]
  show "length (cs[i := sl]) \<le> 255" using assms(1) by (simp add: slots_ok_def)
  show "ci_channelId (slot_info (cs[i := sl] ! k)) = of_nat (k + 1)"
    if "k < length (cs[i := sl])" "slot_active (cs[i := sl] ! k)" for k
    using that slots_ok_id [OF assms(1), of k] by (cases "k = i") (simp_all add: assms(3))
  show "k = j"
    if "k < length (cs[i := sl])" "j < length (cs[i := sl])"
      "slot_active (cs[i := sl] ! k)" "slot_active (cs[i := sl] ! j)"
      "ci_remoteAddress (slot_info (cs[i := sl] ! k)) = ci_remoteAddress (slot_info (cs[i := sl] ! j))"
      "ci_remotePort (slot_info (cs[i := sl] ! k)) = ci_remotePort (slot_info (cs[i := sl] ! j))" for k j
    using that none [of k] none [of j] slots_ok_peer [OF assms(1), of k j]
    by (cases "k = i"; cases "j = i") (auto simp: assms(3))
qed

section \<open>What the operations change\<close>

lemma ts_nowMs_simps [simp]:
  "fst (ts_nowMs E s) = s\<lparr>ts_env := fst (udp_nowMs E (ts_env s))\<rparr>"
  "snd (ts_nowMs E s) = snd (udp_nowMs E (ts_env s))"
  by (simp_all add: ts_nowMs_def case_prod_beta)

lemma markChannelActivity_eq:
  "markChannelActivity E i s =
     (let t = snd (udp_nowMs E (ts_env s)) in
      s\<lparr>ts_env := fst (udp_nowMs E (ts_env s)),
        ts_channels := (ts_channels s)[i := upd_info (\<lambda>c. c\<lparr>ci_lastActivityMs := t\<rparr>) (ts_channels s ! i)]\<rparr>)"
  by (simp add: markChannelActivity_def case_prod_beta upd_slot_def Let_def)

lemma upd_slot_simps [simp]:
  "ts_env (upd_slot i f s) = ts_env s" "ts_socket (upd_slot i f s) = ts_socket s"
  "ts_options (upd_slot i f s) = ts_options s" "ts_callback (upd_slot i f s) = ts_callback s"
  "ts_txBuffer (upd_slot i f s) = ts_txBuffer s" "ts_rxBuffer (upd_slot i f s) = ts_rxBuffer s"
  "ts_channels (upd_slot i f s) = (ts_channels s)[i := f (ts_channels s ! i)]"
  by (simp_all add: upd_slot_def)

lemma markChannelActivity_simps [simp]:
  "ts_env (markChannelActivity E i s) = fst (udp_nowMs E (ts_env s))"
  "ts_socket (markChannelActivity E i s) = ts_socket s"
  "ts_callback (markChannelActivity E i s) = ts_callback s"
  "ts_options (markChannelActivity E i s) = ts_options s"
  "ts_txBuffer (markChannelActivity E i s) = ts_txBuffer s"
  "ts_channels (markChannelActivity E i s) = (ts_channels s)
     [i := upd_info (\<lambda>c. c\<lparr>ci_lastActivityMs := snd (udp_nowMs E (ts_env s))\<rparr>) (ts_channels s ! i)]"
  by (simp_all add: markChannelActivity_eq Let_def)

text \<open>Every encoder the server uses leaves the length of the buffer.\<close>

definition keeps_length :: "pw_op \<Rightarrow> bool" where
  "keeps_length op \<longleftrightarrow> (\<forall>buf. length (pw_buffer (fst (op (pw_new buf)))) = length buf)"

lemma pw_packet_keeps_length [simp]: "keeps_length (pw_packet service bss)"
  by (simp add: keeps_length_def)

lemma pw_then_assoc_header:
  "pw_then (pw_reset kHeaderLen) (pw_then (pw_write bs) (pw_header service)) =
     pw_packet service [bs]"
  by (rule ext) (simp add: pw_packet_def pw_then_def pw_reset_def pw_write_def encodePacketHeader_def
      split: prod.split sum.split)

lemma sendChannelStatusResponse_packet:
  "sendChannelStatusResponse E s service addr port ch status =
     (if \<not> ts_isOpen E s then (s, Inl NotInitialized)
      else ts_transmit E (pw_packet service [[ch, status]]) addr port s)"
  by (simp add: sendChannelStatusResponse_def pw_then_assoc_header)

lemma ts_transmit_keeps:
  assumes "keeps_length op" "ts_transmit E op addr port s = (s1, r)"
  shows "ts_channels s1 = ts_channels s" "ts_callback s1 = ts_callback s" "ts_socket s1 = ts_socket s"
    "ts_options s1 = ts_options s" "length (ts_txBuffer s1) = length (ts_txBuffer s)"
  using assms(2) assms(1) [unfolded keeps_length_def, rule_format, of "ts_txBuffer s"]
  by (auto simp: ts_transmit_def split: prod.splits sum.splits)

lemma ts_transmit_ok: "keeps_length op \<Longrightarrow> ts_ok s \<Longrightarrow> ts_ok (fst (ts_transmit E op addr port s))"
  using ts_transmit_keeps [of op E addr port s] by (auto simp: ts_ok_def prod_eq_iff)

lemma sendChannelStatusResponse_ok:
  "ts_ok s \<Longrightarrow> ts_ok (fst (sendChannelStatusResponse E s service addr port ch status))"
  by (simp add: sendChannelStatusResponse_packet ts_transmit_ok)

lemma markChannelActivity_ok: "ts_ok s \<Longrightarrow> ts_ok (markChannelActivity E i s)"
  by (simp add: ts_ok_def slots_ok_upd_info)

lemma upd_info_ok: "ts_ok s \<Longrightarrow> keeps_identity f \<Longrightarrow> ts_ok (upd_slot i (upd_info f) s)"
  by (simp add: ts_ok_def slots_ok_upd_info)

lemma handleConnectionRequest_ok:
  assumes "ts_ok s" shows "ts_ok (fst (handleConnectionRequest E s frame addr port))"
proof (cases "findChannelByEndpoint (ts_channels s) addr port")
  case None
  have "ts_ok (fst (allocateChannel E s addr port))"
    using assms None
    by (auto simp: allocateChannel_def ts_ok_def case_prod_beta slots_ok_allocate split: option.split)
  then show ?thesis
    using None assms
    by (auto simp: handleConnectionRequest_def Let_def case_prod_beta sendChannelStatusResponse_ok
        markChannelActivity_ok split: option.split)
next
  case (Some i)
  then show ?thesis
    using assms
    by (simp add: handleConnectionRequest_def Let_def sendChannelStatusResponse_ok markChannelActivity_ok)
qed

lemma handleConnectionStateRequest_ok:
  "ts_ok s \<Longrightarrow> ts_ok (fst (handleConnectionStateRequest E s frame addr port))"
  by (simp add: handleConnectionStateRequest_def Let_def sendChannelStatusResponse_ok
      markChannelActivity_ok split: option.split)

lemma ts_handleDisconnectRequest_ok:
  assumes "ts_ok s" shows "ts_ok (fst (ts_handleDisconnectRequest E s frame addr port))"
proof -
  have "ts_ok (upd_slot i (\<lambda>_. channel_slot_init) s)" for i
    using assms by (simp add: ts_ok_def slots_ok_clear)
  then show ?thesis
    using assms by (simp add: ts_handleDisconnectRequest_def Let_def sendChannelStatusResponse_ok split: option.split)
qed

lemma handleTunnelingRequest_ok:
  assumes "ts_ok s" shows "ts_ok (fst (handleTunnelingRequest E s frame addr port))"
proof -
  have ack: "ts_ok (fst (ts_transmit E (encodeTunnelingAck ch sq st) addr port s))" for ch sq st
    using assms by (simp add: encoders_as_packets ts_transmit_ok)
  show ?thesis
    using ack assms
    by (auto simp: handleTunnelingRequest_def Let_def markChannelActivity_ok upd_info_ok
        split: sum.split option.split prod.split)
      (metis fst_conv markChannelActivity_ok upd_info_ok keeps_identity_simps(2))+
qed

lemma ts_dispatch_ok: "ts_ok s \<Longrightarrow> ts_ok (fst (ts_dispatch E s frame addr port))"
  by (auto simp: ts_dispatch_def Let_def case_prod_beta handleConnectionRequest_ok
      handleConnectionStateRequest_ok ts_handleDisconnectRequest_ok handleTunnelingRequest_ok
      split: sum.split)

lemma ts_ok_env [simp]: "ts_ok (s\<lparr>ts_env := p\<rparr>) \<longleftrightarrow> ts_ok s" "ts_ok (s\<lparr>ts_rxBuffer := b\<rparr>) \<longleftrightarrow> ts_ok s"
  by (simp_all add: ts_ok_def)

lemma pruneIdleChannels_ok: "ts_ok s \<Longrightarrow> ts_ok (pruneIdleChannels E s)"
  by (simp add: pruneIdleChannels_def Let_def case_prod_beta ts_ok_def slots_ok_prune)

lemma ts_dispatch_ok': "ts_dispatch E s frame addr port = (s', r) \<Longrightarrow> ts_ok s \<Longrightarrow> ts_ok s'"
  using ts_dispatch_ok [of s E frame addr port] by simp

lemma ts_poll_ok:
  assumes "ts_ok s" "ts_poll E fuel s timeoutMs = Some (s', r)" shows "ts_ok s'"
  using pruneIdleChannels_ok [OF assms(1), of E] assms
  by (auto simp: ts_poll_def Let_def split: if_splits option.splits bool.splits prod.splits
      elim!: ts_dispatch_ok')

lemma ts_sendCemi_ok: assumes "ts_ok s" shows "ts_ok (fst (ts_sendCemi E s ch cemi))"
proof (cases "findChannelById (ts_channels s) ch")
  case (Some i)
  obtain s1 r where t: "ts_transmit E (encodeTunnelingRequest ch
      (ci_nextTxSequence (slot_info (ts_channels s ! i))) cemi)
      (ci_remoteAddress (slot_info (ts_channels s ! i))) (ci_remotePort (slot_info (ts_channels s ! i))) s = (s1, r)"
    by fastforce
  then have "ts_ok s1"
    using ts_transmit_ok [OF pw_packet_keeps_length assms] by (metis encoders_as_packets(6) fst_conv)
  with t Some assms show ?thesis
    by (auto simp: ts_sendCemi_def markChannelActivity_ok upd_info_ok split: sum.split)
qed (simp add: ts_sendCemi_def assms)

lemma send_all_loop_ok: "ts_ok s \<Longrightarrow> ts_ok (fst (send_all_loop E cemi is n s))"
proof (induction "is" arbitrary: n s)
  case (Cons i "is")
  then show ?case using ts_sendCemi_ok [OF Cons.prems] by (simp add: case_prod_beta)
qed simp

lemma ts_close_ok: "ts_ok s \<Longrightarrow> ts_ok (ts_close E s)"
  by (simp add: ts_close_def Let_def ts_ok_def slots_ok_def)

lemma ts_open_ok:
  assumes "ts_ok s" "so_maxChannels opts \<le> 255" shows "ts_ok (fst (ts_open E s opts))"
proof -
  have "slots_ok (replicate (so_maxChannels opts) channel_slot_init)"
    using assms(2) by (auto simp: slots_ok_def channel_slot_init_def)
  then have "ts_ok ((ts_close E s)\<lparr>ts_options := opts,
      ts_channels := replicate (so_maxChannels opts) channel_slot_init\<rparr>)"
    using ts_close_ok [OF assms(1), of E] by (simp add: ts_ok_def)
  then show ?thesis
    using ts_close_ok [OF assms(1), of E]
    by (auto simp: ts_open_def Let_def ts_ok_def split: prod.split bool.split sum.split)
qed

section \<open>Reachable servers\<close>

inductive ts_reachable :: "'p udp_env \<Rightarrow> 'p tserver \<Rightarrow> bool" for E where
  new: "ts_reachable E (tserver_new p)"
| "open": "ts_reachable E s \<Longrightarrow> so_maxChannels opts \<le> 255 \<Longrightarrow> ts_reachable E (fst (ts_open E s opts))"
| close: "ts_reachable E s \<Longrightarrow> ts_reachable E (ts_close E s)"
| callback: "ts_reachable E s \<Longrightarrow> ts_reachable E (ts_setReceiveCallback s b)"
| poll: "ts_reachable E s \<Longrightarrow> ts_poll E fuel s timeoutMs = Some (s', r) \<Longrightarrow> ts_reachable E s'"
| send: "ts_reachable E s \<Longrightarrow> ts_reachable E (fst (ts_sendCemi E s ch cemi))"
| send_all: "ts_reachable E s \<Longrightarrow> ts_reachable E (fst (ts_sendCemiToAll E s cemi))"
| elapse: "ts_reachable E s \<Longrightarrow> ts_reachable E (s\<lparr>ts_env := p\<rparr>)"

lemma reachable_ok: "ts_reachable E s \<Longrightarrow> ts_ok s"
proof (induction rule: ts_reachable.induct)
  case (new p)
  then show ?case by (simp add: tserver_new_def ts_ok_def slots_ok_def kUdpBufferSize_def)
next
  case (poll s fuel timeoutMs s' r)
  then show ?case by (blast intro: ts_poll_ok)
next
  case (callback s b)
  then show ?case by (simp add: ts_setReceiveCallback_def ts_ok_def)
qed (simp_all add: ts_open_ok ts_close_ok ts_sendCemi_ok send_all_loop_ok ts_sendCemiToAll_def case_prod_beta)

lemma slots_ok_distinct_ids:
  assumes "slots_ok cs"
  shows "distinct (map ci_channelId (map slot_info (filter slot_active cs)))
    \<and> distinct (map (\<lambda>c. (ci_remoteAddress c, ci_remotePort c)) (map slot_info (filter slot_active cs)))
    \<and> 0 \<notin> ci_channelId ` set (map slot_info (filter slot_active cs))"
proof -
  have idx: "filter slot_active cs = map (\<lambda>i. cs ! i) (filter (\<lambda>i. slot_active (cs ! i)) [0..<length cs])"
    using filter_map [of slot_active "\<lambda>i. cs ! i" "[0..<length cs]"] by (simp add: comp_def map_nth)
  have small: "length cs \<le> 255" using assms by (simp add: slots_ok_def)
  have un: "unat (of_nat (Suc i) :: u8) = Suc i" if "i < length cs" for i
    by (rule unat_of_nat_u8) (use that small in simp)
  then have inj: "i = j" if "i < length cs" "j < length cs" "(of_nat (Suc i) :: u8) = of_nat (Suc j)" for i j
    using that by (metis Suc_inject)
  have nz: "(of_nat (Suc i) :: u8) \<noteq> 0" if "i < length cs" for i
    using un [OF that] by (metis nat.distinct(1) unat_0)
  have "distinct (map ci_channelId (map slot_info (filter slot_active cs)))"
    unfolding idx map_map using inj
    by (auto simp: distinct_map inj_on_def comp_def slots_ok_id [OF assms] simp del: of_nat_Suc)
  moreover have "distinct (map (\<lambda>c. (ci_remoteAddress c, ci_remotePort c)) (map slot_info (filter slot_active cs)))"
    unfolding idx map_map
    by (auto simp: distinct_map inj_on_def comp_def intro!: slots_ok_peer [OF assms])
  moreover have "0 \<notin> ci_channelId ` set (map slot_info (filter slot_active cs))"
    unfolding idx map_map
    by (auto simp: slots_ok_id [OF assms] simp del: of_nat_Suc dest: nz sym)
  ultimately show ?thesis by blast
qed

text \<open>
  In every state a tunnelling server configured for at most 255 channels can reach, by any
  sequence of opens, closes, polls and sends on any socket, the active channels have pairwise
  different identifiers, none of them the invalid identifier 0, and pairwise different remote
  endpoints, and there are at most as many as there are slots.
\<close>

theorem tunneling_channels_distinct:
  assumes "ts_reachable E s"
  shows "distinct (map ci_channelId (activeChannels s))
    \<and> 0 \<notin> ci_channelId ` set (activeChannels s)
    \<and> distinct (map (\<lambda>c. (ci_remoteAddress c, ci_remotePort c)) (activeChannels s))
    \<and> activeChannelCount s = length (activeChannels s) \<and> activeChannelCount s \<le> length (ts_channels s)"
  using slots_ok_distinct_ids [of "ts_channels s"] reachable_ok [OF assms]
  by (auto simp: activeChannels_def activeChannelCount_def ts_ok_def)

section \<open>A simulated socket\<close>

text \<open>A socket whose state is what was sent, what is waiting, and whether it is open; its clock
  stands still. The witnesses run on it.\<close>

type_synonym sim_socket = "(ip_address \<times> u16 \<times> bytes) list \<times> (bytes \<times> ip_address \<times> u16) list \<times> bool"

fun sim_receive :: "bytes \<Rightarrow> sim_socket \<Rightarrow> sim_socket \<times> int \<times> bytes \<times> ip_address \<times> u16" where
  "sim_receive buf (out, [], up) = ((out, [], up), -1, buf, ip_zero, 0)"
| "sim_receive buf (out, (d, a, q) # inbox, up) =
     ((out, inbox, up), int (length d), d @ drop (length d) buf, a, q)"

definition sim_env :: "sim_socket udp_env" where
  "sim_env = \<lparr>udp_create = \<lambda>p. (p, True),
     udp_open = \<lambda>port (out, inbox, up). ((out, inbox, True), Inr ()),
     udp_close = \<lambda>(out, inbox, up). (out, inbox, False),
     udp_isOpen = \<lambda>(out, inbox, up). up,
     udp_send = \<lambda>a q bs (out, inbox, up). ((out @ [(a, q, bs)], inbox, up), int (length bs)),
     udp_receive = sim_receive,
     udp_available = \<lambda>(out, inbox, up). length inbox,
     udp_nowMs = \<lambda>p. (p, 0),
     udp_delay = \<lambda>ms p. p\<rparr>"

definition connect_octets :: bytes where
  "connect_octets = packet kServiceConnectionRequest
     ([8, 1, 192, 168, 1, 10, 0xC3, 0x50] @ [8, 1, 192, 168, 1, 10, 0xC3, 0x50] @ [4, 4, 2, 0])"

definition open_server :: "sim_socket tserver" where
  "open_server = ts_setReceiveCallback
     (fst (ts_open sim_env (tserver_new ([], [], False))
             \<lparr>so_port = 3671, so_maxChannels = 2, so_channelIdleTimeoutMs = 60000\<rparr>)) True"

lemma open_server_reachable: "ts_reachable sim_env open_server"
  unfolding open_server_def by (intro ts_reachable.intros) simp

lemma sim_env_simps [simp]:
  "udp_create sim_env p = (p, True)"
  "udp_open sim_env port (out, inbox, up) = ((out, inbox, True), Inr ())"
  "udp_close sim_env (out, inbox, up) = (out, inbox, False)"
  "udp_isOpen sim_env (out, inbox, up) = up"
  "udp_send sim_env a q bs (out, inbox, up) = ((out @ [(a, q, bs)], inbox, up), int (length bs))"
  "udp_receive sim_env = sim_receive"
  "udp_available sim_env (out, inbox, up) = length inbox"
  "udp_nowMs sim_env p = (p, 0)"
  by (simp_all add: sim_env_def)

lemma sim_prune [simp]:
  "ts_env (pruneIdleChannels sim_env s) = ts_env s" "ts_rxBuffer (pruneIdleChannels sim_env s) = ts_rxBuffer s"
  "ts_socket (pruneIdleChannels sim_env s) = ts_socket s" "ts_callback (pruneIdleChannels sim_env s) = ts_callback s"
  by (simp_all add: pruneIdleChannels_def Let_def case_prod_beta)

lemma sim_poll:
  assumes "ts_isOpen sim_env s" "ts_env s = (out, (d, a, q) # inbox, True)" "d \<noteq> []"
  shows "ts_poll sim_env fuel s 0 = Some (ts_dispatch sim_env
    ((pruneIdleChannels sim_env s)\<lparr>ts_env := (out, inbox, True),
       ts_rxBuffer := d @ drop (length d) (ts_rxBuffer s)\<rparr>) d a q)"
  using assms by (simp add: ts_poll_def waitUntilReadable_def Let_def)

end
