(* ===== verification/Netip_Routing.thy ===== *)
theory Netip_Routing
  imports Netip_Secure Tunneling_Server
begin

text \<open>
  KNXnet/IP routing over multicast: the packet codec (\<open>src/netip/routing.cpp\<close>), the group security of
  \<open>secure_routing_security.cpp\<close>, the packet codec and the datagram channel that use a security
  (\<open>netip/secure_packet_codec.hpp\<close>, \<open>netip/secure_udp_datagram_channel.hpp\<close>) and the endpoint
  (\<open>src/netip/routing_endpoint.cpp\<close>). The socket is the \<open>'p udp_env\<close> of the tunnelling server.

  \<open>NetIpSecurity\<close> is an interface of the code; what its users rely on is the locale
  \<open>datagram_security\<close>, which the group security of routing is shown to satisfy.
\<close>

section \<open>The routing packets (src/netip/routing.cpp)\<close>

definition ST_ROUTING_INDICATION :: u16 where "ST_ROUTING_INDICATION = 0x0530"
definition ST_ROUTING_LOST_MESSAGE :: u16 where "ST_ROUTING_LOST_MESSAGE = 0x0531"

text \<open>The octets written into a buffer of \<open>cap\<close> octets.\<close>

definition encodeRoutingIndication :: "bytes \<Rightarrow> nat \<Rightarrow> bytes result" where
  "encodeRoutingIndication cemi cap =
     (if length cemi > 65535 - kHeaderLen then Inl InvalidFrameSize
      else if cap < unat (of_nat (kHeaderLen + length cemi) :: u16) then Inl BufferTooSmall
      else case encodeHeader ST_ROUTING_INDICATION (length cemi) of
             Inl e \<Rightarrow> Inl e
           | Inr (h, _) \<Rightarrow> Inr (h @ cemi))"

definition decodeRoutingIndication :: "bytes \<Rightarrow> bytes result" where
  "decodeRoutingIndication data = payloadSpan data ST_ROUTING_INDICATION"

definition encodeRoutingLostMessage :: "u16 \<Rightarrow> bytes result" where
  "encodeRoutingLostMessage lostCount =
     (case encodeHeader ST_ROUTING_LOST_MESSAGE 2 of
        Inl e \<Rightarrow> Inl e
      | Inr (h, _) \<Rightarrow> Inr (h @ [getHighByte lostCount, getLowByte lostCount]))"

definition decodeRoutingLostMessage :: "bytes \<Rightarrow> u16 result" where
  "decodeRoutingLostMessage data =
     (case decodeHeader data of
        Inl e \<Rightarrow> Inl e
      | Inr header \<Rightarrow>
          if serviceType header \<noteq> ST_ROUTING_LOST_MESSAGE then Inl DecodeFailed
          else if unat (totalLength header) \<noteq> kHeaderLen + 2 then Inl DecodeFailed
          else if kHeaderLen + 2 > length data then Inl InvalidFrameSize
          else Inr (word_be (data ! 6) (data ! 7)))"

section \<open>A security for datagrams (netip/netip\_security.hpp)\<close>

text \<open>\<open>protect\<close> and \<open>unprotect\<close> get the datagram and the caller's buffer; they return the state, the buffer
  and the number of octets.\<close>

record 's netip_security =
  ns_protect :: "bytes \<Rightarrow> bytes \<Rightarrow> 's \<Rightarrow> 's \<times> bytes \<times> nat result"
  ns_unprotect :: "bytes \<Rightarrow> bytes \<Rightarrow> 's \<Rightarrow> 's \<times> bytes \<times> nat result"

section \<open>Group security (src/netip/secure\_routing\_security.cpp)\<close>

record routing_security =
  rg_groupKey :: bytes
  rg_serial :: bytes
  rg_tag :: bytes
  rg_seq48 :: u64

definition rg_new :: "bytes \<Rightarrow> bytes \<Rightarrow> bytes \<Rightarrow> u64 \<Rightarrow> routing_security" where
  "rg_new key serial tag initialSeq = \<lparr>rg_groupKey = key, rg_serial = serial, rg_tag = tag, rg_seq48 = mask48 initialSeq\<rparr>"

definition rg_protect :: "aes_backend \<Rightarrow> bytes \<Rightarrow> bytes \<Rightarrow> routing_security \<Rightarrow> routing_security \<times> bytes \<times> nat result" where
  "rg_protect B inp out s =
     (let sq = mask48 (rg_seq48 s); s1 = s\<lparr>rg_seq48 := rg_seq48 s + 1\<rparr>;
          suffix = [rg_tag s ! 0, rg_tag s ! 1, 0xFF, 0x00]
      in (s1, sw_wrap B (rg_groupKey s) 0 (encodeSeq48BE sq) (rg_serial s) (rg_tag s) suffix inp out))"

definition rg_unprotect :: "aes_backend \<Rightarrow> bytes \<Rightarrow> bytes \<Rightarrow> routing_security \<Rightarrow> routing_security \<times> bytes \<times> nat result" where
  "rg_unprotect B inp out s = (s, sw_unwrapAndVerify B (rg_groupKey s) 0 inp out)"

definition routing_group_security :: "aes_backend \<Rightarrow> routing_security netip_security" where
  "routing_group_security B = \<lparr>ns_protect = rg_protect B, ns_unprotect = rg_unprotect B\<rparr>"

section \<open>The packet codec (netip/secure\_packet\_codec.hpp)\<close>

text \<open>The codec borrows the security and two scratch buffers.\<close>

record 's packet_codec =
  pc_security :: 's
  pc_wrapScratch :: bytes
  pc_unwrapScratch :: bytes

definition pc_wrap :: "'s netip_security \<Rightarrow> bytes \<Rightarrow> 's packet_codec \<Rightarrow> 's packet_codec \<times> bytes result" where
  "pc_wrap N plain c =
     (if pc_wrapScratch c = [] then (c, Inl BufferTooSmall)
      else case ns_protect N plain (pc_wrapScratch c) (pc_security c) of (s, w, r) \<Rightarrow>
        let c1 = c\<lparr>pc_security := s, pc_wrapScratch := w\<rparr> in
        case r of Inl e \<Rightarrow> (c1, Inl e) | Inr n \<Rightarrow> (c1, Inr (take n w)))"

definition pc_unwrapInto ::
  "'s netip_security \<Rightarrow> bytes \<Rightarrow> bytes \<Rightarrow> 's packet_codec \<Rightarrow> 's packet_codec \<times> bytes \<times> nat result" where
  "pc_unwrapInto N secured plainOut c =
     (case ns_unprotect N secured plainOut (pc_security c) of (s, out, r) \<Rightarrow> (c\<lparr>pc_security := s\<rparr>, out, r))"

definition pc_unwrapInPlace ::
  "'s netip_security \<Rightarrow> bytes \<Rightarrow> bytes \<Rightarrow> 's packet_codec \<Rightarrow> 's packet_codec \<times> bytes \<times> nat result" where
  "pc_unwrapInPlace N secured plainBuffer c =
     (if pc_unwrapScratch c = [] then (c, plainBuffer, Inl BufferTooSmall)
      else case ns_unprotect N secured (pc_unwrapScratch c) (pc_security c) of (s, w, r) \<Rightarrow>
        let c1 = c\<lparr>pc_security := s, pc_unwrapScratch := w\<rparr> in
        case r of
          Inl e \<Rightarrow> (c1, plainBuffer, Inl e)
        | Inr n \<Rightarrow> if n > length plainBuffer then (c1, plainBuffer, Inl BufferTooSmall)
                   else (c1, put_at 0 (take n w) plainBuffer, Inr n))"

section \<open>The secure datagram channel (netip/secure\_udp\_datagram\_channel.hpp)\<close>

definition sch_send ::
  "'p udp_env \<Rightarrow> 's netip_security \<Rightarrow> ip_address \<Rightarrow> u16 \<Rightarrow> bytes \<Rightarrow> 'p \<times> 's packet_codec \<Rightarrow> ('p \<times> 's packet_codec) \<times> unit result" where
  "sch_send E N addr port payload pc =
     (case pc of (p, c) \<Rightarrow>
        if \<not> udp_isOpen E p then (pc, Inl NotInitialized)
        else if ip_isZero addr \<or> port = 0 then (pc, Inl InvalidAddress)
        else case pc_wrap N payload c of
               (c1, Inl e) \<Rightarrow> ((p, c1), Inl e)
             | (c1, Inr w) \<Rightarrow>
                 (case udp_send E addr port w p of (p1, sent) \<Rightarrow>
                    ((p1, c1), if sent \<noteq> int (length w) then Inl ETransmissionFailed else Inr ())))"

definition sch_receive ::
  "'p udp_env \<Rightarrow> 's netip_security \<Rightarrow> bytes \<Rightarrow> 'p \<times> 's packet_codec \<Rightarrow>
   ('p \<times> 's packet_codec) \<times> bytes \<times> nat result \<times> ip_address \<times> u16" where
  "sch_receive E N plainBuffer pc =
     (case pc of (p, c) \<Rightarrow>
        if \<not> udp_isOpen E p then (pc, plainBuffer, Inl NotInitialized, ip_zero, 0)
        else case udp_receive E plainBuffer p of (p1, received, buf, addr, port) \<Rightarrow>
          if received < 0 then ((p1, c), buf, Inl ETransmissionFailed, addr, port)
          else case pc_unwrapInPlace N (take (nat received) buf) buf c of (c1, buf1, r) \<Rightarrow>
                 ((p1, c1), buf1, r, addr, port))"

text \<open>\<open>exchange\<close> waits without a timing platform of its own; \<open>fuel\<close> bounds the turns of the wait.\<close>

definition sch_exchange ::
  "'p udp_env \<Rightarrow> 's netip_security \<Rightarrow> nat \<Rightarrow> ip_address \<Rightarrow> u16 \<Rightarrow> bytes \<Rightarrow> bytes \<Rightarrow> int \<Rightarrow> 'p \<times> 's packet_codec \<Rightarrow>
   (('p \<times> 's packet_codec) \<times> bytes \<times> nat result) option" where
  "sch_exchange E N fuel addr port request response timeoutMs pc =
     (case sch_send E N addr port request pc of
        (pc1, Inl e) \<Rightarrow> Some (pc1, response, Inl e)
      | ((p1, c1), Inr _) \<Rightarrow>
          if \<not> udp_isOpen E p1 then Some ((p1, c1), response, Inl NotInitialized)
          else case waitUntilReadable E fuel timeoutMs p1 of
                 None \<Rightarrow> None
               | Some (p2, False) \<Rightarrow> Some ((p2, c1), response, Inl ETimeout)
               | Some (p2, True) \<Rightarrow>
                   (case sch_receive E N response (p2, c1) of (pc3, buf, r, src, srcPort) \<Rightarrow>
                      Some (pc3, buf, case r of Inl e \<Rightarrow> Inl e
                                      | Inr n \<Rightarrow> if src \<noteq> addr \<or> srcPort \<noteq> port then Inl OperationFailed else Inr n)))"

section \<open>The routing endpoint (src/netip/routing\_endpoint.cpp)\<close>

text \<open>The multicast operations of the socket; the results of those that set an option are ignored by the code.\<close>

record 'p multicast_env =
  mu_setInterface :: "ip_address \<Rightarrow> 'p \<Rightarrow> 'p"
  mu_setLoopback :: "bool \<Rightarrow> 'p \<Rightarrow> 'p"
  mu_setTtl :: "u8 \<Rightarrow> 'p \<Rightarrow> 'p"
  mu_join :: "ip_address \<Rightarrow> ip_address \<Rightarrow> 'p \<Rightarrow> 'p \<times> unit result"
  mu_leave :: "ip_address \<Rightarrow> ip_address \<Rightarrow> 'p \<Rightarrow> 'p"

record routing_options =
  ro_multicastGroup :: ip_address
  ro_port :: u16
  ro_interfaceAddress :: ip_address
  ro_ttl :: u8
  ro_loopback :: bool
  ro_hasSecurity :: bool

definition routing_options_init :: routing_options where
  "routing_options_init = \<lparr>ro_multicastGroup = (224, 0, 23, 12), ro_port = 3671, ro_interfaceAddress = ip_zero,
     ro_ttl = 1, ro_loopback = True, ro_hasSecurity = False\<rparr>"

text \<open>The security the options point to is the one of the codec, with the two secure buffers.\<close>

record ('p, 's) routing_endpoint =
  rte_env :: 'p
  rte_socket :: bool
  rte_options :: routing_options
  rte_multicastAddr :: ip_address
  rte_interfaceAddr :: ip_address
  rte_rxBuffer :: bytes
  rte_codec :: "'s packet_codec"
  rte_lostMessagesSeen :: u64
  rte_lostCountTotal :: u64

definition rte_new :: "'p \<Rightarrow> 's \<Rightarrow> ('p, 's) routing_endpoint" where
  "rte_new p s = \<lparr>rte_env = p, rte_socket = False, rte_options = routing_options_init, rte_multicastAddr = ip_zero,
     rte_interfaceAddr = ip_zero, rte_rxBuffer = replicate kUdpBufferSize 0,
     rte_codec = \<lparr>pc_security = s, pc_wrapScratch = replicate (kUdpBufferSize + sw_kOverhead) 0,
                  pc_unwrapScratch = replicate kUdpBufferSize 0\<rparr>,
     rte_lostMessagesSeen = 0, rte_lostCountTotal = 0\<rparr>"

definition rte_close :: "'p udp_env \<Rightarrow> 'p multicast_env \<Rightarrow> ('p, 's) routing_endpoint \<Rightarrow> ('p, 's) routing_endpoint" where
  "rte_close E M s =
     (let s1 = (if rte_socket s
                then s\<lparr>rte_env := udp_close E (mu_leave M (rte_multicastAddr s) (rte_interfaceAddr s) (rte_env s)),
                       rte_socket := False\<rparr>
                else s)
      in s1\<lparr>rte_multicastAddr := ip_zero, rte_interfaceAddr := ip_zero\<rparr>)"

definition rte_isOpen :: "'p udp_env \<Rightarrow> ('p, 's) routing_endpoint \<Rightarrow> bool" where
  "rte_isOpen E s \<longleftrightarrow> rte_socket s \<and> udp_isOpen E (rte_env s)"

definition rte_open ::
  "'p udp_env \<Rightarrow> 'p multicast_env \<Rightarrow> routing_options \<Rightarrow> ('p, 's) routing_endpoint \<Rightarrow> ('p, 's) routing_endpoint \<times> unit result" where
  "rte_open E M opts s =
     (let s1 = (rte_close E M s)\<lparr>rte_options := opts, rte_multicastAddr := ro_multicastGroup opts,
                                rte_interfaceAddr := ro_interfaceAddress opts\<rparr> in
      if ip_isZero (rte_multicastAddr s1) then (s1, Inl InvalidAddress)
      else case udp_create E (rte_env s1) of
        (p1, False) \<Rightarrow> (s1\<lparr>rte_env := p1, rte_socket := False\<rparr>, Inl ResourceUnavailable)
      | (p1, True) \<Rightarrow>
          (case udp_open E (ro_port opts) p1 of
             (p2, Inl e) \<Rightarrow> (s1\<lparr>rte_env := p2, rte_socket := False\<rparr>, Inl e)
           | (p2, Inr _) \<Rightarrow>
               (let p3 = mu_setTtl M (ro_ttl opts) (mu_setLoopback M (ro_loopback opts) (mu_setInterface M (rte_interfaceAddr s1) p2)) in
                case mu_join M (rte_multicastAddr s1) (rte_interfaceAddr s1) p3 of
                  (p4, Inl e) \<Rightarrow> (rte_close E M (s1\<lparr>rte_env := p4, rte_socket := True\<rparr>), Inl e)
                | (p4, Inr _) \<Rightarrow> (s1\<lparr>rte_env := p4, rte_socket := True\<rparr>, Inr ()))))"

text \<open>Sending a packet, protected or not, as both send operations do.\<close>

definition rte_sendPacket ::
  "'p udp_env \<Rightarrow> 's netip_security \<Rightarrow> bytes \<Rightarrow> ('p, 's) routing_endpoint \<Rightarrow> ('p, 's) routing_endpoint \<times> unit result" where
  "rte_sendPacket E N pkt s =
     (if ro_hasSecurity (rte_options s)
      then case sch_send E N (rte_multicastAddr s) (ro_port (rte_options s)) pkt (rte_env s, rte_codec s) of
             ((p, c), r) \<Rightarrow> (s\<lparr>rte_env := p, rte_codec := c\<rparr>, r)
      else case udp_send E (rte_multicastAddr s) (ro_port (rte_options s)) pkt (rte_env s) of
             (p, sent) \<Rightarrow> (s\<lparr>rte_env := p\<rparr>, if sent \<noteq> int (length pkt) then Inl ETransmissionFailed else Inr ()))"

definition sendRoutingIndication ::
  "'p udp_env \<Rightarrow> 's netip_security \<Rightarrow> bytes \<Rightarrow> ('p, 's) routing_endpoint \<Rightarrow> ('p, 's) routing_endpoint \<times> unit result" where
  "sendRoutingIndication E N cemi s =
     (if \<not> rte_isOpen E s then (s, Inl NotInitialized)
      else case encodeRoutingIndication cemi 2048 of
             Inl e \<Rightarrow> (s, Inl e)
           | Inr pkt \<Rightarrow> rte_sendPacket E N pkt s)"

definition sendRoutingLostMessage ::
  "'p udp_env \<Rightarrow> 's netip_security \<Rightarrow> u16 \<Rightarrow> ('p, 's) routing_endpoint \<Rightarrow> ('p, 's) routing_endpoint \<times> unit result" where
  "sendRoutingLostMessage E N lostCount s =
     (if \<not> rte_isOpen E s then (s, Inl NotInitialized)
      else case encodeRoutingLostMessage lostCount of
             Inl e \<Rightarrow> (s, Inl e)
           | Inr pkt \<Rightarrow> rte_sendPacket E N pkt s)"

text \<open>What is done with a received datagram of \<open>inLen\<close> octets: the octets of the indication, which the caller
  gets if its buffer of \<open>cap\<close> octets holds them.\<close>

definition rte_decode :: "bytes \<Rightarrow> nat \<Rightarrow> ('p, 's) routing_endpoint \<Rightarrow> ('p, 's) routing_endpoint \<times> bytes result" where
  "rte_decode data cap s =
     (case decodeHeader data of
        Inl _ \<Rightarrow> (s, Inl DecodeFailed)
      | Inr hdr \<Rightarrow>
          if serviceType hdr = ST_ROUTING_INDICATION
          then (case decodeRoutingIndication data of
                  Inl _ \<Rightarrow> (s, Inl DecodeFailed)
                | Inr cemi \<Rightarrow> (s, if length cemi > cap then Inl BufferTooSmall else Inr cemi))
          else if serviceType hdr = ST_ROUTING_LOST_MESSAGE
          then (case decodeRoutingLostMessage data of
                  Inl _ \<Rightarrow> (s, Inl ResourceUnavailable)
                | Inr lost \<Rightarrow> (s\<lparr>rte_lostMessagesSeen := rte_lostMessagesSeen s + 1,
                                 rte_lostCountTotal := rte_lostCountTotal s + ucast lost\<rparr>, Inl ResourceUnavailable))
          else (s, Inl OperationNotSupported))"

text \<open>The unsigned timeout becomes a signed number: from \<open>2\<^sup>3\<^sup>1\<close> on it is negative and there is no wait.\<close>

definition receiveRoutingIndication ::
  "'p udp_env \<Rightarrow> 's netip_security \<Rightarrow> nat \<Rightarrow> nat \<Rightarrow> u32 \<Rightarrow> ('p, 's) routing_endpoint \<Rightarrow>
   (('p, 's) routing_endpoint \<times> bytes result) option" where
  "receiveRoutingIndication E N fuel cap timeoutMs s =
     (if \<not> rte_isOpen E s then Some (s, Inl NotInitialized)
      else case waitUntilReadable E fuel (sint timeoutMs) (rte_env s) of
             None \<Rightarrow> None
           | Some (p1, False) \<Rightarrow> Some (s\<lparr>rte_env := p1\<rparr>, Inl ETimeout)
           | Some (p1, True) \<Rightarrow>
               if ro_hasSecurity (rte_options s)
               then (case sch_receive E N (rte_rxBuffer s) (p1, rte_codec s) of ((p2, c), buf, r, _, _) \<Rightarrow>
                       let s1 = s\<lparr>rte_env := p2, rte_codec := c, rte_rxBuffer := buf\<rparr> in
                       case r of Inl e \<Rightarrow> Some (s1, Inl e) | Inr n \<Rightarrow> Some (rte_decode (take n buf) cap s1))
               else (case udp_receive E (rte_rxBuffer s) p1 of (p2, n, buf, _, _) \<Rightarrow>
                       let s1 = s\<lparr>rte_env := p2, rte_rxBuffer := buf\<rparr> in
                       if n \<le> 0 then Some (s1, Inl ResourceUnavailable)
                       else Some (rte_decode (take (nat n) buf) cap s1)))"

section \<open>What a datagram security promises\<close>

text \<open>What one end protects in a buffer that is large enough, each of its peers gets back, and both stay peers.\<close>

locale datagram_security =
  fixes protect unprotect :: "bytes \<Rightarrow> bytes \<Rightarrow> 's \<Rightarrow> 's \<times> bytes \<times> nat result"
    and peers :: "'s \<Rightarrow> 's \<Rightarrow> bool"
    and overhead :: nat
  assumes overhead_pos: "0 < overhead"
    and protected: "peers s t \<Longrightarrow> length d + overhead \<le> length out \<Longrightarrow> length d + overhead \<le> 65535 \<Longrightarrow>
      \<exists>s' w. protect d out s = (s', w @ drop (length w) out, Inr (length w)) \<and> length w = length d + overhead \<and> peers s' t \<and>
        (\<forall>buf. length d \<le> length buf \<longrightarrow>
           (\<exists>t'. unprotect w buf t = (t', d @ drop (length d) buf, Inr (length d)) \<and> peers s' t'))"
begin

abbreviation sec :: "'s netip_security" where
  "sec \<equiv> \<lparr>ns_protect = protect, ns_unprotect = unprotect\<rparr>"

lemma codec_roundtrip:
  assumes "peers (pc_security c) (pc_security r)" "length d + overhead \<le> length (pc_wrapScratch c)"
    and "length d + overhead \<le> 65535" "length d \<le> length (pc_unwrapScratch r)" "pc_unwrapScratch r \<noteq> []"
  shows "\<exists>c1 w. pc_wrap sec d c = (c1, Inr w) \<and> length w = length d + overhead \<and>
    length (pc_wrapScratch c1) = length (pc_wrapScratch c) \<and> peers (pc_security c1) (pc_security r) \<and>
    (\<forall>buf. length d \<le> length buf \<longrightarrow>
       (\<exists>r1. pc_unwrapInPlace sec w buf r = (r1, d @ drop (length d) buf, Inr (length d)) \<and>
          peers (pc_security c1) (pc_security r1) \<and> length (pc_unwrapScratch r1) = length (pc_unwrapScratch r)))"
proof -
  obtain s' w where w: "protect d (pc_wrapScratch c) (pc_security c) = (s', w @ drop (length w) (pc_wrapScratch c), Inr (length w))"
    "length w = length d + overhead" "peers s' (pc_security r)"
    "\<forall>buf. length d \<le> length buf \<longrightarrow>
       (\<exists>t'. unprotect w buf (pc_security r) = (t', d @ drop (length d) buf, Inr (length d)) \<and> peers s' t')"
    using protected [OF assms(1-3)] by blast
  obtain t' where t: "unprotect w (pc_unwrapScratch r) (pc_security r) = (t', d @ drop (length d) (pc_unwrapScratch r), Inr (length d))"
    "peers s' t'"
    using w(4) assms(4) by blast
  let ?c1 = "c\<lparr>pc_security := s', pc_wrapScratch := w @ drop (length w) (pc_wrapScratch c)\<rparr>"
  have "pc_wrapScratch c \<noteq> []" using assms(2) overhead_pos by auto
  then have "pc_wrap sec d c = (?c1, Inr w)" using w(1) by (simp add: pc_wrap_def)
  moreover have "length (pc_wrapScratch ?c1) = length (pc_wrapScratch c)" using w(2) assms(2) by simp
  moreover have "\<exists>r1. pc_unwrapInPlace sec w buf r = (r1, d @ drop (length d) buf, Inr (length d)) \<and>
      peers (pc_security ?c1) (pc_security r1) \<and> length (pc_unwrapScratch r1) = length (pc_unwrapScratch r)"
    if "length d \<le> length buf" for buf
    using t that assms(4,5) by (simp add: pc_unwrapInPlace_def put_at_def not_less)
  moreover have "peers (pc_security ?c1) (pc_security r)" using w(3) by simp
  ultimately show ?thesis using w(2) by blast
qed

end

text \<open>The group security of routing keeps this promise for every block cipher that works: its peers are those
  with the same group key.\<close>

definition rg_peers :: "aes_backend \<Rightarrow> routing_security \<Rightarrow> routing_security \<Rightarrow> bool" where
  "rg_peers B s t \<longleftrightarrow> (\<exists>enc. aes_works B enc) \<and> rg_groupKey s = rg_groupKey t \<and> length (rg_serial s) = 6 \<and> length (rg_tag s) = 2"

interpretation rgs: datagram_security "rg_protect B" "rg_unprotect B" "rg_peers B" 38 for B
proof unfold_locales
  fix s t :: routing_security and d out :: bytes
  assume p: "rg_peers B s t" and l: "length d + 38 \<le> length out" "length d + 38 \<le> 65535"
  then obtain enc where enc: "aes_works B enc" by (auto simp: rg_peers_def)
  let ?sq = "encodeSeq48BE (mask48 (rg_seq48 s))"
  let ?w = "wrapped (enc (rg_groupKey s)) 0 ?sq (rg_serial s) (rg_tag s) d"
  have len: "length (rg_serial s) = 6" "length (rg_tag s) = 2" "rg_groupKey t = rg_groupKey s" using p by (simp_all add: rg_peers_def)
  have lw: "length ?w = length d + 38" using wrapped_length [OF enc encodeSeq48BE_length len(1,2)] by simp
  have "rg_protect B d out s = (s\<lparr>rg_seq48 := rg_seq48 s + 1\<rparr>, ?w @ drop (length ?w) out, Inr (length ?w))"
    unfolding lw rg_protect_def Let_def using sw_wrap_wrapped [OF enc encodeSeq48BE_length len(1,2), of d out] l
    by (simp add: add.commute)
  moreover have "rg_unprotect B ?w buf t = (t, d @ drop (length d) buf, Inr (length d))" if "length d \<le> length buf" for buf
  proof -
    have "sw_unwrapAndVerify B (rg_groupKey s) 0 ?w buf = (d @ drop (length d) buf, Inr (length d))"
      unfolding sw_unwrap_wrapped [OF enc] using len(1,2) l that
      by (intro exI [of _ ?sq] exI [of _ "rg_serial s"] exI [of _ "rg_tag s"] exI [of _ d] exI [of _ "[]"]) simp
    then show ?thesis by (simp add: rg_unprotect_def len(3))
  qed
  moreover have "rg_peers B (s\<lparr>rg_seq48 := rg_seq48 s + 1\<rparr>) t" using p by (simp add: rg_peers_def)
  ultimately show "\<exists>s' w. rg_protect B d out s = (s', w @ drop (length w) out, Inr (length w)) \<and> length w = length d + 38 \<and>
      rg_peers B s' t \<and> (\<forall>buf. length d \<le> length buf \<longrightarrow>
        (\<exists>t'. rg_unprotect B w buf t = (t', d @ drop (length d) buf, Inr (length d)) \<and> rg_peers B s' t'))"
    using lw by blast
qed simp

section \<open>Routing indications\<close>

lemma encodeRoutingIndication_ok:
  "6 + length cemi \<le> cap \<Longrightarrow> cap \<le> 65535 \<Longrightarrow> encodeRoutingIndication cemi cap = Inr (packet ST_ROUTING_INDICATION cemi)"
  using unat_total [of "length cemi"] by (simp add: encodeRoutingIndication_def kHeaderLen_def packet_def del: of_nat_add)

lemma rte_decode_indication:
  assumes "length cemi \<le> 65529" "length cemi \<le> cap"
  shows "rte_decode (packet ST_ROUTING_INDICATION cemi) cap s = (s, Inr cemi)"
proof -
  have h: "decodeHeader (packet ST_ROUTING_INDICATION cemi) = Inr \<lparr>serviceType = ST_ROUTING_INDICATION, totalLength = of_nat (6 + length cemi)\<rparr>"
    using decodeHeader_packet [OF assms(1), of ST_ROUTING_INDICATION "[]"] by simp
  have "payloadSpan (packet ST_ROUTING_INDICATION cemi) ST_ROUTING_INDICATION = Inr cemi"
    unfolding payloadSpan_def h using unat_total [OF assms(1)] packet_body(1)
    by (simp add: kHeaderLen_def del: of_nat_add)
  with h assms(2) show ?thesis by (simp add: rte_decode_def decodeRoutingIndication_def)
qed

text \<open>A lost message count is counted by the endpoint that gets it.\<close>

lemma lost_message_counted:
  assumes "encodeRoutingLostMessage lost = Inr pkt"
  shows "rte_decode pkt cap s =
    (s\<lparr>rte_lostMessagesSeen := rte_lostMessagesSeen s + 1, rte_lostCountTotal := rte_lostCountTotal s + ucast lost\<rparr>, Inl ResourceUnavailable)"
proof -
  have p: "pkt = packet ST_ROUTING_LOST_MESSAGE [getHighByte lost, getLowByte lost]"
    using assms by (auto simp: encodeRoutingLostMessage_def packet_def)
  have h: "decodeHeader pkt = Inr \<lparr>serviceType = ST_ROUTING_LOST_MESSAGE, totalLength = 8\<rparr>"
    using decodeHeader_packet [of "[getHighByte lost, getLowByte lost]" ST_ROUTING_LOST_MESSAGE "[]"] by (simp add: p)
  have "pkt ! 6 = getHighByte lost" "pkt ! 7 = getLowByte lost" "length pkt = 8" unfolding p
    using packet_body(3) [of ST_ROUTING_LOST_MESSAGE "[getHighByte lost, getLowByte lost]" 0]
      packet_body(3) [of ST_ROUTING_LOST_MESSAGE "[getHighByte lost, getLowByte lost]" 1] by simp_all
  then show ?thesis using h
    by (simp add: rte_decode_def decodeRoutingLostMessage_def ST_ROUTING_INDICATION_def ST_ROUTING_LOST_MESSAGE_def kHeaderLen_def)
qed

text \<open>The buffers of an endpoint have their sizes, and no operation changes that; what a socket that sends
  reports and keeps.\<close>

definition rte_buffers :: "('p, 's) routing_endpoint \<Rightarrow> bool" where
  "rte_buffers s \<longleftrightarrow> length (rte_rxBuffer s) = 1500 \<and> length (pc_wrapScratch (rte_codec s)) = 1538 \<and>
     length (pc_unwrapScratch (rte_codec s)) = 1500"

definition socket_sends :: "'p udp_env \<Rightarrow> ('p \<Rightarrow> (ip_address \<times> u16 \<times> bytes) list) \<Rightarrow> bool" where
  "socket_sends E S \<longleftrightarrow> (\<forall>a q bs p. \<exists>p'. udp_send E a q bs p = (p', int (length bs)) \<and> S p' = S p @ [(a, q, bs)])"

lemma rte_buffers_new: "rte_buffers (rte_new p s)"
  by (simp add: rte_buffers_def rte_new_def kUdpBufferSize_def sw_kOverhead_def)

text \<open>
  A routing indication reaches the members of the multicast group. Sending succeeds and puts one datagram
  for the multicast address on the network; an endpoint that reads this datagram returns exactly the frame that
  was sent. This holds without security and with the group security when both have the same group key, for
  frames that fit a datagram of 1500 octets with its header and, if secured, its wrapper.
\<close>

theorem routing_indication_delivered:
  assumes "socket_sends E S" "rte_isOpen E s" "rte_buffers s" "rte_buffers t"
    and "ro_hasSecurity (rte_options s) = ro_hasSecurity (rte_options t)"
    and "\<not> ip_isZero (rte_multicastAddr s)" "ro_port (rte_options s) \<noteq> 0"
    and "rg_peers B (pc_security (rte_codec s)) (pc_security (rte_codec t))"
    and "6 + length cemi + (if ro_hasSecurity (rte_options s) then 38 else 0) \<le> 1500"
  shows "\<exists>s' d. sendRoutingIndication E (routing_group_security B) cemi s = (s', Inr ()) \<and>
     S (rte_env s') = S (rte_env s) @ [(rte_multicastAddr s, ro_port (rte_options s), d)] \<and>
     (\<forall>E' p1 p2 fuel timeout cap src sp. rte_isOpen E' t \<and> waitUntilReadable E' fuel (sint timeout) (rte_env t) = Some (p1, True) \<and>
        udp_isOpen E' p1 \<and> udp_receive E' (rte_rxBuffer t) p1 = (p2, int (length d), d @ drop (length d) (rte_rxBuffer t), src, sp) \<and>
        length cemi \<le> cap \<longrightarrow>
        (\<exists>t'. receiveRoutingIndication E' (routing_group_security B) fuel cap timeout t = Some (t', Inr cemi)))"
proof -
  let ?pkt = "packet ST_ROUTING_INDICATION cemi" and ?N = "routing_group_security B"
  let ?a = "rte_multicastAddr s" and ?q = "ro_port (rte_options s)"
  have pkt: "encodeRoutingIndication cemi 2048 = Inr ?pkt" by (rule encodeRoutingIndication_ok) (use assms(9) in auto)
  have dec: "rte_decode ?pkt cap u = (u, Inr cemi)" if "length cemi \<le> cap" for cap and u :: "('b, routing_security) routing_endpoint"
    by (rule rte_decode_indication) (use assms(9) that in auto)
  have b: "length (rte_rxBuffer t) = 1500" "length (pc_wrapScratch (rte_codec s)) = 1538" "length (pc_unwrapScratch (rte_codec t)) = 1500"
    using assms(3,4) by (simp_all add: rte_buffers_def)
  show ?thesis
  proof (cases "ro_hasSecurity (rte_options s)")
    case False
    obtain p' where p: "udp_send E ?a ?q ?pkt (rte_env s) = (p', int (length ?pkt))" "S p' = S (rte_env s) @ [(?a, ?q, ?pkt)]"
      using assms(1) unfolding socket_sends_def by blast
    have "sendRoutingIndication E ?N cemi s = (s\<lparr>rte_env := p'\<rparr>, Inr ())"
      using assms(2) False p(1) pkt by (simp add: sendRoutingIndication_def rte_sendPacket_def)
    moreover have "\<exists>t'. receiveRoutingIndication E' ?N fuel cap timeout t = Some (t', Inr cemi)"
      if "rte_isOpen E' t" "waitUntilReadable E' fuel (sint timeout) (rte_env t) = Some (p1, True)" "length cemi \<le> cap"
        "udp_receive E' (rte_rxBuffer t) p1 = (p2, int (length ?pkt), ?pkt @ drop (length ?pkt) (rte_rxBuffer t), src, sp)"
      for E' p1 p2 fuel timeout cap src sp
      using that False assms(5) dec by (simp add: receiveRoutingIndication_def Let_def)
    ultimately show ?thesis using p(2) by (intro exI [of _ "s\<lparr>rte_env := p'\<rparr>"] exI [of _ ?pkt]) auto
  next
    case True
    have l: "length ?pkt + 38 \<le> length (pc_wrapScratch (rte_codec s))" "length ?pkt + 38 \<le> 65535"
      "length ?pkt \<le> length (pc_unwrapScratch (rte_codec t))" "pc_unwrapScratch (rte_codec t) \<noteq> []"
      using assms(9) True b by auto
    obtain c1 w where w: "pc_wrap ?N ?pkt (rte_codec s) = (c1, Inr w)" "length w = length ?pkt + 38"
      "\<And>buf. length ?pkt \<le> length buf \<Longrightarrow>
         \<exists>r1. pc_unwrapInPlace ?N w buf (rte_codec t) = (r1, ?pkt @ drop (length ?pkt) buf, Inr (length ?pkt))"
      using rgs.codec_roundtrip [OF assms(8) l] unfolding routing_group_security_def by blast
    obtain p' where p: "udp_send E ?a ?q w (rte_env s) = (p', int (length w))" "S p' = S (rte_env s) @ [(?a, ?q, w)]"
      using assms(1) unfolding socket_sends_def by blast
    have "sendRoutingIndication E ?N cemi s = (s\<lparr>rte_env := p', rte_codec := c1\<rparr>, Inr ())"
      using assms(2,6,7) True p(1) pkt w(1) by (simp add: sendRoutingIndication_def rte_sendPacket_def sch_send_def rte_isOpen_def)
    moreover have "\<exists>t'. receiveRoutingIndication E' ?N fuel cap timeout t = Some (t', Inr cemi)"
      if h: "rte_isOpen E' t" "waitUntilReadable E' fuel (sint timeout) (rte_env t) = Some (p1, True)" "udp_isOpen E' p1" "length cemi \<le> cap"
        "udp_receive E' (rte_rxBuffer t) p1 = (p2, int (length w), w @ drop (length w) (rte_rxBuffer t), src, sp)"
      for E' p1 p2 fuel timeout cap src sp
    proof -
      obtain r1 where "pc_unwrapInPlace ?N w (w @ drop (length w) (rte_rxBuffer t)) (rte_codec t) =
          (r1, ?pkt @ drop (length ?pkt) (w @ drop (length w) (rte_rxBuffer t)), Inr (length ?pkt))"
        using w(3) [of "w @ drop (length w) (rte_rxBuffer t)"] w(2) by auto
      then show ?thesis using h True assms(5) dec by (simp add: receiveRoutingIndication_def sch_receive_def Let_def)
    qed
    ultimately show ?thesis using p(2) by (intro exI [of _ "s\<lparr>rte_env := p', rte_codec := c1\<rparr>"] exI [of _ w]) auto
  qed
qed

definition sample_endpoint :: "(sim_socket, routing_security) routing_endpoint" where
  "sample_endpoint = (rte_new ([], [], True) (rg_new (replicate 16 7) [1, 2, 3, 4, 5, 6] [0xAB, 0xCD] 0))
     \<lparr>rte_socket := True, rte_options := routing_options_init\<lparr>ro_hasSecurity := True\<rparr>, rte_multicastAddr := (224, 0, 23, 12)\<rparr>"

theorem routing_indication_delivered_witness:
  "\<exists>s' d. sendRoutingIndication sim_env (routing_group_security toy_aes) [0x29, 0x00, 0xBC] sample_endpoint = (s', Inr ()) \<and>
     fst (rte_env s') = [((224, 0, 23, 12), 3671, d)] \<and>
     (\<exists>E' t'. receiveRoutingIndication E' (routing_group_security toy_aes) 0 100 0 sample_endpoint = Some (t', Inr [0x29, 0x00, 0xBC]))"
proof -
  let ?s = sample_endpoint
  have f: "rte_socket ?s" "rte_env ?s = ([], [], True)" "rte_options ?s = routing_options_init\<lparr>ro_hasSecurity := True\<rparr>"
    "rte_multicastAddr ?s = (224, 0, 23, 12)" "pc_security (rte_codec ?s) = rg_new (replicate 16 7) [1, 2, 3, 4, 5, 6] [0xAB, 0xCD] 0"
    by (simp_all add: sample_endpoint_def rte_new_def)
  have l: "socket_sends sim_env fst" by (auto simp: socket_sends_def)
  have o1: "rte_isOpen sim_env ?s" by (simp add: rte_isOpen_def f)
  have b: "rte_buffers ?s"
    by (simp add: sample_endpoint_def rte_buffers_def rte_new_def kUdpBufferSize_def sw_kOverhead_def)
  have k: "rg_peers toy_aes (pc_security (rte_codec ?s)) (pc_security (rte_codec ?s))"
    using toy_aes_works by (auto simp: rg_peers_def f rg_new_def)
  have a: "\<not> ip_isZero (rte_multicastAddr ?s)" "ro_port (rte_options ?s) \<noteq> 0"
    "6 + length [0x29, 0x00, 0xBC :: u8] + (if ro_hasSecurity (rte_options ?s) then 38 else 0) \<le> 1500"
    by (simp_all add: f ip_isZero_def routing_options_init_def)
  obtain s' d where d: "sendRoutingIndication sim_env (routing_group_security toy_aes) [0x29, 0x00, 0xBC] ?s = (s', Inr ())"
    "fst (rte_env s') = fst (rte_env ?s) @ [(rte_multicastAddr ?s, ro_port (rte_options ?s), d)]"
    "\<And>E' p1 p2 fuel timeout cap src sp. rte_isOpen E' ?s \<Longrightarrow> waitUntilReadable E' fuel (sint timeout) (rte_env ?s) = Some (p1, True) \<Longrightarrow>
        udp_isOpen E' p1 \<Longrightarrow> udp_receive E' (rte_rxBuffer ?s) p1 = (p2, int (length d), d @ drop (length d) (rte_rxBuffer ?s), src, sp) \<Longrightarrow>
        length [0x29, 0x00, 0xBC :: u8] \<le> cap \<Longrightarrow>
        \<exists>t'. receiveRoutingIndication E' (routing_group_security toy_aes) fuel cap timeout ?s = Some (t', Inr [0x29, 0x00, 0xBC])"
    using routing_indication_delivered [OF l o1 b b refl a(1,2) k a(3)] by blast
  let ?E = "sim_env\<lparr>udp_receive := \<lambda>buf p. (p, int (length d), d @ drop (length d) buf, ip_zero, 0), udp_available := \<lambda>_. 1\<rparr>"
  have "\<exists>t'. receiveRoutingIndication ?E (routing_group_security toy_aes) 0 100 0 ?s = Some (t', Inr [0x29, 0x00, 0xBC])"
    by (rule d(3) [of ?E 0 0 "([], [], True)" "([], [], True)" ip_zero 0]) (simp_all add: rte_isOpen_def f waitUntilReadable_def sim_env_def)
  with d(1,2) show ?thesis by (auto simp: f routing_options_init_def)
qed

text \<open>A secured endpoint hands on nothing that was not wrapped with the group key.\<close>

lemma secured_endpoint_takes_wrapped_only:
  assumes "aes_works B enc" "ro_hasSecurity (rte_options t)"
    and "receiveRoutingIndication E (routing_group_security B) fuel cap timeout t = Some (t', Inr cemi)"
  shows "\<exists>p1 p2 n buf src sp sq serial tag inner rest. udp_receive E (rte_rxBuffer t) p1 = (p2, n, buf, src, sp) \<and>
    take (nat n) buf = wrapped (enc (rg_groupKey (pc_security (rte_codec t)))) 0 sq serial tag inner @ rest \<and>
    length sq = 6 \<and> length serial = 6 \<and> length tag = 2 \<and> decodeRoutingIndication inner = Inr cemi"
proof -
  let ?N = "routing_group_security B"
  obtain p1 p2 c b1 k a q where r: "sch_receive E ?N (rte_rxBuffer t) (p1, rte_codec t) = ((p2, c), b1, Inr k, a, q)"
    "decodeRoutingIndication (take k b1) = Inr cemi"
    using assms(2,3)
    by (auto simp: receiveRoutingIndication_def rte_decode_def Let_def split: if_splits option.splits bool.splits prod.splits sum.splits)
  obtain p2' n buf src sp where u: "udp_receive E (rte_rxBuffer t) p1 = (p2', n, buf, src, sp)" by (metis prod_cases5)
  have "pc_unwrapInPlace ?N (take (nat n) buf) buf (rte_codec t) = (c, b1, Inr k)"
    using r(1) u by (auto simp: sch_receive_def split: if_splits prod.splits)
  then obtain w where w: "sw_unwrapAndVerify B (rg_groupKey (pc_security (rte_codec t))) 0 (take (nat n) buf) (pc_unwrapScratch (rte_codec t)) = (w, Inr k)"
    "b1 = put_at 0 (take k w) buf" "k \<le> length buf"
    by (auto simp: pc_unwrapInPlace_def routing_group_security_def rg_unprotect_def Let_def not_less split: if_splits prod.splits sum.splits)
  from w(1) obtain sq serial tag inner rest where i: "length sq = 6" "length serial = 6" "length tag = 2" "length inner = k"
    "take (nat n) buf = wrapped (enc (rg_groupKey (pc_security (rte_codec t)))) 0 sq serial tag inner @ rest"
    "w = inner @ drop k (pc_unwrapScratch (rte_codec t))"
    unfolding sw_unwrap_wrapped [OF assms(1)] by blast
  have "take k b1 = inner" using w(2) i(4,6) by (simp add: put_at_def)
  then have "decodeRoutingIndication inner = Inr cemi" using r(2) by simp
  with u i(5,1,2,3) show ?thesis by (intro exI conjI)
qed

text \<open>The numbers of protected datagrams are the next ones modulo \<open>2\<^sup>4\<^sup>8\<close>, but no receiver looks at them: a
  datagram that was accepted once is accepted again.\<close>

lemma protect_numbers: "rg_seq48 (fst (rg_protect B d out s)) = rg_seq48 s + 1"
  by (simp add: rg_protect_def Let_def)

lemma replayed_datagram_accepted:
  "rg_unprotect B d buf s = (s', out, Inr n) \<Longrightarrow> rg_unprotect B d buf s' = (s', out, Inr n)"
  by (auto simp: rg_unprotect_def)

end
