(* ===== verification/Tunneling_Spec.thy ===== *)
theory Tunneling_Spec
  imports Tunneling_Server
begin

text \<open>
  What the tunnelling server promises: an abstract table of channels, keyed by the identifier, in
  which each channel belongs to one endpoint and accepts only the next sequence number. The
  octet-level handlers of \<open>src/netip/tunneling_server_endpoint.cpp\<close> are shown to refine it, and
  the order of the delivered cEMI frames follows.
\<close>

section \<open>The abstract channel service\<close>

type_synonym endpoint = "ip_address \<times> u16"

record channel =
  ch_peer :: endpoint
  ch_rx :: u8
  ch_tx :: u8

type_synonym channel_table = "u8 \<rightharpoonup> channel"

datatype request =
    Connect
  | ConnectionState u8
  | Disconnect u8
  | Tunnel u8 u8 bytes

datatype response =
    ConnectResponse u8 u8
  | StateResponse u8 u8
  | DisconnectResponse u8 u8
  | TunnelAck u8 u8 u8

definition identifiers :: "nat \<Rightarrow> u8 list" where
  "identifiers n = map of_nat [1..<Suc n]"

definition channel_of :: "nat \<Rightarrow> channel_table \<Rightarrow> endpoint \<Rightarrow> u8 option" where
  "channel_of n t e = find (\<lambda>ch. map_option ch_peer (t ch) = Some e) (identifiers n)"

definition free_channel :: "nat \<Rightarrow> channel_table \<Rightarrow> u8 option" where
  "free_channel n t = find (\<lambda>ch. t ch = None) (identifiers n)"

definition owns :: "channel_table \<Rightarrow> u8 \<Rightarrow> endpoint \<Rightarrow> bool" where
  "owns t ch e \<longleftrightarrow> map_option ch_peer (t ch) = Some e"

text \<open>One request of endpoint \<open>e\<close> at a table with room for \<open>n\<close> channels: the new table, the
  answer, and what is handed to the user.\<close>

fun spec_step ::
  "nat \<Rightarrow> channel_table \<Rightarrow> endpoint \<Rightarrow> request \<Rightarrow> channel_table \<times> response \<times> (u8 \<times> bytes) list" where
  "spec_step n t e Connect =
     (case channel_of n t e of
        Some ch \<Rightarrow> (t, ConnectResponse ch 0, [])
      | None \<Rightarrow>
          (case free_channel n t of
             None \<Rightarrow> (t, ConnectResponse 0 0x24, [])
           | Some ch \<Rightarrow> (t(ch \<mapsto> \<lparr>ch_peer = e, ch_rx = 0, ch_tx = 0\<rparr>), ConnectResponse ch 0, [])))"
| "spec_step n t e (ConnectionState ch) =
     (t, StateResponse ch (if owns t ch e then 0 else 0x21), [])"
| "spec_step n t e (Disconnect ch) =
     (if owns t ch e then (t(ch := None), DisconnectResponse ch 0, [])
      else (t, DisconnectResponse ch 0x21, []))"
| "spec_step n t e (Tunnel ch sq cemi) =
     (if \<not> owns t ch e then (t, TunnelAck ch sq 0x21, [])
      else if sq \<noteq> ch_rx (the (t ch)) then (t, TunnelAck ch sq 0x04, [])
      else (t(ch \<mapsto> (the (t ch))\<lparr>ch_rx := sq + 1\<rparr>), TunnelAck ch sq 0, [(ch, cemi)]))"

fun response_octets :: "response \<Rightarrow> bytes" where
  "response_octets (ConnectResponse ch st) = packet kServiceConnectionResponse [ch, st]"
| "response_octets (StateResponse ch st) = packet kServiceConnectionStateResponse [ch, st]"
| "response_octets (DisconnectResponse ch st) = packet kServiceDisconnectResponse [ch, st]"
| "response_octets (TunnelAck ch sq st) = packet kServiceTunnelingAck [kTunnelingHeaderLength, ch, sq, st]"

text \<open>The request a datagram carries.\<close>

definition parse_request :: "bytes \<Rightarrow> request option" where
  "parse_request frame =
     (case decodeHeader frame of
        Inl _ \<Rightarrow> None
      | Inr h \<Rightarrow>
          if serviceType h = kServiceConnectionRequest
          then (if length frame < 26 then None else Some Connect)
          else if serviceType h = kServiceConnectionStateRequest
          then (if length frame < 16 then None else Some (ConnectionState (frame ! 6)))
          else if serviceType h = kServiceDisconnectRequest
          then (if length frame < 16 then None else Some (Disconnect (frame ! 6)))
          else if serviceType h = kServiceTunnelingRequest
          then (case decodeTunnelingRequest frame of
                  Inl _ \<Rightarrow> None
                | Inr r \<Rightarrow> Some (Tunnel (tr_channelId r) (tr_sequence r) (tr_cemi r)))
          else None)"

section \<open>The abstraction\<close>

definition abs_slot :: "channel_slot \<Rightarrow> channel option" where
  "abs_slot sl =
     (if slot_active sl
      then Some \<lparr>ch_peer = (ci_remoteAddress (slot_info sl), ci_remotePort (slot_info sl)),
                 ch_rx = ci_expectedRxSequence (slot_info sl), ch_tx = ci_nextTxSequence (slot_info sl)\<rparr>
      else None)"

definition abs_channels :: "channel_slot list \<Rightarrow> channel_table" where
  "abs_channels cs ch =
     (if ch = 0 \<or> unat ch > length cs then None else abs_slot (cs ! (unat ch - 1)))"

lemma abs_slot_init [simp]: "abs_slot channel_slot_init = None"
  by (simp add: abs_slot_def channel_slot_init_def)

lemma unat_Suc: "i < 255 \<Longrightarrow> unat (of_nat (Suc i) :: u8) = Suc i"
  by (rule unat_of_nat_u8) simp

lemma of_nat_Suc_nz: "i < 255 \<Longrightarrow> (of_nat (Suc i) :: u8) \<noteq> 0"
  using unat_Suc [of i] by (metis nat.distinct(1) unat_0)

lemma abs_channels_nth:
  "slots_ok cs \<Longrightarrow> i < length cs \<Longrightarrow> abs_channels cs (of_nat (Suc i)) = abs_slot (cs ! i)"
  using unat_Suc [of i] of_nat_Suc_nz [of i]
  by (simp add: abs_channels_def slots_ok_def del: of_nat_Suc)

lemma ident_index: "ch \<noteq> 0 \<Longrightarrow> of_nat (Suc (unat ch - 1)) = (ch :: u8)"
  by (simp add: unat_gt_0 Suc_diff_1 del: of_nat_Suc)

lemma index_eq_iff: "ch \<noteq> 0 \<Longrightarrow> i < 255 \<Longrightarrow> unat (ch :: u8) - 1 = i \<longleftrightarrow> ch = of_nat (Suc i)"
  using ident_index [of ch] unat_Suc [of i] by (auto simp del: of_nat_Suc)

lemma abs_channels_update:
  assumes "length cs \<le> 255" "i < length cs"
  shows "abs_channels (cs[i := sl]) = (abs_channels cs)(of_nat (Suc i) := abs_slot sl)"
proof
  fix ch
  show "abs_channels (cs[i := sl]) ch = ((abs_channels cs)(of_nat (Suc i) := abs_slot sl)) ch"
  proof (cases "ch = of_nat (Suc i)")
    case True
    then show ?thesis
      using assms unat_Suc [of i] of_nat_Suc_nz [of i] by (simp add: abs_channels_def del: of_nat_Suc)
  next
    case False
    then have "ch \<noteq> 0 \<Longrightarrow> unat ch - 1 \<noteq> i" using index_eq_iff [of ch i] assms by simp
    with False show ?thesis
      by (cases "ch = 0") (simp_all add: abs_channels_def nth_list_update_neq del: of_nat_Suc)
  qed
qed

text \<open>Looking a channel up by its identifier and owner.\<close>

lemma abs_channels_Some:
  assumes "abs_channels cs ch = Some c"
  shows "unat ch - 1 < length cs \<and> of_nat (Suc (unat ch - 1)) = ch \<and> slot_active (cs ! (unat ch - 1))
    \<and> abs_slot (cs ! (unat ch - 1)) = Some c"
proof -
  have "ch \<noteq> 0" "unat ch \<le> length cs" "abs_slot (cs ! (unat ch - 1)) = Some c"
    using assms by (auto simp: abs_channels_def split: if_splits)
  moreover have "0 < unat ch" using \<open>ch \<noteq> 0\<close> by (simp add: unat_gt_0)
  ultimately show ?thesis
    using ident_index [of ch] by (auto simp: abs_slot_def simp del: of_nat_Suc split: if_splits)
qed

lemma findChannelById_abs:
  assumes "slots_ok cs"
  shows "findChannelById cs ch = (if abs_channels cs ch = None then None else Some (unat ch - 1))"
proof (cases "abs_channels cs ch")
  case None
  have "\<not> (slot_active (cs ! i) \<and> ci_channelId (slot_info (cs ! i)) = ch)" if "i < length cs" for i
    using None that slots_ok_id [OF assms that] abs_channels_nth [OF assms that]
    by (auto simp: abs_slot_def simp del: of_nat_Suc)
  then have "findChannelById cs ch = None"
    unfolding findChannelById_def find_index_None all_set_conv_all_nth by blast
  with None show ?thesis by simp
next
  case (Some c)
  note * = abs_channels_Some [OF Some]
  then have i: "unat ch - 1 < length cs" by blast
  have "slot_active (cs ! (unat ch - 1))" using * by blast
  moreover have "ci_channelId (slot_info (cs ! (unat ch - 1))) = ch"
    using slots_ok_id [OF assms i calculation] * by simp
  moreover have "\<not> (slot_active (cs ! j) \<and> ci_channelId (slot_info (cs ! j)) = ch)" if "j < unat ch - 1" for j
  proof
    assume *: "slot_active (cs ! j) \<and> ci_channelId (slot_info (cs ! j)) = ch"
    then have "ch = of_nat (Suc j)" using slots_ok_id [OF assms, of j] that i by simp
    moreover have "j < 255" using that i assms by (simp add: slots_ok_def)
    ultimately show False using that unat_Suc [of j] by simp
  qed
  ultimately have "findChannelById cs ch = Some (unat ch - 1)"
    unfolding findChannelById_def using i by (intro find_index_SomeI) auto
  with Some show ?thesis by simp
qed

lemma ownChannel_abs:
  assumes "slots_ok cs"
  shows "ownChannel cs ch addr port =
    (if owns (abs_channels cs) ch (addr, port) then Some (unat ch - 1) else None)"
proof (cases "abs_channels cs ch")
  case (Some c)
  then show ?thesis
    using abs_channels_Some [OF Some]
    by (auto simp: ownChannel_def findChannelById_abs [OF assms] owns_def abs_slot_def)
qed (simp add: ownChannel_def findChannelById_abs [OF assms] owns_def)

lemma find_map_index:
  "(\<And>i. i < length cs \<Longrightarrow> P (f i) = Q (cs ! i)) \<Longrightarrow>
   find P (map f [0..<length cs]) = map_option f (find_index Q cs)"
proof (induction cs arbitrary: f)
  case (Cons c cs)
  have "find P (map (f \<circ> Suc) [0..<length cs]) = map_option (f \<circ> Suc) (find_index Q cs)"
    by (rule Cons.IH) (use Cons.prems [of "Suc i" for i] in simp)
  moreover have "P (f 0) = Q c" using Cons.prems [of 0] by simp
  moreover have "map f [0..<length (c # cs)] = f 0 # map (f \<circ> Suc) [0..<length cs]"
    by (simp add: upt_conv_Cons map_Suc_upt [symmetric] del: upt_Suc map_Suc_upt)
  ultimately show ?case by (simp add: option.map_comp comp_def)
qed simp

lemma identifiers_upt: "identifiers n = map (\<lambda>i. of_nat (Suc i)) [0..<n]"
  unfolding identifiers_def by (simp only: One_nat_def map_Suc_upt [symmetric] map_map comp_def)

lemma findChannelByEndpoint_abs:
  assumes "slots_ok cs"
  shows "channel_of (length cs) (abs_channels cs) (addr, port) =
    map_option (\<lambda>i. of_nat (Suc i)) (findChannelByEndpoint cs addr port)"
  unfolding channel_of_def identifiers_upt findChannelByEndpoint_def
  by (rule find_map_index) (auto simp: abs_channels_nth [OF assms] abs_slot_def simp del: of_nat_Suc)

lemma free_channel_abs:
  assumes "slots_ok cs"
  shows "free_channel (length cs) (abs_channels cs) =
    map_option (\<lambda>i. of_nat (Suc i)) (find_index (\<lambda>sl. \<not> slot_active sl) cs)"
  unfolding free_channel_def identifiers_upt
  by (rule find_map_index) (auto simp: abs_channels_nth [OF assms] abs_slot_def simp del: of_nat_Suc)

section \<open>Sockets that send what they are given\<close>

text \<open>\<open>W\<close> is what left the socket so far. The documented result of \<open>send\<close> is the number of octets
  sent; reading the clock neither sends nor closes.\<close>

definition socket_logs :: "('p, 'x) udp_env_scheme \<Rightarrow> ('p \<Rightarrow> (ip_address \<times> u16 \<times> bytes) list) \<Rightarrow> bool" where
  "socket_logs E W \<longleftrightarrow>
     (\<forall>a q bs p. W (fst (udp_send E a q bs p)) = W p @ [(a, q, bs)]
        \<and> snd (udp_send E a q bs p) = int (length bs)
        \<and> udp_isOpen E (fst (udp_send E a q bs p)) = udp_isOpen E p)
     \<and> (\<forall>p. W (fst (udp_nowMs E p)) = W p \<and> udp_isOpen E (fst (udp_nowMs E p)) = udp_isOpen E p)"

lemma socket_logs_send:
  assumes "socket_logs E W"
  shows "W (fst (udp_send E a q bs p)) = W p @ [(a, q, bs)]"
    "snd (udp_send E a q bs p) = int (length bs)"
    "udp_isOpen E (fst (udp_send E a q bs p)) = udp_isOpen E p"
    "W (fst (udp_nowMs E p)) = W p" "udp_isOpen E (fst (udp_nowMs E p)) = udp_isOpen E p"
  using assms unfolding socket_logs_def by blast+

text \<open>\<open>answered\<close>: the server sent one datagram to \<open>e\<close> and is otherwise as open as before.\<close>

definition answered ::
  "'p udp_env \<Rightarrow> ('p \<Rightarrow> (ip_address \<times> u16 \<times> bytes) list) \<Rightarrow> endpoint \<Rightarrow> bytes \<Rightarrow> 'p tserver \<Rightarrow> 'p tserver \<Rightarrow> bool" where
  "answered E W e bs s s' \<longleftrightarrow> W (ts_env s') = W (ts_env s) @ [(fst e, snd e, bs)]
     \<and> ts_isOpen E s' = ts_isOpen E s \<and> ts_callback s' = ts_callback s
     \<and> length (ts_channels s') = length (ts_channels s)"

lemma ts_transmit_answers:
  assumes "socket_logs E W" "ts_ok s" "6 + length (concat bss) \<le> kUdpBufferSize"
  shows "\<exists>s'. ts_transmit E (pw_packet service bss) a q s = (s', Inr ())
    \<and> answered E W (a, q) (packet service (concat bss)) s s' \<and> ts_channels s' = ts_channels s \<and> ts_ok s'"
proof -
  have "length (concat bss) \<le> 65529" "6 + length (concat bss) \<le> length (ts_txBuffer s)"
    using assms by (simp_all add: ts_ok_def kUdpBufferSize_def)
  then obtain w where w: "pw_packet service bss (pw_new (ts_txBuffer s)) = (w, Inr ())"
      "pw_span w = packet service (concat bss)" "length (pw_buffer w) = length (ts_txBuffer s)"
      "pw_size w = 6 + length (concat bss)"
    using pw_packet_ok [of bss "ts_txBuffer s" service] by blast
  then show ?thesis
    using assms(2) socket_logs_send [OF assms(1)]
    by (auto simp: ts_transmit_def case_prod_beta answered_def ts_isOpen_def ts_ok_def)
qed

lemma response_answers:
  assumes "socket_logs E W" "ts_ok s" "ts_isOpen E s"
  shows "\<exists>s'. sendChannelStatusResponse E s service a q ch st = (s', Inr ())
    \<and> answered E W (a, q) (packet service [ch, st]) s s' \<and> ts_channels s' = ts_channels s \<and> ts_ok s'"
  using ts_transmit_answers [OF assms(1,2), of "[[ch, st]]" service a q] assms(3)
  by (simp add: sendChannelStatusResponse_packet kUdpBufferSize_def)

section \<open>The handlers refine the channel service\<close>

lemma abs_slot_activity [simp]: "abs_slot (upd_info (\<lambda>c. c\<lparr>ci_lastActivityMs := t\<rparr>) sl) = abs_slot sl"
  by (simp add: abs_slot_def upd_info_def)

lemma abs_activity:
  assumes "slots_ok cs"
  shows "abs_channels (cs[i := upd_info (\<lambda>c. c\<lparr>ci_lastActivityMs := t\<rparr>) (cs ! i)]) = abs_channels cs"
proof (cases "i < length cs")
  case True
  then show ?thesis
    using abs_channels_update [of cs i] abs_channels_nth [OF assms True] assms
    by (simp add: slots_ok_def fun_upd_idem del: of_nat_Suc)
qed (simp add: list_update_beyond)

lemma mark_answers:
  assumes "socket_logs E W" "answered E W e bs (markChannelActivity E i s) s'"
  shows "answered E W e bs s s'"
  using assms(2) socket_logs_send [OF assms(1)] by (simp add: answered_def ts_isOpen_def)

lemma mark_open: "socket_logs E W \<Longrightarrow> ts_isOpen E (markChannelActivity E i s) = ts_isOpen E s"
  by (simp add: ts_isOpen_def socket_logs_send)

definition refines ::
  "'p udp_env \<Rightarrow> ('p \<Rightarrow> (ip_address \<times> u16 \<times> bytes) list) \<Rightarrow> endpoint \<Rightarrow> 'p tserver \<Rightarrow> 'p tserver
   \<Rightarrow> channel_table \<times> response \<times> (u8 \<times> bytes) list \<Rightarrow> (u8 \<times> bytes) list \<Rightarrow> bool" where
  "refines E W e s s' spec ev \<longleftrightarrow>
     ts_ok s' \<and> abs_channels (ts_channels s') = fst spec
     \<and> answered E W e (response_octets (fst (snd spec))) s s' \<and> ev = snd (snd spec)"

lemma state_refines:
  assumes "socket_logs E W" "ts_ok s" "ts_isOpen E s" "16 \<le> length frame"
  shows "\<exists>s'. handleConnectionStateRequest E s frame a q = (s', Inr ())
    \<and> refines E W (a, q) s s' (spec_step (length (ts_channels s)) (abs_channels (ts_channels s)) (a, q)
        (ConnectionState (frame ! 6))) []"
proof (cases "owns (abs_channels (ts_channels s)) (frame ! 6) (a, q)")
  case True
  let ?s = "markChannelActivity E (unat (frame ! 6) - 1) s"
  obtain s' where "sendChannelStatusResponse E ?s kServiceConnectionStateResponse a q (frame ! 6) 0 = (s', Inr ())"
      "answered E W (a, q) (packet kServiceConnectionStateResponse [frame ! 6, 0]) ?s s'"
      "ts_channels s' = ts_channels ?s" "ts_ok s'"
    using response_answers [OF assms(1) markChannelActivity_ok [OF assms(2)]] mark_open [OF assms(1)] assms(3)
    by blast
  moreover have "slots_ok (ts_channels s)" using assms(2) by (simp add: ts_ok_def)
  ultimately show ?thesis
    using True assms(4) mark_answers [OF assms(1)]
    by (simp add: handleConnectionStateRequest_def ownChannel_abs refines_def abs_activity)
next
  case False
  moreover have "slots_ok (ts_channels s)" using assms(2) by (simp add: ts_ok_def)
  ultimately show ?thesis
    using response_answers [OF assms(1-3), of kServiceConnectionStateResponse a q "frame ! 6" "0x21"] assms(4)
    by (auto simp: handleConnectionStateRequest_def ownChannel_abs refines_def)
qed

lemma disconnect_refines:
  assumes "socket_logs E W" "ts_ok s" "ts_isOpen E s" "16 \<le> length frame"
  shows "\<exists>s'. ts_handleDisconnectRequest E s frame a q = (s', Inr ())
    \<and> refines E W (a, q) s s' (spec_step (length (ts_channels s)) (abs_channels (ts_channels s)) (a, q)
        (Disconnect (frame ! 6))) []"
proof (cases "owns (abs_channels (ts_channels s)) (frame ! 6) (a, q)")
  case True
  let ?i = "unat (frame ! 6) - 1"
  let ?s = "upd_slot ?i (\<lambda>_. channel_slot_init) s"
  have ok: "slots_ok (ts_channels s)" using assms(2) by (simp add: ts_ok_def)
  obtain c where "abs_channels (ts_channels s) (frame ! 6) = Some c" using True by (auto simp: owns_def)
  from abs_channels_Some [OF this] ok
  have abs: "abs_channels (ts_channels ?s) = (abs_channels (ts_channels s))(frame ! 6 := None)"
    using abs_channels_update [of "ts_channels s" ?i channel_slot_init] by (simp add: slots_ok_def del: of_nat_Suc)
  have "ts_ok ?s" "ts_isOpen E ?s" using assms(2,3) by (simp_all add: ts_ok_def slots_ok_clear ts_isOpen_def)
  then obtain s' where "sendChannelStatusResponse E ?s kServiceDisconnectResponse a q (frame ! 6) 0 = (s', Inr ())"
      "answered E W (a, q) (packet kServiceDisconnectResponse [frame ! 6, 0]) ?s s'"
      "ts_channels s' = ts_channels ?s" "ts_ok s'"
    using response_answers [OF assms(1)] by blast
  then show ?thesis
    using True assms(4) abs ok
    by (simp add: ts_handleDisconnectRequest_def ownChannel_abs refines_def answered_def ts_isOpen_def)
next
  case False
  moreover have "slots_ok (ts_channels s)" using assms(2) by (simp add: ts_ok_def)
  ultimately show ?thesis
    using response_answers [OF assms(1-3), of kServiceDisconnectResponse a q "frame ! 6" "0x21"] assms(4)
    by (auto simp: ts_handleDisconnectRequest_def ownChannel_abs refines_def)
qed

text \<open>The part of \<open>handleConnectionRequest\<close> behind the choice of the slot.\<close>

lemma accept_answers:
  assumes "socket_logs E W" "ts_ok s" "ts_isOpen E s" "i < length (ts_channels s)" "slot_active (ts_channels s ! i)"
  shows "\<exists>s'. sendChannelStatusResponse E (markChannelActivity E i s) kServiceConnectionResponse a q
        (ci_channelId (slot_info (ts_channels (markChannelActivity E i s) ! i))) 0 = (s', Inr ())
    \<and> answered E W (a, q) (packet kServiceConnectionResponse [of_nat (Suc i), 0]) s s'
    \<and> abs_channels (ts_channels s') = abs_channels (ts_channels s) \<and> ts_ok s'"
proof -
  let ?s = "markChannelActivity E i s"
  have ok: "slots_ok (ts_channels s)" using assms(2) by (simp add: ts_ok_def)
  have id: "ci_channelId (slot_info (ts_channels ?s ! i)) = of_nat (Suc i)"
    using slots_ok_id [OF ok assms(4,5)] assms(4) by (simp add: upd_info_def)
  obtain s' where "sendChannelStatusResponse E ?s kServiceConnectionResponse a q (of_nat (Suc i)) 0 = (s', Inr ())"
      "answered E W (a, q) (packet kServiceConnectionResponse [of_nat (Suc i), 0]) ?s s'"
      "ts_channels s' = ts_channels ?s" "ts_ok s'"
    using response_answers [OF assms(1) markChannelActivity_ok [OF assms(2)]] mark_open [OF assms(1)] assms(3)
    by blast
  then show ?thesis
    unfolding id using mark_answers [OF assms(1)] abs_activity [OF ok] by auto
qed

lemma connect_refines:
  assumes "socket_logs E W" "ts_ok s" "ts_isOpen E s" "26 \<le> length frame"
  shows "\<exists>s'. handleConnectionRequest E s frame a q = (s', Inr ())
    \<and> refines E W (a, q) s s' (spec_step (length (ts_channels s)) (abs_channels (ts_channels s)) (a, q) Connect) []"
proof -
  have ok: "slots_ok (ts_channels s)" using assms(2) by (simp add: ts_ok_def)
  note fe = findChannelByEndpoint_abs [OF ok] and fc = free_channel_abs [OF ok]
  show ?thesis
  proof (cases "findChannelByEndpoint (ts_channels s) a q")
    case (Some i)
    then have i: "i < length (ts_channels s)" "slot_active (ts_channels s ! i)"
      using find_index_Some [of _ "ts_channels s" i] by (auto simp: findChannelByEndpoint_def)
    from accept_answers [OF assms(1-3) i, of a q] obtain s' where s':
      "sendChannelStatusResponse E (markChannelActivity E i s) kServiceConnectionResponse a q
        (ci_channelId (slot_info (ts_channels (markChannelActivity E i s) ! i))) 0 = (s', Inr ())"
      "answered E W (a, q) (packet kServiceConnectionResponse [of_nat (Suc i), 0]) s s'"
      "abs_channels (ts_channels s') = abs_channels (ts_channels s)" "ts_ok s'" by blast
    with Some assms(4) show ?thesis
      by (simp add: handleConnectionRequest_def Let_def fe refines_def
          del: of_nat_Suc markChannelActivity_simps)
  next
    case None
    show ?thesis
    proof (cases "find_index (\<lambda>sl. \<not> slot_active sl) (ts_channels s)")
      case None': None
      then show ?thesis
        using None assms(4) response_answers [OF assms(1-3), of kServiceConnectionResponse a q 0 "0x24"]
        by (auto simp: handleConnectionRequest_def allocateChannel_def fe fc refines_def)
    next
      case (Some i)
      then have i: "i < length (ts_channels s)" using find_index_Some by blast
      define s1 where "s1 = fst (allocateChannel E s a q)"
      have alloc: "allocateChannel E s a q = (s1, Some i)"
        using Some by (simp add: s1_def allocateChannel_def case_prod_beta)
      have s1_eq: "s1 = upd_slot i (\<lambda>sl. \<lparr>slot_active = True, slot_info = \<lparr>ci_channelId = of_nat (i + 1),
          ci_remoteAddress = a, ci_remotePort = q, ci_expectedRxSequence = 0, ci_nextTxSequence = 0,
          ci_lastActivityMs = snd (udp_nowMs E (ts_env s))\<rparr>\<rparr>) (s\<lparr>ts_env := fst (udp_nowMs E (ts_env s))\<rparr>)"
        using Some by (simp add: s1_def allocateChannel_def case_prod_beta)
      have ok1: "ts_ok s1"
        using assms(2) None by (simp add: s1_eq ts_ok_def slots_ok_allocate)
      have "ts_isOpen E s1" "i < length (ts_channels s1)" "slot_active (ts_channels s1 ! i)"
        using assms(3) i by (simp_all add: s1_eq ts_isOpen_def socket_logs_send(5) [OF assms(1)])
      from accept_answers [OF assms(1) ok1 this, of a q] obtain s' where s':
        "sendChannelStatusResponse E (markChannelActivity E i s1) kServiceConnectionResponse a q
          (ci_channelId (slot_info (ts_channels (markChannelActivity E i s1) ! i))) 0 = (s', Inr ())"
        "answered E W (a, q) (packet kServiceConnectionResponse [of_nat (Suc i), 0]) s1 s'"
        "abs_channels (ts_channels s') = abs_channels (ts_channels s1)" "ts_ok s'" by blast
      have "abs_channels (ts_channels s1) = (abs_channels (ts_channels s))(of_nat (Suc i) \<mapsto>
          \<lparr>ch_peer = (a, q), ch_rx = 0, ch_tx = 0\<rparr>)"
        using abs_channels_update [of "ts_channels s" i] i ok
        by (simp add: s1_eq slots_ok_def abs_slot_def del: of_nat_Suc)
      moreover have "answered E W (a, q) (packet kServiceConnectionResponse [of_nat (Suc i), 0]) s s'"
        using s'(2) socket_logs_send [OF assms(1)]
        by (simp add: answered_def ts_isOpen_def s1_eq)
      ultimately show ?thesis
        using None Some alloc s' assms(4)
        by (simp add: handleConnectionRequest_def Let_def fe fc refines_def
            del: of_nat_Suc markChannelActivity_simps)
    qed
  qed
qed

lemma abs_received:
  assumes "slots_ok cs" "abs_channels cs ch = Some c"
  shows "abs_channels (cs[unat ch - 1 := upd_info (\<lambda>c. c\<lparr>ci_expectedRxSequence := n\<rparr>) (cs ! (unat ch - 1))])
    = (abs_channels cs)(ch \<mapsto> c\<lparr>ch_rx := n\<rparr>)"
proof -
  note at = abs_channels_Some [OF assms(2)]
  then have "abs_slot (upd_info (\<lambda>c. c\<lparr>ci_expectedRxSequence := n\<rparr>) (cs ! (unat ch - 1))) = Some (c\<lparr>ch_rx := n\<rparr>)"
    by (auto simp: abs_slot_def upd_info_def)
  with at abs_channels_update [of cs "unat ch - 1"] assms(1) show ?thesis
    by (simp add: slots_ok_def del: of_nat_Suc)
qed

lemma tunnel_refines:
  assumes "socket_logs E W" "ts_ok s" "ts_callback s" "decodeTunnelingRequest frame = Inr r"
  shows "\<exists>s' ev. handleTunnelingRequest E s frame a q = (s', Inr (), ev)
    \<and> refines E W (a, q) s s' (spec_step (length (ts_channels s)) (abs_channels (ts_channels s)) (a, q)
        (Tunnel (tr_channelId r) (tr_sequence r) (tr_cemi r))) ev"
proof -
  let ?ch = "tr_channelId r" and ?sq = "tr_sequence r" and ?t = "abs_channels (ts_channels s)"
  have ok: "slots_ok (ts_channels s)" using assms(2) by (simp add: ts_ok_def)
  have ack: "\<exists>s1. ts_transmit E (encodeTunnelingAck ?ch ?sq st) a q s = (s1, Inr ())
      \<and> answered E W (a, q) (response_octets (TunnelAck ?ch ?sq st)) s s1
      \<and> ts_channels s1 = ts_channels s \<and> ts_ok s1" for st
    using ts_transmit_answers [OF assms(1,2), of "[[kTunnelingHeaderLength, ?ch, ?sq, st]]" kServiceTunnelingAck a q]
    by (simp add: encoders_as_packets kUdpBufferSize_def)
  show ?thesis
  proof (cases "owns ?t ?ch (a, q)")
    case False
    then show ?thesis using ack [of "0x21"] assms(4)
      by (auto simp: handleTunnelingRequest_def ownChannel_abs [OF ok] refines_def)
  next
    case True
    then obtain c where c: "?t ?ch = Some c" by (auto simp: owns_def)
    let ?i = "unat ?ch - 1"
    note at = abs_channels_Some [OF c]
    have rx: "ci_expectedRxSequence (slot_info (ts_channels s ! ?i)) = ch_rx c" using at by (auto simp: abs_slot_def)
    define st :: u8 where "st = (if ?sq \<noteq> ch_rx c then 0x04 else 0x00)"
    obtain s1 where s1: "ts_transmit E (encodeTunnelingAck ?ch ?sq st) a q s = (s1, Inr ())"
        "answered E W (a, q) (response_octets (TunnelAck ?ch ?sq st)) s s1"
        "ts_channels s1 = ts_channels s" "ts_ok s1" using ack by blast
    let ?s2 = "markChannelActivity E ?i s1"
    have s2: "ts_ok ?s2" "abs_channels (ts_channels ?s2) = ?t"
        "answered E W (a, q) (response_octets (TunnelAck ?ch ?sq st)) s ?s2" "ts_callback ?s2"
      using s1 markChannelActivity_ok abs_activity [OF ok] socket_logs_send [OF assms(1)] assms(3)
      by (auto simp: answered_def ts_isOpen_def)
    show ?thesis
    proof (cases "?sq = ch_rx c")
      case False
      then show ?thesis using s1 s2 True assms(4) rx c
        by (simp add: handleTunnelingRequest_def ownChannel_abs [OF ok] refines_def Let_def st_def
            del: markChannelActivity_simps)
    next
      case seq: True
      let ?s3 = "upd_slot ?i (upd_info (\<lambda>c. c\<lparr>ci_expectedRxSequence := ?sq + 1\<rparr>)) ?s2"
      have id: "ci_channelId (slot_info (ts_channels ?s3 ! ?i)) = ?ch"
        using at s1(3) slots_ok_id [OF ok, of ?i] by (simp add: upd_info_def)
      have "abs_channels (ts_channels ?s3) = (abs_channels (ts_channels ?s2))(?ch \<mapsto> c\<lparr>ch_rx := ?sq + 1\<rparr>)"
        unfolding upd_slot_simps by (rule abs_received) (use s2 c in \<open>simp_all add: ts_ok_def del: markChannelActivity_simps\<close>)
      moreover have "ts_ok ?s3" using s2(1) by (intro upd_info_ok) simp_all
      moreover have "answered E W (a, q) (response_octets (TunnelAck ?ch ?sq 0)) s ?s3"
        using s2(3) seq by (simp add: answered_def ts_isOpen_def st_def)
      ultimately show ?thesis
        using s1 s2 True assms(4) rx c seq id
        by (simp add: handleTunnelingRequest_def ownChannel_abs [OF ok] refines_def Let_def st_def
            del: markChannelActivity_simps upd_slot_simps(7))
    qed
  qed
qed

section \<open>The properties of the server\<close>

lemma dispatch_refines:
  assumes "socket_logs E W" "ts_ok s" "ts_isOpen E s" "ts_callback s" "parse_request frame = Some req"
  shows "\<exists>s' ev. ts_dispatch E s frame a q = (s', Inr True, ev)
    \<and> refines E W (a, q) s s' (spec_step (length (ts_channels s)) (abs_channels (ts_channels s)) (a, q) req) ev"
proof -
  obtain h where h: "decodeHeader frame = Inr h" using assms(5) by (auto simp: parse_request_def split: sum.splits)
  note c = connect_refines [OF assms(1-3), of frame a q]
    and st = state_refines [OF assms(1-3), of frame a q]
    and d = disconnect_refines [OF assms(1-3), of frame a q]
    and t = tunnel_refines [OF assms(1,2,4), of frame]
  consider "serviceType h = kServiceConnectionRequest" "26 \<le> length frame" "req = Connect"
    | "serviceType h = kServiceConnectionStateRequest" "16 \<le> length frame" "req = ConnectionState (frame ! 6)"
    | "serviceType h = kServiceDisconnectRequest" "16 \<le> length frame" "req = Disconnect (frame ! 6)"
    | r where "serviceType h = kServiceTunnelingRequest" "decodeTunnelingRequest frame = Inr r"
        "req = Tunnel (tr_channelId r) (tr_sequence r) (tr_cemi r)"
    using assms(5) h by (auto simp: parse_request_def split: if_splits sum.splits)
  then show ?thesis
  proof cases
    case 1
    with c h show ?thesis by (auto simp: ts_dispatch_def)
  next
    case 2
    with st h show ?thesis by (auto simp: ts_dispatch_def service_defs)
  next
    case 3
    with d h show ?thesis by (auto simp: ts_dispatch_def service_defs)
  next
    case (4 r)
    from t [OF 4(2), of a q] 4 h show ?thesis by (auto simp: ts_dispatch_def service_defs)
  qed
qed

lemma dispatch_ignores:
  assumes "parse_request frame = None"
  shows "\<exists>r. ts_dispatch E s frame a q = (s, r, [])"
  using assms
  by (auto simp: parse_request_def ts_dispatch_def handleConnectionRequest_def service_defs
      handleConnectionStateRequest_def ts_handleDisconnectRequest_def handleTunnelingRequest_def
      split: sum.splits if_splits)

text \<open>
  C8. The tunnelling server refines the abstract channel service: a datagram that carries a
  request makes the octet-level server answer with exactly the octets of the abstract answer, sent
  to the requester and nobody else, moves its channel table as the abstract table moves, and hands
  exactly the abstract deliveries to the user. A datagram that carries none changes nothing.
\<close>

theorem tunneling_server_refines:
  assumes "socket_logs E W" "ts_reachable E s" "ts_isOpen E s" "ts_callback s"
  shows "case (ts_dispatch E s frame a q, parse_request frame) of
      ((s', r, ev), Some req) \<Rightarrow>
        (case spec_step (length (ts_channels s)) (abs_channels (ts_channels s)) (a, q) req of
           (t, resp, ev') \<Rightarrow>
             abs_channels (ts_channels s') = t \<and> ev = ev' \<and> r = Inr True
             \<and> W (ts_env s') = W (ts_env s) @ [(a, q, response_octets resp)])
    | ((s', r, ev), None) \<Rightarrow> s' = s \<and> ev = []"
proof (cases "parse_request frame")
  case None
  with dispatch_ignores [OF None, of E s a q] show ?thesis by auto
next
  case (Some req)
  from dispatch_refines [OF assms(1) reachable_ok [OF assms(2)] assms(3,4) Some, of a q] Some
  show ?thesis by (auto simp: refines_def answered_def split: prod.split)
qed

section \<open>Order of delivery\<close>

lemma spec_step_other:
  assumes "owns t ch e" "\<And>sq cemi. req = Tunnel ch sq cemi \<Longrightarrow> e' \<noteq> e" "req = Disconnect ch \<Longrightarrow> e' \<noteq> e"
  shows "fst (spec_step n t e' req) ch = t ch
    \<and> filter (\<lambda>d. fst d = ch) (snd (snd (spec_step n t e' req))) = []"
proof (cases req)
  case Connect
  have "free_channel n t \<noteq> Some ch" using assms(1) by (auto simp: free_channel_def owns_def find_Some_iff)
  then show ?thesis using Connect by (auto split: option.split)
next
  case (Tunnel ch' sq cemi)
  then show ?thesis using assms(1,2) by (auto simp: owns_def)
qed (use assms in \<open>auto simp: owns_def\<close>)

fun is_disconnect :: "u8 \<Rightarrow> request option \<Rightarrow> bool" where
  "is_disconnect ch (Some (Disconnect ch')) = (ch' = ch)"
| "is_disconnect ch _ = False"

text \<open>A datagram is its octets, the sender's address and port.\<close>

type_synonym datagram = "bytes \<times> ip_address \<times> u16"

fun tun_number :: "u8 \<Rightarrow> endpoint \<Rightarrow> datagram \<Rightarrow> u8 option" where
  "tun_number ch e (frame, from) =
     (case parse_request frame of
        Some (Tunnel ch' sq _) \<Rightarrow> if ch' = ch \<and> from = e then Some sq else None
      | _ \<Rightarrow> None)"

fun tun_cemi :: "datagram \<Rightarrow> bytes" where
  "tun_cemi (frame, from) = (case parse_request frame of Some (Tunnel _ _ cemi) \<Rightarrow> cemi | _ \<Rightarrow> [])"

fun tun_admissible :: "u8 \<Rightarrow> endpoint \<Rightarrow> datagram \<Rightarrow> bool" where
  "tun_admissible ch e (frame, from) \<longleftrightarrow> \<not> (is_disconnect ch (parse_request frame) \<and> from = e)"

fun tun_recv :: "'p udp_env \<Rightarrow> u8 \<Rightarrow> 'p tserver \<Rightarrow> datagram \<Rightarrow> 'p tserver \<times> bytes list" where
  "tun_recv E ch s (frame, a, q) =
     (case ts_dispatch E s frame a q of (s', r, ev) \<Rightarrow> (s', map snd (filter (\<lambda>d. fst d = ch) ev)))"

definition tun_expected :: "u8 \<Rightarrow> 'p tserver \<Rightarrow> u8" where
  "tun_expected ch s = ch_rx (the (abs_channels (ts_channels s) ch))"

definition tun_invar ::
  "'p udp_env \<Rightarrow> ('p \<Rightarrow> (ip_address \<times> u16 \<times> bytes) list) \<Rightarrow> u8 \<Rightarrow> endpoint \<Rightarrow> 'p tserver \<Rightarrow> bool" where
  "tun_invar E W ch e s \<longleftrightarrow> socket_logs E W \<and> ts_ok s \<and> ts_isOpen E s \<and> ts_callback s
     \<and> owns (abs_channels (ts_channels s)) ch e"

lemma tun_recv_step:
  assumes "tun_invar E W ch e s" "tun_admissible ch e m"
  shows "tun_invar E W ch e (fst (tun_recv E ch s m))
    \<and> (if tun_number ch e m = Some (tun_expected ch s)
       then snd (tun_recv E ch s m) = [tun_cemi m] \<and> tun_expected ch (fst (tun_recv E ch s m)) = tun_expected ch s + 1
       else snd (tun_recv E ch s m) = [] \<and> tun_expected ch (fst (tun_recv E ch s m)) = tun_expected ch s)"
proof -
  obtain frame a q where m: "m = (frame, a, q)" by (cases m)
  note inv = assms(1) [unfolded tun_invar_def]
  show ?thesis
  proof (cases "parse_request frame")
    case None
    with dispatch_ignores [OF None, of E s a q] assms(1) show ?thesis by (auto simp: m)
  next
    case (Some req)
    let ?t = "abs_channels (ts_channels s)"
    let ?spec = "spec_step (length (ts_channels s)) ?t (a, q) req"
    from dispatch_refines [of E W s frame req a q] inv Some obtain s' ev where
      d: "ts_dispatch E s frame a q = (s', Inr True, ev)" and r: "refines E W (a, q) s s' ?spec ev" by auto
    then have ok: "ts_ok s'" "abs_channels (ts_channels s') = fst ?spec" "ts_isOpen E s'" "ts_callback s'"
        "ev = snd (snd ?spec)"
      using inv by (auto simp: refines_def answered_def)
    show ?thesis
    proof (cases "\<exists>sq cemi. req = Tunnel ch sq cemi \<and> (a, q) = e")
      case True
      then obtain sq cemi where "req = Tunnel ch sq cemi" "(a, q) = e" by blast
      with d ok inv Some show ?thesis
        by (auto simp: m tun_invar_def tun_expected_def owns_def)
    next
      case False
      have "fst ?spec ch = ?t ch \<and> filter (\<lambda>d. fst d = ch) (snd (snd ?spec)) = []"
        by (rule spec_step_other) (use inv False assms(2) Some m in auto)
      moreover have "tun_number ch e m = None" using False Some by (auto simp: m split: request.split)
      ultimately show ?thesis
        using d ok inv by (simp add: m tun_invar_def tun_expected_def owns_def)
    qed
  qed
qed

interpretation tun: sequenced_receiver
  "tun_recv E ch" "tun_expected ch" "tun_number ch e" tun_cemi "\<lambda>n. n + 1" "tun_invar E W ch e" "tun_admissible ch e"
  for E :: "'p udp_env" and W ch e
proof unfold_locales
  fix s :: "'p tserver" and m
  assume "tun_invar E W ch e s" "tun_admissible ch e m"
  note step = tun_recv_step [OF this]
  show "tun_invar E W ch e (fst (tun_recv E ch s m))" using step by blast
  show "snd (tun_recv E ch s m) = [tun_cemi m] \<and> tun_expected ch (fst (tun_recv E ch s m)) = tun_expected ch s + 1"
    if "tun_number ch e m = Some (tun_expected ch s)" using step that by simp
  show "snd (tun_recv E ch s m) = [] \<and> tun_expected ch (fst (tun_recv E ch s m)) = tun_expected ch s"
    if "tun_number ch e m \<noteq> Some (tun_expected ch s)" using step that by simp
qed

text \<open>A run of the server over datagrams, with what the user gets; and what a channel that expects
  \<open>n\<close> should deliver of numbered frames.\<close>

fun ts_run :: "'p udp_env \<Rightarrow> 'p tserver \<Rightarrow> datagram list \<Rightarrow> 'p tserver \<times> (u8 \<times> bytes) list" where
  "ts_run E s [] = (s, [])"
| "ts_run E s ((frame, a, q) # ds) =
     (case ts_dispatch E s frame a q of (s1, r, ev) \<Rightarrow>
        case ts_run E s1 ds of (s2, evs) \<Rightarrow> (s2, ev @ evs))"

fun next_in_order :: "u8 \<Rightarrow> (u8 \<times> bytes) list \<Rightarrow> bytes list" where
  "next_in_order n [] = []"
| "next_in_order n ((sq, cemi) # rs) =
     (if sq = n then cemi # next_in_order (n + 1) rs else next_in_order n rs)"

definition requests_of :: "u8 \<Rightarrow> endpoint \<Rightarrow> datagram list \<Rightarrow> (u8 \<times> bytes) list" where
  "requests_of ch e ds =
     List.map_filter (\<lambda>d. map_option (\<lambda>sq. (sq, tun_cemi d)) (tun_number ch e d)) ds"

lemma ts_run_recv_all:
  "fst (ts_run E s ds) = fst (tun.recv_all E ch s ds)
   \<and> map snd (filter (\<lambda>d. fst d = ch) (snd (ts_run E s ds))) = snd (tun.recv_all E ch s ds)"
proof (induction ds arbitrary: s)
  case (Cons d ds)
  obtain frame a q where "d = (frame, a, q)" by (cases d)
  with Cons.IH show ?case by (simp add: case_prod_beta)
qed simp

lemma in_sequence_requests: "tun.in_sequence ch e n ds = next_in_order n (requests_of ch e ds)"
proof (induction ds arbitrary: n)
  case (Cons d ds)
  then show ?case by (cases "tun_number ch e d") (simp_all add: requests_of_def map_filter_simps)
qed (simp add: requests_of_def map_filter_simps)

text \<open>
  In-order, exactly-once delivery through a tunnel: over any sequence of datagrams from any
  senders, in which the channel's owner does not disconnect, the user receives on the channel
  exactly the cEMI frames of the owner's requests that carry the next expected number, in the order
  they arrived; every other request, and every foreign one, delivers nothing on the channel.
\<close>

theorem tunnel_delivers_in_order:
  assumes "socket_logs E W" "ts_reachable E s" "ts_isOpen E s" "ts_callback s"
    and "abs_channels (ts_channels s) ch = Some c" "ch_peer c = e"
    and "list_all (\<lambda>d. \<not> (is_disconnect ch (parse_request (fst d)) \<and> snd d = e)) ds"
  shows "map snd (filter (\<lambda>d. fst d = ch) (snd (ts_run E s ds)))
    = next_in_order (ch_rx c) (requests_of ch e ds)"
proof -
  have "tun_invar E W ch e s"
    using assms reachable_ok [OF assms(2)] by (simp add: tun_invar_def owns_def)
  moreover have "list_all (tun_admissible ch e) ds"
    using assms(7) by (auto simp: list_all_iff)
  ultimately have "snd (tun.recv_all E ch s ds) = tun.in_sequence ch e (tun_expected ch s) ds"
    by (rule tun.recv_all_in_sequence)
  with ts_run_recv_all [of E s ds ch] assms(5) show ?thesis
    by (simp add: in_sequence_requests tun_expected_def)
qed

section \<open>Witnesses\<close>

lemma sim_env_logs: "socket_logs sim_env fst"
  by (simp add: socket_logs_def sim_env_def split: prod.split)

definition request_octets :: "u8 \<Rightarrow> bytes \<Rightarrow> bytes" where
  "request_octets sq cemi = packet kServiceTunnelingRequest ([4, 1, sq, 0] @ cemi)"

definition connected_server :: "sim_socket tserver" where
  "connected_server =
     fst (the (ts_poll sim_env 0
       (open_server\<lparr>ts_env := ([], [(connect_octets, (192, 168, 1, 10), 50000)], True)\<rparr>) 0))"

lemma open_server_eq:
  "open_server = (tserver_new ([], [], True))\<lparr>ts_socket := True, ts_callback := True,
     ts_options := \<lparr>so_port = 3671, so_maxChannels = 2, so_channelIdleTimeoutMs = 60000\<rparr>,
     ts_channels := [channel_slot_init, channel_slot_init]\<rparr>"
proof -
  have "replicate 2 channel_slot_init = [channel_slot_init, channel_slot_init]" by (simp add: numeral_2_eq_2)
  then show ?thesis
    by (simp add: open_server_def ts_setReceiveCallback_def ts_open_def ts_close_def tserver_new_def Let_def)
qed

lemma connected_server_run:
  "\<exists>r. ts_poll sim_env 0 (open_server\<lparr>ts_env := ([], [(connect_octets, (192, 168, 1, 10), 50000)], True)\<rparr>) 0
     = Some (connected_server, r)
   \<and> ts_isOpen sim_env connected_server \<and> ts_callback connected_server
   \<and> abs_channels (ts_channels connected_server) = [1 \<mapsto> \<lparr>ch_peer = ((192, 168, 1, 10), 50000), ch_rx = 0, ch_tx = 0\<rparr>]"
proof -
  let ?s = "open_server\<lparr>ts_env := ([], [(connect_octets, (192, 168, 1, 10), 50000)], True)\<rparr>"
  let ?s1 = "(pruneIdleChannels sim_env ?s)\<lparr>ts_env := ([], [], True),
      ts_rxBuffer := connect_octets @ drop (length connect_octets) (ts_rxBuffer ?s)\<rparr>"
  have ne: "connect_octets \<noteq> []" by (simp add: connect_octets_def packet_def)
  have up: "ts_isOpen sim_env ?s" by (simp add: ts_isOpen_def open_server_eq)
  have poll: "ts_poll sim_env 0 ?s 0 = Some (ts_dispatch sim_env ?s1 connect_octets (192, 168, 1, 10) 50000)"
    using sim_poll [OF up _ ne] by simp
  have chans: "ts_channels ?s1 = [channel_slot_init, channel_slot_init]"
    by (simp add: pruneIdleChannels_def open_server_eq Let_def case_prod_beta idle_expired_def channel_slot_init_def)
  have empty: "abs_channels [channel_slot_init, channel_slot_init] = Map.empty"
    by (auto simp: abs_channels_def nth_Cons' fun_eq_iff)
  have "ts_ok ?s1" using pruneIdleChannels_ok [of ?s sim_env] reachable_ok [OF open_server_reachable] by simp
  moreover have "ts_isOpen sim_env ?s1" "ts_callback ?s1"
    by (simp_all add: ts_isOpen_def open_server_eq)
  moreover have "parse_request connect_octets = Some Connect" by code_simp
  ultimately obtain s' ev where d: "ts_dispatch sim_env ?s1 connect_octets (192, 168, 1, 10) 50000 = (s', Inr True, ev)"
    and r: "refines sim_env fst ((192, 168, 1, 10), 50000) ?s1 s'
      (spec_step (length (ts_channels ?s1)) (abs_channels (ts_channels ?s1)) ((192, 168, 1, 10), 50000) Connect) ev"
    using dispatch_refines [OF sim_env_logs] by metis
  have "spec_step (length (ts_channels ?s1)) (abs_channels (ts_channels ?s1)) ((192, 168, 1, 10), 50000) Connect =
      ([1 \<mapsto> \<lparr>ch_peer = ((192, 168, 1, 10), 50000), ch_rx = 0, ch_tx = 0\<rparr>], ConnectResponse 1 0, [])"
    unfolding chans empty by (simp add: channel_of_def free_channel_def identifiers_def upt_rec)
  moreover have "connected_server = s'" using poll d by (simp add: connected_server_def)
  ultimately show ?thesis
    using poll d r \<open>ts_isOpen sim_env ?s1\<close> \<open>ts_callback ?s1\<close>
    by (simp add: refines_def answered_def del: spec_step.simps)
qed

lemma connected_server_reachable: "ts_reachable sim_env connected_server"
  using connected_server_run ts_reachable.poll [OF ts_reachable.elapse [OF open_server_reachable]] by metis

lemma connected_server_facts:
  "ts_isOpen sim_env connected_server" "ts_callback connected_server"
  "abs_channels (ts_channels connected_server) 1 =
     Some \<lparr>ch_peer = ((192, 168, 1, 10), 50000), ch_rx = 0, ch_tx = 0\<rparr>"
  using connected_server_run by auto

theorem tunneling_server_refines_witness:
  "snd (snd (ts_dispatch sim_env connected_server (request_octets 0 [1, 2]) (192, 168, 1, 10) 50000)) = [(1, [1, 2])]"
proof -
  have "parse_request (request_octets 0 [1, 2]) = Some (Tunnel 1 0 [1, 2])" by code_simp
  then show ?thesis
    using tunneling_server_refines [OF sim_env_logs connected_server_reachable connected_server_facts(1,2),
        of "(192, 168, 1, 10)" 50000 "request_octets 0 [1, 2]"] connected_server_facts(3)
    by (simp add: owns_def case_prod_beta)
qed

theorem tunnel_delivers_in_order_witness:
  "map snd (filter (\<lambda>d. fst d = 1) (snd (ts_run sim_env connected_server
     [(request_octets 0 [1], (192, 168, 1, 10), 50000), (request_octets 0 [2], (192, 168, 1, 10), 50000),
      (request_octets 1 [3], (10, 0, 0, 1), 50000), (request_octets 1 [4], (192, 168, 1, 10), 50000)])))
   = [[1], [4]]"
proof -
  let ?ds = "[(request_octets 0 [1], (192, 168, 1, 10), 50000), (request_octets 0 [2], (192, 168, 1, 10), 50000),
      (request_octets 1 [3], (10, 0, 0, 1), 50000), (request_octets 1 [4], (192, 168, 1, 10), 50000)] :: datagram list"
  have "list_all (\<lambda>d. \<not> (is_disconnect 1 (parse_request (fst d)) \<and> snd d = ((192, 168, 1, 10), 50000))) ?ds"
    by code_simp
  moreover have "next_in_order 0 (requests_of 1 ((192, 168, 1, 10), 50000) ?ds) = [[1], [4]]" by code_simp
  ultimately show ?thesis
    using tunnel_delivers_in_order [OF sim_env_logs connected_server_reachable connected_server_facts,
        of "((192, 168, 1, 10), 50000)" ?ds] by simp
qed

theorem tunneling_channels_distinct_witness:
  "abs_channels (ts_channels connected_server) 1 \<noteq> None
   \<and> distinct (map ci_channelId (activeChannels connected_server))
   \<and> 0 \<notin> ci_channelId ` set (activeChannels connected_server)"
  using tunneling_channels_distinct [OF connected_server_reachable] connected_server_facts(3) by simp

end
