(* ===== verification/Tunneling_Client.thy ===== *)
theory Tunneling_Client
  imports Tunneling_Spec
begin

text \<open>
  The tunnelling client: \<open>netip/tunneling_orchestration.hpp\<close>, \<open>src/netip/udp_datagram_channel.cpp\<close>
  and the plain (unsecured) paths of \<open>src/netip/tunneling_session_client.cpp\<close>. The background
  keep-alive thread is left out; the request it sends is modelled. Together with the server of
  Tunneling_Server the theory shows what a request achieves when every datagram arrives, and what
  happens when one is lost.
\<close>

section \<open>Orchestration (netip/tunneling\_orchestration.hpp)\<close>

text \<open>\<open>TunnelingAckTracker\<close> is the queue of the acknowledged numbers, at most 16 of them.\<close>

definition ack_record :: "u8 list \<Rightarrow> u8 \<Rightarrow> u8 list" where
  "ack_record acks sq = (let q = acks @ [sq] in drop (length q - 16) q)"

fun ack_consume :: "u8 list \<Rightarrow> u8 \<Rightarrow> u8 list \<times> bool" where
  "ack_consume [] sq = ([], False)"
| "ack_consume (x # xs) sq =
     (if x = sq then (xs, True) else (case ack_consume xs sq of (ys, b) \<Rightarrow> (x # ys, b)))"

definition isActivityServiceType :: "u16 \<Rightarrow> bool" where
  "isActivityServiceType service \<longleftrightarrow>
     service = kServiceTunnelingAck \<or> service = kServiceTunnelingRequest
     \<or> service = kServiceConnectionStateResponse \<or> service = kServiceDisconnectResponse
     \<or> service = kServiceConnectionResponse"

text \<open>\<open>exchangeChannelStatus\<close> on what the request and the wait for its answer gave.\<close>

definition exchangeChannelStatus :: "u16 \<Rightarrow> bytes result \<Rightarrow> channel_status result" where
  "exchangeChannelStatus expected response =
     (case response of Inl e \<Rightarrow> Inl e | Inr data \<Rightarrow> decodeChannelStatusResponse data expected)"

definition establishChannel :: "bytes result \<Rightarrow> u8 result" where
  "establishChannel response =
     (case exchangeChannelStatus kServiceConnectionResponse response of
        Inl e \<Rightarrow> Inl e
      | Inr cs \<Rightarrow> if cs_status cs \<noteq> 0 \<or> cs_channelId cs = 0 then Inl OperationFailed
                  else Inr (cs_channelId cs))"

definition verifyChannelStatus :: "u16 \<Rightarrow> u8 \<Rightarrow> bytes result \<Rightarrow> unit result" where
  "verifyChannelStatus expected ch response =
     (case exchangeChannelStatus expected response of
        Inl e \<Rightarrow> Inl e
      | Inr cs \<Rightarrow> if cs_status cs \<noteq> 0 \<or> cs_channelId cs \<noteq> ch then Inl OperationFailed else Inr ())"

text \<open>\<open>handleInboundFrame\<close>: the acknowledged numbers, the number to acknowledge and the cEMI frame to
  hand on. The caller's \<open>sendAck\<close> comes between the two; it is part of \<open>receiveOnce\<close> below.\<close>

definition inbound_acks :: "bytes \<Rightarrow> u16 \<Rightarrow> u8 \<Rightarrow> u8 list \<Rightarrow> u8 list" where
  "inbound_acks frame service ch acks =
     (if service = kServiceTunnelingAck
      then (case decodeTunnelingAck frame of
              Inr a \<Rightarrow> if ta_channelId a = ch \<and> ta_status a = 0 then ack_record acks (ta_sequence a) else acks
            | Inl _ \<Rightarrow> acks)
      else acks)"

definition inbound_request :: "bytes \<Rightarrow> u16 \<Rightarrow> u8 \<Rightarrow> tunneling_request option" where
  "inbound_request frame service ch =
     (if service = kServiceTunnelingRequest
      then (case decodeTunnelingRequest frame of
              Inl _ \<Rightarrow> None
            | Inr r \<Rightarrow> if tr_channelId r \<noteq> ch then None else Some r)
      else None)"

section \<open>State (netip/tunneling\_session\_client.hpp)\<close>

record 'p client_env = "'p udp_env" +
  udp_localPort :: "'p \<Rightarrow> u16"
  net_ipAddress :: "'p \<Rightarrow> ip_address"

record open_operation =
  oo_active :: bool
  oo_startTimeMs :: u32
  oo_timeoutMs :: int

definition open_operation_reset :: open_operation where
  "open_operation_reset = \<lparr>oo_active = False, oo_startTimeMs = 0, oo_timeoutMs = 0\<rparr>"

record 'p tclient =
  tc_env :: 'p
  tc_sock :: bool
  tc_channelId :: u8
  tc_seq :: u8
  tc_callback :: bool
  tc_remote :: endpoint
  tc_localAddr :: ip_address
  tc_lastActivityTimeMs :: u32
  tc_acks :: "u8 list"
  tc_openOperation :: open_operation
  tc_frameBuffer :: bytes
  tc_scratchBuffer :: bytes

definition tclient_new :: "'p \<Rightarrow> 'p tclient" where
  "tclient_new p = \<lparr>tc_env = p, tc_sock = False, tc_channelId = 0, tc_seq = 0, tc_callback = False,
     tc_remote = (ip_zero, 0), tc_localAddr = ip_zero, tc_lastActivityTimeMs = 0, tc_acks = [],
     tc_openOperation = open_operation_reset, tc_frameBuffer = replicate kUdpBufferSize 0,
     tc_scratchBuffer = replicate kUdpBufferSize 0\<rparr>"

section \<open>One request and its answer (src/netip/udp\_datagram\_channel.cpp)\<close>

definition udp_waitReadable ::
  "('p, 'x) udp_env_scheme \<Rightarrow> nat \<Rightarrow> int \<Rightarrow> 'p \<Rightarrow> ('p \<times> bool result) option" where
  "udp_waitReadable E fuel timeoutMs p =
     (if \<not> udp_isOpen E p then Some (p, Inl NotInitialized)
      else map_option (\<lambda>(p1, b). (p1, Inr b)) (waitUntilReadable (udp_env.truncate E) fuel timeoutMs p))"

text \<open>The answer is the octets received; the response buffer is returned as well.\<close>

definition udp_exchange ::
  "('p, 'x) udp_env_scheme \<Rightarrow> nat \<Rightarrow> endpoint \<Rightarrow> bytes \<Rightarrow> bytes \<Rightarrow> int \<Rightarrow> 'p
   \<Rightarrow> ('p \<times> bytes \<times> bytes result) option" where
  "udp_exchange E fuel remote req buf timeoutMs p =
     (if \<not> udp_isOpen E p then Some (p, buf, Inl NotInitialized)
      else if ip_isZero (fst remote) \<or> snd remote = 0 then Some (p, buf, Inl InvalidAddress)
      else case udp_send E (fst remote) (snd remote) req p of (p1, sent) \<Rightarrow>
        if sent \<noteq> int (length req) then Some (p1, buf, Inl ETransmissionFailed)
        else case udp_waitReadable E fuel timeoutMs p1 of
               None \<Rightarrow> None
             | Some (p2, Inl e) \<Rightarrow> Some (p2, buf, Inl e)
             | Some (p2, Inr False) \<Rightarrow> Some (p2, buf, Inl ETimeout)
             | Some (p2, Inr True) \<Rightarrow>
                 (case udp_receive E buf p2 of (p3, received, buf1, a, q) \<Rightarrow>
                    Some (p3, buf1,
                          if received < 0 then Inl ETransmissionFailed
                          else if a \<noteq> fst remote \<or> q \<noteq> snd remote then Inl OperationFailed
                          else Inr (take (nat received) buf1))))"

section \<open>The session (src/netip/tunneling\_session\_client.cpp)\<close>

definition tc_isOpen :: "('p, 'x) udp_env_scheme \<Rightarrow> 'p tclient \<Rightarrow> bool" where
  "tc_isOpen E s \<longleftrightarrow> tc_sock s \<and> udp_isOpen E (tc_env s) \<and> tc_channelId s \<noteq> 0"

definition tc_markActivity :: "('p, 'x) udp_env_scheme \<Rightarrow> 'p tclient \<Rightarrow> 'p tclient" where
  "tc_markActivity E s =
     (case udp_nowMs E (tc_env s) of (p, t) \<Rightarrow> s\<lparr>tc_env := p, tc_lastActivityTimeMs := t\<rparr>)"

text \<open>Encoding into the frame buffer and sending; what \<open>sendConnectionRequest\<close> and
  \<open>sendTunnelingRequest\<close> share.\<close>

definition tc_transmit ::
  "('p, 'x) udp_env_scheme \<Rightarrow> pw_op \<Rightarrow> 'p tclient \<Rightarrow> 'p tclient \<times> unit result" where
  "tc_transmit E encode s =
     (case encode (pw_new (tc_frameBuffer s)) of
        (w, Inl e) \<Rightarrow> (s\<lparr>tc_frameBuffer := pw_buffer w\<rparr>, Inl e)
      | (w, Inr _) \<Rightarrow>
          (case udp_send E (fst (tc_remote s)) (snd (tc_remote s)) (pw_span w) (tc_env s) of (p, sent) \<Rightarrow>
             (s\<lparr>tc_frameBuffer := pw_buffer w, tc_env := p\<rparr>,
              if sent \<noteq> int (pw_size w) then Inl ETransmissionFailed else Inr ())))"

definition tc_controlEndpoint :: "'p client_env \<Rightarrow> 'p tclient \<Rightarrow> hpai_endpoint" where
  "tc_controlEndpoint E s =
     makeUdpControlEndpoint (tc_localAddr s) (fst (tc_remote s)) (udp_localPort E (tc_env s))"

definition sendConnectionRequest :: "'p client_env \<Rightarrow> 'p tclient \<Rightarrow> 'p tclient \<times> unit result" where
  "sendConnectionRequest E s =
     (if \<not> (tc_sock s \<and> udp_isOpen E (tc_env s)) then (s, Inl NotInitialized)
      else let e = tc_controlEndpoint E s in tc_transmit E (encodeConnectionRequest e e kTunnelLayerTp1) s)"

text \<open>A control request with its answer; both \<open>sendDisconnect\<close> and \<open>sendConnectionStateRequest\<close>
  encode into the frame buffer and read the answer into the scratch buffer.\<close>

definition tc_control ::
  "'p client_env \<Rightarrow> nat \<Rightarrow> pw_op \<Rightarrow> u16 \<Rightarrow> int \<Rightarrow> 'p tclient \<Rightarrow> ('p tclient \<times> unit result) option" where
  "tc_control E fuel encode expected timeoutMs s =
     (case encode (pw_new (tc_frameBuffer s)) of
        (w, Inl e) \<Rightarrow> Some (s\<lparr>tc_frameBuffer := pw_buffer w\<rparr>, Inl e)
      | (w, Inr _) \<Rightarrow>
          (case udp_exchange E fuel (tc_remote s) (pw_span w) (tc_scratchBuffer s) timeoutMs (tc_env s) of
             None \<Rightarrow> None
           | Some (p, buf, response) \<Rightarrow>
               let s1 = s\<lparr>tc_frameBuffer := pw_buffer w, tc_scratchBuffer := buf, tc_env := p\<rparr> in
               (case verifyChannelStatus expected (tc_channelId s) response of
                  Inl e \<Rightarrow> Some (s1, Inl e)
                | Inr _ \<Rightarrow> Some (tc_markActivity E s1, Inr ()))))"

definition sendConnectionStateRequest ::
  "'p client_env \<Rightarrow> nat \<Rightarrow> int \<Rightarrow> 'p tclient \<Rightarrow> ('p tclient \<times> unit result) option" where
  "sendConnectionStateRequest E fuel timeoutMs s =
     (if \<not> tc_isOpen E s then Some (s, Inl NotInitialized)
      else tc_control E fuel (encodeConnectionStateRequest (tc_channelId s) (tc_controlEndpoint E s))
             kServiceConnectionStateResponse timeoutMs s)"

text \<open>\<open>sendDisconnect\<close> succeeds whatever the server answers.\<close>

definition tc_sendDisconnect ::
  "'p client_env \<Rightarrow> nat \<Rightarrow> 'p tclient \<Rightarrow> ('p tclient \<times> unit result) option" where
  "tc_sendDisconnect E fuel s =
     (if \<not> tc_isOpen E s then Some (s, Inl NotInitialized)
      else case encodeDisconnectRequest (tc_channelId s) (tc_controlEndpoint E s) (pw_new (tc_frameBuffer s)) of
             (w, Inl e) \<Rightarrow> Some (s\<lparr>tc_frameBuffer := pw_buffer w\<rparr>, Inl e)
           | (w, Inr _) \<Rightarrow>
               if ip_isZero (fst (tc_remote s)) \<or> snd (tc_remote s) = 0
               then Some (s\<lparr>tc_frameBuffer := pw_buffer w\<rparr>, Inl InvalidAddress)
               else map_option (\<lambda>(s1, _). (s1, Inr ()))
                      (tc_control E fuel (encodeDisconnectRequest (tc_channelId s) (tc_controlEndpoint E s))
                         kServiceDisconnectResponse 200 s))"

definition tc_close :: "'p client_env \<Rightarrow> nat \<Rightarrow> 'p tclient \<Rightarrow> 'p tclient option" where
  "tc_close E fuel s =
     map_option
       (\<lambda>s1. s1\<lparr>tc_channelId := 0, tc_seq := 0, tc_lastActivityTimeMs := 0,
                tc_openOperation := open_operation_reset, tc_remote := (ip_zero, 0), tc_localAddr := ip_zero\<rparr>)
       (if tc_sock s
        then map_option (\<lambda>(s1, _). s1\<lparr>tc_env := udp_close E (tc_env s1), tc_sock := False\<rparr>)
               (tc_sendDisconnect E fuel s)
        else Some s)"

definition tc_beginOpen ::
  "'p client_env \<Rightarrow> nat \<Rightarrow> ip_address \<Rightarrow> u16 \<Rightarrow> int \<Rightarrow> 'p tclient \<Rightarrow> ('p tclient \<times> unit result) option" where
  "tc_beginOpen E fuel host port timeoutMs s =
     (case tc_close E fuel s of
        None \<Rightarrow> None
      | Some s0 \<Rightarrow>
          if ip_isZero host \<or> port = 0 then Some (s0, Inl InvalidParameter)
          else case udp_create E (tc_env s0) of
                 (p1, False) \<Rightarrow> Some (s0\<lparr>tc_env := p1\<rparr>, Inl ResourceUnavailable)
               | (p1, True) \<Rightarrow>
                   (case udp_open E 0 p1 of
                      (p2, Inl e) \<Rightarrow> Some (s0\<lparr>tc_env := p2\<rparr>, Inl e)
                    | (p2, Inr _) \<Rightarrow>
                        let s1 = s0\<lparr>tc_env := p2, tc_sock := True, tc_remote := (host, port),
                                    tc_localAddr := net_ipAddress E p2\<rparr> in
                        (case sendConnectionRequest E s1 of
                           (s2, Inl e) \<Rightarrow> map_option (\<lambda>s3. (s3, Inl e)) (tc_close E fuel s2)
                         | (s2, Inr _) \<Rightarrow>
                             (case udp_nowMs E (tc_env s2) of (p3, t) \<Rightarrow>
                                Some (s2\<lparr>tc_env := p3, tc_openOperation :=
                                        \<lparr>oo_active = True, oo_startTimeMs = t, oo_timeoutMs = timeoutMs\<rparr>\<rparr>, Inr ())))))"

definition receiveConnectionResponseOnce ::
  "'p client_env \<Rightarrow> 'p tclient \<Rightarrow> 'p tclient \<times> bool result" where
  "receiveConnectionResponseOnce E s =
     (if \<not> (tc_sock s \<and> udp_isOpen E (tc_env s)) then (s, Inl NotInitialized)
      else if udp_available E (tc_env s) = 0 then (s, Inr False)
      else case udp_receive E (tc_scratchBuffer s) (tc_env s) of (p, received, buf, a, q) \<Rightarrow>
        let s1 = s\<lparr>tc_env := p, tc_scratchBuffer := buf\<rparr>; frame = take (nat received) buf in
        if received \<le> 0 then (s1, Inr False)
        else if received < 6 then (s1, Inl InvalidFrameSize)
        else case decodeHeader frame of
               Inl e \<Rightarrow> (s1, Inl e)
             | Inr h \<Rightarrow>
                 if serviceType h \<noteq> kServiceConnectionResponse then (s1, Inr False)
                 else case establishChannel (Inr frame) of
                        Inl e \<Rightarrow> (s1, Inl e)
                      | Inr ch \<Rightarrow> (tc_markActivity E (s1\<lparr>tc_channelId := ch, tc_seq := 0\<rparr>), Inr True))"

definition tc_pollOpen ::
  "'p client_env \<Rightarrow> nat \<Rightarrow> 'p tclient \<Rightarrow> ('p tclient \<times> progress result) option" where
  "tc_pollOpen E fuel s =
     (if \<not> oo_active (tc_openOperation s)
      then Some (s, if tc_isOpen E s then Inr Success else Inl OperationNotReady)
      else if tc_isOpen E s then Some (s\<lparr>tc_openOperation := open_operation_reset\<rparr>, Inr Success)
      else case receiveConnectionResponseOnce E s of
             (s1, Inl e) \<Rightarrow> map_option (\<lambda>s2. (s2, Inl e)) (tc_close E fuel s1)
           | (s1, Inr True) \<Rightarrow> Some (s1\<lparr>tc_openOperation := open_operation_reset\<rparr>, Inr Success)
           | (s1, Inr False) \<Rightarrow>
               (case udp_nowMs E (tc_env s1) of (p, now) \<Rightarrow>
                  let s2 = s1\<lparr>tc_env := p\<rparr>; op = tc_openOperation s2 in
                  if remainingTimeoutMs now (oo_startTimeMs op) (oo_timeoutMs op) \<le> 0
                  then map_option (\<lambda>s3. (s3, Inr Timeout)) (tc_close E fuel s2)
                  else Some (s2, Inr Pending)))"

definition tc_sendTunnelingRequest ::
  "('p, 'x) udp_env_scheme \<Rightarrow> bytes \<Rightarrow> 'p tclient \<Rightarrow> 'p tclient \<times> unit result" where
  "tc_sendTunnelingRequest E cemi s =
     (if \<not> tc_isOpen E s then (s, Inl NotInitialized)
      else case tc_transmit E (encodeTunnelingRequest (tc_channelId s) (tc_seq s) cemi) s of
             (s1, Inl e) \<Rightarrow> (s1, Inl e)
           | (s1, Inr _) \<Rightarrow> (s1\<lparr>tc_seq := tc_seq s1 + 1\<rparr>, Inr ()))"

text \<open>The part of \<open>receiveOnce\<close> behind the reception of a datagram; the last component is what the
  receive callback is called with.\<close>

definition tc_handleDatagram ::
  "('p, 'x) udp_env_scheme \<Rightarrow> bytes \<Rightarrow> ip_address \<Rightarrow> u16 \<Rightarrow> 'p tclient
   \<Rightarrow> 'p tclient \<times> bool result \<times> bytes list" where
  "tc_handleDatagram E data a q s =
     (if length data < 6 then (s, Inl InvalidFrameSize, [])
      else case decodeHeader data of
             Inl _ \<Rightarrow> (s, Inr False, [])
           | Inr h \<Rightarrow>
               let frame = take (unat (totalLength h)) data;
                   s1 = (if isActivityServiceType (serviceType h) then tc_markActivity E s else s);
                   s2 = s1\<lparr>tc_acks := inbound_acks frame (serviceType h) (tc_channelId s1) (tc_acks s1)\<rparr>
               in case inbound_request frame (serviceType h) (tc_channelId s1) of
                    None \<Rightarrow> (s2, Inr True, [])
                  | Some r \<Rightarrow>
                      (case encodeTunnelingAck (tc_channelId s2) (tr_sequence r) 0x00
                              (pw_new (tc_scratchBuffer s2)) of
                         (w, Inl e) \<Rightarrow> (s2\<lparr>tc_scratchBuffer := pw_buffer w\<rparr>, Inl e, [])
                       | (w, Inr _) \<Rightarrow>
                           (s2\<lparr>tc_scratchBuffer := pw_buffer w,
                               tc_env := fst (udp_send E a q (pw_span w) (tc_env s2))\<rparr>, Inr True,
                            if tc_callback s2 then [tr_cemi r] else [])))"

fun tc_receive_loop ::
  "('p, 'x) udp_env_scheme \<Rightarrow> nat \<Rightarrow> u32 \<Rightarrow> int \<Rightarrow> 'p tclient
   \<Rightarrow> ('p tclient \<times> bool result \<times> bytes list) option" where
  "tc_receive_loop E fuel startMs timeoutMs s =
     (case udp_nowMs E (tc_env s) of (p0, now) \<Rightarrow>
        let remaining = remainingTimeoutMs now startMs timeoutMs in
        case waitUntilReadable (udp_env.truncate E) fuel remaining p0 of
          None \<Rightarrow> None
        | Some (p1, False) \<Rightarrow> Some (s\<lparr>tc_env := p1\<rparr>, Inr False, [])
        | Some (p1, True) \<Rightarrow>
            let s1 = s\<lparr>tc_env := p1\<rparr> in
            if \<not> (tc_sock s1 \<and> udp_isOpen E p1) then Some (s1, Inl NotInitialized, [])
            else if udp_available E p1 = 0
            then (if timeoutMs = 0 \<or> remaining = 0 then Some (s1, Inr False, [])
                  else case fuel of 0 \<Rightarrow> None | Suc n \<Rightarrow> tc_receive_loop E n startMs timeoutMs s1)
            else case udp_receive E (tc_frameBuffer s1) p1 of (p2, received, buf, a, q) \<Rightarrow>
              let s2 = s1\<lparr>tc_env := p2, tc_frameBuffer := buf\<rparr> in
              if received \<le> 0
              then (if remaining = 0 then Some (s2, Inr False, [])
                    else case fuel of 0 \<Rightarrow> None | Suc n \<Rightarrow> tc_receive_loop E n startMs timeoutMs s2)
              else Some (tc_handleDatagram E (take (nat received) buf) a q s2))"

declare tc_receive_loop.simps [simp del]

definition tc_receiveOnce ::
  "('p, 'x) udp_env_scheme \<Rightarrow> nat \<Rightarrow> int \<Rightarrow> 'p tclient \<Rightarrow> ('p tclient \<times> bool result \<times> bytes list) option" where
  "tc_receiveOnce E fuel timeoutMs s =
     (if \<not> (tc_sock s \<and> udp_isOpen E (tc_env s)) then Some (s, Inl NotInitialized, [])
      else case udp_nowMs E (tc_env s) of (p, t) \<Rightarrow> tc_receive_loop E fuel t timeoutMs (s\<lparr>tc_env := p\<rparr>))"

definition tc_consume :: "u8 \<Rightarrow> 'p tclient \<Rightarrow> 'p tclient \<times> bool" where
  "tc_consume sq s = (case ack_consume (tc_acks s) sq of (acks, b) \<Rightarrow> (s\<lparr>tc_acks := acks\<rparr>, b))"

text \<open>\<open>waitForAck\<close> with its loop; the cEMI frames received while waiting are collected.\<close>

fun wait_ack_loop ::
  "('p, 'x) udp_env_scheme \<Rightarrow> nat \<Rightarrow> u8 \<Rightarrow> u32 \<Rightarrow> int \<Rightarrow> 'p tclient
   \<Rightarrow> ('p tclient \<times> unit result \<times> bytes list) option" where
  "wait_ack_loop E fuel sq startMs timeoutMs s =
     (case udp_nowMs E (tc_env s) of (p, now) \<Rightarrow>
        let s1 = s\<lparr>tc_env := p\<rparr>; elapsed = now - startMs in
        if elapsed \<ge> of_int timeoutMs then Some (s1, Inl ETimeout, [])
        else case tc_receiveOnce E fuel (sint (of_int timeoutMs - elapsed)) s1 of
               None \<Rightarrow> None
             | Some (s2, _, ev) \<Rightarrow>
                 (case tc_consume sq s2 of
                    (s3, True) \<Rightarrow> Some (s3, Inr (), ev)
                  | (s3, False) \<Rightarrow>
                      (case fuel of
                         0 \<Rightarrow> None
                       | Suc n \<Rightarrow> map_option (\<lambda>(s4, r, evs). (s4, r, ev @ evs))
                                    (wait_ack_loop E n sq startMs timeoutMs s3))))"

declare wait_ack_loop.simps [simp del]

definition waitForAck ::
  "('p, 'x) udp_env_scheme \<Rightarrow> nat \<Rightarrow> u8 \<Rightarrow> int \<Rightarrow> 'p tclient
   \<Rightarrow> ('p tclient \<times> unit result \<times> bytes list) option" where
  "waitForAck E fuel sq timeoutMs s =
     (case tc_consume sq s of
        (s1, True) \<Rightarrow> Some (s1, Inr (), [])
      | (s1, False) \<Rightarrow>
          (case udp_nowMs E (tc_env s1) of (p, t) \<Rightarrow>
             wait_ack_loop E fuel sq t timeoutMs (s1\<lparr>tc_env := p\<rparr>)))"

definition tc_sendCemi ::
  "('p, 'x) udp_env_scheme \<Rightarrow> nat \<Rightarrow> bytes \<Rightarrow> bool \<Rightarrow> int \<Rightarrow> 'p tclient
   \<Rightarrow> ('p tclient \<times> unit result \<times> bytes list) option" where
  "tc_sendCemi E fuel cemi waitAck timeoutMs s =
     (if \<not> tc_isOpen E s then Some (s, Inl NotInitialized, [])
      else case tc_sendTunnelingRequest E cemi s of
             (s1, Inl e) \<Rightarrow> Some (s1, Inl e, [])
           | (s1, Inr _) \<Rightarrow>
               if \<not> waitAck then Some (s1, Inr (), [])
               else waitForAck E fuel (tc_seq s1 - 1) timeoutMs s1)"

section \<open>The acknowledgement tracker\<close>

lemma ack_record_length: "length (ack_record acks sq) \<le> 16"
  by (simp add: ack_record_def Let_def)

lemma ack_record_mem: "sq \<in> set (ack_record acks sq)"
proof -
  have "length acks + 1 - 16 \<le> length acks" by simp
  then show ?thesis by (simp add: ack_record_def Let_def)
qed

lemma ack_consume_iff: "snd (ack_consume acks sq) \<longleftrightarrow> sq \<in> set acks"
  by (induction acks) (auto simp: case_prod_beta)

lemma ack_consume_remove: "fst (ack_consume acks sq) = remove1 sq acks"
  by (induction acks) (auto simp: case_prod_beta)

lemma tc_consume_simps [simp]:
  "snd (tc_consume sq s) \<longleftrightarrow> sq \<in> set (tc_acks s)"
  "fst (tc_consume sq s) = s\<lparr>tc_acks := remove1 sq (tc_acks s)\<rparr>"
  by (simp_all add: tc_consume_def case_prod_beta ack_consume_iff ack_consume_remove)

section \<open>A client and a server\<close>

text \<open>What a request that is accepted for sending puts on the network.\<close>

lemma sendTunnelingRequest_sends:
  assumes "socket_logs E W" "tc_isOpen E c" "length (tc_frameBuffer c) = kUdpBufferSize" "length cemi \<le> 1490"
  shows "\<exists>c1. tc_sendTunnelingRequest E cemi c = (c1, Inr ())
    \<and> W (tc_env c1) = W (tc_env c) @ [(fst (tc_remote c), snd (tc_remote c),
          packet kServiceTunnelingRequest ([kTunnelingHeaderLength, tc_channelId c, tc_seq c, 0] @ cemi))]
    \<and> tc_isOpen E c1 \<and> tc_channelId c1 = tc_channelId c \<and> tc_seq c1 = tc_seq c + 1
    \<and> tc_acks c1 = tc_acks c \<and> length (tc_frameBuffer c1) = kUdpBufferSize
    \<and> tc_remote c1 = tc_remote c"
proof -
  let ?bss = "[[kTunnelingHeaderLength, tc_channelId c, tc_seq c, 0], cemi]"
  have "6 + length (concat ?bss) \<le> length (tc_frameBuffer c)" "length (concat ?bss) \<le> 65529"
    using assms(3,4) by (simp_all add: kUdpBufferSize_def)
  then obtain w where "pw_packet kServiceTunnelingRequest ?bss (pw_new (tc_frameBuffer c)) = (w, Inr ())"
      "pw_span w = packet kServiceTunnelingRequest (concat ?bss)"
      "length (pw_buffer w) = length (tc_frameBuffer c)" "pw_size w = 6 + length (concat ?bss)"
    using pw_packet_ok by blast
  then show ?thesis
    using assms(2,3) socket_logs_send [OF assms(1)]
    by (simp add: tc_sendTunnelingRequest_def tc_transmit_def encoders_as_packets case_prod_beta tc_isOpen_def)
qed

lemma handleDatagram_ack:
  assumes "socket_logs E W"
    and "c1 = fst (tc_handleDatagram E
      (packet kServiceTunnelingAck [kTunnelingHeaderLength, tc_channelId c, sq, st]) a q c)"
  shows "tc_acks c1 = (if st = 0 then ack_record (tc_acks c) sq else tc_acks c)
    \<and> tc_seq c1 = tc_seq c \<and> tc_channelId c1 = tc_channelId c \<and> tc_isOpen E c1 = tc_isOpen E c
    \<and> tc_frameBuffer c1 = tc_frameBuffer c \<and> W (tc_env c1) = W (tc_env c) \<and> tc_remote c1 = tc_remote c"
proof -
  let ?d = "packet kServiceTunnelingAck [kTunnelingHeaderLength, tc_channelId c, sq, st]"
  have h: "decodeHeader ?d = Inr \<lparr>serviceType = kServiceTunnelingAck, totalLength = of_nat (6 + 4)\<rparr>"
    using decodeHeader_packet [of "[kTunnelingHeaderLength, tc_channelId c, sq, st]" kServiceTunnelingAck "[]"] by simp
  have "take 10 ?d = ?d" "\<not> length ?d < 6" "kServiceTunnelingAck \<noteq> kServiceTunnelingRequest"
    by (simp_all add: service_defs)
  then show ?thesis
    unfolding assms(2) using socket_logs_send [OF assms(1)]
    by (simp add: tc_handleDatagram_def h isActivityServiceType_def inbound_acks_def inbound_request_def
        decodeTunnelingAck_packet tc_markActivity_def case_prod_beta tc_isOpen_def Let_def)
qed

text \<open>The client sends one cEMI frame, the datagram reaches the server, the server's answer reaches
  the client. The result: what the server's user got, and whether the client now has the
  acknowledgement it waits for.\<close>

definition tunnel_send ::
  "'c udp_env \<Rightarrow> ('c \<Rightarrow> (ip_address \<times> u16 \<times> bytes) list) \<Rightarrow> 's udp_env \<Rightarrow> ('s \<Rightarrow> (ip_address \<times> u16 \<times> bytes) list)
   \<Rightarrow> endpoint \<Rightarrow> bytes \<Rightarrow> 'c tclient \<times> 's tserver
   \<Rightarrow> ('c tclient \<times> 's tserver) \<times> (u8 \<times> bytes) list \<times> bool" where
  "tunnel_send E1 W1 E2 W2 e cemi cs =
     (let c1 = fst (tc_sendTunnelingRequest E1 cemi (fst cs));
          request = snd (snd (last (W1 (tc_env c1))));
          (s1, _, delivered) = ts_dispatch E2 (snd cs) request (fst e) (snd e);
          answer = snd (snd (last (W2 (ts_env s1))));
          c2 = fst (tc_handleDatagram E1 answer (fst (tc_remote c1)) (snd (tc_remote c1)) c1);
          (c3, acked) = tc_consume (tc_seq c1 - 1) c2
      in ((c3, s1), delivered, acked))"

fun tunnel_sends ::
  "'c udp_env \<Rightarrow> ('c \<Rightarrow> (ip_address \<times> u16 \<times> bytes) list) \<Rightarrow> 's udp_env \<Rightarrow> ('s \<Rightarrow> (ip_address \<times> u16 \<times> bytes) list)
   \<Rightarrow> endpoint \<Rightarrow> bytes list \<Rightarrow> 'c tclient \<times> 's tserver \<Rightarrow> ((u8 \<times> bytes) list \<times> bool) list" where
  "tunnel_sends E1 W1 E2 W2 e [] cs = []"
| "tunnel_sends E1 W1 E2 W2 e (cemi # cemis) cs =
     (case tunnel_send E1 W1 E2 W2 e cemi cs of (cs1, out) \<Rightarrow> out # tunnel_sends E1 W1 E2 W2 e cemis cs1)"

text \<open>A session: both ends are open, the server has the client's channel, and no acknowledgement is
  left over. \<open>lag\<close> is how far the client's number is ahead of the one the server expects.\<close>

definition session ::
  "'c udp_env \<Rightarrow> ('c \<Rightarrow> (ip_address \<times> u16 \<times> bytes) list) \<Rightarrow> 's udp_env \<Rightarrow> ('s \<Rightarrow> (ip_address \<times> u16 \<times> bytes) list)
   \<Rightarrow> endpoint \<Rightarrow> u8 \<Rightarrow> 'c tclient \<times> 's tserver \<Rightarrow> bool" where
  "session E1 W1 E2 W2 e lag cs \<longleftrightarrow>
     socket_logs E1 W1 \<and> socket_logs E2 W2 \<and> tc_isOpen E1 (fst cs)
     \<and> length (tc_frameBuffer (fst cs)) = kUdpBufferSize \<and> tc_acks (fst cs) = []
     \<and> ts_ok (snd cs) \<and> ts_isOpen E2 (snd cs) \<and> ts_callback (snd cs)
     \<and> (\<exists>chn. abs_channels (ts_channels (snd cs)) (tc_channelId (fst cs)) = Some chn
          \<and> ch_peer chn = e \<and> tc_seq (fst cs) = ch_rx chn + lag)"

lemma tunnel_send_step:
  assumes "session E1 W1 E2 W2 e lag cs" "length cemi \<le> 1490"
  shows "\<exists>cs1. tunnel_send E1 W1 E2 W2 e cemi cs =
      (cs1, if lag = 0 then ([(tc_channelId (fst cs), cemi)], True) else ([], False))
    \<and> session E1 W1 E2 W2 e (if lag = 0 then 0 else lag + 1) cs1
    \<and> tc_channelId (fst cs1) = tc_channelId (fst cs)"
proof -
  obtain c s where cs: "cs = (c, s)" by (cases cs)
  note S = assms(1) [unfolded session_def cs fst_conv snd_conv]
  then obtain chn where chn: "abs_channels (ts_channels s) (tc_channelId c) = Some chn" "ch_peer chn = e"
      "tc_seq c = ch_rx chn + lag" by blast
  let ?ch = "tc_channelId c" and ?st = "if lag = 0 then 0 else 4 :: u8"
  let ?req = "packet kServiceTunnelingRequest ([kTunnelingHeaderLength, ?ch, tc_seq c, 0] @ cemi)"
  let ?ack = "packet kServiceTunnelingAck [kTunnelingHeaderLength, ?ch, tc_seq c, ?st]"
  have L: "socket_logs E1 W1" "tc_isOpen E1 c" "length (tc_frameBuffer c) = kUdpBufferSize" using S by auto
  from sendTunnelingRequest_sends [OF L assms(2)]
  obtain c1 where c1: "fst (tc_sendTunnelingRequest E1 cemi c) = c1"
      "W1 (tc_env c1) = W1 (tc_env c) @ [(fst (tc_remote c), snd (tc_remote c), ?req)]"
      "tc_isOpen E1 c1" "tc_channelId c1 = ?ch" "tc_seq c1 = tc_seq c + 1" "tc_acks c1 = []"
      "length (tc_frameBuffer c1) = kUdpBufferSize"
    using S by auto
  have p: "parse_request ?req = Some (Tunnel ?ch (tc_seq c) cemi)"
    using decodeHeader_packet [of "[kTunnelingHeaderLength, ?ch, tc_seq c, 0] @ cemi" kServiceTunnelingRequest "[]"]
      decodeTunnelingRequest_packet [of cemi ?ch "tc_seq c"] assms(2)
    by (simp add: parse_request_def service_defs)
  from dispatch_refines [of E2 W2 s ?req _ "fst e" "snd e", OF _ _ _ _ p] S obtain s1 ev where
    d: "ts_dispatch E2 s ?req (fst e) (snd e) = (s1, Inr True, ev)"
    and r: "refines E2 W2 (fst e, snd e) s s1
      (spec_step (length (ts_channels s)) (abs_channels (ts_channels s)) (fst e, snd e) (Tunnel ?ch (tc_seq c) cemi)) ev"
    by auto
  have s1: "ts_ok s1" "ts_isOpen E2 s1" "ts_callback s1"
      "W2 (ts_env s1) = W2 (ts_env s) @ [(fst e, snd e, ?ack)]"
      "ev = (if lag = 0 then [(?ch, cemi)] else [])"
      "abs_channels (ts_channels s1) ?ch = Some (if lag = 0 then chn\<lparr>ch_rx := tc_seq c + 1\<rparr> else chn)"
    using r chn S by (auto simp: refines_def answered_def owns_def)
  note h = handleDatagram_ack [OF L(1) refl, of c1 "tc_seq c" ?st "fst (tc_remote c1)" "snd (tc_remote c1)"]
  let ?c2 = "fst (tc_handleDatagram E1 ?ack (fst (tc_remote c1)) (snd (tc_remote c1)) c1)"
  have c2: "tc_acks ?c2 = (if lag = 0 then [tc_seq c] else [])" "tc_seq ?c2 = tc_seq c + 1"
      "tc_channelId ?c2 = ?ch" "tc_isOpen E1 ?c2" "length (tc_frameBuffer ?c2) = kUdpBufferSize"
    using h c1 by (simp_all add: ack_record_def)
  let ?c3 = "?c2\<lparr>tc_acks := []\<rparr>"
  have step: "tunnel_send E1 W1 E2 W2 e cemi cs =
      ((?c3, s1), if lag = 0 then ([(?ch, cemi)], True) else ([], False))"
    using c1 d s1 c2 by (simp add: tunnel_send_def cs Let_def case_prod_beta)
  moreover have "session E1 W1 E2 W2 e (if lag = 0 then 0 else lag + 1) (?c3, s1)"
    using S s1 c2 chn by (auto simp: session_def tc_isOpen_def)
  ultimately show ?thesis using c2(3) cs by (intro exI [of _ "(?c3, s1)"]) simp
qed

text \<open>
  C17. End to end over a tunnel on which no datagram is lost: a client whose sequence number is the
  one the server expects sends any list of cEMI frames that fit a datagram; the server hands each to
  its user once and in order, and the client finds the acknowledgement of each.
\<close>

theorem tunnel_transfers_all:
  assumes "session E1 W1 E2 W2 e 0 cs" "\<forall>cemi \<in> set cemis. length cemi \<le> 1490"
  shows "tunnel_sends E1 W1 E2 W2 e cemis cs = map (\<lambda>cemi. ([(tc_channelId (fst cs), cemi)], True)) cemis"
  using assms
proof (induction cemis arbitrary: cs)
  case (Cons cemi cemis)
  then obtain cs1 where "tunnel_send E1 W1 E2 W2 e cemi cs = (cs1, [(tc_channelId (fst cs), cemi)], True)"
      "session E1 W1 E2 W2 e 0 cs1" "tc_channelId (fst cs1) = tc_channelId (fst cs)"
    using tunnel_send_step [OF Cons.prems(1), of cemi] by auto
  with Cons.IH [of cs1] Cons.prems(2) show ?case by simp
qed simp

text \<open>
  A request that does not reach the server blocks the tunnel: the client has advanced its
  number, the server has not, and of the next 255 frames the client sends the server accepts none
  and the client sees no acknowledgement. Nothing in the session brings the two numbers together.
\<close>

theorem lost_request_blocks_tunnel:
  assumes "session E1 W1 E2 W2 e 0 (c, s)" "length lost \<le> 1490"
    and "length cemis \<le> 255" "\<forall>cemi \<in> set cemis. length cemi \<le> 1490"
  shows "tunnel_sends E1 W1 E2 W2 e cemis (fst (tc_sendTunnelingRequest E1 lost c), s)
    = replicate (length cemis) ([], False)"
proof -
  have lag: "tunnel_sends E1 W1 E2 W2 e cemis cs = replicate (length cemis) ([], False)"
    if "session E1 W1 E2 W2 e lag cs" "lag \<noteq> 0" "unat lag + length cemis \<le> 256"
      "\<forall>cemi \<in> set cemis. length cemi \<le> 1490" for lag cs
    using that
  proof (induction cemis arbitrary: cs lag)
    case (Cons cemi cemis)
    then obtain cs1 where 1: "tunnel_send E1 W1 E2 W2 e cemi cs = (cs1, [], False)"
        "session E1 W1 E2 W2 e (lag + 1) cs1"
      using tunnel_send_step [OF Cons.prems(1), of cemi] by auto
    show ?case
    proof (cases cemis)
      case more: (Cons x xs)
      have "unat lag + 1 < 256" using Cons.prems(3) more by simp
      then have n: "unat (lag + 1) = unat lag + 1" by (simp add: unat_word_ariths)
      then have "lag + 1 \<noteq> 0" by (metis add_is_0 one_neq_zero unat_0)
      moreover have "unat (lag + 1) + length cemis \<le> 256" using n Cons.prems(3) by simp
      ultimately have "tunnel_sends E1 W1 E2 W2 e cemis cs1 = replicate (length cemis) ([], False)"
        using Cons.IH [OF 1(2)] Cons.prems(4) by simp
      with 1 show ?thesis by simp
    qed (use 1 in simp)
  qed simp
  note S = assms(1) [unfolded session_def fst_conv snd_conv]
  then have L: "socket_logs E1 W1" "tc_isOpen E1 c" "length (tc_frameBuffer c) = kUdpBufferSize" by auto
  obtain c1 where "tc_sendTunnelingRequest E1 lost c = (c1, Inr ())" "tc_isOpen E1 c1"
      "tc_channelId c1 = tc_channelId c" "tc_seq c1 = tc_seq c + 1" "tc_acks c1 = tc_acks c"
      "length (tc_frameBuffer c1) = kUdpBufferSize"
    using sendTunnelingRequest_sends [OF L assms(2)] by blast
  with S have "session E1 W1 E2 W2 e 1 (fst (tc_sendTunnelingRequest E1 lost c), s)"
    by (simp add: session_def)
  moreover have "(1 :: u8) \<noteq> 0" "unat (1 :: u8) + length cemis \<le> 256" using assms(3) by simp_all
  ultimately show ?thesis using assms(4) by (rule lag)
qed

definition sample_client :: "sim_socket tclient" where
  "sample_client = (tclient_new ([], [], True))\<lparr>tc_sock := True, tc_channelId := 1,
     tc_remote := ((192, 168, 1, 1), 3671)\<rparr>"

lemma sample_session:
  "session sim_env fst sim_env fst ((192, 168, 1, 10), 50000) 0 (sample_client, connected_server)"
  using connected_server_facts reachable_ok [OF connected_server_reachable] sim_env_logs
  by (simp add: session_def sample_client_def tclient_new_def tc_isOpen_def)

theorem tunnel_transfers_all_witness:
  "tunnel_sends sim_env fst sim_env fst ((192, 168, 1, 10), 50000) [[1, 2], [3]] (sample_client, connected_server)
   = [([(1, [1, 2])], True), ([(1, [3])], True)]"
  using tunnel_transfers_all [OF sample_session, of "[[1, 2], [3]]"]
  by (simp add: sample_client_def tclient_new_def del: tunnel_sends.simps)

theorem lost_request_blocks_tunnel_witness:
  "tunnel_sends sim_env fst sim_env fst ((192, 168, 1, 10), 50000) [[1, 2], [3]]
     (fst (tc_sendTunnelingRequest sim_env [9] sample_client), connected_server)
   = [([], False), ([], False)]"
  using lost_request_blocks_tunnel [OF sample_session, of "[9]" "[[1, 2], [3]]"]
  by (simp del: tunnel_sends.simps)

section \<open>Acknowledgements that outlive their session\<close>

lemma udp_control_keeps_acks:
  "tc_control E fuel encode expected t s = Some (s1, r) \<Longrightarrow> tc_acks s1 = tc_acks s"
  by (auto simp: tc_control_def tc_markActivity_def Let_def split: prod.splits sum.splits option.splits)

lemma tc_close_keeps_acks: "tc_close E fuel s = Some s1 \<Longrightarrow> tc_acks s1 = tc_acks s"
  using udp_control_keeps_acks [of E fuel _ _ _ s]
  by (auto simp: tc_close_def tc_sendDisconnect_def split: if_splits prod.splits sum.splits)

lemma beginOpen_keeps_acks:
  assumes "tc_beginOpen E fuel host port t s = Some (s1, Inr ())" shows "tc_acks s1 = tc_acks s"
proof -
  obtain s0 where s0: "tc_close E fuel s = Some s0" using assms by (auto simp: tc_beginOpen_def split: option.splits)
  then have "tc_acks s1 = tc_acks s0"
    using assms
    by (auto simp: tc_beginOpen_def sendConnectionRequest_def tc_transmit_def Let_def
        split: if_splits prod.splits bool.splits sum.splits)
  with tc_close_keeps_acks [OF s0] show ?thesis by simp
qed

text \<open>
  An acknowledgement that was never waited for survives a reconnect and is taken for that of
  the new session's first request: with a left-over acknowledgement of number 0, \<open>sendCemi\<close> reports
  success for the first request of the new session without receiving anything.
\<close>

theorem stale_ack_accepted:
  assumes "0 \<in> set (tc_acks c)"
    and "tc_beginOpen E fuel host port t c = Some (c1, Inr ())"
    and "receiveConnectionResponseOnce E c1 = (c2, Inr True)"
    and "tc_sendTunnelingRequest E cemi c2 = (c3, Inr ())"
  shows "\<exists>c4. tc_sendCemi E fuel' cemi True timeoutMs c2 = Some (c4, Inr (), []) \<and> tc_env c4 = tc_env c3"
proof -
  have "tc_acks c2 = tc_acks c1 \<and> tc_seq c2 = 0"
    using assms(3)
    by (auto simp: receiveConnectionResponseOnce_def tc_markActivity_def Let_def
        split: if_splits prod.splits sum.splits)
  moreover have "tc_acks c3 = tc_acks c2 \<and> tc_seq c3 = tc_seq c2 + 1 \<and> tc_isOpen E c2"
    using assms(4)
    by (auto simp: tc_sendTunnelingRequest_def tc_transmit_def split: if_splits prod.splits sum.splits)
  ultimately have "0 \<in> set (tc_acks c3)" "tc_seq c3 - 1 = 0" "tc_isOpen E c2"
    using beginOpen_keeps_acks [OF assms(2)] assms(1) by simp_all
  then have "tc_consume (tc_seq c3 - 1) c3 = (c3\<lparr>tc_acks := remove1 0 (tc_acks c3)\<rparr>, True)"
    by (simp add: prod_eq_iff)
  with assms(4) \<open>tc_isOpen E c2\<close> show ?thesis by (simp add: tc_sendCemi_def waitForAck_def)
qed

definition sim_client_env :: "sim_socket client_env" where
  "sim_client_env = udp_env.extend sim_env
     \<lparr>udp_localPort = \<lambda>_. 50000, net_ipAddress = \<lambda>_. (192, 168, 1, 10)\<rparr>"

lemma sim_client_simps [simp]:
  "udp_create sim_client_env = udp_create sim_env" "udp_open sim_client_env = udp_open sim_env"
  "udp_isOpen sim_client_env = udp_isOpen sim_env" "udp_send sim_client_env = udp_send sim_env"
  "udp_receive sim_client_env = udp_receive sim_env" "udp_available sim_client_env = udp_available sim_env"
  "udp_nowMs sim_client_env = udp_nowMs sim_env" "net_ipAddress sim_client_env p = (192, 168, 1, 10)"
  by (simp_all add: sim_client_env_def udp_env.defs)

lemma sim_client_logs: "socket_logs sim_client_env fst"
  using sim_env_logs by (simp add: socket_logs_def)

text \<open>The client before its second session: one acknowledgement is left, and the answer to the
  connection request will be waiting.\<close>

definition reconnecting_client :: "sim_socket tclient" where
  "reconnecting_client = (tclient_new ([], [(packet kServiceConnectionResponse [5, 0], (192, 168, 1, 1), 3671)], True))
     \<lparr>tc_acks := [0]\<rparr>"

lemma reconnecting_client_run:
  "\<exists>c1 c2 c3. tc_beginOpen sim_client_env 0 (192, 168, 1, 1) 3671 1000 reconnecting_client = Some (c1, Inr ())
   \<and> receiveConnectionResponseOnce sim_client_env c1 = (c2, Inr True)
   \<and> tc_sendTunnelingRequest sim_client_env [1] c2 = (c3, Inr ())"
proof -
  let ?d = "packet kServiceConnectionResponse [5, 0]"
  define c0 where "c0 = reconnecting_client\<lparr>tc_sock := True, tc_remote := ((192, 168, 1, 1), 3671),
    tc_localAddr := (192, 168, 1, 10)\<rparr>"
  let ?e = "tc_controlEndpoint sim_client_env c0"
  have len: "length (hpai_octets e) = 8" for e by (cases "hpai_address e") (simp add: hpai_octets_def)
  have "length (tc_frameBuffer c0) = 1500"
    by (simp add: c0_def reconnecting_client_def tclient_new_def kUdpBufferSize_def)
  then obtain w where w: "encodeConnectionRequest ?e ?e kTunnelLayerTp1 (pw_new (tc_frameBuffer c0)) = (w, Inr ())"
      "pw_size w = length (pw_span w)" "length (pw_buffer w) = 1500"
    using pw_packet_ok [of "[hpai_octets ?e, hpai_octets ?e, cri_octets kTunnelLayerTp1]" "tc_frameBuffer c0"
        kServiceConnectionRequest]
    by (auto simp: encoders_as_packets len cri_octets_def)
  define c1 where "c1 = c0\<lparr>tc_frameBuffer := pw_buffer w,
      tc_env := ([((192, 168, 1, 1), 3671, pw_span w)], [(?d, (192, 168, 1, 1), 3671)], True),
      tc_openOperation := \<lparr>oo_active = True, oo_startTimeMs = 0, oo_timeoutMs = 1000\<rparr>\<rparr>"
  have env: "tc_env c0 = ([], [(?d, (192, 168, 1, 1), 3671)], True)" "tc_sock c0"
    "tc_remote c0 = ((192, 168, 1, 1), 3671)"
    by (simp_all add: c0_def reconnecting_client_def tclient_new_def)
  have send: "sendConnectionRequest sim_client_env c0 = (c1\<lparr>tc_openOperation := tc_openOperation c0\<rparr>, Inr ())"
    using w env by (simp add: sendConnectionRequest_def tc_transmit_def Let_def c1_def)
  have close: "tc_close sim_client_env 0 reconnecting_client = Some reconnecting_client"
    by (simp add: tc_close_def reconnecting_client_def tclient_new_def)
  have "tc_beginOpen sim_client_env 0 (192, 168, 1, 1) 3671 1000 reconnecting_client = Some (c1, Inr ())"
    using send close
    by (simp add: tc_beginOpen_def ip_isZero_def Let_def case_prod_beta)
      (simp add: c0_def c1_def reconnecting_client_def tclient_new_def)
  moreover define c2 where "c2 = tc_markActivity sim_client_env
      (c1\<lparr>tc_env := ([((192, 168, 1, 1), 3671, pw_span w)], [], True),
          tc_scratchBuffer := ?d @ drop (length ?d) (tc_scratchBuffer c1), tc_channelId := 5, tc_seq := 0\<rparr>)"
  have "receiveConnectionResponseOnce sim_client_env c1 = (c2, Inr True)"
    using decodeHeader_packet [of "[5, 0]" kServiceConnectionResponse "[]"]
      decodeChannelStatusResponse_packet [of kServiceConnectionResponse 5 0] env(2)
    by (simp add: receiveConnectionResponseOnce_def c1_def c2_def Let_def establishChannel_def
        exchangeChannelStatus_def)
  moreover have "tc_isOpen sim_client_env c2" "length (tc_frameBuffer c2) = kUdpBufferSize"
    using env(2) w(3) by (simp_all add: c2_def c1_def tc_isOpen_def tc_markActivity_def kUdpBufferSize_def)
  then have "\<exists>c3. tc_sendTunnelingRequest sim_client_env [1] c2 = (c3, Inr ())"
    using sendTunnelingRequest_sends [OF sim_client_logs, of c2 "[1]"] by auto
  ultimately show ?thesis by blast
qed

theorem stale_ack_accepted_witness:
  "\<exists>c2 c4. tc_sendCemi sim_client_env 0 [1] True 500 c2 = Some (c4, Inr (), []) \<and> tc_acks c2 = [0]"
proof -
  obtain c1 c2 c3 where r: "tc_beginOpen sim_client_env 0 (192, 168, 1, 1) 3671 1000 reconnecting_client = Some (c1, Inr ())"
      "receiveConnectionResponseOnce sim_client_env c1 = (c2, Inr True)"
      "tc_sendTunnelingRequest sim_client_env [1] c2 = (c3, Inr ())"
    using reconnecting_client_run by blast
  have "0 \<in> set (tc_acks reconnecting_client)" by (simp add: reconnecting_client_def)
  from stale_ack_accepted [OF this r, of 0 500]
  obtain c4 where "tc_sendCemi sim_client_env 0 [1] True 500 c2 = Some (c4, Inr (), [])" by blast
  moreover have "tc_acks c2 = [0]"
    using beginOpen_keeps_acks [OF r(1)] r(2)
    by (auto simp: receiveConnectionResponseOnce_def tc_markActivity_def Let_def reconnecting_client_def
        split: if_splits prod.splits sum.splits)
  ultimately show ?thesis by blast
qed

end
