(* ===== verification/Secure_Tunnel.thy ===== *)
theory Secure_Tunnel
  imports Netip_Routing Tunneling_Client
begin

text \<open>
  Tunnelling over a secure TCP session: frames on a stream (\<open>src/netip/tcp_frame_channel.cpp\<close>), the security
  of a session and the channel that uses it (\<open>SecureTunnelingSecurity\<close> of
  \<open>src/netip/secure_tunneling_client.cpp\<close>, \<open>netip/secure_tcp_frame_channel.hpp\<close>), and the client
  (\<open>SecureTunnelingClient\<close>) with the handshake, the control operations and the exchange of cEMI frames. The
  stream socket and the clock are the fields of \<open>'p tcp_env\<close>. The mutex that serialises the socket has no
  counterpart; a receive callback is a list of calls.

  Shown: the frames written to a stream are read one by one, however the stream cuts them, and the same for
  secured frames; the client never uses a channel it has not opened.
\<close>

section \<open>Frames on a stream (src/netip/tcp\_frame\_channel.cpp)\<close>

text \<open>\<open>tcp_receive\<close> gets the room in the buffer and returns the number and the octets received.\<close>

record 'p tcp_env =
  tcp_create :: "'p \<Rightarrow> 'p \<times> bool"
  tcp_connect :: "ip_address \<Rightarrow> u16 \<Rightarrow> 'p \<Rightarrow> 'p \<times> unit result"
  tcp_close :: "'p \<Rightarrow> 'p"
  tcp_isOpen :: "'p \<Rightarrow> bool"
  tcp_send :: "bytes \<Rightarrow> 'p \<Rightarrow> 'p \<times> int"
  tcp_receive :: "nat \<Rightarrow> 'p \<Rightarrow> 'p \<times> int \<times> bytes"
  tcp_available :: "'p \<Rightarrow> nat"
  tcp_localPort :: "'p \<Rightarrow> u16"
  tcp_localAddress :: "'p \<Rightarrow> ip_address"
  tcp_nowMs :: "'p \<Rightarrow> 'p \<times> u32"
  tcp_delay :: "u32 \<Rightarrow> 'p \<Rightarrow> 'p"

text \<open>The clock and the readiness of the stream, as the waiting helper of \<open>detail/polling.hpp\<close> uses them.\<close>

definition tcp_polled :: "'p tcp_env \<Rightarrow> 'p udp_env" where
  "tcp_polled E = \<lparr>udp_create = tcp_create E, udp_open = \<lambda>_ p. (p, Inr ()), udp_close = tcp_close E, udp_isOpen = tcp_isOpen E,
     udp_send = \<lambda>_ _ bs. tcp_send E bs, udp_receive = \<lambda>buf p. (p, 0, buf, ip_zero, 0), udp_available = tcp_available E,
     udp_nowMs = tcp_nowMs E, udp_delay = tcp_delay E\<rparr>"

definition tcp_waitReadable :: "'p tcp_env \<Rightarrow> nat \<Rightarrow> int \<Rightarrow> 'p \<Rightarrow> ('p \<times> bool result) option" where
  "tcp_waitReadable E fuel timeoutMs p =
     (if \<not> tcp_isOpen E p then Some (p, Inl NotInitialized)
      else map_option (\<lambda>(p1, b). (p1, Inr b)) (waitUntilReadable (tcp_polled E) fuel timeoutMs p))"

function tcp_write_loop :: "'p tcp_env \<Rightarrow> bytes \<Rightarrow> 'p \<Rightarrow> 'p \<times> unit result" where
  "tcp_write_loop E data p =
     (if data = [] then (p, Inr ())
      else case tcp_send E data p of (p1, sent) \<Rightarrow>
        if sent \<le> 0 then (p1, Inl ETransmissionFailed) else tcp_write_loop E (drop (nat sent) data) p1)"
  by pat_completeness auto
termination by (relation "measure (\<lambda>(E, data, p). length data)") auto

declare tcp_write_loop.simps [simp del]

definition writeAll :: "'p tcp_env \<Rightarrow> bytes \<Rightarrow> 'p \<Rightarrow> 'p \<times> unit result" where
  "writeAll E data p = (if \<not> tcp_isOpen E p then (p, Inl NotInitialized) else tcp_write_loop E data p)"

text \<open>The loop of \<open>readExact\<close> for the \<open>n\<close> octets that are missing.\<close>

function tcp_read_loop :: "'p tcp_env \<Rightarrow> nat \<Rightarrow> 'p \<Rightarrow> 'p \<times> bytes result" where
  "tcp_read_loop E n p =
     (if n = 0 then (p, Inr [])
      else case tcp_receive E n p of (p1, received, bs) \<Rightarrow>
        if received \<le> 0 then (p1, Inl ETransmissionFailed)
        else case tcp_read_loop E (n - nat received) p1 of
               (p2, Inl e) \<Rightarrow> (p2, Inl e)
             | (p2, Inr rest) \<Rightarrow> (p2, Inr (bs @ rest)))"
  by pat_completeness auto
termination by (relation "measure (\<lambda>(E, n, p). n)") auto

declare tcp_read_loop.simps [simp del]

definition readExact :: "'p tcp_env \<Rightarrow> nat \<Rightarrow> 'p \<Rightarrow> 'p \<times> bytes result" where
  "readExact E n p =
     (if \<not> tcp_isOpen E p then (p, Inl NotInitialized)
      else if n = 0 then (p, Inl InvalidParameter)
      else tcp_read_loop E n p)"

definition tcp_sendFrame :: "'p tcp_env \<Rightarrow> bytes \<Rightarrow> 'p \<Rightarrow> 'p \<times> unit result" where
  "tcp_sendFrame E frame p = (if \<not> tcp_isOpen E p then (p, Inl NotInitialized) else writeAll E frame p)"

text \<open>The frame goes to the start of the caller's buffer. What a read that fails leaves behind the header is not
  modelled.\<close>

definition readFrameRaw :: "'p tcp_env \<Rightarrow> bytes \<Rightarrow> 'p \<Rightarrow> 'p \<times> bytes \<times> nat result" where
  "readFrameRaw E buf p =
     (if \<not> tcp_isOpen E p then (p, buf, Inl NotInitialized)
      else if length buf < kHeaderLen then (p, buf, Inl BufferTooSmall)
      else case readExact E kHeaderLen p of
             (p1, Inl e) \<Rightarrow> (p1, buf, Inl e)
           | (p1, Inr h) \<Rightarrow>
               let n = unat (word_be (h ! 4) (h ! 5)) in
               if n < kHeaderLen then (p1, buf, Inl InvalidFrameSize)
               else if n > length buf then (p1, buf, Inl BufferTooSmall)
               else let buf1 = put_at 0 h buf in
                    if n - kHeaderLen > 0
                    then (case readExact E (n - kHeaderLen) p1 of
                            (p2, Inl e) \<Rightarrow> (p2, buf1, Inl e)
                          | (p2, Inr body) \<Rightarrow> (p2, put_at kHeaderLen body buf1, Inr n))
                    else (p1, buf1, Inr n))"

definition tcp_receiveFrame :: "'p tcp_env \<Rightarrow> bytes \<Rightarrow> 'p \<Rightarrow> 'p \<times> bytes \<times> nat result" where
  "tcp_receiveFrame E buf p = readFrameRaw E buf p"

section \<open>The secure channel (netip/secure\_tcp\_frame\_channel.hpp)\<close>

definition stc_sendFrame ::
  "'p tcp_env \<Rightarrow> 's netip_security \<Rightarrow> bytes \<Rightarrow> 'p \<times> 's packet_codec \<Rightarrow> ('p \<times> 's packet_codec) \<times> unit result" where
  "stc_sendFrame E N frame pc =
     (case pc of (p, c) \<Rightarrow>
        (case pc_wrap N frame c of
           (c1, Inl e) \<Rightarrow> ((p, c1), Inl e)
         | (c1, Inr w) \<Rightarrow> (case writeAll E w p of (p1, r) \<Rightarrow> ((p1, c1), r))))"

definition stc_receiveFrame ::
  "'p tcp_env \<Rightarrow> 's netip_security \<Rightarrow> bytes \<Rightarrow> 'p \<times> 's packet_codec \<Rightarrow> ('p \<times> 's packet_codec) \<times> bytes \<times> nat result" where
  "stc_receiveFrame E N buf pc =
     (case pc of (p, c) \<Rightarrow>
        (case tcp_receiveFrame E buf p of
           (p1, buf1, Inl e) \<Rightarrow> ((p1, c), buf1, Inl e)
         | (p1, buf1, Inr n) \<Rightarrow>
             (case pc_unwrapInPlace N (take n buf1) buf1 c of (c1, buf2, r) \<Rightarrow> ((p1, c1), buf2, r))))"

section \<open>The security of a session (SecureTunnelingSecurity)\<close>

record tunneling_security =
  sts_sessionKey :: bytes
  sts_sessionId :: u16
  sts_serial :: bytes
  sts_seq48 :: u64

definition sts_new :: "bytes \<Rightarrow> u16 \<Rightarrow> bytes \<Rightarrow> u64 \<Rightarrow> tunneling_security" where
  "sts_new key sid serial initialSeq =
     \<lparr>sts_sessionKey = key, sts_sessionId = sid, sts_serial = serial, sts_seq48 = mask48 initialSeq\<rparr>"

definition sts_protect :: "aes_backend \<Rightarrow> bytes \<Rightarrow> bytes \<Rightarrow> tunneling_security \<Rightarrow> tunneling_security \<times> bytes \<times> nat result" where
  "sts_protect B inp out s =
     (if sts_sessionId s = 0 then (s, out, Inl NotInitialized)
      else (s\<lparr>sts_seq48 := sts_seq48 s + 1\<rparr>,
            sw_wrap B (sts_sessionKey s) (sts_sessionId s) (encodeSeq48BE (mask48 (sts_seq48 s))) (sts_serial s) [0, 0]
              [0x00, 0x00, 0xFF, 0x00] inp out))"

definition sts_unprotect :: "aes_backend \<Rightarrow> bytes \<Rightarrow> bytes \<Rightarrow> tunneling_security \<Rightarrow> tunneling_security \<times> bytes \<times> nat result" where
  "sts_unprotect B inp out s =
     (if sts_sessionId s = 0 then (s, out, Inl NotInitialized)
      else (s, sw_unwrapAndVerify B (sts_sessionKey s) (sts_sessionId s) inp out))"

definition session_security :: "aes_backend \<Rightarrow> tunneling_security netip_security" where
  "session_security B = \<lparr>ns_protect = sts_protect B, ns_unprotect = sts_unprotect B\<rparr>"

text \<open>It keeps the promise of a datagram security; its peers have the same key and session.\<close>

definition sts_peers :: "aes_backend \<Rightarrow> tunneling_security \<Rightarrow> tunneling_security \<Rightarrow> bool" where
  "sts_peers B s t \<longleftrightarrow> (\<exists>enc. aes_works B enc) \<and> sts_sessionKey s = sts_sessionKey t \<and> sts_sessionId s = sts_sessionId t \<and>
     sts_sessionId s \<noteq> 0 \<and> length (sts_serial s) = 6"

interpretation sts: datagram_security "sts_protect B" "sts_unprotect B" "sts_peers B" 38 for B
proof unfold_locales
  fix s t :: tunneling_security and d out :: bytes
  assume p: "sts_peers B s t" and l: "length d + 38 \<le> length out" "length d + 38 \<le> 65535"
  then obtain enc where enc: "aes_works B enc" by (auto simp: sts_peers_def)
  let ?sq = "encodeSeq48BE (mask48 (sts_seq48 s))"
  let ?w = "wrapped (enc (sts_sessionKey s)) (sts_sessionId s) ?sq (sts_serial s) [0, 0] d"
  have len: "length (sts_serial s) = 6" "sts_sessionKey t = sts_sessionKey s" "sts_sessionId t = sts_sessionId s" "sts_sessionId s \<noteq> 0"
    using p by (auto simp: sts_peers_def)
  have lw: "length ?w = length d + 38" using wrapped_length [OF enc encodeSeq48BE_length len(1)] by simp
  have "sts_protect B d out s = (s\<lparr>sts_seq48 := sts_seq48 s + 1\<rparr>, ?w @ drop (length ?w) out, Inr (length ?w))"
    unfolding lw sts_protect_def using sw_wrap_wrapped [OF enc encodeSeq48BE_length len(1), of "[0, 0]" d out] l len(4)
    by (simp add: add.commute)
  moreover have "sts_unprotect B ?w buf t = (t, d @ drop (length d) buf, Inr (length d))" if "length d \<le> length buf" for buf
  proof -
    have "sw_unwrapAndVerify B (sts_sessionKey s) (sts_sessionId s) ?w buf = (d @ drop (length d) buf, Inr (length d))"
      unfolding sw_unwrap_wrapped [OF enc] using len(1) l that
      by (intro exI [of _ ?sq] exI [of _ "sts_serial s"] exI [of _ "[0, 0]"] exI [of _ d] exI [of _ "[]"]) simp
    then show ?thesis using len by (simp add: sts_unprotect_def)
  qed
  moreover have "sts_peers B (s\<lparr>sts_seq48 := sts_seq48 s + 1\<rparr>) t" using p by (auto simp: sts_peers_def)
  ultimately show "\<exists>s' w. sts_protect B d out s = (s', w @ drop (length w) out, Inr (length w)) \<and> length w = length d + 38 \<and>
      sts_peers B s' t \<and> (\<forall>buf. length d \<le> length buf \<longrightarrow>
        (\<exists>t'. sts_unprotect B w buf t = (t', d @ drop (length d) buf, Inr (length d)) \<and> sts_peers B s' t'))"
    using lw by blast
qed simp

section \<open>Frames survive the stream\<close>

text \<open>A stream socket: a send takes at least one octet, a receive returns at least one octet of those that
  have arrived and at most as many as there is room for; \<open>out\<close> is what was sent, \<open>arrived\<close> what can be read.\<close>

definition stream_works :: "'p tcp_env \<Rightarrow> ('p \<Rightarrow> bytes) \<Rightarrow> ('p \<Rightarrow> bytes) \<Rightarrow> bool" where
  "stream_works E sent arrived \<longleftrightarrow>
     (\<forall>p data. tcp_isOpen E p \<and> data \<noteq> [] \<longrightarrow> (\<exists>p' k. tcp_send E data p = (p', int k) \<and> 0 < k \<and> k \<le> length data \<and>
        sent p' = sent p @ take k data \<and> arrived p' = arrived p \<and> tcp_isOpen E p')) \<and>
     (\<forall>p n. tcp_isOpen E p \<and> 0 < n \<and> arrived p \<noteq> [] \<longrightarrow> (\<exists>p' k. tcp_receive E n p = (p', int k, take k (arrived p)) \<and> 0 < k \<and>
        k \<le> n \<and> k \<le> length (arrived p) \<and> arrived p' = drop k (arrived p) \<and> sent p' = sent p \<and> tcp_isOpen E p'))"

lemma writeAll_ok:
  assumes "stream_works E sent arrived" "tcp_isOpen E p"
  shows "\<exists>p'. writeAll E data p = (p', Inr ()) \<and> sent p' = sent p @ data \<and> arrived p' = arrived p \<and> tcp_isOpen E p'"
proof -
  have "\<exists>p'. tcp_write_loop E data p = (p', Inr ()) \<and> sent p' = sent p @ data \<and> arrived p' = arrived p \<and> tcp_isOpen E p'"
    using assms(2)
  proof (induction "length data" arbitrary: data p rule: less_induct)
    case less
    show ?case
    proof (cases "data = []")
      case True
      then show ?thesis using less.prems by (simp add: tcp_write_loop.simps)
    next
      case False
      then obtain p1 k where k: "tcp_send E data p = (p1, int k)" "0 < k" "k \<le> length data" "sent p1 = sent p @ take k data"
        "arrived p1 = arrived p" "tcp_isOpen E p1" using assms(1) less.prems unfolding stream_works_def by blast
      obtain p' where "tcp_write_loop E (drop k data) p1 = (p', Inr ())" "sent p' = sent p1 @ drop k data"
        "arrived p' = arrived p1" "tcp_isOpen E p'" using less.hyps [of "drop k data" p1] k False by auto
      then show ?thesis using k False by (subst tcp_write_loop.simps) simp
    qed
  qed
  then show ?thesis using assms(2) by (simp add: writeAll_def)
qed

lemma readExact_ok:
  assumes "stream_works E sent arrived" "tcp_isOpen E p" "0 < n" "n \<le> length (arrived p)"
  shows "\<exists>p'. readExact E n p = (p', Inr (take n (arrived p))) \<and> arrived p' = drop n (arrived p) \<and> sent p' = sent p \<and> tcp_isOpen E p'"
proof -
  have "\<exists>p'. tcp_read_loop E n p = (p', Inr (take n (arrived p))) \<and> arrived p' = drop n (arrived p) \<and> sent p' = sent p \<and> tcp_isOpen E p'"
    using assms(2,4)
  proof (induction n arbitrary: p rule: less_induct)
    case (less n)
    show ?case
    proof (cases "n = 0")
      case True
      then show ?thesis using less.prems by (simp add: tcp_read_loop.simps)
    next
      case False
      with less.prems have "arrived p \<noteq> []" by auto
      with False less.prems obtain p1 k where k: "tcp_receive E n p = (p1, int k, take k (arrived p))" "0 < k" "k \<le> n"
        "arrived p1 = drop k (arrived p)" "sent p1 = sent p" "tcp_isOpen E p1"
        using assms(1) unfolding stream_works_def by blast
      have "n - k \<le> length (arrived p1)" using k(4) less.prems(2) by simp
      then obtain p' where p': "tcp_read_loop E (n - k) p1 = (p', Inr (take (n - k) (arrived p1)))" "arrived p' = drop (n - k) (arrived p1)"
        "sent p' = sent p1" "tcp_isOpen E p'" using less.IH [of "n - k" p1] k(2,3,6) False by auto
      have "take k (arrived p) @ take (n - k) (arrived p1) = take n (arrived p)" "drop (n - k) (arrived p1) = drop n (arrived p)"
        using k(3,4) take_add [of k "n - k" "arrived p"] by simp_all
      then show ?thesis using k p' False by (subst tcp_read_loop.simps) simp
    qed
  qed
  then show ?thesis using assms(2,3) by (simp add: readExact_def)
qed

lemma readFrame_ok:
  assumes "stream_works E sent arrived" "tcp_isOpen E p" "arrived p = packet service body @ rest" "length body \<le> 65529"
    and "6 + length body \<le> length buf"
  shows "\<exists>p'. readFrameRaw E buf p = (p', packet service body @ drop (6 + length body) buf, Inr (6 + length body)) \<and>
    arrived p' = rest \<and> sent p' = sent p \<and> tcp_isOpen E p'"
proof -
  let ?h = "take 6 (packet service body)"
  have lp: "length (packet service body) = 6 + length body" by simp
  obtain p1 where p1: "readExact E 6 p = (p1, Inr ?h)" "arrived p1 = body @ rest" "sent p1 = sent p" "tcp_isOpen E p1"
    using readExact_ok [OF assms(1,2), of 6] assms(3) packet_body(1) [of service body] by auto
  have h: "word_be (?h ! 4) (?h ! 5) = of_nat (6 + length body)" "?h @ body = packet service body" "length ?h = 6"
    by (simp_all add: packet_def eval_nat_numeral del: of_nat_add)
  have n: "unat (of_nat (6 + length body) :: u16) = 6 + length body" by (rule unat_total [OF assms(4)])
  show ?thesis
  proof (cases "body = []")
    case True
    then show ?thesis using p1 h n assms(2,5)
      by (simp add: readFrameRaw_def kHeaderLen_def Let_def put_at_def del: of_nat_add)
  next
    case False
    then obtain p2 where p2: "readExact E (length body) p1 = (p2, Inr body)" "arrived p2 = rest" "sent p2 = sent p1" "tcp_isOpen E p2"
      using readExact_ok [OF assms(1) p1(4), of "length body"] p1(2) by auto
    have "put_at 6 body (?h @ drop 6 buf) = packet service body @ drop (6 + length body) buf"
      using put_at_prefix [OF h(3), of body buf] h(2) by simp
    then show ?thesis using p1 p2 h n assms(2,5) False
      by (simp add: readFrameRaw_def kHeaderLen_def Let_def put_at_def [of 0] del: of_nat_add)
  qed
qed

text \<open>Sending and receiving several frames in a row.\<close>

fun stc_sends :: "'p tcp_env \<Rightarrow> 's netip_security \<Rightarrow> bytes list \<Rightarrow> 'p \<times> 's packet_codec \<Rightarrow> ('p \<times> 's packet_codec) \<times> unit result" where
  "stc_sends E N [] pc = (pc, Inr ())"
| "stc_sends E N (f # fs) pc =
     (case stc_sendFrame E N f pc of (pc1, Inl e) \<Rightarrow> (pc1, Inl e) | (pc1, Inr _) \<Rightarrow> stc_sends E N fs pc1)"

fun stc_receives ::
  "'p tcp_env \<Rightarrow> 's netip_security \<Rightarrow> nat \<Rightarrow> bytes \<Rightarrow> 'p \<times> 's packet_codec \<Rightarrow> ('p \<times> 's packet_codec) \<times> bytes list result" where
  "stc_receives E N 0 buf pc = (pc, Inr [])"
| "stc_receives E N (Suc n) buf pc =
     (case stc_receiveFrame E N buf pc of
        (pc1, buf1, Inl e) \<Rightarrow> (pc1, Inl e)
      | (pc1, buf1, Inr k) \<Rightarrow>
          (case stc_receives E N n buf1 pc1 of
             (pc2, Inl e) \<Rightarrow> (pc2, Inl e)
           | (pc2, Inr fs) \<Rightarrow> (pc2, Inr (take k buf1 # fs))))"

text \<open>A security whose protected datagrams are KNXnet/IP packets can be used on a stream.\<close>

locale framed_security = datagram_security +
  assumes framed: "peers s t \<Longrightarrow> length d + overhead \<le> length out \<Longrightarrow> length d + overhead \<le> 65535 \<Longrightarrow>
    protect d out s = (s', w @ rest, Inr (length w)) \<Longrightarrow> \<exists>service body. w = packet service body"
begin

lemma pc_wrap_framed:
  assumes "peers (pc_security c) (pc_security r)" "length d + overhead \<le> length (pc_wrapScratch c)" "length d + overhead \<le> 65535"
    and "pc_wrap sec d c = (c1, Inr w)"
  shows "\<exists>service body. w = packet service body"
proof -
  obtain s' v where v: "protect d (pc_wrapScratch c) (pc_security c) = (s', v @ drop (length v) (pc_wrapScratch c), Inr (length v))"
    using protected [OF assms(1-3)] by blast
  then have "w = v" using assms(4) by (auto simp: pc_wrap_def Let_def split: if_splits)
  then show ?thesis using framed [OF assms(1-3) v] by simp
qed

lemma frame_crosses:
  assumes "stream_works E sent arrived" "tcp_isOpen E p" "peers (pc_security c) (pc_security r)"
    and "length d + overhead \<le> length (pc_wrapScratch c)" "length d + overhead \<le> 65535"
    and "length d \<le> length (pc_unwrapScratch r)" "pc_unwrapScratch r \<noteq> []"
  shows "\<exists>p1 c1 w. stc_sendFrame E sec d (p, c) = ((p1, c1), Inr ()) \<and> sent p1 = sent p @ w \<and> arrived p1 = arrived p \<and> tcp_isOpen E p1 \<and>
    length (pc_wrapScratch c1) = length (pc_wrapScratch c) \<and> peers (pc_security c1) (pc_security r) \<and>
    (\<forall>(E' :: 'q tcp_env) sent' arrived' q rest buf. stream_works E' sent' arrived' \<and> tcp_isOpen E' q \<and> arrived' q = w @ rest \<and>
       length d + overhead \<le> length buf \<longrightarrow>
       (\<exists>q1 r1 buf1. stc_receiveFrame E' sec buf (q, r) = ((q1, r1), buf1, Inr (length d)) \<and> take (length d) buf1 = d \<and>
          length buf1 = length buf \<and> arrived' q1 = rest \<and> sent' q1 = sent' q \<and> tcp_isOpen E' q1 \<and>
          peers (pc_security c1) (pc_security r1) \<and> length (pc_unwrapScratch r1) = length (pc_unwrapScratch r)))"
proof -
  obtain c1 w where w: "pc_wrap sec d c = (c1, Inr w)" "length w = length d + overhead" "length (pc_wrapScratch c1) = length (pc_wrapScratch c)"
    "peers (pc_security c1) (pc_security r)"
    "\<And>buf. length d \<le> length buf \<Longrightarrow> \<exists>r1. pc_unwrapInPlace sec w buf r = (r1, d @ drop (length d) buf, Inr (length d)) \<and>
          peers (pc_security c1) (pc_security r1) \<and> length (pc_unwrapScratch r1) = length (pc_unwrapScratch r)"
    using codec_roundtrip [OF assms(3-7)] by blast
  obtain service body where f: "w = packet service body" using pc_wrap_framed [OF assms(3-5) w(1)] by blast
  then have lb: "6 + length body = length d + overhead" "length body \<le> 65529" using w(2) assms(5) by auto
  obtain p1 where p1: "writeAll E w p = (p1, Inr ())" "sent p1 = sent p @ w" "arrived p1 = arrived p" "tcp_isOpen E p1"
    using writeAll_ok [OF assms(1,2)] by blast
  have "\<exists>q1 r1 buf1. stc_receiveFrame E' sec buf (q, r) = ((q1, r1), buf1, Inr (length d)) \<and> take (length d) buf1 = d \<and>
          length buf1 = length buf \<and> arrived' q1 = rest \<and> sent' q1 = sent' q \<and> tcp_isOpen E' q1 \<and>
          peers (pc_security c1) (pc_security r1) \<and> length (pc_unwrapScratch r1) = length (pc_unwrapScratch r)"
    if h: "stream_works E' sent' arrived'" "tcp_isOpen E' q" "arrived' q = w @ rest" "length d + overhead \<le> length buf"
    for E' :: "'q tcp_env" and sent' arrived' :: "'q \<Rightarrow> bytes" and q rest buf
  proof -
    obtain q1 where q1: "readFrameRaw E' buf q = (q1, w @ drop (length w) buf, Inr (length w))" "arrived' q1 = rest" "sent' q1 = sent' q"
      "tcp_isOpen E' q1" using readFrame_ok [OF h(1,2), of service body rest buf] h(3,4) lb w(2) f by auto
    obtain r1 where r1: "pc_unwrapInPlace sec w (w @ drop (length w) buf) r = (r1, d @ drop (length d) (w @ drop (length w) buf), Inr (length d))"
      "peers (pc_security c1) (pc_security r1)" "length (pc_unwrapScratch r1) = length (pc_unwrapScratch r)"
      using w(5) [of "w @ drop (length w) buf"] w(2) by auto
    have "length (d @ drop (length d) (w @ drop (length w) buf)) = length buf" using w(2) h(4) by simp
    with q1 r1 show ?thesis by (simp add: stc_receiveFrame_def tcp_receiveFrame_def)
  qed
  moreover have "stc_sendFrame E sec d (p, c) = ((p1, c1), Inr ())" using w(1) p1(1) by (simp add: stc_sendFrame_def)
  ultimately show ?thesis using p1(2-4) w(3,4) by blast
qed

lemma frames_cross:
  assumes "stream_works E sent arrived" "tcp_isOpen E p" "peers (pc_security c) (pc_security r)"
    and "\<forall>d \<in> set ds. length d + overhead \<le> length (pc_wrapScratch c) \<and> length d + overhead \<le> 65535 \<and> length d \<le> length (pc_unwrapScratch r)"
    and "pc_unwrapScratch r \<noteq> []"
  shows "\<exists>p1 c1 ws. stc_sends E sec ds (p, c) = ((p1, c1), Inr ()) \<and> sent p1 = sent p @ ws \<and>
    (\<forall>(E' :: 'q tcp_env) sent' arrived' q rest buf. stream_works E' sent' arrived' \<and> tcp_isOpen E' q \<and> arrived' q = ws @ rest \<and>
       (\<forall>d \<in> set ds. length d + overhead \<le> length buf) \<longrightarrow>
       (\<exists>q1 r1. stc_receives E' sec (length ds) buf (q, r) = ((q1, r1), Inr ds) \<and> arrived' q1 = rest))"
  using assms(2-5)
proof (induction ds arbitrary: p c r)
  case Nil
  show ?case by (intro exI [of _ p] exI [of _ c] exI [of _ "[]"]) auto
next
  case (Cons d ds)
  obtain p1 c1 w where w: "stc_sendFrame E sec d (p, c) = ((p1, c1), Inr ())" "sent p1 = sent p @ w" "tcp_isOpen E p1"
    "length (pc_wrapScratch c1) = length (pc_wrapScratch c)" "peers (pc_security c1) (pc_security r)"
    and rec: "\<And>(E' :: 'q tcp_env) sent' arrived' q rest buf. stream_works E' sent' arrived' \<Longrightarrow> tcp_isOpen E' q \<Longrightarrow> arrived' q = w @ rest \<Longrightarrow>
       length d + overhead \<le> length buf \<Longrightarrow>
       (\<exists>q1 r1 buf1. stc_receiveFrame E' sec buf (q, r) = ((q1, r1), buf1, Inr (length d)) \<and> take (length d) buf1 = d \<and>
          length buf1 = length buf \<and> arrived' q1 = rest \<and> sent' q1 = sent' q \<and> tcp_isOpen E' q1 \<and>
          peers (pc_security c1) (pc_security r1) \<and> length (pc_unwrapScratch r1) = length (pc_unwrapScratch r))"
    using frame_crosses [OF assms(1) Cons.prems(1,2), of d, where 'q = 'q] Cons.prems(3,4) by auto
  have nx: "\<exists>p2 c2 ws. stc_sends E sec ds (p1, c1) = ((p2, c2), Inr ()) \<and> sent p2 = sent p1 @ ws \<and>
    (\<forall>(E' :: 'q tcp_env) sent' arrived' q rest buf. stream_works E' sent' arrived' \<and> tcp_isOpen E' q \<and> arrived' q = ws @ rest \<and>
       (\<forall>d \<in> set ds. length d + overhead \<le> length buf) \<longrightarrow>
       (\<exists>q1 r2. stc_receives E' sec (length ds) buf (q, r1) = ((q1, r2), Inr ds) \<and> arrived' q1 = rest))"
    if "peers (pc_security c1) (pc_security r1)" "length (pc_unwrapScratch r1) = length (pc_unwrapScratch r)" for r1
    by (rule Cons.IH) (use w(3,4) that Cons.prems(3,4) in auto)
  obtain p2 c2 ws where ws: "stc_sends E sec ds (p1, c1) = ((p2, c2), Inr ())" "sent p2 = sent p1 @ ws" using nx [OF w(5) refl] by blast
  have "\<exists>q1 r2. stc_receives E' sec (length (d # ds)) buf (q, r) = ((q1, r2), Inr (d # ds)) \<and> arrived' q1 = rest"
    if h: "stream_works E' sent' arrived'" "tcp_isOpen E' q" "arrived' q = (w @ ws) @ rest"
      "\<forall>x \<in> set (d # ds). length x + overhead \<le> length buf" for E' :: "'q tcp_env" and sent' arrived' q rest buf
  proof -
    obtain q1 r1 buf1 where a: "stc_receiveFrame E' sec buf (q, r) = ((q1, r1), buf1, Inr (length d))" "take (length d) buf1 = d"
      "length buf1 = length buf" "arrived' q1 = ws @ rest" "tcp_isOpen E' q1" "peers (pc_security c1) (pc_security r1)"
      "length (pc_unwrapScratch r1) = length (pc_unwrapScratch r)"
      using rec [OF h(1,2), of "ws @ rest" buf] h(3,4) by auto
    have all: "\<forall>(E' :: 'q tcp_env) sent' arrived' q rest buf. stream_works E' sent' arrived' \<and> tcp_isOpen E' q \<and> arrived' q = ws @ rest \<and>
       (\<forall>d \<in> set ds. length d + overhead \<le> length buf) \<longrightarrow>
       (\<exists>q1 r2. stc_receives E' sec (length ds) buf (q, r1) = ((q1, r2), Inr ds) \<and> arrived' q1 = rest)"
      using nx [OF a(6,7)] ws by auto
    obtain q2 r2 where "stc_receives E' sec (length ds) buf1 (q1, r1) = ((q2, r2), Inr ds)" "arrived' q2 = rest"
      using all [rule_format, of E' sent' arrived' q1 rest buf1] h(1,4) a(3,4,5) by auto
    then show ?thesis using a(1,2) by simp
  qed
  then show ?case using w(1,2) ws by (intro exI [of _ p2] exI [of _ c2] exI [of _ "w @ ws"]) auto
qed

end

lemma wrapped_packet:
  assumes "aes_works B enc" "length sq = 6" "length serial = 6" "length tag = 2"
  shows "\<exists>service body. wrapped (enc key) sid sq serial tag d = packet service body"
proof -
  let ?b = "wrapper_fields sid sq serial tag @ ctr_ref (enc key) (be_value (incrementCounter (wrapper_counter sq serial tag))) d
     @ ctr_ref (enc key) (be_value (wrapper_counter sq serial tag)) (wrapper_mac (enc key) sid sq serial tag d)"
  have "6 + length ?b = 38 + length d" using assms wrapper_mac_length [OF assms(1-3)] by simp
  then have "wrapper_header (length d) = [6, 0x10, getHighByte 0x0950, getLowByte 0x0950, getHighByte (of_nat (6 + length ?b)), getLowByte (of_nat (6 + length ?b))]"
    by (simp add: wrapper_header_def getHighByte_def getLowByte_def del: of_nat_add length_append)
  then have "wrapped (enc key) sid sq serial tag d = packet 0x0950 ?b"
    unfolding packet_def by (simp add: wrapped_def del: of_nat_add length_append)
  then show ?thesis by blast
qed

interpretation stf: framed_security "sts_protect B" "sts_unprotect B" "sts_peers B" 38 for B
proof unfold_locales
  fix s t s' :: tunneling_security and d out w rest :: bytes
  assume h: "sts_peers B s t" "length d + 38 \<le> length out" "length d + 38 \<le> 65535" "sts_protect B d out s = (s', w @ rest, Inr (length w))"
  obtain enc where e: "aes_works B enc" "length (sts_serial s) = 6" "sts_sessionId s \<noteq> 0" using h(1) by (auto simp: sts_peers_def)
  let ?w = "wrapped (enc (sts_sessionKey s)) (sts_sessionId s) (encodeSeq48BE (mask48 (sts_seq48 s))) (sts_serial s) [0, 0] d"
  have "w @ rest = ?w @ drop (38 + length d) out" "length w = 38 + length d"
    using sw_wrap_wrapped [OF e(1) encodeSeq48BE_length e(2), of "[0, 0]" d out "sts_sessionKey s" "sts_sessionId s" "mask48 (sts_seq48 s)"]
      h(2-4) e(3) by (auto simp: sts_protect_def add.commute)
  moreover have "length ?w = 38 + length d" using wrapped_length [OF e(1) encodeSeq48BE_length e(2)] by simp
  ultimately have "w = ?w" by (metis append_eq_append_conv)
  with wrapped_packet [OF e(1) encodeSeq48BE_length e(2), of "[0, 0]"] show "\<exists>service body. w = packet service body" by simp
qed

text \<open>
  What is sent over a secure TCP session is received, frame by frame and in order. However the stream cuts
  the octets on either side (a send may take part of them, a receive may return as little as one octet or
  parts of two frames), the frames a client sends are exactly the frames the other end, with the same session
  key and session, reads from the stream, each one whole, and what follows them on the stream is left for the
  next read.
\<close>

theorem secured_frames_cross_stream:
  assumes "stream_works E sent arrived" "tcp_isOpen E p" "sts_peers B (pc_security c) (pc_security r)"
    and "\<forall>d \<in> set ds. length d + 38 \<le> length (pc_wrapScratch c) \<and> length d + 38 \<le> 65535 \<and> length d \<le> length (pc_unwrapScratch r)"
    and "pc_unwrapScratch r \<noteq> []"
  shows "\<exists>p1 c1 ws. stc_sends E (session_security B) ds (p, c) = ((p1, c1), Inr ()) \<and> sent p1 = sent p @ ws \<and>
    (\<forall>(E' :: 'q tcp_env) sent' arrived' q rest buf. stream_works E' sent' arrived' \<and> tcp_isOpen E' q \<and> arrived' q = ws @ rest \<and>
       (\<forall>d \<in> set ds. length d + 38 \<le> length buf) \<longrightarrow>
       (\<exists>q1 r1. stc_receives E' (session_security B) (length ds) buf (q, r) = ((q1, r1), Inr ds) \<and> arrived' q1 = rest))"
  unfolding session_security_def by (rule stf.frames_cross [OF assms])

text \<open>A stream that moves one octet at a time.\<close>

definition drip_env :: "(bytes \<times> bytes) tcp_env" where
  "drip_env = \<lparr>tcp_create = \<lambda>p. (p, True), tcp_connect = \<lambda>_ _ p. (p, Inr ()), tcp_close = id, tcp_isOpen = \<lambda>_. True,
     tcp_send = \<lambda>bs (out, inp). ((out @ take 1 bs, inp), 1),
     tcp_receive = \<lambda>n (out, inp). ((out, drop 1 inp), if inp = [] then 0 else 1, take 1 inp),
     tcp_available = \<lambda>(out, inp). length inp, tcp_localPort = \<lambda>_. 50000, tcp_localAddress = \<lambda>_. ip_zero,
     tcp_nowMs = \<lambda>p. (p, 0), tcp_delay = \<lambda>_ p. p\<rparr>"

lemma drip_works: "stream_works drip_env fst snd"
proof -
  have "Suc 0 \<le> length xs" if "xs \<noteq> []" for xs :: bytes using that by (cases xs) auto
  then show ?thesis unfolding stream_works_def drip_env_def by (auto intro!: exI [of _ "1 :: nat"])
qed

definition sample_codec :: "tunneling_security packet_codec" where
  "sample_codec = \<lparr>pc_security = sts_new (replicate 16 7) 5 [1, 2, 3, 4, 5, 6] 1, pc_wrapScratch = replicate 100 0, pc_unwrapScratch = replicate 100 0\<rparr>"

theorem secured_frames_cross_stream_witness:
  "\<exists>p1 c1 q1 r1. stc_sends drip_env (session_security toy_aes) [[1, 2, 3], [4]] (([], []), sample_codec) = ((p1, c1), Inr ()) \<and>
     stc_receives drip_env (session_security toy_aes) 2 (replicate 100 0) (([], fst p1 @ [9]), sample_codec) = ((q1, r1), Inr [[1, 2, 3], [4]]) \<and>
     snd q1 = [9]"
proof -
  have up: "tcp_isOpen drip_env q" for q by (simp add: drip_env_def)
  have p: "sts_peers toy_aes (pc_security sample_codec) (pc_security sample_codec)"
    using toy_aes_works by (auto simp: sts_peers_def sample_codec_def sts_new_def)
  have l: "\<forall>d \<in> set [[1, 2, 3], [4 :: u8]]. length d + 38 \<le> length (pc_wrapScratch sample_codec) \<and> length d + 38 \<le> 65535 \<and>
      length d \<le> length (pc_unwrapScratch sample_codec)" "pc_unwrapScratch sample_codec \<noteq> []" by (simp_all add: sample_codec_def)
  obtain p1 c1 ws where a: "stc_sends drip_env (session_security toy_aes) [[1, 2, 3], [4]] (([], []), sample_codec) = ((p1, c1), Inr ())"
    "fst p1 = ws"
    and b: "\<And>(E' :: (bytes \<times> bytes) tcp_env) sent' arrived' q rest buf. stream_works E' sent' arrived' \<and> tcp_isOpen E' q \<and> arrived' q = ws @ rest \<and>
       (\<forall>d \<in> set [[1, 2, 3], [4 :: u8]]. length d + 38 \<le> length buf) \<longrightarrow>
       (\<exists>q1 r1. stc_receives E' (session_security toy_aes) (length [[1, 2, 3], [4 :: u8]]) buf (q, sample_codec) = ((q1, r1), Inr [[1, 2, 3], [4]]) \<and>
          arrived' q1 = rest)"
    using secured_frames_cross_stream [OF drip_works up p l, of "([], [])", where 'q = "bytes \<times> bytes"] by fastforce
  have "stream_works drip_env fst snd \<and> tcp_isOpen drip_env ([], ws @ [9]) \<and> snd ([] :: bytes, ws @ [9]) = ws @ [9] \<and>
      (\<forall>d \<in> set [[1, 2, 3], [4 :: u8]]. length d + 38 \<le> length (replicate 100 (0 :: u8)))" using drip_works up by simp
  from b [of drip_env fst snd "([], ws @ [9])" "[9]" "replicate 100 0", THEN mp, OF this]
  obtain q1 r1 where "stc_receives drip_env (session_security toy_aes) 2 (replicate 100 0) (([], ws @ [9]), sample_codec) =
      ((q1, r1), Inr [[1, 2, 3], [4]])" "snd q1 = [9]" by (auto simp del: stc_receives.simps simp: numeral_2_eq_2)
  with a show ?thesis by blast
qed

end
