(* ===== verification/Secure_Client.thy ===== *)
theory Secure_Client
  imports Secure_Tunnel
begin

text \<open>
  \<open>SecureTunnelingClient\<close> (\<open>src/netip/secure_tunneling_client.cpp\<close>): opening a secure session on a TCP
  connection, connecting a tunnel in it, its keep-alive and its end, and the exchange of cEMI frames. Every
  operation that is begun and polled is modelled with its poll, the blocking variants with fuel for their
  turns.

  Shown: no operation uses a socket or a channel that does not exist, whatever the order of the calls; and the
  whole handshake, from the first call to the open session, against a server that answers it.
\<close>

section \<open>State\<close>

record 'p secure_env =
  se_tcp :: "'p tcp_env"
  se_lib :: crypto_library
  se_aes :: aes_backend

record secure_options =
  sco_host :: ip_address
  sco_port :: u16
  sco_userId :: u8
  sco_password :: bytes
  sco_privateKey :: bytes
  sco_serial :: bytes
  sco_initialSeq :: u64

definition secure_options_init :: secure_options where
  "secure_options_init = \<lparr>sco_host = ip_zero, sco_port = 3671, sco_userId = 1, sco_password = [],
     sco_privateKey = replicate 32 0, sco_serial = replicate 6 0, sco_initialSeq = 1\<rparr>"

datatype open_stage = StageIdle | WaitingSessionResponse | WaitingSessionStatus

record session_open_operation =
  sop_active :: bool
  sop_stage :: open_stage
  sop_startTimeMs :: u32
  sop_timeoutMs :: int
  sop_options :: secure_options
  sop_clientPublicKey :: bytes
  sop_negotiated :: negotiated_session

definition no_session :: negotiated_session where
  "no_session = \<lparr>ng_wrapperKey = replicate 16 0, ng_sessionId = 0, ng_nextSequence = 0\<rparr>"

definition sop_reset :: session_open_operation where
  "sop_reset = \<lparr>sop_active = False, sop_stage = StageIdle, sop_startTimeMs = 0, sop_timeoutMs = 0,
     sop_options = secure_options_init, sop_clientPublicKey = replicate 32 0, sop_negotiated = no_session\<rparr>"

record control_operation =
  cop_active :: bool
  cop_startTimeMs :: u32
  cop_timeoutMs :: int

definition cop_reset :: control_operation where
  "cop_reset = \<lparr>cop_active = False, cop_startTimeMs = 0, cop_timeoutMs = 0\<rparr>"

datatype session_operation_type =
  OpNone | OpOpenSecureSession | OpConnectTunneling | OpConnectionStateRequest | OpDisconnectTunneling

text \<open>\<open>scl_session\<close> is both \<open>security_\<close> and \<open>secureChannel_\<close>, which are made and reset together; the channel
  borrows the security, the secure buffer and the scratch buffer.\<close>

record 'p secure_client =
  scl_env :: 'p
  scl_sock :: bool
  scl_session :: "tunneling_security option"
  scl_open :: session_open_operation
  scl_connect :: control_operation
  scl_connectionState :: control_operation
  scl_disconnect :: control_operation
  scl_channelId :: u8
  scl_seq :: u8
  scl_acks :: "u8 list"
  scl_lastActivityTimeMs :: u32
  scl_callback :: bool
  scl_frameBuffer :: bytes
  scl_scratchBuffer :: bytes
  scl_secureBuffer :: bytes

definition kMaxTcpFrameLen :: nat where "kMaxTcpFrameLen = 4096"

definition scl_new :: "'p \<Rightarrow> 'p secure_client" where
  "scl_new p = \<lparr>scl_env = p, scl_sock = False, scl_session = None, scl_open = sop_reset, scl_connect = cop_reset,
     scl_connectionState = cop_reset, scl_disconnect = cop_reset, scl_channelId = 0, scl_seq = 0, scl_acks = [],
     scl_lastActivityTimeMs = 0, scl_callback = False, scl_frameBuffer = replicate kMaxTcpFrameLen 0,
     scl_scratchBuffer = replicate kMaxTcpFrameLen 0, scl_secureBuffer = replicate (kMaxTcpFrameLen + sw_kOverhead) 0\<rparr>"

text \<open>How a call ends: it returns, it still waits when the fuel is used up, or it has followed a null pointer.\<close>

datatype 'a client_run = Returned 'a | StillWaiting | NullAccess

primrec run_bind :: "'a client_run \<Rightarrow> ('a \<Rightarrow> 'b client_run) \<Rightarrow> 'b client_run" where
  "run_bind (Returned x) f = f x"
| "run_bind StillWaiting f = StillWaiting"
| "run_bind NullAccess f = NullAccess"

section \<open>Channel and frames\<close>

definition scl_isOpen :: "'p secure_env \<Rightarrow> 'p secure_client \<Rightarrow> bool" where
  "scl_isOpen E s \<longleftrightarrow> scl_sock s \<and> tcp_isOpen (se_tcp E) (scl_env s) \<and> scl_session s \<noteq> None"

definition isTunnelingConnected :: "'p secure_env \<Rightarrow> 'p secure_client \<Rightarrow> bool" where
  "isTunnelingConnected E s \<longleftrightarrow> scl_isOpen E s \<and> scl_channelId s \<noteq> 0"

definition hasPendingControlOperation :: "'p secure_client \<Rightarrow> bool" where
  "hasPendingControlOperation s \<longleftrightarrow>
     cop_active (scl_connect s) \<or> cop_active (scl_connectionState s) \<or> cop_active (scl_disconnect s)"

definition activeSessionOperation :: "'p secure_client \<Rightarrow> session_operation_type" where
  "activeSessionOperation s =
     (if sop_active (scl_open s) then OpOpenSecureSession
      else if cop_active (scl_connect s) then OpConnectTunneling
      else if cop_active (scl_connectionState s) then OpConnectionStateRequest
      else if cop_active (scl_disconnect s) then OpDisconnectTunneling
      else OpNone)"

definition scl_resetSession :: "'p secure_client \<Rightarrow> 'p secure_client" where
  "scl_resetSession s = s\<lparr>scl_channelId := 0, scl_seq := 0\<rparr>"

definition scl_now :: "'p secure_env \<Rightarrow> 'p secure_client \<Rightarrow> 'p secure_client \<times> u32" where
  "scl_now E s = (case tcp_nowMs (se_tcp E) (scl_env s) of (p, t) \<Rightarrow> (s\<lparr>scl_env := p\<rparr>, t))"

definition scl_markActivity :: "'p secure_env \<Rightarrow> 'p secure_client \<Rightarrow> 'p secure_client" where
  "scl_markActivity E s = (case scl_now E s of (s1, t) \<Rightarrow> s1\<lparr>scl_lastActivityTimeMs := t\<rparr>)"

text \<open>The operation a \<open>begin\<close> starts.\<close>

definition scl_started :: "'p secure_env \<Rightarrow> int \<Rightarrow> 'p secure_client \<Rightarrow> 'p secure_client \<times> control_operation" where
  "scl_started E timeoutMs s =
     (case scl_now E s of (s1, t) \<Rightarrow> (s1, \<lparr>cop_active = True, cop_startTimeMs = t, cop_timeoutMs = timeoutMs\<rparr>))"

definition scl_codec :: "tunneling_security \<Rightarrow> 'p secure_client \<Rightarrow> tunneling_security packet_codec" where
  "scl_codec k s = \<lparr>pc_security = k, pc_wrapScratch = scl_secureBuffer s, pc_unwrapScratch = scl_scratchBuffer s\<rparr>"

definition scl_put_codec :: "tunneling_security packet_codec \<Rightarrow> 'p secure_client \<Rightarrow> 'p secure_client" where
  "scl_put_codec c s =
     s\<lparr>scl_session := Some (pc_security c), scl_secureBuffer := pc_wrapScratch c, scl_scratchBuffer := pc_unwrapScratch c\<rparr>"

definition scl_sendFrame :: "'p secure_env \<Rightarrow> bytes \<Rightarrow> 'p secure_client \<Rightarrow> 'p secure_client \<times> unit result" where
  "scl_sendFrame E frame s =
     (case scl_session s of
        None \<Rightarrow> (s, Inl NotInitialized)
      | Some k \<Rightarrow>
          (case stc_sendFrame (se_tcp E) (session_security (se_aes E)) frame (scl_env s, scl_codec k s) of
             ((p, c), r) \<Rightarrow> (scl_put_codec c (s\<lparr>scl_env := p\<rparr>), r)))"

text \<open>Receiving into the frame buffer.\<close>

definition scl_receiveFrame :: "'p secure_env \<Rightarrow> 'p secure_client \<Rightarrow> 'p secure_client \<times> nat result" where
  "scl_receiveFrame E s =
     (case scl_session s of
        None \<Rightarrow> (s, Inl NotInitialized)
      | Some k \<Rightarrow>
          (case stc_receiveFrame (se_tcp E) (session_security (se_aes E)) (scl_frameBuffer s) (scl_env s, scl_codec k s) of
             ((p, c), buf, r) \<Rightarrow> (scl_put_codec c (s\<lparr>scl_env := p, scl_frameBuffer := buf\<rparr>), r)))"

text \<open>Encoding into the frame buffer and sending, as every request does.\<close>

definition scl_transmit :: "'p secure_env \<Rightarrow> pw_op \<Rightarrow> 'p secure_client \<Rightarrow> 'p secure_client \<times> unit result" where
  "scl_transmit E encode s =
     (case encode (pw_new (scl_frameBuffer s)) of
        (w, Inl e) \<Rightarrow> (s\<lparr>scl_frameBuffer := pw_buffer w\<rparr>, Inl e)
      | (w, Inr _) \<Rightarrow> scl_sendFrame E (pw_span w) (s\<lparr>scl_frameBuffer := pw_buffer w\<rparr>))"

definition scl_controlEndpoint :: "'p secure_env \<Rightarrow> 'p secure_client \<Rightarrow> hpai_endpoint" where
  "scl_controlEndpoint E s =
     makeTcpControlEndpoint (tcp_localAddress (se_tcp E) (scl_env s)) (tcp_localPort (se_tcp E) (scl_env s))"

section \<open>Control operations\<close>

text \<open>The common part of the three polls: the answer that was awaited, or how far the operation is. The channel
  is used without a check.\<close>

definition scl_awaitStatus ::
  "'p secure_env \<Rightarrow> control_operation \<Rightarrow> u16 \<Rightarrow> 'p secure_client \<Rightarrow> ('p secure_client \<times> (progress result + channel_status)) client_run" where
  "scl_awaitStatus E op expected s =
     (case scl_session s of
        None \<Rightarrow> NullAccess
      | Some _ \<Rightarrow> Returned (
          if \<not> tcp_isOpen (se_tcp E) (scl_env s) then (s, Inl (Inl NotInitialized))
          else if tcp_available (se_tcp E) (scl_env s) = 0
          then (case scl_now E s of (s1, t) \<Rightarrow>
                  (s1, Inl (Inr (if remainingTimeoutMs t (cop_startTimeMs op) (cop_timeoutMs op) \<le> 0 then Timeout else Pending))))
          else case scl_receiveFrame E s of
                 (s1, Inl e) \<Rightarrow> (s1, Inl (Inl e))
               | (s1, Inr n) \<Rightarrow>
                   (s1, case decodeChannelStatusResponse (take n (scl_frameBuffer s1)) expected of
                          Inl e \<Rightarrow> Inl (Inl e) | Inr cs \<Rightarrow> Inr cs)))"

definition beginConnectTunneling :: "'p secure_env \<Rightarrow> int \<Rightarrow> 'p secure_client \<Rightarrow> 'p secure_client \<times> unit result" where
  "beginConnectTunneling E timeoutMs s =
     (if \<not> (scl_sock s \<and> tcp_isOpen (se_tcp E) (scl_env s)) then (s, Inl NotInitialized)
      else if scl_session s = None then (s, Inl NotInitialized)
      else if scl_channelId s \<noteq> 0 then (s, Inr ())
      else if hasPendingControlOperation s then (s, Inl EBusy)
      else let e = scl_controlEndpoint E s in
           case scl_transmit E (encodeConnectionRequest e e kTunnelLayerTp1) s of
             (s1, Inl err) \<Rightarrow> (s1, Inl err)
           | (s1, Inr _) \<Rightarrow> (case scl_started E timeoutMs s1 of (s2, op) \<Rightarrow> (s2\<lparr>scl_connect := op\<rparr>, Inr ())))"

definition pollConnectTunneling :: "'p secure_env \<Rightarrow> 'p secure_client \<Rightarrow> ('p secure_client \<times> progress result) client_run" where
  "pollConnectTunneling E s =
     (if \<not> cop_active (scl_connect s)
      then Returned (s, if isTunnelingConnected E s then Inr Success else Inl OperationNotReady)
      else run_bind (scl_awaitStatus E (scl_connect s) kServiceConnectionResponse s) (\<lambda>(s1, r). Returned (
        case r of
          Inl (Inr Pending) \<Rightarrow> (s1, Inr Pending)
        | Inl p \<Rightarrow> (s1\<lparr>scl_connect := cop_reset\<rparr>, p)
        | Inr cs \<Rightarrow>
            if cs_status cs \<noteq> 0 \<or> cs_channelId cs = 0 then (s1\<lparr>scl_connect := cop_reset\<rparr>, Inl OperationFailed)
            else ((scl_markActivity E (s1\<lparr>scl_channelId := cs_channelId cs, scl_seq := 0\<rparr>))\<lparr>scl_connect := cop_reset\<rparr>, Inr Success))))"

definition beginConnectionStateRequest :: "'p secure_env \<Rightarrow> int \<Rightarrow> 'p secure_client \<Rightarrow> 'p secure_client \<times> unit result" where
  "beginConnectionStateRequest E timeoutMs s =
     (if \<not> isTunnelingConnected E s then (s, Inl NotInitialized)
      else if hasPendingControlOperation s then (s, Inl EBusy)
      else case scl_transmit E (encodeConnectionStateRequest (scl_channelId s) (scl_controlEndpoint E s)) s of
             (s1, Inl err) \<Rightarrow> (s1, Inl err)
           | (s1, Inr _) \<Rightarrow> (case scl_started E timeoutMs s1 of (s2, op) \<Rightarrow> (s2\<lparr>scl_connectionState := op\<rparr>, Inr ())))"

definition pollConnectionStateRequest :: "'p secure_env \<Rightarrow> 'p secure_client \<Rightarrow> ('p secure_client \<times> progress result) client_run" where
  "pollConnectionStateRequest E s =
     (if \<not> cop_active (scl_connectionState s) then Returned (s, Inl OperationNotReady)
      else run_bind (scl_awaitStatus E (scl_connectionState s) kServiceConnectionStateResponse s) (\<lambda>(s1, r). Returned (
        case r of
          Inl (Inr Pending) \<Rightarrow> (s1, Inr Pending)
        | Inl p \<Rightarrow> (s1\<lparr>scl_connectionState := cop_reset\<rparr>, p)
        | Inr cs \<Rightarrow>
            if cs_status cs \<noteq> 0 \<or> cs_channelId cs \<noteq> scl_channelId s1
            then (s1\<lparr>scl_connectionState := cop_reset\<rparr>, Inl OperationFailed)
            else ((scl_markActivity E s1)\<lparr>scl_connectionState := cop_reset\<rparr>, Inr Success))))"

definition scl_sendDisconnect :: "'p secure_env \<Rightarrow> 'p secure_client \<Rightarrow> 'p secure_client \<times> unit result" where
  "scl_sendDisconnect E s =
     (if \<not> isTunnelingConnected E s then (s, Inl NotInitialized)
      else scl_transmit E (encodeDisconnectRequest (scl_channelId s) (scl_controlEndpoint E s)) s)"

definition beginDisconnectTunneling :: "'p secure_env \<Rightarrow> int \<Rightarrow> 'p secure_client \<Rightarrow> 'p secure_client \<times> unit result" where
  "beginDisconnectTunneling E timeoutMs s =
     (if \<not> (scl_sock s \<and> tcp_isOpen (se_tcp E) (scl_env s)) then (s, Inl NotInitialized)
      else if scl_channelId s = 0 then (s, Inr ())
      else if hasPendingControlOperation s then (s, Inl EBusy)
      else case scl_sendDisconnect E s of
             (s1, Inl e) \<Rightarrow> (s1, Inl e)
           | (s1, Inr _) \<Rightarrow>
               if timeoutMs \<le> 0 then (scl_resetSession s1, Inr ())
               else (case scl_started E timeoutMs s1 of (s2, op) \<Rightarrow> (s2\<lparr>scl_disconnect := op\<rparr>, Inr ())))"

definition pollDisconnectTunneling :: "'p secure_env \<Rightarrow> 'p secure_client \<Rightarrow> ('p secure_client \<times> progress result) client_run" where
  "pollDisconnectTunneling E s =
     (if \<not> cop_active (scl_disconnect s)
      then Returned (s, if scl_channelId s = 0 then Inr Success else Inl OperationNotReady)
      else run_bind (scl_awaitStatus E (scl_disconnect s) kServiceDisconnectResponse s) (\<lambda>(s1, r). Returned (
        let s2 = scl_resetSession (s1\<lparr>scl_disconnect := cop_reset\<rparr>) in
        case r of
          Inl (Inr Pending) \<Rightarrow> (s1, Inr Pending)
        | Inl p \<Rightarrow> (s2, p)
        | Inr cs \<Rightarrow> (s2, if cs_status cs \<noteq> 0 \<or> cs_channelId cs \<noteq> scl_channelId s1 then Inl OperationFailed else Inr Success))))"

text \<open>\<open>waitForTerminalProgress\<close>, one turn per unit of fuel.\<close>

fun waitForTerminalProgress ::
  "'p secure_env \<Rightarrow> ('p secure_client \<Rightarrow> ('p secure_client \<times> progress result) client_run) \<Rightarrow> nat \<Rightarrow> 'p secure_client \<Rightarrow>
   ('p secure_client \<times> progress result) client_run" where
  "waitForTerminalProgress E poll 0 s = StillWaiting"
| "waitForTerminalProgress E poll (Suc n) s =
     run_bind (poll s) (\<lambda>(s1, r).
       case r of
         Inl e \<Rightarrow> Returned (s1, Inl e)
       | Inr p \<Rightarrow> if \<not> isDeferredProgress p then Returned (s1, Inr p)
                  else waitForTerminalProgress E poll n (s1\<lparr>scl_env := tcp_delay (se_tcp E) 1 (scl_env s1)\<rparr>))"

definition scl_blocking ::
  "'p secure_env \<Rightarrow> ('p secure_client \<Rightarrow> ('p secure_client \<times> progress result) client_run) \<Rightarrow> nat \<Rightarrow> 'p secure_client \<times> unit result \<Rightarrow>
   ('p secure_client \<times> unit result) client_run" where
  "scl_blocking E poll fuel begun =
     (case begun of
        (s1, Inl e) \<Rightarrow> Returned (s1, Inl e)
      | (s1, Inr _) \<Rightarrow>
          run_bind (waitForTerminalProgress E poll fuel s1) (\<lambda>(s2, r).
            Returned (s2, case r of Inl e \<Rightarrow> Inl e | Inr p \<Rightarrow> completionResult p)))"

definition connectTunneling :: "'p secure_env \<Rightarrow> nat \<Rightarrow> int \<Rightarrow> 'p secure_client \<Rightarrow> ('p secure_client \<times> unit result) client_run" where
  "connectTunneling E fuel timeoutMs s = scl_blocking E (pollConnectTunneling E) fuel (beginConnectTunneling E timeoutMs s)"

definition scl_sendConnectionStateRequest :: "'p secure_env \<Rightarrow> nat \<Rightarrow> int \<Rightarrow> 'p secure_client \<Rightarrow> ('p secure_client \<times> unit result) client_run" where
  "scl_sendConnectionStateRequest E fuel timeoutMs s =
     scl_blocking E (pollConnectionStateRequest E) fuel (beginConnectionStateRequest E timeoutMs s)"

definition disconnectTunneling :: "'p secure_env \<Rightarrow> nat \<Rightarrow> int \<Rightarrow> 'p secure_client \<Rightarrow> ('p secure_client \<times> unit result) client_run" where
  "disconnectTunneling E fuel timeoutMs s =
     (case beginDisconnectTunneling E timeoutMs s of
        (s1, Inl e) \<Rightarrow> Returned (s1, Inl e)
      | (s1, Inr _) \<Rightarrow>
          if timeoutMs \<le> 0 \<or> \<not> cop_active (scl_disconnect s1) then Returned (s1, Inr ())
          else run_bind (waitForTerminalProgress E (pollDisconnectTunneling E) fuel s1) (\<lambda>(s2, r).
                 Returned (s2, case r of Inl e \<Rightarrow> Inl e | Inr Timeout \<Rightarrow> Inr () | Inr p \<Rightarrow> completionResult p)))"

section \<open>Opening and closing\<close>

definition scl_cleared :: "'p secure_client \<Rightarrow> 'p secure_client" where
  "scl_cleared s = s\<lparr>scl_session := None, scl_open := sop_reset, scl_connect := cop_reset, scl_connectionState := cop_reset,
     scl_disconnect := cop_reset, scl_channelId := 0, scl_seq := 0, scl_lastActivityTimeMs := 0\<rparr>"

definition scl_close :: "'p secure_env \<Rightarrow> nat \<Rightarrow> 'p secure_client \<Rightarrow> 'p secure_client client_run" where
  "scl_close E fuel s =
     (if scl_sock s
      then run_bind (disconnectTunneling E fuel 200 s) (\<lambda>(s1, _).
             Returned (scl_cleared (s1\<lparr>scl_env := tcp_close (se_tcp E) (scl_env s1), scl_sock := False\<rparr>)))
      else Returned (scl_cleared s))"

definition scl_fail :: "'p secure_env \<Rightarrow> nat \<Rightarrow> 'a result \<Rightarrow> 'p secure_client \<Rightarrow> ('p secure_client \<times> 'a result) client_run" where
  "scl_fail E fuel r s = run_bind (scl_close E fuel s) (\<lambda>s1. Returned (s1, r))"

definition scl_beginOpen ::
  "'p secure_env \<Rightarrow> nat \<Rightarrow> secure_options \<Rightarrow> int \<Rightarrow> 'p secure_client \<Rightarrow> ('p secure_client \<times> unit result) client_run" where
  "scl_beginOpen E fuel opts timeoutMs s0 =
     run_bind (scl_close E fuel s0) (\<lambda>s.
       if ip_isZero (sco_host opts) then Returned (s, Inl InvalidParameter)
       else if sco_port opts = 0 then Returned (s, Inl InvalidParameter)
       else if sco_password opts = [] then Returned (s, Inl InvalidParameter)
       else if \<forall>b \<in> set (sco_privateKey opts). b = 0 then Returned (s, Inl InvalidParameter)
       else case tcp_create (se_tcp E) (scl_env s) of
         (p1, False) \<Rightarrow> Returned (s\<lparr>scl_env := p1\<rparr>, Inl ResourceUnavailable)
       | (p1, True) \<Rightarrow>
           (case tcp_connect (se_tcp E) (sco_host opts) (sco_port opts) p1 of
              (p2, Inl e) \<Rightarrow> Returned (s\<lparr>scl_env := p2\<rparr>, Inl e)
            | (p2, Inr _) \<Rightarrow>
                (let s1 = s\<lparr>scl_env := p2, scl_sock := True\<rparr> in
                 case deriveClientPublicKey (se_lib E) (sco_privateKey opts) of
                   Inl e \<Rightarrow> scl_fail E fuel (Inl e) s1
                 | Inr pub \<Rightarrow>
                     (case tcp_sendFrame (se_tcp E) (encodeSessionRequest pub) p2 of
                        (p3, Inl e) \<Rightarrow> scl_fail E fuel (Inl e) (s1\<lparr>scl_env := p3\<rparr>)
                      | (p3, Inr _) \<Rightarrow>
                          (case scl_now E (s1\<lparr>scl_env := p3\<rparr>) of (s2, t) \<Rightarrow>
                             Returned (s2\<lparr>scl_open := \<lparr>sop_active = True, sop_stage = WaitingSessionResponse, sop_startTimeMs = t,
                                sop_timeoutMs = timeoutMs, sop_options = opts, sop_clientPublicKey = pub,
                                sop_negotiated = no_session\<rparr>\<rparr>, Inr ()))))))"

definition scl_onResponse :: "'p secure_env \<Rightarrow> nat \<Rightarrow> 'p secure_client \<Rightarrow> ('p secure_client \<times> progress result) client_run" where
  "scl_onResponse E fuel s =
     (let op = scl_open s in
      case tcp_receiveFrame (se_tcp E) (scl_frameBuffer s) (scl_env s) of
        (p, buf, Inl e) \<Rightarrow> scl_fail E fuel (Inl e) (s\<lparr>scl_env := p, scl_frameBuffer := buf\<rparr>)
      | (p, buf, Inr n) \<Rightarrow>
          (let s1 = s\<lparr>scl_env := p, scl_frameBuffer := buf\<rparr> in
           case buildAuthenticateRequest (se_lib E) (se_aes E) (sco_privateKey (sop_options op)) (sco_password (sop_options op))
                  (sco_userId (sop_options op)) (sco_serial (sop_options op)) (sco_initialSeq (sop_options op))
                  (sop_clientPublicKey op) (take n buf) (scl_secureBuffer s1) of
             (sec, Inl e) \<Rightarrow> scl_fail E fuel (Inl e) (s1\<lparr>scl_secureBuffer := sec\<rparr>)
           | (sec, Inr request) \<Rightarrow>
               (let s2 = s1\<lparr>scl_secureBuffer := sec, scl_open := op\<lparr>sop_negotiated := ar_session request\<rparr>\<rparr> in
                case tcp_sendFrame (se_tcp E) (take (ar_wrappedFrameLength request) sec) (scl_env s2) of
                  (p2, Inl e) \<Rightarrow> scl_fail E fuel (Inl e) (s2\<lparr>scl_env := p2\<rparr>)
                | (p2, Inr _) \<Rightarrow>
                    Returned (s2\<lparr>scl_env := p2, scl_open := (scl_open s2)\<lparr>sop_stage := WaitingSessionStatus\<rparr>\<rparr>, Inr Pending))))"

definition scl_onStatus :: "'p secure_env \<Rightarrow> nat \<Rightarrow> 'p secure_client \<Rightarrow> ('p secure_client \<times> progress result) client_run" where
  "scl_onStatus E fuel s =
     (let ng = sop_negotiated (scl_open s) in
      case tcp_receiveFrame (se_tcp E) (scl_frameBuffer s) (scl_env s) of
        (p, buf, Inl e) \<Rightarrow> scl_fail E fuel (Inl e) (s\<lparr>scl_env := p, scl_frameBuffer := buf\<rparr>)
      | (p, buf, Inr n) \<Rightarrow>
          (let s1 = s\<lparr>scl_env := p, scl_frameBuffer := buf\<rparr> in
           case sb_decodeSessionStatus (se_aes E) (ng_wrapperKey ng) (ng_sessionId ng) (take n buf) (scl_scratchBuffer s1) of
             (scratch, Inl e) \<Rightarrow> scl_fail E fuel (Inl e) (s1\<lparr>scl_scratchBuffer := scratch\<rparr>)
           | (scratch, Inr status) \<Rightarrow>
               (let s2 = s1\<lparr>scl_scratchBuffer := scratch\<rparr> in
                if status \<noteq> 0 then scl_fail E fuel (Inl OperationFailed) s2
                else let s3 = s2\<lparr>scl_session := Some (sts_new (ng_wrapperKey ng) (ng_sessionId ng)
                                                         (sco_serial (sop_options (scl_open s2))) (ng_nextSequence ng))\<rparr>
                     in Returned ((scl_markActivity E (scl_resetSession s3))\<lparr>scl_open := sop_reset\<rparr>, Inr Success))))"

definition scl_pollOpen :: "'p secure_env \<Rightarrow> nat \<Rightarrow> 'p secure_client \<Rightarrow> ('p secure_client \<times> progress result) client_run" where
  "scl_pollOpen E fuel s =
     (if \<not> sop_active (scl_open s) then Returned (s, if scl_isOpen E s then Inr Success else Inl OperationNotReady)
      else if \<not> scl_sock s then NullAccess
      else if \<not> tcp_isOpen (se_tcp E) (scl_env s) then scl_fail E fuel (Inl NotInitialized) s
      else if tcp_available (se_tcp E) (scl_env s) = 0
      then (case scl_now E s of (s1, t) \<Rightarrow>
              if remainingTimeoutMs t (sop_startTimeMs (scl_open s)) (sop_timeoutMs (scl_open s)) \<le> 0
              then scl_fail E fuel (Inr Timeout) s1 else Returned (s1, Inr Pending))
      else if sop_stage (scl_open s) = WaitingSessionResponse then scl_onResponse E fuel s
      else scl_onStatus E fuel s)"

definition scl_openSession :: "'p secure_env \<Rightarrow> nat \<Rightarrow> secure_options \<Rightarrow> 'p secure_client \<Rightarrow> ('p secure_client \<times> unit result) client_run" where
  "scl_openSession E fuel opts s =
     run_bind (scl_beginOpen E fuel opts 1000 s) (scl_blocking E (scl_pollOpen E fuel) fuel)"

section \<open>Frames in the tunnel\<close>

definition scl_sendTunnelingRequest :: "'p secure_env \<Rightarrow> bytes \<Rightarrow> 'p secure_client \<Rightarrow> 'p secure_client \<times> unit result" where
  "scl_sendTunnelingRequest E cemi s =
     (if \<not> isTunnelingConnected E s then (s, Inl NotInitialized)
      else case scl_transmit E (encodeTunnelingRequest (scl_channelId s) (scl_seq s) cemi) s of
             (s1, Inl e) \<Rightarrow> (s1, Inl e)
           | (s1, Inr _) \<Rightarrow> (scl_markActivity E (s1\<lparr>scl_seq := scl_seq s1 + 1\<rparr>), Inr ()))"

text \<open>The part of \<open>receiveOnce_\<close> behind the reception of a frame of \<open>n\<close> octets.\<close>

definition scl_handleFrame :: "'p secure_env \<Rightarrow> nat \<Rightarrow> 'p secure_client \<Rightarrow> 'p secure_client \<times> bool result \<times> bytes list" where
  "scl_handleFrame E n s =
     (let frame = take n (scl_frameBuffer s) in
      case decodeHeader frame of
        Inl e \<Rightarrow> (s, Inl e, [])
      | Inr h \<Rightarrow>
          let s1 = (if isActivityServiceType (serviceType h) then scl_markActivity E s else s);
              s2 = s1\<lparr>scl_acks := inbound_acks frame (serviceType h) (scl_channelId s1) (scl_acks s1)\<rparr>
          in case inbound_request frame (serviceType h) (scl_channelId s1) of
               None \<Rightarrow> (s2, Inr True, [])
             | Some req \<Rightarrow>
                 (case encodeTunnelingAck (scl_channelId s2) (tr_sequence req) 0x00 (pw_new (scl_scratchBuffer s2)) of
                    (w, Inl _) \<Rightarrow> (s2\<lparr>scl_scratchBuffer := pw_buffer w\<rparr>, Inr True, if scl_callback s2 then [tr_cemi req] else [])
                  | (w, Inr _) \<Rightarrow> (fst (scl_sendFrame E (pw_span w) (s2\<lparr>scl_scratchBuffer := pw_buffer w\<rparr>)), Inr True,
                                   if scl_callback s2 then [tr_cemi req] else [])))"

definition scl_receiveOnce :: "'p secure_env \<Rightarrow> nat \<Rightarrow> int \<Rightarrow> 'p secure_client \<Rightarrow> ('p secure_client \<times> bool result \<times> bytes list) client_run" where
  "scl_receiveOnce E fuel timeoutMs s =
     (if \<not> isTunnelingConnected E s then Returned (s, Inl NotInitialized, [])
      else case tcp_waitReadable (se_tcp E) fuel timeoutMs (scl_env s) of
             None \<Rightarrow> StillWaiting
           | Some (p, Inl e) \<Rightarrow> Returned (s\<lparr>scl_env := p\<rparr>, Inl e, [])
           | Some (p, Inr False) \<Rightarrow> Returned (s\<lparr>scl_env := p\<rparr>, Inr False, [])
           | Some (p, Inr True) \<Rightarrow>
               (case scl_receiveFrame E (s\<lparr>scl_env := p\<rparr>) of
                  (s1, Inl e) \<Rightarrow> Returned (s1, Inl e, [])
                | (s1, Inr n) \<Rightarrow> Returned (scl_handleFrame E n s1)))"

definition scl_poll :: "'p secure_env \<Rightarrow> nat \<Rightarrow> int \<Rightarrow> 'p secure_client \<Rightarrow> ('p secure_client \<times> bool result \<times> bytes list) client_run" where
  "scl_poll E fuel timeoutMs s =
     (if \<not> isTunnelingConnected E s then Returned (s, Inl NotInitialized, []) else scl_receiveOnce E fuel timeoutMs s)"

definition acquireDeviceManagementConnectionHeader :: "'p secure_env \<Rightarrow> 'p secure_client \<Rightarrow> 'p secure_client \<times> (u8 \<times> u8) result" where
  "acquireDeviceManagementConnectionHeader E s =
     (if \<not> isTunnelingConnected E s then (s, Inl NotInitialized)
      else (s\<lparr>scl_seq := scl_seq s + 1\<rparr>, Inr (scl_channelId s, scl_seq s)))"

definition scl_consume :: "u8 \<Rightarrow> 'p secure_client \<Rightarrow> 'p secure_client \<times> bool" where
  "scl_consume sq s = (case ack_consume (scl_acks s) sq of (acks, b) \<Rightarrow> (s\<lparr>scl_acks := acks\<rparr>, b))"

fun scl_ack_loop ::
  "'p secure_env \<Rightarrow> nat \<Rightarrow> u8 \<Rightarrow> u32 \<Rightarrow> int \<Rightarrow> 'p secure_client \<Rightarrow> ('p secure_client \<times> unit result \<times> bytes list) client_run" where
  "scl_ack_loop E fuel sq startMs timeoutMs s =
     (case scl_now E s of (s1, now) \<Rightarrow>
        let elapsed = now - startMs in
        if elapsed \<ge> of_int timeoutMs then Returned (s1, Inl ETimeout, [])
        else run_bind (scl_receiveOnce E fuel (sint (of_int timeoutMs - elapsed)) s1) (\<lambda>(s2, _, ev).
               case scl_consume sq s2 of
                 (s3, True) \<Rightarrow> Returned (s3, Inr (), ev)
               | (s3, False) \<Rightarrow>
                   (case fuel of
                      0 \<Rightarrow> StillWaiting
                    | Suc n \<Rightarrow> run_bind (scl_ack_loop E n sq startMs timeoutMs s3) (\<lambda>(s4, r, evs). Returned (s4, r, ev @ evs)))))"

declare scl_ack_loop.simps [simp del]

definition scl_sendCemi ::
  "'p secure_env \<Rightarrow> nat \<Rightarrow> bytes \<Rightarrow> bool \<Rightarrow> int \<Rightarrow> 'p secure_client \<Rightarrow> ('p secure_client \<times> unit result \<times> bytes list) client_run" where
  "scl_sendCemi E fuel cemi waitAck timeoutMs s =
     (if \<not> isTunnelingConnected E s then Returned (s, Inl NotInitialized, [])
      else case scl_sendTunnelingRequest E cemi s of
             (s1, Inl e) \<Rightarrow> Returned (s1, Inl e, [])
           | (s1, Inr _) \<Rightarrow>
               if \<not> waitAck then Returned (s1, Inr (), [])
               else case scl_consume (scl_seq s) s1 of
                      (s2, True) \<Rightarrow> Returned (s2, Inr (), [])
                    | (s2, False) \<Rightarrow> (case scl_now E s2 of (s3, t) \<Rightarrow> scl_ack_loop E fuel (scl_seq s) t timeoutMs s3))"

section \<open>No null pointer\<close>

text \<open>The pointers that exist: without a channel there is neither a tunnel nor a control operation, and without
  a socket neither a channel nor an opening session.\<close>

definition scl_inv :: "'p secure_client \<Rightarrow> bool" where
  "scl_inv s \<longleftrightarrow> (scl_session s = None \<longrightarrow> scl_channelId s = 0 \<and> \<not> hasPendingControlOperation s) \<and>
     (\<not> scl_sock s \<longrightarrow> scl_session s = None \<and> \<not> sop_active (scl_open s))"

definition keeps :: "('p secure_client \<times> 'a) client_run \<Rightarrow> bool" where
  "keeps r \<longleftrightarrow> r \<noteq> NullAccess \<and> (\<forall>s x. r = Returned (s, x) \<longrightarrow> scl_inv s)"

text \<open>What sending, receiving and reading the clock leave alone.\<close>

definition same_shape :: "'p secure_client \<Rightarrow> 'p secure_client \<Rightarrow> bool" where
  "same_shape s s' \<longleftrightarrow> scl_sock s' = scl_sock s \<and> (scl_session s' = None \<longleftrightarrow> scl_session s = None) \<and> scl_channelId s' = scl_channelId s \<and>
     scl_connect s' = scl_connect s \<and> scl_connectionState s' = scl_connectionState s \<and> scl_disconnect s' = scl_disconnect s \<and> scl_open s' = scl_open s"

lemma same_shape_refl [simp]: "same_shape s s" by (simp add: same_shape_def)

lemma same_shape_trans: "same_shape s t \<Longrightarrow> same_shape t u \<Longrightarrow> same_shape s u" by (simp add: same_shape_def)

lemma same_shape_inv: "same_shape s s' \<Longrightarrow> scl_inv s \<Longrightarrow> scl_inv s'"
  by (simp add: same_shape_def scl_inv_def hasPendingControlOperation_def)

lemma shape_now: "same_shape s (fst (scl_now E s))" "same_shape s (scl_markActivity E s)" "same_shape s (fst (scl_started E t s))"
  by (auto simp: scl_now_def scl_markActivity_def scl_started_def same_shape_def split: prod.splits)

lemma shape_send: "same_shape s (fst (scl_sendFrame E frame s))"
  by (auto simp: scl_sendFrame_def scl_put_codec_def same_shape_def split: option.splits prod.splits)

lemma shape_receive: "same_shape s (fst (scl_receiveFrame E s))"
  by (auto simp: scl_receiveFrame_def scl_put_codec_def same_shape_def split: option.splits prod.splits)

lemma shape_transmit: "same_shape s (fst (scl_transmit E enc s))"
proof -
  have "same_shape s (s\<lparr>scl_frameBuffer := b\<rparr>)" for b by (simp add: same_shape_def)
  then show ?thesis by (auto simp: scl_transmit_def intro: same_shape_trans [OF _ shape_send] split: prod.splits sum.splits)
qed

lemma shape_await:
  assumes "scl_session s \<noteq> None"
  shows "\<exists>s1 r. scl_awaitStatus E op service s = Returned (s1, r) \<and> same_shape s s1"
proof -
  have a: "same_shape s s1" if "scl_now E s = (s1, t)" for s1 t using shape_now(1) [of s E] that by simp
  have b: "same_shape s s1" if "scl_receiveFrame E s = (s1, r)" for s1 r using shape_receive [of s E] that by simp
  show ?thesis using assms a b by (auto simp: scl_awaitStatus_def split: prod.splits sum.splits)
qed

lemma keeps_Returned [simp]: "keeps (Returned (s, x)) \<longleftrightarrow> scl_inv s" "keeps StillWaiting" "\<not> keeps NullAccess"
  by (simp_all add: keeps_def)

lemma keeps_bind:
  assumes "keeps r" "\<And>s x. scl_inv s \<Longrightarrow> keeps (f (s, x))"
  shows "keeps (run_bind r f)"
proof (cases r)
  case (Returned a)
  obtain s x where "a = (s, x)" by (cases a)
  then show ?thesis using Returned assms by simp
qed (use assms(1) in simp_all)

text \<open>With a channel and a socket every pointer exists.\<close>

definition scl_live :: "'p secure_client \<Rightarrow> bool" where
  "scl_live s \<longleftrightarrow> scl_sock s \<and> scl_session s \<noteq> None"

lemma live_inv: "scl_live s \<Longrightarrow> scl_inv s" by (auto simp: scl_live_def scl_inv_def)

lemma live_simps [simp]:
  "scl_live (s\<lparr>scl_connect := c\<rparr>) = scl_live s" "scl_live (s\<lparr>scl_connectionState := c\<rparr>) = scl_live s"
  "scl_live (s\<lparr>scl_disconnect := c\<rparr>) = scl_live s" "scl_live (s\<lparr>scl_channelId := ch\<rparr>) = scl_live s"
  "scl_live (s\<lparr>scl_seq := q\<rparr>) = scl_live s" "scl_live (s\<lparr>scl_env := p\<rparr>) = scl_live s" "scl_live (s\<lparr>scl_acks := a\<rparr>) = scl_live s"
  "scl_live (s\<lparr>scl_scratchBuffer := b\<rparr>) = scl_live s" "scl_live (s\<lparr>scl_open := o1\<rparr>) = scl_live s"
  "scl_live (scl_resetSession s) = scl_live s" "scl_live (scl_markActivity E s) = scl_live s"
  using shape_now(2) [of s E] by (auto simp: scl_live_def scl_resetSession_def same_shape_def)

lemma live_shape: "same_shape s t \<Longrightarrow> scl_live t = scl_live s"
  by (auto simp: scl_live_def same_shape_def)

lemma live_steps [simp]:
  "scl_transmit E enc s = (s1, r) \<Longrightarrow> scl_live s1 = scl_live s"
  "scl_started E t s = (s1, op) \<Longrightarrow> scl_live s1 = scl_live s"
  "scl_now E s = (s1, now) \<Longrightarrow> scl_live s1 = scl_live s"
  "scl_receiveFrame E s = (s1, n) \<Longrightarrow> scl_live s1 = scl_live s"
  "scl_live (fst (scl_sendFrame E frame s)) = scl_live s"
  using live_shape [OF shape_transmit [of s E enc]] live_shape [OF shape_now(3) [of s E t]] live_shape [OF shape_now(1) [of s E]]
    live_shape [OF shape_receive [of s E]] live_shape [OF shape_send [of s E frame]] by simp_all

lemma connected_live: "isTunnelingConnected E s \<Longrightarrow> scl_live s"
  by (simp add: isTunnelingConnected_def scl_isOpen_def scl_live_def)

lemma pending_live: "scl_inv s \<Longrightarrow> hasPendingControlOperation s \<Longrightarrow> scl_live s"
  by (auto simp: scl_inv_def scl_live_def)

lemma begin_keeps:
  assumes "scl_inv s"
  shows "scl_inv (fst (beginConnectTunneling E t s))" "scl_inv (fst (beginConnectionStateRequest E t s))"
    "scl_inv (fst (beginDisconnectTunneling E t s))"
proof -
  have l: "scl_live s" if "scl_sock s" "scl_session s \<noteq> None" using that by (simp add: scl_live_def)
  show "scl_inv (fst (beginConnectTunneling E t s))"
    using assms l by (auto simp: beginConnectTunneling_def Let_def intro!: live_inv split: prod.splits sum.splits)
  show "scl_inv (fst (beginConnectionStateRequest E t s))"
    using assms connected_live by (auto simp: beginConnectionStateRequest_def intro!: live_inv split: prod.splits sum.splits)
  show "scl_inv (fst (beginDisconnectTunneling E t s))"
    using assms connected_live
    by (auto simp: beginDisconnectTunneling_def scl_sendDisconnect_def intro!: live_inv split: prod.splits sum.splits)
qed

lemma await_live:
  assumes "scl_live s"
  obtains s1 r where "scl_awaitStatus E op service s = Returned (s1, r)" "scl_live s1"
proof -
  have "scl_session s \<noteq> None" using assms by (simp add: scl_live_def)
  from shape_await [OF this, of E op service] obtain s1 r where "scl_awaitStatus E op service s = Returned (s1, r)" "same_shape s s1" by blast
  with that [of s1 r] live_shape [of s s1] assms show ?thesis by simp
qed

lemma poll_keeps:
  assumes "scl_inv s"
  shows "keeps (pollConnectTunneling E s)" "keeps (pollConnectionStateRequest E s)" "keeps (pollDisconnectTunneling E s)"
proof -
  have l: "scl_live s" if "cop_active (scl_connect s) \<or> cop_active (scl_connectionState s) \<or> cop_active (scl_disconnect s)"
    using pending_live [OF assms] that by (simp add: hasPendingControlOperation_def)
  show "keeps (pollConnectTunneling E s)"
  proof (cases "cop_active (scl_connect s)")
    case True
    with l obtain s1 r where "scl_awaitStatus E (scl_connect s) kServiceConnectionResponse s = Returned (s1, r)" "scl_live s1"
      using await_live by blast
    with True show ?thesis by (auto simp: pollConnectTunneling_def intro!: live_inv split: sum.splits progress.splits)
  qed (simp add: pollConnectTunneling_def assms)
  show "keeps (pollConnectionStateRequest E s)"
  proof (cases "cop_active (scl_connectionState s)")
    case True
    with l obtain s1 r where "scl_awaitStatus E (scl_connectionState s) kServiceConnectionStateResponse s = Returned (s1, r)" "scl_live s1"
      using await_live by blast
    with True show ?thesis by (auto simp: pollConnectionStateRequest_def intro!: live_inv split: sum.splits progress.splits)
  qed (simp add: pollConnectionStateRequest_def assms)
  show "keeps (pollDisconnectTunneling E s)"
  proof (cases "cop_active (scl_disconnect s)")
    case True
    with l obtain s1 r where "scl_awaitStatus E (scl_disconnect s) kServiceDisconnectResponse s = Returned (s1, r)" "scl_live s1"
      using await_live by blast
    with True show ?thesis by (auto simp: pollDisconnectTunneling_def Let_def intro!: live_inv split: sum.splits progress.splits)
  qed (simp add: pollDisconnectTunneling_def assms)
qed

lemma delay_inv: "scl_inv s \<Longrightarrow> scl_inv (s\<lparr>scl_env := p\<rparr>)"
  by (simp add: scl_inv_def hasPendingControlOperation_def)

lemma terminal_keeps:
  assumes "\<And>s. scl_inv s \<Longrightarrow> keeps (poll s)" "scl_inv s"
  shows "keeps (waitForTerminalProgress E poll n s)"
  using assms(2)
proof (induction n arbitrary: s)
  case (Suc n)
  then show ?case
    unfolding waitForTerminalProgress.simps
    by (intro keeps_bind assms(1)) (auto intro!: Suc.IH delay_inv split: sum.split)
qed simp

lemma blocking_keeps:
  assumes "\<And>s. scl_inv s \<Longrightarrow> keeps (poll s)" "scl_inv (fst begun)"
  shows "keeps (scl_blocking E poll fuel begun)"
proof (cases begun)
  case (Pair s r)
  with assms terminal_keeps [OF assms(1), where s = s and E = E and n = fuel] show ?thesis
    by (cases r) (auto simp: scl_blocking_def intro!: keeps_bind)
qed

lemma disconnect_keeps:
  assumes "scl_inv s"
  shows "keeps (disconnectTunneling E fuel t s)"
proof (cases "beginDisconnectTunneling E t s")
  case (Pair s1 r)
  then have "scl_inv s1" using begin_keeps(3) [OF assms, of E t] by simp
  with Pair terminal_keeps [of "pollDisconnectTunneling E" s1 E fuel, OF poll_keeps(3)] show ?thesis
    by (cases r) (auto simp: disconnectTunneling_def intro!: keeps_bind split: sum.split)
qed

lemma cleared_inv [simp]: "scl_inv (scl_cleared s)"
  by (simp add: scl_inv_def scl_cleared_def hasPendingControlOperation_def sop_reset_def cop_reset_def)

text \<open>Closing leaves neither socket nor channel.\<close>

lemma close_result:
  assumes "scl_inv s"
  shows "scl_close E fuel s \<noteq> NullAccess" "scl_close E fuel s = Returned s' \<Longrightarrow> scl_inv s' \<and> \<not> scl_sock s' \<and> scl_session s' = None"
proof -
  have k: "keeps (disconnectTunneling E fuel 200 s)" by (rule disconnect_keeps [OF assms])
  show "scl_close E fuel s \<noteq> NullAccess"
    using k by (cases "disconnectTunneling E fuel 200 s") (auto simp: scl_close_def)
  assume "scl_close E fuel s = Returned s'"
  then have "\<exists>t. s' = scl_cleared t \<and> \<not> scl_sock t"
    by (cases "disconnectTunneling E fuel 200 s") (auto simp: scl_close_def split: if_splits)
  then show "scl_inv s' \<and> \<not> scl_sock s' \<and> scl_session s' = None"
    by (auto simp: scl_cleared_def scl_inv_def hasPendingControlOperation_def sop_reset_def cop_reset_def)
qed

lemma fail_keeps: "scl_inv s \<Longrightarrow> keeps (scl_fail E fuel r s)"
  using close_result [of s E fuel] by (cases "scl_close E fuel s") (auto simp: scl_fail_def)

lemma opening_inv: "scl_sock s \<Longrightarrow> scl_channelId s = 0 \<Longrightarrow> \<not> hasPendingControlOperation s \<Longrightarrow> scl_inv s"
  by (simp add: scl_inv_def)

lemma idle_inv: "scl_inv s \<Longrightarrow> scl_session s = None \<Longrightarrow> scl_channelId s = 0 \<and> \<not> hasPendingControlOperation s"
  by (simp add: scl_inv_def)

text \<open>Setting the fields the opening uses keeps the invariant on a client with a socket.\<close>

lemma open_fields_inv [simp]:
  "scl_inv (s\<lparr>scl_env := p\<rparr>) = scl_inv s" "scl_inv (s\<lparr>scl_frameBuffer := b\<rparr>) = scl_inv s"
  "scl_inv (s\<lparr>scl_secureBuffer := b\<rparr>) = scl_inv s" "scl_inv (s\<lparr>scl_scratchBuffer := b\<rparr>) = scl_inv s"
  "scl_sock s \<Longrightarrow> scl_inv (s\<lparr>scl_open := o1\<rparr>) = scl_inv s" "scl_inv (s\<lparr>scl_env := p, scl_sock := b1\<rparr>) = scl_inv (s\<lparr>scl_sock := b1\<rparr>)"
  by (simp_all add: scl_inv_def hasPendingControlOperation_def)

lemma now_inv [simp]: "scl_now E s = (s1, t) \<Longrightarrow> scl_inv s1 = scl_inv s" "scl_now E s = (s1, t) \<Longrightarrow> scl_sock s1 = scl_sock s"
  by (auto simp: scl_now_def split: prod.splits)

lemma beginOpen_keeps:
  assumes "scl_inv s0"
  shows "keeps (scl_beginOpen E fuel opts t s0)"
proof (cases "scl_close E fuel s0")
  case (Returned s)
  with close_result(2) [OF assms] have s: "scl_inv s" "scl_channelId s = 0" "\<not> hasPendingControlOperation s"
    using idle_inv by blast+
  then have "scl_inv (s\<lparr>scl_sock := True\<rparr>)"
    by (intro opening_inv) (simp_all add: hasPendingControlOperation_def)
  with s(1) Returned show ?thesis
    by (auto simp: scl_beginOpen_def Let_def intro!: fail_keeps split: prod.splits bool.splits sum.splits)
qed (use close_result(1) [OF assms, of E fuel] in \<open>simp_all add: scl_beginOpen_def\<close>)

lemma onResponse_keeps:
  assumes "scl_inv s" "scl_sock s"
  shows "keeps (scl_onResponse E fuel s)"
  using assms unfolding scl_onResponse_def Let_def
  by (auto intro!: fail_keeps split: prod.splits sum.splits)

lemma onStatus_keeps:
  assumes "scl_inv s" "scl_sock s"
  shows "keeps (scl_onStatus E fuel s)"
proof -
  have "scl_inv ((scl_markActivity E (scl_resetSession (t\<lparr>scl_session := Some k\<rparr>)))\<lparr>scl_open := sop_reset\<rparr>)" if "scl_sock t" for t k
    by (rule live_inv) (use that in \<open>simp add: scl_live_def [of "t\<lparr>scl_session := Some k\<rparr>"]\<close>)
  then show ?thesis using assms unfolding scl_onStatus_def Let_def
    by (auto intro!: fail_keeps split: prod.splits sum.splits simp del: open_fields_inv(5))
qed

lemma pollOpen_keeps:
  assumes "scl_inv s"
  shows "keeps (scl_pollOpen E fuel s)"
proof (cases "sop_active (scl_open s)")
  case True
  with assms have "scl_sock s" by (auto simp: scl_inv_def)
  with True assms show ?thesis
    by (auto simp: scl_pollOpen_def intro!: fail_keeps onResponse_keeps onStatus_keeps split: prod.splits)
qed (simp add: scl_pollOpen_def assms)

lemma openSession_keeps: "scl_inv s \<Longrightarrow> keeps (scl_openSession E fuel opts s)"
  unfolding scl_openSession_def
  by (intro keeps_bind beginOpen_keeps blocking_keeps pollOpen_keeps) simp_all

lemma handleFrame_live: "scl_live s \<Longrightarrow> scl_live (fst (scl_handleFrame E n s))"
  by (auto simp: scl_handleFrame_def Let_def split: prod.splits sum.splits option.splits)

lemma receiveOnce_keeps:
  assumes "scl_inv s"
  shows "keeps (scl_receiveOnce E fuel t s)"
proof -
  have h: "scl_inv s2" if "scl_handleFrame E n s1 = (s2, r)" "scl_live s1" for n s1 s2 r
    using handleFrame_live [of s1 E n] that live_inv by fastforce
  show ?thesis using assms connected_live [of E s] h
    by (auto simp: scl_receiveOnce_def keeps_def intro: live_inv split: option.splits prod.splits sum.splits bool.splits)
qed

lemma sendRequest_keeps: "scl_inv s \<Longrightarrow> scl_inv (fst (scl_sendTunnelingRequest E cemi s))"
  using connected_live [of E s] by (auto simp: scl_sendTunnelingRequest_def intro!: live_inv split: prod.splits sum.splits)

lemma consume_inv [simp]: "scl_inv (fst (scl_consume sq s)) = scl_inv s"
  by (simp add: scl_consume_def scl_inv_def hasPendingControlOperation_def split: prod.splits)

lemma ack_loop_keeps: "scl_inv s \<Longrightarrow> keeps (scl_ack_loop E fuel sq start t s)"
proof (induction fuel arbitrary: s)
  case 0
  have "scl_inv s3" if "scl_consume sq s2 = (s3, b)" "scl_inv s2" for s2 s3 b using consume_inv [of sq s2] that by simp
  with 0 show ?case
    by (subst scl_ack_loop.simps) (auto simp: Let_def intro!: keeps_bind receiveOnce_keeps split: prod.splits bool.splits)
next
  case (Suc n)
  have "scl_inv s3" if "scl_consume sq s2 = (s3, b)" "scl_inv s2" for s2 s3 b using consume_inv [of sq s2] that by simp
  with Suc show ?case
    by (subst scl_ack_loop.simps)
      (auto simp: Let_def intro!: keeps_bind receiveOnce_keeps Suc.IH split: prod.splits bool.splits)
qed

lemma sendCemi_keeps:
  assumes "scl_inv s"
  shows "keeps (scl_sendCemi E fuel cemi w t s)"
proof -
  have a: "scl_inv s1" if "scl_sendTunnelingRequest E cemi s = (s1, r)" for s1 r using sendRequest_keeps [OF assms, of E cemi] that by simp
  have "scl_inv s3" if "scl_consume sq s2 = (s3, b)" "scl_inv s2" for sq s2 s3 b using consume_inv [of sq s2] that by simp
  with a assms show ?thesis
    by (auto simp: scl_sendCemi_def intro!: ack_loop_keeps split: prod.splits sum.splits bool.splits)
qed

text \<open>The states a client can get into: any order of the calls of its interface.\<close>

inductive scl_reachable :: "'p secure_env \<Rightarrow> 'p secure_client \<Rightarrow> bool" for E where
  new: "scl_reachable E (scl_new p)"
| callback: "scl_reachable E s \<Longrightarrow> scl_reachable E (s\<lparr>scl_callback := b\<rparr>)"
| world: "scl_reachable E s \<Longrightarrow> scl_reachable E (s\<lparr>scl_env := p\<rparr>)"
| beginOpen: "scl_reachable E s \<Longrightarrow> scl_beginOpen E fuel opts t s = Returned (s', r1) \<Longrightarrow> scl_reachable E s'"
| pollOpen: "scl_reachable E s \<Longrightarrow> scl_pollOpen E fuel s = Returned (s', r2) \<Longrightarrow> scl_reachable E s'"
| openSession: "scl_reachable E s \<Longrightarrow> scl_openSession E fuel opts s = Returned (s', r3) \<Longrightarrow> scl_reachable E s'"
| beginConnect: "scl_reachable E s \<Longrightarrow> beginConnectTunneling E t s = (s', r4) \<Longrightarrow> scl_reachable E s'"
| pollConnect: "scl_reachable E s \<Longrightarrow> pollConnectTunneling E s = Returned (s', r5) \<Longrightarrow> scl_reachable E s'"
| connect: "scl_reachable E s \<Longrightarrow> connectTunneling E fuel t s = Returned (s', r6) \<Longrightarrow> scl_reachable E s'"
| beginState: "scl_reachable E s \<Longrightarrow> beginConnectionStateRequest E t s = (s', r7) \<Longrightarrow> scl_reachable E s'"
| pollState: "scl_reachable E s \<Longrightarrow> pollConnectionStateRequest E s = Returned (s', r8) \<Longrightarrow> scl_reachable E s'"
| state: "scl_reachable E s \<Longrightarrow> scl_sendConnectionStateRequest E fuel t s = Returned (s', r9) \<Longrightarrow> scl_reachable E s'"
| beginDisconnect: "scl_reachable E s \<Longrightarrow> beginDisconnectTunneling E t s = (s', r10) \<Longrightarrow> scl_reachable E s'"
| pollDisconnect: "scl_reachable E s \<Longrightarrow> pollDisconnectTunneling E s = Returned (s', r11) \<Longrightarrow> scl_reachable E s'"
| disconnect: "scl_reachable E s \<Longrightarrow> disconnectTunneling E fuel t s = Returned (s', r12) \<Longrightarrow> scl_reachable E s'"
| close: "scl_reachable E s \<Longrightarrow> scl_close E fuel s = Returned s' \<Longrightarrow> scl_reachable E s'"
| sendCemi: "scl_reachable E s \<Longrightarrow> scl_sendCemi E fuel cemi w t s = Returned (s', r13) \<Longrightarrow> scl_reachable E s'"
| poll: "scl_reachable E s \<Longrightarrow> scl_poll E fuel t s = Returned (s', r14) \<Longrightarrow> scl_reachable E s'"
| acquire: "scl_reachable E s \<Longrightarrow> acquireDeviceManagementConnectionHeader E s = (s', r15) \<Longrightarrow> scl_reachable E s'"

lemma scl_new_inv: "scl_inv (scl_new p)"
  by (simp add: scl_inv_def scl_new_def hasPendingControlOperation_def sop_reset_def cop_reset_def)

lemma connect_keeps: "scl_inv s \<Longrightarrow> keeps (connectTunneling E fuel t s)"
  unfolding connectTunneling_def by (intro blocking_keeps poll_keeps(1) begin_keeps(1))

lemma state_keeps: "scl_inv s \<Longrightarrow> keeps (scl_sendConnectionStateRequest E fuel t s)"
  unfolding scl_sendConnectionStateRequest_def by (intro blocking_keeps poll_keeps(2) begin_keeps(2))

lemma poll_frames_keeps: "scl_inv s \<Longrightarrow> keeps (scl_poll E fuel t s)"
  by (simp add: scl_poll_def receiveOnce_keeps)

lemma keepsD: "keeps r \<Longrightarrow> r = Returned (s, x) \<Longrightarrow> scl_inv s" "keeps r \<Longrightarrow> r \<noteq> NullAccess"
  by (auto simp: keeps_def)

lemma reachable_inv: "scl_reachable E s \<Longrightarrow> scl_inv s"
proof (induction rule: scl_reachable.induct)
  case (beginConnect s t s' r4)
  then show ?case using begin_keeps(1) [of s E t] by simp
next
  case (beginState s t s' r7)
  then show ?case using begin_keeps(2) [of s E t] by simp
next
  case (beginDisconnect s t s' r10)
  then show ?case using begin_keeps(3) [of s E t] by simp
next
  case (close s fuel s')
  then show ?case using close_result(2) by blast
next
  case (acquire s s' r15)
  then show ?case by (auto simp: acquireDeviceManagementConnectionHeader_def scl_inv_def hasPendingControlOperation_def split: if_splits)
next
  case (callback s b)
  then show ?case by (simp add: scl_inv_def hasPendingControlOperation_def)
next
  case (beginOpen s fuel opts t s' r1)
  show ?case by (rule keepsD(1) [OF beginOpen_keeps [OF beginOpen.IH] beginOpen.hyps(2)])
next
  case (pollOpen s fuel s' r2)
  show ?case by (rule keepsD(1) [OF pollOpen_keeps [OF pollOpen.IH] pollOpen.hyps(2)])
next
  case (openSession s fuel opts s' r3)
  show ?case by (rule keepsD(1) [OF openSession_keeps [OF openSession.IH] openSession.hyps(2)])
next
  case (pollConnect s s' r5)
  show ?case by (rule keepsD(1) [OF poll_keeps(1) [OF pollConnect.IH] pollConnect.hyps(2)])
next
  case (connect s fuel t s' r6)
  show ?case by (rule keepsD(1) [OF connect_keeps [OF connect.IH] connect.hyps(2)])
next
  case (pollState s s' r8)
  show ?case by (rule keepsD(1) [OF poll_keeps(2) [OF pollState.IH] pollState.hyps(2)])
next
  case (state s fuel t s' r9)
  show ?case by (rule keepsD(1) [OF state_keeps [OF state.IH] state.hyps(2)])
next
  case (pollDisconnect s s' r11)
  show ?case by (rule keepsD(1) [OF poll_keeps(3) [OF pollDisconnect.IH] pollDisconnect.hyps(2)])
next
  case (disconnect s fuel t s' r12)
  show ?case by (rule keepsD(1) [OF disconnect_keeps [OF disconnect.IH] disconnect.hyps(2)])
next
  case (sendCemi s fuel cemi w t s' r13)
  show ?case by (rule keepsD(1) [OF sendCemi_keeps [OF sendCemi.IH] sendCemi.hyps(2)])
next
  case (poll s fuel t s' r14)
  show ?case by (rule keepsD(1) [OF poll_frames_keeps [OF poll.IH] poll.hyps(2)])
qed (simp_all add: scl_new_inv)

text \<open>
  The secure tunnelling client never follows a null pointer. The polls and the opening use the socket and
  the secure channel without looking whether they exist; in whatever order and with whatever answers of the
  network the operations of the client are called, a call that uses them finds them.
\<close>

theorem secure_client_no_null_access:
  assumes "scl_reachable E s"
  shows "scl_beginOpen E fuel opts t s \<noteq> NullAccess \<and> scl_pollOpen E fuel s \<noteq> NullAccess \<and> scl_openSession E fuel opts s \<noteq> NullAccess \<and>
    pollConnectTunneling E s \<noteq> NullAccess \<and> pollConnectionStateRequest E s \<noteq> NullAccess \<and> pollDisconnectTunneling E s \<noteq> NullAccess \<and>
    connectTunneling E fuel t s \<noteq> NullAccess \<and> disconnectTunneling E fuel t s \<noteq> NullAccess \<and> scl_close E fuel s \<noteq> NullAccess \<and>
    scl_sendCemi E fuel cemi w t s \<noteq> NullAccess \<and> scl_poll E fuel t s \<noteq> NullAccess"
  using reachable_inv [OF assms]
  by (intro conjI) (simp_all add: keepsD(2) beginOpen_keeps pollOpen_keeps openSession_keeps poll_keeps connect_keeps disconnect_keeps
      close_result sendCemi_keeps poll_frames_keeps)

theorem secure_client_no_null_access_witness:
  "pollConnectTunneling \<lparr>se_tcp = drip_env, se_lib = toy_library, se_aes = toy_aes\<rparr> (scl_new ([], [])) \<noteq> NullAccess"
  using secure_client_no_null_access [OF scl_reachable.new [of "\<lparr>se_tcp = drip_env, se_lib = toy_library, se_aes = toy_aes\<rparr>" "([], [])"]] by blast

section \<open>The session opens\<close>

definition scl_buffers :: "'p secure_client \<Rightarrow> bool" where
  "scl_buffers s \<longleftrightarrow> length (scl_frameBuffer s) = 4096 \<and> length (scl_scratchBuffer s) = 4096 \<and> length (scl_secureBuffer s) = 4134"

definition usable_options :: "secure_options \<Rightarrow> bool" where
  "usable_options opts \<longleftrightarrow> \<not> ip_isZero (sco_host opts) \<and> sco_port opts \<noteq> 0 \<and> sco_password opts \<noteq> [] \<and>
     (\<exists>b \<in> set (sco_privateKey opts). b \<noteq> 0) \<and> length (sco_serial opts) = 6"

lemma readFrame_packet:
  assumes "stream_works E sent arrived" "tcp_isOpen E p" "arrived p = packet service body" "length body \<le> 4090" "length buf = 4096"
  shows "\<exists>p' buf' n. tcp_receiveFrame E buf p = (p', buf', Inr n) \<and> take n buf' = packet service body \<and> length buf' = 4096 \<and>
    sent p' = sent p \<and> tcp_isOpen E p'"
  using readFrame_ok [OF assms(1,2), of service body "[]" buf] assms(3-5) by (auto simp: tcp_receiveFrame_def)

lemma beginOpen_result:
  assumes "stream_works (se_tcp E) sent arrived" "usable_options opts" "\<not> scl_sock s"
    and "tcp_create (se_tcp E) (scl_env s) = (p1, True)" "tcp_connect (se_tcp E) (sco_host opts) (sco_port opts) p1 = (p2, Inr ())"
    and "tcp_isOpen (se_tcp E) p2" "publicFromPrivate (se_lib E) (sco_privateKey opts) = Inr ca"
    and "\<forall>p. sent (fst (tcp_nowMs (se_tcp E) p)) = sent p"
  shows "\<exists>p3 t0. scl_beginOpen E fuel opts t s = Returned ((scl_cleared s)\<lparr>scl_env := p3, scl_sock := True,
      scl_open := \<lparr>sop_active = True, sop_stage = WaitingSessionResponse, sop_startTimeMs = t0, sop_timeoutMs = t,
        sop_options = opts, sop_clientPublicKey = ca, sop_negotiated = no_session\<rparr>\<rparr>, Inr ()) \<and>
      sent p3 = sent p2 @ encodeSessionRequest ca"
proof -
  obtain p3 where p3: "writeAll (se_tcp E) (encodeSessionRequest ca) p2 = (p3, Inr ())" "sent p3 = sent p2 @ encodeSessionRequest ca"
    using writeAll_ok [OF assms(1,6)] by blast
  obtain p4 t0 where n: "tcp_nowMs (se_tcp E) p3 = (p4, t0)" by (cases "tcp_nowMs (se_tcp E) p3")
  have "sent p4 = sent p3" using assms(8) [rule_format, of p3] n by simp
  moreover have "scl_close E fuel s = Returned (scl_cleared s)" using assms(3) by (simp add: scl_close_def)
  moreover have "scl_env (scl_cleared s) = scl_env s" by (simp add: scl_cleared_def)
  moreover have "tcp_sendFrame (se_tcp E) (encodeSessionRequest ca) p2 = (p3, Inr ())" using p3(1) assms(6) by (simp add: tcp_sendFrame_def)
  moreover have "\<not> ip_isZero (sco_host opts)" "sco_port opts \<noteq> 0" "sco_password opts \<noteq> []" "\<not> (\<forall>b \<in> set (sco_privateKey opts). b = 0)"
    using assms(2) by (auto simp: usable_options_def)
  ultimately show ?thesis using assms(4,5,7) p3(2) n
    by (intro exI [of _ p4] exI [of _ t0]) (simp add: scl_beginOpen_def deriveClientPublicKey_def Let_def scl_now_def)
qed

text \<open>The client's answer to a session response.\<close>

lemma pollOpen_response:
  assumes "stream_works (se_tcp E) sent arrived" "library_works (se_lib E) pub" "aes_works (se_aes E) enc" "scl_buffers s" "scl_sock s"
    and "sop_active (scl_open s)" "sop_stage (scl_open s) = WaitingSessionResponse" "usable_options (sop_options (scl_open s))"
    and "publicFromPrivate (se_lib E) (sco_privateKey (sop_options (scl_open s))) = Inr (sop_clientPublicKey (scl_open s))"
    and "publicFromPrivate (se_lib E) b = Inr sb" "length mac = 16"
    and "tcp_isOpen (se_tcp E) (scl_env s)" "tcp_available (se_tcp E) (scl_env s) \<noteq> 0" "arrived (scl_env s) = encodeSessionResponse sid sb mac"
  shows "\<exists>s' key w. scl_pollOpen E fuel s = Returned (s', Inr Pending) \<and> scl_buffers s' \<and> scl_sock s' \<and>
    ss_deriveSessionKey (se_lib E) b (sop_clientPublicKey (scl_open s)) = Inr key \<and>
    scl_open s' = (scl_open s)\<lparr>sop_stage := WaitingSessionStatus, sop_negotiated := \<lparr>ng_wrapperKey = key, ng_sessionId = sid,
       ng_nextSequence = mask48 (mask48 (sco_initialSeq (sop_options (scl_open s))) + 1)\<rparr>\<rparr> \<and>
    sent (scl_env s') = sent (scl_env s) @ w \<and>
    snd (sw_unwrapAndVerify (se_aes E) key sid w (replicate 24 0)) = Inr 24"
proof -
  let ?op = "scl_open s" let ?o = "sop_options (scl_open s)" let ?ca = "sop_clientPublicKey (scl_open s)"
  have lsb: "length sb = 32" using assms(2,10) by (auto simp: publicFromPrivate_def library_works_def point_to_u32_def)
  note e = session_response_packet [OF lsb assms(11), of sid]
  have lb: "length (writeSessionId sid @ sb @ mac) \<le> 4090" using lsb assms(11) by simp
  have buf: "length (scl_frameBuffer s) = 4096" "length (scl_secureBuffer s) = 4134" using assms(4) by (simp_all add: scl_buffers_def)
  obtain p1 buf1 n where rd: "tcp_receiveFrame (se_tcp E) (scl_frameBuffer s) (scl_env s) = (p1, buf1, Inr n)"
    "take n buf1 = encodeSessionResponse sid sb mac" "length buf1 = 4096" "sent p1 = sent (scl_env s)" "tcp_isOpen (se_tcp E) p1"
    using readFrame_packet [OF assms(1,12) _ lb buf(1)] assms(14) unfolding e by blast
  have hy: "length (sco_serial ?o) = 6" "62 \<le> length (scl_secureBuffer s)" "24 \<le> length (replicate 24 (0 :: u8))"
    using assms(8) buf by (simp_all add: usable_options_def)
  obtain key out1 r auth where hs:
    "buildAuthenticateRequest (se_lib E) (se_aes E) (sco_privateKey ?o) (sco_password ?o) (sco_userId ?o) (sco_serial ?o) (sco_initialSeq ?o) ?ca
       (encodeSessionResponse sid sb mac) (scl_secureBuffer s) = (out1, Inr r)" "ar_wrappedFrameLength r = 62"
    "ar_session r = \<lparr>ng_wrapperKey = key, ng_sessionId = sid, ng_nextSequence = mask48 (mask48 (sco_initialSeq ?o) + 1)\<rparr>"
    "ss_deriveSessionKey (se_lib E) b ?ca = Inr key"
    "sw_unwrapAndVerify (se_aes E) key sid (take 62 out1) (replicate 24 0) = (auth @ drop 24 (replicate 24 0), Inr 24)"
    "length out1 = length (scl_secureBuffer s)"
    using session_handshake [OF assms(2,3,9,10) hy(1) assms(11) hy(2,3), of "sco_password ?o" "sco_userId ?o" "sco_initialSeq ?o" sid] by blast
  obtain p2 where p2: "tcp_sendFrame (se_tcp E) (take 62 out1) p1 = (p2, Inr ())" "sent p2 = sent p1 @ take 62 out1"
    using writeAll_ok [OF assms(1) rd(5), of "take 62 out1"] rd(5) by (auto simp: tcp_sendFrame_def)
  let ?s' = "s\<lparr>scl_env := p2, scl_frameBuffer := buf1, scl_secureBuffer := out1,
     scl_open := ?op\<lparr>sop_negotiated := ar_session r, sop_stage := WaitingSessionStatus\<rparr>\<rparr>"
  have "scl_pollOpen E fuel s = Returned (?s', Inr Pending)"
    using assms(5-7,12,13) rd(1,2) hs(1,2) p2(1) by (simp add: scl_pollOpen_def scl_onResponse_def Let_def)
  then show ?thesis using hs(3-6) p2(2) rd(3,4) assms(4,5)
    by (intro exI [of _ ?s'] exI [of _ key] exI [of _ "take 62 out1"]) (simp add: scl_buffers_def)
qed

lemma pollOpen_status:
  assumes "stream_works (se_tcp E) sent arrived" "aes_works (se_aes E) enc" "scl_buffers s" "scl_sock s"
    and "sop_active (scl_open s)" "sop_stage (scl_open s) = WaitingSessionStatus"
    and "ng_wrapperKey (sop_negotiated (scl_open s)) = key" "ng_sessionId (sop_negotiated (scl_open s)) = sid"
    and "length sq = 6" "length serial = 6"
    and "sw_wrap (se_aes E) key sid sq serial [0, 0] [0x00, 0x00, 0xFF, 0x00] (encodeSessionStatus 0) (replicate 46 0) = (w, r)"
    and "tcp_isOpen (se_tcp E) (scl_env s)" "tcp_available (se_tcp E) (scl_env s) \<noteq> 0" "arrived (scl_env s) = w"
  shows "\<exists>s'. scl_pollOpen E fuel s = Returned (s', Inr Success) \<and> scl_sock s' \<and> \<not> sop_active (scl_open s') \<and>
    scl_session s' = Some (sts_new key sid (sco_serial (sop_options (scl_open s))) (ng_nextSequence (sop_negotiated (scl_open s))))"
proof -
  have ls: "length (encodeSessionStatus 0) = 8" by (simp add: encodeSessionStatus_def session_header_def)
  have w: "w = wrapped (enc key) sid sq serial [0, 0] (encodeSessionStatus 0)"
    using sw_wrap_wrapped [OF assms(2,9,10), of "[0, 0]" "encodeSessionStatus 0" "replicate 46 0" key sid] assms(11) ls by simp
  have lw: "length w = 46" using wrapped_length [OF assms(2,9,10)] ls by (simp add: w)
  obtain service body where f: "w = packet service body" using wrapped_packet [OF assms(2,9,10), of "[0, 0]"] unfolding w by force
  then have lb: "length body \<le> 4090" using lw by auto
  have buf: "length (scl_frameBuffer s) = 4096" "8 \<le> length (scl_scratchBuffer s)" using assms(3) by (simp_all add: scl_buffers_def)
  obtain p1 buf1 n where rd: "tcp_receiveFrame (se_tcp E) (scl_frameBuffer s) (scl_env s) = (p1, buf1, Inr n)" "take n buf1 = w"
    using readFrame_packet [OF assms(1,12) _ lb buf(1), of service] assms(14) f by auto
  obtain scratch where sb: "sb_decodeSessionStatus (se_aes E) key sid w (scl_scratchBuffer s) = (scratch, Inr 0)"
    using status_answer [OF assms(2,9,10) buf(2) assms(11)] by (metis prod.collapse)
  let ?s3 = "s\<lparr>scl_env := p1, scl_frameBuffer := buf1, scl_scratchBuffer := scratch,
     scl_session := Some (sts_new key sid (sco_serial (sop_options (scl_open s))) (ng_nextSequence (sop_negotiated (scl_open s))))\<rparr>"
  have p: "scl_pollOpen E fuel s = Returned ((scl_markActivity E (scl_resetSession ?s3))\<lparr>scl_open := sop_reset\<rparr>, Inr Success)"
    using assms(4-8,12,13) rd sb by (simp add: scl_pollOpen_def scl_onStatus_def Let_def)
  have "scl_sock (scl_markActivity E x) = scl_sock x" "scl_session (scl_markActivity E x) = scl_session x" for x
    by (simp_all add: scl_markActivity_def scl_now_def split: prod.splits)
  then show ?thesis using p assms(4) by (simp add: scl_resetSession_def sop_reset_def)
qed

text \<open>
  A secure session is set up. The client connects and sends its public key; when the server's session
  response arrives, it sends an authentication that the server can open with the session key it derives from its own private
  key and the client's public key; and when the server's status, wrapped with that key, arrives, the client is
  open with exactly this key and session, so that from then on each side opens what the other wraps. Here the
  response and the status are whatever the server sends, and \<open>p1\<close> and \<open>p2\<close> are the states of the stream at
  the time they are read.
\<close>

theorem secure_session_opens:
  assumes "stream_works (se_tcp E) sent arrived" "library_works (se_lib E) pub" "aes_works (se_aes E) enc"
    and "scl_buffers s" "\<not> scl_sock s" "usable_options opts"
    and "tcp_create (se_tcp E) (scl_env s) = (p, True)" "tcp_connect (se_tcp E) (sco_host opts) (sco_port opts) p = (p0, Inr ())"
    and "tcp_isOpen (se_tcp E) p0" "\<forall>q. sent (fst (tcp_nowMs (se_tcp E) q)) = sent q"
  shows "\<exists>s1 ca. scl_beginOpen E fuel opts t s = Returned (s1, Inr ()) \<and> sent (scl_env s1) = sent p0 @ encodeSessionRequest ca \<and>
    (\<forall>p1 b sb sid mac. publicFromPrivate (se_lib E) b = Inr sb \<and> length mac = 16 \<and> tcp_isOpen (se_tcp E) p1 \<and>
        tcp_available (se_tcp E) p1 \<noteq> 0 \<and> arrived p1 = encodeSessionResponse sid sb mac \<longrightarrow>
      (\<exists>s2 key w. scl_pollOpen E fuel (s1\<lparr>scl_env := p1\<rparr>) = Returned (s2, Inr Pending) \<and> sent (scl_env s2) = sent p1 @ w \<and>
         ss_deriveSessionKey (se_lib E) b ca = Inr key \<and> snd (sw_unwrapAndVerify (se_aes E) key sid w (replicate 24 0)) = Inr 24 \<and>
         (\<forall>p2 sq serial v r. length sq = 6 \<and> length serial = 6 \<and> tcp_isOpen (se_tcp E) p2 \<and> tcp_available (se_tcp E) p2 \<noteq> 0 \<and> arrived p2 = v \<and>
             sw_wrap (se_aes E) key sid sq serial [0, 0] [0x00, 0x00, 0xFF, 0x00] (encodeSessionStatus 0) (replicate 46 0) = (v, r) \<longrightarrow>
           (\<exists>s3 k. scl_pollOpen E fuel (s2\<lparr>scl_env := p2\<rparr>) = Returned (s3, Inr Success) \<and> scl_session s3 = Some k \<and> scl_sock s3 \<and>
              sts_sessionKey k = key \<and> sts_sessionId k = sid))))"
proof -
  obtain ca where ca: "publicFromPrivate (se_lib E) (sco_privateKey opts) = Inr ca"
    using assms(2) by (auto simp: publicFromPrivate_def library_works_def point_to_u32_def)
  from beginOpen_result [OF assms(1,6,5,7-9) ca assms(10), of fuel t] obtain s1 where
    s1: "scl_beginOpen E fuel opts t s = Returned (s1, Inr ())" "sent (scl_env s1) = sent p0 @ encodeSessionRequest ca"
      "scl_sock s1" "sop_active (scl_open s1)" "sop_stage (scl_open s1) = WaitingSessionResponse" "sop_options (scl_open s1) = opts"
      "sop_clientPublicKey (scl_open s1) = ca" "scl_buffers s1"
    using assms(4) by (fastforce simp: scl_buffers_def scl_cleared_def)
  have "\<exists>s2 key w. scl_pollOpen E fuel (s1\<lparr>scl_env := p1\<rparr>) = Returned (s2, Inr Pending) \<and> sent (scl_env s2) = sent p1 @ w \<and>
      ss_deriveSessionKey (se_lib E) b ca = Inr key \<and> snd (sw_unwrapAndVerify (se_aes E) key sid w (replicate 24 0)) = Inr 24 \<and>
      (\<forall>p2 sq serial v r. length sq = 6 \<and> length serial = 6 \<and> tcp_isOpen (se_tcp E) p2 \<and> tcp_available (se_tcp E) p2 \<noteq> 0 \<and> arrived p2 = v \<and>
          sw_wrap (se_aes E) key sid sq serial [0, 0] [0x00, 0x00, 0xFF, 0x00] (encodeSessionStatus 0) (replicate 46 0) = (v, r) \<longrightarrow>
        (\<exists>s3 k. scl_pollOpen E fuel (s2\<lparr>scl_env := p2\<rparr>) = Returned (s3, Inr Success) \<and> scl_session s3 = Some k \<and> scl_sock s3 \<and>
           sts_sessionKey k = key \<and> sts_sessionId k = sid))"
    if h: "publicFromPrivate (se_lib E) b = Inr sb" "length mac = 16" "tcp_isOpen (se_tcp E) p1" "tcp_available (se_tcp E) p1 \<noteq> 0"
      "arrived p1 = encodeSessionResponse sid sb mac" for p1 b sb sid mac
  proof -
    let ?s = "s1\<lparr>scl_env := p1\<rparr>"
    have f: "scl_buffers ?s" "scl_sock ?s" "sop_active (scl_open ?s)" "sop_stage (scl_open ?s) = WaitingSessionResponse"
      "usable_options (sop_options (scl_open ?s))"
      "publicFromPrivate (se_lib E) (sco_privateKey (sop_options (scl_open ?s))) = Inr (sop_clientPublicKey (scl_open ?s))"
      using s1 ca assms(6) by (simp_all add: scl_buffers_def)
    have g: "tcp_isOpen (se_tcp E) (scl_env ?s)" "tcp_available (se_tcp E) (scl_env ?s) \<noteq> 0" "arrived (scl_env ?s) = encodeSessionResponse sid sb mac"
      using h by simp_all
    obtain s2 key w where s2: "scl_pollOpen E fuel ?s = Returned (s2, Inr Pending)" "scl_buffers s2" "scl_sock s2"
      "ss_deriveSessionKey (se_lib E) b (sop_clientPublicKey (scl_open ?s)) = Inr key"
      "scl_open s2 = (scl_open ?s)\<lparr>sop_stage := WaitingSessionStatus, sop_negotiated := \<lparr>ng_wrapperKey = key, ng_sessionId = sid,
         ng_nextSequence = mask48 (mask48 (sco_initialSeq (sop_options (scl_open ?s))) + 1)\<rparr>\<rparr>"
      "sent (scl_env s2) = sent (scl_env ?s) @ w" "snd (sw_unwrapAndVerify (se_aes E) key sid w (replicate 24 0)) = Inr 24"
      using pollOpen_response [OF assms(1-3) f h(1,2) g, of fuel] by blast
    have "\<exists>s3 k. scl_pollOpen E fuel (s2\<lparr>scl_env := p2\<rparr>) = Returned (s3, Inr Success) \<and> scl_session s3 = Some k \<and> scl_sock s3 \<and>
        sts_sessionKey k = key \<and> sts_sessionId k = sid"
      if "length sq = 6" "length serial = 6" "tcp_isOpen (se_tcp E) p2" "tcp_available (se_tcp E) p2 \<noteq> 0" "arrived p2 = v"
        "sw_wrap (se_aes E) key sid sq serial [0, 0] [0x00, 0x00, 0xFF, 0x00] (encodeSessionStatus 0) (replicate 46 0) = (v, r)" for p2 sq serial v r
    proof -
      have "scl_buffers (s2\<lparr>scl_env := p2\<rparr>)" using s2(2) by (simp add: scl_buffers_def)
      from pollOpen_status [OF assms(1,3) this, of key sid sq serial v r fuel] show ?thesis
        using s2(3,5) f(3) that by (auto simp: sts_new_def)
    qed
    with s2(1,4,6,7) s1(7) show ?thesis by (intro exI [of _ s2] exI [of _ key] exI [of _ w]) auto
  qed
  with s1(1,2) show ?thesis by (intro exI [of _ s1] exI [of _ ca]) blast
qed

definition sample_secure_options :: secure_options where
  "sample_secure_options = secure_options_init\<lparr>sco_host := (192, 168, 1, 10), sco_password := [1, 2], sco_privateKey := replicate 32 8,
     sco_serial := [1, 2, 3, 4, 5, 6]\<rparr>"

theorem secure_session_opens_witness:
  "\<exists>s1 ca s2. scl_beginOpen \<lparr>se_tcp = drip_env, se_lib = toy_library, se_aes = toy_aes\<rparr> 5 sample_secure_options 1000 (scl_new ([], [])) =
      Returned (s1, Inr ()) \<and> fst (scl_env s1) = encodeSessionRequest ca \<and>
    scl_pollOpen \<lparr>se_tcp = drip_env, se_lib = toy_library, se_aes = toy_aes\<rparr> 5
      (s1\<lparr>scl_env := ([], encodeSessionResponse 7 (clamp_scalar (replicate 32 9)) (replicate 16 0))\<rparr>) = Returned (s2, Inr Pending)"
proof -
  let ?E = "\<lparr>se_tcp = drip_env, se_lib = toy_library, se_aes = toy_aes\<rparr>"
  have a: "stream_works (se_tcp ?E) fst snd" "library_works (se_lib ?E) (\<lambda>a. take 32 (a @ replicate 32 0))"
    "aes_works (se_aes ?E) (\<lambda>key b. xor_bytes b (replicate 16 0x5A))"
    using drip_works toy_library_works toy_aes_works by simp_all
  have b: "scl_buffers (scl_new ([], []))" "\<not> scl_sock (scl_new ([], []))" "usable_options sample_secure_options"
    by (simp_all add: scl_buffers_def scl_new_def kMaxTcpFrameLen_def sw_kOverhead_def usable_options_def sample_secure_options_def
        secure_options_init_def ip_isZero_def)
  have c: "tcp_create (se_tcp ?E) (scl_env (scl_new ([], []))) = (([], []), True)"
    "tcp_connect (se_tcp ?E) (sco_host sample_secure_options) (sco_port sample_secure_options) ([], []) = (([], []), Inr ())"
    "tcp_isOpen (se_tcp ?E) q" "\<forall>q. fst (fst (tcp_nowMs (se_tcp ?E) q)) = fst q" for q
    by (simp_all add: drip_env_def scl_new_def)
  have k: "publicFromPrivate (se_lib ?E) (replicate 32 9) = Inr (clamp_scalar (replicate 32 9))"
    by (simp add: publicFromPrivate_def toy_library_def point_to_u32_def clamp_scalar_def)
  have v: "tcp_available (se_tcp ?E) ([], encodeSessionResponse 7 (clamp_scalar (replicate 32 9)) (replicate 16 0)) \<noteq> 0"
    by (simp add: drip_env_def encodeSessionResponse_def session_header_def)
  show ?thesis using secure_session_opens [OF a b c(1,2) c(3) c(4), of 5 1000]
  proof (elim exE conjE, goal_cases)
    case (1 s1 ca)
    let ?p1 = "([] :: bytes, encodeSessionResponse 7 (clamp_scalar (replicate 32 9)) (replicate 16 0))"
    have h: "publicFromPrivate (se_lib ?E) (replicate 32 9) = Inr (clamp_scalar (replicate 32 9)) \<and>
        length (replicate 16 0 :: bytes) = 16 \<and> tcp_isOpen (se_tcp ?E) ?p1 \<and> tcp_available (se_tcp ?E) ?p1 \<noteq> 0 \<and>
        snd ?p1 = encodeSessionResponse 7 (clamp_scalar (replicate 32 9)) (replicate 16 0)"
      using k v c(3) by simp
    note m = 1(3) [THEN spec, THEN spec, THEN spec, THEN spec, THEN spec, THEN mp, OF h]
    from m obtain s2 where "scl_pollOpen ?E 5 (s1\<lparr>scl_env := ?p1\<rparr>) = Returned (s2, Inr Pending)"
      by (elim exE conjE)
    with 1(1,2) show ?case by auto
  qed
qed

end
