(* ===== verification/Data_Link.thy ===== *)
theory Data_Link
  imports Frame_Codec Interfaces
begin

text \<open>
  The TP1 data link layer (\<open>src/datalink/tp1_data_link_layer.cpp\<close>): the asynchronous transmit
  operation with its two retry budgets and the repeat flag, the blocking \<open>sendFrame\<close>, reception with
  the frame pool, decoding, duplicate suppression and address filtering, and the group-address
  list. The physical port (a table of function pointers in the code) and the platform (clock,
  mutex, task notification) are the environment \<open>'p\<close> with the operations \<open>'p link_env\<close>. The RX
  worker thread itself is not modelled; every operation it calls is.
\<close>

section \<open>Environment\<close>

text \<open>\<open>env_millis\<close> is \<open>None\<close> without a timing platform; \<open>millis()\<close> is a 32-bit counter.
  \<open>env_lock\<close> answers whether the TX mutex was acquired before its timeout.\<close>

record 'p link_env =
  env_init :: "'p \<Rightarrow> 'p \<times> unit result"
  env_close :: "'p \<Rightarrow> 'p"
  env_isOpen :: "'p \<Rightarrow> bool"
  env_beginTransmit :: "'p \<Rightarrow> bytes \<Rightarrow> 'p \<times> u32 result"
  env_pollTransmit :: "'p \<Rightarrow> u32 \<Rightarrow> 'p \<times> progress result"
  env_beginReceive :: "'p \<Rightarrow> u32 \<Rightarrow> 'p \<times> unit result"
  env_pollReceive :: "'p \<Rightarrow> 'p \<times> progress result"
  env_receivedFrameView :: "'p \<Rightarrow> 'p \<times> bytes result"
  env_setOwnAddress :: "'p \<Rightarrow> u16 \<Rightarrow> 'p"
  env_setAckGroupAddresses :: "'p \<Rightarrow> u16 list \<Rightarrow> 'p"
  env_millis :: "('p \<Rightarrow> 'p \<times> u32) option"
  env_hasMutex :: bool
  env_createTask :: "'p \<Rightarrow> 'p \<times> bool"
  env_lock :: "'p \<Rightarrow> 'p \<times> bool"
  env_unlock :: "'p \<Rightarrow> 'p"
  env_taskDelay :: "'p \<Rightarrow> 'p"
  env_notify :: "'p \<Rightarrow> 'p \<times> bool"

section \<open>State\<close>

record tx_operation =
  tx_active :: bool
  tx_waiting :: bool
  tx_usingPhysical :: bool
  tx_busyAttempt :: nat
  tx_repeatAttempt :: nat
  tx_sequence :: u32
  tx_retryNotBefore :: u64
  tx_octets :: bytes

definition tx_operation_init :: tx_operation where
  "tx_operation_init = \<lparr>tx_active = False, tx_waiting = False, tx_usingPhysical = False,
     tx_busyAttempt = 0, tx_repeatAttempt = 0, tx_sequence = 0, tx_retryNotBefore = 0, tx_octets = []\<rparr>"

record rx_operation =
  rx_active :: bool
  rx_waiting :: bool
  rx_firstTimeout :: u32
  rx_readIndex :: u32
  rx_delivered :: nat

definition rx_operation_init :: rx_operation where
  "rx_operation_init = \<lparr>rx_active = False, rx_waiting = False, rx_firstTimeout = 0,
     rx_readIndex = 0, rx_delivered = 0\<rparr>"

record last_rx =
  lr_source :: u16
  lr_destination :: u16
  lr_type :: address_type
  lr_priority :: priority
  lr_hopCount :: u8
  lr_tpdu :: bytes

record dl_stats =
  st_rxFrames :: u32
  st_txFrames :: u32
  st_rxDropped :: u32
  st_decodeFailed :: u32
  st_filterDropped :: u32
  st_duplicatesDropped :: u32
  st_txRepetitions :: u32

definition dl_stats_init :: dl_stats where
  "dl_stats_init = \<lparr>st_rxFrames = 0, st_txFrames = 0, st_rxDropped = 0, st_decodeFailed = 0,
     st_filterDropped = 0, st_duplicatesDropped = 0, st_txRepetitions = 0\<rparr>"

definition FRAME_POOL_SIZE :: nat where "FRAME_POOL_SIZE = 16"
definition MAX_GROUP_ADDRESSES :: nat where "MAX_GROUP_ADDRESSES = 256"
definition MAX_BUSY_RETRIES :: nat where "MAX_BUSY_RETRIES = 3"
definition MAX_ACK_RETRIES :: nat where "MAX_ACK_RETRIES = 3"
definition TX_BUFFER_SIZE :: nat where "TX_BUFFER_SIZE = 263"

text \<open>\<open>dl_mutexHeld\<close> is the TX mutex. The frame pool is its in-use flags: a successful decode
  overwrites every field of the pool slot it is given.\<close>

record 'p datalink =
  dl_env :: 'p
  dl_own :: individual_address
  dl_groups :: "group_address list"
  dl_promiscuous :: bool
  dl_initialized :: bool
  dl_hasCallback :: bool
  dl_stats :: dl_stats
  dl_lastRx :: "last_rx option"
  dl_enableRxTask :: bool
  dl_hasRxTask :: bool
  dl_stopRequested :: bool
  dl_tx :: tx_operation
  dl_rx :: rx_operation
  dl_lastDelivered :: nat
  dl_frameInUse :: "bool list"
  dl_rxProcessing :: bool
  dl_mutexHeld :: bool

definition datalink_init :: "'p \<Rightarrow> bool \<Rightarrow> 'p datalink" where
  "datalink_init p enableRxTask =
     \<lparr>dl_env = p, dl_own = 0, dl_groups = [], dl_promiscuous = False, dl_initialized = False,
      dl_hasCallback = False, dl_stats = dl_stats_init, dl_lastRx = None,
      dl_enableRxTask = enableRxTask, dl_hasRxTask = False, dl_stopRequested = False,
      dl_tx = tx_operation_init, dl_rx = rx_operation_init, dl_lastDelivered = 0,
      dl_frameInUse = replicate FRAME_POOL_SIZE False, dl_rxProcessing = False,
      dl_mutexHeld = False\<rparr>"

section \<open>Opening and closing\<close>

definition dl_init :: "'p link_env \<Rightarrow> 'p datalink \<Rightarrow> individual_address \<Rightarrow> 'p datalink \<times> unit result" where
  "dl_init E s own =
     (if dl_initialized s then (s, Inr ())
      else case env_init E (dl_env s) of (p, r) \<Rightarrow>
      let s1 = s\<lparr>dl_own := own, dl_env := p\<rparr> in
      (case r of
         Inl e \<Rightarrow> (s1, Inl e)
       | Inr _ \<Rightarrow>
           if \<not> env_hasMutex E then (s1\<lparr>dl_env := env_close E p\<rparr>, Inl ResourceUnavailable)
           else let s2 = s1\<lparr>dl_stopRequested := False, dl_hasRxTask := False\<rparr> in
           if dl_enableRxTask s2 then
             (case env_createTask E p of (p2, created) \<Rightarrow>
                if \<not> created
                then (s2\<lparr>dl_env := env_close E p2\<rparr>, Inl ResourceUnavailable)
                else (s2\<lparr>dl_env := p2, dl_hasRxTask := True, dl_initialized := True\<rparr>, Inr ()))
           else (s2\<lparr>dl_initialized := True\<rparr>, Inr ())))"

definition dl_setOwnAddress :: "'p link_env \<Rightarrow> 'p datalink \<Rightarrow> individual_address \<Rightarrow> 'p datalink" where
  "dl_setOwnAddress E s own = s\<lparr>dl_own := own, dl_env := env_setOwnAddress E (dl_env s) own\<rparr>"

definition dl_close :: "'p link_env \<Rightarrow> 'p datalink \<Rightarrow> 'p datalink" where
  "dl_close E s =
     (if dl_initialized s then
        s\<lparr>dl_stopRequested := True, dl_hasRxTask := False, dl_hasCallback := False,
          dl_env := env_close E (dl_env s), dl_initialized := False\<rparr>
      else s)"

definition dl_isOpen :: "'p link_env \<Rightarrow> 'p datalink \<Rightarrow> bool" where
  "dl_isOpen E s \<longleftrightarrow> dl_initialized s \<and> env_isOpen E (dl_env s)"

section \<open>Transmission\<close>

definition dl_finishTx :: "'p link_env \<Rightarrow> 'p datalink \<Rightarrow> 'p datalink" where
  "dl_finishTx E s =
     (if tx_active (dl_tx s) \<and> env_hasMutex E
      then s\<lparr>dl_env := env_unlock E (dl_env s), dl_mutexHeld := False, dl_tx := tx_operation_init\<rparr>
      else s\<lparr>dl_tx := tx_operation_init\<rparr>)"

definition dl_beginTransmit ::
    "'p link_env \<Rightarrow> 'p datalink \<Rightarrow> ldata_frame \<Rightarrow> 'p datalink \<times> unit result" where
  "dl_beginTransmit E s f =
     (if \<not> dl_initialized s then (s, Inl NotInitialized)
      else if tx_active (dl_tx s) then (s, Inl EBusy)
      else case env_lock E (dl_env s) of (p, locked) \<Rightarrow>
      if \<not> locked then (s\<lparr>dl_env := p\<rparr>, Inl ETimeout)
      else case encodeFrame f TX_BUFFER_SIZE of
        Inl e \<Rightarrow> (s\<lparr>dl_env := env_unlock E p\<rparr>, Inl e)
      | Inr bs \<Rightarrow>
          (s\<lparr>dl_env := p, dl_mutexHeld := True,
             dl_tx := (dl_tx s)\<lparr>tx_active := True, tx_waiting := False, tx_usingPhysical := False,
               tx_busyAttempt := 0, tx_repeatAttempt := 0, tx_retryNotBefore := 0, tx_octets := bs\<rparr>\<rparr>,
           Inr ()))"

text \<open>Clearing the "not repeated" bit \<open>0x20\<close> of the control octet and recomputing the FCS.\<close>

definition markRepeated :: "bytes \<Rightarrow> bytes" where
  "markRepeated bs =
     (if length bs < 2 then bs
      else let bs1 = bs[0 := bs ! 0 AND NOT 0x20] in
           bs1[length bs - 1 := calculateChecksum (take (length bs - 1) bs1)])"

definition markTxFrameAsRepeated :: "'p datalink \<Rightarrow> 'p datalink" where
  "markTxFrameAsRepeated s = s\<lparr>dl_tx := (dl_tx s)\<lparr>tx_octets := markRepeated (tx_octets (dl_tx s))\<rparr>\<rparr>"

definition dl_now :: "'p link_env \<Rightarrow> 'p datalink \<Rightarrow> 'p datalink \<times> u64" where
  "dl_now E s =
     (case env_millis E of
        None \<Rightarrow> (s, 0)
      | Some m \<Rightarrow> (case m (dl_env s) of (p, t) \<Rightarrow> (s\<lparr>dl_env := p\<rparr>, ucast t)))"

definition retry_time :: "'p link_env \<Rightarrow> u64 \<Rightarrow> u64" where
  "retry_time E now = (if env_millis E = None then 0 else now + 4)"

text \<open>The branch of \<open>pollTransmit\<close> that waits for the outcome of a physical transmission.\<close>

definition dl_pollOutcome ::
    "'p link_env \<Rightarrow> 'p datalink \<Rightarrow> u64 \<Rightarrow> 'p datalink \<times> progress result" where
  "dl_pollOutcome E s now =
     (case env_pollTransmit E (dl_env s) (tx_sequence (dl_tx s)) of (p, r) \<Rightarrow>
      let s1 = s\<lparr>dl_env := p\<rparr>; t = dl_tx s1 in
      (case r of
         Inl e \<Rightarrow> (dl_finishTx E s1, Inl e)
       | Inr Pending \<Rightarrow> (s1, Inr Pending)
       | Inr Success \<Rightarrow>
           (dl_finishTx E (s1\<lparr>dl_stats := (dl_stats s1)\<lparr>st_txFrames := st_txFrames (dl_stats s1) + 1\<rparr>\<rparr>),
            Inr Success)
       | Inr Busy \<Rightarrow>
           (if tx_busyAttempt t < MAX_BUSY_RETRIES
            then (s1\<lparr>dl_tx := t\<lparr>tx_waiting := False, tx_busyAttempt := tx_busyAttempt t + 1,
                               tx_retryNotBefore := retry_time E now\<rparr>\<rparr>, Inr Pending)
            else (dl_finishTx E s1, Inr Busy))
       | Inr failed \<Rightarrow>
           (if tx_repeatAttempt t < MAX_ACK_RETRIES
            then (let s2 = markTxFrameAsRepeated
                        (s1\<lparr>dl_tx := t\<lparr>tx_waiting := False, tx_repeatAttempt := tx_repeatAttempt t + 1,
                                       tx_retryNotBefore := retry_time E now\<rparr>\<rparr>) in
                  (s2\<lparr>dl_stats := (dl_stats s2)\<lparr>st_txRepetitions := st_txRepetitions (dl_stats s2) + 1\<rparr>\<rparr>,
                   Inr Pending))
            else (dl_finishTx E s1, Inr failed))))"

text \<open>\<open>pollTransmit\<close> calls itself once after it handed the frame to the physical layer; that call
  reads the clock again, has no retry time to wait for, and is in the waiting branch.\<close>

definition dl_pollTransmit :: "'p link_env \<Rightarrow> 'p datalink \<Rightarrow> 'p datalink \<times> progress result" where
  "dl_pollTransmit E s =
     (if \<not> dl_initialized s then (s, Inl NotInitialized)
      else if \<not> tx_active (dl_tx s) then (s, Inl OperationNotReady)
      else case dl_now E s of (s1, now) \<Rightarrow>
      if env_millis E \<noteq> None \<and> tx_retryNotBefore (dl_tx s1) \<noteq> 0 \<and> now < tx_retryNotBefore (dl_tx s1)
      then (s1, Inr Pending)
      else if tx_waiting (dl_tx s1) then dl_pollOutcome E s1 now
      else case env_beginTransmit E (dl_env s1) (tx_octets (dl_tx s1)) of (p, r) \<Rightarrow>
      let s2 = s1\<lparr>dl_env := p\<rparr>; t = dl_tx s2 in
      (case r of
         Inr sq \<Rightarrow>
           (case dl_now E (s2\<lparr>dl_tx := t\<lparr>tx_waiting := True, tx_usingPhysical := True,
                                        tx_sequence := sq, tx_retryNotBefore := 0\<rparr>\<rparr>) of
              (s3, now') \<Rightarrow> dl_pollOutcome E s3 now')
       | Inl e \<Rightarrow>
           (if e = EBusy \<and> tx_busyAttempt t < MAX_BUSY_RETRIES
            then (s2\<lparr>dl_tx := t\<lparr>tx_busyAttempt := tx_busyAttempt t + 1,
                               tx_retryNotBefore := retry_time E now\<rparr>\<rparr>, Inr Pending)
            else (dl_finishTx E s2, Inr (progressStateFromError e)))))"

text \<open>The loop of \<open>sendFrame\<close>, with fuel for the number of polls; \<open>None\<close> means it is still
  polling.\<close>

fun dl_sendLoop :: "'p link_env \<Rightarrow> nat \<Rightarrow> 'p datalink \<Rightarrow> ('p datalink \<times> unit result) option" where
  "dl_sendLoop E 0 s = None"
| "dl_sendLoop E (Suc n) s =
     (case dl_pollTransmit E s of (s1, r) \<Rightarrow>
        (case r of
           Inl e \<Rightarrow> Some (s1, Inl e)
         | Inr Pending \<Rightarrow> dl_sendLoop E n (s1\<lparr>dl_env := env_taskDelay E (dl_env s1)\<rparr>)
         | Inr Success \<Rightarrow> Some (s1, Inr ())
         | Inr Busy \<Rightarrow> Some (s1, Inl EBusy)
         | Inr TransmissionFailed \<Rightarrow> Some (s1, Inl ETransmissionFailed)
         | Inr Timeout \<Rightarrow> Some (s1, Inl ETimeout)))"

definition dl_sendFrame ::
    "'p link_env \<Rightarrow> nat \<Rightarrow> 'p datalink \<Rightarrow> ldata_frame \<Rightarrow> ('p datalink \<times> unit result) option" where
  "dl_sendFrame E fuel s f =
     (case dl_beginTransmit E s f of
        (s1, Inl e) \<Rightarrow> Some (s1, Inl e)
      | (s1, Inr _) \<Rightarrow> dl_sendLoop E fuel s1)"

section \<open>Reception\<close>

definition dl_finishRx :: "'p datalink \<Rightarrow> 'p datalink" where
  "dl_finishRx s =
     s\<lparr>dl_lastDelivered := (if rx_active (dl_rx s) then rx_delivered (dl_rx s) else dl_lastDelivered s),
       dl_rx := rx_operation_init, dl_rxProcessing := False\<rparr>"

text \<open>\<open>allocateFrame\<close> returns the index of the slot it took, \<open>releaseFrame\<close> frees a slot.\<close>

fun first_free :: "bool list \<Rightarrow> nat option" where
  "first_free [] = None"
| "first_free (b # bs) = (if \<not> b then Some 0 else map_option Suc (first_free bs))"

definition allocateFrame :: "'p datalink \<Rightarrow> 'p datalink \<times> nat option" where
  "allocateFrame s =
     (case first_free (dl_frameInUse s) of
        None \<Rightarrow> (s, None)
      | Some i \<Rightarrow> (s\<lparr>dl_frameInUse := (dl_frameInUse s)[i := True]\<rparr>, Some i))"

definition releaseFrame :: "nat \<Rightarrow> 'p datalink \<Rightarrow> 'p datalink" where
  "releaseFrame i s = s\<lparr>dl_frameInUse := (dl_frameInUse s)[i := False]\<rparr>"

definition isRepetitionOfLastRxFrame :: "'p datalink \<Rightarrow> ldata_frame \<Rightarrow> bool" where
  "isRepetitionOfLastRxFrame s f =
     (if \<not> repeated f then False
      else case dl_lastRx s of
        None \<Rightarrow> False
      | Some l \<Rightarrow> source f = lr_source l \<and> destination f = lr_destination l
          \<and> destinationType f = lr_type l \<and> ldata_frame.priority f = lr_priority l
          \<and> hopCount f = lr_hopCount l \<and> tpdu f = lr_tpdu l)"

definition rememberRxFrame :: "ldata_frame \<Rightarrow> 'p datalink \<Rightarrow> 'p datalink" where
  "rememberRxFrame f s =
     s\<lparr>dl_lastRx := Some \<lparr>lr_source = source f, lr_destination = destination f,
        lr_type = destinationType f, lr_priority = ldata_frame.priority f,
        lr_hopCount = hopCount f, lr_tpdu = tpdu f\<rparr>\<rparr>"

definition isAddressMatch :: "'p datalink \<Rightarrow> group_address \<Rightarrow> address_type \<Rightarrow> bool" where
  "isAddressMatch s a ty =
     (if dl_promiscuous s then True
      else if ty = Group then
        (if isGroupBroadcastAddress a then True else a \<in> set (dl_groups s))
      else if isIndividualBroadcastAddress a then True
      else a = dl_own s)"

definition toOwnIndividual :: "'p datalink \<Rightarrow> ldata_frame \<Rightarrow> bool" where
  "toOwnIndividual s f \<longleftrightarrow> destinationType f = Individual
     \<and> \<not> isIndividualBroadcastAddress (destination f) \<and> destination f = dl_own s"

text \<open>What \<open>pollReceive\<close> does with one received buffer: the frame passed to the callback, if any.\<close>

definition rx_buffer :: "'p datalink \<Rightarrow> bytes \<Rightarrow> 'p datalink \<times> ldata_frame option" where
  "rx_buffer s buf =
     (case allocateFrame s of
        (s1, None) \<Rightarrow>
          (s1\<lparr>dl_stats := (dl_stats s1)\<lparr>st_rxDropped := st_rxDropped (dl_stats s1) + 1\<rparr>\<rparr>, None)
      | (s1, Some i) \<Rightarrow>
          (case decodeFrame buf ldata_frame_init of
             Inl e \<Rightarrow>
               (releaseFrame i
                  (s1\<lparr>dl_stats := (dl_stats s1)\<lparr>st_decodeFailed := st_decodeFailed (dl_stats s1) + 1\<rparr>\<rparr>), None)
           | Inr f \<Rightarrow>
               if \<not> toOwnIndividual s1 f \<and> isRepetitionOfLastRxFrame s1 f then
                 (releaseFrame i
                    (s1\<lparr>dl_stats := (dl_stats s1)
                          \<lparr>st_duplicatesDropped := st_duplicatesDropped (dl_stats s1) + 1\<rparr>\<rparr>), None)
               else let s2 = rememberRxFrame f s1 in
                 if isAddressMatch s2 (destination f) (destinationType f) then
                   ((releaseFrame i s2)
                      \<lparr>dl_stats := (dl_stats s2)\<lparr>st_rxFrames := st_rxFrames (dl_stats s2) + 1\<rparr>,
                       dl_rx := (dl_rx s2)\<lparr>rx_delivered := rx_delivered (dl_rx s2) + 1\<rparr>\<rparr>,
                    if dl_hasCallback s2 then Some f else None)
                 else
                   ((releaseFrame i s2)
                      \<lparr>dl_stats := (dl_stats s2)\<lparr>st_filterDropped := st_filterDropped (dl_stats s2) + 1\<rparr>\<rparr>,
                    None)))"

definition dl_beginReceive :: "'p datalink \<Rightarrow> u32 \<Rightarrow> 'p datalink \<times> unit result" where
  "dl_beginReceive s timeout =
     (if dl_rxProcessing s then (s, Inl EBusy)
      else let s1 = s\<lparr>dl_rxProcessing := True\<rparr> in
        (if \<not> rx_active (dl_rx s1)
         then s1\<lparr>dl_lastDelivered := 0,
                 dl_rx := rx_operation_init\<lparr>rx_active := True, rx_firstTimeout := timeout\<rparr>\<rparr>
         else s1, Inr ()))"

text \<open>One turn of the loop of \<open>pollReceive\<close>: the frames delivered and the result to return, or
  \<open>None\<close> to go on. \<open>RxProgressState::Complete\<close> is \<open>Success\<close>.\<close>

definition rx_turn ::
    "'p link_env \<Rightarrow> 'p datalink \<Rightarrow> 'p datalink \<times> ldata_frame list \<times> progress option" where
  "rx_turn E s =
     (case (if rx_waiting (dl_rx s) then (dl_env s, Inr ())
            else env_beginReceive E (dl_env s)
                   (if rx_readIndex (dl_rx s) = 0 then rx_firstTimeout (dl_rx s) else 0)) of
        (p, Inl _) \<Rightarrow> (dl_finishRx (s\<lparr>dl_env := p\<rparr>), [], Some Success)
      | (p, Inr _) \<Rightarrow>
          let s1 = s\<lparr>dl_env := p, dl_rx := (dl_rx s)\<lparr>rx_waiting := True\<rparr>\<rparr> in
          (case env_pollReceive E p of
             (p2, Inr Pending) \<Rightarrow> (s1\<lparr>dl_env := p2\<rparr>, [], Some Pending)
           | (p2, Inr Success) \<Rightarrow>
               (case env_receivedFrameView E p2 of
                  (p3, Inl _) \<Rightarrow> (dl_finishRx (s1\<lparr>dl_env := p3\<rparr>), [], Some Success)
                | (p3, Inr buf) \<Rightarrow>
                    (case rx_buffer (s1\<lparr>dl_env := p3, dl_rx := (dl_rx s1)\<lparr>rx_waiting := False\<rparr>\<rparr>) buf of
                       (s4, out) \<Rightarrow>
                         (s4\<lparr>dl_rx := (dl_rx s4)\<lparr>rx_readIndex := rx_readIndex (dl_rx s4) + 1\<rparr>\<rparr>,
                          (case out of None \<Rightarrow> [] | Some f \<Rightarrow> [f]), None)))
           | (p2, _) \<Rightarrow> (dl_finishRx (s1\<lparr>dl_env := p2\<rparr>), [], Some Success)))"

fun rx_loop ::
    "'p link_env \<Rightarrow> nat \<Rightarrow> 'p datalink \<Rightarrow> ldata_frame list \<Rightarrow>
     ('p datalink \<times> ldata_frame list \<times> progress result) option" where
  "rx_loop E 0 s out = None"
| "rx_loop E (Suc n) s out =
     (if \<not> rx_active (dl_rx s) then Some (dl_finishRx s, out, Inr Success)
      else case rx_turn E s of
        (s1, fs, Some r) \<Rightarrow> Some (s1, out @ fs, Inr r)
      | (s1, fs, None) \<Rightarrow> rx_loop E n s1 (out @ fs))"

definition dl_pollReceive ::
    "'p link_env \<Rightarrow> nat \<Rightarrow> 'p datalink \<Rightarrow> ('p datalink \<times> ldata_frame list \<times> progress result) option" where
  "dl_pollReceive E fuel s =
     (if \<not> rx_active (dl_rx s) then Some (s, [], Inl OperationNotReady) else rx_loop E fuel s [])"

text \<open>\<open>processRxAvailableInternal\<close>: every outcome of the one \<open>pollReceive\<close> ends the operation.\<close>

definition processRxAvailableInternal ::
    "'p link_env \<Rightarrow> nat \<Rightarrow> 'p datalink \<Rightarrow> u32 \<Rightarrow> ('p datalink \<times> ldata_frame list \<times> nat) option" where
  "processRxAvailableInternal E fuel s timeout =
     (case dl_beginReceive s timeout of
        (s1, Inl _) \<Rightarrow> Some (s1, [], 0)
      | (s1, Inr _) \<Rightarrow>
          map_option (\<lambda>(s2, fs, r). let s3 = dl_finishRx s2 in (s3, fs, dl_lastDelivered s3))
            (dl_pollReceive E fuel s1))"

definition processRxAvailable ::
    "'p link_env \<Rightarrow> nat \<Rightarrow> 'p datalink \<Rightarrow> u32 \<Rightarrow> ('p datalink \<times> ldata_frame list \<times> nat) option" where
  "processRxAvailable E fuel s timeout =
     (if dl_hasRxTask s then Some (s, [], 0) else processRxAvailableInternal E fuel s timeout)"

definition physicalRxCallback ::
    "'p link_env \<Rightarrow> nat \<Rightarrow> 'p datalink \<Rightarrow> ('p datalink \<times> ldata_frame list) option" where
  "physicalRxCallback E fuel s =
     (let direct = (\<lambda>s. if dl_rxProcessing s then Some (s, [])
                        else map_option (\<lambda>(s2, fs, n). (s2, fs)) (processRxAvailableInternal E fuel s 0)) in
      if dl_hasRxTask s then
        (case env_notify E (dl_env s) of (p, notified) \<Rightarrow>
           if notified then Some (s\<lparr>dl_env := p\<rparr>, []) else direct (s\<lparr>dl_env := p\<rparr>))
      else direct s)"

section \<open>Group addresses\<close>

definition publishAckGroupAddresses :: "'p link_env \<Rightarrow> 'p datalink \<Rightarrow> 'p datalink" where
  "publishAckGroupAddresses E s = s\<lparr>dl_env := env_setAckGroupAddresses E (dl_env s) (dl_groups s)\<rparr>"

definition addGroupAddress ::
    "'p link_env \<Rightarrow> 'p datalink \<Rightarrow> group_address \<Rightarrow> 'p datalink \<times> unit result" where
  "addGroupAddress E s a =
     (if a \<in> set (dl_groups s) then (s, Inr ())
      else case fv_push_back MAX_GROUP_ADDRESSES (dl_groups s) a of
        (gs, False) \<Rightarrow> (s, Inl BufferTooSmall)
      | (gs, True) \<Rightarrow> (publishAckGroupAddresses E (s\<lparr>dl_groups := gs\<rparr>), Inr ()))"

definition index_of :: "'a \<Rightarrow> 'a list \<Rightarrow> nat" where
  "index_of a xs = length (takeWhile (\<lambda>x. x \<noteq> a) xs)"

definition removeGroupAddress ::
    "'p link_env \<Rightarrow> 'p datalink \<Rightarrow> group_address \<Rightarrow> 'p datalink \<times> unit result" where
  "removeGroupAddress E s a =
     (if a \<in> set (dl_groups s)
      then (publishAckGroupAddresses E (s\<lparr>dl_groups := fv_erase (dl_groups s) (index_of a (dl_groups s))\<rparr>),
            Inr ())
      else (s, Inl OperationFailed))"

definition clearGroupAddresses :: "'p link_env \<Rightarrow> 'p datalink \<Rightarrow> 'p datalink" where
  "clearGroupAddresses E s = publishAckGroupAddresses E (s\<lparr>dl_groups := []\<rparr>)"

definition setPromiscuousMode :: "'p datalink \<Rightarrow> bool \<Rightarrow> 'p datalink" where
  "setPromiscuousMode s on = s\<lparr>dl_promiscuous := on\<rparr>"

section \<open>Lemmas: transmission\<close>

text \<open>The TX mutex is held exactly while an operation is active, and the retry counters stay within
  their budgets.\<close>

definition tx_ok :: "'p link_env \<Rightarrow> 'p datalink \<Rightarrow> bool" where
  "tx_ok E s \<longleftrightarrow> (tx_active (dl_tx s) \<longleftrightarrow> dl_mutexHeld s) \<and> env_hasMutex E \<and>
     tx_busyAttempt (dl_tx s) \<le> MAX_BUSY_RETRIES \<and> tx_repeatAttempt (dl_tx s) \<le> MAX_ACK_RETRIES"

lemmas tx_defs = dl_pollOutcome_def dl_finishTx_def tx_operation_init_def markTxFrameAsRepeated_def
  dl_now_def Let_def

lemma dl_finishTx_simps [simp]:
  "dl_tx (dl_finishTx E s) = tx_operation_init"
  "dl_initialized (dl_finishTx E s) = dl_initialized s"
  "tx_ok E s \<Longrightarrow> \<not> dl_mutexHeld (dl_finishTx E s)"
  by (auto simp: dl_finishTx_def tx_ok_def)

lemma tx_operation_init_simps [simp]:
  "\<not> tx_active tx_operation_init" "tx_busyAttempt tx_operation_init = 0"
  "tx_repeatAttempt tx_operation_init = 0"
  by (simp_all add: tx_operation_init_def)

lemma dl_finishTx_ok [simp]: "tx_ok E s \<Longrightarrow> tx_ok E (dl_finishTx E s)"
  using dl_finishTx_simps(3) [of E s] by (simp add: tx_ok_def)

lemma tx_ok_env [simp]:
  "tx_ok E (s\<lparr>dl_env := p\<rparr>) = tx_ok E s" "tx_ok E (s\<lparr>dl_stats := st\<rparr>) = tx_ok E s"
  by (simp_all add: tx_ok_def)

lemma dl_now_keeps:
  "dl_now E s = (s', t) \<Longrightarrow> tx_ok E s' = tx_ok E s \<and> dl_tx s' = dl_tx s \<and>
     dl_initialized s' = dl_initialized s \<and> dl_mutexHeld s' = dl_mutexHeld s"
  by (auto simp: dl_now_def tx_ok_def split: option.splits prod.splits)

lemma dl_pollOutcome_cases:
  assumes "dl_pollOutcome E s now = (s', r)" "tx_active (dl_tx s)"
  shows "dl_initialized s' = dl_initialized s \<and> (tx_active (dl_tx s') \<longleftrightarrow> r = Inr Pending) \<and>
    (tx_ok E s \<longrightarrow> tx_ok E s')"
  using assms
  by (auto simp: dl_pollOutcome_def Let_def markTxFrameAsRepeated_def tx_ok_def dl_finishTx_def
      split: prod.splits sum.splits progress.splits if_splits)

text \<open>An active poll: it waits for the retry time, asks for the outcome, or hands the octets to the
  physical layer and asks for the outcome at once.\<close>

lemma dl_pollTransmit_active:
  assumes "dl_initialized s" "tx_active (dl_tx s)" "dl_now E s = (s1, now)"
  obtains (wait) "dl_pollTransmit E s = (s1, Inr Pending)"
      "env_millis E \<noteq> None" "now < tx_retryNotBefore (dl_tx s)"
  | (outcome) "tx_waiting (dl_tx s)" "dl_pollTransmit E s = dl_pollOutcome E s1 now"
  | (started) p sq s3 now' where "\<not> tx_waiting (dl_tx s)"
      "env_beginTransmit E (dl_env s1) (tx_octets (dl_tx s)) = (p, Inr sq)"
      "dl_now E (s1\<lparr>dl_env := p, dl_tx := (dl_tx s)\<lparr>tx_waiting := True, tx_usingPhysical := True,
         tx_sequence := sq, tx_retryNotBefore := 0\<rparr>\<rparr>) = (s3, now')"
      "dl_pollTransmit E s = dl_pollOutcome E s3 now'"
  | (refused) p e where "\<not> tx_waiting (dl_tx s)"
      "env_beginTransmit E (dl_env s1) (tx_octets (dl_tx s)) = (p, Inl e)"
      "dl_pollTransmit E s =
        (if e = EBusy \<and> tx_busyAttempt (dl_tx s) < MAX_BUSY_RETRIES
         then (s1\<lparr>dl_env := p, dl_tx := (dl_tx s)\<lparr>tx_busyAttempt := tx_busyAttempt (dl_tx s) + 1,
                 tx_retryNotBefore := retry_time E now\<rparr>\<rparr>, Inr Pending)
         else (dl_finishTx E (s1\<lparr>dl_env := p\<rparr>), Inr (progressStateFromError e)))"
proof -
  have tx: "dl_tx s1 = dl_tx s" using dl_now_keeps [OF assms(3)] by simp
  obtain p r where b: "env_beginTransmit E (dl_env s1) (tx_octets (dl_tx s)) = (p, r)" by force
  obtain s3 now' where n: "dl_now E (s1\<lparr>dl_env := p, dl_tx := (dl_tx s)\<lparr>tx_waiting := True,
      tx_usingPhysical := True, tx_sequence := projr r, tx_retryNotBefore := 0\<rparr>\<rparr>) = (s3, now')" by force
  show ?thesis
  proof (cases "env_millis E \<noteq> None \<and> tx_retryNotBefore (dl_tx s) \<noteq> 0 \<and> now < tx_retryNotBefore (dl_tx s)")
    case True
    with assms tx show ?thesis by (intro wait) (simp_all add: dl_pollTransmit_def)
  next
    case no_wait: False
    show ?thesis
    proof (cases "tx_waiting (dl_tx s)")
      case True
      with no_wait assms tx show ?thesis by (intro outcome) (auto simp: dl_pollTransmit_def)
    next
      case False
      with no_wait assms tx have poll: "dl_pollTransmit E s = (case env_beginTransmit E (dl_env s1) (tx_octets (dl_tx s)) of (p, r) \<Rightarrow>
        let s2 = s1\<lparr>dl_env := p\<rparr>; t = dl_tx s2 in
        (case r of
           Inr sq \<Rightarrow>
             (case dl_now E (s2\<lparr>dl_tx := t\<lparr>tx_waiting := True, tx_usingPhysical := True,
                                          tx_sequence := sq, tx_retryNotBefore := 0\<rparr>\<rparr>) of
                (s3, now') \<Rightarrow> dl_pollOutcome E s3 now')
         | Inl e \<Rightarrow>
             (if e = EBusy \<and> tx_busyAttempt t < MAX_BUSY_RETRIES
              then (s2\<lparr>dl_tx := t\<lparr>tx_busyAttempt := tx_busyAttempt t + 1,
                                 tx_retryNotBefore := retry_time E now\<rparr>\<rparr>, Inr Pending)
              else (dl_finishTx E s2, Inr (progressStateFromError e)))))"
        by (auto simp: dl_pollTransmit_def)
      show ?thesis
      proof (cases r)
        case (Inl e)
        with False poll b tx show ?thesis by (intro refused [of p e]) (simp_all add: Let_def)
      next
        case (Inr sq)
        with False poll b n tx show ?thesis
          by (intro started [of p sq s3 now']) (simp_all add: Let_def)
      qed
    qed
  qed
qed

lemma dl_pollTransmit_cases:
  assumes "dl_pollTransmit E s = (s', r)" "dl_initialized s"
  shows "dl_initialized s' \<and> (tx_ok E s \<longrightarrow> tx_ok E s') \<and>
    (if tx_active (dl_tx s) then tx_active (dl_tx s') \<longleftrightarrow> r = Inr Pending
     else s' = s \<and> r = Inl OperationNotReady)"
proof (cases "tx_active (dl_tx s)")
  case False
  with assms show ?thesis by (simp add: dl_pollTransmit_def)
next
  case act: True
  obtain s1 now where n: "dl_now E s = (s1, now)" by force
  note k = dl_now_keeps [OF n]
  from assms(2) act n show ?thesis
  proof (cases rule: dl_pollTransmit_active)
    case wait
    with assms act k show ?thesis by simp
  next
    case outcome
    with assms act k dl_pollOutcome_cases [of E s1 now s' r] show ?thesis by simp
  next
    case (started p sq s3 now')
    note k3 = dl_now_keeps [OF started(3)]
    have "tx_ok E s \<Longrightarrow> tx_ok E s3" using k k3 act by (simp add: tx_ok_def)
    with started(4) assms act k k3 dl_pollOutcome_cases [of E s3 now' s' r] show ?thesis by auto
  next
    case (refused p e)
    have "tx_ok E s \<Longrightarrow> tx_ok E (dl_finishTx E (s1\<lparr>dl_env := p\<rparr>))" using k by simp
    with refused(3) assms act k show ?thesis
      by (auto simp: tx_ok_def progressStateFromError_def split: if_splits)
  qed
qed

lemma dl_beginTransmit_cases:
  assumes "dl_beginTransmit E s f = (s', r)"
  shows "dl_initialized s' = dl_initialized s \<and> (tx_ok E s \<longrightarrow> tx_ok E s') \<and>
    (if isOk r then \<not> tx_active (dl_tx s) \<and> tx_active (dl_tx s') \<and> dl_initialized s
     else dl_tx s' = dl_tx s)"
  using assms by (auto simp: dl_beginTransmit_def tx_ok_def split: if_splits prod.splits sum.splits)

interpretation dt: single_flight "dl_beginTransmit E" "dl_pollTransmit E" dl_initialized
  "\<lambda>s. tx_active (dl_tx s)" for E
proof unfold_locales
  fix s s' :: "'a datalink" and f e r
  show "dl_beginTransmit E s f = (s', Inr ()) \<Longrightarrow>
      \<not> tx_active (dl_tx s) \<and> tx_active (dl_tx s') \<and> dl_initialized s'"
    using dl_beginTransmit_cases [of E s f s' "Inr ()"] by simp
  show "dl_initialized s \<Longrightarrow> dl_beginTransmit E s f = (s', Inl e) \<Longrightarrow>
      tx_active (dl_tx s') = tx_active (dl_tx s) \<and> dl_initialized s'"
    using dl_beginTransmit_cases [of E s f s' "Inl e"] by simp
  show "dl_initialized s \<Longrightarrow> tx_active (dl_tx s) \<Longrightarrow> snd (dl_beginTransmit E s f) = Inl EBusy"
    by (simp add: dl_beginTransmit_def)
  show "dl_initialized s \<Longrightarrow> dl_pollTransmit E s = (s', Inr Pending) \<Longrightarrow>
      tx_active (dl_tx s) \<and> tx_active (dl_tx s') \<and> dl_initialized s'"
    using dl_pollTransmit_cases [of E s s' "Inr Pending"] by (simp split: if_splits)
  show "dl_initialized s \<Longrightarrow> dl_pollTransmit E s = (s', r) \<Longrightarrow> r \<noteq> Inr Pending \<Longrightarrow>
      \<not> tx_active (dl_tx s') \<and> dl_initialized s'"
    using dl_pollTransmit_cases [of E s s' r] by (auto split: if_splits)
  show "dl_initialized s \<Longrightarrow> \<not> tx_active (dl_tx s) \<Longrightarrow> snd (dl_pollTransmit E s) = Inl OperationNotReady"
    by (simp add: dl_pollTransmit_def)
qed

text \<open>How far an operation is from its end: the retries left, each worth more polls than the
  physical layer may stay pending, and the polls left in the current attempt.\<close>

definition retry_budget :: "nat \<Rightarrow> nat \<Rightarrow> nat \<Rightarrow> nat" where
  "retry_budget K used d = (6 - used) * (K + 2) + d"

definition tx_distance :: "nat \<Rightarrow> ('p \<Rightarrow> nat) \<Rightarrow> 'p datalink \<Rightarrow> nat" where
  "tx_distance K pend s =
     retry_budget K (tx_busyAttempt (dl_tx s) + tx_repeatAttempt (dl_tx s))
       (if tx_waiting (dl_tx s) then pend (dl_env s) else K + 1)"

lemma retry_budget_less:
  "d < d' \<Longrightarrow> retry_budget K used d < retry_budget K used d'"
  "d \<le> d' \<Longrightarrow> retry_budget K used d \<le> retry_budget K used d'"
  by (simp_all add: retry_budget_def)

lemma retry_budget_Suc: "used < 6 \<Longrightarrow> retry_budget K (Suc used) (Suc K) < retry_budget K used d"
proof -
  assume "used < 6"
  then have "6 - used = Suc (6 - Suc used)" by simp
  then show ?thesis by (simp add: retry_budget_def)
qed

lemma dl_pollOutcome_distance:
  assumes "dl_pollOutcome E s now = (s', Inr Pending)" "tx_ok E s" "tx_waiting (dl_tx s)"
    and "\<And>p sq p'. env_pollTransmit E p sq = (p', Inr Pending) \<Longrightarrow> pend p' < pend p"
  shows "tx_distance K pend s' < tx_distance K pend s"
  using assms
  by (auto simp: dl_pollOutcome_def Let_def markTxFrameAsRepeated_def tx_distance_def tx_ok_def
      MAX_BUSY_RETRIES_def MAX_ACK_RETRIES_def intro!: retry_budget_Suc retry_budget_less
      split: prod.splits sum.splits progress.splits if_splits)

lemma dl_pollTransmit_distance:
  assumes "dl_pollTransmit E s = (s', Inr Pending)" "tx_ok E s" "dl_initialized s"
    and "env_millis E = None"
    and pend: "\<And>p sq p'. env_pollTransmit E p sq = (p', Inr Pending) \<Longrightarrow> pend p' < pend p"
    and K: "\<And>p. pend p \<le> K"
  shows "tx_distance K pend s' < tx_distance K pend s"
proof -
  have act: "tx_active (dl_tx s)" using dl_pollTransmit_cases [OF assms(1,3)] by (simp split: if_splits)
  have now: "dl_now E t = (t, 0)" for t :: "'a datalink" using assms(4) by (simp add: dl_now_def)
  from assms(3) act now [of s] show ?thesis
  proof (cases rule: dl_pollTransmit_active)
    case wait
    with assms(4) show ?thesis by simp
  next
    case outcome
    with assms dl_pollOutcome_distance [of E s 0 s' pend K] show ?thesis by simp
  next
    case (started p sq s3 now')
    then have s3: "s3 = s\<lparr>dl_env := p, dl_tx := (dl_tx s)\<lparr>tx_waiting := True, tx_usingPhysical := True,
         tx_sequence := sq, tx_retryNotBefore := 0\<rparr>\<rparr>" using now by simp
    have "tx_ok E s3" using assms(2) by (simp add: s3 tx_ok_def)
    then have "tx_distance K pend s' < tx_distance K pend s3"
      using dl_pollOutcome_distance [of E s3 now' s' pend K] started(4) assms(1) pend s3 by simp
    also have "\<dots> \<le> tx_distance K pend s"
      using started(1) K [of p] by (simp add: tx_distance_def s3 retry_budget_less)
    finally show ?thesis .
  next
    case (refused p e)
    with assms show ?thesis
      by (auto simp: tx_distance_def tx_ok_def MAX_BUSY_RETRIES_def MAX_ACK_RETRIES_def
          progressStateFromError_def intro!: retry_budget_Suc split: if_splits)
  qed
qed

lemma dl_sendLoop_returns:
  assumes "tx_ok E s" "dl_initialized s" "env_millis E = None"
    and "\<And>p sq p'. env_pollTransmit E p sq = (p', Inr Pending) \<Longrightarrow> pend p' < pend p"
    and "\<And>p. pend p \<le> K" and delay: "\<And>p. pend (env_taskDelay E p) \<le> pend p"
  shows "tx_distance K pend s < n \<Longrightarrow>
    \<exists>s' r. dl_sendLoop E n s = Some (s', r) \<and> \<not> tx_active (dl_tx s') \<and> tx_ok E s'"
  using assms(1,2)
proof (induction n arbitrary: s)
  case (Suc n)
  obtain s1 r where p: "dl_pollTransmit E s = (s1, r)" by force
  note c = dl_pollTransmit_cases [OF p Suc.prems(3)]
  show ?case
  proof (cases "r = Inr Pending")
    case True
    let ?s2 = "s1\<lparr>dl_env := env_taskDelay E (dl_env s1)\<rparr>"
    have "tx_distance K pend s1 < tx_distance K pend s"
      using dl_pollTransmit_distance [OF p [unfolded True] Suc.prems(2,3) assms(3,4,5)] .
    moreover have "tx_distance K pend ?s2 \<le> tx_distance K pend s1"
      using delay [of "dl_env s1"] by (simp add: tx_distance_def retry_budget_less)
    ultimately have "\<exists>s' r. dl_sendLoop E n ?s2 = Some (s', r) \<and> \<not> tx_active (dl_tx s') \<and> tx_ok E s'"
      using Suc.prems c by (intro Suc.IH) auto
    with True p show ?thesis by simp
  next
    case False
    then have "\<not> tx_active (dl_tx s1)" "tx_ok E s1" using c Suc.prems(2) by (auto split: if_splits)
    with False p show ?thesis by (auto split: sum.split progress.split)
  qed
qed simp

section \<open>Lemmas: the repetition on the wire\<close>

lemma encode_ctrl_repeated:
  "encode_ctrl ext (f\<lparr>repeated := True\<rparr>) = encode_ctrl ext f AND NOT 0x20"
  by (rule word8_eqI; cases "ldata_frame.priority f") (simp_all add: encode_ctrl_def bit_simps)

lemma encode_body_Cons: "\<exists>rest. encode_body f = encode_ctrl (length (tpdu f) > 16) f # rest \<and>
    encode_body (f\<lparr>repeated := True\<rparr>) = encode_ctrl (length (tpdu f) > 16) (f\<lparr>repeated := True\<rparr>) # rest
    \<and> rest \<noteq> []"
  by (simp add: encode_body_def Let_def)

lemma ldata_isValid_repeated [simp]: "ldata_isValid (f\<lparr>repeated := b\<rparr>) = ldata_isValid f"
  by (simp add: ldata_isValid_def)

lemma markRepeated_encoded:
  "markRepeated (encode_body f @ [calculateChecksum (encode_body f)]) =
     encode_body (f\<lparr>repeated := True\<rparr>) @ [calculateChecksum (encode_body (f\<lparr>repeated := True\<rparr>))]"
proof -
  obtain rest where r: "encode_body f = encode_ctrl (length (tpdu f) > 16) f # rest"
    "encode_body (f\<lparr>repeated := True\<rparr>) = encode_ctrl (length (tpdu f) > 16) (f\<lparr>repeated := True\<rparr>) # rest"
    using encode_body_Cons [of f] by blast
  show ?thesis
    unfolding r markRepeated_def by (simp add: Let_def encode_ctrl_repeated list_update_append)
qed

lemma encodeFrame_repeated:
  assumes "encodeFrame f n = Inr bs"
  shows "encodeFrame (f\<lparr>repeated := True\<rparr>) n = Inr (markRepeated bs)"
proof -
  have "bs = encode_body f @ [calculateChecksum (encode_body f)]" using encodeFrame_Inr [OF assms] by simp
  with assms show ?thesis
    by (auto simp: encodeFrame_def Let_def markRepeated_encoded split: if_splits)
qed

section \<open>Lemmas: reception\<close>

lemma first_free_Some: "first_free bs = Some i \<Longrightarrow> i < length bs \<and> \<not> bs ! i"
  by (induction bs arbitrary: i) (auto split: if_splits)

lemma first_free_None: "first_free bs = None \<longleftrightarrow> (\<forall>b \<in> set bs. b)"
  by (induction bs) auto

lemma allocate_release:
  "first_free bs = Some i \<Longrightarrow> bs[i := True, i := False] = bs"
  using first_free_Some [of bs i] by (metis (full_types) list_update_id list_update_overwrite)

lemma rx_buffer_frameInUse [simp]: "dl_frameInUse (fst (rx_buffer s buf)) = dl_frameInUse s"
  by (auto simp: rx_buffer_def allocateFrame_def releaseFrame_def rememberRxFrame_def Let_def
      dest: allocate_release split: option.split sum.split)

lemma rx_buffer_keeps [simp]:
  "dl_own (fst (rx_buffer s buf)) = dl_own s" "dl_groups (fst (rx_buffer s buf)) = dl_groups s"
  "dl_promiscuous (fst (rx_buffer s buf)) = dl_promiscuous s"
  "dl_hasCallback (fst (rx_buffer s buf)) = dl_hasCallback s"
  "dl_env (fst (rx_buffer s buf)) = dl_env s" "dl_tx (fst (rx_buffer s buf)) = dl_tx s"
  "dl_mutexHeld (fst (rx_buffer s buf)) = dl_mutexHeld s"
  "rx_active (dl_rx (fst (rx_buffer s buf))) = rx_active (dl_rx s)"
  by (auto simp: rx_buffer_def allocateFrame_def releaseFrame_def rememberRxFrame_def Let_def
      split: option.split sum.split)

lemma rx_buffer_decoded:
  assumes "decodeFrame buf ldata_frame_init = Inr f" "False \<in> set (dl_frameInUse s)" "dl_hasCallback s"
  shows "snd (rx_buffer s buf) =
      (if (\<not> toOwnIndividual s f \<and> isRepetitionOfLastRxFrame s f)
          \<or> \<not> isAddressMatch s (destination f) (destinationType f) then None else Some f) \<and>
    dl_lastRx (fst (rx_buffer s buf)) =
      (if \<not> toOwnIndividual s f \<and> isRepetitionOfLastRxFrame s f then dl_lastRx s
       else dl_lastRx (rememberRxFrame f s))"
proof -
  obtain i where i: "first_free (dl_frameInUse s) = Some i"
    using first_free_None [of "dl_frameInUse s"] assms(2) by (cases "first_free (dl_frameInUse s)") auto
  have m: "isAddressMatch (s\<lparr>dl_frameInUse := b, dl_lastRx := l\<rparr>) a ty = isAddressMatch s a ty"
    "isRepetitionOfLastRxFrame (s\<lparr>dl_frameInUse := b\<rparr>) f = isRepetitionOfLastRxFrame s f"
    "toOwnIndividual (s\<lparr>dl_frameInUse := b\<rparr>) f = toOwnIndividual s f" for a ty b l
    by (simp_all add: isAddressMatch_def isRepetitionOfLastRxFrame_def toOwnIndividual_def)
  show ?thesis
    using assms i
    by (auto simp: rx_buffer_def allocateFrame_def Let_def m releaseFrame_def rememberRxFrame_def)
qed

lemma rx_buffer_delivered:
  "dl_hasCallback s \<Longrightarrow> rx_buffer s buf = (s', out) \<Longrightarrow>
     rx_delivered (dl_rx s') = rx_delivered (dl_rx s) + (if out = None then 0 else 1)"
  by (auto simp: rx_buffer_def allocateFrame_def releaseFrame_def rememberRxFrame_def Let_def
      split: option.splits sum.splits if_splits)

lemma rx_turn_continue:
  assumes "rx_turn E s = (s', fs, None)" "rx_active (dl_rx s)" "dl_hasCallback s"
    and "\<And>p t. avail (fst (env_beginReceive E p t)) \<le> (avail p :: nat)"
    and "\<And>p p2 p3 buf. env_pollReceive E p = (p2, Inr Success) \<Longrightarrow>
          env_receivedFrameView E p2 = (p3, Inr buf) \<Longrightarrow> avail p3 < avail p"
  shows "rx_active (dl_rx s') \<and> dl_hasCallback s' \<and> dl_frameInUse s' = dl_frameInUse s \<and>
    rx_delivered (dl_rx s') = rx_delivered (dl_rx s) + length fs \<and> avail (dl_env s') < avail (dl_env s)"
proof -
  let ?b = "if rx_waiting (dl_rx s) then (dl_env s, Inr ())
    else env_beginReceive E (dl_env s) (if rx_readIndex (dl_rx s) = 0 then rx_firstTimeout (dl_rx s) else 0)"
  obtain p p2 p3 buf s4 out where t: "?b = (p, Inr ())" "env_pollReceive E p = (p2, Inr Success)"
    "env_receivedFrameView E p2 = (p3, Inr buf)"
    "rx_buffer (s\<lparr>dl_env := p3, dl_rx := (dl_rx s)\<lparr>rx_waiting := False\<rparr>\<rparr>) buf = (s4, out)"
    "s' = s4\<lparr>dl_rx := (dl_rx s4)\<lparr>rx_readIndex := rx_readIndex (dl_rx s4) + 1\<rparr>\<rparr>"
    "fs = (case out of None \<Rightarrow> [] | Some f \<Rightarrow> [f])"
    using assms(1)
    by (auto simp: rx_turn_def Let_def
        split: prod.splits sum.splits progress.splits if_splits)
  note k = rx_buffer_keeps [of "s\<lparr>dl_env := p3, dl_rx := (dl_rx s)\<lparr>rx_waiting := False\<rparr>\<rparr>" buf]
    rx_buffer_frameInUse [of "s\<lparr>dl_env := p3, dl_rx := (dl_rx s)\<lparr>rx_waiting := False\<rparr>\<rparr>" buf]
  have "avail p \<le> avail (dl_env s)"
    using t(1) assms(4) [of "dl_env s"] by (auto split: if_splits) (metis fst_conv)+
  with assms(5) [OF t(2,3)] have "avail p3 < avail (dl_env s)" by simp
  with t(4-6) k assms(2,3) rx_buffer_delivered [OF _ t(4)] show ?thesis
    by (auto split: option.splits)
qed

lemma rx_turn_return:
  assumes "rx_turn E s = (s', fs, Some r)" "rx_active (dl_rx s)"
  shows "fs = [] \<and> dl_frameInUse s' = dl_frameInUse s \<and>
    dl_lastDelivered (dl_finishRx s') = rx_delivered (dl_rx s)"
  using assms
  by (auto simp: rx_turn_def Let_def dl_finishRx_def rx_operation_init_def
      split: prod.splits sum.splits progress.splits option.splits if_splits)

lemma rx_loop_returns:
  assumes "avail (dl_env s) < n" "rx_active (dl_rx s)" "dl_hasCallback s"
    and av: "\<And>p t. avail (fst (env_beginReceive E p t)) \<le> (avail p :: nat)"
      "\<And>p p2 p3 buf. env_pollReceive E p = (p2, Inr Success) \<Longrightarrow>
          env_receivedFrameView E p2 = (p3, Inr buf) \<Longrightarrow> avail p3 < avail p"
  shows "\<exists>s' fs r. rx_loop E n s out = Some (s', out @ fs, r) \<and> dl_frameInUse s' = dl_frameInUse s \<and>
    dl_lastDelivered (dl_finishRx s') = rx_delivered (dl_rx s) + length fs"
  using assms(1-3)
proof (induction n arbitrary: s out)
  case (Suc n)
  obtain s1 fs1 r where t: "rx_turn E s = (s1, fs1, r)" using prod_cases3 by blast
  show ?case
  proof (cases r)
    case None
    have c: "rx_active (dl_rx s1) \<and> dl_hasCallback s1 \<and> dl_frameInUse s1 = dl_frameInUse s \<and>
        rx_delivered (dl_rx s1) = rx_delivered (dl_rx s) + length fs1 \<and> avail (dl_env s1) < avail (dl_env s)"
      using rx_turn_continue [OF t [unfolded None] Suc.prems(2,3), of avail] av by blast
    with Suc.IH [of s1 "out @ fs1"] Suc.prems(1)
    obtain s' fs r' where "rx_loop E n s1 (out @ fs1) = Some (s', (out @ fs1) @ fs, r')"
      "dl_frameInUse s' = dl_frameInUse s1"
      "dl_lastDelivered (dl_finishRx s') = rx_delivered (dl_rx s1) + length fs" by auto
    with c t None Suc.prems(2) show ?thesis by (auto intro!: exI [of _ "fs1 @ fs"])
  next
    case (Some q)
    with t rx_turn_return [OF t [unfolded Some] Suc.prems(2)] Suc.prems(2) show ?thesis by auto
  qed
qed simp

text \<open>What may happen to a data link, in any order.\<close>

datatype link_event =
    LInit individual_address
  | LBegin ldata_frame
  | LPoll
  | LReceiveTurn
  | LAddGroup group_address
  | LRemoveGroup group_address
  | LClose

fun dl_step :: "'p link_env \<Rightarrow> link_event \<Rightarrow> 'p datalink \<Rightarrow> 'p datalink" where
  "dl_step E (LInit a) s = fst (dl_init E s a)"
| "dl_step E (LBegin f) s = fst (dl_beginTransmit E s f)"
| "dl_step E LPoll s = fst (dl_pollTransmit E s)"
| "dl_step E LReceiveTurn s = fst (rx_turn E s)"
| "dl_step E (LAddGroup a) s = fst (addGroupAddress E s a)"
| "dl_step E (LRemoveGroup a) s = fst (removeGroupAddress E s a)"
| "dl_step E LClose s = dl_close E s"

lemma rx_turn_keeps:
  "rx_turn E s = (s', fs, r) \<Longrightarrow> dl_tx s' = dl_tx s \<and> dl_mutexHeld s' = dl_mutexHeld s \<and>
     dl_frameInUse s' = dl_frameInUse s"
proof -
  assume t: "rx_turn E s = (s', fs, r)"
  have b: "rx_buffer t buf = (t', out) \<Longrightarrow> dl_tx t' = dl_tx t \<and> dl_mutexHeld t' = dl_mutexHeld t \<and>
      dl_frameInUse t' = dl_frameInUse t" for t t' :: "'a datalink" and buf out
    using rx_buffer_keeps [of t buf] rx_buffer_frameInUse [of t buf] by simp
  from t show ?thesis
    by (auto simp: rx_turn_def Let_def dl_finishRx_def dest: b
        split: prod.splits sum.splits progress.splits option.splits if_splits)
qed

lemma dl_step_ok: "tx_ok E s \<Longrightarrow> tx_ok E (dl_step E ev s)"
proof (cases ev)
  case (LInit a)
  assume "tx_ok E s"
  with LInit show ?thesis
    by (auto simp: dl_init_def tx_ok_def Let_def split: prod.split sum.split)
next
  case (LBegin f)
  assume "tx_ok E s"
  with LBegin show ?thesis
    using dl_beginTransmit_cases [of E s f "fst (dl_beginTransmit E s f)" "snd (dl_beginTransmit E s f)"]
    by simp
next
  case LPoll
  assume "tx_ok E s"
  with LPoll show ?thesis
    using dl_pollTransmit_cases [of E s "fst (dl_pollTransmit E s)" "snd (dl_pollTransmit E s)"]
    by (cases "dl_initialized s") (simp_all add: dl_pollTransmit_def)
next
  case LReceiveTurn
  assume "tx_ok E s"
  moreover obtain s' fs r where t: "rx_turn E s = (s', fs, r)" using prod_cases3 by blast
  ultimately show ?thesis using rx_turn_keeps [OF t] LReceiveTurn by (simp add: tx_ok_def)
qed (auto simp: addGroupAddress_def removeGroupAddress_def publishAckGroupAddresses_def dl_close_def
    tx_ok_def fv_push_back_def split: prod.split)

lemma retry_stalls:
  assumes "env_millis E = Some m" "dl_initialized s" "tx_active (dl_tx s)"
    and "0xFFFFFFFF < tx_retryNotBefore (dl_tx s)"
  shows "dl_sendLoop E n s = None"
  using assms(2-)
proof (induction n arbitrary: s)
  case (Suc n)
  obtain p t where m: "m (dl_env s) = (p, t)" by force
  have "ucast t \<le> (0xFFFFFFFF :: u64)"
    using unsigned_less [of t, where ?'a = nat]
    by (simp add: word_le_nat_alt unsigned_ucast_eq take_bit_nat_eq_self)
  then have "ucast t < tx_retryNotBefore (dl_tx s)" using Suc.prems(3) by simp
  moreover have "tx_retryNotBefore (dl_tx s) \<noteq> 0" using Suc.prems(3) by auto
  ultimately have "dl_pollTransmit E s = (s\<lparr>dl_env := p\<rparr>, Inr Pending)"
    using Suc.prems m by (simp add: dl_pollTransmit_def dl_now_def assms(1))
  then show ?case using Suc.IH [of "s\<lparr>dl_env := env_taskDelay E p\<rparr>"] Suc.prems by simp
qed simp

section \<open>Properties\<close>

text \<open>
  C32. The data link accounts for its transmissions: from an open link with nothing under way, after any sequence
  of begin and poll calls and whatever the physical layer, the clock and the mutex do, the begin calls that were
  accepted are as many as the polls that reported an outcome, plus one if a transmission is still under way. So no
  accepted transmission is reported twice, and none is given up for another one without a report. That a
  transmission under way does end is not part of this: it depends on the clock.
\<close>

theorem datalink_exactly_one_outcome:
  assumes "dl_initialized s" "\<not> tx_active (dl_tx s)" and "dt.run E s es 0 0 = (s', accepted, ended)"
  shows "accepted = ended + of_bool (tx_active (dl_tx s'))"
  using assms by (rule dt.exactly_one_outcome)

definition quiet_env :: "progress \<Rightarrow> unit link_env" where
  "quiet_env r = \<lparr>env_init = (\<lambda>p. (p, Inr ())), env_close = id, env_isOpen = (\<lambda>_. True),
     env_beginTransmit = (\<lambda>p bs. (p, Inr 1)), env_pollTransmit = (\<lambda>p sq. (p, Inr r)),
     env_beginReceive = (\<lambda>p t. (p, Inl ETimeout)), env_pollReceive = (\<lambda>p. (p, Inr Pending)),
     env_receivedFrameView = (\<lambda>p. (p, Inr [])), env_setOwnAddress = (\<lambda>p a. p),
     env_setAckGroupAddresses = (\<lambda>p gs. p), env_millis = None, env_hasMutex = True,
     env_createTask = (\<lambda>p. (p, True)), env_lock = (\<lambda>p. (p, True)), env_unlock = id,
     env_taskDelay = id, env_notify = (\<lambda>p. (p, True))\<rparr>"

definition open_link :: "unit datalink" where
  "open_link = fst (dl_init (quiet_env Success) (datalink_init () False) 0x1101)"

theorem datalink_exactly_one_outcome_witness:
  "\<exists>s'. dt.run (quiet_env Success) open_link [Some sample_frame, None, Some sample_frame] 0 0 = (s', 2, 1) \<and>
     (2 :: nat) = 1 + of_bool (tx_active (dl_tx s'))"
proof -
  let ?r = "dt.run (quiet_env Success) open_link [Some sample_frame, None, Some sample_frame] 0 0"
  have enc: "encodeFrame sample_frame TX_BUFFER_SIZE = Inr sample_octets"
    using sample_encode by (simp add: TX_BUFFER_SIZE_def)
  have op: "dl_initialized open_link" "\<not> tx_active (dl_tx open_link)" by code_simp+
  have "snd ?r = (2, 1)"
    using op by (simp add: dl_beginTransmit_def enc quiet_env_def dl_pollTransmit_def dl_now_def
        dl_pollOutcome_def dl_finishTx_def)
  then have eq: "?r = (fst ?r, 2, 1)" by (simp only: prod_eq_iff) simp
  with op have "(2 :: nat) = 1 + of_bool (tx_active (dl_tx (fst ?r)))"
    by (rule datalink_exactly_one_outcome)
  with eq show ?thesis by (intro exI [of _ "fst ?r"] conjI)
qed

text \<open>
  The TX mutex is held exactly while a transmission is active, and neither retry budget is ever
  exceeded (at most three busy retries and three repetitions per frame), after any sequence of
  calls and for every behaviour of the physical layer.
\<close>

theorem datalink_tx_invariant:
  assumes "env_hasMutex E"
  shows "tx_ok E (fold (dl_step E) evs (datalink_init p rxTask))"
proof -
  have "tx_ok E (datalink_init p rxTask)" using assms by (simp add: tx_ok_def datalink_init_def)
  moreover have "tx_ok E (fold (dl_step E) evs s)" if "tx_ok E s" for s
    using that by (induction evs arbitrary: s) (simp_all add: dl_step_ok)
  ultimately show ?thesis by simp
qed

theorem datalink_tx_invariant_witness:
  "tx_ok (quiet_env Busy) (fold (dl_step (quiet_env Busy))
     [LInit 0x1101, LBegin sample_frame, LPoll, LPoll] (datalink_init () False))"
  by (rule datalink_tx_invariant) (simp add: quiet_env_def)

text \<open>
  C30. \<open>sendFrame\<close> returns. Without a timing platform, over a physical layer that answers \<open>Pending\<close>
  at most \<open>K\<close> polls in a row for one attempt, the blocking loop ends after at most \<open>7 * (K + 2)\<close>
  polls with a result, and leaves no transmission active and the mutex free.
\<close>

theorem sendFrame_returns:
  assumes "tx_ok E s" "\<not> tx_active (dl_tx s)" "env_millis E = None"
    and "\<And>p sq p'. env_pollTransmit E p sq = (p', Inr Pending) \<Longrightarrow> pend p' < pend p"
    and "\<And>p. pend p \<le> K" and "\<And>p. pend (env_taskDelay E p) \<le> pend p"
  shows "\<exists>s' r. dl_sendFrame E (7 * (K + 2)) s f = Some (s', r) \<and> \<not> tx_active (dl_tx s') \<and>
    \<not> dl_mutexHeld s'"
proof -
  obtain s1 r where b: "dl_beginTransmit E s f = (s1, r)" by force
  note c = dl_beginTransmit_cases [OF b]
  show ?thesis
  proof (cases r)
    case (Inl e)
    with b c assms(1,2) show ?thesis by (auto simp: dl_sendFrame_def tx_ok_def)
  next
    case (Inr u)
    then have ok: "tx_ok E s1" "dl_initialized s1" using c assms(1) by auto
    have "tx_busyAttempt (dl_tx s1) = 0" "tx_repeatAttempt (dl_tx s1) = 0" "\<not> tx_waiting (dl_tx s1)"
      using b Inr by (auto simp: dl_beginTransmit_def split: if_splits prod.splits sum.splits)
    then have d: "tx_distance K pend s1 < 7 * (K + 2)" by (simp add: tx_distance_def retry_budget_def)
    have "\<exists>s' r. dl_sendLoop E (7 * (K + 2)) s1 = Some (s', r) \<and> \<not> tx_active (dl_tx s') \<and> tx_ok E s'"
      by (rule dl_sendLoop_returns [OF ok assms(3) _ assms(5,6) d]) (rule assms(4))
    with b Inr show ?thesis by (auto simp: dl_sendFrame_def tx_ok_def)
  qed
qed

theorem sendFrame_returns_witness:
  "\<exists>s' r. dl_sendFrame (quiet_env TransmissionFailed) 14 open_link sample_frame = Some (s', r) \<and>
     \<not> tx_active (dl_tx s') \<and> \<not> dl_mutexHeld s'"
proof -
  have "tx_ok (quiet_env TransmissionFailed) open_link" "\<not> tx_active (dl_tx open_link)" by code_simp+
  from sendFrame_returns [OF this, of "\<lambda>_. 0" 0 sample_frame] show ?thesis
    by (simp add: quiet_env_def)
qed

definition wrap_env :: "(bool \<times> u32) link_env" where
  "wrap_env = \<lparr>env_init = (\<lambda>p. (p, Inr ())), env_close = id, env_isOpen = (\<lambda>_. True),
     env_beginTransmit = (\<lambda>p bs. (p, Inr 1)),
     env_pollTransmit = (\<lambda>(busy, t) sq. ((False, t), Inr (if busy then Busy else Success))),
     env_beginReceive = (\<lambda>p t. (p, Inl ETimeout)), env_pollReceive = (\<lambda>p. (p, Inr Pending)),
     env_receivedFrameView = (\<lambda>p. (p, Inr [])), env_setOwnAddress = (\<lambda>p a. p),
     env_setAckGroupAddresses = (\<lambda>p gs. p), env_millis = Some (\<lambda>(busy, t). ((busy, t), t)),
     env_hasMutex = True, env_createTask = (\<lambda>p. (p, True)), env_lock = (\<lambda>p. (p, True)),
     env_unlock = id, env_taskDelay = (\<lambda>(busy, t). (busy, t + 1)), env_notify = (\<lambda>p. (p, True))\<rparr>"

text \<open>
  With a timing platform the loop may hang for ever: the retry time is computed in 64 bits from
  the 32-bit millisecond counter. When a busy attempt falls into the last three milliseconds before
  the counter wraps, the retry time lies beyond every value the counter takes, and \<open>sendFrame\<close>
  never returns although the physical layer would accept the frame on the next attempt.
\<close>

theorem sendFrame_hangs_at_clock_wrap:
  "dl_sendFrame wrap_env fuel
     (fst (dl_init wrap_env (datalink_init (True, 0xFFFFFFFD) False) 0x1101)) sample_frame = None"
proof -
  let ?s = "fst (dl_init wrap_env (datalink_init (True, 0xFFFFFFFD) False) 0x1101)"
  let ?b = "dl_beginTransmit wrap_env ?s sample_frame"
  let ?p = "dl_pollTransmit wrap_env (fst ?b)"
  have enc: "encodeFrame sample_frame TX_BUFFER_SIZE = Inr sample_octets"
    using sample_encode by (simp add: TX_BUFFER_SIZE_def)
  note defs = dl_init_def datalink_init_def wrap_env_def dl_beginTransmit_def enc tx_operation_init_def
    dl_pollTransmit_def dl_now_def dl_pollOutcome_def MAX_BUSY_RETRIES_def retry_time_def Let_def
  have b: "snd ?b = Inr ()" by (simp add: defs)
  have p: "snd ?p = Inr Pending" "dl_initialized (fst ?p)" "tx_active (dl_tx (fst ?p))"
    "0xFFFFFFFF < tx_retryNotBefore (dl_tx (fst ?p))"
    by (simp_all add: defs)
  have m: "env_millis wrap_env = Some (\<lambda>(busy, t). ((busy, t), t))" by (simp add: wrap_env_def)
  let ?s2 = "(fst ?p)\<lparr>dl_env := env_taskDelay wrap_env (dl_env (fst ?p))\<rparr>"
  have "dl_sendLoop wrap_env n ?s2 = None" for n
    using p by (intro retry_stalls [OF m]) simp_all
  then have "dl_sendLoop wrap_env fuel (fst ?b) = None"
    using p(1) by (cases fuel) (simp_all add: case_prod_beta)
  with b show ?thesis by (simp add: dl_sendFrame_def case_prod_beta)
qed

text \<open>
  A repetition is what the sender says it is, and the receiver indicates it once: the octets
  that go out after a NAK or a missing acknowledge are the encoding of the same frame with the
  repeat flag set; a station that received the first copy of a group or broadcast frame and then
  the repetition indicates the frame once, while a repetition to its own individual address is
  indicated again, for the transport layer to answer.
\<close>

theorem repetition_indicated_once:
  assumes "encodeFrame f n = Inr bs" "\<not> repeated f"
    and "False \<in> set (dl_frameInUse s)" "dl_hasCallback s"
    and "rx_buffer s bs = (s1, out)"
  defines "g \<equiv> f\<lparr>standardFrame := length (tpdu f) \<le> 16\<rparr>"
  shows "encodeFrame (f\<lparr>repeated := True\<rparr>) n = Inr (markRepeated bs) \<and>
    out = (if isAddressMatch s (destination f) (destinationType f) then Some g else None) \<and>
    snd (rx_buffer s1 (markRepeated bs)) =
      (if toOwnIndividual s f \<and> isAddressMatch s (destination f) (destinationType f)
       then Some (g\<lparr>repeated := True\<rparr>) else None)"
proof -
  have d: "decodeFrame bs ldata_frame_init = Inr g"
    "decodeFrame (markRepeated bs) ldata_frame_init = Inr (g\<lparr>repeated := True\<rparr>)"
    using encode_decode [OF assms(1)] encode_decode [OF encodeFrame_repeated [OF assms(1)]]
    by (simp_all add: g_def)
  note r1 = rx_buffer_decoded [OF d(1) assms(3,4)]
  have first: "\<not> isRepetitionOfLastRxFrame s g"
    using assms(2) by (simp add: isRepetitionOfLastRxFrame_def g_def)
  have s1: "dl_lastRx s1 = dl_lastRx (rememberRxFrame g s)" "False \<in> set (dl_frameInUse s1)" "dl_hasCallback s1"
    "dl_own s1 = dl_own s" "dl_groups s1 = dl_groups s" "dl_promiscuous s1 = dl_promiscuous s"
    using assms(3-5) r1 first rx_buffer_keeps [of s bs] rx_buffer_frameInUse [of s bs] by simp_all
  have rep: "isRepetitionOfLastRxFrame s1 (g\<lparr>repeated := True\<rparr>)"
    using s1(1) by (simp add: isRepetitionOfLastRxFrame_def rememberRxFrame_def)
  have m: "isAddressMatch s1 a ty = isAddressMatch s a ty" "toOwnIndividual s1 h = toOwnIndividual s h" for a ty h
    using s1 by (simp_all add: isAddressMatch_def toOwnIndividual_def)
  have gf: "toOwnIndividual s g = toOwnIndividual s f"
    "toOwnIndividual s (g\<lparr>repeated := True\<rparr>) = toOwnIndividual s f"
    "destination g = destination f" "destinationType g = destinationType f"
    by (simp_all add: g_def toOwnIndividual_def)
  have "out = (if isAddressMatch s (destination f) (destinationType f) then Some g else None)"
    using r1 first gf assms(5) by simp
  moreover have "snd (rx_buffer s1 (markRepeated bs)) =
      (if toOwnIndividual s f \<and> isAddressMatch s (destination f) (destinationType f)
       then Some (g\<lparr>repeated := True\<rparr>) else None)"
    using rx_buffer_decoded [OF d(2) s1(2,3)] rep m gf by simp
  ultimately show ?thesis using encodeFrame_repeated [OF assms(1)] by simp
qed

theorem repetition_indicated_once_witness:
  "snd (rx_buffer (fst (rx_buffer (open_link\<lparr>dl_promiscuous := True, dl_hasCallback := True\<rparr>) sample_octets))
     (markRepeated sample_octets)) = None"
proof -
  let ?s = "open_link\<lparr>dl_promiscuous := True, dl_hasCallback := True\<rparr>"
  have "\<not> repeated sample_frame" "False \<in> set (dl_frameInUse ?s)" "dl_hasCallback ?s"
    "\<not> toOwnIndividual ?s sample_frame"
    by code_simp+
  then show ?thesis using repetition_indicated_once [OF sample_encode, of ?s] by (simp add: prod_eq_iff)
qed

text \<open>
  An open, idle data link whose mutex is free accepts exactly the valid frames of up to 255
  TPDU octets: a frame with the full 254-octet APDU (256 TPDU octets) is valid for the codec but
  needs 264 octets, one more than the transmit buffer holds, and is refused with
  \<open>BufferTooSmall\<close>.
\<close>

theorem begin_accepts_up_to_255:
  assumes "dl_initialized s" "\<not> tx_active (dl_tx s)" "snd (env_lock E (dl_env s))"
  shows "snd (dl_beginTransmit E s f) =
    (if \<not> ldata_isValid f then Inl InvalidParameter
     else if length (tpdu f) = 256 then Inl BufferTooSmall else Inr ())"
proof -
  obtain p where p: "env_lock E (dl_env s) = (p, True)" using assms(3) by (metis prod.collapse)
  show ?thesis
    using assms(1,2) p valid_length [of f]
    by (auto simp: dl_beginTransmit_def encodeFrame_def TX_BUFFER_SIZE_def Let_def)
qed

theorem begin_accepts_up_to_255_witness:
  "snd (dl_beginTransmit (quiet_env Success) open_link
     (sample_frame\<lparr>tpdu := replicate 256 0\<rparr>)) = Inl BufferTooSmall"
proof -
  have h: "dl_initialized open_link" "\<not> tx_active (dl_tx open_link)"
    "snd (env_lock (quiet_env Success) (dl_env open_link))"
    by code_simp+
  have "ldata_isValid (sample_frame\<lparr>tpdu := replicate 256 0\<rparr>)"
    by (simp add: ldata_isValid_def sample_frame_def ldata_frame_init_def tpduPayloadLength_def
        MAX_APDU_SIZE_def knx_defs)
  then show ?thesis by (simp add: begin_accepts_up_to_255 [OF h])
qed

text \<open>
  Processing the receive queue returns and counts: over a physical layer with finitely many
  frames waiting (\<open>avail\<close>), one call ends within \<open>avail + 1\<close> turns of its loop, returns the number of
  frames it passed to the callback, gives every pool slot back and leaves reception idle.
\<close>

theorem process_rx_returns:
  assumes "\<not> dl_hasRxTask s" "\<not> dl_rxProcessing s" "\<not> rx_active (dl_rx s)" "dl_hasCallback s"
    and "\<And>p t. avail (fst (env_beginReceive E p t)) \<le> (avail p :: nat)"
    and "\<And>p p2 p3 buf. env_pollReceive E p = (p2, Inr Success) \<Longrightarrow>
          env_receivedFrameView E p2 = (p3, Inr buf) \<Longrightarrow> avail p3 < avail p"
  shows "\<exists>s' fs. processRxAvailable E (Suc (avail (dl_env s))) s timeout = Some (s', fs, length fs) \<and>
    dl_frameInUse s' = dl_frameInUse s \<and> \<not> dl_rxProcessing s' \<and> \<not> rx_active (dl_rx s')"
proof -
  let ?s1 = "s\<lparr>dl_rxProcessing := True, dl_lastDelivered := 0,
    dl_rx := rx_operation_init\<lparr>rx_active := True, rx_firstTimeout := timeout\<rparr>\<rparr>"
  have b: "dl_beginReceive s timeout = (?s1, Inr ())"
    using assms(2,3) by (simp add: dl_beginReceive_def Let_def)
  have "\<exists>s' fs r. rx_loop E (Suc (avail (dl_env s))) ?s1 [] = Some (s', [] @ fs, r) \<and>
      dl_frameInUse s' = dl_frameInUse ?s1 \<and>
      dl_lastDelivered (dl_finishRx s') = rx_delivered (dl_rx ?s1) + length fs"
  proof (rule rx_loop_returns [where avail = avail])
    show "avail (dl_env ?s1) < Suc (avail (dl_env s))" "rx_active (dl_rx ?s1)" "dl_hasCallback ?s1"
      using assms(4) by simp_all
  qed (use assms(5,6) in blast)+
  then obtain s' fs r where l: "rx_loop E (Suc (avail (dl_env s))) ?s1 [] = Some (s', fs, r)"
    "dl_frameInUse s' = dl_frameInUse s" "dl_lastDelivered (dl_finishRx s') = length fs"
    by (auto simp: rx_operation_init_def)
  then have "processRxAvailable E (Suc (avail (dl_env s))) s timeout = Some (dl_finishRx s', fs, length fs)"
    using assms(1) b
    by (simp add: processRxAvailable_def processRxAvailableInternal_def dl_pollReceive_def Let_def
        del: rx_loop.simps)
  moreover have "dl_frameInUse (dl_finishRx s') = dl_frameInUse s" "\<not> dl_rxProcessing (dl_finishRx s')"
    "\<not> rx_active (dl_rx (dl_finishRx s'))"
    using l(2) by (simp_all add: dl_finishRx_def rx_operation_init_def)
  ultimately show ?thesis by blast
qed

definition queue_env :: "bytes list link_env" where
  "queue_env = \<lparr>env_init = (\<lambda>p. (p, Inr ())), env_close = id, env_isOpen = (\<lambda>_. True),
     env_beginTransmit = (\<lambda>p bs. (p, Inr 1)), env_pollTransmit = (\<lambda>p sq. (p, Inr Success)),
     env_beginReceive = (\<lambda>p t. (p, Inr ())),
     env_pollReceive = (\<lambda>p. (p, Inr (if p = [] then Timeout else Success))),
     env_receivedFrameView = (\<lambda>p. case p of [] \<Rightarrow> ([], Inl OperationFailed) | b # q \<Rightarrow> (q, Inr b)),
     env_setOwnAddress = (\<lambda>p a. p), env_setAckGroupAddresses = (\<lambda>p gs. p), env_millis = None,
     env_hasMutex = True, env_createTask = (\<lambda>p. (p, True)), env_lock = (\<lambda>p. (p, True)),
     env_unlock = id, env_taskDelay = id, env_notify = (\<lambda>p. (p, True))\<rparr>"

theorem process_rx_returns_witness:
  "\<exists>s' fs. processRxAvailable queue_env 3
     ((datalink_init [sample_octets, sample_octets] False)\<lparr>dl_hasCallback := True\<rparr>) 100 =
       Some (s', fs, length fs) \<and> dl_frameInUse s' = replicate FRAME_POOL_SIZE False"
proof -
  let ?s = "(datalink_init [sample_octets, sample_octets] False)\<lparr>dl_hasCallback := True\<rparr>"
  have h: "\<not> dl_hasRxTask ?s" "\<not> dl_rxProcessing ?s" "\<not> rx_active (dl_rx ?s)" "dl_hasCallback ?s"
    "dl_frameInUse ?s = replicate FRAME_POOL_SIZE False"
    by (simp_all add: datalink_init_def rx_operation_init_def)
  have "\<exists>s' fs. processRxAvailable queue_env (Suc (length (dl_env ?s))) ?s 100 = Some (s', fs, length fs) \<and>
      dl_frameInUse s' = dl_frameInUse ?s \<and> \<not> dl_rxProcessing s' \<and> \<not> rx_active (dl_rx s')"
    by (rule process_rx_returns [OF h(1-4)]) (auto simp: queue_env_def split: if_splits list.splits)
  then show ?thesis using h(5) by (auto simp: datalink_init_def numeral_eq_Suc)
qed

end
