(* ===== verification/Ip_Bridge.thy ===== *)
theory Ip_Bridge
  imports Data_Link Tunneling_Spec
begin

text \<open>
  The TP1 to IP interface bridge (\<open>src/network/tp1_ip_interface_bridge.cpp\<close>): a TP1 data link whose
  frames go to every tunnelling channel as cEMI, and a tunnelling server whose cEMI frames go to the
  TP1 line. The main results: a frame that enters one bridge from its line and reaches another
  through a tunnel is sent on the other line unchanged, and a transport control frame never does.
\<close>

section \<open>State and operations\<close>

record bridge_statistics =
  bs_tp1ToIpForwarded :: u64
  bs_ipToTp1Forwarded :: u64
  bs_tp1ToIpDropped :: u64
  bs_ipToTp1Dropped :: u64

record ('d, 'p) bridge =
  br_line :: "'d datalink"
  br_server :: "'p tserver"
  br_initialized :: bool
  br_stats :: bridge_statistics

definition bridge_new :: "'d datalink \<Rightarrow> 'p tserver \<Rightarrow> ('d, 'p) bridge" where
  "bridge_new line server = \<lparr>br_line = line, br_server = server, br_initialized = False,
     br_stats = \<lparr>bs_tp1ToIpForwarded = 0, bs_ipToTp1Forwarded = 0, bs_tp1ToIpDropped = 0,
       bs_ipToTp1Dropped = 0\<rparr>\<rparr>"

definition br_init :: "('d, 'p) bridge \<Rightarrow> ('d, 'p) bridge \<times> unit result" where
  "br_init b =
     (if br_initialized b then (b, Inr ())
      else (b\<lparr>br_initialized := True,
              br_line := (setPromiscuousMode (br_line b) True)\<lparr>dl_hasCallback := True\<rparr>,
              br_server := ts_setReceiveCallback (br_server b) True\<rparr>, Inr ()))"

definition br_close :: "('d, 'p) bridge \<Rightarrow> ('d, 'p) bridge" where
  "br_close b =
     (if \<not> br_initialized b then b
      else b\<lparr>br_initialized := False, br_line := (br_line b)\<lparr>dl_hasCallback := False\<rparr>,
             br_server := ts_setReceiveCallback (br_server b) False\<rparr>)"

definition br_count :: "(bridge_statistics \<Rightarrow> bridge_statistics) \<Rightarrow> ('d, 'p) bridge \<Rightarrow> ('d, 'p) bridge" where
  "br_count f b = b\<lparr>br_stats := f (br_stats b)\<rparr>"

text \<open>\<open>0x29\<close> is L_Data.ind.\<close>

definition onTp1Frame :: "'p udp_env \<Rightarrow> ldata_frame \<Rightarrow> ('d, 'p) bridge \<Rightarrow> ('d, 'p) bridge" where
  "onTp1Frame E f b =
     (case encodeCemiLData f 0x29 kMaxCemiLDataSize of
        Inl _ \<Rightarrow> br_count (\<lambda>st. st\<lparr>bs_tp1ToIpDropped := bs_tp1ToIpDropped st + 1\<rparr>) b
      | Inr cemi \<Rightarrow>
          (case ts_sendCemiToAll E (br_server b) cemi of
             (s1, Inl _) \<Rightarrow> br_count (\<lambda>st. st\<lparr>bs_tp1ToIpDropped := bs_tp1ToIpDropped st + 1\<rparr>) (b\<lparr>br_server := s1\<rparr>)
           | (s1, Inr n) \<Rightarrow> br_count (\<lambda>st. st\<lparr>bs_tp1ToIpForwarded := bs_tp1ToIpForwarded st + of_nat n\<rparr>)
                              (b\<lparr>br_server := s1\<rparr>)))"

text \<open>\<open>None\<close>: the decoder read outside the frame, or the blocking send has not returned with the
  fuel given.\<close>

definition onTunnelingCemi ::
  "'d link_env \<Rightarrow> nat \<Rightarrow> bytes \<Rightarrow> ('d, 'p) bridge \<Rightarrow> ('d, 'p) bridge option" where
  "onTunnelingCemi E fuel cemi b =
     (case decodeCemiLData cemi ldata_frame_init of
        None \<Rightarrow> None
      | Some (Inl _) \<Rightarrow> Some (br_count (\<lambda>st. st\<lparr>bs_ipToTp1Dropped := bs_ipToTp1Dropped st + 1\<rparr>) b)
      | Some (Inr (f, mc)) \<Rightarrow>
          (case dl_sendFrame E fuel (br_line b) f of
             None \<Rightarrow> None
           | Some (d, Inl _) \<Rightarrow> Some (br_count (\<lambda>st. st\<lparr>bs_ipToTp1Dropped := bs_ipToTp1Dropped st + 1\<rparr>) (b\<lparr>br_line := d\<rparr>))
           | Some (d, Inr _) \<Rightarrow> Some (br_count (\<lambda>st. st\<lparr>bs_ipToTp1Forwarded := bs_ipToTp1Forwarded st + 1\<rparr>) (b\<lparr>br_line := d\<rparr>))))"

section \<open>Sending to every channel\<close>

text \<open>The datagram a channel gets for a cEMI frame.\<close>

definition slot_datagram :: "bytes \<Rightarrow> channel_slot \<Rightarrow> ip_address \<times> u16 \<times> bytes" where
  "slot_datagram cemi sl =
     (ci_remoteAddress (slot_info sl), ci_remotePort (slot_info sl),
      packet kServiceTunnelingRequest
        ([kTunnelingHeaderLength, ci_channelId (slot_info sl), ci_nextTxSequence (slot_info sl), 0] @ cemi))"

lemma sendCemi_sends:
  assumes "socket_logs E W" "ts_ok s" "ts_isOpen E s" "length cemi \<le> 1490"
    and "i < length (ts_channels s)" "slot_active (ts_channels s ! i)"
  shows "\<exists>s1 sl. ts_sendCemi E s (ci_channelId (slot_info (ts_channels s ! i))) cemi = (s1, Inr ())
    \<and> W (ts_env s1) = W (ts_env s) @ [slot_datagram cemi (ts_channels s ! i)]
    \<and> ts_channels s1 = (ts_channels s)[i := sl] \<and> ts_ok s1 \<and> ts_isOpen E s1"
proof -
  let ?c = "slot_info (ts_channels s ! i)"
  have ok: "slots_ok (ts_channels s)" using assms(2) by (simp add: ts_ok_def)
  have id: "ci_channelId ?c = of_nat (Suc i)" using slots_ok_id [OF ok assms(5,6)] by simp
  have small: "i < 255" using assms(5) ok by (simp add: slots_ok_def)
  have found: "findChannelById (ts_channels s) (ci_channelId ?c) = Some i"
    using findChannelById_abs [OF ok] abs_channels_nth [OF ok assms(5)] unat_Suc [OF small] assms(6)
    by (simp add: id abs_slot_def del: of_nat_Suc)
  let ?bss = "[[kTunnelingHeaderLength, ci_channelId ?c, ci_nextTxSequence ?c, 0], cemi]"
  have "6 + length (concat ?bss) \<le> kUdpBufferSize" using assms(4) by (simp add: kUdpBufferSize_def)
  from ts_transmit_answers [OF assms(1,2) this, of kServiceTunnelingRequest "ci_remoteAddress ?c" "ci_remotePort ?c"]
  obtain s1 where s1: "ts_transmit E (pw_packet kServiceTunnelingRequest ?bss)
        (ci_remoteAddress ?c) (ci_remotePort ?c) s = (s1, Inr ())"
      "answered E W (ci_remoteAddress ?c, ci_remotePort ?c) (packet kServiceTunnelingRequest (concat ?bss)) s s1"
      "ts_channels s1 = ts_channels s" "ts_ok s1"
    by blast
  let ?s2 = "markChannelActivity E i
    (upd_slot i (upd_info (\<lambda>c. c\<lparr>ci_nextTxSequence := ci_nextTxSequence c + 1\<rparr>)) s1)"
  have "ts_sendCemi E s (ci_channelId ?c) cemi = (?s2, Inr ())"
    using found s1 assms(3) by (simp add: ts_sendCemi_def Let_def encoders_as_packets)
  moreover have "ts_ok ?s2" using s1(4) by (intro markChannelActivity_ok upd_info_ok) simp_all
  moreover have "W (ts_env ?s2) = W (ts_env s) @ [slot_datagram cemi (ts_channels s ! i)]" "ts_isOpen E ?s2"
    using s1(2) assms(3) socket_logs_send [OF assms(1)] by (simp_all add: answered_def slot_datagram_def ts_isOpen_def)
  moreover have "\<exists>sl. ts_channels ?s2 = (ts_channels s)[i := sl]" using s1(3) by (simp, blast)
  ultimately show ?thesis by blast
qed

lemma send_all_loop_sends:
  assumes "socket_logs E W" "length cemi \<le> 1490" "distinct is"
    and "ts_ok s" "ts_isOpen E s" "\<forall>i \<in> set is. i < length (ts_channels s)"
  shows "\<exists>s1. send_all_loop E cemi is n s = (s1, n + length (filter (\<lambda>i. slot_active (ts_channels s ! i)) is))
    \<and> W (ts_env s1) = W (ts_env s) @
        map (\<lambda>i. slot_datagram cemi (ts_channels s ! i)) (filter (\<lambda>i. slot_active (ts_channels s ! i)) is)
    \<and> ts_isOpen E s1"
  using assms(3-)
proof (induction "is" arbitrary: s n)
  case (Cons i "is")
  show ?case
  proof (cases "slot_active (ts_channels s ! i)")
    case True
    have i: "i < length (ts_channels s)" using Cons.prems by simp
    obtain s1 sl where s1: "ts_sendCemi E s (ci_channelId (slot_info (ts_channels s ! i))) cemi = (s1, Inr ())"
        "W (ts_env s1) = W (ts_env s) @ [slot_datagram cemi (ts_channels s ! i)]"
        "ts_channels s1 = (ts_channels s)[i := sl]" "ts_ok s1" "ts_isOpen E s1"
      using sendCemi_sends [OF assms(1) Cons.prems(2,3) assms(2) i True] by blast
    have same: "j \<in> set is \<Longrightarrow> ts_channels s1 ! j = ts_channels s ! j" for j
      using s1(3) Cons.prems(1) by (metis distinct.simps(2) nth_list_update_neq)
    have "filter (\<lambda>i. slot_active (ts_channels s1 ! i)) is = filter (\<lambda>i. slot_active (ts_channels s ! i)) is"
      using same by (intro filter_cong) auto
    with Cons.IH [of s1 "n + 1"] Cons.prems s1 True same show ?thesis by auto
  next
    case False
    with Cons show ?thesis by simp
  qed
qed simp

lemma filter_nth_upt: "map (\<lambda>i. f (xs ! i)) (filter (\<lambda>i. P (xs ! i)) [0..<length xs]) = map f (filter P xs)"
  using filter_map [of P "\<lambda>i. xs ! i" "[0..<length xs]"] by (simp add: comp_def map_nth)

lemma sendCemiToAll_sends:
  assumes "socket_logs E W" "length cemi \<le> 1490" "ts_ok s" "ts_isOpen E s"
  shows "\<exists>s1. ts_sendCemiToAll E s cemi = (s1, Inr (activeChannelCount s))
    \<and> W (ts_env s1) = W (ts_env s) @ map (slot_datagram cemi) (filter slot_active (ts_channels s))"
proof -
  have "length (filter (\<lambda>i. slot_active (ts_channels s ! i)) [0..<length (ts_channels s)]) = activeChannelCount s"
    using filter_nth_upt [of id "ts_channels s" slot_active]
    by (metis activeChannelCount_def length_map)
  then show ?thesis
    using send_all_loop_sends [OF assms(1,2) distinct_upt assms(3,4), of 0 "length (ts_channels s)" 0]
    by (auto simp: ts_sendCemiToAll_def filter_nth_upt)
qed

section \<open>Properties\<close>

text \<open>The cEMI frame in a datagram a channel was sent.\<close>

definition datagram_cemi :: "ip_address \<times> u16 \<times> bytes \<Rightarrow> bytes result" where
  "datagram_cemi d = map_sum id tr_cemi (decodeTunnelingRequest (snd (snd d)))"

text \<open>
  C33. Across two interface bridges: a frame with at least two TPDU octets that the first bridge
  receives from its TP1 line goes to every active channel as one tunnelling request, and whichever
  of these the second bridge is handed, it calls the blocking send of its own TP1 line with the
  very same frame.
\<close>

theorem bridges_carry_frame:
  assumes "socket_logs E W" "ts_reachable E (br_server b)" "ts_isOpen E (br_server b)"
    and "2 \<le> length (tpdu f)" "length (tpdu f) \<le> 256" "hopCount f \<le> 7"
  shows "\<exists>ds. W (ts_env (br_server (onTp1Frame E f b))) = W (ts_env (br_server b)) @ ds
    \<and> length ds = activeChannelCount (br_server b)
    \<and> map (\<lambda>d. (fst d, fst (snd d))) ds =
        map (\<lambda>c. (ci_remoteAddress c, ci_remotePort c)) (activeChannels (br_server b))
    \<and> (\<forall>d \<in> set ds. \<exists>cemi. datagram_cemi d = Inr cemi
        \<and> (\<forall>E' fuel b'. onTunnelingCemi E' fuel cemi b' =
             (case dl_sendFrame E' fuel (br_line b') f of
                None \<Rightarrow> None
              | Some (l, Inl _) \<Rightarrow> Some (br_count (\<lambda>st. st\<lparr>bs_ipToTp1Dropped := bs_ipToTp1Dropped st + 1\<rparr>) (b'\<lparr>br_line := l\<rparr>))
              | Some (l, Inr _) \<Rightarrow> Some (br_count (\<lambda>st. st\<lparr>bs_ipToTp1Forwarded := bs_ipToTp1Forwarded st + 1\<rparr>) (b'\<lparr>br_line := l\<rparr>)))))"
proof -
  let ?s = "br_server b" and ?cemi = "cemi_octets f 0x29"
  have sup: "isSupportedLDataMessageCode 0x29" by (simp add: isSupportedLDataMessageCode_def)
  have enc: "encodeCemiLData f 0x29 kMaxCemiLDataSize = Inr ?cemi"
    using assms(4,5) sup by (simp add: encodeCemi_iff kMaxCemiLDataSize_def)
  have dec: "decodeCemiLData ?cemi g = Some (Inr (f, 0x29))" for g
    by (rule decodeCemi_octets [OF sup assms(4-6)])
  have len: "length ?cemi \<le> 1490" using assms(5) by simp
  obtain s1 where s1: "ts_sendCemiToAll E ?s ?cemi = (s1, Inr (activeChannelCount ?s))"
      "W (ts_env s1) = W (ts_env ?s) @ map (slot_datagram ?cemi) (filter slot_active (ts_channels ?s))"
    using sendCemiToAll_sends [OF assms(1) len reachable_ok [OF assms(2)] assms(3)] by blast
  let ?ds = "map (slot_datagram ?cemi) (filter slot_active (ts_channels ?s))"
  have "W (ts_env (br_server (onTp1Frame E f b))) = W (ts_env ?s) @ ?ds"
    using enc s1 by (simp add: onTp1Frame_def br_count_def)
  moreover have "length ?ds = activeChannelCount ?s" by (simp add: activeChannelCount_def)
  moreover have "map (\<lambda>d. (fst d, fst (snd d))) ?ds =
      map (\<lambda>c. (ci_remoteAddress c, ci_remotePort c)) (activeChannels ?s)"
    by (simp add: activeChannels_def slot_datagram_def)
  moreover have "datagram_cemi d = Inr ?cemi" if "d \<in> set ?ds" for d
    using that decodeTunnelingRequest_packet [of ?cemi] len by (auto simp: datagram_cemi_def slot_datagram_def)
  moreover have "onTunnelingCemi E' fuel ?cemi b' =
      (case dl_sendFrame E' fuel (br_line b') f of
         None \<Rightarrow> None
       | Some (l, Inl _) \<Rightarrow> Some (br_count (\<lambda>st. st\<lparr>bs_ipToTp1Dropped := bs_ipToTp1Dropped st + 1\<rparr>) (b'\<lparr>br_line := l\<rparr>))
       | Some (l, Inr _) \<Rightarrow> Some (br_count (\<lambda>st. st\<lparr>bs_ipToTp1Forwarded := bs_ipToTp1Forwarded st + 1\<rparr>) (b'\<lparr>br_line := l\<rparr>)))" for E' fuel and b' :: "('e, 'q) bridge"
    by (simp add: onTunnelingCemi_def dec)
  ultimately show ?thesis by (intro exI [of _ ?ds]) blast
qed

text \<open>
  The four transport control frames (connect, disconnect, acknowledge, not acknowledge) have a
  TPDU of one octet. In either direction the bridge drops them: nothing is sent and only the drop
  counter moves, so no connection-oriented session works through the bridge.
\<close>

theorem bridge_drops_control_frames:
  "(length (tpdu f) = 1 \<longrightarrow>
      onTp1Frame E f b = br_count (\<lambda>st. st\<lparr>bs_tp1ToIpDropped := bs_tp1ToIpDropped st + 1\<rparr>) b)
   \<and> (length cemi = 10 \<longrightarrow>
      onTunnelingCemi E' fuel cemi b =
        Some (br_count (\<lambda>st. st\<lparr>bs_ipToTp1Dropped := bs_ipToTp1Dropped st + 1\<rparr>) b))"
proof (intro conjI impI)
  assume "length (tpdu f) = 1"
  then have "encodeCemiLData f 0x29 kMaxCemiLDataSize = Inl InvalidParameter"
    by (simp add: encodeCemiLData_def isSupportedLDataMessageCode_def)
  then show "onTp1Frame E f b = br_count (\<lambda>st. st\<lparr>bs_tp1ToIpDropped := bs_tp1ToIpDropped st + 1\<rparr>) b"
    by (simp add: onTp1Frame_def)
next
  assume "length cemi = 10"
  then show "onTunnelingCemi E' fuel cemi b =
      Some (br_count (\<lambda>st. st\<lparr>bs_ipToTp1Dropped := bs_ipToTp1Dropped st + 1\<rparr>) b)"
    by (simp add: onTunnelingCemi_def decodeCemiLData_def)
qed

text \<open>Witnesses: the connected server of Tunneling_Spec behind an idle line.\<close>

theorem bridges_carry_frame_witness:
  "\<exists>ds. fst (ts_env (br_server (onTp1Frame sim_env (ldata_frame_init\<lparr>tpdu := [0, 0x81]\<rparr>)
        (bridge_new (datalink_init () False) connected_server)))) = fst (ts_env connected_server) @ ds
     \<and> length ds = activeChannelCount connected_server"
proof -
  have "socket_logs sim_env fst" "ts_reachable sim_env (br_server (bridge_new (datalink_init () False) connected_server))"
    "ts_isOpen sim_env (br_server (bridge_new (datalink_init () False) connected_server))"
    by (simp_all add: bridge_new_def sim_env_logs connected_server_reachable connected_server_facts)
  from bridges_carry_frame [OF this, of "ldata_frame_init\<lparr>tpdu := [0, 0x81]\<rparr>"]
  show ?thesis by (auto simp: ldata_frame_init_def bridge_new_def)
qed

theorem bridge_drops_control_frames_witness:
  "bs_tp1ToIpDropped (br_stats (onTp1Frame sim_env (ldata_frame_init\<lparr>tpdu := [0x80]\<rparr>)
     (bridge_new (datalink_init () False) connected_server))) = 1"
  using bridge_drops_control_frames [of "ldata_frame_init\<lparr>tpdu := [0x80]\<rparr>" sim_env
      "bridge_new (datalink_init () False) connected_server"]
  by (simp add: bridge_new_def br_count_def)

end
