(* ===== verification/Network_Layer.thy ===== *)
theory Network_Layer
  imports Frame_Codec Filter_Table
begin

text \<open>
  The network layer (\<open>src/network/network_layer.cpp\<close>): hop-count check and hand-over to the data
  link, the asynchronous transmit operation, reception with filtering, routing and local delivery,
  and the deferred forwarding of received frames through a queue of eight. The data link it holds a
  reference to is the type parameter \<open>'d\<close> with the operations it calls in \<open>'d dl_ops\<close>; the stack theory
  instantiates it with the TP1 data link.
\<close>

section \<open>State\<close>

record 'd dl_ops =
  dl_setCallback :: "'d \<Rightarrow> 'd"
  dl_send :: "'d \<Rightarrow> ldata_frame \<Rightarrow> 'd \<times> unit result"
  dl_begin :: "'d \<Rightarrow> ldata_frame \<Rightarrow> 'd \<times> unit result"
  dl_poll :: "'d \<Rightarrow> 'd \<times> progress result"

datatype network_mode = ModeDevice | ModeLineCoupler | ModeAreaCoupler

record ndata_frame =
  n_dlFrame :: ldata_frame
  n_hopCount :: u8

definition ndata_frame_init :: ndata_frame where
  "ndata_frame_init = \<lparr>n_dlFrame = ldata_frame_init, n_hopCount = 6\<rparr>"

datatype forward_progress =
  FwdIdle | FwdPending | FwdSuccess | FwdBusy | FwdTransmissionFailed | FwdTimeout

text \<open>\<open>TxOperationState\<close> and \<open>ForwardOperationState\<close> have the same three fields.\<close>

record link_op =
  op_active :: bool
  op_started :: bool
  op_frame :: ldata_frame

definition link_op_init :: link_op where
  "link_op_init = \<lparr>op_active = False, op_started = False, op_frame = ldata_frame_init\<rparr>"

definition FORWARD_QUEUE_CAPACITY :: nat where "FORWARD_QUEUE_CAPACITY = 8"

record 'd network =
  nl_link :: 'd
  nl_own :: individual_address
  nl_hasCallback :: bool
  nl_initialized :: bool
  nl_mode :: network_mode
  nl_routingTable :: routing_table
  nl_filterTable :: filter_table
  nl_routingEnabled :: bool
  nl_filteringEnabled :: bool
  nl_tx :: link_op
  nl_queue :: "ldata_frame ring"
  nl_dropped :: nat
  nl_forward :: link_op

definition network_init :: "'d \<Rightarrow> 'd network" where
  "network_init d =
     \<lparr>nl_link = d, nl_own = 0, nl_hasCallback = False, nl_initialized = False,
      nl_mode = ModeDevice, nl_routingTable = [], nl_filterTable = filter_table_init,
      nl_routingEnabled = False, nl_filteringEnabled = False, nl_tx = link_op_init,
      nl_queue = \<lparr>ring_slots = replicate FORWARD_QUEUE_CAPACITY ldata_frame_init,
                  ring_head = 0, ring_count = 0\<rparr>,
      nl_dropped = 0, nl_forward = link_op_init\<rparr>"

section \<open>Operations\<close>

definition finishTxOperation :: "'d network \<Rightarrow> 'd network" where
  "finishTxOperation s = s\<lparr>nl_tx := link_op_init\<rparr>"

definition finishForwardOperation :: "'d network \<Rightarrow> 'd network" where
  "finishForwardOperation s = s\<lparr>nl_forward := link_op_init\<rparr>"

definition enqueueForwardFrame :: "'d network \<Rightarrow> ndata_frame \<Rightarrow> 'd network \<times> unit result" where
  "enqueueForwardFrame s n =
     (if ring_count (nl_queue s) \<ge> FORWARD_QUEUE_CAPACITY
      then (s\<lparr>nl_dropped := nl_dropped s + 1\<rparr>, Inl QueueFull)
      else (s\<lparr>nl_queue := ring_push (nl_queue s) (n_dlFrame n)\<rparr>, Inr ()))"

definition nl_init :: "'d dl_ops \<Rightarrow> 'd network \<Rightarrow> individual_address \<Rightarrow> 'd network \<times> unit result" where
  "nl_init D s own =
     (if nl_initialized s then (s, Inr ())
      else (s\<lparr>nl_own := own, nl_link := dl_setCallback D (nl_link s), nl_initialized := True\<rparr>, Inr ()))"

definition nl_setOwnAddress :: "'d network \<Rightarrow> individual_address \<Rightarrow> 'd network" where
  "nl_setOwnAddress s own = s\<lparr>nl_own := own\<rparr>"

definition nl_close :: "'d network \<Rightarrow> 'd network" where
  "nl_close s =
     (if nl_initialized s then
        (finishForwardOperation (finishTxOperation (s\<lparr>nl_hasCallback := False\<rparr>)))
          \<lparr>nl_queue := (nl_queue s)\<lparr>ring_head := 0, ring_count := 0\<rparr>, nl_initialized := False\<rparr>
      else s)"

definition setNetworkMode :: "'d network \<Rightarrow> network_mode \<Rightarrow> 'd network" where
  "setNetworkMode s m =
     s\<lparr>nl_mode := m, nl_routingEnabled := (m = ModeLineCoupler \<or> m = ModeAreaCoupler)\<rparr>"

definition nl_sendFrame ::
    "'d dl_ops \<Rightarrow> 'd network \<Rightarrow> ndata_frame \<Rightarrow> 'd network \<times> unit result" where
  "nl_sendFrame D s n =
     (if \<not> nl_initialized s then (s, Inl NotInitialized)
      else if op_active (nl_forward s) then (s, Inl EBusy)
      else if n_hopCount n > 6 then (s, Inl InvalidParameter)
      else case dl_send D (nl_link s) ((n_dlFrame n)\<lparr>hopCount := n_hopCount n\<rparr>) of
        (d, r) \<Rightarrow> (s\<lparr>nl_link := d\<rparr>, r))"

definition nl_beginTransmit :: "'d network \<Rightarrow> ndata_frame \<Rightarrow> 'd network \<times> unit result" where
  "nl_beginTransmit s n =
     (if \<not> nl_initialized s then (s, Inl NotInitialized)
      else if op_active (nl_forward s) then (s, Inl EBusy)
      else if op_active (nl_tx s) then (s, Inl EBusy)
      else if n_hopCount n > 6 then (s, Inl InvalidParameter)
      else (s\<lparr>nl_tx := \<lparr>op_active = True, op_started = False,
                        op_frame = (n_dlFrame n)\<lparr>hopCount := n_hopCount n\<rparr>\<rparr>\<rparr>, Inr ()))"

text \<open>The second half of \<open>pollTransmit\<close>: the data link has the frame and is polled.\<close>

definition nl_pollStarted :: "'d dl_ops \<Rightarrow> 'd network \<Rightarrow> 'd network \<times> progress result" where
  "nl_pollStarted D s =
     (case dl_poll D (nl_link s) of (d, r) \<Rightarrow>
        let s' = s\<lparr>nl_link := d\<rparr> in
        if r = Inr Pending then (s', Inr Pending) else (finishTxOperation s', r))"

definition nl_pollTransmit :: "'d dl_ops \<Rightarrow> 'd network \<Rightarrow> 'd network \<times> progress result" where
  "nl_pollTransmit D s =
     (if \<not> nl_initialized s then (s, Inl NotInitialized)
      else if \<not> op_active (nl_tx s) then (s, Inl OperationNotReady)
      else if op_started (nl_tx s) then nl_pollStarted D s
      else case dl_begin D (nl_link s) (op_frame (nl_tx s)) of (d, r) \<Rightarrow>
        let s1 = s\<lparr>nl_link := d\<rparr> in
        (case r of
           Inl e \<Rightarrow> (finishTxOperation s1, Inr (progressStateFromError e))
         | Inr _ \<Rightarrow> nl_pollStarted D (s1\<lparr>nl_tx := (nl_tx s1)\<lparr>op_started := True\<rparr>\<rparr>)))"

definition hasPendingForwarding :: "'d network \<Rightarrow> bool" where
  "hasPendingForwarding s \<longleftrightarrow> op_active (nl_forward s) \<or> ring_count (nl_queue s) > 0"

fun forward_progress_of :: "progress \<Rightarrow> forward_progress" where
  "forward_progress_of Pending = FwdPending"
| "forward_progress_of Success = FwdSuccess"
| "forward_progress_of Busy = FwdBusy"
| "forward_progress_of TransmissionFailed = FwdTransmissionFailed"
| "forward_progress_of Timeout = FwdTimeout"

text \<open>The branch of \<open>pollForwarding\<close> for an active forward operation. A busy data link keeps the
  operation for the next poll; every other failure ends it.\<close>

definition pollForwardActive ::
    "'d dl_ops \<Rightarrow> 'd network \<Rightarrow> 'd network \<times> forward_progress result" where
  "pollForwardActive D s =
     (if \<not> op_started (nl_forward s) then
        (case dl_begin D (nl_link s) (op_frame (nl_forward s)) of (d, r) \<Rightarrow>
           let s1 = s\<lparr>nl_link := d\<rparr> in
           (case r of
              Inl e \<Rightarrow>
                (if e = EBusy then (s1, Inr FwdPending)
                 else (finishForwardOperation s1,
                       Inr (if e = ETimeout then FwdTimeout else FwdTransmissionFailed)))
            | Inr _ \<Rightarrow> (s1\<lparr>nl_forward := (nl_forward s1)\<lparr>op_started := True\<rparr>\<rparr>, Inr FwdPending)))
      else
        (case dl_poll D (nl_link s) of (d, r) \<Rightarrow>
           let s1 = s\<lparr>nl_link := d\<rparr> in
           (case r of
              Inl e \<Rightarrow> (finishForwardOperation s1, Inl e)
            | Inr Pending \<Rightarrow> (s1, Inr FwdPending)
            | Inr p \<Rightarrow> (finishForwardOperation s1, Inr (forward_progress_of p)))))"

text \<open>Taking the head of the forward queue into the forward operation.\<close>

definition popForwardFrame :: "'d network \<Rightarrow> (ldata_frame \<times> 'd network) option" where
  "popForwardFrame s =
     (if ring_count (nl_queue s) = 0 then None
      else case ring_pop (nl_queue s) of (f, q) \<Rightarrow> Some (f, s\<lparr>nl_queue := q\<rparr>))"

definition pollForwarding ::
    "'d dl_ops \<Rightarrow> 'd network \<Rightarrow> 'd network \<times> forward_progress result" where
  "pollForwarding D s =
     (if \<not> nl_initialized s then (s, Inl NotInitialized)
      else if op_active (nl_tx s)
        then (s, Inr (if hasPendingForwarding s then FwdPending else FwdIdle))
      else if op_active (nl_forward s) then pollForwardActive D s
      else case popForwardFrame s of
        None \<Rightarrow> (s, Inr FwdIdle)
      | Some (f, s1) \<Rightarrow>
          pollForwardActive D
            (s1\<lparr>nl_forward := \<lparr>op_active = True, op_started = False, op_frame = f\<rparr>\<rparr>))"

definition nl_isOnSameArea :: "'d network \<Rightarrow> individual_address \<Rightarrow> bool" where
  "nl_isOnSameArea s a \<longleftrightarrow> ia_area (nl_own s) = ia_area a"

definition nl_isOnSameLine :: "'d network \<Rightarrow> individual_address \<Rightarrow> bool" where
  "nl_isOnSameLine s a \<longleftrightarrow> ia_area (nl_own s) = ia_area a \<and> ia_line (nl_own s) = ia_line a"

definition shouldForwardFrame :: "'d network \<Rightarrow> ldata_frame \<Rightarrow> u8 \<Rightarrow> bool" where
  "shouldForwardFrame s f h =
     (if h = 0 then False
      else case route (nl_routingTable s) (source f) (destination f) (destinationType f) h (nl_own s) of
        Forward \<Rightarrow> True
      | ForwardLocal \<Rightarrow> True
      | RBlock \<Rightarrow> False
      | Drop \<Rightarrow> False)"

definition shouldFilterFrame :: "'d network \<Rightarrow> ldata_frame \<Rightarrow> bool" where
  "shouldFilterFrame s f =
     (if \<not> isGroupAddress (destinationType f) then False
      else checkFilter (nl_filterTable s) (destination f) = Block)"

text \<open>\<open>handleDlRx\<close> returns what is passed to the receive callback, if anything.\<close>

definition nl_handleDlRx :: "'d network \<Rightarrow> ldata_frame \<Rightarrow> 'd network \<times> ndata_frame option" where
  "nl_handleDlRx s f =
     (if \<not> nl_initialized s then (s, None)
      else let n = \<lparr>n_dlFrame = f, n_hopCount = hopCount f\<rparr> in
      if nl_filteringEnabled s \<and> shouldFilterFrame s f then (s, None)
      else let
        fw = nl_routingEnabled s \<and> shouldForwardFrame s f (n_hopCount n) \<and> n_hopCount n > 0;
        n1 = (if fw then n\<lparr>n_hopCount := n_hopCount n - 1\<rparr> else n);
        s1 = (if fw \<and> n_hopCount n1 > 0 then fst (enqueueForwardFrame s n1) else s);
        loc = (if isGroupAddress (destinationType f) then True
               else isIndividualBroadcastAddress (destination f) \<or> destination f = nl_own s)
      in (s1, if loc \<and> nl_hasCallback s1 then Some n1 else None))"

section \<open>Lemmas\<close>

definition nl_ok :: "'d network \<Rightarrow> bool" where
  "nl_ok s \<longleftrightarrow> ring_ok FORWARD_QUEUE_CAPACITY (nl_queue s) \<and>
     \<not> (op_active (nl_tx s) \<and> op_active (nl_forward s))"

lemmas nl_finish = finishTxOperation_def finishForwardOperation_def link_op_init_def

interpretation nq: bounded_fifo
  "\<lambda>s f. fst (enqueueForwardFrame s \<lparr>n_dlFrame = f, n_hopCount = hopCount f\<rparr>)"
  popForwardFrame "\<lambda>s. ring_contents (nl_queue s)" FORWARD_QUEUE_CAPACITY
  "\<lambda>s. ring_ok FORWARD_QUEUE_CAPACITY (nl_queue s)"
proof unfold_locales
  fix s :: "'d network" and f f' :: ldata_frame and s' :: "'d network"
  let ?n = FORWARD_QUEUE_CAPACITY
  let ?enq = "fst (enqueueForwardFrame s \<lparr>n_dlFrame = f, n_hopCount = hopCount f\<rparr>)"
  assume ok: "ring_ok ?n (nl_queue s)"
  show "length (ring_contents (nl_queue s)) \<le> ?n" using ok by (simp add: ring_ok_def)
  show "ring_contents (nl_queue ?enq) =
      (if length (ring_contents (nl_queue s)) < ?n then ring_contents (nl_queue s) @ [f]
       else ring_contents (nl_queue s))"
    using ok by (simp add: enqueueForwardFrame_def ring_push_contents)
  show "ring_ok ?n (nl_queue ?enq)"
    using ok by (simp add: enqueueForwardFrame_def ring_push_ok)
  show "popForwardFrame s = None \<longleftrightarrow> ring_contents (nl_queue s) = []"
    by (simp add: popForwardFrame_def ring_pop_def flip: length_0_conv)
  assume "popForwardFrame s = Some (f', s')"
  then show "ring_contents (nl_queue s) = f' # ring_contents (nl_queue s') \<and> ring_ok ?n (nl_queue s')"
    using ok ring_pop_contents [OF ok] ring_pop_ok [OF ok]
    by (auto simp: popForwardFrame_def split: if_splits prod.splits)
qed

interpretation nt: single_flight nl_beginTransmit "nl_pollTransmit D"
  "\<lambda>s. nl_initialized s \<and> \<not> op_active (nl_forward s)" "\<lambda>s. op_active (nl_tx s)" for D
  by unfold_locales
    (auto simp: nl_beginTransmit_def nl_pollTransmit_def nl_pollStarted_def nl_finish Let_def
      progressStateFromError_def split: if_splits prod.splits sum.splits)

text \<open>What a client, the data link callback and the maintenance loop may do to a network layer, in
  any order.\<close>

datatype net_event =
    NInit individual_address
  | NSend ndata_frame
  | NBegin ndata_frame
  | NPoll
  | NPollForwarding
  | NReceive ldata_frame
  | NMode network_mode
  | NClose

fun nl_step :: "'d dl_ops \<Rightarrow> net_event \<Rightarrow> 'd network \<Rightarrow> 'd network" where
  "nl_step D (NInit a) s = fst (nl_init D s a)"
| "nl_step D (NSend n) s = fst (nl_sendFrame D s n)"
| "nl_step D (NBegin n) s = fst (nl_beginTransmit s n)"
| "nl_step D NPoll s = fst (nl_pollTransmit D s)"
| "nl_step D NPollForwarding s = fst (pollForwarding D s)"
| "nl_step D (NReceive f) s = fst (nl_handleDlRx s f)"
| "nl_step D (NMode m) s = setNetworkMode s m"
| "nl_step D NClose s = nl_close s"

lemma network_init_ok: "nl_ok (network_init d)"
  by (simp add: nl_ok_def network_init_def ring_ok_def FORWARD_QUEUE_CAPACITY_def link_op_init_def)

lemma enqueue_ok: "nl_ok s \<Longrightarrow> nl_ok (fst (enqueueForwardFrame s n))"
  by (simp add: nl_ok_def enqueueForwardFrame_def ring_push_ok)

lemma pollForwardActive_ok:
  "nl_ok s \<Longrightarrow> \<not> op_active (nl_tx s) \<Longrightarrow> nl_ok (fst (pollForwardActive D s))"
  by (auto simp: nl_ok_def pollForwardActive_def nl_finish Let_def
      split: prod.split sum.split progress.split)

lemma popForwardFrame_ok: "nl_ok s \<Longrightarrow> popForwardFrame s = Some (f, s') \<Longrightarrow> nl_ok s' \<and> nl_tx s' = nl_tx s"
  using ring_pop_ok [of FORWARD_QUEUE_CAPACITY "nl_queue s"]
  by (auto simp: nl_ok_def popForwardFrame_def split: if_splits prod.splits)

lemma pollForwarding_ok: "nl_ok s \<Longrightarrow> nl_ok (fst (pollForwarding D s))"
proof -
  assume ok: "nl_ok s"
  have "nl_ok (fst (pollForwardActive D
      (s1\<lparr>nl_forward := \<lparr>op_active = True, op_started = False, op_frame = f\<rparr>\<rparr>)))"
    if "popForwardFrame s = Some (f, s1)" "\<not> op_active (nl_tx s)" for f s1
    using popForwardFrame_ok [OF ok that(1)] that(2)
    by (intro pollForwardActive_ok) (auto simp: nl_ok_def)
  with ok show ?thesis
    by (auto simp: pollForwarding_def pollForwardActive_ok split: option.split)
qed

lemma nl_step_ok: "nl_ok s \<Longrightarrow> nl_ok (nl_step D ev s)"
proof (cases ev)
  case (NReceive f)
  assume "nl_ok s"
  with NReceive show ?thesis by (simp add: nl_handleDlRx_def Let_def enqueue_ok)
next
  case NPollForwarding
  assume "nl_ok s"
  with NPollForwarding show ?thesis by (simp add: pollForwarding_ok)
qed (auto simp: nl_ok_def nl_init_def nl_sendFrame_def nl_beginTransmit_def
    nl_pollTransmit_def nl_pollStarted_def setNetworkMode_def nl_close_def nl_finish Let_def
    ring_ok_def split: prod.split sum.split)

section \<open>Properties\<close>

text \<open>
  The network layer never runs its own transmission and a forwarded frame at the same time,
  and its forward queue stays within its eight slots, after any sequence of calls, receptions and
  polls, whatever the data link answers: the link serves at most one of the two operations.
\<close>

theorem network_link_exclusive:
  "nl_ok (fold (nl_step D) evs (network_init d))"
proof -
  have "nl_ok (fold (nl_step D) evs s)" if "nl_ok s" for s
    using that by (induction evs arbitrary: s) (simp_all add: nl_step_ok)
  from this [OF network_init_ok] show ?thesis .
qed

text \<open>
  The forward queue is a bounded FIFO: frames queued for forwarding are taken out in the order
  they were received, behind those already waiting, and only the frames that exceed the eight slots
  are lost.
\<close>

theorem forward_queue_fifo:
  assumes "ring_ok FORWARD_QUEUE_CAPACITY (nl_queue s)"
  shows "nq.deq_upto n (nq.enq_all s fs) =
    take n (ring_contents (nl_queue s)
      @ take (FORWARD_QUEUE_CAPACITY - length (ring_contents (nl_queue s))) fs)"
  using assms by (rule nq.fifo_order)

theorem forward_queue_fifo_witness:
  "nq.deq_upto 3 (nq.enq_all (network_init ()) [sample_frame, ldata_frame_init]) =
     [sample_frame, ldata_frame_init]"
proof -
  have ok: "ring_ok FORWARD_QUEUE_CAPACITY (nl_queue (network_init ()))"
    using network_init_ok [of "()"] by (simp add: nl_ok_def)
  have empty: "ring_contents (nl_queue (network_init ())) = []"
    by (simp add: ring_contents_def network_init_def)
  show ?thesis
    unfolding forward_queue_fifo [OF ok] by (simp add: empty FORWARD_QUEUE_CAPACITY_def)
qed

text \<open>
  Every transmission the network layer accepts ends with exactly one outcome, over any data
  link and any interleaving of \<open>beginTransmit\<close> and \<open>pollTransmit\<close>: the frames accepted so far are
  those whose outcome was reported plus at most the one still active.
\<close>

theorem network_exactly_one_outcome:
  assumes "nl_initialized s" "\<not> op_active (nl_forward s)" "\<not> op_active (nl_tx s)"
    and "nt.run D s es 0 0 = (s', accepted, ended)"
  shows "accepted = ended + of_bool (op_active (nl_tx s'))"
  using nt.exactly_one_outcome [OF _ assms(3,4)] assms(1,2) by simp

definition loop_link :: "unit dl_ops" where
  "loop_link = \<lparr>dl_setCallback = id, dl_send = (\<lambda>d f. (d, Inr ())), dl_begin = (\<lambda>d f. (d, Inr ())),
                dl_poll = (\<lambda>d. (d, Inr Success))\<rparr>"

theorem network_exactly_one_outcome_witness:
  "\<exists>s'. nt.run loop_link (fst (nl_init loop_link (network_init ()) 0x1101))
     [Some ndata_frame_init, Some ndata_frame_init, None, Some ndata_frame_init] 0 0 = (s', 2, 1) \<and>
   (2 :: nat) = 1 + of_bool (op_active (nl_tx s'))"
proof -
  let ?s = "fst (nl_init loop_link (network_init ()) 0x1101)"
  let ?r = "nt.run loop_link ?s
    [Some ndata_frame_init, Some ndata_frame_init, None, Some ndata_frame_init] 0 0"
  note defs = nl_init_def network_init_def nl_beginTransmit_def nl_pollTransmit_def
    nl_pollStarted_def loop_link_def link_op_init_def ndata_frame_init_def nl_finish
  have r: "snd ?r = (2, 1)" by (simp add: defs)
  have "nl_initialized ?s" "\<not> op_active (nl_forward ?s)" "\<not> op_active (nl_tx ?s)"
    by (simp_all add: defs)
  moreover have eq: "?r = (fst ?r, 2, 1)" using r by (simp only: prod_eq_iff) simp
  ultimately have "2 = (1 :: nat) + of_bool (op_active (nl_tx (fst ?r)))"
    by (rule network_exactly_one_outcome)
  with eq show ?thesis by (intro exI [of _ "fst ?r"] conjI)
qed

text \<open>
  A forwarded frame is not aged: whatever \<open>handleDlRx\<close> puts into the forward queue is the frame
  as received, with its original hop count. The decremented count is only in the wrapper that is
  delivered locally, and the queue stores the inner data-link frame.
\<close>

theorem forwarded_frame_keeps_hop_count:
  assumes "nl_handleDlRx s f = (s', d)" "ring_ok FORWARD_QUEUE_CAPACITY (nl_queue s)"
  shows "ring_contents (nl_queue s') = ring_contents (nl_queue s) \<or>
    ring_contents (nl_queue s') = ring_contents (nl_queue s) @ [f]"
  using assms
  by (auto simp: nl_handleDlRx_def Let_def enqueueForwardFrame_def ring_push_contents not_le
      split: if_splits)

definition sample_router :: "unit network" where
  "sample_router = (fst (nl_init loop_link (setNetworkMode (network_init ()) ModeLineCoupler) 0x1100))"

theorem forwarded_frame_keeps_hop_count_witness:
  "\<exists>f. map hopCount (ring_contents (nl_queue (fst (nl_handleDlRx sample_router f)))) = [6] \<and>
     hopCount f = 6"
proof -
  let ?f = "ldata_frame_init\<lparr>destination := 0x0901, tpdu := [0, 0x81]\<rparr>"
  let ?r = "nl_handleDlRx sample_router ?f"
  have q: "ring_ok FORWARD_QUEUE_CAPACITY (nl_queue sample_router)"
    "ring_contents (nl_queue sample_router) = []" "ring_contents (nl_queue (fst ?r)) \<noteq> []"
    by code_simp+
  have "ring_contents (nl_queue (fst ?r)) = [?f]"
    using forwarded_frame_keeps_hop_count [OF prod.collapse [symmetric] q(1), of ?f] q by auto
  then have "map hopCount (ring_contents (nl_queue (fst ?r))) = [6] \<and> hopCount ?f = 6"
    by (simp add: ldata_frame_init_def)
  then show ?thesis by (rule exI)
qed

text \<open>
  Local delivery: a frame reaches the callback exactly when the layer is open, a callback is
  installed, the filter (if in use) lets the group address pass, and the frame is group-addressed,
  individually broadcast or for the own address. What is delivered is the received frame, with a
  hop count lowered by at most one.
\<close>

theorem network_local_delivery:
  assumes "nl_handleDlRx s f = (s', d)"
  shows "(d \<noteq> None) = (nl_initialized s \<and> nl_hasCallback s \<and>
      \<not> (nl_filteringEnabled s \<and> destinationType f = Group \<and>
         checkFilter (nl_filterTable s) (destination f) = Block) \<and>
      (destinationType f = Group \<or> destination f = 0 \<or> destination f = nl_own s)) \<and>
    (\<forall>n. d = Some n \<longrightarrow> n_dlFrame n = f \<and>
       (n_hopCount n = hopCount f \<or> (hopCount f > 0 \<and> n_hopCount n = hopCount f - 1)))"
proof -
  have cb: "nl_hasCallback (fst (enqueueForwardFrame t n)) = nl_hasCallback t" for t :: "'a network" and n
    by (simp add: enqueueForwardFrame_def)
  show ?thesis
    using assms
    by (cases "destinationType f")
      (auto simp: nl_handleDlRx_def Let_def shouldFilterFrame_def cb knx_defs split: if_splits)
qed

theorem network_local_delivery_witness:
  "snd (nl_handleDlRx (sample_router\<lparr>nl_hasCallback := True\<rparr>) (ldata_frame_init\<lparr>destination := 0x0901\<rparr>)) \<noteq> None"
  using network_local_delivery [OF prod.collapse [symmetric],
      of "sample_router\<lparr>nl_hasCallback := True\<rparr>" "ldata_frame_init\<lparr>destination := 0x0901\<rparr>"]
  by (simp add: sample_router_def nl_init_def setNetworkMode_def network_init_def ldata_frame_init_def)

end
