(* ===== verification/Connection.thy ===== *)
theory Connection
  imports Interfaces
begin

text \<open>
  The connection state machine (\<open>src/transport/connection_state.cpp\<close>) and the connection table
  (\<open>src/transport/connection_table.cpp\<close>) of the transport layer: creation and look-up by index and
  by peer address, activity and retransmission timers on the 32-bit millisecond clock with its
  wrap-around, and duplicate detection.
\<close>

section \<open>State machine\<close>

datatype connection_state = CsIdle | CsConnecting | CsConnected | CsDisconnecting

datatype connection_event =
    EvConnectRequest | EvDisconnectRequest | EvDataRequest
  | EvConnectResponse | EvDisconnectResponse | EvDataIndicate
  | EvTimeout | EvRetransmitTimeout
  | EvInvalidSequence | EvConnectionRefused

definition CONNECTION_TIMEOUT_MS :: u32 where "CONNECTION_TIMEOUT_MS = 6000"
definition ACK_TIMEOUT_MS :: u32 where "ACK_TIMEOUT_MS = 3000"
definition CONNECTION_MAX_REPETITIONS :: u8 where "CONNECTION_MAX_REPETITIONS = 3"

record connection_params =
  pm_remoteAddress :: individual_address
  pm_initialSequence :: u8
  pm_maxRetries :: u8
  pm_timeoutMs :: u32
  pm_retransmitTimeoutMs :: u32

definition connection_params_init :: connection_params where
  "connection_params_init =
     \<lparr>pm_remoteAddress = 0, pm_initialSequence = 0, pm_maxRetries = CONNECTION_MAX_REPETITIONS,
      pm_timeoutMs = CONNECTION_TIMEOUT_MS, pm_retransmitTimeoutMs = ACK_TIMEOUT_MS\<rparr>"

text \<open>\<open>sm_log\<close> lists the events the registered handler was called with.\<close>

record state_machine =
  sm_params :: connection_params
  sm_state :: connection_state
  sm_sequenceNumber :: u8
  sm_retryCount :: u8
  sm_hasHandler :: bool
  sm_log :: "connection_event list"

definition sm_fresh :: state_machine where
  "sm_fresh = \<lparr>sm_params = connection_params_init, sm_state = CsIdle, sm_sequenceNumber = 0,
     sm_retryCount = 0, sm_hasHandler = False, sm_log = []\<rparr>"

definition sm_init :: "state_machine \<Rightarrow> connection_params \<Rightarrow> state_machine \<times> unit result" where
  "sm_init m p =
     (if \<not> ia_isValid (pm_remoteAddress p) then (m, Inl InvalidAddress)
      else (m\<lparr>sm_params := p, sm_state := CsIdle, sm_sequenceNumber := pm_initialSequence p,
              sm_retryCount := 0\<rparr>, Inr ()))"

definition nextSequence :: "state_machine \<Rightarrow> state_machine \<times> u8" where
  "nextSequence m =
     (let s = (sm_sequenceNumber m + 1) AND 0x0F in (m\<lparr>sm_sequenceNumber := s\<rparr>, s))"

definition incrementRetry :: "state_machine \<Rightarrow> state_machine \<times> bool" where
  "incrementRetry m =
     (let c = sm_retryCount m + 1 in (m\<lparr>sm_retryCount := c\<rparr>, c \<ge> pm_maxRetries (sm_params m)))"

definition resetRetry :: "state_machine \<Rightarrow> state_machine" where
  "resetRetry m = m\<lparr>sm_retryCount := 0\<rparr>"

definition sm_reset :: "state_machine \<Rightarrow> state_machine" where
  "sm_reset m =
     resetRetry (m\<lparr>sm_state := CsIdle, sm_sequenceNumber := pm_initialSequence (sm_params m)\<rparr>)"

definition isEventValid :: "connection_state \<Rightarrow> connection_event \<Rightarrow> bool" where
  "isEventValid st e =
     (case st of
        CsIdle \<Rightarrow> e = EvConnectRequest
      | CsConnecting \<Rightarrow> e \<in> {EvConnectResponse, EvConnectionRefused, EvTimeout, EvRetransmitTimeout}
      | CsConnected \<Rightarrow>
          e \<in> {EvDisconnectRequest, EvDataRequest, EvDataIndicate, EvInvalidSequence, EvTimeout}
      | CsDisconnecting \<Rightarrow> e \<in> {EvDisconnectResponse, EvTimeout})"

definition transitionTo :: "state_machine \<Rightarrow> connection_state \<Rightarrow> connection_event \<Rightarrow> state_machine" where
  "transitionTo m st e =
     m\<lparr>sm_state := st, sm_log := (if sm_hasHandler m then sm_log m @ [e] else sm_log m)\<rparr>"

text \<open>The transition table: the next state and whether the retry counter is reset.\<close>

definition transition :: "connection_state \<Rightarrow> connection_event \<Rightarrow> connection_state \<times> bool" where
  "transition st e =
     (case st of
        CsIdle \<Rightarrow> (if e = EvConnectRequest then (CsConnecting, False) else (CsIdle, False))
      | CsConnecting \<Rightarrow>
          (if e = EvConnectResponse then (CsConnected, True)
           else if e = EvConnectionRefused then (CsIdle, True)
           else if e = EvTimeout then (CsIdle, True)
           else (CsConnecting, False))
      | CsConnected \<Rightarrow>
          (if e = EvDisconnectRequest then (CsDisconnecting, False)
           else if e = EvDataIndicate then (CsConnected, True)
           else if e = EvDataRequest then (CsConnected, True)
           else if e = EvTimeout then (CsIdle, True)
           else (CsConnected, False))
      | CsDisconnecting \<Rightarrow>
          (if e = EvDisconnectResponse then (CsIdle, True)
           else if e = EvTimeout then (CsIdle, True)
           else (CsDisconnecting, False)))"

definition handleEvent :: "state_machine \<Rightarrow> connection_event \<Rightarrow> state_machine \<times> unit result" where
  "handleEvent m e =
     (if \<not> isEventValid (sm_state m) e then (m, Inl OperationNotSupported)
      else case transition (sm_state m) e of (st, reset) \<Rightarrow>
        let m1 = (if reset then resetRetry m else m) in
        (if st \<noteq> sm_state m1 then transitionTo m1 st e else m1, Inr ()))"

section \<open>Connection table\<close>

text \<open>A \<open>ConnectionIndex\<close> is an octet; \<open>0xFF\<close> is invalid. The entry's \<open>unique_ptr\<close> to its state
  machine is never null after \<open>createConnection\<close>.\<close>

type_synonym connection_index = u8

definition ci_isValid :: "connection_index \<Rightarrow> bool" where "ci_isValid i \<longleftrightarrow> i \<noteq> 0xFF"

record connection_entry =
  ce_machine :: state_machine
  ce_index :: connection_index
  ce_remoteAddress :: individual_address
  ce_sequenceNumber :: u8
  ce_expectedRxSeq :: u8
  ce_pendingSeq :: u8
  ce_maxRetries :: u8
  ce_lastReceivedSeq :: u8
  ce_lastActivity :: u32
  ce_pendingRetransmission :: bool
  ce_pendingData :: bytes
  ce_pendingApci :: u16
  ce_priority :: priority
  ce_pendingPriority :: priority
  ce_retransmitCount :: u8
  ce_lastTx :: u32
  ce_retransmitTimeout :: u32

record connection_table =
  ct_connections :: "connection_entry list"
  ct_maxConnections :: nat
  ct_nextIndex :: u8

definition MAX_CONNECTIONS :: nat where "MAX_CONNECTIONS = 16"
definition kDefaultMaxConnections :: nat where "kDefaultMaxConnections = 1"

definition ct_init :: "connection_table \<Rightarrow> nat \<Rightarrow> connection_table \<times> unit result" where
  "ct_init t n =
     (if n = 0 \<or> n > MAX_CONNECTIONS then (t, Inl InvalidParameter)
      else (t\<lparr>ct_maxConnections := n, ct_nextIndex := 0, ct_connections := []\<rparr>, Inr ()))"

definition findConnection :: "connection_table \<Rightarrow> individual_address \<Rightarrow> connection_entry option" where
  "findConnection t a = find (\<lambda>e. ce_remoteAddress e = a) (ct_connections t)"

definition getConnection :: "connection_table \<Rightarrow> connection_index \<Rightarrow> connection_entry option" where
  "getConnection t i = find (\<lambda>e. ce_index e = i) (ct_connections t)"

text \<open>Writing through the pointer that \<open>find_if\<close> returned: the first matching entry changes.\<close>

fun update_first :: "('a \<Rightarrow> bool) \<Rightarrow> ('a \<Rightarrow> 'a) \<Rightarrow> 'a list \<Rightarrow> 'a list" where
  "update_first P f [] = []"
| "update_first P f (x # xs) = (if P x then f x # xs else x # update_first P f xs)"

fun remove_first :: "('a \<Rightarrow> bool) \<Rightarrow> 'a list \<Rightarrow> 'a list" where
  "remove_first P [] = []"
| "remove_first P (x # xs) = (if P x then xs else x # remove_first P xs)"

definition upd_index ::
    "connection_index \<Rightarrow> (connection_entry \<Rightarrow> connection_entry) \<Rightarrow> connection_table \<Rightarrow> connection_table" where
  "upd_index i f t = t\<lparr>ct_connections := update_first (\<lambda>e. ce_index e = i) f (ct_connections t)\<rparr>"

definition upd_addr ::
    "individual_address \<Rightarrow> (connection_entry \<Rightarrow> connection_entry) \<Rightarrow> connection_table \<Rightarrow> connection_table" where
  "upd_addr a f t = t\<lparr>ct_connections := update_first (\<lambda>e. ce_remoteAddress e = a) f (ct_connections t)\<rparr>"

definition canCreateConnection :: "connection_table \<Rightarrow> individual_address \<Rightarrow> unit result" where
  "canCreateConnection t a =
     (if length (ct_connections t) \<ge> ct_maxConnections t then Inl ResourceUnavailable
      else if findConnection t a \<noteq> None then Inl OperationFailed
      else Inr ())"

definition new_entry :: "connection_index \<Rightarrow> individual_address \<Rightarrow> connection_params \<Rightarrow> connection_entry" where
  "new_entry i a p =
     \<lparr>ce_machine = fst (sm_init sm_fresh (p\<lparr>pm_remoteAddress := a\<rparr>)), ce_index = i,
      ce_remoteAddress = a, ce_sequenceNumber = pm_initialSequence p AND 0x0F,
      ce_expectedRxSeq = pm_initialSequence p AND 0x0F, ce_pendingSeq = 0,
      ce_maxRetries = pm_maxRetries p, ce_lastReceivedSeq = 0xFF, ce_lastActivity = 0,
      ce_pendingRetransmission = False, ce_pendingData = [], ce_pendingApci = 0,
      ce_priority = System, ce_pendingPriority = System, ce_retransmitCount = 0,
      ce_lastTx = 0, ce_retransmitTimeout = ACK_TIMEOUT_MS\<rparr>"

definition createConnection ::
    "connection_table \<Rightarrow> individual_address \<Rightarrow> connection_params \<Rightarrow> connection_table \<times> connection_index" where
  "createConnection t a p =
     (if \<not> ia_isValid a then (t, 0xFF)
      else if length (ct_connections t) \<ge> ct_maxConnections t then (t, 0xFF)
      else if findConnection t a \<noteq> None then (t, 0xFF)
      else (t\<lparr>ct_connections := ct_connections t @ [new_entry (ct_nextIndex t) a p],
              ct_nextIndex := (ct_nextIndex t + 1) mod 16\<rparr>, ct_nextIndex t))"

definition removeConnection :: "connection_table \<Rightarrow> connection_index \<Rightarrow> connection_table \<times> unit result" where
  "removeConnection t i =
     (if getConnection t i = None then (t, Inl OperationFailed)
      else (t\<lparr>ct_connections := remove_first (\<lambda>e. ce_index e = i) (ct_connections t)\<rparr>, Inr ()))"

definition removeConnectionByAddress ::
    "connection_table \<Rightarrow> individual_address \<Rightarrow> connection_table \<times> unit result" where
  "removeConnectionByAddress t a =
     (if findConnection t a = None then (t, Inl OperationFailed)
      else (t\<lparr>ct_connections := remove_first (\<lambda>e. ce_remoteAddress e = a) (ct_connections t)\<rparr>, Inr ()))"

text \<open>\<open>checkTimeouts\<close> walks the vector backwards and erases in place: the survivors keep their
  order.\<close>

definition checkTimeouts :: "connection_table \<Rightarrow> u32 \<Rightarrow> u32 \<Rightarrow> connection_table \<times> nat" where
  "checkTimeouts t now timeout =
     (let expired = (\<lambda>e. ce_lastActivity e \<noteq> 0 \<and> now - ce_lastActivity e > timeout) in
      (t\<lparr>ct_connections := filter (\<lambda>e. \<not> expired e) (ct_connections t)\<rparr>,
       length (filter expired (ct_connections t))))"

definition updateActivityTime :: "connection_table \<Rightarrow> connection_index \<Rightarrow> u32 \<Rightarrow> connection_table" where
  "updateActivityTime t i now = upd_index i (\<lambda>e. e\<lparr>ce_lastActivity := now\<rparr>) t"

definition markDataSent :: "connection_table \<Rightarrow> connection_index \<Rightarrow> connection_table \<times> unit result" where
  "markDataSent t i =
     (if getConnection t i = None then (t, Inl InvalidParameter)
      else (upd_index i (\<lambda>e. e\<lparr>ce_retransmitCount := ce_retransmitCount e + 1, ce_lastTx := 0\<rparr>) t, Inr ()))"

definition reset_retransmit :: "connection_entry \<Rightarrow> connection_entry" where
  "reset_retransmit e = e\<lparr>ce_pendingRetransmission := False, ce_retransmitCount := 0, ce_lastTx := 0,
     ce_retransmitTimeout := ACK_TIMEOUT_MS, ce_pendingData := []\<rparr>"

definition resetRetransmitState :: "connection_table \<Rightarrow> connection_index \<Rightarrow> connection_table \<times> unit result" where
  "resetRetransmitState t i =
     (if getConnection t i = None then (t, Inl InvalidParameter)
      else (upd_index i reset_retransmit t, Inr ()))"

definition getRetransmitCount :: "connection_table \<Rightarrow> connection_index \<Rightarrow> u8" where
  "getRetransmitCount t i = (case getConnection t i of None \<Rightarrow> 0 | Some e \<Rightarrow> ce_retransmitCount e)"

definition backoff :: "u32 \<Rightarrow> u32" where
  "backoff to = (if to * 2 \<le> CONNECTION_TIMEOUT_MS then to * 2 else CONNECTION_TIMEOUT_MS)"

text \<open>The body of the loop of \<open>processRetransmissions\<close> for the entry at position \<open>k\<close>; giving up
  resets the first entry that carries the entry's index.\<close>

definition retransmit_one ::
    "u32 \<Rightarrow> nat \<Rightarrow> connection_table \<times> connection_index list \<Rightarrow> connection_table \<times> connection_index list" where
  "retransmit_one now k = (\<lambda>(t, out).
     let e = ct_connections t ! k in
     if \<not> ce_pendingRetransmission e then (t, out)
     else if now - ce_lastTx e \<ge> ce_retransmitTimeout e then
       (if ce_retransmitCount e < ce_maxRetries e then
          (t\<lparr>ct_connections := (ct_connections t)
               [k := e\<lparr>ce_retransmitTimeout := backoff (ce_retransmitTimeout e)\<rparr>]\<rparr>,
           fst (fv_push_back MAX_CONNECTIONS out (ce_index e)))
        else (fst (resetRetransmitState t (ce_index e)), out))
     else (t, out))"

definition ct_processRetransmissions ::
    "connection_table \<Rightarrow> u32 \<Rightarrow> connection_table \<times> connection_index list" where
  "ct_processRetransmissions t now =
     fold (retransmit_one now) [0..<length (ct_connections t)] (t, [])"

definition processTimeouts ::
    "connection_table \<Rightarrow> u32 \<Rightarrow> u32 \<Rightarrow> connection_table \<times> connection_index list" where
  "processTimeouts t now timeout =
     (let expired = (\<lambda>e. now - ce_lastActivity e \<ge> timeout) in
      (t\<lparr>ct_connections := filter (\<lambda>e. \<not> expired e) (ct_connections t)\<rparr>,
       take MAX_CONNECTIONS (map ce_index (filter expired (ct_connections t)))))"

definition findAvailableIndex :: "connection_table \<Rightarrow> connection_index" where
  "findAvailableIndex t =
     (case find (\<lambda>i. getConnection t (of_nat i) = None) [0..<MAX_CONNECTIONS] of
        Some i \<Rightarrow> of_nat i | None \<Rightarrow> 0xFF)"

definition isDuplicate :: "connection_table \<Rightarrow> connection_index \<Rightarrow> u8 \<Rightarrow> connection_table \<times> bool result" where
  "isDuplicate t i seqNum =
     (case getConnection t i of
        None \<Rightarrow> (t, Inl InvalidParameter)
      | Some e \<Rightarrow>
          let s = seqNum AND 0x0F in
          if ce_lastReceivedSeq e = s then (t, Inr True)
          else (upd_index i (\<lambda>e. e\<lparr>ce_lastReceivedSeq := s\<rparr>) t, Inr False))"

definition ct_clear :: "connection_table \<Rightarrow> connection_table" where
  "ct_clear t = t\<lparr>ct_connections := []\<rparr>"

section \<open>Lemmas: look-up\<close>

lemma find_update_first:
  assumes "\<And>x. P x \<Longrightarrow> P (f x)"
  shows "find P (update_first P f xs) = map_option f (find P xs)"
  using assms by (induction xs) auto

lemma find_update_first_other:
  assumes "\<And>x. P x \<Longrightarrow> \<not> Q x \<and> \<not> Q (f x)"
  shows "find Q (update_first P f xs) = find Q xs"
  using assms by (induction xs) auto

lemma map_update_first: "(\<And>x. g (f x) = g x) \<Longrightarrow> map g (update_first P f xs) = map g xs"
  by (induction xs) auto

lemma length_update_first [simp]: "length (update_first P f xs) = length xs"
  by (induction xs) auto

lemma set_update_first: "x \<in> set (update_first P f xs) \<Longrightarrow> x \<in> set xs \<or> (\<exists>y \<in> set xs. x = f y)"
  by (induction xs) (auto split: if_splits)

lemma set_remove_first: "set (remove_first P xs) \<subseteq> set xs"
  by (induction xs) auto

lemma length_remove_first: "length (remove_first P xs) \<le> length xs"
  by (induction xs) auto

lemma distinct_map_remove_first: "distinct (map g xs) \<Longrightarrow> distinct (map g (remove_first P xs))"
  using set_remove_first [of P] by (induction xs) auto

lemma find_remove_first_other: "(\<And>x. P x \<Longrightarrow> \<not> Q x) \<Longrightarrow> find Q (remove_first P xs) = find Q xs"
  by (induction xs) auto

lemma find_Some_iff_first: "find P xs = Some x \<Longrightarrow> P x \<and> x \<in> set xs"
  by (auto simp: find_Some_iff)

interpretation by_addr: keyed_table findConnection upd_addr ce_remoteAddress
proof unfold_locales
  fix t :: connection_table and k k' e and f :: "connection_entry \<Rightarrow> connection_entry"
  show "findConnection t k = Some e \<Longrightarrow> ce_remoteAddress e = k"
    by (auto simp: findConnection_def dest: find_Some_iff_first)
  assume f: "\<And>e. ce_remoteAddress (f e) = ce_remoteAddress e"
  show "findConnection (upd_addr k f t) k' =
      (if k' = k then map_option f (findConnection t k) else findConnection t k')"
    by (simp add: findConnection_def upd_addr_def find_update_first find_update_first_other f)
qed

interpretation by_index: keyed_table getConnection upd_index ce_index
proof unfold_locales
  fix t :: connection_table and k k' e and f :: "connection_entry \<Rightarrow> connection_entry"
  show "getConnection t k = Some e \<Longrightarrow> ce_index e = k"
    by (auto simp: getConnection_def dest: find_Some_iff_first)
  assume f: "\<And>e. ce_index (f e) = ce_index e"
  show "getConnection (upd_index k f t) k' =
      (if k' = k then map_option f (getConnection t k) else getConnection t k')"
    by (simp add: getConnection_def upd_index_def find_update_first find_update_first_other f)
qed

section \<open>Lemmas: well-formed tables\<close>

definition ce_ok :: "connection_entry \<Rightarrow> bool" where
  "ce_ok e \<longleftrightarrow> ia_isValid (ce_remoteAddress e) \<and> ce_index e < 16 \<and> ce_sequenceNumber e < 16 \<and>
     ce_expectedRxSeq e < 16 \<and> (ce_lastReceivedSeq e < 16 \<or> ce_lastReceivedSeq e = 0xFF) \<and>
     ce_retransmitTimeout e \<in> {0, 3000, 6000}"

definition ct_ok :: "connection_table \<Rightarrow> bool" where
  "ct_ok t \<longleftrightarrow> length (ct_connections t) \<le> ct_maxConnections t \<and> ct_maxConnections t \<le> MAX_CONNECTIONS \<and>
     ct_nextIndex t < 16 \<and> distinct (map ce_remoteAddress (ct_connections t)) \<and>
     (\<forall>e \<in> set (ct_connections t). ce_ok e)"

lemma mask4_less: "(s :: u8) AND 0x0F < 16"
proof -
  have "unat (s AND 0x0F) < 16" using and_mask_less_size [of 4 s] by (simp add: mask_eq_exp_minus_1 word_less_nat_alt word_size)
  then show ?thesis by (simp add: word_less_nat_alt)
qed

lemma backoff_ok: "to \<in> {0, 3000, 6000} \<Longrightarrow> backoff to \<in> {0, 3000, 6000}"
  by (auto simp: backoff_def CONNECTION_TIMEOUT_MS_def)

lemma new_entry_ok: "ia_isValid a \<Longrightarrow> i < 16 \<Longrightarrow> ce_ok (new_entry i a p)"
  by (simp add: ce_ok_def new_entry_def mask4_less ACK_TIMEOUT_MS_def)

lemma update_first_ok:
  assumes "ct_ok t" "\<And>e. ce_ok e \<Longrightarrow> ce_ok (f e)" "\<And>e. ce_remoteAddress (f e) = ce_remoteAddress e"
  shows "ct_ok (t\<lparr>ct_connections := update_first P f (ct_connections t)\<rparr>)"
  using assms by (auto simp: ct_ok_def map_update_first dest: set_update_first)

lemma upd_index_ok:
  "ct_ok t \<Longrightarrow> (\<And>e. ce_ok e \<Longrightarrow> ce_ok (f e)) \<Longrightarrow> (\<And>e. ce_remoteAddress (f e) = ce_remoteAddress e) \<Longrightarrow>
     ct_ok (upd_index i f t)"
  unfolding upd_index_def by (rule update_first_ok)

lemma upd_addr_ok:
  "ct_ok t \<Longrightarrow> (\<And>e. ce_ok e \<Longrightarrow> ce_ok (f e)) \<Longrightarrow> (\<And>e. ce_remoteAddress (f e) = ce_remoteAddress e) \<Longrightarrow>
     ct_ok (upd_addr a f t)"
  unfolding upd_addr_def by (rule update_first_ok)

lemma findConnection_None: "findConnection t a = None \<longleftrightarrow> a \<notin> ce_remoteAddress ` set (ct_connections t)"
  by (auto simp: findConnection_def find_None_iff)

lemma next_index_less: "(i :: u8) < 16 \<Longrightarrow> (i + 1) mod 16 < 16"
  by (simp add: word_less_nat_alt unat_mod)

lemma createConnection_ok: "ct_ok t \<Longrightarrow> ct_ok (fst (createConnection t a p))"
  by (auto simp: createConnection_def ct_ok_def findConnection_None new_entry_ok next_index_less)
    (simp add: new_entry_def)

lemma filter_ok: "ct_ok t \<Longrightarrow> ct_ok (t\<lparr>ct_connections := filter Q (ct_connections t)\<rparr>)"
  by (auto simp: ct_ok_def distinct_map_filter intro: order_trans [OF length_filter_le])

lemma remove_first_ok: "ct_ok t \<Longrightarrow> ct_ok (t\<lparr>ct_connections := remove_first Q (ct_connections t)\<rparr>)"
  using set_remove_first [of Q "ct_connections t"] length_remove_first [of Q "ct_connections t"]
  by (auto simp: ct_ok_def distinct_map_remove_first)

lemma remove_ok:
  "ct_ok t \<Longrightarrow> ct_ok (fst (removeConnection t i))" "ct_ok t \<Longrightarrow> ct_ok (fst (removeConnectionByAddress t a))"
  by (simp_all add: removeConnection_def removeConnectionByAddress_def remove_first_ok)

lemma entry_updates_ok [simp]:
  "ct_ok t \<Longrightarrow> ct_ok (updateActivityTime t i now)"
  "ct_ok t \<Longrightarrow> ct_ok (fst (markDataSent t i))"
  "ct_ok t \<Longrightarrow> ct_ok (fst (resetRetransmitState t i))"
  "ct_ok t \<Longrightarrow> ct_ok (fst (isDuplicate t i s))"
  by (auto simp: updateActivityTime_def markDataSent_def resetRetransmitState_def isDuplicate_def
      reset_retransmit_def ce_ok_def mask4_less ACK_TIMEOUT_MS_def Let_def
      split: option.split intro!: upd_index_ok)

lemma retransmit_one_ok:
  assumes "ct_ok (fst s)" "k < length (ct_connections (fst s))"
  shows "ct_ok (fst (retransmit_one now k s)) \<and>
    length (ct_connections (fst (retransmit_one now k s))) = length (ct_connections (fst s))"
proof (cases s)
  case (Pair t out)
  let ?e = "ct_connections t ! k"
  have e: "ce_ok ?e" "?e \<in> set (ct_connections t)" using assms Pair by (auto simp: ct_ok_def)
  have "map ce_remoteAddress ((ct_connections t)[k := ?e\<lparr>ce_retransmitTimeout := x\<rparr>]) =
      map ce_remoteAddress (ct_connections t)" for x
    using assms Pair by (simp add: map_update) (metis list_update_id nth_map)
  moreover have "ce_ok (?e\<lparr>ce_retransmitTimeout := backoff (ce_retransmitTimeout ?e)\<rparr>)"
    using e(1) backoff_ok [of "ce_retransmitTimeout ?e"] by (simp add: ce_ok_def)
  ultimately have "ct_ok (t\<lparr>ct_connections := (ct_connections t)
      [k := ?e\<lparr>ce_retransmitTimeout := backoff (ce_retransmitTimeout ?e)\<rparr>]\<rparr>)"
    using assms Pair by (auto simp: ct_ok_def dest!: set_update_subset_insert [THEN subsetD])
  with assms Pair show ?thesis
    by (auto simp: retransmit_one_def Let_def resetRetransmitState_def upd_index_def
        dest: entry_updates_ok(3) [of t "ce_index ?e"])
qed

lemma fold_retransmit_ok:
  assumes "ct_ok (fst s)" "\<forall>k \<in> set ks. k < length (ct_connections (fst s))"
  shows "ct_ok (fst (fold (retransmit_one now) ks s)) \<and>
    length (ct_connections (fst (fold (retransmit_one now) ks s))) = length (ct_connections (fst s))"
  using assms
proof (induction ks arbitrary: s)
  case (Cons k ks)
  then have r: "ct_ok (fst (retransmit_one now k s))"
    "length (ct_connections (fst (retransmit_one now k s))) = length (ct_connections (fst s))"
    using retransmit_one_ok [of s k now] by auto
  from Cons.prems Cons.IH [OF r(1)] r(2) show ?case by simp
qed simp

lemma ct_processRetransmissions_ok [simp]: "ct_ok t \<Longrightarrow> ct_ok (fst (ct_processRetransmissions t now))"
  unfolding ct_processRetransmissions_def using fold_retransmit_ok [of "(t, [])"] by simp

lemma timeouts_ok [simp]:
  "ct_ok t \<Longrightarrow> ct_ok (fst (processTimeouts t now timeout))"
  "ct_ok t \<Longrightarrow> ct_ok (fst (checkTimeouts t now timeout))"
  by (simp_all add: processTimeouts_def checkTimeouts_def Let_def filter_ok)

text \<open>The calls that change a connection table, in any order.\<close>

datatype table_event =
    TInit nat
  | TCreate individual_address connection_params
  | TRemove connection_index
  | TRemoveAddress individual_address
  | TActivity connection_index u32
  | TDataSent connection_index
  | TResetRetransmit connection_index
  | TDuplicate connection_index u8
  | TRetransmissions u32
  | TTimeouts u32 u32
  | TCheckTimeouts u32 u32
  | TClear

fun ct_step :: "table_event \<Rightarrow> connection_table \<Rightarrow> connection_table" where
  "ct_step (TInit n) t = fst (ct_init t n)"
| "ct_step (TCreate a p) t = fst (createConnection t a p)"
| "ct_step (TRemove i) t = fst (removeConnection t i)"
| "ct_step (TRemoveAddress a) t = fst (removeConnectionByAddress t a)"
| "ct_step (TActivity i now) t = updateActivityTime t i now"
| "ct_step (TDataSent i) t = fst (markDataSent t i)"
| "ct_step (TResetRetransmit i) t = fst (resetRetransmitState t i)"
| "ct_step (TDuplicate i s) t = fst (isDuplicate t i s)"
| "ct_step (TRetransmissions now) t = fst (ct_processRetransmissions t now)"
| "ct_step (TTimeouts now to) t = fst (processTimeouts t now to)"
| "ct_step (TCheckTimeouts now to) t = fst (checkTimeouts t now to)"
| "ct_step TClear t = ct_clear t"

lemma ct_step_ok: "ct_ok t \<Longrightarrow> ct_ok (ct_step ev t)"
  by (cases ev) (simp_all add: createConnection_ok remove_ok ct_init_def ct_clear_def, simp_all add: ct_ok_def)

text \<open>A table with no connection before \<open>init\<close>. The class gives \<open>_maxConnections\<close> and \<open>_nextIndex\<close> no initial
  values; zero stands for them here, and after a successful \<open>init\<close> nothing depends on them.\<close>

definition ct_empty :: connection_table where
  "ct_empty = \<lparr>ct_connections = [], ct_maxConnections = 0, ct_nextIndex = 0\<rparr>"

lemma handleEvent_state:
  "sm_state (fst (handleEvent m e)) =
     (if isEventValid (sm_state m) e then fst (transition (sm_state m) e) else sm_state m)"
  by (simp add: handleEvent_def transitionTo_def resetRetry_def Let_def split: prod.split)

lemma handleEvent_connected:
  "sm_state (fst (handleEvent m e)) = CsConnected \<Longrightarrow>
     (sm_state m = CsConnected \<and> e \<noteq> EvDisconnectRequest \<and> e \<noteq> EvTimeout) \<or>
     (sm_state m = CsConnecting \<and> e = EvConnectResponse)"
  unfolding handleEvent_state
  by (cases "sm_state m"; cases e) (simp_all add: isEventValid_def transition_def)

lemma handleEvent_connecting:
  "sm_state (fst (handleEvent m e)) = CsConnecting \<Longrightarrow> sm_state m = CsConnecting \<or> e = EvConnectRequest"
  unfolding handleEvent_state
  by (cases "sm_state m"; cases e) (simp_all add: isEventValid_def transition_def)

section \<open>Properties\<close>

lemma ct_steps_ok: "ct_ok t \<Longrightarrow> ct_ok (fold ct_step evs t)"
  by (induction evs arbitrary: t) (simp_all add: ct_step_ok)

text \<open>
  C38. The connection table keeps its invariant under every sequence of calls of its methods: never more
  entries than configured and at most sixteen, no two entries for the same peer, every peer address valid,
  sequence numbers within four bits, and every retransmission timeout 3 s, its capped doubling 6 s,
  or the 0 that forces an immediate repetition. It holds from the empty table on, and after an \<open>init\<close> for 1 to
  16 connections whatever the table held before. (The transport layer also writes sequence numbers and
  retransmission timeouts through pointers to entries; those writes are not among the calls here.)
\<close>

theorem connection_table_invariant:
  "ct_ok (fold ct_step evs ct_empty) \<and> (0 < n \<and> n \<le> 16 \<longrightarrow> ct_ok (fold ct_step evs (fst (ct_init t n))))"
proof (intro conjI impI)
  show "ct_ok (fold ct_step evs ct_empty)" by (rule ct_steps_ok) (simp add: ct_ok_def ct_empty_def)
  assume "0 < n \<and> n \<le> 16"
  then show "ct_ok (fold ct_step evs (fst (ct_init t n)))"
    by (intro ct_steps_ok) (simp add: ct_ok_def ct_init_def MAX_CONNECTIONS_def)
qed

theorem connection_table_invariant_witness:
  "ct_ok (fold ct_step [TCreate 0x1105 connection_params_init, TCreate 0x1106 connection_params_init, TRetransmissions 5000]
     (fst (ct_init \<lparr>ct_connections = [], ct_maxConnections = 99, ct_nextIndex = 200\<rparr> 1)))"
  using connection_table_invariant [of "[TCreate 0x1105 connection_params_init, TCreate 0x1106 connection_params_init, TRetransmissions 5000]" 1
      "\<lparr>ct_connections = [], ct_maxConnections = 99, ct_nextIndex = 200\<rparr>"] by simp

text \<open>
  Creation and look-up agree: a connection is refused (index \<open>0xFF\<close>, table unchanged) exactly
  when the address is invalid, the table is full or the peer already has one; otherwise the new
  entry is found by its address, the other peers' entries are as before, and in a table that holds
  no other entry with that index it is found by the returned index.
\<close>

theorem create_then_find:
  assumes "ct_nextIndex t < 16" "createConnection t a p = (t', i)"
  shows "(i = 0xFF \<longleftrightarrow> \<not> ia_isValid a \<or> canCreateConnection t a \<noteq> Inr ()) \<and>
    (i = 0xFF \<longrightarrow> t' = t) \<and>
    (i \<noteq> 0xFF \<longrightarrow> findConnection t' a = Some (new_entry i a p) \<and>
       (\<forall>b. b \<noteq> a \<longrightarrow> findConnection t' b = findConnection t b) \<and>
       (getConnection t i = None \<longrightarrow> getConnection t' i = Some (new_entry i a p)))"
proof -
  have "ct_nextIndex t \<noteq> 0xFF" using assms(1) by auto
  moreover have "ce_remoteAddress (new_entry i a p) = a" "ce_index (new_entry i a p) = i"
    by (simp_all add: new_entry_def)
  moreover have app: "find P (xs @ [x]) = (case find P xs of None \<Rightarrow> if P x then Some x else None | Some y \<Rightarrow> Some y)"
    for P :: "connection_entry \<Rightarrow> bool" and xs x by (induction xs) auto
  ultimately show ?thesis
    using assms(2)
    by (auto simp: createConnection_def canCreateConnection_def findConnection_def getConnection_def app
        split: if_splits option.splits)
qed

theorem create_then_find_witness:
  "findConnection (fst (createConnection (ct_empty\<lparr>ct_maxConnections := 1\<rparr>) 0x1105 connection_params_init)) 0x1105 =
     Some (new_entry 0 0x1105 connection_params_init)"
proof -
  let ?t = "ct_empty\<lparr>ct_maxConnections := 1\<rparr>"
  have i: "ct_nextIndex ?t < 16" "snd (createConnection ?t 0x1105 connection_params_init) = 0" by code_simp+
  show ?thesis
    using create_then_find [OF i(1) prod.collapse [symmetric], of "0x1105" connection_params_init] i(2)
    by simp
qed

definition churn :: "connection_table \<Rightarrow> connection_table" where
  "churn t = fst (removeConnectionByAddress (fst (createConnection t 0x1106 connection_params_init)) 0x1106)"

text \<open>
  With more than one connection configured, two live connections can share an index: the index
  is the next value of a counter modulo sixteen and is not checked against the entries in use. After
  fifteen short connections of a second peer, the third peer gets the index of the first, and a
  look-up by the index it was given returns the first peer's entry.
\<close>

theorem connection_index_reused:
  "\<exists>t t' i. ct_ok t \<and> createConnection t 0x1107 connection_params_init = (t', i) \<and> i \<noteq> 0xFF \<and>
     map_option ce_remoteAddress (getConnection t' i) = Some 0x1105"
proof -
  let ?t = "fold (\<lambda>_. churn) [0..<15]
    (fst (createConnection (ct_empty\<lparr>ct_maxConnections := 2\<rparr>) 0x1105 connection_params_init))"
  let ?r = "createConnection ?t 0x1107 connection_params_init"
  have "ct_ok ?t" "snd ?r = 0"
    "map_option ce_remoteAddress (getConnection (fst ?r) 0) = Some 0x1105"
    by code_simp+
  then show ?thesis by (intro exI [of _ ?t] exI [of _ "fst ?r"] exI [of _ 0]) (auto simp: prod_eq_iff)
qed

text \<open>
  A state machine is connected only with a history that justifies it: a connect request, later
  its response, and since the last response neither a disconnect request nor a timeout, whatever
  other events (valid or not) were thrown at it.
\<close>

theorem connected_history:
  assumes "sm_state (fold (\<lambda>e m. fst (handleEvent m e)) es sm_fresh) = CsConnected"
  shows "\<exists>es1 es2. es = es1 @ EvConnectResponse # es2 \<and> EvConnectRequest \<in> set es1 \<and>
    EvDisconnectRequest \<notin> set es2 \<and> EvTimeout \<notin> set es2"
proof -
  let ?run = "\<lambda>es. sm_state (fold (\<lambda>e m. fst (handleEvent m e)) es sm_fresh)"
  have "(?run es = CsConnecting \<longrightarrow> EvConnectRequest \<in> set es) \<and>
    (?run es = CsConnected \<longrightarrow> (\<exists>es1 es2. es = es1 @ EvConnectResponse # es2 \<and>
       EvConnectRequest \<in> set es1 \<and> EvDisconnectRequest \<notin> set es2 \<and> EvTimeout \<notin> set es2))"
  proof (induction es rule: rev_induct)
    case Nil
    show ?case by (simp add: sm_fresh_def)
  next
    case (snoc e es)
    have last: "?run (es @ [e]) = sm_state (fst (handleEvent (fold (\<lambda>e m. fst (handleEvent m e)) es sm_fresh) e))"
      by simp
    note conn = handleEvent_connected [of "fold (\<lambda>e m. fst (handleEvent m e)) es sm_fresh" e, folded last]
    note ing = handleEvent_connecting [of "fold (\<lambda>e m. fst (handleEvent m e)) es sm_fresh" e, folded last]
    show ?case
    proof (intro conjI impI)
      assume "?run (es @ [e]) = CsConnecting"
      with ing snoc.IH show "EvConnectRequest \<in> set (es @ [e])" by auto
    next
      assume "?run (es @ [e]) = CsConnected"
      from conn [OF this] show "\<exists>es1 es2. es @ [e] = es1 @ EvConnectResponse # es2 \<and>
        EvConnectRequest \<in> set es1 \<and> EvDisconnectRequest \<notin> set es2 \<and> EvTimeout \<notin> set es2"
      proof
        assume c: "?run es = CsConnected \<and> e \<noteq> EvDisconnectRequest \<and> e \<noteq> EvTimeout"
        with snoc.IH obtain es1 es2 where "es = es1 @ EvConnectResponse # es2" "EvConnectRequest \<in> set es1"
          "EvDisconnectRequest \<notin> set es2" "EvTimeout \<notin> set es2" by blast
        with c show ?thesis by (intro exI [of _ es1] exI [of _ "es2 @ [e]"]) auto
      next
        assume "?run es = CsConnecting \<and> e = EvConnectResponse"
        with snoc.IH show ?thesis by (intro exI [of _ es] exI [of _ "[]"]) auto
      qed
    qed
  qed
  with assms show ?thesis by blast
qed

theorem connected_history_witness:
  "\<exists>es1 es2. [EvTimeout, EvConnectRequest, EvConnectResponse, EvDataIndicate] = es1 @ EvConnectResponse # es2 \<and>
     EvConnectRequest \<in> set es1 \<and> EvDisconnectRequest \<notin> set es2 \<and> EvTimeout \<notin> set es2"
proof (rule connected_history)
  show "sm_state (fold (\<lambda>e m. fst (handleEvent m e))
      [EvTimeout, EvConnectRequest, EvConnectResponse, EvDataIndicate] sm_fresh) = CsConnected"
    by code_simp
qed

end
