(* ===== verification/Transport.thy ===== *)
theory Transport
  imports Network_Layer Connection "HOL-Library.Sublist"
begin

text \<open>
  The transport layer (\<open>src/transport/transport_layer.cpp\<close>, \<open>transport_layer_send.cpp\<close>,
  \<open>transport_layer_receive.cpp\<close>) over the network layer of \<open>Network_Layer\<close> and the connection table
  of \<open>Connection\<close>: connectionless and connected sending, connect and disconnect, retransmission,
  reception of control and numbered data frames, the receive queue, and the asynchronous variants
  of each. The data link below is \<open>'d dl_ops\<close>; the two security transforms are the hooks \<open>'u hooks\<close>
  with their own state. What the receive callback is called with is logged in \<open>tl_indications\<close>.
\<close>

section \<open>State\<close>

datatype tdata_service = TIndividual | TGroup | TConnected

record request_security =
  rs_secured :: bool
  rs_toolAccess :: bool
  rs_confidentiality :: bool

record tdata_frame =
  t_service :: tdata_service
  t_source :: individual_address
  t_destination :: group_address
  t_destinationType :: address_type
  t_standardFrame :: bool
  t_repeated :: bool
  t_priority :: priority
  t_ackRequested :: bool
  t_confirmation :: bool
  t_hopCount :: u8
  t_sequenceNumber :: u8
  t_securityTpci6 :: u8
  t_security :: request_security
  t_tpdu :: bytes

definition tdata_frame_init :: tdata_frame where
  "tdata_frame_init =
     \<lparr>t_service = TGroup, t_source = 0, t_destination = 0, t_destinationType = Group,
      t_standardFrame = True, t_repeated = False, t_priority = Low, t_ackRequested = True,
      t_confirmation = False, t_hopCount = 6, t_sequenceNumber = 0, t_securityTpci6 = 0,
      t_security = \<lparr>rs_secured = False, rs_toolAccess = False, rs_confidentiality = False\<rparr>,
      t_tpdu = []\<rparr>"

text \<open>A transform may change the frame and its own state, or reject the frame.\<close>

type_synonym 'u transform = "'u \<Rightarrow> tdata_frame \<Rightarrow> 'u \<times> tdata_frame result"

record 'u hooks =
  hk_tx :: "'u transform option"
  hk_rx :: "'u transform option"

record connected_send_op =
  cs_active :: bool
  cs_index :: connection_index
  cs_sequence :: u8
  cs_payload :: bytes

record connect_op =
  co_active :: bool
  co_created :: bool
  co_index :: connection_index
  co_remote :: individual_address

record retransmission_op =
  ro_active :: bool
  ro_now :: u32
  ro_pending :: "connection_index list"
  ro_next :: nat
  ro_sending :: bool
  ro_current :: connection_index

record receive_op =
  rc_active :: bool
  rc_waiting :: bool
  rc_deliver :: bool
  rc_advance :: bool
  rc_terminal :: progress
  rc_index :: connection_index
  rc_frame :: tdata_frame

definition connected_send_op_init :: connected_send_op where
  "connected_send_op_init = \<lparr>cs_active = False, cs_index = 0xFF, cs_sequence = 0, cs_payload = []\<rparr>"

definition connect_op_init :: connect_op where
  "connect_op_init = \<lparr>co_active = False, co_created = False, co_index = 0xFF, co_remote = 0\<rparr>"

definition retransmission_op_init :: retransmission_op where
  "retransmission_op_init = \<lparr>ro_active = False, ro_now = 0, ro_pending = [], ro_next = 0,
     ro_sending = False, ro_current = 0xFF\<rparr>"

definition receive_op_init :: receive_op where
  "receive_op_init = \<lparr>rc_active = False, rc_waiting = False, rc_deliver = False, rc_advance = False,
     rc_terminal = Success, rc_index = 0xFF, rc_frame = tdata_frame_init\<rparr>"

definition RX_QUEUE_CAPACITY :: nat where "RX_QUEUE_CAPACITY = 8"
definition MAX_APDU_LENGTH :: nat where "MAX_APDU_LENGTH = 254"

record ('d, 'u) transport =
  tl_net :: "'d network"
  tl_own :: individual_address
  tl_hasCallback :: bool
  tl_indications :: "tdata_frame list"
  tl_hookState :: 'u
  tl_initialized :: bool
  tl_timebase :: u32
  tl_sendActive :: bool
  tl_csend :: connected_send_op
  tl_connectOp :: connect_op
  tl_retrans :: retransmission_op
  tl_receive :: receive_op
  tl_rxQueue :: "tdata_frame ring"
  tl_droppedRx :: nat
  tl_table :: connection_table

definition transport_init :: "'d network \<Rightarrow> 'u \<Rightarrow> ('d, 'u) transport" where
  "transport_init net u =
     \<lparr>tl_net = net, tl_own = 0, tl_hasCallback = False, tl_indications = [], tl_hookState = u,
      tl_initialized = False, tl_timebase = 0, tl_sendActive = False,
      tl_csend = connected_send_op_init, tl_connectOp = connect_op_init,
      tl_retrans = retransmission_op_init, tl_receive = receive_op_init,
      tl_rxQueue = \<lparr>ring_slots = replicate RX_QUEUE_CAPACITY tdata_frame_init, ring_head = 0, ring_count = 0\<rparr>,
      tl_droppedRx = 0, tl_table = ct_empty\<rparr>"

abbreviation tl_now :: "('d, 'u) transport \<Rightarrow> u32" where
  "tl_now s \<equiv> tl_timebase s"

section \<open>Opening, closing and the receive queue\<close>

definition enqueueReceivedFrame :: "('d, 'u) transport \<Rightarrow> tdata_frame \<Rightarrow> ('d, 'u) transport" where
  "enqueueReceivedFrame s f =
     (if ring_count (tl_rxQueue s) \<ge> RX_QUEUE_CAPACITY
      then s\<lparr>tl_droppedRx := tl_droppedRx s + 1\<rparr>
      else s\<lparr>tl_rxQueue := ring_push (tl_rxQueue s) f\<rparr>)"

definition popReceivedFrame :: "('d, 'u) transport \<Rightarrow> (tdata_frame \<times> ('d, 'u) transport) option" where
  "popReceivedFrame s =
     (if ring_count (tl_rxQueue s) = 0 then None
      else case ring_pop (tl_rxQueue s) of (f, q) \<Rightarrow> Some (f, s\<lparr>tl_rxQueue := q\<rparr>))"

definition finishSendOperation :: "('d, 'u) transport \<Rightarrow> ('d, 'u) transport" where
  "finishSendOperation s = s\<lparr>tl_sendActive := False\<rparr>"

definition finishConnectedSendOperation :: "('d, 'u) transport \<Rightarrow> ('d, 'u) transport" where
  "finishConnectedSendOperation s = s\<lparr>tl_csend := connected_send_op_init\<rparr>"

definition finishConnectOperation :: "('d, 'u) transport \<Rightarrow> ('d, 'u) transport" where
  "finishConnectOperation s = s\<lparr>tl_connectOp := connect_op_init\<rparr>"

definition finishRetransmissionOperation :: "('d, 'u) transport \<Rightarrow> ('d, 'u) transport" where
  "finishRetransmissionOperation s = s\<lparr>tl_retrans := retransmission_op_init\<rparr>"

definition finishReceiveOperation :: "('d, 'u) transport \<Rightarrow> ('d, 'u) transport" where
  "finishReceiveOperation s = s\<lparr>tl_receive := receive_op_init\<rparr>"

definition mapTxErrorToProgressState :: "error_code \<Rightarrow> progress" where
  "mapTxErrorToProgressState e =
     (if e = EBusy then Busy else if e = ETimeout then Timeout else TransmissionFailed)"

definition tl_init :: "'d dl_ops \<Rightarrow> ('d, 'u) transport \<Rightarrow> individual_address \<Rightarrow> ('d, 'u) transport \<times> unit result" where
  "tl_init D s own =
     (if tl_initialized s then (s, Inr ())
      else case nl_init D (tl_net s) own of (net, r) \<Rightarrow>
      let s1 = s\<lparr>tl_own := own, tl_net := net\<rparr> in
      (case r of
         Inl e \<Rightarrow> (s1, Inl e)
       | Inr _ \<Rightarrow>
           (case ct_init (tl_table s1) kDefaultMaxConnections of
              (t, Inl e) \<Rightarrow> (s1, Inl e)
            | (t, Inr _) \<Rightarrow>
                (s1\<lparr>tl_table := t, tl_net := (tl_net s1)\<lparr>nl_hasCallback := True\<rparr>,
                    tl_initialized := True\<rparr>, Inr ()))))"

definition tl_setOwnAddress :: "('d, 'u) transport \<Rightarrow> individual_address \<Rightarrow> ('d, 'u) transport" where
  "tl_setOwnAddress s own = s\<lparr>tl_own := own, tl_net := nl_setOwnAddress (tl_net s) own\<rparr>"

definition tl_close :: "('d, 'u) transport \<Rightarrow> ('d, 'u) transport" where
  "tl_close s =
     (if tl_initialized s then
        (finishReceiveOperation (finishRetransmissionOperation (finishConnectOperation
           (finishConnectedSendOperation (finishSendOperation s)))))
          \<lparr>tl_net := (tl_net s)\<lparr>nl_hasCallback := False\<rparr>, tl_hasCallback := False,
           tl_rxQueue := (tl_rxQueue s)\<lparr>ring_head := 0, ring_count := 0\<rparr>, tl_droppedRx := 0,
           tl_initialized := False\<rparr>
      else s)"

definition convertFromNetwork :: "ndata_frame \<Rightarrow> tdata_frame" where
  "convertFromNetwork n =
     (let f = n_dlFrame n in
      tdata_frame_init\<lparr>t_source := source f, t_destination := destination f,
        t_destinationType := destinationType f, t_tpdu := tpdu f, t_standardFrame := standardFrame f,
        t_repeated := repeated f, t_priority := ldata_frame.priority f, t_ackRequested := ackRequested f,
        t_confirmation := confirmation f, t_hopCount := hopCount f,
        t_service := (if isGroupAddress (destinationType f) then TGroup else TIndividual)\<rparr>)"

text \<open>Passing a frame up: to the callback, or to the queue when none is set.\<close>

definition tl_deliver :: "('d, 'u) transport \<Rightarrow> tdata_frame \<Rightarrow> ('d, 'u) transport" where
  "tl_deliver s f =
     (if tl_hasCallback s then s\<lparr>tl_indications := tl_indications s @ [f]\<rparr> else enqueueReceivedFrame s f)"

definition run_transform ::
    "'u transform option \<Rightarrow> ('d, 'u) transport \<Rightarrow> tdata_frame \<Rightarrow> ('d, 'u) transport \<times> tdata_frame result" where
  "run_transform h s f =
     (case h of
        None \<Rightarrow> (s, Inr f)
      | Some g \<Rightarrow> (case g (tl_hookState s) f of (u, r) \<Rightarrow> (s\<lparr>tl_hookState := u\<rparr>, r)))"

section \<open>Sending\<close>

definition connected_tpci :: "u8 \<Rightarrow> u8" where
  "connected_tpci sq = tpci_create NumberedData (sq AND 0x0F)"

definition is_connected_entry :: "connection_entry \<Rightarrow> bool" where
  "is_connected_entry e \<longleftrightarrow> sm_state (ce_machine e) = CsConnected"

definition ldata_of_tdata :: "tdata_frame \<Rightarrow> ldata_frame" where
  "ldata_of_tdata w =
     \<lparr>standardFrame = t_standardFrame w, repeated = t_repeated w, priority = t_priority w,
      ackRequested = t_ackRequested w, confirmation = t_confirmation w, source = t_source w,
      destination = t_destination w, destinationType = t_destinationType w,
      hopCount = t_hopCount w, tpdu = t_tpdu w\<rparr>"

definition tpdu_at :: "bytes \<Rightarrow> nat \<Rightarrow> u8" where
  "tpdu_at bs i = (if length bs > i then bs ! i else 0)"

definition buildNetworkTxFrame ::
    "'u hooks \<Rightarrow> ('d, 'u) transport \<Rightarrow> tdata_frame \<Rightarrow> ('d, 'u) transport \<times> ndata_frame result" where
  "buildNetworkTxFrame H s f =
     (let conn = (if t_service f = TConnected \<and> t_destinationType f = Individual \<and> t_tpdu f \<noteq> []
                  then (case findConnection (tl_table s) (t_destination f) of
                          Some e \<Rightarrow> (if is_connected_entry e then Some e else None)
                        | None \<Rightarrow> None)
                  else None);
          work = (case conn of
                    None \<Rightarrow> f
                  | Some e \<Rightarrow> f\<lparr>t_securityTpci6 := drop_bit 2 (connected_tpci (ce_sequenceNumber e))\<rparr>) in
      case run_transform (hk_tx H) s work of
        (s1, Inl err) \<Rightarrow> (s1, Inl err)
      | (s1, Inr w) \<Rightarrow>
          let n = ndata_frame_init\<lparr>n_dlFrame := ldata_of_tdata w\<rparr> in
          (case conn of
             None \<Rightarrow> (s1, Inr n)
           | Some e \<Rightarrow>
               if t_tpdu w = [] then (s1, Inr n)
               else let hd = unpackTpduHeader (t_tpdu w ! 0) (tpdu_at (t_tpdu w) 1);
                        payload = drop 2 (t_tpdu w) in
                 (case buildTpduInPlace (connected_tpci (ce_sequenceNumber e)) (h_apci hd) payload of
                    Inl err \<Rightarrow> (s1, Inl err)
                  | Inr bs \<Rightarrow>
                      (s1\<lparr>tl_table := upd_addr (t_destination f) (\<lambda>e.
                           e\<lparr>ce_pendingSeq := ce_sequenceNumber e AND 0x0F,
                             ce_pendingRetransmission := True,
                             ce_pendingApci := h_apci hd,
                             ce_pendingPriority := t_priority w,
                             ce_pendingData := fst (fv_assign MAX_APDU_LENGTH (ce_pendingData e) payload),
                             ce_retransmitCount := 0,
                             ce_lastTx := tl_now s1,
                             ce_retransmitTimeout := ACK_TIMEOUT_MS\<rparr>) (tl_table s1)\<rparr>,
                       Inr (n\<lparr>n_dlFrame := (n_dlFrame n)\<lparr>tpdu := bs\<rparr>\<rparr>)))))"

definition connectedTxTpci6 :: "('d, 'u) transport \<Rightarrow> individual_address \<Rightarrow> u8" where
  "connectedTxTpci6 s peer =
     (case findConnection (tl_table s) peer of
        Some e \<Rightarrow> (if is_connected_entry e then drop_bit 2 (connected_tpci (ce_sequenceNumber e)) else 0)
      | None \<Rightarrow> 0)"

definition net_send :: "'d dl_ops \<Rightarrow> ('d, 'u) transport \<Rightarrow> ndata_frame \<Rightarrow> ('d, 'u) transport \<times> unit result" where
  "net_send D s n = (case nl_sendFrame D (tl_net s) n of (net, r) \<Rightarrow> (s\<lparr>tl_net := net\<rparr>, r))"

definition net_begin :: "('d, 'u) transport \<Rightarrow> ndata_frame \<Rightarrow> ('d, 'u) transport \<times> unit result" where
  "net_begin s n = (case nl_beginTransmit (tl_net s) n of (net, r) \<Rightarrow> (s\<lparr>tl_net := net\<rparr>, r))"

definition net_poll :: "'d dl_ops \<Rightarrow> ('d, 'u) transport \<Rightarrow> ('d, 'u) transport \<times> progress result" where
  "net_poll D s = (case nl_pollTransmit D (tl_net s) of (net, r) \<Rightarrow> (s\<lparr>tl_net := net\<rparr>, r))"

definition tl_sendFrame ::
    "'d dl_ops \<Rightarrow> 'u hooks \<Rightarrow> ('d, 'u) transport \<Rightarrow> tdata_frame \<Rightarrow> ('d, 'u) transport \<times> unit result" where
  "tl_sendFrame D H s f =
     (if \<not> tl_initialized s then (s, Inl NotInitialized)
      else case buildNetworkTxFrame H s f of
        (s1, Inl e) \<Rightarrow> (s1, Inl e)
      | (s1, Inr n) \<Rightarrow> net_send D s1 n)"

definition tl_beginTransmit ::
    "'u hooks \<Rightarrow> ('d, 'u) transport \<Rightarrow> tdata_frame \<Rightarrow> ('d, 'u) transport \<times> unit result" where
  "tl_beginTransmit H s f =
     (if \<not> tl_initialized s then (s, Inl NotInitialized)
      else if tl_sendActive s then (s, Inl EBusy)
      else case buildNetworkTxFrame H s f of
        (s1, Inl e) \<Rightarrow> (s1, Inl e)
      | (s1, Inr n) \<Rightarrow>
          (case net_begin s1 n of
             (s2, Inl e) \<Rightarrow> (s2, Inl e)
           | (s2, Inr _) \<Rightarrow> (s2\<lparr>tl_sendActive := True\<rparr>, Inr ())))"

definition processBackgroundWork :: "'d dl_ops \<Rightarrow> ('d, 'u) transport \<Rightarrow> ('d, 'u) transport" where
  "processBackgroundWork D s =
     (if \<not> tl_initialized s then s else s\<lparr>tl_net := fst (pollForwarding D (tl_net s))\<rparr>)"

definition tl_pollTransmit ::
    "'d dl_ops \<Rightarrow> ('d, 'u) transport \<Rightarrow> ('d, 'u) transport \<times> progress result" where
  "tl_pollTransmit D s0 =
     (let s = processBackgroundWork D s0 in
      if \<not> tl_initialized s then (s, Inl NotInitialized)
      else if \<not> tl_sendActive s then (s, Inl OperationNotReady)
      else case net_poll D s of (s1, r) \<Rightarrow>
        if r = Inr Pending then (s1, Inr Pending) else (finishSendOperation s1, r))"

text \<open>The frame of a transport control PDU or of connected data: default frame, own source.\<close>

definition own_frame :: "('d, 'u) transport \<Rightarrow> individual_address \<Rightarrow> bytes \<Rightarrow> priority \<Rightarrow> bool \<Rightarrow> ndata_frame" where
  "own_frame s remote bs prio ackReq =
     ndata_frame_init\<lparr>n_dlFrame := ldata_frame_init\<lparr>source := tl_own s, destination := remote,
       destinationType := Individual, tpdu := bs, hopCount := 6, priority := prio,
       ackRequested := ackReq\<rparr>\<rparr>"

definition send_control ::
    "'d dl_ops \<Rightarrow> ('d, 'u) transport \<Rightarrow> individual_address \<Rightarrow> u8 \<Rightarrow> priority \<Rightarrow> ('d, 'u) transport \<times> unit result" where
  "send_control D s remote tpci prio =
     (case buildTpduInPlace tpci 0 [] of
        Inl e \<Rightarrow> (s, Inl e)
      | Inr bs \<Rightarrow> net_send D s (own_frame s remote bs prio False))"

definition sendConnect where
  "sendConnect D s remote = send_control D s remote (tpci_create_control Connect) System"

definition sendDisconnect where
  "sendDisconnect D s remote prio = send_control D s remote (tpci_create_control Disconnect) prio"

definition sendAck where
  "sendAck D s remote sq prio = send_control D s remote (tpci_ack sq) prio"

definition sendNak where
  "sendNak D s remote sq prio = send_control D s remote (tpci_nak sq) prio"

definition connect_params :: "individual_address \<Rightarrow> connection_params" where
  "connect_params remote = connection_params_init\<lparr>pm_remoteAddress := remote,
     pm_timeoutMs := CONNECTION_TIMEOUT_MS, pm_retransmitTimeoutMs := ACK_TIMEOUT_MS,
     pm_maxRetries := CONNECTION_MAX_REPETITIONS\<rparr>"

text \<open>An event on the state machine of the entry with an index, and the activity time.\<close>

definition fire :: "connection_event \<Rightarrow> connection_entry \<Rightarrow> connection_entry" where
  "fire ev e = e\<lparr>ce_machine := fst (handleEvent (ce_machine e) ev)\<rparr>"

definition fire_index :: "('d, 'u) transport \<Rightarrow> connection_index \<Rightarrow> connection_event \<Rightarrow> ('d, 'u) transport" where
  "fire_index s i ev =
     (if getConnection (tl_table s) i = None then s
      else s\<lparr>tl_table := updateActivityTime (upd_index i (fire ev) (tl_table s)) i (tl_now s)\<rparr>)"

definition tl_connect ::
    "'d dl_ops \<Rightarrow> ('d, 'u) transport \<Rightarrow> individual_address \<Rightarrow> ('d, 'u) transport \<times> connection_index result" where
  "tl_connect D s remote =
     (if \<not> tl_initialized s then (s, Inl NotInitialized)
      else if findConnection (tl_table s) remote \<noteq> None then (s, Inl AlreadyInitialized)
      else case createConnection (tl_table s) remote (connect_params remote) of (t, i) \<Rightarrow>
      if \<not> ci_isValid i then (s\<lparr>tl_table := t\<rparr>, Inl ResourceUnavailable)
      else case sendConnect D (s\<lparr>tl_table := t\<rparr>) remote of
        (s1, Inl e) \<Rightarrow> (s1\<lparr>tl_table := fst (removeConnection (tl_table s1) i)\<rparr>, Inl e)
      | (s1, Inr _) \<Rightarrow> (fire_index s1 i EvConnectRequest, Inr i))"

definition beginConnect ::
    "('d, 'u) transport \<Rightarrow> individual_address \<Rightarrow> ('d, 'u) transport \<times> connection_index result" where
  "beginConnect s remote =
     (if \<not> tl_initialized s then (s, Inl NotInitialized)
      else if co_active (tl_connectOp s) then (s, Inl EBusy)
      else if findConnection (tl_table s) remote \<noteq> None then (s, Inl AlreadyInitialized)
      else case createConnection (tl_table s) remote (connect_params remote) of (t, i) \<Rightarrow>
      let s1 = s\<lparr>tl_table := t\<rparr> in
      if \<not> ci_isValid i then (s1, Inl ResourceUnavailable)
      else case buildTpduInPlace (tpci_create_control Connect) 0 [] of
        Inl e \<Rightarrow> (s1\<lparr>tl_table := fst (removeConnection t i)\<rparr>, Inl e)
      | Inr bs \<Rightarrow>
          (case net_begin s1 (own_frame s1 remote bs System True) of
             (s2, Inl e) \<Rightarrow> (s2\<lparr>tl_table := fst (removeConnection (tl_table s2) i)\<rparr>, Inl e)
           | (s2, Inr _) \<Rightarrow>
               (s2\<lparr>tl_connectOp := \<lparr>co_active = True, co_created = True, co_index = i, co_remote = remote\<rparr>\<rparr>,
                Inr i)))"

definition drop_created :: "('d, 'u) transport \<Rightarrow> ('d, 'u) transport" where
  "drop_created s =
     (if co_created (tl_connectOp s) \<and> ci_isValid (co_index (tl_connectOp s))
      then s\<lparr>tl_table := fst (removeConnection (tl_table s) (co_index (tl_connectOp s)))\<rparr> else s)"

definition pollConnect :: "'d dl_ops \<Rightarrow> ('d, 'u) transport \<Rightarrow> ('d, 'u) transport \<times> progress result" where
  "pollConnect D s0 =
     (let s = processBackgroundWork D s0 in
      if \<not> tl_initialized s then (s, Inl NotInitialized)
      else if \<not> co_active (tl_connectOp s) then (s, Inl OperationNotReady)
      else case net_poll D s of (s1, r) \<Rightarrow>
        (case r of
           Inl e \<Rightarrow> (finishConnectOperation (drop_created s1), Inl e)
         | Inr Pending \<Rightarrow> (s1, Inr Pending)
         | Inr Success \<Rightarrow>
             (finishConnectOperation (fire_index s1 (co_index (tl_connectOp s1)) EvConnectRequest), Inr Success)
         | Inr q \<Rightarrow> (finishConnectOperation (drop_created s1), Inr q)))"

definition tl_disconnect ::
    "'d dl_ops \<Rightarrow> ('d, 'u) transport \<Rightarrow> connection_index \<Rightarrow> ('d, 'u) transport \<times> unit result" where
  "tl_disconnect D s i =
     (if \<not> tl_initialized s then (s, Inl NotInitialized)
      else case getConnection (tl_table s) i of
        None \<Rightarrow> (s, Inl InvalidParameter)
      | Some e \<Rightarrow>
          (case sendDisconnect D s (ce_remoteAddress e) (ce_priority e) of
             (s1, Inl err) \<Rightarrow> (s1, Inl err)
           | (s1, Inr _) \<Rightarrow> (fire_index s1 i EvDisconnectRequest, Inr ())))"

section \<open>Connected data\<close>

definition awaiting_ack :: "connection_entry \<Rightarrow> bool" where
  "awaiting_ack e \<longleftrightarrow> ce_pendingRetransmission e \<and> ce_pendingData e \<noteq> []"

text \<open>The pending record of a data frame that is (about to be) on its way.\<close>

definition mark_pending :: "bytes \<Rightarrow> u8 \<Rightarrow> u32 \<Rightarrow> connection_entry \<Rightarrow> connection_entry" where
  "mark_pending data sq now e =
     e\<lparr>ce_pendingData := data, ce_pendingApci := 0, ce_pendingPriority := ce_priority e,
       ce_pendingSeq := sq, ce_pendingRetransmission := True, ce_retransmitCount := 0,
       ce_lastTx := now, ce_retransmitTimeout := ACK_TIMEOUT_MS\<rparr>"

definition sendConnectedData ::
    "'d dl_ops \<Rightarrow> ('d, 'u) transport \<Rightarrow> connection_index \<Rightarrow> bytes \<Rightarrow> ('d, 'u) transport \<times> unit result" where
  "sendConnectedData D s i data =
     (if \<not> tl_initialized s then (s, Inl NotInitialized)
      else if length data > MAX_APDU_LENGTH then (s, Inl InvalidParameter)
      else case getConnection (tl_table s) i of
        None \<Rightarrow> (s, Inl InvalidParameter)
      | Some e \<Rightarrow>
          if \<not> is_connected_entry e then (s, Inl OperationNotReady)
          else if awaiting_ack e then (s, Inl ResourceUnavailable)
          else let sq = ce_sequenceNumber e AND 0x0F in
          (case buildTpduInPlace (tpci_create NumberedData sq) 0 data of
             Inl err \<Rightarrow> (s, Inl err)
           | Inr bs \<Rightarrow>
               let s1 = s\<lparr>tl_table := upd_index i (mark_pending data sq (tl_now s)) (tl_table s)\<rparr> in
               (case net_send D s1 (own_frame s1 (ce_remoteAddress e) bs (ce_priority e) False) of
                  (s2, Inl err) \<Rightarrow> (s2, Inl err)
                | (s2, Inr _) \<Rightarrow>
                    (s2\<lparr>tl_table := updateActivityTime
                         (upd_index i (\<lambda>e. e\<lparr>ce_sequenceNumber := (sq + 1) AND 0x0F\<rparr>) (tl_table s2)) i (tl_now s2)\<rparr>,
                     Inr ()))))"

definition beginSendConnectedData ::
    "('d, 'u) transport \<Rightarrow> connection_index \<Rightarrow> bytes \<Rightarrow> ('d, 'u) transport \<times> unit result" where
  "beginSendConnectedData s i data =
     (if \<not> tl_initialized s then (s, Inl NotInitialized)
      else if length data > MAX_APDU_LENGTH then (s, Inl InvalidParameter)
      else if cs_active (tl_csend s) then (s, Inl EBusy)
      else case getConnection (tl_table s) i of
        None \<Rightarrow> (s, Inl InvalidParameter)
      | Some e \<Rightarrow>
          if \<not> is_connected_entry e then (s, Inl OperationNotReady)
          else if awaiting_ack e then (s, Inl ResourceUnavailable)
          else let sq = ce_sequenceNumber e AND 0x0F in
          (case buildTpduInPlace (tpci_create NumberedData sq) 0 data of
             Inl err \<Rightarrow> (s, Inl err)
           | Inr bs \<Rightarrow>
               (case net_begin s (own_frame s (ce_remoteAddress e) bs (ce_priority e) False) of
                  (s2, Inl err) \<Rightarrow> (s2, Inl err)
                | (s2, Inr _) \<Rightarrow>
                    (s2\<lparr>tl_csend := \<lparr>cs_active = True, cs_index = i, cs_sequence = sq, cs_payload = data\<rparr>\<rparr>,
                     Inr ()))))"

definition pollConnectedDataSend ::
    "'d dl_ops \<Rightarrow> ('d, 'u) transport \<Rightarrow> ('d, 'u) transport \<times> progress result" where
  "pollConnectedDataSend D s0 =
     (let s = processBackgroundWork D s0 in
      if \<not> tl_initialized s then (s, Inl NotInitialized)
      else if \<not> cs_active (tl_csend s) then (s, Inl OperationNotReady)
      else case net_poll D s of (s1, r) \<Rightarrow>
        (case r of
           Inl e \<Rightarrow> (finishConnectedSendOperation s1, Inl e)
         | Inr Pending \<Rightarrow> (s1, Inr Pending)
         | Inr Success \<Rightarrow>
             (let op = tl_csend s1; i = cs_index op in
              case getConnection (tl_table s1) i of
                None \<Rightarrow> (finishConnectedSendOperation s1, Inl OperationFailed)
              | Some e \<Rightarrow>
                  if \<not> is_connected_entry e then (finishConnectedSendOperation s1, Inl OperationFailed)
                  else
                    (finishConnectedSendOperation (s1\<lparr>tl_table := updateActivityTime
                       (upd_index i (\<lambda>e. (mark_pending (cs_payload op) (cs_sequence op) (tl_now s1) e)
                          \<lparr>ce_sequenceNumber := (cs_sequence op + 1) AND 0x0F\<rparr>) (tl_table s1)) i (tl_now s1)\<rparr>),
                     Inr Success))
         | Inr q \<Rightarrow> (finishConnectedSendOperation s1, Inr q)))"

definition tl_isConnected :: "('d, 'u) transport \<Rightarrow> connection_index \<Rightarrow> bool" where
  "tl_isConnected s i =
     (case getConnection (tl_table s) i of None \<Rightarrow> False | Some e \<Rightarrow> is_connected_entry e)"

section \<open>Retransmission\<close>

text \<open>The frame that repeats an entry's pending data.\<close>

definition repeat_frame :: "('d, 'u) transport \<Rightarrow> connection_entry \<Rightarrow> ndata_frame result" where
  "repeat_frame s e =
     (case buildTpduInPlace (connected_tpci (ce_pendingSeq e)) (ce_pendingApci e) (ce_pendingData e) of
        Inl err \<Rightarrow> Inl err
      | Inr bs \<Rightarrow> Inr (own_frame s (ce_remoteAddress e) bs (ce_pendingPriority e) False))"

text \<open>The bookkeeping after a repetition went out: the count, the transmission time, the activity.\<close>

definition mark_repeated :: "connection_index \<Rightarrow> u32 \<Rightarrow> connection_table \<Rightarrow> connection_table" where
  "mark_repeated i now t =
     updateActivityTime (upd_index i (\<lambda>e. e\<lparr>ce_lastTx := now\<rparr>) (fst (markDataSent t i))) i now"

definition repeat_one ::
    "'d dl_ops \<Rightarrow> u32 \<Rightarrow> connection_index \<Rightarrow> ('d, 'u) transport \<Rightarrow> ('d, 'u) transport" where
  "repeat_one D now i s =
     (case getConnection (tl_table s) i of
        None \<Rightarrow> s
      | Some e \<Rightarrow>
          if \<not> awaiting_ack e then s
          else case repeat_frame s e of
            Inl _ \<Rightarrow> s
          | Inr n \<Rightarrow>
              (case net_send D s n of
                 (s1, Inl _) \<Rightarrow> s1
               | (s1, Inr _) \<Rightarrow> s1\<lparr>tl_table := mark_repeated i now (tl_table s1)\<rparr>))"

definition tl_processRetransmissions ::
    "'d dl_ops \<Rightarrow> u32 \<Rightarrow> ('d, 'u) transport \<Rightarrow> ('d, 'u) transport" where
  "tl_processRetransmissions D now s0 =
     (if \<not> tl_initialized s0 then s0
      else let s = (processBackgroundWork D s0)\<lparr>tl_timebase := now\<rparr> in
      (case ct_processRetransmissions (tl_table s) now of (t, due) \<Rightarrow>
         let s1 = fold (repeat_one D now) due (s\<lparr>tl_table := t\<rparr>) in
         s1\<lparr>tl_table := fst (processTimeouts (tl_table s1) now CONNECTION_TIMEOUT_MS)\<rparr>))"

definition beginProcessRetransmissions ::
    "u32 \<Rightarrow> ('d, 'u) transport \<Rightarrow> ('d, 'u) transport \<times> unit result" where
  "beginProcessRetransmissions now s =
     (if \<not> tl_initialized s then (s, Inl NotInitialized)
      else if ro_active (tl_retrans s) then (s, Inl EBusy)
      else case ct_processRetransmissions (tl_table s) now of (t, due) \<Rightarrow>
        (s\<lparr>tl_timebase := now, tl_table := t,
           tl_retrans := retransmission_op_init\<lparr>ro_active := True, ro_now := now,
             ro_pending := take MAX_CONNECTIONS due\<rparr>\<rparr>, Inr ()))"

text \<open>The loop over the remaining pending connections: it stops at the first that has something to
  repeat and hands it to the network layer; the list \<open>is\<close> is what \<open>pending\<close> still holds from
  \<open>nextIndex\<close> on.\<close>

fun repeat_next ::
    "connection_index list \<Rightarrow> ('d, 'u) transport \<Rightarrow> ('d, 'u) transport \<times> progress result" where
  "repeat_next [] s =
     (finishRetransmissionOperation
        (s\<lparr>tl_table := fst (processTimeouts (tl_table s) (ro_now (tl_retrans s)) CONNECTION_TIMEOUT_MS)\<rparr>),
      Inr Success)"
| "repeat_next (i # is) s =
     (let s' = s\<lparr>tl_retrans := (tl_retrans s)\<lparr>ro_next := ro_next (tl_retrans s) + 1\<rparr>\<rparr> in
      case getConnection (tl_table s') i of
        None \<Rightarrow> repeat_next is s'
      | Some e \<Rightarrow>
          if \<not> awaiting_ack e then repeat_next is s'
          else case repeat_frame s' e of
            Inl _ \<Rightarrow> (finishRetransmissionOperation s', Inr TransmissionFailed)
          | Inr n \<Rightarrow>
              (case net_begin s' n of
                 (s1, Inl err) \<Rightarrow> (finishRetransmissionOperation s1, Inr (mapTxErrorToProgressState err))
               | (s1, Inr _) \<Rightarrow>
                   (s1\<lparr>tl_retrans := (tl_retrans s1)\<lparr>ro_sending := True, ro_current := i\<rparr>\<rparr>, Inr Pending)))"

definition repeat_rest :: "('d, 'u) transport \<Rightarrow> ('d, 'u) transport \<times> progress result" where
  "repeat_rest s = repeat_next (drop (ro_next (tl_retrans s)) (ro_pending (tl_retrans s))) s"

definition pollProcessRetransmissions ::
    "'d dl_ops \<Rightarrow> ('d, 'u) transport \<Rightarrow> ('d, 'u) transport \<times> progress result" where
  "pollProcessRetransmissions D s0 =
     (let s = processBackgroundWork D s0 in
      if \<not> tl_initialized s then (s, Inl NotInitialized)
      else if \<not> ro_active (tl_retrans s) then (s, Inl OperationNotReady)
      else if \<not> ro_sending (tl_retrans s) then repeat_rest s
      else case net_poll D s of (s1, r) \<Rightarrow>
        (case r of
           Inl e \<Rightarrow> (finishRetransmissionOperation s1, Inl e)
         | Inr Pending \<Rightarrow> (s1, Inr Pending)
         | Inr Success \<Rightarrow>
             (let op = tl_retrans s1 in
              repeat_rest (s1\<lparr>tl_table := mark_repeated (ro_current op) (ro_now op) (tl_table s1),
                              tl_retrans := op\<lparr>ro_sending := False, ro_current := 0xFF\<rparr>\<rparr>))
         | Inr q \<Rightarrow> (finishRetransmissionOperation s1, Inr q)))"

section \<open>Receiving\<close>

text \<open>A write through the entry pointer and the activity time by the entry's index.\<close>

definition touch_addr :: "individual_address \<Rightarrow> u32 \<Rightarrow> connection_table \<Rightarrow> connection_table" where
  "touch_addr a now t =
     (case findConnection t a of None \<Rightarrow> t | Some e \<Rightarrow> updateActivityTime t (ce_index e) now)"

definition resync :: "u32 \<Rightarrow> connection_entry \<Rightarrow> connection_entry" where
  "resync now e =
     e\<lparr>ce_sequenceNumber := 0, ce_expectedRxSeq := 0, ce_pendingSeq := 0, ce_lastReceivedSeq := 0xFF,
       ce_pendingRetransmission := False, ce_pendingData := [], ce_pendingApci := 0,
       ce_retransmitCount := 0, ce_retransmitTimeout := ACK_TIMEOUT_MS, ce_lastTx := now,
       ce_machine := sm_reset (ce_machine e)\<rparr>"

definition accept_connection :: "priority \<Rightarrow> connection_entry \<Rightarrow> connection_entry" where
  "accept_connection prio e = fire EvConnectResponse (fire EvConnectRequest (e\<lparr>ce_priority := prio\<rparr>))"

definition handleConnectRequest ::
    "'d dl_ops \<Rightarrow> ('d, 'u) transport \<Rightarrow> individual_address \<Rightarrow> priority \<Rightarrow> bool \<Rightarrow> ('d, 'u) transport" where
  "handleConnectRequest D s remote prio repeatedFrame =
     (let accept = (\<lambda>s. s\<lparr>tl_table :=
            touch_addr remote (tl_now s) (upd_addr remote (accept_connection prio) (tl_table s))\<rparr>) in
      case findConnection (tl_table s) remote of
        Some e \<Rightarrow>
          if repeatedFrame \<and> is_connected_entry e
          then s\<lparr>tl_table := touch_addr remote (tl_now s)
                   (upd_addr remote (\<lambda>e. e\<lparr>ce_priority := prio\<rparr>) (tl_table s))\<rparr>
          else accept (s\<lparr>tl_table := upd_addr remote (\<lambda>e. resync (tl_now s) (e\<lparr>ce_priority := prio\<rparr>)) (tl_table s)\<rparr>)
      | None \<Rightarrow>
          (case createConnection (tl_table s) remote (connect_params remote) of (t, i) \<Rightarrow>
             if ci_isValid i then
               (s\<lparr>tl_table := updateActivityTime (upd_index i (accept_connection prio) t) i (tl_now s)\<rparr>)
             else fst (sendDisconnect D s remote prio)))"

definition handleConnectResponse :: "('d, 'u) transport \<Rightarrow> individual_address \<Rightarrow> ('d, 'u) transport" where
  "handleConnectResponse s remote =
     s\<lparr>tl_table := touch_addr remote (tl_now s) (upd_addr remote (fire EvConnectResponse) (tl_table s))\<rparr>"

definition handleDisconnectRequest :: "('d, 'u) transport \<Rightarrow> individual_address \<Rightarrow> ('d, 'u) transport" where
  "handleDisconnectRequest s remote =
     s\<lparr>tl_table := fst (removeConnectionByAddress (tl_table s) remote)\<rparr>"

definition handleDisconnectResponse :: "('d, 'u) transport \<Rightarrow> individual_address \<Rightarrow> ('d, 'u) transport" where
  "handleDisconnectResponse s remote =
     s\<lparr>tl_table := fst (removeConnectionByAddress
        (touch_addr remote (tl_now s) (upd_addr remote (fire EvDisconnectResponse) (tl_table s))) remote)\<rparr>"

definition handleAck :: "('d, 'u) transport \<Rightarrow> individual_address \<Rightarrow> u8 \<Rightarrow> ('d, 'u) transport" where
  "handleAck s remote sq =
     (case findConnection (tl_table s) remote of
        None \<Rightarrow> s
      | Some e \<Rightarrow>
          let t1 = (if ce_pendingRetransmission e \<and> sq AND 0x0F = ce_pendingSeq e AND 0x0F
                    then upd_addr remote (\<lambda>e. e\<lparr>ce_sequenceNumber := (ce_sequenceNumber e + 1) AND 0x0F\<rparr>)
                           (fst (resetRetransmitState (tl_table s) (ce_index e)))
                    else tl_table s) in
          s\<lparr>tl_table := updateActivityTime t1 (ce_index e) (tl_now s)\<rparr>)"

definition handleNak :: "('d, 'u) transport \<Rightarrow> individual_address \<Rightarrow> u8 \<Rightarrow> ('d, 'u) transport" where
  "handleNak s remote sq =
     (case findConnection (tl_table s) remote of
        None \<Rightarrow> s
      | Some e \<Rightarrow>
          let now = tl_now s;
              t1 = (if ce_pendingRetransmission e \<and> sq AND 0x0F = ce_pendingSeq e AND 0x0F
                    then upd_addr remote (\<lambda>e. e\<lparr>ce_pendingRetransmission := True,
                           ce_lastTx := (if now \<ge> ce_retransmitTimeout e then now - ce_retransmitTimeout e else 0)\<rparr>)
                           (tl_table s)
                    else tl_table s) in
          s\<lparr>tl_table := updateActivityTime t1 (ce_index e) now\<rparr>)"

text \<open>The indication of a numbered data frame.\<close>

definition connected_indication :: "('d, 'u) transport \<Rightarrow> individual_address \<Rightarrow> u8 \<Rightarrow> bytes \<Rightarrow> tdata_frame" where
  "connected_indication s remote sq bs =
     tdata_frame_init\<lparr>t_service := TConnected, t_source := remote, t_destination := tl_own s,
       t_destinationType := Individual, t_sequenceNumber := sq, t_tpdu := bs,
       t_securityTpci6 := (if bs = [] then 0 else drop_bit 2 (bs ! 0))\<rparr>"

definition indicate :: "'u hooks \<Rightarrow> ('d, 'u) transport \<Rightarrow> tdata_frame \<Rightarrow> ('d, 'u) transport" where
  "indicate H s f =
     (case run_transform (hk_rx H) s f of (s1, Inl _) \<Rightarrow> s1 | (s1, Inr f') \<Rightarrow> tl_deliver s1 f')"

definition handleNumberedData ::
    "'d dl_ops \<Rightarrow> 'u hooks \<Rightarrow> ('d, 'u) transport \<Rightarrow> individual_address \<Rightarrow> u8 \<Rightarrow> bytes \<Rightarrow> priority \<Rightarrow>
     ('d, 'u) transport" where
  "handleNumberedData D H s remote seqNum bs prio =
     (case findConnection (tl_table s) remote of
        None \<Rightarrow> s
      | Some e0 \<Rightarrow>
          let sq = seqNum AND 0x0F; i = ce_index e0;
              t1 = upd_addr remote (\<lambda>e. e\<lparr>ce_priority := prio\<rparr>) (tl_table s) in
          (case isDuplicate t1 i sq of
             (t2, Inl _) \<Rightarrow> s\<lparr>tl_table := t2\<rparr>
           | (t2, Inr True) \<Rightarrow>
               let s3 = fst (sendAck D (s\<lparr>tl_table := t2\<rparr>) remote sq prio);
                   s4 = s3\<lparr>tl_table := updateActivityTime (tl_table s3) i (tl_now s3)\<rparr> in
               (case findConnection (tl_table s4) remote of
                  None \<Rightarrow> s4
                | Some e \<Rightarrow>
                    if awaiting_ack e \<and> ce_retransmitCount e < ce_maxRetries e then
                      (let s5 = tl_processRetransmissions D (tl_now s4)
                             (s4\<lparr>tl_table := upd_addr remote (\<lambda>e. e\<lparr>ce_retransmitTimeout := 0\<rparr>) (tl_table s4)\<rparr>) in
                       s5\<lparr>tl_table := upd_addr remote (\<lambda>e. e\<lparr>ce_retransmitTimeout := ACK_TIMEOUT_MS\<rparr>) (tl_table s5)\<rparr>)
                    else s4)
           | (t2, Inr False) \<Rightarrow>
               let s2 = s\<lparr>tl_table := t2\<rparr>; expected = ce_expectedRxSeq e0 AND 0x0F in
               if sq \<noteq> expected then
                 (let s3 = fst (sendNak D s2 remote expected prio) in
                  s3\<lparr>tl_table := updateActivityTime (tl_table s3) i (tl_now s3)\<rparr>)
               else
                 (let s3 = fst (sendAck D s2 remote sq prio);
                      s4 = s3\<lparr>tl_table := upd_addr remote
                             (\<lambda>e. e\<lparr>ce_expectedRxSeq := (ce_expectedRxSeq e + 1) AND 0x0F\<rparr>)
                             (updateActivityTime (tl_table s3) i (tl_now s3))\<rparr> in
                  indicate H s4 (connected_indication s4 remote sq bs))))"

definition handleNetworkRx ::
    "'d dl_ops \<Rightarrow> 'u hooks \<Rightarrow> ('d, 'u) transport \<Rightarrow> ndata_frame \<Rightarrow> ('d, 'u) transport" where
  "handleNetworkRx D H s0 n =
     (let f = n_dlFrame n; remote = source f in
      if \<not> tl_initialized s0 then s0
      else if tpdu f = [] then s0
      else let hd = unpackTpduHeader (tpdu f ! 0) (tpdu_at (tpdu f) 1); tpci = h_tpci hd;
               s = (if tl_timebase s0 = 0 then s0\<lparr>tl_timebase := 1\<rparr> else s0);
               entry_state = map_option (\<lambda>e. sm_state (ce_machine e)) (findConnection (tl_table s) remote);
               up = indicate H s ((convertFromNetwork n)\<lparr>t_securityTpci6 := drop_bit 2 (tpdu f ! 0)\<rparr>) in
      (case tpci_type tpci of
         UnnumberedControl \<Rightarrow>
           (if tpci_isControl tpci Connect then
              (if entry_state = Some CsConnecting then handleConnectResponse s remote
               else handleConnectRequest D s remote (ldata_frame.priority f) (repeated f))
            else if tpci_isControl tpci Disconnect then
              (if entry_state = Some CsDisconnecting then handleDisconnectResponse s remote
               else if entry_state \<noteq> None then handleDisconnectRequest s remote
               else s)
            else up)
       | NumberedControl \<Rightarrow>
           (if tpci_isAck tpci then handleAck s remote (tpci_seqNum tpci)
            else if tpci_isNak tpci then handleNak s remote (tpci_seqNum tpci)
            else up)
       | NumberedData \<Rightarrow> handleNumberedData D H s remote (tpci_seqNum tpci) (tpdu f) (ldata_frame.priority f)
       | UnnumberedData \<Rightarrow> up))"

section \<open>Asynchronous receiving\<close>

definition beginControlResponse ::
    "('d, 'u) transport \<Rightarrow> individual_address \<Rightarrow> u8 \<Rightarrow> priority \<Rightarrow> ('d, 'u) transport \<times> unit result" where
  "beginControlResponse s remote tpci prio =
     (case buildTpduInPlace tpci 0 [] of
        Inl e \<Rightarrow> (s, Inl e)
      | Inr bs \<Rightarrow> net_begin s (own_frame s remote bs prio False))"

definition set_rc :: "(receive_op \<Rightarrow> receive_op) \<Rightarrow> ('d, 'u) transport \<Rightarrow> ('d, 'u) transport" where
  "set_rc g s = s\<lparr>tl_receive := g (tl_receive s)\<rparr>"

text \<open>Starting the acknowledge of a received frame; a failure becomes the terminal state.\<close>

definition respond ::
    "('d, 'u) transport \<Rightarrow> individual_address \<Rightarrow> u8 \<Rightarrow> priority \<Rightarrow> ('d, 'u) transport" where
  "respond s remote tpci prio =
     (case beginControlResponse s remote tpci prio of
        (s1, Inr _) \<Rightarrow> set_rc (\<lambda>r. r\<lparr>rc_waiting := True\<rparr>) s1
      | (s1, Inl e) \<Rightarrow> set_rc (\<lambda>r. r\<lparr>rc_terminal := mapTxErrorToProgressState e\<rparr>) s1)"

definition beginHandleNumberedData ::
    "('d, 'u) transport \<Rightarrow> individual_address \<Rightarrow> u8 \<Rightarrow> bytes \<Rightarrow> priority \<Rightarrow> ('d, 'u) transport" where
  "beginHandleNumberedData s remote seqNum bs prio =
     (case findConnection (tl_table s) remote of
        None \<Rightarrow> set_rc (\<lambda>r. r\<lparr>rc_terminal := Success\<rparr>) s
      | Some e0 \<Rightarrow>
          let sq = seqNum AND 0x0F; i = ce_index e0;
              t1 = updateActivityTime (upd_addr remote (\<lambda>e. e\<lparr>ce_priority := prio\<rparr>) (tl_table s)) i (tl_now s);
              s1 = set_rc (\<lambda>r. r\<lparr>rc_index := i\<rparr>) (s\<lparr>tl_table := t1\<rparr>) in
          (case isDuplicate t1 i sq of
             (t2, Inl _) \<Rightarrow> set_rc (\<lambda>r. r\<lparr>rc_terminal := TransmissionFailed\<rparr>) (s1\<lparr>tl_table := t2\<rparr>)
           | (t2, Inr True) \<Rightarrow> respond (s1\<lparr>tl_table := t2\<rparr>) remote (tpci_ack sq) prio
           | (t2, Inr False) \<Rightarrow>
               let s2 = s1\<lparr>tl_table := t2\<rparr>; expected = ce_expectedRxSeq e0 AND 0x0F in
               if sq \<noteq> expected then respond s2 remote (tpci_nak expected) prio
               else respond (set_rc (\<lambda>r. r\<lparr>rc_deliver := True, rc_advance := True,
                               rc_frame := connected_indication s2 remote sq bs\<rparr>) s2)
                      remote (tpci_ack sq) prio))"

definition finalizeReceiveOperation :: "'u hooks \<Rightarrow> ('d, 'u) transport \<Rightarrow> ('d, 'u) transport" where
  "finalizeReceiveOperation H s =
     (let r = tl_receive s in
      if \<not> rc_active r then s
      else let s1 = (if rc_advance r
                     then s\<lparr>tl_table := upd_index (rc_index r)
                            (\<lambda>e. e\<lparr>ce_expectedRxSeq := (ce_expectedRxSeq e + 1) AND 0x0F\<rparr>) (tl_table s)\<rparr>
                     else s);
               s2 = (if rc_deliver r then indicate H s1 (rc_frame r) else s1) in
      finishReceiveOperation s2)"

definition beginHandleNetworkRx ::
    "'d dl_ops \<Rightarrow> 'u hooks \<Rightarrow> ('d, 'u) transport \<Rightarrow> ndata_frame \<Rightarrow> ('d, 'u) transport \<times> unit result" where
  "beginHandleNetworkRx D H s n =
     (if \<not> tl_initialized s then (s, Inl NotInitialized)
      else if rc_active (tl_receive s) then (s, Inl EBusy)
      else let s1 = s\<lparr>tl_receive := receive_op_init\<lparr>rc_active := True, rc_terminal := Success\<rparr>\<rparr>;
               f = n_dlFrame n in
      if tpdu f = [] then (s1, Inr ())
      else let tpci = h_tpci (unpackTpduHeader (tpdu f ! 0) (tpdu_at (tpdu f) 1));
               s2 = (if tl_timebase s1 = 0 then s1\<lparr>tl_timebase := 1\<rparr> else s1) in
      if tpci_type tpci = NumberedData
      then (beginHandleNumberedData s2 (source f) (tpci_seqNum tpci) (tpdu f) (ldata_frame.priority f), Inr ())
      else (handleNetworkRx D H s2 n, Inr ()))"

definition pollHandleNetworkRx ::
    "'d dl_ops \<Rightarrow> 'u hooks \<Rightarrow> ('d, 'u) transport \<Rightarrow> ('d, 'u) transport \<times> progress result" where
  "pollHandleNetworkRx D H s0 =
     (let s = processBackgroundWork D s0;
          finish = (\<lambda>s. (finalizeReceiveOperation H s, Inr (rc_terminal (tl_receive s)))) in
      if \<not> tl_initialized s then (s, Inl NotInitialized)
      else if \<not> rc_active (tl_receive s) then (s, Inl OperationNotReady)
      else if \<not> rc_waiting (tl_receive s) then finish s
      else case net_poll D s of (s1, r) \<Rightarrow>
        (case r of
           Inl e \<Rightarrow> finish (set_rc (\<lambda>r. r\<lparr>rc_waiting := False, rc_terminal := mapTxErrorToProgressState e\<rparr>) s1)
         | Inr Pending \<Rightarrow> (s1, Inr Pending)
         | Inr q \<Rightarrow> finish (set_rc (\<lambda>r. r\<lparr>rc_waiting := False, rc_terminal := q\<rparr>) s1)))"

section \<open>Interfaces\<close>

interpretation tq: bounded_fifo enqueueReceivedFrame popReceivedFrame
  "\<lambda>s. ring_contents (tl_rxQueue s)" RX_QUEUE_CAPACITY "\<lambda>s. ring_ok RX_QUEUE_CAPACITY (tl_rxQueue s)"
proof unfold_locales
  fix s s' :: "('d, 'u) transport" and f f' :: tdata_frame
  let ?n = RX_QUEUE_CAPACITY
  assume ok: "ring_ok ?n (tl_rxQueue s)"
  show "length (ring_contents (tl_rxQueue s)) \<le> ?n" using ok by (simp add: ring_ok_def)
  show "ring_contents (tl_rxQueue (enqueueReceivedFrame s f)) =
      (if length (ring_contents (tl_rxQueue s)) < ?n then ring_contents (tl_rxQueue s) @ [f]
       else ring_contents (tl_rxQueue s))"
    using ok by (simp add: enqueueReceivedFrame_def ring_push_contents)
  show "ring_ok ?n (tl_rxQueue (enqueueReceivedFrame s f))"
    using ok by (simp add: enqueueReceivedFrame_def ring_push_ok)
  show "popReceivedFrame s = None \<longleftrightarrow> ring_contents (tl_rxQueue s) = []"
    by (simp add: popReceivedFrame_def ring_pop_def flip: length_0_conv)
  assume "popReceivedFrame s = Some (f', s')"
  then show "ring_contents (tl_rxQueue s) = f' # ring_contents (tl_rxQueue s') \<and> ring_ok ?n (tl_rxQueue s')"
    using ok ring_pop_contents [OF ok] ring_pop_ok [OF ok]
    by (auto simp: popReceivedFrame_def split: if_splits prod.splits)
qed

lemma net_ops_initialized [simp]:
  "tl_initialized (fst (net_send D s n)) = tl_initialized s"
  "tl_table (fst (net_send D s n)) = tl_table s"
  "tl_indications (fst (net_send D s n)) = tl_indications s"
  "tl_own (fst (net_send D s n)) = tl_own s"
  "tl_timebase (fst (net_send D s n)) = tl_timebase s"
  "tl_hasCallback (fst (net_send D s n)) = tl_hasCallback s"
  "tl_hookState (fst (net_send D s n)) = tl_hookState s"
  by (simp_all add: net_send_def split: prod.split)

lemma net_send_table: "net_send D s n = (s', r) \<Longrightarrow> tl_table s' = tl_table s"
  using net_ops_initialized(2) [of D s n] by simp

lemma net_begin_keeps:
  "net_begin s n = (s', r) \<Longrightarrow> tl_initialized s' = tl_initialized s \<and> tl_sendActive s' = tl_sendActive s \<and>
     tl_table s' = tl_table s"
  by (auto simp: net_begin_def split: prod.splits)

lemma net_poll_keeps:
  "net_poll D s = (s', r) \<Longrightarrow> tl_initialized s' = tl_initialized s \<and> tl_sendActive s' = tl_sendActive s \<and>
     tl_table s' = tl_table s"
  by (auto simp: net_poll_def split: prod.splits)

lemma processBackgroundWork_keeps [simp]:
  "tl_initialized (processBackgroundWork D s) = tl_initialized s"
  "tl_sendActive (processBackgroundWork D s) = tl_sendActive s"
  "tl_table (processBackgroundWork D s) = tl_table s"
  "tl_indications (processBackgroundWork D s) = tl_indications s"
  "tl_own (processBackgroundWork D s) = tl_own s"
  "tl_hasCallback (processBackgroundWork D s) = tl_hasCallback s"
  "tl_receive (processBackgroundWork D s) = tl_receive s"
  by (simp_all add: processBackgroundWork_def)

lemma run_transform_keeps:
  "run_transform h s f = (s', r) \<Longrightarrow> tl_initialized s' = tl_initialized s \<and> tl_sendActive s' = tl_sendActive s \<and>
     tl_table s' = tl_table s"
  by (auto simp: run_transform_def split: option.splits prod.splits)

lemma buildNetworkTxFrame_keeps:
  "buildNetworkTxFrame H s f = (s', r) \<Longrightarrow> tl_initialized s' = tl_initialized s \<and> tl_sendActive s' = tl_sendActive s"
  by (auto simp: buildNetworkTxFrame_def Let_def
      dest!: run_transform_keeps split: prod.splits sum.splits option.splits if_splits)

interpretation tt: single_flight "tl_beginTransmit H" "tl_pollTransmit D" tl_initialized tl_sendActive
  for D :: "'d dl_ops" and H :: "'u hooks"
proof unfold_locales
  fix s s' :: "('d, 'u) transport" and f e r
  show "tl_beginTransmit H s f = (s', Inr ()) \<Longrightarrow> \<not> tl_sendActive s \<and> tl_sendActive s' \<and> tl_initialized s'"
    by (auto simp: tl_beginTransmit_def dest!: buildNetworkTxFrame_keeps net_begin_keeps
        split: if_splits prod.splits sum.splits)
  show "tl_initialized s \<Longrightarrow> tl_beginTransmit H s f = (s', Inl e) \<Longrightarrow>
      tl_sendActive s' = tl_sendActive s \<and> tl_initialized s'"
    by (auto simp: tl_beginTransmit_def dest!: buildNetworkTxFrame_keeps net_begin_keeps
        split: if_splits prod.splits sum.splits)
  show "tl_initialized s \<Longrightarrow> tl_sendActive s \<Longrightarrow> snd (tl_beginTransmit H s f) = Inl EBusy"
    by (simp add: tl_beginTransmit_def)
  show "tl_initialized s \<Longrightarrow> tl_pollTransmit D s = (s', Inr Pending) \<Longrightarrow>
      tl_sendActive s \<and> tl_sendActive s' \<and> tl_initialized s'"
    by (auto simp: tl_pollTransmit_def Let_def finishSendOperation_def dest!: net_poll_keeps
        split: if_splits prod.splits)
  show "tl_initialized s \<Longrightarrow> tl_pollTransmit D s = (s', r) \<Longrightarrow> r \<noteq> Inr Pending \<Longrightarrow>
      \<not> tl_sendActive s' \<and> tl_initialized s'"
    by (auto simp: tl_pollTransmit_def Let_def finishSendOperation_def dest!: net_poll_keeps
        split: if_splits prod.splits)
  show "tl_initialized s \<Longrightarrow> \<not> tl_sendActive s \<Longrightarrow> snd (tl_pollTransmit D s) = Inl OperationNotReady"
    by (simp add: tl_pollTransmit_def Let_def)
qed

section \<open>Lemmas: the single connection of a device\<close>

text \<open>\<open>tl_init\<close> sets up the table for one connection, so a device's table is empty or holds one
  entry; \<open>single t e\<close> is the second case.\<close>

definition single :: "connection_table \<Rightarrow> connection_entry \<Rightarrow> bool" where
  "single t e \<longleftrightarrow> ct_connections t = [e]"

lemma single_simps:
  assumes "single t e"
  shows "findConnection t a = (if ce_remoteAddress e = a then Some e else None)"
    and "getConnection t i = (if ce_index e = i then Some e else None)"
    and "single (upd_addr a f t) (if ce_remoteAddress e = a then f e else e)"
    and "single (upd_index i f t) (if ce_index e = i then f e else e)"
    and "single (updateActivityTime t i now) (if ce_index e = i then e\<lparr>ce_lastActivity := now\<rparr> else e)"
  using assms
  by (simp_all add: single_def findConnection_def getConnection_def upd_addr_def upd_index_def
      updateActivityTime_def)

text \<open>What retransmission processing may change of an entry.\<close>

definition same_link :: "connection_entry \<Rightarrow> connection_entry \<Rightarrow> bool" where
  "same_link e e' \<longleftrightarrow> ce_remoteAddress e' = ce_remoteAddress e \<and> ce_index e' = ce_index e \<and>
     ce_machine e' = ce_machine e \<and> ce_expectedRxSeq e' = ce_expectedRxSeq e \<and>
     ce_lastReceivedSeq e' = ce_lastReceivedSeq e \<and> ce_sequenceNumber e' = ce_sequenceNumber e \<and>
     ce_maxRetries e' = ce_maxRetries e"

lemma same_link_refl [simp]: "same_link e e"
  by (simp add: same_link_def)

lemma same_link_trans: "same_link e e' \<Longrightarrow> same_link e' e'' \<Longrightarrow> same_link e e''"
  by (simp add: same_link_def)

lemma mark_repeated_single:
  assumes "single t e"
  shows "\<exists>e'. single (mark_repeated i now t) e' \<and> same_link e e' \<and>
    (ce_lastActivity e' = ce_lastActivity e \<or> ce_lastActivity e' = now)"
proof -
  have m: "single (fst (markDataSent t i)) (if ce_index e = i then e\<lparr>ce_retransmitCount := ce_retransmitCount e + 1,
      ce_lastTx := 0\<rparr> else e)"
    using assms single_simps(4) [OF assms, of i "\<lambda>e. e\<lparr>ce_retransmitCount := ce_retransmitCount e + 1, ce_lastTx := 0\<rparr>"]
    by (auto simp: markDataSent_def single_simps(2) [OF assms])
  from single_simps(5) [OF single_simps(4) [OF m, of i "\<lambda>e. e\<lparr>ce_lastTx := now\<rparr>"], of i now]
  show ?thesis by (auto simp: mark_repeated_def same_link_def split: if_splits)
qed

lemma repeat_one_single:
  assumes "single (tl_table s) e"
  shows "\<exists>e'. single (tl_table (repeat_one D now i s)) e' \<and> same_link e e' \<and>
    (ce_lastActivity e' = ce_lastActivity e \<or> ce_lastActivity e' = now)"
    and "tl_indications (repeat_one D now i s) = tl_indications s"
    and "tl_initialized (repeat_one D now i s) = tl_initialized s"
    and "tl_own (repeat_one D now i s) = tl_own s"
    and "tl_hasCallback (repeat_one D now i s) = tl_hasCallback s"
proof -
  note k = net_ops_initialized [of D s]
  have "repeat_one D now i s = s \<or> (\<exists>n. repeat_one D now i s = fst (net_send D s n) \<or>
      repeat_one D now i s = (fst (net_send D s n))\<lparr>tl_table := mark_repeated i now (tl_table s)\<rparr>)"
    unfolding repeat_one_def
    by (auto split: option.split sum.split prod.split) (metis fst_conv net_send_table)+
  then show "\<exists>e'. single (tl_table (repeat_one D now i s)) e' \<and> same_link e e' \<and>
    (ce_lastActivity e' = ce_lastActivity e \<or> ce_lastActivity e' = now)"
    "tl_indications (repeat_one D now i s) = tl_indications s"
    "tl_initialized (repeat_one D now i s) = tl_initialized s"
    "tl_own (repeat_one D now i s) = tl_own s"
    "tl_hasCallback (repeat_one D now i s) = tl_hasCallback s"
    using assms mark_repeated_single [OF assms, of i now] by (auto simp: k)
qed

lemma ct_processRetransmissions_single:
  assumes "single t e"
  shows "\<exists>e'. single (fst (ct_processRetransmissions t now)) e' \<and> same_link e e' \<and>
    ce_lastActivity e' = ce_lastActivity e"
  using assms
  by (auto simp: ct_processRetransmissions_def retransmit_one_def single_def Let_def same_link_def
      resetRetransmitState_def getConnection_def upd_index_def reset_retransmit_def)

lemma fold_repeat_single:
  assumes "single (tl_table s) e" "ce_lastActivity e = now"
  shows "\<exists>e'. single (tl_table (fold (repeat_one D now) is s)) e' \<and> same_link e e' \<and> ce_lastActivity e' = now"
    and "tl_indications (fold (repeat_one D now) is s) = tl_indications s"
    and "tl_initialized (fold (repeat_one D now) is s) = tl_initialized s"
    and "tl_own (fold (repeat_one D now) is s) = tl_own s"
    and "tl_hasCallback (fold (repeat_one D now) is s) = tl_hasCallback s"
proof -
  have "(\<exists>e'. single (tl_table (fold (repeat_one D now) is s)) e' \<and> same_link e e' \<and> ce_lastActivity e' = now) \<and>
    tl_indications (fold (repeat_one D now) is s) = tl_indications s \<and>
    tl_initialized (fold (repeat_one D now) is s) = tl_initialized s \<and>
    tl_own (fold (repeat_one D now) is s) = tl_own s \<and>
    tl_hasCallback (fold (repeat_one D now) is s) = tl_hasCallback s"
    using assms
  proof (induction "is" arbitrary: s e)
    case (Cons i "is")
    obtain e1 where e1: "single (tl_table (repeat_one D now i s)) e1" "same_link e e1" "ce_lastActivity e1 = now"
      using repeat_one_single(1) [OF Cons.prems(1), of D now i] Cons.prems(2) by auto
    from Cons.IH [OF e1(1,3)] e1(2) repeat_one_single(2-5) [OF Cons.prems(1), of D now i]
    show ?case by (auto intro: same_link_trans)
  qed auto
  then show "\<exists>e'. single (tl_table (fold (repeat_one D now) is s)) e' \<and> same_link e e' \<and> ce_lastActivity e' = now"
    "tl_indications (fold (repeat_one D now) is s) = tl_indications s"
    "tl_initialized (fold (repeat_one D now) is s) = tl_initialized s"
    "tl_own (fold (repeat_one D now) is s) = tl_own s"
    "tl_hasCallback (fold (repeat_one D now) is s) = tl_hasCallback s" by auto
qed

text \<open>A connection that was active just now survives the retransmission processing.\<close>

lemma tl_processRetransmissions_single:
  assumes "single (tl_table s) e" "ce_lastActivity e = now"
  shows "\<exists>e'. single (tl_table (tl_processRetransmissions D now s)) e' \<and> same_link e e'"
    and "tl_indications (tl_processRetransmissions D now s) = tl_indications s"
    and "tl_own (tl_processRetransmissions D now s) = tl_own s"
    and "tl_hasCallback (tl_processRetransmissions D now s) = tl_hasCallback s"
    and "tl_initialized (tl_processRetransmissions D now s) = tl_initialized s"
proof -
  let ?t = "fst (ct_processRetransmissions (tl_table s) now)" and ?due = "snd (ct_processRetransmissions (tl_table s) now)"
  let ?s1 = "(processBackgroundWork D s)\<lparr>tl_timebase := now, tl_table := ?t\<rparr>"
  let ?s2 = "fold (repeat_one D now) ?due ?s1"
  obtain e1 where e1: "single (tl_table ?s1) e1" "same_link e e1" "ce_lastActivity e1 = now"
    using ct_processRetransmissions_single [OF assms(1), of now] assms(2) by auto
  note f = fold_repeat_single [OF e1(1,3), of D ?due]
  obtain e2 where e2: "single (tl_table ?s2) e2" "same_link e1 e2" "ce_lastActivity e2 = now" using f(1) by blast
  have p: "tl_processRetransmissions D now s = (if tl_initialized s
      then ?s2\<lparr>tl_table := fst (processTimeouts (tl_table ?s2) now CONNECTION_TIMEOUT_MS)\<rparr> else s)"
    by (simp add: tl_processRetransmissions_def Let_def case_prod_beta)
  have "single (fst (processTimeouts (tl_table ?s2) now CONNECTION_TIMEOUT_MS)) e2"
    using e2 by (simp add: processTimeouts_def single_def CONNECTION_TIMEOUT_MS_def Let_def)
  then show "\<exists>e'. single (tl_table (tl_processRetransmissions D now s)) e' \<and> same_link e e'"
    using e1(2) e2(2) assms(1) by (auto simp: p intro: same_link_trans)
  show "tl_indications (tl_processRetransmissions D now s) = tl_indications s"
    "tl_own (tl_processRetransmissions D now s) = tl_own s"
    "tl_hasCallback (tl_processRetransmissions D now s) = tl_hasCallback s"
    "tl_initialized (tl_processRetransmissions D now s) = tl_initialized s"
    using f(2-5) by (simp_all add: p)
qed

section \<open>Lemmas: numbered data\<close>

lemma send_control_keeps [simp]:
  "tl_table (fst (send_control D s r c p)) = tl_table s"
  "tl_indications (fst (send_control D s r c p)) = tl_indications s"
  "tl_own (fst (send_control D s r c p)) = tl_own s"
  "tl_hasCallback (fst (send_control D s r c p)) = tl_hasCallback s"
  "tl_timebase (fst (send_control D s r c p)) = tl_timebase s"
  "tl_initialized (fst (send_control D s r c p)) = tl_initialized s"
  "tl_hookState (fst (send_control D s r c p)) = tl_hookState s"
  by (simp_all add: send_control_def split: sum.split)

lemmas control_defs = sendAck_def sendNak_def sendConnect_def sendDisconnect_def

lemma isDuplicate_single:
  assumes "single t e"
  shows "snd (isDuplicate t (ce_index e) sq) = Inr (ce_lastReceivedSeq e = sq AND 0x0F) \<and>
    single (fst (isDuplicate t (ce_index e) sq)) (e\<lparr>ce_lastReceivedSeq := sq AND 0x0F\<rparr>)"
  using assms single_simps(4) [OF assms, of "ce_index e" "\<lambda>e. e\<lparr>ce_lastReceivedSeq := sq AND 0x0F\<rparr>"]
  by (auto simp: isDuplicate_def single_simps(2) [OF assms] Let_def single_def)

lemma and_0F_idem [simp]: "(x :: u8) AND 0x0F AND 0x0F = x AND 0x0F"
  by (simp add: and.assoc)

text \<open>The outcome of one numbered data frame on the device's connection.\<close>

definition data_outcome ::
    "bool \<Rightarrow> tdata_frame \<Rightarrow> u8 \<Rightarrow> connection_entry \<Rightarrow> ('d, 'u) transport \<Rightarrow> ('d, 'u) transport \<Rightarrow> bool" where
  "data_outcome fresh ind sq e s s' \<longleftrightarrow>
     (\<exists>e'. single (tl_table s') e' \<and> ce_remoteAddress e' = ce_remoteAddress e \<and>
        ce_lastReceivedSeq e' = sq \<and>
        ce_expectedRxSeq e' = (if fresh then (ce_expectedRxSeq e + 1) AND 0x0F else ce_expectedRxSeq e)) \<and>
     tl_indications s' = (if fresh then tl_indications s @ [ind] else tl_indications s) \<and>
     tl_own s' = tl_own s \<and> tl_hasCallback s' = tl_hasCallback s \<and> tl_initialized s' = tl_initialized s"

lemma handleNumberedData_single:
  fixes D :: "'d dl_ops" and H :: "'u hooks" and s :: "('d, 'u) transport" and seqNum :: u8
  assumes "single (tl_table s) e" "ce_remoteAddress e = remote" "hk_rx H = None" "tl_hasCallback s"
  defines "sq \<equiv> seqNum AND 0x0F"
  shows "data_outcome (ce_lastReceivedSeq e \<noteq> sq \<and> sq = ce_expectedRxSeq e AND 0x0F)
    (connected_indication s remote sq bs) sq e s (handleNumberedData D H s remote seqNum bs prio)"
proof -
  let ?s' = "handleNumberedData D H s remote seqNum bs prio"
  let ?e1 = "e\<lparr>ce_priority := prio\<rparr>"
  let ?t1 = "upd_addr remote (\<lambda>e. e\<lparr>ce_priority := prio\<rparr>) (tl_table s)"
  let ?e2 = "?e1\<lparr>ce_lastReceivedSeq := sq\<rparr>"
  have find: "findConnection (tl_table s) remote = Some e"
    using single_simps(1) [OF assms(1)] assms(2) by simp
  have t1: "single ?t1 ?e1" using single_simps(3) [OF assms(1), of remote] assms(2) by simp
  obtain t2 where dup: "isDuplicate ?t1 (ce_index e) sq = (t2, Inr (ce_lastReceivedSeq e = sq))"
    and t2: "single t2 ?e2"
    using isDuplicate_single [OF t1, of sq] by (simp add: sq_def) (metis prod.collapse)
  let ?s2 = "s\<lparr>tl_table := t2\<rparr>"
  have touch: "single (updateActivityTime t2 (ce_index e) now) (?e2\<lparr>ce_lastActivity := now\<rparr>)" for now
    using single_simps(5) [OF t2, of "ce_index e" now] by simp
  show ?thesis
  proof (cases "ce_lastReceivedSeq e = sq")
    case True
    let ?s3 = "fst (sendAck D ?s2 remote sq prio)"
    let ?s4 = "?s3\<lparr>tl_table := updateActivityTime t2 (ce_index e) (tl_now s)\<rparr>"
    let ?e4 = "?e2\<lparr>ce_lastActivity := tl_now s\<rparr>"
    have s4: "single (tl_table ?s4) ?e4" using touch by simp
    let ?s5 = "?s4\<lparr>tl_table := upd_addr remote (\<lambda>e. e\<lparr>ce_retransmitTimeout := 0\<rparr>) (tl_table ?s4)\<rparr>"
    have s5: "single (tl_table ?s5) (?e4\<lparr>ce_retransmitTimeout := 0\<rparr>)"
      using single_simps(3) [OF s4, of remote] assms(2) by simp
    note p = tl_processRetransmissions_single [OF s5, of "tl_now s" D]
    obtain e6 where e6: "single (tl_table (tl_processRetransmissions D (tl_now s) ?s5)) e6"
      "same_link (?e4\<lparr>ce_retransmitTimeout := 0\<rparr>) e6" using p(1) by auto
    have r: "?s' = (if awaiting_ack ?e4 \<and> ce_retransmitCount ?e4 < ce_maxRetries ?e4
        then (tl_processRetransmissions D (tl_now s) ?s5)\<lparr>tl_table := upd_addr remote
               (\<lambda>e. e\<lparr>ce_retransmitTimeout := ACK_TIMEOUT_MS\<rparr>) (tl_table (tl_processRetransmissions D (tl_now s) ?s5))\<rparr>
        else ?s4)"
      using find dup True single_simps(1) [OF s4, of remote] assms(2)
      by (simp add: handleNumberedData_def sq_def [symmetric] Let_def control_defs)
    show ?thesis
      unfolding r data_outcome_def
      using True s4 single_simps(3) [OF e6(1), of remote "\<lambda>e. e\<lparr>ce_retransmitTimeout := ACK_TIMEOUT_MS\<rparr>"]
        e6(2) p(2-5) assms(2)
      by (auto simp: same_link_def control_defs)
  next
    case fresh: False
    show ?thesis
    proof (cases "sq = ce_expectedRxSeq e AND 0x0F")
      case False
      have "?s' = (let s3 = fst (sendNak D ?s2 remote (ce_expectedRxSeq e AND 0x0F) prio) in
          s3\<lparr>tl_table := updateActivityTime t2 (ce_index e) (tl_now s)\<rparr>)"
        using find dup fresh False by (simp add: handleNumberedData_def sq_def [symmetric] Let_def control_defs)
      then show ?thesis
        using False touch [of "tl_now s"] by (auto simp: data_outcome_def control_defs Let_def)
    next
      case True
      let ?adv = "\<lambda>e. e\<lparr>ce_expectedRxSeq := (ce_expectedRxSeq e + 1) AND 0x0F\<rparr>"
      have "?s' = (let s3 = fst (sendAck D ?s2 remote sq prio);
          s4 = s3\<lparr>tl_table := upd_addr remote ?adv (updateActivityTime t2 (ce_index e) (tl_now s))\<rparr> in
          s4\<lparr>tl_indications := tl_indications s @ [connected_indication s remote sq bs]\<rparr>)"
        using find dup fresh True assms(3,4)
        by (simp add: handleNumberedData_def sq_def [symmetric] Let_def control_defs indicate_def
            run_transform_def tl_deliver_def connected_indication_def)
      then show ?thesis
        using fresh True single_simps(3) [OF touch [of "tl_now s"], of remote ?adv] assms(2)
        by (auto simp: data_outcome_def control_defs Let_def)
    qed
  qed
qed

end
