(* ===== verification/Transport_Reliability.thy ===== *)
theory Transport_Reliability
  imports Transport
begin

text \<open>
  What the transport layer of \<open>Transport\<close> guarantees on a connection: the order and the number of
  indications of numbered data, the number and the content of repetitions, the sequence numbers after
  an acknowledge, and the refusal of a second client. The device has one connection
  (\<open>kDefaultMaxConnections\<close>); the data link takes frames as \<open>logging\<close> or \<open>reporting\<close> say where a property is about
  what is on the bus.
\<close>

section \<open>Lemmas: sequences of numbered data frames\<close>

text \<open>A numbered data frame of a peer, and its sequence number.\<close>

definition data_from :: "individual_address \<Rightarrow> ndata_frame \<Rightarrow> bool" where
  "data_from a n \<longleftrightarrow> source (n_dlFrame n) = a \<and> tpdu (n_dlFrame n) \<noteq> [] \<and>
     tpci_type (tpdu (n_dlFrame n) ! 0) = NumberedData"

definition seq_of :: "ndata_frame \<Rightarrow> u8" where
  "seq_of n = tpci_seqNum (tpdu (n_dlFrame n) ! 0)"

abbreviation receive_all ::
    "'d dl_ops \<Rightarrow> 'u hooks \<Rightarrow> ndata_frame list \<Rightarrow> ('d, 'u) transport \<Rightarrow> ('d, 'u) transport" where
  "receive_all D H ns s \<equiv> fold (\<lambda>n s. handleNetworkRx D H s n) ns s"

lemma tpci_FC [simp]:
  "tpci_type (w AND 0xFC) = tpci_type w" "tpci_seqNum (w AND 0xFC) = tpci_seqNum w"
proof -
  have "(w AND 0xFC) AND 0xC0 = w AND 0xC0" by (simp add: and.assoc)
  then show "tpci_type (w AND 0xFC) = tpci_type w" by (simp only: tpci_type_def)
  show "tpci_seqNum (w AND 0xFC) = tpci_seqNum w"
    by (rule word8_eqI) (simp_all add: tpci_seqNum_def bit_simps)
qed

lemma seqNum_masked [simp]: "tpci_seqNum w AND 0x0F = tpci_seqNum w"
  by (simp add: tpci_seqNum_def)

lemma type_NumberedData_not_control: "tpci_type w = NumberedData \<Longrightarrow> \<not> is_control_octet w"
  by (auto simp: tpci_type_def is_control_octet_def Let_def split: if_splits)

lemma handleNetworkRx_data:
  assumes "tl_initialized s" "data_from a n"
  shows "\<exists>b. handleNetworkRx D H s n =
    handleNumberedData D H (s\<lparr>tl_timebase := b\<rparr>) a (seq_of n) (tpdu (n_dlFrame n)) (ldata_frame.priority (n_dlFrame n))"
proof -
  let ?t = "tpdu (n_dlFrame n)"
  have nd: "tpci_type (?t ! 0) = NumberedData" "?t \<noteq> []" "source (n_dlFrame n) = a"
    using assms(2) by (auto simp: data_from_def)
  have "h_tpci (unpackTpduHeader (?t ! 0) x) = ?t ! 0 AND 0xFC" for x
    using type_NumberedData_not_control [OF nd(1)] by (simp add: unpackTpduHeader_def)
  then have "handleNetworkRx D H s n = handleNumberedData D H (if tl_timebase s = 0 then s\<lparr>tl_timebase := 1\<rparr> else s)
      a (seq_of n) ?t (ldata_frame.priority (n_dlFrame n))"
    using assms(1) nd by (simp add: handleNetworkRx_def Let_def seq_of_def)
  then show ?thesis
    by (intro exI [of _ "if tl_timebase s = 0 then 1 else tl_timebase s"]) simp
qed

lemma data_outcome_timebase [simp]:
  "data_outcome fr ind q e (s\<lparr>tl_timebase := b\<rparr>) s' = data_outcome fr ind q e s s'"
  by (simp add: data_outcome_def)

text \<open>What one frame does to the device's connection.\<close>

lemma receive_one:
  assumes "tl_initialized s" "tl_hasCallback s" "hk_rx H = None" "single (tl_table s) e"
    "data_from (ce_remoteAddress e) n"
  shows "data_outcome (ce_lastReceivedSeq e \<noteq> seq_of n \<and> seq_of n = ce_expectedRxSeq e AND 0x0F)
    (connected_indication s (ce_remoteAddress e) (seq_of n) (tpdu (n_dlFrame n))) (seq_of n) e s
    (handleNetworkRx D H s n)"
proof -
  obtain b where b: "handleNetworkRx D H s n = handleNumberedData D H (s\<lparr>tl_timebase := b\<rparr>)
      (ce_remoteAddress e) (seq_of n) (tpdu (n_dlFrame n)) (ldata_frame.priority (n_dlFrame n))"
    using handleNetworkRx_data [OF assms(1,5)] by blast
  have q: "seq_of n AND 0x0F = seq_of n" by (simp add: seq_of_def)
  have "data_outcome (ce_lastReceivedSeq e \<noteq> seq_of n \<and> seq_of n = ce_expectedRxSeq e AND 0x0F)
      (connected_indication (s\<lparr>tl_timebase := b\<rparr>) (ce_remoteAddress e) (seq_of n) (tpdu (n_dlFrame n)))
      (seq_of n) e (s\<lparr>tl_timebase := b\<rparr>) (handleNetworkRx D H s n)"
    unfolding b by (rule handleNumberedData_single [where seqNum = "seq_of n", unfolded q]) (use assms in simp_all)
  moreover have "connected_indication (s\<lparr>tl_timebase := b\<rparr>) = connected_indication s"
    by (simp add: fun_eq_iff connected_indication_def)
  ultimately show ?thesis by simp
qed

lemma mask_add_left: "(((k :: u8) AND 0x0F) + j) AND 0x0F = (k + j) AND 0x0F"
proof -
  have m: "x AND 0x0F = take_bit 4 x" for x :: u8
    by (simp add: take_bit_eq_mask mask_eq_exp_minus_1)
  show ?thesis unfolding m by transfer (simp add: take_bit_eq_mod mod_add_left_eq)
qed

lemma mask_add_mask: "((((k :: u8) + 1) AND 0x0F) + j) AND 0x0F = (k + (1 + j)) AND 0x0F"
  by (simp add: mask_add_left add.assoc)

lemma mask_succ_neq: "((k :: u8) + 1) AND 0x0F \<noteq> k AND 0x0F"
proof
  assume "(k + 1) AND 0x0F = k AND 0x0F"
  then have "even ((k + 1) AND 0x0F) = even (k AND 0x0F)" by simp
  then show False by (simp add: even_and_iff)
qed

lemma receive_duplicates:
  assumes "tl_initialized s" "tl_hasCallback s" "hk_rx H = None" "single (tl_table s) e"
    "data_from (ce_remoteAddress e) n" "ce_lastReceivedSeq e = seq_of n"
  shows "\<exists>e'. data_outcome False ind (seq_of n) e s (receive_all D H (replicate r n) s) \<and>
     single (tl_table (receive_all D H (replicate r n) s)) e' \<and> ce_remoteAddress e' = ce_remoteAddress e \<and>
     ce_lastReceivedSeq e' = seq_of n \<and> ce_expectedRxSeq e' = ce_expectedRxSeq e"
  using assms
proof (induction r arbitrary: s e)
  case 0
  then show ?case by (auto simp: data_outcome_def)
next
  case (Suc r)
  have o: "data_outcome False ind (seq_of n) e s (handleNetworkRx D H s n)"
    using receive_one [of s H e n D] Suc.prems by (simp add: data_outcome_def)
  then obtain e1 where e1: "single (tl_table (handleNetworkRx D H s n)) e1" "ce_remoteAddress e1 = ce_remoteAddress e"
    "ce_lastReceivedSeq e1 = seq_of n" "ce_expectedRxSeq e1 = ce_expectedRxSeq e"
    unfolding data_outcome_def by auto
  show ?case
    using Suc.IH [of "handleNetworkRx D H s n" e1] Suc.prems o e1 by (simp add: data_outcome_def)
qed

text \<open>A frame that is next in sequence and the repetitions that follow it.\<close>

lemma receive_with_repetitions:
  assumes "tl_initialized s" "tl_hasCallback s" "hk_rx H = None" "single (tl_table s) e"
    "data_from (ce_remoteAddress e) n" "seq_of n = ce_expectedRxSeq e AND 0x0F"
    "ce_lastReceivedSeq e \<noteq> seq_of n"
  shows "data_outcome True (connected_indication s (ce_remoteAddress e) (seq_of n) (tpdu (n_dlFrame n)))
    (seq_of n) e s (receive_all D H (replicate (Suc r) n) s)"
proof -
  let ?i = "connected_indication s (ce_remoteAddress e) (seq_of n) (tpdu (n_dlFrame n))"
  let ?s' = "handleNetworkRx D H s n"
  have o: "data_outcome True ?i (seq_of n) e s ?s'"
    using receive_one [of s H e n D] assms by simp
  then obtain e1 where e1: "single (tl_table ?s') e1" "ce_remoteAddress e1 = ce_remoteAddress e"
    "ce_lastReceivedSeq e1 = seq_of n" "ce_expectedRxSeq e1 = (ce_expectedRxSeq e + 1) AND 0x0F"
    unfolding data_outcome_def by auto
  show ?thesis
    using receive_duplicates [of ?s' H e1 n ?i D r] o e1 assms by (auto simp: data_outcome_def)
qed

section \<open>Lemmas: a data link that takes every frame\<close>

text \<open>\<open>logging D L\<close>: the data link accepts every frame at once, and \<open>L\<close> is what it has sent.\<close>

definition logging :: "'d dl_ops \<Rightarrow> ('d \<Rightarrow> ldata_frame list) \<Rightarrow> bool" where
  "logging D L \<longleftrightarrow> (\<forall>d f. snd (dl_send D d f) = Inr () \<and> L (fst (dl_send D d f)) = L d @ [f])"

definition quiet_net :: "'d network \<Rightarrow> bool" where
  "quiet_net net \<longleftrightarrow> nl_initialized net \<and> \<not> op_active (nl_forward net) \<and> ring_count (nl_queue net) = 0"

abbreviation sent :: "('d \<Rightarrow> ldata_frame list) \<Rightarrow> ('d, 'u) transport \<Rightarrow> ldata_frame list" where
  "sent L s \<equiv> L (nl_link (tl_net s))"

lemma net_send_logging:
  assumes "logging D L" "quiet_net (tl_net s)" "n_hopCount n = 6"
  shows "snd (net_send D s n) = Inr ()"
    "sent L (fst (net_send D s n)) = sent L s @ [(n_dlFrame n)\<lparr>hopCount := 6\<rparr>]"
    "quiet_net (tl_net (fst (net_send D s n)))"
  using assms by (auto simp: net_send_def nl_sendFrame_def quiet_net_def logging_def split: prod.split)
    (metis fst_conv snd_conv)+

text \<open>\<open>reporting D L\<close>: the data link may fail, and \<open>L\<close> is the list of the frames it has reported as sent.\<close>

definition reporting :: "'d dl_ops \<Rightarrow> ('d \<Rightarrow> ldata_frame list) \<Rightarrow> bool" where
  "reporting D L \<longleftrightarrow>
     (\<forall>d f. L (fst (dl_send D d f)) = (if isOk (snd (dl_send D d f)) then L d @ [f] else L d))"

lemma logging_reporting: "logging D L \<Longrightarrow> reporting D L"
  by (simp add: logging_def reporting_def)

lemma net_send_reporting:
  assumes "reporting D L" "quiet_net (tl_net s)" "n_hopCount n = 6"
  shows "sent L (fst (net_send D s n)) =
      sent L s @ (if isOk (snd (net_send D s n)) then [(n_dlFrame n)\<lparr>hopCount := 6\<rparr>] else [])"
    "quiet_net (tl_net (fst (net_send D s n)))"
proof -
  obtain d r where "dl_send D (nl_link (tl_net s)) ((n_dlFrame n)\<lparr>hopCount := 6\<rparr>) = (d, r)" by fastforce
  then show "sent L (fst (net_send D s n)) =
      sent L s @ (if isOk (snd (net_send D s n)) then [(n_dlFrame n)\<lparr>hopCount := 6\<rparr>] else [])"
    "quiet_net (tl_net (fst (net_send D s n)))"
    using assms by (auto simp: net_send_def nl_sendFrame_def quiet_net_def reporting_def split: prod.split)
      (metis fst_conv snd_conv)+
qed

lemma own_frame_simps [simp]:
  "n_hopCount (own_frame s r bs p a) = 6"
  "(n_dlFrame (own_frame s r bs p a))\<lparr>hopCount := 6\<rparr> = n_dlFrame (own_frame s r bs p a)"
  "tpdu (n_dlFrame (own_frame s r bs p a)) = bs"
  "source (n_dlFrame (own_frame s r bs p a)) = tl_own s"
  "destination (n_dlFrame (own_frame s r bs p a)) = r"
  "destinationType (n_dlFrame (own_frame s r bs p a)) = Individual"
  by (simp_all add: own_frame_def ndata_frame_init_def)

lemma quiet_background [simp]:
  "quiet_net (tl_net s) \<Longrightarrow> tl_net (processBackgroundWork D s) = tl_net s"
  by (simp add: processBackgroundWork_def quiet_net_def pollForwarding_def popForwardFrame_def)

lemma control_logging:
  assumes "logging D L" "quiet_net (tl_net s)" "is_control_octet c"
  shows "snd (send_control D s r c p) = Inr ()"
    "sent L (fst (send_control D s r c p)) = sent L s @ [n_dlFrame (own_frame s r [c] p False)]"
    "quiet_net (tl_net (fst (send_control D s r c p)))"
  using assms net_send_logging [OF assms(1,2), of "own_frame s r [c] p False"]
  by (simp_all add: send_control_def buildTpduInPlace_def buildTpdu_def tpduLengthFromTpci_def)

lemma tpci_create_control_octet [simp]: "is_control_octet (tpci_create_control c)"
  by (cases c) (simp_all add: tpci_create_control_def is_control_octet_def)


section \<open>Lemmas: repetitions\<close>

text \<open>What an entry would repeat, and how often it still may.\<close>

definition repeats_left :: "connection_table \<Rightarrow> nat" where
  "repeats_left t = (case ct_connections t of
     [e] \<Rightarrow> (if awaiting_ack e then unat (ce_maxRetries e) - unat (ce_retransmitCount e) else 0) | _ \<Rightarrow> 0)"

definition will_repeat :: "('d, 'u) transport \<Rightarrow> ldata_frame \<Rightarrow> bool" where
  "will_repeat s w \<longleftrightarrow> length (ct_connections (tl_table s)) \<le> 1 \<and>
     (\<forall>e \<in> set (ct_connections (tl_table s)). awaiting_ack e \<longrightarrow>
        ce_retransmitCount e \<le> ce_maxRetries e \<and> map_sum id n_dlFrame (repeat_frame s e) = Inr w)"

lemma unat_inc: "(c :: u8) < m \<Longrightarrow> unat (c + 1) = unat c + 1 \<and> c + 1 \<le> m"
proof -
  assume c: "c < m"
  then have "unat c < unat m" by (simp add: word_less_nat_alt)
  then have "unat c + 1 < 256" using unat_u8_lt [of m] by linarith
  then have "unat (c + 1) = unat c + 1" by (simp add: unat_word_ariths)
  with c show ?thesis by (simp add: word_less_nat_alt word_le_nat_alt)
qed

lemma mark_repeated_connections:
  "ct_connections t = [e] \<Longrightarrow> ce_index e = i \<Longrightarrow> ct_connections (mark_repeated i now t) =
     [e\<lparr>ce_retransmitCount := ce_retransmitCount e + 1, ce_lastTx := now, ce_lastActivity := now\<rparr>]"
  by (simp add: mark_repeated_def markDataSent_def getConnection_def updateActivityTime_def upd_index_def)

lemma repeat_frame_cong:
  assumes "tl_own s' = tl_own s" "ce_pendingSeq e' = ce_pendingSeq e" "ce_pendingApci e' = ce_pendingApci e"
    "ce_pendingData e' = ce_pendingData e" "ce_pendingPriority e' = ce_pendingPriority e"
    "ce_remoteAddress e' = ce_remoteAddress e"
  shows "repeat_frame s' e' = repeat_frame s e"
  using assms by (auto simp: repeat_frame_def own_frame_def split: sum.split)

lemma repeats_filter:
  assumes w: "will_repeat s w" and t: "ct_connections (tl_table s') = filter Q (ct_connections (tl_table s))"
    and o: "tl_own s' = tl_own s"
  shows "will_repeat s' w \<and> repeats_left (tl_table s') \<le> repeats_left (tl_table s)"
proof -
  have "repeat_frame s' e = repeat_frame s e" for e by (rule repeat_frame_cong) (simp_all add: o)
  then show ?thesis
    using w t by (cases "ct_connections (tl_table s)") (auto simp: will_repeat_def repeats_left_def)
qed

lemma repeat_one_logged:
  assumes L: "reporting D L" and q: "quiet_net (tl_net s)" and w: "will_repeat s w"
    and e: "ct_connections (tl_table s) = [e]" "ce_retransmitCount e < ce_maxRetries e"
  shows "\<exists>k \<le> 1. sent L (repeat_one D now (ce_index e) s) = sent L s @ replicate k w \<and>
      quiet_net (tl_net (repeat_one D now (ce_index e) s)) \<and> will_repeat (repeat_one D now (ce_index e) s) w \<and>
      k + repeats_left (tl_table (repeat_one D now (ce_index e) s)) \<le> repeats_left (tl_table s)"
proof (cases "awaiting_ack e")
  case True
  then obtain n where n: "repeat_frame s e = Inr n" "n_dlFrame n = w"
    using w e by (cases "repeat_frame s e") (auto simp: will_repeat_def)
  have n6: "n_hopCount n = 6" "(n_dlFrame n)\<lparr>hopCount := 6\<rparr> = n_dlFrame n"
    using n(1) by (auto simp: repeat_frame_def split: sum.splits)
  obtain s1 x where s1: "net_send D s n = (s1, x)" by fastforce
  note ns = net_send_reporting [OF L q n6(1), unfolded s1 fst_conv snd_conv]
  have o: "tl_own s1 = tl_own s" using s1 by (auto simp: net_send_def split: prod.splits)
  show ?thesis
  proof (cases x)
    case (Inl y)
    have "repeat_one D now (ce_index e) s = s1"
      using True n(1) e(1) s1 Inl by (simp add: repeat_one_def getConnection_def)
    then show ?thesis
      using ns Inl repeats_filter [OF w, of s1 "\<lambda>_. True"] net_send_table [OF s1] o by (intro exI [of _ 0]) simp
  next
    case (Inr y)
    let ?e = "e\<lparr>ce_retransmitCount := ce_retransmitCount e + 1, ce_lastTx := now, ce_lastActivity := now\<rparr>"
    let ?s2 = "s1\<lparr>tl_table := mark_repeated (ce_index e) now (tl_table s)\<rparr>"
    have c2: "ct_connections (tl_table ?s2) = [?e]" using mark_repeated_connections [OF e(1)] by simp
    have r: "repeat_one D now (ce_index e) s = ?s2"
      using True n(1) e(1) s1 Inr net_send_table [OF s1] by (simp add: repeat_one_def getConnection_def)
    have "repeat_frame ?s2 ?e = repeat_frame s e" by (rule repeat_frame_cong) (simp_all add: o)
    then have "will_repeat ?s2 w" unfolding will_repeat_def c2
      using unat_inc [OF e(2)] n by simp
    moreover have "1 + repeats_left (tl_table ?s2) \<le> repeats_left (tl_table s)"
      unfolding repeats_left_def c2 e(1) using True unat_inc [OF e(2)] e(2)
      by (simp add: awaiting_ack_def word_less_nat_alt)
    ultimately show ?thesis unfolding r using ns Inr n6(2) n(2) by (intro exI [of _ 1]) simp
  qed
next
  case False
  then have "repeat_one D now (ce_index e) s = s" using e(1) by (simp add: repeat_one_def getConnection_def)
  then show ?thesis using q w by (intro exI [of _ 0]) simp
qed

text \<open>The connection table's part: an entry that is due and may be repeated gets a longer timeout,
  one that is due and may not is reset.\<close>

lemma ct_processRetransmissions_one:
  assumes "ct_connections t = [e]"
  shows "ct_processRetransmissions t now =
    (if \<not> ce_pendingRetransmission e \<or> \<not> now - ce_lastTx e \<ge> ce_retransmitTimeout e then (t, [])
     else if ce_retransmitCount e < ce_maxRetries e
       then (t\<lparr>ct_connections := [e\<lparr>ce_retransmitTimeout := backoff (ce_retransmitTimeout e)\<rparr>]\<rparr>, [ce_index e])
     else (t\<lparr>ct_connections := [reset_retransmit e]\<rparr>, []))"
  using assms
  by (simp add: ct_processRetransmissions_def retransmit_one_def Let_def resetRetransmitState_def
      getConnection_def upd_index_def fv_push_back_def MAX_CONNECTIONS_def)

lemma repeats_entry:
  assumes w: "will_repeat s w" and e: "ct_connections (tl_table s) = [e]" "ct_connections (tl_table s') = [e']"
    and o: "tl_own s' = tl_own s"
    and e': "e' = reset_retransmit e \<or> e' = e\<lparr>ce_retransmitTimeout := b\<rparr>"
  shows "will_repeat s' w \<and> repeats_left (tl_table s') \<le> repeats_left (tl_table s)"
proof -
  have "repeat_frame s' (e\<lparr>ce_retransmitTimeout := b\<rparr>) = repeat_frame s e" by (rule repeat_frame_cong) (simp_all add: o)
  then show ?thesis
    using w e e' by (auto simp: will_repeat_def repeats_left_def awaiting_ack_def reset_retransmit_def)
qed

lemma fold_repeat_logged:
  assumes L: "reporting D L" and q: "quiet_net (tl_net s)" and w: "will_repeat s w"
    and cp: "ct_processRetransmissions (tl_table s) now = (t, due)"
  shows "\<exists>k \<le> 1. \<exists>s'. s' = fold (repeat_one D now) due (s\<lparr>tl_timebase := now, tl_table := t\<rparr>) \<and>
      sent L s' = sent L s @ replicate k w \<and> quiet_net (tl_net s') \<and> will_repeat s' w \<and>
      k + repeats_left (tl_table s') \<le> repeats_left (tl_table s)"
proof (cases "ct_connections (tl_table s)")
  case Nil
  then have "(t, due) = (tl_table s, [])" using cp by (simp add: ct_processRetransmissions_def)
  then show ?thesis
    using q repeats_filter [OF w, of "s\<lparr>tl_timebase := now\<rparr>" "\<lambda>_. True"] by (intro exI [of _ 0]) simp
next
  case (Cons e es)
  then have e: "ct_connections (tl_table s) = [e]" using w by (simp add: will_repeat_def)
  let ?s1 = "s\<lparr>tl_timebase := now, tl_table := t\<rparr>"
  consider "due = []" "t = tl_table s" | "due = []" "ct_connections t = [reset_retransmit e]"
    | "due = [ce_index e]" "ce_retransmitCount e < ce_maxRetries e"
      "ct_connections t = [e\<lparr>ce_retransmitTimeout := backoff (ce_retransmitTimeout e)\<rparr>]"
    using cp unfolding ct_processRetransmissions_one [OF e] by (auto split: if_splits)
  then show ?thesis
  proof cases
    case 1
    then show ?thesis
      using q repeats_filter [OF w, of ?s1 "\<lambda>_. True"] by (intro exI [of _ 0]) simp
  next
    case 2
    then show ?thesis using q repeats_entry [OF w e, of ?s1] by (intro exI [of _ 0]) simp
  next
    case 3
    let ?e = "e\<lparr>ce_retransmitTimeout := backoff (ce_retransmitTimeout e)\<rparr>"
    have "will_repeat ?s1 w \<and> repeats_left (tl_table ?s1) \<le> repeats_left (tl_table s)"
      by (rule repeats_entry [OF w e, of _ ?e "backoff (ce_retransmitTimeout e)"]) (simp_all add: 3(3))
    then have w1: "will_repeat ?s1 w" "repeats_left (tl_table ?s1) \<le> repeats_left (tl_table s)" by blast+
    have q1: "quiet_net (tl_net ?s1)" "sent L ?s1 = sent L s" using q by simp_all
    obtain k where "k \<le> 1" "sent L (repeat_one D now (ce_index ?e) ?s1) = sent L ?s1 @ replicate k w"
      "quiet_net (tl_net (repeat_one D now (ce_index ?e) ?s1))" "will_repeat (repeat_one D now (ce_index ?e) ?s1) w"
      "k + repeats_left (tl_table (repeat_one D now (ce_index ?e) ?s1)) \<le> repeats_left (tl_table ?s1)"
      using repeat_one_logged [OF L q1(1) w1(1), of ?e now] 3(2,3) by auto
    moreover have "fold (repeat_one D now) due ?s1 = repeat_one D now (ce_index ?e) ?s1" by (simp add: 3(1))
    ultimately show ?thesis using w1(2) q1(2) by (intro exI [of _ k]) auto
  qed
qed

lemma processRetransmissions_logged:
  assumes L: "reporting D L" and q: "quiet_net (tl_net s)" and w: "will_repeat s w"
  shows "\<exists>k \<le> 1. sent L (tl_processRetransmissions D now s) = sent L s @ replicate k w \<and>
      quiet_net (tl_net (tl_processRetransmissions D now s)) \<and> will_repeat (tl_processRetransmissions D now s) w \<and>
      k + repeats_left (tl_table (tl_processRetransmissions D now s)) \<le> repeats_left (tl_table s)"
proof (cases "tl_initialized s")
  case True
  obtain t due where cp: "ct_processRetransmissions (tl_table s) now = (t, due)" by fastforce
  obtain k s1 where k: "k \<le> 1" "s1 = fold (repeat_one D now) due (s\<lparr>tl_timebase := now, tl_table := t\<rparr>)"
    "sent L s1 = sent L s @ replicate k w" "quiet_net (tl_net s1)" "will_repeat s1 w"
    "k + repeats_left (tl_table s1) \<le> repeats_left (tl_table s)"
    using fold_repeat_logged [OF L q w cp] by blast
  let ?s2 = "s1\<lparr>tl_table := fst (processTimeouts (tl_table s1) now CONNECTION_TIMEOUT_MS)\<rparr>"
  have bg: "(processBackgroundWork D s)\<lparr>tl_timebase := now\<rparr> = s\<lparr>tl_timebase := now\<rparr>"
    using q by (simp add: processBackgroundWork_def quiet_net_def pollForwarding_def popForwardFrame_def)
  have p: "tl_processRetransmissions D now s = ?s2"
    using True by (simp add: tl_processRetransmissions_def Let_def bg cp k(2))
  have "will_repeat ?s2 w \<and> repeats_left (tl_table ?s2) \<le> repeats_left (tl_table s1)"
    by (rule repeats_filter [OF k(5), where Q = "\<lambda>e. \<not> now - ce_lastActivity e \<ge> CONNECTION_TIMEOUT_MS"])
      (simp_all add: processTimeouts_def Let_def)
  then show ?thesis unfolding p using k by (intro exI [of _ k]) auto
next
  case False
  then have "tl_processRetransmissions D now s = s" by (simp add: tl_processRetransmissions_def)
  then show ?thesis using q w by (intro exI [of _ 0]) simp
qed

lemma repetitions_bounded:
  assumes "reporting D L" "quiet_net (tl_net s)" "will_repeat s w"
  shows "\<exists>k \<le> repeats_left (tl_table s). sent L (fold (tl_processRetransmissions D) nows s) = sent L s @ replicate k w"
  using assms(2,3)
proof (induction nows arbitrary: s)
  case (Cons now nows)
  let ?s' = "tl_processRetransmissions D now s"
  obtain k where k: "sent L ?s' = sent L s @ replicate k w" "quiet_net (tl_net ?s')" "will_repeat ?s' w"
    "k + repeats_left (tl_table ?s') \<le> repeats_left (tl_table s)"
    using processRetransmissions_logged [OF assms(1) Cons.prems, of now] by blast
  obtain j where "j \<le> repeats_left (tl_table ?s')" "sent L (fold (tl_processRetransmissions D) nows ?s') = sent L ?s' @ replicate j w"
    using Cons.IH [OF k(2,3)] by blast
  with k show ?case by (intro exI [of _ "k + j"]) (simp add: replicate_add)
qed simp


text \<open>A connected frame through \<open>buildNetworkTxFrame\<close>: what goes out and what is kept for repetition.\<close>

lemma connected_tpci_masked [simp]: "connected_tpci (q AND 0x0F) = connected_tpci q"
  by (simp add: connected_tpci_def)

lemma connected_tpci_data [simp]: "\<not> is_control_octet (connected_tpci q)"
  by (simp add: connected_tpci_def)

lemma pack_seqNum: "\<not> is_control_octet t \<Longrightarrow> tpci_seqNum (fst (packTpduHeader t a)) = tpci_seqNum t"
  by (rule word8_eqI) (simp_all add: packTpduHeader_def tpci_seqNum_def Let_def bit_simps)

definition connected_octets :: "u8 \<Rightarrow> bytes \<Rightarrow> bytes" where
  "connected_octets q bs =
     (let (b0, b1) = packTpduHeader (connected_tpci q) (h_apci (unpackTpduHeader (bs ! 0) (tpdu_at bs 1)))
      in b0 # b1 # drop 2 bs)"

definition sends_connected :: "'u hooks \<Rightarrow> ('d, 'u) transport \<Rightarrow> connection_entry \<Rightarrow> tdata_frame \<Rightarrow> bool" where
  "sends_connected H s e f \<longleftrightarrow> tl_initialized s \<and> single (tl_table s) e \<and> is_connected_entry e \<and>
     hk_tx H = None \<and> t_service f = TConnected \<and> t_destinationType f = Individual \<and>
     t_destination f = ce_remoteAddress e \<and> 2 < length (t_tpdu f) \<and> length (t_tpdu f) \<le> MAX_APDU_LENGTH + 2"

lemma buildNetworkTxFrame_connected:
  assumes "sends_connected H s e f"
  shows "\<exists>e'. buildNetworkTxFrame H s f =
      (s\<lparr>tl_table := (tl_table s)\<lparr>ct_connections := [e']\<rparr>\<rparr>,
       Inr (ndata_frame_init\<lparr>n_dlFrame := (ldata_of_tdata f)\<lparr>tpdu := connected_octets (ce_sequenceNumber e) (t_tpdu f)\<rparr>\<rparr>)) \<and>
     awaiting_ack e' \<and> ce_retransmitCount e' = 0 \<and> ce_maxRetries e' = ce_maxRetries e \<and> ce_index e' = ce_index e \<and>
     ce_sequenceNumber e' = ce_sequenceNumber e \<and> ce_pendingSeq e' = ce_sequenceNumber e AND 0x0F \<and>
     ce_remoteAddress e' = ce_remoteAddress e \<and>
     repeat_frame s e' = Inr (own_frame s (ce_remoteAddress e) (connected_octets (ce_sequenceNumber e) (t_tpdu f))
       (t_priority f) False)"
proof -
  let ?hd = "unpackTpduHeader (t_tpdu f ! 0) (tpdu_at (t_tpdu f) 1)"
  let ?e = "e\<lparr>ce_pendingSeq := ce_sequenceNumber e AND 0x0F, ce_pendingRetransmission := True,
    ce_pendingApci := h_apci ?hd, ce_pendingPriority := t_priority f, ce_pendingData := drop 2 (t_tpdu f),
    ce_retransmitCount := 0, ce_lastTx := tl_now s, ce_retransmitTimeout := ACK_TIMEOUT_MS\<rparr>"
  have c: "ct_connections (tl_table s) = [e]" and f: "findConnection (tl_table s) (t_destination f) = Some e"
    and a: "is_connected_entry e" "hk_tx H = None" "t_service f = TConnected" "t_destinationType f = Individual"
      "t_tpdu f \<noteq> []" "t_destination f = ce_remoteAddress e" "length (drop 2 (t_tpdu f)) \<le> MAX_APDU_LENGTH"
      "drop 2 (t_tpdu f) \<noteq> []"
    using assms by (auto simp: sends_connected_def single_def findConnection_def)
  have "buildNetworkTxFrame H s f = (s\<lparr>tl_table := (tl_table s)\<lparr>ct_connections := [?e]\<rparr>\<rparr>,
      Inr (ndata_frame_init\<lparr>n_dlFrame := (ldata_of_tdata f)\<lparr>tpdu := connected_octets (ce_sequenceNumber e) (t_tpdu f)\<rparr>\<rparr>))"
    using a f c by (simp add: buildNetworkTxFrame_def run_transform_def Let_def buildTpdu_data upd_addr_def
        connected_octets_def case_prod_beta ldata_of_tdata_def)
  moreover have "repeat_frame s ?e = Inr (own_frame s (ce_remoteAddress e)
      (connected_octets (ce_sequenceNumber e) (t_tpdu f)) (t_priority f) False)"
    by (simp add: repeat_frame_def buildTpdu_data connected_octets_def case_prod_beta Let_def)
  moreover have "awaiting_ack ?e" using a(8) by (simp add: awaiting_ack_def)
  ultimately show ?thesis by (intro exI [of _ ?e]) simp
qed

section \<open>A sample device\<close>

definition log_link :: "ldata_frame list dl_ops" where
  "log_link = \<lparr>dl_setCallback = id, dl_send = \<lambda>d f. (d @ [f], Inr ()), dl_begin = \<lambda>d f. (d @ [f], Inr ()), dl_poll = \<lambda>d. (d, Inr Success)\<rparr>"

definition no_hooks :: "unit hooks" where
  "no_hooks = \<lparr>hk_tx = None, hk_rx = None\<rparr>"

definition peer_frame :: "individual_address \<Rightarrow> bytes \<Rightarrow> ndata_frame" where
  "peer_frame a bs = \<lparr>n_dlFrame = ldata_frame_init\<lparr>source := a, destination := 0x1101,
     destinationType := Individual, tpdu := bs\<rparr>, n_hopCount = 6\<rparr>"

definition sample_device :: "(ldata_frame list, unit) transport" where
  "sample_device = (fst (tl_init log_link (transport_init (network_init []) ()) 0x1101))\<lparr>tl_hasCallback := True\<rparr>"

text \<open>The device 1.1.1 after a T_Connect from 1.1.5.\<close>

definition sample_connected :: "(ldata_frame list, unit) transport" where
  "sample_connected = handleNetworkRx log_link no_hooks sample_device (peer_frame 0x1105 [0x80])"

definition sample_entry :: connection_entry where
  "sample_entry = hd (ct_connections (tl_table sample_connected))"

lemma sample_connected_single: "single (tl_table sample_connected) sample_entry"
  by code_simp

lemma log_link_logging: "logging log_link (\<lambda>d. d)"
  by (simp add: logging_def log_link_def)

lemma sample_connected_facts:
  "tl_initialized sample_connected" "tl_hasCallback sample_connected" "hk_rx no_hooks = None" "hk_tx no_hooks = None"
  "ce_remoteAddress sample_entry = 0x1105" "ce_expectedRxSeq sample_entry = 0"
  "ce_lastReceivedSeq sample_entry = 0xFF" "ce_sequenceNumber sample_entry = 0" "ce_index sample_entry = 0"
  "is_connected_entry sample_entry" "ce_maxRetries sample_entry = CONNECTION_MAX_REPETITIONS"
  "tl_own sample_connected = 0x1101" "tl_indications sample_connected = []"
  "quiet_net (tl_net sample_connected)" "nl_link (tl_net sample_connected) = []"
  by code_simp+

definition sample_data :: "u8 \<Rightarrow> u8 \<Rightarrow> ndata_frame" where
  "sample_data sq b = peer_frame 0x1105 [connected_tpci sq OR 0x02, b, 0x2A]"

section \<open>Properties\<close>

text \<open>
  C6. Whatever numbered data frames a peer sends over the device's connection - late, repeated, out of
  order - what the application is told is a gapless run of sequence numbers that starts at the number
  the connection expects, in the order of the frames, with their octets unchanged. (The connection is the only
  one, as on a plain device, and there is no receive transform.)
\<close>

theorem connected_data_in_order:
  assumes "tl_initialized s" "tl_hasCallback s" "hk_rx H = None" "single (tl_table s) e"
    "\<And>n. n \<in> set ns \<Longrightarrow> data_from (ce_remoteAddress e) n"
  shows "\<exists>ds. tl_indications (receive_all D H ns s) = tl_indications s @ ds \<and>
    map t_sequenceNumber ds = map (\<lambda>j. (ce_expectedRxSeq e + of_nat j) AND 0x0F) [0..<length ds] \<and>
    subseq (map t_tpdu ds) (map (\<lambda>n. tpdu (n_dlFrame n)) ns)"
  using assms
proof (induction ns arbitrary: s e)
  case (Cons n ns)
  let ?fresh = "ce_lastReceivedSeq e \<noteq> seq_of n \<and> seq_of n = ce_expectedRxSeq e AND 0x0F"
  let ?i = "connected_indication s (ce_remoteAddress e) (seq_of n) (tpdu (n_dlFrame n))"
  let ?s' = "handleNetworkRx D H s n"
  have o: "data_outcome ?fresh ?i (seq_of n) e s ?s'"
    by (rule receive_one) (use Cons.prems in auto)
  then obtain e' where e': "single (tl_table ?s') e'" "ce_remoteAddress e' = ce_remoteAddress e"
    "ce_expectedRxSeq e' = (if ?fresh then (ce_expectedRxSeq e + 1) AND 0x0F else ce_expectedRxSeq e)"
    unfolding data_outcome_def by blast
  have "\<exists>ds. tl_indications (receive_all D H ns ?s') = tl_indications ?s' @ ds \<and>
      map t_sequenceNumber ds = map (\<lambda>j. (ce_expectedRxSeq e' + of_nat j) AND 0x0F) [0..<length ds] \<and>
      subseq (map t_tpdu ds) (map (\<lambda>n. tpdu (n_dlFrame n)) ns)"
    by (rule Cons.IH) (use Cons.prems e' o in \<open>auto simp: data_outcome_def\<close>)
  then obtain ds where ds: "tl_indications (receive_all D H ns ?s') = tl_indications ?s' @ ds"
    "map t_sequenceNumber ds = map (\<lambda>j. (ce_expectedRxSeq e' + of_nat j) AND 0x0F) [0..<length ds]"
    "subseq (map t_tpdu ds) (map (\<lambda>n. tpdu (n_dlFrame n)) ns)" by blast
  show ?case
  proof (cases ?fresh)
    case True
    have "ce_expectedRxSeq e' = (ce_expectedRxSeq e + 1) AND 0x0F"
      unfolding e'(3) by (rule if_P [OF True])
    moreover have "[0..<Suc (length ds)] = 0 # map Suc [0..<length ds]"
      by (simp add: map_Suc_upt upt_conv_Cons del: upt_Suc)
    ultimately have "map t_sequenceNumber (?i # ds) =
        map (\<lambda>j. (ce_expectedRxSeq e + of_nat j) AND 0x0F) [0..<length (?i # ds)]"
      using True ds(2) by (simp add: connected_indication_def mask_add_mask comp_def del: upt_Suc)
    moreover have "subseq (map t_tpdu (?i # ds)) (map (\<lambda>n. tpdu (n_dlFrame n)) (n # ns))"
      using ds(3) by (simp add: connected_indication_def)
    moreover have "tl_indications ?s' = tl_indications s @ [?i]"
      using o unfolding data_outcome_def if_P [OF True] by blast
    ultimately show ?thesis
      using ds(1) by (intro exI [of _ "?i # ds"]) (simp only: append_assoc append_Cons append_Nil fold_simps simp_thms)
  next
    case False
    then show ?thesis using o ds e'(3) by (intro exI [of _ ds]) (auto simp: data_outcome_def)
  qed
qed simp

theorem connected_data_in_order_witness:
  "\<exists>ds. tl_indications (receive_all log_link no_hooks
        [sample_data 0 1, sample_data 2 3, sample_data 0 1, sample_data 1 2] sample_connected) = ds \<and>
     map t_sequenceNumber ds = [0, 1] \<and>
     subseq (map t_tpdu ds) [[0x42, 1, 0x2A], [0x4A, 3, 0x2A], [0x42, 1, 0x2A], [0x46, 2, 0x2A]]"
proof -
  let ?ns = "[sample_data 0 1, sample_data 2 3, sample_data 0 1, sample_data 1 2]"
  have d: "data_from (ce_remoteAddress sample_entry) n" if "n \<in> set ?ns" for n
  proof -
    have "\<forall>n \<in> set ?ns. data_from 0x1105 n" by code_simp
    with that show ?thesis unfolding sample_connected_facts by blast
  qed
  have l: "length (tl_indications (receive_all log_link no_hooks ?ns sample_connected)) = 2" by code_simp
  have t: "map (\<lambda>n. tpdu (n_dlFrame n)) ?ns = [[0x42, 1, 0x2A], [0x4A, 3, 0x2A], [0x42, 1, 0x2A], [0x46, 2, 0x2A]]"
    by code_simp
  from connected_data_in_order [OF sample_connected_facts(1-3) sample_connected_single, of ?ns log_link, OF d]
  obtain ds where ds: "tl_indications (receive_all log_link no_hooks ?ns sample_connected) = ds"
    "map t_sequenceNumber ds = map (\<lambda>j. of_nat j AND 0x0F) [0..<length ds]"
    "subseq (map t_tpdu ds) (map (\<lambda>n. tpdu (n_dlFrame n)) ?ns)"
    by (auto simp: sample_connected_facts)
  have "length ds = 2" using l unfolding ds(1) .
  then have "map t_sequenceNumber ds = [0, 1]" using ds(2) by (simp add: numeral_2_eq_2)
  with ds(1) ds(3) [unfolded t] show ?thesis by (intro exI [of _ ds] conjI)
qed

text \<open>
  C7. Frames that arrive in sequence, each any number of times in a row (the peer repeats until it
  sees the acknowledge), are each indicated exactly once. (The connection is the only one, there is no receive
  transform, and the last number received before was not the one expected next.)
\<close>

theorem connected_data_exactly_once:
  assumes "tl_initialized s" "tl_hasCallback s" "hk_rx H = None" "single (tl_table s) e"
    "\<And>n. n \<in> set (map fst nrs) \<Longrightarrow> data_from (ce_remoteAddress e) n"
    "map (seq_of \<circ> fst) nrs = map (\<lambda>j. (ce_expectedRxSeq e + of_nat j) AND 0x0F) [0..<length nrs]"
    "ce_lastReceivedSeq e \<noteq> ce_expectedRxSeq e AND 0x0F"
  shows "\<exists>ds. tl_indications (receive_all D H (concat (map (\<lambda>(n, r). replicate (Suc r) n) nrs)) s) =
      tl_indications s @ ds \<and> map t_tpdu ds = map (\<lambda>(n, r). tpdu (n_dlFrame n)) nrs"
  using assms
proof (induction nrs arbitrary: s e)
  case (Cons nr nrs)
  obtain n r where nr: "nr = (n, r)" by fastforce
  let ?i = "connected_indication s (ce_remoteAddress e) (seq_of n) (tpdu (n_dlFrame n))"
  let ?s' = "receive_all D H (replicate (Suc r) n) s"
  have upt: "[0..<Suc (length nrs)] = 0 # map Suc [0..<length nrs]"
    by (simp add: map_Suc_upt upt_conv_Cons del: upt_Suc)
  have sq: "seq_of n = ce_expectedRxSeq e AND 0x0F"
    and rest: "map (seq_of \<circ> fst) nrs = map (\<lambda>j. (ce_expectedRxSeq e + (1 + of_nat j)) AND 0x0F) [0..<length nrs]"
    using Cons.prems(6) by (simp_all add: nr upt comp_def del: upt_Suc)
  have o: "data_outcome True ?i (seq_of n) e s ?s'"
    by (rule receive_with_repetitions) (use Cons.prems sq in \<open>auto simp: nr\<close>)
  then obtain e' where e': "single (tl_table ?s') e'" "ce_remoteAddress e' = ce_remoteAddress e"
    "ce_lastReceivedSeq e' = seq_of n" "ce_expectedRxSeq e' = (ce_expectedRxSeq e + 1) AND 0x0F"
    unfolding data_outcome_def by auto
  have "\<exists>ds. tl_indications (receive_all D H (concat (map (\<lambda>(n, r). replicate (Suc r) n) nrs)) ?s') =
      tl_indications ?s' @ ds \<and> map t_tpdu ds = map (\<lambda>(n, r). tpdu (n_dlFrame n)) nrs"
  proof (rule Cons.IH [of _ e'])
    show "map (seq_of \<circ> fst) nrs = map (\<lambda>j. (ce_expectedRxSeq e' + of_nat j) AND 0x0F) [0..<length nrs]"
      unfolding rest e'(4) mask_add_mask ..
    show "ce_lastReceivedSeq e' \<noteq> ce_expectedRxSeq e' AND 0x0F"
      using mask_succ_neq [of "ce_expectedRxSeq e"] by (simp add: e'(3,4) sq)
  qed (use Cons.prems e' o in \<open>auto simp: data_outcome_def nr\<close>)
  then obtain ds where ds: "tl_indications (receive_all D H (concat (map (\<lambda>(n, r). replicate (Suc r) n) nrs)) ?s') =
      tl_indications ?s' @ ds" "map t_tpdu ds = map (\<lambda>(n, r). tpdu (n_dlFrame n)) nrs" by blast
  have "tl_indications ?s' = tl_indications s @ [?i]" using o by (simp add: data_outcome_def)
  with ds show ?case
    by (intro exI [of _ "?i # ds"]) (simp add: nr connected_indication_def)
qed simp

theorem connected_data_exactly_once_witness:
  "\<exists>ds. tl_indications (receive_all log_link no_hooks
        [sample_data 0 1, sample_data 0 1, sample_data 0 1, sample_data 1 2] sample_connected) = ds \<and>
     map t_tpdu ds = [[0x42, 1, 0x2A], [0x46, 2, 0x2A]]"
proof -
  let ?nrs = "[(sample_data 0 1, 2), (sample_data 1 2, 0)]"
  have d: "data_from (ce_remoteAddress sample_entry) n" if "n \<in> set (map fst ?nrs)" for n
  proof -
    have "\<forall>n \<in> set (map fst ?nrs). data_from 0x1105 n" by code_simp
    with that show ?thesis unfolding sample_connected_facts by blast
  qed
  have q: "map (seq_of \<circ> fst) ?nrs = map (\<lambda>j. (ce_expectedRxSeq sample_entry + of_nat j) AND 0x0F) [0..<length ?nrs]"
    unfolding sample_connected_facts by code_simp
  have l: "ce_lastReceivedSeq sample_entry \<noteq> ce_expectedRxSeq sample_entry AND 0x0F"
    by (simp add: sample_connected_facts)
  have t: "map (\<lambda>(n, r). tpdu (n_dlFrame n)) ?nrs = [[0x42, 1, 0x2A], [0x46, 2, 0x2A]]"
    "concat (map (\<lambda>(n, r). replicate (Suc r) n) ?nrs) = [sample_data 0 1, sample_data 0 1, sample_data 0 1, sample_data 1 2]"
    by (code_simp, simp add: numeral_2_eq_2)
  from connected_data_exactly_once [OF sample_connected_facts(1-3) sample_connected_single d q l, of log_link]
  show ?thesis unfolding t sample_connected_facts by simp
qed

text \<open>
  C13. A connected frame is sent at most four times: once, and then at most three more times, whenever the
  retransmission timer is processed and however often the data link fails. Counted are the transmissions the data
  link reports as successful, which are those the transport layer counts: a repetition that fails is tried again
  and does not use up one of the three. Every repetition carries the same octets, priority, source and
  destination as the original, which has the connection's sequence number and the caller's payload. (The
  connection is the only one, the frame has 3 to 256 octets and the caller's own source address, there is no
  transmit transform, no acknowledge of the peer is processed meanwhile, and the connection allows three
  repetitions, as \<open>createConnection\<close> sets it.)
\<close>

theorem connected_data_repeated_at_most_three_times:
  assumes "reporting D L" "quiet_net (tl_net s)" "sends_connected H s e f"
    "ce_maxRetries e = CONNECTION_MAX_REPETITIONS" "t_source f = tl_own s"
  shows "\<exists>w w' k. k \<le> 3 \<and>
    sent L (fold (tl_processRetransmissions D) nows (fst (tl_sendFrame D H s f))) =
      sent L s @ (if isOk (snd (tl_sendFrame D H s f)) then [w] else []) @ replicate k w' \<and>
    tpdu w' = tpdu w \<and> ldata_frame.priority w' = ldata_frame.priority w \<and> source w' = source w \<and> destination w' = destination w \<and>
    tpci_seqNum (tpdu w ! 0) = ce_sequenceNumber e AND 0x0F \<and> drop 2 (tpdu w) = drop 2 (t_tpdu f)"
proof -
  let ?o = "connected_octets (ce_sequenceNumber e) (t_tpdu f)"
  obtain e' where b: "buildNetworkTxFrame H s f = (s\<lparr>tl_table := (tl_table s)\<lparr>ct_connections := [e']\<rparr>\<rparr>,
       Inr (ndata_frame_init\<lparr>n_dlFrame := (ldata_of_tdata f)\<lparr>tpdu := ?o\<rparr>\<rparr>))"
    and e': "awaiting_ack e'" "ce_retransmitCount e' = 0" "ce_maxRetries e' = ce_maxRetries e"
    and r: "repeat_frame s e' = Inr (own_frame s (ce_remoteAddress e) ?o (t_priority f) False)"
    using buildNetworkTxFrame_connected [OF assms(3)] by blast
  let ?s1 = "s\<lparr>tl_table := (tl_table s)\<lparr>ct_connections := [e']\<rparr>\<rparr>"
  let ?n = "ndata_frame_init\<lparr>n_dlFrame := (ldata_of_tdata f)\<lparr>tpdu := ?o\<rparr>\<rparr>"
  let ?s2 = "fst (net_send D ?s1 ?n)" and ?w' = "n_dlFrame (own_frame s (ce_remoteAddress e) ?o (t_priority f) False)"
  have s2: "tl_sendFrame D H s f = net_send D ?s1 ?n"
    using assms(3) b by (simp add: tl_sendFrame_def sends_connected_def)
  have ns: "sent L ?s2 = sent L s @ (if isOk (snd (net_send D ?s1 ?n)) then [(n_dlFrame ?n)\<lparr>hopCount := 6\<rparr>] else [])"
      "quiet_net (tl_net ?s2)"
    using net_send_reporting [OF assms(1), of ?s1 ?n] assms(2) by (simp_all add: ndata_frame_init_def)
  have "repeat_frame ?s2 e' = repeat_frame s e'" by (rule repeat_frame_cong) simp_all
  then have "will_repeat ?s2 ?w'" using r e'(2) by (simp add: will_repeat_def)
  moreover have "repeats_left (tl_table ?s2) \<le> 3"
    using e' assms(4) by (simp add: repeats_left_def CONNECTION_MAX_REPETITIONS_def)
  ultimately obtain k where "k \<le> 3"
    "sent L (fold (tl_processRetransmissions D) nows ?s2) = sent L ?s2 @ replicate k ?w'"
    using repetitions_bounded [OF assms(1) ns(2), of ?w' nows] by (meson le_trans)
  moreover have "tpci_seqNum (?o ! 0) = ce_sequenceNumber e AND 0x0F" "drop 2 ?o = drop 2 (t_tpdu f)"
    by (simp_all add: connected_octets_def case_prod_beta Let_def pack_seqNum) (simp add: connected_tpci_def)
  ultimately show ?thesis
    unfolding s2 ns(1) using assms(3,5)
    by (intro exI [of _ "(n_dlFrame ?n)\<lparr>hopCount := 6\<rparr>"] exI [of _ ?w'] exI [of _ k])
      (simp add: ldata_of_tdata_def own_frame_def sends_connected_def)
qed


definition sample_request :: tdata_frame where
  "sample_request = tdata_frame_init\<lparr>t_service := TConnected, t_source := 0x1101, t_destination := 0x1105,
     t_destinationType := Individual, t_tpdu := [0x03, 0xD5, 0x00, 0x0B]\<rparr>"

theorem connected_data_repeated_at_most_three_times_witness:
  "\<exists>w w' k. k \<le> 3 \<and>
    nl_link (tl_net (fold (tl_processRetransmissions log_link) [3001, 9001, 15001, 21001, 27001]
      (fst (tl_sendFrame log_link no_hooks sample_connected sample_request)))) = w # replicate k w' \<and>
    tpdu w' = tpdu w \<and> drop 2 (tpdu w) = [0x00, 0x0B]"
proof -
  have "sends_connected no_hooks sample_connected sample_entry sample_request" by code_simp
  moreover have "t_source sample_request = tl_own sample_connected" "drop 2 (t_tpdu sample_request) = [0x00, 0x0B]"
    "isOk (snd (tl_sendFrame log_link no_hooks sample_connected sample_request))"
    by code_simp+
  ultimately show ?thesis
    using connected_data_repeated_at_most_three_times [OF log_link_logging [THEN logging_reporting], of sample_connected
        no_hooks sample_entry sample_request "[3001, 9001, 15001, 21001, 27001]"] sample_connected_facts(11,14,15)
    by fastforce
qed

lemma three_repetitions_happen:
  "length (nl_link (tl_net (fold (tl_processRetransmissions log_link) [3001, 9001, 15001, 21001, 27001]
      (fst (tl_sendFrame log_link no_hooks sample_connected sample_request))))) = 4"
  by code_simp

text \<open>
  A frame that is out of sequence is refused with a T_NAK, but when the peer repeats it, it is
  taken for a duplicate and acknowledged with a T_ACK, although it was never passed on: the
  duplicate check has recorded the sequence number of the refused frame.
\<close>

theorem refused_frame_acknowledged_on_repetition:
  "let s = receive_all log_link no_hooks [sample_data 3 1, sample_data 3 1] sample_connected in
   map tpdu (nl_link (tl_net s)) = [[tpci_nak 0], [tpci_ack 3]] \<and> tl_indications s = []"
  by code_simp

text \<open>
  The two ways of sending connected data number differently: after a frame through \<open>sendFrame\<close>
  and its T_ACK the next sequence number is one higher, as the peer expects; after
  \<open>sendConnectedData\<close> and its T_ACK it is two higher, because both the send and the acknowledge
  advance it, and the peer refuses the next frame.
\<close>

theorem acknowledged_data_sequence:
  assumes "logging D L" "quiet_net (tl_net s)" "sends_connected H s e f" "\<not> awaiting_ack e"
    "data \<noteq> []" "length data \<le> MAX_APDU_LENGTH"
  shows "\<exists>e1 e2. single (tl_table (handleAck (fst (tl_sendFrame D H s f)) (ce_remoteAddress e) (ce_sequenceNumber e))) e1 \<and>
      ce_sequenceNumber e1 = (ce_sequenceNumber e + 1) AND 0x0F \<and> \<not> awaiting_ack e1 \<and>
    single (tl_table (handleAck (fst (sendConnectedData D s (ce_index e) data)) (ce_remoteAddress e) (ce_sequenceNumber e))) e2 \<and>
      ce_sequenceNumber e2 = (ce_sequenceNumber e + 2) AND 0x0F \<and> \<not> awaiting_ack e2"
proof -
  have s: "tl_initialized s" "ct_connections (tl_table s) = [e]" "is_connected_entry e"
    using assms(3) by (auto simp: sends_connected_def single_def)
  have ack: "\<exists>e'. single (tl_table (handleAck s1 (ce_remoteAddress e) (ce_sequenceNumber e))) e' \<and>
      ce_sequenceNumber e' = (ce_sequenceNumber p + 1) AND 0x0F \<and> \<not> awaiting_ack e'"
    if "ct_connections (tl_table s1) = [p]" "awaiting_ack p" "ce_remoteAddress p = ce_remoteAddress e"
      "ce_pendingSeq p = ce_sequenceNumber e AND 0x0F" for s1 :: "('a, 'b) transport" and p
    using that by (simp add: handleAck_def findConnection_def resetRetransmitState_def getConnection_def upd_index_def
        upd_addr_def updateActivityTime_def single_def reset_retransmit_def awaiting_ack_def)
  obtain e' n where "buildNetworkTxFrame H s f = (s\<lparr>tl_table := (tl_table s)\<lparr>ct_connections := [e']\<rparr>\<rparr>, Inr n)"
    and e': "awaiting_ack e'" "ce_sequenceNumber e' = ce_sequenceNumber e" "ce_pendingSeq e' = ce_sequenceNumber e AND 0x0F"
      "ce_remoteAddress e' = ce_remoteAddress e"
    using buildNetworkTxFrame_connected [OF assms(3)] by blast
  then have "ct_connections (tl_table (fst (tl_sendFrame D H s f))) = [e']"
    using s by (simp add: tl_sendFrame_def)
  note part1 = ack [OF this e'(1,4,3)]
  let ?sq = "ce_sequenceNumber e AND 0x0F" and ?i = "ce_index e"
  let ?p = "(mark_pending data ?sq (tl_now s) e)\<lparr>ce_sequenceNumber := (?sq + 1) AND 0x0F, ce_lastActivity := tl_now s\<rparr>"
  obtain bs where bs: "buildTpduInPlace (tpci_create NumberedData ?sq) 0 data = Inr bs" using buildTpduInPlace_ok by blast
  let ?s1 = "s\<lparr>tl_table := upd_index ?i (mark_pending data ?sq (tl_now s)) (tl_table s)\<rparr>"
  let ?n = "own_frame ?s1 (ce_remoteAddress e) bs (ce_priority e) False"
  have "snd (net_send D ?s1 ?n) = Inr ()" using net_send_logging(1) [OF assms(1), of ?s1 ?n] assms(2) by simp
  then obtain s2 where s2: "net_send D ?s1 ?n = (s2, Inr ())" by (metis prod.collapse)
  have "ct_connections (tl_table (fst (sendConnectedData D s ?i data))) = [?p]"
    using s assms(4,6) bs s2 net_ops_initialized(2,5) [of D ?s1 ?n]
    by (simp add: sendConnectedData_def Let_def getConnection_def updateActivityTime_def upd_index_def mark_pending_def)
  from ack [OF this] have "\<exists>e2. single (tl_table (handleAck (fst (sendConnectedData D s ?i data)) (ce_remoteAddress e) (ce_sequenceNumber e))) e2 \<and>
      ce_sequenceNumber e2 = (((?sq + 1) AND 0x0F) + 1) AND 0x0F \<and> \<not> awaiting_ack e2"
    using assms(5) by (simp add: awaiting_ack_def mark_pending_def)
  moreover have "(((?sq + 1) AND 0x0F) + 1) AND 0x0F = (ce_sequenceNumber e + 2) AND 0x0F"
    by (simp add: mask_add_left add.assoc)
  ultimately show ?thesis using part1 e'(2) by auto
qed

theorem acknowledged_data_sequence_witness:
  "\<exists>e1 e2. single (tl_table (handleAck (fst (tl_sendFrame log_link no_hooks sample_connected sample_request)) 0x1105 0)) e1 \<and>
      ce_sequenceNumber e1 = 1 \<and>
    single (tl_table (handleAck (fst (sendConnectedData log_link sample_connected 0 [0x2A])) 0x1105 0)) e2 \<and>
      ce_sequenceNumber e2 = 2"
proof -
  have "sends_connected no_hooks sample_connected sample_entry sample_request" "\<not> awaiting_ack sample_entry"
    "[0x2A] \<noteq> ([] :: bytes)" "length [0x2A :: u8] \<le> MAX_APDU_LENGTH" by code_simp+
  from acknowledged_data_sequence [OF log_link_logging sample_connected_facts(14) this]
  show ?thesis by (simp add: sample_connected_facts) blast
qed

text \<open>
  While the device's one connection is open, another client's T_Connect is answered with a
  T_Disconnect to that client; the open connection is not touched and nothing is indicated.
\<close>

theorem second_client_refused:
  assumes "logging D L" "quiet_net (tl_net s)" "tl_initialized s" "single (tl_table s) e"
    "ct_maxConnections (tl_table s) = kDefaultMaxConnections" "source (n_dlFrame n) \<noteq> ce_remoteAddress e"
    "tpdu (n_dlFrame n) = [tpci_create_control Connect]"
  shows "let s' = handleNetworkRx D H s n in
    tl_table s' = tl_table s \<and> tl_indications s' = tl_indications s \<and>
    sent L s' = sent L s @ [n_dlFrame (own_frame s (source (n_dlFrame n)) [tpci_create_control Disconnect]
      (ldata_frame.priority (n_dlFrame n)) False)]"
proof -
  let ?f = "n_dlFrame n" and ?s = "if tl_timebase s = 0 then s\<lparr>tl_timebase := 1\<rparr> else s"
  have k: "tl_table ?s = tl_table s" "tl_indications ?s = tl_indications s" "tl_net ?s = tl_net s" "tl_own ?s = tl_own s"
    by auto
  have none: "findConnection (tl_table s) (source ?f) = None"
    using assms(4,6) by (simp add: single_def findConnection_def)
  have "createConnection (tl_table s) (source ?f) (connect_params (source ?f)) = (tl_table s, 0xFF)"
    using assms(4,5) none by (simp add: createConnection_def single_def kDefaultMaxConnections_def)
  moreover have "handleNetworkRx D H s n = handleConnectRequest D ?s (source ?f) (ldata_frame.priority ?f) (repeated ?f)"
    using assms(3,7) none k(1)
    by (simp add: handleNetworkRx_def Let_def unpackTpduHeader_def tpci_type_def tpci_isControl_def tpci_create_control_def
        is_control_octet_def)
  ultimately have "handleNetworkRx D H s n = fst (sendDisconnect D ?s (source ?f) (ldata_frame.priority ?f))"
    using none k(1) by (simp add: handleConnectRequest_def ci_isValid_def)
  moreover have "own_frame ?s = own_frame s" by (simp add: fun_eq_iff own_frame_def)
  ultimately show ?thesis
    using control_logging(2) [OF assms(1), of ?s] assms(2) k by (simp add: sendDisconnect_def Let_def del: if_split_asm)
qed

theorem second_client_refused_witness:
  "let s' = handleNetworkRx log_link no_hooks sample_connected (peer_frame 0x1106 [0x80]) in
    tl_table s' = tl_table sample_connected \<and> tl_indications s' = [] \<and> map tpdu (nl_link (tl_net s')) = [[0x81]]"
proof -
  let ?n = "peer_frame 0x1106 [0x80]"
  have "ct_maxConnections (tl_table sample_connected) = kDefaultMaxConnections"
    "source (n_dlFrame ?n) \<noteq> ce_remoteAddress sample_entry" "tpdu (n_dlFrame ?n) = [tpci_create_control Connect]"
    by code_simp+
  from second_client_refused [OF log_link_logging sample_connected_facts(14,1) sample_connected_single this, of no_hooks]
  show ?thesis by (simp add: sample_connected_facts Let_def tpci_create_control_def)
qed

section \<open>Further observations\<close>

text \<open>\<open>buildNetworkTxFrame\<close> fills in the hop count of the data link frame and not the one of the
  network frame, which the network layer overwrites it with: the caller's hop count is ignored.\<close>

lemma caller_hop_count_ignored:
  assumes "logging D L" "quiet_net (tl_net s)" "tl_initialized s" "hk_tx H = None" "t_service f \<noteq> TConnected"
  shows "\<exists>w. sent L (fst (tl_sendFrame D H s f)) = sent L s @ [w] \<and> hopCount w = 6"
proof -
  let ?n = "ndata_frame_init\<lparr>n_dlFrame := ldata_of_tdata f\<rparr>"
  have "tl_sendFrame D H s f = net_send D s ?n"
    using assms(3-5) by (simp add: tl_sendFrame_def buildNetworkTxFrame_def run_transform_def Let_def)
  then show ?thesis
    using net_send_logging(2) [OF assms(1,2), of ?n] by (simp add: ndata_frame_init_def)
qed

text \<open>A connected frame without payload is recorded as pending, but \<open>awaiting_ack\<close> also asks for pending
  octets: it is never repeated, and a second frame may overtake it.\<close>

lemma empty_payload_never_repeated:
  "let s = fst (tl_sendFrame log_link no_hooks sample_connected (sample_request\<lparr>t_tpdu := [0x03, 0x00]\<rparr>)) in
   length (nl_link (tl_net s)) = 1 \<and>
   length (nl_link (tl_net (fold (tl_processRetransmissions log_link) [3001, 5001] s))) = 1"
  by code_simp

end
