(* ===== verification/Stack.thy ===== *)
theory Stack
  imports Data_Link Transport_Reliability
begin

text \<open>
  The stack put together (\<open>src/bau/bau_stack_port.cpp\<close> assembles the layers this way): the transport layer of
  \<open>Transport\<close> over the network layer of \<open>Network_Layer\<close> over the TP1 data link of \<open>Data_Link\<close>, as
  the constructors and the receive callbacks connect them. \<open>tp1_ops\<close> gives the network layer its
  data link; \<open>stack_receive\<close> is the path of one received physical frame up to the application.
\<close>

section \<open>Composition\<close>

text \<open>The data link's operations as the network layer calls them. The blocking send polls until the
  physical layer has an outcome; \<open>fuel\<close> bounds the polls, and a send that needs more has no result
  in the code: the properties give the fuel that is enough.\<close>

definition tp1_ops :: "'p link_env \<Rightarrow> nat \<Rightarrow> 'p datalink dl_ops" where
  "tp1_ops E fuel =
     \<lparr>dl_setCallback = \<lambda>d. d\<lparr>dl_hasCallback := True\<rparr>,
      dl_send = \<lambda>d f. (case dl_sendFrame E fuel d f of Some r \<Rightarrow> r | None \<Rightarrow> (d, Inl ETimeout)),
      dl_begin = dl_beginTransmit E, dl_poll = dl_pollTransmit E\<rparr>"

definition stack_receive ::
    "'p link_env \<Rightarrow> nat \<Rightarrow> 'u hooks \<Rightarrow> ('p datalink, 'u) transport \<Rightarrow> bytes \<Rightarrow> ('p datalink, 'u) transport" where
  "stack_receive E fuel H s buf =
     (case rx_buffer (nl_link (tl_net s)) buf of (d, out) \<Rightarrow>
      let s1 = s\<lparr>tl_net := (tl_net s)\<lparr>nl_link := d\<rparr>\<rparr> in
      (case out of
         None \<Rightarrow> s1
       | Some f \<Rightarrow>
           (case nl_handleDlRx (tl_net s1) f of
              (net, None) \<Rightarrow> s1\<lparr>tl_net := net\<rparr>
            | (net, Some n) \<Rightarrow> handleNetworkRx (tp1_ops E fuel) H (s1\<lparr>tl_net := net\<rparr>) n)))"

section \<open>Lemmas\<close>

text \<open>A physical layer that takes a frame and reports success; \<open>W\<close> is what it has put on the bus.\<close>

definition wire :: "'p link_env \<Rightarrow> ('p \<Rightarrow> bytes list) \<Rightarrow> bool" where
  "wire E W \<longleftrightarrow> env_millis E = None \<and> env_hasMutex E \<and>
     (\<forall>p. snd (env_lock E p) \<and> W (fst (env_lock E p)) = W p \<and> W (env_unlock E p) = W p \<and>
       (\<forall>bs. isOk (snd (env_beginTransmit E p bs)) \<and> W (fst (env_beginTransmit E p bs)) = W p @ [bs]) \<and>
       (\<forall>sq. snd (env_pollTransmit E p sq) = Inr Success \<and> W (fst (env_pollTransmit E p sq)) = W p))"

definition idle_link :: "'p datalink \<Rightarrow> bool" where
  "idle_link d \<longleftrightarrow> dl_initialized d \<and> \<not> tx_active (dl_tx d)"

lemma wireD:
  assumes "wire E W"
  shows "\<exists>q. env_lock E p = (q, True) \<and> W q = W p"
    "\<exists>q sq. env_beginTransmit E p bs = (q, Inr sq) \<and> W q = W p @ [bs]"
    "\<exists>q. env_pollTransmit E p n = (q, Inr Success) \<and> W q = W p"
proof -
  have w: "snd (env_lock E p)" "W (fst (env_lock E p)) = W p" "isOk (snd (env_beginTransmit E p bs))"
    "W (fst (env_beginTransmit E p bs)) = W p @ [bs]" "snd (env_pollTransmit E p n) = Inr Success"
    "W (fst (env_pollTransmit E p n)) = W p"
    using assms by (auto simp: wire_def)
  show "\<exists>q. env_lock E p = (q, True) \<and> W q = W p" using w(1,2) by (cases "env_lock E p") auto
  show "\<exists>q sq. env_beginTransmit E p bs = (q, Inr sq) \<and> W q = W p @ [bs]"
    using w(3,4) by (cases "env_beginTransmit E p bs"; cases "snd (env_beginTransmit E p bs)") auto
  show "\<exists>q. env_pollTransmit E p n = (q, Inr Success) \<and> W q = W p"
    using w(5,6) by (cases "env_pollTransmit E p n") auto
qed

lemma dl_sendFrame_wire:
  assumes "wire E W" "idle_link d" "encodeFrame f TX_BUFFER_SIZE = Inr bs"
  shows "\<exists>d'. dl_sendFrame E (Suc fuel) d f = Some (d', Inr ()) \<and> idle_link d' \<and> W (dl_env d') = W (dl_env d) @ [bs]"
proof -
  obtain p where p: "env_lock E (dl_env d) = (p, True)" "W p = W (dl_env d)"
    using wireD(1) [OF assms(1)] by blast
  let ?d1 = "fst (dl_beginTransmit E d f)"
  have d1: "snd (dl_beginTransmit E d f) = Inr ()" "dl_env ?d1 = p" "tx_octets (dl_tx ?d1) = bs" "tx_active (dl_tx ?d1)"
    "\<not> tx_waiting (dl_tx ?d1)" "dl_initialized ?d1"
    using assms(2,3) p by (simp_all add: dl_beginTransmit_def idle_link_def)
  obtain q sq where q: "env_beginTransmit E p bs = (q, Inr sq)" "W q = W p @ [bs]"
    using wireD(2) [OF assms(1)] by blast
  obtain r where r: "env_pollTransmit E q sq = (r, Inr Success)" "W r = W q"
    using wireD(3) [OF assms(1)] by blast
  let ?p = "dl_pollTransmit E ?d1"
  have "snd ?p = Inr Success \<and> idle_link (fst ?p) \<and> W (dl_env (fst ?p)) = W (dl_env d) @ [bs]"
    using d1 q r p(2) assms(1)
    by (simp add: dl_pollTransmit_def dl_now_def dl_pollOutcome_def wire_def idle_link_def dl_finishTx_def tx_operation_init_def)
  moreover have "dl_sendFrame E (Suc fuel) d f = Some (fst ?p, Inr ())"
    using d1(1) calculation by (simp add: dl_sendFrame_def case_prod_beta)
  ultimately show ?thesis by blast
qed

lemma stack_receive_indicates:
  assumes "decodeFrame bs ldata_frame_init = Inr f" "False \<in> set (dl_frameInUse (nl_link (tl_net s)))"
    "dl_hasCallback (nl_link (tl_net s))" "\<not> repeated f"
    "isAddressMatch (nl_link (tl_net s)) (destination f) (destinationType f)"
    "nl_initialized (tl_net s)" "nl_hasCallback (tl_net s)" "\<not> nl_routingEnabled (tl_net s)"
    "\<not> nl_filteringEnabled (tl_net s)"
    "destinationType f = Group \<or> destination f = nl_own (tl_net s)"
    "tl_initialized s" "tl_hasCallback s" "hk_rx H = None"
    "tpdu f \<noteq> []" "tpci_type (tpdu f ! 0) = UnnumberedData"
  shows "tl_indications (stack_receive E fuel H s bs) = tl_indications s @
    [(convertFromNetwork \<lparr>n_dlFrame = f, n_hopCount = hopCount f\<rparr>)\<lparr>t_securityTpci6 := drop_bit 2 (tpdu f ! 0)\<rparr>]"
proof -
  let ?d = "nl_link (tl_net s)"
  have "\<not> isRepetitionOfLastRxFrame ?d f" using assms(4) by (simp add: isRepetitionOfLastRxFrame_def)
  then obtain d where d: "rx_buffer ?d bs = (d, Some f)"
    using rx_buffer_decoded [OF assms(1-3)] assms(5) by (metis prod.collapse)
  let ?n = "\<lparr>n_dlFrame = f, n_hopCount = hopCount f\<rparr>"
  let ?s = "s\<lparr>tl_net := (tl_net s)\<lparr>nl_link := d\<rparr>\<rparr>"
  have n: "nl_handleDlRx (tl_net ?s) f = (tl_net ?s, Some ?n)"
    using assms(6-10) by (auto simp: nl_handleDlRx_def Let_def isGroupAddress_def)
  have "stack_receive E fuel H s bs = handleNetworkRx (tp1_ops E fuel) H ?s ?n"
    using n by (simp add: stack_receive_def d Let_def)
  moreover have "h_tpci (unpackTpduHeader (tpdu f ! 0) x) = tpdu f ! 0 AND 0xFC" for x
    using assms(15) by (auto simp: unpackTpduHeader_def tpci_type_def is_control_octet_def Let_def split: if_splits)
  ultimately show ?thesis
    using assms(11-15)
    by (simp add: handleNetworkRx_def Let_def indicate_def run_transform_def tl_deliver_def)
qed

lemma encodeFrame_fits:
  "ldata_isValid f \<Longrightarrow> length (tpdu f) \<le> 255 \<Longrightarrow> \<exists>bs. encodeFrame f TX_BUFFER_SIZE = Inr bs"
  using valid_length [of f] by (auto simp: encodeFrame_def TX_BUFFER_SIZE_def Let_def)

text \<open>A telegram from one transport layer to the other: what is sent, and what is indicated.\<close>

lemma telegram_core:
  fixes a :: "('p datalink, 'u) transport" and b :: "('q datalink, 'v) transport"
  assumes "wire E W" "idle_link (nl_link (tl_net a))" "quiet_net (tl_net a)" "tl_initialized a" "hk_tx H = None"
    and "t_service f \<noteq> TConnected" "ldata_isValid (ldata_of_tdata f)" "length (t_tpdu f) \<le> 255" "\<not> t_repeated f"
      "tpci_type (t_tpdu f ! 0) = UnnumberedData"
    and "False \<in> set (dl_frameInUse (nl_link (tl_net b)))" "dl_hasCallback (nl_link (tl_net b))"
      "isAddressMatch (nl_link (tl_net b)) (t_destination f) (t_destinationType f)"
      "nl_initialized (tl_net b)" "nl_hasCallback (tl_net b)" "\<not> nl_routingEnabled (tl_net b)"
      "\<not> nl_filteringEnabled (tl_net b)"
      "t_destinationType f = Group \<or> t_destination f = nl_own (tl_net b)"
      "tl_initialized b" "tl_hasCallback b" "hk_rx H' = None"
  shows "\<exists>bs g. W (dl_env (nl_link (tl_net (fst (tl_sendFrame (tp1_ops E (Suc k)) H a f))))) =
      W (dl_env (nl_link (tl_net a))) @ [bs] \<and>
    snd (tl_sendFrame (tp1_ops E (Suc k)) H a f) = Inr () \<and>
    tl_indications (stack_receive E' k' H' b bs) = tl_indications b @ [g] \<and>
    t_tpdu g = t_tpdu f \<and> t_source g = t_source f \<and> t_destination g = t_destination f \<and>
    t_destinationType g = t_destinationType f \<and> t_priority g = t_priority f \<and>
    t_security g = \<lparr>rs_secured = False, rs_toolAccess = False, rs_confidentiality = False\<rparr>"
proof -
  let ?w = "(ldata_of_tdata f)\<lparr>hopCount := 6\<rparr>" and ?n = "ndata_frame_init\<lparr>n_dlFrame := ldata_of_tdata f\<rparr>"
  have w: "ldata_isValid ?w" using assms(7) by (auto simp: ldata_isValid_def split: if_splits)
  obtain bs where bs: "encodeFrame ?w TX_BUFFER_SIZE = Inr bs"
    using encodeFrame_fits [OF w] assms(8) by (auto simp: ldata_of_tdata_def)
  obtain d where d: "dl_sendFrame E (Suc k) (nl_link (tl_net a)) ?w = Some (d, Inr ())"
    "W (dl_env d) = W (dl_env (nl_link (tl_net a))) @ [bs]"
    using dl_sendFrame_wire [OF assms(1,2) bs] by blast
  have "tl_sendFrame (tp1_ops E (Suc k)) H a f = net_send (tp1_ops E (Suc k)) a ?n"
    using assms(4-6) by (simp add: tl_sendFrame_def buildNetworkTxFrame_def run_transform_def Let_def)
  then have "nl_link (tl_net (fst (tl_sendFrame (tp1_ops E (Suc k)) H a f))) = d"
    "snd (tl_sendFrame (tp1_ops E (Suc k)) H a f) = Inr ()"
    using assms(3) d(1)
    by (simp_all add: net_send_def nl_sendFrame_def quiet_net_def ndata_frame_init_def tp1_ops_def)
  moreover define v where "v = ?w\<lparr>standardFrame := length (tpdu ?w) \<le> 16\<rparr>"
  have v: "decodeFrame bs ldata_frame_init = Inr v" unfolding v_def by (rule encode_decode [OF bs])
  have fields: "\<not> repeated v" "destination v = t_destination f" "destinationType v = t_destinationType f"
    "tpdu v = t_tpdu f" "source v = t_source f" "ldata_frame.priority v = t_priority f"
    using assms(9) by (simp_all add: v_def ldata_of_tdata_def)
  have "t_tpdu f \<noteq> []" using valid_length [OF assms(7)] by (auto simp: ldata_of_tdata_def)
  then have "tl_indications (stack_receive E' k' H' b bs) = tl_indications b @
    [(convertFromNetwork \<lparr>n_dlFrame = v, n_hopCount = hopCount v\<rparr>)\<lparr>t_securityTpci6 := drop_bit 2 (tpdu v ! 0)\<rparr>]"
    by (intro stack_receive_indicates [OF v]) (use assms fields in simp_all)
  ultimately show ?thesis
    using d(2) fields by (simp add: convertFromNetwork_def tdata_frame_init_def Let_def)
qed

section \<open>Properties\<close>

text \<open>
  C3. A telegram crosses the bus. A valid connectionless data frame with a TPDU of at most 255 octets (one of
  256 is refused) that is given to the sender's transport layer and is not marked as a repetition puts exactly
  one physical frame on the bus; a station that gets those octets, is addressed by them, is not a router and
  filters nothing indicates the frame to its application once, with source, destination, address type, priority
  and TPDU as the sender gave them. The wire is ideal: it takes every frame and reports success, so the link does
  not repeat. Both stations are open and free (the sender's link and network layer are idle, the receiver has a
  free buffer) and have no security transform.
\<close>

theorem telegram_crosses_the_bus:
  fixes a :: "('p datalink, 'u) transport" and b :: "('q datalink, 'v) transport"
  assumes "wire E W" "idle_link (nl_link (tl_net a))" "quiet_net (tl_net a)" "tl_initialized a" "hk_tx H = None"
    and "t_service f \<noteq> TConnected" "ldata_isValid (ldata_of_tdata f)" "length (t_tpdu f) \<le> 255" "\<not> t_repeated f"
      "tpci_type (t_tpdu f ! 0) = UnnumberedData"
    and "False \<in> set (dl_frameInUse (nl_link (tl_net b)))" "dl_hasCallback (nl_link (tl_net b))"
      "isAddressMatch (nl_link (tl_net b)) (t_destination f) (t_destinationType f)"
      "nl_initialized (tl_net b)" "nl_hasCallback (tl_net b)" "\<not> nl_routingEnabled (tl_net b)"
      "\<not> nl_filteringEnabled (tl_net b)"
      "t_destinationType f = Group \<or> t_destination f = nl_own (tl_net b)"
      "tl_initialized b" "tl_hasCallback b" "hk_rx H' = None"
  shows "\<exists>bs g. W (dl_env (nl_link (tl_net (fst (tl_sendFrame (tp1_ops E (Suc k)) H a f))))) =
      W (dl_env (nl_link (tl_net a))) @ [bs] \<and>
    tl_indications (stack_receive E' k' H' b bs) = tl_indications b @ [g] \<and>
    t_tpdu g = t_tpdu f \<and> t_source g = t_source f \<and> t_destination g = t_destination f \<and>
    t_destinationType g = t_destinationType f \<and> t_priority g = t_priority f"
  using telegram_core [OF assms, where k = k and E' = E' and k' = k'] by blast

definition wire_env :: "bytes list link_env" where
  "wire_env = queue_env\<lparr>env_beginTransmit := (\<lambda>p bs. (p @ [bs], Inr 1))\<rparr>"

text \<open>Station 1.1.1 over an open data link that takes part in the group 1/0/1.\<close>

definition sample_station :: "(bytes list datalink, unit) transport" where
  "sample_station =
     (let d = fst (dl_init wire_env (datalink_init [] False) 0x1101);
          d1 = fst (addGroupAddress wire_env d 0x0801) in
      (fst (tl_init (tp1_ops wire_env 1) (transport_init (network_init d1) ()) 0x1101))\<lparr>tl_hasCallback := True\<rparr>)"

definition sample_telegram :: tdata_frame where
  "sample_telegram = tdata_frame_init\<lparr>t_source := 0x1105, t_destination := 0x0801, t_tpdu := [0x00, 0x81]\<rparr>"

theorem telegram_crosses_the_bus_witness:
  "\<exists>bs g. dl_env (nl_link (tl_net (fst (tl_sendFrame (tp1_ops wire_env 1) no_hooks sample_station sample_telegram)))) = [bs] \<and>
     tl_indications (stack_receive wire_env 1 no_hooks sample_station bs) = [g] \<and> t_tpdu g = [0x00, 0x81]"
proof -
  have w: "wire wire_env (\<lambda>p. p)" by (simp add: wire_def wire_env_def queue_env_def)
  have "dl_env (nl_link (tl_net sample_station)) = []" "tl_indications sample_station = []"
    "t_tpdu sample_telegram = [0x00, 0x81]" by code_simp+
  moreover have "\<exists>bs g. dl_env (nl_link (tl_net (fst (tl_sendFrame (tp1_ops wire_env (Suc 0)) no_hooks sample_station sample_telegram)))) =
      dl_env (nl_link (tl_net sample_station)) @ [bs] \<and>
    tl_indications (stack_receive wire_env 1 no_hooks sample_station bs) = tl_indications sample_station @ [g] \<and>
    t_tpdu g = t_tpdu sample_telegram \<and> t_source g = t_source sample_telegram \<and> t_destination g = t_destination sample_telegram \<and>
    t_destinationType g = t_destinationType sample_telegram \<and> t_priority g = t_priority sample_telegram"
    by (rule telegram_crosses_the_bus [OF w]) code_simp+
  ultimately show ?thesis by auto
qed

end
