(* ===== verification/Apci.thy ===== *)
theory Apci
  imports Tpdu_Codec
begin

text \<open>
  The application protocol control information: \<open>include/knx/application/apci_services.hpp\<close>.
  \<open>APCIService\<close> is an enumeration over \<open>uint16_t\<close> and \<open>APCIField::service()\<close> casts any masked
  value to it, so a service is its 16-bit code here and each enumerator is a constant. The theory
  also holds the payload codecs of that header (the extended property header) and the lemmas that
  say which services a receiver reads back as they were sent.
\<close>

section \<open>Access types (types.hpp)\<close>

datatype access_type = AtRead | AtWrite

section \<open>Service codes\<close>

type_synonym apci_service = u16

definition S_GroupValueRead :: apci_service where "S_GroupValueRead = 0x000"
definition S_GroupValueResponse :: apci_service where "S_GroupValueResponse = 0x040"
definition S_GroupValueWrite :: apci_service where "S_GroupValueWrite = 0x080"
definition S_IndividualAddressWrite :: apci_service where "S_IndividualAddressWrite = 0x0C0"
definition S_IndividualAddressRead :: apci_service where "S_IndividualAddressRead = 0x100"
definition S_IndividualAddressResponse :: apci_service where "S_IndividualAddressResponse = 0x140"
definition S_ADCRead :: apci_service where "S_ADCRead = 0x180"
definition S_ADCResponse :: apci_service where "S_ADCResponse = 0x1C0"
definition S_MemoryRead :: apci_service where "S_MemoryRead = 0x200"
definition S_MemoryResponse :: apci_service where "S_MemoryResponse = 0x240"
definition S_MemoryWrite :: apci_service where "S_MemoryWrite = 0x280"
definition S_PropertyExtValueRead :: apci_service where "S_PropertyExtValueRead = 0x1CC"
definition S_PropertyExtValueResponse :: apci_service where "S_PropertyExtValueResponse = 0x1CD"
definition S_PropertyExtValueWriteCon :: apci_service where "S_PropertyExtValueWriteCon = 0x1CE"
definition S_PropertyExtValueWriteConRes :: apci_service where "S_PropertyExtValueWriteConRes = 0x1CF"
definition S_PropertyExtValueWriteUnCon :: apci_service where "S_PropertyExtValueWriteUnCon = 0x1D0"
definition S_PropertyExtValueInfoReport :: apci_service where "S_PropertyExtValueInfoReport = 0x1D1"
definition S_PropertyExtDescriptionRead :: apci_service where "S_PropertyExtDescriptionRead = 0x1D2"
definition S_PropertyExtDescriptionResponse :: apci_service where "S_PropertyExtDescriptionResponse = 0x1D3"
definition S_FunctionPropertyExtCommand :: apci_service where "S_FunctionPropertyExtCommand = 0x1D4"
definition S_FunctionPropertyExtStateRead :: apci_service where "S_FunctionPropertyExtStateRead = 0x1D5"
definition S_FunctionPropertyExtStateResponse :: apci_service where "S_FunctionPropertyExtStateResponse = 0x1D6"
definition S_MemoryExtendedWrite :: apci_service where "S_MemoryExtendedWrite = 0x1FB"
definition S_MemoryExtendedWriteResponse :: apci_service where "S_MemoryExtendedWriteResponse = 0x1FC"
definition S_MemoryExtendedRead :: apci_service where "S_MemoryExtendedRead = 0x1FD"
definition S_MemoryExtendedReadResponse :: apci_service where "S_MemoryExtendedReadResponse = 0x1FE"
definition S_DeviceDescriptorRead :: apci_service where "S_DeviceDescriptorRead = 0x300"
definition S_DeviceDescriptorResponse :: apci_service where "S_DeviceDescriptorResponse = 0x340"
definition S_Restart :: apci_service where "S_Restart = 0x380"
definition S_RestartResponse :: apci_service where "S_RestartResponse = 0x3A1"
definition S_FunctionPropertyCommand :: apci_service where "S_FunctionPropertyCommand = 0x2C7"
definition S_FunctionPropertyStateRead :: apci_service where "S_FunctionPropertyStateRead = 0x2C8"
definition S_FunctionPropertyStateResponse :: apci_service where "S_FunctionPropertyStateResponse = 0x2C9"
definition S_Escape :: apci_service where "S_Escape = 0x3C0"
definition S_PropertyValueRead :: apci_service where "S_PropertyValueRead = 0x3D5"
definition S_PropertyValueResponse :: apci_service where "S_PropertyValueResponse = 0x3D6"
definition S_PropertyValueWrite :: apci_service where "S_PropertyValueWrite = 0x3D7"
definition S_PropertyDescriptionRead :: apci_service where "S_PropertyDescriptionRead = 0x3D8"
definition S_PropertyDescriptionResponse :: apci_service where "S_PropertyDescriptionResponse = 0x3D9"
definition S_AuthorizeRequest :: apci_service where "S_AuthorizeRequest = 0x3D1"
definition S_AuthorizeResponse :: apci_service where "S_AuthorizeResponse = 0x3D2"
definition S_KeyWrite :: apci_service where "S_KeyWrite = 0x3D3"
definition S_KeyResponse :: apci_service where "S_KeyResponse = 0x3D4"
definition S_NetworkParameterRead :: apci_service where "S_NetworkParameterRead = 0x3DA"
definition S_NetworkParameterResponse :: apci_service where "S_NetworkParameterResponse = 0x3DB"
definition S_NetworkParameterWrite :: apci_service where "S_NetworkParameterWrite = 0x3E4"
definition S_IndividualAddressSerialNumberRead :: apci_service where "S_IndividualAddressSerialNumberRead = 0x3DC"
definition S_IndividualAddressSerialNumberResponse :: apci_service where "S_IndividualAddressSerialNumberResponse = 0x3DD"
definition S_IndividualAddressSerialNumberWrite :: apci_service where "S_IndividualAddressSerialNumberWrite = 0x3DE"
definition S_SystemNetworkParameterRead :: apci_service where "S_SystemNetworkParameterRead = 0x1C8"
definition S_SystemNetworkParameterResponse :: apci_service where "S_SystemNetworkParameterResponse = 0x1C9"
definition S_SystemNetworkParameterWrite :: apci_service where "S_SystemNetworkParameterWrite = 0x1CA"

lemmas apci_codes [knx_defs] =
  S_GroupValueRead_def S_GroupValueResponse_def S_GroupValueWrite_def
  S_IndividualAddressWrite_def S_IndividualAddressRead_def S_IndividualAddressResponse_def
  S_ADCRead_def S_ADCResponse_def S_MemoryRead_def S_MemoryResponse_def S_MemoryWrite_def
  S_PropertyExtValueRead_def S_PropertyExtValueResponse_def S_PropertyExtValueWriteCon_def
  S_PropertyExtValueWriteConRes_def S_PropertyExtValueWriteUnCon_def
  S_PropertyExtValueInfoReport_def S_PropertyExtDescriptionRead_def
  S_PropertyExtDescriptionResponse_def S_FunctionPropertyExtCommand_def
  S_FunctionPropertyExtStateRead_def S_FunctionPropertyExtStateResponse_def
  S_MemoryExtendedWrite_def S_MemoryExtendedWriteResponse_def S_MemoryExtendedRead_def
  S_MemoryExtendedReadResponse_def S_DeviceDescriptorRead_def S_DeviceDescriptorResponse_def
  S_Restart_def S_RestartResponse_def S_FunctionPropertyCommand_def
  S_FunctionPropertyStateRead_def S_FunctionPropertyStateResponse_def S_Escape_def
  S_PropertyValueRead_def S_PropertyValueResponse_def S_PropertyValueWrite_def
  S_PropertyDescriptionRead_def S_PropertyDescriptionResponse_def S_AuthorizeRequest_def
  S_AuthorizeResponse_def S_KeyWrite_def S_KeyResponse_def S_NetworkParameterRead_def
  S_NetworkParameterResponse_def S_NetworkParameterWrite_def
  S_IndividualAddressSerialNumberRead_def S_IndividualAddressSerialNumberResponse_def
  S_IndividualAddressSerialNumberWrite_def S_SystemNetworkParameterRead_def
  S_SystemNetworkParameterResponse_def S_SystemNetworkParameterWrite_def

section \<open>The APCI field\<close>

definition apci_create :: "apci_service \<Rightarrow> u8 \<Rightarrow> u16" where
  "apci_create service data = service OR (ucast data AND 0x3F)"

definition apci_data6 :: "u16 \<Rightarrow> u8" where
  "apci_data6 raw = ucast (raw AND 0x3F)"

definition isMemoryExtended :: "u16 \<Rightarrow> bool" where
  "isMemoryExtended raw =
     (let full = raw AND 0x03FF in S_MemoryExtendedWrite \<le> full \<and> full \<le> S_MemoryExtendedReadResponse)"

definition isSystemNetworkParameter :: "u16 \<Rightarrow> bool" where
  "isSystemNetworkParameter raw =
     (let full = raw AND 0x03FF in S_SystemNetworkParameterRead \<le> full \<and> full \<le> S_SystemNetworkParameterWrite)"

definition isPropertyExtended :: "u16 \<Rightarrow> bool" where
  "isPropertyExtended raw =
     (let full = raw AND 0x03FF in S_PropertyExtValueRead \<le> full \<and> full \<le> S_FunctionPropertyExtStateResponse)"

definition isFunctionProperty :: "u16 \<Rightarrow> bool" where
  "isFunctionProperty raw =
     (let full = raw AND 0x03FF in
      full = S_FunctionPropertyCommand \<or> full = S_FunctionPropertyStateRead \<or> full = S_FunctionPropertyStateResponse)"

definition apci_isExtended :: "u16 \<Rightarrow> bool" where
  "apci_isExtended raw \<longleftrightarrow> raw AND 0x03C0 = S_Escape"

definition apci_service_of :: "u16 \<Rightarrow> apci_service" where
  "apci_service_of raw =
     (let serviceGroup = raw AND 0x03C0 in
      if serviceGroup = S_Escape then raw AND 0x03FF
      else if isFunctionProperty raw \<or> isMemoryExtended raw \<or> isPropertyExtended raw \<or> isSystemNetworkParameter raw
      then raw AND 0x03FF
      else serviceGroup)"

section \<open>Return codes and the extended property header\<close>

datatype knx_return_code =
    RcSuccess | RcMemoryError | RcExceedsMaxApduLength | RcDataOverflow | RcDataMin | RcDataMax | RcDataVoid
  | RcTemporarilyNotAvailable | RcAccessWriteOnly | RcAccessReadOnly | RcAccessDenied | RcAddressVoid
  | RcDataTypeConflict | RcGenericError

fun rc_code :: "knx_return_code \<Rightarrow> u8" where
  "rc_code RcSuccess = 0x00"
| "rc_code RcMemoryError = 0xF1"
| "rc_code RcExceedsMaxApduLength = 0xF4"
| "rc_code RcDataOverflow = 0xF5"
| "rc_code RcDataMin = 0xF6"
| "rc_code RcDataMax = 0xF7"
| "rc_code RcDataVoid = 0xF8"
| "rc_code RcTemporarilyNotAvailable = 0xF9"
| "rc_code RcAccessWriteOnly = 0xFA"
| "rc_code RcAccessReadOnly = 0xFB"
| "rc_code RcAccessDenied = 0xFC"
| "rc_code RcAddressVoid = 0xFD"
| "rc_code RcDataTypeConflict = 0xFE"
| "rc_code RcGenericError = 0xFF"

record property_ext_header =
  eh_objectType :: u16
  eh_objectInstance :: u16
  eh_propertyId :: u16

definition eh_fieldsInRange :: "property_ext_header \<Rightarrow> bool" where
  "eh_fieldsInRange h \<longleftrightarrow> eh_objectInstance h \<le> 0x0FFF \<and> eh_propertyId h \<le> 0x0FFF"

definition eh_decode :: "bytes \<Rightarrow> property_ext_header" where
  "eh_decode data =
     \<lparr>eh_objectType = word_be (data ! 0) (data ! 1),
      eh_objectInstance = push_bit 4 (ucast (data ! 2)) OR ucast (drop_bit 4 (data ! 3) AND 0x0F),
      eh_propertyId = push_bit 8 (ucast (data ! 3 AND 0x0F)) OR ucast (data ! 4)\<rparr>"

definition eh_encode :: "property_ext_header \<Rightarrow> bytes" where
  "eh_encode h =
     [getHighByte (eh_objectType h), getLowByte (eh_objectType h),
      ucast (drop_bit 4 (eh_objectInstance h) AND 0xFF),
      ucast (push_bit 4 (eh_objectInstance h AND 0x0F) OR (drop_bit 8 (eh_propertyId h) AND 0x0F)),
      ucast (eh_propertyId h AND 0xFF)]"

section \<open>Lemmas\<close>

lemma rc_code_inject [simp]: "rc_code a = rc_code b \<longleftrightarrow> a = b"
  by (cases a; cases b) simp_all

lemma rc_code_zero [simp]: "rc_code a = 0 \<longleftrightarrow> a = RcSuccess"
  by (cases a) simp_all

lemma length_eh_encode [simp]: "length (eh_encode h) = 5"
  by (simp add: eh_encode_def)

lemma apci_data6_create [simp]: "s AND 0x3F = 0 \<Longrightarrow> apci_data6 (apci_create s d) = d AND 0x3F"
proof -
  assume s: "s AND 0x3F = 0"
  have "apci_create s d AND 0x3F = (s AND 0x3F) OR (ucast d AND 0x3F)"
    by (simp add: apci_create_def bit_eq_iff bit_simps) blast
  then show ?thesis
    unfolding apci_data6_def s by (intro word8_eqI) (simp_all add: bit_simps)
qed

lemma eh_decode_encode: "eh_fieldsInRange h \<Longrightarrow> eh_decode (eh_encode h @ rest) = h"
proof -
  assume r: "eh_fieldsInRange h"
  have le: "\<not> bit w n" if "w \<le> 0x0FFF" and "12 \<le> n" for w :: u16 and n
    using that less_mask_eq [of w 12] bit_and_iff [of w "mask 12" n]
    by (simp add: bit_mask_iff word_le_nat_alt word_less_nat_alt)
  have i: "\<not> bit (eh_objectInstance h) n" and p: "\<not> bit (eh_propertyId h) n" if "12 \<le> n" for n
    using r that by (simp_all add: eh_fieldsInRange_def le)
  have "eh_objectType (eh_decode (eh_encode h @ rest)) = eh_objectType h"
    by (simp add: eh_decode_def eh_encode_def)
  moreover have "eh_objectInstance (eh_decode (eh_encode h @ rest)) = eh_objectInstance h"
    by (rule word16_eqI) (simp_all add: eh_decode_def eh_encode_def bit_simps i)
  moreover have "eh_propertyId (eh_decode (eh_encode h @ rest)) = eh_propertyId h"
    by (rule word16_eqI) (simp_all add: eh_decode_def eh_encode_def bit_simps p)
  ultimately show ?thesis by simp
qed

lemma eh_decode_inRange: "eh_fieldsInRange (eh_decode data)"
proof -
  have le: "w \<le> 0x0FFF" if "w AND 0x0FFF = w" for w :: u16
    using that word_and_le1 [of w "0x0FFF"] by (simp add: and.commute)
  show ?thesis
    unfolding eh_fieldsInRange_def
    by (intro conjI le; rule word16_eqI) (simp_all add: eh_decode_def bit_simps)
qed

text \<open>The header octets of a data TPDU without transport connection, and what is read from them.\<close>

abbreviation data_tpci :: u8 where "data_tpci \<equiv> tpci_create UnnumberedData 0"

lemma h_apci_pack [simp]:
  "h_apci (unpackTpduHeader (fst (packTpduHeader data_tpci a)) (snd (packTpduHeader data_tpci a))) = a AND 0x03FF"
  by (rule arg_cong [where f = h_apci, OF unpack_pack_data, simplified]) simp_all

lemma buildTpdu_room:
  "buildTpdu data_tpci a p n =
     (if n < 2 + length p then Inl BufferTooSmall
      else Inr (fst (packTpduHeader data_tpci a) # snd (packTpduHeader data_tpci a) # p))"
  by (simp add: buildTpdu_def tpduLengthFromTpci_def split_beta)

lemma apci_service_mask [simp]: "apci_service_of (a AND 0x03FF) = apci_service_of a"
proof -
  have "(a AND 0x03FF) AND 0x03C0 = a AND 0x03C0" "(a AND 0x03FF) AND 0x03FF = a AND 0x03FF"
    by (simp_all add: and.assoc)
  then show ?thesis
    by (simp only: apci_service_of_def isMemoryExtended_def isSystemNetworkParameter_def
        isPropertyExtended_def isFunctionProperty_def)
qed

lemma apci_data6_mask [simp]: "apci_data6 (a AND 0x03FF) = apci_data6 a"
  unfolding apci_data6_def by (rule word8_eqI) (simp_all add: bit_simps)

text \<open>A service of the short form (no code bit below 6) is read back whatever its data field holds,
  as long as the group is not the one the extended blocks share.\<close>

lemma apci_service_short:
  assumes "s \<in> {S_GroupValueRead, S_GroupValueResponse, S_GroupValueWrite, S_MemoryRead, S_MemoryResponse,
      S_MemoryWrite, S_DeviceDescriptorRead, S_DeviceDescriptorResponse, S_ADCRead, S_Restart,
      S_IndividualAddressWrite, S_IndividualAddressRead, S_IndividualAddressResponse}"
  shows "apci_service_of (apci_create s d) = s" and "apci_data6 (apci_create s d) = d AND 0x3F"
proof -
  have "\<forall>s \<in> {S_GroupValueRead, S_GroupValueResponse, S_GroupValueWrite, S_MemoryRead, S_MemoryResponse,
      S_MemoryWrite, S_DeviceDescriptorRead, S_DeviceDescriptorResponse, S_ADCRead, S_Restart,
      S_IndividualAddressWrite, S_IndividualAddressRead, S_IndividualAddressResponse}.
      s AND 0x3F = 0 \<and> s AND 0x03C0 = s \<and> s \<noteq> 0x1C0 \<and> s \<noteq> 0x2C0 \<and> s \<noteq> S_Escape"
    by (simp add: apci_codes)
  with assms have s: "s AND 0x3F = 0" "s AND 0x03C0 = s" "s \<noteq> 0x1C0" "s \<noteq> 0x2C0" "s \<noteq> S_Escape"
    by blast+
  show "apci_data6 (apci_create s d) = d AND 0x3F" using s(1) by simp
  let ?r = "apci_create s d"
  have "?r AND 0x03C0 = (s AND 0x03C0) OR ((ucast d AND 0x3F) AND 0x03C0)"
    by (simp add: apci_create_def bit_eq_iff bit_simps) blast
  also have "(ucast d AND 0x3F) AND 0x03C0 = (0 :: u16)" by (rule word16_eqI) (simp_all add: bit_simps)
  finally have g: "?r AND 0x03C0 = s" using s(2) by simp
  have grp: "(?r AND 0x03FF) AND 0x03C0 = s"
    using g by (simp add: and.assoc)
  have no: "?r AND 0x03FF \<noteq> c" if "c AND 0x03C0 \<noteq> s" for c
    using grp that by blast
  have rng: "\<not> (lo \<le> ?r AND 0x03FF \<and> ?r AND 0x03FF \<le> hi)" if "lo \<ge> 0x1C0" and "hi \<le> 0x1FF" for lo hi
  proof
    assume a: "lo \<le> ?r AND 0x03FF \<and> ?r AND 0x03FF \<le> hi"
    let ?w = "?r AND 0x03FF"
    have "0x1C0 \<le> ?w" "?w \<le> 0x1FF" using a that by (auto intro: order_trans)
    then have "?w AND 0x03C0 = 0x1C0"
    proof -
      assume b: "0x1C0 \<le> ?w" "?w \<le> 0x1FF"
      define v where "v = ?w - 0x1C0"
      have v: "v \<le> 0x3F" "?w = 0x1C0 + v" using b
        by (simp_all add: v_def word_le_nat_alt unat_sub)
      have "v AND 0x3F = v" using v(1) less_mask_eq [of v 6]
        by (simp add: mask_eq_exp_minus_1 word_le_nat_alt word_less_nat_alt)
      moreover have "0x1C0 + (v AND 0x3F) = 0x1C0 OR (v AND 0x3F)"
        by (rule disjunctive_add_eq_or) (rule word16_eqI; simp add: bit_simps)
      ultimately have "?w = 0x1C0 OR (v AND 0x3F)" using v(2) by simp
      then show ?thesis by (simp only:) (rule word16_eqI; simp add: bit_simps)
    qed
    with grp s(3) show False by simp
  qed
  have "\<not> isFunctionProperty ?r"
    using no [of S_FunctionPropertyCommand] no [of S_FunctionPropertyStateRead]
      no [of S_FunctionPropertyStateResponse] s(4)
    by (simp add: isFunctionProperty_def Let_def apci_codes)
  moreover have "\<not> isMemoryExtended ?r" "\<not> isPropertyExtended ?r" "\<not> isSystemNetworkParameter ?r"
    unfolding isMemoryExtended_def isPropertyExtended_def isSystemNetworkParameter_def Let_def
    by (rule rng; simp add: apci_codes)+
  ultimately show "apci_service_of ?r = s"
    using s(5) g by (simp add: apci_service_of_def)
qed

end
