(* ===== verification/Memory_Service.thy ===== *)
theory Memory_Service
  imports Interfaces Apci
begin

text \<open>
  Device memory: the address space of \<open>src/application/address_space.cpp\<close>, the memory services of
  \<open>src/application/memory_service.cpp\<close> and the storage router that
  \<open>ApplicationLayer::registerMemoryRegion\<close> installs behind them. The registered regions are the
  first \<open>_regionCount\<close> entries of the code's array (their debug names are left out). A handler's read
  and write callbacks are the fields of \<open>'m mem_callbacks\<close> over the storage \<open>'m\<close>; what it passes to
  the response callback is its second result. The spans bound to different segments are taken to be
  disjoint, as the callers pass them. The lemmas show that the device memory a client sees through the
  services is a byte-addressed map: a write changes exactly the octets it names, and a read returns
  the octets of that map.
\<close>

section \<open>Address space (address\_space.hpp, address\_space.cpp)\<close>

datatype memory_access_mode = MaReadOnly | MaWriteOnly | MaReadWrite | MaNoAccess

record memory_region =
  mr_startAddress :: u16
  mr_size :: u32
  mr_accessMode :: memory_access_mode

definition mr_contains :: "memory_region \<Rightarrow> u16 \<Rightarrow> bool" where
  "mr_contains r address =
     (let start = ucast (mr_startAddress r) :: u32; addr = ucast address :: u32 in
      start \<le> addr \<and> addr < start + mr_size r)"

definition mr_containsRange :: "memory_region \<Rightarrow> u16 \<Rightarrow> u8 \<Rightarrow> bool" where
  "mr_containsRange r address len =
     (if len = 0 then False
      else let addr = ucast address :: u32; endAddress = addr + ucast len - 1;
               regionStart = ucast (mr_startAddress r) :: u32; regionEnd = regionStart + mr_size r - 1 in
           mr_contains r address \<and> regionStart \<le> endAddress \<and> endAddress \<le> regionEnd)"

definition mr_overlaps :: "memory_region \<Rightarrow> memory_region \<Rightarrow> bool" where
  "mr_overlaps r other =
     (let start = ucast (mr_startAddress r) :: u32; fin = start + mr_size r - 1;
          otherStart = ucast (mr_startAddress other) :: u32; otherEnd = otherStart + mr_size other - 1 in
      start \<le> otherEnd \<and> otherStart \<le> fin)"

definition MAX_REGIONS :: nat where "MAX_REGIONS = 16"

type_synonym address_space = "memory_region list"

definition addRegion :: "memory_region \<Rightarrow> address_space \<Rightarrow> address_space \<times> unit result" where
  "addRegion region rs =
     (if length rs \<ge> MAX_REGIONS then (rs, Inl ResourceUnavailable)
      else if mr_size region = 0 then (rs, Inl InvalidParameter)
      else if \<exists>r \<in> set rs. mr_overlaps r region then (rs, Inl OperationFailed)
      else (rs @ [region], Inr ()))"

definition clearRegions :: "address_space \<Rightarrow> address_space" where "clearRegions rs = []"

definition findRegion :: "address_space \<Rightarrow> u16 \<Rightarrow> memory_region option" where
  "findRegion rs address = find (\<lambda>r. mr_contains r address) rs"

definition getRegion :: "address_space \<Rightarrow> nat \<Rightarrow> memory_region option" where
  "getRegion rs i = (if i \<ge> length rs then None else Some (rs ! i))"

definition canRead :: "address_space \<Rightarrow> u16 \<Rightarrow> u8 \<Rightarrow> unit result" where
  "canRead rs address len =
     (if len = 0 then Inl InvalidParameter
      else case findRegion rs address of
        None \<Rightarrow> Inl InvalidAddress
      | Some r \<Rightarrow>
          if \<not> mr_containsRange r address len then Inl InvalidAddress
          else if mr_accessMode r = MaReadOnly \<or> mr_accessMode r = MaReadWrite then Inr ()
          else Inl OperationNotSupported)"

definition canWrite :: "address_space \<Rightarrow> u16 \<Rightarrow> u8 \<Rightarrow> unit result" where
  "canWrite rs address len =
     (if len = 0 then Inl InvalidParameter
      else case findRegion rs address of
        None \<Rightarrow> Inl InvalidAddress
      | Some r \<Rightarrow>
          if \<not> mr_containsRange r address len then Inl InvalidAddress
          else if mr_accessMode r = MaWriteOnly \<or> mr_accessMode r = MaReadWrite then Inr ()
          else Inl OperationNotSupported)"

definition getAccessMode :: "address_space \<Rightarrow> u16 \<Rightarrow> u8 \<Rightarrow> memory_access_mode" where
  "getAccessMode rs address len =
     (if len = 0 then MaNoAccess
      else case findRegion rs address of
        None \<Rightarrow> MaNoAccess
      | Some r \<Rightarrow> if \<not> mr_containsRange r address len then MaNoAccess else mr_accessMode r)"

section \<open>Memory services (memory\_service.cpp)\<close>

datatype memory_access_result = MrSuccess | MrInvalidAddress | MrAccessDenied | MrInvalidLength | MrRegionNotFound

definition MAX_MEMORY_BYTES :: nat where "MAX_MEMORY_BYTES = 63"

text \<open>\<open>kMaxExtendedMemoryBytes\<close>: the smaller of \<open>MAX_APDU_LENGTH - 6\<close>, which is 248, and 250.\<close>

definition kMaxExtendedMemoryBytes :: nat where "kMaxExtendedMemoryBytes = min (254 - 6) 250"

record 'm mem_callbacks =
  mc_read :: "('m \<Rightarrow> u16 \<Rightarrow> u8 \<Rightarrow> bytes \<Rightarrow> bytes result) option"
  mc_write :: "('m \<Rightarrow> u16 \<Rightarrow> bytes \<Rightarrow> 'm \<times> unit result) option"

record memory_response =
  mp_count :: u8
  mp_address :: u16
  mp_data :: bytes

datatype memory_ext_kind = MxRead | MxWrite

record memory_ext_response =
  mx_kind :: memory_ext_kind
  mx_returnCode :: knx_return_code
  mx_address :: u32
  mx_data :: bytes

text \<open>\<open>toErrorCode\<close> maps the result of a refused access; \<open>Success\<close> is never passed to it.\<close>

fun mem_toErrorCode :: "memory_access_result \<Rightarrow> error_code" where
  "mem_toErrorCode MrInvalidAddress = InvalidAddress"
| "mem_toErrorCode MrRegionNotFound = InvalidAddress"
| "mem_toErrorCode MrInvalidLength = InvalidParameter"
| "mem_toErrorCode MrAccessDenied = OperationNotSupported"
| "mem_toErrorCode MrSuccess = OperationFailed"

definition mem_validateAccess :: "address_space \<Rightarrow> u16 \<Rightarrow> u8 \<Rightarrow> access_type \<Rightarrow> nat \<Rightarrow> memory_access_result" where
  "mem_validateAccess rs address len accessType maxLength =
     (if len = 0 \<or> unat len > maxLength then MrInvalidLength
      else if findRegion rs address = None then MrRegionNotFound
      else case (if accessType = AtWrite then canWrite rs address len else canRead rs address len) of
        Inl _ \<Rightarrow> MrAccessDenied
      | Inr _ \<Rightarrow> MrSuccess)"

type_synonym 'r answer = "(individual_address \<times> 'r) list"

definition mem_handleReadRequest ::
    "address_space \<Rightarrow> 'm mem_callbacks \<Rightarrow> 'm \<Rightarrow> individual_address \<Rightarrow> u8 \<Rightarrow> u16 \<Rightarrow>
      memory_response answer \<times> unit result" where
  "mem_handleReadRequest rs C m source count address =
     (let access = mem_validateAccess rs address count AtRead MAX_MEMORY_BYTES in
      if access \<noteq> MrSuccess then ([], Inl (mem_toErrorCode access))
      else case mc_read C of
        None \<Rightarrow> ([], Inl OperationNotReady)
      | Some rd \<Rightarrow>
          (case rd m address count (replicate (unat count) 0) of
             Inl e \<Rightarrow> ([], Inl e)
           | Inr data \<Rightarrow> ([(source, \<lparr>mp_count = count, mp_address = address, mp_data = data\<rparr>)], Inr ())))"

definition mem_handleWriteRequest ::
    "address_space \<Rightarrow> 'm mem_callbacks \<Rightarrow> 'm \<Rightarrow> individual_address \<Rightarrow> u8 \<Rightarrow> u16 \<Rightarrow> bytes \<Rightarrow>
      'm \<times> memory_response answer \<times> unit result" where
  "mem_handleWriteRequest rs C m source count address data =
     (let access = mem_validateAccess rs address count AtWrite MAX_MEMORY_BYTES in
      if access \<noteq> MrSuccess then (m, [], Inl (mem_toErrorCode access))
      else if length data \<noteq> unat count then (m, [], Inl InvalidParameter)
      else case mc_write C of
        None \<Rightarrow> (m, [], Inl OperationNotReady)
      | Some wr \<Rightarrow>
          (case wr m address data of
             (m1, Inl e) \<Rightarrow> (m1, [], Inl e)
           | (m1, Inr _) \<Rightarrow>
               (case (case mc_read C of
                        Some rd \<Rightarrow> rd m1 address count (replicate (unat count) 0)
                      | None \<Rightarrow> Inr data) of
                  Inl e \<Rightarrow> (m1, [], Inl e)
                | Inr back \<Rightarrow>
                    (m1, [(source, \<lparr>mp_count = count, mp_address = address, mp_data = back\<rparr>)], Inr ()))))"

text \<open>The extended services address 24 bits; \<open>narrow\<close> keeps the low sixteen.\<close>

definition ema_create :: "u32 \<Rightarrow> u32" where "ema_create v = v AND 0x00FFFFFF"
definition ema_fits :: "u32 \<Rightarrow> bool" where "ema_fits a \<longleftrightarrow> a \<le> 0xFFFF"
definition ema_narrow :: "u32 \<Rightarrow> u16" where "ema_narrow a = ucast a"

definition checkExtendedAccess :: "address_space \<Rightarrow> u32 \<Rightarrow> u8 \<Rightarrow> access_type \<Rightarrow> knx_return_code" where
  "checkExtendedAccess rs address count accessType =
     (if count = 0 \<or> unat count > kMaxExtendedMemoryBytes then RcExceedsMaxApduLength
      else if \<not> ema_fits address then RcAddressVoid
      else if address + ucast count > 0x10000 then RcAddressVoid
      else case mem_validateAccess rs (ema_narrow address) count accessType kMaxExtendedMemoryBytes of
        MrSuccess \<Rightarrow> RcSuccess
      | MrAccessDenied \<Rightarrow>
          (let mode = getAccessMode rs (ema_narrow address) count in
           if accessType = AtRead \<and> mode = MaWriteOnly then RcAccessWriteOnly
           else if accessType = AtWrite \<and> mode = MaReadOnly then RcAccessReadOnly
           else RcAccessDenied)
      | MrInvalidLength \<Rightarrow> RcExceedsMaxApduLength
      | MrInvalidAddress \<Rightarrow> RcAddressVoid
      | MrRegionNotFound \<Rightarrow> RcAddressVoid)"

definition handleExtendedReadRequest ::
    "address_space \<Rightarrow> 'm mem_callbacks \<Rightarrow> 'm \<Rightarrow> individual_address \<Rightarrow> u8 \<Rightarrow> u32 \<Rightarrow>
      memory_ext_response answer \<times> unit result" where
  "handleExtendedReadRequest rs C m source count address =
     (let rc = checkExtendedAccess rs address count AtRead;
          resp = (\<lambda>rc data. [(source, \<lparr>mx_kind = MxRead, mx_returnCode = rc, mx_address = address, mx_data = data\<rparr>)]) in
      if rc \<noteq> RcSuccess then (resp rc [], Inl InvalidAddress)
      else case mc_read C of
        None \<Rightarrow> (resp RcGenericError [], Inl OperationNotReady)
      | Some rd \<Rightarrow>
          (case rd m (ema_narrow address) count (replicate (unat count) 0) of
             Inl e \<Rightarrow> (resp RcMemoryError [], Inl e)
           | Inr data \<Rightarrow> (resp RcSuccess data, Inr ())))"

definition handleExtendedWriteRequest ::
    "address_space \<Rightarrow> 'm mem_callbacks \<Rightarrow> 'm \<Rightarrow> individual_address \<Rightarrow> u8 \<Rightarrow> u32 \<Rightarrow> bytes \<Rightarrow>
      'm \<times> memory_ext_response answer \<times> unit result" where
  "handleExtendedWriteRequest rs C m source count address data =
     (let rc0 = checkExtendedAccess rs address count AtWrite;
          rc = (if rc0 = RcSuccess \<and> length data < unat count then RcExceedsMaxApduLength else rc0);
          resp = (\<lambda>rc. [(source, \<lparr>mx_kind = MxWrite, mx_returnCode = rc, mx_address = address, mx_data = []\<rparr>)]) in
      if rc \<noteq> RcSuccess then (m, resp rc, Inl InvalidAddress)
      else case mc_write C of
        None \<Rightarrow> (m, resp RcGenericError, Inl OperationNotReady)
      | Some wr \<Rightarrow>
          (case wr m (ema_narrow address) (take (unat count) data) of
             (m1, Inl e) \<Rightarrow> (m1, resp RcMemoryError, Inl e)
           | (m1, Inr _) \<Rightarrow> (m1, resp RcSuccess, Inr ())))"

subsection \<open>Codecs\<close>

definition mem_encodeReadRequest :: "u8 \<Rightarrow> u16 \<Rightarrow> bytes result" where
  "mem_encodeReadRequest count address =
     (if count = 0 \<or> unat count > MAX_MEMORY_BYTES then Inl InvalidParameter
      else buildTpdu data_tpci (apci_create S_MemoryRead count) [getHighByte address, getLowByte address] 4)"

definition mem_encodeWriteRequest :: "u8 \<Rightarrow> u16 \<Rightarrow> bytes \<Rightarrow> nat \<Rightarrow> bytes result" where
  "mem_encodeWriteRequest count address data outSize =
     (if count = 0 \<or> unat count > MAX_MEMORY_BYTES then Inl InvalidParameter
      else if length data \<noteq> unat count then Inl InvalidParameter
      else if outSize < 4 + length data then Inl BufferTooSmall
      else buildTpdu data_tpci (apci_create S_MemoryWrite count)
             ([getHighByte address, getLowByte address] @ data) outSize)"

definition mem_encodeResponse :: "u8 \<Rightarrow> u16 \<Rightarrow> bytes \<Rightarrow> nat \<Rightarrow> bytes result" where
  "mem_encodeResponse count address data outSize =
     (if count = 0 \<or> unat count > MAX_MEMORY_BYTES then Inl InvalidParameter
      else if length data \<noteq> unat count \<and> data \<noteq> [] then Inl InvalidParameter
      else if outSize < 4 + length data then Inl BufferTooSmall
      else buildTpdu data_tpci (apci_create S_MemoryResponse count)
             ([getHighByte address, getLowByte address] @ data) outSize)"

definition mem_decodeRequest :: "bytes \<Rightarrow> (u8 \<times> u16) result" where
  "mem_decodeRequest data =
     (if length data < 4 then Inl DecodeFailed
      else let apci = h_apci (unpackTpduHeader (data ! 0) (data ! 1)); svc = apci_service_of apci;
               count = apci_data6 apci in
           if svc \<noteq> S_MemoryRead \<and> svc \<noteq> S_MemoryWrite \<and> svc \<noteq> S_MemoryResponse then Inl DecodeFailed
           else if count = 0 \<or> unat count > MAX_MEMORY_BYTES then Inl InvalidParameter
           else Inr (count, word_be (data ! 2) (data ! 3)))"

definition mem_decodeWriteRequest :: "bytes \<Rightarrow> nat \<Rightarrow> (u8 \<times> u16 \<times> bytes) result" where
  "mem_decodeWriteRequest data outSize =
     (case mem_decodeRequest data of
        Inl e \<Rightarrow> Inl e
      | Inr (count, address) \<Rightarrow>
          if length data < 4 + unat count then Inl DecodeFailed
          else if outSize < unat count then Inl BufferTooSmall
          else Inr (count, address, take (unat count) (drop 4 data)))"

section \<open>The storage router (registerMemoryRegion)\<close>

record memory_segment =
  ms_region :: memory_region
  ms_storage :: bytes
  ms_written :: bool

definition kMaxMemorySegments :: nat where "kMaxMemorySegments = 8"

definition segment_offset :: "memory_segment \<Rightarrow> u16 \<Rightarrow> nat" where
  "segment_offset s address = unat (ucast address - ucast (mr_startAddress (ms_region s)) :: u32)"

fun segments_read :: "memory_segment list \<Rightarrow> u16 \<Rightarrow> u8 \<Rightarrow> bytes \<Rightarrow> bytes result" where
  "segments_read [] address len out = Inl InvalidAddress"
| "segments_read (s # ss) address len out =
     (if mr_containsRange (ms_region s) address len
      then Inr (take (unat len) (drop (segment_offset s address) (ms_storage s)) @ drop (unat len) out)
      else segments_read ss address len out)"

definition segment_store :: "memory_segment \<Rightarrow> u16 \<Rightarrow> bytes \<Rightarrow> memory_segment" where
  "segment_store s address data =
     (let o1 = segment_offset s address in
      s\<lparr>ms_storage := take o1 (ms_storage s) @ data @ drop (o1 + length data) (ms_storage s), ms_written := True\<rparr>)"

fun segments_write :: "memory_segment list \<Rightarrow> u16 \<Rightarrow> bytes \<Rightarrow> memory_segment list \<times> unit result" where
  "segments_write [] address data = ([], Inl InvalidAddress)"
| "segments_write (s # ss) address data =
     (if mr_containsRange (ms_region s) address (of_nat (length data))
      then (segment_store s address data # ss, Inr ())
      else case segments_write ss address data of (ss1, r) \<Rightarrow> (s # ss1, r))"

definition segment_callbacks :: "memory_segment list mem_callbacks" where
  "segment_callbacks = \<lparr>mc_read = Some segments_read, mc_write = Some segments_write\<rparr>"

definition no_callbacks :: "memory_segment list mem_callbacks" where
  "no_callbacks = \<lparr>mc_read = None, mc_write = None\<rparr>"

text \<open>The memory of the application layer: the address space, the bound segments and the callbacks
  of the memory service, which the first registration that succeeds installs.\<close>

record device_memory =
  dm_space :: address_space
  dm_segments :: "memory_segment list"
  dm_callbacks :: "memory_segment list mem_callbacks"

definition device_memory_init :: device_memory where
  "device_memory_init = \<lparr>dm_space = [], dm_segments = [], dm_callbacks = no_callbacks\<rparr>"

definition registerMemoryRegion :: "memory_region \<Rightarrow> bytes \<Rightarrow> device_memory \<Rightarrow> device_memory \<times> unit result" where
  "registerMemoryRegion region storage d =
     (if length storage < unat (mr_size region) then (d, Inl InvalidParameter)
      else case addRegion region (dm_space d) of
        (rs, Inl e) \<Rightarrow> (d\<lparr>dm_space := rs\<rparr>, Inl e)
      | (rs, Inr _) \<Rightarrow>
          (let d1 = d\<lparr>dm_space := rs\<rparr>;
               (ss, ok) = fv_push_back kMaxMemorySegments (dm_segments d)
                            \<lparr>ms_region = region, ms_storage = storage, ms_written = False\<rparr> in
           if \<not> ok then (d1, Inl ResourceUnavailable)
           else (d1\<lparr>dm_segments := ss, dm_callbacks := segment_callbacks\<rparr>, Inr ())))"

definition memoryRegionWritten :: "device_memory \<Rightarrow> u16 \<Rightarrow> bool" where
  "memoryRegionWritten d regionStart =
     (case find (\<lambda>s. mr_startAddress (ms_region s) = regionStart) (dm_segments d) of
        Some s \<Rightarrow> ms_written s
      | None \<Rightarrow> False)"

text \<open>The four services on the device's own memory, as the application layer calls them.\<close>

definition dm_read :: "device_memory \<Rightarrow> individual_address \<Rightarrow> u8 \<Rightarrow> u16 \<Rightarrow> memory_response answer \<times> unit result" where
  "dm_read d = mem_handleReadRequest (dm_space d) (dm_callbacks d) (dm_segments d)"

definition dm_write ::
    "device_memory \<Rightarrow> individual_address \<Rightarrow> u8 \<Rightarrow> u16 \<Rightarrow> bytes \<Rightarrow>
      device_memory \<times> memory_response answer \<times> unit result" where
  "dm_write d source count address data =
     (case mem_handleWriteRequest (dm_space d) (dm_callbacks d) (dm_segments d) source count address data of
        (ss, out) \<Rightarrow> (d\<lparr>dm_segments := ss\<rparr>, out))"

definition dm_extRead :: "device_memory \<Rightarrow> individual_address \<Rightarrow> u8 \<Rightarrow> u32 \<Rightarrow> memory_ext_response answer \<times> unit result" where
  "dm_extRead d = handleExtendedReadRequest (dm_space d) (dm_callbacks d) (dm_segments d)"

definition dm_extWrite ::
    "device_memory \<Rightarrow> individual_address \<Rightarrow> u8 \<Rightarrow> u32 \<Rightarrow> bytes \<Rightarrow>
      device_memory \<times> memory_ext_response answer \<times> unit result" where
  "dm_extWrite d source count address data =
     (case handleExtendedWriteRequest (dm_space d) (dm_callbacks d) (dm_segments d) source count address data of
        (ss, out) \<Rightarrow> (d\<lparr>dm_segments := ss\<rparr>, out))"

section \<open>Regions as address ranges\<close>

text \<open>A region whose end does not wrap around the 32-bit arithmetic of the code.\<close>

definition region_ok :: "memory_region \<Rightarrow> bool" where
  "region_ok r \<longleftrightarrow> mr_size r \<noteq> 0 \<and> unat (mr_startAddress r) + unat (mr_size r) < 2 ^ 32"

abbreviation mr_lo :: "memory_region \<Rightarrow> nat" where "mr_lo r \<equiv> unat (mr_startAddress r)"
abbreviation mr_hi :: "memory_region \<Rightarrow> nat" where "mr_hi r \<equiv> unat (mr_startAddress r) + unat (mr_size r)"

definition apart :: "memory_region \<Rightarrow> memory_region \<Rightarrow> bool" where
  "apart r r' \<longleftrightarrow> mr_hi r \<le> mr_lo r' \<or> mr_hi r' \<le> mr_lo r"

lemma unat_ucast_16_32 [simp]: "unat (ucast (a :: u16) :: u32) = unat a"
  using unat_u16_lt [of a] by (simp add: unsigned_ucast_eq take_bit_nat_eq_self_iff del: unat_u16_lt)

lemma unat_ucast_8_32 [simp]: "unat (ucast (a :: u8) :: u32) = unat a"
  using unat_u8_lt [of a] by (simp add: unsigned_ucast_eq take_bit_nat_eq_self_iff del: unat_u8_lt)

lemma region_end:
  assumes "region_ok r"
  shows "unat (ucast (mr_startAddress r) + mr_size r) = mr_hi r"
    and "unat (ucast (mr_startAddress r) + mr_size r - 1) = mr_hi r - 1"
proof -
  show a: "unat (ucast (mr_startAddress r) + mr_size r) = mr_hi r"
    using assms unat_add_lem [of "ucast (mr_startAddress r) :: u32" "mr_size r"]
    by (simp add: region_ok_def)
  have "unat (mr_size r) \<noteq> 0" using assms by (simp add: region_ok_def unat_eq_zero)
  then have "(1 :: u32) \<le> ucast (mr_startAddress r) + mr_size r"
    using a by (simp add: word_le_nat_alt)
  then show "unat (ucast (mr_startAddress r) + mr_size r - 1) = mr_hi r - 1"
    using a by (simp add: unat_sub)
qed

lemma mr_contains_iff: "region_ok r \<Longrightarrow> mr_contains r a \<longleftrightarrow> mr_lo r \<le> unat a \<and> unat a < mr_hi r"
  by (simp add: mr_contains_def word_le_nat_alt word_less_nat_alt region_end)

lemma unat_range_end: "n \<noteq> 0 \<Longrightarrow> unat (ucast (a :: u16) + ucast (n :: u8) - 1 :: u32) = unat a + unat n - 1"
proof -
  assume n: "n \<noteq> 0"
  have s: "unat (ucast a + ucast n :: u32) = unat a + unat n"
    using unat_add_lem [of "ucast a :: u32" "ucast n"] unat_u16_lt [of a] unat_u8_lt [of n] by simp
  have "unat n \<noteq> 0" using n by (simp add: unat_eq_zero)
  then have "(1 :: u32) \<le> ucast a + ucast n" using s by (simp add: word_le_nat_alt)
  then show ?thesis using s by (simp add: unat_sub)
qed

lemma mr_containsRange_iff:
  assumes "region_ok r"
  shows "mr_containsRange r a n \<longleftrightarrow> n \<noteq> 0 \<and> mr_lo r \<le> unat a \<and> unat a + unat n \<le> mr_hi r"
proof (cases "n = 0")
  case False
  then have "unat n > 0" by (simp add: unat_gt_0)
  with False show ?thesis
    by (auto simp: mr_containsRange_def Let_def mr_contains_iff [OF assms] word_le_nat_alt
        region_end [OF assms] unat_range_end)
qed (simp add: mr_containsRange_def)

lemma mr_overlaps_iff: "region_ok r \<Longrightarrow> region_ok r' \<Longrightarrow> mr_overlaps r r' \<longleftrightarrow> \<not> apart r r'"
proof -
  assume ok: "region_ok r" "region_ok r'"
  then have "unat (mr_size r) > 0" "unat (mr_size r') > 0" by (simp_all add: region_ok_def unat_gt_0)
  then show ?thesis
    by (auto simp: mr_overlaps_def Let_def apart_def word_le_nat_alt region_end [OF ok(1)] region_end [OF ok(2)])
qed

definition regions_ok :: "memory_region list \<Rightarrow> bool" where
  "regions_ok rs \<longleftrightarrow> (\<forall>r \<in> set rs. region_ok r) \<and> sorted_wrt apart rs"

lemma addRegion_ok:
  assumes "addRegion region rs = (rs1, r)" and "regions_ok rs" and "region_ok region"
  shows "regions_ok rs1" and "rs1 = (if r = Inr () then rs @ [region] else rs)"
  using assms by (auto simp: addRegion_def regions_ok_def sorted_wrt_append mr_overlaps_iff split: if_splits)

section \<open>Memory as a byte map\<close>

definition overlay :: "nat \<Rightarrow> 'b list \<Rightarrow> (nat \<Rightarrow> 'b option) \<Rightarrow> nat \<Rightarrow> 'b option" where
  "overlay a bs f = (\<lambda>x. if a \<le> x \<and> x < a + length bs then Some (bs ! (x - a)) else f x)"

text \<open>The contract of the callbacks that the memory service relies on: a read returns the bytes of
  the map, a successful write replaces exactly the bytes it names and can be read back, a failed one
  changes nothing.\<close>

locale memory_backend =
  fixes rd :: "'m \<Rightarrow> u16 \<Rightarrow> u8 \<Rightarrow> bytes \<Rightarrow> bytes result"
    and wr :: "'m \<Rightarrow> u16 \<Rightarrow> bytes \<Rightarrow> 'm \<times> unit result"
    and peek :: "'m \<Rightarrow> nat \<Rightarrow> u8 option"
    and invar :: "'m \<Rightarrow> bool"
  assumes rd_bytes: "invar m \<Longrightarrow> rd m a n buf = Inr bs \<Longrightarrow> length buf = unat n \<Longrightarrow>
      length bs = unat n \<and> (\<forall>i < unat n. peek m (unat a + i) = Some (bs ! i))"
    and wr_bytes: "invar m \<Longrightarrow> length data < 256 \<Longrightarrow> wr m a data = (m1, Inr ()) \<Longrightarrow>
      invar m1 \<and> peek m1 = overlay (unat a) data (peek m)"
    and wr_fails: "wr m a data = (m1, Inl e) \<Longrightarrow> m1 = m"
    and wr_rd: "invar m \<Longrightarrow> length data < 256 \<Longrightarrow> wr m a data = (m1, Inr ()) \<Longrightarrow>
      \<exists>bs. rd m1 a (of_nat (length data)) buf = Inr bs"
begin

lemma backend_read_back:
  assumes "invar m" and "length data = unat n" and "wr m a data = (m1, Inr ())"
  shows "rd m1 a n (replicate (unat n) 0) = Inr data"
proof -
  have l: "length data < 256" using assms(2) unat_u8_lt [of n] by simp
  have n: "of_nat (length data) = n" using assms(2) by simp
  obtain bs where bs: "rd m1 a n (replicate (unat n) 0) = Inr bs"
    using wr_rd [OF assms(1) l assms(3)] n by metis
  from wr_bytes [OF assms(1) l assms(3)]
  have i: "invar m1" and p: "peek m1 = overlay (unat a) data (peek m)" by simp_all
  have "length bs = unat n \<and> (\<forall>i < unat n. peek m1 (unat a + i) = Some (bs ! i))"
    by (rule rd_bytes [OF i bs]) simp
  then have "bs = data" by (intro nth_equalityI) (auto simp: p overlay_def assms(2))
  then show ?thesis using bs by simp
qed

abbreviation callbacks :: "'m mem_callbacks" where
  "callbacks \<equiv> \<lparr>mc_read = Some rd, mc_write = Some wr\<rparr>"

lemma write_request:
  assumes "invar m" and "mem_handleWriteRequest rs callbacks m src n a data = (m1, out, r)"
  shows "(r = Inr () \<and> length data = unat n \<and> invar m1 \<and> peek m1 = overlay (unat a) data (peek m) \<and>
           out = [(src, \<lparr>mp_count = n, mp_address = a, mp_data = data\<rparr>)]) \<or>
         (\<exists>e. r = Inl e \<and> m1 = m \<and> out = [])"
proof (cases "mem_validateAccess rs a n AtWrite MAX_MEMORY_BYTES = MrSuccess \<and> length data = unat n")
  case True
  then have l: "length data < 256" using unat_u8_lt [of n] by simp
  show ?thesis
  proof (cases "wr m a data")
    case (Pair m2 w)
    show ?thesis
    proof (cases w)
      case (Inl e)
      with Pair wr_fails have "m2 = m" by blast
      with assms(2) True Pair Inl show ?thesis by (auto simp: mem_handleWriteRequest_def)
    next
      case (Inr u)
      with Pair have w: "wr m a data = (m2, Inr ())" by simp
      have "rd m2 a n (replicate (unat n) 0) = Inr data"
        by (rule backend_read_back [OF assms(1) _ w]) (simp add: True)
      with assms(2) True w wr_bytes [OF assms(1) l w] show ?thesis
        by (simp add: mem_handleWriteRequest_def)
    qed
  qed
next
  case False
  with assms(2) show ?thesis by (auto simp: mem_handleWriteRequest_def Let_def split: if_splits)
qed

lemma read_request:
  assumes "invar m" and "mem_handleReadRequest rs callbacks m src n a = (out, r)"
  shows "(r = Inr () \<and> (\<exists>bs. out = [(src, \<lparr>mp_count = n, mp_address = a, mp_data = bs\<rparr>)] \<and>
           length bs = unat n \<and> (\<forall>i < unat n. peek m (unat a + i) = Some (bs ! i)))) \<or>
         (\<exists>e. r = Inl e \<and> out = [])"
  using assms rd_bytes [OF assms(1), of a n "replicate (unat n) 0"]
  by (auto simp: mem_handleReadRequest_def Let_def split: if_splits sum.splits)

lemma ext_write_request:
  assumes "invar m" and "handleExtendedWriteRequest rs callbacks m src n a data = (m1, out, r)"
  shows "\<exists>rc. out = [(src, \<lparr>mx_kind = MxWrite, mx_returnCode = rc, mx_address = a, mx_data = []\<rparr>)] \<and>
           (if rc = RcSuccess
            then r = Inr () \<and> unat n \<le> length data \<and> invar m1 \<and>
                 peek m1 = overlay (unat (ema_narrow a)) (take (unat n) data) (peek m)
            else (\<exists>e. r = Inl e) \<and> m1 = m)"
proof (cases "checkExtendedAccess rs a n AtWrite = RcSuccess \<and> unat n \<le> length data")
  case True
  let ?d = "take (unat n) data"
  have l: "length ?d < 256" using unat_u8_lt [of n] by (auto simp: min_def simp del: unat_u8_lt)
  obtain m2 w where w: "wr m (ema_narrow a) ?d = (m2, w)" by fastforce
  show ?thesis
  proof (cases w)
    case (Inl e)
    with w wr_fails have "m2 = m" by blast
    with assms(2) True w Inl show ?thesis by (auto simp: handleExtendedWriteRequest_def Let_def)
  next
    case (Inr u)
    with w have "wr m (ema_narrow a) ?d = (m2, Inr ())" by simp
    with assms(2) True wr_bytes [OF assms(1) l this] show ?thesis
      by (auto simp: handleExtendedWriteRequest_def Let_def)
  qed
next
  case False
  with assms(2) show ?thesis
    by (auto simp: handleExtendedWriteRequest_def Let_def split: if_splits)
qed

lemma ext_read_request:
  assumes "invar m" and "handleExtendedReadRequest rs callbacks m src n a = (out, r)"
  shows "\<exists>rc bs. out = [(src, \<lparr>mx_kind = MxRead, mx_returnCode = rc, mx_address = a, mx_data = bs\<rparr>)] \<and>
           (if rc = RcSuccess
            then r = Inr () \<and> length bs = unat n \<and> (\<forall>i < unat n. peek m (unat (ema_narrow a) + i) = Some (bs ! i))
            else (\<exists>e. r = Inl e) \<and> bs = [])"
  using assms rd_bytes [OF assms(1), of "ema_narrow a" n "replicate (unat n) 0"]
  by (auto simp: handleExtendedReadRequest_def Let_def split: if_splits sum.splits)

end

section \<open>The segments implement the map\<close>

definition segment_ok :: "memory_segment \<Rightarrow> bool" where
  "segment_ok s \<longleftrightarrow> region_ok (ms_region s) \<and> unat (mr_size (ms_region s)) \<le> length (ms_storage s)"

definition segments_ok :: "memory_segment list \<Rightarrow> bool" where
  "segments_ok ss \<longleftrightarrow> (\<forall>s \<in> set ss. segment_ok s) \<and> sorted_wrt apart (map ms_region ss)"

fun segments_peek :: "memory_segment list \<Rightarrow> nat \<Rightarrow> u8 option" where
  "segments_peek [] x = None"
| "segments_peek (s # ss) x =
     (if mr_lo (ms_region s) \<le> x \<and> x < mr_hi (ms_region s)
      then Some (ms_storage s ! (x - mr_lo (ms_region s))) else segments_peek ss x)"

lemma segments_ok_Cons [simp]:
  "segments_ok (s # ss) \<longleftrightarrow> segment_ok s \<and> (\<forall>t \<in> set ss. apart (ms_region s) (ms_region t)) \<and> segments_ok ss"
  by (auto simp: segments_ok_def)

lemma segment_offset_eq:
  assumes "segment_ok s" and "mr_containsRange (ms_region s) a n"
  shows "segment_offset s a = unat a - mr_lo (ms_region s)"
  using assms by (simp add: segment_offset_def segment_ok_def mr_containsRange_iff unat_sub word_le_nat_alt)

lemma segment_store_region [simp]: "ms_region (segment_store s a data) = ms_region s"
  by (simp add: segment_store_def Let_def)

lemma peek_outside:
  "segments_ok ss \<Longrightarrow> (\<forall>t \<in> set ss. apart r (ms_region t)) \<Longrightarrow> mr_lo r \<le> x \<Longrightarrow> x < mr_hi r \<Longrightarrow>
    segments_peek ss x = None"
  by (induction ss) (auto simp: apart_def)

lemma segments_read_bytes:
  assumes "segments_ok ss" and "segments_read ss a n buf = Inr bs" and "length buf = unat n"
  shows "length bs = unat n \<and> (\<forall>i < unat n. segments_peek ss (unat a + i) = Some (bs ! i))"
  using assms(1,2)
proof (induction ss)
  case (Cons s ss)
  show ?case
  proof (cases "mr_containsRange (ms_region s) a n")
    case True
    have ok: "segment_ok s" using Cons.prems by simp
    then have r: "region_ok (ms_region s)" by (simp add: segment_ok_def)
    note c = True [unfolded mr_containsRange_iff [OF r]]
    have o1: "segment_offset s a = unat a - mr_lo (ms_region s)" by (rule segment_offset_eq [OF ok True])
    have len: "segment_offset s a + unat n \<le> length (ms_storage s)"
      using c ok unfolding o1 segment_ok_def by linarith
    have bs: "bs = take (unat n) (drop (segment_offset s a) (ms_storage s))"
      using Cons.prems True assms(3) by simp
    have "segments_peek (s # ss) (unat a + i) = Some (bs ! i)" if "i < unat n" for i
    proof -
      have "unat a + i - mr_lo (ms_region s) = segment_offset s a + i" using c o1 by simp
      then show ?thesis using c len that by (simp add: bs)
    qed
    moreover have "length bs = unat n" using len by (simp add: bs)
    ultimately show ?thesis by blast
  next
    case False
    with Cons have ih: "length bs = unat n \<and> (\<forall>i < unat n. segments_peek ss (unat a + i) = Some (bs ! i))"
      by simp
    have "segments_peek (s # ss) (unat a + i) = segments_peek ss (unat a + i)" if "i < unat n" for i
      using ih that peek_outside [of ss "ms_region s" "unat a + i"] Cons.prems(1) by fastforce
    with ih show ?thesis by simp
  qed
qed simp

lemma segment_store_ok:
  assumes "segment_ok s" and "mr_containsRange (ms_region s) a (of_nat (length data))" and "length data < 256"
  shows "segment_ok (segment_store s a data)"
    and "mr_lo (ms_region s) \<le> x \<Longrightarrow> x < mr_hi (ms_region s) \<Longrightarrow>
      ms_storage (segment_store s a data) ! (x - mr_lo (ms_region s)) =
        (if unat a \<le> x \<and> x < unat a + length data then data ! (x - unat a)
         else ms_storage s ! (x - mr_lo (ms_region s)))"
proof -
  have r: "region_ok (ms_region s)" using assms(1) by (simp add: segment_ok_def)
  have n: "unat (of_nat (length data) :: u8) = length data" using assms(3) by (rule unat_of_nat_u8)
  have c: "mr_lo (ms_region s) \<le> unat a" "unat a + length data \<le> mr_hi (ms_region s)"
    using assms(2) mr_containsRange_iff [OF r] n by simp_all
  have o1: "segment_offset s a = unat a - mr_lo (ms_region s)" by (rule segment_offset_eq [OF assms(1,2)])
  let ?o = "segment_offset s a"
  have len: "?o + length data \<le> length (ms_storage s)" using c assms(1) unfolding o1 segment_ok_def by linarith
  have st: "ms_storage (segment_store s a data) = take ?o (ms_storage s) @ data @ drop (?o + length data) (ms_storage s)"
    by (simp add: segment_store_def Let_def)
  show "segment_ok (segment_store s a data)" using assms(1) len by (simp add: segment_ok_def st)
  assume x: "mr_lo (ms_region s) \<le> x" "x < mr_hi (ms_region s)"
  let ?i = "x - mr_lo (ms_region s)"
  have i: "unat a \<le> x \<longleftrightarrow> ?o \<le> ?i" "x < unat a + length data \<longleftrightarrow> ?i < ?o + length data"
    "unat a \<le> x \<Longrightarrow> x - unat a = ?i - ?o" using c x o1 by auto
  have il: "?i < length (ms_storage s)" using x assms(1) unfolding segment_ok_def by linarith
  show "ms_storage (segment_store s a data) ! ?i =
      (if unat a \<le> x \<and> x < unat a + length data then data ! (x - unat a) else ms_storage s ! ?i)"
  proof (cases "unat a \<le> x \<and> x < unat a + length data")
    case True
    then have "?o \<le> ?i" "?i - ?o < length data" using i by auto
    with True i(3) len show ?thesis by (simp add: st nth_append)
  next
    case False
    then consider "?i < ?o" | "?o + length data \<le> ?i" using i by auto
    then show ?thesis
    proof cases
      case 1
      with False len show ?thesis by (auto simp: st nth_append)
    next
      case 2
      have "(data @ drop (?o + length data) (ms_storage s)) ! (?i - ?o) =
          drop (?o + length data) (ms_storage s) ! (?i - ?o - length data)"
        using 2 by (subst nth_append_right) auto
      also have "\<dots> = ms_storage s ! (?o + length data + (?i - ?o - length data))" by (rule nth_drop [OF len])
      also have "?o + length data + (?i - ?o - length data) = ?i" using 2 by linarith
      finally show ?thesis using 2 False len by (auto simp: st nth_append_right)
    qed
  qed
qed

lemma segments_write_bytes:
  assumes "length data < 256"
  shows "segments_ok ss \<Longrightarrow> segments_write ss a data = (ss1, Inr ()) \<Longrightarrow>
    segments_ok ss1 \<and> map ms_region ss1 = map ms_region ss \<and>
    segments_peek ss1 = overlay (unat a) data (segments_peek ss) \<and>
    (\<exists>t \<in> set ss. \<forall>x. unat a \<le> x \<and> x < unat a + length data \<longrightarrow> mr_lo (ms_region t) \<le> x \<and> x < mr_hi (ms_region t))"
proof (induction ss arbitrary: ss1)
  case (Cons s ss)
  have ok: "segment_ok s" and oks: "segments_ok ss" using Cons.prems(1) by simp_all
  then have r: "region_ok (ms_region s)" by (simp add: segment_ok_def)
  have n: "unat (of_nat (length data) :: u8) = length data" using assms by (rule unat_of_nat_u8)
  show ?case
  proof (cases "mr_containsRange (ms_region s) a (of_nat (length data))")
    case True
    then have ss1: "ss1 = segment_store s a data # ss" using Cons.prems(2) by simp
    have c: "mr_lo (ms_region s) \<le> unat a" "unat a + length data \<le> mr_hi (ms_region s)"
      using True mr_containsRange_iff [OF r] n by simp_all
    have "segments_peek ss1 = overlay (unat a) data (segments_peek (s # ss))"
      using c segment_store_ok(2) [OF ok True assms]
      by (intro ext) (auto simp: ss1 overlay_def)
    moreover have "segments_ok ss1" using segment_store_ok(1) [OF ok True assms] Cons.prems(1) by (simp add: ss1)
    ultimately show ?thesis using c by (auto simp: ss1 simp del: segments_peek.simps)
  next
    case False
    obtain ss2 where w: "segments_write ss a data = (ss2, Inr ())" and ss1: "ss1 = s # ss2"
      using Cons.prems(2) False by (auto split: prod.splits)
    from Cons.IH [OF oks w] obtain t where ih: "segments_ok ss2" "map ms_region ss2 = map ms_region ss"
        "segments_peek ss2 = overlay (unat a) data (segments_peek ss)" and t: "t \<in> set ss"
        "\<And>x. unat a \<le> x \<Longrightarrow> x < unat a + length data \<Longrightarrow> mr_lo (ms_region t) \<le> x \<and> x < mr_hi (ms_region t)"
      by blast
    have ap: "apart (ms_region s) (ms_region t)" using Cons.prems(1) t(1) by simp
    have set: "ms_region ` set ss2 = ms_region ` set ss" using ih(2) by (metis set_map)
    then have "\<forall>u \<in> set ss2. apart (ms_region s) (ms_region u)"
      using Cons.prems(1) by (metis (no_types, lifting) image_iff segments_ok_Cons)
    moreover have "segments_peek ss1 = overlay (unat a) data (segments_peek (s # ss))"
    proof
      fix x
      show "segments_peek ss1 x = overlay (unat a) data (segments_peek (s # ss)) x"
      proof (cases "unat a \<le> x \<and> x < unat a + length data")
        case True
        then have "\<not> (mr_lo (ms_region s) \<le> x \<and> x < mr_hi (ms_region s))"
          using t(2) [of x] ap by (auto simp: apart_def)
        with True ih(3) show ?thesis by (auto simp: ss1 overlay_def)
      qed (use ih(3) in \<open>auto simp: ss1 overlay_def\<close>)
    qed
    moreover have "\<exists>t \<in> set (s # ss). \<forall>x. unat a \<le> x \<and> x < unat a + length data \<longrightarrow>
        mr_lo (ms_region t) \<le> x \<and> x < mr_hi (ms_region t)"
      using t by (intro bexI [of _ t]) simp_all
    ultimately show ?thesis using ih ok by (simp add: ss1 del: segments_peek.simps)
  qed
qed simp

lemma segments_write_fails: "segments_write ss a data = (ss1, Inl e) \<Longrightarrow> ss1 = ss"
  by (induction ss arbitrary: ss1) (auto split: if_splits prod.splits)

lemma segments_write_read:
  "segments_write ss a data = (ss1, Inr ()) \<Longrightarrow> \<exists>bs. segments_read ss1 a (of_nat (length data)) buf = Inr bs"
  by (induction ss arbitrary: ss1) (auto split: if_splits prod.splits)

interpretation sg: memory_backend segments_read segments_write segments_peek segments_ok
proof
  show "length bs = unat n \<and> (\<forall>i < unat n. segments_peek m (unat a + i) = Some (bs ! i))"
    if "segments_ok m" "segments_read m a n buf = Inr bs" "length buf = unat n" for m a n buf bs
    using that by (rule segments_read_bytes)
  show "segments_ok m1 \<and> segments_peek m1 = overlay (unat a) data (segments_peek m)"
    if "segments_ok m" "length data < 256" "segments_write m a data = (m1, Inr ())" for m data a m1
    using segments_write_bytes [OF that(2,1,3)] by simp
qed (auto dest: segments_write_fails segments_write_read)

section \<open>The device memory\<close>

text \<open>The map a client addresses, and the invariant of the memory: the bound segments are the first
  regions of the address space, in order, and only the ninth and later registrations leave a region
  without a segment.\<close>

definition dm_map :: "device_memory \<Rightarrow> nat \<Rightarrow> u8 option" where
  "dm_map d = segments_peek (dm_segments d)"

definition dm_ok :: "device_memory \<Rightarrow> bool" where
  "dm_ok d \<longleftrightarrow>
     regions_ok (dm_space d) \<and> segments_ok (dm_segments d) \<and>
     map ms_region (dm_segments d) = take (length (dm_segments d)) (dm_space d) \<and>
     length (dm_space d) \<le> MAX_REGIONS \<and> length (dm_segments d) \<le> kMaxMemorySegments \<and>
     (length (dm_segments d) < kMaxMemorySegments \<longrightarrow> length (dm_space d) = length (dm_segments d)) \<and>
     (dm_segments d \<noteq> [] \<longrightarrow> dm_callbacks d = segment_callbacks) \<and>
     (dm_segments d = [] \<longrightarrow> dm_callbacks d = no_callbacks)"

datatype memory_event =
    MeRegister memory_region bytes
  | MeWrite individual_address u8 u16 bytes
  | MeExtWrite individual_address u8 u32 bytes

fun dm_step :: "memory_event \<Rightarrow> device_memory \<Rightarrow> device_memory" where
  "dm_step (MeRegister r storage) d = fst (registerMemoryRegion r storage d)"
| "dm_step (MeWrite src n a data) d = fst (dm_write d src n a data)"
| "dm_step (MeExtWrite src n a data) d = fst (dm_extWrite d src n a data)"

fun event_ok :: "memory_event \<Rightarrow> bool" where
  "event_ok (MeRegister r storage) \<longleftrightarrow> region_ok r"
| "event_ok _ \<longleftrightarrow> True"

lemma dm_ok_init: "dm_ok device_memory_init"
  by (simp add: dm_ok_def device_memory_init_def regions_ok_def segments_ok_def MAX_REGIONS_def kMaxMemorySegments_def)

lemma registerMemoryRegion_ok:
  assumes "dm_ok d" and "region_ok region"
  shows "dm_ok (fst (registerMemoryRegion region storage d))"
proof (cases "length storage < unat (mr_size region)")
  case True
  with assms show ?thesis by (simp add: registerMemoryRegion_def)
next
  case False
  obtain rs r where a: "addRegion region (dm_space d) = (rs, r)" by fastforce
  have rs: "regions_ok rs" "rs = (if r = Inr () then dm_space d @ [region] else dm_space d)"
    using addRegion_ok [OF a] assms by (simp_all add: dm_ok_def)
  show ?thesis
  proof (cases r)
    case (Inl e)
    with False a rs assms(1) show ?thesis by (simp add: registerMemoryRegion_def)
  next
    case (Inr u)
    then have rs2: "rs = dm_space d @ [region]" using rs(2) by simp
    have room: "length (dm_space d) < MAX_REGIONS" using a Inr by (auto simp: addRegion_def split: if_splits)
    show ?thesis
    proof (cases "length (dm_segments d) < kMaxMemorySegments")
      case True
      let ?s = "\<lparr>ms_region = region, ms_storage = storage, ms_written = False\<rparr>"
      have ln: "length (dm_space d) = length (dm_segments d)" using assms(1) True by (simp add: dm_ok_def)
      then have m: "map ms_region (dm_segments d) = dm_space d" using assms(1) by (simp add: dm_ok_def)
      have "segments_ok (dm_segments d @ [?s])"
      proof -
        have "segments_ok (dm_segments d)" using assms(1) by (simp add: dm_ok_def)
        moreover have "sorted_wrt apart (map ms_region (dm_segments d @ [?s]))"
          using rs(1) by (simp add: m regions_ok_def rs2)
        moreover have "segment_ok ?s" using assms(2) False by (simp add: segment_ok_def)
        ultimately show ?thesis by (auto simp: segments_ok_def)
      qed
      with False a Inr True m room rs(1) ln show ?thesis
        by (simp add: registerMemoryRegion_def fv_push_back_def dm_ok_def rs2)
    next
      case full: False
      with assms(1) have "length (dm_segments d) = kMaxMemorySegments" "dm_segments d \<noteq> []"
        by (auto simp: dm_ok_def kMaxMemorySegments_def)
      moreover have "length (dm_segments d) \<le> length (dm_space d)"
      proof -
        have "length (map ms_region (dm_segments d)) = length (take (length (dm_segments d)) (dm_space d))"
          using assms(1) unfolding dm_ok_def by (elim conjE) (rule arg_cong [where f = length])
        then show ?thesis by simp
      qed
      ultimately show ?thesis using False a Inr full assms(1) room rs(1)
        by (simp add: registerMemoryRegion_def fv_push_back_def dm_ok_def rs2)
    qed
  qed
qed

lemma segments_write_regions: "map ms_region (fst (segments_write ss a data)) = map ms_region ss"
  by (induction ss) (auto split: prod.splits)

lemma dm_callbacks_cases: "dm_ok d \<Longrightarrow> dm_callbacks d = segment_callbacks \<or> dm_segments d = [] \<and> dm_callbacks d = no_callbacks"
  by (auto simp: dm_ok_def)

lemma dm_ok_segments:
  assumes "dm_ok d" and "segments_ok ss" and "map ms_region ss = map ms_region (dm_segments d)"
  shows "dm_ok (d\<lparr>dm_segments := ss\<rparr>)"
proof -
  have "length ss = length (dm_segments d)" using assms(3) map_eq_imp_length_eq by blast
  with assms show ?thesis by (auto simp: dm_ok_def)
qed

lemma handleWrite_regions:
  "C = segment_callbacks \<or> C = no_callbacks \<Longrightarrow>
    map ms_region (fst (mem_handleWriteRequest rs C ss src n a data)) = map ms_region ss"
  using segments_write_regions [of ss a data]
  by (auto simp: mem_handleWriteRequest_def Let_def segment_callbacks_def no_callbacks_def split: prod.splits sum.splits)

lemma handleExtWrite_regions:
  "C = segment_callbacks \<or> C = no_callbacks \<Longrightarrow>
    map ms_region (fst (handleExtendedWriteRequest rs C ss src n a data)) = map ms_region ss"
  using segments_write_regions [of ss "ema_narrow a" "take (unat n) data"]
  by (auto simp: handleExtendedWriteRequest_def Let_def segment_callbacks_def no_callbacks_def split: prod.splits sum.splits)

lemma dm_write_outcome:
  assumes "dm_ok d" and "dm_write d src n a data = (d1, out, r)"
  shows "dm_ok d1 \<and>
    ((r = Inr () \<and> length data = unat n \<and> dm_map d1 = overlay (unat a) data (dm_map d) \<and>
        out = [(src, \<lparr>mp_count = n, mp_address = a, mp_data = data\<rparr>)]) \<or>
     (\<exists>e. r = Inl e \<and> dm_map d1 = dm_map d \<and> out = []))"
proof -
  let ?h = "mem_handleWriteRequest (dm_space d) (dm_callbacks d) (dm_segments d) src n a data"
  obtain ss where h: "?h = (ss, out, r)" and d1: "d1 = d\<lparr>dm_segments := ss\<rparr>"
    using assms(2) by (auto simp: dm_write_def split: prod.splits)
  have ok: "segments_ok (dm_segments d)" using assms(1) by (simp add: dm_ok_def)
  have reg: "map ms_region ss = map ms_region (dm_segments d)"
    using handleWrite_regions [of "dm_callbacks d" "dm_space d" "dm_segments d" src n a data]
      dm_callbacks_cases [OF assms(1)] h by auto
  from dm_callbacks_cases [OF assms(1)] show ?thesis
  proof
    assume c: "dm_callbacks d = segment_callbacks"
    from sg.write_request [OF ok h [unfolded c segment_callbacks_def]]
    have o: "(r = Inr () \<and> length data = unat n \<and> segments_ok ss \<and>
        segments_peek ss = overlay (unat a) data (segments_peek (dm_segments d)) \<and>
        out = [(src, \<lparr>mp_count = n, mp_address = a, mp_data = data\<rparr>)]) \<or>
      (\<exists>e. r = Inl e \<and> ss = dm_segments d \<and> out = [])" .
    with ok have "segments_ok ss" by blast
    with dm_ok_segments [OF assms(1) _ reg] o show ?thesis by (auto simp: d1 dm_map_def)
  next
    assume "dm_segments d = [] \<and> dm_callbacks d = no_callbacks"
    with h have "ss = dm_segments d \<and> out = [] \<and> (\<exists>e. r = Inl e)"
      by (auto simp: mem_handleWriteRequest_def no_callbacks_def Let_def split: if_splits)
    with assms(1) show ?thesis by (auto simp: d1 dm_map_def)
  qed
qed

lemma dm_extWrite_outcome:
  assumes "dm_ok d" and "dm_extWrite d src n a data = (d1, out, r)"
  shows "dm_ok d1 \<and>
    (\<exists>rc. out = [(src, \<lparr>mx_kind = MxWrite, mx_returnCode = rc, mx_address = a, mx_data = []\<rparr>)] \<and>
       (if rc = RcSuccess
        then r = Inr () \<and> unat n \<le> length data \<and>
             dm_map d1 = overlay (unat (ema_narrow a)) (take (unat n) data) (dm_map d)
        else (\<exists>e. r = Inl e) \<and> dm_map d1 = dm_map d))"
proof -
  let ?h = "handleExtendedWriteRequest (dm_space d) (dm_callbacks d) (dm_segments d) src n a data"
  obtain ss where h: "?h = (ss, out, r)" and d1: "d1 = d\<lparr>dm_segments := ss\<rparr>"
    using assms(2) by (auto simp: dm_extWrite_def split: prod.splits)
  have ok: "segments_ok (dm_segments d)" using assms(1) by (simp add: dm_ok_def)
  have reg: "map ms_region ss = map ms_region (dm_segments d)"
    using handleExtWrite_regions [of "dm_callbacks d" "dm_space d" "dm_segments d" src n a data]
      dm_callbacks_cases [OF assms(1)] h by auto
  from dm_callbacks_cases [OF assms(1)] show ?thesis
  proof
    assume c: "dm_callbacks d = segment_callbacks"
    from sg.ext_write_request [OF ok h [unfolded c segment_callbacks_def]]
    obtain rc where o: "out = [(src, \<lparr>mx_kind = MxWrite, mx_returnCode = rc, mx_address = a, mx_data = []\<rparr>)]"
      "if rc = RcSuccess
       then r = Inr () \<and> unat n \<le> length data \<and> segments_ok ss \<and>
            segments_peek ss = overlay (unat (ema_narrow a)) (take (unat n) data) (segments_peek (dm_segments d))
       else (\<exists>e. r = Inl e) \<and> ss = dm_segments d" by blast
    with ok have "segments_ok ss" by (auto split: if_splits)
    with dm_ok_segments [OF assms(1) _ reg] o show ?thesis by (auto simp: d1 dm_map_def split: if_splits)
  next
    assume "dm_segments d = [] \<and> dm_callbacks d = no_callbacks"
    with h have "ss = dm_segments d \<and> (\<exists>e. r = Inl e) \<and> (\<exists>rc. rc \<noteq> RcSuccess \<and>
        out = [(src, \<lparr>mx_kind = MxWrite, mx_returnCode = rc, mx_address = a, mx_data = []\<rparr>)])"
      by (auto simp: handleExtendedWriteRequest_def no_callbacks_def Let_def split: if_splits)
    with assms(1) show ?thesis by (auto simp: d1 dm_map_def)
  qed
qed

lemma dm_step_ok: "dm_ok d \<Longrightarrow> event_ok e \<Longrightarrow> dm_ok (dm_step e d)"
proof (cases e)
  case (MeRegister r storage)
  assume "dm_ok d" "event_ok e"
  with MeRegister show ?thesis by (simp add: registerMemoryRegion_ok)
next
  case (MeWrite src n a data)
  assume d: "dm_ok d"
  obtain d1 out r where w: "dm_write d src n a data = (d1, out, r)" using prod_cases3 by blast
  with dm_write_outcome [OF d w] MeWrite show ?thesis by simp
next
  case (MeExtWrite src n a data)
  assume d: "dm_ok d"
  obtain d1 out r where w: "dm_extWrite d src n a data = (d1, out, r)" using prod_cases3 by blast
  with dm_extWrite_outcome [OF d w] MeExtWrite show ?thesis by simp
qed

lemma dm_fold_ok: "list_all event_ok es \<Longrightarrow> dm_ok d \<Longrightarrow> dm_ok (fold dm_step es d)"
  by (induction es arbitrary: d) (simp_all add: dm_step_ok)

section \<open>When an access succeeds\<close>

definition mode_allows :: "access_type \<Rightarrow> memory_access_mode \<Rightarrow> bool" where
  "mode_allows t m \<longleftrightarrow> m = MaReadWrite \<or> (t = AtRead \<and> m = MaReadOnly) \<or> (t = AtWrite \<and> m = MaWriteOnly)"

definition range_in :: "u16 \<Rightarrow> u8 \<Rightarrow> memory_region \<Rightarrow> bool" where
  "range_in a n r \<longleftrightarrow> mr_lo r \<le> unat a \<and> unat a + unat n \<le> mr_hi r"

lemma apart_unique:
  assumes "sorted_wrt apart rs" and "r \<in> set rs" and "r' \<in> set rs"
    and "mr_lo r \<le> x" "x < mr_hi r" "mr_lo r' \<le> x" "x < mr_hi r'"
  shows "r = r'"
proof -
  obtain i j where ij: "i < length rs" "j < length rs" "rs ! i = r" "rs ! j = r'"
    using assms(2,3) by (auto simp: in_set_conv_nth)
  have "\<not> i < j" "\<not> j < i"
    using assms(4-) ij sorted_wrt_nth_less [OF assms(1)] by (fastforce simp: apart_def)+
  with ij show ?thesis by (metis linorder_neqE_nat)
qed

lemma findRegion_unique:
  assumes "regions_ok rs" and "r \<in> set rs" and "mr_contains r a"
  shows "findRegion rs a = Some r"
proof (cases "findRegion rs a")
  case None
  with assms(2,3) show ?thesis by (auto simp: findRegion_def find_None_iff)
next
  case (Some r')
  then have r': "r' \<in> set rs" "mr_contains r' a"
    unfolding findRegion_def find_Some_iff by auto
  with assms have "region_ok r" "region_ok r'" by (auto simp: regions_ok_def)
  with assms r' apart_unique [of rs r r' "unat a"] have "r = r'"
    by (simp add: regions_ok_def mr_contains_iff)
  with Some show ?thesis by simp
qed

lemma mem_validateAccess_iff:
  assumes "regions_ok rs"
  shows "mem_validateAccess rs a n t mx = MrSuccess \<longleftrightarrow>
    n \<noteq> 0 \<and> unat n \<le> mx \<and> (\<exists>r \<in> set rs. range_in a n r \<and> mode_allows t (mr_accessMode r))"
proof (cases "n \<noteq> 0 \<and> unat n \<le> mx")
  case True
  then have pos: "unat n > 0" by (simp add: unat_gt_0)
  show ?thesis
  proof (cases "findRegion rs a")
    case None
    have "\<not> range_in a n r" if "r \<in> set rs" for r
    proof
      assume "range_in a n r"
      moreover have "region_ok r" using assms that by (simp add: regions_ok_def)
      ultimately have "mr_contains r a" using pos by (simp add: mr_contains_iff range_in_def)
      with None that show False by (auto simp: findRegion_def find_None_iff)
    qed
    with None True show ?thesis by (auto simp: mem_validateAccess_def)
  next
    case (Some r)
    then have r: "r \<in> set rs" "mr_contains r a" unfolding findRegion_def find_Some_iff by auto
    then have ok: "region_ok r" using assms by (simp add: regions_ok_def)
    have u: "r' = r" if "r' \<in> set rs" "range_in a n r'" for r'
    proof -
      have "region_ok r'" using assms that(1) by (simp add: regions_ok_def)
      with that(2) pos have "mr_contains r' a" by (simp add: mr_contains_iff range_in_def)
      from findRegion_unique [OF assms that(1) this] Some show ?thesis by simp
    qed
    have c: "mr_containsRange r a n \<longleftrightarrow> range_in a n r"
      using True by (simp add: mr_containsRange_iff [OF ok] range_in_def)
    have "mem_validateAccess rs a n t mx = MrSuccess \<longleftrightarrow> range_in a n r \<and> mode_allows t (mr_accessMode r)"
      using True Some c
      by (cases t; cases "mr_accessMode r") (simp_all add: mem_validateAccess_def canWrite_def canRead_def mode_allows_def)
    with True r(1) u show ?thesis by blast
  qed
qed (auto simp: mem_validateAccess_def)

lemma segments_write_iff:
  assumes "\<forall>s \<in> set ss. segment_ok s" and "length data < 256"
  shows "snd (segments_write ss a data) = Inr () \<longleftrightarrow>
    data \<noteq> [] \<and> (\<exists>s \<in> set ss. range_in a (of_nat (length data)) (ms_region s))"
proof -
  have n: "unat (of_nat (length data) :: u8) = length data" using assms(2) by (rule unat_of_nat_u8)
  then have z: "(of_nat (length data) :: u8) = 0 \<longleftrightarrow> data = []"
    by (metis length_0_conv unat_eq_zero)
  show ?thesis using assms(1)
  proof (induction ss)
    case (Cons s ss)
    have "mr_containsRange (ms_region s) a (of_nat (length data)) \<longleftrightarrow>
        data \<noteq> [] \<and> range_in a (of_nat (length data)) (ms_region s)"
      using Cons.prems z by (simp add: mr_containsRange_iff segment_ok_def range_in_def)
    with Cons show ?case by (auto split: prod.splits)
  qed simp
qed

lemma write_request_iff:
  assumes "dm_ok d"
  shows "snd (snd (dm_write d src n a data)) = Inr () \<longleftrightarrow>
    n \<noteq> 0 \<and> unat n \<le> 63 \<and> length data = unat n \<and>
    (\<exists>s \<in> set (dm_segments d). range_in a n (ms_region s) \<and> mode_allows AtWrite (mr_accessMode (ms_region s)))"
    (is "?l \<longleftrightarrow> ?r")
proof -
  obtain d1 out r where w: "dm_write d src n a data = (d1, out, r)" using prod_cases3 by blast
  have ok: "regions_ok (dm_space d)" "segments_ok (dm_segments d)" using assms by (simp_all add: dm_ok_def)
  have sub: "ms_region ` set (dm_segments d) \<subseteq> set (dm_space d)"
    using assms unfolding dm_ok_def by (metis set_map set_take_subset)
  let ?v = "mem_validateAccess (dm_space d) a n AtWrite MAX_MEMORY_BYTES"
  note v = mem_validateAccess_iff [OF ok(1), of a n AtWrite MAX_MEMORY_BYTES, unfolded MAX_MEMORY_BYTES_def]
  have l256: "length data = unat n \<Longrightarrow> length data < 256" using unat_u8_lt [of n] by simp
  note wi = segments_write_iff [of "dm_segments d" data a]
  show ?thesis
  proof (cases "?v = MrSuccess \<and> length data = unat n \<and> dm_callbacks d = segment_callbacks")
    case True
    then have n: "n \<noteq> 0" "unat n \<le> 63" "length data = unat n" "(of_nat (length data) :: u8) = n"
      using v by (simp_all add: MAX_MEMORY_BYTES_def)
    then have ne: "data \<noteq> []" by (auto simp: unat_eq_zero)
    have "?l \<longleftrightarrow> snd (segments_write (dm_segments d) a data) = Inr ()"
    proof (cases "segments_write (dm_segments d) a data")
      case (Pair ss wr)
      show ?thesis
      proof (cases wr)
        case (Inl e)
        with Pair True show ?thesis
          by (simp add: dm_write_def mem_handleWriteRequest_def segment_callbacks_def)
      next
        case (Inr u)
        with Pair have p: "segments_write (dm_segments d) a data = (ss, Inr ())" by simp
        have "segments_read ss a n (replicate (unat n) 0) = Inr data"
          by (rule sg.backend_read_back [OF ok(2) n(3) p])
        with p True show ?thesis
          by (simp add: dm_write_def mem_handleWriteRequest_def segment_callbacks_def)
      qed
    qed
    also have "\<dots> \<longleftrightarrow> (\<exists>s \<in> set (dm_segments d). range_in a n (ms_region s))"
      using wi ok(2) n ne l256 by (simp add: segments_ok_def)
    also have "\<dots> \<longleftrightarrow> ?r"
    proof -
      obtain r0 where r0: "r0 \<in> set (dm_space d)" "range_in a n r0" "mode_allows AtWrite (mr_accessMode r0)"
        using True v by (auto simp: MAX_MEMORY_BYTES_def)
      have pos: "unat n > 0" using n(1) by (simp add: unat_gt_0)
      have "ms_region s = r0" if "s \<in> set (dm_segments d)" "range_in a n (ms_region s)" for s
        using that sub r0 ok(1) pos apart_unique [of "dm_space d" "ms_region s" r0 "unat a"]
        by (auto simp: regions_ok_def range_in_def)
      with r0 n show ?thesis by metis
    qed
    finally show ?thesis .
  next
    case False
    then have "\<not> ?l"
      using dm_callbacks_cases [OF assms]
      by (auto simp: dm_write_def mem_handleWriteRequest_def no_callbacks_def Let_def)
    moreover have "\<not> ?r"
    proof
      assume R: ?r
      then have "?v = MrSuccess" using v sub by (auto simp: MAX_MEMORY_BYTES_def)
      moreover have "dm_segments d \<noteq> []" using R by auto
      ultimately show False using False R dm_callbacks_cases [OF assms] by auto
    qed
    ultimately show ?thesis by simp
  qed
qed

lemma write_request_refused:
  assumes "dm_ok d" "dm_write d src n a data = (d1, out, Inl e)"
  shows "d1 = d \<and> out = []"
  using dm_callbacks_cases [OF assms(1)]
proof
  assume "dm_segments d = [] \<and> dm_callbacks d = no_callbacks"
  with assms(2) show ?thesis by (auto simp: dm_write_def mem_handleWriteRequest_def no_callbacks_def Let_def split: if_splits)
next
  assume c: "dm_callbacks d = segment_callbacks"
  have ok: "segments_ok (dm_segments d)" using assms(1) by (simp add: dm_ok_def)
  have rb: "segments_read ss a n (replicate (unat n) 0) = Inr data"
    if "length data = unat n" "segments_write (dm_segments d) a data = (ss, Inr ())" for ss
    by (rule sg.backend_read_back [OF ok that])
  show ?thesis
    using assms(2) rb
    by (auto simp: dm_write_def mem_handleWriteRequest_def c segment_callbacks_def Let_def
        split: if_splits prod.splits sum.splits dest: segments_write_fails)
qed

text \<open>
  C40. A memory write request (\<open>MemoryService::handleWriteRequest\<close> behind the segments that
  \<open>registerMemoryRegion\<close> bound) succeeds exactly when it names between 1 and 63 octets, carries that
  many, and the whole range lies inside one bound segment that may be written. Otherwise it is refused
  without an answer and without an effect: the memory is as before and the response callback is not called.
\<close>

theorem memory_write_succeeds_iff:
  assumes "dm_ok d" and "dm_write d src n a data = (d1, out, r)"
  shows "(r = Inr () \<longleftrightarrow>
      n \<noteq> 0 \<and> unat n \<le> 63 \<and> length data = unat n \<and>
      (\<exists>s \<in> set (dm_segments d). range_in a n (ms_region s) \<and> mode_allows AtWrite (mr_accessMode (ms_region s)))) \<and>
    (r \<noteq> Inr () \<longrightarrow> d1 = d \<and> out = [])"
proof (intro conjI impI)
  show "r = Inr () \<longleftrightarrow>
      n \<noteq> 0 \<and> unat n \<le> 63 \<and> length data = unat n \<and>
      (\<exists>s \<in> set (dm_segments d). range_in a n (ms_region s) \<and> mode_allows AtWrite (mr_accessMode (ms_region s)))"
    using write_request_iff [OF assms(1), of src n a data] assms(2) by simp
  assume "r \<noteq> Inr ()"
  then obtain e where "r = Inl e" by (cases r) auto
  with write_request_refused [OF assms(1)] assms(2) show "d1 = d" and "out = []" by blast+
qed

lemma map_Some_range: "length bs = n \<Longrightarrow> \<forall>i < n. f (a + i) = Some (bs ! i) \<Longrightarrow> map Some bs = map f [a ..< a + n]"
  by (rule nth_equalityI) simp_all

text \<open>
  C9. The device memory behind the services is a byte-addressed map: a write request that succeeds
  replaces exactly the octets it names and is answered with them, one that fails changes no octet and
  is not answered; a read request that succeeds answers with exactly the octets of the map.
\<close>

theorem memory_refines_map:
  assumes "dm_ok d"
  shows "(case dm_write d src n a data of (d1, out, r) \<Rightarrow>
            dm_ok d1 \<and>
            (if r = Inr ()
             then dm_map d1 = overlay (unat a) data (dm_map d) \<and>
                  out = [(src, \<lparr>mp_count = n, mp_address = a, mp_data = data\<rparr>)]
             else dm_map d1 = dm_map d \<and> out = [])) \<and>
         (case dm_read d src n a of (out, r) \<Rightarrow>
            if r = Inr ()
            then \<exists>bs. out = [(src, \<lparr>mp_count = n, mp_address = a, mp_data = bs\<rparr>)] \<and>
                   map Some bs = map (dm_map d) [unat a ..< unat a + unat n]
            else out = [])"
proof
  obtain d1 out r where w: "dm_write d src n a data = (d1, out, r)" using prod_cases3 by blast
  from dm_write_outcome [OF assms w]
  show "case dm_write d src n a data of (d1, out, r) \<Rightarrow>
          dm_ok d1 \<and>
          (if r = Inr ()
           then dm_map d1 = overlay (unat a) data (dm_map d) \<and>
                out = [(src, \<lparr>mp_count = n, mp_address = a, mp_data = data\<rparr>)]
           else dm_map d1 = dm_map d \<and> out = [])"
    by (auto simp: w)
next
  obtain out r where h: "dm_read d src n a = (out, r)" by fastforce
  have "segments_ok (dm_segments d)" using assms by (simp add: dm_ok_def)
  from dm_callbacks_cases [OF assms] have "(r = Inr () \<and>
      (\<exists>bs. out = [(src, \<lparr>mp_count = n, mp_address = a, mp_data = bs\<rparr>)] \<and> length bs = unat n \<and>
        (\<forall>i < unat n. dm_map d (unat a + i) = Some (bs ! i)))) \<or> (\<exists>e. r = Inl e \<and> out = [])"
  proof
    assume c: "dm_callbacks d = segment_callbacks"
    from sg.read_request [OF \<open>segments_ok (dm_segments d)\<close> h [unfolded dm_read_def c segment_callbacks_def]]
    show ?thesis by (simp add: dm_map_def)
  next
    assume "dm_segments d = [] \<and> dm_callbacks d = no_callbacks"
    with h show ?thesis by (auto simp: dm_read_def mem_handleReadRequest_def no_callbacks_def Let_def split: if_splits)
  qed
  then show "case dm_read d src n a of (out, r) \<Rightarrow>
      if r = Inr ()
      then \<exists>bs. out = [(src, \<lparr>mp_count = n, mp_address = a, mp_data = bs\<rparr>)] \<and>
             map Some bs = map (dm_map d) [unat a ..< unat a + unat n]
      else out = []"
    unfolding h by (auto intro!: map_Some_range)
qed

definition sample_region :: memory_region where
  "sample_region = \<lparr>mr_startAddress = 0x4000, mr_size = 8, mr_accessMode = MaReadWrite\<rparr>"

definition sample_memory :: device_memory where
  "sample_memory = fst (registerMemoryRegion sample_region (replicate 8 0) device_memory_init)"

lemma sample_memory_ok: "dm_ok sample_memory"
  unfolding sample_memory_def
  by (rule registerMemoryRegion_ok [OF dm_ok_init]) (simp add: region_ok_def sample_region_def)

lemma sample_memory_eq:
  "dm_segments sample_memory = [\<lparr>ms_region = sample_region, ms_storage = replicate 8 0, ms_written = False\<rparr>]"
  by (simp add: sample_memory_def registerMemoryRegion_def sample_region_def device_memory_init_def addRegion_def
      MAX_REGIONS_def fv_push_back_def kMaxMemorySegments_def)

theorem memory_write_succeeds_iff_witness:
  "snd (snd (dm_write sample_memory 0x1101 2 0x4002 [0xAB, 0xCD])) = Inr () \<and>
   fst (dm_write sample_memory 0x1101 2 0x4007 [0xAB, 0xCD]) = sample_memory"
proof -
  obtain d1 out1 r1 where w: "dm_write sample_memory 0x1101 2 0x4002 [0xAB, 0xCD] = (d1, out1, r1)" using prod_cases3 by blast
  obtain d2 out2 r2 where v: "dm_write sample_memory 0x1101 2 0x4007 [0xAB, 0xCD] = (d2, out2, r2)" using prod_cases3 by blast
  note s = sample_memory_eq sample_region_def range_in_def mode_allows_def
  have "r1 = Inr ()" using memory_write_succeeds_iff [OF sample_memory_ok w] by (simp add: s)
  moreover have "d2 = sample_memory" using memory_write_succeeds_iff [OF sample_memory_ok v] by (simp add: s)
  ultimately show ?thesis by (simp add: w v)
qed

theorem memory_refines_map_witness:
  "map (dm_map (fst (dm_write sample_memory 0x1101 2 0x4002 [0xAB, 0xCD]))) [0x4001, 0x4002, 0x4003, 0x4004] =
     [Some 0, Some 0xAB, Some 0xCD, Some 0]"
proof -
  have r: "snd (snd (dm_write sample_memory 0x1101 2 0x4002 [0xAB, 0xCD])) = Inr ()" by code_simp
  have e: "dm_map (fst (dm_write sample_memory 0x1101 2 0x4002 [0xAB, 0xCD])) =
      overlay 0x4002 [0xAB, 0xCD] (dm_map sample_memory)"
    using memory_refines_map [OF sample_memory_ok, where src = "0x1101" and n = 2 and a = "0x4002" and data = "[0xAB, 0xCD]"] r
    by (auto split: prod.splits)
  show ?thesis unfolding e
    by (simp add: overlay_def dm_map_def sample_memory_eq sample_region_def)
qed

text \<open>
  Registering regions and writing memory, in any order, never makes two regions of the address
  space share an address, keeps at most sixteen regions and at most eight segments, and keeps every
  segment's storage as long as its region. (Each registered region ends below \<open>2^32\<close>.)
\<close>

theorem memory_regions_disjoint:
  assumes "list_all event_ok es" and "d = fold dm_step es device_memory_init"
  shows "length (dm_space d) \<le> 16 \<and> length (dm_segments d) \<le> 8 \<and>
    (\<forall>s \<in> set (dm_segments d). unat (mr_size (ms_region s)) \<le> length (ms_storage s)) \<and>
    (\<forall>i j a. i < j \<longrightarrow> j < length (dm_space d) \<longrightarrow>
       \<not> (mr_contains (dm_space d ! i) a \<and> mr_contains (dm_space d ! j) a))"
proof -
  have ok: "dm_ok d" unfolding assms(2) by (rule dm_fold_ok [OF assms(1) dm_ok_init])
  have "\<not> (mr_contains (dm_space d ! i) a \<and> mr_contains (dm_space d ! j) a)"
    if ij: "i < j" "j < length (dm_space d)" for i j a
  proof -
    have "sorted_wrt apart (dm_space d)" using ok by (simp add: dm_ok_def regions_ok_def)
    then have "apart (dm_space d ! i) (dm_space d ! j)" using ij by (rule sorted_wrt_nth_less)
    moreover have "region_ok (dm_space d ! i)" "region_ok (dm_space d ! j)"
      using ok ij by (auto simp: dm_ok_def regions_ok_def)
    ultimately show ?thesis by (auto simp: mr_contains_iff apart_def)
  qed
  with ok show ?thesis
    by (auto simp: dm_ok_def segments_ok_def segment_ok_def MAX_REGIONS_def kMaxMemorySegments_def)
qed

definition sample_events :: "memory_event list" where
  "sample_events =
     [MeRegister sample_region (replicate 8 0),
      MeRegister (sample_region\<lparr>mr_startAddress := 0x4004\<rparr>) (replicate 8 0),
      MeRegister (sample_region\<lparr>mr_startAddress := 0x4008\<rparr>) (replicate 8 0)]"

theorem memory_regions_disjoint_witness:
  "\<forall>a. \<not> (mr_contains (dm_space (fold dm_step sample_events device_memory_init) ! 0) a \<and>
       mr_contains (dm_space (fold dm_step sample_events device_memory_init) ! 1) a)"
proof -
  have l: "length (dm_space (fold dm_step sample_events device_memory_init)) = 2" by code_simp
  have "list_all event_ok sample_events" by (simp add: sample_events_def region_ok_def sample_region_def)
  from memory_regions_disjoint [OF this refl]
  have "\<forall>i j a. i < j \<longrightarrow> j < length (dm_space (fold dm_step sample_events device_memory_init)) \<longrightarrow>
       \<not> (mr_contains (dm_space (fold dm_step sample_events device_memory_init) ! i) a \<and>
          mr_contains (dm_space (fold dm_step sample_events device_memory_init) ! j) a)"
    by (elim conjE)
  from this [rule_format, of 0 1] show ?thesis unfolding l by simp
qed

text \<open>
  The extended memory services always answer, with exactly one response that repeats the
  requested address; its return code is success exactly when the access was carried out.
\<close>

theorem ext_memory_answers_once:
  "(\<exists>rc bs. fst (handleExtendedReadRequest rs C m src n a) =
        [(src, \<lparr>mx_kind = MxRead, mx_returnCode = rc, mx_address = a, mx_data = bs\<rparr>)] \<and>
      (rc = RcSuccess \<longleftrightarrow> snd (handleExtendedReadRequest rs C m src n a) = Inr ())) \<and>
   (\<exists>rc. fst (snd (handleExtendedWriteRequest rs C m src n a data)) =
        [(src, \<lparr>mx_kind = MxWrite, mx_returnCode = rc, mx_address = a, mx_data = []\<rparr>)] \<and>
      (rc = RcSuccess \<longleftrightarrow> snd (snd (handleExtendedWriteRequest rs C m src n a data)) = Inr ()))"
  by (auto simp: handleExtendedReadRequest_def handleExtendedWriteRequest_def Let_def
      split: option.splits sum.splits prod.splits)

section \<open>The codecs\<close>

lemma and_3F_id: "unat (n :: u8) \<le> 63 \<Longrightarrow> n AND 0x3F = n"
  using less_mask_eq [of n 6] by (simp add: mask_eq_exp_minus_1 word_less_nat_alt)

text \<open>A memory write request is read back as it was encoded: count, address and data.\<close>

definition mem_write_valid :: "u8 \<times> u16 \<times> bytes \<Rightarrow> bool" where
  "mem_write_valid = (\<lambda>(n, a, data). n \<noteq> 0 \<and> unat n \<le> MAX_MEMORY_BYTES \<and> length data = unat n)"

interpretation mwc: result_codec
  "\<lambda>(n, a, data). mem_encodeWriteRequest n a data 67" "\<lambda>tpdu. mem_decodeWriteRequest tpdu 63" mem_write_valid
proof
  fix x b
  assume enc: "(case x of (n, a, data) \<Rightarrow> mem_encodeWriteRequest n a data 67) = Inr b" and "mem_write_valid x"
  then obtain n a data where x: "x = (n, a, data)" "n \<noteq> 0" "unat n \<le> MAX_MEMORY_BYTES" "length data = unat n"
    by (auto simp: mem_write_valid_def)
  let ?h = "packTpduHeader data_tpci (apci_create S_MemoryWrite n)"
  let ?t = "fst ?h # snd ?h # getHighByte a # getLowByte a # data"
  have e: "mem_encodeWriteRequest n a data 67 = Inr ?t"
    using x by (simp add: mem_encodeWriteRequest_def buildTpdu_room MAX_MEMORY_BYTES_def)
  have "mem_decodeRequest ?t = Inr (n, a)"
    using x by (simp add: mem_decodeRequest_def apci_service_short and_3F_id MAX_MEMORY_BYTES_def)
  with x have "mem_decodeWriteRequest ?t 63 = Inr (n, a, data)"
    by (simp add: mem_decodeWriteRequest_def MAX_MEMORY_BYTES_def)
  with e x(1) enc show "mem_decodeWriteRequest b 63 = Inr x" by auto
qed

end
