(* ===== verification/Property_Store.thy ===== *)
theory Property_Store
  imports Interfaces Apci
begin

text \<open>
  The property store of the application layer: \<open>include/knx/application/property.hpp\<close>,
  \<open>pdt_catalog.inc\<close> and \<open>src/application/property_store.cpp\<close>. A \<open>std::map\<close> keyed by an octet is a
  partial function, and its iteration order, the ascending keys, is \<open>map_keys\<close>. The enumerations
  \<open>PropertyID\<close> and \<open>PropertyDataType\<close> are their octets. The lemmas show that a property behaves as an
  array of elements: what was written at an index is read there, and nothing else of the store moves.
\<close>

section \<open>Descriptors and values (property.hpp)\<close>

datatype property_access = PaReadOnly | PaReadWrite | PaWriteOnly

text \<open>The property data types of \<open>pdt_catalog.inc\<close> with the size of one element (0: variable).\<close>

definition pdt_catalog :: "(u8 \<times> nat) list" where
  "pdt_catalog =
     [(0x00, 1), (0x01, 1), (0x02, 1), (0x03, 2), (0x04, 2), (0x05, 2), (0x06, 3), (0x07, 3), (0x08, 4),
      (0x09, 4), (0x0A, 4), (0x0B, 8), (0x0C, 10), (0x0E, 5), (0x0F, 8), (0x10, 0), (0x2F, 0), (0x30, 2),
      (0x31, 6), (0x32, 1), (0x33, 1), (0x34, 2), (0x35, 1), (0x36, 1), (0x3E, 1), (0x3F, 0), (0x0D, 3),
      (0x11, 1), (0x12, 2), (0x13, 3), (0x14, 4), (0x15, 5), (0x16, 6), (0x17, 7), (0x18, 8), (0x19, 9),
      (0x1A, 10), (0x1B, 11), (0x1C, 12), (0x1D, 13), (0x1E, 14), (0x1F, 15), (0x20, 16), (0x21, 17),
      (0x22, 18), (0x23, 19), (0x24, 20)]"

record property_descriptor =
  pd_id :: u8
  pd_type :: u8
  pd_access :: property_access
  pd_maxElements :: u16
  pd_readLevel :: u8
  pd_writeLevel :: u8

definition getElementSize :: "property_descriptor \<Rightarrow> nat" where
  "getElementSize d = (case map_of pdt_catalog (pd_type d) of Some n \<Rightarrow> n | None \<Rightarrow> 0)"

record property_value =
  pv_id :: u8
  pv_type :: u8
  pv_elementCount :: u16
  pv_data :: bytes

definition pv_create :: "u8 \<Rightarrow> u8 \<Rightarrow> bytes \<Rightarrow> property_value" where
  "pv_create i t data = \<lparr>pv_id = i, pv_type = t, pv_elementCount = 1, pv_data = data\<rparr>"

definition pv_asUInt8 :: "property_value \<Rightarrow> u8" where
  "pv_asUInt8 v = (if pv_data v = [] then 0 else pv_data v ! 0)"

definition pv_asUInt16 :: "property_value \<Rightarrow> u16" where
  "pv_asUInt16 v = (if length (pv_data v) < 2 then 0 else word_be (pv_data v ! 0) (pv_data v ! 1))"

definition pv_asUInt32 :: "property_value \<Rightarrow> u32" where
  "pv_asUInt32 v =
     (if length (pv_data v) < 4 then 0
      else push_bit 24 (ucast (pv_data v ! 0)) OR push_bit 16 (ucast (pv_data v ! 1)) OR
           push_bit 8 (ucast (pv_data v ! 2)) OR ucast (pv_data v ! 3))"

definition pv_fromUInt8 :: "u8 \<Rightarrow> u8 \<Rightarrow> property_value" where
  "pv_fromUInt8 i v = \<lparr>pv_id = i, pv_type = 0x02, pv_elementCount = 1, pv_data = [v]\<rparr>"

definition pv_fromUInt16 :: "u8 \<Rightarrow> u16 \<Rightarrow> property_value" where
  "pv_fromUInt16 i v =
     \<lparr>pv_id = i, pv_type = 0x04, pv_elementCount = 1, pv_data = [getHighByte v, getLowByte v]\<rparr>"

definition pv_fromUInt32 :: "u8 \<Rightarrow> u32 \<Rightarrow> property_value" where
  "pv_fromUInt32 i v =
     \<lparr>pv_id = i, pv_type = 0x09, pv_elementCount = 1,
      pv_data = [ucast (drop_bit 24 v AND 0xFF), ucast (drop_bit 16 v AND 0xFF),
                 ucast (drop_bit 8 v AND 0xFF), ucast (v AND 0xFF)]\<rparr>"

section \<open>Property store (property\_store.cpp)\<close>

definition map_keys :: "(u8 \<Rightarrow> 'a option) \<Rightarrow> u8 list" where
  "map_keys m = filter (\<lambda>k. m k \<noteq> None) (map of_nat [0 ..< 256])"

record property_store =
  ps_objectType :: u16
  ps_objectIndex :: u8
  ps_descriptors :: "u8 \<Rightarrow> property_descriptor option"
  ps_properties :: "u8 \<Rightarrow> property_value option"

definition ps_new :: "u16 \<Rightarrow> u8 \<Rightarrow> property_store" where
  "ps_new objectType objectIndex =
     \<lparr>ps_objectType = objectType, ps_objectIndex = objectIndex, ps_descriptors = (\<lambda>_. None), ps_properties = (\<lambda>_. None)\<rparr>"

definition registerProperty :: "property_descriptor \<Rightarrow> property_value \<Rightarrow> property_store \<Rightarrow> property_store \<times> unit result" where
  "registerProperty d v s =
     (if ps_descriptors s (pd_id d) \<noteq> None then (s, Inl AlreadyInitialized)
      else (s\<lparr>ps_descriptors := (ps_descriptors s)(pd_id d \<mapsto> d),
              ps_properties := (ps_properties s)(pd_id d \<mapsto> v)\<rparr>, Inr ()))"

text \<open>\<open>readProperty\<close> copies into a span of \<open>outSize\<close> octets; the model returns what it copies.\<close>

definition ps_readProperty :: "property_store \<Rightarrow> u8 \<Rightarrow> u16 \<Rightarrow> u8 \<Rightarrow> nat \<Rightarrow> bytes result" where
  "ps_readProperty s pid startIndex elementCount outSize =
     (case (ps_properties s pid, ps_descriptors s pid) of
        (Some v, Some d) \<Rightarrow>
          if startIndex = 0 \<or> startIndex > pd_maxElements d then Inl InvalidParameter
          else if getElementSize d = 0 then Inl InvalidParameter
          else let byteOffset = (unat startIndex - 1) * getElementSize d;
                   byteCount = unat elementCount * getElementSize d in
               if byteOffset + byteCount > length (pv_data v) then Inl OutOfRange
               else if outSize < byteCount then Inl BufferTooSmall
               else Inr (take byteCount (drop byteOffset (pv_data v)))
      | _ \<Rightarrow> Inl InvalidParameter)"

definition ps_writeProperty :: "u8 \<Rightarrow> u16 \<Rightarrow> u8 \<Rightarrow> bytes \<Rightarrow> property_store \<Rightarrow> property_store \<times> unit result" where
  "ps_writeProperty pid startIndex elementCount data s =
     (case (ps_properties s pid, ps_descriptors s pid) of
        (Some v, Some d) \<Rightarrow>
          if pd_access d = PaReadOnly then (s, Inl OperationNotSupported)
          else if startIndex = 0 \<or> startIndex > pd_maxElements d then (s, Inl InvalidParameter)
          else if length data \<noteq> unat elementCount * getElementSize d then (s, Inl InvalidParameter)
          else let byteOffset = (unat startIndex - 1) * getElementSize d;
                   requiredSize = byteOffset + length data;
                   old = pv_data v @ replicate (requiredSize - length (pv_data v)) 0;
                   new = take byteOffset old @ data @ drop requiredSize old in
               (s\<lparr>ps_properties := (ps_properties s)(pid \<mapsto> v\<lparr>pv_data := new\<rparr>)\<rparr>, Inr ())
      | _ \<Rightarrow> (s, Inl InvalidParameter))"

definition getDescriptor :: "property_store \<Rightarrow> u8 \<Rightarrow> property_descriptor option" where
  "getDescriptor s pid = ps_descriptors s pid"

text \<open>With an empty span the call returns the number of identifiers, else it fills the span.\<close>

definition getAllPropertyIds :: "property_store \<Rightarrow> nat \<Rightarrow> (nat \<times> u8 list) result" where
  "getAllPropertyIds s outSize =
     (let ids = map_keys (ps_properties s); required = length ids in
      if outSize = 0 then Inr (required, [])
      else if outSize < required then Inl BufferTooSmall
      else Inr (required, ids))"

definition hasProperty :: "property_store \<Rightarrow> u8 \<Rightarrow> bool" where
  "hasProperty s pid \<longleftrightarrow> ps_properties s pid \<noteq> None"

definition ps_validateAccess :: "property_store \<Rightarrow> u8 \<Rightarrow> access_type \<Rightarrow> u8 \<Rightarrow> unit result" where
  "ps_validateAccess s pid accessType accessLevel =
     (case ps_descriptors s pid of
        None \<Rightarrow> Inl InvalidParameter
      | Some d \<Rightarrow>
          if accessType = AtWrite
          then if pd_access d = PaReadOnly then Inl OperationNotSupported
               else if accessLevel \<ge> pd_writeLevel d then Inr () else Inl OperationNotSupported
          else if accessLevel \<ge> pd_readLevel d then Inr () else Inl OperationNotSupported)"

subsection \<open>The manager of the interface objects\<close>

type_synonym store_manager = "u8 \<Rightarrow> property_store option"

definition addObject :: "u16 \<Rightarrow> u8 \<Rightarrow> store_manager \<Rightarrow> store_manager \<times> bool" where
  "addObject objectType objectIndex m =
     (if m objectIndex \<noteq> None then (m, False) else (m(objectIndex \<mapsto> ps_new objectType objectIndex), True))"

definition getAllObjectIndices :: "store_manager \<Rightarrow> nat \<Rightarrow> (nat \<times> u8 list) result" where
  "getAllObjectIndices m outSize =
     (let ids = map_keys m; required = length ids in
      if outSize = 0 then Inr (required, [])
      else if outSize < required then Inl BufferTooSmall
      else Inr (required, ids))"

definition pm_readProperty :: "store_manager \<Rightarrow> u8 \<Rightarrow> u8 \<Rightarrow> u16 \<Rightarrow> u8 \<Rightarrow> nat \<Rightarrow> bytes result" where
  "pm_readProperty m objectIndex pid startIndex elementCount outSize =
     (case m objectIndex of
        None \<Rightarrow> Inl InvalidParameter
      | Some s \<Rightarrow> ps_readProperty s pid startIndex elementCount outSize)"

definition pm_writeProperty :: "u8 \<Rightarrow> u8 \<Rightarrow> u16 \<Rightarrow> u8 \<Rightarrow> bytes \<Rightarrow> store_manager \<Rightarrow> store_manager \<times> unit result" where
  "pm_writeProperty objectIndex pid startIndex elementCount data m =
     (case m objectIndex of
        None \<Rightarrow> (m, Inl InvalidParameter)
      | Some s \<Rightarrow>
          (case ps_writeProperty pid startIndex elementCount data s of
             (s1, r) \<Rightarrow> (m(objectIndex \<mapsto> s1), r)))"

section \<open>Lemmas\<close>

lemma map_keys_set: "set (map_keys m) = dom m"
proof -
  have "k \<in> of_nat ` {0 ..< 256}" for k :: u8
  proof -
    have "k = of_nat (unat k)" by simp
    moreover have "unat k \<in> {0 ..< 256}" by simp
    ultimately show ?thesis by blast
  qed
  then show ?thesis by (auto simp: map_keys_def dom_def)
qed

lemma map_keys_distinct: "distinct (map_keys m)"
proof -
  have "inj_on (of_nat :: nat \<Rightarrow> u8) {0 ..< 256}"
    by (rule inj_onI) (metis atLeastLessThan_iff unat_of_nat_u8)
  then show ?thesis by (simp add: map_keys_def distinct_map)
qed

lemma map_keys_le: "length (map_keys m) \<le> 256"
  using length_filter_le [of "\<lambda>k. m k \<noteq> None" "map of_nat [0 ..< 256]"] by (simp add: map_keys_def)

lemma map_keys_nonempty: "m k \<noteq> None \<Longrightarrow> map_keys m \<noteq> []"
  using map_keys_set [of m] by auto

lemma map_keys_single: "map_keys [k \<mapsto> v] = [k]"
proof -
  have "set (map_keys [k \<mapsto> v]) = {k}" by (simp add: map_keys_set)
  moreover have "length (map_keys [k \<mapsto> v]) = card {k}"
    using distinct_card [OF map_keys_distinct [of "[k \<mapsto> v]"]] calculation by simp
  ultimately show ?thesis by (cases "map_keys [k \<mapsto> v]") auto
qed

text \<open>The bytes of a property after a write: an array of elements, updated in place and extended
  with zeros where it was too short.\<close>

lemma write_bytes:
  fixes old new data :: bytes
  assumes "new = take off (old @ replicate (off + length data - length old) 0) @ data @
      drop (off + length data) (old @ replicate (off + length data - length old) 0)"
  shows "length new = max (length old) (off + length data)"
    and "i < length new \<Longrightarrow> new ! i =
      (if off \<le> i \<and> i < off + length data then data ! (i - off) else if i < length old then old ! i else 0)"
proof -
  define q where "q = old @ replicate (off + length data - length old) 0"
  have lq: "length q = max (length old) (off + length data)" by (simp add: q_def)
  have new: "new = take off q @ data @ drop (off + length data) q" using assms by (simp add: q_def)
  have tk: "length (take off q) = off" using lq by simp
  show ln: "length new = max (length old) (off + length data)" using lq by (simp add: new)
  have q: "q ! j = (if j < length old then old ! j else 0)" if "j < length q" for j
    using that by (simp add: q_def nth_append)
  assume i: "i < length new"
  consider "i < off" | "off \<le> i" "i < off + length data" | "off + length data \<le> i" by linarith
  then show "new ! i =
      (if off \<le> i \<and> i < off + length data then data ! (i - off) else if i < length old then old ! i else 0)"
  proof cases
    case 1
    then have "new ! i = q ! i" using tk by (simp add: new nth_append)
    with 1 q [of i] i ln lq show ?thesis by auto
  next
    case 2
    then show ?thesis using tk by (auto simp: new nth_append)
  next
    case 3
    have "new ! i = drop (off + length data) q ! (i - (off + length data))"
      using 3 tk by (auto simp: new nth_append)
    also have "\<dots> = q ! (off + length data + (i - (off + length data)))" by (rule nth_drop) (simp add: lq)
    also have "off + length data + (i - (off + length data)) = i" using 3 by simp
    finally show ?thesis using 3 q [of i] i ln lq by auto
  qed
qed

lemma write_read_bytes:
  fixes old data :: bytes
  assumes "new = take off (old @ replicate (off + length data - length old) 0) @ data @
      drop (off + length data) (old @ replicate (off + length data - length old) 0)"
  shows "take (length data) (drop off new) = data"
proof (rule nth_equalityI)
  have l: "length new = max (length old) (off + length data)" by (rule write_bytes(1) [OF assms])
  then show "length (take (length data) (drop off new)) = length data" by simp
  fix i assume "i < length (take (length data) (drop off new))"
  then have i: "i < length data" by simp
  have "new ! (off + i) = data ! i" using write_bytes(2) [OF assms, of "off + i"] i l by simp
  with i l show "take (length data) (drop off new) ! i = data ! i" by simp
qed

lemma ps_write_read:
  assumes "ps_writeProperty pid si n data s = (s1, Inr ())" and "si > 0"
    and "ps_descriptors s pid = Some d" and "getElementSize d \<noteq> 0"
  shows "ps_readProperty s1 pid si n (length data) = Inr data"
proof -
  obtain v where v: "ps_properties s pid = Some v"
    using assms(1) by (auto simp: ps_writeProperty_def split: option.splits)
  let ?off = "(unat si - 1) * getElementSize d"
  let ?old = "pv_data v @ replicate (?off + length data - length (pv_data v)) 0"
  define new where "new = take ?off ?old @ data @ drop (?off + length data) ?old"
  have c: "si \<le> pd_maxElements d" "length data = unat n * getElementSize d"
    and s1: "s1 = s\<lparr>ps_properties := (ps_properties s)(pid \<mapsto> v\<lparr>pv_data := new\<rparr>)\<rparr>"
    using assms v by (auto simp: ps_writeProperty_def Let_def new_def split: if_splits)
  have "?off + length data \<le> length new" using write_bytes(1) [OF new_def] by simp
  moreover have "take (length data) (drop ?off new) = data" by (rule write_read_bytes [OF new_def])
  ultimately show ?thesis using assms(2-4) c by (auto simp: ps_readProperty_def s1)
qed

lemma ps_write_frame:
  assumes "ps_writeProperty pid si n data s = (s1, r)"
  shows "ps_descriptors s1 = ps_descriptors s" "ps_objectType s1 = ps_objectType s"
    "ps_objectIndex s1 = ps_objectIndex s" "q \<noteq> pid \<Longrightarrow> ps_properties s1 q = ps_properties s q"
    "r \<noteq> Inr () \<Longrightarrow> s1 = s"
  using assms by (auto simp: ps_writeProperty_def Let_def split: option.splits if_splits)

lemma pm_write_frame:
  assumes "pm_writeProperty oi pid si n data m = (m1, r)"
  shows "o2 \<noteq> oi \<Longrightarrow> m1 o2 = m o2" "r \<noteq> Inr () \<Longrightarrow> m1 = m"
    "map_option ps_objectType (m1 o2) = map_option ps_objectType (m o2)"
    "map_option ps_descriptors (m1 o2) = map_option ps_descriptors (m o2)"
  using assms ps_write_frame
  by (auto simp: pm_writeProperty_def fun_upd_idem split: option.splits prod.splits)

end
