(* ===== verification/Access_Control.thy ===== *)
theory Access_Control
  imports Interfaces Apci Transport
begin

text \<open>
  Who may do what: the authorization service (\<open>src/application/authorization_service.cpp\<close>), the
  access policies of the security interface object and of the management writes
  (\<open>src/application/security_access_policy.cpp\<close>) and the restart service
  (\<open>src/application/restart_service.cpp\<close>). The authorized devices are the first
  \<open>_authorizedCount\<close> entries of the code's array. The callbacks a service may have installed are
  fields of \<open>auth_env\<close> and \<open>restart_env\<close>; what goes to a response callback is the second result of
  the handler. The lemmas bound the table and tie every level it grants to a key that was presented.
\<close>

section \<open>Authorization (authorization\_service.cpp)\<close>

datatype auth_level = AlNone | AlManagement | AlConfiguration | AlMaximum

fun auth_level_code :: "auth_level \<Rightarrow> u8" where
  "auth_level_code AlNone = 0"
| "auth_level_code AlManagement = 1"
| "auth_level_code AlConfiguration = 2"
| "auth_level_code AlMaximum = 3"

datatype auth_result = ArSuccess | ArDenied | ArNotSupported | ArInvalidKey

record authorized_device =
  ad_address :: individual_address
  ad_level :: auth_level
  ad_timestamp :: u32

record authorization =
  az_managementKey :: bytes
  az_configurationKey :: bytes
  az_maximumKey :: bytes
  az_keysConfigured :: bool
  az_devices :: "authorized_device list"
  az_timeout :: u32
  az_clock :: u32

definition MAX_AUTHORIZED_DEVICES :: nat where "MAX_AUTHORIZED_DEVICES = 16"

text \<open>\<open>av_time\<close> is what the time source returns when one is set.\<close>

record auth_env =
  av_validate :: "(individual_address \<Rightarrow> bytes \<Rightarrow> auth_level result) option"
  av_time :: "u32 option"

definition authorization_init :: authorization where
  "authorization_init =
     \<lparr>az_managementKey = [0, 0, 0, 0], az_configurationKey = [0, 0, 0, 0], az_maximumKey = [0, 0, 0, 0],
      az_keysConfigured = False, az_devices = [], az_timeout = 0, az_clock = 0\<rparr>"

definition az_setKeys :: "bytes \<Rightarrow> bytes \<Rightarrow> bytes \<Rightarrow> authorization \<Rightarrow> authorization" where
  "az_setKeys managementKey configurationKey maximumKey s =
     s\<lparr>az_managementKey := managementKey, az_configurationKey := configurationKey, az_maximumKey := maximumKey,
       az_keysConfigured := True\<rparr>"

definition az_setTimeout :: "u32 \<Rightarrow> authorization \<Rightarrow> authorization" where
  "az_setTimeout t s = s\<lparr>az_timeout := t\<rparr>"

definition az_currentTime :: "auth_env \<Rightarrow> authorization \<Rightarrow> authorization \<times> u32" where
  "az_currentTime E s =
     (case av_time E of
        Some t \<Rightarrow> (s, t)
      | None \<Rightarrow> (s\<lparr>az_clock := az_clock s + 1\<rparr>, az_clock s + 1))"

definition isExpired :: "authorization \<Rightarrow> authorized_device \<Rightarrow> u32 \<Rightarrow> bool" where
  "isExpired s device now = (if az_timeout s = 0 then False else now - ad_timestamp device \<ge> az_timeout s)"

definition same_parts :: "individual_address \<Rightarrow> individual_address \<Rightarrow> bool" where
  "same_parts a b \<longleftrightarrow> ia_area a = ia_area b \<and> ia_line a = ia_line b \<and> ia_device a = ia_device b"

definition findAuthorizedDevice :: "authorization \<Rightarrow> individual_address \<Rightarrow> nat option" where
  "findAuthorizedDevice s address = find_index (\<lambda>d. same_parts (ad_address d) address) (az_devices s)"

definition removeAuthorizedDeviceAt :: "nat \<Rightarrow> authorization \<Rightarrow> authorization" where
  "removeAuthorizedDeviceAt i s = s\<lparr>az_devices := fv_erase (az_devices s) i\<rparr>"

function removeExpired_loop :: "u32 \<Rightarrow> nat \<Rightarrow> authorization \<Rightarrow> authorization" where
  "removeExpired_loop now i s =
     (if i < length (az_devices s)
      then if \<not> isExpired s (az_devices s ! i) now then removeExpired_loop now (i + 1) s
           else removeExpired_loop now i (removeAuthorizedDeviceAt i s)
      else s)"
  by pat_completeness auto
termination
  by (relation "measure (\<lambda>(now, i, s). length (az_devices s) - i)")
    (auto simp: removeAuthorizedDeviceAt_def fv_erase_def)

declare removeExpired_loop.simps [simp del]

definition removeExpiredAuthorizations :: "u32 \<Rightarrow> authorization \<Rightarrow> authorization" where
  "removeExpiredAuthorizations now s = removeExpired_loop now 0 s"

fun oldest_from :: "authorized_device list \<Rightarrow> nat list \<Rightarrow> nat \<Rightarrow> nat" where
  "oldest_from ds [] oldest = oldest"
| "oldest_from ds (i # is) oldest =
     oldest_from ds is (if ad_timestamp (ds ! i) < ad_timestamp (ds ! oldest) then i else oldest)"

definition oldestAuthorizationIndex :: "authorization \<Rightarrow> nat" where
  "oldestAuthorizationIndex s = oldest_from (az_devices s) [1 ..< length (az_devices s)] 0"

definition storeAuthorization :: "auth_env \<Rightarrow> individual_address \<Rightarrow> auth_level \<Rightarrow> authorization \<Rightarrow> authorization" where
  "storeAuthorization E address level s0 =
     (let (s1, now) = az_currentTime E s0; s = removeExpiredAuthorizations now s1;
          entry = \<lparr>ad_address = address, ad_level = level, ad_timestamp = now\<rparr> in
      case findAuthorizedDevice s address of
        Some i \<Rightarrow> s\<lparr>az_devices := (az_devices s)[i := (az_devices s ! i)\<lparr>ad_level := level, ad_timestamp := now\<rparr>]\<rparr>
      | None \<Rightarrow>
          if length (az_devices s) < MAX_AUTHORIZED_DEVICES then s\<lparr>az_devices := az_devices s @ [entry]\<rparr>
          else s\<lparr>az_devices := (az_devices s)[oldestAuthorizationIndex s := entry]\<rparr>)"

definition az_validateKey :: "authorization \<Rightarrow> bytes \<Rightarrow> auth_result \<times> auth_level" where
  "az_validateKey s key =
     (if \<not> az_keysConfigured s then (ArSuccess, AlMaximum)
      else if key = az_maximumKey s then (ArSuccess, AlMaximum)
      else if key = az_configurationKey s then (ArSuccess, AlConfiguration)
      else if key = az_managementKey s then (ArSuccess, AlManagement)
      else (ArDenied, AlNone))"

definition az_handleRequest ::
    "auth_env \<Rightarrow> individual_address \<Rightarrow> bytes \<Rightarrow> authorization \<Rightarrow>
      authorization \<times> (individual_address \<times> auth_level) list \<times> unit result" where
  "az_handleRequest E src key s =
     (case (case av_validate E of
              Some validate \<Rightarrow> validate src key
            | None \<Rightarrow>
                (case az_validateKey s key of
                   (r, level) \<Rightarrow> if r \<noteq> ArSuccess then Inl OperationNotSupported else Inr level)) of
        Inl e \<Rightarrow> (s, [(src, AlNone)], Inl e)
      | Inr level \<Rightarrow> (storeAuthorization E src level s, [(src, level)], Inr ()))"

definition getCurrentLevel :: "auth_env \<Rightarrow> individual_address \<Rightarrow> authorization \<Rightarrow> authorization \<times> auth_level" where
  "getCurrentLevel E address s =
     (case findAuthorizedDevice s address of
        None \<Rightarrow> (s, AlNone)
      | Some i \<Rightarrow>
          (let (s1, now) = az_currentTime E s in
           (s1, if isExpired s1 (az_devices s ! i) now then AlNone else ad_level (az_devices s ! i))))"

definition clearAuthorization :: "individual_address \<Rightarrow> authorization \<Rightarrow> authorization" where
  "clearAuthorization address s =
     (case findAuthorizedDevice s address of None \<Rightarrow> s | Some i \<Rightarrow> removeAuthorizedDeviceAt i s)"

definition clearAllAuthorizations :: "authorization \<Rightarrow> authorization" where
  "clearAllAuthorizations s = s\<lparr>az_devices := []\<rparr>"

subsection \<open>Codecs\<close>

definition az_encodeRequest :: "bytes \<Rightarrow> bytes result" where
  "az_encodeRequest key = buildTpdu data_tpci (apci_create S_AuthorizeRequest 0) key 6"

definition az_encodeResponse :: "auth_level \<Rightarrow> bytes result" where
  "az_encodeResponse level = buildTpdu data_tpci (apci_create S_AuthorizeResponse 0) [auth_level_code level] 3"

definition az_decodeRequest :: "bytes \<Rightarrow> bytes result" where
  "az_decodeRequest data =
     (if length data < 6 then Inl DecodeFailed
      else if apci_service_of (h_apci (unpackTpduHeader (data ! 0) (data ! 1))) \<noteq> S_AuthorizeRequest then Inl DecodeFailed
      else Inr (take 4 (drop 2 data)))"

definition az_decodeResponse :: "bytes \<Rightarrow> auth_level result" where
  "az_decodeResponse data =
     (if length data < 3 then Inl DecodeFailed
      else if apci_service_of (h_apci (unpackTpduHeader (data ! 0) (data ! 1))) \<noteq> S_AuthorizeResponse then Inl DecodeFailed
      else let level = data ! 2 in
        if level > auth_level_code AlMaximum then Inl InvalidParameter
        else Inr (if level = 0 then AlNone else if level = 1 then AlManagement
                  else if level = 2 then AlConfiguration else AlMaximum))"

section \<open>Access policies (security\_access\_policy.cpp)\<close>

definition toolSecured :: "request_security \<Rightarrow> bool" where
  "toolSecured r \<longleftrightarrow> rs_secured r \<and> rs_toolAccess r \<and> rs_confidentiality r"

definition kSecurityInterfaceObjectType :: u16 where "kSecurityInterfaceObjectType = 17"

text \<open>The property identifiers of the switch: object type 1, object name 2, load state control 5,
  security mode 51, failures log 55, report 57 and report control 58 may be read in plain.\<close>

definition securityObjectAccessPermitted :: "u16 \<Rightarrow> bool \<Rightarrow> request_security \<Rightarrow> bool" where
  "securityObjectAccessPermitted propertyId write security =
     (if toolSecured security then True
      else if write then False
      else propertyId \<in> {1, 2, 5, 51, 55, 57, 58})"

definition isManagementWriteService :: "apci_service \<Rightarrow> bool" where
  "isManagementWriteService service \<longleftrightarrow>
     service \<in> {S_PropertyValueWrite, S_PropertyExtValueWriteCon, S_PropertyExtValueWriteUnCon,
       S_FunctionPropertyCommand, S_FunctionPropertyExtCommand, S_MemoryWrite, S_MemoryExtendedWrite,
       S_IndividualAddressWrite, S_IndividualAddressSerialNumberWrite, S_NetworkParameterWrite,
       S_SystemNetworkParameterWrite, S_AuthorizeRequest, S_KeyWrite, S_Restart}"

definition managementWritePermitted :: "apci_service \<Rightarrow> bool \<Rightarrow> request_security \<Rightarrow> bool" where
  "managementWritePermitted service securityModeEnabled security =
     (if \<not> isManagementWriteService service then True
      else if \<not> securityModeEnabled then True
      else toolSecured security)"

section \<open>Restart (restart\_service.cpp)\<close>

datatype restart_type = RtBasic | RtMasterReset

datatype restart_action = RaCleanup | RaRestart restart_type

record restart_service =
  rt_pending :: bool
  rt_type :: restart_type

text \<open>The restart callback's own result is only logged; whether one is set decides.\<close>

record restart_env =
  re_authorize :: "(individual_address \<Rightarrow> unit result) option"
  re_hasRestart :: bool
  re_hasCleanup :: bool

definition restart_init :: restart_service where
  "restart_init = \<lparr>rt_pending = False, rt_type = RtBasic\<rparr>"

definition rt_handleRequest :: "restart_env \<Rightarrow> individual_address \<Rightarrow> restart_type \<Rightarrow> restart_service \<Rightarrow> restart_service \<times> unit result" where
  "rt_handleRequest E src type s =
     (case (case re_authorize E of Some auth \<Rightarrow> auth src | None \<Rightarrow> Inr ()) of
        Inl e \<Rightarrow> (s, Inl e)
      | Inr _ \<Rightarrow>
          if \<not> re_hasRestart E then (s, Inl OperationNotReady)
          else (s\<lparr>rt_pending := True, rt_type := type\<rparr>, Inr ()))"

definition executePendingRestart :: "restart_env \<Rightarrow> restart_service \<Rightarrow> restart_service \<times> restart_action list" where
  "executePendingRestart E s =
     (if \<not> rt_pending s then (s, [])
      else (s\<lparr>rt_pending := False\<rparr>,
            (if re_hasCleanup E then [RaCleanup] else []) @ (if re_hasRestart E then [RaRestart (rt_type s)] else [])))"

definition cancelRestart :: "restart_service \<Rightarrow> restart_service" where
  "cancelRestart s = s\<lparr>rt_pending := False\<rparr>"

definition rt_encodeRequest :: "restart_type \<Rightarrow> bytes result" where
  "rt_encodeRequest type =
     buildTpdu data_tpci (apci_create S_Restart 0) [if type = RtBasic then 0 else 1] 3"

definition rt_decodeRequest :: "bytes \<Rightarrow> restart_type result" where
  "rt_decodeRequest data =
     (if length data < 3 then Inl DecodeFailed
      else if apci_service_of (h_apci (unpackTpduHeader (data ! 0) (data ! 1))) \<noteq> S_Restart then Inl DecodeFailed
      else if data ! 2 > 1 then Inl InvalidParameter
      else Inr (if data ! 2 = 0 then RtBasic else RtMasterReset))"

section \<open>The table of authorized devices\<close>

definition az_ok :: "authorization \<Rightarrow> bool" where
  "az_ok s \<longleftrightarrow> length (az_devices s) \<le> MAX_AUTHORIZED_DEVICES \<and> distinct (map ad_address (az_devices s))"

lemma same_parts_iff [simp]: "same_parts a b \<longleftrightarrow> a = b"
  unfolding same_parts_def by (metis ia_parts_roundtrip)

lemma fv_erase_filter:
  assumes "i < length xs" and "P (xs ! i)"
  shows "take i (fv_erase xs i) @ filter (\<lambda>x. \<not> P x) (drop i (fv_erase xs i)) =
    take i xs @ filter (\<lambda>x. \<not> P x) (drop i xs)"
  using assms Cons_nth_drop_Suc [of i xs, symmetric] by (simp add: fv_erase_def)

lemma removeExpired_loop_eq:
  "i \<le> length (az_devices s) \<Longrightarrow>
    removeExpired_loop now i s =
      s\<lparr>az_devices := take i (az_devices s) @ filter (\<lambda>d. \<not> isExpired s d now) (drop i (az_devices s))\<rparr>"
proof (induction now i s rule: removeExpired_loop.induct)
  case (1 now i s)
  show ?case
  proof (cases "i < length (az_devices s)")
    case False
    with "1.prems" show ?thesis by (simp add: removeExpired_loop.simps)
  next
    case True
    show ?thesis
    proof (cases "isExpired s (az_devices s ! i) now")
      case False
      have "drop i (az_devices s) = az_devices s ! i # drop (i + 1) (az_devices s)"
        using True by (simp add: Cons_nth_drop_Suc)
      with False True 1(1) show ?thesis
        by (subst removeExpired_loop.simps) (simp add: take_Suc_conv_app_nth)
    next
      case expired: True
      let ?s = "removeAuthorizedDeviceAt i s"
      have l: "i \<le> length (az_devices ?s)" using True by (simp add: removeAuthorizedDeviceAt_def fv_erase_def)
      have e: "isExpired ?s = isExpired s" by (intro ext) (simp add: isExpired_def removeAuthorizedDeviceAt_def)
      have "removeExpired_loop now i s = removeExpired_loop now i ?s"
        using True expired by (subst removeExpired_loop.simps) simp
      also have "\<dots> = ?s\<lparr>az_devices := take i (az_devices ?s) @ filter (\<lambda>d. \<not> isExpired ?s d now) (drop i (az_devices ?s))\<rparr>"
        using 1(2) True expired l by simp
      also have "\<dots> = s\<lparr>az_devices := take i (az_devices s) @ filter (\<lambda>d. \<not> isExpired s d now) (drop i (az_devices s))\<rparr>"
        using fv_erase_filter [of i "az_devices s" "\<lambda>d. isExpired s d now"] True expired
        unfolding e by (simp add: removeAuthorizedDeviceAt_def)
      finally show ?thesis .
    qed
  qed
qed

lemma removeExpired_eq:
  "removeExpiredAuthorizations now s = s\<lparr>az_devices := filter (\<lambda>d. \<not> isExpired s d now) (az_devices s)\<rparr>"
  by (simp add: removeExpiredAuthorizations_def removeExpired_loop_eq)

lemma oldest_from_min:
  "oldest_from ds is k \<in> insert k (set is) \<and>
   (\<forall>j \<in> insert k (set is). ad_timestamp (ds ! oldest_from ds is k) \<le> ad_timestamp (ds ! j))"
proof (induction "is" arbitrary: k)
  case (Cons i "is")
  let ?k = "if ad_timestamp (ds ! i) < ad_timestamp (ds ! k) then i else k"
  have "ad_timestamp (ds ! ?k) \<le> ad_timestamp (ds ! i)" "ad_timestamp (ds ! ?k) \<le> ad_timestamp (ds ! k)"
    by (auto simp: not_less)
  with Cons [of ?k] show ?case by (auto intro: order_trans split: if_splits)
qed simp

lemma oldest_index:
  assumes "az_devices s \<noteq> []"
  shows "oldestAuthorizationIndex s < length (az_devices s)"
    and "d \<in> set (az_devices s) \<Longrightarrow> ad_timestamp (az_devices s ! oldestAuthorizationIndex s) \<le> ad_timestamp d"
proof -
  let ?n = "length (az_devices s)"
  have ix: "insert 0 (set [1 ..< ?n]) = {0 ..< ?n}" using assms by auto
  note o = oldest_from_min [of "az_devices s" "[1 ..< ?n]" 0, unfolded ix]
  show "oldestAuthorizationIndex s < ?n" using o by (simp add: oldestAuthorizationIndex_def)
  assume "d \<in> set (az_devices s)"
  then obtain j where "j < ?n" "az_devices s ! j = d" by (auto simp: in_set_conv_nth)
  then show "ad_timestamp (az_devices s ! oldestAuthorizationIndex s) \<le> ad_timestamp d"
    using o by (auto simp: oldestAuthorizationIndex_def)
qed

lemma set_list_update_distinct:
  assumes "i < length xs" and "distinct xs"
  shows "set (xs[i := x]) = insert x (set xs - {xs ! i})"
  using assms by (auto simp: set_update_distinct)

lemma distinct_addresses: "distinct (map ad_address ds) \<Longrightarrow> distinct ds"
  by (rule distinct_map [THEN iffD1, THEN conjunct1])

text \<open>Who is in the table besides the new entry: the live entries of the other devices.\<close>

definition live_others :: "authorization \<Rightarrow> individual_address \<Rightarrow> u32 \<Rightarrow> authorized_device list" where
  "live_others s a now = filter (\<lambda>d. \<not> isExpired s d now \<and> ad_address d \<noteq> a) (az_devices s)"

lemma az_currentTime_devices [simp]:
  "az_devices (fst (az_currentTime E s)) = az_devices s"
  "isExpired (fst (az_currentTime E s)) = isExpired s"
  by (auto simp: az_currentTime_def isExpired_def fun_eq_iff split: option.splits)

lemma isExpired_devices [simp]: "isExpired (s\<lparr>az_devices := ds\<rparr>) = isExpired s"
  by (simp add: isExpired_def fun_eq_iff)

lemma storeAuthorization_outcome:
  fixes a :: individual_address and level :: auth_level
  assumes "az_ok s" and "now = snd (az_currentTime E s)"
  defines "entry \<equiv> \<lparr>ad_address = a, ad_level = level, ad_timestamp = now\<rparr>"
  defines "live \<equiv> live_others s a now"
  shows "az_ok (storeAuthorization E a level s) \<and>
    (if length live < MAX_AUTHORIZED_DEVICES
     then set (az_devices (storeAuthorization E a level s)) = insert entry (set live)
     else \<exists>v \<in> set live. (\<forall>d \<in> set live. ad_timestamp v \<le> ad_timestamp d) \<and>
       set (az_devices (storeAuthorization E a level s)) = insert entry (set live - {v}))"
proof -
  define ds where "ds = filter (\<lambda>d. \<not> isExpired s d now) (az_devices s)"
  let ?s = "(fst (az_currentTime E s))\<lparr>az_devices := ds\<rparr>"
  have r: "removeExpiredAuthorizations now (fst (az_currentTime E s)) = ?s"
    by (simp add: removeExpired_eq ds_def)
  have dist: "distinct (map ad_address ds)" "distinct ds"
    using assms(1) by (auto simp: az_ok_def ds_def distinct_map_filter dest: distinct_addresses)
  have len: "length ds \<le> MAX_AUTHORIZED_DEVICES"
    using assms(1) length_filter_le [of "\<lambda>d. \<not> isExpired s d now" "az_devices s"]
    unfolding az_ok_def ds_def by linarith
  have live: "live = filter (\<lambda>d. ad_address d \<noteq> a) ds"
    by (simp add: live_def live_others_def ds_def conj_commute)
  have st: "storeAuthorization E a level s =
      (case find_index (\<lambda>d. ad_address d = a) ds of
         Some i \<Rightarrow> ?s\<lparr>az_devices := ds[i := (ds ! i)\<lparr>ad_level := level, ad_timestamp := now\<rparr>]\<rparr>
       | None \<Rightarrow>
           if length ds < MAX_AUTHORIZED_DEVICES then ?s\<lparr>az_devices := ds @ [entry]\<rparr>
           else ?s\<lparr>az_devices := ds[oldestAuthorizationIndex ?s := entry]\<rparr>)"
    using r assms(2) by (auto simp: storeAuthorization_def Let_def split_beta findAuthorizedDevice_def entry_def
        split: option.splits)
  show ?thesis
  proof (cases "find_index (\<lambda>d. ad_address d = a) ds")
    case (Some i)
    from find_index_Some [OF Some] have i: "i < length ds" "ad_address (ds ! i) = a" by auto
    have e: "(ds ! i)\<lparr>ad_level := level, ad_timestamp := now\<rparr> = entry"
      using i(2) by (cases "ds ! i") (simp add: entry_def)
    have u: "d = ds ! i" if "d \<in> set ds" "ad_address d = a" for d
      using that i dist(1) by (auto simp: in_set_conv_nth distinct_conv_nth)
    have sl: "set live = set ds - {ds ! i}" using u i(2) by (auto simp: live)
    have "length live < length ds" using i unfolding live
      by (intro length_filter_less [of "ds ! i"]) simp_all
    then have "length live < MAX_AUTHORIZED_DEVICES" using len by simp
    moreover have "map ad_address (ds[i := entry]) = map ad_address ds"
      using i by (simp add: map_update entry_def list_update_same_conv)
    ultimately show ?thesis
      using set_list_update_distinct [OF i(1) dist(2)] sl dist(1) len
      by (simp add: st Some e az_ok_def)
  next
    case None
    then have na: "\<forall>d \<in> set ds. ad_address d \<noteq> a" by (simp add: find_index_None)
    then have ld: "live = ds" by (auto simp: live)
    show ?thesis
    proof (cases "length ds < MAX_AUTHORIZED_DEVICES")
      case True
      with None na dist(1) show ?thesis by (auto simp: st ld az_ok_def entry_def)
    next
      case False
      then have ne: "az_devices ?s \<noteq> []" by (auto simp: MAX_AUTHORIZED_DEVICES_def)
      let ?o = "oldestAuthorizationIndex ?s"
      have o: "?o < length ds" "\<And>d. d \<in> set ds \<Longrightarrow> ad_timestamp (ds ! ?o) \<le> ad_timestamp d"
        using oldest_index [OF ne] by simp_all
      have "a \<notin> set (map ad_address ds)" using na by auto
      then have "distinct (map ad_address (ds[?o := entry]))"
        using dist(1) by (simp add: map_update entry_def distinct_list_update)
      moreover have dev: "az_devices (storeAuthorization E a level s) = ds[?o := entry]"
        by (simp add: st None False)
      ultimately have "az_ok (storeAuthorization E a level s)" using len by (simp add: az_ok_def)
      moreover have "set (ds[?o := entry]) = insert entry (set ds - {ds ! ?o})"
        by (rule set_list_update_distinct [OF o(1) dist(2)])
      ultimately show ?thesis
        using False o unfolding dev ld by (auto intro!: bexI [of _ "ds ! ?o"])
    qed
  qed
qed

text \<open>
  An authorization request that is granted answers with the granted level and enters the
  sender into the table of authorized devices with that level and the current time; every other
  device whose authorization has not expired keeps it, unless sixteen of them fill the table, and then
  only the one with the smallest time stamp is dropped. The table never holds a device twice.
\<close>

theorem authorization_granted:
  assumes "az_ok s" and "az_handleRequest E src key s = (s1, out, Inr ())"
  shows "az_ok s1 \<and> (\<exists>level. out = [(src, level)] \<and>
    (let now = snd (az_currentTime E s); live = live_others s src now;
         entry = \<lparr>ad_address = src, ad_level = level, ad_timestamp = now\<rparr> in
     if length live < 16 then set (az_devices s1) = insert entry (set live)
     else \<exists>v \<in> set live. (\<forall>d \<in> set live. ad_timestamp v \<le> ad_timestamp d) \<and>
            set (az_devices s1) = insert entry (set live - {v})))"
proof -
  obtain level where "s1 = storeAuthorization E src level s" "out = [(src, level)]"
    using assms(2) by (auto simp: az_handleRequest_def split: sum.splits)
  with storeAuthorization_outcome [OF assms(1) refl, of E src level] show ?thesis
    by (simp add: Let_def MAX_AUTHORIZED_DEVICES_def)
qed

theorem authorization_granted_witness:
  "az_ok (fst (az_handleRequest \<lparr>av_validate = None, av_time = Some 5\<rparr> 0x1101 [1, 2, 3, 4]
     (az_setKeys [9, 9, 9, 9] [1, 2, 3, 4] [7, 7, 7, 7] authorization_init)))"
  (is "az_ok (fst (az_handleRequest ?E ?a ?k ?s))")
proof -
  have ok: "az_ok ?s" by (simp add: az_ok_def az_setKeys_def authorization_init_def)
  have "az_handleRequest ?E ?a ?k ?s =
      (fst (az_handleRequest ?E ?a ?k ?s), fst (snd (az_handleRequest ?E ?a ?k ?s)), Inr ())"
    by (simp add: az_handleRequest_def az_validateKey_def az_setKeys_def)
  from authorization_granted [OF ok this] show ?thesis by (rule conjunct1)
qed

section \<open>No level without a key\<close>

datatype auth_event =
    AeRequest individual_address bytes
  | AeQuery individual_address
  | AeClear individual_address
  | AeClearAll

fun az_step :: "auth_env \<times> auth_event \<Rightarrow> authorization \<Rightarrow> authorization" where
  "az_step (E, AeRequest a key) s = fst (az_handleRequest E a key s)"
| "az_step (E, AeQuery a) s = fst (getCurrentLevel E a s)"
| "az_step (E, AeClear a) s = clearAuthorization a s"
| "az_step (E, AeClearAll) s = clearAllAuthorizations s"

text \<open>The three keys and the level each one opens, the highest first: a key that is given for several levels opens
  the highest of them.\<close>

definition opens :: "bytes \<Rightarrow> bytes \<Rightarrow> bytes \<Rightarrow> bytes \<Rightarrow> auth_level \<Rightarrow> bool" where
  "opens managementKey configurationKey maximumKey key level \<longleftrightarrow>
     level = AlMaximum \<and> key = maximumKey
     \<or> level = AlConfiguration \<and> key = configurationKey \<and> key \<noteq> maximumKey
     \<or> level = AlManagement \<and> key = managementKey \<and> key \<noteq> configurationKey \<and> key \<noteq> maximumKey"

text \<open>The service reads the time source, if one is installed, and otherwise its own counter, which every reading
  moves on by one.\<close>

definition clock_reading :: "auth_env \<Rightarrow> authorization \<Rightarrow> u32" where
  "clock_reading E s = (case av_time E of Some t \<Rightarrow> t | None \<Rightarrow> az_clock s + 1)"

definition same_policy :: "authorization \<Rightarrow> authorization \<Rightarrow> bool" where
  "same_policy s t \<longleftrightarrow>
     az_managementKey s = az_managementKey t \<and> az_configurationKey s = az_configurationKey t \<and>
     az_maximumKey s = az_maximumKey t \<and> az_keysConfigured s = az_keysConfigured t \<and> az_timeout s = az_timeout t"

lemma same_policy_refl [simp]: "same_policy s s"
  by (simp add: same_policy_def)

lemma same_policy_trans: "same_policy s t \<Longrightarrow> same_policy t u \<Longrightarrow> same_policy s u"
  by (simp add: same_policy_def)

lemma same_policy_validate: "same_policy s t \<Longrightarrow> az_validateKey s = az_validateKey t"
  by (simp add: same_policy_def az_validateKey_def fun_eq_iff)

lemma validateKey_opens:
  "same_policy s (az_setKeys mk ck xk s0) \<Longrightarrow> az_validateKey s key = (ArSuccess, level) \<Longrightarrow> opens mk ck xk key level"
  by (auto simp: same_policy_def az_validateKey_def az_setKeys_def opens_def split: if_splits)

lemma currentTime_policy:
  "same_policy (fst (az_currentTime E s)) s" "snd (az_currentTime E s) = clock_reading E s"
  by (simp_all add: az_currentTime_def clock_reading_def same_policy_def split: option.split)

lemma storeAuthorization_policy: "same_policy (storeAuthorization E a level s) s"
proof -
  have "same_policy (storeAuthorization E a level s) (fst (az_currentTime E s))"
    by (simp add: storeAuthorization_def removeExpired_eq same_policy_def split_beta Let_def split: option.split)
  then show ?thesis using currentTime_policy(1) by (rule same_policy_trans)
qed

lemma storeAuthorization_entries:
  assumes "az_ok s"
  shows "set (az_devices (storeAuthorization E a level s)) \<subseteq>
    insert \<lparr>ad_address = a, ad_level = level, ad_timestamp = clock_reading E s\<rparr> (set (az_devices s))"
  using storeAuthorization_outcome [OF assms refl, of E a level]
  by (auto simp: currentTime_policy(2) live_others_def split: if_splits)

lemma clearAuthorization_entries:
  assumes "az_ok s"
  shows "same_policy (clearAuthorization a s) s" "az_ok (clearAuthorization a s)"
    "set (az_devices (clearAuthorization a s)) \<subseteq> {d \<in> set (az_devices s). ad_address d \<noteq> a}"
proof -
  let ?ds = "az_devices s"
  show "same_policy (clearAuthorization a s) s"
    by (simp add: clearAuthorization_def removeAuthorizedDeviceAt_def same_policy_def split: option.split)
  have "az_ok (clearAuthorization a s) \<and> set (az_devices (clearAuthorization a s)) \<subseteq> {d \<in> set ?ds. ad_address d \<noteq> a}"
  proof (cases "findAuthorizedDevice s a")
    case None
    then have "ad_address d \<noteq> a" if "d \<in> set ?ds" for d
      using that by (auto simp: findAuthorizedDevice_def find_index_None)
    with None assms show ?thesis by (auto simp: clearAuthorization_def)
  next
    case (Some i)
    then have i: "i < length ?ds" "ad_address (?ds ! i) = a"
      using find_index_Some [of "\<lambda>d. same_parts (ad_address d) a" ?ds i] by (auto simp: findAuthorizedDevice_def)
    have ds: "?ds = take i ?ds @ ?ds ! i # drop (Suc i) ?ds" using i(1) by (rule id_take_nth_drop)
    have dist: "distinct (map ad_address (take i ?ds @ ?ds ! i # drop (Suc i) ?ds))"
      using assms unfolding az_ok_def ds [symmetric] by simp
    have c: "clearAuthorization a s = s\<lparr>az_devices := take i ?ds @ drop (Suc i) ?ds\<rparr>"
      using Some i(1) by (simp add: clearAuthorization_def removeAuthorizedDeviceAt_def fv_erase_def)
    have "set (take i ?ds @ drop (Suc i) ?ds) \<subseteq> {d \<in> set ?ds. ad_address d \<noteq> a}"
      using dist i(2) by (auto dest: in_set_takeD in_set_dropD) (metis image_eqI)+
    moreover have "length (take i ?ds @ drop (Suc i) ?ds) \<le> length ?ds" by simp
    ultimately show ?thesis using assms dist unfolding c by (auto simp: az_ok_def)
  qed
  then show "az_ok (clearAuthorization a s)"
    "set (az_devices (clearAuthorization a s)) \<subseteq> {d \<in> set ?ds. ad_address d \<noteq> a}" by blast+
qed

text \<open>Every entry of the table comes from a request of the entry's device with the key of the entry's level, made
  when the clock showed the entry's time, and no later event cleared the device.\<close>

definition backed ::
    "bytes \<times> bytes \<times> bytes \<Rightarrow> authorization \<Rightarrow> (auth_env \<times> auth_event) list \<Rightarrow> individual_address \<Rightarrow> auth_level \<Rightarrow> u32 \<Rightarrow> bool" where
  "backed keys s0 es a level t \<longleftrightarrow>
     (\<exists>k E key. k < length es \<and> es ! k = (E, AeRequest a key) \<and>
        opens (fst keys) (fst (snd keys)) (snd (snd keys)) key level \<and> t = clock_reading E (fold az_step (take k es) s0) \<and>
        (\<forall>j. k < j \<and> j < length es \<longrightarrow> snd (es ! j) \<noteq> AeClear a \<and> snd (es ! j) \<noteq> AeClearAll))"

abbreviation entry_backed ::
    "bytes \<times> bytes \<times> bytes \<Rightarrow> authorization \<Rightarrow> (auth_env \<times> auth_event) list \<Rightarrow> authorized_device \<Rightarrow> bool" where
  "entry_backed keys s0 es d \<equiv> backed keys s0 es (ad_address d) (ad_level d) (ad_timestamp d)"

lemma backed_later:
  assumes "backed keys s0 es a level t" "e \<noteq> AeClear a" "e \<noteq> AeClearAll"
  shows "backed keys s0 (es @ [(E, e)]) a level t"
proof -
  obtain k E0 key where k: "k < length es" "es ! k = (E0, AeRequest a key)"
    "opens (fst keys) (fst (snd keys)) (snd (snd keys)) key level" "t = clock_reading E0 (fold az_step (take k es) s0)"
    "\<forall>j. k < j \<and> j < length es \<longrightarrow> snd (es ! j) \<noteq> AeClear a \<and> snd (es ! j) \<noteq> AeClearAll"
    using assms(1) by (auto simp: backed_def)
  then show ?thesis unfolding backed_def using assms(2,3)
    by (intro exI [of _ k] exI [of _ E0] exI [of _ key]) (auto simp: nth_append less_Suc_eq)
qed

lemma backed_now:
  assumes "opens mk ck xk key level"
  shows "backed (mk, ck, xk) s0 (es @ [(E, AeRequest a key)]) a level (clock_reading E (fold az_step es s0))"
  unfolding backed_def using assms
  by (intro exI [of _ "length es"] exI [of _ E] exI [of _ key]) auto

lemma az_step_backed:
  assumes "av_validate E = None" and "same_policy s (az_setKeys mk ck xk s0)" and "az_ok s"
    and "\<forall>d \<in> set (az_devices s). entry_backed (mk, ck, xk) s1 es d" and "s = fold az_step es s1"
  shows "same_policy (az_step (E, e) s) (az_setKeys mk ck xk s0) \<and> az_ok (az_step (E, e) s) \<and>
    (\<forall>d \<in> set (az_devices (az_step (E, e) s)). entry_backed (mk, ck, xk) s1 (es @ [(E, e)]) d)"
proof (cases e)
  case (AeRequest a key)
  have later: "\<forall>d \<in> set (az_devices s). entry_backed (mk, ck, xk) s1 (es @ [(E, e)]) d"
    using assms(4) AeRequest by (auto intro: backed_later)
  obtain r level where v: "az_validateKey s key = (r, level)" by fastforce
  show ?thesis
  proof (cases "r = ArSuccess")
    case True
    let ?n = "\<lparr>ad_address = a, ad_level = level, ad_timestamp = clock_reading E s\<rparr>"
    have st: "az_step (E, e) s = storeAuthorization E a level s"
      using assms(1) AeRequest v True by (simp add: az_handleRequest_def)
    have "opens mk ck xk key level" using validateKey_opens [OF assms(2)] v True by simp
    then have "entry_backed (mk, ck, xk) s1 (es @ [(E, e)]) ?n"
      using backed_now [of mk ck xk key level s1 es E a] by (simp add: AeRequest assms(5))
    moreover have "same_policy (storeAuthorization E a level s) (az_setKeys mk ck xk s0)"
      using storeAuthorization_policy assms(2) by (rule same_policy_trans)
    moreover have "az_ok (storeAuthorization E a level s)" using storeAuthorization_outcome [OF assms(3) refl] by blast
    ultimately show ?thesis using later storeAuthorization_entries [OF assms(3), of E a level] unfolding st by blast
  next
    case False
    with AeRequest v assms(1) have "az_step (E, e) s = s" by (simp add: az_handleRequest_def)
    with later assms(2,3) show ?thesis by simp
  qed
next
  case (AeQuery a)
  have "az_devices (az_step (E, e) s) = az_devices s" "same_policy (az_step (E, e) s) s"
    using AeQuery currentTime_policy(1) [of E s] by (auto simp: getCurrentLevel_def split_beta Let_def split: option.split)
  with assms(2-4) AeQuery show ?thesis by (auto simp: az_ok_def intro: backed_later same_policy_trans)
next
  case (AeClear a)
  with clearAuthorization_entries [OF assms(3), of a] assms(2,4) show ?thesis
    by (auto intro: backed_later same_policy_trans)
next
  case AeClearAll
  with assms(2) show ?thesis by (simp add: clearAllAuthorizations_def same_policy_def az_ok_def)
qed

lemma az_run_backed:
  fixes mk ck xk :: bytes
  assumes "\<forall>(E, e) \<in> set es. av_validate E = None" and "az_devices s0 = []"
  defines "s1 \<equiv> az_setKeys mk ck xk s0"
  shows "same_policy (fold az_step es s1) s1 \<and> az_ok (fold az_step es s1) \<and>
    (\<forall>d \<in> set (az_devices (fold az_step es s1)). entry_backed (mk, ck, xk) s1 es d)"
  using assms(1)
proof (induction es rule: rev_induct)
  case Nil
  then show ?case using assms(2) by (simp add: s1_def az_setKeys_def az_ok_def)
next
  case (snoc x es)
  obtain E e where x: "x = (E, e)" by fastforce
  from snoc show ?case
    using az_step_backed [of E "fold az_step es s1" mk ck xk s0 s1 es e] by (simp add: x s1_def)
qed

text \<open>
  C22. Whatever authorization requests, queries and clearings a device has processed since its three keys were set
  and its table was empty, in any order and from any senders, it reports a level above none for a communication
  partner only if that partner itself presented the key that opens exactly this level (the maximum key first, then
  the configuration and the management key), no event since then cleared the partner's authorization, and, when a
  timeout is set, the clock has moved on by less than the timeout since. The clock is the installed time source or,
  without one, as in the stack's own wiring, the counter of the service, which each stored authorization and each
  query of a listed device moves on by one. The built-in key check is in use (no validation callback).
\<close>

theorem authorization_needs_key:
  assumes "\<forall>(E, e) \<in> set es. av_validate E = None" and "az_devices s0 = []"
    and "s1 = az_setKeys managementKey configurationKey maximumKey s0"
    and "snd (getCurrentLevel E a (fold az_step es s1)) = level" and "level \<noteq> AlNone"
  shows "\<exists>k E0 key. k < length es \<and> es ! k = (E0, AeRequest a key) \<and>
    opens managementKey configurationKey maximumKey key level \<and>
    (\<forall>j. k < j \<and> j < length es \<longrightarrow> snd (es ! j) \<noteq> AeClear a \<and> snd (es ! j) \<noteq> AeClearAll) \<and>
    (az_timeout s0 = 0 \<or>
     clock_reading E (fold az_step es s1) - clock_reading E0 (fold az_step (take k es) s1) < az_timeout s0)"
proof -
  let ?s = "fold az_step es s1"
  have run: "same_policy ?s s1" "\<And>d. d \<in> set (az_devices ?s) \<Longrightarrow>
      entry_backed (managementKey, configurationKey, maximumKey) s1 es d"
    using az_run_backed [OF assms(1,2)] by (auto simp: assms(3))
  obtain i where f: "findAuthorizedDevice ?s a = Some i"
    using assms(4,5) by (auto simp: getCurrentLevel_def split: option.splits)
  let ?d = "az_devices ?s ! i"
  have i: "i < length (az_devices ?s)" "ad_address ?d = a"
    using find_index_Some [OF f [unfolded findAuthorizedDevice_def]] by auto
  have l: "\<not> isExpired ?s ?d (clock_reading E ?s)" "level = ad_level ?d"
    using assms(4,5) f by (auto simp: getCurrentLevel_def split_beta Let_def currentTime_policy(2) split: if_splits)
  have "az_timeout ?s = az_timeout s0" using run(1) by (simp add: same_policy_def assms(3) az_setKeys_def)
  with l(1) have "az_timeout s0 = 0 \<or> clock_reading E ?s - ad_timestamp ?d < az_timeout s0"
    by (auto simp: isExpired_def not_le split: if_splits)
  with run(2) [of ?d] i l(2) show ?thesis by (fastforce simp: backed_def)
qed

text \<open>Without a time source, as the stack is wired: two partners, one query, one clearing.\<close>

definition sample_auth_env :: auth_env where
  "sample_auth_env = \<lparr>av_validate = None, av_time = None\<rparr>"

definition sample_auth_run :: "(auth_env \<times> auth_event) list" where
  "sample_auth_run = map (Pair sample_auth_env)
     [AeRequest 0x1101 [1, 1, 1, 1], AeRequest 0x1102 [3, 3, 3, 3], AeQuery 0x1101, AeClear 0x1101]"

theorem authorization_needs_key_witness:
  "\<exists>k E0 key. k < 4 \<and> sample_auth_run ! k = (E0, AeRequest 0x1102 key) \<and>
    opens [1, 1, 1, 1] [2, 2, 2, 2] [3, 3, 3, 3] key AlMaximum"
proof -
  let ?s0 = "az_setTimeout 100 authorization_init"
  have h: "\<forall>(E, e) \<in> set sample_auth_run. av_validate E = None" "az_devices ?s0 = []" "length sample_auth_run = 4"
    by (simp_all add: sample_auth_run_def sample_auth_env_def az_setTimeout_def authorization_init_def)
  have "snd (getCurrentLevel sample_auth_env 0x1102
      (fold az_step sample_auth_run (az_setKeys [1, 1, 1, 1] [2, 2, 2, 2] [3, 3, 3, 3] ?s0))) = AlMaximum"
    by code_simp
  from authorization_needs_key [OF h(1,2) refl this] show ?thesis unfolding h(3) by fastforce
qed

section \<open>Policies and restart\<close>

lemma securityObjectAccess_plain:
  "\<not> toolSecured sec \<Longrightarrow>
    securityObjectAccessPermitted pid write sec \<longleftrightarrow> \<not> write \<and> pid \<in> {1, 2, 5, 51, 55, 57, 58}"
  by (simp add: securityObjectAccessPermitted_def)

lemma managementWrite_secure:
  "isManagementWriteService service \<Longrightarrow> managementWritePermitted service True sec \<longleftrightarrow> toolSecured sec"
  by (simp add: managementWritePermitted_def)

text \<open>A restart happens only after a request that was authorized, with the requested type, and once.\<close>

lemma restart_once:
  "rt_handleRequest E src type s = (s1, Inr ()) \<Longrightarrow>
     executePendingRestart E s1 = (s1\<lparr>rt_pending := False\<rparr>, (if re_hasCleanup E then [RaCleanup] else []) @ [RaRestart type]) \<and>
     executePendingRestart E (s1\<lparr>rt_pending := False\<rparr>) = (s1\<lparr>rt_pending := False\<rparr>, [])"
  by (auto simp: rt_handleRequest_def executePendingRestart_def split: sum.splits if_splits)

lemma restart_refused: "rt_handleRequest E src type s = (s1, Inl e) \<Longrightarrow> s1 = s"
  by (auto simp: rt_handleRequest_def split: sum.splits if_splits)

lemma rt_codec: "rt_encodeRequest type = Inr bs \<Longrightarrow> rt_decodeRequest bs = Inr type"
proof -
  assume "rt_encodeRequest type = Inr bs"
  then have "bs = [fst (packTpduHeader data_tpci (apci_create S_Restart 0)),
      snd (packTpduHeader data_tpci (apci_create S_Restart 0)), if type = RtBasic then 0 else 1]"
    by (simp add: rt_encodeRequest_def buildTpdu_room)
  then show ?thesis by (cases type) (simp_all add: rt_decodeRequest_def apci_service_short)
qed

lemma apci_service_authorize [simp]:
  "apci_service_of (apci_create S_AuthorizeRequest 0) = S_AuthorizeRequest"
  "apci_service_of (apci_create S_AuthorizeResponse 0) = S_AuthorizeResponse"
  by (simp_all add: apci_service_of_def apci_create_def apci_codes)

interpretation azq: result_codec az_encodeRequest az_decodeRequest "\<lambda>key. length key = 4"
  by unfold_locales (auto simp: az_encodeRequest_def az_decodeRequest_def buildTpdu_room)

interpretation azr: result_codec az_encodeResponse az_decodeResponse "\<lambda>_. True"
proof
  fix l b assume "az_encodeResponse l = Inr b"
  then have "b = [fst (packTpduHeader data_tpci (apci_create S_AuthorizeResponse 0)),
      snd (packTpduHeader data_tpci (apci_create S_AuthorizeResponse 0)), auth_level_code l]"
    by (simp add: az_encodeResponse_def buildTpdu_room)
  then show "az_decodeResponse b = Inr l" by (cases l) (simp_all add: az_decodeResponse_def)
qed

end
