(* ===== verification/Property_Services.thy ===== *)
theory Property_Services
  imports Property_Store Access_Control
begin

text \<open>
  The property services: \<open>src/application/property_services.cpp\<close> (A\_PropertyValue\_* and
  A\_PropertyDescription\_*), \<open>src/application/property_ext_services.cpp\<close> (A\_PropertyExtValue\_* and
  its companions) and \<open>src/application/function_property_services.cpp\<close>. The providers that the device
  may install (the live interface objects, the function properties) are the fields of \<open>'v providers\<close>
  over their own state \<open>'v\<close>; a read provider gets the zeroed buffer and returns it filled, with the
  number of octets it wrote. The access check is a function of the addressed property, and a device
  without one passes the constant \<open>True\<close>. The response callbacks are set, as
  \<open>ApplicationLayer::init\<close> does before any request can arrive; what they are called with is the list
  of answers of a handler. The lemmas show that every handler of a confirmed service answers
  exactly once, and that a value written through a service is the value read back.
\<close>

section \<open>Requests and responses (apci\_services.hpp, property\_services.hpp)\<close>

record property_read_request =
  rq_objectIndex :: u8
  rq_propertyId :: u8
  rq_elementCount :: u8
  rq_startIndex :: u16

record property_write_request =
  wq_objectIndex :: u8
  wq_propertyId :: u8
  wq_elementCount :: u8
  wq_startIndex :: u16
  wq_data :: bytes

record property_value_response =
  vr_objectIndex :: u8
  vr_propertyId :: u8
  vr_elementCount :: u8
  vr_startIndex :: u16
  vr_data :: bytes

record property_description =
  di_objectIndex :: u8
  di_propertyId :: u8
  di_propertyIndex :: u8
  di_writeAllowed :: bool
  di_type :: u8
  di_maxElements :: u16
  di_readLevel :: u8
  di_writeLevel :: u8

datatype fp_invocation = FpCommand | FpStateRead

record function_request =
  fq_objectIndex :: u8
  fq_propertyId :: u8
  fq_invocation :: fp_invocation
  fq_data :: bytes
  fq_security :: request_security

type_synonym 'v read_provider =
  "individual_address \<Rightarrow> property_read_request \<Rightarrow> bytes \<Rightarrow> 'v \<Rightarrow> 'v \<times> (bytes \<times> nat) result option"

record 'v providers =
  pp_read :: "'v read_provider option"
  pp_consume :: "(individual_address \<Rightarrow> property_write_request \<Rightarrow> 'v \<Rightarrow> 'v \<times> unit result) option"
  pp_write :: "(individual_address \<Rightarrow> property_write_request \<Rightarrow> 'v \<Rightarrow> 'v \<times> unit result) option"
  pp_describe :: "(individual_address \<Rightarrow> u8 \<Rightarrow> u8 \<Rightarrow> u8 \<Rightarrow> 'v \<Rightarrow> 'v \<times> property_description option) option"
  pp_function :: "(individual_address \<Rightarrow> function_request \<Rightarrow> 'v \<Rightarrow> 'v \<times> (u8 \<times> bytes) result) option"
  pp_extFunction :: "(individual_address \<Rightarrow> property_ext_header \<Rightarrow> fp_invocation \<Rightarrow> request_security \<Rightarrow> bytes \<Rightarrow>
      'v \<Rightarrow> 'v \<times> (u8 \<times> bytes) option) option"

record 'v props =
  pr_store :: store_manager
  pr_live :: 'v

definition PROPERTY_DATA_CAPACITY :: nat where "PROPERTY_DATA_CAPACITY = 254"
definition kMaxPropertyRegistrations :: nat where "kMaxPropertyRegistrations = 64"

section \<open>Property value and description services (property\_services.cpp)\<close>

definition ask_read :: "'v providers \<Rightarrow> individual_address \<Rightarrow> property_read_request \<Rightarrow> 'v \<Rightarrow> 'v \<times> (bytes \<times> nat) result option" where
  "ask_read P src rq v =
     (case pp_read P of None \<Rightarrow> (v, None) | Some f \<Rightarrow> f src rq (replicate PROPERTY_DATA_CAPACITY 0) v)"

definition negative_response :: "u8 \<Rightarrow> u8 \<Rightarrow> u16 \<Rightarrow> property_value_response" where
  "negative_response oi pid si =
     \<lparr>vr_objectIndex = oi, vr_propertyId = pid, vr_elementCount = 0, vr_startIndex = si, vr_data = []\<rparr>"

definition pv_handleValueRead ::
    "'v providers \<Rightarrow> (u8 \<Rightarrow> u8 \<Rightarrow> bool \<Rightarrow> bool) \<Rightarrow> individual_address \<Rightarrow> property_read_request \<Rightarrow> 'v props \<Rightarrow>
      'v props \<times> (individual_address \<times> property_value_response) list \<times> unit result" where
  "pv_handleValueRead P chk src rq s =
     (let oi = rq_objectIndex rq; pid = rq_propertyId rq; si = rq_startIndex rq; n = rq_elementCount rq;
          neg = [(src, negative_response oi pid si)];
          pos = (\<lambda>data. [(src, \<lparr>vr_objectIndex = oi, vr_propertyId = pid, vr_elementCount = if si = 0 then 1 else n,
                                vr_startIndex = si, vr_data = data\<rparr>)]) in
      if \<not> chk oi pid False then (s, neg, Inl AccessDenied)
      else case ask_read P src rq (pr_live s) of (v, ans) \<Rightarrow>
        (let s1 = s\<lparr>pr_live := v\<rparr> in
         case ans of
           Some (Inl e) \<Rightarrow> (s1, neg, Inl e)
         | Some (Inr (buf, bytesRead)) \<Rightarrow>
             if bytesRead > PROPERTY_DATA_CAPACITY then (s1, [], Inl BufferTooSmall)
             else (s1, pos (take bytesRead buf), Inr ())
         | None \<Rightarrow>
             (case pr_store s oi of
                None \<Rightarrow> (s1, neg, Inl OperationFailed)
              | Some obj \<Rightarrow>
                  (case getDescriptor obj pid of
                     None \<Rightarrow> (s1, neg, Inl OperationFailed)
                   | Some d \<Rightarrow>
                       (let byteCount = unat n * getElementSize d in
                        if byteCount > PROPERTY_DATA_CAPACITY then (s1, neg, Inl BufferTooSmall)
                        else case pm_readProperty (pr_store s) oi pid si n byteCount of
                          Inl e \<Rightarrow> (s1, neg, Inl e)
                        | Inr data \<Rightarrow> (s1, pos data, Inr ()))))))"

text \<open>The confirmation of a write carries the current value: of the live object if it can be read,
  else of the store, else the request's own data.\<close>

definition read_back ::
    "'v providers \<Rightarrow> individual_address \<Rightarrow> property_write_request \<Rightarrow> 'v props \<Rightarrow> 'v props \<times> bytes option" where
  "read_back P src w s =
     (let rb = \<lparr>rq_objectIndex = wq_objectIndex w, rq_propertyId = wq_propertyId w,
                rq_elementCount = wq_elementCount w, rq_startIndex = wq_startIndex w\<rparr> in
      case ask_read P src rb (pr_live s) of (v, ans) \<Rightarrow>
        (let s1 = s\<lparr>pr_live := v\<rparr>;
             stored = (case pr_store s (wq_objectIndex w) of
                 None \<Rightarrow> None
               | Some obj \<Rightarrow>
                   (case getDescriptor obj (wq_propertyId w) of
                      None \<Rightarrow> None
                    | Some d \<Rightarrow>
                        (let byteCount = unat (wq_elementCount w) * getElementSize d in
                         if byteCount \<le> PROPERTY_DATA_CAPACITY
                         then case pm_readProperty (pr_store s) (wq_objectIndex w) (wq_propertyId w)
                                     (wq_startIndex w) (wq_elementCount w) byteCount of
                                Inl _ \<Rightarrow> None
                              | Inr data \<Rightarrow> Some data
                         else None))) in
         case ans of
           Some (Inr (buf, n)) \<Rightarrow> (s1, if n \<le> PROPERTY_DATA_CAPACITY then Some (take n buf) else stored)
         | _ \<Rightarrow> (s1, stored)))"

definition write_confirmation ::
    "'v providers \<Rightarrow> individual_address \<Rightarrow> property_write_request \<Rightarrow> 'v props \<Rightarrow>
      'v props \<times> (individual_address \<times> property_value_response) list" where
  "write_confirmation P src w s =
     (case read_back P src w s of (s1, back) \<Rightarrow>
        (s1, [(src, \<lparr>vr_objectIndex = wq_objectIndex w, vr_propertyId = wq_propertyId w,
                     vr_elementCount = wq_elementCount w, vr_startIndex = wq_startIndex w,
                     vr_data = (case back of Some data \<Rightarrow> data | None \<Rightarrow> wq_data w)\<rparr>)]))"

definition pv_handleValueWrite ::
    "'v providers \<Rightarrow> (u8 \<Rightarrow> u8 \<Rightarrow> bool \<Rightarrow> bool) \<Rightarrow> individual_address \<Rightarrow> property_write_request \<Rightarrow> 'v props \<Rightarrow>
      'v props \<times> (individual_address \<times> property_value_response) list \<times> unit result" where
  "pv_handleValueWrite P chk src w s =
     (let oi = wq_objectIndex w; pid = wq_propertyId w;
          neg = [(src, negative_response oi pid (wq_startIndex w))];
          confirm = (\<lambda>s. case write_confirmation P src w s of (s1, out) \<Rightarrow> (s1, out, Inr ())) in
      if \<not> chk oi pid True then (s, neg, Inl AccessDenied)
      else case pp_write P of
        Some f \<Rightarrow>
          (case f src w (pr_live s) of
             (v, Inl e) \<Rightarrow> (s\<lparr>pr_live := v\<rparr>, neg, Inl e)
           | (v, Inr _) \<Rightarrow> confirm (s\<lparr>pr_live := v\<rparr>))
      | None \<Rightarrow>
          (case (case pp_consume P of None \<Rightarrow> (pr_live s, Inr ()) | Some f \<Rightarrow> f src w (pr_live s)) of
             (v, Inl e) \<Rightarrow> (s\<lparr>pr_live := v\<rparr>, neg, Inl e)
           | (v, Inr _) \<Rightarrow>
               (case pm_writeProperty oi pid (wq_startIndex w) (wq_elementCount w) (wq_data w) (pr_store s) of
                  (m, Inl e) \<Rightarrow> (s\<lparr>pr_live := v, pr_store := m\<rparr>, neg, Inl e)
                | (m, Inr _) \<Rightarrow> confirm (s\<lparr>pr_live := v, pr_store := m\<rparr>))))"

definition pv_handleDescriptionRead ::
    "'v providers \<Rightarrow> (u8 \<Rightarrow> u8 \<Rightarrow> bool \<Rightarrow> bool) \<Rightarrow> individual_address \<Rightarrow> u8 \<Rightarrow> u8 \<Rightarrow> u8 \<Rightarrow> 'v props \<Rightarrow>
      'v props \<times> (individual_address \<times> property_description) list \<times> unit result" where
  "pv_handleDescriptionRead P chk src oi pid pix s =
     (let absent = (\<lambda>i t. [(src, \<lparr>di_objectIndex = oi, di_propertyId = i, di_propertyIndex = pix,
              di_writeAllowed = False, di_type = t, di_maxElements = 0, di_readLevel = 0, di_writeLevel = 0\<rparr>)]) in
      if pid \<noteq> 0 \<and> \<not> chk oi pid False then (s, absent pid 0x11, Inl AccessDenied)
      else case (case pp_describe P of None \<Rightarrow> (pr_live s, None) | Some f \<Rightarrow> f src oi pid pix (pr_live s)) of
        (v, Some info) \<Rightarrow> (s\<lparr>pr_live := v\<rparr>, [(src, info)], Inr ())
      | (v, None) \<Rightarrow>
          (let s1 = s\<lparr>pr_live := v\<rparr> in
           case pr_store s oi of
             None \<Rightarrow> (s1, absent pid 0, Inr ())
           | Some obj \<Rightarrow>
               (let ids = map_keys (ps_properties obj); needed = length ids in
                if pix \<noteq> 0 \<and> (unat pix > needed \<or> needed > kMaxPropertyRegistrations) then (s1, absent pid 0, Inr ())
                else let p = (if pix = 0 then pid else ids ! (unat pix - 1)) in
                  case getDescriptor obj p of
                    None \<Rightarrow> (s1, absent p 0, Inr ())
                  | Some d \<Rightarrow>
                      (s1, [(src, \<lparr>di_objectIndex = oi, di_propertyId = p, di_propertyIndex = pix,
                                  di_writeAllowed = (pd_access d \<noteq> PaReadOnly), di_type = pd_type d,
                                  di_maxElements = pd_maxElements d, di_readLevel = pd_readLevel d,
                                  di_writeLevel = pd_writeLevel d\<rparr>)], Inr ()))))"

subsection \<open>Codecs\<close>

definition count_index_octet :: "u8 \<Rightarrow> u16 \<Rightarrow> u8" where
  "count_index_octet n si = push_bit 4 n OR (ucast (drop_bit 8 si) AND 0x0F)"

definition pv_encodeValueReadRequest :: "property_read_request \<Rightarrow> bytes result" where
  "pv_encodeValueReadRequest rq =
     buildTpdu data_tpci (apci_create S_PropertyValueRead 0)
       [rq_objectIndex rq, rq_propertyId rq, count_index_octet (rq_elementCount rq) (rq_startIndex rq),
        getLowByte (rq_startIndex rq)] 6"

definition pv_decodeValueReadRequest :: "bytes \<Rightarrow> property_read_request" where
  "pv_decodeValueReadRequest data =
     (if length data < 6
      then \<lparr>rq_objectIndex = 0, rq_propertyId = 0, rq_elementCount = 0, rq_startIndex = 0\<rparr>
      else \<lparr>rq_objectIndex = data ! 2, rq_propertyId = data ! 3, rq_elementCount = drop_bit 4 (data ! 4) AND 0x0F,
            rq_startIndex = word_be (data ! 4 AND 0x0F) (data ! 5)\<rparr>)"

definition value_tpdu :: "apci_service \<Rightarrow> u8 \<Rightarrow> u8 \<Rightarrow> u8 \<Rightarrow> u16 \<Rightarrow> bytes \<Rightarrow> nat \<Rightarrow> bytes result" where
  "value_tpdu service oi pid n si data outSize =
     (if outSize < 6 + length data then Inl BufferTooSmall
      else case packTpduHeader data_tpci (apci_create service 0) of
        (b0, b1) \<Rightarrow> Inr ([b0, b1, oi, pid, count_index_octet n si, getLowByte si] @ data))"

definition pv_encodeValueResponse :: "property_value_response \<Rightarrow> nat \<Rightarrow> bytes result" where
  "pv_encodeValueResponse r outSize =
     value_tpdu S_PropertyValueResponse (vr_objectIndex r) (vr_propertyId r) (vr_elementCount r) (vr_startIndex r)
       (vr_data r) outSize"

definition pv_encodeValueWriteRequest :: "property_write_request \<Rightarrow> nat \<Rightarrow> bytes result" where
  "pv_encodeValueWriteRequest w outSize =
     value_tpdu S_PropertyValueWrite (wq_objectIndex w) (wq_propertyId w) (wq_elementCount w) (wq_startIndex w)
       (wq_data w) outSize"

definition pv_decodeValueWriteRequest :: "bytes \<Rightarrow> property_write_request" where
  "pv_decodeValueWriteRequest data =
     (if length data < 6
      then \<lparr>wq_objectIndex = 0, wq_propertyId = 0, wq_elementCount = 0, wq_startIndex = 0, wq_data = []\<rparr>
      else \<lparr>wq_objectIndex = data ! 2, wq_propertyId = data ! 3, wq_elementCount = drop_bit 4 (data ! 4) AND 0x0F,
            wq_startIndex = word_be (data ! 4 AND 0x0F) (data ! 5),
            wq_data = (if length data - 6 > PROPERTY_DATA_CAPACITY then [] else drop 6 data)\<rparr>)"

definition pv_decodeValueResponse :: "bytes \<Rightarrow> property_value_response" where
  "pv_decodeValueResponse data =
     (if length data < 6
      then \<lparr>vr_objectIndex = 0, vr_propertyId = 0, vr_elementCount = 0, vr_startIndex = 0, vr_data = []\<rparr>
      else \<lparr>vr_objectIndex = data ! 2, vr_propertyId = data ! 3, vr_elementCount = drop_bit 4 (data ! 4) AND 0x0F,
            vr_startIndex = word_be (data ! 4 AND 0x0F) (data ! 5),
            vr_data = (if length data - 6 > PROPERTY_DATA_CAPACITY then [] else drop 6 data)\<rparr>)"

definition pv_encodeDescriptionReadRequest :: "u8 \<Rightarrow> u8 \<Rightarrow> u8 \<Rightarrow> bytes result" where
  "pv_encodeDescriptionReadRequest oi pid pix =
     buildTpdu data_tpci (apci_create S_PropertyDescriptionRead 0) [oi, pid, pix] 5"

definition description_octets :: "property_description \<Rightarrow> bytes" where
  "description_octets d =
     [di_objectIndex d, di_propertyId d, di_propertyIndex d,
      di_type d OR (if di_writeAllowed d then 0x80 else 0),
      getHighByte (di_maxElements d), getLowByte (di_maxElements d),
      push_bit 4 (di_readLevel d) OR (di_writeLevel d AND 0x0F)]"

definition pv_encodeDescriptionResponse :: "property_description \<Rightarrow> bytes result" where
  "pv_encodeDescriptionResponse d =
     buildTpdu data_tpci (apci_create S_PropertyDescriptionResponse 0) (description_octets d) 9"

section \<open>Extended property services (property\_ext\_services.cpp)\<close>

record ext_value_request =
  xq_header :: property_ext_header
  xq_elementCount :: u8
  xq_startIndex :: u16
  xq_data :: bytes

record ext_value_response =
  xr_header :: property_ext_header
  xr_elementCount :: u8
  xr_startIndex :: u16
  xr_returnCode :: knx_return_code
  xr_data :: bytes

record ext_description =
  xd_header :: property_ext_header
  xd_descriptionType :: u8
  xd_propertyIndex :: u16
  xd_dptMain :: u16
  xd_dptSub :: u16
  xd_writeEnabled :: bool
  xd_propertyDataType :: u8
  xd_maxElements :: u16
  xd_readLevel :: u8
  xd_writeLevel :: u8

record ext_function_response =
  xf_header :: property_ext_header
  xf_returnCode :: u8
  xf_data :: bytes

definition kMaxInterfaceObjects :: nat where "kMaxInterfaceObjects = 32"

definition accessRefusalFor :: "property_access \<Rightarrow> access_type \<Rightarrow> knx_return_code" where
  "accessRefusalFor access requested =
     (if requested = AtWrite \<and> access = PaReadOnly then RcAccessReadOnly
      else if requested = AtRead \<and> access = PaWriteOnly then RcAccessWriteOnly
      else RcAccessDenied)"

fun resolve_from :: "store_manager \<Rightarrow> u16 \<Rightarrow> u16 \<Rightarrow> u16 \<Rightarrow> u8 list \<Rightarrow> u8 option" where
  "resolve_from m objectType objectInstance seen [] = None"
| "resolve_from m objectType objectInstance seen (i # is) =
     (case m i of
        None \<Rightarrow> resolve_from m objectType objectInstance seen is
      | Some st \<Rightarrow>
          if ps_objectType st \<noteq> objectType then resolve_from m objectType objectInstance seen is
          else if seen + 1 = objectInstance then Some i
          else resolve_from m objectType objectInstance (seen + 1) is)"

definition resolveObject :: "store_manager \<Rightarrow> u16 \<Rightarrow> u16 \<Rightarrow> u8 option" where
  "resolveObject m objectType objectInstance =
     (if objectInstance = 0 then None
      else if length (map_keys m) > kMaxInterfaceObjects then None
      else resolve_from m objectType objectInstance 0 (map_keys m))"

definition value_failure :: "apci_service \<Rightarrow> ext_value_request \<Rightarrow> knx_return_code \<Rightarrow> ext_value_response" where
  "value_failure service rq rc =
     \<lparr>xr_header = xq_header rq, xr_elementCount = 0, xr_startIndex = xq_startIndex rq, xr_returnCode = rc,
      xr_data = (if service = S_PropertyExtValueResponse then [rc_code rc] else [])\<rparr>"

type_synonym ext_value_answer = "individual_address \<times> apci_service \<times> ext_value_response"

definition px_handleValueRead ::
    "'v providers \<Rightarrow> (u16 \<Rightarrow> u16 \<Rightarrow> bool \<Rightarrow> bool) \<Rightarrow> individual_address \<Rightarrow> ext_value_request \<Rightarrow> 'v props \<Rightarrow>
      'v props \<times> ext_value_answer list \<times> unit result" where
  "px_handleValueRead P chk src rq s =
     (let h = xq_header rq; si = xq_startIndex rq; n = xq_elementCount rq; pid = ucast (eh_propertyId h);
          failed = (\<lambda>rc. [(src, S_PropertyExtValueResponse, value_failure S_PropertyExtValueResponse rq rc)]);
          pos = (\<lambda>cnt data. [(src, S_PropertyExtValueResponse,
              \<lparr>xr_header = h, xr_elementCount = cnt, xr_startIndex = si, xr_returnCode = RcSuccess, xr_data = data\<rparr>)]) in
      if \<not> eh_fieldsInRange h then (s, failed RcAddressVoid, Inl InvalidParameter)
      else case resolveObject (pr_store s) (eh_objectType h) (eh_objectInstance h) of
        None \<Rightarrow> (s, failed RcAddressVoid, Inl InvalidAddress)
      | Some oi \<Rightarrow>
          if \<not> chk (eh_objectType h) (eh_propertyId h) False then (s, failed RcAccessDenied, Inl AccessDenied)
          else case Option.bind (pr_store s oi) (\<lambda>st. getDescriptor st pid) of
            None \<Rightarrow> (s, failed RcAddressVoid, Inl InvalidAddress)
          | Some d \<Rightarrow>
              if pd_access d = PaWriteOnly
              then (s, failed (accessRefusalFor (pd_access d) AtRead), Inl OperationNotSupported)
              else if si = 0
              then (case ask_read P src \<lparr>rq_objectIndex = oi, rq_propertyId = pid, rq_elementCount = 1, rq_startIndex = 0\<rparr>
                          (pr_live s) of
                      (v, ans) \<Rightarrow>
                        (let current = (case ans of
                               Some (Inr (buf, cnt)) \<Rightarrow>
                                 if cnt = 2 then word_be (buf ! 0) (buf ! 1) else pd_maxElements d
                             | _ \<Rightarrow> pd_maxElements d) in
                         (s\<lparr>pr_live := v\<rparr>, pos 1 [getHighByte current, getLowByte current], Inr ())))
              else if n = 0 then (s, failed RcDataVoid, Inl InvalidParameter)
              else (case ask_read P src \<lparr>rq_objectIndex = oi, rq_propertyId = pid, rq_elementCount = n, rq_startIndex = si\<rparr>
                           (pr_live s) of
                      (v, Some (Inl e)) \<Rightarrow> (s\<lparr>pr_live := v\<rparr>, failed RcDataVoid, Inl e)
                    | (v, Some (Inr (buf, cnt))) \<Rightarrow>
                        (s\<lparr>pr_live := v\<rparr>, pos n (take PROPERTY_DATA_CAPACITY (take cnt buf)), Inr ())
                    | (v, None) \<Rightarrow>
                        (case pm_readProperty (pr_store s) oi pid si n PROPERTY_DATA_CAPACITY of
                           Inl e \<Rightarrow> (s\<lparr>pr_live := v\<rparr>, failed RcAddressVoid, Inl e)
                         | Inr data \<Rightarrow> (s\<lparr>pr_live := v\<rparr>, pos n data, Inr ()))))"

definition px_handleValueWrite ::
    "'v providers \<Rightarrow> (u16 \<Rightarrow> u16 \<Rightarrow> bool \<Rightarrow> bool) \<Rightarrow> individual_address \<Rightarrow> ext_value_request \<Rightarrow> bool \<Rightarrow> 'v props \<Rightarrow>
      'v props \<times> ext_value_answer list \<times> unit result" where
  "px_handleValueWrite P chk src rq confirmed s =
     (let h = xq_header rq; si = xq_startIndex rq; n = xq_elementCount rq; pid = ucast (eh_propertyId h);
          failed = (\<lambda>rc. if confirmed
              then [(src, S_PropertyExtValueWriteConRes, value_failure S_PropertyExtValueWriteConRes rq rc)] else []);
          done1 = (if confirmed
              then [(src, S_PropertyExtValueWriteConRes,
                 \<lparr>xr_header = h, xr_elementCount = n, xr_startIndex = si, xr_returnCode = RcSuccess, xr_data = []\<rparr>)]
              else []) in
      if \<not> eh_fieldsInRange h then (s, failed RcAddressVoid, Inl InvalidParameter)
      else case resolveObject (pr_store s) (eh_objectType h) (eh_objectInstance h) of
        None \<Rightarrow> (s, failed RcAddressVoid, Inl InvalidAddress)
      | Some oi \<Rightarrow>
          if \<not> chk (eh_objectType h) (eh_propertyId h) True then (s, failed RcAccessDenied, Inl AccessDenied)
          else case Option.bind (pr_store s oi) (\<lambda>st. getDescriptor st pid) of
            None \<Rightarrow> (s, failed RcAddressVoid, Inl InvalidAddress)
          | Some d \<Rightarrow>
              if pd_access d = PaReadOnly
              then (s, failed (accessRefusalFor (pd_access d) AtWrite), Inl OperationNotSupported)
              else if n = 0 then (s, failed RcDataVoid, Inl InvalidParameter)
              else if si = 0 \<and> length (xq_data rq) \<noteq> 2 then (s, failed RcDataVoid, Inl InvalidParameter)
              else if si \<noteq> 0 \<and> getElementSize d \<noteq> 0 \<and> length (xq_data rq) < getElementSize d * unat n
              then (s, failed RcExceedsMaxApduLength, Inl InvalidParameter)
              else case pp_write P of
                Some f \<Rightarrow>
                  if length (xq_data rq) > PROPERTY_DATA_CAPACITY
                  then (s, failed RcExceedsMaxApduLength, Inl BufferTooSmall)
                  else (case f src \<lparr>wq_objectIndex = oi, wq_propertyId = pid, wq_elementCount = n, wq_startIndex = si,
                                   wq_data = xq_data rq\<rparr> (pr_live s) of
                          (v, Inl e) \<Rightarrow> (s\<lparr>pr_live := v\<rparr>, failed RcDataVoid, Inl e)
                        | (v, Inr _) \<Rightarrow> (s\<lparr>pr_live := v\<rparr>, done1, Inr ()))
              | None \<Rightarrow>
                  (case pm_writeProperty oi pid si n (xq_data rq) (pr_store s) of
                     (m, Inl e) \<Rightarrow> (s\<lparr>pr_store := m\<rparr>, failed RcDataVoid, Inl e)
                   | (m, Inr _) \<Rightarrow> (s\<lparr>pr_store := m\<rparr>, done1, Inr ())))"

definition px_handleDescriptionRead ::
    "(u16 \<Rightarrow> u16 \<Rightarrow> bool \<Rightarrow> bool) \<Rightarrow> individual_address \<Rightarrow> property_ext_header \<Rightarrow> u8 \<Rightarrow> u16 \<Rightarrow> 'v props \<Rightarrow>
      (individual_address \<times> ext_description) list \<times> unit result" where
  "px_handleDescriptionRead chk src h descriptionType pix s =
     (let base = \<lparr>xd_header = h, xd_descriptionType = descriptionType, xd_propertyIndex = pix, xd_dptMain = 0,
            xd_dptSub = 0, xd_writeEnabled = False, xd_propertyDataType = 0, xd_maxElements = 0, xd_readLevel = 0,
            xd_writeLevel = 0\<rparr> in
      if descriptionType \<noteq> 0 \<or> \<not> eh_fieldsInRange h then ([(src, base)], Inl InvalidParameter)
      else case resolveObject (pr_store s) (eh_objectType h) (eh_objectInstance h) of
        None \<Rightarrow> ([(src, base)], Inl InvalidAddress)
      | Some oi \<Rightarrow>
          if eh_propertyId h \<noteq> 0 \<and> \<not> chk (eh_objectType h) (eh_propertyId h) False
          then ([(src, base)], Inl AccessDenied)
          else case pr_store s oi of
            None \<Rightarrow> ([(src, base)], Inl InvalidAddress)
          | Some st \<Rightarrow>
              (let ids = map_keys (ps_properties st); needed = length ids in
               if eh_propertyId h = 0 \<and> (needed > kMaxPropertyRegistrations \<or> unat pix \<ge> needed)
               then ([(src, base)], Inl InvalidAddress)
               else let p = (if eh_propertyId h = 0 then ids ! unat pix else ucast (eh_propertyId h));
                        named = (if eh_propertyId h = 0 then base\<lparr>xd_header := h\<lparr>eh_propertyId := ucast p\<rparr>\<rparr> else base) in
                    case getDescriptor st p of
                      None \<Rightarrow> ([(src, named)], Inl InvalidAddress)
                    | Some d \<Rightarrow>
                        ([(src, named\<lparr>xd_writeEnabled := (pd_access d \<noteq> PaReadOnly),
                             xd_propertyDataType := pd_type d AND 0x3F, xd_maxElements := pd_maxElements d,
                             xd_readLevel := pd_readLevel d AND 0x0F, xd_writeLevel := pd_writeLevel d AND 0x0F\<rparr>)],
                         Inr ())))"

definition px_handleFunctionProperty ::
    "'v providers \<Rightarrow> individual_address \<Rightarrow> property_ext_header \<Rightarrow> bytes \<Rightarrow> request_security \<Rightarrow> fp_invocation \<Rightarrow>
      'v props \<Rightarrow> 'v props \<times> (individual_address \<times> ext_function_response) list \<times> unit result" where
  "px_handleFunctionProperty P src h data security invocation s =
     (let resp = (\<lambda>rc out. [(src, \<lparr>xf_header = h, xf_returnCode = rc, xf_data = out\<rparr>)]) in
      if \<not> eh_fieldsInRange h then (s, resp (rc_code RcAddressVoid) [], Inl InvalidParameter)
      else if resolveObject (pr_store s) (eh_objectType h) (eh_objectInstance h) = None
      then (s, resp (rc_code RcAddressVoid) [], Inl InvalidAddress)
      else case pp_extFunction P of
        None \<Rightarrow> (s, resp (rc_code RcDataTypeConflict) [], Inl OperationNotReady)
      | Some f \<Rightarrow>
          (case f src h invocation security data (pr_live s) of
             (v, None) \<Rightarrow> (s\<lparr>pr_live := v\<rparr>, resp (rc_code RcDataTypeConflict) [], Inl InvalidAddress)
           | (v, Some (rc, out)) \<Rightarrow> (s\<lparr>pr_live := v\<rparr>, resp rc out, Inr ())))"

section \<open>Function properties (function\_property\_services.cpp)\<close>

definition kMaxFunctionPropertyDataBytes :: nat where "kMaxFunctionPropertyDataBytes = 32"

record function_response =
  fr_objectIndex :: u8
  fr_propertyId :: u8
  fr_result :: "(u8 \<times> bytes) option"

text \<open>The response without return code and data answers for a property that is no function.\<close>

definition fp_handleRequest ::
    "'v providers \<Rightarrow> individual_address \<Rightarrow> function_request \<Rightarrow> 'v \<Rightarrow> 'v \<times> (individual_address \<times> function_response) list" where
  "fp_handleRequest P src rq v =
     (let resp = (\<lambda>r. [(src, \<lparr>fr_objectIndex = fq_objectIndex rq, fr_propertyId = fq_propertyId rq, fr_result = r\<rparr>)]) in
      case pp_function P of
        None \<Rightarrow> (v, resp None)
      | Some f \<Rightarrow>
          (case f src rq v of
             (v1, Inl _) \<Rightarrow> (v1, resp None)
           | (v1, Inr (rc, data)) \<Rightarrow> (v1, resp (Some (rc, data)))))"

definition fp_decodeRequest :: "bytes \<Rightarrow> function_request result" where
  "fp_decodeRequest apdu =
     (if length apdu < 4 then Inl DecodeFailed
      else let service = apci_service_of (h_apci (unpackTpduHeader (apdu ! 0) (apdu ! 1))); payload = drop 4 apdu in
        if service \<noteq> S_FunctionPropertyCommand \<and> service \<noteq> S_FunctionPropertyStateRead then Inl DecodeFailed
        else if length payload > kMaxFunctionPropertyDataBytes then Inl BufferTooSmall
        else Inr \<lparr>fq_objectIndex = apdu ! 2, fq_propertyId = apdu ! 3,
                  fq_invocation = (if service = S_FunctionPropertyCommand then FpCommand else FpStateRead),
                  fq_data = payload,
                  fq_security = \<lparr>rs_secured = False, rs_toolAccess = False, rs_confidentiality = False\<rparr>\<rparr>)"

definition function_octets :: "function_response \<Rightarrow> bytes" where
  "function_octets r =
     [fr_objectIndex r, fr_propertyId r] @ (case fr_result r of None \<Rightarrow> [] | Some (rc, data) \<Rightarrow> rc # data)"

definition fp_encodeResponse :: "function_response \<Rightarrow> nat \<Rightarrow> bytes result" where
  "fp_encodeResponse r outSize =
     (if outSize < 2 + length (function_octets r) then Inl BufferTooSmall
      else buildTpdu data_tpci (apci_create S_FunctionPropertyStateResponse 0) (function_octets r) outSize)"

section \<open>Every request is answered\<close>

text \<open>A read provider never reports more octets than its buffer holds.\<close>

definition honest :: "'v providers \<Rightarrow> bool" where
  "honest P \<longleftrightarrow>
     (\<forall>f src rq buf v v1 buf1 n. pp_read P = Some f \<longrightarrow> f src rq buf v = (v1, Some (Inr (buf1, n))) \<longrightarrow>
        n \<le> PROPERTY_DATA_CAPACITY)"

lemma ask_read_honest:
  "honest P \<Longrightarrow> ask_read P src rq v = (v1, Some (Inr (buf, n))) \<Longrightarrow> n \<le> PROPERTY_DATA_CAPACITY"
  by (auto simp: honest_def ask_read_def split: option.splits)

lemma value_read_answered:
  assumes "honest P"
  shows "map fst (fst (snd (pv_handleValueRead P chk src rq s))) = [src]"
proof -
  have "\<not> PROPERTY_DATA_CAPACITY < n" if "ask_read P src rq (pr_live s) = (v, Some (Inr (buf, n)))" for v buf n
    using ask_read_honest [OF assms that] by simp
  then show ?thesis
    by (auto simp: pv_handleValueRead_def Let_def split: prod.splits option.splits sum.splits)
qed

lemma value_write_answered: "map fst (fst (snd (pv_handleValueWrite P chk src w s))) = [src]"
  by (simp add: pv_handleValueWrite_def write_confirmation_def Let_def split: prod.splits option.splits sum.splits)

lemma description_answered: "map fst (fst (snd (pv_handleDescriptionRead P chk src oi pid pix s))) = [src]"
  by (cases "pp_describe P"; cases "pr_store s oi")
    (simp_all add: pv_handleDescriptionRead_def Let_def split_beta split: option.split)

lemma ext_value_read_answered: "map fst (fst (snd (px_handleValueRead P chk src rq s))) = [src]"
  by (simp add: px_handleValueRead_def Let_def split: prod.splits option.splits sum.splits)

lemma ext_value_write_answered:
  "map fst (fst (snd (px_handleValueWrite P chk src rq confirmed s))) = (if confirmed then [src] else [])"
  by (simp add: px_handleValueWrite_def Let_def split: prod.splits option.splits sum.splits)

lemma ext_description_answered: "map fst (fst (px_handleDescriptionRead chk src h t pix s)) = [src]"
  by (simp add: px_handleDescriptionRead_def Let_def split: option.splits)

lemma ext_function_answered: "map fst (fst (snd (px_handleFunctionProperty P src h data sec how s))) = [src]"
  by (simp add: px_handleFunctionProperty_def Let_def split: prod.splits option.splits)

lemma function_answered: "map fst (snd (fp_handleRequest P src rq v)) = [src]"
  by (simp add: fp_handleRequest_def Let_def split: prod.splits option.splits sum.splits)

text \<open>
  Each handler of the property services calls its response callback exactly once, with the sender's address, on
  success and on every error path: for a value read, a value write, a description read and a function call, in the
  classic and in the extended encoding; only the unconfirmed extended write calls it never. (A read provider reports
  at most the 254 octets of its buffer.) What comes before and after is the application layer's: it drops requests that
  are too short, function calls with more than 32 octets of input, and responses that do not fit a telegram.
\<close>

theorem property_requests_answered_once:
  assumes "honest P"
  shows "map fst (fst (snd (pv_handleValueRead P chk src rq s))) = [src] \<and>
    map fst (fst (snd (pv_handleValueWrite P chk src w s))) = [src] \<and>
    map fst (fst (snd (pv_handleDescriptionRead P chk src oi pid pix s))) = [src] \<and>
    map fst (fst (snd (px_handleValueRead P xchk src xq s))) = [src] \<and>
    map fst (fst (snd (px_handleValueWrite P xchk src xq True s))) = [src] \<and>
    map fst (fst (snd (px_handleValueWrite P xchk src xq False s))) = [] \<and>
    map fst (fst (px_handleDescriptionRead xchk src h t xpix s)) = [src] \<and>
    map fst (fst (snd (px_handleFunctionProperty P src h data sec how s))) = [src] \<and>
    map fst (snd (fp_handleRequest P src fq v)) = [src]"
  by (simp add: value_read_answered [OF assms] value_write_answered description_answered ext_value_read_answered
      ext_value_write_answered ext_description_answered ext_function_answered function_answered)

section \<open>Object instances\<close>

definition objects_of_type :: "store_manager \<Rightarrow> u16 \<Rightarrow> u8 list" where
  "objects_of_type m t = filter (\<lambda>i. map_option ps_objectType (m i) = Some t) (map_keys m)"

lemma resolve_from_nth:
  assumes "unat seen + length is < 65536"
  shows "resolve_from m t inst seen is =
    (let os = filter (\<lambda>i. map_option ps_objectType (m i) = Some t) is in
     if unat seen < unat inst \<and> unat inst \<le> unat seen + length os then Some (os ! (unat inst - unat seen - 1)) else None)"
  using assms
proof (induction "is" arbitrary: seen)
  case (Cons i "is")
  let ?p = "\<lambda>i. map_option ps_objectType (m i) = Some t"
  show ?case
  proof (cases "?p i")
    case True
    then obtain st where st: "m i = Some st" "ps_objectType st = t" by auto
    have u: "unat (seen + 1) = unat seen + 1"
      using Cons.prems unat_add_lem [of seen 1] by simp
    have eq: "seen + 1 = inst \<longleftrightarrow> unat inst = unat seen + 1"
      using u by (metis word_unat_eq_iff)
    have "length (filter ?p is) \<le> length is" by (rule length_filter_le)
    show ?thesis
    proof (cases "seen + 1 = inst")
      case True
      with st u show ?thesis by (auto simp: Let_def)
    next
      case False
      have "resolve_from m t inst seen (i # is) = resolve_from m t inst (seen + 1) is"
        using st False by simp
      also have "\<dots> = (let os = filter ?p is in if unat seen + 1 < unat inst \<and> unat inst \<le> unat seen + 1 + length os
          then Some (os ! (unat inst - (unat seen + 1) - 1)) else None)"
        using Cons.IH [of "seen + 1", unfolded u] Cons.prems by simp
      also have "\<dots> = (let os = i # filter ?p is in if unat seen < unat inst \<and> unat inst \<le> unat seen + length os
          then Some (os ! (unat inst - unat seen - 1)) else None)"
      proof (cases "unat seen + 1 < unat inst")
        case True
        then have ix: "unat inst - unat seen - 1 = Suc (unat inst - (unat seen + 1) - 1)" by simp
        show ?thesis unfolding Let_def ix nth_Cons_Suc using True by simp
      qed (use False eq in \<open>auto simp: Let_def\<close>)
      finally show ?thesis using st by simp
    qed
  next
    case False
    then have "resolve_from m t inst seen (i # is) = resolve_from m t inst seen is"
      by (auto split: option.splits)
    moreover have "filter ?p (i # is) = filter ?p is" using False by simp
    moreover have "unat seen + length is < 65536" using Cons.prems by simp
    ultimately show ?thesis using Cons.IH [of seen] by (simp only:)
  qed
qed simp

lemma resolveObject_nth:
  assumes "length (map_keys m) \<le> kMaxInterfaceObjects"
  shows "resolveObject m t inst =
    (if 0 < unat inst \<and> unat inst \<le> length (objects_of_type m t)
     then Some (objects_of_type m t ! (unat inst - 1)) else None)"
  using assms resolve_from_nth [of 0 "map_keys m" m t inst]
  by (auto simp: resolveObject_def objects_of_type_def Let_def kMaxInterfaceObjects_def unat_eq_zero)

section \<open>What is written is what is read\<close>

text \<open>A property kept in the store of the application layer, without a live provider.\<close>

definition stored_only :: "'v providers \<Rightarrow> bool" where
  "stored_only P \<longleftrightarrow> pp_read P = None \<and> pp_write P = None \<and> pp_consume P = None"

lemma ask_read_stored: "stored_only P \<Longrightarrow> ask_read P src rq v = (v, None)"
  by (simp add: stored_only_def ask_read_def)

lemma pm_write_read:
  assumes "pm_writeProperty oi pid si n data m = (m1, Inr ())" and "si \<noteq> 0"
    and "m oi = Some st" and "ps_descriptors st pid = Some d" and "getElementSize d \<noteq> 0"
  shows "pm_readProperty m1 oi pid si n (length data) = Inr data"
    and "length data = unat n * getElementSize d"
    and "\<exists>st1. m1 oi = Some st1 \<and> ps_descriptors st1 pid = Some d"
proof -
  obtain st1 where w: "ps_writeProperty pid si n data st = (st1, Inr ())" and m1: "m1 = m(oi \<mapsto> st1)"
    using assms(1,3) by (auto simp: pm_writeProperty_def split: prod.splits)
  have "si > 0" using assms(2) by (simp add: word_gt_0)
  from ps_write_read [OF w this assms(4,5)]
  show "pm_readProperty m1 oi pid si n (length data) = Inr data" by (simp add: pm_readProperty_def m1)
  show "length data = unat n * getElementSize d"
    using w assms(4) by (auto simp: ps_writeProperty_def Let_def split: option.splits if_splits)
  show "\<exists>st1. m1 oi = Some st1 \<and> ps_descriptors st1 pid = Some d"
    using ps_write_frame(1) [OF w] assms(4) by (simp add: m1)
qed

lemma pm_write_descriptor:
  "pm_writeProperty oi pid si n data m = (m1, Inr ()) \<Longrightarrow> \<exists>st d. m oi = Some st \<and> ps_descriptors st pid = Some d \<and> si \<noteq> 0"
  by (auto simp: pm_writeProperty_def ps_writeProperty_def Let_def split: option.splits prod.splits if_splits)

definition fixed_size :: "store_manager \<Rightarrow> u8 \<Rightarrow> u8 \<Rightarrow> bool" where
  "fixed_size m oi pid \<longleftrightarrow> (\<exists>st d. m oi = Some st \<and> ps_descriptors st pid = Some d \<and> getElementSize d \<noteq> 0)"

lemma store_value_read:
  assumes "stored_only P" and "chk oi pid False" and "m oi = Some st" and "ps_descriptors st pid = Some d"
    and "pm_readProperty m oi pid si n (unat n * getElementSize d) = Inr data"
    and "unat n * getElementSize d \<le> PROPERTY_DATA_CAPACITY" and "si \<noteq> 0" and "pr_store s = m"
  shows "pv_handleValueRead P chk src
      \<lparr>rq_objectIndex = oi, rq_propertyId = pid, rq_elementCount = n, rq_startIndex = si\<rparr> s =
    (s, [(src, \<lparr>vr_objectIndex = oi, vr_propertyId = pid, vr_elementCount = n, vr_startIndex = si, vr_data = data\<rparr>)], Inr ())"
  using assms by (simp add: pv_handleValueRead_def Let_def ask_read_stored getDescriptor_def)

lemma write_confirmation_stored:
  assumes "stored_only P" and "pr_store s (wq_objectIndex w) = Some st" and "ps_descriptors st (wq_propertyId w) = Some d"
    and "pm_readProperty (pr_store s) (wq_objectIndex w) (wq_propertyId w) (wq_startIndex w) (wq_elementCount w)
      (unat (wq_elementCount w) * getElementSize d) = Inr data"
    and "unat (wq_elementCount w) * getElementSize d \<le> PROPERTY_DATA_CAPACITY"
  shows "write_confirmation P src w s =
    (s, [(src, \<lparr>vr_objectIndex = wq_objectIndex w, vr_propertyId = wq_propertyId w, vr_elementCount = wq_elementCount w,
               vr_startIndex = wq_startIndex w, vr_data = data\<rparr>)])"
  using assms by (simp add: write_confirmation_def read_back_def Let_def ask_read_stored getDescriptor_def)

text \<open>
  C21. A property value write that is accepted is confirmed with the property's value after the
  write, which is exactly the data sent; a value read of the same elements returns that data; and
  every other property of every object keeps its value. (For properties that live in the property
  store, have elements of fixed size and may be read, and for at most 254 octets; whether the confirmation fits a
  telegram is decided by the application layer.)
\<close>

theorem property_write_then_read:
  assumes "stored_only P" and "chk (wq_objectIndex w) (wq_propertyId w) False"
    and "fixed_size (pr_store s) (wq_objectIndex w) (wq_propertyId w)"
    and "length (wq_data w) \<le> PROPERTY_DATA_CAPACITY"
    and "pv_handleValueWrite P chk src w s = (s1, out, Inr ())"
  shows "out = [(src, \<lparr>vr_objectIndex = wq_objectIndex w, vr_propertyId = wq_propertyId w,
            vr_elementCount = wq_elementCount w, vr_startIndex = wq_startIndex w, vr_data = wq_data w\<rparr>)] \<and>
    fst (snd (pv_handleValueRead P chk src \<lparr>rq_objectIndex = wq_objectIndex w, rq_propertyId = wq_propertyId w,
       rq_elementCount = wq_elementCount w, rq_startIndex = wq_startIndex w\<rparr> s1)) = out \<and>
    (\<forall>oi pid. (oi, pid) \<noteq> (wq_objectIndex w, wq_propertyId w) \<longrightarrow>
       Option.bind (pr_store s1 oi) (\<lambda>st. ps_properties st pid) = Option.bind (pr_store s oi) (\<lambda>st. ps_properties st pid))"
proof -
  let ?oi = "wq_objectIndex w" and ?pid = "wq_propertyId w" and ?si = "wq_startIndex w" and ?n = "wq_elementCount w"
  obtain m where w: "pm_writeProperty ?oi ?pid ?si ?n (wq_data w) (pr_store s) = (m, Inr ())"
    and conf: "write_confirmation P src w (s\<lparr>pr_store := m\<rparr>) = (s1, out)"
    using assms(1,5) by (auto simp: pv_handleValueWrite_def stored_only_def Let_def split: if_splits prod.splits sum.splits)
  have si: "?si \<noteq> 0" using pm_write_descriptor [OF w] by blast
  obtain st d where d: "pr_store s ?oi = Some st" "ps_descriptors st ?pid = Some d" "getElementSize d \<noteq> 0"
    using assms(3) by (auto simp: fixed_size_def)
  note wr = pm_write_read [OF w si d]
  obtain st1 where st1: "m ?oi = Some st1" "ps_descriptors st1 ?pid = Some d" using wr(3) by blast
  have c: "write_confirmation P src w (s\<lparr>pr_store := m\<rparr>) =
      (s\<lparr>pr_store := m\<rparr>, [(src, \<lparr>vr_objectIndex = ?oi, vr_propertyId = ?pid, vr_elementCount = ?n,
         vr_startIndex = ?si, vr_data = wq_data w\<rparr>)])"
    by (rule write_confirmation_stored [OF assms(1), of _ _ st1 d]) (use st1 wr(1,2) assms(4) in simp_all)
  with conf have s1: "s1 = s\<lparr>pr_store := m\<rparr>"
    and out: "out = [(src, \<lparr>vr_objectIndex = ?oi, vr_propertyId = ?pid, vr_elementCount = ?n,
         vr_startIndex = ?si, vr_data = wq_data w\<rparr>)]" by simp_all
  have rd: "pv_handleValueRead P chk src
      \<lparr>rq_objectIndex = ?oi, rq_propertyId = ?pid, rq_elementCount = ?n, rq_startIndex = ?si\<rparr> s1 = (s1, out, Inr ())"
    unfolding out
    by (rule store_value_read [where m = m and st = st1 and d = d])
      (use assms(1,2,4) st1 si wr(1,2) s1 in simp_all)
  have "Option.bind (m oi) (\<lambda>st. ps_properties st pid) = Option.bind (pr_store s oi) (\<lambda>st. ps_properties st pid)"
    if "(oi, pid) \<noteq> (?oi, ?pid)" for oi pid
  proof -
    obtain st2 where p: "ps_writeProperty ?pid ?si ?n (wq_data w) st = (st2, Inr ())" and m: "m = (pr_store s)(?oi \<mapsto> st2)"
      using w d(1) by (auto simp: pm_writeProperty_def split: prod.splits)
    with that d(1) ps_write_frame(4) [OF p] show ?thesis by auto
  qed
  with rd out s1 show ?thesis by simp
qed

text \<open>
  The two encodings of the property services address the same properties: what an extended
  write (object type, instance and property identifier, of which the low octet counts) stored is what
  a classic read (object index) of the object with that type and instance returns.
\<close>

theorem ext_write_classic_read:
  assumes "stored_only P" and "resolveObject (pr_store s) (eh_objectType h) (eh_objectInstance h) = Some oi"
    and "chk oi (ucast (eh_propertyId h)) False"
    and "fixed_size (pr_store s) oi (ucast (eh_propertyId h))" and "length data \<le> PROPERTY_DATA_CAPACITY"
    and "px_handleValueWrite P xchk src \<lparr>xq_header = h, xq_elementCount = n, xq_startIndex = si, xq_data = data\<rparr> confirmed s =
      (s1, out, Inr ())"
  shows "fst (snd (pv_handleValueRead P chk src
      \<lparr>rq_objectIndex = oi, rq_propertyId = ucast (eh_propertyId h), rq_elementCount = n, rq_startIndex = si\<rparr> s1)) =
    [(src, \<lparr>vr_objectIndex = oi, vr_propertyId = ucast (eh_propertyId h), vr_elementCount = n, vr_startIndex = si,
            vr_data = data\<rparr>)]"
proof -
  let ?pid = "ucast (eh_propertyId h) :: u8"
  obtain st d where d: "pr_store s oi = Some st" "ps_descriptors st ?pid = Some d" "getElementSize d \<noteq> 0"
    using assms(4) by (auto simp: fixed_size_def)
  obtain m where w: "pm_writeProperty oi ?pid si n data (pr_store s) = (m, Inr ())" and s1: "s1 = s\<lparr>pr_store := m\<rparr>"
    using assms(1,2,6) d
    by (auto simp: px_handleValueWrite_def stored_only_def getDescriptor_def Let_def split: if_splits prod.splits sum.splits)
  have si: "si \<noteq> 0" using pm_write_descriptor [OF w] by blast
  note wr = pm_write_read [OF w si d]
  obtain st1 where st1: "m oi = Some st1" "ps_descriptors st1 ?pid = Some d" using wr(3) by blast
  show ?thesis
    by (subst store_value_read [where m = m and st = st1 and d = d and data = data])
      (use assms(1,3,5) st1 si wr(1,2) s1 in simp_all)
qed

section \<open>Witnesses\<close>

definition no_providers :: "unit providers" where
  "no_providers =
     \<lparr>pp_read = None, pp_consume = None, pp_write = None, pp_describe = None, pp_function = None, pp_extFunction = None\<rparr>"

definition sample_descriptor :: property_descriptor where
  "sample_descriptor =
     \<lparr>pd_id = 52, pd_type = 0x04, pd_access = PaReadWrite, pd_maxElements = 4, pd_readLevel = 3, pd_writeLevel = 3\<rparr>"

definition sample_props :: "unit props" where
  "sample_props =
     \<lparr>pr_store = (\<lambda>_. None)(3 \<mapsto> fst (registerProperty sample_descriptor (pv_create 52 0x04 [0, 0]) (ps_new 6 3))),
      pr_live = ()\<rparr>"

definition sample_write :: property_write_request where
  "sample_write =
     \<lparr>wq_objectIndex = 3, wq_propertyId = 52, wq_elementCount = 2, wq_startIndex = 2, wq_data = [0x12, 0x34, 0x56, 0x78]\<rparr>"

lemma no_providers_stored: "stored_only no_providers"
  by (simp add: stored_only_def no_providers_def)

lemma sample_fixed: "fixed_size (pr_store sample_props) 3 52"
  by (auto simp: fixed_size_def sample_props_def registerProperty_def ps_new_def sample_descriptor_def
      getElementSize_def pdt_catalog_def)

theorem property_requests_answered_once_witness:
  "map fst (fst (snd (pv_handleValueRead no_providers (\<lambda>_ _ _. True) 0x1101
     \<lparr>rq_objectIndex = 9, rq_propertyId = 1, rq_elementCount = 1, rq_startIndex = 1\<rparr> sample_props))) = [0x1101]"
proof -
  have "honest no_providers" by (simp add: honest_def no_providers_def)
  from property_requests_answered_once [OF this] show ?thesis by blast
qed

theorem property_write_then_read_witness:
  "fst (snd (pv_handleValueRead no_providers (\<lambda>_ _ _. True) 0x1101
      \<lparr>rq_objectIndex = 3, rq_propertyId = 52, rq_elementCount = 2, rq_startIndex = 2\<rparr>
      (fst (pv_handleValueWrite no_providers (\<lambda>_ _ _. True) 0x1101 sample_write sample_props)))) =
    [(0x1101, \<lparr>vr_objectIndex = 3, vr_propertyId = 52, vr_elementCount = 2, vr_startIndex = 2,
               vr_data = [0x12, 0x34, 0x56, 0x78]\<rparr>)]"
proof -
  let ?chk = "\<lambda>_ _ _. True" and ?h = "pv_handleValueWrite no_providers (\<lambda>_ _ _. True) 0x1101 sample_write sample_props"
  have "snd (snd ?h) = Inr ()" by code_simp
  then have h: "?h = (fst ?h, fst (snd ?h), Inr ())" by (metis prod.collapse)
  have f: "fixed_size (pr_store sample_props) (wq_objectIndex sample_write) (wq_propertyId sample_write)"
    "length (wq_data sample_write) \<le> PROPERTY_DATA_CAPACITY"
    using sample_fixed by (simp_all add: sample_write_def PROPERTY_DATA_CAPACITY_def)
  from property_write_then_read [OF no_providers_stored _ f h] show ?thesis
    by (simp add: sample_write_def)
qed

definition sample_header :: property_ext_header where
  "sample_header = \<lparr>eh_objectType = 6, eh_objectInstance = 1, eh_propertyId = 52\<rparr>"

theorem ext_write_classic_read_witness:
  "fst (snd (pv_handleValueRead no_providers (\<lambda>_ _ _. True) 0x1101
      \<lparr>rq_objectIndex = 3, rq_propertyId = 52, rq_elementCount = 1, rq_startIndex = 1\<rparr>
      (fst (px_handleValueWrite no_providers (\<lambda>_ _ _. True) 0x1101
        \<lparr>xq_header = sample_header, xq_elementCount = 1, xq_startIndex = 1, xq_data = [0xAB, 0xCD]\<rparr> True sample_props)))) =
    [(0x1101, \<lparr>vr_objectIndex = 3, vr_propertyId = 52, vr_elementCount = 1, vr_startIndex = 1, vr_data = [0xAB, 0xCD]\<rparr>)]"
proof -
  let ?h = "px_handleValueWrite no_providers (\<lambda>_ _ _. True) 0x1101
        \<lparr>xq_header = sample_header, xq_elementCount = 1, xq_startIndex = 1, xq_data = [0xAB, 0xCD]\<rparr> True sample_props"
  have r: "resolveObject (pr_store sample_props) (eh_objectType sample_header) (eh_objectInstance sample_header) = Some 3"
    by (simp add: resolveObject_def sample_props_def map_keys_single sample_header_def kMaxInterfaceObjects_def
        registerProperty_def ps_new_def)
  have "snd (snd ?h) = Inr ()"
    using r by (simp add: px_handleValueWrite_def eh_fieldsInRange_def sample_header_def no_providers_def sample_props_def
        registerProperty_def ps_new_def sample_descriptor_def getDescriptor_def getElementSize_def pdt_catalog_def
        pm_writeProperty_def ps_writeProperty_def Let_def)
  then have h: "?h = (fst ?h, fst (snd ?h), Inr ())" by (metis prod.collapse)
  have p: "ucast (eh_propertyId sample_header) = (52 :: u8)" by (simp add: sample_header_def)
  from ext_write_classic_read [OF no_providers_stored r _ _ _ h, of "\<lambda>_ _ _. True", unfolded p] sample_fixed
  show ?thesis by (simp add: PROPERTY_DATA_CAPACITY_def)
qed

text \<open>\<open>writeProperty\<close> checks the first element of the range against \<open>maxElements\<close>, not the last:
  two elements written at index 4 of a property of four elements are accepted and stored.\<close>

lemma write_past_maxElements:
  "snd (ps_writeProperty 52 4 2 [1, 2, 3, 4] (fst (registerProperty sample_descriptor (pv_create 52 0x04 [0, 0]) (ps_new 6 3)))) = Inr () \<and>
   map_option (\<lambda>v. length (pv_data v) div 2)
     (ps_properties (fst (ps_writeProperty 52 4 2 [1, 2, 3, 4]
       (fst (registerProperty sample_descriptor (pv_create 52 0x04 [0, 0]) (ps_new 6 3))))) 52) = Some 5"
  by code_simp

end
