(* ===== verification/Device_Services.thy ===== *)
theory Device_Services
  imports Interfaces Apci
begin

text \<open>
  The device descriptor service (\<open>include/knx/application/device_descriptor.hpp\<close> and
  \<open>src/application/device_descriptor_service.cpp\<close>) and the broadcast services that address a device
  by its serial number or ask for a network parameter
  (\<open>src/application/network_parameter_service.cpp\<close>). Answers go to the callbacks the application layer
  installs; here they are results of the handlers. The handlers of the network parameters belong to the
  device and are fields of \<open>'v np_handlers\<close>.
\<close>

section \<open>Device descriptor\<close>

record descriptor_type2 =
  d2_mediumType :: u8
  d2_firmwareVersion :: u8
  d2_deviceType :: u16
  d2_applicationVersion :: u16
  d2_linkMgmtProcedures :: u16
  d2_reserved :: bytes

record device_descriptor =
  dd_maskHigh :: u8
  dd_maskLow :: u8
  dd_type2 :: descriptor_type2

definition d2_encode :: "descriptor_type2 \<Rightarrow> bytes" where
  "d2_encode d =
     [d2_mediumType d, d2_firmwareVersion d, getHighByte (d2_deviceType d), getLowByte (d2_deviceType d),
      getHighByte (d2_applicationVersion d), getLowByte (d2_applicationVersion d),
      getHighByte (d2_linkMgmtProcedures d), getLowByte (d2_linkMgmtProcedures d)] @ d2_reserved d"

definition d2_decode :: "bytes \<Rightarrow> descriptor_type2" where
  "d2_decode data =
     \<lparr>d2_mediumType = data ! 0, d2_firmwareVersion = data ! 1, d2_deviceType = word_be (data ! 2) (data ! 3),
      d2_applicationVersion = word_be (data ! 4) (data ! 5), d2_linkMgmtProcedures = word_be (data ! 6) (data ! 7),
      d2_reserved = take 6 (drop 8 data)\<rparr>"

definition dd_createDefault :: device_descriptor where
  "dd_createDefault =
     \<lparr>dd_maskHigh = 0x07, dd_maskLow = 0xB0,
      dd_type2 = \<lparr>d2_mediumType = 0x02, d2_firmwareVersion = 1, d2_deviceType = 0, d2_applicationVersion = 1,
                  d2_linkMgmtProcedures = 0, d2_reserved = replicate 6 0\<rparr>\<rparr>"

definition kDescriptorSupportMatrix :: "(u8 \<times> bool \<times> nat) list" where
  "kDescriptorSupportMatrix = [(0, True, 2), (1, False, 0), (2, True, 14), (3, False, 0)]"

definition isDescriptorTypeSupported :: "u8 \<Rightarrow> bool" where
  "isDescriptorTypeSupported t = (case map_of kDescriptorSupportMatrix t of Some (ok, _) \<Rightarrow> ok | None \<Rightarrow> False)"

definition encodedDescriptorSize :: "u8 \<Rightarrow> nat" where
  "encodedDescriptorSize t = (case map_of kDescriptorSupportMatrix t of Some (_, n) \<Rightarrow> n | None \<Rightarrow> 0)"

definition dd_handleReadRequest ::
    "device_descriptor \<Rightarrow> individual_address \<Rightarrow> u8 \<Rightarrow> (individual_address \<times> u8 \<times> bytes) list \<times> unit result" where
  "dd_handleReadRequest d src t =
     (if \<not> isDescriptorTypeSupported t then ([], Inl InvalidParameter)
      else if t = 0 then ([(src, t, [dd_maskHigh d, dd_maskLow d])], Inr ())
      else if t = 2 then ([(src, t, d2_encode (dd_type2 d))], Inr ())
      else ([], Inl InvalidParameter))"

definition dd_encodeReadRequest :: "u8 \<Rightarrow> bytes result" where
  "dd_encodeReadRequest t = buildTpdu data_tpci (apci_create S_DeviceDescriptorRead t) [] 2"

definition dd_decodeReadRequest :: "bytes \<Rightarrow> u8" where
  "dd_decodeReadRequest data =
     (if length data \<ge> 2
      then let apci = h_apci (unpackTpduHeader (data ! 0) (data ! 1)) in
        if apci_service_of apci \<noteq> S_DeviceDescriptorRead then 0xFF else apci_data6 apci
      else 0xFF)"

definition dd_encodeResponse :: "u8 \<Rightarrow> bytes \<Rightarrow> nat \<Rightarrow> bytes result" where
  "dd_encodeResponse t data outSize = buildTpdu data_tpci (apci_create S_DeviceDescriptorResponse t) data outSize"

text \<open>\<open>decodeResponse\<close> also sets the descriptor type, to \<open>0xFF\<close> when it fails before reading it.\<close>

definition dd_decodeResponse :: "bytes \<Rightarrow> nat \<Rightarrow> u8 \<times> bytes result" where
  "dd_decodeResponse data outSize =
     (if length data \<ge> 2
      then let apci = h_apci (unpackTpduHeader (data ! 0) (data ! 1)) in
        if apci_service_of apci \<noteq> S_DeviceDescriptorResponse then (0xFF, Inl InvalidParameter)
        else (apci_data6 apci, if outSize < length data - 2 then Inl BufferTooSmall else Inr (drop 2 data))
      else (0xFF, Inl InvalidParameter))"

section \<open>Serial numbers and network parameters\<close>

definition kKnxSerialNumberBytes :: nat where "kKnxSerialNumberBytes = 6"
definition kMaxNetworkParameterValueBytes :: nat where "kMaxNetworkParameterValueBytes = 16"

record network_parameters =
  np_serialNumber :: bytes
  np_domainAddress :: u16

record np_request =
  nq_objectType :: u16
  nq_propertyId :: u8
  nq_value :: bytes

record 'v np_handlers =
  nh_read :: "(np_request \<Rightarrow> 'v \<Rightarrow> 'v \<times> bytes result) option"
  nh_write :: "(np_request \<Rightarrow> 'v \<Rightarrow> 'v \<times> unit result) option"

text \<open>A serial number read is answered by the addressed device alone, with its domain address.\<close>

definition np_handleSerialNumberRead :: "network_parameters \<Rightarrow> bytes \<Rightarrow> (bytes \<times> u16) list" where
  "np_handleSerialNumberRead np requested =
     (if requested \<noteq> np_serialNumber np then [] else [(np_serialNumber np, np_domainAddress np)])"

text \<open>The address-write callback of the application layer always succeeds; the first result is the
  address it is called with.\<close>

definition np_handleSerialNumberWrite ::
    "network_parameters \<Rightarrow> bytes \<Rightarrow> individual_address \<Rightarrow> individual_address option \<times> unit result" where
  "np_handleSerialNumberWrite np serial newAddress =
     (if serial \<noteq> np_serialNumber np then (None, Inr ())
      else if \<not> ia_isValid newAddress then (None, Inl InvalidAddress)
      else (Some newAddress, Inr ()))"

definition np_handleNetworkParameterRead :: "'v np_handlers \<Rightarrow> np_request \<Rightarrow> 'v \<Rightarrow> 'v \<times> (u16 \<times> u8 \<times> bytes) list" where
  "np_handleNetworkParameterRead H rq v =
     (case nh_read H of
        None \<Rightarrow> (v, [])
      | Some f \<Rightarrow>
          (case f rq v of
             (v1, Inl _) \<Rightarrow> (v1, [])
           | (v1, Inr val) \<Rightarrow> (v1, [(nq_objectType rq, nq_propertyId rq, val)])))"

definition np_handleNetworkParameterWrite :: "'v np_handlers \<Rightarrow> np_request \<Rightarrow> 'v \<Rightarrow> 'v \<times> unit result" where
  "np_handleNetworkParameterWrite H rq v =
     (case nh_write H of None \<Rightarrow> (v, Inr ()) | Some f \<Rightarrow> f rq v)"

subsection \<open>Codecs\<close>

definition np_decodeSerialNumberRead :: "bytes \<Rightarrow> bytes result" where
  "np_decodeSerialNumberRead apdu =
     (if length apdu < 2 + kKnxSerialNumberBytes then Inl DecodeFailed
      else if apci_service_of (h_apci (unpackTpduHeader (apdu ! 0) (apdu ! 1))) \<noteq> S_IndividualAddressSerialNumberRead
      then Inl DecodeFailed
      else Inr (take kKnxSerialNumberBytes (drop 2 apdu)))"

definition np_decodeSerialNumberWrite :: "bytes \<Rightarrow> (bytes \<times> individual_address) result" where
  "np_decodeSerialNumberWrite apdu =
     (if length apdu < 2 + kKnxSerialNumberBytes + 2 then Inl DecodeFailed
      else if apci_service_of (h_apci (unpackTpduHeader (apdu ! 0) (apdu ! 1))) \<noteq> S_IndividualAddressSerialNumberWrite
      then Inl DecodeFailed
      else Inr (take kKnxSerialNumberBytes (drop 2 apdu), word_be (apdu ! 8) (apdu ! 9)))"

definition np_decodeNetworkParameter :: "bytes \<Rightarrow> np_request result" where
  "np_decodeNetworkParameter apdu =
     (if length apdu < 5 then Inl DecodeFailed
      else let service = apci_service_of (h_apci (unpackTpduHeader (apdu ! 0) (apdu ! 1))); val = drop 5 apdu in
        if service \<noteq> S_NetworkParameterRead \<and> service \<noteq> S_NetworkParameterWrite \<and> service \<noteq> S_NetworkParameterResponse
        then Inl DecodeFailed
        else if length val > kMaxNetworkParameterValueBytes then Inl BufferTooSmall
        else Inr \<lparr>nq_objectType = word_be (apdu ! 2) (apdu ! 3), nq_propertyId = apdu ! 4, nq_value = val\<rparr>)"

definition np_buildBroadcast :: "apci_service \<Rightarrow> bytes \<Rightarrow> nat \<Rightarrow> bytes result" where
  "np_buildBroadcast service payload outSize = buildTpdu data_tpci (apci_create service 0) payload outSize"

definition np_encodeSerialNumberRead :: "bytes \<Rightarrow> nat \<Rightarrow> bytes result" where
  "np_encodeSerialNumberRead serial outSize = np_buildBroadcast S_IndividualAddressSerialNumberRead serial outSize"

definition np_encodeSerialNumberResponse :: "bytes \<Rightarrow> u16 \<Rightarrow> nat \<Rightarrow> bytes result" where
  "np_encodeSerialNumberResponse serial domainAddress outSize =
     np_buildBroadcast S_IndividualAddressSerialNumberResponse
       (serial @ [getHighByte domainAddress, getLowByte domainAddress, 0, 0]) outSize"

definition np_encodeSerialNumberWrite :: "bytes \<Rightarrow> individual_address \<Rightarrow> nat \<Rightarrow> bytes result" where
  "np_encodeSerialNumberWrite serial newAddress outSize =
     np_buildBroadcast S_IndividualAddressSerialNumberWrite
       (serial @ [getHighByte newAddress, getLowByte newAddress, 0, 0, 0, 0]) outSize"

definition np_encodeNetworkParameterResponse :: "u16 \<Rightarrow> u8 \<Rightarrow> bytes \<Rightarrow> nat \<Rightarrow> bytes result" where
  "np_encodeNetworkParameterResponse objectType pid val outSize =
     (if length val > kMaxNetworkParameterValueBytes then Inl InvalidParameter
      else np_buildBroadcast S_NetworkParameterResponse
             ([getHighByte objectType, getLowByte objectType, pid] @ val) outSize)"

section \<open>Lemmas\<close>

lemma d2_decode_encode: "length (d2_reserved d) = 6 \<Longrightarrow> d2_decode (d2_encode d) = d"
  by (simp add: d2_decode_def d2_encode_def)

text \<open>The size a descriptor type announces is the size it is answered with.\<close>

lemma descriptor_size:
  assumes "length (d2_reserved (dd_type2 d)) = 6" and "dd_handleReadRequest d src t = (out, Inr ())"
  shows "\<exists>data. out = [(src, t, data)] \<and> length data = encodedDescriptorSize t"
  using assms
  by (auto simp: dd_handleReadRequest_def isDescriptorTypeSupported_def encodedDescriptorSize_def
      kDescriptorSupportMatrix_def d2_encode_def split: if_splits)

lemma apci_service_broadcast [simp]:
  "apci_service_of (apci_create S_IndividualAddressSerialNumberRead 0) = S_IndividualAddressSerialNumberRead"
  "apci_service_of (apci_create S_IndividualAddressSerialNumberWrite 0) = S_IndividualAddressSerialNumberWrite"
  "apci_service_of (apci_create S_NetworkParameterResponse 0) = S_NetworkParameterResponse"
  by (simp_all add: apci_service_of_def apci_create_def apci_codes)

interpretation nsw: result_codec "\<lambda>(serial, a). np_encodeSerialNumberWrite serial a 14" np_decodeSerialNumberWrite
  "\<lambda>(serial, a). length serial = kKnxSerialNumberBytes"
proof
  fix x b
  assume v: "case x of (serial, a) \<Rightarrow> length serial = kKnxSerialNumberBytes"
    and e: "(case x of (serial, a) \<Rightarrow> np_encodeSerialNumberWrite serial a 14) = Inr b"
  obtain serial a where x: "x = (serial, a)" by fastforce
  with v have l: "length serial = 6" by (simp add: kKnxSerialNumberBytes_def)
  let ?h = "packTpduHeader data_tpci (apci_create S_IndividualAddressSerialNumberWrite 0)"
  have b: "b = fst ?h # snd ?h # serial @ [getHighByte a, getLowByte a, 0, 0, 0, 0]"
    using e l by (simp add: x np_encodeSerialNumberWrite_def np_buildBroadcast_def buildTpdu_room)
  then show "np_decodeSerialNumberWrite b = Inr x"
    using l by (simp add: np_decodeSerialNumberWrite_def x kKnxSerialNumberBytes_def nth_append)
qed

interpretation npr: result_codec
  "\<lambda>q. np_encodeNetworkParameterResponse (nq_objectType q) (nq_propertyId q) (nq_value q) 21"
  np_decodeNetworkParameter "\<lambda>_. True"
  by unfold_locales
    (auto simp: np_encodeNetworkParameterResponse_def np_buildBroadcast_def buildTpdu_room np_decodeNetworkParameter_def
      split: if_splits)

end
