(* ===== verification/Application_Layer.thy ===== *)
theory Application_Layer
  imports Memory_Service Property_Services Device_Services
begin

text \<open>
  The application layer, \<open>src/application/application_layer.cpp\<close>, on top of the transport layer of
  \<open>Transport\<close>. The state record holds the transport below, the services the layer owns (device
  descriptor, properties, memory, authorization, restart, network parameters), the receive queue and
  the outcome queue, the send operation in progress and the context of the request being handled. What
  the user callback, the address-update callback and the restart callbacks are called with is logged in
  \<open>al_delivered\<close>, \<open>al_addressUpdates\<close> and \<open>al_restarts\<close>; a user callback that calls back into the layer
  is not modelled (the bus access unit's only queues an event). The callbacks and providers a device
  installs are the fields of \<open>app_env\<close>. Each \<open>handle...\<close> function of the code has a definition here, and
  \<open>dispatchService\<close> selects among them as the code's switch does.
\<close>

section \<open>Data (application\_layer.hpp)\<close>

record a_frame =
  af_source :: individual_address
  af_destination :: group_address
  af_service :: apci_service
  af_data :: bytes
  af_destinationType :: address_type
  af_apciData :: u8
  af_security :: request_security

text \<open>The result of an outcome is \<open>ErrorCode::Success\<close> as \<open>Inr ()\<close>.\<close>

record send_outcome =
  oc_destination :: group_address
  oc_service :: apci_service
  oc_destinationType :: address_type
  oc_result :: "unit result"
  oc_attempts :: u8

record send_options =
  op_maxAttempts :: u8
  op_retryOnBusy :: bool
  op_retryOnTimeout :: bool
  op_retryOnTransmissionFailed :: bool
  op_priority :: priority

datatype send_preset = SingleAttempt | RetryTransientOnce | RetryTransientTwice

record send_operation =
  sn_active :: bool
  sn_frame :: tdata_frame
  sn_outcome :: send_outcome
  sn_options :: send_options
  sn_attemptsStarted :: u8

definition no_security :: request_security where
  "no_security = \<lparr>rs_secured = False, rs_toolAccess = False, rs_confidentiality = False\<rparr>"

definition a_frame_init :: a_frame where
  "a_frame_init =
     \<lparr>af_source = 0, af_destination = 0, af_service = 0, af_data = [], af_destinationType = Individual,
      af_apciData = 0, af_security = no_security\<rparr>"

definition send_outcome_init :: send_outcome where
  "send_outcome_init =
     \<lparr>oc_destination = 0, oc_service = 0, oc_destinationType = Individual, oc_result = Inr (), oc_attempts = 0\<rparr>"

definition send_options_init :: send_options where
  "send_options_init =
     \<lparr>op_maxAttempts = 1, op_retryOnBusy = True, op_retryOnTimeout = True, op_retryOnTransmissionFailed = False,
      op_priority = Low\<rparr>"

definition send_operation_init :: send_operation where
  "send_operation_init =
     \<lparr>sn_active = False, sn_frame = tdata_frame_init, sn_outcome = send_outcome_init, sn_options = send_options_init,
      sn_attemptsStarted = 0\<rparr>"

definition optionsForPreset :: "send_preset \<Rightarrow> send_options" where
  "optionsForPreset p =
     (case p of
        SingleAttempt \<Rightarrow> send_options_init
      | RetryTransientOnce \<Rightarrow>
          send_options_init\<lparr>op_maxAttempts := 2, op_retryOnBusy := True, op_retryOnTimeout := True\<rparr>
      | RetryTransientTwice \<Rightarrow>
          send_options_init\<lparr>op_maxAttempts := 3, op_retryOnBusy := True, op_retryOnTimeout := True\<rparr>)"

definition AL_QUEUE_CAPACITY :: nat where "AL_QUEUE_CAPACITY = 8"
definition RESPONSE_CAPACITY :: nat where "RESPONSE_CAPACITY = 254"

record ('d, 'u, 'v) app =
  al_transport :: "('d, 'u) transport"
  al_own :: individual_address
  al_initialized :: bool
  al_hasServices :: bool
  al_programmingMode :: bool
  al_descriptor :: device_descriptor
  al_props :: "'v props"
  al_memory :: device_memory
  al_auth :: authorization
  al_restart :: restart_service
  al_network :: network_parameters
  al_rxQueue :: "a_frame ring"
  al_droppedRx :: nat
  al_outcomes :: "send_outcome ring"
  al_droppedOutcomes :: nat
  al_connectedRequest :: bool
  al_requestSecurity :: request_security
  al_defaultOptions :: send_options
  al_serviceOptions :: send_options
  al_sendOp :: send_operation
  al_delivered :: "a_frame list"
  al_addressUpdates :: "individual_address list"
  al_restarts :: "restart_action list"

record ('d, 'u, 'v) app_env =
  ap_dl :: "'d dl_ops"
  ap_hooks :: "'u hooks"
  ap_providers :: "'v providers"
  ap_network :: "'v np_handlers"
  ap_auth :: auth_env
  ap_restart :: restart_env
  ap_securityMode :: "('v \<Rightarrow> bool) option"
  ap_adc :: "(u8 \<Rightarrow> u8 \<Rightarrow> u16 option) option"
  ap_hasReceiveCallback :: bool
  ap_hasAddressCallback :: bool

section \<open>Queues\<close>

definition al_enqueueReceivedFrame :: "a_frame \<Rightarrow> ('d, 'u, 'v) app \<Rightarrow> ('d, 'u, 'v) app" where
  "al_enqueueReceivedFrame f s =
     (if ring_count (al_rxQueue s) \<ge> AL_QUEUE_CAPACITY then s\<lparr>al_droppedRx := al_droppedRx s + 1\<rparr>
      else s\<lparr>al_rxQueue := ring_push (al_rxQueue s) f\<rparr>)"

definition al_popReceivedFrame :: "('d, 'u, 'v) app \<Rightarrow> (a_frame \<times> ('d, 'u, 'v) app) option" where
  "al_popReceivedFrame s =
     (if ring_count (al_rxQueue s) = 0 then None
      else case ring_pop (al_rxQueue s) of (f, q) \<Rightarrow> Some (f, s\<lparr>al_rxQueue := q\<rparr>))"

text \<open>A full outcome queue overwrites its oldest entry.\<close>

definition ring_overwrite :: "'a ring \<Rightarrow> 'a \<Rightarrow> 'a ring" where
  "ring_overwrite r x =
     r\<lparr>ring_slots := (ring_slots r)[ring_head r := x], ring_head := (ring_head r + 1) mod length (ring_slots r)\<rparr>"

definition enqueueSendOutcome :: "send_outcome \<Rightarrow> ('d, 'u, 'v) app \<Rightarrow> ('d, 'u, 'v) app" where
  "enqueueSendOutcome oc s =
     (if ring_count (al_outcomes s) \<ge> AL_QUEUE_CAPACITY
      then s\<lparr>al_droppedOutcomes := al_droppedOutcomes s + 1, al_outcomes := ring_overwrite (al_outcomes s) oc\<rparr>
      else s\<lparr>al_outcomes := ring_push (al_outcomes s) oc\<rparr>)"

definition popSendOutcome :: "('d, 'u, 'v) app \<Rightarrow> (send_outcome \<times> ('d, 'u, 'v) app) option" where
  "popSendOutcome s =
     (if ring_count (al_outcomes s) = 0 then None
      else case ring_pop (al_outcomes s) of (oc, q) \<Rightarrow> Some (oc, s\<lparr>al_outcomes := q\<rparr>))"

section \<open>Sending\<close>

definition normalizeMaxAttempts :: "send_options \<Rightarrow> u8" where
  "normalizeMaxAttempts o1 = (if op_maxAttempts o1 = 0 then 1 else op_maxAttempts o1)"

definition usesApciData6 :: "apci_service \<Rightarrow> bool" where
  "usesApciData6 service \<longleftrightarrow>
     service \<in> {S_MemoryRead, S_MemoryWrite, S_MemoryResponse, S_DeviceDescriptorRead, S_DeviceDescriptorResponse,
       S_ADCRead, S_ADCResponse}"

definition isGroupValueService :: "apci_service \<Rightarrow> bool" where
  "isGroupValueService s \<longleftrightarrow> s = S_GroupValueRead \<or> s = S_GroupValueWrite \<or> s = S_GroupValueResponse"

text \<open>The TPDU of \<open>buildTransportTxFrame\<close>: short and long group value, data in the APCI, or plain.\<close>

definition al_buildTpdu :: "apci_service \<Rightarrow> bytes \<Rightarrow> bytes result" where
  "al_buildTpdu service data =
     (if isGroupValueService service
      then if service = S_GroupValueRead then buildTpduInPlace data_tpci (apci_create service 0) []
           else if data = [] then Inl InvalidParameter
           else if length data = 1 \<and> data ! 0 \<le> 0x3F
           then buildTpduInPlace data_tpci (apci_create service (data ! 0)) []
           else buildTpduInPlace data_tpci (apci_create service 0) data
      else if usesApciData6 service
      then if data = [] then Inl InvalidParameter
           else buildTpduInPlace data_tpci (apci_create service (data ! 0)) (drop 1 data)
      else buildTpduInPlace data_tpci (apci_create service 0) data)"

definition fresh_outcome :: "group_address \<Rightarrow> apci_service \<Rightarrow> address_type \<Rightarrow> send_outcome" where
  "fresh_outcome dest service dtype =
     \<lparr>oc_destination = dest, oc_service = service, oc_destinationType = dtype, oc_result = Inr (), oc_attempts = 0\<rparr>"

definition buildTransportTxFrame ::
    "group_address \<Rightarrow> apci_service \<Rightarrow> bytes \<Rightarrow> address_type \<Rightarrow> ('d, 'u, 'v) app \<Rightarrow> tdata_frame result" where
  "buildTransportTxFrame dest service data dtype s =
     (if \<not> al_initialized s then Inl NotInitialized
      else case al_buildTpdu service data of
        Inl e \<Rightarrow> Inl e
      | Inr bs \<Rightarrow>
          Inr (tdata_frame_init\<lparr>t_source := al_own s, t_destination := dest, t_destinationType := dtype,
                 t_ackRequested := False, t_repeated := False,
                 t_service := (if dtype = Individual then (if al_connectedRequest s then TConnected else TIndividual)
                               else TGroup),
                 t_tpdu := bs\<rparr>))"

definition shouldRetrySendError :: "error_code \<Rightarrow> send_options \<Rightarrow> bool" where
  "shouldRetrySendError e o1 =
     (if e = EBusy then op_retryOnBusy o1
      else if e = ETimeout then op_retryOnTimeout o1
      else if e = ETransmissionFailed then op_retryOnTransmissionFailed o1
      else False)"

definition mapSendErrorToProgressState :: "unit result \<Rightarrow> progress" where
  "mapSendErrorToProgressState r =
     (if r = Inl EBusy then Busy else if r = Inl ETimeout then Timeout else TransmissionFailed)"

text \<open>The attempts after the current one: \<open>left\<close> is \<open>maxAttempts - attempt\<close>.\<close>

primrec send_loop ::
    "nat \<Rightarrow> 'd dl_ops \<Rightarrow> 'u hooks \<Rightarrow> send_options \<Rightarrow> tdata_frame \<Rightarrow> u8 \<Rightarrow> ('d, 'u) transport \<Rightarrow>
      ('d, 'u) transport \<times> u8 \<times> unit result" where
  "send_loop 0 D H o1 f attempt T = (case tl_sendFrame D H T f of (T1, r) \<Rightarrow> (T1, attempt, r))"
| "send_loop (Suc left) D H o1 f attempt T =
     (case tl_sendFrame D H T f of
        (T1, Inr _) \<Rightarrow> (T1, attempt, Inr ())
      | (T1, Inl e) \<Rightarrow>
          if \<not> shouldRetrySendError e o1 then (T1, attempt, Inl e)
          else send_loop left D H o1 f (attempt + 1) T1)"

definition al_sendData ::
    "('d, 'u, 'v) app_env \<Rightarrow> group_address \<Rightarrow> apci_service \<Rightarrow> bytes \<Rightarrow> address_type \<Rightarrow> send_options \<Rightarrow>
      ('d, 'u, 'v) app \<Rightarrow> ('d, 'u, 'v) app \<times> unit result" where
  "al_sendData E dest service data dtype o1 s =
     (let oc = fresh_outcome dest service dtype in
      case buildTransportTxFrame dest service data dtype s of
        Inl e \<Rightarrow> (enqueueSendOutcome (oc\<lparr>oc_result := Inl e\<rparr>) s, Inl e)
      | Inr f \<Rightarrow>
          (case send_loop (unat (normalizeMaxAttempts o1) - 1) (ap_dl E) (ap_hooks E) o1 (f\<lparr>t_priority := op_priority o1\<rparr>)
                  1 (al_transport s) of
             (T, attempts, r) \<Rightarrow>
               (enqueueSendOutcome (oc\<lparr>oc_result := r, oc_attempts := attempts\<rparr>) (s\<lparr>al_transport := T\<rparr>), r)))"

definition al_finishSendOperation :: "('d, 'u, 'v) app \<Rightarrow> ('d, 'u, 'v) app" where
  "al_finishSendOperation s = s\<lparr>al_sendOp := send_operation_init\<rparr>"

definition startSendAttempt :: "('d, 'u, 'v) app_env \<Rightarrow> ('d, 'u, 'v) app \<Rightarrow> ('d, 'u, 'v) app \<times> unit result" where
  "startSendAttempt E s =
     (case tl_beginTransmit (ap_hooks E) (al_transport s) (sn_frame (al_sendOp s)) of
        (T, Inl e) \<Rightarrow> (s\<lparr>al_transport := T\<rparr>, Inl e)
      | (T, Inr _) \<Rightarrow>
          (let n = sn_attemptsStarted (al_sendOp s) + 1 in
           (s\<lparr>al_transport := T,
              al_sendOp := (al_sendOp s)\<lparr>sn_attemptsStarted := n,
                 sn_outcome := (sn_outcome (al_sendOp s))\<lparr>oc_attempts := n\<rparr>\<rparr>\<rparr>, Inr ())))"

text \<open>Closing an operation: its outcome with the given result goes to the queue.\<close>

definition conclude :: "unit result \<Rightarrow> ('d, 'u, 'v) app \<Rightarrow> ('d, 'u, 'v) app" where
  "conclude r s =
     al_finishSendOperation (enqueueSendOutcome ((sn_outcome (al_sendOp s))\<lparr>oc_result := r\<rparr>) s)"

definition beginSendData ::
    "('d, 'u, 'v) app_env \<Rightarrow> group_address \<Rightarrow> apci_service \<Rightarrow> bytes \<Rightarrow> address_type \<Rightarrow> send_options \<Rightarrow>
      ('d, 'u, 'v) app \<Rightarrow> ('d, 'u, 'v) app \<times> unit result" where
  "beginSendData E dest service data dtype o1 s =
     (if sn_active (al_sendOp s) then (s, Inl EBusy)
      else let oc = fresh_outcome dest service dtype in
        case buildTransportTxFrame dest service data dtype s of
          Inl e \<Rightarrow> (enqueueSendOutcome (oc\<lparr>oc_result := Inl e\<rparr>) s, Inl e)
        | Inr f \<Rightarrow>
            (let s1 = s\<lparr>al_sendOp := \<lparr>sn_active = True, sn_frame = f\<lparr>t_priority := op_priority o1\<rparr>, sn_outcome = oc,
                                       sn_options = o1, sn_attemptsStarted = 0\<rparr>\<rparr> in
             case startSendAttempt E s1 of
               (s2, Inl e) \<Rightarrow> (conclude (Inl e) s2, Inl e)
             | (s2, Inr _) \<Rightarrow> (s2, Inr ())))"

definition pollSendData :: "('d, 'u, 'v) app_env \<Rightarrow> ('d, 'u, 'v) app \<Rightarrow> ('d, 'u, 'v) app \<times> progress result" where
  "pollSendData E s0 =
     (if \<not> al_initialized s0 then (s0, Inl NotInitialized)
      else if \<not> sn_active (al_sendOp s0) then (s0, Inl OperationNotReady)
      else case tl_pollTransmit (ap_dl E) (al_transport s0) of (T, pr) \<Rightarrow>
        (let s = s0\<lparr>al_transport := T\<rparr> in
         case pr of
           Inl e \<Rightarrow> (conclude (Inl e) s, Inl e)
         | Inr Pending \<Rightarrow> (s, Inr Pending)
         | Inr Success \<Rightarrow> (conclude (Inr ()) s, Inr Success)
         | Inr p \<Rightarrow>
             (let e = (if p = Busy then EBusy else if p = Timeout then ETimeout else ETransmissionFailed);
                  give_up = (\<lambda>r s. (conclude r s, Inr (mapSendErrorToProgressState r))) in
              if sn_attemptsStarted (al_sendOp s) < normalizeMaxAttempts (sn_options (al_sendOp s)) \<and>
                 shouldRetrySendError e (sn_options (al_sendOp s))
              then (case startSendAttempt E s of
                      (s1, Inr _) \<Rightarrow>
                        (s1\<lparr>al_sendOp := (al_sendOp s1)\<lparr>sn_outcome := (sn_outcome (al_sendOp s1))\<lparr>oc_result := Inl e\<rparr>\<rparr>\<rparr>,
                         Inr Pending)
                    | (s1, Inl e1) \<Rightarrow> give_up (Inl e1) s1)
              else give_up (Inl e) s)))"

definition sendToIndividual where
  "sendToIndividual E dest service data o1 = al_sendData E dest service data Individual o1"

definition sendToGroup where
  "sendToGroup E dest service data o1 = al_sendData E dest service data Group o1"

definition sendBroadcast where
  "sendBroadcast E service data o1 = al_sendData E 0 service data Group o1"

definition al_sendGroupValueWrite where
  "al_sendGroupValueWrite E dest data s = al_sendData E dest S_GroupValueWrite data Group (al_defaultOptions s) s"

definition al_beginSendGroupValueWrite where
  "al_beginSendGroupValueWrite E dest data s = beginSendData E dest S_GroupValueWrite data Group (al_defaultOptions s) s"

definition al_sendGroupValueRead where
  "al_sendGroupValueRead E dest s = al_sendData E dest S_GroupValueRead [] Group (al_defaultOptions s) s"

definition al_beginSendGroupValueRead where
  "al_beginSendGroupValueRead E dest s = beginSendData E dest S_GroupValueRead [] Group (al_defaultOptions s) s"

definition al_sendGroupValueResponse where
  "al_sendGroupValueResponse E dest data s = al_sendData E dest S_GroupValueResponse data Group (al_defaultOptions s) s"

definition al_beginSendGroupValueResponse where
  "al_beginSendGroupValueResponse E dest data s = beginSendData E dest S_GroupValueResponse data Group (al_defaultOptions s) s"

definition al_processBackgroundWork :: "('d, 'u, 'v) app_env \<Rightarrow> ('d, 'u, 'v) app \<Rightarrow> ('d, 'u, 'v) app" where
  "al_processBackgroundWork E s = s\<lparr>al_transport := processBackgroundWork (ap_dl E) (al_transport s)\<rparr>"

section \<open>Answers of the services (wireServiceCallbacks)\<close>

text \<open>A response payload that does not fit its buffer is logged and dropped. The send result is
  ignored by the callbacks.\<close>

definition al_answer ::
    "('d, 'u, 'v) app_env \<Rightarrow> individual_address \<Rightarrow> apci_service \<Rightarrow> bytes \<Rightarrow> ('d, 'u, 'v) app \<Rightarrow> ('d, 'u, 'v) app" where
  "al_answer E dest service payload s =
     (if length payload > RESPONSE_CAPACITY then s
      else fst (sendToIndividual E dest service payload (al_serviceOptions s) s))"

definition al_answerBroadcast :: "('d, 'u, 'v) app_env \<Rightarrow> apci_service \<Rightarrow> bytes \<Rightarrow> ('d, 'u, 'v) app \<Rightarrow> ('d, 'u, 'v) app" where
  "al_answerBroadcast E service payload s =
     (if length payload > RESPONSE_CAPACITY then s else fst (sendBroadcast E service payload (al_serviceOptions s) s))"

fun answer_descriptor :: "('d, 'u, 'v) app_env \<Rightarrow> individual_address \<times> u8 \<times> bytes \<Rightarrow> ('d, 'u, 'v) app \<Rightarrow> ('d, 'u, 'v) app" where
  "answer_descriptor E (dest, t, data) = al_answer E dest S_DeviceDescriptorResponse (t # data)"

fun answer_memory :: "('d, 'u, 'v) app_env \<Rightarrow> individual_address \<times> memory_response \<Rightarrow> ('d, 'u, 'v) app \<Rightarrow> ('d, 'u, 'v) app" where
  "answer_memory E (dest, r) =
     al_answer E dest S_MemoryResponse
       ([mp_count r, getHighByte (mp_address r), getLowByte (mp_address r)] @ mp_data r)"

fun answer_memory_ext :: "('d, 'u, 'v) app_env \<Rightarrow> individual_address \<times> memory_ext_response \<Rightarrow> ('d, 'u, 'v) app \<Rightarrow> ('d, 'u, 'v) app" where
  "answer_memory_ext E (dest, r) =
     al_answer E dest (if mx_kind r = MxRead then S_MemoryExtendedReadResponse else S_MemoryExtendedWriteResponse)
       ([rc_code (mx_returnCode r), ucast (drop_bit 16 (mx_address r) AND 0xFF), ucast (drop_bit 8 (mx_address r) AND 0xFF),
         ucast (mx_address r AND 0xFF)] @ mx_data r)"

fun answer_ext_value :: "('d, 'u, 'v) app_env \<Rightarrow> ext_value_answer \<Rightarrow> ('d, 'u, 'v) app \<Rightarrow> ('d, 'u, 'v) app" where
  "answer_ext_value E (dest, service, r) =
     al_answer E dest service
       (eh_encode (xr_header r) @ [xr_elementCount r, getHighByte (xr_startIndex r), getLowByte (xr_startIndex r)] @
        (if service = S_PropertyExtValueResponse then xr_data r else [rc_code (xr_returnCode r)]))"

definition ext_description_octets :: "ext_description \<Rightarrow> bytes" where
  "ext_description_octets r =
     eh_encode (xd_header r) @
     [push_bit 4 (xd_descriptionType r AND 0x0F) OR (getHighByte (xd_propertyIndex r) AND 0x0F),
      getLowByte (xd_propertyIndex r), getHighByte (xd_dptMain r), getLowByte (xd_dptMain r),
      getHighByte (xd_dptSub r), getLowByte (xd_dptSub r),
      (if xd_writeEnabled r then 0x80 else 0) OR (xd_propertyDataType r AND 0x3F),
      getHighByte (xd_maxElements r), getLowByte (xd_maxElements r),
      push_bit 4 (xd_readLevel r AND 0x0F) OR (xd_writeLevel r AND 0x0F)]"

fun answer_ext_description :: "('d, 'u, 'v) app_env \<Rightarrow> individual_address \<times> ext_description \<Rightarrow> ('d, 'u, 'v) app \<Rightarrow> ('d, 'u, 'v) app" where
  "answer_ext_description E (dest, r) = al_answer E dest S_PropertyExtDescriptionResponse (ext_description_octets r)"

fun answer_ext_function :: "('d, 'u, 'v) app_env \<Rightarrow> individual_address \<times> ext_function_response \<Rightarrow> ('d, 'u, 'v) app \<Rightarrow> ('d, 'u, 'v) app" where
  "answer_ext_function E (dest, r) =
     al_answer E dest S_FunctionPropertyExtStateResponse (eh_encode (xf_header r) @ xf_returnCode r # xf_data r)"

fun answer_function :: "('d, 'u, 'v) app_env \<Rightarrow> individual_address \<times> function_response \<Rightarrow> ('d, 'u, 'v) app \<Rightarrow> ('d, 'u, 'v) app" where
  "answer_function E (dest, r) = al_answer E dest S_FunctionPropertyStateResponse (function_octets r)"

fun answer_serial :: "('d, 'u, 'v) app_env \<Rightarrow> bytes \<times> u16 \<Rightarrow> ('d, 'u, 'v) app \<Rightarrow> ('d, 'u, 'v) app" where
  "answer_serial E (serial, domainAddress) =
     al_answerBroadcast E S_IndividualAddressSerialNumberResponse
       (serial @ [getHighByte domainAddress, getLowByte domainAddress, 0, 0])"

fun answer_network :: "('d, 'u, 'v) app_env \<Rightarrow> u16 \<times> u8 \<times> bytes \<Rightarrow> ('d, 'u, 'v) app \<Rightarrow> ('d, 'u, 'v) app" where
  "answer_network E (ot, pid, val) =
     al_answerBroadcast E S_NetworkParameterResponse ([getHighByte ot, getLowByte ot, pid] @ val)"

text \<open>Access levels are inverted on the wire: 0 is maximum access, 15 none.\<close>

fun wire_level :: "auth_level \<Rightarrow> u8" where
  "wire_level AlMaximum = 0"
| "wire_level AlConfiguration = 1"
| "wire_level AlManagement = 2"
| "wire_level AlNone = 15"

fun answer_authorize :: "('d, 'u, 'v) app_env \<Rightarrow> individual_address \<times> auth_level \<Rightarrow> ('d, 'u, 'v) app \<Rightarrow> ('d, 'u, 'v) app" where
  "answer_authorize E (dest, level) = al_answer E dest S_AuthorizeResponse [wire_level level]"

fun answer_value :: "('d, 'u, 'v) app_env \<Rightarrow> individual_address \<times> property_value_response \<Rightarrow> ('d, 'u, 'v) app \<Rightarrow> ('d, 'u, 'v) app" where
  "answer_value E (dest, r) =
     al_answer E dest S_PropertyValueResponse
       ([vr_objectIndex r, vr_propertyId r,
         push_bit 4 (vr_elementCount r AND 0x0F) OR (getHighByte (vr_startIndex r) AND 0x0F),
         getLowByte (vr_startIndex r)] @ vr_data r)"

fun answer_description :: "('d, 'u, 'v) app_env \<Rightarrow> individual_address \<times> property_description \<Rightarrow> ('d, 'u, 'v) app \<Rightarrow> ('d, 'u, 'v) app" where
  "answer_description E (dest, r) = al_answer E dest S_PropertyDescriptionResponse (description_octets r)"

section \<open>Access checks (wireAccessPolicy)\<close>

definition objectTypeForIndex :: "('d, 'u, 'v) app \<Rightarrow> u8 \<Rightarrow> u16 option" where
  "objectTypeForIndex s oi = map_option ps_objectType (pr_store (al_props s) oi)"

definition isPropertyAccessPermitted :: "u16 \<Rightarrow> u16 \<Rightarrow> bool \<Rightarrow> request_security \<Rightarrow> bool" where
  "isPropertyAccessPermitted objectType propertyId write security =
     (if objectType = kSecurityInterfaceObjectType then securityObjectAccessPermitted propertyId write security else True)"

definition al_accessCheck :: "('d, 'u, 'v) app \<Rightarrow> u8 \<Rightarrow> u8 \<Rightarrow> bool \<Rightarrow> bool" where
  "al_accessCheck s oi pid write =
     (case objectTypeForIndex s oi of
        None \<Rightarrow> True
      | Some t \<Rightarrow> isPropertyAccessPermitted t (ucast pid) write (al_requestSecurity s))"

definition al_extAccessCheck :: "('d, 'u, 'v) app \<Rightarrow> u16 \<Rightarrow> u16 \<Rightarrow> bool \<Rightarrow> bool" where
  "al_extAccessCheck s objectType pid write = isPropertyAccessPermitted objectType pid write (al_requestSecurity s)"

section \<open>Service handlers\<close>

definition handleFunctionProperty :: "('d, 'u, 'v) app_env \<Rightarrow> a_frame \<Rightarrow> ('d, 'u, 'v) app \<Rightarrow> ('d, 'u, 'v) app" where
  "handleFunctionProperty E f s =
     (if length (af_data f) < 2 then s
      else let payload = drop 2 (af_data f) in
        if length payload > kMaxFunctionPropertyDataBytes then s
        else case fp_handleRequest (ap_providers E) (af_source f)
               \<lparr>fq_objectIndex = af_data f ! 0, fq_propertyId = af_data f ! 1,
                fq_invocation = (if af_service f = S_FunctionPropertyCommand then FpCommand else FpStateRead),
                fq_data = payload, fq_security = af_security f\<rparr> (pr_live (al_props s)) of
          (v, out) \<Rightarrow> fold (answer_function E) out (s\<lparr>al_props := (al_props s)\<lparr>pr_live := v\<rparr>\<rparr>))"

definition handleSerialNumberRead :: "('d, 'u, 'v) app_env \<Rightarrow> a_frame \<Rightarrow> ('d, 'u, 'v) app \<Rightarrow> ('d, 'u, 'v) app" where
  "handleSerialNumberRead E f s =
     (if length (af_data f) < kKnxSerialNumberBytes then s
      else fold (answer_serial E) (np_handleSerialNumberRead (al_network s) (take kKnxSerialNumberBytes (af_data f))) s)"

definition al_setOwnAddress :: "individual_address \<Rightarrow> ('d, 'u, 'v) app \<Rightarrow> ('d, 'u, 'v) app" where
  "al_setOwnAddress a s = s\<lparr>al_own := a\<rparr>"

definition update_address :: "('d, 'u, 'v) app_env \<Rightarrow> individual_address \<Rightarrow> ('d, 'u, 'v) app \<Rightarrow> ('d, 'u, 'v) app" where
  "update_address E a s =
     (let s1 = al_setOwnAddress a s in
      if ap_hasAddressCallback E then s1\<lparr>al_addressUpdates := al_addressUpdates s1 @ [a]\<rparr> else s1)"

definition handleSerialNumberWrite :: "('d, 'u, 'v) app_env \<Rightarrow> a_frame \<Rightarrow> ('d, 'u, 'v) app \<Rightarrow> ('d, 'u, 'v) app" where
  "handleSerialNumberWrite E f s =
     (if length (af_data f) < kKnxSerialNumberBytes + 2 then s
      else case np_handleSerialNumberWrite (al_network s) (take kKnxSerialNumberBytes (af_data f))
             (word_be (af_data f ! 6) (af_data f ! 7)) of
        (Some a, _) \<Rightarrow> update_address E a s
      | (None, _) \<Rightarrow> s)"

definition decodeNetworkParameterPayload :: "a_frame \<Rightarrow> np_request option" where
  "decodeNetworkParameterPayload f =
     (if length (af_data f) < 3 then None
      else let val = drop 3 (af_data f) in
        if length val > kMaxNetworkParameterValueBytes then None
        else Some \<lparr>nq_objectType = word_be (af_data f ! 0) (af_data f ! 1), nq_propertyId = af_data f ! 2, nq_value = val\<rparr>)"

definition handleNetworkParameterRead :: "('d, 'u, 'v) app_env \<Rightarrow> a_frame \<Rightarrow> ('d, 'u, 'v) app \<Rightarrow> ('d, 'u, 'v) app" where
  "handleNetworkParameterRead E f s =
     (case decodeNetworkParameterPayload f of
        None \<Rightarrow> s
      | Some rq \<Rightarrow>
          (case np_handleNetworkParameterRead (ap_network E) rq (pr_live (al_props s)) of
             (v, out) \<Rightarrow> fold (answer_network E) out (s\<lparr>al_props := (al_props s)\<lparr>pr_live := v\<rparr>\<rparr>)))"

definition handleNetworkParameterWrite :: "('d, 'u, 'v) app_env \<Rightarrow> a_frame \<Rightarrow> ('d, 'u, 'v) app \<Rightarrow> ('d, 'u, 'v) app" where
  "handleNetworkParameterWrite E f s =
     (case decodeNetworkParameterPayload f of
        None \<Rightarrow> s
      | Some rq \<Rightarrow>
          s\<lparr>al_props := (al_props s)\<lparr>pr_live :=
             fst (np_handleNetworkParameterWrite (ap_network E) rq (pr_live (al_props s)))\<rparr>\<rparr>)"

definition handleDeviceDescriptorRead :: "('d, 'u, 'v) app_env \<Rightarrow> a_frame \<Rightarrow> ('d, 'u, 'v) app \<Rightarrow> ('d, 'u, 'v) app" where
  "handleDeviceDescriptorRead E f s =
     (if length (af_data f) < 1 then s
      else fold (answer_descriptor E) (fst (dd_handleReadRequest (al_descriptor s) (af_source f) (af_data f ! 0))) s)"

definition handlePropertyValueRead :: "('d, 'u, 'v) app_env \<Rightarrow> a_frame \<Rightarrow> ('d, 'u, 'v) app \<Rightarrow> ('d, 'u, 'v) app" where
  "handlePropertyValueRead E f s =
     (if length (af_data f) < 4 then s
      else case pv_handleValueRead (ap_providers E) (al_accessCheck s) (af_source f)
             \<lparr>rq_objectIndex = af_data f ! 0, rq_propertyId = af_data f ! 1,
              rq_elementCount = drop_bit 4 (af_data f ! 2) AND 0x0F,
              rq_startIndex = word_be (af_data f ! 2 AND 0x0F) (af_data f ! 3)\<rparr> (al_props s) of
        (p, out, _) \<Rightarrow> fold (answer_value E) out (s\<lparr>al_props := p\<rparr>))"

definition handlePropertyValueWrite :: "('d, 'u, 'v) app_env \<Rightarrow> a_frame \<Rightarrow> ('d, 'u, 'v) app \<Rightarrow> ('d, 'u, 'v) app" where
  "handlePropertyValueWrite E f s =
     (if length (af_data f) < 4 then s
      else case pv_handleValueWrite (ap_providers E) (al_accessCheck s) (af_source f)
             \<lparr>wq_objectIndex = af_data f ! 0, wq_propertyId = af_data f ! 1,
              wq_elementCount = drop_bit 4 (af_data f ! 2) AND 0x0F,
              wq_startIndex = word_be (af_data f ! 2 AND 0x0F) (af_data f ! 3), wq_data = drop 4 (af_data f)\<rparr> (al_props s) of
        (p, out, _) \<Rightarrow> fold (answer_value E) out (s\<lparr>al_props := p\<rparr>))"

definition handlePropertyDescriptionRead :: "('d, 'u, 'v) app_env \<Rightarrow> a_frame \<Rightarrow> ('d, 'u, 'v) app \<Rightarrow> ('d, 'u, 'v) app" where
  "handlePropertyDescriptionRead E f s =
     (if length (af_data f) < 3 then s
      else case pv_handleDescriptionRead (ap_providers E) (al_accessCheck s) (af_source f) (af_data f ! 0) (af_data f ! 1)
             (af_data f ! 2) (al_props s) of
        (p, out, _) \<Rightarrow> fold (answer_description E) out (s\<lparr>al_props := p\<rparr>))"

definition handleMemoryRead :: "('d, 'u, 'v) app_env \<Rightarrow> a_frame \<Rightarrow> ('d, 'u, 'v) app \<Rightarrow> ('d, 'u, 'v) app" where
  "handleMemoryRead E f s =
     (if length (af_data f) < 3 then s
      else fold (answer_memory E)
             (fst (dm_read (al_memory s) (af_source f) (af_data f ! 0) (word_be (af_data f ! 1) (af_data f ! 2)))) s)"

definition handleMemoryWrite :: "('d, 'u, 'v) app_env \<Rightarrow> a_frame \<Rightarrow> ('d, 'u, 'v) app \<Rightarrow> ('d, 'u, 'v) app" where
  "handleMemoryWrite E f s =
     (if length (af_data f) < 3 then s
      else case dm_write (al_memory s) (af_source f) (af_data f ! 0) (word_be (af_data f ! 1) (af_data f ! 2))
             (drop 3 (af_data f)) of
        (d, out, _) \<Rightarrow> fold (answer_memory E) out (s\<lparr>al_memory := d\<rparr>))"

definition ext_address :: "bytes \<Rightarrow> u32" where
  "ext_address data =
     ema_create (push_bit 16 (ucast (data ! 1)) OR push_bit 8 (ucast (data ! 2)) OR ucast (data ! 3))"

definition handleMemoryExtendedRead :: "('d, 'u, 'v) app_env \<Rightarrow> a_frame \<Rightarrow> ('d, 'u, 'v) app \<Rightarrow> ('d, 'u, 'v) app" where
  "handleMemoryExtendedRead E f s =
     (if length (af_data f) < 4 then s
      else fold (answer_memory_ext E)
             (fst (dm_extRead (al_memory s) (af_source f) (af_data f ! 0) (ext_address (af_data f)))) s)"

definition handleMemoryExtendedWrite :: "('d, 'u, 'v) app_env \<Rightarrow> a_frame \<Rightarrow> ('d, 'u, 'v) app \<Rightarrow> ('d, 'u, 'v) app" where
  "handleMemoryExtendedWrite E f s =
     (if length (af_data f) < 4 then s
      else case dm_extWrite (al_memory s) (af_source f) (af_data f ! 0) (ext_address (af_data f)) (drop 4 (af_data f)) of
        (d, out, _) \<Rightarrow> fold (answer_memory_ext E) out (s\<lparr>al_memory := d\<rparr>))"

definition handlePropertyExtValueRead :: "('d, 'u, 'v) app_env \<Rightarrow> a_frame \<Rightarrow> ('d, 'u, 'v) app \<Rightarrow> ('d, 'u, 'v) app" where
  "handlePropertyExtValueRead E f s =
     (if length (af_data f) < 8 then s
      else case px_handleValueRead (ap_providers E) (al_extAccessCheck s) (af_source f)
             \<lparr>xq_header = eh_decode (af_data f), xq_elementCount = af_data f ! 5,
              xq_startIndex = word_be (af_data f ! 6) (af_data f ! 7), xq_data = []\<rparr> (al_props s) of
        (p, out, _) \<Rightarrow> fold (answer_ext_value E) out (s\<lparr>al_props := p\<rparr>))"

definition handlePropertyExtValueWrite :: "('d, 'u, 'v) app_env \<Rightarrow> a_frame \<Rightarrow> bool \<Rightarrow> ('d, 'u, 'v) app \<Rightarrow> ('d, 'u, 'v) app" where
  "handlePropertyExtValueWrite E f confirmed s =
     (if length (af_data f) < 8 then s
      else case px_handleValueWrite (ap_providers E) (al_extAccessCheck s) (af_source f)
             \<lparr>xq_header = eh_decode (af_data f), xq_elementCount = af_data f ! 5,
              xq_startIndex = word_be (af_data f ! 6) (af_data f ! 7), xq_data = drop 8 (af_data f)\<rparr> confirmed (al_props s) of
        (p, out, _) \<Rightarrow> fold (answer_ext_value E) out (s\<lparr>al_props := p\<rparr>))"

definition handlePropertyExtDescriptionRead :: "('d, 'u, 'v) app_env \<Rightarrow> a_frame \<Rightarrow> ('d, 'u, 'v) app \<Rightarrow> ('d, 'u, 'v) app" where
  "handlePropertyExtDescriptionRead E f s =
     (if length (af_data f) < 7 then s
      else fold (answer_ext_description E)
             (fst (px_handleDescriptionRead (al_extAccessCheck s) (af_source f) (eh_decode (af_data f))
                (drop_bit 4 (af_data f ! 5) AND 0x0F) (word_be (af_data f ! 5 AND 0x0F) (af_data f ! 6)) (al_props s))) s)"

definition handleFunctionPropertyExt :: "('d, 'u, 'v) app_env \<Rightarrow> a_frame \<Rightarrow> fp_invocation \<Rightarrow> ('d, 'u, 'v) app \<Rightarrow> ('d, 'u, 'v) app" where
  "handleFunctionPropertyExt E f invocation s =
     (if length (af_data f) < 5 then s
      else case px_handleFunctionProperty (ap_providers E) (af_source f) (eh_decode (af_data f)) (drop 5 (af_data f))
             (af_security f) invocation (al_props s) of
        (p, out, _) \<Rightarrow> fold (answer_ext_function E) out (s\<lparr>al_props := p\<rparr>))"

definition handleAuthorizeRequest :: "('d, 'u, 'v) app_env \<Rightarrow> a_frame \<Rightarrow> ('d, 'u, 'v) app \<Rightarrow> ('d, 'u, 'v) app" where
  "handleAuthorizeRequest E f s =
     (if length (af_data f) < 4 then s
      else case az_handleRequest (ap_auth E) (af_source f) (take 4 (af_data f)) (al_auth s) of
        (a, out, _) \<Rightarrow> fold (answer_authorize E) out (s\<lparr>al_auth := a\<rparr>))"

definition handleRestart :: "('d, 'u, 'v) app_env \<Rightarrow> a_frame \<Rightarrow> ('d, 'u, 'v) app \<Rightarrow> ('d, 'u, 'v) app" where
  "handleRestart E f s =
     (if af_apciData f AND 0x20 \<noteq> 0 then s
      else let masterReset = (af_apciData f AND 0x01 \<noteq> 0); type = (if masterReset then RtMasterReset else RtBasic) in
        if masterReset \<and> length (af_data f) < 2 then s
        else case rt_handleRequest (ap_restart E) (af_source f) type (al_restart s) of (rt, r) \<Rightarrow>
          (let s1 = s\<lparr>al_restart := rt\<rparr>;
               s2 = (if masterReset
                     then al_answer E (af_source f) S_RestartResponse [if isOk r then 0x00 else 0xFF, 0, 0] s1 else s1) in
           if isOk r
           then (case executePendingRestart (ap_restart E) (al_restart s2) of
                   (rt2, acts) \<Rightarrow> s2\<lparr>al_restart := rt2, al_restarts := al_restarts s2 @ acts\<rparr>)
           else s2))"

definition handleAdcRead :: "('d, 'u, 'v) app_env \<Rightarrow> a_frame \<Rightarrow> ('d, 'u, 'v) app \<Rightarrow> ('d, 'u, 'v) app" where
  "handleAdcRead E f s =
     (let channel = af_apciData f AND 0x3F;
          readCount = (if length (af_data f) \<ge> 2 then af_data f ! 1 else 0);
          sum1 = (case ap_adc E of Some g \<Rightarrow> if readCount \<noteq> 0 then g channel readCount else None | None \<Rightarrow> None);
          w = (case sum1 of Some v \<Rightarrow> v | None \<Rightarrow> 0) in
      al_answer E (af_source f) S_ADCResponse
        [channel, if sum1 \<noteq> None then readCount else 0, getHighByte w, getLowByte w] s)"

definition handleIndividualAddressRead :: "('d, 'u, 'v) app_env \<Rightarrow> a_frame \<Rightarrow> ('d, 'u, 'v) app \<Rightarrow> ('d, 'u, 'v) app" where
  "handleIndividualAddressRead E f s =
     (if \<not> al_programmingMode s then s
      else fst (sendBroadcast E S_IndividualAddressResponse [getHighByte (al_own s), getLowByte (al_own s)]
                  (al_serviceOptions s) s))"

definition handleSystemNetworkParameterRead :: "('d, 'u, 'v) app_env \<Rightarrow> a_frame \<Rightarrow> ('d, 'u, 'v) app \<Rightarrow> ('d, 'u, 'v) app" where
  "handleSystemNetworkParameterRead E f s =
     (if length (af_data f) < 4 then s
      else let objectType = word_be (af_data f ! 0) (af_data f ! 1);
               propertyId = push_bit 4 (ucast (af_data f ! 2)) OR ucast (drop_bit 4 (af_data f ! 3) AND 0x0F) :: u16;
               testInfo = drop 4 (af_data f) in
        if \<not> (objectType = 0 \<and> propertyId = 11 \<and> testInfo = [0x01]) then s
        else if \<not> al_programmingMode s then s
        else al_answerBroadcast E S_SystemNetworkParameterResponse
               (take 4 (af_data f) @ 0x01 # np_serialNumber (al_network s)) s)"

definition handleIndividualAddressWrite :: "('d, 'u, 'v) app_env \<Rightarrow> a_frame \<Rightarrow> ('d, 'u, 'v) app \<Rightarrow> ('d, 'u, 'v) app" where
  "handleIndividualAddressWrite E f s =
     (if \<not> al_programmingMode s then s
      else if length (af_data f) < 2 then s
      else update_address E (word_be (af_data f ! 0) (af_data f ! 1)) s)"

definition forwardToUser :: "('d, 'u, 'v) app_env \<Rightarrow> a_frame \<Rightarrow> ('d, 'u, 'v) app \<Rightarrow> ('d, 'u, 'v) app" where
  "forwardToUser E f s =
     (if ap_hasReceiveCallback E then s\<lparr>al_delivered := al_delivered s @ [f]\<rparr> else al_enqueueReceivedFrame f s)"

section \<open>Receiving\<close>

definition isRequestPermitted :: "('d, 'u, 'v) app_env \<Rightarrow> a_frame \<Rightarrow> ('d, 'u, 'v) app \<Rightarrow> bool" where
  "isRequestPermitted E f s =
     (if \<not> isManagementWriteService (af_service f) then True
      else let mode = (case ap_securityMode E of Some g \<Rightarrow> g (pr_live (al_props s)) | None \<Rightarrow> False) in
        managementWritePermitted (af_service f) mode (af_security f))"

definition dispatchService :: "('d, 'u, 'v) app_env \<Rightarrow> a_frame \<Rightarrow> ('d, 'u, 'v) app \<Rightarrow> ('d, 'u, 'v) app" where
  "dispatchService E f s =
     (let sv = af_service f in
      if sv = S_DeviceDescriptorRead then handleDeviceDescriptorRead E f s
      else if sv = S_PropertyValueRead then handlePropertyValueRead E f s
      else if sv = S_PropertyValueWrite then handlePropertyValueWrite E f s
      else if sv = S_PropertyDescriptionRead then handlePropertyDescriptionRead E f s
      else if sv = S_PropertyExtValueRead then handlePropertyExtValueRead E f s
      else if sv = S_PropertyExtValueWriteCon then handlePropertyExtValueWrite E f True s
      else if sv = S_PropertyExtValueWriteUnCon then handlePropertyExtValueWrite E f False s
      else if sv = S_PropertyExtDescriptionRead then handlePropertyExtDescriptionRead E f s
      else if sv = S_FunctionPropertyExtCommand then handleFunctionPropertyExt E f FpCommand s
      else if sv = S_FunctionPropertyExtStateRead then handleFunctionPropertyExt E f FpStateRead s
      else if sv = S_MemoryExtendedRead then handleMemoryExtendedRead E f s
      else if sv = S_MemoryExtendedWrite then handleMemoryExtendedWrite E f s
      else if sv = S_MemoryRead then handleMemoryRead E f s
      else if sv = S_MemoryWrite then handleMemoryWrite E f s
      else if sv = S_AuthorizeRequest then handleAuthorizeRequest E f s
      else if sv = S_Restart then handleRestart E f s
      else if sv = S_ADCRead then handleAdcRead E f s
      else if sv = S_IndividualAddressRead then handleIndividualAddressRead E f s
      else if sv = S_SystemNetworkParameterRead then handleSystemNetworkParameterRead E f s
      else if sv = S_IndividualAddressWrite then handleIndividualAddressWrite E f s
      else if sv = S_FunctionPropertyCommand \<or> sv = S_FunctionPropertyStateRead then handleFunctionProperty E f s
      else if sv = S_IndividualAddressSerialNumberRead then handleSerialNumberRead E f s
      else if sv = S_IndividualAddressSerialNumberWrite then handleSerialNumberWrite E f s
      else if sv = S_NetworkParameterRead then handleNetworkParameterRead E f s
      else if sv = S_NetworkParameterWrite then handleNetworkParameterWrite E f s
      else forwardToUser E f s)"

text \<open>The service data: the APCI data field first for the services that carry an octet there, then the
  payload as far as the buffer takes it; a short group value is the data field alone.\<close>

definition service_data :: "apci_service \<Rightarrow> u8 \<Rightarrow> bytes \<Rightarrow> bytes" where
  "service_data service data6 payload =
     (let d = take RESPONSE_CAPACITY ((if usesApciData6 service then [data6] else []) @ payload) in
      if (service = S_GroupValueWrite \<or> service = S_GroupValueResponse) \<and> d = [] then [data6] else d)"

definition a_frame_of :: "tdata_frame \<Rightarrow> a_frame" where
  "a_frame_of f =
     (let apci = h_apci (unpackTpduHeader (t_tpdu f ! 0) (t_tpdu f ! 1)); service = apci_service_of apci in
      \<lparr>af_source = t_source f, af_destination = t_destination f, af_service = service,
       af_data = service_data service (apci_data6 apci) (drop 2 (t_tpdu f)),
       af_destinationType = t_destinationType f, af_apciData = apci_data6 apci, af_security = t_security f\<rparr>)"

definition handleTransportRx :: "('d, 'u, 'v) app_env \<Rightarrow> tdata_frame \<Rightarrow> ('d, 'u, 'v) app \<Rightarrow> ('d, 'u, 'v) app" where
  "handleTransportRx E f s =
     (if \<not> al_initialized s then s
      else if length (t_tpdu f) < 2 then s
      else let a = a_frame_of f;
               s1 = s\<lparr>al_connectedRequest := (t_service f = TConnected), al_requestSecurity := af_security a\<rparr>;
               s2 = (if isRequestPermitted E a s1 then dispatchService E a s1 else s1) in
           s2\<lparr>al_requestSecurity := al_requestSecurity s, al_connectedRequest := al_connectedRequest s\<rparr>)"

text \<open>What the transport layer indicates for one network frame is handled at once: the indication is
  the last thing \<open>TransportLayer::handleNetworkRx\<close> does.\<close>

definition al_handleNetworkRx :: "('d, 'u, 'v) app_env \<Rightarrow> ndata_frame \<Rightarrow> ('d, 'u, 'v) app \<Rightarrow> ('d, 'u, 'v) app" where
  "al_handleNetworkRx E n s =
     (let T = handleNetworkRx (ap_dl E) (ap_hooks E) (al_transport s) n in
      fold (handleTransportRx E) (drop (length (tl_indications (al_transport s))) (tl_indications T))
        (s\<lparr>al_transport := T\<rparr>))"

section \<open>Opening and closing\<close>

text \<open>\<open>init\<close> creates fresh service objects, which \<open>close\<close> keeps; the bound memory segments are not
  reset by either.\<close>

definition app_new :: "('d, 'u) transport \<Rightarrow> 'v \<Rightarrow> ('d, 'u, 'v) app" where
  "app_new T v =
     \<lparr>al_transport = T, al_own = 0, al_initialized = False, al_hasServices = False, al_programmingMode = False,
      al_descriptor = dd_createDefault, al_props = \<lparr>pr_store = (\<lambda>_. None), pr_live = v\<rparr>,
      al_memory = device_memory_init, al_auth = authorization_init, al_restart = restart_init,
      al_network = \<lparr>np_serialNumber = replicate 6 0, np_domainAddress = 0\<rparr>,
      al_rxQueue = \<lparr>ring_slots = replicate AL_QUEUE_CAPACITY a_frame_init, ring_head = 0, ring_count = 0\<rparr>,
      al_droppedRx = 0,
      al_outcomes = \<lparr>ring_slots = replicate AL_QUEUE_CAPACITY send_outcome_init, ring_head = 0, ring_count = 0\<rparr>,
      al_droppedOutcomes = 0, al_connectedRequest = False, al_requestSecurity = no_security,
      al_defaultOptions = send_options_init, al_serviceOptions = send_options_init, al_sendOp = send_operation_init,
      al_delivered = [], al_addressUpdates = [], al_restarts = []\<rparr>"

definition al_init :: "individual_address \<Rightarrow> ('d, 'u, 'v) app \<Rightarrow> ('d, 'u, 'v) app \<times> unit result" where
  "al_init own s =
     (if al_initialized s then (s, Inr ())
      else (s\<lparr>al_own := own, al_descriptor := dd_createDefault,
              al_props := (al_props s)\<lparr>pr_store := (\<lambda>_. None)\<rparr>,
              al_memory := (al_memory s)\<lparr>dm_space := [], dm_callbacks := no_callbacks\<rparr>,
              al_auth := authorization_init, al_restart := restart_init,
              al_network := \<lparr>np_serialNumber = replicate 6 0, np_domainAddress = 0\<rparr>,
              al_transport := (al_transport s)\<lparr>tl_hasCallback := True\<rparr>,
              al_serviceOptions := (optionsForPreset RetryTransientTwice)\<lparr>op_priority := System\<rparr>,
              al_hasServices := True, al_initialized := True\<rparr>, Inr ()))"

definition al_close :: "('d, 'u, 'v) app \<Rightarrow> ('d, 'u, 'v) app" where
  "al_close s =
     (if al_initialized s
      then al_finishSendOperation (s\<lparr>al_transport := (al_transport s)\<lparr>tl_hasCallback := False\<rparr>,
             al_rxQueue := (al_rxQueue s)\<lparr>ring_head := 0, ring_count := 0\<rparr>, al_droppedRx := 0,
             al_outcomes := (al_outcomes s)\<lparr>ring_head := 0, ring_count := 0\<rparr>, al_droppedOutcomes := 0,
             al_initialized := False\<rparr>)
      else s)"

definition al_registerMemoryRegion :: "memory_region \<Rightarrow> bytes \<Rightarrow> ('d, 'u, 'v) app \<Rightarrow> ('d, 'u, 'v) app \<times> unit result" where
  "al_registerMemoryRegion region storage s =
     (if \<not> al_hasServices s then (s, Inl NotInitialized)
      else case registerMemoryRegion region storage (al_memory s) of (d, r) \<Rightarrow> (s\<lparr>al_memory := d\<rparr>, r))"

definition registerPropertyObject ::
    "u16 \<Rightarrow> u8 \<Rightarrow> (property_store \<Rightarrow> property_store) \<Rightarrow> ('d, 'u, 'v) app \<Rightarrow> ('d, 'u, 'v) app" where
  "registerPropertyObject objectType oi registration s =
     (if \<not> al_hasServices s then s
      else case addObject objectType oi (pr_store (al_props s)) of
        (m, True) \<Rightarrow> s\<lparr>al_props := (al_props s)\<lparr>pr_store := m(oi := map_option registration (m oi))\<rparr>\<rparr>
      | (m, False) \<Rightarrow> s)"

end
