(* ===== verification/Application_Spec.thy ===== *)
theory Application_Spec
  imports Application_Layer Transport_Reliability
begin

text \<open>
  What the application layer of \<open>Application_Layer\<close> promises: with security mode on the configuration
  is out of reach of requests without the tool key, the telegram a station builds is the one its peer
  parses, every send has exactly one outcome within its attempt budget, and the receive queue and the
  send engine keep the contracts of \<open>Interfaces\<close>.
\<close>

section \<open>What sending leaves alone\<close>

text \<open>The configuration of the device: everything a management service can change.\<close>

definition al_config where
  "al_config s =
     (al_own s, al_initialized s, al_programmingMode s, al_descriptor s, al_props s, al_memory s, al_auth s,
      al_restart s, al_network s, al_addressUpdates s, al_restarts s)"

lemma enqueueSendOutcome_config [simp]: "al_config (enqueueSendOutcome oc s) = al_config s"
  by (simp add: enqueueSendOutcome_def al_config_def)

lemma sendData_config [simp]: "al_config (fst (al_sendData E dest service data dtype o1 s)) = al_config s"
proof -
  have "al_config (s\<lparr>al_transport := T\<rparr>) = al_config s" for T by (simp add: al_config_def)
  then show ?thesis by (simp add: al_sendData_def Let_def split: sum.splits prod.splits)
qed

lemma al_answer_config [simp]: "al_config (al_answer E dest service payload s) = al_config s"
  by (simp add: al_answer_def sendToIndividual_def)

lemma al_answerBroadcast_config [simp]: "al_config (al_answerBroadcast E service payload s) = al_config s"
  by (simp add: al_answerBroadcast_def sendBroadcast_def)

lemma answers_config [simp]:
  "al_config (answer_descriptor E a1 s) = al_config s" "al_config (answer_memory E a2 s) = al_config s"
  "al_config (answer_memory_ext E a3 s) = al_config s" "al_config (answer_ext_value E a4 s) = al_config s"
  "al_config (answer_ext_description E a5 s) = al_config s" "al_config (answer_ext_function E a6 s) = al_config s"
  "al_config (answer_function E a7 s) = al_config s" "al_config (answer_serial E a8 s) = al_config s"
  "al_config (answer_network E a9 s) = al_config s" "al_config (answer_authorize E a10 s) = al_config s"
  "al_config (answer_value E a11 s) = al_config s" "al_config (answer_description E a12 s) = al_config s"
  subgoal by (cases a1) simp_all
  subgoal by (cases a2) simp_all
  subgoal by (cases a3) simp_all
  subgoal by (cases a4) simp_all
  subgoal by (cases a5) simp_all
  subgoal by (cases a6) simp_all
  subgoal by (cases a7) simp_all
  subgoal by (cases a8) simp_all
  subgoal by (cases a9) simp_all
  subgoal by (cases a10) simp_all
  subgoal by (cases a11) simp_all
  subgoal by (cases a12) simp_all
  done

lemma fold_config: "(\<And>x s. al_config (g x s) = al_config s) \<Longrightarrow> al_config (fold g xs s) = al_config s"
  by (induction xs arbitrary: s) simp_all

lemmas fold_answers [simp] =
  fold_config [of "answer_descriptor E" for E, OF answers_config(1)]
  fold_config [of "answer_memory E" for E, OF answers_config(2)]
  fold_config [of "answer_memory_ext E" for E, OF answers_config(3)]
  fold_config [of "answer_ext_value E" for E, OF answers_config(4)]
  fold_config [of "answer_ext_description E" for E, OF answers_config(5)]
  fold_config [of "answer_ext_function E" for E, OF answers_config(6)]
  fold_config [of "answer_function E" for E, OF answers_config(7)]
  fold_config [of "answer_serial E" for E, OF answers_config(8)]
  fold_config [of "answer_network E" for E, OF answers_config(9)]
  fold_config [of "answer_authorize E" for E, OF answers_config(10)]
  fold_config [of "answer_value E" for E, OF answers_config(11)]
  fold_config [of "answer_description E" for E, OF answers_config(12)]

lemma config_props: "al_props s = p \<Longrightarrow> al_config (s\<lparr>al_props := p\<rparr>) = al_config s"
  by (simp add: al_config_def)

section \<open>Security mode protects the configuration\<close>

text \<open>The providers of the device change nothing when they are asked to read.\<close>

definition quiet_reads :: "('d, 'u, 'v) app_env \<Rightarrow> bool" where
  "quiet_reads E \<longleftrightarrow>
     (\<forall>g src rq buf v. pp_read (ap_providers E) = Some g \<longrightarrow> fst (g src rq buf v) = v) \<and>
     (\<forall>g src oi pid pix v. pp_describe (ap_providers E) = Some g \<longrightarrow> fst (g src oi pid pix v) = v) \<and>
     (\<forall>g src rq v. pp_function (ap_providers E) = Some g \<longrightarrow> fq_invocation rq = FpStateRead \<longrightarrow> fst (g src rq v) = v) \<and>
     (\<forall>g src h sec data v. pp_extFunction (ap_providers E) = Some g \<longrightarrow> fst (g src h FpStateRead sec data v) = v) \<and>
     (\<forall>g rq v. nh_read (ap_network E) = Some g \<longrightarrow> fst (g rq v) = v)"

lemma ask_read_quiet: "quiet_reads E \<Longrightarrow> fst (ask_read (ap_providers E) src rq v) = v"
  by (auto simp: quiet_reads_def ask_read_def split: option.splits)

lemma value_read_quiet:
  assumes "quiet_reads E"
  shows "fst (pv_handleValueRead (ap_providers E) chk src rq s) = s"
  using ask_read_quiet [OF assms, of src rq "pr_live s"]
  by (auto simp: pv_handleValueRead_def Let_def split: prod.splits option.splits sum.splits)

lemma description_read_quiet:
  assumes "quiet_reads E"
  shows "fst (pv_handleDescriptionRead (ap_providers E) chk src oi pid pix s) = s"
proof (cases "pp_describe (ap_providers E)")
  case (Some g)
  then have "fst (g src oi pid pix (pr_live s)) = pr_live s" using assms by (simp add: quiet_reads_def)
  with Some show ?thesis
    by (cases "g src oi pid pix (pr_live s)"; cases "pr_store s oi")
      (simp_all add: pv_handleDescriptionRead_def Let_def split: option.split)
next
  case None
  then show ?thesis
    by (cases "pr_store s oi") (simp_all add: pv_handleDescriptionRead_def Let_def split: option.split)
qed

lemma ext_value_read_quiet:
  assumes "quiet_reads E"
  shows "fst (px_handleValueRead (ap_providers E) chk src rq s) = s"
proof -
  have "s\<lparr>pr_live := v\<rparr> = s" if "ask_read (ap_providers E) src q (pr_live s) = (v, ans)" for q v ans
    using ask_read_quiet [OF assms, of src q "pr_live s"] that by simp
  then show ?thesis
    by (auto simp: px_handleValueRead_def Let_def split: prod.splits option.splits sum.splits)
qed

lemma ext_function_quiet:
  assumes "quiet_reads E"
  shows "fst (px_handleFunctionProperty (ap_providers E) src h data sec FpStateRead s) = s"
proof -
  have "s\<lparr>pr_live := v\<rparr> = s"
    if "pp_extFunction (ap_providers E) = Some g" "g src h FpStateRead sec data (pr_live s) = (v, ans)" for g v ans
  proof -
    have "fst (g src h FpStateRead sec data (pr_live s)) = pr_live s" using assms that(1) by (simp add: quiet_reads_def)
    with that(2) show ?thesis by simp
  qed
  then show ?thesis
    by (auto simp: px_handleFunctionProperty_def Let_def split: prod.splits option.splits)
qed

lemma function_quiet:
  assumes "quiet_reads E" and "fq_invocation rq = FpStateRead"
  shows "fst (fp_handleRequest (ap_providers E) src rq v) = v"
proof (cases "pp_function (ap_providers E)")
  case (Some g)
  then have "fst (g src rq v) = v" using assms by (simp add: quiet_reads_def)
  with Some show ?thesis by (auto simp: fp_handleRequest_def Let_def split: prod.splits sum.splits)
qed (simp add: fp_handleRequest_def)

lemma network_read_quiet: "quiet_reads E \<Longrightarrow> fst (np_handleNetworkParameterRead (ap_network E) rq v) = v"
  by (auto simp: np_handleNetworkParameterRead_def quiet_reads_def split: option.splits prod.splits sum.splits)
    (metis fst_conv)+

lemma props_same: "p = al_props s \<Longrightarrow> s\<lparr>al_props := p\<rparr> = s"
  by simp

text \<open>Reading services leave the configuration as it is.\<close>

lemma read_handlers_config:
  assumes "quiet_reads E"
  shows "al_config (handlePropertyValueRead E f s) = al_config s"
    and "al_config (handlePropertyDescriptionRead E f s) = al_config s"
    and "al_config (handlePropertyExtValueRead E f s) = al_config s"
    and "al_config (handleFunctionPropertyExt E f FpStateRead s) = al_config s"
    and "al_config (handleNetworkParameterRead E f s) = al_config s"
    and "af_service f = S_FunctionPropertyStateRead \<Longrightarrow> al_config (handleFunctionProperty E f s) = al_config s"
proof -
  show "al_config (handlePropertyValueRead E f s) = al_config s"
    using value_read_quiet [OF assms]
    by (auto simp: handlePropertyValueRead_def split_beta intro!: config_props)
  show "al_config (handlePropertyDescriptionRead E f s) = al_config s"
    using description_read_quiet [OF assms]
    by (auto simp: handlePropertyDescriptionRead_def split_beta intro!: config_props)
  show "al_config (handlePropertyExtValueRead E f s) = al_config s"
    using ext_value_read_quiet [OF assms]
    by (auto simp: handlePropertyExtValueRead_def split_beta intro!: config_props)
  show "al_config (handleFunctionPropertyExt E f FpStateRead s) = al_config s"
    using ext_function_quiet [OF assms]
    by (auto simp: handleFunctionPropertyExt_def split_beta intro!: config_props)
  show "al_config (handleNetworkParameterRead E f s) = al_config s"
    using network_read_quiet [OF assms]
    by (auto simp: handleNetworkParameterRead_def split_beta intro!: config_props split: option.splits)
  assume sv: "af_service f = S_FunctionPropertyStateRead"
  then have "af_service f \<noteq> S_FunctionPropertyCommand" by (simp add: apci_codes)
  then show "al_config (handleFunctionProperty E f s) = al_config s"
    using function_quiet [OF assms]
    by (auto simp: handleFunctionProperty_def Let_def split_beta intro!: config_props)
qed

lemma plain_handlers_config:
  "al_config (handleDeviceDescriptorRead E f s) = al_config s"
  "al_config (handlePropertyExtDescriptionRead E f s) = al_config s"
  "al_config (handleMemoryRead E f s) = al_config s"
  "al_config (handleMemoryExtendedRead E f s) = al_config s"
  "al_config (handleAdcRead E f s) = al_config s"
  "al_config (handleIndividualAddressRead E f s) = al_config s"
  "al_config (handleSystemNetworkParameterRead E f s) = al_config s"
  "al_config (handleSerialNumberRead E f s) = al_config s"
  "al_config (forwardToUser E f s) = al_config s"
  by (simp_all add: handleDeviceDescriptorRead_def handlePropertyExtDescriptionRead_def handleMemoryRead_def
      handleMemoryExtendedRead_def handleAdcRead_def handleIndividualAddressRead_def handleSystemNetworkParameterRead_def
      handleSerialNumberRead_def forwardToUser_def al_enqueueReceivedFrame_def Let_def sendBroadcast_def)
    (simp_all add: al_config_def)

lemma dispatch_read_config:
  assumes "quiet_reads E" and "\<not> isManagementWriteService (af_service f)"
  shows "al_config (dispatchService E f s) = al_config s"
proof -
  have m: "af_service f \<noteq> x" if "isManagementWriteService x" for x using assms(2) that by auto
  have "af_service f \<notin> {S_PropertyValueWrite, S_PropertyExtValueWriteCon, S_PropertyExtValueWriteUnCon,
      S_FunctionPropertyCommand, S_FunctionPropertyExtCommand, S_MemoryWrite, S_MemoryExtendedWrite,
      S_IndividualAddressWrite, S_IndividualAddressSerialNumberWrite, S_NetworkParameterWrite, S_AuthorizeRequest, S_Restart}"
    using m by (auto simp: isManagementWriteService_def)
  then show ?thesis
    by (simp add: dispatchService_def Let_def read_handlers_config [OF assms(1)] plain_handlers_config)
qed

definition security_on :: "('d, 'u, 'v) app_env \<Rightarrow> ('d, 'u, 'v) app \<Rightarrow> bool" where
  "security_on E s \<longleftrightarrow> (\<exists>g. ap_securityMode E = Some g \<and> g (pr_live (al_props s)))"

lemma secure_step:
  assumes "quiet_reads E" and "security_on E s" and "\<not> toolSecured (t_security f)"
  shows "al_config (handleTransportRx E f s) = al_config s"
proof -
  let ?a = "a_frame_of f"
  let ?s1 = "s\<lparr>al_connectedRequest := (t_service f = TConnected), al_requestSecurity := af_security ?a\<rparr>"
  have c1: "al_config ?s1 = al_config s" by (simp add: al_config_def)
  have sec: "af_security ?a = t_security f" by (simp add: a_frame_of_def Let_def)
  have "al_config (if isRequestPermitted E ?a ?s1 then dispatchService E ?a ?s1 else ?s1) = al_config s"
  proof (cases "isManagementWriteService (af_service ?a)")
    case True
    then have "\<not> isRequestPermitted E ?a ?s1"
      using assms(2,3) sec by (auto simp: isRequestPermitted_def security_on_def managementWritePermitted_def)
    with c1 show ?thesis by simp
  next
    case False
    with dispatch_read_config [OF assms(1), of ?a ?s1] c1 show ?thesis by simp
  qed
  then show ?thesis by (simp add: handleTransportRx_def Let_def al_config_def)
qed

text \<open>
  With security mode on, no sequence of requests that are not secured with the tool key
  (authenticated and encrypted) changes the configuration of the device: its individual address, its
  properties and interface objects, its memory, its authorizations, its descriptor and serial number,
  and no restart is carried out, whatever services the frames name. (The device's own read providers
  change nothing when they are asked to read.)
\<close>

theorem security_mode_protects_configuration:
  assumes "quiet_reads E" and "security_on E s" and "\<forall>f \<in> set fs. \<not> toolSecured (t_security f)"
  shows "al_config (fold (handleTransportRx E) fs s) = al_config s"
  using assms(2,3)
proof (induction fs arbitrary: s)
  case (Cons f fs)
  have c: "al_config (handleTransportRx E f s) = al_config s"
    using Cons.prems by (intro secure_step [OF assms(1)]) simp_all
  then have "al_props (handleTransportRx E f s) = al_props s" by (simp add: al_config_def)
  with Cons.prems(1) have "security_on E (handleTransportRx E f s)" by (simp add: security_on_def)
  with Cons c show ?case by simp
qed simp

text \<open>A device in programming mode with security mode on, and a request to change its individual
  address.\<close>

definition sample_env :: "(ldata_frame list, unit, unit) app_env" where
  "sample_env =
     \<lparr>ap_dl = log_link, ap_hooks = no_hooks,
      ap_providers = \<lparr>pp_read = None, pp_consume = None, pp_write = None, pp_describe = None, pp_function = None,
                      pp_extFunction = None\<rparr>,
      ap_network = \<lparr>nh_read = None, nh_write = None\<rparr>, ap_auth = \<lparr>av_validate = None, av_time = None\<rparr>,
      ap_restart = \<lparr>re_authorize = None, re_hasRestart = True, re_hasCleanup = False\<rparr>,
      ap_securityMode = Some (\<lambda>_. True), ap_adc = None, ap_hasReceiveCallback = False, ap_hasAddressCallback = True\<rparr>"

definition sample_app :: "(ldata_frame list, unit, unit) app" where
  "sample_app = (fst (al_init 0x1101 (app_new sample_device ())))\<lparr>al_programmingMode := True\<rparr>"

definition address_write :: "request_security \<Rightarrow> tdata_frame" where
  "address_write sec =
     tdata_frame_init\<lparr>t_source := 0x1105, t_destinationType := Group, t_service := TGroup, t_tpdu := [0x00, 0xC0, 0x12, 0x34],
       t_security := sec\<rparr>"

theorem security_mode_protects_configuration_witness:
  "al_config (fold (handleTransportRx sample_env) [address_write no_security] sample_app) = al_config sample_app \<and>
   al_own (fold (handleTransportRx sample_env) [address_write no_security] sample_app) = 0x1101 \<and>
   al_own (fold (handleTransportRx sample_env)
     [address_write \<lparr>rs_secured = True, rs_toolAccess = True, rs_confidentiality = True\<rparr>] sample_app) = 0x1234"
proof -
  have "al_config (fold (handleTransportRx sample_env) [address_write no_security] sample_app) = al_config sample_app"
    by (rule security_mode_protects_configuration)
      (simp_all add: quiet_reads_def security_on_def sample_env_def address_write_def no_security_def toolSecured_def)
  moreover from this have "al_own (fold (handleTransportRx sample_env) [address_write no_security] sample_app) = al_own sample_app"
    by (simp only: al_config_def prod.inject)
  moreover have "al_own sample_app = 0x1101" by code_simp
  moreover have "al_own (fold (handleTransportRx sample_env)
     [address_write \<lparr>rs_secured = True, rs_toolAccess = True, rs_confidentiality = True\<rparr>] sample_app) = 0x1234"
    by code_simp
  ultimately show ?thesis by simp
qed

section \<open>What is sent is what is parsed\<close>

text \<open>The requests whose service and data survive the wire. A group read has no data and the other group
  services have some; a service with data in its APCI field has six bits there, and only the first eight
  channels of an ADC answer stay clear of the codes of other services; every other service has a code
  that the parser reads as itself.\<close>

definition wire_request :: "apci_service \<Rightarrow> bytes \<Rightarrow> bool" where
  "wire_request service data \<longleftrightarrow>
     length data \<le> RESPONSE_CAPACITY \<and>
     (if service = S_GroupValueRead then data = []
      else if isGroupValueService service then data \<noteq> []
      else if usesApciData6 service then data \<noteq> [] \<and> data ! 0 < (if service = S_ADCResponse then 8 else 0x40)
      else apci_service_of service = service)"

lemma low6: "d < 0x40 \<Longrightarrow> d AND 0x3F = (d :: u8)"
  using less_mask_eq [of d 6] by (simp add: mask_eq_exp_minus_1)

lemma adc_service:
  assumes "d < (8 :: u8)"
  shows "apci_service_of (apci_create S_ADCResponse d) = S_ADCResponse"
proof -
  have "unat d < 8" using assms by (simp add: word_less_nat_alt)
  then have "unat d \<in> {0, 1, 2, 3, 4, 5, 6, 7}" by auto
  then have "d \<in> word_of_nat ` {0, 1, 2, 3, 4, 5, 6, 7}" by (rule rev_image_eqI) simp
  then show ?thesis by (simp add: apci_codes) (elim disjE; hypsubst; code_simp)
qed

lemma data6_parse:
  assumes "usesApciData6 sv" and "d < (if sv = S_ADCResponse then 8 else 0x40)"
  shows "apci_service_of (apci_create sv d) = sv" and "apci_data6 (apci_create sv d) = d"
proof -
  have sv: "sv \<in> {S_MemoryRead, S_MemoryWrite, S_MemoryResponse, S_DeviceDescriptorRead, S_DeviceDescriptorResponse,
      S_ADCRead, S_ADCResponse}" using assms(1) by (simp add: usesApciData6_def)
  have d: "d < 0x40" using assms(2) order_less_trans [of d 8 "0x40"] by (simp split: if_splits)
  show "apci_service_of (apci_create sv d) = sv" 
    using sv adc_service assms(2) by (cases "sv = S_ADCResponse") (auto intro!: apci_service_short)
  show "apci_data6 (apci_create sv d) = d"
    using sv low6 [OF d] by (subst apci_data6_create) (auto simp: apci_codes)
qed

lemma plain_parse: "apci_service_of sv = sv \<Longrightarrow> apci_create sv 0 = sv"
  by (simp add: apci_create_def)

lemma buildTpdu_plain:
  "buildTpduInPlace data_tpci a p = Inr (fst (packTpduHeader data_tpci a) # snd (packTpduHeader data_tpci a) # p)"
  by (rule buildTpdu_data) simp

definition parsed :: "bytes \<Rightarrow> apci_service \<times> bytes" where
  "parsed bs =
     (let a = h_apci (unpackTpduHeader (bs ! 0) (bs ! 1)); sv = apci_service_of a in
      (sv, service_data sv (apci_data6 a) (drop 2 bs)))"

lemma parsed_built:
  "buildTpduInPlace data_tpci a p = Inr bs \<Longrightarrow>
   parsed bs = (apci_service_of a, service_data (apci_service_of a) (apci_data6 a) p)"
  by (auto simp: buildTpdu_plain parsed_def Let_def)

lemma group_data6: "isGroupValueService sv \<Longrightarrow> \<not> usesApciData6 sv"
  by (auto simp: isGroupValueService_def usesApciData6_def apci_codes)

lemma group_parse:
  assumes "isGroupValueService sv" and "d \<le> 0x3F"
  shows "apci_service_of (apci_create sv d) = sv" and "apci_data6 (apci_create sv d) = d"
proof -
  have "d < 0x40" using assms(2) by (simp add: word_le_nat_alt word_less_nat_alt)
  then show "apci_service_of (apci_create sv d) = sv" "apci_data6 (apci_create sv d) = d"
    using assms(1) apci_service_short [of sv d] low6 by (auto simp: isGroupValueService_def)
qed

lemma tpdu_parsed:
  assumes "wire_request sv data"
  shows "\<exists>bs. al_buildTpdu sv data = Inr bs \<and> length bs \<ge> 2 \<and> parsed bs = (sv, data)"
proof -
  have len: "length data \<le> RESPONSE_CAPACITY" using assms by (simp add: wire_request_def)
  have built: "\<exists>bs. buildTpduInPlace data_tpci a p = Inr bs \<and> length bs \<ge> 2 \<and>
      parsed bs = (apci_service_of a, service_data (apci_service_of a) (apci_data6 a) p)" for a p
    using parsed_built [of a p] by (auto simp: buildTpdu_plain)
  consider (gread) "sv = S_GroupValueRead" "data = []"
    | (group) "sv = S_GroupValueWrite \<or> sv = S_GroupValueResponse" "data \<noteq> []"
    | (d6) "\<not> isGroupValueService sv" "usesApciData6 sv" "data \<noteq> []"
        "data ! 0 < (if sv = S_ADCResponse then 8 else 0x40)"
    | (plain) "\<not> isGroupValueService sv" "\<not> usesApciData6 sv" "apci_service_of sv = sv"
    using assms by (auto simp: wire_request_def isGroupValueService_def split: if_splits)
  then show ?thesis
  proof cases
    case gread
    then have g: "isGroupValueService sv" by (simp add: isGroupValueService_def)
    show ?thesis using gread group_parse [OF g, of 0] group_data6 [OF g] built [of "apci_create sv 0" "[]"]
      by (simp add: al_buildTpdu_def g service_data_def) (simp add: apci_codes)
  next
    case group
    then have g: "isGroupValueService sv" by (auto simp: isGroupValueService_def)
    have nr: "sv \<noteq> S_GroupValueRead" using group by (auto simp: apci_codes)
    show ?thesis
    proof (cases "length data = 1 \<and> data ! 0 \<le> 0x3F")
      case True
      then have d: "data = [data ! 0]" by (cases data) auto
      have sd: "service_data sv (data ! 0) [] = data" 
        using group group_data6 [OF g] d by (simp add: service_data_def)
      show ?thesis using True group nr g group_parse [OF g, of "data ! 0"] sd built [of "apci_create sv (data ! 0)" "[]"]
        by (simp add: al_buildTpdu_def)
    next
      case False
      have sd: "service_data sv 0 data = data"
        using group group_data6 [OF g] len by (simp add: service_data_def)
      have "al_buildTpdu sv data = buildTpduInPlace data_tpci (apci_create sv 0) data"
        using False group nr g by (auto simp: al_buildTpdu_def)
      then show ?thesis using group_parse [OF g, of 0] sd built [of "apci_create sv 0" data] by simp
    qed
  next
    case d6
    have sd: "service_data sv (data ! 0) (drop 1 data) = data"
      using d6 len by (cases data) (auto simp: service_data_def usesApciData6_def apci_codes)
    show ?thesis using d6 data6_parse [OF d6(2,4)] sd built [of "apci_create sv (data ! 0)" "drop 1 data"]
      by (simp add: al_buildTpdu_def)
  next
    case plain
    have sd: "service_data sv x data = data" for x
      using plain len by (simp add: service_data_def isGroupValueService_def)
    show ?thesis using plain plain_parse [OF plain(3)] sd built [of sv data]
      by (simp add: al_buildTpdu_def)
  qed
qed

text \<open>
  C19. The application layer parses what it builds: for every request that has a form on the wire, the
  transport frame \<open>buildTransportTxFrame\<close> builds carries the destination and its type, and on the
  receiving side the frame is read as the same service with the same data (group values of at most six
  bits in the short form included, service data in the APCI field, and all ten-bit services).
\<close>

theorem application_apdu_roundtrip:
  assumes "al_initialized s" and "wire_request sv data"
  shows "\<exists>f. buildTransportTxFrame dest sv data dtype s = Inr f \<and>
     af_service (a_frame_of f) = sv \<and> af_data (a_frame_of f) = data \<and>
     af_source (a_frame_of f) = al_own s \<and> af_destination (a_frame_of f) = dest \<and>
     af_destinationType (a_frame_of f) = dtype"
proof -
  obtain bs where bs: "al_buildTpdu sv data = Inr bs" "parsed bs = (sv, data)" using tpdu_parsed [OF assms(2)] by blast
  have "af_service (a_frame_of f) = fst (parsed (t_tpdu f))" "af_data (a_frame_of f) = snd (parsed (t_tpdu f))" for f
    by (simp_all add: a_frame_of_def parsed_def Let_def)
  with bs assms(1) show ?thesis by (simp add: buildTransportTxFrame_def) (simp add: a_frame_of_def Let_def)
qed

theorem application_apdu_roundtrip_witness:
  "(\<exists>f. buildTransportTxFrame 0x0901 S_GroupValueWrite [0x0C, 0x1A] Group sample_app = Inr f \<and>
      af_service (a_frame_of f) = S_GroupValueWrite \<and> af_data (a_frame_of f) = [0x0C, 0x1A]) \<and>
   (\<exists>f. buildTransportTxFrame 0x1105 S_MemoryResponse [2, 0x40, 0x00, 7, 9] Individual sample_app = Inr f \<and>
      af_service (a_frame_of f) = S_MemoryResponse \<and> af_data (a_frame_of f) = [2, 0x40, 0x00, 7, 9])"
proof -
  have i: "al_initialized sample_app" by code_simp
  have "wire_request S_GroupValueWrite [0x0C, 0x1A]" "wire_request S_MemoryResponse [2, 0x40, 0x00, 7, 9]"
    by code_simp+
  from application_apdu_roundtrip [OF i this(1)] application_apdu_roundtrip [OF i this(2)] show ?thesis by blast
qed

section \<open>Queues and the send engine\<close>

text \<open>Overwriting a full ring is dropping its oldest entry and adding the new one.\<close>

lemma ring_overwrite_push:
  assumes "ring_ok n r" and "ring_count r = n"
  shows "ring_overwrite r x = ring_push (snd (ring_pop r)) x"
proof -
  have n: "length (ring_slots r) = n" "ring_head r < n" using assms by (auto simp: ring_ok_def)
  have "((ring_head r + 1) mod n + (n - 1)) mod n = (ring_head r + 1 + (n - 1)) mod n" by (rule mod_add_left_eq)
  also have "\<dots> = ring_head r" using n(2) by simp
  finally show ?thesis using assms(2) n by (simp add: ring_overwrite_def ring_push_def ring_pop_def)
qed

definition outcomes :: "('d, 'u, 'v) app \<Rightarrow> send_outcome list" where
  "outcomes s = ring_contents (al_outcomes s)"

definition outcomes_ok :: "('d, 'u, 'v) app \<Rightarrow> bool" where
  "outcomes_ok s \<longleftrightarrow> ring_ok AL_QUEUE_CAPACITY (al_outcomes s)"

lemma enqueueSendOutcome_ring:
  assumes "outcomes_ok s"
  shows "al_outcomes (enqueueSendOutcome oc s) = ring_add AL_QUEUE_CAPACITY (al_outcomes s) oc"
proof -
  have ok: "ring_ok AL_QUEUE_CAPACITY (al_outcomes s)" using assms by (simp add: outcomes_ok_def)
  then have "ring_count (al_outcomes s) \<le> AL_QUEUE_CAPACITY" by (simp add: ring_ok_def)
  then show ?thesis using ring_overwrite_push [OF ok] by (auto simp: enqueueSendOutcome_def ring_add_def)
qed

lemma enqueueSendOutcome_ok:
  assumes "outcomes_ok s"
  shows "outcomes_ok (enqueueSendOutcome oc s)"
    and "outcomes (enqueueSendOutcome oc s) = latest AL_QUEUE_CAPACITY (outcomes s @ [oc])"
  using assms enqueueSendOutcome_ring [OF assms, of oc] ring_add_latest [of AL_QUEUE_CAPACITY "al_outcomes s" oc]
  by (simp_all add: outcomes_ok_def outcomes_def AL_QUEUE_CAPACITY_def)

interpretation aoq: latest_fifo enqueueSendOutcome outcomes AL_QUEUE_CAPACITY outcomes_ok
proof unfold_locales
  fix s :: "('d, 'u, 'v) app" and oc
  assume ok: "outcomes_ok s"
  show "outcomes (enqueueSendOutcome oc s) = latest AL_QUEUE_CAPACITY (outcomes s @ [oc])" "outcomes_ok (enqueueSendOutcome oc s)"
    using enqueueSendOutcome_ok [OF ok] by simp_all
  show "length (outcomes s) \<le> AL_QUEUE_CAPACITY" using ok by (simp add: outcomes_ok_def outcomes_def ring_ok_def)
qed

interpretation arq: bounded_fifo "\<lambda>s f. al_enqueueReceivedFrame f s" al_popReceivedFrame
  "\<lambda>s. ring_contents (al_rxQueue s)" AL_QUEUE_CAPACITY "\<lambda>s. ring_ok AL_QUEUE_CAPACITY (al_rxQueue s)"
proof unfold_locales
  fix s s' :: "('d, 'u, 'v) app" and f f' :: a_frame
  let ?n = AL_QUEUE_CAPACITY
  assume ok: "ring_ok ?n (al_rxQueue s)"
  show "length (ring_contents (al_rxQueue s)) \<le> ?n" using ok by (simp add: ring_ok_def)
  show "ring_contents (al_rxQueue (al_enqueueReceivedFrame f s)) =
      (if length (ring_contents (al_rxQueue s)) < ?n then ring_contents (al_rxQueue s) @ [f]
       else ring_contents (al_rxQueue s))"
    using ok by (simp add: al_enqueueReceivedFrame_def ring_push_contents)
  show "ring_ok ?n (al_rxQueue (al_enqueueReceivedFrame f s))"
    using ok by (simp add: al_enqueueReceivedFrame_def ring_push_ok)
  show "al_popReceivedFrame s = None \<longleftrightarrow> ring_contents (al_rxQueue s) = []"
    by (simp add: al_popReceivedFrame_def ring_pop_def flip: length_0_conv)
  assume "al_popReceivedFrame s = Some (f', s')"
  then show "ring_contents (al_rxQueue s) = f' # ring_contents (al_rxQueue s') \<and> ring_ok ?n (al_rxQueue s')"
    using ok ring_pop_contents [OF ok] ring_pop_ok [OF ok]
    by (auto simp: al_popReceivedFrame_def split: if_splits prod.splits)
qed

type_synonym send_request = "group_address \<times> apci_service \<times> bytes \<times> address_type \<times> send_options"

definition al_begin :: "('d, 'u, 'v) app_env \<Rightarrow> ('d, 'u, 'v) app \<Rightarrow> send_request \<Rightarrow> ('d, 'u, 'v) app \<times> unit result" where
  "al_begin E s rq = (case rq of (dest, sv, data, dtype, o1) \<Rightarrow> beginSendData E dest sv data dtype o1 s)"

abbreviation al_sending :: "('d, 'u, 'v) app \<Rightarrow> bool" where "al_sending s \<equiv> sn_active (al_sendOp s)"

lemma conclude_simps [simp]:
  "al_sending (conclude r s) = False" "al_initialized (conclude r s) = al_initialized s"
  by (simp_all add: conclude_def al_finishSendOperation_def send_operation_init_def enqueueSendOutcome_def)

lemma startSendAttempt_simps:
  "startSendAttempt E s = (s', r) \<Longrightarrow> al_sending s' = al_sending s \<and> al_initialized s' = al_initialized s"
  by (auto simp: startSendAttempt_def Let_def split: prod.splits sum.splits)

lemma enqueue_sending [simp]:
  "al_sending (enqueueSendOutcome oc s) = al_sending s" "al_initialized (enqueueSendOutcome oc s) = al_initialized s"
  by (simp_all add: enqueueSendOutcome_def)

lemma begin_cases:
  assumes "al_begin E s rq = (s', r)"
  shows "(r = Inl EBusy \<and> al_sending s \<and> s' = s) \<or>
    (\<not> al_sending s \<and> al_initialized s' = al_initialized s \<and> al_sending s' = isOk r \<and> (isOk r \<longrightarrow> al_initialized s))"
  using assms
  by (auto simp: al_begin_def beginSendData_def Let_def buildTransportTxFrame_def
      split: prod.splits sum.splits if_splits dest!: startSendAttempt_simps)

lemma poll_cases:
  assumes "pollSendData E s = (s', r)" and "al_initialized s"
  shows "al_initialized s' \<and> (if al_sending s then al_sending s' = (r = Inr Pending) else r = Inl OperationNotReady \<and> s' = s)"
proof (cases "al_sending s")
  case True
  obtain T pr where pr: "tl_pollTransmit (ap_dl E) (al_transport s) = (T, pr)" by force
  obtain s1 r1 where st: "startSendAttempt E (s\<lparr>al_transport := T\<rparr>) = (s1, r1)" by force
  note a = startSendAttempt_simps [OF st]
  have m: "mapSendErrorToProgressState x \<noteq> Pending" for x by (simp add: mapSendErrorToProgressState_def)
  have d: "fst (pollSendData E s) = s'" "snd (pollSendData E s) = r" using assms(1) by simp_all
  show ?thesis
  proof (cases pr)
    case (Inl e)
    then show ?thesis using d assms(2) True pr by (auto simp: pollSendData_def)
  next
    case (Inr p)
    let ?s = "s\<lparr>al_transport := T\<rparr>"
    define e where "e = (if p = Busy then EBusy else if p = Timeout then ETimeout else ETransmissionFailed)"
    have eq: "pollSendData E s =
      (case p of Pending \<Rightarrow> (?s, Inr Pending) | Success \<Rightarrow> (conclude (Inr ()) ?s, Inr Success)
       | _ \<Rightarrow>
         if sn_attemptsStarted (al_sendOp s) < normalizeMaxAttempts (sn_options (al_sendOp s)) \<and>
            shouldRetrySendError e (sn_options (al_sendOp s))
         then (case r1 of
             Inr _ \<Rightarrow> (s1\<lparr>al_sendOp := (al_sendOp s1)\<lparr>sn_outcome := (sn_outcome (al_sendOp s1))\<lparr>oc_result := Inl e\<rparr>\<rparr>\<rparr>,
                       Inr Pending)
           | Inl e1 \<Rightarrow> (conclude (Inl e1) s1, Inr (mapSendErrorToProgressState (Inl e1))))
         else (conclude (Inl e) ?s, Inr (mapSendErrorToProgressState (Inl e))))"
      using assms(2) True pr st Inr
      by (cases p; cases r1) (simp_all add: pollSendData_def e_def Let_def)
    show ?thesis using True assms(2) a m
      unfolding assms(1) [symmetric, unfolded prod_eq_iff fst_conv snd_conv, THEN conjunct1]
        assms(1) [symmetric, unfolded prod_eq_iff fst_conv snd_conv, THEN conjunct2] eq
      by (auto split: progress.splits sum.splits)
  qed
qed (use assms in \<open>simp add: pollSendData_def\<close>)

interpretation asf: single_flight "al_begin E" "pollSendData E" al_initialized al_sending
  for E :: "('d, 'u, 'v) app_env"
proof unfold_locales
  fix s s' :: "('d, 'u, 'v) app" and f e r
  show "al_begin E s f = (s', Inr ()) \<Longrightarrow> \<not> al_sending s \<and> al_sending s' \<and> al_initialized s'"
    using begin_cases by fastforce
  show "al_initialized s \<Longrightarrow> al_begin E s f = (s', Inl e) \<Longrightarrow> al_sending s' = al_sending s \<and> al_initialized s'"
    using begin_cases by fastforce
  show "al_initialized s \<Longrightarrow> al_sending s \<Longrightarrow> snd (al_begin E s f) = Inl EBusy"
    by (simp add: al_begin_def beginSendData_def split_beta)
  show "al_initialized s \<Longrightarrow> pollSendData E s = (s', Inr Pending) \<Longrightarrow> al_sending s \<and> al_sending s' \<and> al_initialized s'"
    using poll_cases [of E s s' "Inr Pending"] by (auto split: if_splits)
  show "al_initialized s \<Longrightarrow> pollSendData E s = (s', r) \<Longrightarrow> r \<noteq> Inr Pending \<Longrightarrow> \<not> al_sending s' \<and> al_initialized s'"
    using poll_cases [of E s s' r] by (auto split: if_splits)
  show "al_initialized s \<Longrightarrow> \<not> al_sending s \<Longrightarrow> snd (pollSendData E s) = Inl OperationNotReady"
    by (simp add: pollSendData_def)
qed

section \<open>Every send has one outcome\<close>

text \<open>One attempt, seen from the transport layer below; \<open>k\<close> attempts before this one leave the transport
  in \<open>(attempt D H f ^^ k) T\<close>.\<close>

definition attempt :: "'d dl_ops \<Rightarrow> 'u hooks \<Rightarrow> tdata_frame \<Rightarrow> ('d, 'u) transport \<Rightarrow> ('d, 'u) transport" where
  "attempt D H f T = fst (tl_sendFrame D H T f)"

definition attempt_result :: "'d dl_ops \<Rightarrow> 'u hooks \<Rightarrow> tdata_frame \<Rightarrow> ('d, 'u) transport \<Rightarrow> nat \<Rightarrow> unit result" where
  "attempt_result D H f T k = snd (tl_sendFrame D H ((attempt D H f ^^ k) T) f)"

definition retryable :: "send_options \<Rightarrow> unit result \<Rightarrow> bool" where
  "retryable o1 r = (case r of Inl e \<Rightarrow> shouldRetrySendError e o1 | Inr _ \<Rightarrow> False)"

text \<open>The loop stops at the first attempt that is not to be repeated, or at the last allowed one.\<close>

lemma send_loop_spec:
  assumes "send_loop left D H o1 f a T = (T', a', r)"
  shows "\<exists>k \<le> left. a' = a + of_nat k \<and> T' = (attempt D H f ^^ Suc k) T \<and> r = attempt_result D H f T k \<and>
    (\<forall>i < k. retryable o1 (attempt_result D H f T i)) \<and> (k < left \<longrightarrow> \<not> retryable o1 r)"
  using assms
proof (induction left arbitrary: a T)
  case 0
  then show ?case by (auto simp: attempt_def attempt_result_def split: prod.splits)
next
  case (Suc left)
  obtain T1 r1 where t: "tl_sendFrame D H T f = (T1, r1)" by force
  then have T1: "T1 = attempt D H f T" and r1: "r1 = attempt_result D H f T 0"
    by (simp_all add: attempt_def attempt_result_def)
  show ?case
  proof (cases "retryable o1 r1")
    case False
    with Suc.prems t have "T' = T1" "a' = a" "r = r1"
      by (auto simp: retryable_def split: sum.splits if_splits)
    with False T1 r1 show ?thesis by (intro exI [of _ 0]) simp
  next
    case True
    with Suc.prems t have "send_loop left D H o1 f (a + 1) T1 = (T', a', r)"
      by (auto simp: retryable_def split: sum.splits)
    from Suc.IH [OF this] obtain k where k: "k \<le> left" "a' = a + 1 + of_nat k" "T' = (attempt D H f ^^ Suc k) T1"
      "r = attempt_result D H f T1 k" "\<forall>i < k. retryable o1 (attempt_result D H f T1 i)" "k < left \<longrightarrow> \<not> retryable o1 r"
      by blast
    have sh: "attempt_result D H f T1 i = attempt_result D H f T (Suc i)" for i
      by (simp add: attempt_result_def T1 funpow_swap1)
    have "retryable o1 (attempt_result D H f T i)" if "i < Suc k" for i
      using that k(5) True r1 sh by (cases i) simp_all
    with k sh T1 show ?thesis by (intro exI [of _ "Suc k"]) (simp add: funpow_swap1 add.assoc)
  qed
qed

lemma enqueue_transport [simp]: "al_transport (enqueueSendOutcome oc s) = al_transport s"
  by (simp add: enqueueSendOutcome_def)

lemma normalize_pos: "unat (normalizeMaxAttempts o1) > 0"
  by (simp add: normalizeMaxAttempts_def unat_gt_0)

text \<open>
  C20. Every call of \<open>sendData\<close> leaves exactly one outcome, the newest of the (at most eight) outcomes
  kept, and its result is the result returned. When the telegram cannot be built nothing reaches the
  transport layer and no attempt is counted. Otherwise the number of attempts is at least one and at
  most the normalised maximum, it is the count the outcome reports, every attempt before the last ended
  in an error the options allow to retry, the result is that of the last attempt, and sending stops
  before the maximum only at a result that is not to be retried.
\<close>

theorem send_has_one_outcome:
  assumes "outcomes_ok s" and "al_sendData E dest sv data dtype o1 s = (s', r)"
  shows "\<exists>oc. outcomes s' = latest 8 (outcomes s @ [oc]) \<and> outcomes_ok s' \<and>
     oc_destination oc = dest \<and> oc_service oc = sv \<and> oc_result oc = r \<and>
     (case buildTransportTxFrame dest sv data dtype s of
        Inl e \<Rightarrow> r = Inl e \<and> oc_attempts oc = 0 \<and> al_transport s' = al_transport s
      | Inr f \<Rightarrow>
          let g = f\<lparr>t_priority := op_priority o1\<rparr>; n = unat (oc_attempts oc);
              res = attempt_result (ap_dl E) (ap_hooks E) g (al_transport s) in
          1 \<le> n \<and> n \<le> unat (normalizeMaxAttempts o1) \<and>
          al_transport s' = (attempt (ap_dl E) (ap_hooks E) g ^^ n) (al_transport s) \<and>
          r = res (n - 1) \<and> (\<forall>i < n - 1. retryable o1 (res i)) \<and>
          (n < unat (normalizeMaxAttempts o1) \<longrightarrow> \<not> retryable o1 r))"
proof (cases "buildTransportTxFrame dest sv data dtype s")
  case (Inl e)
  then show ?thesis using assms enqueueSendOutcome_ok [OF assms(1)]
    by (intro exI [of _ "(fresh_outcome dest sv dtype)\<lparr>oc_result := Inl e\<rparr>"])
      (auto simp: al_sendData_def Let_def fresh_outcome_def AL_QUEUE_CAPACITY_def)
next
  case (Inr f)
  let ?g = "f\<lparr>t_priority := op_priority o1\<rparr>" and ?max = "unat (normalizeMaxAttempts o1)"
  obtain T a r1 where l: "send_loop (?max - 1) (ap_dl E) (ap_hooks E) o1 ?g 1 (al_transport s) = (T, a, r1)"
    by (metis prod_cases3)
  from send_loop_spec [OF l] obtain k where k: "k \<le> ?max - 1" "a = 1 + of_nat k"
    "T = (attempt (ap_dl E) (ap_hooks E) ?g ^^ Suc k) (al_transport s)"
    "r1 = attempt_result (ap_dl E) (ap_hooks E) ?g (al_transport s) k"
    "\<forall>i < k. retryable o1 (attempt_result (ap_dl E) (ap_hooks E) ?g (al_transport s) i)"
    "k < ?max - 1 \<longrightarrow> \<not> retryable o1 r1" by blast
  have "?max < 256" using unsigned_less [of "normalizeMaxAttempts o1"] by simp
  with k(1) normalize_pos [of o1] have "Suc k < 256" by linarith
  then have n: "unat a = Suc k" unfolding k(2) by (simp add: unat_of_nat flip: of_nat_Suc)
  let ?oc = "(fresh_outcome dest sv dtype)\<lparr>oc_result := r1, oc_attempts := a\<rparr>"
  have s': "s' = enqueueSendOutcome ?oc (s\<lparr>al_transport := T\<rparr>)" "r = r1"
    using assms(2) Inr l by (auto simp: al_sendData_def Let_def)
  have ok: "outcomes_ok (s\<lparr>al_transport := T\<rparr>)" "outcomes (s\<lparr>al_transport := T\<rparr>) = outcomes s"
    using assms(1) by (simp_all add: outcomes_ok_def outcomes_def)
  have "al_transport s' = T" using s' by simp
  moreover have "Suc k \<le> ?max" "Suc k < ?max \<longrightarrow> k < ?max - 1" using k(1) normalize_pos [of o1] by linarith+
  ultimately show ?thesis
    using Inr s' enqueueSendOutcome_ok [OF ok(1)] ok(2) k(3-6) n
    by (intro exI [of _ ?oc]) (simp add: fresh_outcome_def AL_QUEUE_CAPACITY_def Let_def)
qed

theorem send_has_one_outcome_witness:
  "\<exists>oc. outcomes (fst (al_sendData sample_env 0x0901 S_GroupValueWrite [0x01] Group
            (optionsForPreset RetryTransientTwice) sample_app)) = [oc] \<and> oc_attempts oc = 1"
proof -
  let ?x = "al_sendData sample_env 0x0901 S_GroupValueWrite [0x01] Group (optionsForPreset RetryTransientTwice) sample_app"
  have ok: "outcomes_ok sample_app" "outcomes sample_app = []" by code_simp+
  have r: "snd ?x = Inr ()" by code_simp
  have a: "map oc_attempts (outcomes (fst ?x)) = [1]" by code_simp
  have "?x = (fst ?x, snd ?x)" by simp
  from send_has_one_outcome [OF ok(1) this]
  obtain oc where "outcomes (fst ?x) = latest 8 [oc]" unfolding ok(2) by fastforce
  then show ?thesis using a by (simp add: latest_def)
qed

end
