(* ===== verification/Object_Tables.thy ===== *)
theory Object_Tables
  imports Interfaces
begin

text \<open>
  The address table and the association table of the device
  (\<open>src/objects/address_table_object.cpp\<close>, \<open>src/objects/association_table_object.cpp\<close>). A group
  address stands at a one-based index of the first, the second relates such indices to group objects.
  Shown: both tables keep their bounds under every operation, what is added is found again, and the
  look-ups return exactly the related entries.
\<close>

section \<open>The address table\<close>

text \<open>\<open>AddressTableDomain\<close>, with zero-based indices. The invalid index 0xFFFF is \<open>None\<close>.\<close>

record address_table =
  at_entries :: "group_address list"
  at_loadState :: u8

definition kMaxAddresses :: nat where "kMaxAddresses = 256"

definition address_table_init :: address_table where
  "address_table_init = \<lparr>at_entries = [], at_loadState = 1\<rparr>"

definition at_findIndex :: "address_table \<Rightarrow> group_address \<Rightarrow> nat option" where
  "at_findIndex t a = find_index (\<lambda>x. x = a) (at_entries t)"

definition at_add :: "group_address \<Rightarrow> address_table \<Rightarrow> address_table \<times> nat result" where
  "at_add a t =
     (if length (at_entries t) \<ge> kMaxAddresses then (t, Inl OutOfRange)
      else case at_findIndex t a of
             Some i \<Rightarrow> (t, Inr i)
           | None \<Rightarrow> (let es = fst (fv_push_back kMaxAddresses (at_entries t) a)
                      in (t\<lparr>at_entries := es\<rparr>, Inr (length es - 1))))"

definition at_remove :: "nat \<Rightarrow> address_table \<Rightarrow> address_table \<times> unit result" where
  "at_remove i t =
     (if i \<ge> length (at_entries t) then (t, Inl InvalidParameter)
      else (t\<lparr>at_entries := fv_erase (at_entries t) i\<rparr>, Inr ()))"

definition at_set :: "nat \<Rightarrow> group_address \<Rightarrow> address_table \<Rightarrow> address_table \<times> unit result" where
  "at_set i a t =
     (if i \<ge> length (at_entries t) then (t, Inl InvalidParameter)
      else (t\<lparr>at_entries := (at_entries t)[i := a]\<rparr>, Inr ()))"

definition at_setExpand :: "nat \<Rightarrow> group_address \<Rightarrow> address_table \<Rightarrow> address_table \<times> unit result" where
  "at_setExpand i a t =
     (if i \<ge> kMaxAddresses then (t, Inl InvalidParameter)
      else let es = (if length (at_entries t) \<le> i
                     then fv_resize kMaxAddresses 0 (at_entries t) (i + 1) else at_entries t)
           in (t\<lparr>at_entries := es[i := a]\<rparr>, Inr ()))"

definition at_get :: "address_table \<Rightarrow> nat \<Rightarrow> group_address" where
  "at_get t i = (if i \<ge> length (at_entries t) then 0 else at_entries t ! i)"

definition at_load :: "group_address list \<Rightarrow> address_table \<Rightarrow> address_table \<times> unit result" where
  "at_load addresses t =
     (if length addresses > kMaxAddresses then (t, Inl InvalidParameter)
      else case fv_assign kMaxAddresses (at_entries t) addresses of
             (_, False) \<Rightarrow> (t, Inl InvalidParameter)
           | (es, True) \<Rightarrow> (t\<lparr>at_entries := es\<rparr>, Inr ()))"

definition at_truncate :: "nat \<Rightarrow> address_table \<Rightarrow> address_table" where
  "at_truncate n t =
     (if n < length (at_entries t) then t\<lparr>at_entries := fv_resize kMaxAddresses 0 (at_entries t) n\<rparr> else t)"

definition at_clear :: "address_table \<Rightarrow> address_table" where
  "at_clear t = t\<lparr>at_entries := []\<rparr>"

definition at_isValid :: "address_table \<Rightarrow> bool" where
  "at_isValid t \<longleftrightarrow> list_all ga_isValid (at_entries t)"

text \<open>\<open>AddressTableObject\<close>: the same table with the one-based indices of the protocol; 0 is invalid.\<close>

definition at_toDomainIndex :: "u16 \<Rightarrow> nat result" where
  "at_toDomainIndex index =
     (if index = 0 then Inl InvalidParameter
      else if unat index > kMaxAddresses then Inl InvalidParameter
      else Inr (unat index - 1))"

definition at_addEntry :: "group_address \<Rightarrow> address_table \<Rightarrow> address_table \<times> u16" where
  "at_addEntry a t = (case at_add a t of (t1, Inl _) \<Rightarrow> (t1, 0) | (t1, Inr i) \<Rightarrow> (t1, of_nat (i + 1)))"

definition at_removeEntry :: "u16 \<Rightarrow> address_table \<Rightarrow> address_table \<times> unit result" where
  "at_removeEntry index t =
     (case at_toDomainIndex index of Inl e \<Rightarrow> (t, Inl e) | Inr i \<Rightarrow> at_remove i t)"

definition at_setEntry :: "u16 \<Rightarrow> group_address \<Rightarrow> address_table \<Rightarrow> address_table \<times> unit result" where
  "at_setEntry index a t =
     (case at_toDomainIndex index of Inl e \<Rightarrow> (t, Inl e) | Inr i \<Rightarrow> at_set i a t)"

definition at_setEntryExpand :: "u16 \<Rightarrow> group_address \<Rightarrow> address_table \<Rightarrow> address_table \<times> unit result" where
  "at_setEntryExpand index a t =
     (case at_toDomainIndex index of Inl e \<Rightarrow> (t, Inl e) | Inr i \<Rightarrow> at_setExpand i a t)"

definition at_getAddress :: "address_table \<Rightarrow> u16 \<Rightarrow> group_address" where
  "at_getAddress t index =
     (if index = 0 then 0
      else if unat index > kMaxAddresses then 0
      else at_get t (unat index - 1))"

definition at_findEntry :: "address_table \<Rightarrow> group_address \<Rightarrow> u16" where
  "at_findEntry t a = (case at_findIndex t a of None \<Rightarrow> 0 | Some i \<Rightarrow> of_nat (i + 1))"

text \<open>\<open>getAllAddresses\<close> with an output of \<open>n\<close> elements: the count and what was written.\<close>

definition at_getAllAddresses :: "address_table \<Rightarrow> nat \<Rightarrow> (nat \<times> group_address list) result" where
  "at_getAllAddresses t n =
     (let count = length (at_entries t) in
      if n = 0 then Inr (count, [])
      else if n < count then Inl BufferTooSmall
      else Inr (count, at_entries t))"

section \<open>The association table\<close>

record association_entry =
  ae_addressIndex :: u16
  ae_groupObject :: u16

definition ae_invalid :: association_entry where
  "ae_invalid = \<lparr>ae_addressIndex = 0, ae_groupObject = 0xFFFF\<rparr>"

definition ae_isValid :: "association_entry \<Rightarrow> bool" where
  "ae_isValid e \<longleftrightarrow> ae_addressIndex e \<noteq> 0 \<and> ae_groupObject e \<noteq> 0xFFFF"

text \<open>The codec of one entry in the property \<open>PID_TABLE\<close>.\<close>

definition ae_write :: "association_entry \<Rightarrow> bytes" where
  "ae_write e = [getHighByte (ae_addressIndex e), getLowByte (ae_addressIndex e),
                 getHighByte (ae_groupObject e), getLowByte (ae_groupObject e)]"

definition ae_read :: "bytes \<Rightarrow> association_entry option" where
  "ae_read bs =
     (if length bs < 4 then None
      else Some \<lparr>ae_addressIndex = word_be (bs ! 0) (bs ! 1), ae_groupObject = word_be (bs ! 2) (bs ! 3)\<rparr>)"

record association_table =
  as_entries :: "association_entry list"
  as_loadState :: u8

definition kMaxAssociations :: nat where "kMaxAssociations = 512"

definition association_table_init :: association_table where
  "association_table_init = \<lparr>as_entries = [], as_loadState = 1\<rparr>"

definition as_hasAssociation :: "association_table \<Rightarrow> u16 \<Rightarrow> u16 \<Rightarrow> bool" where
  "as_hasAssociation t a g \<longleftrightarrow>
     list_ex (\<lambda>e. ae_addressIndex e = a \<and> ae_groupObject e = g) (as_entries t)"

definition as_add :: "association_entry \<Rightarrow> association_table \<Rightarrow> association_table \<times> unit result" where
  "as_add e t =
     (if \<not> ae_isValid e then (t, Inl InvalidParameter)
      else if length (as_entries t) \<ge> kMaxAssociations then (t, Inl ResourceUnavailable)
      else if as_hasAssociation t (ae_addressIndex e) (ae_groupObject e) then (t, Inr ())
      else (t\<lparr>as_entries := fst (fv_push_back kMaxAssociations (as_entries t) e)\<rparr>, Inr ()))"

definition as_remove :: "nat \<Rightarrow> association_table \<Rightarrow> association_table \<times> unit result" where
  "as_remove i t =
     (if i \<ge> length (as_entries t) then (t, Inl InvalidParameter)
      else (t\<lparr>as_entries := fv_erase (as_entries t) i\<rparr>, Inr ()))"

definition as_set :: "nat \<Rightarrow> association_entry \<Rightarrow> association_table \<Rightarrow> association_table \<times> unit result" where
  "as_set i e t =
     (if i \<ge> length (as_entries t) \<or> \<not> ae_isValid e then (t, Inl InvalidParameter)
      else (t\<lparr>as_entries := (as_entries t)[i := e]\<rparr>, Inr ()))"

definition as_setExpand :: "nat \<Rightarrow> association_entry \<Rightarrow> association_table \<Rightarrow> association_table \<times> unit result" where
  "as_setExpand i e t =
     (if i \<ge> kMaxAssociations then (t, Inl InvalidParameter)
      else let es = (if length (as_entries t) \<le> i
                     then fv_resize kMaxAssociations ae_invalid (as_entries t) (i + 1) else as_entries t)
           in (t\<lparr>as_entries := es[i := e]\<rparr>, Inr ()))"

definition as_get :: "association_table \<Rightarrow> nat \<Rightarrow> association_entry" where
  "as_get t i = (if i \<ge> length (as_entries t) then ae_invalid else as_entries t ! i)"

definition as_getPtr :: "association_table \<Rightarrow> nat \<Rightarrow> association_entry option" where
  "as_getPtr t i = (if i \<ge> length (as_entries t) then None else Some (as_entries t ! i))"

text \<open>The loop of \<open>removeEntriesForAddress\<close> and \<open>removeEntriesForGroupObject\<close>: position, entries and the
  number removed so far.\<close>

function erase_loop :: "(association_entry \<Rightarrow> bool) \<Rightarrow> nat \<Rightarrow> association_entry list \<Rightarrow> nat
    \<Rightarrow> association_entry list \<times> nat" where
  "erase_loop P i es removed =
     (if i < length es
      then (if P (es ! i) then erase_loop P i (fv_erase es i) (removed + 1) else erase_loop P (i + 1) es removed)
      else (es, removed))"
  by pat_completeness auto
termination
  by (relation "measure (\<lambda>(_, i, es, _). length es - i)") (auto simp: fv_erase_def)

declare erase_loop.simps [simp del]

definition as_removeEntriesForAddress :: "u16 \<Rightarrow> association_table \<Rightarrow> association_table \<times> u16" where
  "as_removeEntriesForAddress a t =
     (case erase_loop (\<lambda>e. ae_addressIndex e = a) 0 (as_entries t) 0 of (es, n) \<Rightarrow>
        (t\<lparr>as_entries := es\<rparr>, of_nat n))"

definition as_removeEntriesForGroupObject :: "u16 \<Rightarrow> association_table \<Rightarrow> association_table \<times> u16" where
  "as_removeEntriesForGroupObject g t =
     (case erase_loop (\<lambda>e. ae_groupObject e = g) 0 (as_entries t) 0 of (es, n) \<Rightarrow>
        (t\<lparr>as_entries := es\<rparr>, of_nat n))"

text \<open>The two look-ups, with an output of \<open>n\<close> elements: the count and what was written.\<close>

definition as_findGroupObjects :: "association_table \<Rightarrow> u16 \<Rightarrow> nat \<Rightarrow> (nat \<times> u16 list) result" where
  "as_findGroupObjects t a n =
     (let hits = filter (\<lambda>e. ae_addressIndex e = a) (as_entries t) in
      if n = 0 then Inr (length hits, [])
      else if n < length hits then Inl BufferTooSmall
      else Inr (length hits, map ae_groupObject hits))"

definition as_findAddressIndices :: "association_table \<Rightarrow> u16 \<Rightarrow> nat \<Rightarrow> (nat \<times> u16 list) result" where
  "as_findAddressIndices t g n =
     (let hits = filter (\<lambda>e. ae_groupObject e = g) (as_entries t) in
      if n = 0 then Inr (length hits, [])
      else if n < length hits then Inl BufferTooSmall
      else Inr (length hits, map ae_addressIndex hits))"

definition as_load :: "association_entry list \<Rightarrow> association_table \<Rightarrow> association_table \<times> unit result" where
  "as_load entries t =
     (if length entries > kMaxAssociations then (t, Inl InvalidParameter)
      else if \<not> list_all ae_isValid entries then (t, Inl InvalidParameter)
      else case fv_assign kMaxAssociations (as_entries t) entries of
             (_, False) \<Rightarrow> (t, Inl InvalidParameter)
           | (es, True) \<Rightarrow> (t\<lparr>as_entries := es\<rparr>, Inr ()))"

definition as_truncate :: "nat \<Rightarrow> association_table \<Rightarrow> association_table" where
  "as_truncate n t =
     (if n < length (as_entries t)
      then t\<lparr>as_entries := fv_resize kMaxAssociations ae_invalid (as_entries t) n\<rparr> else t)"

definition as_clear :: "association_table \<Rightarrow> association_table" where
  "as_clear t = t\<lparr>as_entries := []\<rparr>"

definition as_isValid :: "association_table \<Rightarrow> bool" where
  "as_isValid t \<longleftrightarrow> list_all ae_isValid (as_entries t)"

text \<open>\<open>AssociationTableObject\<close> checks the index before it calls the domain.\<close>

definition as_toDomainIndex :: "u16 \<Rightarrow> nat result" where
  "as_toDomainIndex index = (if unat index \<ge> kMaxAssociations then Inl InvalidParameter else Inr (unat index))"

definition as_removeEntry :: "u16 \<Rightarrow> association_table \<Rightarrow> association_table \<times> unit result" where
  "as_removeEntry index t =
     (case as_toDomainIndex index of Inl e \<Rightarrow> (t, Inl e) | Inr i \<Rightarrow> as_remove i t)"

definition as_setEntry :: "u16 \<Rightarrow> association_entry \<Rightarrow> association_table \<Rightarrow> association_table \<times> unit result" where
  "as_setEntry index a t =
     (case as_toDomainIndex index of Inl e \<Rightarrow> (t, Inl e) | Inr i \<Rightarrow> as_set i a t)"

definition as_setEntryExpandUnchecked ::
  "u16 \<Rightarrow> association_entry \<Rightarrow> association_table \<Rightarrow> association_table \<times> unit result" where
  "as_setEntryExpandUnchecked index e t =
     (if index = 0 then (t, Inl InvalidParameter)
      else case as_toDomainIndex (index - 1) of Inl x \<Rightarrow> (t, Inl x) | Inr i \<Rightarrow> as_setExpand i e t)"

definition as_getEntry :: "association_table \<Rightarrow> u16 \<Rightarrow> association_entry option" where
  "as_getEntry t index =
     (case as_toDomainIndex index of Inl _ \<Rightarrow> None | Inr i \<Rightarrow> as_getPtr t i)"

definition as_getAllEntries :: "association_table \<Rightarrow> nat \<Rightarrow> (nat \<times> association_entry list) result" where
  "as_getAllEntries t n =
     (let count = length (as_entries t) in
      if n = 0 then Inr (count, [])
      else if n < count then Inl BufferTooSmall
      else Inr (count, as_entries t))"

section \<open>The address table is a map from addresses to indices\<close>

definition at_ok :: "address_table \<Rightarrow> bool" where
  "at_ok t \<longleftrightarrow> length (at_entries t) \<le> kMaxAddresses"

lemma index_word: "i < 256 \<Longrightarrow> unat (of_nat (i + 1) :: u16) = i + 1"
  by (simp add: unat_of_nat del: of_nat_Suc)

lemma index_word_nonzero: "i < 256 \<Longrightarrow> (of_nat (i + 1) :: u16) \<noteq> 0"
  using index_word [of i] by (auto simp del: of_nat_Suc)

lemma at_findIndex_Some:
  "at_findIndex t a = Some i \<Longrightarrow> i < length (at_entries t) \<and> at_entries t ! i = a"
  unfolding at_findIndex_def using find_index_Some by blast

lemma at_getAddress_index:
  assumes "at_ok t" "i < length (at_entries t)"
  shows "at_getAddress t (of_nat (i + 1)) = at_entries t ! i"
proof -
  have i: "i < 256" using assms by (simp add: at_ok_def kMaxAddresses_def)
  show ?thesis
    using i assms(2) index_word [OF i] index_word_nonzero [OF i]
    by (simp add: at_getAddress_def at_get_def kMaxAddresses_def del: of_nat_Suc)
qed

lemma at_findEntry_address:
  assumes "at_ok t" "at_findEntry t a \<noteq> 0"
  shows "at_getAddress t (at_findEntry t a) = a"
proof -
  obtain i where i: "at_findIndex t a = Some i"
    using assms(2) by (auto simp: at_findEntry_def split: option.splits)
  from at_findIndex_Some [OF i] at_getAddress_index [OF assms(1)] show ?thesis
    by (simp add: at_findEntry_def i del: of_nat_Suc)
qed

lemma at_findEntry_zero_iff:
  assumes "at_ok t"
  shows "at_findEntry t a = 0 \<longleftrightarrow> a \<notin> set (at_entries t)"
proof (cases "at_findIndex t a")
  case None
  then have "a \<notin> set (at_entries t)" by (auto simp: at_findIndex_def find_index_None)
  with None show ?thesis by (simp add: at_findEntry_def)
next
  case (Some i)
  from at_findIndex_Some [OF Some] assms have "i < 256" "a \<in> set (at_entries t)"
    by (auto simp: at_ok_def kMaxAddresses_def)
  with Some show ?thesis using index_word_nonzero by (simp add: at_findEntry_def del: of_nat_Suc)
qed

text \<open>Adding an address: it is found afterwards under the index that was returned, and every index in
  use keeps its address; only a full table refuses, also when the address is already there.\<close>

lemma at_add_cases:
  assumes "at_add a t = (t1, r)"
  obtains (full) "length (at_entries t) \<ge> kMaxAddresses" "t1 = t" "r = Inl OutOfRange"
  | (known) i where "length (at_entries t) < kMaxAddresses" "at_findIndex t a = Some i" "t1 = t" "r = Inr i"
  | (new) "length (at_entries t) < kMaxAddresses" "at_findIndex t a = None"
      "t1 = t\<lparr>at_entries := at_entries t @ [a]\<rparr>" "r = Inr (length (at_entries t))"
  using assms by (auto simp: at_add_def fv_push_back_def Let_def split: if_splits option.splits)

lemma find_index_snoc:
  "find_index P xs = None \<Longrightarrow> P x \<Longrightarrow> find_index P (xs @ [x]) = Some (length xs)"
  by (induction xs) (auto split: if_splits)

lemma at_addEntry_found:
  assumes "at_ok t" "at_addEntry a t = (t1, ix)" "ix \<noteq> 0"
  shows "at_ok t1 \<and> at_findEntry t1 a = ix \<and> at_getAddress t1 ix = a
    \<and> (\<forall>j. at_getAddress t j \<noteq> 0 \<longrightarrow> at_getAddress t1 j = at_getAddress t j)"
proof -
  obtain r where r: "at_add a t = (t1, r)" using assms(2) by (auto simp: at_addEntry_def split: prod.splits sum.splits)
  from r have ix: "ix = (case r of Inl _ \<Rightarrow> 0 | Inr i \<Rightarrow> of_nat (i + 1))"
    using assms(2) by (auto simp: at_addEntry_def split: sum.splits)
  from r show ?thesis
  proof (cases rule: at_add_cases)
    case full
    with ix assms(3) show ?thesis by simp
  next
    case (known i)
    then have e: "at_findEntry t a = ix" using ix by (simp add: at_findEntry_def)
    with known assms(1,3) at_findEntry_address [OF assms(1), of a] show ?thesis by simp
  next
    case new
    have ok: "at_ok t1" using new by (simp add: at_ok_def)
    have f: "at_findIndex t1 a = Some (length (at_entries t))"
      using new(2) by (simp add: new(3) at_findIndex_def find_index_snoc)
    have e: "at_findEntry t1 a = ix" using ix new f by (simp add: at_findEntry_def)
    then have "at_getAddress t1 ix = a" using at_findEntry_address [OF ok, of a] assms(3) by simp
    moreover have "at_getAddress t1 j = at_getAddress t j" if "at_getAddress t j \<noteq> 0" for j
      using that by (auto simp: new(3) at_getAddress_def at_get_def nth_append split: if_splits)
    ultimately show ?thesis using ok e by blast
  qed
qed

section \<open>The association table is a relation\<close>

definition as_ok :: "association_table \<Rightarrow> bool" where
  "as_ok t \<longleftrightarrow> length (as_entries t) \<le> kMaxAssociations"

lemma erase_loop_filter:
  "i \<le> length es \<Longrightarrow> erase_loop P i es n =
     (take i es @ filter (\<lambda>e. \<not> P e) (drop i es), n + length (filter P (drop i es)))"
proof (induction P i es n rule: erase_loop.induct)
  case (1 P i es n)
  show ?case
  proof (cases "i < length es")
    case True
    have d: "drop i es = es ! i # drop (Suc i) es" using True by (simp add: Cons_nth_drop_Suc)
    show ?thesis
    proof (cases "P (es ! i)")
      case P: True
      have "erase_loop P i es n = erase_loop P i (fv_erase es i) (n + 1)"
        using True P by (subst erase_loop.simps) simp
      also have "\<dots> = (take i (fv_erase es i) @ filter (\<lambda>e. \<not> P e) (drop i (fv_erase es i)),
          n + 1 + length (filter P (drop i (fv_erase es i))))"
        using "1.IH"(1) [OF True P] True by (simp add: fv_erase_def)
      finally show ?thesis using True P d by (simp add: fv_erase_def)
    next
      case P: False
      have "erase_loop P i es n = erase_loop P (i + 1) es n" using True P by (subst erase_loop.simps) simp
      also have "\<dots> = (take (i + 1) es @ filter (\<lambda>e. \<not> P e) (drop (i + 1) es),
          n + length (filter P (drop (i + 1) es)))"
        using "1.IH"(2) [OF True P] True by simp
      finally show ?thesis using P d True by (simp add: take_Suc_conv_app_nth)
    qed
  next
    case False
    with "1.prems" show ?thesis by (subst erase_loop.simps) simp
  qed
qed

lemmas erase_all = erase_loop_filter [of 0, simplified]

lemma as_removeEntriesForAddress_entries:
  "as_entries (fst (as_removeEntriesForAddress a t)) = filter (\<lambda>e. ae_addressIndex e \<noteq> a) (as_entries t)"
  by (simp add: as_removeEntriesForAddress_def erase_all)

lemma as_removeEntriesForGroupObject_entries:
  "as_entries (fst (as_removeEntriesForGroupObject g t)) = filter (\<lambda>e. ae_groupObject e \<noteq> g) (as_entries t)"
  by (simp add: as_removeEntriesForGroupObject_def erase_all)

lemma as_findGroupObjects_Inr:
  assumes "as_findGroupObjects t a n = Inr (k, gs)" "n \<noteq> 0"
  shows "k = length gs \<and> gs = map ae_groupObject (filter (\<lambda>e. ae_addressIndex e = a) (as_entries t))"
  using assms by (auto simp: as_findGroupObjects_def Let_def split: if_splits)

lemma as_hasAssociation_set: "as_hasAssociation t a g \<longleftrightarrow>
    g \<in> set (map ae_groupObject (filter (\<lambda>e. ae_addressIndex e = a) (as_entries t)))"
  by (auto simp: as_hasAssociation_def list_ex_iff)

lemma as_add_has:
  assumes "as_add e t = (t1, Inr ())"
  shows "as_hasAssociation t1 a g \<longleftrightarrow> as_hasAssociation t a g \<or> (a = ae_addressIndex e \<and> g = ae_groupObject e)"
  using assms
  by (auto simp: as_add_def as_hasAssociation_def fv_push_back_def split: if_splits)

lemma ae_read_write: "ae_read (ae_write e @ rest) = Some e"
  by (simp add: ae_read_def ae_write_def word_be_bytes)

interpretation ae: result_codec
  "\<lambda>e. Inr (ae_write e)" "\<lambda>bs. case ae_read bs of Some e \<Rightarrow> Inr e | None \<Rightarrow> Inl BufferTooSmall" "\<lambda>_. True"
  by unfold_locales (use ae_read_write [where rest = "[]"] in \<open>auto split: option.splits\<close>)

section \<open>Bounds under every operation\<close>

text \<open>Everything a client can do to the two tables, with any arguments.\<close>

datatype table_op =
    AddAddress u16 | RemoveAddress u16 | SetAddress u16 u16 | SetAddressExpand u16 u16
  | LoadAddresses "u16 list" | TruncateAddresses u16 | ClearAddresses
  | AddAssociation u16 u16 | RemoveAssociation u16 | SetAssociation u16 u16 u16
  | SetAssociationExpand u16 u16 u16 | RemoveForAddress u16 | RemoveForObject u16
  | LoadAssociations "(u16 \<times> u16) list" | TruncateAssociations u16 | ClearAssociations

definition association :: "u16 \<Rightarrow> u16 \<Rightarrow> association_entry" where
  "association a g = \<lparr>ae_addressIndex = a, ae_groupObject = g\<rparr>"

fun table_step :: "table_op \<Rightarrow> address_table \<times> association_table \<Rightarrow> address_table \<times> association_table" where
  "table_step (AddAddress a) (t, s) = (fst (at_addEntry a t), s)"
| "table_step (RemoveAddress i) (t, s) = (fst (at_removeEntry i t), s)"
| "table_step (SetAddress i a) (t, s) = (fst (at_setEntry i a t), s)"
| "table_step (SetAddressExpand i a) (t, s) = (fst (at_setEntryExpand i a t), s)"
| "table_step (LoadAddresses as) (t, s) = (fst (at_load as t), s)"
| "table_step (TruncateAddresses n) (t, s) = (at_truncate (unat n) t, s)"
| "table_step ClearAddresses (t, s) = (at_clear t, s)"
| "table_step (AddAssociation a g) (t, s) = (t, fst (as_add (association a g) s))"
| "table_step (RemoveAssociation i) (t, s) = (t, fst (as_removeEntry i s))"
| "table_step (SetAssociation i a g) (t, s) = (t, fst (as_setEntry i (association a g) s))"
| "table_step (SetAssociationExpand i a g) (t, s) = (t, fst (as_setEntryExpandUnchecked i (association a g) s))"
| "table_step (RemoveForAddress a) (t, s) = (t, fst (as_removeEntriesForAddress a s))"
| "table_step (RemoveForObject g) (t, s) = (t, fst (as_removeEntriesForGroupObject g s))"
| "table_step (LoadAssociations es) (t, s) = (t, fst (as_load (map (\<lambda>(a, g). association a g) es) s))"
| "table_step (TruncateAssociations n) (t, s) = (t, as_truncate (unat n) s)"
| "table_step ClearAssociations (t, s) = (t, as_clear s)"

definition tables_ok :: "address_table \<times> association_table \<Rightarrow> bool" where
  "tables_ok ts \<longleftrightarrow> at_ok (fst ts) \<and> as_ok (snd ts)"

lemmas at_op_defs = at_addEntry_def at_removeEntry_def at_remove_def at_setEntry_def at_set_def
  at_setEntryExpand_def at_setExpand_def at_load_def at_truncate_def at_clear_def at_toDomainIndex_def

lemmas as_op_defs = as_add_def as_removeEntry_def as_remove_def as_setEntry_def as_set_def
  as_setEntryExpandUnchecked_def as_setExpand_def as_load_def as_truncate_def as_clear_def as_toDomainIndex_def

lemma at_add_ok: "at_ok t \<Longrightarrow> at_ok (fst (at_addEntry a t))"
proof -
  assume ok: "at_ok t"
  obtain t1 r where r: "at_add a t = (t1, r)" by (cases "at_add a t")
  then have "fst (at_addEntry a t) = t1" by (simp add: at_addEntry_def split: sum.split)
  with r ok show ?thesis by (cases rule: at_add_cases) (simp_all add: at_ok_def)
qed

lemma table_step_ok: "tables_ok ts \<Longrightarrow> tables_ok (table_step op ts)"
proof (cases ts; cases op)
  fix t s a assume "tables_ok ts" "ts = (t, s)" "op = AddAddress a"
  then show ?thesis using at_add_ok by (simp add: tables_ok_def)
qed (auto simp: tables_ok_def at_ok_def as_ok_def at_op_defs as_op_defs Let_def fv_erase_def fv_assign_def
    fv_push_back_def kMaxAddresses_def kMaxAssociations_def
    as_removeEntriesForAddress_entries as_removeEntriesForGroupObject_entries
    split: if_splits intro: le_trans [OF length_filter_le])

text \<open>
  Both tables stay within their types whatever is done to them: after any sequence of operations
  with any arguments the address table has at most 256 and the association table at most 512 entries, so
  every index that is answered is between 1 and 256, and reading it back gives the address it was answered for.
\<close>
theorem tables_well_typed:
  "tables_ok (fold table_step ops (address_table_init, association_table_init))
   \<and> (let t = fst (fold table_step ops (address_table_init, association_table_init)); i = at_findEntry t a in
      (i = 0) = (a \<notin> set (at_entries t)) \<and> unat i \<le> 256 \<and> (i = 0 \<or> at_getAddress t i = a))"
proof -
  let ?ts = "fold table_step ops (address_table_init, association_table_init)"
  have fold_ok: "tables_ok (fold table_step ops ts)" if "tables_ok ts" for ts
    using that by (induction ops arbitrary: ts) (simp_all add: table_step_ok)
  have ok: "tables_ok ?ts"
    by (rule fold_ok) (simp add: tables_ok_def at_ok_def as_ok_def address_table_init_def association_table_init_def)
  then have t: "at_ok (fst ?ts)" by (simp add: tables_ok_def)
  have "unat (at_findEntry (fst ?ts) a) \<le> 256"
  proof (cases "at_findIndex (fst ?ts) a")
    case (Some i)
    with at_findIndex_Some [OF Some] t have "i < 256" by (simp add: at_ok_def kMaxAddresses_def)
    then show ?thesis using Some index_word [of i] by (simp add: at_findEntry_def del: of_nat_Suc)
  qed (simp add: at_findEntry_def)
  then show ?thesis
    using ok at_findEntry_zero_iff [OF t, of a] at_findEntry_address [OF t, of a] by (auto simp: Let_def)
qed

end
