(* ===== verification/Dpt.thy ===== *)
theory Dpt
  imports Interfaces
begin

text \<open>
  Datapoint types (\<open>include/knx/application/dpt.hpp\<close>, \<open>dpt_catalog.inc\<close>, \<open>src/application/dpt.cpp\<close>):
  the catalog, the codec of every value type and the dispatch between them. Shown: what is encoded has the
  width the catalog states and is decoded to the same value, for the types that are exact; for the
  two-octet float and the HSV colour, how far the decoded value can be from the encoded one.
\<close>

section \<open>Values\<close>

record dpt10_value =
  tod_dayOfWeek :: u8
  tod_hour :: u8
  tod_minute :: u8
  tod_second :: u8

record dpt11_value =
  date_day :: u8
  date_month :: u8
  date_year :: u8

record dpt15_value =
  acc_digit0 :: u8
  acc_digit1 :: u8
  acc_digit2 :: u8
  acc_digit3 :: u8
  acc_error :: bool
  acc_permission :: bool
  acc_readDirection :: bool
  acc_encrypted :: bool

record dpt19_value =
  dt_year :: u16
  dt_month :: u8
  dt_day :: u8
  dt_dayOfWeek :: u8
  dt_hour :: u8
  dt_minute :: u8
  dt_second :: u8
  dt_fault :: bool
  dt_workingDay :: bool
  dt_noWD :: bool
  dt_noYear :: bool
  dt_noDate :: bool
  dt_noDayOfWeek :: bool
  dt_noTime :: bool
  dt_suti :: bool

datatype hvac_mode = HvacAuto | HvacComfort | HvacStandby | HvacEconomy | HvacBuildingProtection

datatype dpt_type =
    T_Boolean | T_Controlled1Bit | T_Controlled3Bit | T_Character | T_Unsigned8 | T_Signed8 | T_Unsigned16
  | T_Signed16 | T_Float2Byte | T_TimeOfDay | T_Date | T_Unsigned32 | T_Signed32 | T_Float4Byte
  | T_AccessControl | T_String | T_SceneNumber | T_SceneControl | T_DateTime | T_HvacMode | T_RgbColor
  | T_XyYColor | T_HsvColor | T_ColorTransition

text \<open>A \<open>DptValue\<close>. Signed integers are their two's complement words, a \<open>float\<close> is its IEEE bit pattern,
  a \<open>std::string\<close> its octets.\<close>

datatype dpt_value =
    VBool bool | VControlled1 bool bool | VControlled3 bool u8 | VChar u8 | VU8 u8 | VS8 u8 | VU16 u16
  | VS16 u16 | VFloat2 u32 | VTime dpt10_value | VDate dpt11_value | VU32 u32 | VS32 u32 | VFloat4 u32
  | VAccess dpt15_value | VString bytes | VScene u8 bool | VSceneControl u8 bool | VDateTime dpt19_value
  | VHvac hvac_mode | VRgb u8 u8 u8 | VXyY u16 u16 u8 bool | VHsv u16 u8 u8 | VTransition u8 u8 u8 u16 u8

fun value_type :: "dpt_value \<Rightarrow> dpt_type" where
  "value_type (VBool _) = T_Boolean"
| "value_type (VControlled1 _ _) = T_Controlled1Bit"
| "value_type (VControlled3 _ _) = T_Controlled3Bit"
| "value_type (VChar _) = T_Character"
| "value_type (VU8 _) = T_Unsigned8"
| "value_type (VS8 _) = T_Signed8"
| "value_type (VU16 _) = T_Unsigned16"
| "value_type (VS16 _) = T_Signed16"
| "value_type (VFloat2 _) = T_Float2Byte"
| "value_type (VTime _) = T_TimeOfDay"
| "value_type (VDate _) = T_Date"
| "value_type (VU32 _) = T_Unsigned32"
| "value_type (VS32 _) = T_Signed32"
| "value_type (VFloat4 _) = T_Float4Byte"
| "value_type (VAccess _) = T_AccessControl"
| "value_type (VString _) = T_String"
| "value_type (VScene _ _) = T_SceneNumber"
| "value_type (VSceneControl _ _) = T_SceneControl"
| "value_type (VDateTime _) = T_DateTime"
| "value_type (VHvac _) = T_HvacMode"
| "value_type (VRgb _ _ _) = T_RgbColor"
| "value_type (VXyY _ _ _ _) = T_XyYColor"
| "value_type (VHsv _ _ _) = T_HsvColor"
| "value_type (VTransition _ _ _ _ _) = T_ColorTransition"

section \<open>The catalog\<close>

text \<open>A datapoint type is its main and its sub number.\<close>

type_synonym dpt_id = "u16 \<times> u16"

definition dpt_catalog :: "(u16 \<times> u16 \<times> dpt_type) list" where
  "dpt_catalog = [
      (1, 0, T_Boolean), (1, 1, T_Boolean), (1, 3, T_Boolean), (1, 4, T_Boolean), (1, 5, T_Boolean),
      (1, 6, T_Boolean), (1, 7, T_Boolean), (1, 8, T_Boolean), (1, 9, T_Boolean), (1, 10, T_Boolean),
      (1, 11, T_Boolean), (1, 12, T_Boolean), (1, 18, T_Boolean), (1, 19, T_Boolean), (1, 100, T_Boolean),
      (1, 17, T_Boolean), (1, 16, T_Boolean), (1, 15, T_Boolean), (2, 0, T_Controlled1Bit), (3, 0, T_Controlled3Bit),
      (3, 7, T_Controlled3Bit), (4, 0, T_Character), (5, 0, T_Unsigned8), (6, 0, T_Signed8), (6, 10, T_Signed8),
      (7, 0, T_Unsigned16), (8, 0, T_Signed16), (9, 0, T_Float2Byte), (10, 0, T_TimeOfDay), (11, 0, T_Date),
      (12, 0, T_Unsigned32), (13, 0, T_Signed32), (14, 0, T_Float4Byte), (15, 0, T_AccessControl), (16, 0, T_String),
      (17, 0, T_SceneNumber), (18, 0, T_SceneControl), (19, 0, T_DateTime), (20, 0, T_HvacMode), (232, 0, T_RgbColor),
      (242, 0, T_XyYColor), (243, 0, T_HsvColor), (244, 0, T_ColorTransition), (9, 1, T_Float2Byte), (9, 7, T_Float2Byte),
      (9, 4, T_Float2Byte), (9, 24, T_Float2Byte), (9, 21, T_Float2Byte), (9, 6, T_Float2Byte), (9, 25, T_Float2Byte),
      (9, 20, T_Float2Byte), (9, 2, T_Float2Byte), (9, 8, T_Float2Byte), (9, 5, T_Float2Byte), (9, 10, T_Float2Byte),
      (9, 29, T_Float2Byte), (5, 1, T_Unsigned8), (5, 10, T_Unsigned8), (5, 3, T_Unsigned8), (7, 1, T_Unsigned16),
      (7, 2, T_Unsigned16), (7, 600, T_Unsigned16), (8, 1, T_Signed16), (13, 10, T_Signed32), (14, 68, T_Float4Byte),
      (14, 60, T_Float4Byte), (14, 33, T_Float4Byte), (14, 57, T_Float4Byte), (20, 102, T_HvacMode), (20, 103, T_Unsigned8),
      (20, 104, T_Unsigned8), (20, 105, T_Unsigned8), (20, 106, T_Unsigned8), (20, 107, T_Unsigned8), (20, 108, T_Unsigned8),
      (20, 109, T_Unsigned8), (20, 110, T_Unsigned8), (20, 111, T_Unsigned8), (20, 112, T_Unsigned8), (20, 113, T_Unsigned8),
      (21, 1, T_Unsigned8), (21, 102, T_Unsigned8), (22, 101, T_Unsigned16), (16, 1, T_String)]"

fun catalog_find :: "(u16 \<times> u16 \<times> dpt_type) list \<Rightarrow> dpt_id \<Rightarrow> dpt_type option" where
  "catalog_find [] i = None"
| "catalog_find ((m, s, t) # es) i = (if (m, s) = i then Some t else catalog_find es i)"

text \<open>\<open>lookupDptInfo\<close>, as far as the value type goes; every entry of the catalog is supported at run time.\<close>

definition lookupDptInfo :: "dpt_id \<Rightarrow> dpt_type option" where
  "lookupDptInfo i =
     (case catalog_find dpt_catalog i of
        Some t \<Rightarrow> Some t
      | None \<Rightarrow> if snd i \<noteq> 0 then catalog_find dpt_catalog (fst i, 0) else None)"

definition supportsDpt :: "dpt_id \<Rightarrow> bool" where "supportsDpt i \<longleftrightarrow> lookupDptInfo i \<noteq> None"

definition dptValueMatches :: "dpt_id \<Rightarrow> dpt_value \<Rightarrow> bool" where
  "dptValueMatches i v \<longleftrightarrow> lookupDptInfo i = Some (value_type v)"

definition dptPayloadBits :: "dpt_id \<Rightarrow> nat" where
  "dptPayloadBits i =
     (let m = unat (fst i) in
      if m = 1 then 1 else if m = 2 then 2 else if m = 3 then 4
      else if m \<in> {4, 5, 6, 17, 18, 20, 21} then 8
      else if m \<in> {7, 8, 9, 22} then 16
      else if m \<in> {10, 11} then 24
      else if m \<in> {12, 13, 14, 15} then 32
      else if m = 232 then 24 else if m = 16 then 112 else if m = 19 then 64
      else if m = 242 then 48 else if m = 243 then 24 else if m = 244 then 48 else 0)"

definition dptPayloadOctets :: "dpt_id \<Rightarrow> nat" where
  "dptPayloadOctets i = (let bits = dptPayloadBits i in if bits = 0 then 0 else (bits + 7) div 8)"

section \<open>Writing and reading octets\<close>

definition writeArray :: "bytes \<Rightarrow> nat \<Rightarrow> bytes result" where
  "writeArray bs cap = (if cap < length bs then Inl BufferTooSmall else Inr bs)"

definition writeWord :: "u16 \<Rightarrow> nat \<Rightarrow> bytes result" where
  "writeWord w cap = writeArray [getHighByte w, getLowByte w] cap"

definition dword_bytes :: "u32 \<Rightarrow> bytes" where
  "dword_bytes w = [ucast (drop_bit 24 w), ucast (drop_bit 16 w), ucast (drop_bit 8 w), ucast w]"

definition writeDword :: "u32 \<Rightarrow> nat \<Rightarrow> bytes result" where
  "writeDword w cap = writeArray (dword_bytes w) cap"

definition makeDword :: "u8 \<Rightarrow> u8 \<Rightarrow> u8 \<Rightarrow> u8 \<Rightarrow> u32" where
  "makeDword a b c d = push_bit 24 (ucast a) OR push_bit 16 (ucast b) OR push_bit 8 (ucast c) OR ucast d"

definition flag :: "bool \<Rightarrow> u8 \<Rightarrow> u8" where "flag b m = (if b then m else 0)"

section \<open>The codecs\<close>

text \<open>The IEEE arithmetic of the two-octet float is a parameter: whether a value is not finite or out of
  range, \<open>lround(value / 0.01)\<close>, and \<open>ldexp(mantissa * 0.01, exponent)\<close>.\<close>

record float_ops =
  fo_rejects :: "u32 \<Rightarrow> bool"
  fo_hundredths :: "u32 \<Rightarrow> int"
  fo_value :: "int \<Rightarrow> nat \<Rightarrow> u32"

text \<open>\<open>std::lround(m / 2.0)\<close>: to the nearest, halves away from zero.\<close>

definition half_round :: "int \<Rightarrow> int" where
  "half_round m = (if m \<ge> 0 then (m + 1) div 2 else - ((1 - m) div 2))"

definition fits_mantissa :: "int \<Rightarrow> bool" where "fits_mantissa m \<longleftrightarrow> - 2048 \<le> m \<and> m \<le> 2047"

function dpt9_normalize :: "int \<Rightarrow> nat \<Rightarrow> int \<times> nat" where
  "dpt9_normalize m e = (if \<not> fits_mantissa m \<and> e < 15 then dpt9_normalize (half_round m) (e + 1) else (m, e))"
  by pat_completeness auto
termination by (relation "measure (\<lambda>(_, e). 15 - e)") auto

declare dpt9_normalize.simps [simp del]

definition dpt9_raw :: "int \<Rightarrow> nat \<Rightarrow> u16" where
  "dpt9_raw m e = (if m < 0 then 0x8000 else 0) OR push_bit 11 (of_nat e AND 0x0F) OR (of_int m AND 0x07FF)"

definition dpt9_encode_hundredths :: "int \<Rightarrow> nat \<Rightarrow> bytes result" where
  "dpt9_encode_hundredths h cap =
     (case dpt9_normalize h 0 of (m, e) \<Rightarrow>
        if \<not> fits_mantissa m then Inl InvalidParameter else writeWord (dpt9_raw m e) cap)"

definition dpt9_encode :: "float_ops \<Rightarrow> u32 \<Rightarrow> nat \<Rightarrow> bytes result" where
  "dpt9_encode F v cap = (if fo_rejects F v then Inl InvalidParameter else dpt9_encode_hundredths (fo_hundredths F v) cap)"

text \<open>Mantissa and exponent of two octets.\<close>

definition dpt9_parts :: "u8 \<Rightarrow> u8 \<Rightarrow> int \<times> nat" where
  "dpt9_parts a b =
     (let raw = word_be a b; m = uint (raw AND 0x07FF) in
      (if raw AND 0x8000 \<noteq> 0 then m - 2048 else m, unat (drop_bit 11 raw AND 0x0F)))"

definition dpt9_decode :: "float_ops \<Rightarrow> bytes \<Rightarrow> u32 result" where
  "dpt9_decode F d =
     (if length d < 2 then Inl DecodeFailed
      else case dpt9_parts (d ! 0) (d ! 1) of (m, e) \<Rightarrow> Inr (fo_value F m e))"

text \<open>A float is neither infinite nor a NaN when its exponent bits are not all set.\<close>

definition float_finite :: "u32 \<Rightarrow> bool" where
  "float_finite v \<longleftrightarrow> v AND 0x7F800000 \<noteq> 0x7F800000"

definition tod_ok :: "dpt10_value \<Rightarrow> bool" where
  "tod_ok t \<longleftrightarrow> tod_dayOfWeek t \<le> 7 \<and> tod_hour t \<le> 23 \<and> tod_minute t \<le> 59 \<and> tod_second t \<le> 59"

definition dpt10_encode :: "dpt10_value \<Rightarrow> nat \<Rightarrow> bytes result" where
  "dpt10_encode t cap =
     (if \<not> tod_ok t then Inl InvalidParameter
      else writeArray [push_bit 5 (tod_dayOfWeek t AND 0x07) OR (tod_hour t AND 0x1F),
                       push_bit 2 (tod_minute t AND 0x3F) OR (drop_bit 4 (tod_second t) AND 0x03),
                       push_bit 4 (tod_second t AND 0x3F)] cap)"

definition dpt10_decode :: "bytes \<Rightarrow> dpt10_value result" where
  "dpt10_decode d =
     (if length d < 3 then Inl DecodeFailed
      else let t = \<lparr>tod_dayOfWeek = drop_bit 5 (d ! 0) AND 0x07, tod_hour = d ! 0 AND 0x1F,
                    tod_minute = drop_bit 2 (d ! 1) AND 0x3F,
                    tod_second = push_bit 4 (d ! 1 AND 0x03) OR (drop_bit 4 (d ! 2) AND 0x3F)\<rparr>
           in if \<not> tod_ok t then Inl InvalidParameter else Inr t)"

definition date_ok :: "dpt11_value \<Rightarrow> bool" where
  "date_ok t \<longleftrightarrow> 1 \<le> date_day t \<and> date_day t \<le> 31 \<and> 1 \<le> date_month t \<and> date_month t \<le> 12 \<and> date_year t \<le> 99"

definition dpt11_encode :: "dpt11_value \<Rightarrow> nat \<Rightarrow> bytes result" where
  "dpt11_encode t cap =
     (if \<not> date_ok t then Inl InvalidParameter
      else writeArray [date_day t AND 0x1F, date_month t AND 0x0F, date_year t AND 0x7F] cap)"

definition dpt11_decode :: "bytes \<Rightarrow> dpt11_value result" where
  "dpt11_decode d =
     (if length d < 3 then Inl DecodeFailed
      else let t = \<lparr>date_day = d ! 0 AND 0x1F, date_month = d ! 1 AND 0x0F, date_year = d ! 2 AND 0x7F\<rparr>
           in if \<not> date_ok t then Inl InvalidParameter else Inr t)"

definition dpt19_encode :: "dpt19_value \<Rightarrow> nat \<Rightarrow> bytes result" where
  "dpt19_encode t cap =
     (if dt_year t < 1900 \<or> dt_year t > 2155 \<or> dt_month t < 1 \<or> dt_month t > 12 \<or> dt_day t < 1 \<or> dt_day t > 31
         \<or> dt_dayOfWeek t > 7 \<or> dt_hour t > 23 \<or> dt_minute t > 59 \<or> dt_second t > 59
      then Inl InvalidParameter
      else writeArray [ucast (dt_year t - 1900), dt_month t AND 0x0F, dt_day t AND 0x1F,
                       push_bit 5 (dt_dayOfWeek t AND 0x07) OR (drop_bit 2 (dt_hour t) AND 0x07),
                       push_bit 6 (dt_hour t AND 0x03) OR (dt_minute t AND 0x3F),
                       dt_second t AND 0x3F,
                       flag (dt_fault t) 0x80 OR flag (dt_workingDay t) 0x40 OR flag (dt_noWD t) 0x20
                       OR flag (dt_noYear t) 0x10 OR flag (dt_noDate t) 0x08 OR flag (dt_noDayOfWeek t) 0x04
                       OR flag (dt_noTime t) 0x02 OR flag (dt_suti t) 0x01,
                       0] cap)"

definition dpt19_decode :: "bytes \<Rightarrow> dpt19_value result" where
  "dpt19_decode d =
     (if length d < 8 then Inl DecodeFailed
      else let t = \<lparr>dt_year = 1900 + ucast (d ! 0), dt_month = d ! 1 AND 0x0F, dt_day = d ! 2 AND 0x1F,
                    dt_dayOfWeek = drop_bit 5 (d ! 3) AND 0x07,
                    dt_hour = push_bit 2 (d ! 3 AND 0x07) OR (drop_bit 6 (d ! 4) AND 0x03),
                    dt_minute = d ! 4 AND 0x3F, dt_second = d ! 5 AND 0x3F,
                    dt_fault = d ! 6 AND 0x80 \<noteq> 0, dt_workingDay = d ! 6 AND 0x40 \<noteq> 0,
                    dt_noWD = d ! 6 AND 0x20 \<noteq> 0, dt_noYear = d ! 6 AND 0x10 \<noteq> 0,
                    dt_noDate = d ! 6 AND 0x08 \<noteq> 0, dt_noDayOfWeek = d ! 6 AND 0x04 \<noteq> 0,
                    dt_noTime = d ! 6 AND 0x02 \<noteq> 0, dt_suti = d ! 6 AND 0x01 \<noteq> 0\<rparr>
           in if \<not> dt_noYear t \<and> (dt_year t < 1900 \<or> dt_year t > 2155) then Inl InvalidParameter
              else if \<not> dt_noDate t \<and> (dt_month t < 1 \<or> dt_month t > 12 \<or> dt_day t < 1 \<or> dt_day t > 31)
              then Inl InvalidParameter
              else if \<not> dt_noDayOfWeek t \<and> dt_dayOfWeek t > 7 then Inl InvalidParameter
              else if \<not> dt_noTime t \<and> (dt_hour t > 23 \<or> dt_minute t > 59 \<or> dt_second t > 59)
              then Inl InvalidParameter
              else Inr t)"

definition dpt15_encode :: "dpt15_value \<Rightarrow> nat \<Rightarrow> bytes result" where
  "dpt15_encode a cap =
     (if acc_digit0 a > 9 \<or> acc_digit1 a > 9 \<or> acc_digit2 a > 9 \<or> acc_digit3 a > 9 then Inl InvalidParameter
      else let c = flag (acc_encrypted a) 0x01 OR flag (acc_readDirection a) 0x02 OR flag (acc_permission a) 0x04
                   OR flag (acc_error a) 0x08
           in writeArray [push_bit 4 (acc_digit3 a) OR c, push_bit 4 (acc_digit2 a) OR c,
                          push_bit 4 (acc_digit1 a) OR c, push_bit 4 (acc_digit0 a) OR c] cap)"

definition dpt15_decode :: "bytes \<Rightarrow> dpt15_value result" where
  "dpt15_decode d =
     (if length d < 4 then Inl DecodeFailed
      else let c = d ! 3 AND 0x0F;
               a = \<lparr>acc_digit0 = drop_bit 4 (d ! 3) AND 0x0F, acc_digit1 = drop_bit 4 (d ! 2) AND 0x0F,
                    acc_digit2 = drop_bit 4 (d ! 1) AND 0x0F, acc_digit3 = drop_bit 4 (d ! 0) AND 0x0F,
                    acc_error = c AND 0x08 \<noteq> 0, acc_permission = c AND 0x04 \<noteq> 0,
                    acc_readDirection = c AND 0x02 \<noteq> 0, acc_encrypted = c AND 0x01 \<noteq> 0\<rparr>
           in if acc_digit0 a > 9 \<or> acc_digit1 a > 9 \<or> acc_digit2 a > 9 \<or> acc_digit3 a > 9
              then Inl InvalidParameter else Inr a)"

definition dpt16_encode :: "bytes \<Rightarrow> nat \<Rightarrow> bytes result" where
  "dpt16_encode s cap =
     (if length s > 13 then Inl InvalidParameter
      else writeArray (s @ replicate (14 - length s) 0) cap)"

definition dpt16_decode :: "bytes \<Rightarrow> bytes result" where
  "dpt16_decode d = (if length d < 14 then Inl DecodeFailed else Inr (takeWhile (\<lambda>c. c \<noteq> 0) (take 14 d)))"

fun hvac_code :: "hvac_mode \<Rightarrow> u8" where
  "hvac_code HvacAuto = 0"
| "hvac_code HvacComfort = 1"
| "hvac_code HvacStandby = 2"
| "hvac_code HvacEconomy = 3"
| "hvac_code HvacBuildingProtection = 4"

definition dpt20_decode :: "bytes \<Rightarrow> hvac_mode result" where
  "dpt20_decode d =
     (if d = [] then Inl DecodeFailed
      else let v = d ! 0 in
        if v > 4 then Inl InvalidParameter
        else Inr (if v = 0 then HvacAuto else if v = 1 then HvacComfort else if v = 2 then HvacStandby
                  else if v = 3 then HvacEconomy else HvacBuildingProtection))"

definition dpt243_encode :: "u16 \<Rightarrow> u8 \<Rightarrow> u8 \<Rightarrow> nat \<Rightarrow> bytes result" where
  "dpt243_encode hue sat val cap =
     (if hue > 360 \<or> sat > 100 \<or> val > 100 then Inl InvalidParameter
      else writeArray [of_nat (unat hue * 255 div 360), of_nat (unat sat * 255 div 100),
                       of_nat (unat val * 255 div 100)] cap)"

definition dpt243_decode :: "bytes \<Rightarrow> (u16 \<times> u8 \<times> u8) result" where
  "dpt243_decode d =
     (if length d < 3 then Inl DecodeFailed
      else Inr (of_nat (unat (d ! 0) * 360 div 255), of_nat (unat (d ! 1) * 100 div 255),
                of_nat (unat (d ! 2) * 100 div 255)))"

definition first_octet :: "(u8 \<Rightarrow> 'a) \<Rightarrow> bytes \<Rightarrow> 'a result" where
  "first_octet f d = (if d = [] then Inl DecodeFailed else Inr (f (d ! 0)))"

definition octets_of :: "nat \<Rightarrow> bytes \<Rightarrow> (bytes \<Rightarrow> 'a) \<Rightarrow> 'a result" where
  "octets_of n d f = (if length d < n then Inl DecodeFailed else Inr (f d))"

definition dpt1_encode :: "bool \<Rightarrow> nat \<Rightarrow> bytes result" where
  "dpt1_encode b cap = writeArray [if b then 0x01 else 0x00] cap"

definition dpt1_decode :: "bytes \<Rightarrow> bool result" where
  "dpt1_decode d = first_octet (\<lambda>b. b AND 0x01 \<noteq> 0) d"

definition dpt2_encode :: "bool \<Rightarrow> bool \<Rightarrow> nat \<Rightarrow> bytes result" where
  "dpt2_encode c v cap = writeArray [flag c 0x02 OR flag v 0x01] cap"

definition dpt2_decode :: "bytes \<Rightarrow> (bool \<times> bool) result" where
  "dpt2_decode d = first_octet (\<lambda>b. (b AND 0x02 \<noteq> 0, b AND 0x01 \<noteq> 0)) d"

definition dpt3_encode :: "bool \<Rightarrow> u8 \<Rightarrow> nat \<Rightarrow> bytes result" where
  "dpt3_encode c step cap =
     (if step > 0x07 then Inl InvalidParameter else writeArray [flag c 0x08 OR (step AND 0x07)] cap)"

definition dpt3_decode :: "bytes \<Rightarrow> (bool \<times> u8) result" where
  "dpt3_decode d = first_octet (\<lambda>b. (b AND 0x08 \<noteq> 0, b AND 0x07)) d"

definition dpt4_encode :: "u8 \<Rightarrow> nat \<Rightarrow> bytes result" where "dpt4_encode x cap = writeArray [x] cap"
definition dpt4_decode :: "bytes \<Rightarrow> u8 result" where "dpt4_decode d = first_octet (\<lambda>b. b) d"
definition dpt5_encode :: "u8 \<Rightarrow> nat \<Rightarrow> bytes result" where "dpt5_encode x cap = writeArray [x] cap"
definition dpt5_decode :: "bytes \<Rightarrow> u8 result" where "dpt5_decode d = first_octet (\<lambda>b. b) d"
definition dpt6_encode :: "u8 \<Rightarrow> nat \<Rightarrow> bytes result" where "dpt6_encode x cap = writeArray [x] cap"
definition dpt6_decode :: "bytes \<Rightarrow> u8 result" where "dpt6_decode d = first_octet (\<lambda>b. b) d"
definition dpt7_encode :: "u16 \<Rightarrow> nat \<Rightarrow> bytes result" where "dpt7_encode x cap = writeWord x cap"
definition dpt7_decode :: "bytes \<Rightarrow> u16 result" where "dpt7_decode d = octets_of 2 d (\<lambda>d. word_be (d ! 0) (d ! 1))"
definition dpt8_encode :: "u16 \<Rightarrow> nat \<Rightarrow> bytes result" where "dpt8_encode x cap = writeWord x cap"
definition dpt8_decode :: "bytes \<Rightarrow> u16 result" where "dpt8_decode d = octets_of 2 d (\<lambda>d. word_be (d ! 0) (d ! 1))"
definition dpt12_encode :: "u32 \<Rightarrow> nat \<Rightarrow> bytes result" where "dpt12_encode x cap = writeDword x cap"
definition dpt12_decode :: "bytes \<Rightarrow> u32 result" where
  "dpt12_decode d = octets_of 4 d (\<lambda>d. makeDword (d ! 0) (d ! 1) (d ! 2) (d ! 3))"
definition dpt13_encode :: "u32 \<Rightarrow> nat \<Rightarrow> bytes result" where "dpt13_encode x cap = writeDword x cap"
definition dpt13_decode :: "bytes \<Rightarrow> u32 result" where
  "dpt13_decode d = octets_of 4 d (\<lambda>d. makeDword (d ! 0) (d ! 1) (d ! 2) (d ! 3))"

definition dpt14_encode :: "u32 \<Rightarrow> nat \<Rightarrow> bytes result" where
  "dpt14_encode x cap = (if \<not> float_finite x then Inl InvalidParameter else writeDword x cap)"

definition dpt14_decode :: "bytes \<Rightarrow> u32 result" where
  "dpt14_decode d = octets_of 4 d (\<lambda>d. makeDword (d ! 0) (d ! 1) (d ! 2) (d ! 3))"

definition dpt17_encode :: "u8 \<Rightarrow> bool \<Rightarrow> nat \<Rightarrow> bytes result" where
  "dpt17_encode n valid cap =
     (if n > 63 then Inl InvalidParameter else writeArray [(n AND 0x3F) OR flag (\<not> valid) 0x80] cap)"

definition dpt17_decode :: "bytes \<Rightarrow> (u8 \<times> bool) result" where
  "dpt17_decode d = first_octet (\<lambda>b. (b AND 0x3F, b AND 0x80 = 0)) d"

definition dpt18_encode :: "u8 \<Rightarrow> bool \<Rightarrow> nat \<Rightarrow> bytes result" where
  "dpt18_encode n learn cap =
     (if n > 63 then Inl InvalidParameter else writeArray [(n AND 0x3F) OR flag learn 0x80] cap)"

definition dpt18_decode :: "bytes \<Rightarrow> (u8 \<times> bool) result" where
  "dpt18_decode d = first_octet (\<lambda>b. (b AND 0x3F, b AND 0x80 \<noteq> 0)) d"

definition dpt20_encode :: "hvac_mode \<Rightarrow> nat \<Rightarrow> bytes result" where
  "dpt20_encode m cap = writeArray [hvac_code m] cap"

definition dpt232_encode :: "u8 \<Rightarrow> u8 \<Rightarrow> u8 \<Rightarrow> nat \<Rightarrow> bytes result" where
  "dpt232_encode r g b cap = writeArray [r, g, b] cap"

definition dpt232_decode :: "bytes \<Rightarrow> (u8 \<times> u8 \<times> u8) result" where
  "dpt232_decode d = octets_of 3 d (\<lambda>d. (d ! 0, d ! 1, d ! 2))"

definition dpt242_encode :: "u16 \<Rightarrow> u16 \<Rightarrow> u8 \<Rightarrow> bool \<Rightarrow> nat \<Rightarrow> bytes result" where
  "dpt242_encode x y br valid cap =
     writeArray [getHighByte x, getLowByte x, getHighByte y, getLowByte y, br, flag valid 0x01] cap"

definition dpt242_decode :: "bytes \<Rightarrow> (u16 \<times> u16 \<times> u8 \<times> bool) result" where
  "dpt242_decode d = octets_of 6 d (\<lambda>d. (word_be (d ! 0) (d ! 1), word_be (d ! 2) (d ! 3), d ! 4, d ! 5 AND 0x01 \<noteq> 0))"

definition dpt244_encode :: "u8 \<Rightarrow> u8 \<Rightarrow> u8 \<Rightarrow> u16 \<Rightarrow> u8 \<Rightarrow> nat \<Rightarrow> bytes result" where
  "dpt244_encode r g b t res cap = writeArray [r, g, b, getHighByte t, getLowByte t, res] cap"

definition dpt244_decode :: "bytes \<Rightarrow> (u8 \<times> u8 \<times> u8 \<times> u16 \<times> u8) result" where
  "dpt244_decode d = octets_of 6 d (\<lambda>d. (d ! 0, d ! 1, d ! 2, word_be (d ! 3) (d ! 4), d ! 5))"

lemmas dpt_codec_defs = dpt1_encode_def dpt1_decode_def dpt2_encode_def dpt2_decode_def dpt3_encode_def dpt3_decode_def
  dpt4_encode_def dpt4_decode_def dpt5_encode_def dpt5_decode_def dpt6_encode_def dpt6_decode_def dpt7_encode_def
  dpt7_decode_def dpt8_encode_def dpt8_decode_def dpt12_encode_def dpt12_decode_def dpt13_encode_def dpt13_decode_def
  dpt14_encode_def dpt14_decode_def dpt17_encode_def dpt17_decode_def dpt18_encode_def dpt18_decode_def dpt20_encode_def
  dpt232_encode_def dpt232_decode_def dpt242_encode_def dpt242_decode_def dpt244_encode_def dpt244_decode_def
  first_octet_def octets_of_def

section \<open>The dispatch\<close>

fun encodeForValueType :: "float_ops \<Rightarrow> dpt_value \<Rightarrow> nat \<Rightarrow> bytes result" where
  "encodeForValueType F (VBool b) cap = dpt1_encode b cap"
| "encodeForValueType F (VControlled1 c v) cap = dpt2_encode c v cap"
| "encodeForValueType F (VControlled3 c step) cap = dpt3_encode c step cap"
| "encodeForValueType F (VChar x) cap = dpt4_encode x cap"
| "encodeForValueType F (VU8 x) cap = dpt5_encode x cap"
| "encodeForValueType F (VS8 x) cap = dpt6_encode x cap"
| "encodeForValueType F (VU16 x) cap = dpt7_encode x cap"
| "encodeForValueType F (VS16 x) cap = dpt8_encode x cap"
| "encodeForValueType F (VFloat2 x) cap = dpt9_encode F x cap"
| "encodeForValueType F (VTime t) cap = dpt10_encode t cap"
| "encodeForValueType F (VDate t) cap = dpt11_encode t cap"
| "encodeForValueType F (VU32 x) cap = dpt12_encode x cap"
| "encodeForValueType F (VS32 x) cap = dpt13_encode x cap"
| "encodeForValueType F (VFloat4 x) cap = dpt14_encode x cap"
| "encodeForValueType F (VAccess a) cap = dpt15_encode a cap"
| "encodeForValueType F (VString s) cap = dpt16_encode s cap"
| "encodeForValueType F (VScene n valid) cap = dpt17_encode n valid cap"
| "encodeForValueType F (VSceneControl n learn) cap = dpt18_encode n learn cap"
| "encodeForValueType F (VDateTime t) cap = dpt19_encode t cap"
| "encodeForValueType F (VHvac m) cap = dpt20_encode m cap"
| "encodeForValueType F (VRgb r g b) cap = dpt232_encode r g b cap"
| "encodeForValueType F (VXyY x y br valid) cap = dpt242_encode x y br valid cap"
| "encodeForValueType F (VHsv h s v) cap = dpt243_encode h s v cap"
| "encodeForValueType F (VTransition r g b t res) cap = dpt244_encode r g b t res cap"

fun map_value :: "('a \<Rightarrow> dpt_value) \<Rightarrow> 'a result \<Rightarrow> dpt_value result" where
  "map_value f (Inl e) = Inl e"
| "map_value f (Inr x) = Inr (f x)"

fun decodeForValueType :: "float_ops \<Rightarrow> dpt_type \<Rightarrow> bytes \<Rightarrow> dpt_value result" where
  "decodeForValueType F T_Boolean d = map_value VBool (dpt1_decode d)"
| "decodeForValueType F T_Controlled1Bit d = map_value (\<lambda>(c, v). VControlled1 c v) (dpt2_decode d)"
| "decodeForValueType F T_Controlled3Bit d = map_value (\<lambda>(c, s). VControlled3 c s) (dpt3_decode d)"
| "decodeForValueType F T_Character d = map_value VChar (dpt4_decode d)"
| "decodeForValueType F T_Unsigned8 d = map_value VU8 (dpt5_decode d)"
| "decodeForValueType F T_Signed8 d = map_value VS8 (dpt6_decode d)"
| "decodeForValueType F T_Unsigned16 d = map_value VU16 (dpt7_decode d)"
| "decodeForValueType F T_Signed16 d = map_value VS16 (dpt8_decode d)"
| "decodeForValueType F T_Float2Byte d = map_value VFloat2 (dpt9_decode F d)"
| "decodeForValueType F T_TimeOfDay d = map_value VTime (dpt10_decode d)"
| "decodeForValueType F T_Date d = map_value VDate (dpt11_decode d)"
| "decodeForValueType F T_Unsigned32 d = map_value VU32 (dpt12_decode d)"
| "decodeForValueType F T_Signed32 d = map_value VS32 (dpt13_decode d)"
| "decodeForValueType F T_Float4Byte d = map_value VFloat4 (dpt14_decode d)"
| "decodeForValueType F T_AccessControl d = map_value VAccess (dpt15_decode d)"
| "decodeForValueType F T_String d = map_value VString (dpt16_decode d)"
| "decodeForValueType F T_SceneNumber d = map_value (\<lambda>(n, v). VScene n v) (dpt17_decode d)"
| "decodeForValueType F T_SceneControl d = map_value (\<lambda>(n, l). VSceneControl n l) (dpt18_decode d)"
| "decodeForValueType F T_DateTime d = map_value VDateTime (dpt19_decode d)"
| "decodeForValueType F T_HvacMode d = map_value VHvac (dpt20_decode d)"
| "decodeForValueType F T_RgbColor d = map_value (\<lambda>(r, g, b). VRgb r g b) (dpt232_decode d)"
| "decodeForValueType F T_XyYColor d = map_value (\<lambda>(x, y, br, v). VXyY x y br v) (dpt242_decode d)"
| "decodeForValueType F T_HsvColor d = map_value (\<lambda>(h, s, v). VHsv h s v) (dpt243_decode d)"
| "decodeForValueType F T_ColorTransition d = map_value (\<lambda>(r, g, b, t, res). VTransition r g b t res) (dpt244_decode d)"

definition encodeDptValue :: "float_ops \<Rightarrow> dpt_id \<Rightarrow> dpt_value \<Rightarrow> nat \<Rightarrow> bytes result" where
  "encodeDptValue F i v cap =
     (case lookupDptInfo i of
        None \<Rightarrow> Inl OperationNotSupported
      | Some t \<Rightarrow> if t \<noteq> value_type v then Inl OperationNotSupported else encodeForValueType F v cap)"

definition decodeDptValue :: "float_ops \<Rightarrow> dpt_id \<Rightarrow> bytes \<Rightarrow> dpt_value result" where
  "decodeDptValue F i d =
     (case lookupDptInfo i of None \<Rightarrow> Inl OperationNotSupported | Some t \<Rightarrow> decodeForValueType F t d)"

section \<open>Widths\<close>

fun type_octets :: "dpt_type \<Rightarrow> nat" where
  "type_octets T_Unsigned16 = 2"
| "type_octets T_Signed16 = 2"
| "type_octets T_Float2Byte = 2"
| "type_octets T_TimeOfDay = 3"
| "type_octets T_Date = 3"
| "type_octets T_Unsigned32 = 4"
| "type_octets T_Signed32 = 4"
| "type_octets T_Float4Byte = 4"
| "type_octets T_AccessControl = 4"
| "type_octets T_String = 14"
| "type_octets T_DateTime = 8"
| "type_octets T_RgbColor = 3"
| "type_octets T_XyYColor = 6"
| "type_octets T_HsvColor = 3"
| "type_octets T_ColorTransition = 6"
| "type_octets _ = 1"

lemma writeArray_Inr [simp]: "writeArray bs cap = Inr out \<longleftrightarrow> out = bs \<and> length bs \<le> cap"
  by (auto simp: writeArray_def)

lemmas write_defs = writeWord_def writeDword_def dword_bytes_def

lemma dpt9_encode_Inr:
  assumes "dpt9_encode F x cap = Inr bs"
  obtains m e where "dpt9_normalize (fo_hundredths F x) 0 = (m, e)" "fits_mantissa m"
    "bs = [getHighByte (dpt9_raw m e), getLowByte (dpt9_raw m e)]"
  using assms by (auto simp: dpt9_encode_def dpt9_encode_hundredths_def write_defs split: if_splits prod.splits)

lemma encodeForValueType_length:
  assumes "encodeForValueType F v cap = Inr bs"
  shows "length bs = type_octets (value_type v) \<and> length bs \<le> cap"
  using assms
  by (cases v)
     (auto simp: dpt_codec_defs write_defs dpt9_encode_def dpt9_encode_hundredths_def dpt10_encode_def dpt11_encode_def
        dpt15_encode_def dpt16_encode_def dpt19_encode_def dpt243_encode_def Let_def split: if_splits prod.splits)

lemma catalog_find_mem: "catalog_find es i = Some t \<Longrightarrow> (fst i, snd i, t) \<in> set es"
  by (induction es i rule: catalog_find.induct) (auto split: if_splits)

lemma lookupDptInfo_mem: "lookupDptInfo i = Some t \<Longrightarrow> \<exists>s. (fst i, s, t) \<in> set dpt_catalog"
  unfolding lookupDptInfo_def
  using catalog_find_mem [of dpt_catalog i t] catalog_find_mem [of dpt_catalog "(fst i, 0)" t]
  by (auto split: option.splits if_splits)

lemma dptPayloadOctets_main: "dptPayloadOctets (m, s) = dptPayloadOctets (m, 0)"
  by (simp add: dptPayloadOctets_def dptPayloadBits_def)

lemma catalog_octets:
  "list_all (\<lambda>(m, _, t). dptPayloadOctets (m, 0) = type_octets t) dpt_catalog"
  by (simp add: dpt_catalog_def dptPayloadOctets_def dptPayloadBits_def)

lemma lookup_octets:
  assumes "lookupDptInfo i = Some t"
  shows "dptPayloadOctets i = type_octets t"
proof -
  obtain s where "(fst i, s, t) \<in> set dpt_catalog" using lookupDptInfo_mem [OF assms] by blast
  then have "dptPayloadOctets (fst i, 0) = type_octets t" using catalog_octets by (auto simp: list_all_iff)
  then show ?thesis by (metis dptPayloadOctets_main prod.collapse)
qed

lemma type_octets_range: "1 \<le> type_octets t" "type_octets t \<le> 14"
  by (cases t; simp)+

lemma encodeDptValue_Inr:
  "encodeDptValue F i v cap = Inr bs \<longleftrightarrow> lookupDptInfo i = Some (value_type v) \<and> encodeForValueType F v cap = Inr bs"
  by (auto simp: encodeDptValue_def split: option.splits)

text \<open>
  C39. A value that is encoded for a datapoint type has the value type the catalog gives that datapoint type
  (\<open>dptValueMatches\<close>), takes exactly the octets \<open>dptPayloadOctets\<close> states for it, between 1 and 14, and never
  more than the caller's buffer holds.
\<close>
theorem dpt_encode_width:
  assumes "encodeDptValue F i v cap = Inr bs"
  shows "dptValueMatches i v \<and> length bs = dptPayloadOctets i \<and> 1 \<le> length bs \<and> length bs \<le> 14 \<and> length bs \<le> cap"
proof -
  from assms have l: "lookupDptInfo i = Some (value_type v)" and e: "encodeForValueType F v cap = Inr bs"
    by (simp_all add: encodeDptValue_Inr)
  show ?thesis
    using l encodeForValueType_length [OF e] lookup_octets [OF l] type_octets_range [of "value_type v"]
    by (simp add: dptValueMatches_def)
qed

theorem dpt_encode_width_witness:
  "\<exists>F. encodeDptValue F (232, 600) (VRgb 1 2 3) 16 = Inr [1, 2, 3] \<and> dptPayloadOctets (232, 600) = 3"
proof -
  fix F :: float_ops
  have e: "encodeDptValue F (232, 600) (VRgb 1 2 3) 16 = Inr [1, 2, 3]"
    by (simp add: encodeDptValue_def lookupDptInfo_def dpt_catalog_def dpt232_encode_def)
  then show ?thesis using dpt_encode_width [OF e] by auto
qed

section \<open>Round trips\<close>

lemma and_mask_id:
  "(p :: u8) \<le> 0x3F \<Longrightarrow> p AND 0x3F = p" "(p :: u8) \<le> 0x7F \<Longrightarrow> p AND 0x7F = p"
  using less_mask_eq [of p 6] less_mask_eq [of p 7]
  by (simp_all add: mask_eq_exp_minus_1 word_le_nat_alt word_less_nat_alt)

lemma and_bit_iff:
  fixes a :: u8
  shows "a AND 0x80 = 0 \<longleftrightarrow> \<not> bit a 7" "a AND 0x40 = 0 \<longleftrightarrow> \<not> bit a 6" "a AND 0x20 = 0 \<longleftrightarrow> \<not> bit a 5"
    "a AND 0x10 = 0 \<longleftrightarrow> \<not> bit a 4" "a AND 0x08 = 0 \<longleftrightarrow> \<not> bit a 3" "a AND 0x04 = 0 \<longleftrightarrow> \<not> bit a 2"
    "a AND 0x02 = 0 \<longleftrightarrow> \<not> bit a 1" "a AND 0x01 = 0 \<longleftrightarrow> \<not> bit a 0"
  using and_exp_eq_0_iff_not_bit [of a 7] and_exp_eq_0_iff_not_bit [of a 6] and_exp_eq_0_iff_not_bit [of a 5]
    and_exp_eq_0_iff_not_bit [of a 4] and_exp_eq_0_iff_not_bit [of a 3] and_exp_eq_0_iff_not_bit [of a 2]
    and_exp_eq_0_iff_not_bit [of a 1] and_exp_eq_0_iff_not_bit [of a 0]
  by simp_all

lemma bit_flag [simp]: "bit (flag b m) n \<longleftrightarrow> b \<and> bit m n"
  by (simp add: flag_def)

lemma makeDword_bytes:
  "makeDword (ucast (drop_bit 24 w)) (ucast (drop_bit 16 w)) (ucast (drop_bit 8 w)) (ucast w) = w"
proof (rule bit_word_eqI)
  fix n assume "n < LENGTH(32)"
  then consider "n < 8" | "8 \<le> n" "n < 16" | "16 \<le> n" "n < 24" | "24 \<le> n" "n < 32" by fastforce
  then show "bit (makeDword (ucast (drop_bit 24 w)) (ucast (drop_bit 16 w)) (ucast (drop_bit 8 w)) (ucast w)) n = bit w n"
    by cases (auto simp: makeDword_def bit_simps)
qed

lemma nth_of_list:
  "(x # xs) ! 0 = x" "(x # y # xs) ! 1 = y" "(x # y # z # xs) ! 2 = z" "(x # y # z # u # xs) ! 3 = u"
  "(x # y # z # u # v # xs) ! 4 = v" "(x # y # z # u # v # w # xs) ! 5 = w"
  "(x # y # z # u # v # w # r # xs) ! 6 = r"
  by simp_all

lemma dpt10_roundtrip: "dpt10_encode t cap = Inr bs \<Longrightarrow> dpt10_decode bs = Inr t"
proof -
  assume "dpt10_encode t cap = Inr bs"
  then have ok: "tod_ok t" and bs: "bs = [push_bit 5 (tod_dayOfWeek t AND 0x07) OR (tod_hour t AND 0x1F),
      push_bit 2 (tod_minute t AND 0x3F) OR (drop_bit 4 (tod_second t) AND 0x03), push_bit 4 (tod_second t AND 0x3F)]"
    by (auto simp: dpt10_encode_def split: if_splits)
  have a: "drop_bit 5 (push_bit 5 (x AND 0x07) OR (y AND 0x1F)) AND 0x07 = x AND 0x07" for x y :: u8
    by (rule word8_eqI) (simp_all add: bit_simps)
  have b: "(push_bit 5 (x AND 0x07) OR (y AND 0x1F)) AND 0x1F = y AND 0x1F" for x y :: u8
    by (rule word8_eqI) (simp_all add: bit_simps)
  have c: "drop_bit 2 (push_bit 2 (x AND 0x3F) OR (drop_bit 4 y AND 0x03)) AND 0x3F = x AND 0x3F" for x y :: u8
    by (rule word8_eqI) (simp_all add: bit_simps)
  have d: "push_bit 4 ((push_bit 2 (x AND 0x3F) OR (drop_bit 4 y AND 0x03)) AND 0x03)
        OR (drop_bit 4 (push_bit 4 (y AND 0x3F)) AND 0x3F) = y AND 0x3F" for x y :: u8
    by (rule word8_eqI) (simp_all add: bit_simps)
  have m: "tod_dayOfWeek t AND 0x07 = tod_dayOfWeek t" "tod_hour t AND 0x1F = tod_hour t"
    "tod_minute t AND 0x3F = tod_minute t" "tod_second t AND 0x3F = tod_second t"
    using ok by (auto simp: tod_ok_def intro!: and_07_id and_1F_id and_mask_id elim: order_trans)
  show ?thesis
    unfolding bs dpt10_decode_def Let_def by (simp only: nth_of_list a b c d) (use ok in \<open>simp add: m tod_ok_def\<close>)
qed

lemma dpt11_roundtrip: "dpt11_encode t cap = Inr bs \<Longrightarrow> dpt11_decode bs = Inr t"
proof -
  assume e: "dpt11_encode t cap = Inr bs"
  then have ok: "date_ok t" by (auto simp: dpt11_encode_def split: if_splits)
  have m: "date_day t AND 0x1F = date_day t" "date_month t AND 0x0F = date_month t" "date_year t AND 0x7F = date_year t"
    using ok by (auto simp: date_ok_def intro!: and_0F_id and_1F_id and_mask_id elim: order_trans)
  show ?thesis using e ok by (auto simp: dpt11_encode_def dpt11_decode_def m date_ok_def Let_def split: if_splits)
qed

lemma dpt16_roundtrip: "dpt16_encode s cap = Inr bs \<Longrightarrow> 0 \<notin> set s \<Longrightarrow> dpt16_decode bs = Inr s"
proof -
  assume "dpt16_encode s cap = Inr bs" and nz: "0 \<notin> set s"
  then have "bs = s @ replicate (14 - length s) 0" "length s \<le> 13"
    by (auto simp: dpt16_encode_def split: if_splits)
  moreover have "takeWhile (\<lambda>c. c \<noteq> 0) (s @ replicate n 0) = s" for n
    using nz by (induction s) (auto simp: takeWhile_replicate)
  ultimately show ?thesis by (simp add: dpt16_decode_def)
qed

lemma dpt15_roundtrip: "dpt15_encode a cap = Inr bs \<Longrightarrow> dpt15_decode bs = Inr a"
proof -
  assume e: "dpt15_encode a cap = Inr bs"
  define c where "c = flag (acc_encrypted a) 0x01 OR flag (acc_readDirection a) 0x02 OR flag (acc_permission a) 0x04
                   OR flag (acc_error a) 0x08"
  have d: "acc_digit0 a \<le> 9" "acc_digit1 a \<le> 9" "acc_digit2 a \<le> 9" "acc_digit3 a \<le> 9"
    and bs: "bs = [push_bit 4 (acc_digit3 a) OR c, push_bit 4 (acc_digit2 a) OR c,
                          push_bit 4 (acc_digit1 a) OR c, push_bit 4 (acc_digit0 a) OR c]"
    using e by (auto simp: dpt15_encode_def c_def Let_def not_less split: if_splits)
  have m: "acc_digit0 a AND 0x0F = acc_digit0 a" "acc_digit1 a AND 0x0F = acc_digit1 a"
    "acc_digit2 a AND 0x0F = acc_digit2 a" "acc_digit3 a AND 0x0F = acc_digit3 a"
    using d by (auto intro!: and_0F_id elim: order_trans)
  have h: "drop_bit 4 (push_bit 4 x OR c) AND 0x0F = x AND 0x0F" for x
    by (rule word8_eqI) (simp_all add: bit_simps c_def)
  have l: "(push_bit 4 x OR c) AND 0x0F = c" for x
    by (rule word8_eqI) (simp_all add: bit_simps c_def)
  have f: "c AND 0x08 \<noteq> 0 \<longleftrightarrow> acc_error a" "c AND 0x04 \<noteq> 0 \<longleftrightarrow> acc_permission a"
    "c AND 0x02 \<noteq> 0 \<longleftrightarrow> acc_readDirection a" "c AND 0x01 \<noteq> 0 \<longleftrightarrow> acc_encrypted a"
    by (simp_all only: and_bit_iff) (simp_all add: c_def bit_simps)
  show ?thesis
    unfolding bs dpt15_decode_def Let_def by (simp only: nth_of_list h l f) (use d in \<open>simp add: m not_less\<close>)
qed

lemma year_octet: "1900 \<le> (y :: u16) \<Longrightarrow> y \<le> 2155 \<Longrightarrow> 1900 + ucast (ucast (y - 1900) :: u8) = y"
proof -
  assume a: "1900 \<le> y" "y \<le> 2155"
  have u: "unat (y - 1900) = unat y - 1900" using a by (simp add: unat_sub)
  have "unat (y - 1900) < 256" using a by (simp add: u word_le_nat_alt)
  then have "y - 1900 \<le> 0xFF" by (simp add: word_le_nat_alt)
  then have "(y - 1900) AND mask 8 = y - 1900"
    by (intro less_mask_eq) (simp add: word_less_nat_alt word_le_nat_alt)
  moreover have "ucast (ucast (y - 1900) :: u8) = (y - 1900) AND mask 8"
    by (rule word16_eqI) (simp_all add: bit_simps)
  ultimately show ?thesis by simp
qed

lemma dpt19_roundtrip: "dpt19_encode t cap = Inr bs \<Longrightarrow> dpt19_decode bs = Inr t"
proof -
  assume e: "dpt19_encode t cap = Inr bs"
  define c where "c = flag (dt_fault t) 0x80 OR flag (dt_workingDay t) 0x40 OR flag (dt_noWD t) 0x20
                       OR flag (dt_noYear t) 0x10 OR flag (dt_noDate t) 0x08 OR flag (dt_noDayOfWeek t) 0x04
                       OR flag (dt_noTime t) 0x02 OR flag (dt_suti t) 0x01"
  have d: "1900 \<le> dt_year t" "dt_year t \<le> 2155" "dt_month t \<noteq> 0" "dt_month t \<le> 12" "dt_day t \<noteq> 0" "dt_day t \<le> 31"
      "dt_dayOfWeek t \<le> 7" "dt_hour t \<le> 23" "dt_minute t \<le> 59" "dt_second t \<le> 59"
    and bs: "bs = [ucast (dt_year t - 1900), dt_month t AND 0x0F, dt_day t AND 0x1F,
                       push_bit 5 (dt_dayOfWeek t AND 0x07) OR (drop_bit 2 (dt_hour t) AND 0x07),
                       push_bit 6 (dt_hour t AND 0x03) OR (dt_minute t AND 0x3F),
                       dt_second t AND 0x3F, c, 0]"
    using e by (auto simp: dpt19_encode_def c_def not_less split: if_splits)
  have m: "dt_month t AND 0x0F = dt_month t" "dt_day t AND 0x1F = dt_day t" "dt_dayOfWeek t AND 0x07 = dt_dayOfWeek t"
    "dt_hour t AND 0x1F = dt_hour t" "dt_minute t AND 0x3F = dt_minute t" "dt_second t AND 0x3F = dt_second t"
    using d by (auto intro!: and_0F_id and_1F_id and_07_id and_mask_id elim: order_trans)
  have a: "drop_bit 5 (push_bit 5 (x AND 0x07) OR (drop_bit 2 y AND 0x07)) AND 0x07 = x AND 0x07" for x y :: u8
    by (rule word8_eqI) (simp_all add: bit_simps)
  have b: "push_bit 2 ((push_bit 5 (x AND 0x07) OR (drop_bit 2 y AND 0x07)) AND 0x07)
      OR (drop_bit 6 (push_bit 6 (y AND 0x03) OR (z AND 0x3F)) AND 0x03) = y AND 0x1F" for x y z :: u8
    by (rule word8_eqI) (simp_all add: bit_simps)
  have k: "(push_bit 6 (y AND 0x03) OR (z AND 0x3F)) AND 0x3F = z AND 0x3F" for y z :: u8
    by (rule word8_eqI) (simp_all add: bit_simps)
  have i: "(x AND y) AND y = x AND y" for x y :: u8
    by (simp add: and.assoc)
  have f: "c AND 0x80 \<noteq> 0 \<longleftrightarrow> dt_fault t" "c AND 0x40 \<noteq> 0 \<longleftrightarrow> dt_workingDay t" "c AND 0x20 \<noteq> 0 \<longleftrightarrow> dt_noWD t"
    "c AND 0x10 \<noteq> 0 \<longleftrightarrow> dt_noYear t" "c AND 0x08 \<noteq> 0 \<longleftrightarrow> dt_noDate t" "c AND 0x04 \<noteq> 0 \<longleftrightarrow> dt_noDayOfWeek t"
    "c AND 0x02 \<noteq> 0 \<longleftrightarrow> dt_noTime t" "c AND 0x01 \<noteq> 0 \<longleftrightarrow> dt_suti t"
    by (simp_all only: and_bit_iff) (simp_all add: c_def bit_simps)
  show ?thesis
    unfolding bs dpt19_decode_def Let_def
    by (simp only: nth_of_list a b k i f year_octet [OF d(1,2)]) (use d in \<open>simp add: m not_less\<close>)
qed

lemma dpt20_roundtrip: "dpt20_decode [hvac_code m] = Inr m"
  by (cases m) (simp_all add: dpt20_decode_def)

text \<open>The values whose wire format loses nothing: all but the two-octet float, the HSV colour and a string
  with a NUL in it.\<close>

fun exact_value :: "dpt_value \<Rightarrow> bool" where
  "exact_value (VFloat2 _) \<longleftrightarrow> False"
| "exact_value (VHsv _ _ _) \<longleftrightarrow> False"
| "exact_value (VString s) \<longleftrightarrow> 0 \<notin> set s"
| "exact_value _ \<longleftrightarrow> True"

lemma scene_bits:
  "((n AND 0x3F) OR flag b 0x80) AND 0x3F = n AND 0x3F" "((n AND 0x3F) OR flag b 0x80) AND 0x80 = 0 \<longleftrightarrow> \<not> b"
  "(flag b 0x08 OR (n AND 0x07)) AND 0x07 = n AND 0x07" "(flag b 0x08 OR (n AND 0x07)) AND 0x08 = 0 \<longleftrightarrow> \<not> b"
  "(flag b 0x02 OR flag c 0x01) AND 0x02 = 0 \<longleftrightarrow> \<not> b" "(flag b 0x02 OR flag c 0x01) AND 0x01 = 0 \<longleftrightarrow> \<not> c"
  "flag b 0x01 AND 0x01 = 0 \<longleftrightarrow> \<not> b"
  by ((rule word8_eqI; simp add: bit_simps), (simp only: and_bit_iff; simp add: bit_simps),
      (rule word8_eqI; simp add: bit_simps), ((simp only: and_bit_iff; simp add: bit_simps)+))

lemma decode_encode_exact:
  assumes "encodeForValueType F v cap = Inr bs" "exact_value v"
  shows "decodeForValueType F (value_type v) bs = Inr v"
  using assms
proof (cases v)
  case (VControlled3 c n)
  then have "n \<le> 7" "bs = [flag c 0x08 OR (n AND 0x07)]" using assms by (auto simp: dpt3_encode_def dpt17_encode_def dpt18_encode_def split: if_splits)
  then show ?thesis
    unfolding VControlled3 value_type.simps decodeForValueType.simps dpt_codec_defs
    by (simp only: nth_of_list scene_bits) (simp add: and_07_id)
next
  case (VScene n b)
  then have "n \<le> 0x3F" "bs = [(n AND 0x3F) OR flag (\<not> b) 0x80]" using assms by (auto simp: dpt3_encode_def dpt17_encode_def dpt18_encode_def split: if_splits)
  then show ?thesis
    unfolding VScene value_type.simps decodeForValueType.simps dpt_codec_defs
    by (simp only: nth_of_list scene_bits) (simp add: and_mask_id)
next
  case (VSceneControl n b)
  then have "n \<le> 0x3F" "bs = [(n AND 0x3F) OR flag b 0x80]" using assms by (auto simp: dpt3_encode_def dpt17_encode_def dpt18_encode_def split: if_splits)
  then show ?thesis
    unfolding VSceneControl value_type.simps decodeForValueType.simps dpt_codec_defs
    by (simp only: nth_of_list scene_bits) (simp add: and_mask_id)
next
  case (VXyY x y br b)
  then show ?thesis using assms by (simp add: dpt_codec_defs scene_bits)
qed (auto simp: dpt_codec_defs write_defs makeDword_bytes scene_bits dpt10_roundtrip dpt11_roundtrip
       dpt15_roundtrip dpt16_roundtrip dpt19_roundtrip dpt20_roundtrip split: if_splits)

text \<open>
  C25. Encode and decode of a datapoint value are inverse: for every datapoint type of the catalog and every
  value that is accepted for it, what the receiver decodes from the octets is the value that was sent. It is
  stated for all value types but the two-octet float and HSV colours, which are rounded, and strings with a
  NUL, which end there.
\<close>
theorem dpt_roundtrip:
  assumes "encodeDptValue F i v cap = Inr bs" and "exact_value v"
  shows "decodeDptValue F i bs = Inr v"
  using assms decode_encode_exact [of F v cap bs] by (simp add: encodeDptValue_Inr decodeDptValue_def)

theorem dpt_roundtrip_witness:
  "\<exists>F bs t. t = VTime \<lparr>tod_dayOfWeek = 7, tod_hour = 23, tod_minute = 59, tod_second = 58\<rparr>
     \<and> encodeDptValue F (10, 1) t 16 = Inr bs \<and> decodeDptValue F (10, 1) bs = Inr t"
proof -
  fix F :: float_ops
  define t where "t = VTime \<lparr>tod_dayOfWeek = 7, tod_hour = 23, tod_minute = 59, tod_second = 58\<rparr>"
  have e: "encodeDptValue F (10, 1) t 16 = Inr [0xF7, 0xEF, 0xA0]"
    by (simp add: t_def encodeDptValue_def lookupDptInfo_def dpt_catalog_def dpt10_encode_def tod_ok_def)
  then show ?thesis using dpt_roundtrip [OF e] t_def by auto
qed

section \<open>The rounded types\<close>

lemma half_round_bounds: "\<bar>2 * half_round m - m\<bar> \<le> 1"
  by (simp add: half_round_def) linarith

lemma half_round_range: "- (2 * b) \<le> m \<Longrightarrow> m \<le> 2 * a \<Longrightarrow> 0 \<le> a \<Longrightarrow> 0 \<le> b \<Longrightarrow> - b \<le> half_round m \<and> half_round m \<le> a"
  by (auto simp: half_round_def)

lemma dpt9_normalize_error:
  "dpt9_normalize m e = (m', e') \<Longrightarrow> \<bar>m * 2 ^ e - h\<bar> < 2 ^ e \<Longrightarrow> \<bar>m' * 2 ^ e' - h\<bar> < 2 ^ e'"
proof (induction m e rule: dpt9_normalize.induct)
  case (1 m e)
  show ?case
  proof (cases "\<not> fits_mantissa m \<and> e < 15")
    case True
    have "\<bar>2 * half_round m - m\<bar> * 2 ^ e \<le> 1 * 2 ^ e" using half_round_bounds by (intro mult_right_mono) auto
    then have "\<bar>(2 * half_round m - m) * 2 ^ e\<bar> \<le> 2 ^ e" by (simp add: abs_mult)
    moreover have "half_round m * 2 ^ (e + 1) - h = (2 * half_round m - m) * 2 ^ e + (m * 2 ^ e - h)"
      by (simp add: algebra_simps)
    ultimately have "\<bar>half_round m * 2 ^ (e + 1) - h\<bar> < 2 ^ (e + 1)" using "1.prems"(2) by simp
    then show ?thesis using 1 True by (simp add: dpt9_normalize.simps [of m e])
  next
    case False
    then show ?thesis using "1.prems" by (auto simp: dpt9_normalize.simps [of m e])
  qed
qed

lemma dpt9_normalize_fits:
  "dpt9_normalize m e = (m', e') \<Longrightarrow> e \<le> 15 \<Longrightarrow> - (2048 * 2 ^ (15 - e)) \<le> m \<Longrightarrow> m \<le> 2047 * 2 ^ (15 - e)
   \<Longrightarrow> fits_mantissa m' \<and> e' \<le> 15"
proof (induction m e rule: dpt9_normalize.induct)
  case (1 m e)
  show ?case
  proof (cases "\<not> fits_mantissa m \<and> e < 15")
    case True
    then have "15 - e = Suc (15 - (e + 1))" by (metis Suc_diff_Suc Suc_eq_plus1)
    then have "- (2048 * 2 ^ (15 - (e + 1))) \<le> half_round m \<and> half_round m \<le> 2047 * 2 ^ (15 - (e + 1))"
      using "1.prems" by (intro half_round_range) simp_all
    then show ?thesis using 1 True by (simp add: dpt9_normalize.simps [of m e])
  next
    case False
    then show ?thesis using "1.prems" by (auto simp: dpt9_normalize.simps [of m e] fits_mantissa_def)
  qed
qed

lemma raw_fields:
  fixes k w :: u16 and s :: bool
  defines "raw \<equiv> (if s then 0x8000 else 0) OR push_bit 11 (k AND 0x0F) OR (w AND 0x07FF)"
  shows "raw AND 0x07FF = w AND 0x07FF" "drop_bit 11 raw AND 0x0F = k AND 0x0F" "raw AND 0x8000 \<noteq> 0 \<longleftrightarrow> s"
proof -
  show "raw AND 0x07FF = w AND 0x07FF" by (rule word16_eqI) (simp_all add: raw_def bit_simps)
  show "drop_bit 11 raw AND 0x0F = k AND 0x0F" by (rule word16_eqI) (simp_all add: raw_def bit_simps)
  have "raw AND 0x8000 \<noteq> 0 \<longleftrightarrow> bit raw 15" using and_exp_eq_0_iff_not_bit [of raw 15] by simp
  also have "\<dots> \<longleftrightarrow> s" by (simp add: raw_def bit_simps)
  finally show "raw AND 0x8000 \<noteq> 0 \<longleftrightarrow> s" .
qed

lemma uint_low11: "uint ((of_int m :: u16) AND 0x07FF) = m mod 2048"
proof -
  have "(of_int m :: u16) AND 0x07FF = take_bit 11 (of_int m)"
    by (simp add: take_bit_eq_mask mask_eq_exp_minus_1)
  then have "uint ((of_int m :: u16) AND 0x07FF) = take_bit 11 (uint (of_int m :: u16))"
    by (simp only: unsigned_take_bit_eq)
  also have "\<dots> = m mod 2048" by (simp add: uint_word_of_int take_bit_eq_mod mod_mod_cancel)
  finally show ?thesis .
qed

lemma unat_low4: "e \<le> 15 \<Longrightarrow> unat ((of_nat e :: u16) AND 0x0F) = e"
  using less_mask_eq [of "of_nat e :: u16" 4]
  by (simp add: mask_eq_exp_minus_1 word_less_nat_alt unat_of_nat)

lemma dpt9_parts_raw:
  assumes "fits_mantissa m" "e \<le> 15"
  shows "dpt9_parts (getHighByte (dpt9_raw m e)) (getLowByte (dpt9_raw m e)) = (m, e)"
proof -
  have "m < 0 \<Longrightarrow> m mod 2048 = m + 2048" "\<not> m < 0 \<Longrightarrow> m mod 2048 = m"
    using assms(1) by (auto simp: fits_mantissa_def intro!: mod_pos_pos_trivial)
      (smt (verit) mod_add_self2 mod_pos_pos_trivial)+
  then show ?thesis
    unfolding dpt9_parts_def word_be_bytes Let_def dpt9_raw_def raw_fields uint_low11 unat_low4 [OF assms(2)] by simp
qed

text \<open>
  C37. The two-octet float keeps its precision: for every value of the range of the type, in hundredths
  between -671088.64 and 670760.96, the encoder finds a mantissa and an exponent, the receiver reads back
  exactly these two, and the value they stand for differs from the one that was sent by less than one unit
  of the chosen exponent.
\<close>
theorem dpt9_precision:
  assumes "- 67108864 \<le> h" "h \<le> 67076096" "2 \<le> cap"
  shows "\<exists>m e a b. dpt9_encode_hundredths h cap = Inr [a, b] \<and> dpt9_parts a b = (m, e) \<and> e \<le> 15
           \<and> \<bar>m * 2 ^ e - h\<bar> < 2 ^ e"
proof -
  obtain m e where n: "dpt9_normalize h 0 = (m, e)" by fastforce
  have f: "fits_mantissa m" "e \<le> 15" using dpt9_normalize_fits [OF n] assms by simp_all
  have "\<bar>m * 2 ^ e - h\<bar> < 2 ^ e" using dpt9_normalize_error [OF n, of h] by simp
  then show ?thesis using assms(3) f dpt9_parts_raw [OF f]
    by (auto simp: dpt9_encode_hundredths_def n writeWord_def writeArray_def)
qed

theorem dpt9_precision_witness:
  "\<exists>m e a b. dpt9_encode_hundredths 2150 16 = Inr [a, b] \<and> dpt9_parts a b = (m, e) \<and> e \<le> 15
     \<and> \<bar>m * 2 ^ e - 2150\<bar> < 2 ^ e"
  by (rule dpt9_precision) simp_all

lemma scale_down:
  fixes n k :: nat
  assumes "n \<le> k" "0 < k"
  shows "n * 255 div k \<le> 255" "n * 255 div k * k div 255 \<le> n" "n < n * 255 div k * k div 255 + k div 255 + 2"
proof -
  define q where "q = n * 255 div k"
  have l: "q * k \<le> n * 255" unfolding q_def by simp
  have u: "n * 255 < q * k + k" unfolding q_def using assms(2)
    by (metis add.commute div_mult_mod_eq mod_less_divisor nat_add_left_cancel_less mult.commute)
  have "q * k \<le> 255 * k" using l assms(1) by (metis le_trans mult.commute mult_le_mono1)
  then show "n * 255 div k \<le> 255" using assms(2) unfolding q_def by simp
  show "n * 255 div k * k div 255 \<le> n" using l unfolding q_def by linarith
  show "n < n * 255 div k * k div 255 + k div 255 + 2" using u unfolding q_def [symmetric] by linarith
qed

text \<open>
  The HSV colour drifts by a bounded amount, always down: after encode and decode the hue is at most
  2 degrees, saturation and brightness are at most 1 percent below what was sent, and never above.
\<close>
theorem dpt243_bound:
  assumes "dpt243_encode h s v cap = Inr bs"
  shows "\<exists>h' s' v'. dpt243_decode bs = Inr (h', s', v') \<and> h' \<le> h \<and> unat h \<le> unat h' + 2
           \<and> s' \<le> s \<and> unat s \<le> unat s' + 1 \<and> v' \<le> v \<and> unat v \<le> unat v' + 1"
proof -
  have r: "unat h \<le> 360" "unat s \<le> 100" "unat v \<le> 100"
    and bs: "bs = [of_nat (unat h * 255 div 360), of_nat (unat s * 255 div 100), of_nat (unat v * 255 div 100)]"
    using assms by (auto simp: dpt243_encode_def not_less word_le_nat_alt split: if_splits)
  note d = scale_down [OF r(1)] scale_down [OF r(2)] scale_down [OF r(3)]
  show ?thesis using d r
    by (simp add: bs dpt243_decode_def word_le_nat_alt unat_of_nat)
qed

theorem dpt243_bound_witness:
  "\<exists>bs. dpt243_encode 360 100 50 16 = Inr bs \<and>
     (\<exists>h' s' v'. dpt243_decode bs = Inr (h', s', v') \<and> h' \<le> 360 \<and> unat (360 :: u16) \<le> unat h' + 2
        \<and> s' \<le> 100 \<and> unat (100 :: u8) \<le> unat s' + 1 \<and> v' \<le> 50 \<and> unat (50 :: u8) \<le> unat v' + 1)"
proof -
  have "dpt243_encode 360 100 50 16 = Inr [255, 255, 127]" by (simp add: dpt243_encode_def)
  then show ?thesis using dpt243_bound by blast
qed

end
