(* ===== verification/Group_Object.thy ===== *)
theory Group_Object
  imports Dpt
begin

text \<open>
  Group objects (\<open>include/knx/application/group_object.hpp\<close>, \<open>src/application/group_object.cpp\<close>), the table
  that holds them (\<open>src/objects/group_object_table_object.cpp\<close>) and the limiter of outgoing telegrams
  (\<open>include/knx/application/telegram_rate_limiter.hpp\<close>). Shown: the descriptor of an object round-trips and
  what is read from the table can be written back; a value is stored exactly when the flags permit it and it
  fits; a deferred value becomes sendable; the limiter's look-ahead agrees with what it then does, it keeps
  its gap and lets at most two windows' worth of telegrams through in any window.
\<close>

section \<open>Flags, policy and descriptor\<close>

record go_flags =
  gf_communication :: bool
  gf_read :: bool
  gf_write :: bool
  gf_transmit :: bool
  gf_update :: bool
  gf_readOnInit :: bool
  gf_priority :: priority

text \<open>The threshold is the bit pattern of a \<open>double\<close>.\<close>

record transmit_policy =
  tp_onChangeEnabled :: bool
  tp_changeThreshold :: u64
  tp_cyclicIntervalMs :: u32
  tp_minIntervalMs :: u32

definition transmit_policy_default :: transmit_policy where
  "transmit_policy_default =
     \<lparr>tp_onChangeEnabled = False, tp_changeThreshold = 0, tp_cyclicIntervalMs = 0, tp_minIntervalMs = 0\<rparr>"

datatype publish_decision = Send | Defer | Suppress

definition valueFieldTypeForOctets :: "nat \<Rightarrow> u8" where
  "valueFieldTypeForOctets octets =
     (if octets = 1 then 7 else if octets = 2 then 8 else if octets = 3 then 9 else if octets = 4 then 10
      else if octets = 5 then 15 else if octets = 6 then 11 else if octets = 7 then 16 else if octets = 8 then 12
      else if octets = 9 then 17 else if octets = 10 then 13 else if octets = 11 then 18 else if octets = 12 then 19
      else if octets = 13 then 20 else if octets = 14 then 14 else if octets = 15 then 21 else if octets = 16 then 22
      else if 17 \<le> octets \<and> octets \<le> 248 then of_nat (octets + 6)
      else if octets = 252 then 255 else 0xFF)"

definition valueFieldTypeForBits :: "nat \<Rightarrow> u8" where
  "valueFieldTypeForBits bits = (if 1 \<le> bits \<and> bits \<le> 7 then of_nat (bits - 1) else 0xFF)"

definition flag16 :: "bool \<Rightarrow> u16 \<Rightarrow> u16" where "flag16 b m = (if b then m else 0)"

definition encodeGroupObjectDescriptor :: "go_flags \<Rightarrow> u8 \<Rightarrow> u16" where
  "encodeGroupObjectDescriptor f vft =
     flag16 (gf_update f) 0x8000 OR flag16 (gf_transmit f) 0x4000 OR flag16 (gf_readOnInit f) 0x2000
     OR flag16 (gf_write f) 0x1000 OR flag16 (gf_read f) 0x0800 OR flag16 (gf_communication f) 0x0400
     OR push_bit 8 (ucast (priority_code (gf_priority f) AND 0x03)) OR ucast vft"

definition decodeGroupObjectDescriptor :: "u16 \<Rightarrow> go_flags \<times> u8" where
  "decodeGroupObjectDescriptor d =
     (\<lparr>gf_communication = d AND 0x0400 \<noteq> 0, gf_read = d AND 0x0800 \<noteq> 0, gf_write = d AND 0x1000 \<noteq> 0,
       gf_transmit = d AND 0x4000 \<noteq> 0, gf_update = d AND 0x8000 \<noteq> 0, gf_readOnInit = d AND 0x2000 \<noteq> 0,
       gf_priority = priority_of_code (ucast (drop_bit 8 d AND 0x03))\<rparr>, ucast (d AND 0x00FF))"

section \<open>The group object\<close>

definition MAX_GROUP_OBJECT_PAYLOAD_BYTES :: nat where "MAX_GROUP_OBJECT_PAYLOAD_BYTES = 16"

text \<open>\<open>go_callback\<close> tells whether a callback is installed; its calls are returned as a list.\<close>

record group_object =
  go_address :: group_address
  go_dpt :: dpt_id
  go_flags :: go_flags
  go_policy :: transmit_policy
  go_rawValue :: bytes
  go_valid :: bool
  go_callback :: bool
  go_lastSentRaw :: bytes
  go_lastSentValid :: bool
  go_lastSentMs :: u32
  go_pendingSend :: bool

type_synonym go_call = "group_address \<times> bytes"

definition go_new :: "group_address \<Rightarrow> dpt_id \<Rightarrow> go_flags \<Rightarrow> transmit_policy \<Rightarrow> group_object" where
  "go_new a dpt f p =
     \<lparr>go_address = a, go_dpt = dpt, go_flags = f, go_policy = p, go_rawValue = [], go_valid = False,
      go_callback = False, go_lastSentRaw = [], go_lastSentValid = False, go_lastSentMs = 0, go_pendingSend = False\<rparr>"

definition go_communicationEnabled :: "group_object \<Rightarrow> bool" where
  "go_communicationEnabled g \<longleftrightarrow> gf_communication (go_flags g)"

definition go_readable :: "group_object \<Rightarrow> bool" where
  "go_readable g \<longleftrightarrow> gf_communication (go_flags g) \<and> gf_read (go_flags g)"

definition go_writable :: "group_object \<Rightarrow> bool" where
  "go_writable g \<longleftrightarrow> gf_communication (go_flags g) \<and> gf_write (go_flags g)"

definition go_transmit :: "group_object \<Rightarrow> bool" where
  "go_transmit g \<longleftrightarrow> gf_communication (go_flags g) \<and> gf_transmit (go_flags g)"

definition go_updatable :: "group_object \<Rightarrow> bool" where
  "go_updatable g \<longleftrightarrow> gf_communication (go_flags g) \<and> gf_update (go_flags g)"

definition go_readOnInit :: "group_object \<Rightarrow> bool" where
  "go_readOnInit g \<longleftrightarrow> gf_communication (go_flags g) \<and> gf_readOnInit (go_flags g)"

definition go_setFlags :: "go_flags \<Rightarrow> group_object \<Rightarrow> group_object" where
  "go_setFlags f g = g\<lparr>go_flags := f\<rparr>"

definition go_setTransmitPolicy :: "transmit_policy \<Rightarrow> group_object \<Rightarrow> group_object" where
  "go_setTransmitPolicy p g = g\<lparr>go_policy := p\<rparr>"

definition go_setPendingSend :: "bool \<Rightarrow> group_object \<Rightarrow> group_object" where
  "go_setPendingSend b g = g\<lparr>go_pendingSend := b\<rparr>"

definition go_setCallback :: "bool \<Rightarrow> group_object \<Rightarrow> group_object" where
  "go_setCallback b g = g\<lparr>go_callback := b\<rparr>"

definition go_asBool :: "group_object \<Rightarrow> bool" where
  "go_asBool g \<longleftrightarrow> go_valid g \<and> go_rawValue g \<noteq> [] \<and> go_rawValue g ! 0 AND 0x01 \<noteq> 0"

definition go_asUint8 :: "group_object \<Rightarrow> u8" where
  "go_asUint8 g = (if \<not> go_valid g \<or> go_rawValue g = [] then 0 else go_rawValue g ! 0)"

definition go_asFloat :: "float_ops \<Rightarrow> group_object \<Rightarrow> u32" where
  "go_asFloat F g =
     (if \<not> go_valid g \<or> length (go_rawValue g) < 2 then 0
      else case dpt9_decode F (go_rawValue g) of Inl _ \<Rightarrow> 0 | Inr v \<Rightarrow> v)"

definition storeGroupObjectValue :: "bytes \<Rightarrow> group_object \<Rightarrow> group_object \<times> unit result \<times> go_call list" where
  "storeGroupObjectValue data g =
     (case fv_assign MAX_GROUP_OBJECT_PAYLOAD_BYTES (go_rawValue g) data of
        (_, False) \<Rightarrow> (g, Inl BufferTooSmall, [])
      | (v, True) \<Rightarrow> (g\<lparr>go_rawValue := v, go_valid := True\<rparr>, Inr (),
                      if go_callback g then [(go_address g, data)] else []))"

definition encodeGroupObjectValue :: "float_ops \<Rightarrow> dpt_id \<Rightarrow> dpt_value \<Rightarrow> bytes result" where
  "encodeGroupObjectValue F i v =
     (case encodeDptValue F i v MAX_GROUP_OBJECT_PAYLOAD_BYTES of
        Inl e \<Rightarrow> Inl e
      | Inr bs \<Rightarrow> (case fv_assign MAX_GROUP_OBJECT_PAYLOAD_BYTES [] bs of
                     (_, False) \<Rightarrow> Inl BufferTooSmall | (d, True) \<Rightarrow> Inr d))"

definition go_setValue :: "float_ops \<Rightarrow> dpt_value \<Rightarrow> group_object \<Rightarrow> group_object \<times> unit result \<times> go_call list" where
  "go_setValue F v g =
     (case encodeGroupObjectValue F (go_dpt g) v of
        Inl e \<Rightarrow> (g, Inl e, [])
      | Inr d \<Rightarrow> storeGroupObjectValue d g)"

definition go_value :: "float_ops \<Rightarrow> group_object \<Rightarrow> dpt_value result" where
  "go_value F g = (if \<not> go_valid g then Inl NotInitialized else decodeDptValue F (go_dpt g) (go_rawValue g))"

definition go_valueFieldType :: "group_object \<Rightarrow> u8" where
  "go_valueFieldType g =
     (let bits = dptPayloadBits (go_dpt g) in
      if bits = 0
      then (let octets = length (go_rawValue g)
            in if octets = 0 then valueFieldTypeForOctets 1 else valueFieldTypeForOctets octets)
      else if bits < 8 then valueFieldTypeForBits bits
      else valueFieldTypeForOctets (bits div 8))"

definition go_descriptor :: "group_object \<Rightarrow> u16" where
  "go_descriptor g = encodeGroupObjectDescriptor (go_flags g) (go_valueFieldType g)"

datatype value_source = FromWrite | FromResponse

definition go_receiveValue :: "bytes \<Rightarrow> value_source \<Rightarrow> group_object \<Rightarrow> group_object \<times> unit result \<times> go_call list" where
  "go_receiveValue data src g =
     (if \<not> (if src = FromWrite then go_writable g else go_updatable g) then (g, Inl AccessDenied, [])
      else storeGroupObjectValue data g)"

text \<open>\<open>requestValue\<close> delegates to the sender that was installed, if one was.\<close>

definition go_requestValue :: "(group_address \<Rightarrow> 's \<Rightarrow> 's \<times> unit result) option \<Rightarrow> group_object \<Rightarrow> 's \<Rightarrow> 's \<times> unit result" where
  "go_requestValue sender g s =
     (if \<not> gf_communication (go_flags g) then (s, Inl AccessDenied)
      else case sender of Some f \<Rightarrow> f (go_address g) s | None \<Rightarrow> (s, Inl OperationFailed))"

section \<open>The transmit policy\<close>

text \<open>The arithmetic on \<open>double\<close> is a parameter: the conversions, the test against zero and
  \<open>delta >= threshold\<close> for the distance of two scalars.\<close>

record double_ops =
  do_of_int :: "int \<Rightarrow> u64"
  do_of_char :: "u8 \<Rightarrow> u64"
  do_of_float :: "u32 \<Rightarrow> u64"
  do_nonpositive :: "u64 \<Rightarrow> bool"
  do_reaches :: "u64 \<Rightarrow> u64 \<Rightarrow> u64 \<Rightarrow> bool"

fun dptValueAsScalar :: "double_ops \<Rightarrow> dpt_value \<Rightarrow> u64 option" where
  "dptValueAsScalar D (VBool b) = Some (do_of_int D (if b then 1 else 0))"
| "dptValueAsScalar D (VChar c) = Some (do_of_char D c)"
| "dptValueAsScalar D (VU8 x) = Some (do_of_int D (uint x))"
| "dptValueAsScalar D (VS8 x) = Some (do_of_int D (sint x))"
| "dptValueAsScalar D (VU16 x) = Some (do_of_int D (uint x))"
| "dptValueAsScalar D (VS16 x) = Some (do_of_int D (sint x))"
| "dptValueAsScalar D (VFloat2 x) = Some (do_of_float D x)"
| "dptValueAsScalar D (VU32 x) = Some (do_of_int D (uint x))"
| "dptValueAsScalar D (VS32 x) = Some (do_of_int D (sint x))"
| "dptValueAsScalar D (VFloat4 x) = Some (do_of_float D x)"
| "dptValueAsScalar D _ = None"

definition go_changedSignificantly :: "float_ops \<Rightarrow> double_ops \<Rightarrow> group_object \<Rightarrow> bool" where
  "go_changedSignificantly F D g =
     (if \<not> go_lastSentValid g then True
      else if go_rawValue g = go_lastSentRaw g then False
      else if do_nonpositive D (tp_changeThreshold (go_policy g)) then True
      else case (decodeDptValue F (go_dpt g) (go_rawValue g), decodeDptValue F (go_dpt g) (go_lastSentRaw g)) of
             (Inr cur, Inr prev) \<Rightarrow>
               (case (dptValueAsScalar D cur, dptValueAsScalar D prev) of
                  (Some c, Some p) \<Rightarrow> do_reaches D c p (tp_changeThreshold (go_policy g))
                | _ \<Rightarrow> True)
           | _ \<Rightarrow> True)"

definition go_decidePublish :: "float_ops \<Rightarrow> double_ops \<Rightarrow> u32 \<Rightarrow> group_object \<Rightarrow> publish_decision" where
  "go_decidePublish F D now g =
     (if \<not> go_lastSentValid g then Send
      else if tp_onChangeEnabled (go_policy g) \<and> \<not> go_changedSignificantly F D g then Suppress
      else if tp_minIntervalMs (go_policy g) \<noteq> 0 \<and> now - go_lastSentMs g < tp_minIntervalMs (go_policy g) then Defer
      else Send)"

definition go_dueForCyclic :: "u32 \<Rightarrow> group_object \<Rightarrow> bool" where
  "go_dueForCyclic now g \<longleftrightarrow>
     tp_cyclicIntervalMs (go_policy g) \<noteq> 0 \<and> go_lastSentValid g
     \<and> now - go_lastSentMs g \<ge> tp_cyclicIntervalMs (go_policy g)"

definition go_readyToSendDeferred :: "u32 \<Rightarrow> group_object \<Rightarrow> bool" where
  "go_readyToSendDeferred now g \<longleftrightarrow>
     go_pendingSend g
     \<and> (tp_minIntervalMs (go_policy g) = 0 \<or> \<not> go_lastSentValid g
        \<or> now - go_lastSentMs g \<ge> tp_minIntervalMs (go_policy g))"

definition go_noteTransmitted :: "u32 \<Rightarrow> group_object \<Rightarrow> group_object" where
  "go_noteTransmitted now g =
     g\<lparr>go_lastSentRaw := fst (fv_assign MAX_GROUP_OBJECT_PAYLOAD_BYTES (go_lastSentRaw g) (go_rawValue g)),
       go_lastSentValid := True, go_lastSentMs := now, go_pendingSend := False\<rparr>"

section \<open>The group object table\<close>

text \<open>A slot is \<open>None\<close> for a null pointer.\<close>

type_synonym go_table = "group_object option list"

definition kMaxObjects :: nat where "kMaxObjects = 256"

definition got_add :: "group_object option \<Rightarrow> go_table \<Rightarrow> go_table \<times> nat result" where
  "got_add obj t =
     (if length t \<ge> kMaxObjects \<or> obj = None then (t, Inl InvalidParameter)
      else (fst (fv_push_back kMaxObjects t obj), Inr (length t)))"

definition got_remove :: "nat \<Rightarrow> go_table \<Rightarrow> go_table \<times> unit result" where
  "got_remove i t = (if i \<ge> length t then (t, Inl InvalidParameter) else (fv_erase t i, Inr ()))"

definition got_get :: "go_table \<Rightarrow> nat \<Rightarrow> group_object option" where
  "got_get t i = (if i \<ge> length t then None else t ! i)"

definition got_load :: "go_table \<Rightarrow> go_table \<Rightarrow> go_table \<times> unit result" where
  "got_load objs t =
     (if length objs > kMaxObjects then (t, Inl InvalidParameter)
      else (foldl (\<lambda>acc x. fst (fv_push_back kMaxObjects acc x)) [] objs, Inr ()))"

fun got_findByAddress :: "go_table \<Rightarrow> group_address \<Rightarrow> group_object option" where
  "got_findByAddress [] a = None"
| "got_findByAddress (None # t) a = got_findByAddress t a"
| "got_findByAddress (Some g # t) a = (if go_address g = a then Some g else got_findByAddress t a)"

definition got_hasAddress :: "go_table \<Rightarrow> group_address \<Rightarrow> bool" where
  "got_hasAddress t a \<longleftrightarrow> got_findByAddress t a \<noteq> None"

definition at_address :: "group_address \<Rightarrow> group_object option \<Rightarrow> bool" where
  "at_address a x = (case x of None \<Rightarrow> False | Some g \<Rightarrow> go_address g = a)"

definition got_findAllByAddress :: "go_table \<Rightarrow> group_address \<Rightarrow> nat \<Rightarrow> (nat \<times> u16 list) result" where
  "got_findAllByAddress t a n =
     (let hits = filter (\<lambda>i. at_address a (t ! i)) [0..<length t] in
      if n = 0 then Inr (length hits, [])
      else if n < length hits then Inl BufferTooSmall
      else Inr (length hits, map of_nat hits))"

definition got_getAllAddresses :: "go_table \<Rightarrow> nat \<Rightarrow> (nat \<times> group_address list) result" where
  "got_getAllAddresses t n =
     (let hits = map (\<lambda>x. go_address (the x)) (filter (\<lambda>x. x \<noteq> None) t) in
      if n = 0 then Inr (length hits, [])
      else if n < length hits then Inl BufferTooSmall
      else Inr (length hits, hits))"

definition got_isValid :: "go_table \<Rightarrow> bool" where
  "got_isValid t \<longleftrightarrow> list_all (\<lambda>x. case x of None \<Rightarrow> False | Some g \<Rightarrow> go_valid g) t"

text \<open>\<open>objectAt\<close>: the position of the \<open>slot\<close>-th populated entry.\<close>

fun got_objectAt :: "go_table \<Rightarrow> nat \<Rightarrow> nat option" where
  "got_objectAt [] slot = None"
| "got_objectAt (None # t) slot = map_option Suc (got_objectAt t slot)"
| "got_objectAt (Some g # t) slot = (if slot = 0 then Some 0 else map_option Suc (got_objectAt t (slot - 1)))"

text \<open>The one-based wrapper's look-up by \<open>GroupObjectIndex\<close>, where 0xFFFF is invalid.\<close>

definition got_toDomainIndex :: "u16 \<Rightarrow> nat result" where
  "got_toDomainIndex index =
     (if index = 0xFFFF \<or> unat index \<ge> kMaxObjects then Inl InvalidParameter else Inr (unat index))"

definition getGroupObject :: "go_table \<Rightarrow> u16 \<Rightarrow> group_object option" where
  "getGroupObject t index =
     (case got_toDomainIndex index of Inl _ \<Rightarrow> None | Inr i \<Rightarrow> got_get t i)"

definition got_addGroupObject :: "group_object \<Rightarrow> go_table \<Rightarrow> go_table \<times> u16" where
  "got_addGroupObject g t =
     (case got_add (Some g) t of (t1, Inl _) \<Rightarrow> (t1, 0xFFFF) | (t1, Inr i) \<Rightarrow> (t1, of_nat i))"

definition got_removeObject :: "u16 \<Rightarrow> go_table \<Rightarrow> go_table \<times> unit result" where
  "got_removeObject index t =
     (case got_toDomainIndex index of Inl e \<Rightarrow> (t, Inl e) | Inr i \<Rightarrow> got_remove i t)"

text \<open>The serialised table: the number of descriptors, then the descriptors.\<close>

definition populated :: "go_table \<Rightarrow> group_object list" where
  "populated t = map the (filter (\<lambda>x. x \<noteq> None) t)"

definition word_bytes :: "u16 \<Rightarrow> bytes" where "word_bytes w = [getHighByte w, getLowByte w]"

definition table_image :: "go_table \<Rightarrow> bytes" where
  "table_image t = word_bytes (of_nat (length (populated t))) @ concat (map (\<lambda>g. word_bytes (go_descriptor g)) (populated t))"

text \<open>\<open>readTableData\<close>: \<open>emitByte\<close> skips, writes and stops, octet by octet, into an output of \<open>cap\<close> octets.\<close>

fun emit_bytes :: "bytes \<Rightarrow> nat \<Rightarrow> nat \<Rightarrow> nat \<Rightarrow> bytes \<Rightarrow> bytes result" where
  "emit_bytes [] skip remaining cap out = Inr out"
| "emit_bytes (b # bs) skip remaining cap out =
     (if remaining = 0 then emit_bytes bs skip remaining cap out
      else if skip > 0 then emit_bytes bs (skip - 1) remaining cap out
      else if length out \<ge> cap then Inl BufferTooSmall
      else emit_bytes bs skip (remaining - 1) cap (out @ [b]))"

definition got_readTableData :: "go_table \<Rightarrow> nat \<Rightarrow> nat \<Rightarrow> nat \<Rightarrow> bytes result" where
  "got_readTableData t offset requested cap =
     (let count = length (populated t) in
      if count > 0xFFFF then Inl InvalidParameter
      else if offset + requested > 2 + count * 2 then Inl OutOfRange
      else emit_bytes (table_image t) offset requested cap [])"

text \<open>\<open>writeTableData\<close>: the octets of the length field are skipped, then whole descriptors are applied.\<close>

fun apply_descriptors :: "bytes \<Rightarrow> nat \<Rightarrow> go_table \<Rightarrow> go_table" where
  "apply_descriptors (h # l # bs) slot t =
     apply_descriptors bs (slot + 1)
       (case got_objectAt t slot of
          None \<Rightarrow> t
        | Some i \<Rightarrow> t[i := map_option (go_setFlags (fst (decodeGroupObjectDescriptor (word_be h l)))) (t ! i)])"
| "apply_descriptors _ slot t = t"

definition got_writeTableData :: "nat \<Rightarrow> nat \<Rightarrow> bytes \<Rightarrow> go_table \<Rightarrow> go_table \<times> unit result" where
  "got_writeTableData start elementCount data t =
     (if length data < elementCount then (t, Inl BufferTooSmall)
      else let skipped = min (2 - start) elementCount;
               absolute = start + skipped;
               rest = drop skipped (take elementCount data)
           in if (absolute + 2 ^ 64 - 2) mod 2 ^ 64 mod 2 \<noteq> 0 then (t, Inl InvalidParameter)
              else if length rest mod 2 \<noteq> 0 then (t, Inl InvalidParameter)
              else (apply_descriptors rest ((absolute - 2) div 2) t, Inr ()))"

section \<open>The rate limiter\<close>

record rate_config =
  rc_maxTelegrams :: u32
  rc_perWindowMs :: u32
  rc_minGapMs :: u32

record rate_limiter =
  rl_config :: rate_config
  rl_initialized :: bool
  rl_hasSent :: bool
  rl_tokens :: u32
  rl_windowStartMs :: u32
  rl_lastSendMs :: u32

definition rl_reset :: "rate_limiter \<Rightarrow> rate_limiter" where
  "rl_reset r = r\<lparr>rl_initialized := False, rl_hasSent := False, rl_tokens := rc_maxTelegrams (rl_config r),
     rl_windowStartMs := 0, rl_lastSendMs := 0\<rparr>"

definition rl_configure :: "rate_config \<Rightarrow> rate_limiter \<Rightarrow> rate_limiter" where
  "rl_configure c r = rl_reset (r\<lparr>rl_config := c\<rparr>)"

definition rl_unlimited :: "rate_limiter \<Rightarrow> bool" where
  "rl_unlimited r \<longleftrightarrow> rc_maxTelegrams (rl_config r) = 0 \<and> rc_minGapMs (rl_config r) = 0"

definition rl_gap_blocks :: "rate_limiter \<Rightarrow> u32 \<Rightarrow> bool" where
  "rl_gap_blocks r now \<longleftrightarrow>
     rc_minGapMs (rl_config r) \<noteq> 0 \<and> rl_hasSent r \<and> now - rl_lastSendMs r < rc_minGapMs (rl_config r)"

definition rl_allowed :: "rate_limiter \<Rightarrow> u32 \<Rightarrow> bool" where
  "rl_allowed r now =
     (if rl_unlimited r then True
      else if rl_gap_blocks r now then False
      else if rc_maxTelegrams (rl_config r) \<noteq> 0
      then (let windowElapsed = rl_initialized r \<and> now - rl_windowStartMs r \<ge> rc_perWindowMs (rl_config r);
                availableTokens = (if \<not> rl_initialized r \<or> windowElapsed then rc_maxTelegrams (rl_config r) else rl_tokens r)
            in availableTokens \<noteq> 0)
      else True)"

definition rl_tryConsume :: "rate_limiter \<Rightarrow> u32 \<Rightarrow> rate_limiter \<times> bool" where
  "rl_tryConsume r now =
     (if rl_unlimited r then (r, True)
      else let r1 = (if rl_initialized r then r
                     else r\<lparr>rl_windowStartMs := now, rl_tokens := rc_maxTelegrams (rl_config r), rl_initialized := True\<rparr>)
           in if rl_gap_blocks r1 now then (r1, False)
              else if rc_maxTelegrams (rl_config r1) \<noteq> 0
              then (let r2 = (if now - rl_windowStartMs r1 \<ge> rc_perWindowMs (rl_config r1)
                              then r1\<lparr>rl_windowStartMs := now, rl_tokens := rc_maxTelegrams (rl_config r1)\<rparr> else r1)
                    in if rl_tokens r2 = 0 then (r2, False)
                       else (r2\<lparr>rl_tokens := rl_tokens r2 - 1, rl_lastSendMs := now, rl_hasSent := True\<rparr>, True))
              else (r1\<lparr>rl_lastSendMs := now, rl_hasSent := True\<rparr>, True))"

section \<open>The descriptor round-trips\<close>

lemma and_bit16_iff:
  fixes a :: u16
  shows "a AND 0x8000 = 0 \<longleftrightarrow> \<not> bit a 15" "a AND 0x4000 = 0 \<longleftrightarrow> \<not> bit a 14" "a AND 0x2000 = 0 \<longleftrightarrow> \<not> bit a 13"
    "a AND 0x1000 = 0 \<longleftrightarrow> \<not> bit a 12" "a AND 0x0800 = 0 \<longleftrightarrow> \<not> bit a 11" "a AND 0x0400 = 0 \<longleftrightarrow> \<not> bit a 10"
  using and_exp_eq_0_iff_not_bit [of a 15] and_exp_eq_0_iff_not_bit [of a 14] and_exp_eq_0_iff_not_bit [of a 13]
    and_exp_eq_0_iff_not_bit [of a 12] and_exp_eq_0_iff_not_bit [of a 11] and_exp_eq_0_iff_not_bit [of a 10]
  by simp_all

lemma bit_flag16 [simp]: "bit (flag16 b m) n \<longleftrightarrow> b \<and> bit m n"
  by (simp add: flag16_def)

lemma and_03_id: "(p :: u8) \<le> 3 \<Longrightarrow> p AND 3 = p"
  using less_mask_eq [of p 2] by (simp add: mask_eq_exp_minus_1 word_le_nat_alt word_less_nat_alt)

lemma descriptor_roundtrip: "decodeGroupObjectDescriptor (encodeGroupObjectDescriptor f vft) = (f, vft)"
proof -
  let ?d = "encodeGroupObjectDescriptor f vft"
  have f: "?d AND 0x8000 \<noteq> 0 \<longleftrightarrow> gf_update f" "?d AND 0x4000 \<noteq> 0 \<longleftrightarrow> gf_transmit f"
    "?d AND 0x2000 \<noteq> 0 \<longleftrightarrow> gf_readOnInit f" "?d AND 0x1000 \<noteq> 0 \<longleftrightarrow> gf_write f"
    "?d AND 0x0800 \<noteq> 0 \<longleftrightarrow> gf_read f" "?d AND 0x0400 \<noteq> 0 \<longleftrightarrow> gf_communication f"
    by (simp_all only: and_bit16_iff) (simp_all add: encodeGroupObjectDescriptor_def bit_simps)
  have p: "ucast (drop_bit 8 ?d AND 0x03) = priority_code (gf_priority f) AND 0x03"
    by (rule word8_eqI) (simp_all add: encodeGroupObjectDescriptor_def bit_simps)
  have v: "ucast (?d AND 0x00FF) = vft"
    by (rule word8_eqI) (simp_all add: encodeGroupObjectDescriptor_def bit_simps)
  show ?thesis
    unfolding decodeGroupObjectDescriptor_def f p v by (simp add: and_03_id)
qed

interpretation god: result_codec
  "\<lambda>(f, vft). Inr (encodeGroupObjectDescriptor f vft)" "\<lambda>d. Inr (decodeGroupObjectDescriptor d)" "\<lambda>_. True"
  by unfold_locales (auto simp: descriptor_roundtrip)

lemma go_setFlags_same [simp]: "go_setFlags (go_flags g) g = g"
  by (simp add: go_setFlags_def)

lemma decode_descriptor [simp]: "fst (decodeGroupObjectDescriptor (go_descriptor g)) = go_flags g"
  by (simp add: go_descriptor_def descriptor_roundtrip)

lemma word_be_word_bytes [simp]: "word_bytes w = [getHighByte w, getLowByte w]"
  by (simp add: word_bytes_def)

lemma populated_Cons [simp]: "populated (None # t) = populated t" "populated (Some g # t) = g # populated t"
  "populated [] = []"
  by (simp_all add: populated_def)

lemma got_objectAt_populated:
  "slot < length (populated t) \<Longrightarrow>
   \<exists>i. got_objectAt t slot = Some i \<and> i < length t \<and> t ! i = Some (populated t ! slot)"
proof (induction t slot rule: got_objectAt.induct)
  case (3 g t slot)
  then show ?case by (cases slot) auto
qed auto

text \<open>Writing descriptors: the object at each slot gets its flags, all others stay as they are.\<close>

lemma apply_descriptors_same:
  "slot + length gs \<le> length (populated t) \<Longrightarrow> gs = take (length gs) (drop slot (populated t)) \<Longrightarrow>
   apply_descriptors (concat (map (\<lambda>g. word_bytes (go_descriptor g)) gs)) slot t = t"
proof (induction gs arbitrary: slot)
  case (Cons g gs)
  have l: "slot < length (populated t)" using Cons.prems(1) by simp
  have g: "g = populated t ! slot" and gs: "gs = take (length gs) (drop (slot + 1) (populated t))"
    using Cons.prems(2) l by (auto simp: take_Suc_conv_app_nth Cons_nth_drop_Suc [symmetric])
  obtain i where i: "got_objectAt t slot = Some i" "t ! i = Some g"
    using got_objectAt_populated [OF l] g by auto
  then have "t[i := Some g] = t" by (metis list_update_id)
  with i show ?case using Cons.IH [of "slot + 1"] Cons.prems(1) gs by simp
qed simp

lemma emit_bytes_take:
  "length out + remaining \<le> cap \<Longrightarrow> emit_bytes bs skip remaining cap out = Inr (out @ take remaining (drop skip bs))"
proof (induction bs skip remaining cap out rule: emit_bytes.induct)
  case (2 b bs skip remaining cap out)
  show ?case
  proof (cases "remaining = 0 \<or> skip > 0")
    case True
    with 2 show ?thesis by (cases skip) auto
  next
    case False
    then obtain k where "remaining = Suc k" by (cases remaining) auto
    with False 2 show ?thesis by auto
  qed
qed simp

lemma table_image_length: "length (table_image t) = 2 + 2 * length (populated t)"
proof -
  have "length (concat (map (\<lambda>g. word_bytes (go_descriptor g)) gs)) = 2 * length gs" for gs
    by (induction gs) simp_all
  then show ?thesis by (simp add: table_image_def)
qed

text \<open>
  What is read from the group object table can be written back: reading the whole serialised table into
  a large enough buffer succeeds, and writing these octets leaves the table exactly as it was. Each descriptor
  is applied to the object it was read from, and no flag, priority or value is disturbed, with null entries in
  the table or without.
\<close>
theorem go_table_roundtrip:
  assumes "length t \<le> kMaxObjects" and "2 + 2 * length (populated t) \<le> cap"
  shows "\<exists>bs. got_readTableData t 0 (2 + 2 * length (populated t)) cap = Inr bs
           \<and> got_writeTableData 0 (length bs) bs t = (t, Inr ())"
proof -
  have "length (populated t) \<le> length t" by (simp add: populated_def)
  then have r: "got_readTableData t 0 (2 + 2 * length (populated t)) cap = Inr (table_image t)"
    using assms by (simp add: got_readTableData_def emit_bytes_take table_image_length kMaxObjects_def)
  have "apply_descriptors (concat (map (\<lambda>g. word_bytes (go_descriptor g)) (populated t))) 0 t = t"
    by (rule apply_descriptors_same) simp_all
  then have "got_writeTableData 0 (length (table_image t)) (table_image t) t = (t, Inr ())"
    using table_image_length [of t] by (simp add: got_writeTableData_def table_image_def Let_def)
  with r show ?thesis by blast
qed

theorem go_table_roundtrip_witness:
  "\<exists>t bs. length (populated t) = 1 \<and> got_readTableData t 0 4 16 = Inr bs \<and> got_writeTableData 0 (length bs) bs t = (t, Inr ())"
proof -
  fix f :: go_flags
  let ?t = "[None, Some (go_new 0x0801 (1, 1) f transmit_policy_default)]"
  have "\<exists>bs. got_readTableData ?t 0 (2 + 2 * length (populated ?t)) 16 = Inr bs
           \<and> got_writeTableData 0 (length bs) bs ?t = (?t, Inr ())"
    by (rule go_table_roundtrip) (simp_all add: kMaxObjects_def)
  moreover have "length (populated ?t) = 1" by simp
  ultimately show ?thesis by (metis add_2_eq_Suc' mult_2 nat_1_add_1 numeral_Bit0 one_add_one)
qed

section \<open>Values\<close>

text \<open>The raw values of an object always fit its buffers.\<close>

definition go_ok :: "group_object \<Rightarrow> bool" where
  "go_ok g \<longleftrightarrow> length (go_rawValue g) \<le> MAX_GROUP_OBJECT_PAYLOAD_BYTES
     \<and> length (go_lastSentRaw g) \<le> MAX_GROUP_OBJECT_PAYLOAD_BYTES"

lemma store_cases:
  "storeGroupObjectValue d g =
     (if length d \<le> 16
      then (g\<lparr>go_rawValue := d, go_valid := True\<rparr>, Inr (), if go_callback g then [(go_address g, d)] else [])
      else (g, Inl BufferTooSmall, []))"
  by (simp add: storeGroupObjectValue_def fv_assign_def MAX_GROUP_OBJECT_PAYLOAD_BYTES_def)

lemma encodeGroupObjectValue_eq: "encodeGroupObjectValue F i v = encodeDptValue F i v 16"
proof (cases "encodeDptValue F i v 16")
  case (Inr bs)
  then have "length bs \<le> 16" using encodeForValueType_length by (auto simp: encodeDptValue_Inr)
  then show ?thesis using Inr by (simp add: encodeGroupObjectValue_def MAX_GROUP_OBJECT_PAYLOAD_BYTES_def)
qed (simp add: encodeGroupObjectValue_def MAX_GROUP_OBJECT_PAYLOAD_BYTES_def)

lemma go_receiveValue_spec:
  "go_receiveValue d src g =
     (if \<not> (if src = FromWrite then go_writable g else go_updatable g) then (g, Inl AccessDenied, [])
      else if length d \<le> 16
      then (g\<lparr>go_rawValue := d, go_valid := True\<rparr>, Inr (), if go_callback g then [(go_address g, d)] else [])
      else (g, Inl BufferTooSmall, []))"
  by (simp add: go_receiveValue_def store_cases)

text \<open>
  What the application sets is what it and the bus read: when a value is accepted by \<open>setValue\<close>, the
  object is valid, its raw octets are the encoding for its datapoint type, as wide as the catalog states,
  another device that receives them under the same type decodes the same value, and \<open>value\<close> returns it
  (for the value types that are not rounded); the flags do not matter. When it is refused nothing changes.
\<close>
theorem go_setValue_roundtrip:
  assumes "go_setValue F v g = (g1, r, cs)" and "exact_value v"
  shows "(r = Inr () \<longrightarrow> go_valid g1 \<and> length (go_rawValue g1) = dptPayloadOctets (go_dpt g)
            \<and> go_value F g1 = Inr v \<and> decodeDptValue F (go_dpt g) (go_rawValue g1) = Inr v
            \<and> cs = (if go_callback g then [(go_address g, go_rawValue g1)] else []))
       \<and> (r \<noteq> Inr () \<longrightarrow> g1 = g \<and> cs = [])"
proof (cases "encodeDptValue F (go_dpt g) v 16")
  case (Inl e)
  then show ?thesis using assms(1) by (auto simp: go_setValue_def encodeGroupObjectValue_eq)
next
  case (Inr bs)
  have e: "encodeForValueType F v 16 = Inr bs" and l: "lookupDptInfo (go_dpt g) = Some (value_type v)"
    using Inr by (simp_all add: encodeDptValue_Inr)
  have n: "length bs = dptPayloadOctets (go_dpt g)" "length bs \<le> 16"
    using encodeForValueType_length [OF e] lookup_octets [OF l] by simp_all
  have d: "decodeDptValue F (go_dpt g) bs = Inr v"
    using decode_encode_exact [OF e assms(2)] l by (simp add: decodeDptValue_def)
  show ?thesis using assms(1) Inr n d
    by (auto simp: go_setValue_def encodeGroupObjectValue_eq store_cases go_value_def)
qed

theorem go_setValue_roundtrip_witness:
  "\<exists>F g g1 cs. go_setValue F (VU16 0x1234) g = (g1, Inr (), cs) \<and> go_value F g1 = Inr (VU16 0x1234)"
proof -
  fix F f
  let ?g = "go_new 0x0801 (7, 1) f transmit_policy_default"
  let ?g1 = "?g\<lparr>go_rawValue := [0x12, 0x34], go_valid := True\<rparr>"
  have "encodeDptValue F (7, 1) (VU16 0x1234) 16 = Inr [0x12, 0x34]"
    by (simp add: encodeDptValue_def lookupDptInfo_def dpt_catalog_def dpt7_encode_def write_defs writeArray_def getHighByte_def getLowByte_def)
  then have e: "go_setValue F (VU16 0x1234) ?g = (?g1, Inr (), [])"
    by (simp add: go_setValue_def encodeGroupObjectValue_eq go_new_def store_cases)
  then show ?thesis using go_setValue_roundtrip [OF e] by auto
qed

section \<open>Publishing\<close>

text \<open>A deferred publish of an object that stays as it is becomes ready exactly when the publish would be
  sent, provided that the value still counts as changed.\<close>

lemma deferred_ready_iff:
  assumes "go_decidePublish F D now g = Defer"
  shows "go_readyToSendDeferred now' (go_setPendingSend True g) \<longleftrightarrow> go_decidePublish F D now' g = Send"
  using assms
  by (auto simp: go_decidePublish_def go_readyToSendDeferred_def go_setPendingSend_def not_less split: if_splits)

lemma noteTransmitted_suppresses:
  assumes "go_ok g" "tp_onChangeEnabled (go_policy g)"
  shows "go_decidePublish F D now' (go_noteTransmitted now g) = Suppress"
  using assms
  by (simp add: go_decidePublish_def go_noteTransmitted_def go_changedSignificantly_def go_ok_def)

lemma noteTransmitted_interval:
  assumes "tp_minIntervalMs (go_policy g) \<noteq> 0" "now' - now < tp_minIntervalMs (go_policy g)"
  shows "go_decidePublish F D now' (go_noteTransmitted now g\<lparr>go_rawValue := v\<rparr>) \<noteq> Send"
  using assms by (simp add: go_decidePublish_def go_noteTransmitted_def)

section \<open>The rate limiter keeps its promises\<close>

definition rl_ok :: "rate_limiter \<Rightarrow> bool" where
  "rl_ok r \<longleftrightarrow> (rl_hasSent r \<longrightarrow> rl_initialized r) \<and> (rl_initialized r \<longrightarrow> rl_tokens r \<le> rc_maxTelegrams (rl_config r))"

lemma rl_configure_ok: "rl_ok (rl_configure c r)"
  by (simp add: rl_ok_def rl_configure_def rl_reset_def)

lemma rl_tryConsume_config [simp]: "rl_config (fst (rl_tryConsume r now)) = rl_config r"
  by (simp add: rl_tryConsume_def Let_def)

lemma word_dec_le: "(t :: u32) \<noteq> 0 \<Longrightarrow> t \<le> m \<Longrightarrow> t - 1 \<le> m"
proof -
  assume a: "t \<noteq> 0" "t \<le> m"
  then have "1 \<le> t" by (simp add: word_le_nat_alt Suc_leI unat_gt_0)
  then show ?thesis using a(2) word_sub_le [of 1 t] by (metis order_trans)
qed

lemma rl_tryConsume_ok: "rl_ok r \<Longrightarrow> rl_ok (fst (rl_tryConsume r now))"
  by (auto simp: rl_tryConsume_def rl_ok_def Let_def intro: word_dec_le)

text \<open>
  The limiter's look-ahead tells the truth: \<open>allowed\<close> answers at every moment what \<open>tryConsume\<close> would
  answer, and a refused \<open>tryConsume\<close> changes nothing, so asking too early costs no token and delays no
  later telegram. The states are those that \<open>configure\<close> and \<open>tryConsume\<close> can produce.
\<close>
theorem rl_allowed_iff_consumed:
  assumes "rl_ok r"
  shows "rl_allowed r now = snd (rl_tryConsume r now)
       \<and> (\<not> snd (rl_tryConsume r now) \<longrightarrow> fst (rl_tryConsume r now) = r)"
proof (cases "rl_unlimited r")
  case False
  show ?thesis
  proof (cases "rl_initialized r")
    case True
    with False show ?thesis
      by (auto simp: rl_allowed_def rl_tryConsume_def rl_gap_blocks_def Let_def)
  next
    case F: False
    then have "\<not> rl_hasSent r" using assms by (simp add: rl_ok_def)
    with F False show ?thesis by (simp add: rl_allowed_def rl_tryConsume_def rl_gap_blocks_def Let_def)
  qed
qed (simp add: rl_allowed_def rl_tryConsume_def)

theorem rl_allowed_iff_consumed_witness:
  "\<exists>r. rl_ok r \<and> rl_allowed r 5 = snd (rl_tryConsume r 5) \<and> rl_allowed r 5"
proof -
  fix r0 :: rate_limiter
  let ?r = "rl_configure \<lparr>rc_maxTelegrams = 2, rc_perWindowMs = 1000, rc_minGapMs = 20\<rparr> r0"
  have ok: "rl_ok ?r" by (rule rl_configure_ok)
  moreover have "rl_allowed ?r 5"
    by (simp add: rl_allowed_def rl_configure_def rl_reset_def rl_unlimited_def rl_gap_blocks_def Let_def)
  ultimately show ?thesis using rl_allowed_iff_consumed [OF ok, of 5] by blast
qed

text \<open>The times at which a sequence of attempts is let through.\<close>

fun rl_accepted :: "rate_limiter \<Rightarrow> u32 list \<Rightarrow> u32 list" where
  "rl_accepted r [] = []"
| "rl_accepted r (t # ts) =
     (case rl_tryConsume r t of (r1, ok) \<Rightarrow> (if ok then [t] else []) @ rl_accepted r1 ts)"

lemma tryConsume_sent:
  "rl_tryConsume r t = (r1, True) \<Longrightarrow> \<not> rl_unlimited r \<Longrightarrow> rl_hasSent r1 \<and> rl_lastSendMs r1 = t"
  by (auto simp: rl_tryConsume_def Let_def split: if_splits)

lemma tryConsume_refused:
  "rl_tryConsume r t = (r1, False) \<Longrightarrow> rl_hasSent r1 = rl_hasSent r \<and> rl_lastSendMs r1 = rl_lastSendMs r"
  by (auto simp: rl_tryConsume_def Let_def split: if_splits)

lemma tryConsume_gap:
  "rl_tryConsume r t = (r1, True) \<Longrightarrow> rc_minGapMs (rl_config r) \<noteq> 0 \<Longrightarrow> rl_hasSent r \<Longrightarrow>
   rc_minGapMs (rl_config r) \<le> t - rl_lastSendMs r"
  by (auto simp: rl_tryConsume_def rl_unlimited_def rl_gap_blocks_def Let_def not_less split: if_splits)

lemma accepted_gap:
  assumes "rc_minGapMs (rl_config r) = gap" "gap \<noteq> 0"
  shows "successively (\<lambda>x y. gap \<le> y - x) (rl_accepted r ts)
    \<and> (rl_hasSent r \<longrightarrow> rl_accepted r ts \<noteq> [] \<longrightarrow> gap \<le> hd (rl_accepted r ts) - rl_lastSendMs r)"
  using assms
proof (induction ts arbitrary: r)
  case (Cons t ts)
  obtain r1 ok where c: "rl_tryConsume r t = (r1, ok)" by force
  have u: "\<not> rl_unlimited r" using Cons.prems by (simp add: rl_unlimited_def)
  have cfg: "rc_minGapMs (rl_config r1) = gap" using rl_tryConsume_config [of r t] c Cons.prems(1) by simp
  note IH = Cons.IH [OF cfg Cons.prems(2)]
  show ?case
  proof (cases ok)
    case True
    then show ?thesis
      using IH c tryConsume_sent [of r t r1] tryConsume_gap [of r t r1] u Cons.prems
      by (auto simp: successively_Cons)
  next
    case False
    then show ?thesis using IH c tryConsume_refused [of r t r1] by auto
  qed
qed simp

lemma window_elapsed:
  fixes a w t per :: u32
  assumes "w - a \<le> t - a" "t - a < per"
  shows "t - w < per"
proof -
  have "t - w = (t - a) - (w - a)" by simp
  also have "\<dots> \<le> t - a" using assms(1) by (rule word_sub_le)
  finally show ?thesis using assms(2) by (rule le_less_trans)
qed

lemma tryConsume_keep:
  assumes "rc_maxTelegrams (rl_config r) \<noteq> 0" "rl_initialized r"
    and "t - rl_windowStartMs r < rc_perWindowMs (rl_config r) \<or> rl_gap_blocks r t"
    and "rl_tryConsume r t = (r1, ok)"
  shows "rl_config r1 = rl_config r \<and> rl_initialized r1 \<and> rl_windowStartMs r1 = rl_windowStartMs r
       \<and> of_bool ok + unat (rl_tokens r1) = unat (rl_tokens r)"
proof (cases "rl_gap_blocks r t \<or> rl_tokens r = 0")
  case True
  then have "rl_tryConsume r t = (r, False)"
    using assms(1-3) by (auto simp: rl_tryConsume_def rl_unlimited_def Let_def not_le [symmetric])
  then show ?thesis using assms(2,4) by simp
next
  case False
  let ?r = "r\<lparr>rl_tokens := rl_tokens r - 1, rl_lastSendMs := t, rl_hasSent := True\<rparr>"
  have "rl_tryConsume r t = (?r, True)"
    using False assms(1-3) by (auto simp: rl_tryConsume_def rl_unlimited_def Let_def not_le [symmetric])
  moreover have "unat (rl_tokens r - 1) + 1 = unat (rl_tokens r)"
    using False by (simp add: unat_minus_one unat_gt_0 Suc_leI)
  ultimately show ?thesis using assms(2,4) by auto
qed

text \<open>Attempts within less than one window's length from \<open>a\<close>: the bucket is refilled at most once.\<close>

lemma accepted_tokens:
  assumes "rc_maxTelegrams (rl_config r) \<noteq> 0" "rl_initialized r"
    and "\<forall>t \<in> set ts. t - a < rc_perWindowMs (rl_config r) \<and> rl_windowStartMs r - a \<le> t - a"
  shows "length (rl_accepted r ts) \<le> unat (rl_tokens r)"
  using assms
proof (induction ts arbitrary: r)
  case (Cons t ts)
  have el: "t - rl_windowStartMs r < rc_perWindowMs (rl_config r)"
    using Cons.prems(3) window_elapsed [of "rl_windowStartMs r" a t] by simp
  obtain r1 ok where c: "rl_tryConsume r t = (r1, ok)" by force
  note k = tryConsume_keep [OF Cons.prems(1,2) disjI1 [OF el] c]
  then have "length (rl_accepted r1 ts) \<le> unat (rl_tokens r1)" using Cons.prems by (intro Cons.IH) simp_all
  then show ?case using c k by auto
qed simp

text \<open>Refilling the bucket starts a new window at that time.\<close>

lemma tryConsume_refill:
  assumes "rc_maxTelegrams (rl_config r) \<noteq> 0" "rl_initialized r" "rc_perWindowMs (rl_config r) \<le> t - rl_windowStartMs r"
    and "\<not> rl_gap_blocks r t"
  shows "rl_tryConsume r t =
    (r\<lparr>rl_windowStartMs := t, rl_tokens := rc_maxTelegrams (rl_config r) - 1, rl_lastSendMs := t, rl_hasSent := True\<rparr>, True)"
  using assms by (simp add: rl_tryConsume_def rl_unlimited_def rl_gap_blocks_def Let_def)

lemma accepted_two_windows:
  assumes "rc_maxTelegrams (rl_config r) \<noteq> 0" "rl_initialized r"
    and "sorted (map (\<lambda>t. t - a) ts)" "\<forall>t \<in> set ts. t - a < rc_perWindowMs (rl_config r)"
  shows "length (rl_accepted r ts) \<le> unat (rl_tokens r) + unat (rc_maxTelegrams (rl_config r))"
  using assms
proof (induction ts arbitrary: r)
  case (Cons t ts)
  obtain r1 ok where c: "rl_tryConsume r t = (r1, ok)" by force
  show ?case
  proof (cases "t - rl_windowStartMs r < rc_perWindowMs (rl_config r) \<or> rl_gap_blocks r t")
    case True
    note k = tryConsume_keep [OF Cons.prems(1,2) True c]
    then have "length (rl_accepted r1 ts) \<le> unat (rl_tokens r1) + unat (rc_maxTelegrams (rl_config r1))"
      using Cons.prems by (intro Cons.IH) simp_all
    then show ?thesis using c k by auto
  next
    case False
    note f = tryConsume_refill [OF Cons.prems(1,2)]
    have r1: "r1 = r\<lparr>rl_windowStartMs := t, rl_tokens := rc_maxTelegrams (rl_config r) - 1, rl_lastSendMs := t, rl_hasSent := True\<rparr>"
        "ok"
      using f [of t] False c by (auto simp: not_less)
    have "length (rl_accepted r1 ts) \<le> unat (rl_tokens r1)"
      using Cons.prems by (intro accepted_tokens [where a = a]) (auto simp: r1)
    then have "length (rl_accepted r1 ts) \<le> unat (rc_maxTelegrams (rl_config r) - 1)" by (simp add: r1)
    moreover have "unat (rc_maxTelegrams (rl_config r) - 1) + 1 = unat (rc_maxTelegrams (rl_config r))"
      using Cons.prems(1) by (simp add: unat_minus_one unat_gt_0 Suc_leI)
    ultimately show ?thesis using c r1 by simp
  qed
qed simp

lemma accepted_uninitialized:
  assumes "rc_maxTelegrams (rl_config r) \<noteq> 0" "rl_ok r" "\<not> rl_initialized r"
  shows "rl_accepted r (t # ts) = rl_accepted (r\<lparr>rl_windowStartMs := t,
           rl_tokens := rc_maxTelegrams (rl_config r), rl_initialized := True\<rparr>) (t # ts)"
  using assms by (auto simp: rl_tryConsume_def rl_unlimited_def rl_gap_blocks_def rl_ok_def Let_def)

text \<open>
  C36. The limiter protects the bus: whatever the attempts are, two telegrams it lets through one after the
  other are at least the minimum gap apart; and of attempts that all fall within less than one window, wherever
  that interval lies relative to the limiter's own windows and across a wrap of the 32-bit clock, at most twice
  the number configured per window is let through. (The bound is two windows' worth, since an interval may
  overlap two of the limiter's windows.)
\<close>
theorem rl_protects_bus:
  assumes "rl_ok r" and "c = rl_config r"
  shows "(rc_minGapMs c \<noteq> 0 \<longrightarrow> successively (\<lambda>x y. rc_minGapMs c \<le> y - x) (rl_accepted r ts))
    \<and> (rc_maxTelegrams c \<noteq> 0 \<and> sorted (map (\<lambda>t. t - a) ts) \<and> (\<forall>t \<in> set ts. t - a < rc_perWindowMs c)
        \<longrightarrow> length (rl_accepted r ts) \<le> 2 * unat (rc_maxTelegrams c))"
proof (intro conjI impI)
  assume "rc_minGapMs c \<noteq> 0"
  then show "successively (\<lambda>x y. rc_minGapMs c \<le> y - x) (rl_accepted r ts)"
    using accepted_gap [of r] assms(2) by blast
next
  assume w: "rc_maxTelegrams c \<noteq> 0 \<and> sorted (map (\<lambda>t. t - a) ts) \<and> (\<forall>t \<in> set ts. t - a < rc_perWindowMs c)"
  show "length (rl_accepted r ts) \<le> 2 * unat (rc_maxTelegrams c)"
  proof (cases "rl_initialized r")
    case True
    then have "length (rl_accepted r ts) \<le> unat (rl_tokens r) + unat (rc_maxTelegrams c)"
      using w assms(2) accepted_two_windows [of r a ts] by simp
    moreover have "unat (rl_tokens r) \<le> unat (rc_maxTelegrams c)"
      using assms True by (simp add: rl_ok_def word_le_nat_alt)
    ultimately show ?thesis by simp
  next
    case False
    show ?thesis
    proof (cases ts)
      case (Cons t us)
      let ?r = "r\<lparr>rl_windowStartMs := t, rl_tokens := rc_maxTelegrams (rl_config r), rl_initialized := True\<rparr>"
      have "length (rl_accepted ?r ts) \<le> unat (rl_tokens ?r) + unat (rc_maxTelegrams (rl_config ?r))"
        using w assms(2) by (intro accepted_two_windows [where a = a]) simp_all
      then show ?thesis using accepted_uninitialized [of r t us] False assms w Cons by (simp add: mult_2)
    qed simp
  qed
qed

theorem rl_protects_bus_witness:
  "\<exists>r. rl_ok r \<and> length (rl_accepted r [0xFFFFFFF0, 0xFFFFFFF8, 0, 16]) \<le> 4"
proof -
  fix r0 :: rate_limiter
  define c where "c = \<lparr>rc_maxTelegrams = 2, rc_perWindowMs = 1000, rc_minGapMs = 20\<rparr>"
  let ?r = "rl_configure c r0"
  have ok: "rl_ok ?r" by (rule rl_configure_ok)
  have cfg: "c = rl_config ?r" by (simp add: rl_configure_def rl_reset_def)
  have m: "rc_maxTelegrams c = 2" "rc_perWindowMs c = 1000" by (simp_all add: c_def)
  have "length (rl_accepted ?r [0xFFFFFFF0, 0xFFFFFFF8, 0, 16]) \<le> 2 * unat (rc_maxTelegrams c)"
    using rl_protects_bus [OF ok cfg, where a = "0xFFFFFFF0" and ts = "[0xFFFFFFF0, 0xFFFFFFF8, 0, 16]"]
    by (simp add: m)
  then show ?thesis using ok by (auto simp: m)
qed

end
