(* ===== verification/Group_Runtime.thy ===== *)
theory Group_Runtime
  imports Object_Tables Group_Object
begin

text \<open>
  The group communication of the bus access unit (\<open>src/bau/bau_group_runtime.cpp\<close> and \<open>pumpReadOnInit\<close> of
  \<open>src/bau/bau.cpp\<close>): group objects bound to addresses through the address and association tables, outgoing
  values shaped by the transmit policy and the rate limiter, and the queue of incoming telegrams that
  \<open>loop\<close> hands to the objects.

  The stack port below (the abstract class \<open>BusAccessStackPort\<close>) and the callbacks of the application are
  parameters. A callback may do anything to the unit, so it is a function on its state.
\<close>

section \<open>State\<close>

datatype message_kind = MkUnknown | MkGroupValueWrite | MkGroupValueRead | MkGroupValueResponse

record inbound_event =
  ev_kind :: message_kind
  ev_destination :: group_address
  ev_objects :: "u16 list"
  ev_data :: bytes

datatype read_on_init = RoiPending | RoiRunning | RoiDone

text \<open>The queue of incoming events is created by the constructor and never null; it is the list of its
  events. \<open>bau_hasPort\<close> tells whether the pointer to the stack port is set.\<close>

record 'p bau =
  bau_addressTable :: address_table
  bau_associationTable :: association_table
  bau_objects :: go_table
  bau_initialized :: bool
  bau_hasPort :: bool
  bau_port :: 'p
  bau_individualAddress :: individual_address
  bau_autoQueue :: "(group_address \<times> bytes) ring"
  bau_deferred :: bool
  bau_autoActive :: bool
  bau_droppedAuto :: nat
  bau_droppedInbound :: nat
  bau_hadImmediateWork :: bool
  bau_inbound :: "inbound_event list"
  bau_limiter :: rate_limiter
  bau_roiState :: read_on_init
  bau_roiCursor :: u16

record 'p port_ops =
  po_addGroupAddress :: "group_address \<Rightarrow> 'p \<Rightarrow> 'p \<times> unit result"
  po_sendWrite :: "group_address \<Rightarrow> bytes \<Rightarrow> 'p \<Rightarrow> 'p \<times> unit result"
  po_sendResponse :: "group_address \<Rightarrow> bytes \<Rightarrow> 'p \<Rightarrow> 'p \<times> unit result"
  po_sendRead :: "group_address \<Rightarrow> 'p \<Rightarrow> 'p \<times> unit result"
  po_beginWrite :: "group_address \<Rightarrow> bytes \<Rightarrow> 'p \<Rightarrow> 'p \<times> unit result"
  po_beginResponse :: "group_address \<Rightarrow> bytes \<Rightarrow> 'p \<Rightarrow> 'p \<times> unit result"
  po_beginRead :: "group_address \<Rightarrow> 'p \<Rightarrow> 'p \<times> unit result"
  po_poll :: "'p \<Rightarrow> 'p \<times> progress result"

record 'p bau_env =
  be_port :: "'p port_ops"
  be_onWrite :: "(u16 \<Rightarrow> bytes \<Rightarrow> 'p bau \<Rightarrow> 'p bau) option"
  be_onRead :: "(u16 \<Rightarrow> 'p bau \<Rightarrow> 'p bau) option"
  be_onObject :: "go_call \<Rightarrow> 'p bau \<Rightarrow> 'p bau"
  be_onWork :: "('p bau \<Rightarrow> 'p bau) option"
  be_float :: float_ops
  be_double :: double_ops

definition AUTO_RESPONSE_QUEUE_CAPACITY :: nat where "AUTO_RESPONSE_QUEUE_CAPACITY = 4"
definition INBOUND_GROUP_EVENT_QUEUE_CAPACITY :: nat where "INBOUND_GROUP_EVENT_QUEUE_CAPACITY = 8"
definition kMaxInboundAssociatedGroupObjects :: nat where "kMaxInboundAssociatedGroupObjects = 16"
definition kMaxInboundGroupEventsPerLoop :: nat where "kMaxInboundGroupEventsPerLoop = 32"
definition kMaxReadOnInitPerLoop :: nat where "kMaxReadOnInitPerLoop = 4"
definition BAU_MAX_APDU_LENGTH :: nat where "BAU_MAX_APDU_LENGTH = 254"

definition bau_ready :: "'p bau \<Rightarrow> bool" where
  "bau_ready b \<longleftrightarrow> bau_initialized b \<and> bau_hasPort b"

text \<open>A call of the port, for a function of the unit that ends with it.\<close>

definition on_port :: "('p \<Rightarrow> 'p \<times> 'a) \<Rightarrow> 'p bau \<Rightarrow> 'p bau \<times> 'a" where
  "on_port f b = (case f (bau_port b) of (p, r) \<Rightarrow> (b\<lparr>bau_port := p\<rparr>, r))"

definition when_ready :: "('p bau \<Rightarrow> 'p bau \<times> 'a result) \<Rightarrow> 'p bau \<Rightarrow> 'p bau \<times> 'a result" where
  "when_ready f b = (if \<not> bau_initialized b \<or> \<not> bau_hasPort b then (b, Inl NotInitialized) else f b)"

section \<open>Objects and addresses\<close>

definition groupObject :: "'p bau \<Rightarrow> u16 \<Rightarrow> group_object option" where
  "groupObject b index = getGroupObject (bau_objects b) index"

text \<open>The change of an object through the pointer that \<open>groupObject\<close> returned.\<close>

definition set_object :: "u16 \<Rightarrow> group_object \<Rightarrow> 'p bau \<Rightarrow> 'p bau" where
  "set_object index g b = b\<lparr>bau_objects := (bau_objects b)[unat index := Some g]\<rparr>"

definition addGroupObject :: "'p bau_env \<Rightarrow> group_address \<Rightarrow> dpt_id \<Rightarrow> go_flags \<Rightarrow> 'p bau \<Rightarrow> 'p bau \<times> u16" where
  "addGroupObject E a dpt flags b =
     (case got_addGroupObject (go_new a dpt flags transmit_policy_default) (bau_objects b) of (os, index) \<Rightarrow>
        if index = 0xFFFF then (b\<lparr>bau_objects := os\<rparr>, 0xFFFF)
        else let b1 = b\<lparr>bau_objects := os\<rparr>;
                 b2 = (if bau_hasPort b1 then fst (on_port (po_addGroupAddress (be_port E) a) b1) else b1);
                 b3 = b2\<lparr>bau_addressTable := fst (at_addEntry a (bau_addressTable b2))\<rparr>;
                 addrIdx = at_findEntry (bau_addressTable b3) a;
                 b4 = (if addrIdx \<noteq> 0 \<and> \<not> as_hasAssociation (bau_associationTable b3) addrIdx index
                       then b3\<lparr>bau_associationTable :=
                              fst (as_add \<lparr>ae_addressIndex = addrIdx, ae_groupObject = index\<rparr> (bau_associationTable b3))\<rparr>
                       else b3)
             in (b4, index))"

definition addGroupObject_simple ::
  "'p bau_env \<Rightarrow> group_address \<Rightarrow> dpt_id \<Rightarrow> bool \<Rightarrow> bool \<Rightarrow> bool \<Rightarrow> bool \<Rightarrow> 'p bau \<Rightarrow> 'p bau \<times> u16" where
  "addGroupObject_simple E a dpt readable writable transmit receivable b =
     addGroupObject E a dpt
       \<lparr>gf_communication = True, gf_read = readable, gf_write = writable, gf_transmit = transmit,
        gf_update = receivable, gf_readOnInit = False, gf_priority = Low\<rparr> b"

text \<open>Binding in two steps: the address gets an index, the index an association.\<close>

definition bind_index :: "group_address \<Rightarrow> address_table \<Rightarrow> address_table \<times> u16" where
  "bind_index a t = (let known = at_findEntry t a in if known = 0 then at_addEntry a t else (t, known))"

definition bind_assoc :: "u16 \<Rightarrow> u16 \<Rightarrow> association_table \<Rightarrow> association_table \<times> unit result" where
  "bind_assoc ix i s =
     (if as_hasAssociation s ix i then (s, Inr ()) else as_add \<lparr>ae_addressIndex = ix, ae_groupObject = i\<rparr> s)"

definition bindGroupObjectToAddress :: "'p bau_env \<Rightarrow> u16 \<Rightarrow> group_address \<Rightarrow> 'p bau \<Rightarrow> 'p bau \<times> unit result" where
  "bindGroupObjectToAddress E i a b =
     (if \<not> ga_isValid a then (b, Inl InvalidAddress)
      else if groupObject b i = None then (b, Inl InvalidAddress)
      else case bind_index a (bau_addressTable b) of (t1, ix) \<Rightarrow>
        if ix = 0 then (b\<lparr>bau_addressTable := t1\<rparr>, Inl ResourceUnavailable)
        else case bind_assoc ix i (bau_associationTable b) of
               (_, Inl e) \<Rightarrow> (b\<lparr>bau_addressTable := t1\<rparr>, Inl e)
             | (s1, Inr _) \<Rightarrow>
                 (let b2 = b\<lparr>bau_addressTable := t1, bau_associationTable := s1\<rparr>
                  in if bau_hasPort b2 then on_port (po_addGroupAddress (be_port E) a) b2 else (b2, Inr ())))"

definition run_object_calls :: "'p bau_env \<Rightarrow> go_call list \<Rightarrow> 'p bau \<Rightarrow> 'p bau" where
  "run_object_calls E cs b = fold (be_onObject E) cs b"

definition setGroupObjectValue :: "'p bau_env \<Rightarrow> u16 \<Rightarrow> dpt_value \<Rightarrow> 'p bau \<Rightarrow> 'p bau \<times> unit result" where
  "setGroupObjectValue E index v b =
     (case groupObject b index of
        None \<Rightarrow> (b, Inl InvalidAddress)
      | Some g \<Rightarrow> (case go_setValue (be_float E) v g of (g1, r, cs) \<Rightarrow>
                     (run_object_calls E cs (set_object index g1 b), r)))"

definition isGroupObjectValid :: "'p bau \<Rightarrow> u16 \<Rightarrow> bool" where
  "isGroupObjectValid b index = (case groupObject b index of None \<Rightarrow> False | Some g \<Rightarrow> go_valid g)"

definition groupObjectAssociationCount :: "'p bau \<Rightarrow> u16 \<Rightarrow> nat" where
  "groupObjectAssociationCount b index =
     (case as_findAddressIndices (bau_associationTable b) index 0 of Inr (n, _) \<Rightarrow> n | Inl _ \<Rightarrow> 0)"

definition isGroupObjectLinked :: "'p bau \<Rightarrow> u16 \<Rightarrow> bool" where
  "isGroupObjectLinked b index \<longleftrightarrow> groupObjectAssociationCount b index > 0"

definition groupObjectValue :: "'p bau_env \<Rightarrow> 'p bau \<Rightarrow> u16 \<Rightarrow> dpt_value result" where
  "groupObjectValue E b index =
     (case groupObject b index of None \<Rightarrow> Inl InvalidAddress | Some g \<Rightarrow> go_value (be_float E) g)"

definition setGroupObjectTransmitPolicy :: "u16 \<Rightarrow> transmit_policy \<Rightarrow> 'p bau \<Rightarrow> 'p bau \<times> unit result" where
  "setGroupObjectTransmitPolicy index p b =
     (case groupObject b index of
        None \<Rightarrow> (b, Inl InvalidParameter)
      | Some g \<Rightarrow> (set_object index (go_setTransmitPolicy p g) b, Inr ()))"

definition groupObjectTransmitPolicy :: "'p bau \<Rightarrow> u16 \<Rightarrow> transmit_policy result" where
  "groupObjectTransmitPolicy b index =
     (case groupObject b index of None \<Rightarrow> Inl InvalidParameter | Some g \<Rightarrow> Inr (go_policy g))"

section \<open>Sending\<close>

definition sendGroupValue :: "'p bau_env \<Rightarrow> group_address \<Rightarrow> bytes \<Rightarrow> 'p bau \<Rightarrow> 'p bau \<times> unit result" where
  "sendGroupValue E a d = when_ready (on_port (po_sendWrite (be_port E) a d))"

definition beginSendGroupValue :: "'p bau_env \<Rightarrow> group_address \<Rightarrow> bytes \<Rightarrow> 'p bau \<Rightarrow> 'p bau \<times> unit result" where
  "beginSendGroupValue E a d = when_ready (on_port (po_beginWrite (be_port E) a d))"

definition requestGroupValue :: "'p bau_env \<Rightarrow> group_address \<Rightarrow> 'p bau \<Rightarrow> 'p bau \<times> unit result" where
  "requestGroupValue E a = when_ready (on_port (po_sendRead (be_port E) a))"

definition beginRequestGroupValue :: "'p bau_env \<Rightarrow> group_address \<Rightarrow> 'p bau \<Rightarrow> 'p bau \<times> unit result" where
  "beginRequestGroupValue E a = when_ready (on_port (po_beginRead (be_port E) a))"

definition pollOutboundTransmission :: "'p bau_env \<Rightarrow> 'p bau \<Rightarrow> 'p bau \<times> progress result" where
  "pollOutboundTransmission E = when_ready (on_port (po_poll (be_port E)))"

text \<open>Every object was added by \<open>addGroupObject\<close>, which installs \<open>requestGroupValue\<close> as its sender.\<close>

definition requestGroupObjectValue :: "'p bau_env \<Rightarrow> u16 \<Rightarrow> 'p bau \<Rightarrow> 'p bau \<times> unit result" where
  "requestGroupObjectValue E index b =
     (case groupObject b index of
        None \<Rightarrow> (b, Inl InvalidAddress)
      | Some g \<Rightarrow> go_requestValue (Some (requestGroupValue E)) g b)"

text \<open>The loop over the addresses of an object: address 0 is skipped, the last error is the result.\<close>

fun send_each :: "(group_address \<Rightarrow> 'p \<Rightarrow> 'p \<times> unit result) \<Rightarrow> address_table \<Rightarrow> u16 list \<Rightarrow> 'p \<Rightarrow> unit result
    \<Rightarrow> 'p \<times> unit result" where
  "send_each send t [] p res = (p, res)"
| "send_each send t (i # is) p res =
     (let ga = at_getAddress t i in
      if ga = 0 then send_each send t is p res
      else case send ga p of (p1, r) \<Rightarrow> send_each send t is p1 (if isOk r then res else r))"

definition send_on_associated :: "(group_address \<Rightarrow> 'p \<Rightarrow> 'p \<times> unit result) \<Rightarrow> u16 \<Rightarrow> 'p bau \<Rightarrow> 'p bau \<times> unit result" where
  "send_on_associated send index b =
     (case as_findAddressIndices (bau_associationTable b) index 32 of
        Inl e \<Rightarrow> (b, Inl e)
      | Inr (count, is) \<Rightarrow>
          if count = 0 then (b, Inr ())
          else on_port (\<lambda>p. send_each send (bau_addressTable b) is p (Inr ())) b)"

definition emitGroupValueForObject :: "'p bau_env \<Rightarrow> u16 \<Rightarrow> bytes \<Rightarrow> 'p bau \<Rightarrow> 'p bau \<times> unit result" where
  "emitGroupValueForObject E index d = when_ready (send_on_associated (\<lambda>ga. po_sendWrite (be_port E) ga d) index)"

definition respondGroupValueForObject :: "'p bau_env \<Rightarrow> u16 \<Rightarrow> bytes \<Rightarrow> 'p bau \<Rightarrow> 'p bau \<times> unit result" where
  "respondGroupValueForObject E index d = when_ready (send_on_associated (\<lambda>ga. po_sendResponse (be_port E) ga d) index)"

text \<open>Emit, and note the time on success.\<close>

definition emit_and_note :: "'p bau_env \<Rightarrow> u16 \<Rightarrow> group_object \<Rightarrow> bytes \<Rightarrow> u32 \<Rightarrow> 'p bau \<Rightarrow> 'p bau \<times> unit result" where
  "emit_and_note E index g d now b =
     (case emitGroupValueForObject E index d b of
        (b1, Inl e) \<Rightarrow> (b1, Inl e)
      | (b1, Inr _) \<Rightarrow> (set_object index (go_noteTransmitted now g) b1, Inr ()))"

text \<open>\<open>clock\<close> is \<open>None\<close> when no time source is configured.\<close>

definition sendGroupValueForObject ::
  "'p bau_env \<Rightarrow> u32 option \<Rightarrow> u16 \<Rightarrow> bytes \<Rightarrow> 'p bau \<Rightarrow> 'p bau \<times> unit result" where
  "sendGroupValueForObject E clock index d = when_ready (\<lambda>b.
     if \<not> isGroupObjectLinked b index then (b, Inr ())
     else let now = (case clock of Some t \<Rightarrow> t | None \<Rightarrow> 0) in
       case groupObject b index of
         None \<Rightarrow> emitGroupValueForObject E index d b
       | Some g \<Rightarrow>
           (case go_decidePublish (be_float E) (be_double E) now g of
              Suppress \<Rightarrow> (b, Inr ())
            | dec \<Rightarrow>
                if dec = Defer \<and> clock \<noteq> None then (set_object index (go_setPendingSend True g) b, Inr ())
                else if clock = None then emit_and_note E index g d now b
                else (case rl_tryConsume (bau_limiter b) now of (l, ok) \<Rightarrow>
                        let b1 = b\<lparr>bau_limiter := l\<rparr>
                        in if \<not> ok then (set_object index (go_setPendingSend True g) b1, Inr ())
                           else emit_and_note E index g d now b1)))"



section \<open>Work notification and automatic responses\<close>

definition hasImmediateWork :: "'p bau \<Rightarrow> bool" where
  "hasImmediateWork b \<longleftrightarrow> length (bau_inbound b) > 0 \<or> ring_count (bau_autoQueue b) > 0"

definition refreshWorkAvailabilityState :: "'p bau \<Rightarrow> 'p bau" where
  "refreshWorkAvailabilityState b = b\<lparr>bau_hadImmediateWork := hasImmediateWork b\<rparr>"

definition notifyWorkAvailableIfTransitioned :: "'p bau_env \<Rightarrow> 'p bau \<Rightarrow> 'p bau" where
  "notifyWorkAvailableIfTransitioned E b =
     (let has = hasImmediateWork b;
          b1 = (if \<not> bau_hadImmediateWork b \<and> has
                then (case be_onWork E of Some f \<Rightarrow> f b | None \<Rightarrow> b) else b)
      in b1\<lparr>bau_hadImmediateWork := has\<rparr>)"

definition auto_enq :: "(group_address \<times> bytes) ring \<Rightarrow> group_address \<times> bytes \<Rightarrow> (group_address \<times> bytes) ring" where
  "auto_enq q x = (if ring_count q \<ge> AUTO_RESPONSE_QUEUE_CAPACITY then q else ring_push q x)"

definition auto_deq :: "(group_address \<times> bytes) ring \<Rightarrow> ((group_address \<times> bytes) \<times> (group_address \<times> bytes) ring) option" where
  "auto_deq q = (if ring_count q = 0 then None else Some (ring_pop q))"

definition enqueueAutomaticResponse :: "'p bau_env \<Rightarrow> group_address \<Rightarrow> bytes \<Rightarrow> 'p bau \<Rightarrow> 'p bau" where
  "enqueueAutomaticResponse E a d b =
     (if ring_count (bau_autoQueue b) \<ge> AUTO_RESPONSE_QUEUE_CAPACITY
      then b\<lparr>bau_droppedAuto := bau_droppedAuto b + 1\<rparr>
      else notifyWorkAvailableIfTransitioned E (b\<lparr>bau_autoQueue := auto_enq (bau_autoQueue b) (a, d)\<rparr>))"

definition popAutomaticResponse :: "'p bau \<Rightarrow> 'p bau \<times> (group_address \<times> bytes) option" where
  "popAutomaticResponse b =
     (case auto_deq (bau_autoQueue b) of
        None \<Rightarrow> (b, None)
      | Some (x, q) \<Rightarrow> (refreshWorkAvailabilityState (b\<lparr>bau_autoQueue := q\<rparr>), Some x))"

definition beginProcessAutomaticResponse :: "'p bau_env \<Rightarrow> 'p bau \<Rightarrow> 'p bau \<times> unit result" where
  "beginProcessAutomaticResponse E = when_ready (\<lambda>b.
     if bau_autoActive b then (b, Inl EBusy)
     else case popAutomaticResponse b of
            (b1, None) \<Rightarrow> (b1, Inl OperationNotReady)
          | (b1, Some (a, d)) \<Rightarrow>
              (case on_port (po_beginResponse (be_port E) a d) b1 of
                 (b2, Inl e) \<Rightarrow> (enqueueAutomaticResponse E a d b2, Inl e)
               | (b2, Inr _) \<Rightarrow> (b2\<lparr>bau_autoActive := True\<rparr>, Inr ())))"

definition pollProcessAutomaticResponse :: "'p bau_env \<Rightarrow> 'p bau \<Rightarrow> 'p bau \<times> progress result" where
  "pollProcessAutomaticResponse E = when_ready (\<lambda>b.
     if \<not> bau_autoActive b then (b, Inl OperationNotReady)
     else case on_port (po_poll (be_port E)) b of
            (b1, Inl e) \<Rightarrow> (b1\<lparr>bau_autoActive := False\<rparr>, Inl e)
          | (b1, Inr p) \<Rightarrow> ((if p \<noteq> Pending then b1\<lparr>bau_autoActive := False\<rparr> else b1), Inr p))"

text \<open>The result of a transmission that has ended.\<close>

fun progress_outcome :: "progress result \<Rightarrow> unit result" where
  "progress_outcome (Inl e) = Inl e"
| "progress_outcome (Inr Busy) = Inl EBusy"
| "progress_outcome (Inr TransmissionFailed) = Inl ETransmissionFailed"
| "progress_outcome (Inr Timeout) = Inl ETimeout"
| "progress_outcome (Inr _) = Inr ()"

text \<open>The polling loop of \<open>sendAutomaticResponseImmediate\<close>; it ends when the port leaves \<open>Pending\<close>.\<close>

partial_function (option) await_response :: "('p \<Rightarrow> 'p \<times> progress result) \<Rightarrow> 'p \<Rightarrow> ('p \<times> unit result) option" where
  "await_response poll p =
     (case poll p of (p1, r) \<Rightarrow> if r = Inr Pending then await_response poll p1 else Some (p1, progress_outcome r))"

definition sendAutomaticResponseImmediate ::
  "'p bau_env \<Rightarrow> group_address \<Rightarrow> bytes \<Rightarrow> 'p bau \<Rightarrow> ('p bau \<times> unit result) option" where
  "sendAutomaticResponseImmediate E a d b =
     (if \<not> bau_initialized b \<or> \<not> bau_hasPort b then Some (b, Inl NotInitialized)
      else case on_port (po_beginResponse (be_port E) a d) b of
             (b1, Inl e) \<Rightarrow> Some (b1, Inl e)
           | (b1, Inr _) \<Rightarrow>
               map_option (\<lambda>(p, r). (b1\<lparr>bau_port := p\<rparr>, r)) (await_response (po_poll (be_port E)) (bau_port b1)))"

section \<open>Incoming telegrams\<close>

definition enqueueInboundGroupEvent ::
  "'p bau_env \<Rightarrow> message_kind \<Rightarrow> group_address \<Rightarrow> bytes \<Rightarrow> u16 list \<Rightarrow> 'p bau \<Rightarrow> 'p bau \<times> bool" where
  "enqueueInboundGroupEvent E kind a d objs b =
     (if length objs > kMaxInboundAssociatedGroupObjects \<or> length d > BAU_MAX_APDU_LENGTH
      then (b\<lparr>bau_droppedInbound := bau_droppedInbound b + 1\<rparr>, False)
      else if length (bau_inbound b) \<ge> INBOUND_GROUP_EVENT_QUEUE_CAPACITY
      then (b\<lparr>bau_droppedInbound := bau_droppedInbound b + 1\<rparr>, False)
      else (notifyWorkAvailableIfTransitioned E (b\<lparr>bau_inbound := bau_inbound b @
              [\<lparr>ev_kind = kind, ev_destination = a, ev_objects = objs, ev_data = d\<rparr>]\<rparr>), True))"

definition handleApplicationFrame ::
  "'p bau_env \<Rightarrow> group_address \<Rightarrow> message_kind \<Rightarrow> bytes \<Rightarrow> address_type \<Rightarrow> 'p bau \<Rightarrow> 'p bau" where
  "handleApplicationFrame E a kind d destinationType b =
     (if destinationType \<noteq> Group then b
      else let addressIdx = at_findEntry (bau_addressTable b) a;
               assoc = (if addressIdx \<noteq> 0
                        then (case as_findGroupObjects (bau_associationTable b) addressIdx 16 of
                                Inr (_, gs) \<Rightarrow> gs | Inl _ \<Rightarrow> [])
                        else [])
           in if assoc = [] then b
              else if kind = MkGroupValueWrite \<or> kind = MkGroupValueResponse
              then fst (enqueueInboundGroupEvent E kind a d assoc b)
              else if kind = MkGroupValueRead then fst (enqueueInboundGroupEvent E kind a [] assoc b)
              else b)"

text \<open>The three loops over the associated objects of one event.\<close>

fun deliver_value :: "'p bau_env \<Rightarrow> value_source \<Rightarrow> bytes \<Rightarrow> u16 list \<Rightarrow> 'p bau \<Rightarrow> 'p bau" where
  "deliver_value E src d [] b = b"
| "deliver_value E src d (i # is) b =
     (case groupObject b i of
        None \<Rightarrow> deliver_value E src d is b
      | Some g \<Rightarrow>
          (case go_receiveValue d src g of
             (g1, Inl e, cs) \<Rightarrow> deliver_value E src d is (run_object_calls E cs (set_object i g1 b))
           | (g1, Inr _, cs) \<Rightarrow>
               (let b1 = run_object_calls E cs (set_object i g1 b);
                    b2 = (if src = FromWrite then (case be_onWrite E of Some f \<Rightarrow> f i d b1 | None \<Rightarrow> b1) else b1)
                in deliver_value E src d is b2)))"

fun announce_read :: "'p bau_env \<Rightarrow> u16 list \<Rightarrow> 'p bau \<Rightarrow> 'p bau" where
  "announce_read E [] b = b"
| "announce_read E (i # is) b =
     (case groupObject b i of
        None \<Rightarrow> announce_read E is b
      | Some g \<Rightarrow>
          announce_read E is
            (if go_readable g then (case be_onRead E of Some f \<Rightarrow> f i b | None \<Rightarrow> b) else b))"

definition answers :: "'p bau \<Rightarrow> u16 \<Rightarrow> bool" where
  "answers b i \<longleftrightarrow> (case groupObject b i of None \<Rightarrow> False | Some g \<Rightarrow> go_readable g \<and> go_valid g \<and> bau_hasPort b)"

fun answer_read :: "'p bau_env \<Rightarrow> group_address \<Rightarrow> u16 list \<Rightarrow> 'p bau \<Rightarrow> 'p bau option" where
  "answer_read E a [] b = Some b"
| "answer_read E a (i # is) b =
     (case groupObject b i of
        None \<Rightarrow> answer_read E a is b
      | Some g \<Rightarrow>
          if go_readable g \<and> go_valid g \<and> bau_hasPort b
          then (if bau_deferred b then Some (enqueueAutomaticResponse E a (go_rawValue g) b)
                else map_option fst (sendAutomaticResponseImmediate E a (go_rawValue g) b))
          else answer_read E a is b)"

definition process_event :: "'p bau_env \<Rightarrow> inbound_event \<Rightarrow> 'p bau \<Rightarrow> 'p bau option" where
  "process_event E ev b =
     (if ev_kind ev = MkGroupValueWrite then Some (deliver_value E FromWrite (ev_data ev) (ev_objects ev) b)
      else if ev_kind ev = MkGroupValueResponse then Some (deliver_value E FromResponse (ev_data ev) (ev_objects ev) b)
      else if ev_kind ev \<noteq> MkGroupValueRead then Some b
      else answer_read E (ev_destination ev) (ev_objects ev) (announce_read E (ev_objects ev) b))"

fun process_events :: "'p bau_env \<Rightarrow> nat \<Rightarrow> 'p bau \<Rightarrow> 'p bau option" where
  "process_events E 0 b = Some b"
| "process_events E (Suc n) b =
     (case bau_inbound b of
        [] \<Rightarrow> Some b
      | ev # evs \<Rightarrow>
          (case process_event E ev (b\<lparr>bau_inbound := evs\<rparr>) of
             None \<Rightarrow> None
           | Some b1 \<Rightarrow> process_events E n b1))"

definition processInboundGroupEvents :: "'p bau_env \<Rightarrow> 'p bau \<Rightarrow> 'p bau option" where
  "processInboundGroupEvents E b = process_events E kMaxInboundGroupEventsPerLoop b"

definition clearInboundGroupEvents :: "'p bau \<Rightarrow> 'p bau" where
  "clearInboundGroupEvents b = b\<lparr>bau_inbound := []\<rparr>"

section \<open>Reading values on initialisation\<close>

text \<open>The loop of \<open>pumpReadOnInit\<close> over the positions from the cursor to the end of the table; \<open>n\<close> more
  reads may be issued in this pass. The flag tells that it was left early because the bus was busy.\<close>

fun roi_loop :: "'p bau_env \<Rightarrow> nat \<Rightarrow> nat list \<Rightarrow> 'p bau \<Rightarrow> 'p bau \<times> bool" where
  "roi_loop E n [] b = (b, False)"
| "roi_loop E n (i # is) b =
     (if n = 0 then (b, False)
      else let b1 = b\<lparr>bau_roiCursor := bau_roiCursor b + 1\<rparr> in
        case groupObject b (of_nat i) of
          None \<Rightarrow> roi_loop E n is b1
        | Some g \<Rightarrow>
            if \<not> go_readOnInit g then roi_loop E n is b1
            else if \<not> ga_isValid (go_address g) then roi_loop E n is b1
            else case requestGroupValue E (go_address g) b1 of (b2, r) \<Rightarrow>
                   if r = Inl EBusy \<or> r = Inl QueueFull then (b2\<lparr>bau_roiCursor := bau_roiCursor b2 - 1\<rparr>, True)
                   else roi_loop E (n - 1) is b2)"

definition pumpReadOnInit :: "'p bau_env \<Rightarrow> 'p bau \<Rightarrow> 'p bau" where
  "pumpReadOnInit E b =
     (if bau_roiState b = RoiDone then b
      else if \<not> bau_initialized b \<or> \<not> ia_isValid (bau_individualAddress b) then b
      else let b1 = (if bau_roiState b = RoiPending then b\<lparr>bau_roiState := RoiRunning, bau_roiCursor := 0\<rparr> else b);
               count = length (bau_objects b1)
           in case roi_loop E kMaxReadOnInitPerLoop [unat (bau_roiCursor b1)..<count] b1 of
                (b2, True) \<Rightarrow> b2
              | (b2, False) \<Rightarrow> if unat (bau_roiCursor b2) \<ge> count then b2\<lparr>bau_roiState := RoiDone\<rparr> else b2)"

section \<open>Delivery of a group value\<close>

text \<open>Callbacks that leave the group objects and the queue of incoming telegrams alone. Nothing else is
  asked of them.\<close>

definition quiet :: "'p bau_env \<Rightarrow> bool" where
  "quiet E \<longleftrightarrow>
     (\<forall>f i d b. be_onWrite E = Some f \<longrightarrow> bau_objects (f i d b) = bau_objects b \<and> bau_inbound (f i d b) = bau_inbound b)
     \<and> (\<forall>c b. bau_objects (be_onObject E c b) = bau_objects b \<and> bau_inbound (be_onObject E c b) = bau_inbound b)
     \<and> (\<forall>f b. be_onWork E = Some f \<longrightarrow> bau_objects (f b) = bau_objects b \<and> bau_inbound (f b) = bau_inbound b)"

lemma getGroupObject_update:
  assumes "getGroupObject t i = Some g0"
  shows "getGroupObject (t[unat i := Some g]) j = (if j = i then Some g else getGroupObject t j)"
proof -
  have i: "unat i < length t" "i \<noteq> 0xFFFF" "unat i < kMaxObjects"
    using assms by (auto simp: getGroupObject_def got_toDomainIndex_def got_get_def split: if_splits)
  have "unat j = unat i \<longleftrightarrow> j = i" by (metis word_unat_eq_iff)
  with i show ?thesis
    by (auto simp: getGroupObject_def got_toDomainIndex_def got_get_def split: if_splits)
qed

lemma groupObject_set:
  "groupObject b i = Some g0 \<Longrightarrow> groupObject (set_object i g b) j = (if j = i then Some g else groupObject b j)"
  by (simp add: groupObject_def set_object_def getGroupObject_update)

lemma groupObject_cong: "bau_objects b1 = bau_objects b \<Longrightarrow> groupObject b1 = groupObject b"
  by (simp add: groupObject_def fun_eq_iff)

lemma quiet_calls:
  "quiet E \<Longrightarrow> bau_objects (run_object_calls E cs b) = bau_objects b \<and> bau_inbound (run_object_calls E cs b) = bau_inbound b"
  unfolding run_object_calls_def by (induction cs arbitrary: b) (auto simp: quiet_def)

lemma quiet_notify:
  assumes "quiet E"
  shows "bau_objects (notifyWorkAvailableIfTransitioned E b) = bau_objects b
       \<and> bau_inbound (notifyWorkAvailableIfTransitioned E b) = bau_inbound b"
  using assms by (auto simp: notifyWorkAvailableIfTransitioned_def Let_def quiet_def split: option.split)

definition takes :: "value_source \<Rightarrow> group_object \<Rightarrow> bool" where
  "takes src g \<longleftrightarrow> (if src = FromWrite then go_writable g else go_updatable g)"

definition stored :: "bytes \<Rightarrow> group_object \<Rightarrow> group_object" where
  "stored d g = g\<lparr>go_rawValue := d, go_valid := True\<rparr>"

lemma stored_simps [simp]: "takes src (stored d g) = takes src g" "stored d (stored d g) = stored d g"
  by (simp_all add: stored_def takes_def go_writable_def go_updatable_def)

definition updated :: "value_source \<Rightarrow> bytes \<Rightarrow> group_object \<Rightarrow> group_object" where
  "updated src d g = (if takes src g \<and> length d \<le> 16 then stored d g else g)"

lemma updated_idem [simp]: "updated src d (updated src d g) = updated src d g"
  by (simp add: updated_def)

lemma receive_updated: "fst (go_receiveValue d src g) = updated src d g"
  by (simp add: go_receiveValue_spec updated_def takes_def stored_def)

lemma deliver_step:
  assumes "quiet E" "groupObject b i = Some g"
  shows "\<exists>b1. deliver_value E src d (i # is) b = deliver_value E src d is b1
     \<and> groupObject b1 = (groupObject b)(i := Some (updated src d g)) \<and> bau_inbound b1 = bau_inbound b"
proof -
  obtain r cs where rc: "go_receiveValue d src g = (updated src d g, r, cs)"
    using receive_updated [of d src g] by (metis prod.collapse)
  let ?b = "run_object_calls E cs (set_object i (updated src d g) b)"
  have o: "groupObject ?b = (groupObject b)(i := Some (updated src d g))" "bau_inbound ?b = bau_inbound b"
    using quiet_calls [OF assms(1), of cs "set_object i (updated src d g) b"] groupObject_set [OF assms(2)]
    by (auto simp: fun_eq_iff groupObject_def set_object_def)
  show ?thesis
  proof (cases r)
    case (Inl e)
    then show ?thesis using o rc assms(2) by auto
  next
    case (Inr u)
    let ?b2 = "if src = FromWrite then (case be_onWrite E of Some f \<Rightarrow> f i d ?b | None \<Rightarrow> ?b) else ?b"
    have "bau_objects ?b2 = bau_objects ?b" "bau_inbound ?b2 = bau_inbound ?b"
      using assms(1) by (auto simp: quiet_def split: option.split)
    then have "groupObject ?b2 = (groupObject b)(i := Some (updated src d g))" "bau_inbound ?b2 = bau_inbound b"
      using o groupObject_cong by metis+
    then show ?thesis using rc assms(2) Inr by (auto simp: Let_def)
  qed
qed

lemma deliver_value_objects:
  assumes "quiet E"
  shows "groupObject (deliver_value E src d is b) j =
           map_option (if j \<in> set is then updated src d else id) (groupObject b j)
       \<and> bau_inbound (deliver_value E src d is b) = bau_inbound b"
proof (induction "is" arbitrary: b)
  case Nil
  then show ?case by (simp add: id_def option.map_ident)
next
  case (Cons i "is")
  show ?case
  proof (cases "groupObject b i")
    case None
    then show ?thesis using Cons [of b] by auto
  next
    case (Some g)
    then obtain b1 where b1: "deliver_value E src d (i # is) b = deliver_value E src d is b1"
        "groupObject b1 = (groupObject b)(i := Some (updated src d g))" "bau_inbound b1 = bau_inbound b"
      using deliver_step [OF assms Some] by blast
    show ?thesis using Cons [of b1] b1 Some by auto
  qed
qed

text \<open>The objects a group address leads to, through the two tables.\<close>

definition associated :: "'p bau \<Rightarrow> group_address \<Rightarrow> u16 list" where
  "associated b a =
     (let ix = at_findEntry (bau_addressTable b) a in
      if ix = 0 then [] else map ae_groupObject (filter (\<lambda>e. ae_addressIndex e = ix) (as_entries (bau_associationTable b))))"

lemma handle_assoc:
  assumes "length (associated b a) \<le> 16"
  shows "(if at_findEntry (bau_addressTable b) a \<noteq> 0
          then (case as_findGroupObjects (bau_associationTable b) (at_findEntry (bau_addressTable b) a) 16 of
                  Inr (_, gs) \<Rightarrow> gs | Inl _ \<Rightarrow> []) else []) = associated b a"
  using assms by (auto simp: associated_def as_findGroupObjects_def Let_def)

lemma handle_enqueues:
  assumes "length (associated b a) \<le> 16" "associated b a \<noteq> []" "length (bau_inbound b) < 8" "length d \<le> 254"
    and "kind = MkGroupValueRead \<Longrightarrow> d = []" "kind \<noteq> MkUnknown"
  shows "handleApplicationFrame E a kind d Group b =
     notifyWorkAvailableIfTransitioned E (b\<lparr>bau_inbound := bau_inbound b @
       [\<lparr>ev_kind = kind, ev_destination = a, ev_objects = associated b a, ev_data = d\<rparr>]\<rparr>)"
  using assms
  by (cases kind)
     (simp_all add: handleApplicationFrame_def handle_assoc Let_def enqueueInboundGroupEvent_def
       kMaxInboundAssociatedGroupObjects_def BAU_MAX_APDU_LENGTH_def INBOUND_GROUP_EVENT_QUEUE_CAPACITY_def)

lemma handle_nothing:
  assumes "associated b a = [] \<or> length d > 254 \<and> kind \<in> {MkGroupValueWrite, MkGroupValueResponse}" "length (associated b a) \<le> 16"
  shows "bau_objects (handleApplicationFrame E a kind d Group b) = bau_objects b
       \<and> bau_inbound (handleApplicationFrame E a kind d Group b) = bau_inbound b"
  using assms
  by (auto simp: handleApplicationFrame_def handle_assoc Let_def enqueueInboundGroupEvent_def BAU_MAX_APDU_LENGTH_def)

lemma process_single:
  assumes "bau_inbound b = [ev]" "process_event E ev (b\<lparr>bau_inbound := []\<rparr>) = Some b1" "bau_inbound b1 = []"
  shows "processInboundGroupEvents E b = Some b1"
  using assms by (simp add: processInboundGroupEvents_def kMaxInboundGroupEventsPerLoop_def numeral_eq_Suc)

text \<open>The objects a telegram is handed to: those associated with its address, if there are at most 16 of them, and
  none otherwise (the buffer of \<open>handleApplicationFrame\<close> is too small, and the telegram is discarded).\<close>

definition reached :: "'p bau \<Rightarrow> group_address \<Rightarrow> u16 list" where
  "reached b a = (if length (associated b a) \<le> 16 then associated b a else [])"

lemma crowded_ignored: "16 < length (associated b a) \<Longrightarrow> handleApplicationFrame E a kind d Group b = b"
  by (auto simp: handleApplicationFrame_def associated_def as_findGroupObjects_def Let_def split: if_splits)

lemma process_none: "bau_inbound b = [] \<Longrightarrow> processInboundGroupEvents E b = Some b"
  by (simp add: processInboundGroupEvents_def kMaxInboundGroupEventsPerLoop_def numeral_eq_Suc)

lemma group_value_core:
  assumes "quiet E" "bau_inbound b = []" "length (associated b a) \<le> 16"
    and "(kind, src) \<in> {(MkGroupValueWrite, FromWrite), (MkGroupValueResponse, FromResponse)}"
  shows "\<exists>b1. processInboundGroupEvents E (handleApplicationFrame E a kind d Group b) = Some b1 \<and> bau_inbound b1 = []
    \<and> (\<forall>j. groupObject b1 j =
          map_option (\<lambda>g. if j \<in> set (associated b a) \<and> takes src g \<and> length d \<le> 16 then stored d g else g) (groupObject b j))"
proof (cases "associated b a = [] \<or> length d > 254")
  case True
  let ?b = "handleApplicationFrame E a kind d Group b"
  have "bau_objects ?b = bau_objects b" "bau_inbound ?b = []"
    using handle_nothing [of b a d kind E] True assms by auto
  moreover from this have "processInboundGroupEvents E ?b = Some ?b" by (intro process_none)
  moreover have "groupObject ?b = groupObject b" using calculation(1) by (rule groupObject_cong)
  ultimately show ?thesis using True by (auto simp: option.map_ident)
next
  case False
  let ?ev = "\<lparr>ev_kind = kind, ev_destination = a, ev_objects = associated b a, ev_data = d\<rparr>"
  let ?b = "handleApplicationFrame E a kind d Group b"
  have h: "?b = notifyWorkAvailableIfTransitioned E (b\<lparr>bau_inbound := [?ev]\<rparr>)"
    using handle_enqueues [of b a d kind E] False assms by auto
  have q: "bau_objects ?b = bau_objects b" "bau_inbound ?b = [?ev]"
    unfolding h using quiet_notify [OF assms(1)] by simp_all
  let ?b1 = "deliver_value E src d (associated b a) (?b\<lparr>bau_inbound := []\<rparr>)"
  have p: "process_event E ?ev (?b\<lparr>bau_inbound := []\<rparr>) = Some ?b1"
    using assms(4) by (auto simp: process_event_def)
  have g: "groupObject (?b\<lparr>bau_inbound := []\<rparr>) = groupObject b" using q(1) by (intro groupObject_cong) simp
  note dv = deliver_value_objects [OF assms(1), of src d "associated b a" "?b\<lparr>bau_inbound := []\<rparr>"]
  have "processInboundGroupEvents E ?b = Some ?b1" using q(2) p dv by (intro process_single) auto
  moreover have "groupObject ?b1 j =
      map_option (\<lambda>g. if j \<in> set (associated b a) \<and> takes src g \<and> length d \<le> 16 then stored d g else g) (groupObject b j)" for j
    using dv g by (auto simp: updated_def fun_eq_iff intro: option.map_cong split: option.split)
  ultimately show ?thesis using dv by auto
qed

lemma group_value_reached:
  assumes "quiet E" "bau_inbound b = []"
    and "(kind, src) \<in> {(MkGroupValueWrite, FromWrite), (MkGroupValueResponse, FromResponse)}"
  shows "\<exists>b1. processInboundGroupEvents E (handleApplicationFrame E a kind d Group b) = Some b1 \<and> bau_inbound b1 = []
    \<and> (\<forall>j. groupObject b1 j =
          map_option (\<lambda>g. if j \<in> set (reached b a) \<and> takes src g \<and> length d \<le> 16 then stored d g else g) (groupObject b j))"
proof (cases "length (associated b a) \<le> 16")
  case True
  then show ?thesis using group_value_core [OF assms(1,2) _ assms(3), of a d] by (simp add: reached_def)
next
  case False
  then show ?thesis
    using crowded_ignored [of b a E kind d] process_none [OF assms(2)] assms(2)
    by (intro exI [of _ b]) (simp add: reached_def option.map_ident)
qed

text \<open>
  C15. A group telegram changes exactly the objects it is meant for. When an \<open>A_GroupValue_Write\<close> or
  \<open>A_GroupValue_Response\<close> arrives for a group address with at most 16 associated objects and the loop then runs,
  every object that the tables associate with the address, that its flags open to this service (write enable
  for a write, update enable for a response, communication enable for both) and whose buffer the value fits
  holds the value afterwards and is valid; every other object is as before. No other telegram waits in the queue,
  and the application's callbacks may do anything but touch the objects or the queue.
\<close>
theorem group_value_delivered:
  assumes "quiet E" "bau_inbound b = []" "length (associated b a) \<le> 16"
    and "(kind, src) \<in> {(MkGroupValueWrite, FromWrite), (MkGroupValueResponse, FromResponse)}"
  shows "\<exists>b1. processInboundGroupEvents E (handleApplicationFrame E a kind d Group b) = Some b1 \<and> bau_inbound b1 = []
    \<and> (\<forall>j. groupObject b1 j =
          map_option (\<lambda>g. if j \<in> set (associated b a) \<and> takes src g \<and> length d \<le> 16 then stored d g else g) (groupObject b j))"
  by (rule group_value_core [OF assms])

text \<open>A stack port that records what it is asked to send and accepts everything, and a unit with one object,
  for concrete runs.\<close>

datatype port_call = CallWrite group_address bytes | CallResponse group_address bytes | CallRead group_address

definition recording_port :: "port_call list port_ops" where
  "recording_port =
     \<lparr>po_addGroupAddress = (\<lambda>a p. (p, Inr ())),
      po_sendWrite = (\<lambda>a d p. (p @ [CallWrite a d], Inr ())), po_sendResponse = (\<lambda>a d p. (p @ [CallResponse a d], Inr ())),
      po_sendRead = (\<lambda>a p. (p @ [CallRead a], Inr ())),
      po_beginWrite = (\<lambda>a d p. (p @ [CallWrite a d], Inr ())), po_beginResponse = (\<lambda>a d p. (p @ [CallResponse a d], Inr ())),
      po_beginRead = (\<lambda>a p. (p @ [CallRead a], Inr ())), po_poll = (\<lambda>p. (p, Inr Success))\<rparr>"

definition recording_env :: "float_ops \<Rightarrow> double_ops \<Rightarrow> port_call list bau_env" where
  "recording_env F D =
     \<lparr>be_port = recording_port, be_onWrite = None, be_onRead = None, be_onObject = (\<lambda>_ b. b), be_onWork = None,
      be_float = F, be_double = D\<rparr>"

definition all_flags :: go_flags where
  "all_flags = \<lparr>gf_communication = True, gf_read = True, gf_write = True, gf_transmit = True, gf_update = True,
     gf_readOnInit = True, gf_priority = Low\<rparr>"

definition sample_bau :: "port_call list bau" where
  "sample_bau =
     \<lparr>bau_addressTable = \<lparr>at_entries = [0x0801], at_loadState = 1\<rparr>,
      bau_associationTable = \<lparr>as_entries = [\<lparr>ae_addressIndex = 1, ae_groupObject = 0\<rparr>], as_loadState = 1\<rparr>,
      bau_objects = [Some (go_new 0x0801 (1, 1) all_flags transmit_policy_default)],
      bau_initialized = True, bau_hasPort = True, bau_port = [], bau_individualAddress = 0x1101,
      bau_autoQueue = \<lparr>ring_slots = replicate 4 (0, []), ring_head = 0, ring_count = 0\<rparr>,
      bau_deferred = True, bau_autoActive = False, bau_droppedAuto = 0, bau_droppedInbound = 0,
      bau_hadImmediateWork = False, bau_inbound = [],
      bau_limiter = rl_reset \<lparr>rl_config = \<lparr>rc_maxTelegrams = 0, rc_perWindowMs = 1000, rc_minGapMs = 0\<rparr>,
        rl_initialized = False, rl_hasSent = False, rl_tokens = 0, rl_windowStartMs = 0, rl_lastSendMs = 0\<rparr>,
      bau_roiState = RoiPending, bau_roiCursor = 0\<rparr>"

lemma recording_quiet: "quiet (recording_env F D)"
  by (simp add: quiet_def recording_env_def)

lemma sample_associated: "associated sample_bau 0x0801 = [0]"
  by (simp add: associated_def sample_bau_def at_findEntry_def at_findIndex_def)

lemma sample_object: "groupObject sample_bau 0 = Some (go_new 0x0801 (1, 1) all_flags transmit_policy_default)"
  by (simp add: sample_bau_def groupObject_def getGroupObject_def got_toDomainIndex_def kMaxObjects_def got_get_def)

theorem group_value_delivered_witness:
  "\<exists>E b1. processInboundGroupEvents E (handleApplicationFrame E 0x0801 MkGroupValueWrite [1] Group sample_bau) = Some b1
     \<and> groupObject b1 0 = Some (stored [1] (go_new 0x0801 (1, 1) all_flags transmit_policy_default))"
proof -
  fix F D
  have "bau_inbound sample_bau = []" by (simp add: sample_bau_def)
  from group_value_delivered [OF recording_quiet [of F D] this, of "0x0801" MkGroupValueWrite FromWrite "[1]"]
  obtain b1 where p: "processInboundGroupEvents (recording_env F D)
        (handleApplicationFrame (recording_env F D) 0x0801 MkGroupValueWrite [1] Group sample_bau) = Some b1"
      and o: "groupObject b1 0 =
        map_option (\<lambda>g. if takes FromWrite g then stored [1] g else g) (groupObject sample_bau 0)"
    by (auto simp: sample_associated)
  from o have "groupObject b1 0 = Some (stored [1] (go_new 0x0801 (1, 1) all_flags transmit_policy_default))"
    by (simp add: sample_object takes_def go_writable_def go_new_def all_flags_def)
  with p show ?thesis by blast
qed

section \<open>Answering a read\<close>

interpretation aq: bounded_fifo auto_enq auto_deq ring_contents AUTO_RESPONSE_QUEUE_CAPACITY
  "ring_ok AUTO_RESPONSE_QUEUE_CAPACITY"
proof
  fix q q' :: "(group_address \<times> bytes) ring" and x
  assume ok: "ring_ok AUTO_RESPONSE_QUEUE_CAPACITY q"
  show "length (ring_contents q) \<le> AUTO_RESPONSE_QUEUE_CAPACITY" using ok by (simp add: ring_ok_def)
  show "ring_contents (auto_enq q x) =
      (if length (ring_contents q) < AUTO_RESPONSE_QUEUE_CAPACITY then ring_contents q @ [x] else ring_contents q)"
    using ring_push_contents [OF ok] by (simp add: auto_enq_def not_less)
  show "ring_ok AUTO_RESPONSE_QUEUE_CAPACITY (auto_enq q x)"
    using ok ring_push_ok [OF ok] by (simp add: auto_enq_def)
  show "auto_deq q = None \<longleftrightarrow> ring_contents q = []"
    by (auto simp: auto_deq_def ring_contents_def)
  show "auto_deq q = Some (x, q') \<Longrightarrow> ring_contents q = x # ring_contents q' \<and> ring_ok AUTO_RESPONSE_QUEUE_CAPACITY q'"
    using ring_pop_contents [OF ok] ring_pop_ok [OF ok] by (auto simp: auto_deq_def split: if_splits)
qed

text \<open>Callbacks that leave the responses waiting to be sent, the mode and the queue of incoming telegrams
  alone; the one that announces a read may change the group objects.\<close>

definition same_responses :: "'p bau \<Rightarrow> 'p bau \<Rightarrow> bool" where
  "same_responses b1 b \<longleftrightarrow>
     bau_autoQueue b1 = bau_autoQueue b \<and> bau_deferred b1 = bau_deferred b \<and> bau_inbound b1 = bau_inbound b"

definition keeps_responses :: "'p bau_env \<Rightarrow> bool" where
  "keeps_responses E \<longleftrightarrow> (\<forall>f b. be_onWork E = Some f \<longrightarrow> same_responses (f b) b)
     \<and> (\<forall>f i b. be_onRead E = Some f \<longrightarrow> same_responses (f i b) b)"

lemma notify_autoQueue:
  "keeps_responses E \<Longrightarrow> same_responses (notifyWorkAvailableIfTransitioned E b) b"
  by (auto simp: notifyWorkAvailableIfTransitioned_def Let_def keeps_responses_def same_responses_def split: option.split)

lemma enqueueAutomaticResponse_contents:
  assumes "keeps_responses E" "ring_ok 4 (bau_autoQueue b)"
  shows "ring_contents (bau_autoQueue (enqueueAutomaticResponse E a d b)) = take 4 (ring_contents (bau_autoQueue b) @ [(a, d)])
    \<and> bau_inbound (enqueueAutomaticResponse E a d b) = bau_inbound b"
proof -
  have n: "bau_autoQueue (notifyWorkAvailableIfTransitioned E c) = bau_autoQueue c"
    "bau_inbound (notifyWorkAvailableIfTransitioned E c) = bau_inbound c" for c
    using notify_autoQueue [OF assms(1), of c] by (simp_all add: same_responses_def)
  show ?thesis
    using assms(2) aq.contents_enq [of "bau_autoQueue b" "(a, d)"] aq.contents_le [of "bau_autoQueue b"]
    by (auto simp: enqueueAutomaticResponse_def n AUTO_RESPONSE_QUEUE_CAPACITY_def)
qed

lemma announce_responses: "keeps_responses E \<Longrightarrow> same_responses (announce_read E is b) b"
proof (induction E "is" b rule: announce_read.induct)
  case (2 E i "is" b)
  show ?case
  proof (cases "groupObject b i")
    case (Some g)
    let ?b = "if go_readable g then (case be_onRead E of Some f \<Rightarrow> f i b | None \<Rightarrow> b) else b"
    have "same_responses ?b b" using 2(3) by (auto simp: keeps_responses_def same_responses_def split: option.split)
    moreover have "same_responses (announce_read E is ?b) ?b" by (rule 2(2) [OF Some 2(3)])
    ultimately show ?thesis using Some by (simp add: same_responses_def)
  qed (use 2 in simp)
qed (simp add: same_responses_def)

lemma answer_read_first:
  "answer_read E a is b =
     (case find (answers b) is of
        None \<Rightarrow> Some b
      | Some i \<Rightarrow>
          (let d = go_rawValue (the (groupObject b i)) in
           if bau_deferred b then Some (enqueueAutomaticResponse E a d b)
           else map_option fst (sendAutomaticResponseImmediate E a d b)))"
  by (induction "is") (auto simp: answers_def Let_def split: option.split)

lemma read_ignores_data:
  "handleApplicationFrame E a MkGroupValueRead d Group b = handleApplicationFrame E a MkGroupValueRead [] Group b"
  by (simp add: handleApplicationFrame_def Let_def)

lemma read_unreached:
  assumes "reached b a = []"
  shows "bau_autoQueue (handleApplicationFrame E a MkGroupValueRead d Group b) = bau_autoQueue b
    \<and> bau_inbound (handleApplicationFrame E a MkGroupValueRead d Group b) = bau_inbound b"
proof (cases "16 < length (associated b a)")
  case False
  then show ?thesis using assms
    by (auto simp: reached_def handleApplicationFrame_def handle_assoc Let_def)
qed (simp add: crowded_ignored)

text \<open>
  C26. A read is answered once, by the right object. When an \<open>A_GroupValue_Read\<close> arrives for a group address
  while no other telegram waits in the inbound queue, and the loop then runs in deferred mode, the queue of
  responses grows by at most one: by the current value of the first associated object, in the order of the
  association table, that is readable and valid after the application's read callbacks have run; if there is
  none, nothing is answered. An address with more than 16 associated objects is handed to none of them, so a
  read of it is not answered, whatever its objects hold. The queue has four places: a full one drops the answer
  and keeps the waiting ones. The read callbacks and the work notification may change the group objects and
  anything else but the queue of responses, the mode and the queue of incoming telegrams.
\<close>
theorem group_read_answered_once:
  assumes "keeps_responses E" "ring_ok 4 (bau_autoQueue b)" "bau_inbound b = []" "bau_deferred b"
    and "b1 = announce_read E (reached b a) ((handleApplicationFrame E a MkGroupValueRead d Group b)\<lparr>bau_inbound := []\<rparr>)"
  shows "\<exists>b2. processInboundGroupEvents E (handleApplicationFrame E a MkGroupValueRead d Group b) = Some b2
    \<and> ring_contents (bau_autoQueue b2) =
        take 4 (ring_contents (bau_autoQueue b) @
          (case find (answers b1) (reached b a) of
             None \<Rightarrow> [] | Some i \<Rightarrow> [(a, go_rawValue (the (groupObject b1 i)))]))"
proof (cases "reached b a = []")
  case True
  then show ?thesis
    using read_unreached [OF True, of E d] process_none [of "handleApplicationFrame E a MkGroupValueRead d Group b" E] assms(2,3)
    by (simp add: ring_ok_def)
next
  case False
  then have r: "reached b a = associated b a" "length (associated b a) \<le> 16" "associated b a \<noteq> []"
    by (auto simp: reached_def split: if_splits)
  let ?ev = "\<lparr>ev_kind = MkGroupValueRead, ev_destination = a, ev_objects = associated b a, ev_data = []\<rparr>"
  let ?b = "handleApplicationFrame E a MkGroupValueRead d Group b"
  have h: "?b = notifyWorkAvailableIfTransitioned E (b\<lparr>bau_inbound := [?ev]\<rparr>)"
    using handle_enqueues [of b a "[]" MkGroupValueRead E] read_ignores_data [of E a d b] assms(3) r by simp
  have q: "bau_autoQueue ?b = bau_autoQueue b" "bau_inbound ?b = [?ev]" "bau_deferred ?b"
    unfolding h using notify_autoQueue [OF assms(1), of "b\<lparr>bau_inbound := [?ev]\<rparr>"] assms(4)
    by (simp_all add: same_responses_def)
  have s: "bau_autoQueue b1 = bau_autoQueue b" "bau_inbound b1 = []" "bau_deferred b1"
    using announce_responses [OF assms(1), of "reached b a" "?b\<lparr>bau_inbound := []\<rparr>"] q
    unfolding assms(5) same_responses_def by simp_all
  have len: "length (ring_contents (bau_autoQueue b)) \<le> 4" using assms(2) by (simp add: ring_ok_def)
  let ?b2 = "case find (answers b1) (associated b a) of None \<Rightarrow> b1
      | Some i \<Rightarrow> enqueueAutomaticResponse E a (go_rawValue (the (groupObject b1 i))) b1"
  have "process_event E ?ev (?b\<lparr>bau_inbound := []\<rparr>) = Some ?b2"
    unfolding process_event_def
    by (simp add: assms(5) [unfolded r(1), symmetric] answer_read_first s Let_def split: option.split)
  moreover have "bau_inbound ?b2 = []"
    using enqueueAutomaticResponse_contents [OF assms(1), of b1] assms(2) s by (simp split: option.split)
  ultimately have "processInboundGroupEvents E ?b = Some ?b2" using q(2) by (intro process_single)
  then show ?thesis
    using enqueueAutomaticResponse_contents [OF assms(1), of b1] assms(2) s len by (simp add: r(1) split: option.split)
qed

theorem group_read_answered_once_witness:
  "\<exists>(E :: port_call list bau_env) b b2. processInboundGroupEvents E (handleApplicationFrame E 0x0801 MkGroupValueRead [] Group b) = Some b2
     \<and> ring_contents (bau_autoQueue b2) = [(0x0801, [1])]"
proof -
  fix F D
  let ?E = "recording_env F D"
  let ?g = "stored [1] (go_new 0x0801 (1, 1) all_flags transmit_policy_default)"
  let ?b = "sample_bau\<lparr>bau_objects := [Some ?g]\<rparr>"
  let ?b1 = "announce_read ?E [0] ((handleApplicationFrame ?E 0x0801 MkGroupValueRead [] Group ?b)\<lparr>bau_inbound := []\<rparr>)"
  have k: "keeps_responses ?E" by (simp add: keeps_responses_def recording_env_def)
  have a: "associated ?b 0x0801 = [0]" by (simp add: associated_def sample_bau_def at_findEntry_def at_findIndex_def)
  then have r: "reached ?b 0x0801 = [0]" by (simp add: reached_def)
  have "bau_objects ?b1 = [Some ?g]" "bau_hasPort ?b1"
    using a by (simp_all add: handle_enqueues recording_env_def notifyWorkAvailableIfTransitioned_def sample_bau_def
        groupObject_def getGroupObject_def got_toDomainIndex_def kMaxObjects_def got_get_def split: option.split)
  then have o: "groupObject ?b1 0 = Some ?g" "answers ?b1 0"
    by (simp_all add: answers_def groupObject_def getGroupObject_def got_toDomainIndex_def kMaxObjects_def got_get_def
        go_readable_def stored_def go_new_def all_flags_def)
  have "\<exists>b2. processInboundGroupEvents ?E (handleApplicationFrame ?E 0x0801 MkGroupValueRead [] Group ?b) = Some b2
    \<and> ring_contents (bau_autoQueue b2) =
        take 4 (ring_contents (bau_autoQueue ?b) @
          (case find (answers ?b1) (reached ?b 0x0801) of
             None \<Rightarrow> [] | Some i \<Rightarrow> [(0x0801, go_rawValue (the (groupObject ?b1 i)))]))"
    by (intro group_read_answered_once [OF k], simp_all add: r, simp_all add: sample_bau_def ring_ok_def)
  moreover have "ring_contents (bau_autoQueue ?b) = []" "ring_count (bau_autoQueue sample_bau) = 0"
    by (simp_all add: sample_bau_def ring_contents_def)
  moreover have "find (answers ?b1) (reached ?b 0x0801) = Some 0" using o(2) by (simp add: r)
  ultimately have "\<exists>b2. processInboundGroupEvents ?E (handleApplicationFrame ?E 0x0801 MkGroupValueRead [] Group ?b) = Some b2
      \<and> ring_contents (bau_autoQueue b2) = [(0x0801, [1])]"
    using o(1) by (simp add: stored_def)
  then show ?thesis by blast
qed

text \<open>The busy wait of an immediate response returns if the port ever leaves \<open>Pending\<close>.\<close>

lemma await_response_returns:
  "snd (poll (((\<lambda>p. fst (poll p)) ^^ n) p)) \<noteq> Inr Pending \<Longrightarrow> \<exists>y. await_response poll p = Some y"
proof (induction n arbitrary: p)
  case 0
  then show ?case by (subst await_response.simps) (simp add: case_prod_beta)
next
  case (Suc n)
  show ?case
  proof (cases "snd (poll p) = Inr Pending")
    case True
    have "snd (poll (((\<lambda>p. fst (poll p)) ^^ n) (fst (poll p)))) \<noteq> Inr Pending"
      using Suc.prems by (simp only: funpow_Suc_right o_apply simp_thms)
    from Suc.IH [OF this] True show ?thesis by (subst await_response.simps) (simp add: case_prod_beta)
  qed (subst await_response.simps, simp add: case_prod_beta)
qed

section \<open>Binding objects to addresses\<close>

definition bau_tables_ok :: "'p bau \<Rightarrow> bool" where
  "bau_tables_ok b \<longleftrightarrow> at_ok (bau_addressTable b) \<and> as_ok (bau_associationTable b)"

text \<open>\<open>linked\<close>: the two tables lead from the address to the object.\<close>

definition linked :: "'p bau \<Rightarrow> group_address \<Rightarrow> u16 \<Rightarrow> bool" where
  "linked b a i \<longleftrightarrow> i \<in> set (associated b a)"

lemma linked_iff:
  "linked b a i \<longleftrightarrow> at_findEntry (bau_addressTable b) a \<noteq> 0
     \<and> as_hasAssociation (bau_associationTable b) (at_findEntry (bau_addressTable b) a) i"
  by (simp add: linked_def associated_def Let_def as_hasAssociation_set)

lemma find_index_append_Some: "find_index P xs = Some i \<Longrightarrow> find_index P (xs @ ys) = Some i"
  by (induction xs arbitrary: i) (auto split: if_splits)

lemma at_addEntry_keeps:
  assumes "at_ok t" "at_findEntry t x \<noteq> 0"
  shows "at_findEntry (fst (at_addEntry a t)) x = at_findEntry t x"
proof -
  obtain t1 r where r: "at_add a t = (t1, r)" by force
  then have t1: "fst (at_addEntry a t) = t1" by (simp add: at_addEntry_def split: sum.split)
  obtain k where k: "at_findIndex t x = Some k" using assms(2) by (auto simp: at_findEntry_def split: option.splits)
  from r show ?thesis
  proof (cases rule: at_add_cases)
    case new
    then have "at_findIndex t1 x = Some k"
      using k find_index_append_Some by (simp add: at_findIndex_def)
    then show ?thesis by (simp only: t1 at_findEntry_def k)
  qed (simp_all only: t1)
qed

lemma as_add_keeps: "as_hasAssociation s a g \<Longrightarrow> as_hasAssociation (fst (as_add e s)) a g"
  by (auto simp: as_add_def as_hasAssociation_def fv_push_back_def)

lemma on_port_fields [simp]:
  "bau_addressTable (fst (on_port f b)) = bau_addressTable b" "bau_associationTable (fst (on_port f b)) = bau_associationTable b"
  "bau_objects (fst (on_port f b)) = bau_objects b" "bau_limiter (fst (on_port f b)) = bau_limiter b"
  "bau_initialized (fst (on_port f b)) = bau_initialized b" "bau_hasPort (fst (on_port f b)) = bau_hasPort b"
  "bau_port (fst (on_port f b)) = fst (f (bau_port b))" "snd (on_port f b) = snd (f (bau_port b))"
  by (simp_all add: on_port_def split: prod.split)

lemma at_addEntry_zero:
  assumes "at_ok t" "snd (at_addEntry a t) = 0"
  shows "length (at_entries t) = 256"
proof -
  obtain t1 r where r: "at_add a t = (t1, r)" by force
  from r show ?thesis
  proof (cases rule: at_add_cases)
    case full
    with assms(1) show ?thesis by (simp add: at_ok_def kMaxAddresses_def)
  next
    case (known m)
    then show ?thesis using assms(2) r index_word_nonzero [of m] at_findIndex_Some [of t a m]
      by (simp add: at_addEntry_def kMaxAddresses_def del: of_nat_Suc)
  next
    case new
    then show ?thesis using assms(2) r index_word_nonzero [of "length (at_entries t)"]
      by (simp add: at_addEntry_def kMaxAddresses_def del: of_nat_Suc)
  qed
qed

lemma bind_index_props:
  assumes "at_ok t" "bind_index a t = (t1, ix)"
  shows "at_ok t1" "ix \<noteq> 0 \<Longrightarrow> at_findEntry t1 a = ix" "ix = 0 \<Longrightarrow> length (at_entries t) = 256"
    "at_findEntry t x \<noteq> 0 \<Longrightarrow> at_findEntry t1 x = at_findEntry t x"
proof -
  show "at_ok t1" using assms at_add_ok [OF assms(1), of a] by (auto simp: bind_index_def Let_def split: if_splits)
  show "ix \<noteq> 0 \<Longrightarrow> at_findEntry t1 a = ix"
    using assms(2) at_addEntry_found [OF assms(1), of a t1 ix] by (auto simp: bind_index_def Let_def split: if_splits)
  show "ix = 0 \<Longrightarrow> length (at_entries t) = 256"
    using assms(2) at_addEntry_zero [OF assms(1), of a] by (auto simp: bind_index_def Let_def split: if_splits)
  show "at_findEntry t x \<noteq> 0 \<Longrightarrow> at_findEntry t1 x = at_findEntry t x"
    using assms(2) at_addEntry_keeps [OF assms(1), of x a] by (auto simp: bind_index_def Let_def split: if_splits)
qed

lemma bind_assoc_props:
  assumes "as_ok s" "ix \<noteq> 0" "i \<noteq> 0xFFFF" "bind_assoc ix i s = (s1, r)"
  shows "as_ok s1" "r = Inr () \<Longrightarrow> as_hasAssociation s1 ix i" "as_hasAssociation s x j \<Longrightarrow> as_hasAssociation s1 x j"
    "r = Inl e \<Longrightarrow> e = ResourceUnavailable \<and> length (as_entries s) = 512"
  using assms
  by (auto simp: bind_assoc_def as_add_def ae_isValid_def as_ok_def fv_push_back_def as_hasAssociation_def
      kMaxAssociations_def split: if_splits)

lemma linked_mono:
  assumes "at_ok (bau_addressTable b)" "linked b x j"
    and "bind_index a (bau_addressTable b) = (bau_addressTable b1, ix)"
    and "\<And>y. as_hasAssociation (bau_associationTable b) y j \<Longrightarrow> as_hasAssociation (bau_associationTable b1) y j"
  shows "linked b1 x j"
  using assms(2,4) bind_index_props(4) [OF assms(1,3), of x] by (simp add: linked_iff)

text \<open>
  Binding an object to a group address works and disturbs nothing: when \<open>bindGroupObjectToAddress\<close>
  reports success, telegrams for that address are led to the object from then on, and every object that was
  reachable through some address before still is, also when the call fails half-way. It fails only for an
  invalid address, an object that does not exist, a full table or a refusal of the stack port.
\<close>
theorem bind_links:
  assumes "bau_tables_ok b" "bindGroupObjectToAddress E i a b = (b1, r)" "i \<noteq> 0xFFFF"
  shows "(r = Inr () \<longrightarrow> linked b1 a i) \<and> (\<forall>x j. linked b x j \<longrightarrow> linked b1 x j) \<and> bau_tables_ok b1
    \<and> (\<forall>e. r = Inl e \<longrightarrow> e = InvalidAddress \<and> (a = 0 \<or> groupObject b i = None)
          \<or> e = ResourceUnavailable \<and> (length (at_entries (bau_addressTable b)) = 256 \<or> length (as_entries (bau_associationTable b)) = 512)
          \<or> (\<exists>p. snd (po_addGroupAddress (be_port E) a p) = Inl e))"
proof (cases "ga_isValid a \<and> groupObject b i \<noteq> None")
  case False
  then have "bindGroupObjectToAddress E i a b = (b, Inl InvalidAddress)" by (simp add: bindGroupObjectToAddress_def)
  then have "b1 = b" "r = Inl InvalidAddress" using assms(2) by simp_all
  then show ?thesis using assms(1) False by (auto simp: ga_isValid_def)
next
  case True
  have ok: "at_ok (bau_addressTable b)" "as_ok (bau_associationTable b)" using assms(1) by (simp_all add: bau_tables_ok_def)
  obtain t1 ix where t: "bind_index a (bau_addressTable b) = (t1, ix)" by force
  note tp = bind_index_props [OF ok(1) t]
  show ?thesis
  proof (cases "ix = 0")
    case z: True
    then have e: "b1 = b\<lparr>bau_addressTable := t1\<rparr>" "r = Inl ResourceUnavailable"
      using assms(2) True t by (auto simp: bindGroupObjectToAddress_def)
    then show ?thesis using tp(1,3) z ok t by (auto simp: bau_tables_ok_def elim!: linked_mono [OF ok(1)])
  next
    case nz: False
    obtain s1 q where q: "bind_assoc ix i (bau_associationTable b) = (s1, q)" by force
    note sp = bind_assoc_props [OF ok(2) nz assms(3) q]
    show ?thesis
    proof (cases q)
      case (Inl e)
      then have "b1 = b\<lparr>bau_addressTable := t1\<rparr>" "r = Inl e"
        using assms(2) True t nz q by (auto simp: bindGroupObjectToAddress_def)
      then show ?thesis using tp(1) sp(4) [OF Inl] ok t by (auto simp: bau_tables_ok_def elim!: linked_mono [OF ok(1)])
    next
      case (Inr u)
      let ?b = "b\<lparr>bau_addressTable := t1, bau_associationTable := s1\<rparr>"
      have e: "(b1, r) = (if bau_hasPort ?b then on_port (po_addGroupAddress (be_port E) a) ?b else (?b, Inr ()))"
        using assms(2) True t nz q Inr by (simp add: bindGroupObjectToAddress_def Let_def)
      have f: "bau_addressTable b1 = t1" "bau_associationTable b1 = s1"
        "\<And>e. r = Inl e \<Longrightarrow> \<exists>p. snd (po_addGroupAddress (be_port E) a p) = Inl e"
        using e on_port_fields [of "po_addGroupAddress (be_port E) a" ?b] by (auto simp: prod_eq_iff split: if_splits)
      show ?thesis
        using f tp(1) tp(2) [OF nz] nz sp Inr t
        by (auto simp: bau_tables_ok_def linked_iff [of b1 a i] elim!: linked_mono [OF ok(1)])
    qed
  qed
qed

theorem bind_links_witness:
  "\<exists>E b1. bindGroupObjectToAddress E 0 0x0802 sample_bau = (b1, Inr ()) \<and> linked b1 0x0802 0"
proof -
  fix F D
  let ?E = "recording_env F D"
  have ok: "bau_tables_ok sample_bau"
    by (simp add: bau_tables_ok_def sample_bau_def at_ok_def as_ok_def kMaxAddresses_def kMaxAssociations_def)
  obtain b1 where b1: "bindGroupObjectToAddress ?E 0 0x0802 sample_bau = (b1, Inr ())"
    by (simp add: bindGroupObjectToAddress_def groupObject_def getGroupObject_def got_toDomainIndex_def kMaxObjects_def
        got_get_def ga_isValid_def bind_index_def bind_assoc_def at_findEntry_def
        at_findIndex_def at_addEntry_def at_add_def fv_push_back_def kMaxAddresses_def kMaxAssociations_def
        as_hasAssociation_def as_add_def ae_isValid_def sample_bau_def on_port_def recording_env_def recording_port_def)
  then show ?thesis using bind_links [OF ok b1] by auto
qed

text \<open>
  A group address with more than 16 associated objects is deaf: the telegram is discarded without a
  trace, for all the objects at once, and not even the counter of dropped telegrams is increased.
\<close>
theorem crowded_address_ignored:
  assumes "16 < length (associated b a)"
  shows "handleApplicationFrame E a kind d Group b = b"
  by (rule crowded_ignored [OF assms])

definition crowded_bau :: "port_call list bau" where
  "crowded_bau = sample_bau\<lparr>bau_associationTable :=
     \<lparr>as_entries = map (\<lambda>i. \<lparr>ae_addressIndex = 1, ae_groupObject = of_nat i\<rparr>) [0..<17], as_loadState = 1\<rparr>\<rparr>"

theorem crowded_address_ignored_witness:
  "\<exists>E. handleApplicationFrame E 0x0801 MkGroupValueWrite [1] Group crowded_bau = crowded_bau"
proof -
  have "length (associated crowded_bau 0x0801) = 17"
    by (simp add: crowded_bau_def associated_def sample_bau_def at_findEntry_def at_findIndex_def upt_rec)
  then show ?thesis using crowded_address_ignored [of crowded_bau "0x0801"] by simp
qed

section \<open>Sending\<close>



text \<open>The addresses an object sends on.\<close>





lemma set_object_fields [simp]:
  "bau_addressTable (set_object i g b) = bau_addressTable b" "bau_associationTable (set_object i g b) = bau_associationTable b"
  "bau_initialized (set_object i g b) = bau_initialized b" "bau_hasPort (set_object i g b) = bau_hasPort b"
  "bau_port (set_object i g b) = bau_port b" "bau_limiter (set_object i g b) = bau_limiter b"
  "length (bau_objects (set_object i g b)) = length (bau_objects b)"
  by (simp_all add: set_object_def)

lemma emit_fields:
  "fst (emitGroupValueForObject E i d b) = b\<lparr>bau_port := bau_port (fst (emitGroupValueForObject E i d b))\<rparr>"
  by (auto simp: emitGroupValueForObject_def when_ready_def send_on_associated_def on_port_def
      split: sum.split prod.split)






















section \<open>Reading on initialisation\<close>

definition accepting_reads :: "'p port_ops \<Rightarrow> ('p \<Rightarrow> group_address list) \<Rightarrow> bool" where
  "accepting_reads P log \<longleftrightarrow>
     (\<forall>a p. snd (po_sendRead P a p) = Inr () \<and> log (fst (po_sendRead P a p)) = log p @ [a])"

text \<open>The addresses to be read for a list of positions.\<close>

definition to_read :: "go_table \<Rightarrow> nat list \<Rightarrow> group_address list" where
  "to_read t is =
     concat (map (\<lambda>i. case getGroupObject t (of_nat i) of
                        None \<Rightarrow> []
                      | Some g \<Rightarrow> if go_readOnInit g \<and> ga_isValid (go_address g) then [go_address g] else []) is)"

definition roi_frame :: "'p bau \<Rightarrow> 'p bau \<Rightarrow> bool" where
  "roi_frame b1 b \<longleftrightarrow> bau_objects b1 = bau_objects b \<and> bau_ready b1 = bau_ready b \<and> bau_roiState b1 = bau_roiState b
     \<and> bau_individualAddress b1 = bau_individualAddress b \<and> bau_initialized b1 = bau_initialized b"

text \<open>One step of the loop: the cursor advances, and what is sent is what the position asks for.\<close>

lemma roi_step:
  assumes "bau_ready b" "accepting_reads (be_port E) log" "n > 0"
  shows "\<exists>b1. roi_loop E n (i # is) b = roi_loop E (n - length (to_read (bau_objects b) [i])) is b1 \<and> roi_frame b1 b
     \<and> bau_roiCursor b1 = bau_roiCursor b + 1
     \<and> log (bau_port b1) = log (bau_port b) @ to_read (bau_objects b) [i] \<and> length (to_read (bau_objects b) [i]) \<le> 1"
proof (cases "\<exists>g. groupObject b (of_nat i) = Some g \<and> go_readOnInit g \<and> ga_isValid (go_address g)")
  case False
  then have "to_read (bau_objects b) [i] = []"
    by (auto simp: to_read_def groupObject_def split: option.split)
  moreover have "roi_loop E n (i # is) b = roi_loop E n is (b\<lparr>bau_roiCursor := bau_roiCursor b + 1\<rparr>)"
    using False assms(3) by (auto simp: Let_def split: option.split)
  ultimately show ?thesis
    by (intro exI [of _ "b\<lparr>bau_roiCursor := bau_roiCursor b + 1\<rparr>"]) (simp add: roi_frame_def bau_ready_def)
next
  case True
  then obtain g where g: "groupObject b (of_nat i) = Some g" "go_readOnInit g" "ga_isValid (go_address g)" by blast
  obtain p where p: "po_sendRead (be_port E) (go_address g) (bau_port b) = (p, Inr ())" "log p = log (bau_port b) @ [go_address g]"
    using assms(2) unfolding accepting_reads_def by (metis prod.collapse)
  let ?b1 = "b\<lparr>bau_roiCursor := bau_roiCursor b + 1, bau_port := p\<rparr>"
  have "requestGroupValue E (go_address g) (b\<lparr>bau_roiCursor := bau_roiCursor b + 1\<rparr>) = (?b1, Inr ())"
    using assms(1) p(1) by (simp add: requestGroupValue_def when_ready_def bau_ready_def on_port_def)
  then have "roi_loop E n (i # is) b = roi_loop E (n - 1) is ?b1" using g assms(3) by (simp add: Let_def)
  moreover have "to_read (bau_objects b) [i] = [go_address g]" using g by (simp add: to_read_def groupObject_def)
  ultimately show ?thesis using p(2) by (intro exI [of _ ?b1]) (simp add: roi_frame_def bau_ready_def)
qed

lemma to_read_Cons: "to_read t (i # is) = to_read t [i] @ to_read t is"
  by (simp add: to_read_def)

lemma roi_loop_spec:
  assumes "accepting_reads (be_port E) log" "bau_ready b" "is = [unat (bau_roiCursor b)..<count]" "count \<le> 256"
    and "unat (bau_roiCursor b) \<le> count"
  shows "\<exists>b1. roi_loop E n is b = (b1, False) \<and> roi_frame b1 b \<and> unat (bau_roiCursor b1) \<le> count
    \<and> log (bau_port b) @ to_read (bau_objects b) is =
        log (bau_port b1) @ to_read (bau_objects b) [unat (bau_roiCursor b1)..<count]
    \<and> length (to_read (bau_objects b) is) \<le> n + length (to_read (bau_objects b) [unat (bau_roiCursor b1)..<count])
    \<and> (unat (bau_roiCursor b1) = count
        \<or> length (to_read (bau_objects b) is) = n + length (to_read (bau_objects b) [unat (bau_roiCursor b1)..<count]))"
  using assms(2-)
proof (induction "is" arbitrary: b n)
  case Nil
  then have "unat (bau_roiCursor b) = count" by (metis Nil(2,4) diff_is_0_eq le_antisym length_upt list.size(3))
  then show ?case using Nil by (auto simp: roi_frame_def to_read_def)
next
  case (Cons i "is")
  have i: "i = unat (bau_roiCursor b)" "i < count" and is': "is = [Suc i..<count]"
    using Cons.prems(2) [symmetric] by (auto simp: upt_eq_Cons_conv)
  show ?case
  proof (cases "n = 0")
    case True
    then have "roi_loop E n (i # is) b = (b, False)" by simp
    then show ?thesis unfolding Cons.prems(2) using True Cons.prems(1,4)
      by (intro exI [of _ b]) (simp add: roi_frame_def)
  next
    case False
    let ?r = "to_read (bau_objects b) [i]"
    obtain b1 where b1: "roi_loop E n (i # is) b = roi_loop E (n - length ?r) is b1" "roi_frame b1 b"
        "bau_roiCursor b1 = bau_roiCursor b + 1" "log (bau_port b1) = log (bau_port b) @ ?r" "length ?r \<le> 1"
      using roi_step [OF Cons.prems(1) assms(1), of n i "is"] False by auto
    have "unat (bau_roiCursor b + 1) = i + 1"
      using i Cons.prems(3) by (simp add: unat_word_ariths)
    then have c: "unat (bau_roiCursor b1) = Suc i" using b1(3) by simp
    have "is = [unat (bau_roiCursor b1)..<count]" "bau_ready b1" "unat (bau_roiCursor b1) \<le> count"
      using is' c b1(2) Cons.prems(1) i by (simp_all add: roi_frame_def)
    from Cons.IH [OF this(2,1) Cons.prems(3) this(3), of "n - length ?r"] show ?thesis
      using b1 False to_read_Cons [of "bau_objects b" i "is"]
      by (auto simp: roi_frame_def le_Suc_eq)
  qed
qed

text \<open>What remains to be read: everything before the first pass, what lies beyond the cursor after it.\<close>

definition remaining :: "'p bau \<Rightarrow> group_address list" where
  "remaining b =
     (case bau_roiState b of
        RoiDone \<Rightarrow> []
      | RoiPending \<Rightarrow> to_read (bau_objects b) [0..<length (bau_objects b)]
      | RoiRunning \<Rightarrow> to_read (bau_objects b) [unat (bau_roiCursor b)..<length (bau_objects b)])"

definition roi_ok :: "'p bau \<Rightarrow> bool" where
  "roi_ok b \<longleftrightarrow> bau_ready b \<and> ia_isValid (bau_individualAddress b) \<and> length (bau_objects b) \<le> 256
     \<and> (bau_roiState b = RoiRunning \<longrightarrow> unat (bau_roiCursor b) \<le> length (bau_objects b))"

lemma pumpReadOnInit_step:
  assumes "accepting_reads (be_port E) log" "roi_ok b"
  shows "roi_ok (pumpReadOnInit E b)
    \<and> log (bau_port b) @ remaining b = log (bau_port (pumpReadOnInit E b)) @ remaining (pumpReadOnInit E b)
    \<and> length (remaining b) \<le> 4 + length (remaining (pumpReadOnInit E b))
    \<and> (bau_roiState (pumpReadOnInit E b) = RoiDone \<or> length (remaining b) = 4 + length (remaining (pumpReadOnInit E b)))"
proof (cases "bau_roiState b = RoiDone")
  case True
  then show ?thesis using assms(2) by (simp add: pumpReadOnInit_def remaining_def)
next
  case False
  let ?b = "if bau_roiState b = RoiPending then b\<lparr>bau_roiState := RoiRunning, bau_roiCursor := 0\<rparr> else b"
  let ?n = "length (bau_objects b)"
  have run: "bau_roiState ?b = RoiRunning" using False by (cases "bau_roiState b") auto
  have rem: "remaining b = to_read (bau_objects b) [unat (bau_roiCursor ?b)..<?n]"
    using False by (cases "bau_roiState b") (auto simp: remaining_def)
  have f: "bau_ready ?b" "bau_objects ?b = bau_objects b" "unat (bau_roiCursor ?b) \<le> ?n" "?n \<le> 256" "bau_port ?b = bau_port b"
      "ia_isValid (bau_individualAddress ?b)" "bau_initialized ?b"
    using assms(2) run by (auto simp: roi_ok_def bau_ready_def split: if_splits)
  from roi_loop_spec [OF assms(1) f(1) refl f(4,3), of 4] obtain b1 where
    b1: "roi_loop E 4 [unat (bau_roiCursor ?b)..<?n] ?b = (b1, False)" "roi_frame b1 ?b" "unat (bau_roiCursor b1) \<le> ?n"
      "log (bau_port b) @ remaining b = log (bau_port b1) @ to_read (bau_objects b) [unat (bau_roiCursor b1)..<?n]"
      "length (remaining b) \<le> 4 + length (to_read (bau_objects b) [unat (bau_roiCursor b1)..<?n])"
      "unat (bau_roiCursor b1) = ?n \<or> length (remaining b) = 4 + length (to_read (bau_objects b) [unat (bau_roiCursor b1)..<?n])"
    unfolding rem f(2) f(5) by blast
  have pr: "pumpReadOnInit E b = (if unat (bau_roiCursor b1) \<ge> ?n then b1\<lparr>bau_roiState := RoiDone\<rparr> else b1)"
    using False f b1(1) assms(2) unfolding pumpReadOnInit_def kMaxReadOnInitPerLoop_def
    by (simp add: Let_def roi_ok_def bau_ready_def)
  have fr: "bau_objects b1 = bau_objects b" "bau_ready b1" "bau_roiState b1 = RoiRunning" "ia_isValid (bau_individualAddress b1)"
    using b1(2) f run by (auto simp: roi_frame_def)
  show ?thesis
  proof (cases "unat (bau_roiCursor b1) = ?n")
    case True
    then show ?thesis using b1 fr f(4)
      by (simp add: pr roi_ok_def remaining_def bau_ready_def to_read_def)
  next
    case F: False
    then show ?thesis using b1 fr f(4) by (simp add: pr roi_ok_def remaining_def)
  qed
qed

text \<open>
  Value-read-on-initialisation reaches every object and spreads its load: from the moment the device has
  a valid individual address, each call of \<open>pumpReadOnInit\<close> sends at most four reads, and once the number of
  calls exceeds a quarter of the objects concerned, a read has been sent for each object that asks for it and
  has a valid address, exactly once and in the order of the table, and the procedure is done. The stack port
  accepts the reads.
\<close>
theorem read_on_init_complete:
  assumes "accepting_reads (be_port E) log" "roi_ok b" "bau_roiState b = RoiPending"
    and "reads = to_read (bau_objects b) [0..<length (bau_objects b)]"
  shows "length (log (bau_port ((pumpReadOnInit E ^^ Suc k) b))) \<le> length (log (bau_port ((pumpReadOnInit E ^^ k) b))) + 4
    \<and> (length reads < 4 * k \<longrightarrow> bau_roiState ((pumpReadOnInit E ^^ k) b) = RoiDone
          \<and> log (bau_port ((pumpReadOnInit E ^^ k) b)) = log (bau_port b) @ reads)"
proof -
  have inv: "roi_ok ((pumpReadOnInit E ^^ k) b)
      \<and> log (bau_port ((pumpReadOnInit E ^^ k) b)) @ remaining ((pumpReadOnInit E ^^ k) b) = log (bau_port b) @ reads
      \<and> (bau_roiState ((pumpReadOnInit E ^^ k) b) = RoiDone
          \<or> length reads = 4 * k + length (remaining ((pumpReadOnInit E ^^ k) b)))" for k
  proof (induction k)
    case 0
    then show ?case using assms by (simp add: remaining_def)
  next
    case (Suc k)
    let ?c = "(pumpReadOnInit E ^^ k) b"
    note st = pumpReadOnInit_step [OF assms(1) conjunct1 [OF Suc]]
    have "bau_roiState ?c = RoiDone \<Longrightarrow> pumpReadOnInit E ?c = ?c" by (simp add: pumpReadOnInit_def)
    then have "bau_roiState (pumpReadOnInit E ?c) = RoiDone
        \<or> length reads = 4 * Suc k + length (remaining (pumpReadOnInit E ?c))"
      using conjunct2 [OF conjunct2 [OF Suc]] conjunct2 [OF conjunct2 [OF conjunct2 [OF st]]] by (elim disjE) simp_all
    then show ?case
      using conjunct1 [OF st] conjunct1 [OF conjunct2 [OF st]] conjunct1 [OF conjunct2 [OF Suc]] by simp
  qed
  let ?c = "(pumpReadOnInit E ^^ k) b"
  have "length (log (bau_port (pumpReadOnInit E ?c))) \<le> length (log (bau_port ?c)) + 4"
  proof -
    note st = pumpReadOnInit_step [OF assms(1) conjunct1 [OF inv [of k]]]
    have "length (log (bau_port ?c)) + length (remaining ?c) =
        length (log (bau_port (pumpReadOnInit E ?c))) + length (remaining (pumpReadOnInit E ?c))"
      using arg_cong [OF conjunct1 [OF conjunct2 [OF st]], of length] by simp
    moreover have "length (remaining ?c) \<le> 4 + length (remaining (pumpReadOnInit E ?c))" using st by blast
    ultimately show ?thesis by linarith
  qed
  moreover have "length reads < 4 * k \<Longrightarrow> bau_roiState ?c = RoiDone" using inv [of k] by auto
  moreover from this have "length reads < 4 * k \<Longrightarrow> log (bau_port ?c) = log (bau_port b) @ reads"
    using inv [of k] by (simp add: remaining_def)
  ultimately show ?thesis by simp
qed

theorem read_on_init_complete_witness:
  "\<exists>E. bau_roiState ((pumpReadOnInit E ^^ 1) sample_bau) = RoiDone"
proof -
  fix F D
  let ?E = "recording_env F D"
  define log where "log p = concat (map (\<lambda>c. case c of CallRead a \<Rightarrow> [a] | _ \<Rightarrow> []) p)" for p
  have acc: "accepting_reads (be_port ?E) log"
    by (simp add: accepting_reads_def recording_env_def recording_port_def log_def)
  have ok: "roi_ok sample_bau" "bau_roiState sample_bau = RoiPending"
    by (simp_all add: roi_ok_def sample_bau_def bau_ready_def ia_isValid_def)
  have "length (to_read (bau_objects sample_bau) [0..<length (bau_objects sample_bau)]) \<le> 1"
    by (simp add: to_read_def sample_bau_def split: option.split)
  then have "bau_roiState ((pumpReadOnInit ?E ^^ 1) sample_bau) = RoiDone"
    using read_on_init_complete [OF acc ok refl, of 1] by simp
  then show ?thesis by blast
qed

end
