(* ===== verification/Data_Secure.thy ===== *)
theory Data_Secure
  imports Secure_Primitives Interfaces
begin

text \<open>
  CCM as the secure application layer composes it (\<open>ccmEncrypt\<close> and \<open>ccmDecrypt\<close> of
  \<open>src/security/secure_application_layer.cpp\<close>) and the group session of
  \<open>src/security/data_secure.cpp\<close>: \<open>protect\<close> and \<open>unprotect\<close> with their sequence numbers and the
  replay window. Shown are the round trips, that no sequence number is used for two frames and that
  none is accepted twice.
\<close>

section \<open>CCM (secure\_application\_layer.cpp)\<close>

text \<open>\<open>aTail\<close> follows the security control field in the associated data; \<open>cap\<close> is the room for the
  result, encrypted payload first and encrypted MAC last.\<close>

definition ccmEncrypt ::
  "aes_backend \<Rightarrow> bytes \<Rightarrow> secure_block_context \<Rightarrow> bytes \<Rightarrow> u8 \<Rightarrow> bytes \<Rightarrow> bytes \<Rightarrow> nat \<Rightarrow> bytes result" where
  "ccmEncrypt B key ctx nonce scf aTail plain cap =
     (if length plain > kMaxPlainApduSize \<or> cap < length plain + kMacSize then Inl BufferTooSmall
      else case buildSecureBlock0 ctx nonce (length plain) of
        Inl e \<Rightarrow> Inl e
      | Inr block0 \<Rightarrow>
          if length aTail > 6 then Inl InvalidParameter
          else case cbc_compute B key block0 (scf # aTail) plain of
            Inl e \<Rightarrow> Inl e
          | Inr mac \<Rightarrow>
              (case buildSecureCounter0 ctx nonce of
                 Inl e \<Rightarrow> Inl e
               | Inr counter0 \<Rightarrow>
                   (case ctr_crypt B key counter0 (take kMacSize mac @ plain) of
                      Inl e \<Rightarrow> Inl e
                    | Inr out \<Rightarrow> Inr (drop kMacSize out @ take kMacSize out))))"

definition ccmDecrypt ::
  "aes_backend \<Rightarrow> bytes \<Rightarrow> secure_block_context \<Rightarrow> bytes \<Rightarrow> u8 \<Rightarrow> bytes \<Rightarrow> bytes \<Rightarrow> bytes \<Rightarrow> nat \<Rightarrow> bytes result" where
  "ccmDecrypt B key ctx nonce scf aTail cipher mac cap =
     (if length cipher > kMaxPlainApduSize \<or> cap < length cipher then Inl BufferTooSmall
      else case buildSecureCounter0 ctx nonce of
        Inl e \<Rightarrow> Inl e
      | Inr counter0 \<Rightarrow>
          (case ctr_crypt B key counter0 (take kMacSize mac @ cipher) of
             Inl e \<Rightarrow> Inl e
           | Inr out \<Rightarrow>
               let plain = drop kMacSize out in
               (case buildSecureBlock0 ctx nonce (length plain) of
                  Inl e \<Rightarrow> Inl e
                | Inr block0 \<Rightarrow>
                    if length aTail > 6 then Inl InvalidParameter
                    else case cbc_compute B key block0 (scf # aTail) plain of
                      Inl e \<Rightarrow> Inl e
                    | Inr computed \<Rightarrow>
                        if take kMacSize computed \<noteq> take kMacSize out then Inl DecodeFailed else Inr plain)))"

section \<open>The session (data\_secure.hpp, data\_secure.cpp)\<close>

record data_secure_context =
  dc_srcIa :: individual_address
  dc_dstAddr :: group_address
  dc_cemiCtrl2 :: u8
  dc_seq48 :: u64

record data_secure_session =
  ds_key :: bytes
  ds_sendSeq48 :: u64
  ds_recvSeq48 :: u64
  ds_replay :: replay_window

definition data_secure_session_new :: "bytes \<Rightarrow> data_secure_session" where
  "data_secure_session_new key = \<lparr>ds_key = key, ds_sendSeq48 = 0, ds_recvSeq48 = 0, ds_replay = replay_window_init\<rparr>"

definition ds_setSendSeq :: "u64 \<Rightarrow> data_secure_session \<Rightarrow> data_secure_session" where
  "ds_setSendSeq seq s = s\<lparr>ds_sendSeq48 := mask48 seq\<rparr>"

definition kSecureOverhead :: nat where "kSecureOverhead = 13"

definition protectedTpduSize :: "nat \<Rightarrow> nat" where
  "protectedTpduSize n = kSecureOverhead + n"

definition ds_blockContext :: "data_secure_context \<Rightarrow> secure_block_context" where
  "ds_blockContext ctx = \<lparr>sb_srcIa = dc_srcIa ctx, sb_dstRaw = dc_dstAddr ctx,
     sb_atOctet = dc_cemiCtrl2 ctx AND 0x8F, sb_tpci6 = 0\<rparr>"

definition ds_buildBlock0 :: "data_secure_context \<Rightarrow> nat \<Rightarrow> bytes result" where
  "ds_buildBlock0 ctx n =
     (if \<not> ga_isValid (dc_dstAddr ctx) then Inl InvalidAddress
      else buildSecureBlock0 (ds_blockContext ctx) (writeSecureU48BE (dc_seq48 ctx)) n)"

definition ds_buildCounter0 :: "data_secure_context \<Rightarrow> bytes result" where
  "ds_buildCounter0 ctx =
     (if \<not> ga_isValid (dc_dstAddr ctx) then Inl InvalidAddress
      else buildSecureCounter0 (ds_blockContext ctx) (writeSecureU48BE (dc_seq48 ctx)))"

definition ds_protect ::
  "aes_backend \<Rightarrow> data_secure_context \<Rightarrow> bytes \<Rightarrow> nat \<Rightarrow> data_secure_session
   \<Rightarrow> data_secure_session \<times> bytes result" where
  "ds_protect B frameCtx plain cap s =
     (if length plain < 2 then (s, Inl InvalidFrameSize)
      else if length plain > kMaxPlainApduSize then (s, Inl InvalidParameter)
      else if cap < protectedTpduSize (length plain) then (s, Inl BufferTooSmall)
      else let given = mask48 (dc_seq48 frameCtx);
               seq48 = (if given = 0 then mask48 (ds_sendSeq48 s + 1) else given)
           in if given = 0 \<and> seq48 = 0 then (s, Inl OperationFailed)
              else if ds_sendSeq48 s \<noteq> 0 \<and> seq48 \<le> mask48 (ds_sendSeq48 s) then (s, Inl InvalidParameter)
              else let ctx = frameCtx\<lparr>dc_seq48 := seq48\<rparr> in
                case ds_buildBlock0 ctx (length plain) of
                  Inl e \<Rightarrow> (s, Inl e)
                | Inr block0 \<Rightarrow>
                    (case cbc_compute B (ds_key s) block0 [0x10] plain of
                       Inl e \<Rightarrow> (s, Inl e)
                     | Inr mac \<Rightarrow>
                         (case ds_buildCounter0 ctx of
                            Inl e \<Rightarrow> (s, Inl e)
                          | Inr counter0 \<Rightarrow>
                              (case ctr_crypt B (ds_key s) counter0 (take kMacSize mac @ plain) of
                                 Inl e \<Rightarrow> (s, Inl e)
                               | Inr out \<Rightarrow>
                                   (s\<lparr>ds_sendSeq48 := seq48\<rparr>,
                                    Inr ([0x03, 0xF1, 0x10] @ writeSecureU48BE seq48
                                         @ drop kMacSize out @ take kMacSize out))))))"

text \<open>\<open>None\<close> is a copy beyond the local buffers, which hold 255 payload octets.\<close>

definition ds_unprotect ::
  "aes_backend \<Rightarrow> data_secure_context \<Rightarrow> bytes \<Rightarrow> nat \<Rightarrow> data_secure_session
   \<Rightarrow> (data_secure_session \<times> bytes result) option" where
  "ds_unprotect B frameCtx secure cap s =
     (if length secure < kSecureOverhead then Some (s, Inl InvalidFrameSize)
      else if secure ! 0 \<noteq> 0x03 \<or> secure ! 1 \<noteq> 0xF1 then Some (s, Inl DecodeFailed)
      else if secure ! 2 \<noteq> 0x10 then Some (s, Inl DecodeFailed)
      else let seq48 = mask48 (readSecureU48BE (drop 3 secure)) in
        if seq48 = 0 then Some (s, Inl DecodeFailed)
        else if \<not> rw_wouldAccept (ds_replay s) seq48 then Some (s, Inl OperationNotReady)
        else let encLen = length secure - kSecureOverhead in
          if cap < encLen then Some (s, Inl BufferTooSmall)
          else let ctx = frameCtx\<lparr>dc_seq48 := seq48\<rparr> in
            case ds_buildCounter0 ctx of
              Inl e \<Rightarrow> Some (s, Inl e)
            | Inr counter0 \<Rightarrow>
                if encLen > kMaxPlainApduSize then None
                else Some
                  (case ctr_crypt B (ds_key s) counter0 (drop (9 + encLen) secure @ take encLen (drop 9 secure)) of
                     Inl e \<Rightarrow> (s, Inl e)
                   | Inr out \<Rightarrow>
                       let plain = drop kMacSize out in
                       (case ds_buildBlock0 ctx (length plain) of
                          Inl e \<Rightarrow> (s, Inl e)
                        | Inr block0 \<Rightarrow>
                            (case cbc_compute B (ds_key s) block0 [secure ! 2] plain of
                               Inl e \<Rightarrow> (s, Inl e)
                             | Inr macFull \<Rightarrow>
                                 if take kMacSize macFull \<noteq> take kMacSize out then (s, Inl DecodeFailed)
                                 else (s\<lparr>ds_replay := rw_accept (ds_replay s) seq48, ds_recvSeq48 := seq48\<rparr>,
                                       Inr plain)))))"

section \<open>CCM round trip\<close>

lemma buildSecureBlock0_ok:
  assumes "isUsableSecureSource (sb_srcIa ctx)" "length nonce = 6" "n \<le> 255"
  shows "\<exists>b. buildSecureBlock0 ctx nonce n = Inr b \<and> length b = 16"
  using assms by (simp add: buildSecureBlock0_def kMaxPlainApduSize_def)

lemma buildSecureCounter0_ok:
  assumes "isUsableSecureSource (sb_srcIa ctx)" "length nonce = 6"
  shows "\<exists>c. buildSecureCounter0 ctx nonce = Inr c \<and> length c = 16"
  using assms by (simp add: buildSecureCounter0_def)

text \<open>The MAC and the masked MAC and payload of a message; everything below is in these terms.\<close>

lemma ccm_core:
  assumes "aes_works B enc" "isUsableSecureSource (sb_srcIa ctx)" "length nonce = 6" "length plain \<le> 255"
  shows "\<exists>block0 counter0 mac out.
    buildSecureBlock0 ctx nonce (length plain) = Inr block0 \<and> buildSecureCounter0 ctx nonce = Inr counter0
    \<and> cbc_compute B key block0 A plain = Inr mac \<and> length mac = 16
    \<and> ctr_crypt B key counter0 (take 4 mac @ plain) = Inr out \<and> length out = 4 + length plain
    \<and> ctr_crypt B key counter0 out = Inr (take 4 mac @ plain)"
proof -
  obtain block0 where b: "buildSecureBlock0 ctx nonce (length plain) = Inr block0" "length block0 = 16"
    using buildSecureBlock0_ok [OF assms(2-4)] by blast
  obtain counter0 where c: "buildSecureCounter0 ctx nonce = Inr counter0" "length counter0 = 16"
    using buildSecureCounter0_ok [OF assms(2,3)] by blast
  let ?mac = "cbc_mac_ref (enc key) (block0 # blocks16 ([of_nat (length A div 256), of_nat (length A)] @ A @ plain))"
  have m: "cbc_compute B key block0 A plain = Inr ?mac" by (rule cbc_mac_computed [OF assms(1) b(2)])
  have l: "length ?mac = 16" using assms(1) b(2) by (rule cbc_mac_ref_length) 
  let ?ref = "ctr_ref (enc key) (be_value counter0)"
  show ?thesis
    using b c m l ctr_crypt_ref [OF assms(1) c(2)] ctr_ref_twice [of "enc key" "be_value counter0"]
    by (intro exI [of _ block0] exI [of _ counter0] exI [of _ ?mac] exI [of _ "?ref (take 4 ?mac @ plain)"]) simp
qed

lemma ccmEncrypt_iff:
  assumes "aes_works B enc" "length nonce = 6"
  shows "ccmEncrypt B key ctx nonce scf aTail plain cap = Inr c \<longleftrightarrow>
    isUsableSecureSource (sb_srcIa ctx) \<and> length plain \<le> 255 \<and> length plain + 4 \<le> cap \<and> length aTail \<le> 6
    \<and> (\<exists>block0 counter0 mac out.
        buildSecureBlock0 ctx nonce (length plain) = Inr block0 \<and> buildSecureCounter0 ctx nonce = Inr counter0
        \<and> cbc_compute B key block0 (scf # aTail) plain = Inr mac
        \<and> ctr_crypt B key counter0 (take 4 mac @ plain) = Inr out \<and> c = drop 4 out @ take 4 out)"
  by (auto simp: ccmEncrypt_def kMaxPlainApduSize_def kMacSize_def buildSecureBlock0_def buildSecureCounter0_def
      split: sum.splits if_splits)

lemma ccm_decrypts:
  assumes "aes_works B enc" "length nonce = 6" "ccmEncrypt B key ctx nonce scf aTail plain cap = Inr c"
    and "length plain \<le> cap'"
  shows "length c = length plain + 4
    \<and> ccmDecrypt B key ctx nonce scf aTail (take (length plain) c) (drop (length plain) c) cap' = Inr plain"
proof -
  have g: "isUsableSecureSource (sb_srcIa ctx)" "length plain \<le> 255" "length aTail \<le> 6"
    using assms(3) unfolding ccmEncrypt_iff [OF assms(1,2)] by blast+
  from ccm_core [OF assms(1) g(1) assms(2) g(2), of key "scf # aTail"]
  obtain block0 counter0 mac out where k:
    "buildSecureBlock0 ctx nonce (length plain) = Inr block0" "buildSecureCounter0 ctx nonce = Inr counter0"
    "cbc_compute B key block0 (scf # aTail) plain = Inr mac" "length mac = 16"
    "ctr_crypt B key counter0 (take 4 mac @ plain) = Inr out" "length out = 4 + length plain"
    "ctr_crypt B key counter0 out = Inr (take 4 mac @ plain)" by blast
  have c: "c = drop 4 out @ take 4 out"
    using assms(3) k unfolding ccmEncrypt_iff [OF assms(1,2)] by auto
  have parts: "take (length plain) c = drop 4 out" "drop (length plain) c = take 4 out" "length c = length plain + 4"
    using k(6) c by simp_all
  have "take 4 (take 4 out) @ drop 4 out = out" using k(6) by simp
  with g k parts assms(4) show ?thesis
    by (simp add: ccmDecrypt_def kMaxPlainApduSize_def kMacSize_def Let_def)
qed

interpretation ccm: result_codec
  "\<lambda>plain. if aes_works B enc \<and> length nonce = 6 then ccmEncrypt B key ctx nonce scf aTail plain 259 else Inl UnknownError"
  "\<lambda>c. ccmDecrypt B key ctx nonce scf aTail (take (length c - 4) c) (drop (length c - 4) c) 255"
  "\<lambda>plain. length plain \<le> 255" for B enc key ctx nonce scf aTail
  by unfold_locales (auto split: if_splits dest: ccm_decrypts [where cap' = 255])

section \<open>The session\<close>

lemma ds_protect_frame:
  assumes "ds_protect B ctx plain cap s = (s1, Inr secure)"
  defines "seq \<equiv> ds_sendSeq48 s1"
  shows "seq \<noteq> 0 \<and> mask48 seq = seq \<and> (ds_sendSeq48 s \<noteq> 0 \<longrightarrow> mask48 (ds_sendSeq48 s) < seq)
    \<and> s1 = s\<lparr>ds_sendSeq48 := seq\<rparr> \<and> ga_isValid (dc_dstAddr ctx) \<and> 2 \<le> length plain
    \<and> (\<exists>c. ccmEncrypt B (ds_key s) (ds_blockContext ctx) (writeSecureU48BE seq) 0x10 [] plain 259 = Inr c
          \<and> secure = [0x03, 0xF1, 0x10] @ writeSecureU48BE seq @ c)"
proof -
  define sq where "sq = (if mask48 (dc_seq48 ctx) = 0 then mask48 (ds_sendSeq48 s + 1) else mask48 (dc_seq48 ctx))"
  have bc: "ds_blockContext (ctx\<lparr>dc_seq48 := sq\<rparr>) = ds_blockContext ctx" by (simp add: ds_blockContext_def)
  have a: "sq \<noteq> 0" "ds_sendSeq48 s \<noteq> 0 \<longrightarrow> mask48 (ds_sendSeq48 s) < sq" "s1 = s\<lparr>ds_sendSeq48 := sq\<rparr>"
      "ga_isValid (dc_dstAddr ctx)" "2 \<le> length plain" "length plain \<le> 255"
    using assms(1) unfolding ds_protect_def Let_def sq_def [symmetric]
    by (auto simp: ds_buildBlock0_def sq_def kMaxPlainApduSize_def split: if_splits sum.splits)
  have "mask48 sq = sq" by (simp add: sq_def)
  moreover have "\<exists>c. ccmEncrypt B (ds_key s) (ds_blockContext ctx) (writeSecureU48BE sq) 0x10 [] plain 259 = Inr c
      \<and> secure = [0x03, 0xF1, 0x10] @ writeSecureU48BE sq @ c"
    using assms(1) a unfolding ds_protect_def Let_def sq_def [symmetric]
    by (auto simp: ds_buildBlock0_def ds_buildCounter0_def bc ccmEncrypt_def kMacSize_def kMaxPlainApduSize_def
        split: if_splits sum.splits)
  ultimately show ?thesis using a unfolding seq_def by simp
qed

text \<open>
  Group messages under Data Secure: what one session protects, a session with the same key
  unprotects to the same octets, whatever else it received, as long as its replay window has not
  used up the number; the frame grows by exactly 13 octets.
\<close>

theorem protect_unprotect:
  assumes "aes_works B enc" "ds_protect B ctx plain cap s = (s1, Inr secure)"
    and "ds_key r = ds_key s" "rw_wouldAccept (ds_replay r) (ds_sendSeq48 s1)" "length plain \<le> cap'"
  shows "length secure = protectedTpduSize (length plain)
    \<and> (\<exists>r1. ds_unprotect B ctx secure cap' r = Some (r1, Inr plain)
        \<and> ds_recvSeq48 r1 = ds_sendSeq48 s1 \<and> ds_replay r1 = rw_accept (ds_replay r) (ds_sendSeq48 s1))"
proof -
  let ?seq = "ds_sendSeq48 s1" and ?n = "writeSecureU48BE (ds_sendSeq48 s1)" and ?bc = "ds_blockContext ctx"
  from ds_protect_frame [OF assms(2)] obtain c where f:
    "?seq \<noteq> 0" "mask48 ?seq = ?seq" "ga_isValid (dc_dstAddr ctx)"
    "ccmEncrypt B (ds_key s) ?bc ?n 0x10 [] plain 259 = Inr c" "secure = [0x03, 0xF1, 0x10] @ ?n @ c" by blast
  have len6: "length ?n = 6" by simp
  note d = ccm_decrypts [OF assms(1) len6 f(4) assms(5)]
  then have c: "length c = length plain + 4" by blast
  have g: "isUsableSecureSource (sb_srcIa ?bc)" "length plain \<le> 255"
    using f(4) unfolding ccmEncrypt_iff [OF assms(1) len6] by blast+
  have bc: "ds_blockContext (ctx\<lparr>dc_seq48 := ?seq\<rparr>) = ?bc" by (simp add: ds_blockContext_def)
  have sec: "length secure = 13 + length plain" "secure ! 0 = 0x03" "secure ! Suc 0 = 0xF1" "secure ! 2 = 0x10"
      "drop 3 secure = ?n @ c" "drop 9 secure = c"
    using c by (simp_all add: f(5))
  have dr: "drop (9 + length plain) secure = drop (length plain) c"
    using sec(6) by (metis add.commute drop_drop)
  have tk: "take 4 (drop (length plain) c) = drop (length plain) c" using c by simp
  from d obtain counter0 out block0 mac where k:
    "buildSecureCounter0 ?bc ?n = Inr counter0"
    "ctr_crypt B (ds_key s) counter0 (drop (length plain) c @ take (length plain) c) = Inr out"
    "buildSecureBlock0 ?bc ?n (length plain) = Inr block0" "drop 4 out = plain"
    "cbc_compute B (ds_key s) block0 [0x10] plain = Inr mac" "take 4 mac = take 4 out"
    by (auto simp: ccmDecrypt_def kMacSize_def Let_def tk split: sum.splits if_splits)
  have "ds_unprotect B ctx secure cap' r =
    Some (r\<lparr>ds_replay := rw_accept (ds_replay r) ?seq, ds_recvSeq48 := ?seq\<rparr>, Inr plain)"
    using k g f(1-3) assms(3-5)
    by (simp add: ds_unprotect_def Let_def sec dr kSecureOverhead_def ds_buildCounter0_def ds_buildBlock0_def bc
        kMaxPlainApduSize_def kMacSize_def)
  then show ?thesis using sec(1) by (simp add: protectedTpduSize_def kSecureOverhead_def)
qed

definition sample_secure_context :: data_secure_context where
  "sample_secure_context = \<lparr>dc_srcIa = 0x1101, dc_dstAddr = 0x0A03, dc_cemiCtrl2 = 0xE0, dc_seq48 = 0\<rparr>"

theorem protect_unprotect_witness:
  "\<exists>secure r1. ds_unprotect toy_aes sample_secure_context secure 100 (data_secure_session_new (replicate 16 7))
     = Some (r1, Inr [0, 0x81]) \<and> length secure = 15"
proof -
  let ?s = "data_secure_session_new (replicate 16 7)"
  have "isOk (snd (ds_protect toy_aes sample_secure_context [0, 0x81] 100 ?s))" by code_simp
  then obtain s1 secure where p: "ds_protect toy_aes sample_secure_context [0, 0x81] 100 ?s = (s1, Inr secure)"
    by (metis isOk.elims(2) prod.collapse)
  have "rw_wouldAccept (ds_replay ?s) (ds_sendSeq48 s1)"
    using ds_protect_frame [OF p]
    by (auto simp: data_secure_session_new_def rw_wouldAccept_def replay_window_init_def word_gt_0)
  from protect_unprotect [OF toy_aes_works p refl this, of 100] show ?thesis
    by (auto simp: protectedTpduSize_def kSecureOverhead_def)
qed

text \<open>A sender that protects a list of messages; the sequence numbers of the frames it emits.\<close>

fun ds_protect_all ::
  "aes_backend \<Rightarrow> (data_secure_context \<times> bytes \<times> nat) list \<Rightarrow> data_secure_session \<Rightarrow> u64 list" where
  "ds_protect_all B [] s = []"
| "ds_protect_all B ((ctx, plain, cap) # ms) s =
     (case ds_protect B ctx plain cap s of
        (s1, Inl _) \<Rightarrow> ds_protect_all B ms s1
      | (s1, Inr secure) \<Rightarrow> readSecureU48BE (drop 3 secure) # ds_protect_all B ms s1)"

lemma ds_protect_error: "ds_protect B ctx plain cap s = (s1, Inl e) \<Longrightarrow> s1 = s"
  by (auto simp: ds_protect_def Let_def split: if_splits sum.splits)

lemma ds_protect_number:
  assumes "ds_protect B ctx plain cap s = (s1, Inr secure)"
  shows "readSecureU48BE (drop 3 secure) = ds_sendSeq48 s1"
proof -
  from ds_protect_frame [OF assms] obtain c where
    "mask48 (ds_sendSeq48 s1) = ds_sendSeq48 s1"
    "secure = [0x03, 0xF1, 0x10] @ writeSecureU48BE (ds_sendSeq48 s1) @ c" by blast
  then show ?thesis by simp
qed

lemma ds_protect_all_increasing:
  "mask48 (ds_sendSeq48 s) = ds_sendSeq48 s \<Longrightarrow>
   sorted_wrt (<) (ds_protect_all B ms s) \<and> (\<forall>q \<in> set (ds_protect_all B ms s). ds_sendSeq48 s < q)"
proof (induction ms arbitrary: s)
  case (Cons m ms)
  obtain ctx plain cap where m: "m = (ctx, plain, cap)" by (cases m)
  show ?case
  proof (cases "ds_protect B ctx plain cap s")
    case (Pair s1 r)
    show ?thesis
    proof (cases r)
      case (Inl e)
      then have "s1 = s" using ds_protect_error Pair by simp
      with Inl Pair Cons show ?thesis by (simp add: m)
    next
      case (Inr secure)
      with Pair have p: "ds_protect B ctx plain cap s = (s1, Inr secure)" by simp
      from ds_protect_frame [OF p] Cons.prems
      have "mask48 (ds_sendSeq48 s1) = ds_sendSeq48 s1" "ds_sendSeq48 s < ds_sendSeq48 s1"
        by (auto simp: word_gt_0)
      with Cons.IH [of s1] p ds_protect_number [OF p] show ?thesis by (auto simp: m)
    qed
  qed
qed simp

text \<open>
  A session never uses a sequence number for two frames: over any list of messages, with
  numbers the caller chooses or lets the session choose, the numbers in the emitted frames strictly
  increase. So no pair of key and nonce is used twice.
\<close>

theorem protect_never_reuses_number:
  "sorted_wrt (<) (ds_protect_all B ms (data_secure_session_new key))
   \<and> distinct (ds_protect_all B ms (data_secure_session_new key))"
proof -
  have "sorted_wrt (<) (ds_protect_all B ms (data_secure_session_new key))"
    using ds_protect_all_increasing [of "data_secure_session_new key" B ms]
    by (simp add: data_secure_session_new_def mask48_def)
  then show ?thesis by (simp add: strict_sorted_iff)
qed

text \<open>A receiver that unprotects a list of frames; the numbers it accepted.\<close>

fun ds_unprotect_all ::
  "aes_backend \<Rightarrow> (data_secure_context \<times> bytes \<times> nat) list \<Rightarrow> data_secure_session \<Rightarrow> u64 list" where
  "ds_unprotect_all B [] s = []"
| "ds_unprotect_all B ((ctx, secure, cap) # ms) s =
     (case ds_unprotect B ctx secure cap s of
        None \<Rightarrow> []
      | Some (s1, Inl _) \<Rightarrow> ds_unprotect_all B ms s1
      | Some (s1, Inr _) \<Rightarrow> ds_recvSeq48 s1 # ds_unprotect_all B ms s1)"

lemma ds_unprotect_cases:
  assumes "ds_unprotect B ctx secure cap s = Some (s1, r)"
  shows "(\<exists>e. r = Inl e \<and> s1 = s) \<or>
    (\<exists>plain. r = Inr plain \<and> ds_recvSeq48 s1 \<noteq> 0 \<and> rw_wouldAccept (ds_replay s) (ds_recvSeq48 s1)
       \<and> ds_replay s1 = rw_accept (ds_replay s) (ds_recvSeq48 s1))"
proof (cases r)
  case (Inl e)
  with assms have "s1 = s" by (auto simp: ds_unprotect_def Let_def split: if_splits sum.splits)
  with Inl show ?thesis by blast
next
  case (Inr plain)
  with assms show ?thesis by (auto simp: ds_unprotect_def Let_def split: if_splits sum.splits)
qed

lemma ds_unprotect_all_fresh:
  "rw_inv (ds_replay s) A \<Longrightarrow>
   distinct (ds_unprotect_all B ms s) \<and> (\<forall>q \<in> set (ds_unprotect_all B ms s). unat q \<notin> A)"
proof (induction ms arbitrary: s A)
  case (Cons m ms)
  obtain ctx secure cap where m: "m = (ctx, secure, cap)" by (cases m)
  show ?case
  proof (cases "ds_unprotect B ctx secure cap s")
    case (Some p)
    obtain s1 r where p: "p = (s1, r)" by (cases p)
    from ds_unprotect_cases [OF Some [unfolded p]] show ?thesis
    proof (elim disjE exE conjE)
      fix e assume "r = Inl e" "s1 = s"
      with Some p Cons show ?thesis by (simp add: m)
    next
      fix plain
      assume a: "r = Inr plain" "ds_recvSeq48 s1 \<noteq> 0" "rw_wouldAccept (ds_replay s) (ds_recvSeq48 s1)"
        "ds_replay s1 = rw_accept (ds_replay s) (ds_recvSeq48 s1)"
      have "unat (ds_recvSeq48 s1) \<notin> A" using rw_wouldAccept_iff [OF Cons.prems a(2)] a(3) by blast
      moreover have "rw_inv (ds_replay s1) (insert (unat (ds_recvSeq48 s1)) A)"
        unfolding a(4) by (rule rw_accept_inv [OF Cons.prems])
      ultimately show ?thesis using Cons.IH [of s1] Some p a(1) by (auto simp: m)
    qed
  qed (simp add: m)
qed simp

text \<open>
  No replay: over any list of received frames, genuine or forged, in any order, a session
  accepts every sequence number at most once.
\<close>

theorem unprotect_accepts_once:
  "distinct (ds_unprotect_all B ms (data_secure_session_new key))"
  using ds_unprotect_all_fresh [of "data_secure_session_new key" "{}"] rw_inv_init
  by (simp add: data_secure_session_new_def)

text \<open>
  The bound on the frame: \<open>unprotect\<close> leaves its local buffers exactly when the frame passes
  the checks before them and carries more than 255 octets of payload into a buffer that would hold
  them; nothing in the function stops such a frame.
\<close>

theorem unprotect_overruns:
  "ds_unprotect B ctx secure cap s = None \<longleftrightarrow>
     length secure > 268 \<and> length secure \<le> cap + 13 \<and> take 3 secure = [0x03, 0xF1, 0x10]
     \<and> mask48 (readSecureU48BE (drop 3 secure)) \<noteq> 0
     \<and> rw_wouldAccept (ds_replay s) (mask48 (readSecureU48BE (drop 3 secure)))
     \<and> ga_isValid (dc_dstAddr ctx) \<and> isUsableSecureSource (dc_srcIa ctx)"
proof -
  have "length secure \<ge> 3 \<Longrightarrow> take 3 secure = [secure ! 0, secure ! 1, secure ! 2]"
    by (cases secure; cases "tl secure"; cases "tl (tl secure)") (auto simp: numeral_3_eq_3)
  then show ?thesis
    by (auto simp: ds_unprotect_def Let_def ds_buildCounter0_def buildSecureCounter0_def ds_blockContext_def
        kSecureOverhead_def kMaxPlainApduSize_def split: if_splits)
qed

end
