(* ===== verification/Secure_Application.thy ===== *)
theory Secure_Application
  imports Data_Secure
begin

text \<open>
  The secure application layer (\<open>src/security/secure_application_layer.cpp\<close>) over the keys and
  sequence numbers of the Security Interface Object (\<open>src/objects/security_interface_object.cpp\<close>,
  \<open>objects/security_individual_address_table.hpp\<close>). Shown: what one device secures another with
  the key unwraps, no sequence number of a sender is unwrapped twice whatever requests arrive in
  between, plain messages to a secured group are refused, and at most one synchronisation answer
  leaves per second.
\<close>

section \<open>The Security Individual Address Table\<close>

definition iat_entryCount :: "bytes \<Rightarrow> nat" where "iat_entryCount blob = length blob div 8"

definition iat_addressAt :: "bytes \<Rightarrow> nat \<Rightarrow> individual_address" where
  "iat_addressAt blob i = word_be (blob ! (i * 8)) (blob ! (i * 8 + 1))"

definition iat_sequenceAt :: "bytes \<Rightarrow> nat \<Rightarrow> u64" where
  "iat_sequenceAt blob i = readSecureU48BE (drop (i * 8 + 2) blob)"

definition iat_indexOf :: "bytes \<Rightarrow> individual_address \<Rightarrow> nat option" where
  "iat_indexOf blob a = find (\<lambda>i. iat_addressAt blob i = a) [0..<iat_entryCount blob]"

definition iat_setSequenceFor :: "bytes \<Rightarrow> individual_address \<Rightarrow> u64 \<Rightarrow> bytes \<times> bool" where
  "iat_setSequenceFor blob a seq =
     (case iat_indexOf blob a of
        None \<Rightarrow> (blob, False)
      | Some i \<Rightarrow> (take (i * 8 + 2) blob @ writeSecureU48BE seq @ drop (i * 8 + 8) blob, True))"

section \<open>The Security Interface Object\<close>

datatype security_failure =
    NoFailure | SequenceNumberInvalid | AuthenticationFailed | DecryptionFailed | UnknownKey | InvalidSender

text \<open>\<open>so_extra\<close> are the blob properties by property identifier; 54 is the individual address table.\<close>

record security_object =
  so_mode :: u8
  so_toolKey :: bytes
  so_deviceKeys :: "u16 \<rightharpoonup> bytes"
  so_groupKeys :: "u16 \<rightharpoonup> bytes"
  so_sendingSequence :: u64
  so_receivingSequence :: u64
  so_toolAccessSequence :: u64
  so_peerSequences :: "u16 \<rightharpoonup> u64"
  so_dirty :: bool
  so_lastFailure :: security_failure
  so_failureCount :: u32
  so_lastFailureSource :: u16
  so_extra :: "u8 \<rightharpoonup> bytes"

definition security_object_new :: security_object where
  "security_object_new = \<lparr>so_mode = 0, so_toolKey = replicate 16 0, so_deviceKeys = Map.empty,
     so_groupKeys = Map.empty, so_sendingSequence = 0, so_receivingSequence = 0, so_toolAccessSequence = 0,
     so_peerSequences = Map.empty, so_dirty = False, so_lastFailure = NoFailure, so_failureCount = 0,
     so_lastFailureSource = 0, so_extra = Map.empty\<rparr>"

definition isSecurityEnabled :: "security_object \<Rightarrow> bool" where
  "isSecurityEnabled so \<longleftrightarrow> so_mode so = 1"

definition isKeyNonZero :: "bytes \<Rightarrow> bool" where "isKeyNonZero key \<longleftrightarrow> (\<exists>b \<in> set key. b \<noteq> 0)"

definition hasToolKey :: "security_object \<Rightarrow> bool" where "hasToolKey so \<longleftrightarrow> isKeyNonZero (so_toolKey so)"

definition so_setDeviceKey :: "individual_address \<Rightarrow> bytes \<Rightarrow> security_object \<Rightarrow> security_object" where
  "so_setDeviceKey a key so = so\<lparr>so_deviceKeys := (so_deviceKeys so)(a \<mapsto> key)\<rparr>"

definition so_getDeviceKey :: "security_object \<Rightarrow> individual_address \<Rightarrow> bytes result" where
  "so_getDeviceKey so a = (case so_deviceKeys so a of None \<Rightarrow> Inl ResourceUnavailable | Some k \<Rightarrow> Inr k)"

definition so_removeDeviceKey :: "individual_address \<Rightarrow> security_object \<Rightarrow> security_object" where
  "so_removeDeviceKey a so = so\<lparr>so_deviceKeys := (so_deviceKeys so)(a := None)\<rparr>"

definition so_setGroupKey :: "group_address \<Rightarrow> bytes \<Rightarrow> security_object \<Rightarrow> security_object" where
  "so_setGroupKey a key so = so\<lparr>so_groupKeys := (so_groupKeys so)(a \<mapsto> key)\<rparr>"

definition so_getGroupKey :: "security_object \<Rightarrow> group_address \<Rightarrow> bytes result" where
  "so_getGroupKey so a = (case so_groupKeys so a of None \<Rightarrow> Inl ResourceUnavailable | Some k \<Rightarrow> Inr k)"

definition so_removeGroupKey :: "group_address \<Rightarrow> security_object \<Rightarrow> security_object" where
  "so_removeGroupKey a so = so\<lparr>so_groupKeys := (so_groupKeys so)(a := None)\<rparr>"

definition so_clearAllKeys :: "security_object \<Rightarrow> security_object" where
  "so_clearAllKeys so = so\<lparr>so_toolKey := replicate 16 0, so_deviceKeys := Map.empty, so_groupKeys := Map.empty\<rparr>"

definition so_loadControlReset :: "security_object \<Rightarrow> security_object" where
  "so_loadControlReset so = so\<lparr>so_deviceKeys := Map.empty, so_groupKeys := Map.empty,
     so_extra := (so_extra so)(52 := None, 53 := None, 54 := None, 60 := None, 61 := None)\<rparr>"

definition so_isValid :: "security_object \<Rightarrow> bool" where
  "so_isValid so \<longleftrightarrow> so_mode so = 0 \<or> hasToolKey so"

definition incrementSendingSequence :: "security_object \<Rightarrow> security_object \<times> u64" where
  "incrementSendingSequence so =
     (so\<lparr>so_sendingSequence := so_sendingSequence so + 1\<rparr>, so_sendingSequence so + 1)"

definition logSecurityFailure :: "security_failure \<Rightarrow> u16 \<Rightarrow> security_object \<Rightarrow> security_object" where
  "logSecurityFailure f src so =
     so\<lparr>so_lastFailure := f, so_failureCount := so_failureCount so + 1, so_lastFailureSource := src\<rparr>"

definition clearFailureLog :: "security_object \<Rightarrow> security_object" where
  "clearFailureLog so = so\<lparr>so_lastFailure := NoFailure, so_failureCount := 0, so_lastFailureSource := 0\<rparr>"

definition updateReceivingSequence :: "u64 \<Rightarrow> security_object \<Rightarrow> security_object \<times> unit result" where
  "updateReceivingSequence seq so =
     (if seq \<le> so_receivingSequence so
      then (logSecurityFailure SequenceNumberInvalid 0 so, Inl InvalidParameter)
      else (so\<lparr>so_receivingSequence := seq\<rparr>, Inr ()))"

definition setToolAccessSequence :: "u64 \<Rightarrow> security_object \<Rightarrow> security_object" where
  "setToolAccessSequence seq so =
     (if seq = so_toolAccessSequence so then so else so\<lparr>so_toolAccessSequence := seq, so_dirty := True\<rparr>)"

definition getPeerSequence :: "security_object \<Rightarrow> individual_address \<Rightarrow> u64" where
  "getPeerSequence so a = (case so_peerSequences so a of None \<Rightarrow> 0 | Some s \<Rightarrow> s)"

definition setPeerSequence :: "individual_address \<Rightarrow> u64 \<Rightarrow> security_object \<Rightarrow> security_object" where
  "setPeerSequence a seq so =
     (let so1 = so\<lparr>so_peerSequences := (so_peerSequences so)(a \<mapsto> getPeerSequence so a)\<rparr> in
      if getPeerSequence so a = seq then so1
      else let so2 = so1\<lparr>so_peerSequences := (so_peerSequences so1)(a \<mapsto> seq), so_dirty := True\<rparr> in
        case so_extra so2 54 of
          None \<Rightarrow> so2
        | Some blob \<Rightarrow> so2\<lparr>so_extra := (so_extra so2)(54 \<mapsto> fst (iat_setSequenceFor blob a seq))\<rparr>)"

text \<open>\<open>syncSequencesFromAddressTable\<close>: the loop over the entries, with the blob and the live values.\<close>

fun sync_loop :: "nat list \<Rightarrow> bytes \<Rightarrow> (u16 \<rightharpoonup> u64) \<Rightarrow> bytes \<times> (u16 \<rightharpoonup> u64)" where
  "sync_loop [] blob live = (blob, live)"
| "sync_loop (i # is) blob live =
     (let a = iat_addressAt blob i; stored = iat_sequenceAt blob i;
          cur = (case live a of None \<Rightarrow> 0 | Some s \<Rightarrow> s); live1 = live(a \<mapsto> cur) in
      if stored > cur then sync_loop is blob (live1(a \<mapsto> stored))
      else if cur > stored then sync_loop is (fst (iat_setSequenceFor blob a cur)) live1
      else sync_loop is blob live1)"

definition syncSequencesFromAddressTable :: "security_object \<Rightarrow> security_object" where
  "syncSequencesFromAddressTable so =
     (case so_extra so 54 of
        None \<Rightarrow> so
      | Some blob \<Rightarrow>
          (case sync_loop [0..<iat_entryCount blob] blob (so_peerSequences so) of (blob1, live1) \<Rightarrow>
             so\<lparr>so_extra := (so_extra so)(54 \<mapsto> blob1), so_peerSequences := live1\<rparr>))"

section \<open>The security control field\<close>

datatype secure_service = SecData | SecSyncRequest | SecSyncResponse

fun secure_service_code :: "secure_service \<Rightarrow> u8" where
  "secure_service_code SecData = 0"
| "secure_service_code SecSyncRequest = 2"
| "secure_service_code SecSyncResponse = 3"

record security_control_field =
  scf_toolAccess :: bool
  scf_algorithm :: u8
  scf_systemBroadcast :: bool
  scf_service :: secure_service

definition scf_encode :: "security_control_field \<Rightarrow> u8" where
  "scf_encode f =
     (secure_service_code (scf_service f) AND 0x07) OR push_bit 4 (scf_algorithm f AND 0x07)
     OR (if scf_toolAccess f then 0x80 else 0) OR (if scf_systemBroadcast f then 0x08 else 0)"

definition scf_decode :: "u8 \<Rightarrow> security_control_field option" where
  "scf_decode raw =
     (let f = \<lambda>svc. \<lparr>scf_toolAccess = raw AND 0x80 \<noteq> 0, scf_algorithm = drop_bit 4 raw AND 0x07,
                      scf_systemBroadcast = raw AND 0x08 \<noteq> 0, scf_service = svc\<rparr>;
          checked = \<lambda>svc. if drop_bit 4 raw AND 0x07 \<noteq> 1 then None else Some (f svc);
          code = raw AND 0x07 in
      if code = 0 then checked SecData
      else if code = 2 then checked SecSyncRequest
      else if code = 3 then checked SecSyncResponse
      else None)"

section \<open>State of the layer\<close>

record secure_frame_info =
  si_source :: individual_address
  si_destination :: u16
  si_destinationType :: address_type
  si_tpci6 :: u8
  si_connected :: bool

definition si_isBroadcast :: "secure_frame_info \<Rightarrow> bool" where
  "si_isBroadcast info \<longleftrightarrow> si_destinationType info = Group \<and> si_destination info = 0"

datatype rx_disposition = RxPlain | RxUnwrapped | RxConsumed | RxRejected

record inbound_context =
  in_valid :: bool
  in_secured :: bool
  in_toolAccess :: bool
  in_peer :: u16

record peer_context =
  pc_address :: u16
  pc_valid :: bool
  pc_toolAccess :: bool

definition kPeerContexts :: nat where "kPeerContexts = 4"

record secure_layer =
  sal_object :: security_object
  sal_inbound :: inbound_context
  sal_ownAddress :: individual_address
  sal_serialNumber :: bytes
  sal_peers :: "peer_context list"
  sal_nextPeerSlot :: nat
  sal_lastSyncResponseMs :: u32
  sal_syncResponded :: bool

definition secure_layer_new :: "security_object \<Rightarrow> individual_address \<Rightarrow> bytes \<Rightarrow> secure_layer" where
  "secure_layer_new so own serial = \<lparr>sal_object = so,
     sal_inbound = \<lparr>in_valid = False, in_secured = False, in_toolAccess = False, in_peer = 0\<rparr>,
     sal_ownAddress = own, sal_serialNumber = serial,
     sal_peers = replicate kPeerContexts \<lparr>pc_address = 0, pc_valid = False, pc_toolAccess = False\<rparr>,
     sal_nextPeerSlot = 0, sal_lastSyncResponseMs = 0, sal_syncResponded = False\<rparr>"

text \<open>What the layer reads of its surroundings while it handles one frame: the cipher, the clock, the
  random octets and the transport's answer for the TPCI of a reply.\<close>

record sal_env =
  se_aes :: aes_backend
  se_now :: u32
  se_random :: bytes
  se_tpci :: "(secure_frame_info \<Rightarrow> u8) option"

definition isSecureApdu :: "bytes \<Rightarrow> bool" where
  "isSecureApdu tpdu \<longleftrightarrow> length tpdu \<ge> 2 \<and> tpdu ! 0 AND 0x03 = 0x03 \<and> tpdu ! 1 = 0xF1"

definition sal_blockContext :: "secure_frame_info \<Rightarrow> secure_block_context" where
  "sal_blockContext info = \<lparr>sb_srcIa = si_source info, sb_dstRaw = si_destination info,
     sb_atOctet = (if si_destinationType info = Group then 0x80 else 0x00), sb_tpci6 = si_tpci6 info\<rparr>"

definition selectKey ::
  "security_object \<Rightarrow> secure_frame_info \<Rightarrow> individual_address \<Rightarrow> bool \<Rightarrow> bytes result" where
  "selectKey so info peer toolAccess =
     (if toolAccess
      then (if \<not> hasToolKey so then Inl OperationNotReady else Inr (so_toolKey so))
      else if si_destinationType info = Group \<and> si_destination info \<noteq> 0
      then so_getGroupKey so (si_destination info)
      else so_getDeviceKey so peer)"

definition rememberPeer :: "individual_address \<Rightarrow> bool \<Rightarrow> secure_layer \<Rightarrow> secure_layer" where
  "rememberPeer peer toolAccess s =
     (case find_index (\<lambda>e. pc_valid e \<and> pc_address e = peer) (sal_peers s) of
        Some i \<Rightarrow> s\<lparr>sal_peers := (sal_peers s)[i := (sal_peers s ! i)\<lparr>pc_toolAccess := toolAccess\<rparr>]\<rparr>
      | None \<Rightarrow>
          s\<lparr>sal_peers := (sal_peers s)[sal_nextPeerSlot s :=
               \<lparr>pc_address = peer, pc_valid = True, pc_toolAccess = toolAccess\<rparr>],
            sal_nextPeerSlot := (sal_nextPeerSlot s + 1) mod kPeerContexts\<rparr>)"

definition findPeer :: "secure_layer \<Rightarrow> individual_address \<Rightarrow> peer_context option" where
  "findPeer s peer = find (\<lambda>e. pc_valid e \<and> pc_address e = peer) (sal_peers s)"

definition lastValid :: "security_object \<Rightarrow> individual_address \<Rightarrow> bool \<Rightarrow> u64" where
  "lastValid so src toolAccess = (if toolAccess then so_toolAccessSequence so else getPeerSequence so src)"

definition setLastValid :: "individual_address \<Rightarrow> bool \<Rightarrow> u64 \<Rightarrow> security_object \<Rightarrow> security_object" where
  "setLastValid src toolAccess seq so =
     (if toolAccess then setToolAccessSequence seq so else setPeerSequence src seq so)"

definition on_object :: "(security_object \<Rightarrow> security_object) \<Rightarrow> secure_layer \<Rightarrow> secure_layer" where
  "on_object f s = s\<lparr>sal_object := f (sal_object s)\<rparr>"

section \<open>Incoming frames\<close>

definition sal_handleData ::
  "sal_env \<Rightarrow> secure_frame_info \<Rightarrow> security_control_field \<Rightarrow> bytes \<Rightarrow> nat \<Rightarrow> secure_layer
   \<Rightarrow> secure_layer \<times> rx_disposition \<times> bytes" where
  "sal_handleData E info scf tpdu cap s =
     (if length tpdu < 13 then (s, RxRejected, [])
      else let seq = readSecureU48BE (drop 3 tpdu) in
        if seq = 0 then (s, RxRejected, [])
        else if seq \<le> lastValid (sal_object s) (si_source info) (scf_toolAccess scf)
        then (on_object (logSecurityFailure SequenceNumberInvalid (si_source info)) s, RxRejected, [])
        else case selectKey (sal_object s) info (si_source info) (scf_toolAccess scf) of
          Inl _ \<Rightarrow> (on_object (logSecurityFailure UnknownKey (si_source info)) s, RxRejected, [])
        | Inr key \<Rightarrow>
            let cipherLen = length tpdu - 13 in
            (case ccmDecrypt (se_aes E) key (sal_blockContext info) (writeSecureU48BE seq) (scf_encode scf) []
                    (take cipherLen (drop 9 tpdu)) (drop (9 + cipherLen) tpdu) cap of
               Inl _ \<Rightarrow> (on_object (logSecurityFailure DecryptionFailed (si_source info)) s, RxRejected, [])
             | Inr plain \<Rightarrow>
                 let s1 = on_object (setLastValid (si_source info) (scf_toolAccess scf) seq) s;
                     s2 = (if si_destinationType info \<noteq> Group \<or> si_destination info = 0
                           then rememberPeer (si_source info) (scf_toolAccess scf) s1 else s1)
                 in (s2, RxUnwrapped, plain)))"

definition sync_outgoing :: "sal_env \<Rightarrow> secure_frame_info \<Rightarrow> individual_address \<Rightarrow> secure_frame_info" where
  "sync_outgoing E info own =
     (let out = \<lparr>si_source = own,
                 si_destination = (if si_isBroadcast info then 0 else si_source info),
                 si_destinationType = (if si_isBroadcast info then Group else Individual),
                 si_tpci6 = 0, si_connected = si_connected info\<rparr> in
      case se_tpci E of
        Some f \<Rightarrow> if si_connected out then out\<lparr>si_tpci6 := f out\<rparr> else out
      | None \<Rightarrow> out)"

text \<open>The answer and the frame the sink is called with, if any.\<close>

definition sal_handleSyncRequest ::
  "sal_env \<Rightarrow> secure_frame_info \<Rightarrow> security_control_field \<Rightarrow> bytes \<Rightarrow> secure_layer
   \<Rightarrow> secure_layer \<times> rx_disposition \<times> (secure_frame_info \<times> bytes) list" where
  "sal_handleSyncRequest E info scf tpdu s =
     (if length tpdu \<noteq> 25 then (s, RxRejected, [])
      else if sal_syncResponded s \<and> se_now E - sal_lastSyncResponseMs s < 1000 then (s, RxConsumed, [])
      else let seqLocal = readSecureU48BE (drop 3 tpdu); serial = take 6 (drop 9 tpdu);
               serialIsZero = list_all (\<lambda>b. b = 0) serial in
        if (if si_isBroadcast info then serialIsZero \<or> serial \<noteq> sal_serialNumber s
            else \<not> serialIsZero \<and> serial \<noteq> sal_serialNumber s)
        then (s, RxConsumed, [])
        else if seqLocal = 0 then (s, RxConsumed, [])
        else case selectKey (sal_object s) info (si_source info) (scf_toolAccess scf) of
          Inl _ \<Rightarrow> (s, RxConsumed, [])
        | Inr key \<Rightarrow>
            (case ccmDecrypt (se_aes E) key (sal_blockContext info) (writeSecureU48BE seqLocal) (scf_encode scf)
                    serial (take 6 (drop 15 tpdu)) (drop 21 tpdu) 6 of
               Inl _ \<Rightarrow> (on_object (logSecurityFailure DecryptionFailed (si_source info)) s, RxConsumed, [])
             | Inr challenge \<Rightarrow>
                 let stored = lastValid (sal_object s) (si_source info) (scf_toolAccess scf);
                     newStored = max (seqLocal - 1) stored;
                     s1 = on_object (setLastValid (si_source info) (scf_toolAccess scf) newStored) s;
                     seqRemote = so_sendingSequence (sal_object s1) + 1;
                     responseScf = scf\<lparr>scf_service := SecSyncResponse\<rparr>;
                     out = sync_outgoing E info (sal_ownAddress s1);
                     payload = writeSecureU48BE seqRemote @ writeSecureU48BE (newStored + 1)
                 in (case ccmEncrypt (se_aes E) key (sal_blockContext out) (se_random E) (scf_encode responseScf) []
                            payload 16 of
                       Inl _ \<Rightarrow> (s1, RxConsumed, [])
                     | Inr enc \<Rightarrow>
                         (rememberPeer (si_source info) (scf_toolAccess scf)
                            (s1\<lparr>sal_lastSyncResponseMs := se_now E, sal_syncResponded := True\<rparr>),
                          RxConsumed,
                          [(out, [0x03, 0xF1, scf_encode responseScf] @ xor_bytes challenge (se_random E) @ enc)]))))"

definition sal_processIncoming ::
  "sal_env \<Rightarrow> secure_frame_info \<Rightarrow> bytes \<Rightarrow> nat \<Rightarrow> secure_layer
   \<Rightarrow> secure_layer \<times> rx_disposition \<times> bytes \<times> (secure_frame_info \<times> bytes) list" where
  "sal_processIncoming E info tpdu cap s0 =
     (let s = s0\<lparr>sal_inbound := \<lparr>in_valid = True, in_secured = False, in_toolAccess = False,
                                 in_peer = si_source info\<rparr>\<rparr>; so = sal_object s in
      if \<not> isSecureApdu tpdu
      then (if isSecurityEnabled so \<and> si_destinationType info = Group \<and> si_destination info \<noteq> 0
               \<and> isOk (so_getGroupKey so (si_destination info))
            then (on_object (logSecurityFailure AuthenticationFailed (si_source info)) s, RxRejected, [], [])
            else (s, RxPlain, [], []))
      else if \<not> isSecurityEnabled so then (s, RxRejected, [], [])
      else if length tpdu < 3 then (s, RxRejected, [], [])
      else case scf_decode (tpdu ! 2) of
        None \<Rightarrow> (s, RxRejected, [], [])
      | Some scf \<Rightarrow>
          let s1 = s\<lparr>sal_inbound := (sal_inbound s)\<lparr>in_secured := True, in_toolAccess := scf_toolAccess scf\<rparr>\<rparr> in
          (case scf_service scf of
             SecData \<Rightarrow> (case sal_handleData E info scf tpdu cap s1 of (s2, d, plain) \<Rightarrow> (s2, d, plain, []))
           | SecSyncRequest \<Rightarrow> (case sal_handleSyncRequest E info scf tpdu s1 of (s2, d, sent) \<Rightarrow> (s2, d, [], sent))
           | SecSyncResponse \<Rightarrow> (s1, RxConsumed, [], [])))"

section \<open>Outgoing frames\<close>

definition outgoing_peer :: "secure_layer \<Rightarrow> secure_frame_info \<Rightarrow> individual_address" where
  "outgoing_peer s info =
     (if si_destinationType info = Individual then si_destination info else in_peer (sal_inbound s))"

text \<open>Whether the frame is to be secured, and if so with tool access or not.\<close>

definition outgoing_access :: "secure_layer \<Rightarrow> secure_frame_info \<Rightarrow> bool option" where
  "outgoing_access s info =
     (let inb = sal_inbound s; broadcast = si_isBroadcast info in
      if si_destinationType info = Group \<and> si_destination info \<noteq> 0 then Some False
      else if in_valid inb \<and> (broadcast \<or> in_peer inb = si_destination info)
      then (if in_secured inb then Some (in_toolAccess inb) else None)
      else if broadcast then None
      else map_option pc_toolAccess (findPeer s (outgoing_peer s info)))"

definition data_scf :: "bool \<Rightarrow> security_control_field" where
  "data_scf toolAccess = \<lparr>scf_toolAccess = toolAccess, scf_algorithm = 1, scf_systemBroadcast = False,
     scf_service = SecData\<rparr>"

text \<open>\<open>Inr []\<close> is the length 0 of the code: the frame goes out in plain.\<close>

definition sal_processOutgoing ::
  "sal_env \<Rightarrow> secure_frame_info \<Rightarrow> bytes \<Rightarrow> nat \<Rightarrow> secure_layer \<Rightarrow> secure_layer \<times> bytes result" where
  "sal_processOutgoing E info plain cap s =
     (if \<not> isSecurityEnabled (sal_object s) \<or> length plain < 2 then (s, Inr [])
      else if isSecureApdu plain then (s, Inr [])
      else case outgoing_access s info of
        None \<Rightarrow> (s, Inr [])
      | Some toolAccess \<Rightarrow>
          (case selectKey (sal_object s) info (outgoing_peer s info) toolAccess of
             Inl _ \<Rightarrow> (s, Inr [])
           | Inr key \<Rightarrow>
               if cap < protectedTpduSize (length plain) then (s, Inl BufferTooSmall)
               else case incrementSendingSequence (sal_object s) of (so1, seq) \<Rightarrow>
                 let s1 = s\<lparr>sal_object := so1\<rparr>; scf = scf_encode (data_scf toolAccess);
                     nonce = writeSecureU48BE seq in
                 (case ccmEncrypt (se_aes E) key (sal_blockContext info) nonce scf [] plain (cap - 9) of
                    Inl e \<Rightarrow> (s1, Inl e)
                  | Inr c \<Rightarrow> (s1, Inr ([0x03, 0xF1, scf] @ nonce @ c)))))"

section \<open>The control field\<close>

lemma scf_decode_encode: "scf_algorithm f = 1 \<Longrightarrow> scf_decode (scf_encode f) = Some f"
  by (cases f; cases "scf_service f"; cases "scf_toolAccess f"; cases "scf_systemBroadcast f")
    (simp_all add: scf_decode_def scf_encode_def Let_def)

interpretation scf: result_codec
  "\<lambda>f. Inr (scf_encode f)" "\<lambda>raw. case scf_decode raw of Some f \<Rightarrow> Inr f | None \<Rightarrow> Inl DecodeFailed"
  "\<lambda>f. scf_algorithm f = 1"
  by unfold_locales (auto simp: scf_decode_encode)

section \<open>Sequence numbers only grow\<close>

lemma getPeerSequence_set [simp]:
  "getPeerSequence (setPeerSequence a q so) b = (if b = a then q else getPeerSequence so b)"
  "so_toolAccessSequence (setPeerSequence a q so) = so_toolAccessSequence so"
  by (auto simp: setPeerSequence_def getPeerSequence_def Let_def split: option.splits)

lemma getPeerSequence_setTool [simp]:
  "getPeerSequence (setToolAccessSequence q so) b = getPeerSequence so b"
  "so_toolAccessSequence (setToolAccessSequence q so) = q"
  by (simp_all add: setToolAccessSequence_def getPeerSequence_def)

lemma lastValid_set:
  "lastValid (setLastValid src t q so) a t' =
     (if t' = t \<and> (t \<or> a = src) then q else lastValid so a t')"
  by (cases t; cases t') (simp_all add: lastValid_def setLastValid_def)

lemma lastValid_log [simp]: "lastValid (logSecurityFailure f src so) a t = lastValid so a t"
  by (simp add: lastValid_def logSecurityFailure_def getPeerSequence_def)

lemma lastValid_tool: "lastValid so a True = lastValid so b True"
  by (simp add: lastValid_def)

lemma lastValid_set_mono:
  assumes "lastValid so src t \<le> q"
  shows "lastValid so a t' \<le> lastValid (setLastValid src t q so) a t'"
  using assms lastValid_tool [of so a src] by (cases t) (auto simp: lastValid_set)

lemma rememberPeer_object [simp]: "sal_object (rememberPeer p t s) = sal_object s"
  by (simp add: rememberPeer_def split: option.split)

lemma on_object_simps [simp]:
  "sal_object (on_object f s) = f (sal_object s)" "sal_inbound (on_object f s) = sal_inbound s"
  by (simp_all add: on_object_def)

lemma handleData_outcome:
  "case sal_handleData E info scf tpdu cap s of (s1, d, plain) \<Rightarrow>
     (d = RxRejected \<and> (sal_object s1 = sal_object s \<or> (\<exists>f src. sal_object s1 = logSecurityFailure f src (sal_object s))))
   \<or> (d = RxUnwrapped
      \<and> \<not> readSecureU48BE (drop 3 tpdu) \<le> lastValid (sal_object s) (si_source info) (scf_toolAccess scf)
      \<and> sal_object s1 =
        setLastValid (si_source info) (scf_toolAccess scf) (readSecureU48BE (drop 3 tpdu)) (sal_object s))"
  by (auto simp: sal_handleData_def Let_def split: sum.split)

lemma handleData_cases:
  assumes "sal_handleData E info scf tpdu cap s = (s1, d, plain)"
  obtains (refused) "d = RxRejected" "\<And>a t. lastValid (sal_object s1) a t = lastValid (sal_object s) a t"
  | (unwrapped) "d = RxUnwrapped"
      "lastValid (sal_object s) (si_source info) (scf_toolAccess scf) < readSecureU48BE (drop 3 tpdu)"
      "sal_object s1 =
        setLastValid (si_source info) (scf_toolAccess scf) (readSecureU48BE (drop 3 tpdu)) (sal_object s)"
  using handleData_outcome [where E = E and info = info and scf = scf and tpdu = tpdu and cap = cap and s = s] unfolding assms not_le by auto

lemma handleData_mono:
  assumes "sal_handleData E info scf tpdu cap s = (s1, d, plain)"
  shows "lastValid (sal_object s) a t \<le> lastValid (sal_object s1) a t"
  using assms
  by (cases rule: handleData_cases) (simp_all add: lastValid_set_mono less_imp_le)

definition sync_new_stored :: "secure_layer \<Rightarrow> secure_frame_info \<Rightarrow> security_control_field \<Rightarrow> bytes \<Rightarrow> u64" where
  "sync_new_stored s info scf tpdu =
     max (readSecureU48BE (drop 3 tpdu) - 1) (lastValid (sal_object s) (si_source info) (scf_toolAccess scf))"

lemma handleSync_object:
  "case sal_handleSyncRequest E info scf tpdu s of (s1, d, sent) \<Rightarrow>
     d \<noteq> RxUnwrapped \<and> (sal_object s1 = sal_object s
      \<or> sal_object s1 = logSecurityFailure DecryptionFailed (si_source info) (sal_object s)
      \<or> sal_object s1 =
          setLastValid (si_source info) (scf_toolAccess scf) (sync_new_stored s info scf tpdu) (sal_object s))"
  by (simp add: sal_handleSyncRequest_def Let_def sync_new_stored_def split: sum.split)

lemma handleSync_mono:
  assumes "sal_handleSyncRequest E info scf tpdu s = (s1, d, sent)"
  shows "lastValid (sal_object s) a t \<le> lastValid (sal_object s1) a t" "d \<noteq> RxUnwrapped"
  using handleSync_object [where E = E and info = info and scf = scf and tpdu = tpdu and s = s] unfolding assms
  by (auto simp: sync_new_stored_def lastValid_set_mono)

section \<open>Runs of the layer\<close>

text \<open>Any interleaving of incoming and outgoing frames; the trace holds the sender, the tool access flag
  and the number of every frame that was unwrapped.\<close>

datatype sal_event =
    SalIncoming sal_env secure_frame_info bytes nat
  | SalOutgoing sal_env secure_frame_info bytes nat

type_synonym accepted = "u16 \<times> bool \<times> u64"

fun sal_step :: "sal_event \<Rightarrow> secure_layer \<Rightarrow> secure_layer \<times> accepted list" where
  "sal_step (SalIncoming E info tpdu cap) s =
     (case sal_processIncoming E info tpdu cap s of (s1, d, _, _) \<Rightarrow>
        (s1, if d = RxUnwrapped
             then [(si_source info, in_toolAccess (sal_inbound s1), readSecureU48BE (drop 3 tpdu))] else []))"
| "sal_step (SalOutgoing E info plain cap) s = (fst (sal_processOutgoing E info plain cap s), [])"

fun sal_run :: "sal_event list \<Rightarrow> secure_layer \<Rightarrow> secure_layer \<times> accepted list" where
  "sal_run [] s = (s, [])"
| "sal_run (e # es) s =
     (case sal_step e s of (s1, xs) \<Rightarrow> case sal_run es s1 of (s2, ys) \<Rightarrow> (s2, xs @ ys))"

text \<open>Two accepted frames count on the same number: both with tool access, or both from one sender.\<close>

fun same_counter :: "accepted \<Rightarrow> accepted \<Rightarrow> bool" where
  "same_counter (a, t, _) (b, u, _) \<longleftrightarrow> t = u \<and> (t \<or> a = b)"

fun later_number :: "accepted \<Rightarrow> accepted \<Rightarrow> bool" where
  "later_number x y \<longleftrightarrow> (if same_counter x y then snd (snd x) < snd (snd y) else True)"

lemma lastValid_incrementSending [simp]:
  "lastValid (fst (incrementSendingSequence so)) a t = lastValid so a t"
  by (simp add: lastValid_def incrementSendingSequence_def getPeerSequence_def)

lemma processOutgoing_object:
  "sal_object (fst (sal_processOutgoing E info plain cap s)) = sal_object s
   \<or> sal_object (fst (sal_processOutgoing E info plain cap s)) = fst (incrementSendingSequence (sal_object s))"
  by (simp add: sal_processOutgoing_def Let_def split: sum.split option.split prod.split)

lemma rememberPeer_inbound [simp]: "sal_inbound (rememberPeer p t s) = sal_inbound s"
  by (simp add: rememberPeer_def split: option.split)

lemma handleData_inbound: "sal_inbound (fst (sal_handleData E info scf tpdu cap s)) = sal_inbound s"
  by (simp add: sal_handleData_def Let_def split: sum.split)

text \<open>The state a secured frame is handled in: the inbound context names its sender and its access.\<close>

definition sal_enter :: "secure_frame_info \<Rightarrow> security_control_field \<Rightarrow> secure_layer \<Rightarrow> secure_layer" where
  "sal_enter info scf s = s\<lparr>sal_inbound := \<lparr>in_valid = True, in_secured = True,
     in_toolAccess = scf_toolAccess scf, in_peer = si_source info\<rparr>\<rparr>"

lemma sal_enter_simps [simp]:
  "sal_object (sal_enter info scf s) = sal_object s"
  "in_toolAccess (sal_inbound (sal_enter info scf s)) = scf_toolAccess scf"
  by (simp_all add: sal_enter_def)

lemma processIncoming_outcome:
  "case sal_processIncoming E info tpdu cap s of (s1, d, plain, sent) \<Rightarrow>
     (d \<noteq> RxUnwrapped \<and> (sal_object s1 = sal_object s
        \<or> sal_object s1 = logSecurityFailure AuthenticationFailed (si_source info) (sal_object s)))
   \<or> (\<exists>scf. sal_handleData E info scf tpdu cap (sal_enter info scf s) = (s1, d, plain))
   \<or> (\<exists>scf. sal_handleSyncRequest E info scf tpdu (sal_enter info scf s) = (s1, d, sent))"
  by (simp add: sal_processIncoming_def Let_def sal_enter_def split: option.split secure_service.split prod.split)
     blast

lemma processIncoming_cases:
  assumes "sal_processIncoming E info tpdu cap s = (s1, d, plain, sent)"
  obtains (unwrapped) "d = RxUnwrapped"
      "lastValid (sal_object s) (si_source info) (in_toolAccess (sal_inbound s1)) < readSecureU48BE (drop 3 tpdu)"
      "sal_object s1 = setLastValid (si_source info) (in_toolAccess (sal_inbound s1))
         (readSecureU48BE (drop 3 tpdu)) (sal_object s)"
  | (other) "d \<noteq> RxUnwrapped" "\<And>a t. lastValid (sal_object s) a t \<le> lastValid (sal_object s1) a t"
proof -
  consider (plain) "d \<noteq> RxUnwrapped" "\<And>a t. lastValid (sal_object s1) a t = lastValid (sal_object s) a t"
    | (data) scf where "sal_handleData E info scf tpdu cap (sal_enter info scf s) = (s1, d, plain)"
    | (sync) scf where "sal_handleSyncRequest E info scf tpdu (sal_enter info scf s) = (s1, d, sent)"
    using processIncoming_outcome [where E = E and info = info and tpdu = tpdu and cap = cap and s = s]
    unfolding assms by auto
  then show thesis
  proof cases
    case plain
    then show thesis by (intro other) simp_all
  next
    case data
    have tool: "in_toolAccess (sal_inbound s1) = scf_toolAccess scf"
      using handleData_inbound [where E = E and info = info and scf = scf and tpdu = tpdu and cap = cap
          and s = "sal_enter info scf s"] by (simp add: data)
    from data show thesis
    proof (cases rule: handleData_cases)
      case refused
      then show thesis by (intro other) simp_all
    next
      case unwrapped
      then show thesis by (intro that(1)) (simp_all add: tool)
    qed
  next
    case sync
    show thesis using handleSync_mono [OF sync] by (intro other) simp_all
  qed
qed

lemma sal_step_mono:
  assumes "sal_step e s = (s1, xs)"
  shows "lastValid (sal_object s) a t \<le> lastValid (sal_object s1) a t"
proof (cases e)
  case (SalIncoming E info tpdu cap)
  obtain d p q where r: "sal_processIncoming E info tpdu cap s = (s1, d, p, q)"
    using assms SalIncoming by (auto split: prod.splits)
  show ?thesis using r
    by (cases rule: processIncoming_cases) (simp_all add: lastValid_set_mono less_imp_le)
next
  case (SalOutgoing E info plain cap)
  then show ?thesis using assms processOutgoing_object [of E info plain cap s] by auto
qed

lemma sal_step_length: "length (snd (sal_step e s)) \<le> 1"
  by (cases e) (auto split: prod.splits)

lemma sal_step_accepts:
  assumes "sal_step e s = (s1, xs)" "(a, t, q) \<in> set xs"
  shows "xs = [(a, t, q)]" "lastValid (sal_object s) a t < q" "lastValid (sal_object s1) a t = q"
proof -
  obtain E info tpdu cap where e: "e = SalIncoming E info tpdu cap"
    using assms by (cases e) auto
  obtain d p r where step: "sal_processIncoming E info tpdu cap s = (s1, d, p, r)"
    using assms e by (auto split: prod.splits)
  then have xs: "xs = (if d = RxUnwrapped then [(si_source info, in_toolAccess (sal_inbound s1),
      readSecureU48BE (drop 3 tpdu))] else [])"
    using assms e by auto
  then have at: "a = si_source info" "t = in_toolAccess (sal_inbound s1)" "q = readSecureU48BE (drop 3 tpdu)"
    and d: "d = RxUnwrapped"
    using assms(2) by (auto split: if_splits)
  from step show "xs = [(a, t, q)]" "lastValid (sal_object s) a t < q" "lastValid (sal_object s1) a t = q"
    by (cases rule: processIncoming_cases; use d xs in \<open>simp add: at lastValid_set\<close>)+
qed

lemma sal_run_above:
  assumes "(a, t, q) \<in> set (snd (sal_run es s))"
  shows "lastValid (sal_object s) a t < q"
  using assms
proof (induction es arbitrary: s)
  case (Cons e es)
  obtain s1 xs where step: "sal_step e s = (s1, xs)" by (cases "sal_step e s")
  consider "(a, t, q) \<in> set xs" | "(a, t, q) \<in> set (snd (sal_run es s1))"
    using Cons.prems step by (auto split: prod.splits)
  then show ?case
  proof cases
    case 1
    then show ?thesis using sal_step_accepts [OF step] by simp
  next
    case 2
    show ?thesis using Cons.IH [OF 2] sal_step_mono [OF step, of a t] by simp
  qed
qed simp

text \<open>
  C11. No secured frame is unwrapped twice: in every run of the layer, with any frames in any order in
  both directions, synchronisation requests included, the numbers of the frames unwrapped from one sender
  (or with tool access, from all senders together) are strictly increasing.
\<close>
theorem unwrapped_numbers_increase: "sorted_wrt later_number (snd (sal_run es s))"
proof (induction es arbitrary: s)
  case (Cons e es)
  obtain s1 xs where step: "sal_step e s = (s1, xs)" by (cases "sal_step e s")
  have later: "later_number x y" if "x \<in> set xs" "y \<in> set (snd (sal_run es s1))" for x y
  proof -
    obtain a t q b u r where xy: "x = (a, t, q)" "y = (b, u, r)" by (cases x; cases y) auto
    have "lastValid (sal_object s1) b u < r" using sal_run_above that xy by auto
    moreover have "lastValid (sal_object s1) a t = q" using sal_step_accepts [OF step] that xy by auto
    ultimately show ?thesis using lastValid_tool [of "sal_object s1" a b] by (auto simp: xy)
  qed
  have "sorted_wrt later_number xs"
    using sal_step_length [of e s] by (cases xs rule: list.exhaust) (auto simp: step)
  moreover obtain s2 ys where run: "sal_run es s1 = (s2, ys)" by (cases "sal_run es s1")
  moreover have "sorted_wrt later_number ys" using Cons.IH [of s1] unfolding run snd_conv .
  ultimately have "sorted_wrt later_number (xs @ ys)"
    using later unfolding sorted_wrt_append by (simp only: run snd_conv) blast
  then show ?case by (simp add: step run del: later_number.simps)
qed simp

section \<open>From one device to another\<close>

lemma processOutgoing_secured:
  assumes "sal_processOutgoing E info plain cap s = (s1, Inr frame)" "frame \<noteq> []"
    and "outgoing_access s info = Some tool"
  defines "seq \<equiv> so_sendingSequence (sal_object s) + 1"
  obtains key c where "selectKey (sal_object s) info (outgoing_peer s info) tool = Inr key"
    "ccmEncrypt (se_aes E) key (sal_blockContext info) (writeSecureU48BE seq) (scf_encode (data_scf tool)) [] plain
       (cap - 9) = Inr c"
    "frame = [0x03, 0xF1, scf_encode (data_scf tool)] @ writeSecureU48BE seq @ c"
    "s1 = on_object (\<lambda>so. so\<lparr>so_sendingSequence := seq\<rparr>) s"
  using assms
  by (auto simp: sal_processOutgoing_def incrementSendingSequence_def on_object_def Let_def
      split: if_splits sum.splits)

lemma isSecureApdu_frame [simp]: "isSecureApdu ([0x03, 0xF1] @ rest)" "isSecureApdu (0x03 # 0xF1 # rest)"
  by (simp_all add: isSecureApdu_def)

lemma handleData_unwraps:
  assumes "ccmDecrypt (se_aes E) key (sal_blockContext info) (writeSecureU48BE seq) (scf_encode scf) []
      (take n c) (drop n c) cap = Inr plain"
    and "length c = n + 4" "mask48 seq = seq" "lastValid (sal_object s) (si_source info) (scf_toolAccess scf) < seq"
    and "selectKey (sal_object s) info (si_source info) (scf_toolAccess scf) = Inr key"
  shows "\<exists>s1. sal_handleData E info scf ([x, y, z] @ writeSecureU48BE seq @ c) cap s = (s1, RxUnwrapped, plain)
    \<and> sal_object s1 = setLastValid (si_source info) (scf_toolAccess scf) seq (sal_object s)"
proof -
  define tpdu where "tpdu = [x, y, z] @ writeSecureU48BE seq @ c"
  have c: "drop 9 tpdu = c" by (simp add: tpdu_def)
  then have "drop (9 + n) tpdu = drop n c" by (metis add.commute drop_drop)
  moreover have "readSecureU48BE (drop 3 tpdu) = seq" using assms(3) by (simp add: tpdu_def)
  moreover have "length tpdu = 13 + n" using assms(2) by (simp add: tpdu_def)
  moreover have "seq \<noteq> 0" using assms(4) by auto
  ultimately show ?thesis using c assms(1,4,5) unfolding tpdu_def [symmetric]
    by (simp add: sal_handleData_def Let_def not_le)
qed

text \<open>
  C4. A secured message reaches the other device unchanged: the frame that \<open>processOutgoing\<close> produces
  with a key the other device holds for it is unwrapped there to the same octets, and its number becomes
  the last valid one, provided the number is new to that device and below \<open>2\<^sup>4\<^sup>8\<close>.
\<close>
theorem secured_message_delivered:
  assumes "sal_processOutgoing EA info plain cap sA = (sA1, Inr frame)" "frame \<noteq> []"
    and "outgoing_access sA info = Some tool"
    and "se_aes EB = se_aes EA" "aes_works (se_aes EA) enc"
    and "isSecurityEnabled (sal_object sB)"
    and "selectKey (sal_object sB) info (si_source info) tool =
         selectKey (sal_object sA) info (outgoing_peer sA info) tool"
    and "so_sendingSequence (sal_object sA1) < 2 ^ 48"
    and "lastValid (sal_object sB) (si_source info) tool < so_sendingSequence (sal_object sA1)"
    and "length plain \<le> cap'"
  shows "\<exists>sB1. sal_processIncoming EB info frame cap' sB = (sB1, RxUnwrapped, plain, [])
    \<and> lastValid (sal_object sB1) (si_source info) tool = so_sendingSequence (sal_object sA1)"
proof -
  let ?scf = "data_scf tool" and ?seq = "so_sendingSequence (sal_object sA) + 1"
  obtain key c where k: "selectKey (sal_object sA) info (outgoing_peer sA info) tool = Inr key"
    "ccmEncrypt (se_aes EA) key (sal_blockContext info) (writeSecureU48BE ?seq) (scf_encode ?scf) [] plain (cap - 9)
       = Inr c"
    "frame = [0x03, 0xF1, scf_encode ?scf] @ writeSecureU48BE ?seq @ c"
    "sA1 = on_object (\<lambda>so. so\<lparr>so_sendingSequence := ?seq\<rparr>) sA"
    using processOutgoing_secured [OF assms(1-3)] by blast
  have seq: "so_sendingSequence (sal_object sA1) = ?seq" by (simp add: k(4))
  have masked: "mask48 ?seq = ?seq"
    using assms(8) unfolding seq by (rule mask48_small)
  have len6: "length (writeSecureU48BE ?seq) = 6" by simp
  note d = ccm_decrypts [OF assms(5) len6 k(2) assms(10)]
  have tool: "scf_toolAccess ?scf = tool" by (simp add: data_scf_def)
  have dec: "scf_decode (scf_encode ?scf) = Some ?scf" by (rule scf_decode_encode) (simp add: data_scf_def)
  have svc: "scf_service ?scf = SecData" by (simp add: data_scf_def)
  let ?s = "sal_enter info ?scf sB"
  have "\<exists>s1. sal_handleData EB info ?scf frame cap' ?s = (s1, RxUnwrapped, plain)
      \<and> sal_object s1 = setLastValid (si_source info) (scf_toolAccess ?scf) ?seq (sal_object ?s)"
    unfolding k(3)
    by (rule handleData_unwraps [where n = "length plain" and key = key])
      (use d masked assms(4,7,9) k(1) seq tool in simp_all)
  then obtain s1 where s1: "sal_handleData EB info ?scf frame cap' ?s = (s1, RxUnwrapped, plain)"
    "sal_object s1 = setLastValid (si_source info) tool ?seq (sal_object sB)" by (auto simp: tool)
  have fr: "isSecureApdu frame" "3 \<le> length frame" "frame ! 2 = scf_encode ?scf" by (simp_all add: k(3))
  have "sal_processIncoming EB info frame cap' sB = (s1, RxUnwrapped, plain, [])"
    using s1(1) fr assms(6) unfolding sal_enter_def
    by (simp add: sal_processIncoming_def Let_def dec svc)
  then show ?thesis using s1(2) by (simp add: lastValid_set seq)
qed

text \<open>Two devices with one group key.\<close>

definition sample_group_info :: secure_frame_info where
  "sample_group_info = \<lparr>si_source = 0x1101, si_destination = 0x0A03, si_destinationType = Group, si_tpci6 = 0,
     si_connected = False\<rparr>"

definition sample_secure_device :: "individual_address \<Rightarrow> secure_layer" where
  "sample_secure_device own = secure_layer_new
     (so_setGroupKey 0x0A03 (replicate 16 7) (security_object_new\<lparr>so_mode := 1\<rparr>)) own (replicate 6 1)"

definition sample_sal_env :: sal_env where
  "sample_sal_env = \<lparr>se_aes = toy_aes, se_now = 5000, se_random = replicate 6 9, se_tpci = None\<rparr>"

lemma sample_outgoing:
  obtains frame where "sal_processOutgoing sample_sal_env sample_group_info [0, 0x81] 100 (sample_secure_device 0x1101)
    = (on_object (\<lambda>so. so\<lparr>so_sendingSequence := 1\<rparr>) (sample_secure_device 0x1101), Inr frame)" "frame \<noteq> []"
proof -
  have sel: "selectKey (sal_object (sample_secure_device 0x1101)) sample_group_info
      (outgoing_peer (sample_secure_device 0x1101) sample_group_info) False = Inr (replicate 16 7)"
    "outgoing_access (sample_secure_device 0x1101) sample_group_info = Some False"
    "so_sendingSequence (sal_object (sample_secure_device 0x1101)) = 0"
    "isSecurityEnabled (sal_object (sample_secure_device 0x1101))"
    by code_simp+
  have "isOk (ccmEncrypt toy_aes (replicate 16 7) (sal_blockContext sample_group_info) (writeSecureU48BE 1)
      (scf_encode (data_scf False)) [] [0, 0x81] 91)" by code_simp
  then obtain c where "ccmEncrypt toy_aes (replicate 16 7) (sal_blockContext sample_group_info) (writeSecureU48BE 1)
      (scf_encode (data_scf False)) [] [0, 0x81] 91 = Inr c" by (metis isOk.elims(2))
  with sel show thesis
    by (intro that [of "[0x03, 0xF1, scf_encode (data_scf False)] @ writeSecureU48BE 1 @ c"])
      (simp_all add: sal_processOutgoing_def isSecureApdu_def protectedTpduSize_def kSecureOverhead_def
        incrementSendingSequence_def on_object_def sample_sal_env_def)
qed

theorem secured_message_delivered_witness:
  "\<exists>frame sB1. sal_processIncoming sample_sal_env sample_group_info frame 100 (sample_secure_device 0x1102)
     = (sB1, RxUnwrapped, [0, 0x81], []) \<and> lastValid (sal_object sB1) 0x1101 False = 1"
proof -
  obtain frame where f: "sal_processOutgoing sample_sal_env sample_group_info [0, 0x81] 100 (sample_secure_device 0x1101)
    = (on_object (\<lambda>so. so\<lparr>so_sendingSequence := 1\<rparr>) (sample_secure_device 0x1101), Inr frame)" "frame \<noteq> []"
    by (rule sample_outgoing)
  have acc: "outgoing_access (sample_secure_device 0x1101) sample_group_info = Some False" by code_simp
  have aes: "aes_works (se_aes sample_sal_env) (\<lambda>key b. xor_bytes b (replicate 16 0x5A))"
    using toy_aes_works by (simp add: sample_sal_env_def)
  have key: "selectKey (sal_object (sample_secure_device 0x1102)) sample_group_info (si_source sample_group_info) False =
      selectKey (sal_object (sample_secure_device 0x1101)) sample_group_info
        (outgoing_peer (sample_secure_device 0x1101) sample_group_info) False" by code_simp
  have en: "isSecurityEnabled (sal_object (sample_secure_device 0x1102))" by code_simp
  have lv: "lastValid (sal_object (sample_secure_device 0x1102)) (si_source sample_group_info) False = 0" by code_simp
  have len: "length [0 :: u8, 0x81] \<le> 100" by simp
  have "\<exists>sB1. sal_processIncoming sample_sal_env sample_group_info frame 100 (sample_secure_device 0x1102)
      = (sB1, RxUnwrapped, [0, 0x81], []) \<and> lastValid (sal_object sB1) (si_source sample_group_info) False = 1"
    using secured_message_delivered [OF f acc refl aes en key _ _ len] by (simp add: lv)
  moreover have "si_source sample_group_info = 0x1101" by (simp add: sample_group_info_def)
  ultimately show ?thesis by auto
qed

section \<open>Plain frames\<close>

text \<open>
  Plain messages are passed on exactly when they do not forge a secured group message: a plain
  frame is handed up unless security is enabled and the frame addresses a group the device has a key for;
  such a frame is rejected and counted as an authentication failure of its sender.
\<close>
theorem plain_frames_screened:
  "(fst (snd (sal_processIncoming E info tpdu cap s)) = RxPlain) =
     (\<not> isSecureApdu tpdu \<and> \<not> (isSecurityEnabled (sal_object s) \<and> si_destinationType info = Group
        \<and> si_destination info \<noteq> 0 \<and> so_groupKeys (sal_object s) (si_destination info) \<noteq> None))
   \<and> (isSecureApdu tpdu \<or> fst (snd (sal_processIncoming E info tpdu cap s)) = RxPlain
      \<or> (fst (snd (sal_processIncoming E info tpdu cap s)) = RxRejected
         \<and> sal_object (fst (sal_processIncoming E info tpdu cap s)) =
             logSecurityFailure AuthenticationFailed (si_source info) (sal_object s)))"
proof (cases "isSecureApdu tpdu")
  case False
  then show ?thesis
    by (simp add: sal_processIncoming_def Let_def so_getGroupKey_def split: option.split)
next
  case True
  have "fst (snd (sal_handleData E info scf tpdu cap s')) \<noteq> RxPlain" for scf s'
    using handleData_outcome [where E = E and info = info and scf = scf and tpdu = tpdu and cap = cap and s = s']
    by (auto split: prod.splits)
  moreover have "fst (snd (sal_handleSyncRequest E info scf tpdu s')) \<noteq> RxPlain" for scf s'
    by (simp add: sal_handleSyncRequest_def Let_def split: sum.split)
  ultimately have "fst (snd (sal_processIncoming E info tpdu cap s)) \<noteq> RxPlain"
    using True
    by (simp add: sal_processIncoming_def Let_def split: option.split secure_service.split prod.split)
       (metis fst_conv snd_conv)
  with True show ?thesis by simp
qed

section \<open>Answers to synchronisation requests\<close>

fun sal_answers :: "sal_event list \<Rightarrow> secure_layer \<Rightarrow> u32 list" where
  "sal_answers [] s = []"
| "sal_answers (SalIncoming E info tpdu cap # es) s =
     (case sal_processIncoming E info tpdu cap s of (s1, d, plain, sent) \<Rightarrow>
        map (\<lambda>_. se_now E) sent @ sal_answers es s1)"
| "sal_answers (SalOutgoing E info plain cap # es) s =
     sal_answers es (fst (sal_processOutgoing E info plain cap s))"

text \<open>The time of the last answer is kept by everything but an answer.\<close>

definition sync_clock :: "secure_layer \<Rightarrow> bool \<times> u32" where
  "sync_clock s = (sal_syncResponded s, sal_lastSyncResponseMs s)"

lemma sync_clock_kept [simp]:
  "sync_clock (on_object f s) = sync_clock s" "sync_clock (rememberPeer p t s) = sync_clock s"
  "sync_clock (sal_enter info scf s) = sync_clock s" "sync_clock (s\<lparr>sal_object := so\<rparr>) = sync_clock s"
  "sync_clock (s\<lparr>sal_inbound := i\<rparr>) = sync_clock s"
  by (simp_all add: sync_clock_def on_object_def rememberPeer_def sal_enter_def split: option.split)

lemma handleData_clock: "sync_clock (fst (sal_handleData E info scf tpdu cap s)) = sync_clock s"
  by (simp add: sal_handleData_def Let_def split: sum.split)

lemma processOutgoing_clock: "sync_clock (fst (sal_processOutgoing E info plain cap s)) = sync_clock s"
  by (simp add: sal_processOutgoing_def Let_def split: sum.split option.split prod.split)

lemma handleSync_clock:
  "case sal_handleSyncRequest E info scf tpdu s of (s1, d, sent) \<Rightarrow>
     (sent = [] \<and> sync_clock s1 = sync_clock s)
   \<or> (length sent = 1 \<and> sync_clock s1 = (True, se_now E)
      \<and> \<not> (fst (sync_clock s) \<and> se_now E - snd (sync_clock s) < 1000))"
proof -
  have "sync_clock (s\<lparr>sal_lastSyncResponseMs := t, sal_syncResponded := True\<rparr>) = (True, t)" for s t
    by (simp add: sync_clock_def)
  moreover have "sal_syncResponded s = fst (sync_clock s)" "sal_lastSyncResponseMs s = snd (sync_clock s)"
    by (simp_all add: sync_clock_def)
  ultimately show ?thesis by (simp add: sal_handleSyncRequest_def Let_def split: sum.split)
qed

lemma processIncoming_clock:
  assumes "sal_processIncoming E info tpdu cap s = (s1, d, plain, sent)"
  shows "(sent = [] \<and> sync_clock s1 = sync_clock s)
   \<or> (length sent = 1 \<and> sync_clock s1 = (True, se_now E)
      \<and> \<not> (fst (sync_clock s) \<and> se_now E - snd (sync_clock s) < 1000))"
proof -
  have data: "sync_clock s2 = sync_clock (sal_enter info scf s)"
    if "sal_handleData E info scf tpdu cap (sal_enter info scf s) = (s2, d', p)" for scf s2 d' p
    using handleData_clock [where E = E and info = info and scf = scf and tpdu = tpdu and cap = cap
        and s = "sal_enter info scf s"] by (simp add: that)
  have sync: "(q = [] \<and> sync_clock s2 = sync_clock s)
   \<or> (length q = 1 \<and> sync_clock s2 = (True, se_now E)
      \<and> \<not> (fst (sync_clock s) \<and> se_now E - snd (sync_clock s) < 1000))"
    if "sal_handleSyncRequest E info scf tpdu (sal_enter info scf s) = (s2, d', q)" for scf s2 d' q
    using handleSync_clock [where E = E and info = info and scf = scf and tpdu = tpdu
        and s = "sal_enter info scf s"] unfolding that by simp
  have "case sal_processIncoming E info tpdu cap s of (s1, d, plain, sent) \<Rightarrow>
     (sent = [] \<and> sync_clock s1 = sync_clock s)
   \<or> (\<exists>scf. sal_handleSyncRequest E info scf tpdu (sal_enter info scf s) = (s1, d, sent))"
    using data
    by (simp add: sal_processIncoming_def Let_def sal_enter_def
        split: option.split secure_service.split prod.split) blast
  then show ?thesis using sync unfolding assms by blast
qed

lemma sal_answers_spaced:
  "successively (\<lambda>t u. u - t \<ge> 1000) (sal_answers es s)
   \<and> (sal_answers es s = [] \<or> \<not> fst (sync_clock s) \<or> hd (sal_answers es s) - snd (sync_clock s) \<ge> 1000)"
proof (induction es s rule: sal_answers.induct)
  case (2 E info tpdu cap es s)
  obtain s1 d plain sent where r: "sal_processIncoming E info tpdu cap s = (s1, d, plain, sent)"
    by (cases "sal_processIncoming E info tpdu cap s")
  have IH: "successively (\<lambda>t u. u - t \<ge> 1000) (sal_answers es s1)
     \<and> (sal_answers es s1 = [] \<or> \<not> fst (sync_clock s1) \<or> hd (sal_answers es s1) - snd (sync_clock s1) \<ge> 1000)"
    using "2" [OF r [symmetric] refl refl] .
  from processIncoming_clock [OF r] show ?case
  proof (elim disjE conjE)
    assume "sent = []" "sync_clock s1 = sync_clock s"
    with IH r show ?thesis by simp
  next
    assume a: "length sent = 1" "sync_clock s1 = (True, se_now E)"
      "\<not> (fst (sync_clock s) \<and> se_now E - snd (sync_clock s) < 1000)"
    then obtain x where "sent = [x]" by (cases sent) auto
    with IH r a show ?thesis by (auto simp: successively_Cons not_less)
  qed
qed (simp_all add: processOutgoing_clock)

text \<open>
  Synchronisation requests cannot be used to flood the bus: in every run, with any frames in any
  order, two consecutive answers leave at least 1000 ms of the 32-bit clock apart.
\<close>
theorem sync_answers_limited: "successively (\<lambda>t u. u - t \<ge> 1000) (sal_answers es s)"
  using sal_answers_spaced by blast

section \<open>The address table and the live numbers\<close>

lemma sync_loop_mono:
  "sync_loop is blob live = (blob1, live1) \<Longrightarrow>
   (case live a of None \<Rightarrow> 0 | Some q \<Rightarrow> q) \<le> (case live1 a of None \<Rightarrow> 0 | Some q \<Rightarrow> q)"
proof (induction "is" arbitrary: blob live)
  case (Cons i js)
  let ?v = "\<lambda>m :: u16 \<rightharpoonup> u64. case m a of None \<Rightarrow> 0 | Some q \<Rightarrow> q"
  let ?b = "iat_addressAt blob i" and ?st = "iat_sequenceAt blob i"
  let ?cur = "case live ?b of None \<Rightarrow> 0 | Some s \<Rightarrow> s"
  obtain blob2 live2 where step: "sync_loop js blob2 live2 = (blob1, live1)"
    "live2 = live(?b \<mapsto> (if ?st > ?cur then ?st else ?cur))"
    using Cons.prems by (auto simp: Let_def split: if_splits)
  have "?v live \<le> ?v live2" by (simp add: step(2) less_imp_le)
  then show ?case using Cons.IH [OF step(1)] by (rule order_trans)
qed simp

lemma sync_table_never_lowers:
  "getPeerSequence so a \<le> getPeerSequence (syncSequencesFromAddressTable so) a"
proof (cases "so_extra so 54")
  case (Some blob)
  obtain blob1 live1 where r: "sync_loop [0..<iat_entryCount blob] blob (so_peerSequences so) = (blob1, live1)"
    by (cases "sync_loop [0..<iat_entryCount blob] blob (so_peerSequences so)")
  show ?thesis using sync_loop_mono [OF r, of a]
    by (simp add: syncSequencesFromAddressTable_def Some r getPeerSequence_def)
qed (simp add: syncSequencesFromAddressTable_def)

text \<open>The sending number has 64 bits, its place in the frame 48: \<open>2\<^sup>4\<^sup>8\<close> frames later the
  same number goes out again, and with it the same frame.\<close>

lemma mask48_wraps: "mask48 (q + 0x1000000000000) = mask48 q"
proof -
  have "uint (q + 0x1000000000000) = take_bit 64 (uint q + 0x1000000000000)" by (simp add: uint_word_ariths take_bit_eq_mod)
  then have "take_bit 48 (uint (q + 0x1000000000000)) = take_bit 48 (uint q + 0x1000000000000)" by simp
  also have "\<dots> = take_bit 48 (take_bit 48 (uint q) + take_bit 48 0x1000000000000)" by (simp only: take_bit_add)
  also have "\<dots> = take_bit 48 (uint q)" by simp
  finally show ?thesis by (simp only: mask48_take_bit word_uint_eq_iff unsigned_take_bit_eq)
qed

lemma secured_frame_repeats:
  "snd (sal_processOutgoing E info plain cap
      (on_object (\<lambda>so. so\<lparr>so_sendingSequence := q + 0x1000000000000\<rparr>) s))
   = snd (sal_processOutgoing E info plain cap (on_object (\<lambda>so. so\<lparr>so_sendingSequence := q\<rparr>) s))"
proof -
  have w: "writeSecureU48BE (0x1000000000001 + q) = writeSecureU48BE (q + 1)"
  proof -
    have "0x1000000000001 + q = (q + 1) + 0x1000000000000" by simp
    then show ?thesis unfolding writeSecureU48BE_def by (simp only: mask48_wraps)
  qed
  have acc: "outgoing_access (on_object (\<lambda>so. so\<lparr>so_sendingSequence := x\<rparr>) s) info = outgoing_access s info"
    "outgoing_peer (on_object (\<lambda>so. so\<lparr>so_sendingSequence := x\<rparr>) s) info = outgoing_peer s info" for x
    by (simp_all add: outgoing_access_def outgoing_peer_def findPeer_def on_object_def Let_def)
  have obj: "isSecurityEnabled (so\<lparr>so_sendingSequence := x\<rparr>) = isSecurityEnabled so"
    "selectKey (so\<lparr>so_sendingSequence := x\<rparr>) i p t = selectKey so i p t" for so x i p t
    by (simp_all add: isSecurityEnabled_def selectKey_def hasToolKey_def so_getGroupKey_def
        so_getDeviceKey_def)
  show ?thesis
  proof (cases "outgoing_access s info")
    case (Some tool)
    show ?thesis
    proof (cases "selectKey (sal_object s) info (outgoing_peer s info) tool")
      case (Inr key)
      show ?thesis
        by (cases "ccmEncrypt (se_aes E) key (sal_blockContext info) (writeSecureU48BE (q + 1))
              (scf_encode (data_scf tool)) [] plain (cap - 9)")
          (simp_all add: sal_processOutgoing_def Let_def acc obj Some Inr incrementSendingSequence_def w)
    qed (simp add: sal_processOutgoing_def acc obj Some)
  qed (simp add: sal_processOutgoing_def acc obj)
qed

end
