(* ===== verification/Stack_Port.thy ===== *)
theory Stack_Port
  imports Stack Application_Spec Group_Runtime Secure_Application
begin

text \<open>
  The stack port of the bus access unit, \<open>src/bau/bau_stack_port.cpp\<close>, for a device with one TP1 medium:
  the medium bundle (the data link), the application stack bundle (network, transport and application
  layer, with the transforms of the secure application layer), and the role classes that the port hands
  every call to. The record \<open>stack_port\<close> holds the application layer, inside which are the layers below,
  and what the port keeps itself. The second medium of a coupler is not part of it (\<open>Two_Port_Coupler\<close>
  models the coupler). The layers are created by the first \<open>init\<close> and kept; \<open>sp_created\<close> tells whether
  that has happened. With the port the layers of the development meet: a group value that one device's
  application layer sends arrives in the group objects of another, and no telegram that is not verified
  with the tool key changes the configuration of a device in security mode.
\<close>

section \<open>Conversions\<close>

record transmission_options =
  to_maxAttempts :: u8
  to_retryOnBusy :: bool
  to_retryOnTimeout :: bool
  to_retryOnTransmissionFailed :: bool

definition transmission_options_init :: transmission_options where
  "transmission_options_init =
     \<lparr>to_maxAttempts = 1, to_retryOnBusy = True, to_retryOnTimeout = True, to_retryOnTransmissionFailed = False\<rparr>"

definition toApplicationTransmissionOptions :: "transmission_options \<Rightarrow> send_options" where
  "toApplicationTransmissionOptions o1 =
     send_options_init\<lparr>op_maxAttempts := to_maxAttempts o1, op_retryOnBusy := to_retryOnBusy o1,
       op_retryOnTimeout := to_retryOnTimeout o1, op_retryOnTransmissionFailed := to_retryOnTransmissionFailed o1\<rparr>"

definition toBauMessageKind :: "apci_service \<Rightarrow> message_kind" where
  "toBauMessageKind service =
     (if service = S_GroupValueWrite then MkGroupValueWrite
      else if service = S_GroupValueRead then MkGroupValueRead
      else if service = S_GroupValueResponse then MkGroupValueResponse
      else MkUnknown)"

record transmission_outcome =
  oo_destination :: group_address
  oo_kind :: message_kind
  oo_destinationType :: address_type
  oo_result :: "unit result"
  oo_attempts :: u8

definition toBauTransmissionOutcome :: "send_outcome \<Rightarrow> transmission_outcome" where
  "toBauTransmissionOutcome oc =
     \<lparr>oo_destination = oc_destination oc, oo_kind = toBauMessageKind (oc_service oc),
      oo_destinationType = oc_destinationType oc, oo_result = oc_result oc, oo_attempts = oc_attempts oc\<rparr>"

section \<open>The transforms of the secure application layer (configureSecurity)\<close>

text \<open>The state of the transforms: the secure application layer, and the frames it has handed to its
  frame sink, which \<open>sink_send\<close> gives to the transport layer.\<close>

record secure_hook =
  sh_layer :: secure_layer
  sh_sent :: "(secure_frame_info \<times> bytes) list"

definition kMaxSecureTpduSize :: nat where "kMaxSecureTpduSize = kSecureOverhead + kMaxPlainApduSize"

definition TPDU_CAPACITY :: nat where "TPDU_CAPACITY = 2 + MAX_APDU_LENGTH"

definition secureFrameInfo :: "tdata_frame \<Rightarrow> secure_frame_info" where
  "secureFrameInfo f =
     \<lparr>si_source = t_source f, si_destination = t_destination f, si_destinationType = t_destinationType f,
      si_tpci6 = t_securityTpci6 f, si_connected = (t_service f = TConnected)\<rparr>"

definition secure_tx :: "sal_env \<Rightarrow> secure_hook transform" where
  "secure_tx E h f =
     (if length (t_tpdu f) < 2 then (h, Inr f)
      else case sal_processOutgoing E (secureFrameInfo f) (t_tpdu f) kMaxSecureTpduSize (sh_layer h) of
        (s, Inl e) \<Rightarrow> (h\<lparr>sh_layer := s\<rparr>, Inl e)
      | (s, Inr bs) \<Rightarrow>
          (let h1 = h\<lparr>sh_layer := s\<rparr> in
           if bs = [] then (h1, Inr f)
           else if length bs > TPDU_CAPACITY then (h1, Inl BufferTooSmall)
           else (h1, Inr (f\<lparr>t_tpdu := bs\<rparr>))))"

text \<open>What \<open>processIncoming\<close> reports of an unwrapped message: it was verified, with which access and
  whether it was encrypted.\<close>

definition rx_security :: "bytes \<Rightarrow> request_security" where
  "rx_security bs =
     (case scf_decode (bs ! 2) of
        Some scf \<Rightarrow> \<lparr>rs_secured = True, rs_toolAccess = scf_toolAccess scf, rs_confidentiality = (scf_algorithm scf = 1)\<rparr>
      | None \<Rightarrow> no_security)"

definition secure_rx :: "sal_env \<Rightarrow> secure_hook transform" where
  "secure_rx E h f =
     (if length (t_tpdu f) < 2 then (h, Inr f)
      else case sal_processIncoming E (secureFrameInfo f) (t_tpdu f) kMaxPlainApduSize (sh_layer h) of
        (s, disposition, plain, out) \<Rightarrow>
          (let h1 = h\<lparr>sh_layer := s, sh_sent := sh_sent h @ out\<rparr> in
           case disposition of
             RxPlain \<Rightarrow> (h1, Inr (f\<lparr>t_security := no_security\<rparr>))
           | RxUnwrapped \<Rightarrow>
               if length plain > TPDU_CAPACITY then (h1, Inl BufferTooSmall)
               else (h1, Inr (f\<lparr>t_security := rx_security (t_tpdu f), t_tpdu := plain\<rparr>))
           | RxConsumed \<Rightarrow> (h1, Inl FrameConsumed)
           | RxRejected \<Rightarrow> (h1, Inl OperationNotSupported)))"

definition secure_hooks :: "sal_env \<Rightarrow> secure_hook hooks" where
  "secure_hooks E = \<lparr>hk_tx = Some (secure_tx E), hk_rx = Some (secure_rx E)\<rparr>"

definition resolve_tpci :: "('d, 'u) transport \<Rightarrow> secure_frame_info \<Rightarrow> u8" where
  "resolve_tpci T info =
     (if \<not> si_connected info \<or> si_destinationType info \<noteq> Individual then 0
      else connectedTxTpci6 T (si_destination info))"

definition sink_frame :: "secure_frame_info \<Rightarrow> bytes \<Rightarrow> tdata_frame" where
  "sink_frame info bs =
     tdata_frame_init\<lparr>t_service := (if si_connected info then TConnected
                                   else if si_destinationType info = Individual then TIndividual else TGroup),
       t_source := si_source info, t_destination := si_destination info, t_destinationType := si_destinationType info,
       t_priority := System, t_ackRequested := False, t_securityTpci6 := si_tpci6 info,
       t_tpdu := (if length bs \<le> TPDU_CAPACITY then bs else [])\<rparr>"

definition sink_send :: "'d dl_ops \<Rightarrow> 'u hooks \<Rightarrow> ('d, 'u) transport \<Rightarrow> secure_frame_info \<times> bytes \<Rightarrow> ('d, 'u) transport \<times> unit result" where
  "sink_send D H T msg = (case msg of (info, bs) \<Rightarrow> tl_sendFrame D H T (sink_frame info bs))"

text \<open>What the bundle tells the secure application layer, if there is one.\<close>

record 'u hook_ops =
  ho_setOwn :: "individual_address \<Rightarrow> 'u \<Rightarrow> 'u"
  ho_setSerial :: "bytes \<Rightarrow> 'u \<Rightarrow> 'u"

definition secure_hook_ops :: "secure_hook hook_ops" where
  "secure_hook_ops =
     \<lparr>ho_setOwn = \<lambda>own h. h\<lparr>sh_layer := (sh_layer h)\<lparr>sal_ownAddress := own\<rparr>\<rparr>,
      ho_setSerial = \<lambda>serial h. h\<lparr>sh_layer := (sh_layer h)\<lparr>sal_serialNumber := serial\<rparr>\<rparr>\<rparr>"

section \<open>The port\<close>

record ('p, 'u, 'v) stack_port =
  sp_app :: "('p datalink, 'u, 'v) app"
  sp_linkCreated :: bool
  sp_created :: bool
  sp_ownAddress :: individual_address
  sp_serialNumber :: bytes
  sp_programmingMode :: bool
  sp_initialized :: bool
  sp_groupAddresses :: "group_address list"
  sp_options :: transmission_options

definition sp_link :: "('p, 'u, 'v) stack_port \<Rightarrow> 'p datalink" where
  "sp_link s = nl_link (tl_net (al_transport (sp_app s)))"

definition with_link :: "('p datalink \<Rightarrow> 'p datalink) \<Rightarrow> ('p, 'u, 'v) stack_port \<Rightarrow> ('p, 'u, 'v) stack_port" where
  "with_link g s =
     (let a = sp_app s; T = al_transport a; N = tl_net T in
      s\<lparr>sp_app := a\<lparr>al_transport := T\<lparr>tl_net := N\<lparr>nl_link := g (nl_link N)\<rparr>\<rparr>\<rparr>\<rparr>)"

definition with_app :: "(('p datalink, 'u, 'v) app \<Rightarrow> ('p datalink, 'u, 'v) app) \<Rightarrow> ('p, 'u, 'v) stack_port \<Rightarrow> ('p, 'u, 'v) stack_port" where
  "with_app g s = s\<lparr>sp_app := g (sp_app s)\<rparr>"

primrec add_groups :: "'p link_env \<Rightarrow> group_address list \<Rightarrow> 'p datalink \<Rightarrow> 'p datalink \<times> unit result" where
  "add_groups E [] d = (d, Inr ())"
| "add_groups E (a # as) d =
     (case addGroupAddress E d a of (d1, Inl e) \<Rightarrow> (d1, Inl e) | (d1, Inr _) \<Rightarrow> add_groups E as d1)"

definition medium_init :: "'p link_env \<Rightarrow> individual_address \<Rightarrow> group_address list \<Rightarrow> 'p datalink \<Rightarrow> 'p datalink \<times> unit result" where
  "medium_init E own groups d =
     (case dl_init E d own of (d1, Inl e) \<Rightarrow> (d1, Inl e) | (d1, Inr _) \<Rightarrow> add_groups E groups d1)"

definition with_hook :: "('u \<Rightarrow> 'u) \<Rightarrow> ('d, 'u, 'v) app \<Rightarrow> ('d, 'u, 'v) app" where
  "with_hook g a = a\<lparr>al_transport := (al_transport a)\<lparr>tl_hookState := g (tl_hookState (al_transport a))\<rparr>\<rparr>"

text \<open>\<open>Tp1ApplicationStackBundle::init\<close>: network, transport and application layer in this order.\<close>

definition bundle_init ::
    "'p datalink dl_ops \<Rightarrow> 'u hook_ops \<Rightarrow> individual_address \<Rightarrow> ('p, 'u, 'v) stack_port \<Rightarrow>
      ('p, 'u, 'v) stack_port \<times> unit result" where
  "bundle_init D K own s =
     (let T = al_transport (sp_app s) in
      case nl_init D (tl_net T) own of
        (net, Inl e) \<Rightarrow> (with_app (\<lambda>a. a\<lparr>al_transport := T\<lparr>tl_net := net\<rparr>\<rparr>) s, Inl e)
      | (net, Inr _) \<Rightarrow>
          (case tl_init D (T\<lparr>tl_net := net\<rparr>) own of
             (T1, Inl e) \<Rightarrow> (with_app (\<lambda>a. a\<lparr>al_transport := T1\<rparr>) s, Inl e)
           | (T1, Inr _) \<Rightarrow>
               (case al_init own (with_hook (ho_setOwn K own) (sp_app s\<lparr>al_transport := T1\<rparr>)\<lparr>al_programmingMode := sp_programmingMode s,
                        al_defaultOptions := toApplicationTransmissionOptions (sp_options s)\<rparr>) of
                  (a, r) \<Rightarrow> (s\<lparr>sp_app := a, sp_created := True, sp_ownAddress := own\<rparr>, r))))"

definition port_init ::
    "'p link_env \<Rightarrow> nat \<Rightarrow> 'u hook_ops \<Rightarrow> individual_address \<Rightarrow> ('p, 'u, 'v) stack_port \<Rightarrow>
      ('p, 'u, 'v) stack_port \<times> unit result" where
  "port_init E fuel K own s =
     (case medium_init E own (sp_groupAddresses s) (sp_link s) of
        (d, Inl e) \<Rightarrow> (with_link (\<lambda>_. d) (s\<lparr>sp_linkCreated := True\<rparr>), Inl e)
      | (d, Inr _) \<Rightarrow>
          (case bundle_init (tp1_ops E fuel) K own (with_link (\<lambda>_. d) (s\<lparr>sp_linkCreated := True\<rparr>)) of
             (s1, Inl e) \<Rightarrow> (s1, Inl e)
           | (s1, Inr _) \<Rightarrow> (s1\<lparr>sp_initialized := True\<rparr>, Inr ())))"

definition port_close :: "'p link_env \<Rightarrow> ('p, 'u, 'v) stack_port \<Rightarrow> ('p, 'u, 'v) stack_port" where
  "port_close E s =
     (let s1 = s\<lparr>sp_initialized := False\<rparr>;
          s2 = with_app al_close s1;
          s3 = with_app (\<lambda>a. a\<lparr>al_transport := tl_close (al_transport a)\<rparr>) s2;
          s4 = with_app (\<lambda>a. a\<lparr>al_transport := (al_transport a)\<lparr>tl_net := nl_close (tl_net (al_transport a))\<rparr>\<rparr>) s3 in
      with_link (dl_close E) s4)"

definition port_setOwnAddress ::
    "'p link_env \<Rightarrow> 'u hook_ops \<Rightarrow> individual_address \<Rightarrow> ('p, 'u, 'v) stack_port \<Rightarrow>
      ('p, 'u, 'v) stack_port \<times> unit result" where
  "port_setOwnAddress E K own s =
     (if \<not> sp_linkCreated s then (s, Inl InvalidParameter)
      else let s1 = with_link (\<lambda>d. dl_setOwnAddress E d own) s in
        if \<not> sp_created s1 then (s1, Inl InvalidParameter)
        else let s2 = with_app (\<lambda>a. with_hook (ho_setOwn K own)
                        (al_setOwnAddress own (a\<lparr>al_transport := tl_setOwnAddress (al_transport a) own\<rparr>))) s1 in
             (s2\<lparr>sp_ownAddress := own\<rparr>, Inr ()))"

definition port_addGroupAddress ::
    "'p link_env \<Rightarrow> group_address \<Rightarrow> ('p, 'u, 'v) stack_port \<Rightarrow> ('p, 'u, 'v) stack_port \<times> unit result" where
  "port_addGroupAddress E a s =
     (let (gs, ok) = (if a \<in> set (sp_groupAddresses s) then (sp_groupAddresses s, True)
                      else fv_push_back MAX_GROUP_ADDRESSES (sp_groupAddresses s) a) in
      if \<not> ok then (s, Inl BufferTooSmall)
      else let s1 = s\<lparr>sp_groupAddresses := gs\<rparr> in
        if \<not> sp_initialized s1 then (s1, Inr ())
        else case addGroupAddress E (sp_link s1) a of (d, r) \<Rightarrow> (with_link (\<lambda>_. d) s1, r))"

definition port_setProgrammingMode :: "bool \<Rightarrow> ('p, 'u, 'v) stack_port \<Rightarrow> ('p, 'u, 'v) stack_port" where
  "port_setProgrammingMode enabled s =
     (let s1 = s\<lparr>sp_programmingMode := enabled\<rparr> in
      if sp_created s1 then with_app (\<lambda>a. a\<lparr>al_programmingMode := enabled\<rparr>) s1 else s1)"

definition port_programmingMode :: "('p, 'u, 'v) stack_port \<Rightarrow> bool" where
  "port_programmingMode s = (if sp_created s then al_programmingMode (sp_app s) else sp_programmingMode s)"

definition port_setSerialNumber :: "'u hook_ops \<Rightarrow> bytes \<Rightarrow> ('p, 'u, 'v) stack_port \<Rightarrow> ('p, 'u, 'v) stack_port" where
  "port_setSerialNumber K serial s =
     (let s1 = (if sp_created s then with_app (\<lambda>a. a\<lparr>al_network := (al_network a)\<lparr>np_serialNumber := serial\<rparr>\<rparr>) s else s) in
      with_app (with_hook (ho_setSerial K serial)) (s1\<lparr>sp_serialNumber := serial\<rparr>))"

definition port_setDefaultOptions :: "transmission_options \<Rightarrow> ('p, 'u, 'v) stack_port \<Rightarrow> ('p, 'u, 'v) stack_port" where
  "port_setDefaultOptions o1 s =
     (let s1 = s\<lparr>sp_options := o1\<rparr> in
      if sp_created s1 then with_app (\<lambda>a. a\<lparr>al_defaultOptions := toApplicationTransmissionOptions o1\<rparr>) s1 else s1)"

definition port_sendDataLinkFrame ::
    "'p link_env \<Rightarrow> nat \<Rightarrow> ldata_frame \<Rightarrow> ('p, 'u, 'v) stack_port \<Rightarrow> (('p, 'u, 'v) stack_port \<times> unit result) option" where
  "port_sendDataLinkFrame E fuel f s =
     (if \<not> sp_linkCreated s then Some (s, Inl InvalidParameter)
      else map_option (\<lambda>(d, r). (with_link (\<lambda>_. d) s, r)) (dl_sendFrame E fuel (sp_link s) f))"

definition port_setPromiscuousMode :: "bool \<Rightarrow> ('p, 'u, 'v) stack_port \<Rightarrow> ('p, 'u, 'v) stack_port" where
  "port_setPromiscuousMode on s = (if sp_linkCreated s then with_link (\<lambda>d. setPromiscuousMode d on) s else s)"

definition port_executePendingRestart :: "('p datalink, 'u, 'v) app_env \<Rightarrow> ('p, 'u, 'v) stack_port \<Rightarrow> ('p, 'u, 'v) stack_port" where
  "port_executePendingRestart A s =
     (if sp_created s
      then with_app (\<lambda>a. case executePendingRestart (ap_restart A) (al_restart a) of
             (rt, acts) \<Rightarrow> a\<lparr>al_restart := rt, al_restarts := al_restarts a @ acts\<rparr>) s
      else s)"

definition port_registerPropertyObject ::
    "u16 \<Rightarrow> u8 \<Rightarrow> (property_store \<Rightarrow> property_store) \<Rightarrow> ('p, 'u, 'v) stack_port \<Rightarrow> ('p, 'u, 'v) stack_port" where
  "port_registerPropertyObject objectType oi registration s =
     (if sp_created s then with_app (registerPropertyObject objectType oi registration) s else s)"

definition port_registerMemoryRegion ::
    "memory_region \<Rightarrow> bytes \<Rightarrow> ('p, 'u, 'v) stack_port \<Rightarrow> ('p, 'u, 'v) stack_port \<times> unit result" where
  "port_registerMemoryRegion region storage s =
     (if \<not> sp_created s then (s, Inl NotInitialized)
      else case al_registerMemoryRegion region storage (sp_app s) of (a, r) \<Rightarrow> (s\<lparr>sp_app := a\<rparr>, r))"

definition port_transmissionInProgress :: "('p, 'u, 'v) stack_port \<Rightarrow> bool" where
  "port_transmissionInProgress s \<longleftrightarrow> sp_created s \<and> sn_active (al_sendOp (sp_app s))"

definition port_queuedTransmissionOutcomeCount :: "('p, 'u, 'v) stack_port \<Rightarrow> nat" where
  "port_queuedTransmissionOutcomeCount s = (if sp_created s then ring_count (al_outcomes (sp_app s)) else 0)"

text \<open>The sending calls: \<open>InvalidParameter\<close> as long as there is no application layer.\<close>

definition on_app ::
    "(('p datalink, 'u, 'v) app \<Rightarrow> ('p datalink, 'u, 'v) app \<times> 'r result) \<Rightarrow> ('p, 'u, 'v) stack_port \<Rightarrow>
      ('p, 'u, 'v) stack_port \<times> 'r result" where
  "on_app g s =
     (if \<not> sp_created s then (s, Inl InvalidParameter)
      else case g (sp_app s) of (a, r) \<Rightarrow> (s\<lparr>sp_app := a\<rparr>, r))"

definition port_popTransmissionOutcome ::
    "('p, 'u, 'v) stack_port \<Rightarrow> (transmission_outcome \<times> ('p, 'u, 'v) stack_port) option" where
  "port_popTransmissionOutcome s =
     (if \<not> sp_created s then None
      else map_option (\<lambda>(oc, a). (toBauTransmissionOutcome oc, s\<lparr>sp_app := a\<rparr>)) (popSendOutcome (sp_app s)))"

definition tp1_port ::
    "'p link_env \<Rightarrow> ('p datalink, 'u, 'v) app_env \<Rightarrow> ('p, 'u, 'v) stack_port port_ops" where
  "tp1_port E A =
     \<lparr>po_addGroupAddress = port_addGroupAddress E,
      po_sendWrite = \<lambda>a d. on_app (al_sendGroupValueWrite A a d),
      po_sendResponse = \<lambda>a d. on_app (al_sendGroupValueResponse A a d),
      po_sendRead = \<lambda>a. on_app (al_sendGroupValueRead A a),
      po_beginWrite = \<lambda>a d. on_app (al_beginSendGroupValueWrite A a d),
      po_beginResponse = \<lambda>a d. on_app (al_beginSendGroupValueResponse A a d),
      po_beginRead = \<lambda>a. on_app (al_beginSendGroupValueRead A a),
      po_poll = on_app (pollSendData A)\<rparr>"

section \<open>Receiving\<close>

text \<open>The path of one received physical frame through the data link, network, transport and application
  layer; and the inbound callback of the bus access unit for what the application layer hands up.\<close>

definition app_receive ::
    "'p link_env \<Rightarrow> nat \<Rightarrow> ('p datalink, 'u, 'v) app_env \<Rightarrow> bytes \<Rightarrow> ('p datalink, 'u, 'v) app \<Rightarrow> ('p datalink, 'u, 'v) app" where
  "app_receive E fuel A buf s =
     (let T = stack_receive E fuel (ap_hooks A) (al_transport s) buf in
      fold (handleTransportRx A) (drop (length (tl_indications (al_transport s))) (tl_indications T)) (s\<lparr>al_transport := T\<rparr>))"

definition inbound :: "'p bau_env \<Rightarrow> a_frame \<Rightarrow> 'p bau \<Rightarrow> 'p bau" where
  "inbound B f = handleApplicationFrame B (af_destination f) (toBauMessageKind (af_service f)) (af_data f) (af_destinationType f)"

definition device_receive ::
    "'p link_env \<Rightarrow> nat \<Rightarrow> ('p datalink, 'u, 'v) app_env \<Rightarrow> 'q bau_env \<Rightarrow> bytes \<Rightarrow>
      ('p datalink, 'u, 'v) app \<times> 'q bau \<Rightarrow> ('p datalink, 'u, 'v) app \<times> 'q bau" where
  "device_receive E fuel A B buf dev =
     (case dev of (a, b) \<Rightarrow>
        let a1 = app_receive E fuel A buf a in
        (a1, fold (inbound B) (drop (length (al_delivered a)) (al_delivered a1)) b))"

section \<open>From application to group object\<close>

lemma data_octet: "tpci_type (fst (packTpduHeader data_tpci a)) = UnnumberedData"
proof -
  have "fst (packTpduHeader data_tpci a) AND 0xC0 = 0"
    by (intro word8_eqI) (simp_all add: packTpduHeader_def tpci_create_def is_control_octet_def Let_def bit_simps)
  then show ?thesis by (simp add: tpci_type_def)
qed

lemma group_tpdu:
  assumes "data \<noteq> []" "length data \<le> 253"
  obtains bs where "al_buildTpdu S_GroupValueWrite data = Inr bs" "length bs \<ge> 2" "length bs \<le> 255"
    "parsed bs = (S_GroupValueWrite, data)" "tpci_type (bs ! 0) = UnnumberedData"
proof -
  have "wire_request S_GroupValueWrite data"
    using assms by (simp add: wire_request_def RESPONSE_CAPACITY_def apci_codes isGroupValueService_def)
  from tpdu_parsed [OF this] obtain bs where
    b: "al_buildTpdu S_GroupValueWrite data = Inr bs" "length bs \<ge> 2" "parsed bs = (S_GroupValueWrite, data)" by blast
  show ?thesis
  proof (rule that [OF b(1,2) _ b(3)])
    show "length bs \<le> 255"
      using b(1) assms by (auto simp: al_buildTpdu_def buildTpdu_plain split: if_splits)
    show "tpci_type (bs ! 0) = UnnumberedData"
      using b(1) assms by (auto simp: al_buildTpdu_def buildTpdu_plain data_octet split: if_splits)
  qed
qed

text \<open>A device that may send: all layers are open, nothing is under way, and its address is one a device
  may have. A device that listens to a group: its link takes the address and a receive slot is free, the
  layers are open and connected to each other, and it is not a router.\<close>

definition ready_to_send :: "('p datalink, 'u, 'v) app \<Rightarrow> bool" where
  "ready_to_send s \<longleftrightarrow>
     (let T = al_transport s in
      al_initialized s \<and> tl_initialized T \<and> quiet_net (tl_net T) \<and> idle_link (nl_link (tl_net T)) \<and> ia_isValid (al_own s))"

definition listens :: "group_address \<Rightarrow> ('p datalink, 'u, 'v) app \<Rightarrow> bool" where
  "listens a s \<longleftrightarrow>
     (let T = al_transport s; N = tl_net T; d = nl_link N in
      al_initialized s \<and> tl_initialized T \<and> tl_hasCallback T \<and> nl_initialized N \<and> nl_hasCallback N \<and>
      \<not> nl_routingEnabled N \<and> \<not> nl_filteringEnabled N \<and>
      dl_hasCallback d \<and> False \<in> set (dl_frameInUse d) \<and> isAddressMatch d a Group)"

lemma group_frame:
  assumes "ready_to_send s" "al_buildTpdu S_GroupValueWrite data = Inr bs" "2 \<le> length bs" "length bs \<le> 255" "ga_isValid a"
  obtains f where "buildTransportTxFrame a S_GroupValueWrite data Group s = Inr f"
    "t_service f = TGroup" "t_tpdu f = bs" "t_destination f = a" "t_destinationType f = Group" "\<not> t_repeated f"
    "ldata_isValid (ldata_of_tdata (f\<lparr>t_priority := p\<rparr>))"
proof -
  let ?f = "tdata_frame_init\<lparr>t_source := al_own s, t_destination := a, t_destinationType := Group,
      t_ackRequested := False, t_repeated := False, t_service := TGroup, t_tpdu := bs\<rparr>"
  have "buildTransportTxFrame a S_GroupValueWrite data Group s = Inr ?f"
    using assms(1,2) by (simp add: buildTransportTxFrame_def ready_to_send_def Let_def)
  moreover have "ldata_isValid (ldata_of_tdata (?f\<lparr>t_priority := p\<rparr>))"
    using assms by (auto simp: ldata_isValid_def ldata_of_tdata_def tdata_frame_init_def ready_to_send_def Let_def
        tpduPayloadLength_def MAX_APDU_SIZE_def)
  ultimately show ?thesis by (intro that) simp_all
qed

lemma first_attempt:
  "snd (tl_sendFrame D H T f) = Inr () \<Longrightarrow> send_loop n D H o1 f k T = (fst (tl_sendFrame D H T f), k, Inr ())"
  by (cases n) (auto simp: prod_eq_iff split: prod.splits)

lemma group_write_handed_up:
  assumes "al_initialized s" "ap_hasReceiveCallback A" "length (t_tpdu g) \<ge> 2" "parsed (t_tpdu g) = (S_GroupValueWrite, data)"
  shows "\<exists>f. al_delivered (handleTransportRx A g s) = al_delivered s @ [f] \<and> af_service f = S_GroupValueWrite \<and>
    af_data f = data \<and> af_destination f = t_destination g \<and> af_destinationType f = t_destinationType g"
proof -
  have a: "af_service (a_frame_of g) = S_GroupValueWrite" "af_data (a_frame_of g) = data"
    "af_destination (a_frame_of g) = t_destination g" "af_destinationType (a_frame_of g) = t_destinationType g"
    using assms(4) by (auto simp: a_frame_of_def parsed_def Let_def)
  have d: "dispatchService A (a_frame_of g) s1 = forwardToUser A (a_frame_of g) s1" for s1
    unfolding dispatchService_def Let_def a by (simp add: apci_codes)
  have p: "isRequestPermitted A (a_frame_of g) s1" for s1
    using a by (simp add: isRequestPermitted_def isManagementWriteService_def apci_codes)
  show ?thesis
    using assms(1-3) a
    by (intro exI [of _ "a_frame_of g"]) (simp add: handleTransportRx_def Let_def p d forwardToUser_def)
qed

text \<open>
  C1. A group value of 1 to 253 octets gets from one device's application to another device's group objects. One
  device calls \<open>sendGroupValueWrite\<close>: the call succeeds and puts one frame on the bus. The other device, which
  listens to the group, takes this frame from its physical layer through data link, network, transport and
  application layer to the inbound callback of its bus access unit; after its loop has run, every group object
  that the telegram reaches, that its flags open to writing and whose buffer of 16 octets the value fits, holds
  exactly the value sent, and every other object is as before. The objects reached are all those the device's
  tables associate with the address if there are at most 16, and none at all if there are more. The wire is
  ideal (it takes every frame and reports success, so no frame is repeated, and there is no timing platform),
  neither device has a security transform, the sender has nothing else under way, the receiver has no other
  telegram waiting, and its application's callbacks touch neither the objects nor the queue.
\<close>

theorem group_value_end_to_end:
  assumes "wire E W" "ready_to_send s" "ap_dl A = tp1_ops E (Suc k)" "hk_tx (ap_hooks A) = None"
    and "ga_isValid a" "data \<noteq> []" "length data \<le> 253"
    and "listens a r" "hk_rx (ap_hooks A') = None" "ap_hasReceiveCallback A'"
    and "quiet B" "bau_inbound b = []"
  shows "\<exists>s1 bs r1 b1 b2. al_sendGroupValueWrite A a data s = (s1, Inr ()) \<and>
     W (dl_env (nl_link (tl_net (al_transport s1)))) = W (dl_env (nl_link (tl_net (al_transport s)))) @ [bs] \<and>
     device_receive E' k' A' B bs (r, b) = (r1, b1) \<and> processInboundGroupEvents B b1 = Some b2 \<and>
     (\<forall>j. groupObject b2 j =
        map_option (\<lambda>g. if j \<in> set (reached b a) \<and> takes FromWrite g \<and> length data \<le> 16 then stored data g else g)
          (groupObject b j))"
proof -
  obtain bs where bs: "al_buildTpdu S_GroupValueWrite data = Inr bs" "length bs \<ge> 2" "length bs \<le> 255"
    "parsed bs = (S_GroupValueWrite, data)" "tpci_type (bs ! 0) = UnnumberedData"
    using group_tpdu [OF assms(6,7)] by blast
  let ?p = "op_priority (al_defaultOptions s)"
  obtain f where f: "buildTransportTxFrame a S_GroupValueWrite data Group s = Inr f"
    "t_service f = TGroup" "t_tpdu f = bs" "t_destination f = a" "t_destinationType f = Group" "\<not> t_repeated f"
    "ldata_isValid (ldata_of_tdata (f\<lparr>t_priority := ?p\<rparr>))"
    using group_frame [OF assms(2) bs(1-3) assms(5)] by blast
  let ?f = "f\<lparr>t_priority := ?p\<rparr>" and ?T = "al_transport s" and ?R = "al_transport r"
  obtain w g where w: "W (dl_env (nl_link (tl_net (fst (tl_sendFrame (ap_dl A) (ap_hooks A) ?T ?f))))) =
      W (dl_env (nl_link (tl_net ?T))) @ [w]"
    and ok: "snd (tl_sendFrame (ap_dl A) (ap_hooks A) ?T ?f) = Inr ()"
    and g: "tl_indications (stack_receive E' k' (ap_hooks A') ?R w) = tl_indications ?R @ [g]"
      "t_tpdu g = bs" "t_destination g = a" "t_destinationType g = Group"
    using telegram_core [of E W ?T "ap_hooks A" ?f ?R "ap_hooks A'" k E' k'] assms bs f
    by (auto simp: ready_to_send_def listens_def Let_def)
  let ?a1 = "app_receive E' k' A' w r"
  have i: "al_initialized (r\<lparr>al_transport := T\<rparr>)" "al_delivered (r\<lparr>al_transport := T\<rparr>) = al_delivered r" for T
    using assms(8) by (simp_all add: listens_def Let_def)
  have "?a1 = handleTransportRx A' g (r\<lparr>al_transport := stack_receive E' k' (ap_hooks A') ?R w\<rparr>)"
    using g(1) by (simp add: app_receive_def)
  then obtain fr where fr: "al_delivered ?a1 = al_delivered r @ [fr]" "af_service fr = S_GroupValueWrite"
    "af_data fr = data" "af_destination fr = a" "af_destinationType fr = Group"
    using group_write_handed_up [OF i(1) assms(10), of g data] bs g i(2) by auto
  have rx: "device_receive E' k' A' B w (r, b) = (?a1, handleApplicationFrame B a MkGroupValueWrite data Group b)"
    using fr by (simp add: device_receive_def inbound_def toBauMessageKind_def Let_def)
  have tx: "al_sendGroupValueWrite A a data s =
      (enqueueSendOutcome ((fresh_outcome a S_GroupValueWrite Group)\<lparr>oc_result := Inr (), oc_attempts := 1\<rparr>)
        (s\<lparr>al_transport := fst (tl_sendFrame (ap_dl A) (ap_hooks A) ?T ?f)\<rparr>), Inr ())"
    by (simp add: al_sendGroupValueWrite_def al_sendData_def f(1) first_attempt [OF ok])
  obtain b2 where b2: "processInboundGroupEvents B (handleApplicationFrame B a MkGroupValueWrite data Group b) = Some b2"
    "\<forall>j. groupObject b2 j =
        map_option (\<lambda>g. if j \<in> set (reached b a) \<and> takes FromWrite g \<and> length data \<le> 16 then stored data g else g)
          (groupObject b j)"
    using group_value_reached [OF assms(11,12), of MkGroupValueWrite FromWrite a data] by auto
  show ?thesis using tx rx w b2 by (intro exI conjI) auto
qed

definition bus_env :: "(bytes list datalink, unit, unit) app_env" where
  "bus_env =
     \<lparr>ap_dl = tp1_ops wire_env 1, ap_hooks = no_hooks,
      ap_providers = \<lparr>pp_read = None, pp_consume = None, pp_write = None, pp_describe = None, pp_function = None,
                      pp_extFunction = None\<rparr>,
      ap_network = \<lparr>nh_read = None, nh_write = None\<rparr>, ap_auth = \<lparr>av_validate = None, av_time = None\<rparr>,
      ap_restart = \<lparr>re_authorize = None, re_hasRestart = True, re_hasCleanup = False\<rparr>,
      ap_securityMode = None, ap_adc = None, ap_hasReceiveCallback = True, ap_hasAddressCallback = True\<rparr>"

definition sample_sender :: "(bytes list datalink, unit, unit) app" where
  "sample_sender = fst (al_init 0x1105 (app_new sample_station ()))"

theorem group_value_end_to_end_witness:
  "\<exists>(B :: port_call list bau_env) s1 bs r1 b1 b2. al_sendGroupValueWrite bus_env 0x0801 [1] sample_sender = (s1, Inr ()) \<and>
     dl_env (nl_link (tl_net (al_transport s1))) = [bs] \<and>
     device_receive wire_env 1 bus_env B bs (sample_sender, sample_bau) = (r1, b1) \<and>
     processInboundGroupEvents B b1 = Some b2 \<and>
     groupObject b2 0 = Some (stored [1] (go_new 0x0801 (1, 1) all_flags transmit_policy_default))"
proof -
  fix F D
  let ?B = "recording_env F D"
  have w: "wire wire_env (\<lambda>p. p)" by (simp add: wire_def wire_env_def queue_env_def)
  have e: "ap_dl bus_env = tp1_ops wire_env (Suc 0)" "hk_tx (ap_hooks bus_env) = None" "hk_rx (ap_hooks bus_env) = None"
    "ap_hasReceiveCallback bus_env" by (simp_all add: bus_env_def no_hooks_def)
  have s: "ready_to_send sample_sender" "listens 0x0801 sample_sender" "ga_isValid 0x0801"
    "dl_env (nl_link (tl_net (al_transport sample_sender))) = []" by code_simp+
  have b: "bau_inbound sample_bau = []" by (simp add: sample_bau_def)
  obtain s1 bs r1 b1 b2 where "al_sendGroupValueWrite bus_env 0x0801 [1] sample_sender = (s1, Inr ())"
    "dl_env (nl_link (tl_net (al_transport s1))) = [bs]"
    "device_receive wire_env 1 bus_env ?B bs (sample_sender, sample_bau) = (r1, b1)"
    "processInboundGroupEvents ?B b1 = Some b2"
    and o: "\<forall>j. groupObject b2 j =
        map_option (\<lambda>g. if j \<in> set (reached sample_bau 0x0801) \<and> takes FromWrite g \<and> length [1 :: u8] \<le> 16
            then stored [1] g else g) (groupObject sample_bau j)"
    using group_value_end_to_end [OF w s(1) e(1,2) s(3) _ _ s(2) e(3,4) recording_quiet [of F D] b,
        of "[1]" wire_env 1] s(4) by (auto simp del: One_nat_def)
  moreover have "groupObject b2 0 = Some (stored [1] (go_new 0x0801 (1, 1) all_flags transmit_policy_default))"
    using o by (simp add: reached_def sample_associated sample_object takes_def go_writable_def go_new_def all_flags_def)
  ultimately show ?thesis by (intro exI [of _ ?B] exI conjI)
qed

section \<open>Only a message verified with the tool key changes the configuration\<close>

text \<open>A message that the secure application layer, in the given state, accepts as one of the tool: its
  control field names tool access, its sequence number is above the last one accepted, and it decrypts, with
  a matching authentication code, under the tool key.\<close>

definition authentic_tool_message :: "sal_env \<Rightarrow> secure_layer \<Rightarrow> secure_frame_info \<Rightarrow> bytes \<Rightarrow> bool" where
  "authentic_tool_message E L info bs \<longleftrightarrow>
     isSecureApdu bs \<and> hasToolKey (sal_object L) \<and>
     (\<exists>scf plain. scf_decode (bs ! 2) = Some scf \<and> scf_toolAccess scf \<and>
        lastValid (sal_object L) (si_source info) True < readSecureU48BE (drop 3 bs) \<and>
        ccmDecrypt (se_aes E) (so_toolKey (sal_object L)) (sal_blockContext info)
          (writeSecureU48BE (readSecureU48BE (drop 3 bs))) (scf_encode scf) []
          (take (length bs - 13) (drop 9 bs)) (drop (9 + (length bs - 13)) bs) kMaxPlainApduSize = Inr plain)"

lemma handleData_authentic:
  assumes "sal_handleData E info scf bs cap s = (s1, RxUnwrapped, plain)" "scf_toolAccess scf"
  shows "hasToolKey (sal_object s) \<and> lastValid (sal_object s) (si_source info) True < readSecureU48BE (drop 3 bs) \<and>
    ccmDecrypt (se_aes E) (so_toolKey (sal_object s)) (sal_blockContext info)
      (writeSecureU48BE (readSecureU48BE (drop 3 bs))) (scf_encode scf) []
      (take (length bs - 13) (drop 9 bs)) (drop (9 + (length bs - 13)) bs) cap = Inr plain"
  using assms by (auto simp: sal_handleData_def selectKey_def Let_def split: if_splits sum.splits)

lemma processIncoming_unwrapped:
  assumes "sal_processIncoming E info bs cap s = (s1, RxUnwrapped, plain, out)"
  obtains scf where "isSecureApdu bs" "scf_decode (bs ! 2) = Some scf"
    "sal_handleData E info scf bs cap (sal_enter info scf s) = (s1, RxUnwrapped, plain)"
proof -
  have n: "fst (snd (sal_handleSyncRequest E info scf bs s')) \<noteq> RxUnwrapped" for scf s'
    by (auto simp: sal_handleSyncRequest_def Let_def split: sum.splits prod.splits)
  show ?thesis
  proof (cases "scf_decode (bs ! 2)")
    case (Some scf)
    have "isSecureApdu bs" "scf_service scf = SecData"
      using assms Some n [of scf "sal_enter info scf s"]
      by (auto simp: sal_processIncoming_def sal_enter_def Let_def split: if_splits secure_service.splits prod.splits)
    with Some assms show ?thesis
      by (intro that [OF _ Some]) (auto simp: sal_processIncoming_def sal_enter_def Let_def split: if_splits prod.splits)
  qed (use assms in \<open>auto simp: sal_processIncoming_def Let_def split: if_splits\<close>)
qed

lemma secure_rx_tool:
  assumes "secure_rx E h f = (h1, Inr g)" "toolSecured (t_security g)" "\<not> toolSecured (t_security f)"
  shows "authentic_tool_message E (sh_layer h) (secureFrameInfo f) (t_tpdu f)"
proof -
  obtain s d plain out where p: "sal_processIncoming E (secureFrameInfo f) (t_tpdu f) kMaxPlainApduSize (sh_layer h) = (s, d, plain, out)"
    by (metis prod_cases4)
  have d: "d = RxUnwrapped" "t_security g = rx_security (t_tpdu f)"
    using assms p by (auto simp: secure_rx_def toolSecured_def no_security_def Let_def split: rx_disposition.splits if_splits)
  obtain scf where scf: "isSecureApdu (t_tpdu f)" "scf_decode (t_tpdu f ! 2) = Some scf"
    "sal_handleData E (secureFrameInfo f) scf (t_tpdu f) kMaxPlainApduSize (sal_enter (secureFrameInfo f) scf (sh_layer h)) =
      (s, RxUnwrapped, plain)"
    using processIncoming_unwrapped [OF p [unfolded d(1)]] by blast
  have "scf_toolAccess scf" using assms(2) d(2) scf(2) by (simp add: rx_security_def toolSecured_def)
  with handleData_authentic [OF scf(3) this] scf show ?thesis
    by (auto simp: authentic_tool_message_def)
qed

text \<open>What a received network frame makes the transport layer hand up passes through \<open>indicate\<close>.\<close>

lemma send_hooks [simp]:
  "tl_hookState (fst (sendAck D s r q p)) = tl_hookState s" "tl_hookState (fst (sendNak D s r q p)) = tl_hookState s"
  "tl_indications (fst (sendAck D s r q p)) = tl_indications s" "tl_indications (fst (sendNak D s r q p)) = tl_indications s"
  by (simp_all add: sendAck_def sendNak_def)

lemma repeat_indications [simp]: "tl_indications (repeat_one D now i s) = tl_indications s"
proof -
  have "tl_indications s1 = tl_indications s" if "net_send D s n = (s1, r)" for n s1 r
    using net_ops_initialized(3) [of D s n] that by simp
  then show ?thesis by (auto simp: repeat_one_def split: option.split sum.split prod.split)
qed

lemma repeats_indications [simp]: "tl_indications (fold (repeat_one D now) is s) = tl_indications s"
  by (induction "is" arbitrary: s) simp_all

lemma retransmissions_indications [simp]: "tl_indications (tl_processRetransmissions D now s) = tl_indications s"
  by (simp add: tl_processRetransmissions_def Let_def split: prod.split)

lemma handlers_indications [simp]:
  "tl_indications (handleConnectRequest D s r p b) = tl_indications s"
  "tl_indications (handleConnectResponse s r) = tl_indications s"
  "tl_indications (handleDisconnectRequest s r) = tl_indications s"
  "tl_indications (handleDisconnectResponse s r) = tl_indications s"
  "tl_indications (handleAck s r q) = tl_indications s"
  "tl_indications (handleNak s r q) = tl_indications s"
  by (simp_all add: handleConnectRequest_def handleConnectResponse_def handleDisconnectRequest_def
      handleDisconnectResponse_def handleAck_def handleNak_def sendDisconnect_def Let_def split: option.split prod.split)

definition handed_up :: "'u hooks \<Rightarrow> ('d, 'u) transport \<Rightarrow> ndata_frame \<Rightarrow> ('d, 'u) transport \<Rightarrow> bool" where
  "handed_up H s n s1 \<longleftrightarrow> tl_indications s1 = tl_indications s \<or>
     (\<exists>s' f. tl_hookState s' = tl_hookState s \<and> tl_indications s' = tl_indications s \<and>
        t_tpdu f = tpdu (n_dlFrame n) \<and> t_source f = source (n_dlFrame n) \<and> \<not> toolSecured (t_security f) \<and> s1 = indicate H s' f)"

lemma handed_upI:
  "\<lbrakk>tl_hookState s' = tl_hookState s; tl_indications s' = tl_indications s; t_tpdu f = tpdu (n_dlFrame n);
    t_source f = source (n_dlFrame n); \<not> toolSecured (t_security f)\<rbrakk> \<Longrightarrow> handed_up H s n (indicate H s' f)"
  by (auto simp: handed_up_def)

lemma numbered_handed_up:
  "handed_up H s n (handleNumberedData D H s (source (n_dlFrame n)) q (tpdu (n_dlFrame n)) p)"
proof (cases "findConnection (tl_table s) (source (n_dlFrame n))")
  case (Some e)
  let ?r = "source (n_dlFrame n)"
  obtain t2 dup where d: "isDuplicate (upd_addr ?r (\<lambda>e. e\<lparr>ce_priority := p\<rparr>) (tl_table s)) (ce_index e) (q AND 0x0F) = (t2, dup)"
    by force
  have ci: "t_tpdu (connected_indication s1 ?r q1 bs) = bs" "t_source (connected_indication s1 ?r q1 bs) = ?r"
    "\<not> toolSecured (t_security (connected_indication s1 ?r q1 bs))" for s1 q1 bs
    by (simp_all add: connected_indication_def tdata_frame_init_def toolSecured_def)
  consider (err) x where "dup = Inl x" | (dup) "dup = Inr True" | (new) "dup = Inr False"
    by (cases dup) (metis (full_types))+
  then show ?thesis
  proof cases
    case new
    show ?thesis
    proof (cases "q AND 0x0F = ce_expectedRxSeq e AND 0x0F")
      case True
      with Some d new show ?thesis
        by (simp add: handleNumberedData_def Let_def) (intro handed_upI; simp add: ci)
    qed (use Some d new in \<open>simp add: handleNumberedData_def Let_def handed_up_def\<close>)
  qed (use Some d in \<open>simp_all add: handleNumberedData_def Let_def handed_up_def split: option.split\<close>)
qed (simp add: handleNumberedData_def handed_up_def)

lemma rx_handed_up: "handed_up H s n (handleNetworkRx D H s n)"
proof -
  let ?s = "if tl_timebase s = 0 then s\<lparr>tl_timebase := 1\<rparr> else s" and ?f = "n_dlFrame n"
  have k: "tl_hookState ?s = tl_hookState s" "tl_indications ?s = tl_indications s" by simp_all
  have up: "handed_up H s n (indicate H ?s ((convertFromNetwork n)\<lparr>t_securityTpci6 := x\<rparr>))" for x
    by (intro handed_upI) (simp_all add: convertFromNetwork_def tdata_frame_init_def toolSecured_def Let_def)
  have nd: "handed_up H s n (handleNumberedData D H ?s (source ?f) q (tpdu ?f) p)" for q p
    using numbered_handed_up [of H ?s n D q p] unfolding handed_up_def k .
  have keep: "tl_indications s1 = tl_indications ?s \<Longrightarrow> handed_up H s n s1" for s1 :: "('b, 'a) transport"
    by (simp add: handed_up_def k)
  show ?thesis
  proof (cases "\<not> tl_initialized s \<or> tpdu ?f = []")
    case True
    then show ?thesis by (auto simp: handleNetworkRx_def Let_def handed_up_def)
  next
    case False
    show ?thesis unfolding handleNetworkRx_def Let_def
      using False up nd by (auto intro: keep split: tpci.split)
  qed
qed

text \<open>
  C2. With security mode on and the secure application layer installed, a network frame changes the
  configuration of a device (its individual address, properties and interface objects, memory,
  authorizations, descriptor and serial number, and that a restart is carried out) only if its message is
  authentic: it is a secure message with tool access whose sequence number is above the last accepted one
  and which decrypts, with a matching authentication code, under the tool key. This holds whatever the
  frame's transport header, service and addresses are. (The providers that answer reads change nothing when
  they are asked.)
\<close>

theorem configuration_changed_by_tool_only:
  assumes "hk_rx (ap_hooks E) = Some (secure_rx SE)" "quiet_reads E" "security_on E s"
    and "al_config (al_handleNetworkRx E n s) \<noteq> al_config s"
  shows "\<exists>info. si_source info = source (n_dlFrame n) \<and>
    authentic_tool_message SE (sh_layer (tl_hookState (al_transport s))) info (tpdu (n_dlFrame n))"
proof -
  let ?T = "al_transport s" and ?H = "ap_hooks E"
  let ?T1 = "handleNetworkRx (ap_dl E) ?H ?T n"
  let ?s1 = "s\<lparr>al_transport := ?T1\<rparr>"
  have c1: "al_config ?s1 = al_config s" "security_on E ?s1"
    using assms(3) by (simp_all add: al_config_def security_on_def)
  have "tl_indications ?T1 \<noteq> tl_indications ?T"
    using assms(4) c1 by (auto simp: al_handleNetworkRx_def)
  then obtain s' f where f: "tl_hookState s' = tl_hookState ?T" "tl_indications s' = tl_indications ?T"
    "t_tpdu f = tpdu (n_dlFrame n)" "t_source f = source (n_dlFrame n)" "\<not> toolSecured (t_security f)"
    "?T1 = indicate ?H s' f"
    using rx_handed_up [of ?H ?T n "ap_dl E"] by (auto simp: handed_up_def)
  obtain h1 rr where rx: "secure_rx SE (tl_hookState ?T) f = (h1, rr)" by force
  obtain g where g: "rr = Inr g" "tl_indications ?T1 = tl_indications ?T @ [g]"
  proof (cases rr)
    case (Inl e)
    then have "tl_indications ?T1 = tl_indications ?T"
      using f assms(1) rx by (simp add: indicate_def run_transform_def)
    with \<open>tl_indications ?T1 \<noteq> tl_indications ?T\<close> show ?thesis by simp
  next
    case (Inr g)
    have "tl_indications ?T1 = tl_indications ?T @ [g] \<or> tl_indications ?T1 = tl_indications ?T"
      using f assms(1) rx Inr by (simp add: indicate_def run_transform_def tl_deliver_def enqueueReceivedFrame_def)
    with \<open>tl_indications ?T1 \<noteq> tl_indications ?T\<close> Inr that show ?thesis by simp
  qed
  have "al_handleNetworkRx E n s = handleTransportRx E g ?s1"
    using g(2) by (simp add: al_handleNetworkRx_def)
  with assms(4) c1 secure_step [OF assms(2) c1(2), of g] have "toolSecured (t_security g)" by metis
  from secure_rx_tool [OF rx [unfolded g(1)] this f(5)] f(3,4) show ?thesis
    by (intro exI [of _ "secureFrameInfo f"]) (simp add: secureFrameInfo_def)
qed

text \<open>A device in programming mode with a tool key, and the request to take the individual address 1.2.52
  that the tool sends to it.\<close>

definition tool_device :: "(ldata_frame list, secure_hook, unit) app" where
  "tool_device =
     (let hook = \<lparr>sh_layer = secure_layer_new (security_object_new\<lparr>so_mode := 1, so_toolKey := replicate 16 7\<rparr>) 0x1101 (replicate 6 1),
                  sh_sent = []\<rparr> in
      (fst (al_init 0x1101 (app_new (fst (tl_init log_link (transport_init (network_init []) hook) 0x1101)) ())))\<lparr>al_programmingMode := True\<rparr>)"

definition tool_env :: "(ldata_frame list, secure_hook, unit) app_env" where
  "tool_env =
     \<lparr>ap_dl = log_link, ap_hooks = secure_hooks sample_sal_env,
      ap_providers = \<lparr>pp_read = None, pp_consume = None, pp_write = None, pp_describe = None, pp_function = None,
                      pp_extFunction = None\<rparr>,
      ap_network = \<lparr>nh_read = None, nh_write = None\<rparr>, ap_auth = \<lparr>av_validate = None, av_time = None\<rparr>,
      ap_restart = \<lparr>re_authorize = None, re_hasRestart = True, re_hasCleanup = False\<rparr>,
      ap_securityMode = Some (\<lambda>_. True), ap_adc = None, ap_hasReceiveCallback = False, ap_hasAddressCallback = True\<rparr>"

definition tool_request :: ndata_frame where
  "tool_request =
     (let info = \<lparr>si_source = 0x1105, si_destination = 0, si_destinationType = Group, si_tpci6 = 0, si_connected = False\<rparr>;
          key = replicate 16 7 in
      case ccmEncrypt toy_aes key (sal_blockContext info) (writeSecureU48BE 1) (scf_encode (data_scf True)) []
             [0x00, 0xC0, 0x12, 0x34] 100 of
        Inr c \<Rightarrow> ndata_frame_init\<lparr>n_dlFrame := ldata_frame_init\<lparr>source := 0x1105, destination := 0, destinationType := Group,
                   tpdu := [0x03, 0xF1, scf_encode (data_scf True)] @ writeSecureU48BE 1 @ c\<rparr>\<rparr>
      | Inl _ \<Rightarrow> ndata_frame_init)"

theorem configuration_changed_by_tool_only_witness:
  "al_own (al_handleNetworkRx tool_env tool_request tool_device) = 0x1234 \<and>
   (\<exists>info. si_source info = 0x1105 \<and>
      authentic_tool_message sample_sal_env (sh_layer (tl_hookState (al_transport tool_device))) info
        (tpdu (n_dlFrame tool_request)))"
proof -
  have own: "al_own (al_handleNetworkRx tool_env tool_request tool_device) = 0x1234" by code_simp
  have own0: "al_own tool_device = 0x1101" by code_simp
  have src: "source (n_dlFrame tool_request) = 0x1105" by code_simp
  have ch: "al_config (al_handleNetworkRx tool_env tool_request tool_device) \<noteq> al_config tool_device"
  proof
    assume "al_config (al_handleNetworkRx tool_env tool_request tool_device) = al_config tool_device"
    then have "al_own (al_handleNetworkRx tool_env tool_request tool_device) = al_own tool_device"
      by (simp only: al_config_def prod.inject)
    then show False unfolding own own0 by simp
  qed
  have "\<exists>info. si_source info = source (n_dlFrame tool_request) \<and>
      authentic_tool_message sample_sal_env (sh_layer (tl_hookState (al_transport tool_device))) info (tpdu (n_dlFrame tool_request))"
    by (rule configuration_changed_by_tool_only [OF _ _ _ ch])
      (simp_all add: tool_env_def secure_hooks_def quiet_reads_def security_on_def)
  then show ?thesis using own src by auto
qed

end
