(* ===== verification/Tp1_Line.thy ===== *)
theory Tp1_Line
  imports Frame_Codec
begin

text \<open>
  The codecs next to the TP1 line: the differential Manchester codec (\<open>src/physical/manchester_codec.cpp\<close>), the
  frame codec of the physical layer (\<open>src/physical/tp1_frame_codec.cpp\<close>) and the debounce state machine of the
  link signal (\<open>include/knx/physical/link_monitor.hpp\<close>). A half-bit is an octet, 0 or 1, as in the code. An
  output span is its capacity, and the functions return the octets they write, so the length 0 that an encoder
  returns on failure is the empty list. The null-span checks have no counterpart.
\<close>

section \<open>Manchester codec\<close>

definition level_not :: "u8 \<Rightarrow> u8" where "level_not l = (if l = 0 then 1 else 0)"

text \<open>\<open>encodeBit\<close>: the cell written and the level it ends on.\<close>

definition encodeBit :: "bool \<Rightarrow> u8 \<Rightarrow> bytes \<times> u8" where
  "encodeBit b prevLevel =
     (let firstHalf = (if \<not> b then level_not prevLevel else prevLevel); secondHalf = level_not firstHalf in
      ([firstHalf, secondHalf], secondHalf))"

text \<open>The loop over the bits \<open>n - 1, ..., 0\<close>, with the level it ends on.\<close>

primrec encode_bits :: "nat \<Rightarrow> u8 \<Rightarrow> u8 \<Rightarrow> bytes \<times> u8" where
  "encode_bits 0 prev b = ([], prev)"
| "encode_bits (Suc n) prev b =
     (let (cell, l) = encodeBit (bit b n) prev; (cells, l1) = encode_bits n l b in (cell @ cells, l1))"

definition encodeByte :: "u8 \<Rightarrow> nat \<Rightarrow> bytes" where
  "encodeByte b cap = (if cap < 16 then [] else fst (encode_bits 8 1 b))"

definition encodeBytes :: "bytes \<Rightarrow> nat \<Rightarrow> bytes" where
  "encodeBytes data cap =
     (if data = [] then [] else if cap < length data * 16 then [] else concat (map (\<lambda>b. encodeByte b 16) data))"

text \<open>The loop of \<open>decodeByte\<close> with \<open>n\<close> bits to go.\<close>

primrec decode_bits :: "nat \<Rightarrow> u8 \<Rightarrow> bytes \<Rightarrow> u8 \<Rightarrow> u8 result" where
  "decode_bits 0 prev inp out = Inr out"
| "decode_bits (Suc n) prev inp out =
     (let firstHalf = inp ! 0; secondHalf = inp ! 1 in
      if firstHalf = secondHalf then Inl ChecksumError
      else decode_bits n secondHalf (drop 2 inp) (out OR push_bit n (if firstHalf \<noteq> prev then 0 else 1)))"

definition decodeByte :: "bytes \<Rightarrow> u8 result" where
  "decodeByte inp = (if length inp < 16 then Inl InvalidFrameSize else decode_bits 8 1 inp 0)"

text \<open>The loop of \<open>decodeBytes\<close> over \<open>k\<close> octets.\<close>

primrec decode_octets :: "nat \<Rightarrow> bytes \<Rightarrow> bytes result" where
  "decode_octets 0 inp = Inr []"
| "decode_octets (Suc k) inp =
     (case decodeByte (take 16 inp) of
        Inl e \<Rightarrow> Inl e
      | Inr b \<Rightarrow> (case decode_octets k (drop 16 inp) of Inl e \<Rightarrow> Inl e | Inr bs \<Rightarrow> Inr (b # bs)))"

definition decodeBytes :: "bytes \<Rightarrow> nat \<Rightarrow> bytes result" where
  "decodeBytes inp cap =
     (if cap = 0 then Inl InvalidParameter
      else if length inp < 16 then Inl InvalidFrameSize
      else case decode_octets (min (length inp div 16) cap) inp of
        Inl e \<Rightarrow> Inl e
      | Inr bs \<Rightarrow> if bs = [] then Inl InvalidFrameSize else Inr bs)"

definition calculateParity :: "u8 \<Rightarrow> bool" where
  "calculateParity data = (fold (\<lambda>i count. count + (drop_bit i data AND 1)) [0..<8] 0 AND 1 = 0)"

definition manchester_encodeFrame :: "u8 \<Rightarrow> nat \<Rightarrow> bytes" where
  "manchester_encodeFrame data cap =
     (if cap < 22 then []
      else let (start, l0) = encodeBit False 1; (bits, l1) = encode_bits 8 l0 data;
               (par, l2) = encodeBit (calculateParity data) l1; (stop, _) = encodeBit True l2 in
           start @ bits @ par @ stop)"

text \<open>\<open>validate\<close>: the loop takes steps of two while the index is below \<open>size - 1\<close>.\<close>

fun validate_cells :: "bytes \<Rightarrow> unit result" where
  "validate_cells (a # b # rest) = (if a = b then Inl ChecksumError else validate_cells rest)"
| "validate_cells _ = Inr ()"

definition manchester_validate :: "bytes \<Rightarrow> unit result" where
  "manchester_validate data = (if length data < 2 then Inl InvalidFrameSize else validate_cells data)"

section \<open>Frame codec of the physical layer\<close>

record tp1_frame =
  tf_control :: u8
  tf_source :: individual_address
  tf_destination :: group_address
  tf_destinationType :: address_type
  tf_length :: u8
  tf_data :: bytes
  tf_checksum :: u8

definition tp1_frame_init :: tp1_frame where
  "tp1_frame_init = \<lparr>tf_control = 0, tf_source = 0, tf_destination = 0, tf_destinationType = Individual, tf_length = 0,
     tf_data = replicate 16 0, tf_checksum = 0\<rparr>"

definition MIN_TP1_FRAME :: nat where "MIN_TP1_FRAME = 7"
definition MAX_TP1_DATA :: u8 where "MAX_TP1_DATA = 16"

definition getFrameSize :: "u8 \<Rightarrow> nat" where "getFrameSize n = MIN_TP1_FRAME + unat n"

definition length_field :: "tp1_frame \<Rightarrow> u8" where
  "length_field f = (if tf_destinationType f = Group then tf_length f OR 0x80 else tf_length f)"

definition tp1_body :: "tp1_frame \<Rightarrow> bytes" where
  "tp1_body f =
     [tf_control f, getHighByte (tf_source f), getLowByte (tf_source f), getHighByte (tf_destination f),
      getLowByte (tf_destination f), length_field f] @ take (unat (tf_length f)) (tf_data f)"

definition tp1_encode :: "tp1_frame \<Rightarrow> nat \<Rightarrow> bytes" where
  "tp1_encode f cap =
     (if cap < getFrameSize (tf_length f) then []
      else if tf_length f > MAX_TP1_DATA then []
      else tp1_body f @ [calculateChecksum (tp1_body f)])"

text \<open>\<open>decode\<close> writes the fields of the given frame as it reads them, also when it then fails.\<close>

definition tp1_decode :: "bytes \<Rightarrow> tp1_frame \<Rightarrow> tp1_frame \<times> unit result" where
  "tp1_decode inp f0 =
     (if length inp < MIN_TP1_FRAME then (f0, Inl InvalidFrameSize)
      else let f1 = f0\<lparr>tf_control := inp ! 0, tf_source := word_be (inp ! 1) (inp ! 2),
                      tf_destination := word_be (inp ! 3) (inp ! 4),
                      tf_destinationType := (if inp ! 5 AND 0x80 \<noteq> 0 then Group else Individual),
                      tf_length := inp ! 5 AND 0x7F\<rparr>;
               n = unat (tf_length f1) in
        if tf_length f1 > MAX_TP1_DATA then (f1, Inl InvalidParameter)
        else if length inp < getFrameSize (tf_length f1) then (f1, Inl InvalidFrameSize)
        else let f2 = f1\<lparr>tf_data := take n (drop 6 inp) @ drop n (tf_data f1), tf_checksum := inp ! (6 + n)\<rparr> in
          if calculateChecksum (take (6 + n) inp) \<noteq> tf_checksum f2 then (f2, Inl ChecksumError)
          else (f2, Inr ()))"

definition tp1_checksum :: "tp1_frame \<Rightarrow> u8" where
  "tp1_checksum f =
     fold (\<lambda>byte checksum. checksum XOR byte) (take (unat (tf_length f)) (tf_data f))
       (0xFF XOR tf_control f XOR getHighByte (tf_source f) XOR getLowByte (tf_source f)
        XOR getHighByte (tf_destination f) XOR getLowByte (tf_destination f) XOR length_field f)"

definition tp1_validateFrame :: "tp1_frame \<Rightarrow> unit result" where
  "tp1_validateFrame f =
     (if tf_length f > MAX_TP1_DATA then Inl InvalidParameter
      else if tp1_checksum f \<noteq> tf_checksum f then Inl ChecksumError
      else Inr ())"

definition extractLength :: "bytes \<Rightarrow> u8" where
  "extractLength data = (if length data < 6 then 0 else data ! 5 AND 0x7F)"

definition tp1_validate :: "bytes \<Rightarrow> unit result" where
  "tp1_validate data =
     (if length data < MIN_TP1_FRAME then Inl InvalidFrameSize
      else if extractLength data > MAX_TP1_DATA then Inl InvalidParameter
      else if length data \<noteq> getFrameSize (extractLength data) then Inl InvalidFrameSize
      else if last data \<noteq> calculateChecksum (butlast data) then Inl ChecksumError
      else Inr ())"

section \<open>Link monitor\<close>

datatype link_state = LinkUnknown | LinkDown | LinkDegraded | LinkUp

record link_status =
  ls_state :: link_state
  ls_transitionCount :: u32
  ls_timestampUs :: u64

record link_config =
  lc_pin :: u8
  lc_activeHigh :: bool
  lc_downDebounceUs :: u32
  lc_upDebounceUs :: u32

definition link_config_init :: link_config where
  "link_config_init = \<lparr>lc_pin = 0xFF, lc_activeHigh = True, lc_downDebounceUs = 20000, lc_upDebounceUs = 200000\<rparr>"

definition lc_isConfigured :: "link_config \<Rightarrow> bool" where "lc_isConfigured c \<longleftrightarrow> lc_pin c \<noteq> 0xFF"

record link_monitor =
  lm_config :: link_config
  lm_state :: link_state
  lm_candidate :: link_state
  lm_seeded :: bool
  lm_candidateSinceUs :: u64
  lm_lastSampleUs :: u64
  lm_transitionCount :: u32

definition link_monitor_init :: link_monitor where
  "link_monitor_init = \<lparr>lm_config = link_config_init, lm_state = LinkUnknown, lm_candidate = LinkUnknown, lm_seeded = False,
     lm_candidateSinceUs = 0, lm_lastSampleUs = 0, lm_transitionCount = 0\<rparr>"

definition lm_reset :: "link_monitor \<Rightarrow> link_monitor" where
  "lm_reset m = m\<lparr>lm_state := LinkUnknown, lm_seeded := False, lm_candidate := LinkUnknown, lm_candidateSinceUs := 0,
     lm_transitionCount := 0, lm_lastSampleUs := 0\<rparr>"

definition lm_configure :: "link_config \<Rightarrow> link_monitor \<Rightarrow> link_monitor" where
  "lm_configure c m = lm_reset (m\<lparr>lm_config := c\<rparr>)"

definition lm_status :: "link_monitor \<Rightarrow> link_status" where
  "lm_status m = \<lparr>ls_state = lm_state m, ls_transitionCount = lm_transitionCount m, ls_timestampUs = lm_lastSampleUs m\<rparr>"

definition levelMeansUp :: "link_monitor \<Rightarrow> int \<Rightarrow> bool" where
  "levelMeansUp m rawLevel \<longleftrightarrow> (rawLevel \<noteq> 0) = lc_activeHigh (lm_config m)"

definition lm_window :: "link_monitor \<Rightarrow> link_state \<Rightarrow> u32" where
  "lm_window m st = (if st = LinkDown then lc_downDebounceUs (lm_config m) else lc_upDebounceUs (lm_config m))"

text \<open>\<open>sample\<close>: the status it reports, if this sample produced a transition.\<close>

definition lm_sample :: "bool \<Rightarrow> u64 \<Rightarrow> link_monitor \<Rightarrow> link_monitor \<times> link_status option" where
  "lm_sample up nowUs m0 =
     (if \<not> lc_isConfigured (lm_config m0) then (m0, None)
      else let m = m0\<lparr>lm_lastSampleUs := nowUs\<rparr>; observed = (if up then LinkUp else LinkDown) in
        if \<not> lm_seeded m
        then let m1 = m\<lparr>lm_seeded := True, lm_state := observed, lm_candidate := observed, lm_candidateSinceUs := nowUs\<rparr> in
             (m1, Some (lm_status m1))
        else if observed = lm_state m \<or> observed \<noteq> lm_candidate m
        then (m\<lparr>lm_candidate := observed, lm_candidateSinceUs := nowUs\<rparr>, None)
        else if nowUs - lm_candidateSinceUs m < ucast (lm_window m observed) then (m, None)
        else let m1 = m\<lparr>lm_state := observed, lm_transitionCount := lm_transitionCount m + 1\<rparr> in (m1, Some (lm_status m1)))"

definition hasPendingChange :: "link_monitor \<Rightarrow> bool" where
  "hasPendingChange m \<longleftrightarrow> lm_seeded m \<and> lm_candidate m \<noteq> lm_state m"

definition pendingRemainingUs :: "link_monitor \<Rightarrow> u64 \<Rightarrow> u64" where
  "pendingRemainingUs m nowUs =
     (if \<not> hasPendingChange m then 0
      else let window = ucast (lm_window m (lm_candidate m)); elapsed = nowUs - lm_candidateSinceUs m in
        if elapsed \<ge> window then 0 else window - elapsed)"

section \<open>Lemmas: Manchester\<close>

abbreviation is_level :: "u8 \<Rightarrow> bool" where "is_level l \<equiv> l \<in> {0, 1}"

lemma level_not_simps [simp]: "is_level (level_not l)" "level_not l \<noteq> l" "l \<noteq> level_not l"
  by (auto simp: level_not_def)

lemma encode_bits_length [simp]: "length (fst (encode_bits n prev b)) = 2 * n"
  by (induction n arbitrary: prev) (simp_all add: encodeBit_def Let_def split_beta)

lemma encodeByte_length [simp]: "length (encodeByte b 16) = 16"
  by (simp add: encodeByte_def)

lemma mask_Suc_bit: "(b AND mask (Suc n) :: u8) = (b AND mask n) OR push_bit n (if bit b n then 1 else 0)"
  by (rule bit_word_eqI) (auto simp: bit_simps less_Suc_eq)

lemma decode_encode_bits:
  assumes "is_level prev"
  shows "decode_bits n prev (fst (encode_bits n prev b) @ rest) out = Inr (out OR (b AND mask n))"
  using assms
proof (induction n arbitrary: prev out)
  case (Suc n)
  let ?l = "snd (encodeBit (bit b n) prev)"
  have cell: "encodeBit (bit b n) prev = ([level_not ?l, ?l], ?l)" "(level_not ?l \<noteq> prev) = (\<not> bit b n)" "is_level ?l"
    using Suc.prems by (auto simp: encodeBit_def level_not_def Let_def)
  have "decode_bits n ?l (fst (encode_bits n ?l b) @ rest) (out OR push_bit n (if bit b n then 1 else 0)) =
      Inr ((out OR push_bit n (if bit b n then 1 else 0)) OR (b AND mask n))"
    by (rule Suc.IH) (rule cell(3))
  moreover have "fst (encode_bits (Suc n) prev b) @ rest = level_not ?l # ?l # (fst (encode_bits n ?l b) @ rest)"
    by (subst encode_bits.simps, subst cell(1)) (simp add: split_beta)
  moreover have "out OR (b AND mask (Suc n)) = (out OR push_bit n (if bit b n then 1 else 0)) OR (b AND mask n)"
    by (simp add: mask_Suc_bit ac_simps)
  moreover have "(if level_not ?l \<noteq> prev then 0 else 1) = (if bit b n then 1 else (0 :: u8))" using cell(2) by simp
  ultimately show ?case by simp
qed simp

lemma decodeByte_encodeByte: "decodeByte (encodeByte b 16) = Inr b"
proof -
  have "(b AND mask 8 :: u8) = b" by (simp add: take_bit_word_eq_self flip: take_bit_eq_mask del: mask_numeral)
  then show ?thesis using decode_encode_bits [of 1 8 b "[]" 0] by (simp add: decodeByte_def encodeByte_def)
qed

lemma decode_octets_encode:
  "k \<le> length data \<Longrightarrow> decode_octets k (concat (map (\<lambda>b. encodeByte b 16) data)) = Inr (take k data)"
proof (induction k arbitrary: data)
  case (Suc k)
  then obtain b bs where "data = b # bs" by (cases data) auto
  with Suc show ?case by (simp add: decodeByte_encodeByte)
qed simp

lemma concat_length: "length (concat (map (\<lambda>b. encodeByte b 16) data)) = length data * 16"
  by (induction data) simp_all

text \<open>A cell without a transition in its middle is refused, wherever it is.\<close>

lemma decode_bits_refuses:
  "\<lbrakk>k < n; inp ! (2 * k) = inp ! (2 * k + 1); 2 * n \<le> length inp\<rbrakk> \<Longrightarrow> decode_bits n prev inp out = Inl ChecksumError"
proof (induction n arbitrary: k prev inp out)
  case (Suc n)
  show ?case
  proof (cases k)
    case (Suc k')
    have d: "drop 2 inp ! (2 * k') = drop 2 inp ! (2 * k' + 1)" "2 * n \<le> length (drop 2 inp)" "k' < n"
      using Suc.prems Suc by (simp_all add: nth_drop)
    have "decode_bits n p (drop 2 inp) out' = Inl ChecksumError" for p out'
      using Suc.IH [OF d(3,1,2)] .
    then show ?thesis by (simp add: Let_def)
  qed (use Suc.prems in \<open>simp add: Let_def\<close>)
qed simp

lemma encoded_cells: "k < n \<Longrightarrow> fst (encode_bits n prev b) ! (2 * k + 1) = level_not (fst (encode_bits n prev b) ! (2 * k))
    \<and> is_level (fst (encode_bits n prev b) ! (2 * k)) \<or> \<not> is_level prev"
proof (induction n arbitrary: k prev)
  case (Suc n)
  let ?l = "snd (encodeBit (bit b n) prev)"
  have e: "fst (encode_bits (Suc n) prev b) = fst (encodeBit (bit b n) prev) @ fst (encode_bits n ?l b)"
    by (simp add: split_beta)
  have c: "fst (encodeBit (bit b n) prev) = [level_not ?l, ?l] \<and> is_level ?l" if "is_level prev"
    using that by (auto simp: encodeBit_def level_not_def Let_def)
  have n2: "level_not (level_not ?l) = ?l" if "is_level ?l" using that by (auto simp: level_not_def)
  show ?case
  proof (cases k)
    case 0
    then show ?thesis using e c n2 level_not_simps(1) [of ?l] by (cases "is_level prev") simp_all
  next
    case (Suc k')
    with Suc.IH [of k' ?l] Suc.prems c e show ?thesis by (auto simp: nth_append)
  qed
qed simp

lemma flipped_half_bit:
  assumes "i < 16"
  shows "decodeByte ((encodeByte b 16)[i := level_not (encodeByte b 16 ! i)]) = Inl ChecksumError"
proof -
  let ?c = "encodeByte b 16" and ?k = "i div 2"
  have k: "?k < 8" using assms by simp
  have cell: "?c ! (2 * ?k + 1) = level_not (?c ! (2 * ?k))" "is_level (?c ! (2 * ?k))"
    using encoded_cells [OF k, of 1 b] by (auto simp: encodeByte_def)
  have n2: "level_not (level_not (?c ! (2 * ?k))) = ?c ! (2 * ?k)" using cell(2) by (auto simp: level_not_def)
  have "i = 2 * ?k \<or> i = 2 * ?k + 1" by presburger
  then have "?c[i := level_not (?c ! i)] ! (2 * ?k) = ?c[i := level_not (?c ! i)] ! (2 * ?k + 1)"
    using cell n2 assms k by (auto simp: nth_list_update)
  from decode_bits_refuses [OF k this] show ?thesis by (simp add: decodeByte_def)
qed

text \<open>
  C27. The Manchester code is decoded to what was encoded, for every number of octets that fits the output,
  and one wrong half-bit in an octet is never accepted: the cell it is in has no transition in its middle.
\<close>

theorem manchester_roundtrip:
  "(data \<noteq> [] \<and> length data * 16 \<le> cap \<and> length data \<le> n \<longrightarrow> decodeBytes (encodeBytes data cap) n = Inr data) \<and>
   (i < 16 \<longrightarrow> decodeByte ((encodeByte b 16)[i := level_not (encodeByte b 16 ! i)]) = Inl ChecksumError)"
proof (intro conjI impI)
  assume a: "data \<noteq> [] \<and> length data * 16 \<le> cap \<and> length data \<le> n"
  then have "encodeBytes data cap = concat (map (\<lambda>b. encodeByte b 16) data)" by (simp add: encodeBytes_def)
  moreover from a have l: "0 < length data" by simp
  moreover from a l have "n \<noteq> 0" by linarith
  moreover from a have "min (length data) n = length data" by simp
  ultimately show "decodeBytes (encodeBytes data cap) n = Inr data"
    using a decode_octets_encode [of "length data" data]
    by (simp add: decodeBytes_def concat_length Suc_le_eq)
qed (rule flipped_half_bit)

theorem manchester_roundtrip_witness:
  "decodeBytes (encodeBytes [0xBC, 0x11, 0x05] 48) 3 = Inr [0xBC, 0x11, 0x05] \<and>
   decodeByte ((encodeByte 0xBC 16)[5 := level_not (encodeByte 0xBC 16 ! 5)]) = Inl ChecksumError"
  using manchester_roundtrip [of "[0xBC, 0x11, 0x05]" 48 3 5 "0xBC"] by simp

text \<open>The code accepts an odd number of half-bits: its check for an incomplete cell is not reached.\<close>

lemma odd_half_bits_accepted: "manchester_validate [1, 0, 1] = Inr ()"
  by (simp add: manchester_validate_def)

text \<open>\<open>calculateParity\<close> is true for an even number of ones, so a data octet and its parity bit always hold an
  odd number of ones together.\<close>

lemma parity_is_odd: "calculateParity 0x01 = False" "calculateParity 0x03 = True" "calculateParity 0x00 = True"
  by code_simp+

section \<open>Lemmas: frame codec\<close>

lemma tp1_body_length:
  assumes "length (tf_data f) = 16" "tf_length f \<le> MAX_TP1_DATA"
  shows "length (tp1_body f) = 6 + unat (tf_length f)"
proof -
  have "unat (tf_length f) \<le> 16" using assms(2) by (simp add: MAX_TP1_DATA_def word_le_nat_alt)
  then show ?thesis using assms(1) by (simp add: tp1_body_def)
qed

lemma small_length: "(n :: u8) \<le> 16 \<Longrightarrow> n AND 0x7F = n \<and> n AND 0x80 = 0 \<and> (n OR 0x80) AND 0x7F = n \<and> (n OR 0x80) AND 0x80 \<noteq> 0"
proof -
  assume "n \<le> 16"
  then have "n < 0x80" by (simp add: word_le_nat_alt word_less_nat_alt)
  then have m: "n AND 0x7F = n" using less_mask_eq [of n 7] by (simp add: mask_eq_exp_minus_1)
  have "n AND 0x80 = (n AND 0x7F) AND 0x80" by (simp add: m)
  then have z: "n AND 0x80 = 0" by (simp add: and.assoc)
  have "(n OR 0x80) AND 0x80 = 0x80" by (intro word8_eqI) (simp_all add: bit_simps)
  moreover have "(n OR 0x80) AND 0x7F = n" by (simp add: bit.conj_disj_distrib2 m)
  ultimately show ?thesis using m z by simp
qed

lemma length_field_simps:
  assumes "tf_length f \<le> MAX_TP1_DATA"
  shows "length_field f AND 0x7F = tf_length f" "(length_field f AND 0x80 \<noteq> 0) = (tf_destinationType f = Group)"
  using small_length [of "tf_length f"] assms by (auto simp: length_field_def MAX_TP1_DATA_def)

text \<open>The two checksum functions agree.\<close>

lemma tp1_checksum_body: "tp1_checksum f = calculateChecksum (tp1_body f)"
  by (simp add: tp1_checksum_def calculateChecksum_def tp1_body_def ac_simps)

lemma validate_ok:
  "tp1_validate xs = Inr () \<longleftrightarrow> MIN_TP1_FRAME \<le> length xs \<and> extractLength xs \<le> MAX_TP1_DATA \<and>
     length xs = getFrameSize (extractLength xs) \<and> calculateChecksum xs = 0"
proof (cases xs rule: rev_cases)
  case (snoc ys y)
  then show ?thesis by (auto simp: tp1_validate_def MIN_TP1_FRAME_def not_less not_le)
qed (simp add: tp1_validate_def MIN_TP1_FRAME_def)

text \<open>
  The frame codec of the physical layer returns what was encoded: a frame with at most 16 data octets is
  encoded into exactly its frame size, the octets are valid, and decoding gives back the control field, the
  addresses, the length and the data, whatever the frame decoded into held before. And no single octet of
  valid octets can be changed so that they stay valid.
\<close>

theorem tp1_codec_roundtrip:
  assumes "length (tf_data f) = 16" "tf_length f \<le> 16" "cap \<ge> 7 + unat (tf_length f)"
  shows "length (tp1_encode f cap) = 7 + unat (tf_length f) \<and> tp1_validate (tp1_encode f cap) = Inr () \<and>
    (\<exists>g. tp1_decode (tp1_encode f cap) f0 = (g, Inr ()) \<and> tf_control g = tf_control f \<and> tf_source g = tf_source f \<and>
       tf_destination g = tf_destination f \<and> tf_destinationType g = tf_destinationType f \<and> tf_length g = tf_length f \<and>
       take (unat (tf_length f)) (tf_data g) = take (unat (tf_length f)) (tf_data f) \<and> tf_checksum g = tp1_checksum f) \<and>
    (\<forall>i x. i < length (tp1_encode f cap) \<and> x \<noteq> tp1_encode f cap ! i \<longrightarrow> tp1_validate ((tp1_encode f cap)[i := x]) \<noteq> Inr ())"
proof -
  let ?b = "tp1_body f" and ?n = "unat (tf_length f)"
  have m: "tf_length f \<le> MAX_TP1_DATA" using assms(2) by (simp add: MAX_TP1_DATA_def)
  have n: "?n \<le> 16" using assms(2) by (simp add: word_le_nat_alt)
  have e: "tp1_encode f cap = ?b @ [calculateChecksum ?b]"
    using assms(3) m by (simp add: tp1_encode_def getFrameSize_def MIN_TP1_FRAME_def)
  have len: "length ?b = 6 + ?n" using tp1_body_length [OF assms(1) m] .
  have at: "(?b @ c) ! 0 = tf_control f" "(?b @ c) ! 1 = getHighByte (tf_source f)" "(?b @ c) ! 2 = getLowByte (tf_source f)"
    "(?b @ c) ! 3 = getHighByte (tf_destination f)" "(?b @ c) ! 4 = getLowByte (tf_destination f)"
    "(?b @ c) ! 5 = length_field f" "drop 6 (?b @ c) = take ?n (tf_data f) @ c" for c
    by (simp_all add: tp1_body_def numeral_eq_Suc)
  have ex: "extractLength (?b @ [calculateChecksum ?b]) = tf_length f"
    using len at(6) [of "[calculateChecksum ?b]"] length_field_simps(1) [OF m] by (simp add: extractLength_def)
  have v: "tp1_validate (?b @ [calculateChecksum ?b]) = Inr ()"
    using len ex m by (simp add: tp1_validate_def MIN_TP1_FRAME_def getFrameSize_def)
  have dec: "tp1_decode (?b @ [calculateChecksum ?b]) f0 =
     (f0\<lparr>tf_control := tf_control f, tf_source := tf_source f, tf_destination := tf_destination f,
         tf_destinationType := tf_destinationType f, tf_length := tf_length f,
         tf_data := take ?n (tf_data f) @ drop ?n (tf_data f0), tf_checksum := calculateChecksum ?b\<rparr>, Inr ())"
  proof -
    have dt: "(if length_field f AND 0x80 \<noteq> 0 then Group else Individual) = tf_destinationType f"
      unfolding length_field_simps(2) [OF m] by (cases "tf_destinationType f") simp_all
    have last: "(?b @ [calculateChecksum ?b]) ! (6 + ?n) = calculateChecksum ?b" "take (6 + ?n) (?b @ [calculateChecksum ?b]) = ?b"
      using len by (simp_all add: nth_append)
    show ?thesis unfolding tp1_decode_def Let_def at length_field_simps(1) [OF m] dt
      using len m n assms(1) last by (simp add: MIN_TP1_FRAME_def getFrameSize_def)
  qed
  have single: "tp1_validate (xs[i := x]) \<noteq> Inr ()"
    if "tp1_validate xs = Inr ()" "i < length xs" "x \<noteq> xs ! i" for xs i x
  proof
    assume "tp1_validate (xs[i := x]) = Inr ()"
    then have "calculateChecksum (xs[i := x]) = 0" "calculateChecksum xs = 0"
      using that(1) by (simp_all add: validate_ok)
    then have "xs ! i XOR x = 0" using calculateChecksum_update [OF that(2), of x] by simp
    then have "x = xs ! i" by (metis xor.assoc xor_self_eq xor.left_neutral xor.right_neutral)
    with that(3) show False by simp
  qed
  have "\<exists>g. tp1_decode (tp1_encode f cap) f0 = (g, Inr ()) \<and> tf_control g = tf_control f \<and> tf_source g = tf_source f \<and>
       tf_destination g = tf_destination f \<and> tf_destinationType g = tf_destinationType f \<and> tf_length g = tf_length f \<and>
       take ?n (tf_data g) = take ?n (tf_data f) \<and> tf_checksum g = tp1_checksum f"
    unfolding e dec using n assms(1) by (simp add: tp1_checksum_body)
  with len v single [OF v] show ?thesis unfolding e by simp
qed

theorem tp1_codec_roundtrip_witness:
  "\<exists>g. tp1_decode (tp1_encode (tp1_frame_init\<lparr>tf_control := 0xBC, tf_length := 2, tf_data := [0x00, 0x81] @ replicate 14 0\<rparr>) 23)
      tp1_frame_init = (g, Inr ()) \<and> take 2 (tf_data g) = [0x00, 0x81]"
  using tp1_codec_roundtrip [of "tp1_frame_init\<lparr>tf_control := 0xBC, tf_length := 2, tf_data := [0x00, 0x81] @ replicate 14 0\<rparr>" 23
      tp1_frame_init]
  by (auto simp: tp1_frame_init_def)

section \<open>Lemmas: link monitor\<close>

definition observed :: "bool \<Rightarrow> link_state" where "observed up = (if up then LinkUp else LinkDown)"

definition lm_run :: "link_monitor \<Rightarrow> (bool \<times> u64) list \<Rightarrow> link_monitor" where
  "lm_run m xs = fold (\<lambda>(up, t) m. fst (lm_sample up t m)) xs m"

lemma observed_inj [simp]: "observed u = observed v \<longleftrightarrow> u = v"
  by (simp add: observed_def)

lemma lm_window_update [simp]: "lm_window (m\<lparr>lm_lastSampleUs := t\<rparr>) st = lm_window m st"
  by (simp add: lm_window_def)

lemma lm_sample_config [simp]: "lm_config (fst (lm_sample up t m)) = lm_config m"
  by (simp add: lm_sample_def Let_def)

lemma lm_run_snoc: "lm_run m (xs @ [(up, t)]) = fst (lm_sample up t (lm_run m xs))"
  by (simp add: lm_run_def)

lemma lm_run_config [simp]: "lm_config (lm_run m xs) = lm_config m"
  by (induction xs rule: rev_induct) (simp_all add: lm_run_def split_beta)

text \<open>The candidate is what all samples since \<open>lm_candidateSinceUs\<close> have read.\<close>

definition since_ok :: "link_monitor \<Rightarrow> (bool \<times> u64) list \<Rightarrow> bool" where
  "since_ok m xs \<longleftrightarrow> lm_seeded m = (xs \<noteq> []) \<and>
     (xs \<noteq> [] \<longrightarrow> (\<exists>zs t ys u. xs = zs @ (u, t) # ys \<and> (\<forall>v \<in> fst ` set ys. v = u) \<and> lm_candidate m = observed u \<and>
        lm_candidateSinceUs m = t))"

lemma since_ok_run:
  assumes "lc_isConfigured (lm_config m)" "\<not> lm_seeded m"
  shows "since_ok (lm_run m xs) xs"
proof (induction xs rule: rev_induct)
  case Nil
  then show ?case using assms by (simp add: since_ok_def lm_run_def)
next
  case (snoc x xs)
  obtain up t where x: "x = (up, t)" by force
  let ?m = "lm_run m xs"
  have c: "lc_isConfigured (lm_config ?m)" using assms(1) by simp
  note d = lm_sample_def [of up t ?m] observed_def
  show ?case
  proof (cases "xs = [] \<or> observed up = lm_state ?m \<or> observed up \<noteq> lm_candidate ?m")
    case True
    then have "lm_seeded (fst (lm_sample up t ?m)) \<and> lm_candidate (fst (lm_sample up t ?m)) = observed up \<and>
        lm_candidateSinceUs (fst (lm_sample up t ?m)) = t"
      using c snoc.IH by (auto simp: d since_ok_def Let_def)
    then show ?thesis unfolding x lm_run_snoc since_ok_def by (intro conjI impI exI [of _ xs] exI [of _ t] exI [of _ "[]"]) auto
  next
    case False
    then have k: "lm_seeded (fst (lm_sample up t ?m))" "lm_candidate (fst (lm_sample up t ?m)) = observed up"
      "lm_candidateSinceUs (fst (lm_sample up t ?m)) = lm_candidateSinceUs ?m"
      using c snoc.IH by (auto simp: d since_ok_def Let_def)
    obtain zs t0 ys u where o: "xs = zs @ (u, t0) # ys" "\<forall>v \<in> fst ` set ys. v = u" "lm_candidate ?m = observed u"
      "lm_candidateSinceUs ?m = t0" using snoc.IH False by (auto simp: since_ok_def)
    from False o(3) have "u = up" by simp
    with o k show ?thesis unfolding x lm_run_snoc since_ok_def
      by (intro conjI impI exI [of _ zs] exI [of _ t0] exI [of _ "ys @ [(up, t)]"] exI [of _ up]) auto
  qed
qed

text \<open>
  C23. The link signal is debounced. After any samples since the monitor was configured, the first one apart, a
  change of the link state is reported only when the level has been read the same in every sample of a stretch
  that reaches back at least the debounce window of the new state; and it is reported by the first sample for
  which the pending time the monitor announces is zero.
\<close>

theorem link_state_debounced:
  assumes "lc_pin c \<noteq> 0xFF" "xs \<noteq> []"
    and "m = lm_run (lm_configure c m0) xs"
  shows "(snd (lm_sample up t m) = Some st \<longrightarrow>
      ls_state st = (if up then LinkUp else LinkDown) \<and>
      (\<exists>zs t0 ys. xs = zs @ (up, t0) # ys \<and> (\<forall>v \<in> fst ` set ys. v = up) \<and>
         t - t0 \<ge> ucast (if up then lc_upDebounceUs c else lc_downDebounceUs c))) \<and>
    (hasPendingChange m \<and> lm_candidate m = (if up then LinkUp else LinkDown) \<longrightarrow>
      (snd (lm_sample up t m) \<noteq> None \<longleftrightarrow> pendingRemainingUs m t = 0))"
proof (intro conjI impI)
  have c: "lm_config m = c" "lc_isConfigured (lm_config m)"
    using assms(1,3) by (simp_all add: lm_configure_def lm_reset_def lc_isConfigured_def)
  have ok: "since_ok m xs"
    unfolding assms(3)
    by (rule since_ok_run) (use assms(1) in \<open>simp_all add: lm_configure_def lm_reset_def lc_isConfigured_def\<close>)
  then have seeded: "lm_seeded m" using assms(2) by (simp add: since_ok_def)
  {
    assume r: "snd (lm_sample up t m) = Some st"
    then have h: "observed up = lm_candidate m" "t - lm_candidateSinceUs m \<ge> ucast (lm_window m (observed up))"
      "ls_state st = observed up"
      using c seeded by (auto simp: lm_sample_def observed_def lm_status_def Let_def not_less split: if_splits)
    then show "ls_state st = (if up then LinkUp else LinkDown)" by (simp add: observed_def)
    obtain zs t0 ys u where o: "xs = zs @ (u, t0) # ys" "\<forall>v \<in> fst ` set ys. v = u" "lm_candidate m = observed u"
      "lm_candidateSinceUs m = t0" using ok assms(2) by (auto simp: since_ok_def)
    from h(1) o(3) have "u = up" by simp
    with o h(2) c(1) show "\<exists>zs t0 ys. xs = zs @ (up, t0) # ys \<and> (\<forall>v \<in> fst ` set ys. v = up) \<and>
         t - t0 \<ge> ucast (if up then lc_upDebounceUs c else lc_downDebounceUs c)"
      by (intro exI [of _ zs] exI [of _ t0] exI [of _ ys]) (auto simp: lm_window_def observed_def split: if_splits)
  }
  assume p: "hasPendingChange m \<and> lm_candidate m = (if up then LinkUp else LinkDown)"
  have w: "pendingRemainingUs m t = 0 \<longleftrightarrow> t - lm_candidateSinceUs m \<ge> ucast (lm_window m (lm_candidate m))"
    using p by (auto simp: pendingRemainingUs_def Let_def not_le)
  show "(snd (lm_sample up t m) \<noteq> None) = (pendingRemainingUs m t = 0)"
    unfolding w using c p by (cases up) (auto simp: lm_sample_def hasPendingChange_def Let_def not_less)
qed

theorem link_state_debounced_witness:
  "\<exists>st. snd (lm_sample False 25000 (lm_run (lm_configure (link_config_init\<lparr>lc_pin := 4\<rparr>) link_monitor_init) [(True, 0), (False, 5000)])) = Some st \<and>
     ls_state st = LinkDown"
proof -
  let ?m = "lm_run (lm_configure (link_config_init\<lparr>lc_pin := 4\<rparr>) link_monitor_init) [(True, 0), (False, 5000)]"
  obtain st where "snd (lm_sample False 25000 ?m) = Some st"
    by (simp add: lm_run_def lm_configure_def lm_reset_def link_config_init_def lm_sample_def lc_isConfigured_def lm_window_def Let_def)
  with link_state_debounced [of "link_config_init\<lparr>lc_pin := 4\<rparr>" "[(True, 0), (False, 5000)]" ?m link_monitor_init False 25000 st] show ?thesis
    by (simp add: link_config_init_def)
qed

end
