(* ===== verification/Mac_Physical.thy ===== *)
theory Mac_Physical
  imports Data_Link Tp1_Line
begin

text \<open>
  The TP1 physical layer that all TP1 media share: the acknowledge octets (\<open>include/knx/physical/tp1_ack_utils.hpp\<close>),
  the MAC controller (\<open>src/physical/tp1_mac_controller.cpp\<close>) and the facade \<open>Tp1MacPhysical\<close>
  (\<open>src/physical/tp1_mac_physical.cpp\<close>). The medium backend (a bit-bang driver, a TPUART) is the parameter
  \<open>'b medium_backend\<close>: a call of it may emit events, which reach the controller and the facade before the
  call returns. What the receive callback and the link state callback are called with is counted and logged.
  \<open>mac_env\<close> is the physical port of the data link layer of \<open>Data_Link\<close>, made of these operations.
\<close>

section \<open>Medium (tp1\_medium\_backend.hpp)\<close>

datatype medium_state = MsUninitialized | MsIdle | MsReceiving | MsTransmitting | MsError

datatype ack_class = AcNone | AcAck | AcNack | AcBusy | AcNackBusy

datatype rx_event_type = EtTelegramStart | EtDataByte | EtTelegramEnd | EtReceiveError | EtRxAckObserved
  | EtTxAckResponse | EtTxAckDeadlineMiss | EtAckDiagnosticsSnapshot | EtMediumStateChanged | EtLinkStateChanged

record ack_diagnostics =
  ad_windowOpenedNoDecision :: u32
  ad_decisionLatchedLate :: u32
  ad_responseEmitted :: u32
  ad_deadlineMiss :: u32
  ad_overflowError :: u32
  ad_rxAckObserved :: u32
  ad_unsupportedRawIngress :: u32

definition ack_diagnostics_init :: ack_diagnostics where
  "ack_diagnostics_init = \<lparr>ad_windowOpenedNoDecision = 0, ad_decisionLatchedLate = 0, ad_responseEmitted = 0,
     ad_deadlineMiss = 0, ad_overflowError = 0, ad_rxAckObserved = 0, ad_unsupportedRawIngress = 0\<rparr>"

record tp1_event =
  te_type :: rx_event_type
  te_dataByte :: u8
  te_errorFlags :: u8
  te_ackClass :: ack_class
  te_ackDiagnostics :: ack_diagnostics
  te_linkStatus :: link_status
  te_frame :: bytes

definition tp1_event_init :: tp1_event where
  "tp1_event_init = \<lparr>te_type = EtMediumStateChanged, te_dataByte = 0, te_errorFlags = 0, te_ackClass = AcNone,
     te_ackDiagnostics = ack_diagnostics_init,
     te_linkStatus = \<lparr>ls_state = LinkUnknown, ls_transitionCount = 0, ls_timestampUs = 0\<rparr>, te_frame = []\<rparr>"

text \<open>The capabilities the facade and the controller ask for: a detailed transmit confirmation, and the
  diagnostics snapshot.\<close>

record 'b medium_backend =
  mb_init :: "u16 \<Rightarrow> bool \<Rightarrow> 'b \<Rightarrow> 'b \<times> tp1_event list \<times> unit result"
  mb_close :: "'b \<Rightarrow> 'b"
  mb_sendFrame :: "bytes \<Rightarrow> 'b \<Rightarrow> 'b \<times> tp1_event list \<times> nat result"
  mb_service :: "'b \<Rightarrow> 'b \<times> tp1_event list \<times> unit result"
  mb_state :: "'b \<Rightarrow> medium_state"
  mb_detailedTxConfirm :: "'b \<Rightarrow> bool"
  mb_diagnosticsSnapshot :: "'b \<Rightarrow> bool"
  mb_diagnostics :: "('b \<Rightarrow> 'b \<times> tp1_event list \<times> unit result) option"
  mb_linkState :: "'b \<Rightarrow> link_state"
  mb_setBusMonitorMode :: "bool \<Rightarrow> 'b \<Rightarrow> 'b \<times> unit result"
  mb_setOwnAddress :: "u16 \<Rightarrow> 'b \<Rightarrow> 'b \<times> unit result"
  mb_setAckGroupAddresses :: "u16 list \<Rightarrow> 'b \<Rightarrow> 'b"
  mb_setLocalBusy :: "bool \<Rightarrow> 'b \<Rightarrow> 'b"
  mb_now :: "'b \<Rightarrow> u32"
  mb_delay :: "u32 \<Rightarrow> 'b \<Rightarrow> 'b"

section \<open>Acknowledge octets (tp1\_ack\_utils.hpp)\<close>

definition tp1AckClassFromByte :: "u8 \<Rightarrow> ack_class" where
  "tp1AckClassFromByte v =
     (if v = 0xCC then AcAck else if v = 0x0C then AcNack else if v = 0xC0 then AcBusy
      else if v = 0x00 then AcNackBusy else AcNone)"

definition isTp1AckByte :: "u8 \<Rightarrow> bool" where "isTp1AckByte v \<longleftrightarrow> tp1AckClassFromByte v \<noteq> AcNone"

definition tp1AckByteFromClass :: "ack_class \<Rightarrow> u8" where
  "tp1AckByteFromClass c = (case c of AcAck \<Rightarrow> 0xCC | AcNack \<Rightarrow> 0x0C | AcBusy \<Rightarrow> 0xC0 | AcNackBusy \<Rightarrow> 0x00 | AcNone \<Rightarrow> 0)"

section \<open>State\<close>

text \<open>\<open>mc_attached\<close>: the controller is the event callback of the backend; \<open>mc_observed\<close>: the facade is the
  observer of the controller.\<close>

record mac_controller =
  mc_attached :: bool
  mc_observed :: bool
  mc_lastTxAckResponse :: ack_class
  mc_lastTxAckDeadlineMiss :: bool
  mc_txOutcomeSequence :: u32
  mc_hasSnapshot :: bool
  mc_snapshot :: ack_diagnostics
  mc_periodTicks :: u32
  mc_tickCounter :: u32
  mc_backoffTicks :: u32
  mc_cooldownTicks :: u32

definition mac_controller_init :: mac_controller where
  "mac_controller_init = \<lparr>mc_attached = False, mc_observed = False, mc_lastTxAckResponse = AcNone,
     mc_lastTxAckDeadlineMiss = False, mc_txOutcomeSequence = 0, mc_hasSnapshot = False,
     mc_snapshot = ack_diagnostics_init, mc_periodTicks = 0, mc_tickCounter = 0, mc_backoffTicks = 0, mc_cooldownTicks = 0\<rparr>"

definition MAC_RX_QUEUE_CAPACITY :: nat where "MAC_RX_QUEUE_CAPACITY = 32"
definition MAX_RX_FRAME_SIZE :: nat where "MAX_RX_FRAME_SIZE = 256"
definition DEFAULT_TX_OUTCOME_TIMEOUT_MS :: u32 where "DEFAULT_TX_OUTCOME_TIMEOUT_MS = 20"

record 'b mac_physical =
  mp_initialized :: bool
  mp_busMonitorMode :: bool
  mp_backend :: 'b
  mp_controller :: mac_controller
  mp_configOwn :: u16
  mp_configMonitor :: bool
  mp_hasRxCallback :: bool
  mp_txOutcomeTimeoutMs :: u32
  mp_txAckRequested :: bool
  mp_linkState :: link_state
  mp_gateTxOnLinkDown :: bool
  mp_hasLinkCallback :: bool
  mp_linkReports :: "link_status list"
  mp_rxQueue :: "bytes ring"
  mp_rxOverflowDrops :: nat
  mp_notified :: nat
  mp_receiveActive :: bool
  mp_receiveDeadlineMs :: u64
  mp_lastReceived :: bytes

definition mac_physical_new :: "'b \<Rightarrow> 'b mac_physical" where
  "mac_physical_new b = \<lparr>mp_initialized = False, mp_busMonitorMode = False, mp_backend = b, mp_controller = mac_controller_init,
     mp_configOwn = 0, mp_configMonitor = False, mp_hasRxCallback = False,
     mp_txOutcomeTimeoutMs = DEFAULT_TX_OUTCOME_TIMEOUT_MS, mp_txAckRequested = False, mp_linkState = LinkUnknown,
     mp_gateTxOnLinkDown = True, mp_hasLinkCallback = False, mp_linkReports = [],
     mp_rxQueue = \<lparr>ring_slots = replicate MAC_RX_QUEUE_CAPACITY [], ring_head = 0, ring_count = 0\<rparr>, mp_rxOverflowDrops = 0,
     mp_notified = 0, mp_receiveActive = False, mp_receiveDeadlineMs = 0, mp_lastReceived = []\<rparr>"

section \<open>Events\<close>

definition handleLinkStateEvent :: "link_status \<Rightarrow> 'b mac_physical \<Rightarrow> 'b mac_physical" where
  "handleLinkStateEvent st s =
     (let s1 = s\<lparr>mp_linkState := ls_state st\<rparr> in
      if mp_hasLinkCallback s1 then s1\<lparr>mp_linkReports := mp_linkReports s1 @ [st]\<rparr> else s1)"

definition enqueue_rx :: "bytes \<Rightarrow> 'b mac_physical \<Rightarrow> 'b mac_physical" where
  "enqueue_rx bs s =
     (let s1 = (if ring_count (mp_rxQueue s) \<ge> MAC_RX_QUEUE_CAPACITY
                then s\<lparr>mp_rxOverflowDrops := mp_rxOverflowDrops s + 1, mp_rxQueue := snd (ring_pop (mp_rxQueue s))\<rparr>
                else s\<lparr>mp_rxOverflowDrops := 0\<rparr>) in
      s1\<lparr>mp_rxQueue := ring_push (mp_rxQueue s1) bs\<rparr>)"

definition handleTp1Event :: "tp1_event \<Rightarrow> 'b mac_physical \<Rightarrow> 'b mac_physical" where
  "handleTp1Event e s =
     (if te_type e = EtLinkStateChanged then handleLinkStateEvent (te_linkStatus e) s
      else if te_frame e = [] then s
      else if length (te_frame e) = 1 \<and> isTp1AckByte (te_frame e ! 0) then s
      else if length (te_frame e) > MAX_RX_FRAME_SIZE then s
      else let s1 = enqueue_rx (te_frame e) s in
        if mp_hasRxCallback s1 then s1\<lparr>mp_notified := mp_notified s1 + 1\<rparr> else s1)"

definition mc_event :: "tp1_event \<Rightarrow> mac_controller \<Rightarrow> mac_controller" where
  "mc_event e c =
     (case te_type e of
        EtTxAckResponse \<Rightarrow> c\<lparr>mc_lastTxAckResponse := te_ackClass e, mc_lastTxAckDeadlineMiss := False,
                             mc_txOutcomeSequence := mc_txOutcomeSequence c + 1\<rparr>
      | EtTxAckDeadlineMiss \<Rightarrow> c\<lparr>mc_lastTxAckResponse := AcNone, mc_lastTxAckDeadlineMiss := True,
                             mc_txOutcomeSequence := mc_txOutcomeSequence c + 1\<rparr>
      | EtAckDiagnosticsSnapshot \<Rightarrow> c\<lparr>mc_snapshot := te_ackDiagnostics e, mc_hasSnapshot := True\<rparr>
      | _ \<Rightarrow> c)"

definition onBackendEvent :: "tp1_event \<Rightarrow> 'b mac_physical \<Rightarrow> 'b mac_physical" where
  "onBackendEvent e s =
     (let s1 = s\<lparr>mp_controller := mc_event e (mp_controller s)\<rparr> in
      if mc_observed (mp_controller s1) then handleTp1Event e s1 else s1)"

definition backendEvents :: "tp1_event list \<Rightarrow> 'b mac_physical \<Rightarrow> 'b mac_physical" where
  "backendEvents es s = (if mc_attached (mp_controller s) then fold onBackendEvent es s else s)"

text \<open>A call of the backend: its new state, and its events on the way.\<close>

definition mac_call :: "('b \<Rightarrow> 'b \<times> tp1_event list \<times> 'r) \<Rightarrow> 'b mac_physical \<Rightarrow> 'b mac_physical \<times> 'r" where
  "mac_call g s = (case g (mp_backend s) of (b, es, r) \<Rightarrow> (backendEvents es (s\<lparr>mp_backend := b\<rparr>), r))"

section \<open>Controller\<close>

definition with_mc :: "(mac_controller \<Rightarrow> mac_controller) \<Rightarrow> 'b mac_physical \<Rightarrow> 'b mac_physical" where
  "with_mc g s = s\<lparr>mp_controller := g (mp_controller s)\<rparr>"

definition mc_init :: "'b medium_backend \<Rightarrow> 'b mac_physical \<Rightarrow> 'b mac_physical \<times> unit result" where
  "mc_init B s = mac_call (mb_init B (mp_configOwn s) (mp_configMonitor s)) (with_mc (\<lambda>c. c\<lparr>mc_attached := True\<rparr>) s)"

definition mc_close :: "'b medium_backend \<Rightarrow> 'b mac_physical \<Rightarrow> 'b mac_physical" where
  "mc_close B s =
     (let s1 = with_mc (\<lambda>c. c\<lparr>mc_attached := False\<rparr>) s; s2 = s1\<lparr>mp_backend := mb_close B (mp_backend s1)\<rparr> in
      with_mc (\<lambda>c. c\<lparr>mc_lastTxAckResponse := AcNone, mc_lastTxAckDeadlineMiss := False, mc_txOutcomeSequence := 0,
         mc_hasSnapshot := False, mc_snapshot := ack_diagnostics_init, mc_tickCounter := 0, mc_cooldownTicks := 0\<rparr>) s2)"

definition supportsDiagnosticsSnapshot :: "'b medium_backend \<Rightarrow> 'b mac_physical \<Rightarrow> bool" where
  "supportsDiagnosticsSnapshot B s \<longleftrightarrow> mb_diagnostics B \<noteq> None \<and> mb_diagnosticsSnapshot B (mp_backend s)"

definition requestDiagnosticsSnapshot :: "'b medium_backend \<Rightarrow> 'b mac_physical \<Rightarrow> 'b mac_physical \<times> unit result" where
  "requestDiagnosticsSnapshot B s =
     (case mb_diagnostics B of None \<Rightarrow> (s, Inl OperationNotSupported) | Some g \<Rightarrow> mac_call g s)"

definition setDiagnosticsSnapshotPeriod :: "u32 \<Rightarrow> 'b mac_physical \<Rightarrow> 'b mac_physical" where
  "setDiagnosticsSnapshotPeriod ticks = with_mc (\<lambda>c. c\<lparr>mc_periodTicks := ticks, mc_tickCounter := 0\<rparr>)"

definition setDiagnosticsRetryBackoffTicks :: "u32 \<Rightarrow> 'b mac_physical \<Rightarrow> 'b mac_physical" where
  "setDiagnosticsRetryBackoffTicks ticks = with_mc (\<lambda>c. c\<lparr>mc_backoffTicks := ticks, mc_cooldownTicks := 0\<rparr>)"

definition onTick :: "'b medium_backend \<Rightarrow> 'b mac_physical \<Rightarrow> 'b mac_physical \<times> unit result" where
  "onTick B s0 =
     (case mac_call (mb_service B) s0 of
        (s, Inl e) \<Rightarrow> (s, Inl e)
      | (s, Inr _) \<Rightarrow>
          (let c = mp_controller s in
           if mc_periodTicks c = 0 then (s, Inr ())
           else if mc_cooldownTicks c > 0 then (with_mc (\<lambda>c. c\<lparr>mc_cooldownTicks := mc_cooldownTicks c - 1\<rparr>) s, Inr ())
           else if \<not> supportsDiagnosticsSnapshot B s then (s, Inr ())
           else let s1 = with_mc (\<lambda>c. c\<lparr>mc_tickCounter := mc_tickCounter c + 1\<rparr>) s in
             if mc_tickCounter (mp_controller s1) \<ge> mc_periodTicks c
             then (case requestDiagnosticsSnapshot B (with_mc (\<lambda>c. c\<lparr>mc_tickCounter := 0\<rparr>) s1) of (s2, r) \<Rightarrow>
                     (if \<not> isOk r \<and> mc_backoffTicks (mp_controller s2) > 0
                      then with_mc (\<lambda>c. c\<lparr>mc_cooldownTicks := mc_backoffTicks c\<rparr>) s2 else s2, r))
             else (s1, Inr ())))"

section \<open>Facade\<close>

definition mac_init :: "'b medium_backend \<Rightarrow> 'b mac_physical \<Rightarrow> 'b mac_physical \<times> unit result" where
  "mac_init B s =
     (if mp_initialized s then (s, Inr ())
      else let s1 = with_mc (\<lambda>c. c\<lparr>mc_observed := True\<rparr>) (s\<lparr>mp_configOwn := 0xFFFF, mp_configMonitor := mp_busMonitorMode s\<rparr>) in
        case mc_init B s1 of
          (s2, Inl e) \<Rightarrow> (with_mc (\<lambda>c. c\<lparr>mc_observed := False\<rparr>) s2, Inl e)
        | (s2, Inr _) \<Rightarrow> (s2\<lparr>mp_initialized := True\<rparr>, Inr ()))"

definition mac_setOwnAddress :: "'b medium_backend \<Rightarrow> u16 \<Rightarrow> 'b mac_physical \<Rightarrow> 'b mac_physical \<times> unit result" where
  "mac_setOwnAddress B a s =
     (case mb_setOwnAddress B a (mp_backend s) of (b, r) \<Rightarrow> (s\<lparr>mp_configOwn := a, mp_backend := b\<rparr>, r))"

definition mac_setAckGroupAddresses :: "'b medium_backend \<Rightarrow> u16 list \<Rightarrow> 'b mac_physical \<Rightarrow> 'b mac_physical" where
  "mac_setAckGroupAddresses B as s = s\<lparr>mp_backend := mb_setAckGroupAddresses B as (mp_backend s)\<rparr>"

definition mac_close :: "'b medium_backend \<Rightarrow> 'b mac_physical \<Rightarrow> 'b mac_physical" where
  "mac_close B s =
     (if \<not> mp_initialized s then s
      else (mc_close B (with_mc (\<lambda>c. c\<lparr>mc_observed := False\<rparr>) s))
             \<lparr>mp_rxQueue := (mp_rxQueue s)\<lparr>ring_head := 0, ring_count := 0\<rparr>, mp_rxOverflowDrops := 0, mp_initialized := False\<rparr>)"

definition validateOutgoingFrame :: "bytes \<Rightarrow> 'b mac_physical \<Rightarrow> ldata_frame result" where
  "validateOutgoingFrame bs s =
     (if \<not> mp_initialized s then Inl NotInitialized
      else if bs = [] then Inl InvalidParameter
      else if mp_busMonitorMode s then Inl OperationNotSupported
      else if mp_gateTxOnLinkDown s \<and> mp_linkState s = LinkDown then Inl ResourceUnavailable
      else decodeFrame bs ldata_frame_init)"

definition needs_ack :: "bytes \<Rightarrow> ldata_frame \<Rightarrow> bool" where
  "needs_ack bs f \<longleftrightarrow> bs ! 0 AND 0x02 \<noteq> 0 \<or> (destinationType f = Individual \<and> \<not> isIndividualBroadcastAddress (destination f))"

definition mac_beginTransmit :: "'b medium_backend \<Rightarrow> bytes \<Rightarrow> 'b mac_physical \<Rightarrow> 'b mac_physical \<times> u32 result" where
  "mac_beginTransmit B bs s =
     (case validateOutgoingFrame bs s of
        Inl e \<Rightarrow> (s, Inl e)
      | Inr f \<Rightarrow>
          (let s1 = s\<lparr>mp_txAckRequested := needs_ack bs f\<rparr>; initial = mc_txOutcomeSequence (mp_controller s1) in
           case mac_call (mb_sendFrame B bs) s1 of
             (s2, Inl e) \<Rightarrow> (s2, Inl e)
           | (s2, Inr _) \<Rightarrow>
               if \<not> mb_detailedTxConfirm B (mp_backend s2)
               then (case onTick B s2 of (s3, Inl e) \<Rightarrow> (s3, Inl e) | (s3, Inr _) \<Rightarrow> (s3, Inr initial))
               else (s2, Inr initial)))"

text \<open>The outcome that the last acknowledge event stands for.\<close>

definition ack_outcome :: "mac_controller \<Rightarrow> progress" where
  "ack_outcome c =
     (if mc_lastTxAckDeadlineMiss c then Timeout
      else case mc_lastTxAckResponse c of
        AcAck \<Rightarrow> Success | AcBusy \<Rightarrow> Busy | AcNackBusy \<Rightarrow> Busy | AcNack \<Rightarrow> TransmissionFailed | AcNone \<Rightarrow> TransmissionFailed)"

definition mac_pollTransmit :: "'b medium_backend \<Rightarrow> u32 \<Rightarrow> 'b mac_physical \<Rightarrow> 'b mac_physical \<times> progress result" where
  "mac_pollTransmit B initial s =
     (if \<not> mp_initialized s then (s, Inl NotInitialized)
      else case onTick B s of
        (s1, Inl e) \<Rightarrow> (s1, Inl e)
      | (s1, Inr _) \<Rightarrow>
          if \<not> mp_txAckRequested s1
          then (s1, Inr (if mb_state B (mp_backend s1) = MsTransmitting then Pending else Success))
          else if \<not> mb_detailedTxConfirm B (mp_backend s1) then (s1, Inr Success)
          else if mc_txOutcomeSequence (mp_controller s1) = initial then (s1, Inr Pending)
          else (s1, Inr (ack_outcome (mp_controller s1))))"

definition mac_nowMs :: "'b medium_backend \<Rightarrow> 'b mac_physical \<Rightarrow> u64" where
  "mac_nowMs B s = ucast (mb_now B (mp_backend s))"

definition mac_beginReceive :: "'b medium_backend \<Rightarrow> u32 \<Rightarrow> 'b mac_physical \<Rightarrow> 'b mac_physical \<times> unit result" where
  "mac_beginReceive B timeoutMs s =
     (if \<not> mp_initialized s then (s, Inl NotInitialized)
      else (s\<lparr>mp_receiveActive := True, mp_lastReceived := [], mp_receiveDeadlineMs := mac_nowMs B s + ucast timeoutMs\<rparr>, Inr ()))"

definition mac_pollReceive :: "'b medium_backend \<Rightarrow> 'b mac_physical \<Rightarrow> 'b mac_physical \<times> progress result" where
  "mac_pollReceive B s =
     (if \<not> mp_initialized s then (s, Inl NotInitialized)
      else if \<not> mp_receiveActive s then (s, Inl OperationNotReady)
      else let s1 = fst (onTick B s) in
        if ring_count (mp_rxQueue s1) > 0
        then (case ring_pop (mp_rxQueue s1) of
                (bs, q) \<Rightarrow> (s1\<lparr>mp_lastReceived := bs, mp_rxQueue := q, mp_receiveActive := False\<rparr>, Inr Success))
        else if mac_nowMs B s1 \<ge> mp_receiveDeadlineMs s1 then (s1\<lparr>mp_receiveActive := False\<rparr>, Inr Timeout)
        else (s1, Inr Pending))"

definition mac_receivedFrameView :: "'b mac_physical \<Rightarrow> bytes result" where
  "mac_receivedFrameView s = (if length (mp_lastReceived s) = 0 then Inl OperationNotReady else Inr (mp_lastReceived s))"

definition mac_delay :: "'b medium_backend \<Rightarrow> 'b mac_physical \<Rightarrow> 'b mac_physical" where
  "mac_delay B s = s\<lparr>mp_backend := mb_delay B 1 (mp_backend s)\<rparr>"

text \<open>\<open>waitForTxOutcome\<close>, with fuel for the number of turns; \<open>None\<close> means it is still waiting.\<close>

primrec tx_wait :: "nat \<Rightarrow> 'b medium_backend \<Rightarrow> u32 \<Rightarrow> u64 \<Rightarrow> 'b mac_physical \<Rightarrow> ('b mac_physical \<times> unit result) option" where
  "tx_wait 0 B initial deadline s = None"
| "tx_wait (Suc n) B initial deadline s =
     (case onTick B s of
        (s1, Inl e) \<Rightarrow> Some (s1, Inl e)
      | (s1, Inr _) \<Rightarrow>
          if \<not> mp_txAckRequested s1 \<and> mb_state B (mp_backend s1) \<noteq> MsTransmitting then Some (s1, Inr ())
          else if mp_txAckRequested s1 \<and> mc_txOutcomeSequence (mp_controller s1) \<noteq> initial
          then Some (s1, case ack_outcome (mp_controller s1) of
                Success \<Rightarrow> Inr () | Timeout \<Rightarrow> Inl ETimeout | Busy \<Rightarrow> Inl EBusy | _ \<Rightarrow> Inl ETransmissionFailed)
          else if mac_nowMs B s1 \<ge> deadline then Some (s1, Inl ETimeout)
          else tx_wait n B initial deadline (mac_delay B s1))"

definition waitForTxOutcome :: "nat \<Rightarrow> 'b medium_backend \<Rightarrow> u32 \<Rightarrow> 'b mac_physical \<Rightarrow> ('b mac_physical \<times> unit result) option" where
  "waitForTxOutcome fuel B initial s = tx_wait fuel B initial (mac_nowMs B s + ucast (mp_txOutcomeTimeoutMs s)) s"

definition mac_sendFrame :: "nat \<Rightarrow> 'b medium_backend \<Rightarrow> bytes \<Rightarrow> 'b mac_physical \<Rightarrow> ('b mac_physical \<times> nat result) option" where
  "mac_sendFrame fuel B bs s =
     (case mac_beginTransmit B bs s of
        (s1, Inl e) \<Rightarrow> Some (s1, Inl e)
      | (s1, Inr initial) \<Rightarrow>
          if mb_detailedTxConfirm B (mp_backend s1)
          then map_option (\<lambda>(s2, r). (s2, case r of Inl e \<Rightarrow> Inl e | Inr _ \<Rightarrow> Inr (length bs))) (waitForTxOutcome fuel B initial s1)
          else Some (s1, Inr (length bs)))"

primrec receive_loop :: "nat \<Rightarrow> 'b medium_backend \<Rightarrow> u32 \<Rightarrow> 'b mac_physical \<Rightarrow> ('b mac_physical \<times> bytes result) option" where
  "receive_loop 0 B timeoutMs s = None"
| "receive_loop (Suc n) B timeoutMs s =
     (case mac_pollReceive B s of
        (s1, Inl e) \<Rightarrow> Some (s1, Inl e)
      | (s1, Inr Pending) \<Rightarrow> if timeoutMs = 0 then Some (s1, Inl ETimeout) else receive_loop n B timeoutMs (mac_delay B s1)
      | (s1, Inr Success) \<Rightarrow> Some (s1, mac_receivedFrameView s1)
      | (s1, Inr Timeout) \<Rightarrow> Some (s1, Inl ETimeout)
      | (s1, Inr Busy) \<Rightarrow> Some (s1, Inl EBusy)
      | (s1, Inr TransmissionFailed) \<Rightarrow> Some (s1, Inl ETransmissionFailed))"

definition mac_receiveFrame :: "nat \<Rightarrow> 'b medium_backend \<Rightarrow> u32 \<Rightarrow> 'b mac_physical \<Rightarrow> ('b mac_physical \<times> bytes result) option" where
  "mac_receiveFrame fuel B timeoutMs s =
     (case mac_beginReceive B timeoutMs s of
        (s1, Inl e) \<Rightarrow> Some (s1, Inl e)
      | (s1, Inr _) \<Rightarrow> receive_loop fuel B timeoutMs s1)"

datatype physical_state = PsIdle | PsTransmitting | PsReceiving | PsError

definition mapState :: "medium_state \<Rightarrow> physical_state" where
  "mapState st = (case st of MsUninitialized \<Rightarrow> PsIdle | MsIdle \<Rightarrow> PsIdle | MsReceiving \<Rightarrow> PsReceiving
     | MsTransmitting \<Rightarrow> PsTransmitting | MsError \<Rightarrow> PsError)"

definition mac_getState :: "'b medium_backend \<Rightarrow> 'b mac_physical \<Rightarrow> physical_state" where
  "mac_getState B s = (if \<not> mp_initialized s then PsIdle else mapState (mb_state B (mp_backend s)))"

definition mac_setBusMonitorMode :: "'b medium_backend \<Rightarrow> bool \<Rightarrow> 'b mac_physical \<Rightarrow> 'b mac_physical \<times> unit result" where
  "mac_setBusMonitorMode B enabled s =
     (let s1 = s\<lparr>mp_busMonitorMode := enabled, mp_configMonitor := enabled\<rparr> in
      if \<not> mp_initialized s1 then (s1, Inr ())
      else case mb_setBusMonitorMode B enabled (mp_backend s1) of (b, r) \<Rightarrow>
        (s1\<lparr>mp_backend := b\<rparr>,
         case r of Inl e \<Rightarrow> if e \<noteq> OperationNotSupported then Inl e else Inr () | Inr _ \<Rightarrow> Inr ()))"

definition mac_getLinkState :: "'b medium_backend \<Rightarrow> 'b mac_physical \<Rightarrow> link_state" where
  "mac_getLinkState B s = (if \<not> mp_initialized s then LinkUnknown else mb_linkState B (mp_backend s))"

definition mac_setTxGatedByLinkDown :: "bool \<Rightarrow> 'b mac_physical \<Rightarrow> 'b mac_physical" where
  "mac_setTxGatedByLinkDown enabled s = s\<lparr>mp_gateTxOnLinkDown := enabled\<rparr>"

definition mac_setTxOutcomeTimeoutMs :: "u32 \<Rightarrow> 'b mac_physical \<Rightarrow> 'b mac_physical" where
  "mac_setTxOutcomeTimeoutMs ms s = s\<lparr>mp_txOutcomeTimeoutMs := ms\<rparr>"

definition mac_setReceiveCallback :: "bool \<Rightarrow> 'b mac_physical \<Rightarrow> 'b mac_physical" where
  "mac_setReceiveCallback present s = s\<lparr>mp_hasRxCallback := present\<rparr>"

definition mac_setLinkStateCallback :: "bool \<Rightarrow> 'b mac_physical \<Rightarrow> 'b mac_physical" where
  "mac_setLinkStateCallback present s = s\<lparr>mp_hasLinkCallback := present\<rparr>"

definition mac_setLocalBusy :: "'b medium_backend \<Rightarrow> bool \<Rightarrow> 'b mac_physical \<Rightarrow> 'b mac_physical" where
  "mac_setLocalBusy B busy s = s\<lparr>mp_backend := mb_setLocalBusy B busy (mp_backend s)\<rparr>"

text \<open>The physical port of the data link layer over this facade; the platform's part of it (clock, mutex,
  tasks) stays that of \<open>E\<close>.\<close>

definition mac_env :: "'b medium_backend \<Rightarrow> 'b mac_physical link_env \<Rightarrow> 'b mac_physical link_env" where
  "mac_env B E =
     E\<lparr>env_init := mac_init B, env_close := mac_close B, env_isOpen := mp_initialized,
       env_beginTransmit := (\<lambda>s bs. mac_beginTransmit B bs s), env_pollTransmit := (\<lambda>s sq. mac_pollTransmit B sq s),
       env_beginReceive := (\<lambda>s t. mac_beginReceive B t s), env_pollReceive := mac_pollReceive B,
       env_receivedFrameView := (\<lambda>s. (s, mac_receivedFrameView s)),
       env_setOwnAddress := (\<lambda>s a. fst (mac_setOwnAddress B a s)),
       env_setAckGroupAddresses := (\<lambda>s gs. mac_setAckGroupAddresses B gs s)\<rparr>"

section \<open>The receive queue keeps the newest frames\<close>

definition rx_frames :: "'b mac_physical \<Rightarrow> bytes list" where "rx_frames s = ring_contents (mp_rxQueue s)"

definition rx_queue_ok :: "'b mac_physical \<Rightarrow> bool" where "rx_queue_ok s \<longleftrightarrow> ring_ok MAC_RX_QUEUE_CAPACITY (mp_rxQueue s)"

lemma enqueue_rx_ring: "mp_rxQueue (enqueue_rx bs s) = ring_add MAC_RX_QUEUE_CAPACITY (mp_rxQueue s) bs"
  by (simp add: enqueue_rx_def ring_add_def)

interpretation mq: latest_fifo enqueue_rx rx_frames MAC_RX_QUEUE_CAPACITY rx_queue_ok
proof unfold_locales
  fix s :: "'b mac_physical" and bs
  assume ok: "rx_queue_ok s"
  show "rx_frames (enqueue_rx bs s) = latest MAC_RX_QUEUE_CAPACITY (rx_frames s @ [bs])" "rx_queue_ok (enqueue_rx bs s)"
    using ok ring_add_latest [of MAC_RX_QUEUE_CAPACITY "mp_rxQueue s" bs]
    by (simp_all add: rx_frames_def rx_queue_ok_def enqueue_rx_ring MAC_RX_QUEUE_CAPACITY_def)
  show "length (rx_frames s) \<le> MAC_RX_QUEUE_CAPACITY" using ok by (simp add: rx_frames_def rx_queue_ok_def ring_ok_def)
qed

text \<open>The events that carry a telegram for the layer above.\<close>

definition carries_telegram :: "tp1_event \<Rightarrow> bool" where
  "carries_telegram e \<longleftrightarrow> te_type e \<noteq> EtLinkStateChanged \<and> te_frame e \<noteq> [] \<and>
     \<not> (length (te_frame e) = 1 \<and> isTp1AckByte (te_frame e ! 0)) \<and> length (te_frame e) \<le> 256"

lemma mc_event_flags [simp]: "mc_observed (mc_event e c) = mc_observed c" "mc_attached (mc_event e c) = mc_attached c"
  "mc_periodTicks (mc_event e c) = mc_periodTicks c"
  by (simp_all add: mc_event_def split: rx_event_type.split)

lemma handleTp1Event_queue:
  "mp_rxQueue (handleTp1Event e s) = mp_rxQueue (if carries_telegram e then enqueue_rx (te_frame e) s else s)"
  by (simp add: handleTp1Event_def carries_telegram_def handleLinkStateEvent_def MAX_RX_FRAME_SIZE_def Let_def not_less)

lemma enqueue_rx_keeps [simp]:
  "mp_controller (enqueue_rx bs s) = mp_controller s" "mp_initialized (enqueue_rx bs s) = mp_initialized s"
  "mp_txAckRequested (enqueue_rx bs s) = mp_txAckRequested s" "mp_backend (enqueue_rx bs s) = mp_backend s"
  "mp_receiveActive (enqueue_rx bs s) = mp_receiveActive s" "mp_receiveDeadlineMs (enqueue_rx bs s) = mp_receiveDeadlineMs s"
  "mp_busMonitorMode (enqueue_rx bs s) = mp_busMonitorMode s" "mp_linkState (enqueue_rx bs s) = mp_linkState s"
  "mp_lastReceived (enqueue_rx bs s) = mp_lastReceived s"
  by (simp_all add: enqueue_rx_def)

lemma handleTp1Event_keeps [simp]:
  "mp_controller (handleTp1Event e s) = mp_controller s" "mp_initialized (handleTp1Event e s) = mp_initialized s"
  "mp_txAckRequested (handleTp1Event e s) = mp_txAckRequested s" "mp_backend (handleTp1Event e s) = mp_backend s"
  "mp_receiveActive (handleTp1Event e s) = mp_receiveActive s"
  "mp_receiveDeadlineMs (handleTp1Event e s) = mp_receiveDeadlineMs s"
  "mp_busMonitorMode (handleTp1Event e s) = mp_busMonitorMode s"
  "mp_lastReceived (handleTp1Event e s) = mp_lastReceived s"
  by (simp_all add: handleTp1Event_def handleLinkStateEvent_def Let_def)

lemma onBackendEvent_keeps [simp]:
  "mp_controller (onBackendEvent e s) = mc_event e (mp_controller s)" "mp_initialized (onBackendEvent e s) = mp_initialized s"
  "mp_txAckRequested (onBackendEvent e s) = mp_txAckRequested s" "mp_backend (onBackendEvent e s) = mp_backend s"
  "mp_receiveActive (onBackendEvent e s) = mp_receiveActive s"
  "mp_receiveDeadlineMs (onBackendEvent e s) = mp_receiveDeadlineMs s"
  "mp_busMonitorMode (onBackendEvent e s) = mp_busMonitorMode s"
  "mp_lastReceived (onBackendEvent e s) = mp_lastReceived s"
  by (simp_all add: onBackendEvent_def Let_def)

lemma events_keep [simp]:
  "mp_controller (fold onBackendEvent es s) = fold mc_event es (mp_controller s)"
  "mp_initialized (fold onBackendEvent es s) = mp_initialized s"
  "mp_txAckRequested (fold onBackendEvent es s) = mp_txAckRequested s"
  "mp_backend (fold onBackendEvent es s) = mp_backend s"
  "mp_receiveActive (fold onBackendEvent es s) = mp_receiveActive s"
  "mp_receiveDeadlineMs (fold onBackendEvent es s) = mp_receiveDeadlineMs s"
  "mp_busMonitorMode (fold onBackendEvent es s) = mp_busMonitorMode s"
  "mp_lastReceived (fold onBackendEvent es s) = mp_lastReceived s"
  by (induction es arbitrary: s) simp_all

lemma fold_mc_flags [simp]: "mc_observed (fold mc_event es c) = mc_observed c" "mc_attached (fold mc_event es c) = mc_attached c"
  "mc_periodTicks (fold mc_event es c) = mc_periodTicks c"
  by (induction es arbitrary: c) simp_all

lemma events_queue:
  assumes "mc_observed (mp_controller s)"
  shows "mp_rxQueue (fold onBackendEvent es s) = mp_rxQueue (fold enqueue_rx (map te_frame (filter carries_telegram es)) s)"
proof -
  have push: "mp_rxQueue (fold enqueue_rx xs s1) = foldl (ring_add MAC_RX_QUEUE_CAPACITY) (mp_rxQueue s1) xs" for xs and s1 :: "'a mac_physical"
    by (induction xs arbitrary: s1) (simp_all add: enqueue_rx_ring)
  show ?thesis using assms unfolding push
  proof (induction es arbitrary: s)
    case (Cons e es)
    let ?s = "onBackendEvent e s"
    have "mp_rxQueue ?s = (if carries_telegram e then ring_add MAC_RX_QUEUE_CAPACITY (mp_rxQueue s) (te_frame e) else mp_rxQueue s)"
      using Cons.prems by (simp add: onBackendEvent_def handleTp1Event_queue enqueue_rx_ring Let_def)
    moreover have "mp_rxQueue (fold onBackendEvent es ?s) =
        foldl (ring_add MAC_RX_QUEUE_CAPACITY) (mp_rxQueue ?s) (map te_frame (filter carries_telegram es))"
      by (rule Cons.IH) (simp add: Cons.prems)
    ultimately show ?case by simp
  qed simp
qed

text \<open>A medium that logs what it is given, reports one batch of events per service call and has a clock.\<close>

definition sample_medium :: "(bytes list \<times> tp1_event list list \<times> u32) medium_backend" where
  "sample_medium =
     \<lparr>mb_init = \<lambda>_ _ b. (b, [], Inr ()), mb_close = id,
      mb_sendFrame = \<lambda>bs (w, p, t). ((w @ [bs], p, t), [], Inr (length bs)),
      mb_service = \<lambda>(w, p, t). case p of [] \<Rightarrow> ((w, [], t), [], Inr ()) | es # q \<Rightarrow> ((w, q, t), es, Inr ()),
      mb_state = \<lambda>_. MsIdle, mb_detailedTxConfirm = \<lambda>_. True, mb_diagnosticsSnapshot = \<lambda>_. False, mb_diagnostics = None,
      mb_linkState = \<lambda>_. LinkUp, mb_setBusMonitorMode = \<lambda>_ b. (b, Inr ()), mb_setOwnAddress = \<lambda>_ b. (b, Inr ()),
      mb_setAckGroupAddresses = \<lambda>_ b. b, mb_setLocalBusy = \<lambda>_ b. b, mb_now = \<lambda>(w, p, t). t,
      mb_delay = \<lambda>n (w, p, t). (w, p, t + n)\<rparr>"

definition telegram_event :: "bytes \<Rightarrow> tp1_event" where
  "telegram_event bs = tp1_event_init\<lparr>te_type := EtTelegramEnd, te_frame := bs\<rparr>"

definition ack_event :: "ack_class \<Rightarrow> tp1_event" where
  "ack_event c = tp1_event_init\<lparr>te_type := EtTxAckResponse, te_ackClass := c\<rparr>"

definition sample_mac :: "tp1_event list list \<Rightarrow> (bytes list \<times> tp1_event list list \<times> u32) mac_physical" where
  "sample_mac p = fst (mac_init sample_medium (mac_physical_new ([], p, 0)))"

text \<open>
  C31. Whatever events the medium reports, the receive queue holds the newest frames, at most 32 and in the
  order they came: exactly the frames of the events that carry a telegram, which are those with a frame of 1
  to 256 octets that is neither a single acknowledge octet nor part of a link state event. A full queue loses
  its oldest frame, never the new one. Taking a frame takes the oldest.
\<close>

theorem mac_queue_keeps_newest:
  assumes "ring_ok 32 (mp_rxQueue s)" "mc_attached (mp_controller s)" "mc_observed (mp_controller s)"
  shows "ring_contents (mp_rxQueue (backendEvents es s)) =
      latest 32 (ring_contents (mp_rxQueue s) @ map te_frame (filter carries_telegram es)) \<and>
    ring_ok 32 (mp_rxQueue (backendEvents es s)) \<and>
    (mac_pollReceive B s1 = (s2, Inr Success) \<and> ring_ok 32 (mp_rxQueue (fst (onTick B s1))) \<longrightarrow>
       ring_contents (mp_rxQueue (fst (onTick B s1))) = mp_lastReceived s2 # ring_contents (mp_rxQueue s2))"
proof (intro conjI impI)
  have "rx_queue_ok s" using assms(1) by (simp add: rx_queue_ok_def MAC_RX_QUEUE_CAPACITY_def)
  from mq.push_all [OF this, of "map te_frame (filter carries_telegram es)"]
  show "ring_contents (mp_rxQueue (backendEvents es s)) =
      latest 32 (ring_contents (mp_rxQueue s) @ map te_frame (filter carries_telegram es))"
    "ring_ok 32 (mp_rxQueue (backendEvents es s))"
    using events_queue [OF assms(3), of es] assms(2)
    by (simp_all add: backendEvents_def rx_frames_def rx_queue_ok_def MAC_RX_QUEUE_CAPACITY_def)
  assume p: "mac_pollReceive B s1 = (s2, Inr Success) \<and> ring_ok 32 (mp_rxQueue (fst (onTick B s1)))"
  let ?q = "mp_rxQueue (fst (onTick B s1))"
  have "0 < ring_count ?q" "mp_lastReceived s2 = fst (ring_pop ?q)" "mp_rxQueue s2 = snd (ring_pop ?q)"
    using p by (auto simp: mac_pollReceive_def Let_def split: if_splits prod.splits)
  then show "ring_contents ?q = mp_lastReceived s2 # ring_contents (mp_rxQueue s2)"
    using ring_pop_contents [of 32 ?q] p by simp
qed

theorem mac_queue_keeps_newest_witness:
  "ring_contents (mp_rxQueue (backendEvents [telegram_event [1, 2], telegram_event [0xCC], telegram_event [3]] (sample_mac []))) =
     [[1, 2], [3]]"
proof -
  let ?es = "[telegram_event [1, 2], telegram_event [0xCC], telegram_event [3]]"
  have h: "ring_ok 32 (mp_rxQueue (sample_mac []))" "mc_attached (mp_controller (sample_mac []))"
    "mc_observed (mp_controller (sample_mac []))" by code_simp+
  have f: "ring_contents (mp_rxQueue (sample_mac [])) = []" "map te_frame (filter carries_telegram ?es) = [[1, 2], [3]]"
    by code_simp+
  show ?thesis using mac_queue_keeps_newest [OF h, of ?es sample_medium "sample_mac []" "sample_mac []"] unfolding f by (simp add: latest_def)
qed

section \<open>The outcome of a transmission\<close>

lemma onTick_plain:
  assumes "mc_periodTicks (mp_controller s) = 0"
  shows "onTick B s = mac_call (mb_service B) s"
proof -
  obtain b es r where "mb_service B (mp_backend s) = (b, es, r)" by (metis prod_cases3)
  then show ?thesis using assms
    by (cases r) (simp_all add: onTick_def mac_call_def backendEvents_def with_mc_def)
qed

definition is_outcome :: "tp1_event \<Rightarrow> bool" where
  "is_outcome e \<longleftrightarrow> te_type e = EtTxAckResponse \<or> te_type e = EtTxAckDeadlineMiss"

definition event_progress :: "tp1_event \<Rightarrow> progress" where
  "event_progress e =
     (if te_type e = EtTxAckDeadlineMiss then Timeout
      else case te_ackClass e of
        AcAck \<Rightarrow> Success | AcBusy \<Rightarrow> Busy | AcNackBusy \<Rightarrow> Busy | AcNack \<Rightarrow> TransmissionFailed | AcNone \<Rightarrow> TransmissionFailed)"

lemma mc_event_outcome:
  "is_outcome e \<Longrightarrow> mc_txOutcomeSequence (mc_event e c) = mc_txOutcomeSequence c + 1 \<and> ack_outcome (mc_event e c) = event_progress e"
  "\<not> is_outcome e \<Longrightarrow> mc_txOutcomeSequence (mc_event e c) = mc_txOutcomeSequence c \<and> ack_outcome (mc_event e c) = ack_outcome c"
  by (auto simp: mc_event_def is_outcome_def event_progress_def ack_outcome_def split: rx_event_type.split)

lemma fold_mc_outcome:
  "mc_txOutcomeSequence (fold mc_event es c) = mc_txOutcomeSequence c + of_nat (length (filter is_outcome es)) \<and>
   ack_outcome (fold mc_event es c) =
     (if filter is_outcome es = [] then ack_outcome c else event_progress (last (filter is_outcome es)))"
proof (induction es rule: rev_induct)
  case (snoc e es)
  show ?case
  proof (cases "is_outcome e")
    case True
    then show ?thesis using snoc mc_event_outcome(1) [OF True, of "fold mc_event es c"] by (simp add: ac_simps)
  next
    case False
    then show ?thesis using snoc mc_event_outcome(2) [OF False, of "fold mc_event es c"] by simp
  qed
qed simp

text \<open>The events of \<open>n\<close> service calls of the medium, one after the other.\<close>

definition serviced :: "'b medium_backend \<Rightarrow> nat \<Rightarrow> 'b \<Rightarrow> 'b" where
  "serviced B n b = ((\<lambda>b. fst (mb_service B b)) ^^ n) b"

definition reported :: "'b medium_backend \<Rightarrow> nat \<Rightarrow> 'b \<Rightarrow> tp1_event list" where
  "reported B n b = concat (map (\<lambda>k. fst (snd (mb_service B (serviced B k b)))) [0..<n])"

text \<open>The layer after \<open>n\<close> polls.\<close>

definition polled :: "'b medium_backend \<Rightarrow> u32 \<Rightarrow> nat \<Rightarrow> 'b mac_physical \<Rightarrow> 'b mac_physical" where
  "polled B initial n s = ((\<lambda>s. fst (mac_pollTransmit B initial s)) ^^ n) s"

text \<open>A physical layer that is open, gets the medium's events and makes no periodic diagnostics.\<close>

definition mac_ready :: "'b mac_physical \<Rightarrow> bool" where
  "mac_ready s \<longleftrightarrow> mp_initialized s \<and> mc_attached (mp_controller s) \<and> mc_periodTicks (mp_controller s) = 0"

lemma onTick_open:
  assumes "mac_ready s" "mb_service B (mp_backend s) = (b, es, r)"
  shows "onTick B s = (fold onBackendEvent es (s\<lparr>mp_backend := b\<rparr>), r)"
  using assms by (simp add: onTick_plain mac_ready_def mac_call_def backendEvents_def)

lemma mac_ready_events [simp]: "mac_ready (fold onBackendEvent es (s\<lparr>mp_backend := b\<rparr>)) \<longleftrightarrow> mac_ready s"
  by (simp add: mac_ready_def)

lemma pollTransmit_state:
  assumes "mac_ready s" "mb_service B (mp_backend s) = (b, es, r)"
  shows "fst (mac_pollTransmit B initial s) = fold onBackendEvent es (s\<lparr>mp_backend := b\<rparr>)"
  using assms onTick_open [OF assms] by (auto simp: mac_pollTransmit_def mac_ready_def split: sum.split)

lemma polled_state:
  assumes "mac_ready s"
  shows "mac_ready (polled B initial n s) \<and> mp_backend (polled B initial n s) = serviced B n (mp_backend s) \<and>
    mp_txAckRequested (polled B initial n s) = mp_txAckRequested s \<and>
    mp_controller (polled B initial n s) = fold mc_event (reported B n (mp_backend s)) (mp_controller s)"
proof (induction n)
  case (Suc n)
  obtain b es r where m: "mb_service B (serviced B n (mp_backend s)) = (b, es, r)" by (metis prod_cases3)
  have "polled B initial (Suc n) s = fst (mac_pollTransmit B initial (polled B initial n s))" by (simp add: polled_def)
  moreover have "serviced B (Suc n) (mp_backend s) = b" using m by (simp add: serviced_def)
  moreover have "reported B (Suc n) (mp_backend s) = reported B n (mp_backend s) @ es" using m by (simp add: reported_def)
  ultimately show ?case using Suc m pollTransmit_state [of "polled B initial n s" B b es r initial] by simp
qed (use assms in \<open>simp add: polled_def serviced_def reported_def\<close>)

text \<open>What beginTransmit leaves: the number it returns is the one the controller had before the medium got the
  frame, and the events of handing over are already counted.\<close>

lemma beginTransmit_state:
  assumes "mac_ready s" "\<forall>b. mb_detailedTxConfirm B b = detailed" "decodeFrame bs ldata_frame_init = Inr f"
    and "mb_sendFrame B bs (mp_backend s) = (b, es, r)" "mac_beginTransmit B bs s = (s1, Inr initial)"
  shows "mac_ready s1 \<and> mp_txAckRequested s1 = needs_ack bs f \<and> initial = mc_txOutcomeSequence (mp_controller s) \<and>
    (detailed \<longrightarrow> mp_backend s1 = b \<and> mp_controller s1 = fold mc_event es (mp_controller s))"
proof -
  let ?s1 = "s\<lparr>mp_txAckRequested := needs_ack bs f\<rparr>" and ?s2 = "fold onBackendEvent es (s\<lparr>mp_txAckRequested := needs_ack bs f, mp_backend := b\<rparr>)"
  have v: "validateOutgoingFrame bs s = Inr f"
    using assms(3,5) by (auto simp: mac_beginTransmit_def validateOutgoingFrame_def split: if_splits)
  have c: "mac_call (mb_sendFrame B bs) ?s1 = (?s2, r)"
    using assms(1,4) by (simp add: mac_call_def backendEvents_def mac_ready_def)
  have o: "mac_ready ?s2" using assms(1) by (simp add: mac_ready_def)
  obtain b' es' r' where m: "mb_service B (mp_backend ?s2) = (b', es', r')" by (metis prod_cases3)
  show ?thesis
    using assms(2,5) v c o onTick_open [OF o m] assms(1)
    by (auto simp: mac_beginTransmit_def Let_def mac_ready_def split: sum.splits if_splits)
qed

text \<open>
  C16. What the physical layer reports of a frame since it was handed over. After \<open>beginTransmit\<close> has taken the
  frame and any number of polls have been made, the next poll reports: the error of the medium's service call, if
  it fails; otherwise, for a frame that needs no acknowledge (the acknowledge bit is clear and it is not addressed
  to a single device), pending while the medium transmits and then success; for a frame that needs one, over a
  medium that confirms in detail, what all events since the hand-over say: pending as long as none of them was an
  outcome, and then the last outcome - success exactly for an acknowledge, busy for a busy (also together with a
  negative one), failed for a negative one or none, timed out if the acknowledge deadline was missed. A medium
  without detailed confirmation knows no acknowledges: there every poll that does not fail reports success. (The
  layer is open without periodic diagnostics, and there are fewer than 2^32 events in all.)
\<close>

theorem tx_outcome_is_last_acknowledge:
  assumes "mac_ready s" "\<forall>b. mb_detailedTxConfirm B b = detailed" "decodeFrame bs ldata_frame_init = Inr f"
    and "mb_sendFrame B bs (mp_backend s) = (b, es, r)" "mac_beginTransmit B bs s = (s1, Inr initial)"
    and "all = es @ reported B (Suc n) (mp_backend s1)" "length all < 2 ^ 32"
  shows "snd (mac_pollTransmit B initial (polled B initial n s1)) =
    (case snd (snd (mb_service B (serviced B n (mp_backend s1)))) of
       Inl e \<Rightarrow> Inl e
     | Inr _ \<Rightarrow> Inr
         (if bs ! 0 AND 0x02 = 0 \<and> (destinationType f = Individual \<longrightarrow> isIndividualBroadcastAddress (destination f))
          then if mb_state B (serviced B (Suc n) (mp_backend s1)) = MsTransmitting then Pending else Success
          else if \<not> detailed then Success
          else if filter is_outcome all = [] then Pending else event_progress (last (filter is_outcome all))))"
proof -
  let ?b1 = "mp_backend s1" and ?p = "polled B initial n s1"
  note st = beginTransmit_state [OF assms(1-5)]
  obtain b' es' r' where m: "mb_service B (serviced B n ?b1) = (b', es', r')" by (metis prod_cases3)
  have p: "mac_ready ?p" "mp_backend ?p = serviced B n ?b1" "mp_txAckRequested ?p = needs_ack bs f"
    "mp_controller ?p = fold mc_event (reported B n ?b1) (mp_controller s1)"
    using polled_state [of s1 B initial n] st by simp_all
  have sv: "serviced B (Suc n) ?b1 = b'" "reported B (Suc n) ?b1 = reported B n ?b1 @ es'"
    using m by (simp_all add: serviced_def reported_def)
  let ?q = "fold onBackendEvent es' (?p\<lparr>mp_backend := b'\<rparr>)"
  have t: "onTick B ?p = (?q, r')" by (rule onTick_open [OF p(1)]) (simp add: p(2) m)
  have c: "mp_controller ?q = fold mc_event all (mp_controller s)" if detailed
    unfolding assms(6) sv using that st p(4) by simp
  have "length (filter is_outcome all) < 2 ^ 32" using assms(7) length_filter_le [of is_outcome all] by linarith
  then have z: "(of_nat (length (filter is_outcome all)) :: u32) = 0 \<longleftrightarrow> filter is_outcome all = []"
    by (auto simp: word_of_nat_eq_0_iff dest: dvd_imp_le)
  have q: "mc_txOutcomeSequence (mp_controller ?q) = initial \<longleftrightarrow> filter is_outcome all = []"
    "filter is_outcome all \<noteq> [] \<longrightarrow> ack_outcome (mp_controller ?q) = event_progress (last (filter is_outcome all))" if detailed
    using fold_mc_outcome [of all "mp_controller s"] c [OF that] st z by simp_all
  have "snd (mac_pollTransmit B initial ?p) = (case r' of Inl e \<Rightarrow> Inl e | Inr _ \<Rightarrow> Inr
      (if \<not> needs_ack bs f then if mb_state B b' = MsTransmitting then Pending else Success
       else if \<not> detailed then Success
       else if mc_txOutcomeSequence (mp_controller ?q) = initial then Pending else ack_outcome (mp_controller ?q)))"
    using p t assms(2) by (auto simp: mac_pollTransmit_def mac_ready_def split: sum.split)
  then show ?thesis using q by (auto simp: m sv needs_ack_def split: sum.split)
qed

text \<open>A frame to device 1.1.2, and its octets.\<close>

definition individual_octets :: bytes where
  "individual_octets =
     (case encodeFrame (sample_frame\<lparr>destinationType := Individual, destination := 0x1102\<rparr>) 263 of Inr bs \<Rightarrow> bs | Inl _ \<Rightarrow> [])"

definition individual_decoded :: ldata_frame where
  "individual_decoded = (case decodeFrame individual_octets ldata_frame_init of Inr f \<Rightarrow> f | Inl _ \<Rightarrow> ldata_frame_init)"

theorem tx_outcome_is_last_acknowledge_witness:
  "let s = sample_mac [[], [ack_event AcBusy], [ack_event AcAck], []]; s1 = fst (mac_beginTransmit sample_medium individual_octets s) in
   snd (mac_beginTransmit sample_medium individual_octets s) = Inr 0 \<and>
   snd (mac_pollTransmit sample_medium 0 (polled sample_medium 0 0 s1)) = Inr Pending \<and>
   snd (mac_pollTransmit sample_medium 0 (polled sample_medium 0 3 s1)) = Inr Success"
proof -
  let ?s = "sample_mac [[], [ack_event AcBusy], [ack_event AcAck], []]"
  let ?r = "mac_beginTransmit sample_medium individual_octets ?s"
  have h: "mac_ready ?s" "decodeFrame individual_octets ldata_frame_init = Inr individual_decoded" "snd ?r = Inr 0"
    "destinationType individual_decoded = Individual" "\<not> isIndividualBroadcastAddress (destination individual_decoded)"
    unfolding mac_ready_def by code_simp+
  have b: "mp_backend ?s = ([], [[], [ack_event AcBusy], [ack_event AcAck], []], 0)"
    "mp_backend (fst ?r) = ([individual_octets], [[], [ack_event AcBusy], [ack_event AcAck], []], 0)" by code_simp+
  have d: "\<forall>b. mb_detailedTxConfirm sample_medium b = True"
    "mb_sendFrame sample_medium individual_octets (mp_backend ?s) =
       (([individual_octets], [[], [ack_event AcBusy], [ack_event AcAck], []], 0), [], Inr (length individual_octets))"
    unfolding b by (simp_all add: sample_medium_def)
  have e: "reported sample_medium (Suc 0) (mp_backend (fst ?r)) = []"
    "reported sample_medium 4 (mp_backend (fst ?r)) = [ack_event AcBusy, ack_event AcAck]"
    "snd (snd (mb_service sample_medium (serviced sample_medium n (mp_backend (fst ?r))))) = Inr ()" for n
    unfolding b
    by (simp_all add: reported_def serviced_def sample_medium_def numeral_eq_Suc split: prod.split list.split)
  have o: "is_outcome (ack_event c)" "event_progress (ack_event AcAck) = Success" for c
    by (simp_all add: is_outcome_def ack_event_def event_progress_def)
  have r: "?r = (fst ?r, Inr 0)" using h(3) by (metis prod.collapse)
  have "snd (mac_pollTransmit sample_medium 0 (polled sample_medium 0 0 (fst ?r))) = Inr Pending"
    using tx_outcome_is_last_acknowledge [OF h(1) d(1) h(2) d(2) r refl, of 0] h(4,5) by (simp add: e)
  moreover have "snd (mac_pollTransmit sample_medium 0 (polled sample_medium 0 3 (fst ?r))) = Inr Success"
    using tx_outcome_is_last_acknowledge [OF h(1) d(1) h(2) d(2) r refl, of 3] h(4,5) by (simp add: e o)
  ultimately show ?thesis using h(3) by (simp add: Let_def)
qed

section \<open>Waiting ends\<close>

lemma unat_now [simp]: "unat (ucast (x :: u32) :: u64) = unat x"
proof -
  have "unat x < 2 ^ 64" using unsigned_less [of x] by (rule less_trans) simp
  then show ?thesis by (simp add: unsigned_ucast_eq take_bit_nat_eq_self)
qed

text \<open>A clock that a delay moves forward as long as the deadline has not passed, and that no service call
  turns back.\<close>

definition clock_runs :: "'b medium_backend \<Rightarrow> nat \<Rightarrow> bool" where
  "clock_runs B deadline \<longleftrightarrow>
     (\<forall>b. mb_now B b \<le> mb_now B (fst (mb_service B b))) \<and>
     (\<forall>b. unat (mb_now B b) < deadline \<longrightarrow> mb_now B b < mb_now B (mb_delay B 1 b))"

lemma mac_call_keeps:
  "mac_call g s = (s1, r) \<Longrightarrow> mp_backend s1 = fst (g (mp_backend s)) \<and>
     mc_periodTicks (mp_controller s1) = mc_periodTicks (mp_controller s)"
  by (auto simp: mac_call_def backendEvents_def split: prod.splits)

lemma tx_wait_returns:
  assumes "clock_runs B (unat deadline)" "unat deadline < 2 ^ 32"
    and "mc_periodTicks (mp_controller s) = 0" "unat deadline \<le> unat (mb_now B (mp_backend s)) + n"
  shows "\<exists>x. tx_wait (Suc n) B initial deadline s = Some x"
  using assms(3,4)
proof (induction n arbitrary: s)
  case 0
  obtain s1 r where t: "onTick B s = (s1, r)" by force
  have b: "mp_backend s1 = fst (mb_service B (mp_backend s))"
    using mac_call_keeps [of "mb_service B" s s1 r] t onTick_plain [OF 0(1), of B] by simp
  have "mb_now B (mp_backend s) \<le> mb_now B (mp_backend s1)" unfolding b using assms(1) by (simp add: clock_runs_def)
  then have "unat deadline \<le> unat (mb_now B (mp_backend s1))" using 0(2) by (simp add: word_le_nat_alt)
  then have "deadline \<le> mac_nowMs B s1" by (simp add: mac_nowMs_def word_le_nat_alt)
  then show ?case by (cases r) (auto simp: t)
next
  case (Suc n)
  obtain s1 r where t: "onTick B s = (s1, r)" by force
  have k: "mp_backend s1 = fst (mb_service B (mp_backend s))" "mc_periodTicks (mp_controller s1) = 0"
    using mac_call_keeps [of "mb_service B" s s1 r] t onTick_plain [OF Suc.prems(1), of B] Suc.prems(1) by simp_all
  have le: "mb_now B (mp_backend s) \<le> mb_now B (mp_backend s1)" unfolding k using assms(1) by (simp add: clock_runs_def)
  show ?case
  proof (cases "deadline \<le> mac_nowMs B s1")
    case True
    then show ?thesis by (cases r) (auto simp: t)
  next
    case False
    then have "unat (mb_now B (mp_backend s1)) < unat deadline"
      by (simp add: mac_nowMs_def word_le_nat_alt)
    then have "mb_now B (mp_backend s1) < mb_now B (mp_backend (mac_delay B s1))"
      using assms(1) by (simp add: clock_runs_def mac_delay_def)
    with le Suc.prems(2) have "unat deadline \<le> unat (mb_now B (mp_backend (mac_delay B s1))) + n"
      by (simp add: word_le_nat_alt word_less_nat_alt)
    then have "\<exists>x. tx_wait (Suc n) B initial deadline (mac_delay B s1) = Some x"
      by (intro Suc.IH) (simp_all add: mac_delay_def k(2))
    then show ?thesis by (cases r) (auto simp: t simp del: tx_wait.simps(2) simp: tx_wait.simps(2) [of "Suc n"])
  qed
qed

text \<open>
  C35. Waiting for the outcome of a transmission ends. If the clock moves forward with every delay, and the
  deadline does not pass the end of the 32-bit millisecond clock, \<open>waitForTxOutcome\<close> returns after at most one
  turn more than the timeout has milliseconds, whatever the medium reports. (No periodic diagnostics are set.)
\<close>

theorem wait_for_tx_outcome_returns:
  assumes "unat (mb_now B (mp_backend s)) + unat (mp_txOutcomeTimeoutMs s) < 2 ^ 32"
    and "clock_runs B (unat (mb_now B (mp_backend s)) + unat (mp_txOutcomeTimeoutMs s))"
    and "mc_periodTicks (mp_controller s) = 0"
  shows "\<exists>x. waitForTxOutcome (Suc (unat (mp_txOutcomeTimeoutMs s))) B initial s = Some x"
proof -
  let ?d = "mac_nowMs B s + ucast (mp_txOutcomeTimeoutMs s)"
  have "unat ?d = unat (mb_now B (mp_backend s)) + unat (mp_txOutcomeTimeoutMs s)"
    using assms(1) by (simp add: mac_nowMs_def unat_word_ariths)
  with tx_wait_returns [of B ?d s "unat (mp_txOutcomeTimeoutMs s)" initial] assms show ?thesis
    by (simp add: waitForTxOutcome_def)
qed

theorem wait_for_tx_outcome_returns_witness:
  "\<exists>x. waitForTxOutcome 21 sample_medium 0 ((sample_mac [])\<lparr>mp_txAckRequested := True\<rparr>) = Some x"
proof -
  let ?s = "(sample_mac [])\<lparr>mp_txAckRequested := True\<rparr>"
  have h: "mp_txOutcomeTimeoutMs ?s = 20" "mb_now sample_medium (mp_backend ?s) = 0" "mc_periodTicks (mp_controller ?s) = 0"
    by code_simp+
  have "clock_runs sample_medium 20"
    by (auto simp: clock_runs_def sample_medium_def word_less_nat_alt unat_word_ariths split: list.split)
  with wait_for_tx_outcome_returns [of sample_medium ?s 0] h show ?thesis by simp
qed

text \<open>The deadline is a 64-bit number and the clock a 32-bit one: a deadline at or past the end of the clock is
  never reached, and waiting for a frame does not time out.\<close>

lemma deadline_past_clock_end:
  assumes "2 ^ 32 \<le> unat (mp_receiveDeadlineMs s)"
  shows "snd (mac_pollReceive B s) \<noteq> Inr Timeout"
proof -
  have "mp_receiveDeadlineMs (fst (onTick B s)) = mp_receiveDeadlineMs s"
    by (auto simp: onTick_def mac_call_def backendEvents_def with_mc_def requestDiagnosticsSnapshot_def Let_def
        split: prod.splits sum.splits option.splits if_splits)
  moreover have "unat (mac_nowMs B s1) < 2 ^ 32" for s1
    using unsigned_less [of "mb_now B (mp_backend s1)"] by (simp add: mac_nowMs_def)
  ultimately have "\<not> mp_receiveDeadlineMs (fst (onTick B s)) \<le> mac_nowMs B (fst (onTick B s))"
    using assms by (metis leD le_trans word_le_nat_alt)
  then show ?thesis by (auto simp: mac_pollReceive_def Let_def split: prod.splits)
qed

section \<open>A frame crosses the medium\<close>

text \<open>A medium that takes every frame and is not transmitting any more when it is next served; \<open>W\<close> is what
  was put on the line. The platform has no timing source and its mutex is free.\<close>

definition line_medium :: "'b medium_backend \<Rightarrow> ('b \<Rightarrow> bytes list) \<Rightarrow> bool" where
  "line_medium B W \<longleftrightarrow>
     (\<forall>b. (\<forall>bs. isOk (snd (snd (mb_sendFrame B bs b))) \<and> W (fst (mb_sendFrame B bs b)) = W b @ [bs]) \<and>
       isOk (snd (snd (mb_service B b))) \<and> W (fst (mb_service B b)) = W b \<and> mb_state B (fst (mb_service B b)) \<noteq> MsTransmitting)"

definition plain_platform :: "'b link_env \<Rightarrow> bool" where
  "plain_platform E \<longleftrightarrow> env_millis E = None \<and> env_hasMutex E \<and> (\<forall>p. env_lock E p = (p, True) \<and> env_unlock E p = p)"

definition mac_open :: "'b mac_physical \<Rightarrow> bool" where
  "mac_open s \<longleftrightarrow> mp_initialized s \<and> \<not> mp_busMonitorMode s \<and> mp_linkState s \<noteq> LinkDown \<and>
     mc_attached (mp_controller s) \<and> mc_observed (mp_controller s) \<and> mc_periodTicks (mp_controller s) = 0"

lemma mac_call_simps:
  assumes "mac_call g s = (s1, r)" "mc_attached (mp_controller s)"
  shows "mp_backend s1 = fst (g (mp_backend s))" "r = snd (snd (g (mp_backend s)))" "mp_initialized s1 = mp_initialized s"
    "mp_txAckRequested s1 = mp_txAckRequested s" "mc_attached (mp_controller s1)"
    "mc_periodTicks (mp_controller s1) = mc_periodTicks (mp_controller s)"
  using assms by (auto simp: mac_call_def backendEvents_def split: prod.splits)

lemma mac_sends_group:
  assumes "line_medium B W" "mac_open s" "decodeFrame bs ldata_frame_init = Inr f" "bs \<noteq> []" "bs ! 0 AND 0x02 = 0"
    and "destinationType f = Group"
  shows "\<exists>s1 sq s2. mac_beginTransmit B bs s = (s1, Inr sq) \<and> mac_pollTransmit B sq s1 = (s2, Inr Success) \<and>
    W (mp_backend s2) = W (mp_backend s) @ [bs]"
proof -
  have v: "validateOutgoingFrame bs s = Inr f" "\<not> needs_ack bs f"
    using assms by (simp_all add: validateOutgoingFrame_def mac_open_def needs_ack_def)
  have at: "mc_attached (mp_controller s)" "mc_periodTicks (mp_controller s) = 0" "mp_initialized s"
    using assms(2) by (simp_all add: mac_open_def)
  let ?s = "s\<lparr>mp_txAckRequested := False\<rparr>"
  obtain s1 r where c: "mac_call (mb_sendFrame B bs) ?s = (s1, r)" by force
  note k = mac_call_simps [OF c, simplified, OF at(1)]
  have r: "isOk r" "W (mp_backend s1) = W (mp_backend s) @ [bs]" using k(1,2) assms(1) by (simp_all add: line_medium_def)
  obtain s1' r' where c1: "mac_call (mb_service B) s1 = (s1', r')" by force
  note k1 = mac_call_simps [OF c1 k(5)]
  have r1: "isOk r'" "W (mp_backend s1') = W (mp_backend s1)" "mb_state B (mp_backend s1') \<noteq> MsTransmitting"
    using k1(1,2) assms(1) by (simp_all add: line_medium_def)
  obtain s2 r2 where c2: "mac_call (mb_service B) s1' = (s2, r2)" by force
  note k2 = mac_call_simps [OF c2 k1(5)]
  have r2: "isOk r2" "W (mp_backend s2) = W (mp_backend s1')" "mb_state B (mp_backend s2) \<noteq> MsTransmitting"
    using k2(1,2) assms(1) by (simp_all add: line_medium_def)
  have t1: "onTick B s1 = (s1', r')" using onTick_plain [of s1 B] k(6) at(2) c1 by simp
  have t2: "onTick B s1' = (s2, r2)" using onTick_plain [of s1' B] k1(6) k(6) at(2) c2 by simp
  have bt: "mac_beginTransmit B bs s = (if mb_detailedTxConfirm B (mp_backend s1) then s1 else s1', Inr (mc_txOutcomeSequence (mp_controller s)))"
    using v c t1 r(1) r1(1) by (cases r; cases r') (simp_all add: mac_beginTransmit_def Let_def)
  have p1: "mac_pollTransmit B q s1 = (s1', Inr Success)" for q
    using t1 r1 k(3,4) k1(4) at(3) by (cases r') (simp_all add: mac_pollTransmit_def)
  have p2: "mac_pollTransmit B q s1' = (s2, Inr Success)" for q
    using t2 r2 k(3,4) k1(3,4) k2(4) at(3) by (cases r2) (simp_all add: mac_pollTransmit_def)
  show ?thesis
  proof (cases "mb_detailedTxConfirm B (mp_backend s1)")
    case True
    then show ?thesis using bt p1 r r1(2) by auto
  next
    case False
    then show ?thesis using bt p2 r r1(2) r2(2) by auto
  qed
qed

lemma link_sends:
  assumes "plain_platform E" "dl_initialized d" "\<not> tx_active (dl_tx d)" "encodeFrame f TX_BUFFER_SIZE = Inr bs"
    and "env_beginTransmit E (dl_env d) bs = (p1, Inr sq)" "env_pollTransmit E p1 sq = (p2, Inr Success)"
  shows "\<exists>d'. dl_sendFrame E (Suc fuel) d f = Some (d', Inr ()) \<and> dl_env d' = p2"
proof -
  let ?d1 = "fst (dl_beginTransmit E d f)"
  have d1: "snd (dl_beginTransmit E d f) = Inr ()" "dl_env ?d1 = dl_env d" "tx_octets (dl_tx ?d1) = bs" "tx_active (dl_tx ?d1)"
    "\<not> tx_waiting (dl_tx ?d1)" "dl_initialized ?d1"
    using assms(1-4) by (simp_all add: dl_beginTransmit_def plain_platform_def)
  let ?p = "dl_pollTransmit E ?d1"
  have "snd ?p = Inr Success \<and> dl_env (fst ?p) = p2"
    using d1 assms(1,5,6)
    by (simp add: dl_pollTransmit_def dl_now_def dl_pollOutcome_def plain_platform_def dl_finishTx_def)
  moreover have "dl_sendFrame E (Suc fuel) d f = Some (fst ?p, Inr ())"
    using d1(1) calculation by (simp add: dl_sendFrame_def case_prod_beta)
  ultimately show ?thesis by blast
qed

lemma encoded_ctrl:
  assumes "encodeFrame f n = Inr bs"
  shows "bs \<noteq> [] \<and> (\<not> ackRequested f \<longrightarrow> bs ! 0 AND 0x02 = 0) \<and> length bs = (if length (tpdu f) > 16 then 8 else 7) + length (tpdu f)"
proof -
  have b: "bs = encode_body f @ [calculateChecksum (encode_body f)]" using assms by (auto simp: encodeFrame_def Let_def split: if_splits)
  have "encode_ctrl e f AND 0x02 = 0" if "\<not> ackRequested f" for e
    using that by (intro word8_eqI) (simp_all add: encode_ctrl_def bit_simps)
  then show ?thesis unfolding b by (auto simp: encode_body_def Let_def)
qed

text \<open>A physical layer that listens, with an empty receive queue.\<close>

definition mac_listens :: "'b mac_physical \<Rightarrow> bool" where
  "mac_listens p \<longleftrightarrow> mp_initialized p \<and> mc_attached (mp_controller p) \<and> mc_observed (mp_controller p) \<and>
     mc_periodTicks (mp_controller p) = 0 \<and> ring_ok 32 (mp_rxQueue p) \<and> ring_contents (mp_rxQueue p) = []"

lemma tick_listens:
  assumes "mac_listens p" "mb_service B (mp_backend p) = (b, es, Inr ())"
  shows "onTick B p = (fold onBackendEvent es (p\<lparr>mp_backend := b\<rparr>), Inr ())"
  using assms by (simp add: onTick_plain mac_listens_def mac_call_def backendEvents_def)

lemma mac_takes:
  assumes "mac_listens p" "mp_receiveActive p" "mb_service B (mp_backend p) = (b, [e], Inr ())" "carries_telegram e"
  obtains p2 where "mac_pollReceive B p = (p2, Inr Success)" "mac_receivedFrameView p2 = Inr (te_frame e)"
    "mp_backend p2 = b" "mac_listens p2"
proof -
  let ?p = "onBackendEvent e (p\<lparr>mp_backend := b\<rparr>)" and ?q = "ring_add 32 (mp_rxQueue p) (te_frame e)"
  have q: "mp_rxQueue ?p = ?q"
    using assms(1,4) by (simp add: onBackendEvent_def mac_listens_def handleTp1Event_queue enqueue_rx_ring MAC_RX_QUEUE_CAPACITY_def Let_def)
  have ok: "ring_ok 32 ?q" "ring_contents ?q = [te_frame e]"
    using ring_add_latest [of 32 "mp_rxQueue p" "te_frame e"] assms(1) by (simp_all add: mac_listens_def latest_def)
  have c: "ring_count ?q = 1" using arg_cong [OF ok(2), of length] by simp
  have pop: "fst (ring_pop ?q) = te_frame e" "ring_contents (snd (ring_pop ?q)) = []" "ring_ok 32 (snd (ring_pop ?q))"
    using ring_pop_contents [OF ok(1)] ring_pop_ok [OF ok(1)] ok(2) c by auto
  let ?p2 = "?p\<lparr>mp_lastReceived := te_frame e, mp_rxQueue := snd (ring_pop ?q), mp_receiveActive := False\<rparr>"
  have "mac_pollReceive B p = (?p2, Inr Success)"
    using assms(1,2) tick_listens [OF assms(1,3)] q c pop
    by (simp add: mac_pollReceive_def mac_listens_def Let_def split_beta)
  moreover have "te_frame e \<noteq> []" using assms(4) by (simp add: carries_telegram_def)
  ultimately show ?thesis
    using assms(1) pop(2,3) by (intro that [of ?p2]) (simp_all add: mac_receivedFrameView_def mac_listens_def)
qed

lemma mac_waits:
  assumes "mac_listens p" "mp_receiveActive p" "mb_service B (mp_backend p) = (b, [], Inr ())"
    and "mp_receiveDeadlineMs p \<le> ucast (mb_now B b)"
  shows "\<exists>p2. mac_pollReceive B p = (p2, Inr Timeout)"
proof -
  have "ring_count (mp_rxQueue p) = 0" using assms(1) by (simp add: mac_listens_def flip: ring_contents_length)
  then show ?thesis
    using assms tick_listens [OF assms(1,3)] by (simp add: mac_pollReceive_def mac_listens_def mac_nowMs_def Let_def)
qed

lemma mac_listens_begin:
  "mac_listens p \<Longrightarrow> mac_beginReceive B t p = (p\<lparr>mp_receiveActive := True, mp_lastReceived := [],
      mp_receiveDeadlineMs := mac_nowMs B p + ucast t\<rparr>, Inr ()) \<and>
    mac_listens (p\<lparr>mp_receiveActive := True, mp_lastReceived := [], mp_receiveDeadlineMs := x\<rparr>)"
  by (simp add: mac_beginReceive_def mac_listens_def)

text \<open>A data link whose medium reports one telegram and then nothing more.\<close>

lemma link_receives:
  assumes "mac_listens (dl_env d)"
    and "mb_service B (mp_backend (dl_env d)) = (b1, [e], Inr ())" "mb_service B b1 = (b2, [], Inr ())" "mb_now B b1 \<le> mb_now B b2"
    and "carries_telegram e" "decodeFrame (te_frame e) ldata_frame_init = Inr f" "\<not> repeated f"
    and "\<not> dl_hasRxTask d" "\<not> dl_rxProcessing d" "\<not> rx_active (dl_rx d)" "dl_hasCallback d"
    and "False \<in> set (dl_frameInUse d)" "isAddressMatch d (destination f) (destinationType f)"
  shows "\<exists>d'. processRxAvailable (mac_env B E) 2 d 0 = Some (d', [f], dl_lastDelivered d')"
proof -
  let ?E = "mac_env B E"
  let ?d1 = "d\<lparr>dl_rxProcessing := True, dl_lastDelivered := 0, dl_rx := rx_operation_init\<lparr>rx_active := True, rx_firstTimeout := 0\<rparr>\<rparr>"
  let ?p1 = "(dl_env d)\<lparr>mp_receiveActive := True, mp_lastReceived := [], mp_receiveDeadlineMs := mac_nowMs B (dl_env d) + 0\<rparr>"
  have b: "dl_beginReceive d 0 = (?d1, Inr ())" using assms by (simp add: dl_beginReceive_def Let_def)
  have l1: "mac_listens ?p1" "mac_beginReceive B 0 (dl_env d) = (?p1, Inr ())"
    using mac_listens_begin [OF assms(1), of B 0] by simp_all
  obtain p2 where p2: "mac_pollReceive B ?p1 = (p2, Inr Success)" "mac_receivedFrameView p2 = Inr (te_frame e)"
    "mp_backend p2 = b1" "mac_listens p2"
    using mac_takes [OF l1(1), of B b1 e] assms(2,5) by auto
  let ?d2 = "?d1\<lparr>dl_env := p2, dl_rx := (dl_rx ?d1)\<lparr>rx_waiting := False\<rparr>\<rparr>"
  have m: "isAddressMatch ?d2 a ty = isAddressMatch d a ty" for a ty by (simp add: isAddressMatch_def)
  have rx: "snd (rx_buffer ?d2 (te_frame e)) = Some f"
    using rx_buffer_decoded [OF assms(6), of ?d2] assms(7,11-13) m by (simp add: isRepetitionOfLastRxFrame_def)
  let ?s4 = "fst (rx_buffer ?d2 (te_frame e))"
  let ?d3 = "?s4\<lparr>dl_rx := (dl_rx ?s4)\<lparr>rx_readIndex := rx_readIndex (dl_rx ?s4) + 1\<rparr>\<rparr>"
  have w: "rx_waiting (dl_rx ?s4) = False" "rx_active (dl_rx ?s4)" "dl_env ?s4 = p2" "rx_firstTimeout (dl_rx ?s4) = 0"
    by (auto simp: rx_buffer_def allocateFrame_def releaseFrame_def rememberRxFrame_def rx_operation_init_def Let_def
        split: option.split sum.split)
  have t1: "rx_turn ?E ?d1 = (?d3, [f], None)"
    using l1(2) p2 rx unfolding rx_turn_def
    by (simp add: mac_env_def rx_operation_init_def split_beta Let_def)
  let ?p3 = "p2\<lparr>mp_receiveActive := True, mp_lastReceived := [], mp_receiveDeadlineMs := mac_nowMs B p2 + 0\<rparr>"
  have l3: "mac_listens ?p3" "mac_beginReceive B 0 p2 = (?p3, Inr ())"
    using mac_listens_begin [OF p2(4), of B 0] by simp_all
  have "mac_nowMs B p2 \<le> ucast (mb_now B b2)"
    using assms(4) p2(3) by (simp add: mac_nowMs_def word_le_nat_alt)
  then obtain p4 where p4: "mac_pollReceive B ?p3 = (p4, Inr Timeout)"
    using mac_waits [OF l3(1), of B b2] assms(3) p2(3) by auto
  have "\<exists>x. rx_turn ?E ?d3 = (x, [], Some Success)"
    using l3(2) p4 w unfolding rx_turn_def by (simp add: mac_env_def Let_def)
  then obtain x where t2: "rx_turn ?E ?d3 = (x, [], Some Success)" by blast
  have "dl_pollReceive ?E 2 ?d1 = Some (x, [f], Inr Success)"
    using t1 t2 w(2) by (simp add: dl_pollReceive_def numeral_2_eq_2 rx_operation_init_def)
  then show ?thesis using assms(8) b
    by (auto simp: processRxAvailable_def processRxAvailableInternal_def Let_def)
qed

text \<open>
  C10. A group frame gets from one data link layer over the physical layers to another. The sender's data link
  hands the frame to its physical layer, which takes it and puts exactly one sequence of octets on the line,
  and the send succeeds. When the medium of another station reports these octets, that station's data link
  passes exactly this frame to its callback, provided it listens to the group and has nothing else received or
  waiting; only the flag for the standard format is set anew, from the length. The frame is valid, carries no
  acknowledge request, is not marked as a repetition and has at most 248 octets.
\<close>

theorem group_frame_crosses_line:
  assumes "line_medium B W" "plain_platform E" "mac_open (dl_env d)" "dl_initialized d" "\<not> tx_active (dl_tx d)"
    and "ldata_isValid f" "length (tpdu f) \<le> 248" "\<not> ackRequested f" "\<not> repeated f" "destinationType f = Group"
    and "mac_listens (dl_env r)" "\<not> dl_hasRxTask r" "\<not> dl_rxProcessing r" "\<not> rx_active (dl_rx r)" "dl_hasCallback r"
      "False \<in> set (dl_frameInUse r)" "isAddressMatch r (destination f) Group"
  shows "\<exists>d' bs. dl_sendFrame (mac_env B E) (Suc k) d f = Some (d', Inr ()) \<and>
     W (mp_backend (dl_env d')) = W (mp_backend (dl_env d)) @ [bs] \<and>
     (\<forall>B' E' b1 b2. mb_service B' (mp_backend (dl_env r)) = (b1, [telegram_event bs], Inr ()) \<and>
        mb_service B' b1 = (b2, [], Inr ()) \<and> mb_now B' b1 \<le> mb_now B' b2 \<longrightarrow>
        (\<exists>r'. processRxAvailable (mac_env B' E') 2 r 0 = Some (r', [f\<lparr>standardFrame := length (tpdu f) \<le> 16\<rparr>], dl_lastDelivered r')))"
proof -
  have "encodeFrame f TX_BUFFER_SIZE = Inr (encode_body f @ [calculateChecksum (encode_body f)])"
    using assms(6,7) valid_length [OF assms(6)] by (auto simp: encodeFrame_def TX_BUFFER_SIZE_def Let_def)
  then obtain bs where bs: "encodeFrame f TX_BUFFER_SIZE = Inr bs" by blast
  let ?f = "f\<lparr>standardFrame := length (tpdu f) \<le> 16\<rparr>"
  have v: "decodeFrame bs ldata_frame_init = Inr ?f" by (rule encode_decode [OF bs])
  note c = encoded_ctrl [OF bs]
  obtain s1 sq s2 where t: "mac_beginTransmit B bs (dl_env d) = (s1, Inr sq)" "mac_pollTransmit B sq s1 = (s2, Inr Success)"
    "W (mp_backend s2) = W (mp_backend (dl_env d)) @ [bs]"
    using mac_sends_group [OF assms(1,3) v] c assms(8,10) by auto
  have pl: "plain_platform (mac_env B E)" using assms(2) by (simp add: plain_platform_def mac_env_def)
  obtain d' where d': "dl_sendFrame (mac_env B E) (Suc k) d f = Some (d', Inr ())" "dl_env d' = s2"
    using link_sends [OF pl assms(4,5) bs, of s1 sq s2 k] t(1,2) by (auto simp: mac_env_def)
  have tele: "carries_telegram (telegram_event bs)"
    using c assms(7) valid_length [OF assms(6)] by (auto simp: carries_telegram_def telegram_event_def tp1_event_init_def)
  have "te_frame (telegram_event bs) = bs" by (simp add: telegram_event_def)
  then have "\<exists>r'. processRxAvailable (mac_env B' E') 2 r 0 = Some (r', [?f], dl_lastDelivered r')"
    if "mb_service B' (mp_backend (dl_env r)) = (b1, [telegram_event bs], Inr ())" "mb_service B' b1 = (b2, [], Inr ())"
      "mb_now B' b1 \<le> mb_now B' b2" for B' E' b1 b2
    using link_receives [OF assms(11) that(1-3) tele _ _ assms(12-16), of ?f] v assms(9,10,17) by simp
  then show ?thesis using d' t(3) by (intro exI [of _ d'] exI [of _ bs]) auto
qed

definition sample_line_link :: "(bytes list \<times> tp1_event list list \<times> u32) mac_physical datalink" where
  "sample_line_link = (datalink_init (sample_mac []) False)\<lparr>dl_initialized := True, dl_groups := [0x0801], dl_hasCallback := True\<rparr>"

definition line_group_frame :: ldata_frame where
  "line_group_frame = ldata_frame_init\<lparr>source := 0x1105, destination := 0x0801, destinationType := Group,
     ackRequested := False, repeated := False, hopCount := 6, tpdu := [0x00, 0x81]\<rparr>"

definition sample_platform :: "'p link_env" where
  "sample_platform = \<lparr>env_init = \<lambda>p. (p, Inr ()), env_close = id, env_isOpen = \<lambda>_. True, env_beginTransmit = \<lambda>p bs. (p, Inr 0),
     env_pollTransmit = \<lambda>p sq. (p, Inr Success), env_beginReceive = \<lambda>p t. (p, Inr ()), env_pollReceive = \<lambda>p. (p, Inr Timeout),
     env_receivedFrameView = \<lambda>p. (p, Inl OperationNotReady), env_setOwnAddress = \<lambda>p a. p, env_setAckGroupAddresses = \<lambda>p gs. p,
     env_millis = None, env_hasMutex = True, env_createTask = \<lambda>p. (p, True), env_lock = \<lambda>p. (p, True), env_unlock = \<lambda>p. p,
     env_taskDelay = \<lambda>p. p, env_notify = \<lambda>p. (p, True)\<rparr>"

theorem group_frame_crosses_line_witness:
  "\<exists>d' bs. dl_sendFrame (mac_env sample_medium sample_platform) 1 sample_line_link line_group_frame = Some (d', Inr ()) \<and>
     fst (mp_backend (dl_env d')) = [bs]"
proof -
  have l: "line_medium sample_medium fst" by (auto simp: line_medium_def sample_medium_def split: list.split)
  have p: "plain_platform (sample_platform :: 'p link_env)" by (simp add: plain_platform_def sample_platform_def)
  have b: "fst (mp_backend (dl_env sample_line_link)) = []" by code_simp
  have "\<exists>d' bs. dl_sendFrame (mac_env sample_medium sample_platform) (Suc 0) sample_line_link line_group_frame = Some (d', Inr ()) \<and>
     fst (mp_backend (dl_env d')) = fst (mp_backend (dl_env sample_line_link)) @ [bs] \<and>
     (\<forall>B' E' b1 b2. mb_service B' (mp_backend (dl_env sample_line_link)) = (b1, [telegram_event bs], Inr ()) \<and>
        mb_service B' b1 = (b2, [], Inr ()) \<and> mb_now B' b1 \<le> mb_now B' b2 \<longrightarrow>
        (\<exists>r'. processRxAvailable (mac_env B' E') 2 sample_line_link 0 =
           Some (r', [line_group_frame\<lparr>standardFrame := length (tpdu line_group_frame) \<le> 16\<rparr>], dl_lastDelivered r')))"
    by (rule group_frame_crosses_line [OF l p]) code_simp+
  then show ?thesis unfolding b by auto
qed

text \<open>The data link sends frames of up to 263 octets; the physical layer of the receiver drops those of more
  than 256.\<close>

lemma long_frame_lost:
  assumes "encodeFrame f TX_BUFFER_SIZE = Inr bs" "length (tpdu f) > 248"
  shows "\<not> carries_telegram (telegram_event bs)"
  using encoded_ctrl [OF assms(1)] assms(2) by (auto simp: carries_telegram_def telegram_event_def)

end
