(* ===== verification/Spec2Isabelle.thy ===== *)
theory Spec2Isabelle
  imports Two_Port_Coupler Secure_Client Ip_Bridge Stack_Port Mac_Physical
begin

text \<open>
  \<^bold>\<open>KNstaX: a KNX stack.\<close>

  KNstaX implements the KNX protocol stack for TP1 and IP devices and couplers in C++. This development
  models its communication from the octets on the bus up to the group objects of a device, its security and
  its KNXnet/IP tunnelling and routing, plain and secured.

  \<^bold>\<open>The parts and how they interact.\<close> The MAC controller and its facade (\<open>src/physical\<close>) turn the events of a
  medium into a queue of received octet strings and into transmission outcomes, and hand them to the data link
  layer (\<open>src/datalink/tp1_data_link_layer.cpp\<close>), which decodes them with the frame codec
  (\<open>src/datalink/frame_codec.cpp\<close>), suppresses repetitions, filters by address and calls the network
  layer. The network layer (\<open>src/network/network_layer.cpp\<close>) filters and routes
  (\<open>filter_table.cpp\<close>, \<open>routing_table.cpp\<close>), queues frames to forward and calls the transport layer
  (\<open>src/transport\<close>), which runs the connection state machine and the connection table, answers control
  frames, and indicates data to the application. Sending goes the same way down, either blocking
  (\<open>sendFrame\<close>) or as an operation that is begun and polled. Between transport and application sits the
  secure application layer (\<open>src/security/secure_application_layer.cpp\<close>), which wraps and unwraps messages
  with the keys of the security interface object. A coupler
  (\<open>src/network/two_port_coupler.cpp\<close>) sits on two data links and decides with its policy
  (\<open>coupler_routing.cpp\<close>) what crosses; a management client programs its filter table through
  \<open>routing_table_control.cpp\<close>. A bridge (\<open>tp1_ip_interface_bridge.cpp\<close>) joins a data link and a tunnelling
  server (\<open>src/netip\<close>), to which tunnelling clients connect; routing endpoints exchange frames by multicast. Both
  can be secured: the packets of a routing group or of a TCP session then travel in secure wrappers
  (\<open>secure_wrapper.cpp\<close>), and a session is set up by a handshake (\<open>secure_session.cpp\<close>). The application layer
  (\<open>src/application/application_layer.cpp\<close>) parses the services, checks whether a request may change the
  device, and dispatches it to the memory, property, authorization, restart, descriptor and network parameter
  services; group values go on to the user. At the top the bus access unit
  (\<open>src/bau/bau_group_runtime.cpp\<close>) leads group telegrams through the address and association tables
  (\<open>src/objects\<close>) to group objects, whose octets are the encoding of datapoint values
  (\<open>src/application/dpt.cpp\<close>), and sends values under a transmit policy and a rate limit. The stack port (\<open>src/bau/bau_stack_port.cpp\<close>) builds the layers of a
  device, connects them, and is what the bus access unit calls.

  \<^bold>\<open>Theories.\<close>
  \<^item> \<open>Knx_Base\<close>: words, addresses, priorities, error codes and results, progress states, the bounded
    vector \<open>FixedVector\<close>, and the lemmas on them (\<open>include/knx/types.hpp\<close>, \<open>include/knx/util\<close>).
  \<^item> \<open>Interfaces\<close>: the contracts the layers share, as locales: \<open>bounded_fifo\<close> (a bounded queue that
    drops what does not fit), \<open>keyed_table\<close> (look-up after an update through a found entry),
    \<open>single_flight\<close> (begin and poll of one operation at a time), \<open>latest_fifo\<close> (a queue that drops its
    oldest entry), \<open>result_codec\<close> (a decoder that undoes its encoder) and \<open>sequenced_receiver\<close> (only the next number is taken), with what follows from each; and
    the ring buffer the queues are made of. Every locale is interpreted on the model's own operations in the
    theories that provide them.
  \<^item> \<open>Tpdu_Codec\<close>, \<open>Frame_Codec\<close>: \<open>include/knx/protocol\<close> and the TP1 frame codec.
  \<^item> \<open>Data_Link\<close>: \<open>Tp1DataLinkLayer\<close>; one record for the layer, one definition per method.
  \<^item> \<open>Filter_Table\<close>: \<open>FilterTable\<close>, \<open>RoutingTable\<close>, \<open>RoutingTableControl\<close>.
  \<^item> \<open>Coupler_Routing\<close>, \<open>Two_Port_Coupler\<close>: \<open>CouplerRoutingPolicy\<close>, \<open>TwoPortCoupler\<close>.
  \<^item> \<open>Network_Layer\<close>: \<open>NetworkLayer\<close>, over any data link (\<open>'d dl_ops\<close>).
  \<^item> \<open>Connection\<close>: \<open>ConnectionStateMachine\<close> and \<open>ConnectionTable\<close>.
  \<^item> \<open>Transport\<close>: \<open>TransportLayer\<close>, blocking and asynchronous; \<open>Transport_Reliability\<close>: what its
    connections guarantee.
  \<^item> \<open>Stack\<close>: transport over network over the TP1 data link, as the stack port assembles them; \<open>Stack_Port\<close>: the
    stack port itself, with the secure application layer as the transforms of the transport layer, and the device from
    its data link up to the group objects.
  \<^item> \<open>Tp1_Line\<close>: the Manchester codec, the frame codec of the physical layer and the link monitor; \<open>Mac_Physical\<close>:
    \<open>Tp1MacController\<close> and \<open>Tp1MacPhysical\<close> over any medium, and the data link on top of them.
  \<^item> \<open>Netip_Codec\<close>: the KNXnet/IP packet writer, header, control and tunnelling packets, and cEMI.
  \<^item> \<open>Tunneling_Server\<close>: \<open>TunnelingServerEndpoint\<close>; \<open>Tunneling_Spec\<close>: the abstract channel table it refines;
    \<open>Tunneling_Client\<close>: \<open>TunnelingSessionClient\<close> and the tunnel that both ends form.
  \<^item> \<open>Netip_Secure\<close>: \<open>SecureWrapper\<close>, key derivation, \<open>SecureSession\<close> and \<open>SecureSessionBootstrap\<close>; \<open>Netip_Routing\<close>:
    \<open>RoutingCodec\<close>, \<open>SecureRoutingSecurity\<close>, the secured datagram channel and \<open>RoutingEndpoint\<close>, with the locale
    \<open>datagram_security\<close> for what the users of \<open>NetIpSecurity\<close> rely on; \<open>Secure_Tunnel\<close>: frames on a TCP stream, plain
    and secured, with the locale \<open>framed_security\<close>; \<open>Secure_Client\<close>: \<open>SecureTunnelingClient\<close>.
  \<^item> \<open>Ip_Bridge\<close>: \<open>Tp1IpInterfaceBridge\<close>, over the data link and the tunnelling server.
  \<^item> \<open>Secure_Primitives\<close>, \<open>Data_Secure\<close>: replay window, CBC-MAC, CTR and CCM over an abstract block cipher,
    the group session; \<open>Secure_Application\<close>: \<open>SecureApplicationLayer\<close> and the security interface object.
  \<^item> \<open>Object_Tables\<close>: the address and the association table; \<open>Dpt\<close>: datapoint types; \<open>Group_Object\<close>: group
    objects, their table and the rate limiter; \<open>Group_Runtime\<close>: the group communication of \<open>BusAccessUnit\<close>.
  \<^item> \<open>Apci\<close>: service codes, the APCI field, return codes and the extended property header
    (\<open>include/knx/application/apci_services.hpp\<close>); \<open>Memory_Service\<close>: \<open>AddressSpace\<close>, \<open>MemoryService\<close> and the storage
    segments, with the locale \<open>memory_backend\<close>; \<open>Access_Control\<close>: \<open>AuthorizationService\<close>, the access policies,
    \<open>RestartService\<close>; \<open>Property_Store\<close>, \<open>Property_Services\<close>: the property store and the classic, extended and
    function property services; \<open>Device_Services\<close>: descriptors, serial number, network parameters.
  \<^item> \<open>Application_Layer\<close>: \<open>ApplicationLayer\<close> over the transport layer and these services, one definition per handler;
    \<open>Application_Spec\<close>: what it guarantees.

  \<^bold>\<open>How the code is represented.\<close> A class is a record of its members, a method a function from the
  record to the record and its result; \<open>util::Result<T>\<close> is \<open>error_code + 'a\<close>; integers keep their
  width as words and wrap as in C++. What the code calls through pointers or callbacks is a parameter:
  the physical port, the clock, the mutex and the scheduler are the fields of \<open>'p link_env\<close>, the
  security transforms are \<open>'u hooks\<close>, the UDP and TCP sockets, the block cipher and the functions of the cryptographic library, the stack port under the bus access unit
  and the floating-point arithmetic likewise; nothing is assumed of them except what a property states. Calls to
  the receive callback are the list \<open>tl_indications\<close> (transport), the returned frame (network, data
  link) or an event list (coupler); the callbacks of the bus access unit are functions on its state, since
  they may call back into it. A pointer into the connection table is an update of the first entry
  with its key. Logging and statistics output have no counterpart; the statistics counters are kept.

  \<^bold>\<open>Loops.\<close> Every loop over data is structural or has a termination proof. The loops that poll the outside
  world have fuel or may not return. \<open>dl_sendLoop\<close> (the loop of \<open>sendFrame\<close>): \<open>7 * (K + 2)\<close> polls are enough
  when the physical layer answers \<open>Pending\<close> at most \<open>K\<close> times per attempt, because a frame has at most seven
  attempts (the first, three busy retries, three repetitions). \<open>rx_loop\<close> (the loop of \<open>pollReceive\<close>): one turn
  more than frames are waiting is enough. \<open>tx_wait\<close> (the loop of \<open>waitForTxOutcome\<close>): one turn more than the
  timeout has milliseconds is enough on a clock that moves with every delay. \<open>wait_loop\<close>, \<open>tc_receive_loop\<close> and \<open>wait_ack_loop\<close> (tunnelling) run until
  a deadline of the clock; their fuel counts turns, and \<open>None\<close> means that they still wait; so do the blocking operations
  of the secure client, which then have the value \<open>StillWaiting\<close>. \<open>await_response\<close> (the busy wait
  of an immediate response) is a partial function: it returns if the port ever leaves \<open>Pending\<close>
  (\<open>await_response_returns\<close>).

  \<^bold>\<open>What is proved.\<close> Codecs: encoding and decoding are inverse, every single-octet change is detected; datapoint
  values have the width of their type and come back unchanged, or within a stated bound.
  Data link: accepted transmissions and outcomes are in balance, the mutex and retry budgets are kept, the
  loops return, a repetition is indicated once. Tables: save and load are inverse, range commands are
  all or nothing and have the effect the client asked for, bounds hold under every operation. Coupler: a frame
  crosses in one direction only, an echo is suppressed, the hop count bounds the number of couplers, a locked
  coupler stays reachable. Network layer: one operation on the link at a time, a bounded first-in-first-out
  queue, local delivery exactly when addressed. Transport: the connection table invariant, gapless in-order
  delivery, exactly-once delivery under repetitions, at most three identical repetitions that the link reports as
  sent, refusal of a
  second client. Stack: a telegram given to one station's transport layer reaches the other's
  application unchanged; a group value sent by one device is what the group objects of another hold after its loop has
  run; with security on, only an authentic message under the tool key changes the configuration. Physical layer: what
  is encoded is decoded, a wrong half-bit is found, the link state is debounced, the receive queue keeps the newest
  frames, the outcome of a frame is what a confirming medium said last since the hand-over, and a frame crosses from data link to data link. Tunnelling: the server refines an abstract table of channels, what a client sends
  arrives once and in order. Secured KNXnet/IP: the wrapper opens exactly what was wrapped with the same key and session,
  both ends of a handshake have the same key, routing frames reach the group, secured frames cross a stream whole and
  in order however it cuts them, the client uses no socket or channel that does not exist. Security: the optimised MAC and counter mode equal their definitions, protected
  messages are delivered once and only once, sequence numbers increase. Group communication: a telegram
  changes exactly the objects it is meant for (none, if the address has more than 16), a read is answered once, due
  values are released and no others, the rate
  limit holds, initial reads reach every object. Application services: the memory a client sees is a map from
  addresses to octets, regions never overlap, a property write is read back and touches nothing else, each property handler
  answers once, an access level is backed by the key that opens it and was presented, a telegram is parsed as it was built, each send
  has one outcome within its attempts, and in security mode requests without the tool key change no
  configuration. Properties that show a defect of the code say so in their text.

  \<^bold>\<open>Not modelled.\<close> The RX worker thread of the data link and the keepalive thread of the tunnelling client:
  their operations are modelled, their interleaving with the callers is left to the mutex, whose discipline is. The TPUART
  driver, the bit-banging drivers, sockets and platforms: hardware and operating-system access, behind the parameters
  named above.  KNXnet/IP discovery and device management. The server's side of a secure session. The property kernel of the
  interface objects with its load states and persistence, and the initialisation, management and diagnostics parts of
  the bus access unit: a device's configuration enters this model through the tables and the providers that are
  parameters of the application layer. ETS import and migration run on a host; the product templates are evaluated by
  the compiler.
\<close>

end
